(* ===== verification/Prelude.thy ===== *)
theory Prelude
  imports Main "HOL-Library.Word" "HOL-Library.Monad_Syntax"
begin

text \<open>
  Shared vocabulary of the development: machine integer types, little-endian packing (the byte
  order of the ESP32-S3 the firmware runs on, which every memcpy between an integer and a byte
  buffer relies on), and the generic facts on words and lists the component proofs use.

  Fallible and stateful code is written in the option monad with the state passed explicitly:
  a C function that reads and writes state of type 's and returns an 'a is a HOL function into
  ('a * 's) option. None stands for the two outcomes C gives no meaning to: an access outside an
  array (undefined behaviour) and a loop that never ends. A theorem that a call equals Some ...
  therefore also says that neither happens.
\<close>

unbundle bit_operations_syntax

type_synonym u8 = "8 word"
type_synonym u16 = "16 word"
type_synonym u32 = "32 word"
type_synonym u64 = "64 word"
type_synonym byte = "8 word"

named_theorems le_simps \<open>little-endian packing and unpacking\<close>
named_theorems page_simps \<open>arithmetic of pages and offsets\<close>

subsection \<open>Little-endian integers\<close>

definition bytes_of_u16 :: "u16 \<Rightarrow> byte list" where
  "bytes_of_u16 w = [ucast w, ucast (drop_bit 8 w)]"

definition bytes_of_u32 :: "u32 \<Rightarrow> byte list" where
  "bytes_of_u32 w = [ucast w, ucast (drop_bit 8 w), ucast (drop_bit 16 w), ucast (drop_bit 24 w)]"

primrec u32_of_bytes :: "byte list \<Rightarrow> u32" where
  "u32_of_bytes [] = 0"
| "u32_of_bytes (b # bs) = ucast b OR push_bit 8 (u32_of_bytes bs)"

definition u16_of_bytes :: "byte list \<Rightarrow> u16" where
  "u16_of_bytes bs = ucast (u32_of_bytes (take 2 bs))"

lemma length_bytes_of_u32 [simp]: "length (bytes_of_u32 w) = 4"
  by (simp add: bytes_of_u32_def)

lemma length_bytes_of_u16 [simp]: "length (bytes_of_u16 w) = 2"
  by (simp add: bytes_of_u16_def)

lemma u32_of_bytes_of_u32 [simp, le_simps]: "u32_of_bytes (bytes_of_u32 w) = w"
proof (rule bit_word_eqI)
  fix n :: nat
  assume "n < LENGTH(32)"
  then consider "n < 8" | "8 \<le> n" "n < 16" | "16 \<le> n" "n < 24" | "24 \<le> n" "n < 32" by fastforce
  then show "bit (u32_of_bytes (bytes_of_u32 w)) n = bit w n"
    by cases (auto simp: bytes_of_u32_def bit_simps)
qed

lemma u16_of_bytes_of_u16 [simp, le_simps]: "u16_of_bytes (bytes_of_u16 w) = w"
  by (rule bit_word_eqI) (auto simp: bytes_of_u16_def u16_of_bytes_def bit_simps)

lemma bytes_of_u32_of_bytes [le_simps]:
  "bytes_of_u32 (u32_of_bytes [a, b, c, d]) = [a, b, c, d]"
  unfolding bytes_of_u32_def
  by (intro list.inject [THEN iffD2] conjI bit_word_eqI)
    (auto simp: bit_simps dest: bit_imp_le_length)

lemma take_bit_u32_of_bytes: "take_bit (8 * length bs) (u32_of_bytes bs) = u32_of_bytes bs"
proof (induction bs)
  case Nil
  show ?case by simp
next
  case (Cons b bs)
  have "take_bit (8 + 8 * length bs) (ucast b :: u32) = ucast b"
    by (rule bit_word_eqI) (auto simp: bit_simps dest: bit_imp_le_length)
  moreover have "take_bit (8 + 8 * length bs) (push_bit 8 (u32_of_bytes bs)) = push_bit 8 (u32_of_bytes bs)"
    using Cons.IH by (simp add: take_bit_push_bit)
  ultimately show ?case by (simp add: take_bit_or)
qed

subsection \<open>Bit masks\<close>

lemma and_exp_cases: "(v::'a::len word) AND 2 ^ n = (if bit v n then 2 ^ n else 0)"
  by (rule bit_word_eqI) (auto simp: bit_simps)

lemma and_sub_trans: "x AND y = x \<Longrightarrow> y AND z = y \<Longrightarrow> x AND z = (x :: 'a::len word)"
  by (metis and.assoc)

subsection \<open>Alignment and buffers\<close>

lemma byte_and_ff [simp]: "(x::byte) AND 0xFF = x" "0xFF AND (x::byte) = x"
proof -
  have "(0xFF::byte) = - 1" by simp
  then show "x AND 0xFF = x" "0xFF AND x = x" by (simp_all only: and.right_neutral and.left_neutral)
qed

lemma byte_and_eq_ff: "(x::byte) AND y = 0xFF \<Longrightarrow> x = 0xFF"
proof -
  assume *: "x AND y = 0xFF"
  have ff: "(0xFF::byte) = - 1" by simp
  have "bit x n" if "n < 8" for n
    using arg_cong [OF * [unfolded ff], of "\<lambda>z. bit z n"] that by (simp add: bit_simps)
  then show ?thesis unfolding ff by (intro bit_word_eqI) (simp add: bit_simps)
qed

lemma and_not_mask_eq: "a AND NOT (mask k) = push_bit k (drop_bit k (a :: 'a::len word))"
  by (rule bit_word_eqI) (auto simp: bit_simps)

lemma unat_align_down:
  fixes a :: "'a::len word"
  shows "unat (a AND NOT (2 ^ k - 1)) = unat a - unat a mod 2 ^ k"
proof -
  have lt: "unat a < 2 ^ LENGTH('a)" by (rule unsigned_less)
  then have "unat a div 2 ^ k * 2 ^ k < 2 ^ LENGTH('a)"
    using div_times_less_eq_dividend le_less_trans by blast
  with lt have "unat (a AND NOT (2 ^ k - 1)) = unat a div 2 ^ k * 2 ^ k"
    unfolding mask_eq_exp_minus_1 [symmetric] and_not_mask_eq unsigned_push_bit_eq unsigned_drop_bit_eq
    by (simp add: push_bit_eq_mult drop_bit_eq_div take_bit_nat_eq_self)
  then show ?thesis by (simp add: minus_mod_eq_div_mult)
qed

lemma unat_exp: "k < 32 \<Longrightarrow> unat (2 ^ k :: u32) = 2 ^ k"
proof -
  assume k: "k < 32"
  then have "(2::nat) ^ k < 2 ^ 32" by (intro power_strict_increasing) auto
  then show ?thesis using unat_of_nat [of "2 ^ k", where ?'a = 32] by simp
qed

lemma unat_mod_exp: "k < 32 \<Longrightarrow> unat ((a::u32) mod 2 ^ k) = unat a mod 2 ^ k"
  by (simp add: unat_mod unat_exp)

lemma mod_0_trans: "m mod k = 0 \<Longrightarrow> j dvd k \<Longrightarrow> m mod j = (0::nat)"
  unfolding mod_eq_0_iff_dvd by (rule dvd_trans)

lemma mod_0_add: "a mod k = 0 \<Longrightarrow> b mod k = 0 \<Longrightarrow> (a + b) mod k = (0::nat)"
  unfolding mod_eq_0_iff_dvd by (rule dvd_add)

lemma block_bounds:
  assumes "s mod n = 0" "e mod n = 0" "s \<le> a" "a < (e::nat)"
  shows "s \<le> a - a mod n" "a - a mod n + n \<le> e"
proof -
  obtain i j where ij: "s = n * i" "e = n * j" using assms(1,2) by (auto simp: mod_0_imp_dvd elim!: dvdE)
  have "n * (a div n) \<ge> n * i" using assms(3) ij(1) div_le_mono [of s a n] by (cases "n = 0") auto
  then show "s \<le> a - a mod n" by (simp add: ij minus_mod_eq_mult_div)
  have "a div n < j" using assms(4) ij(2) by (simp add: less_mult_imp_div_less mult.commute)
  then have "n * (Suc (a div n)) \<le> n * j" by (intro mult_le_mono2) simp
  then show "a - a mod n + n \<le> e" by (simp add: ij minus_mod_eq_mult_div)
qed

definition align_up :: "nat \<Rightarrow> nat \<Rightarrow> nat" where
  "align_up n k = (n + (k - 1)) - (n + (k - 1)) mod k"

lemma align_up_le: "0 < k \<Longrightarrow> n \<le> align_up n k"
proof -
  assume k: "0 < k"
  then have "(n + (k - 1)) mod k \<le> k - 1" using mod_less_divisor [of k "n + (k - 1)"] by linarith
  then show ?thesis unfolding align_up_def by linarith
qed

lemma align_up_in_block:
  assumes "d mod k = 0" "d < n" "n \<le> d + k"
  shows "align_up n k = d + k"
proof -
  obtain i where i: "d = k * i" using assms(1) by (auto simp: mod_0_imp_dvd elim!: dvdE)
  let ?r = "n + (k - 1) - (d + k)"
  have r: "n + (k - 1) = k * (i + 1) + ?r" "?r < k" using assms(2,3) i by (auto simp: algebra_simps)
  have "(n + (k - 1)) mod k = ?r" using r by (metis mod_mult_self4 mod_less)
  then show ?thesis unfolding align_up_def using r(1) i by (simp add: algebra_simps)
qed

lemma align_up_ge:
  assumes "m mod k = 0" "m \<le> n"
  shows "m \<le> align_up n k"
proof -
  obtain i where i: "m = k * i" using assms(1) by (auto simp: mod_0_imp_dvd elim!: dvdE)
  have "m div k \<le> (n + (k - 1)) div k" using assms(2) by (intro div_le_mono) simp
  then show ?thesis by (cases "k = 0") (auto simp: i align_up_def minus_mod_eq_mult_div)
qed

lemma nth_splice:
  assumes "n + length ds \<le> length xs" "k < length xs"
  shows "(take n xs @ ds @ drop (n + length ds) xs) ! k = (if n \<le> k \<and> k < n + length ds then ds ! (k - n) else xs ! k)"
  using assms by (auto simp: nth_append min_def)

end
