(* ===== verification/Target.thy ===== *)
theory Target
  imports Prelude
begin

text \<open>
  The target abstraction of src/target/target.c and target_internal.h. A target_s splits into its
  data, the record target (extensible, so that a core layer can add its private state and the
  debug hardware behind it), and its function pointers, the record target_ops over that state; a
  pointer that may be NULL is an option. The linked lists (RAM regions, flash regions, command
  tables, breakpoints) are lists in list order, and a pointer to a flash region is its position.
  Outcomes of the platform are fields of the state: plat_mallocs lists the results of the coming
  allocations (success once exhausted), plat_expired those of platform_timeout_is_expired (expired
  once exhausted: time passes).
\<close>

subsection \<open>Data\<close>

abbreviation (input) TOPT_INHIBIT_NRST :: u32 where "TOPT_INHIBIT_NRST \<equiv> 1"
abbreviation (input) TOPT_IN_SEMIHOSTING_SYSCALL :: u32 where "TOPT_IN_SEMIHOSTING_SYSCALL \<equiv> 0x80000000"
abbreviation (input) FLASH_WRITE_BUFFER_CEILING :: u32 where "FLASH_WRITE_BUFFER_CEILING \<equiv> 1024"
abbreviation (input) UINT32_MAX :: u32 where "UINT32_MAX \<equiv> 0xFFFFFFFF"

datatype flash_operation_e = FLASH_OPERATION_NONE | FLASH_OPERATION_ERASE | FLASH_OPERATION_WRITE

datatype target_breakwatch_e =
  TARGET_BREAK_SOFT | TARGET_BREAK_HARD | TARGET_WATCH_WRITE | TARGET_WATCH_READ | TARGET_WATCH_ACCESS

datatype target_halt_reason_e =
  TARGET_HALT_RUNNING | TARGET_HALT_ERROR | TARGET_HALT_REQUEST | TARGET_HALT_STEPPING
| TARGET_HALT_BREAKPOINT | TARGET_HALT_WATCHPOINT | TARGET_HALT_FAULT

text \<open>The set of function pointers a flash region carries, named by the driver file that
  installs them.\<close>

datatype flash_fns = Flash_stm32f1 | Flash_other nat

record target_ram =
  ram_start :: u32
  ram_length :: u32

record target_flash =
  f_start :: u32
  f_length :: u32
  blocksize :: u32
  writesize :: u32
  writebufsize :: u32
  erased :: u8
  operation :: flash_operation_e
  f_fns :: flash_fns
  buf :: "byte list option"
  buf_addr_base :: u32
  buf_addr_low :: u32
  buf_addr_high :: u32

record breakwatch =
  bw_type :: target_breakwatch_e
  bw_addr :: u32
  bw_size :: u32
  bw_reserved :: "u32 list"

text \<open>The controllers there are: the one of the GDB server and the one of the stand-alone mode. The callback a controller
  has for targets that go away follows from which of them it is.\<close>

datatype controller_object = Gdb_controller | Ui_controller

record target_controller =
  tc_object :: controller_object
  semihosting_buffer :: "byte list"
  gdb_errno :: u32
  interrupted :: bool

record target =
  t_tc :: "target_controller option"
  t_ram :: "target_ram list"
  t_flash :: "target_flash list"
  flash_mode :: bool
  target_options :: u32
  driver :: string
  cpuid :: u32
  core :: "string option"
  cmdline :: "byte list"
  heapinfo :: "u32 list"
  commands :: "(string \<times> string list) list"
  stdout_redirected :: bool
  bw_list :: "breakwatch list"
  regs_size :: nat
  designer_code :: u16
  part_id :: u16
  attached :: bool
  plat_clk_output :: bool
  plat_nrst :: bool
  plat_mallocs :: "bool list"
  plat_expired :: "bool list"

record 's flash_ops =
  fprepare :: "(nat \<Rightarrow> 's \<Rightarrow> (bool \<times> 's) option) option"
  ferase :: "nat \<Rightarrow> u32 \<Rightarrow> u32 \<Rightarrow> 's \<Rightarrow> (bool \<times> 's) option"
  fwrite :: "nat \<Rightarrow> u32 \<Rightarrow> byte list \<Rightarrow> u32 \<Rightarrow> 's \<Rightarrow> (bool \<times> 's) option"
  fdone :: "(nat \<Rightarrow> 's \<Rightarrow> (bool \<times> 's) option) option"

record 's target_ops =
  attach_fn :: "('s \<Rightarrow> (bool \<times> 's) option) option"
  detach_fn :: "('s \<Rightarrow> 's option) option"
  check_error_fn :: "('s \<Rightarrow> (bool \<times> 's) option) option"
  mem_read_fn :: "(u32 \<Rightarrow> nat \<Rightarrow> 's \<Rightarrow> (byte list \<times> 's) option) option"
  mem_write_fn :: "(u32 \<Rightarrow> byte list \<Rightarrow> nat \<Rightarrow> 's \<Rightarrow> 's option) option"
  reg_read_fn :: "(u32 \<Rightarrow> nat \<Rightarrow> 's \<Rightarrow> (int \<times> u32 \<times> 's) option) option"
  reg_write_fn :: "(u32 \<Rightarrow> u32 \<Rightarrow> nat \<Rightarrow> 's \<Rightarrow> (int \<times> 's) option) option"
  regs_read_fn :: "('s \<Rightarrow> (byte list \<times> 's) option) option"
  regs_write_fn :: "(byte list \<Rightarrow> 's \<Rightarrow> 's option) option"
  reset_fn :: "('s \<Rightarrow> 's option) option"
  extended_reset_fn :: "('s \<Rightarrow> 's option) option"
  halt_request_fn :: "('s \<Rightarrow> 's option) option"
  halt_poll_fn :: "('s \<Rightarrow> ((target_halt_reason_e \<times> u32 option) \<times> 's) option) option"
  halt_resume_fn :: "(bool \<Rightarrow> 's \<Rightarrow> 's option) option"
  breakwatch_set_fn :: "(breakwatch \<Rightarrow> 's \<Rightarrow> (int \<times> breakwatch \<times> 's) option) option"
  breakwatch_clear_fn :: "(breakwatch \<Rightarrow> 's \<Rightarrow> (int \<times> 's) option) option"
  mass_erase_fn :: "('s \<Rightarrow> (bool \<times> 's) option) option"
  enter_flash_mode_fn :: "('s \<Rightarrow> (bool \<times> 's) option) option"
  exit_flash_mode_fn :: "('s \<Rightarrow> (bool \<times> 's) option) option"
  destroy_callback_fn :: "'s \<Rightarrow> 's option"
  flash_ops_of :: "flash_fns \<Rightarrow> 's flash_ops"

subsection \<open>Platform outcomes\<close>

definition plat_malloc :: "'h target_scheme \<Rightarrow> bool \<times> 'h target_scheme" where
  "plat_malloc t = (case plat_mallocs t of [] \<Rightarrow> (True, t) | ok # rest \<Rightarrow> (ok, t\<lparr>plat_mallocs := rest\<rparr>))"

definition platform_timeout_is_expired :: "'h target_scheme \<Rightarrow> bool \<times> 'h target_scheme" where
  "platform_timeout_is_expired t =
     (case plat_expired t of [] \<Rightarrow> (True, t) | e # rest \<Rightarrow> (e, t\<lparr>plat_expired := rest\<rparr>))"

subsection \<open>Memory map, commands and attachment\<close>

definition target_add_commands :: "string list \<Rightarrow> string \<Rightarrow> 'h target_scheme \<Rightarrow> 'h target_scheme" where
  "target_add_commands cmds name t =
     (let (ok, t) = plat_malloc t
      in if \<not> ok then t else t\<lparr>commands := commands t @ [(name, cmds)]\<rparr>)"

definition target_add_ram :: "u32 \<Rightarrow> u32 \<Rightarrow> 'h target_scheme \<Rightarrow> 'h target_scheme" where
  "target_add_ram start len t =
     (let (ok, t) = plat_malloc t
      in if \<not> ok then t else t\<lparr>t_ram := \<lparr>ram_start = start, ram_length = len\<rparr> # t_ram t\<rparr>)"

text \<open>Division by a zero writesize (blocksize also 0) has no meaning.\<close>

definition flash_sized :: "target_flash \<Rightarrow> target_flash option" where
  "flash_sized f =
     (let f = (if writesize f = 0 then f\<lparr>writesize := blocksize f\<rparr> else f)
      in if writesize f \<le> FLASH_WRITE_BUFFER_CEILING div 2 then
           (if writesize f = 0 then None
            else (let count = FLASH_WRITE_BUFFER_CEILING div writesize f
                  in Some (f\<lparr>writebufsize := writesize f * count\<rparr>)))
         else Some (f\<lparr>writebufsize := writesize f\<rparr>))"

definition target_add_flash :: "target_flash \<Rightarrow> 'h target_scheme \<Rightarrow> 'h target_scheme option" where
  "target_add_flash f t = do { f \<leftarrow> flash_sized f; Some (t\<lparr>t_flash := f # t_flash t\<rparr>) }"

definition target_ram_map_free :: "'h target_scheme \<Rightarrow> 'h target_scheme" where
  "target_ram_map_free t = t\<lparr>t_ram := []\<rparr>"

definition target_flash_map_free :: "'h target_scheme \<Rightarrow> 'h target_scheme" where
  "target_flash_map_free t = t\<lparr>t_flash := []\<rparr>"

definition target_mem_map_free :: "'h target_scheme \<Rightarrow> 'h target_scheme" where
  "target_mem_map_free t = target_flash_map_free (target_ram_map_free t)"

definition target_attach ::
  "'h target_scheme target_ops \<Rightarrow> target_controller \<Rightarrow> 'h target_scheme \<Rightarrow> (bool \<times> 'h target_scheme) option" where
  "target_attach ops controller t =
     do { t \<leftarrow> (case t_tc t of None \<Rightarrow> Some t | Some _ \<Rightarrow> destroy_callback_fn ops t);
          let t = t\<lparr>t_tc := Some controller, plat_clk_output := True\<rparr>;
          (ok, t) \<leftarrow> (case attach_fn ops of None \<Rightarrow> Some (True, t) | Some f \<Rightarrow> f t);
          if \<not> ok then Some (False, t\<lparr>plat_clk_output := False\<rparr>)
          else Some (True, t\<lparr>attached := True\<rparr>) }"

definition target_detach :: "'h target_scheme target_ops \<Rightarrow> 'h target_scheme \<Rightarrow> 'h target_scheme option" where
  "target_detach ops t =
     do { t \<leftarrow> (case detach_fn ops of None \<Rightarrow> Some t | Some f \<Rightarrow> f t);
          Some (t\<lparr>plat_clk_output := False, attached := False\<rparr>) }"

definition target_check_error ::
  "'h target_scheme target_ops \<Rightarrow> 'h target_scheme \<Rightarrow> (bool \<times> 'h target_scheme) option" where
  "target_check_error ops t = (case check_error_fn ops of None \<Rightarrow> Some (False, t) | Some f \<Rightarrow> f t)"

subsection \<open>Memory access\<close>

text \<open>The caller's buffer dest is passed in and returned; only its first bytes may change.\<close>

definition overwrite :: "byte list \<Rightarrow> byte list \<Rightarrow> byte list" where
  "overwrite bs dest = bs @ drop (length bs) dest"

definition target_mem_read ::
  "'h target_scheme target_ops \<Rightarrow> byte list \<Rightarrow> u32 \<Rightarrow> nat \<Rightarrow> 'h target_scheme \<Rightarrow>
   (bool \<times> byte list \<times> 'h target_scheme) option" where
  "target_mem_read ops dest src len t =
     (if target_options t AND TOPT_IN_SEMIHOSTING_SYSCALL \<noteq> 0 then
        (case t_tc t of
           None \<Rightarrow> None
         | Some tc \<Rightarrow>
             (let amount = min len (length (semihosting_buffer tc))
              in Some (False, overwrite (take amount (semihosting_buffer tc)) dest, t)))
      else do { (dest, t) \<leftarrow> (case mem_read_fn ops of
                               None \<Rightarrow> Some (dest, t)
                             | Some f \<Rightarrow> do { (bs, t) \<leftarrow> f src len t; Some (overwrite bs dest, t) });
                (err, t) \<leftarrow> target_check_error ops t;
                Some (err, dest, t) })"

definition target_mem_write ::
  "'h target_scheme target_ops \<Rightarrow> u32 \<Rightarrow> byte list \<Rightarrow> nat \<Rightarrow> 'h target_scheme \<Rightarrow>
   (bool \<times> 'h target_scheme) option" where
  "target_mem_write ops dest src len t =
     (if target_options t AND TOPT_IN_SEMIHOSTING_SYSCALL \<noteq> 0 then
        (case t_tc t of
           None \<Rightarrow> None
         | Some tc \<Rightarrow>
             (let amount = min len (length (semihosting_buffer tc))
              in if length src < amount then None
                 else Some (False, t\<lparr>t_tc := Some (tc\<lparr>semihosting_buffer :=
                        overwrite (take amount src) (semihosting_buffer tc)\<rparr>)\<rparr>)))
      else do { t \<leftarrow> (case mem_write_fn ops of None \<Rightarrow> Some t | Some f \<Rightarrow> f dest src len t);
                target_check_error ops t })"

definition target_mem_read32 ::
  "'h target_scheme target_ops \<Rightarrow> u32 \<Rightarrow> 'h target_scheme \<Rightarrow> (u32 \<times> 'h target_scheme) option" where
  "target_mem_read32 ops addr t =
     (case mem_read_fn ops of
        None \<Rightarrow> Some (0, t)
      | Some f \<Rightarrow> do { (bs, t) \<leftarrow> f addr 4 t; Some (u32_of_bytes bs, t) })"

definition target_mem_write32 ::
  "'h target_scheme target_ops \<Rightarrow> u32 \<Rightarrow> u32 \<Rightarrow> 'h target_scheme \<Rightarrow> 'h target_scheme option" where
  "target_mem_write32 ops addr val t =
     (case mem_write_fn ops of None \<Rightarrow> Some t | Some f \<Rightarrow> f addr (bytes_of_u32 val) 4 t)"

definition target_mem_read16 ::
  "'h target_scheme target_ops \<Rightarrow> u32 \<Rightarrow> 'h target_scheme \<Rightarrow> (u16 \<times> 'h target_scheme) option" where
  "target_mem_read16 ops addr t =
     (case mem_read_fn ops of
        None \<Rightarrow> Some (0, t)
      | Some f \<Rightarrow> do { (bs, t) \<leftarrow> f addr 2 t; Some (u16_of_bytes bs, t) })"

definition target_mem_write16 ::
  "'h target_scheme target_ops \<Rightarrow> u32 \<Rightarrow> u16 \<Rightarrow> 'h target_scheme \<Rightarrow> 'h target_scheme option" where
  "target_mem_write16 ops addr val t =
     (case mem_write_fn ops of None \<Rightarrow> Some t | Some f \<Rightarrow> f addr (bytes_of_u16 val) 2 t)"

definition target_mem_read8 ::
  "'h target_scheme target_ops \<Rightarrow> u32 \<Rightarrow> 'h target_scheme \<Rightarrow> (u8 \<times> 'h target_scheme) option" where
  "target_mem_read8 ops addr t =
     (case mem_read_fn ops of
        None \<Rightarrow> Some (0, t)
      | Some f \<Rightarrow> do { (bs, t) \<leftarrow> f addr 1 t; Some (hd bs, t) })"

definition target_mem_write8 ::
  "'h target_scheme target_ops \<Rightarrow> u32 \<Rightarrow> u8 \<Rightarrow> 'h target_scheme \<Rightarrow> 'h target_scheme option" where
  "target_mem_write8 ops addr val t =
     (case mem_write_fn ops of None \<Rightarrow> Some t | Some f \<Rightarrow> f addr [val] 1 t)"

subsection \<open>Registers, halt and resume\<close>

definition target_reg_read ::
  "'h target_scheme target_ops \<Rightarrow> u32 \<Rightarrow> nat \<Rightarrow> 'h target_scheme \<Rightarrow> (int \<times> u32 \<times> 'h target_scheme) option" where
  "target_reg_read ops reg mx t = (case reg_read_fn ops of None \<Rightarrow> Some (0, 0, t) | Some f \<Rightarrow> f reg mx t)"

definition target_reg_write ::
  "'h target_scheme target_ops \<Rightarrow> u32 \<Rightarrow> u32 \<Rightarrow> nat \<Rightarrow> 'h target_scheme \<Rightarrow> (int \<times> 'h target_scheme) option" where
  "target_reg_write ops reg dat sz t = (case reg_write_fn ops of None \<Rightarrow> Some (0, t) | Some f \<Rightarrow> f reg dat sz t)"

text \<open>Without a routine for all registers, they are read or written one by one until the offset x reaches the
  size. A negative result moves x back; below 0 it wraps and ends the loop, with bytes of the buffer that
  were never set. Registers of size 0 keep the loop going for ever: n bounds the number of registers.\<close>

primrec reg_read_loop ::
  "'h target_scheme target_ops \<Rightarrow> nat \<Rightarrow> nat \<Rightarrow> u32 \<Rightarrow> byte list \<Rightarrow> 'h target_scheme \<Rightarrow> (byte list \<times> 'h target_scheme) option" where
  "reg_read_loop ops 0 sz i dat t = (if length dat < sz then None else Some (dat, t))"
| "reg_read_loop ops (Suc n) sz i dat t =
     (if length dat < sz
      then do { (r, v, t) \<leftarrow> target_reg_read ops i (sz - length dat) t;
                if 0 \<le> r then reg_read_loop ops n sz (i + 1) (dat @ take (nat r) (bytes_of_u32 v)) t
                else if 0 \<le> int (length dat) + r then reg_read_loop ops n sz (i + 1) (take (nat (int (length dat) + r)) dat) t
                else None }
      else Some (dat, t))"

primrec reg_write_loop ::
  "'h target_scheme target_ops \<Rightarrow> nat \<Rightarrow> u32 \<Rightarrow> int \<Rightarrow> byte list \<Rightarrow> 'h target_scheme \<Rightarrow> 'h target_scheme option" where
  "reg_write_loop ops 0 i x dat t = (if x < int (length dat) then None else Some t)"
| "reg_write_loop ops (Suc n) i x dat t =
     (if x < int (length dat)
      then do { (r, t) \<leftarrow> target_reg_write ops i (u32_of_bytes (take 4 (drop (nat x) dat))) (length dat - nat x) t;
                if x + r < 0 then Some t else reg_write_loop ops n (i + 1) (x + r) dat t }
      else Some t)"

definition target_regs_read :: "'h target_scheme target_ops \<Rightarrow> 'h target_scheme \<Rightarrow> (byte list \<times> 'h target_scheme) option" where
  "target_regs_read ops t = (case regs_read_fn ops of Some f \<Rightarrow> f t | None \<Rightarrow> reg_read_loop ops (regs_size t) (regs_size t) 0 [] t)"

definition target_regs_write :: "'h target_scheme target_ops \<Rightarrow> byte list \<Rightarrow> 'h target_scheme \<Rightarrow> 'h target_scheme option" where
  "target_regs_write ops dat t =
     (case regs_write_fn ops of Some f \<Rightarrow> f dat t | None \<Rightarrow> reg_write_loop ops (regs_size t) 0 0 (take (regs_size t) dat) t)"

definition target_reset :: "'h target_scheme target_ops \<Rightarrow> 'h target_scheme \<Rightarrow> 'h target_scheme option" where
  "target_reset ops t = (case reset_fn ops of None \<Rightarrow> Some t | Some f \<Rightarrow> f t)"

definition target_halt_request :: "'h target_scheme target_ops \<Rightarrow> 'h target_scheme \<Rightarrow> 'h target_scheme option" where
  "target_halt_request ops t = (case halt_request_fn ops of None \<Rightarrow> Some t | Some f \<Rightarrow> f t)"

definition target_halt_poll ::
  "'h target_scheme target_ops \<Rightarrow> 'h target_scheme \<Rightarrow>
   ((target_halt_reason_e \<times> u32 option) \<times> 'h target_scheme) option" where
  "target_halt_poll ops t =
     (case halt_poll_fn ops of None \<Rightarrow> Some ((TARGET_HALT_RUNNING, None), t) | Some f \<Rightarrow> f t)"

definition target_halt_resume ::
  "'h target_scheme target_ops \<Rightarrow> bool \<Rightarrow> 'h target_scheme \<Rightarrow> 'h target_scheme option" where
  "target_halt_resume ops step t = (case halt_resume_fn ops of None \<Rightarrow> Some t | Some f \<Rightarrow> f step t)"

text \<open>The command-line buffer has MAX_CMDLINE = 81 bytes; the string is copied with its
  terminator.\<close>

definition target_set_cmdline :: "byte list \<Rightarrow> 'h target_scheme \<Rightarrow> 'h target_scheme option" where
  "target_set_cmdline s t =
     (if length s + 1 \<le> 81 then Some (t\<lparr>cmdline := s @ [0] @ drop (length s + 1) (cmdline t)\<rparr>) else None)"

definition target_set_heapinfo :: "u32 \<Rightarrow> u32 \<Rightarrow> u32 \<Rightarrow> u32 \<Rightarrow> 'h target_scheme \<Rightarrow> 'h target_scheme" where
  "target_set_heapinfo heap_base heap_limit stack_base stack_limit t =
     t\<lparr>heapinfo := [heap_base, heap_limit, stack_base, stack_limit]\<rparr>"

subsection \<open>Breakpoints and watchpoints\<close>

definition target_breakwatch_set ::
  "'h target_scheme target_ops \<Rightarrow> target_breakwatch_e \<Rightarrow> u32 \<Rightarrow> u32 \<Rightarrow> 'h target_scheme \<Rightarrow>
   (int \<times> 'h target_scheme) option" where
  "target_breakwatch_set ops type addr len t =
     (let bw = \<lparr>bw_type = type, bw_addr = addr, bw_size = len, bw_reserved = [0, 0, 0, 0]\<rparr>
      in do { (ret, bw, t) \<leftarrow> (case breakwatch_set_fn ops of None \<Rightarrow> Some (1, bw, t) | Some f \<Rightarrow> f bw t);
              if ret = 0 then
                (let (ok, t) = plat_malloc t
                 in if \<not> ok then Some (1, t) else Some (ret, t\<lparr>bw_list := bw # bw_list t\<rparr>))
              else Some (ret, t) })"

definition bw_matches :: "target_breakwatch_e \<Rightarrow> u32 \<Rightarrow> u32 \<Rightarrow> breakwatch \<Rightarrow> bool" where
  "bw_matches type addr len bw \<longleftrightarrow> bw_type bw = type \<and> bw_addr bw = addr \<and> bw_size bw = len"

text \<open>The list walk with the trailing pointer: the entries before the first match, the match and
  the entries after it.\<close>

fun bw_find :: "(breakwatch \<Rightarrow> bool) \<Rightarrow> breakwatch list \<Rightarrow> (breakwatch list \<times> breakwatch \<times> breakwatch list) option" where
  "bw_find P [] = None"
| "bw_find P (bw # bws) =
     (if P bw then Some ([], bw, bws)
      else do { (pre, b, post) \<leftarrow> bw_find P bws; Some (bw # pre, b, post) })"

definition target_breakwatch_clear ::
  "'h target_scheme target_ops \<Rightarrow> target_breakwatch_e \<Rightarrow> u32 \<Rightarrow> u32 \<Rightarrow> 'h target_scheme \<Rightarrow>
   (int \<times> 'h target_scheme) option" where
  "target_breakwatch_clear ops type addr len t =
     (case bw_find (bw_matches type addr len) (bw_list t) of
        None \<Rightarrow> Some (- 1, t)
      | Some (pre, bw, post) \<Rightarrow>
          do { (ret, t) \<leftarrow> (case breakwatch_clear_fn ops of None \<Rightarrow> Some (1, t) | Some f \<Rightarrow> f bw t);
               if ret = 0 then Some (ret, t\<lparr>bw_list := pre @ post\<rparr>) else Some (ret, t) })"

subsection \<open>Monitor commands\<close>

definition target_cmd_mass_erase ::
  "'h target_scheme target_ops \<Rightarrow> 'h target_scheme \<Rightarrow> (bool \<times> 'h target_scheme) option" where
  "target_cmd_mass_erase ops t = (case mass_erase_fn ops of None \<Rightarrow> Some (True, t) | Some f \<Rightarrow> f t)"

text \<open>target_command: the first command, in table order, of which argv[0] is a prefix.\<close>

definition cmd_prefix :: "string \<Rightarrow> string \<Rightarrow> bool" where
  "cmd_prefix arg cmd \<longleftrightarrow> take (length arg) cmd = arg"

fun find_command :: "string \<Rightarrow> (string \<times> string list) list \<Rightarrow> (string \<times> string) option" where
  "find_command arg [] = None"
| "find_command arg ((name, cmds) # rest) =
     (case List.find (cmd_prefix arg) cmds of Some c \<Rightarrow> Some (name, c) | None \<Rightarrow> find_command arg rest)"

definition target_command ::
  "(string \<Rightarrow> string \<Rightarrow> string list \<Rightarrow> 'h target_scheme \<Rightarrow> (bool \<times> 'h target_scheme) option) \<Rightarrow> string list \<Rightarrow>
   'h target_scheme \<Rightarrow> (int \<times> 'h target_scheme) option" where
  "target_command handler argv t =
     (case argv of
        [] \<Rightarrow> None
      | a # _ \<Rightarrow>
          (case find_command a (commands t) of
             None \<Rightarrow> Some (- 1, t)
           | Some (name, c) \<Rightarrow>
               do { (ok, t) \<leftarrow> handler name c argv t; Some (if ok then 0 else 1, t) }))"

subsection \<open>The memory map document\<close>

fun hex_digits :: "nat \<Rightarrow> string" where
  "hex_digits n = (if n < 16 then [''0123456789abcdef'' ! n] else hex_digits (n div 16) @ [''0123456789abcdef'' ! (n mod 16)])"

declare hex_digits.simps [simp del]

definition fmt_x :: "u32 \<Rightarrow> string" where
  "fmt_x w = hex_digits (unat w)"

definition fmt_08x :: "u32 \<Rightarrow> string" where
  "fmt_08x w = replicate (8 - length (fmt_x w)) (CHR ''0'') @ fmt_x w"

text \<open>snprintf at an offset of a buffer: room bytes are said to be available; a write past the end of
  the buffer has no meaning. The result is the length of the whole text.\<close>

definition snprintf_at :: "nat \<Rightarrow> u32 \<Rightarrow> string \<Rightarrow> string \<Rightarrow> (nat \<times> string) option" where
  "snprintf_at off room text buffer =
     (if room = 0 then Some (length text, buffer)
      else (let w = take (unat room - 1) text @ [CHR 0x00]
            in if off + length w \<le> length buffer
               then Some (length text, take off buffer @ w @ drop (off + length w) buffer)
               else None))"

definition quoted :: "string \<Rightarrow> string" where
  "quoted s = CHR 0x22 # s @ [CHR 0x22]"

definition map_ram :: "nat \<Rightarrow> u32 \<Rightarrow> target_ram \<Rightarrow> string \<Rightarrow> (nat \<times> string) option" where
  "map_ram off room r buffer =
     snprintf_at off room
       (''<memory type='' @ quoted ''ram'' @ '' start='' @ quoted (''0x'' @ fmt_08x (ram_start r)) @
        '' length='' @ quoted (''0x'' @ fmt_x (ram_length r)) @ ''/>'') buffer"

definition map_flash :: "nat \<Rightarrow> u32 \<Rightarrow> target_flash \<Rightarrow> string \<Rightarrow> (nat \<times> string) option" where
  "map_flash off room f buffer =
     do { (n1, buffer) \<leftarrow> snprintf_at off room
            (''<memory type='' @ quoted ''flash'' @ '' start='' @ quoted (''0x'' @ fmt_08x (f_start f)) @
             '' length='' @ quoted (''0x'' @ fmt_x (f_length f)) @ ''>'') buffer;
          (n2, buffer) \<leftarrow> snprintf_at (off + n1) (room - of_nat n1)
            (''<property name='' @ quoted ''blocksize'' @ ''>0x'' @ fmt_x (blocksize f) @ ''</property></memory>'') buffer;
          Some (n1 + n2, buffer) }"

text \<open>A loop over regions: each call prints at the running offset with the room left.\<close>

fun map_all :: "(nat \<Rightarrow> u32 \<Rightarrow> 'r \<Rightarrow> string \<Rightarrow> (nat \<times> string) option) \<Rightarrow> u32 \<Rightarrow> 'r list \<Rightarrow> nat \<Rightarrow> string \<Rightarrow> (nat \<times> string) option" where
  "map_all pr len [] off buffer = Some (off, buffer)"
| "map_all pr len (r # rs) off buffer =
     do { (n, buffer) \<leftarrow> pr off (len - of_nat off) r buffer; map_all pr len rs (off + n) buffer }"

definition target_mem_map :: "u32 \<Rightarrow> string \<Rightarrow> 'h target_scheme \<Rightarrow> (bool \<times> string) option" where
  "target_mem_map len buffer t =
     do { (off, buffer) \<leftarrow> snprintf_at 0 len ''<memory-map>'' buffer;
          (off, buffer) \<leftarrow> map_all map_ram len (t_ram t) off buffer;
          (off, buffer) \<leftarrow> map_all map_flash len (t_flash t) off buffer;
          (n, buffer) \<leftarrow> snprintf_at off (len - of_nat off) ''</memory-map>'' buffer;
          Some (of_nat (off + n) < len - 1, buffer) }"

subsection \<open>The memory map as a list of texts\<close>

text \<open>target_mem_map prints a list of texts one after the other; print_all does the same with the
  list given, so that its length decides what happens.\<close>

fun print_all :: "u32 \<Rightarrow> string list \<Rightarrow> nat \<Rightarrow> string \<Rightarrow> (nat \<times> string) option" where
  "print_all len [] off buffer = Some (off, buffer)"
| "print_all len (x # xs) off buffer =
     do { (n, buffer) \<leftarrow> snprintf_at off (len - of_nat off) x buffer; print_all len xs (off + n) buffer }"

lemma print_all_append:
  "print_all len (xs @ ys) off buffer = do { (off, buffer) \<leftarrow> print_all len xs off buffer; print_all len ys off buffer }"
  by (induction xs arbitrary: off buffer) (auto split: bind_splits)

definition ram_text :: "target_ram \<Rightarrow> string" where
  "ram_text r = ''<memory type='' @ quoted ''ram'' @ '' start='' @ quoted (''0x'' @ fmt_08x (ram_start r)) @
        '' length='' @ quoted (''0x'' @ fmt_x (ram_length r)) @ ''/>''"

definition flash_texts :: "target_flash \<Rightarrow> string list" where
  "flash_texts f =
     [''<memory type='' @ quoted ''flash'' @ '' start='' @ quoted (''0x'' @ fmt_08x (f_start f)) @
        '' length='' @ quoted (''0x'' @ fmt_x (f_length f)) @ ''>'',
      ''<property name='' @ quoted ''blocksize'' @ ''>0x'' @ fmt_x (blocksize f) @ ''</property></memory>'']"

definition map_head :: "'h target_scheme \<Rightarrow> string list" where
  "map_head t = ''<memory-map>'' # map ram_text (t_ram t) @ concat (map flash_texts (t_flash t))"

definition map_close :: string where
  "map_close = ''</memory-map>''"

lemma length_map_close [simp]: "length map_close = 13"
  by (simp add: map_close_def)

lemma map_ram_eq: "map_ram off room r buffer = snprintf_at off room (ram_text r) buffer"
  by (simp add: map_ram_def ram_text_def)

lemma map_flash_eq:
  "map_flash off (len - of_nat off) f buffer =
     do { (off', buffer) \<leftarrow> print_all len (flash_texts f) off buffer; Some (off' - off, buffer) }"
  by (simp add: map_flash_def flash_texts_def diff_diff_eq bind_eq_Some_conv split: bind_split)

lemma map_all_ram: "map_all map_ram len rs off buffer = print_all len (map ram_text rs) off buffer"
proof (induction rs arbitrary: off buffer)
  case (Cons r rs)
  then show ?case by (cases "snprintf_at off (len - of_nat off) (ram_text r) buffer") (auto simp: map_ram_eq)
qed simp

lemma print_all_off: "print_all len xs off buffer = Some (off', buffer') \<Longrightarrow> off \<le> off'"
  by (induction xs arbitrary: off buffer) (fastforce split: bind_splits)+

lemma map_all_flash: "map_all map_flash len fs off buffer = print_all len (concat (map flash_texts fs)) off buffer"
proof (induction fs arbitrary: off buffer)
  case (Cons f fs)
  show ?case
  proof (cases "print_all len (flash_texts f) off buffer")
    case None
    then show ?thesis by (simp add: map_flash_eq print_all_append)
  next
    case (Some r)
    then show ?thesis using Cons.IH print_all_off [of len "flash_texts f" off buffer "fst r" "snd r"]
      by (cases r) (simp add: map_flash_eq print_all_append)
  qed
qed simp

lemma target_mem_map_print:
  "target_mem_map len buffer t =
     do { (off, buffer) \<leftarrow> print_all len (map_head t @ [map_close]) 0 buffer; Some (of_nat off < len - 1, buffer) }"
  by (auto simp: target_mem_map_def map_head_def map_all_ram map_all_flash print_all_append map_close_def split: bind_splits)

lemma snprintf_at_room:
  fixes len :: u32
  assumes "length buffer = unat len" "off < 2 ^ 32"
  shows "off < unat len \<Longrightarrow> unat (len - of_nat off) = unat len - off" "off = unat len \<Longrightarrow> len - of_nat off = 0"
    "unat len < off \<Longrightarrow> len - of_nat off \<noteq> 0"
proof -
  have u: "unat (of_nat off :: u32) = off" using assms(2) by (simp add: unat_of_nat)
  show "unat (len - of_nat off) = unat len - off" if "off < unat len" using that u by (subst unat_sub) (simp_all add: word_le_nat_alt)
  show "len - of_nat off = 0" if "off = unat len" using that by simp
  show "len - of_nat off \<noteq> 0" if "unat len < off" using that u by (metis eq_iff_diff_eq_0 less_irrefl)
qed

lemma snprintf_at_None:
  assumes "length buffer = unat len" "off < 2 ^ 32"
  shows "snprintf_at off (len - of_nat off) x buffer = None \<longleftrightarrow> unat len < off"
proof -
  consider "off < unat len" | "off = unat len" | "unat len < off" by linarith
  then show ?thesis
  proof cases
    case 1
    have "off + length (take (unat (len - of_nat off) - 1) x @ [CHR 0x00]) \<le> length buffer"
      unfolding snprintf_at_room(1) [OF assms 1] using 1 assms(1) by auto
    with 1 show ?thesis by (auto simp: snprintf_at_def Let_def)
  next
    case 2
    then show ?thesis using snprintf_at_room(2) [OF assms] by (simp add: snprintf_at_def)
  next
    case 3
    then show ?thesis using snprintf_at_room(3) [OF assms] assms(1) by (auto simp: snprintf_at_def Let_def)
  qed
qed

lemma snprintf_at_Some:
  assumes "snprintf_at off room x buffer = Some (n, buffer')"
  shows "n = length x" "length buffer' = length buffer"
  using assms by (auto simp: snprintf_at_def Let_def split: if_splits)

lemma print_all_None:
  assumes "length buffer = unat len" "off + length (concat xs) < 2 ^ 32" "xs \<noteq> []"
  shows "print_all len xs off buffer = None \<longleftrightarrow> unat len < off + length (concat (butlast xs))"
  using assms
proof (induction xs arbitrary: off buffer)
  case (Cons x xs)
  show ?case
  proof (cases "snprintf_at off (len - of_nat off) x buffer")
    case None
    then show ?thesis using snprintf_at_None [OF Cons.prems(1), of off x] Cons.prems(2) by auto
  next
    case (Some r)
    then obtain n b where r: "r = (n, b)" by (cases r)
    have nb: "n = length x" "length b = unat len" using snprintf_at_Some Some r Cons.prems(1) by auto
    have "\<not> unat len < off" using snprintf_at_None [OF Cons.prems(1), of off x] Cons.prems(2) Some by auto
    with Some r nb Cons.IH [of b "off + n"] Cons.prems(2) show ?thesis by (cases "xs = []") (auto simp: add.assoc)
  qed
qed simp

lemma snprintf_at_fit:
  assumes "length buffer = unat len" "off < 2 ^ 32" "off + length x < unat len"
  shows "\<exists>b. snprintf_at off (len - of_nat off) x buffer = Some (length x, b) \<and> take (off + length x) b = take off buffer @ x \<and>
    b ! (off + length x) = CHR 0x00 \<and> length b = length buffer"
proof -
  have room: "unat (len - of_nat off) = unat len - off" using snprintf_at_room(1) [OF assms(1,2)] assms(3) by simp
  have nz: "len - of_nat off \<noteq> 0" using room assms(3) by (metis add_lessD1 less_irrefl unat_0 zero_less_diff)
  have t: "take (unat (len - of_nat off) - 1) x = x" using assms(3) by (simp add: room)
  have "snprintf_at off (len - of_nat off) x buffer =
      Some (length x, take off buffer @ (x @ [CHR 0x00]) @ drop (off + length (x @ [CHR 0x00])) buffer)"
    using nz assms(1,3) unfolding snprintf_at_def Let_def t by simp
  then show ?thesis using assms(1,3) by (auto simp: nth_append)
qed

lemma print_all_fit:
  assumes "length buffer = unat len" "off + length (concat xs) < unat len"
  shows "\<exists>b. print_all len xs off buffer = Some (off + length (concat xs), b) \<and>
    take (off + length (concat xs)) b = take off buffer @ concat xs \<and>
    (xs \<noteq> [] \<longrightarrow> b ! (off + length (concat xs)) = CHR 0x00) \<and> length b = length buffer"
  using assms
proof (induction xs arbitrary: off buffer)
  case (Cons x xs)
  have lt: "off < 2 ^ 32" "off + length x < unat len" using Cons.prems(2) unsigned_less [of len, where 'a = nat] by auto
  obtain b where b: "snprintf_at off (len - of_nat off) x buffer = Some (length x, b)" "take (off + length x) b = take off buffer @ x"
    "b ! (off + length x) = CHR 0x00" "length b = length buffer"
    using snprintf_at_fit [OF Cons.prems(1) lt] by blast
  obtain b' where b': "print_all len xs (off + length x) b = Some (off + length x + length (concat xs), b')"
    "take (off + length x + length (concat xs)) b' = take (off + length x) b @ concat xs"
    "xs \<noteq> [] \<longrightarrow> b' ! (off + length x + length (concat xs)) = CHR 0x00" "length b' = length b"
    using Cons.IH [of b "off + length x"] Cons.prems b(4) by (auto simp: add.assoc)
  have e: "off + length (concat (x # xs)) = off + length x + length (concat xs)" by simp
  show ?case unfolding e
  proof (intro exI [of _ b'] conjI)
    show "print_all len (x # xs) off buffer = Some (off + length x + length (concat xs), b')" using b(1) b'(1) by simp
    show "take (off + length x + length (concat xs)) b' = take off buffer @ concat (x # xs)" using b'(2) b(2) by simp
    show "x # xs \<noteq> [] \<longrightarrow> b' ! (off + length x + length (concat xs)) = CHR 0x00"
      using b'(1,3) b(3) by (cases xs) auto
  qed (simp add: b(4) b'(4))
qed simp

text \<open>When the memory map fits, target_mem_map succeeds and the buffer holds the whole XML text,
  terminated: every RAM and flash region, in list order, between the opening and the closing tag.\<close>

theorem target_mem_map_complete:
  assumes "length buffer = unat len" "length (concat (map_head t)) + 13 < unat len - 1"
  shows "\<exists>b. target_mem_map len buffer t = Some (True, concat (map_head t) @ map_close @ [CHR 0x00] @ b)"
proof -
  let ?n = "length (concat (map_head t)) + 13"
  have lt: "?n < unat len" using assms(2) by linarith
  obtain b where b: "print_all len (map_head t @ [map_close]) 0 buffer = Some (?n, b)"
    "take ?n b = concat (map_head t) @ map_close" "b ! ?n = CHR 0x00" "length b = length buffer"
    using print_all_fit [OF assms(1), of 0 "map_head t @ [map_close]"] lt by auto
  have "?n < length b" using b(4) assms by linarith
  then have "b = take ?n b @ b ! ?n # drop (Suc ?n) b" by (rule id_take_nth_drop)
  then have eq: "b = concat (map_head t) @ map_close @ [CHR 0x00] @ drop (Suc ?n) b" unfolding b(2,3) by simp
  have "of_nat ?n < len - 1"
  proof -
    have "unat (len - 1) = unat len - 1" using assms(2) by (subst unat_sub) (auto simp: word_le_nat_alt)
    moreover have "?n < 2 ^ LENGTH(32)" using lt unsigned_less [of len, where 'a = nat] by linarith
    then have "unat (of_nat ?n :: u32) = ?n" by (rule of_nat_inverse [OF refl])
    ultimately show ?thesis using assms(2) by (simp add: word_less_nat_alt)
  qed
  then have "target_mem_map len buffer t = Some (True, b)" using b(1) by (simp add: target_mem_map_print)
  then show ?thesis using eq by (metis)
qed

text \<open>C39: the remaining-space argument of snprintf wraps once the text is longer than the buffer, so
  target_mem_map writes outside the buffer exactly when the text before the closing tag does not fit.\<close>

theorem target_mem_map_overrun:
  assumes "length buffer = unat len" "length (concat (map_head t)) + 13 < 2 ^ 32"
  shows "target_mem_map len buffer t = None \<longleftrightarrow> unat len < length (concat (map_head t))"
  using print_all_None [OF assms(1), of 0 "map_head t @ [map_close]"] assms(2)
  by (auto simp: target_mem_map_print split: bind_splits)

text \<open>A target as target_new returns it, with one region of each kind.\<close>

definition map_example :: target where
  "map_example =
     \<lparr>t_tc = None, t_ram = [\<lparr>ram_start = 0x20000000, ram_length = 0x5000\<rparr>],
      t_flash = [\<lparr>f_start = 0x8000000, f_length = 0x20000, blocksize = 0x400, writesize = 0x400, writebufsize = 0x400, erased = 0xff,
        operation = FLASH_OPERATION_NONE, f_fns = Flash_stm32f1, buf = None, buf_addr_base = 0, buf_addr_low = 0, buf_addr_high = 0\<rparr>],
      flash_mode = False, target_options = 0, driver = [], cpuid = 0,
      core = None, cmdline = replicate 81 0, heapinfo = [0, 0, 0, 0], commands = [], stdout_redirected = False,
      bw_list = [], regs_size = 0, designer_code = 0, part_id = 0, attached = False,
      plat_clk_output = False, plat_nrst = False, plat_mallocs = [], plat_expired = []\<rparr>"

lemma map_example_length: "length (concat (map_head map_example)) = 176"
  by (simp add: map_example_def map_head_def ram_text_def flash_texts_def quoted_def fmt_08x_def fmt_x_def hex_digits.simps)

theorem target_mem_map_complete_witness:
  "\<exists>b. target_mem_map 1024 (replicate 1024 CHR 0x00) map_example = Some (True, concat (map_head map_example) @ map_close @ [CHR 0x00] @ b)"
  by (rule target_mem_map_complete) (simp_all add: map_example_length)

theorem target_mem_map_overrun_witness: "target_mem_map 100 (replicate 100 CHR 0x00) map_example = None"
  using target_mem_map_overrun [of "replicate 100 (CHR 0x00)" 100 map_example] by (simp add: map_example_length)

end
