(* ===== verification/Target_Flash.thy ===== *)
theory Target_Flash
  imports Target
begin

text \<open>
  The buffered flash engine of src/target/target_flash.c: entering and leaving flash mode, the
  prepare/done protocol of a region, erase by blocks, and writes collected in a region's buffer and
  flushed when the window moves or the operation completes. A region is addressed by its position
  in the target's list. Loops whose step the data decides (a zero block or write size makes them
  endless) are partial functions into option; reading or writing through a NULL buffer is None.
\<close>

subsection \<open>Regions\<close>

fun flash_index :: "(target_flash \<Rightarrow> bool) \<Rightarrow> target_flash list \<Rightarrow> nat option" where
  "flash_index P [] = None"
| "flash_index P (f # fs) = (if P f then Some 0 else map_option Suc (flash_index P fs))"

definition flash_contains :: "u32 \<Rightarrow> target_flash \<Rightarrow> bool" where
  "flash_contains addr f \<longleftrightarrow> f_start f \<le> addr \<and> addr < f_start f + f_length f"

definition target_flash_for_addr :: "u32 \<Rightarrow> 'h target_scheme \<Rightarrow> nat option" where
  "target_flash_for_addr addr t = flash_index (flash_contains addr) (t_flash t)"

definition upd_flash :: "nat \<Rightarrow> (target_flash \<Rightarrow> target_flash) \<Rightarrow> 'h target_scheme \<Rightarrow> 'h target_scheme" where
  "upd_flash i g t = t\<lparr>t_flash := (t_flash t)[i := g (t_flash t ! i)]\<rparr>"

abbreviation fops :: "'h target_scheme target_ops \<Rightarrow> nat \<Rightarrow> 'h target_scheme \<Rightarrow> 'h target_scheme flash_ops" where
  "fops ops i t \<equiv> flash_ops_of ops (f_fns (t_flash t ! i))"

subsection \<open>Flash mode and operations\<close>

definition target_enter_flash_mode ::
  "'h target_scheme target_ops \<Rightarrow> 'h target_scheme \<Rightarrow> (bool \<times> 'h target_scheme) option" where
  "target_enter_flash_mode ops t =
     (if flash_mode t then Some (True, t)
      else do { (result, t) \<leftarrow> (case enter_flash_mode_fn ops of
                                 Some f \<Rightarrow> f t
                               | None \<Rightarrow> do { t \<leftarrow> target_reset ops t; Some (True, t) });
                Some (result, if result then t\<lparr>flash_mode := True\<rparr> else t) })"

definition target_exit_flash_mode ::
  "'h target_scheme target_ops \<Rightarrow> 'h target_scheme \<Rightarrow> (bool \<times> 'h target_scheme) option" where
  "target_exit_flash_mode ops t =
     (if \<not> flash_mode t then Some (True, t)
      else do { (result, t) \<leftarrow> (case exit_flash_mode_fn ops of
                                 Some f \<Rightarrow> f t
                               | None \<Rightarrow> do { t \<leftarrow> target_reset ops t; Some (True, t) });
                Some (result, t\<lparr>flash_mode := False\<rparr>) })"

definition flash_done ::
  "'h target_scheme target_ops \<Rightarrow> nat \<Rightarrow> 'h target_scheme \<Rightarrow> (bool \<times> 'h target_scheme) option" where
  "flash_done ops i t =
     (if operation (t_flash t ! i) = FLASH_OPERATION_NONE then Some (True, t)
      else do { (result, t) \<leftarrow> (case fdone (fops ops i t) of None \<Rightarrow> Some (True, t) | Some f \<Rightarrow> f i t);
                let t = upd_flash i (\<lambda>f. f\<lparr>buf := None\<rparr>) t;
                Some (result, upd_flash i (\<lambda>f. f\<lparr>operation := FLASH_OPERATION_NONE\<rparr>) t) })"

definition flash_prepare ::
  "'h target_scheme target_ops \<Rightarrow> nat \<Rightarrow> flash_operation_e \<Rightarrow> 'h target_scheme \<Rightarrow> (bool \<times> 'h target_scheme) option" where
  "flash_prepare ops i new_op t =
     (if operation (t_flash t ! i) = new_op then Some (True, t)
      else do { (result, t) \<leftarrow> (if operation (t_flash t ! i) \<noteq> FLASH_OPERATION_NONE
                                then flash_done ops i t else Some (True, t));
                if result then
                  do { let t = upd_flash i (\<lambda>f. f\<lparr>operation := new_op\<rparr>) t;
                       (result, t) \<leftarrow> (case fprepare (fops ops i t) of None \<Rightarrow> Some (True, t) | Some f \<Rightarrow> f i t);
                       Some (result, if \<not> result then upd_flash i (\<lambda>f. f\<lparr>operation := FLASH_OPERATION_NONE\<rparr>) t else t) }
                else Some (result, t) })"

subsection \<open>Erase\<close>

text \<open>The erase loop. Inl is an early return, Inr the region and result the loop ends with.\<close>

partial_function (option) erase_loop ::
  "'h target_scheme target_ops \<Rightarrow> u32 \<Rightarrow> u32 \<Rightarrow> nat \<Rightarrow> bool \<Rightarrow> 'h target_scheme \<Rightarrow>
   ((bool + nat \<times> bool) \<times> 'h target_scheme) option" where
  "erase_loop ops addr len active result t =
     (if len = 0 then Some (Inr (active, result), t)
      else (case target_flash_for_addr addr t of
              None \<Rightarrow> Some (Inl False, t)
            | Some i \<Rightarrow>
                do { (result, t) \<leftarrow> (if i \<noteq> active
                                     then do { (r, t) \<leftarrow> flash_done ops active t; Some (result \<and> r, t) }
                                     else Some (result, t));
                     let bs = blocksize (t_flash t ! i);
                     let local_start_addr = addr AND NOT (bs - 1);
                     let local_end_addr = local_start_addr + bs;
                     (ok, t) \<leftarrow> flash_prepare ops i FLASH_OPERATION_ERASE t;
                     if \<not> ok then Some (Inl False, t)
                     else do { (r, t) \<leftarrow> ferase (fops ops i t) i local_start_addr bs t;
                               let result = (result \<and> r);
                               if \<not> result then Some (Inr (i, result), t)
                               else erase_loop ops local_end_addr (len - min (local_end_addr - addr) len) i result t } }))"

definition target_flash_erase ::
  "'h target_scheme target_ops \<Rightarrow> u32 \<Rightarrow> u32 \<Rightarrow> 'h target_scheme \<Rightarrow> (bool \<times> 'h target_scheme) option" where
  "target_flash_erase ops addr len t =
     do { (ok, t) \<leftarrow> target_enter_flash_mode ops t;
          if \<not> ok then Some (False, t)
          else (case target_flash_for_addr addr t of
                  None \<Rightarrow> Some (False, t)
                | Some active \<Rightarrow>
                    do { (r, t) \<leftarrow> erase_loop ops addr len active True t;
                         case r of
                           Inl b \<Rightarrow> Some (b, t)
                         | Inr (active, result) \<Rightarrow>
                             do { (d, t) \<leftarrow> flash_done ops active t; Some (result \<and> d, t) } }) }"

subsection \<open>Buffered write\<close>

definition flash_buffer_alloc :: "nat \<Rightarrow> 'h target_scheme \<Rightarrow> (bool \<times> 'h target_scheme)" where
  "flash_buffer_alloc i t =
     (let (ok, t) = plat_malloc t
      in if \<not> ok then (False, upd_flash i (\<lambda>f. f\<lparr>buf := None\<rparr>) t)
         else (True, upd_flash i (\<lambda>f. f\<lparr>buf := Some (replicate (unat (writebufsize f)) 0), buf_addr_base := UINT32_MAX,
                 buf_addr_low := UINT32_MAX, buf_addr_high := 0\<rparr>) t))"

text \<open>Reading n bytes at an offset of a buffer.\<close>

definition buf_slice :: "byte list option \<Rightarrow> u32 \<Rightarrow> u32 \<Rightarrow> byte list option" where
  "buf_slice b off n =
     (case b of
        None \<Rightarrow> None
      | Some bs \<Rightarrow> if unat off + unat n \<le> length bs then Some (take (unat n) (drop (unat off) bs)) else None)"

partial_function (option) flush_loop ::
  "'h target_scheme target_ops \<Rightarrow> nat \<Rightarrow> u32 \<Rightarrow> u32 \<Rightarrow> u32 \<Rightarrow> u32 \<Rightarrow> bool \<Rightarrow> 'h target_scheme \<Rightarrow>
   (bool \<times> 'h target_scheme) option" where
  "flush_loop ops i aligned_addr src_off len off result t =
     (if \<not> off < len then Some (result, t)
      else do { dat \<leftarrow> buf_slice (buf (t_flash t ! i)) (src_off + off) (writesize (t_flash t ! i));
                (r, t) \<leftarrow> fwrite (fops ops i t) i (aligned_addr + off) dat (writesize (t_flash t ! i)) t;
                flush_loop ops i aligned_addr src_off len (off + writesize (t_flash t ! i)) (result \<and> r) t })"

definition flash_buffered_flush ::
  "'h target_scheme target_ops \<Rightarrow> nat \<Rightarrow> 'h target_scheme \<Rightarrow> (bool \<times> 'h target_scheme) option" where
  "flash_buffered_flush ops i t =
     (let f = t_flash t ! i
      in if buf f \<noteq> None \<and> buf_addr_base f \<noteq> UINT32_MAX \<and> buf_addr_low f \<noteq> UINT32_MAX \<and> buf_addr_low f < buf_addr_high f
         then do { (ok, t) \<leftarrow> flash_prepare ops i FLASH_OPERATION_WRITE t;
                   if \<not> ok then Some (False, t)
                   else do { let f = t_flash t ! i;
                             let aligned_addr = buf_addr_low f AND NOT (writesize f - 1);
                             (result, t) \<leftarrow> flush_loop ops i aligned_addr (aligned_addr - buf_addr_base f)
                                              (buf_addr_high f - aligned_addr) 0 True t;
                             Some (result, upd_flash i (\<lambda>f. f\<lparr>buf_addr_base := UINT32_MAX, buf_addr_low := UINT32_MAX,
                                                           buf_addr_high := 0\<rparr>) t) } }
         else Some (True, t))"

text \<open>memset and memcpy on the buffer of a region.\<close>

definition buf_set :: "nat \<Rightarrow> u8 \<Rightarrow> 'h target_scheme \<Rightarrow> 'h target_scheme option" where
  "buf_set i v t =
     (case buf (t_flash t ! i) of
        None \<Rightarrow> None
      | Some bs \<Rightarrow>
          (let n = unat (writebufsize (t_flash t ! i))
           in if n \<le> length bs
              then Some (upd_flash i (\<lambda>f. f\<lparr>buf := Some (replicate n v @ drop n bs)\<rparr>) t) else None))"

definition buf_copy :: "nat \<Rightarrow> nat \<Rightarrow> byte list \<Rightarrow> 'h target_scheme \<Rightarrow> 'h target_scheme option" where
  "buf_copy i off dat t =
     (case buf (t_flash t ! i) of
        None \<Rightarrow> None
      | Some bs \<Rightarrow>
          if off + length dat \<le> length bs
          then Some (upd_flash i (\<lambda>f. f\<lparr>buf := Some (take off bs @ dat @ drop (off + length dat) bs)\<rparr>) t)
          else None)"

text \<open>malloc leaves the buffer indeterminate (zeroes stand for it); it is set before any byte of it is
  used. The base address check at the head of the write loop: a window other than the buffered one is
  flushed and the buffer starts over, all erased.\<close>

definition flash_buffer_window ::
  "'h target_scheme target_ops \<Rightarrow> nat \<Rightarrow> u32 \<Rightarrow> bool \<Rightarrow> 'h target_scheme \<Rightarrow> (bool \<times> 'h target_scheme) option" where
  "flash_buffer_window ops i base_addr result t =
     (if base_addr \<noteq> buf_addr_base (t_flash t ! i)
      then do { (r, t) \<leftarrow> flash_buffered_flush ops i t;
                let t = upd_flash i (\<lambda>f. f\<lparr>buf_addr_base := base_addr\<rparr>) t;
                t \<leftarrow> buf_set i (erased (t_flash t ! i)) t;
                Some (result \<and> r, t) }
      else Some (result, t))"

text \<open>src holds the bytes still to be copied; running out of them, or a zero buffer size, has no
  meaning.\<close>

partial_function (option) flash_buffered_write_loop ::
  "'h target_scheme target_ops \<Rightarrow> nat \<Rightarrow> u32 \<Rightarrow> byte list \<Rightarrow> u32 \<Rightarrow> bool \<Rightarrow> 'h target_scheme \<Rightarrow>
   (bool \<times> 'h target_scheme) option" where
  "flash_buffered_write_loop ops i dest src len result t =
     (if len = 0 then Some (result, t)
      else do { let wbs = writebufsize (t_flash t ! i);
                let base_addr = dest AND NOT (wbs - 1);
                (result, t) \<leftarrow> flash_buffer_window ops i base_addr result t;
                if wbs = 0 then None
                else do { let off = dest mod wbs;
                          let local_len = min (wbs - off) len;
                          if length src < unat local_len then None
                          else do { t \<leftarrow> buf_copy i (unat off) (take (unat local_len) src) t;
                                    let t = upd_flash i (\<lambda>f. f\<lparr>buf_addr_low := min (buf_addr_low f) dest,
                                                                buf_addr_high := max (buf_addr_high f) (dest + local_len)\<rparr>) t;
                                    flash_buffered_write_loop ops i (dest + local_len) (drop (unat local_len) src)
                                      (len - local_len) result t } } })"

definition flash_buffered_write ::
  "'h target_scheme target_ops \<Rightarrow> nat \<Rightarrow> u32 \<Rightarrow> byte list \<Rightarrow> u32 \<Rightarrow> 'h target_scheme \<Rightarrow>
   (bool \<times> 'h target_scheme) option" where
  "flash_buffered_write ops i dest src len t = flash_buffered_write_loop ops i dest src len True t"

text \<open>The pass over all regions at the start of a write: the last region that contains the address is
  the active one, every other region with a buffer is flushed and closed.\<close>

fun write_select ::
  "'h target_scheme target_ops \<Rightarrow> u32 \<Rightarrow> nat list \<Rightarrow> nat option \<Rightarrow> bool \<Rightarrow> 'h target_scheme \<Rightarrow>
   ((nat option \<times> bool) \<times> 'h target_scheme) option" where
  "write_select ops dest [] active result t = Some ((active, result), t)"
| "write_select ops dest (i # is) active result t =
     (if flash_contains dest (t_flash t ! i) then write_select ops dest is (Some i) result t
      else if buf (t_flash t ! i) \<noteq> None then
        do { (r1, t) \<leftarrow> flash_buffered_flush ops i t;
             (r2, t) \<leftarrow> flash_done ops i t;
             write_select ops dest is active (result \<and> r1 \<and> r2) t }
      else write_select ops dest is active result t)"

partial_function (option) write_loop ::
  "'h target_scheme target_ops \<Rightarrow> u32 \<Rightarrow> byte list \<Rightarrow> u32 \<Rightarrow> nat \<Rightarrow> bool \<Rightarrow> 'h target_scheme \<Rightarrow>
   (bool \<times> 'h target_scheme) option" where
  "write_loop ops dest src len active result t =
     (if len = 0 then Some (result, t)
      else (case target_flash_for_addr dest t of
              None \<Rightarrow> Some (False, t)
            | Some i \<Rightarrow>
                do { (result, t) \<leftarrow> (if i \<noteq> active
                                     then do { (r1, t) \<leftarrow> flash_buffered_flush ops active t;
                                               (r2, t) \<leftarrow> flash_done ops active t;
                                               Some (result \<and> r1 \<and> r2, t) }
                                     else Some (result, t));
                     let (result, t) = (if buf (t_flash t ! i) = None
                                        then (let (r, t) = flash_buffer_alloc i t in (result \<and> r, t))
                                        else (result, t));
                     if \<not> result then Some (False, t)
                     else do { let f = t_flash t ! i;
                               let local_end_addr = min (dest + len) (f_start f + f_length f);
                               let local_length = local_end_addr - dest;
                               (r, t) \<leftarrow> flash_buffered_write ops i dest src local_length t;
                               if \<not> r then Some (False, t)
                               else write_loop ops local_end_addr (drop (unat local_length) src)
                                      (len - local_length) i result t } }))"

definition target_flash_write ::
  "'h target_scheme target_ops \<Rightarrow> u32 \<Rightarrow> byte list \<Rightarrow> u32 \<Rightarrow> 'h target_scheme \<Rightarrow> (bool \<times> 'h target_scheme) option" where
  "target_flash_write ops dest src len t =
     do { (ok, t) \<leftarrow> target_enter_flash_mode ops t;
          if \<not> ok then Some (False, t)
          else do { ((active, result), t) \<leftarrow> write_select ops dest [0..<length (t_flash t)] None True t;
                    case active of
                      None \<Rightarrow> Some (False, t)
                    | Some a \<Rightarrow> if \<not> result then Some (False, t) else write_loop ops dest src len a result t } }"

fun complete_loop ::
  "'h target_scheme target_ops \<Rightarrow> nat list \<Rightarrow> bool \<Rightarrow> 'h target_scheme \<Rightarrow> (bool \<times> 'h target_scheme) option" where
  "complete_loop ops [] result t = Some (result, t)"
| "complete_loop ops (i # is) result t =
     do { (r1, t) \<leftarrow> flash_buffered_flush ops i t;
          (r2, t) \<leftarrow> flash_done ops i t;
          complete_loop ops is (result \<and> r1 \<and> r2) t }"

definition target_flash_complete ::
  "'h target_scheme target_ops \<Rightarrow> 'h target_scheme \<Rightarrow> (bool \<times> 'h target_scheme) option" where
  "target_flash_complete ops t =
     (if \<not> flash_mode t then Some (False, t)
      else do { (result, t) \<leftarrow> complete_loop ops [0..<length (t_flash t)] True t;
                (_, t) \<leftarrow> target_exit_flash_mode ops t;
                Some (result, t) })"

definition target_cmd_range_erase ::
  "'h target_scheme target_ops \<Rightarrow> u32 \<Rightarrow> u32 \<Rightarrow> 'h target_scheme \<Rightarrow> (bool \<times> 'h target_scheme) option" where
  "target_cmd_range_erase ops addr len t = target_flash_erase ops addr len t"

subsection \<open>Sessions and the contents they leave\<close>

definition erased_range :: "nat \<Rightarrow> nat \<Rightarrow> (nat \<Rightarrow> byte) \<Rightarrow> nat \<Rightarrow> byte" where
  "erased_range lo hi c = (\<lambda>x. if lo \<le> x \<and> x < hi then 0xFF else c x)"

definition overlay :: "nat \<Rightarrow> byte list \<Rightarrow> (nat \<Rightarrow> byte) \<Rightarrow> nat \<Rightarrow> byte" where
  "overlay a bs c = (\<lambda>x. if a \<le> x \<and> x < a + length bs then bs ! (x - a) else c x)"

lemma overlay_append: "overlay (a + length bs) cs (overlay a bs c) = overlay a (bs @ cs) c"
  by (auto simp: overlay_def fun_eq_iff nth_append)

text \<open>A programming session as a client issues it: erase a range, write a list of segments, complete.\<close>

fun flash_write_all ::
  "'h target_scheme target_ops \<Rightarrow> (u32 \<times> byte list) list \<Rightarrow> 'h target_scheme \<Rightarrow> (bool \<times> 'h target_scheme) option" where
  "flash_write_all ops [] t = Some (True, t)"
| "flash_write_all ops ((a, bs) # segs) t =
     do { (ok, t) \<leftarrow> target_flash_write ops a bs (of_nat (length bs)) t;
          if ok then flash_write_all ops segs t else Some (False, t) }"

definition flash_program ::
  "'h target_scheme target_ops \<Rightarrow> u32 \<Rightarrow> u32 \<Rightarrow> (u32 \<times> byte list) list \<Rightarrow> 'h target_scheme \<Rightarrow> (bool \<times> 'h target_scheme) option" where
  "flash_program ops addr len segs t =
     do { (ok, t) \<leftarrow> target_flash_erase ops addr len t;
          if \<not> ok then Some (False, t)
          else do { (ok, t) \<leftarrow> flash_write_all ops segs t;
                    if \<not> ok then Some (False, t) else target_flash_complete ops t } }"

definition seg_range :: "u32 \<times> byte list \<Rightarrow> nat set" where
  "seg_range sg = {x. unat (fst sg) \<le> x \<and> x < unat (fst sg) + length (snd sg)}"

fun segs_disjoint :: "(u32 \<times> byte list) list \<Rightarrow> bool" where
  "segs_disjoint [] \<longleftrightarrow> True"
| "segs_disjoint (sg # segs) \<longleftrightarrow> (\<forall>sg'\<in>set segs. seg_range sg \<inter> seg_range sg' = {}) \<and> segs_disjoint segs"

fun overlay_all :: "(u32 \<times> byte list) list \<Rightarrow> (nat \<Rightarrow> byte) \<Rightarrow> nat \<Rightarrow> byte" where
  "overlay_all [] c = c"
| "overlay_all ((a, bs) # segs) c = overlay_all segs (overlay (unat a) bs c)"

lemma upd_flash_single [simp]: "t_flash t = [f] \<Longrightarrow> upd_flash 0 g t = t\<lparr>t_flash := [g f]\<rparr>"
  by (simp add: upd_flash_def)

subsection \<open>The contract of a flash driver\<close>

locale flash_driver =
  fixes ops :: "'h target_scheme target_ops"
    and f0 :: target_flash
    and b w v :: nat
    and ready writable :: "'h target_scheme \<Rightarrow> bool"
    and content :: "'h target_scheme \<Rightarrow> nat \<Rightarrow> byte"
  assumes sizes: "b < 32" "w < 32" "v \<le> w"
      "blocksize f0 = 2 ^ b" "writebufsize f0 = 2 ^ w" "writesize f0 = 2 ^ v" "erased f0 = 0xFF"
    and bounds: "unat (f_start f0) + unat (f_length f0) < 2 ^ 32"
      "unat (f_start f0) mod 2 ^ b = 0" "unat (f_length f0) mod 2 ^ b = 0"
      "unat (f_start f0) mod 2 ^ w = 0" "unat (f_length f0) mod 2 ^ w = 0"
    and modes: "enter_flash_mode_fn ops = None" "exit_flash_mode_fn ops = None"
    and writable_ready: "writable t \<Longrightarrow> ready t"
    and frame_flash [simp]: "ready (t\<lparr>t_flash := fs\<rparr>) = ready t" "writable (t\<lparr>t_flash := fs\<rparr>) = writable t"
      "content (t\<lparr>t_flash := fs\<rparr>) = content t"
    and frame_mode [simp]: "ready (t\<lparr>flash_mode := m\<rparr>) = ready t" "writable (t\<lparr>flash_mode := m\<rparr>) = writable t"
      "content (t\<lparr>flash_mode := m\<rparr>) = content t"
    and frame_heap [simp]: "ready (t\<lparr>plat_mallocs := h\<rparr>) = ready t" "writable (t\<lparr>plat_mallocs := h\<rparr>) = writable t"
      "content (t\<lparr>plat_mallocs := h\<rparr>) = content t"
    and hooks: "fprepare (flash_ops_of ops (f_fns f0)) = Some g \<or> fdone (flash_ops_of ops (f_fns f0)) = Some g \<Longrightarrow>
      ready t \<Longrightarrow> \<exists>t'. g 0 t = Some (True, t') \<and> ready t' \<and> (writable t \<longrightarrow> writable t') \<and>
        content t' = content t \<and> t_flash t' = t_flash t \<and> flash_mode t' = flash_mode t \<and> plat_mallocs t' = plat_mallocs t"
    and resets: "ready t \<Longrightarrow> \<exists>t'. target_reset ops t = Some t' \<and> ready t' \<and> (writable t \<longrightarrow> writable t') \<and>
        content t' = content t \<and> t_flash t' = t_flash t \<and> flash_mode t' = flash_mode t \<and> plat_mallocs t' = plat_mallocs t"
    and erases: "ready t \<Longrightarrow> unat (f_start f0) \<le> unat a \<Longrightarrow>
      unat a + 2 ^ b \<le> unat (f_start f0) + unat (f_length f0) \<Longrightarrow> unat a mod 2 ^ b = 0 \<Longrightarrow>
      \<exists>t'. ferase (flash_ops_of ops (f_fns f0)) 0 a (2 ^ b) t = Some (True, t') \<and> writable t' \<and>
        t_flash t' = t_flash t \<and> flash_mode t' = flash_mode t \<and> plat_mallocs t' = plat_mallocs t \<and>
        content t' = (\<lambda>x. if unat a \<le> x \<and> x < unat a + 2 ^ b then 0xFF else content t x)"
    and writes: "writable t \<Longrightarrow> unat (f_start f0) \<le> unat a \<Longrightarrow>
      unat a + 2 ^ v \<le> unat (f_start f0) + unat (f_length f0) \<Longrightarrow> unat a mod 2 ^ v = 0 \<Longrightarrow>
      length dat = 2 ^ v \<Longrightarrow>
      \<exists>t'. fwrite (flash_ops_of ops (f_fns f0)) 0 a dat (2 ^ v) t = Some (True, t') \<and> writable t' \<and>
        t_flash t' = t_flash t \<and> flash_mode t' = flash_mode t \<and> plat_mallocs t' = plat_mallocs t \<and>
        content t' = (\<lambda>x. if unat a \<le> x \<and> x < unat a + 2 ^ v then content t x AND dat ! (x - unat a) else content t x)"
begin

definition geom :: "target_flash \<Rightarrow> bool" where
  "geom f \<longleftrightarrow> f_start f = f_start f0 \<and> f_length f = f_length f0 \<and> blocksize f = 2 ^ b \<and>
     writesize f = 2 ^ v \<and> writebufsize f = 2 ^ w \<and> erased f = 0xFF \<and> f_fns f = f_fns f0"

definition kept :: "'h target_scheme \<Rightarrow> 'h target_scheme \<Rightarrow> bool" where
  "kept t t' \<longleftrightarrow> ready t' \<and> (writable t \<longrightarrow> writable t') \<and> flash_mode t' = flash_mode t \<and> plat_mallocs t' = plat_mallocs t"

lemma geom_upd [simp]:
  "geom (f\<lparr>operation := x\<rparr>) = geom f" "geom (f\<lparr>buf := y\<rparr>) = geom f" "geom (f\<lparr>buf_addr_base := a\<rparr>) = geom f"
  "geom (f\<lparr>buf_addr_low := a\<rparr>) = geom f" "geom (f\<lparr>buf_addr_high := a\<rparr>) = geom f"
  by (simp_all add: geom_def)

lemma kept_trans: "kept t t' \<Longrightarrow> kept t' t'' \<Longrightarrow> kept t t''"
  by (auto simp: kept_def)

lemma hook_ok:
  assumes "h = fprepare (flash_ops_of ops (f_fns f0)) \<or> h = fdone (flash_ops_of ops (f_fns f0))" "ready t"
  shows "\<exists>t'. (case h of None \<Rightarrow> Some (True, t) | Some g \<Rightarrow> g 0 t) = Some (True, t') \<and> kept t t' \<and>
    content t' = content t \<and> t_flash t' = t_flash t"
proof (cases h)
  case None
  with assms(2) show ?thesis by (simp add: kept_def)
next
  case (Some g)
  with assms hooks [of g t] show ?thesis by (force simp: kept_def)
qed

lemma flash_done_ok:
  assumes "ready t" "t_flash t = [f]" "geom f"
  shows "\<exists>t'. flash_done ops 0 t = Some (True, t') \<and> kept t t' \<and> content t' = content t \<and>
    t_flash t' = [if operation f = FLASH_OPERATION_NONE then f else f\<lparr>buf := None, operation := FLASH_OPERATION_NONE\<rparr>]"
proof (cases "operation f = FLASH_OPERATION_NONE")
  case True
  with assms show ?thesis by (simp add: flash_done_def kept_def)
next
  case False
  obtain t1 where "(case fdone (flash_ops_of ops (f_fns f0)) of None \<Rightarrow> Some (True, t) | Some g \<Rightarrow> g 0 t) = Some (True, t1)"
    "kept t t1" "content t1 = content t" "t_flash t1 = [f]" using hook_ok [OF _ assms(1)] assms(2) by metis
  with False assms show ?thesis
    by (auto simp: flash_done_def geom_def kept_def Let_def)
qed

lemma flash_prepare_ok:
  assumes "ready t" "t_flash t = [f]" "geom f" "operation f = FLASH_OPERATION_NONE \<or> operation f = op"
  shows "\<exists>t'. flash_prepare ops 0 op t = Some (True, t') \<and> kept t t' \<and> content t' = content t \<and>
    t_flash t' = [f\<lparr>operation := op\<rparr>]"
proof (cases "operation f = op")
  case True
  with assms show ?thesis by (auto simp: flash_prepare_def kept_def)
next
  case False
  let ?t = "t\<lparr>t_flash := [f\<lparr>operation := op\<rparr>]\<rparr>"
  have "ready ?t" using assms(1) by simp
  then obtain t1 where "(case fprepare (flash_ops_of ops (f_fns f0)) of None \<Rightarrow> Some (True, ?t) | Some g \<Rightarrow> g 0 ?t) = Some (True, t1)"
    "kept ?t t1" "content t1 = content ?t" "t_flash t1 = [f\<lparr>operation := op\<rparr>]" using hook_ok [of _ ?t] by fastforce
  with False assms show ?thesis
    by (auto simp: flash_prepare_def geom_def kept_def Let_def cong del: option.case_cong_weak)
qed

lemma for_addr:
  assumes "t_flash t = [f]" "geom f" "unat (f_start f0) \<le> unat a" "unat a < unat (f_start f0) + unat (f_length f0)"
  shows "target_flash_for_addr a t = Some 0"
proof -
  have "unat (f_start f0 + f_length f0) = unat (f_start f0) + unat (f_length f0)"
    using bounds(1) by (simp add: unat_word_ariths)
  with assms show ?thesis
    by (simp add: target_flash_for_addr_def flash_contains_def geom_def word_le_nat_alt word_less_nat_alt)
qed

lemma enter_ok:
  assumes "ready t"
  shows "\<exists>t'. target_enter_flash_mode ops t = Some (True, t') \<and> ready t' \<and> (writable t \<longrightarrow> writable t') \<and> flash_mode t' \<and>
    content t' = content t \<and> t_flash t' = t_flash t \<and> plat_mallocs t' = plat_mallocs t"
proof (cases "flash_mode t")
  case True
  with assms show ?thesis by (simp add: target_enter_flash_mode_def)
next
  case False
  obtain t1 where "target_reset ops t = Some t1" "ready t1 \<and> (writable t \<longrightarrow> writable t1) \<and> content t1 = content t \<and>
    t_flash t1 = t_flash t \<and> plat_mallocs t1 = plat_mallocs t" using resets [OF assms] by blast
  with False modes show ?thesis by (auto simp: target_enter_flash_mode_def)
qed

lemma exit_ok:
  assumes "ready t"
  shows "\<exists>r t'. target_exit_flash_mode ops t = Some (r, t') \<and> ready t' \<and> \<not> flash_mode t' \<and>
    content t' = content t \<and> t_flash t' = t_flash t \<and> plat_mallocs t' = plat_mallocs t"
proof (cases "flash_mode t")
  case False
  with assms show ?thesis by (intro exI [of _ True] exI [of _ t]) (simp add: target_exit_flash_mode_def)
next
  case True
  obtain t1 where "target_reset ops t = Some t1" "ready t1 \<and> content t1 = content t \<and>
    t_flash t1 = t_flash t \<and> plat_mallocs t1 = plat_mallocs t" using resets [OF assms] by blast
  with True modes show ?thesis by (auto simp: target_exit_flash_mode_def)
qed

lemma erase_step:
  assumes "ready t" "t_flash t = [f]" "geom f" "operation f = FLASH_OPERATION_NONE \<or> operation f = FLASH_OPERATION_ERASE"
    and "unat (f_start f0) \<le> unat addr" "unat addr < unat (f_start f0) + unat (f_length f0)" "len \<noteq> 0"
  shows "\<exists>t1 e. erase_loop ops addr len 0 True t = erase_loop ops e (len - min (e - addr) len) 0 True t1 \<and>
    unat e = unat addr - unat addr mod 2 ^ b + 2 ^ b \<and> unat e \<le> unat (f_start f0) + unat (f_length f0) \<and>
    writable t1 \<and> t_flash t1 = [f\<lparr>operation := FLASH_OPERATION_ERASE\<rparr>] \<and> flash_mode t1 = flash_mode t \<and>
    plat_mallocs t1 = plat_mallocs t \<and>
    content t1 = erased_range (unat addr - unat addr mod 2 ^ b) (unat addr - unat addr mod 2 ^ b + 2 ^ b) (content t)"
proof -
  let ?d = "addr AND NOT (2 ^ b - 1)"
  have e: "(unat (f_start f0) + unat (f_length f0)) mod 2 ^ b = 0" using bounds(2,3) by (simp add: mod_add_eq [symmetric])
  have d: "unat ?d = unat addr - unat addr mod 2 ^ b" by (rule unat_align_down)
  have bb: "unat (f_start f0) \<le> unat ?d" "unat ?d + 2 ^ b \<le> unat (f_start f0) + unat (f_length f0)"
    unfolding d using block_bounds [OF bounds(2) e assms(5,6)] by auto
  have u: "unat (?d + 2 ^ b) = unat ?d + 2 ^ b"
    using bb(2) bounds(1) sizes(1) by (simp add: unat_word_ariths unat_exp)
  have m: "unat ?d mod 2 ^ b = 0" by (simp add: d minus_mod_eq_mult_div)
  obtain t1 where t1: "flash_prepare ops 0 FLASH_OPERATION_ERASE t = Some (True, t1)" "kept t t1"
    "content t1 = content t" "t_flash t1 = [f\<lparr>operation := FLASH_OPERATION_ERASE\<rparr>]"
    using flash_prepare_ok [OF assms(1-4)] by blast
  have r1: "ready t1" using t1(2) by (simp add: kept_def)
  obtain t2 where t2: "ferase (flash_ops_of ops (f_fns f0)) 0 ?d (2 ^ b) t1 = Some (True, t2)" "writable t2"
    "t_flash t2 = t_flash t1" "flash_mode t2 = flash_mode t1" "plat_mallocs t2 = plat_mallocs t1"
    "content t2 = erased_range (unat ?d) (unat ?d + 2 ^ b) (content t1)"
    unfolding erased_range_def using erases [OF r1 bb m] by blast
  have g: "blocksize f = 2 ^ b" "f_fns f = f_fns f0" using assms(3) by (auto simp: geom_def)
  have "erase_loop ops addr len 0 True t = erase_loop ops (?d + 2 ^ b) (len - min (?d + 2 ^ b - addr) len) 0 True t2"
    by (subst erase_loop.simps)
      (simp add: assms(2,7) for_addr [OF assms(2,3,5,6)] Let_def g t1(1,4) t2(1))
  moreover have "flash_mode t2 = flash_mode t" "plat_mallocs t2 = plat_mallocs t" using t1(2) t2(4,5) by (auto simp: kept_def)
  moreover have "unat (?d + 2 ^ b) = unat addr - unat addr mod 2 ^ b + 2 ^ b" using u d by simp
  ultimately show ?thesis
    using t1(3,4) t2(2,3,6) u bb(2) d by (intro exI [of _ t2] exI [of _ "?d + 2 ^ b"]) simp
qed

lemma erase_loop_ok:
  assumes "ready t" "t_flash t = [f]" "geom f" "operation f = FLASH_OPERATION_NONE \<or> operation f = FLASH_OPERATION_ERASE"
    and "unat (f_start f0) \<le> unat addr" "unat addr + unat len \<le> unat (f_start f0) + unat (f_length f0)" "len \<noteq> 0"
  shows "\<exists>t'. erase_loop ops addr len 0 True t = Some (Inr (0, True), t') \<and> writable t' \<and>
    t_flash t' = [f\<lparr>operation := FLASH_OPERATION_ERASE\<rparr>] \<and> flash_mode t' = flash_mode t \<and>
    plat_mallocs t' = plat_mallocs t \<and>
    content t' = erased_range (unat addr - unat addr mod 2 ^ b) (align_up (unat addr + unat len) (2 ^ b)) (content t)"
  using assms
proof (induction "unat len" arbitrary: addr len t f rule: less_induct)
  case less
  let ?d = "unat addr - unat addr mod 2 ^ b"
  have len: "0 < unat len" using less.prems(7) by (simp add: unat_gt_0)
  then have lt: "unat addr < unat (f_start f0) + unat (f_length f0)" using less.prems(6) by simp
  obtain t1 e where t1: "erase_loop ops addr len 0 True t = erase_loop ops e (len - min (e - addr) len) 0 True t1"
    "unat e = ?d + 2 ^ b" "unat e \<le> unat (f_start f0) + unat (f_length f0)"
    "writable t1" "t_flash t1 = [f\<lparr>operation := FLASH_OPERATION_ERASE\<rparr>]" "flash_mode t1 = flash_mode t"
    "plat_mallocs t1 = plat_mallocs t" "content t1 = erased_range ?d (?d + 2 ^ b) (content t)"
    using erase_step [OF less.prems(1-5) lt less.prems(7)] by metis
  have md: "unat addr mod 2 ^ b < 2 ^ b" "unat addr mod 2 ^ b \<le> unat addr" "?d mod 2 ^ b = 0"
    by (simp_all add: minus_mod_eq_mult_div)
  have ae: "unat addr < unat e" using t1(2) md(1,2) by linarith
  then have ea: "unat (e - addr) = ?d + 2 ^ b - unat addr" "addr < e"
    unfolding t1(2) [symmetric] by (simp_all add: word_less_nat_alt word_le_nat_alt unat_sub)
  show ?case
  proof (cases "len \<le> e - addr")
    case True
    then have "unat addr + unat len \<le> ?d + 2 ^ b" using ea(1) ae t1(2) unfolding word_le_nat_alt by linarith
    then have up: "align_up (unat addr + unat len) (2 ^ b) = ?d + 2 ^ b"
      using md len ae by (intro align_up_in_block) linarith+
    have "erase_loop ops addr len 0 True t = Some (Inr (0, True), t1)"
      unfolding t1(1) using True by (subst erase_loop.simps) (simp add: min_def)
    then show ?thesis using t1 up by auto
  next
    case False
    let ?l = "len - (e - addr)"
    have l: "unat ?l = unat len - unat (e - addr)" "?l \<noteq> 0" "unat ?l < unat len"
    proof -
      have lt: "unat (e - addr) < unat len" using False by (simp add: word_less_nat_alt [symmetric])
      then show 1: "unat ?l = unat len - unat (e - addr)" by (simp add: unat_sub word_le_nat_alt)
      then have "0 < unat ?l" using lt by simp
      then show "?l \<noteq> 0" by auto
      show "unat ?l < unat len" using 1 lt ea(1) ae t1(2) by linarith
    qed
    have sum: "unat e + unat ?l = unat addr + unat len"
      using l(1) ea(1) ae t1(2) False unfolding word_le_nat_alt by linarith
    have sb: "unat (f_start f0) \<le> unat e" using ea(2) less.prems(5) by (simp add: word_less_nat_alt)
    have "geom (f\<lparr>operation := FLASH_OPERATION_ERASE\<rparr>)" using less.prems(3) by simp
    then obtain t2 where t2: "erase_loop ops e ?l 0 True t1 = Some (Inr (0, True), t2)" "writable t2"
      "t_flash t2 = [f\<lparr>operation := FLASH_OPERATION_ERASE\<rparr>]" "flash_mode t2 = flash_mode t1"
      "plat_mallocs t2 = plat_mallocs t1"
      "content t2 = erased_range (unat e - unat e mod 2 ^ b) (align_up (unat e + unat ?l) (2 ^ b)) (content t1)"
      using less.hyps [OF l(3) writable_ready [OF t1(4)] t1(5) _ _ sb _ l(2)] sum less.prems(6) by auto
    have em: "unat e mod 2 ^ b = 0" unfolding t1(2) by (simp only: mod_add_self2 md(3))
    have "unat e \<le> align_up (unat addr + unat len) (2 ^ b)"
      using em sum by (intro align_up_ge) linarith+
    then have "content t2 = erased_range ?d (align_up (unat addr + unat len) (2 ^ b)) (content t)"
      unfolding t2(6) t1(8) sum using em t1(2) by (auto simp: erased_range_def fun_eq_iff)
    then show ?thesis using t1 t2 False by (auto simp: min_def)
  qed
qed

lemma erase_ok:
  assumes "ready t" "t_flash t = [f]" "geom f" "operation f = FLASH_OPERATION_NONE"
    and "unat (f_start f0) \<le> unat addr" "unat addr + unat len \<le> unat (f_start f0) + unat (f_length f0)" "len \<noteq> 0"
  shows "\<exists>t'. target_flash_erase ops addr len t = Some (True, t') \<and> writable t' \<and>
    t_flash t' = [f\<lparr>buf := None\<rparr>] \<and> flash_mode t' \<and> plat_mallocs t' = plat_mallocs t \<and>
    content t' = erased_range (unat addr - unat addr mod 2 ^ b) (align_up (unat addr + unat len) (2 ^ b)) (content t)"
proof -
  have lt: "unat addr < unat (f_start f0) + unat (f_length f0)" using assms(6) unat_gt_0 [of len] assms(7) by linarith
  obtain t1 where t1: "target_enter_flash_mode ops t = Some (True, t1)" "ready t1" "flash_mode t1" "content t1 = content t"
    "t_flash t1 = [f]" "plat_mallocs t1 = plat_mallocs t" using enter_ok [OF assms(1)] assms(2) by auto
  obtain t2 where t2: "erase_loop ops addr len 0 True t1 = Some (Inr (0, True), t2)" "writable t2"
    "t_flash t2 = [f\<lparr>operation := FLASH_OPERATION_ERASE\<rparr>]" "flash_mode t2" "plat_mallocs t2 = plat_mallocs t"
    "content t2 = erased_range (unat addr - unat addr mod 2 ^ b) (align_up (unat addr + unat len) (2 ^ b)) (content t)"
    using erase_loop_ok [OF t1(2,5) assms(3) _ assms(5-7)] assms(4) t1 by auto
  have "geom (f\<lparr>operation := FLASH_OPERATION_ERASE\<rparr>)" using assms(3) by simp
  then obtain t3 where t3: "flash_done ops 0 t2 = Some (True, t3)" "kept t2 t3" "content t3 = content t2"
    "t_flash t3 = [f\<lparr>operation := FLASH_OPERATION_NONE, buf := None\<rparr>]"
    using flash_done_ok [OF writable_ready [OF t2(2)] t2(3)] by auto
  have "f\<lparr>operation := FLASH_OPERATION_NONE, buf := None\<rparr> = f\<lparr>buf := None\<rparr>"
    using assms(4) by (intro target_flash.equality) simp_all
  then show ?thesis
    using t1(1) t2 t3 for_addr [OF t1(5) assms(3,5) lt] by (auto simp: target_flash_erase_def kept_def)
qed

definition live :: "target_flash \<Rightarrow> byte list \<Rightarrow> bool" where
  "live f bs \<longleftrightarrow> unat (buf_addr_base f) mod 2 ^ w = 0 \<and> unat (f_start f0) \<le> unat (buf_addr_base f) \<and>
     unat (buf_addr_base f) + 2 ^ w \<le> unat (f_start f0) + unat (f_length f0) \<and>
     buf_addr_base f \<le> buf_addr_low f \<and> buf_addr_low f < buf_addr_high f \<and>
     unat (buf_addr_high f) \<le> unat (buf_addr_base f) + 2 ^ w \<and>
     (\<forall>k<2 ^ w. unat (buf_addr_base f) + k < unat (buf_addr_low f) \<or> unat (buf_addr_high f) \<le> unat (buf_addr_base f) + k \<longrightarrow>
        bs ! k = 0xFF)"

definition fresh :: "target_flash \<Rightarrow> bool" where
  "fresh f \<longleftrightarrow> buf_addr_base f = UINT32_MAX \<and> buf_addr_low f = UINT32_MAX \<and> buf_addr_high f = 0"

definition binv :: "target_flash \<Rightarrow> bool" where
  "binv f \<longleftrightarrow> (case buf f of None \<Rightarrow> True | Some bs \<Rightarrow> length bs = 2 ^ w \<and> (fresh f \<or> live f bs))"

definition engine_inv :: "'h target_scheme \<Rightarrow> target_flash \<Rightarrow> bool" where
  "engine_inv t f \<longleftrightarrow> writable t \<and> t_flash t = [f] \<and> geom f \<and> binv f \<and> operation f \<noteq> FLASH_OPERATION_ERASE"

definition view :: "'h target_scheme \<Rightarrow> target_flash \<Rightarrow> nat \<Rightarrow> byte" where
  "view t f x = (case buf f of
     None \<Rightarrow> content t x
   | Some bs \<Rightarrow> if buf_addr_base f \<noteq> UINT32_MAX \<and> unat (buf_addr_base f) \<le> x \<and> x < unat (buf_addr_base f) + 2 ^ w
       then content t x AND bs ! (x - unat (buf_addr_base f)) else content t x)"

lemma live_not_max: "live f bs \<Longrightarrow> buf_addr_base f \<noteq> UINT32_MAX \<and> buf_addr_low f \<noteq> UINT32_MAX"
proof -
  assume l: "live f bs"
  have "unat (buf_addr_base f) < 4294967295" "unat (buf_addr_low f) < 4294967295"
    using l bounds(1) by (auto simp: live_def word_less_nat_alt word_le_nat_alt)
  then show ?thesis by auto
qed

lemma flush_loop_ok:
  assumes "writable t" "t_flash t = [f]" "geom f" "buf f = Some bs" "length bs = 2 ^ w" "live f bs"
    and "buf_addr_base f \<le> a" "unat a mod 2 ^ v = 0" "unat off mod 2 ^ v = 0"
    and "unat a + unat off \<le> unat (buf_addr_base f) + 2 ^ w" "a \<le> buf_addr_high f"
  shows "\<exists>t'. flush_loop ops 0 a (a - buf_addr_base f) (buf_addr_high f - a) off True t = Some (True, t') \<and>
    writable t' \<and> t_flash t' = [f] \<and> flash_mode t' = flash_mode t \<and> plat_mallocs t' = plat_mallocs t \<and>
    content t' = (\<lambda>x. if unat a + unat off \<le> x \<and> x < unat (buf_addr_base f) + 2 ^ w
                      then content t x AND bs ! (x - unat (buf_addr_base f)) else content t x)"
  using assms(1,2,9,10)
proof (induction "2 ^ w - unat off" arbitrary: off t rule: less_induct)
  case less
  let ?B = "unat (buf_addr_base f)"
  have L: "?B mod 2 ^ w = 0" "?B + 2 ^ w \<le> unat (f_start f0) + unat (f_length f0)" "unat (f_start f0) \<le> ?B"
    "unat (buf_addr_high f) \<le> ?B + 2 ^ w" using assms(6) by (auto simp: live_def)
  have g: "writesize f = 2 ^ v" "f_fns f = f_fns f0" using assms(3) by (auto simp: geom_def)
  have ba: "?B \<le> unat a" using assms(7) by (simp add: word_le_nat_alt)
  have sub: "unat (a - buf_addr_base f) = unat a - ?B" "unat (buf_addr_high f - a) = unat (buf_addr_high f) - unat a"
    using assms(7,11) by (simp_all add: unat_sub word_le_nat_alt)
  show ?case
  proof (cases "off < buf_addr_high f - a")
    case False
    then have "unat (buf_addr_high f) \<le> unat a + unat off" unfolding word_less_nat_alt sub by linarith
    then have "bs ! (x - ?B) = 0xFF" if "unat a + unat off \<le> x" "x < ?B + 2 ^ w" for x
      using assms(6) that ba by (auto simp: live_def)
    then have "(\<lambda>x. if unat a + unat off \<le> x \<and> x < ?B + 2 ^ w then content t x AND bs ! (x - ?B) else content t x) = content t"
      by (auto simp: fun_eq_iff)
    then show ?thesis using less.prems False by (subst flush_loop.simps) simp
  next
    case True
    have lt: "unat a + unat off < ?B + 2 ^ w" using True L(4) assms(11) unfolding word_less_nat_alt sub by linarith
    have vw: "(2::nat) ^ v dvd 2 ^ w" using sizes(3) by (rule le_imp_power_dvd)
    have m1: "?B mod 2 ^ v = 0" using L(1) vw by (rule mod_0_trans)
    note m = m1 mod_0_add [OF m1 dvd_imp_mod_0 [OF vw]] mod_0_add [OF assms(8) less.prems(3)]
    have nx: "unat a + unat off + 2 ^ v \<le> ?B + 2 ^ w"
      using block_bounds(2) [OF m(1,2) _ lt] ba m(3) by simp
    have u: "unat (a + off) = unat a + unat off" "unat (a - buf_addr_base f + off) = unat a - ?B + unat off"
      "unat (off + 2 ^ v) = unat off + 2 ^ v"
      using lt nx L(2) bounds(1) ba sizes(2,3) sub(1) by (simp_all add: unat_word_ariths unat_exp)
    let ?dat = "take (2 ^ v) (drop (unat a - ?B + unat off) bs)"
    have sl: "buf_slice (buf f) (a - buf_addr_base f + off) (2 ^ v) = Some ?dat"
      using nx ba assms(5) sizes(2,3) by (simp add: buf_slice_def assms(4) u unat_exp)
    have ld: "length ?dat = 2 ^ v" using nx ba assms(5) by simp
    obtain t1 where t1: "fwrite (flash_ops_of ops (f_fns f0)) 0 (a + off) ?dat (2 ^ v) t = Some (True, t1)" "writable t1"
      "t_flash t1 = t_flash t" "flash_mode t1 = flash_mode t" "plat_mallocs t1 = plat_mallocs t"
      "content t1 = (\<lambda>x. if unat (a + off) \<le> x \<and> x < unat (a + off) + 2 ^ v then content t x AND ?dat ! (x - unat (a + off)) else content t x)"
      using writes [OF less.prems(1) _ _ _ ld, of "a + off"] u(1) m(3) nx L ba by auto
    have "(0::nat) < 2 ^ v" by simp
    then have "2 ^ w - unat (off + 2 ^ v) < 2 ^ w - unat off" using u(3) nx ba by linarith
    then obtain t2 where t2: "flush_loop ops 0 a (a - buf_addr_base f) (buf_addr_high f - a) (off + 2 ^ v) True t1 = Some (True, t2)"
      "writable t2" "t_flash t2 = [f]" "flash_mode t2 = flash_mode t1" "plat_mallocs t2 = plat_mallocs t1"
      "content t2 = (\<lambda>x. if unat a + unat (off + 2 ^ v) \<le> x \<and> x < ?B + 2 ^ w then content t1 x AND bs ! (x - ?B) else content t1 x)"
      using less.hyps [of "off + 2 ^ v" t1] t1(2,3) less.prems(2,3) u(3) nx by auto
    have dn: "?dat ! (x - (unat a + unat off)) = bs ! (x - ?B)"
      if "unat a + unat off \<le> x" "x < unat a + unat off + 2 ^ v" for x
    proof -
      have "unat a - ?B + unat off + (x - (unat a + unat off)) = x - ?B" using that ba by linarith
      then show ?thesis using that nx ba assms(5) by simp
    qed
    have "content t2 = (\<lambda>x. if unat a + unat off \<le> x \<and> x < ?B + 2 ^ w then content t x AND bs ! (x - ?B) else content t x)"
      unfolding t2(6) t1(6) u using nx dn by (intro ext) (simp add: not_le not_less)
    moreover have "flush_loop ops 0 a (a - buf_addr_base f) (buf_addr_high f - a) off True t =
       flush_loop ops 0 a (a - buf_addr_base f) (buf_addr_high f - a) (off + 2 ^ v) True t1"
      by (subst flush_loop.simps) (simp add: True less.prems(2) t1(1,3) sl g)
    ultimately show ?thesis using t1 t2 by auto
  qed
qed

lemma flush_ok:
  assumes "engine_inv t f"
  shows "\<exists>t' f'. flash_buffered_flush ops 0 t = Some (True, t') \<and> engine_inv t' f' \<and> content t' = view t f \<and>
    (buf f' \<noteq> None \<longrightarrow> fresh f') \<and> (buf f' = None \<longleftrightarrow> buf f = None) \<and> flash_mode t' = flash_mode t \<and> plat_mallocs t' = plat_mallocs t"
proof (cases "\<exists>bs. buf f = Some bs \<and> live f bs")
  case False
  have i: "writable t" "t_flash t = [f]" "geom f" "binv f" "operation f \<noteq> FLASH_OPERATION_ERASE" using assms by (auto simp: engine_inv_def)
  have "buf f = None \<or> fresh f" using i(4) False by (auto simp: binv_def split: option.splits)
  moreover from this have "view t f = content t" by (auto simp: view_def fresh_def fun_eq_iff split: option.splits)
  ultimately show ?thesis using assms i by (auto simp: flash_buffered_flush_def fresh_def Let_def)
next
  case True
  then obtain bs where bs: "buf f = Some bs" "live f bs" by blast
  have i: "writable t" "t_flash t = [f]" "geom f" "length bs = 2 ^ w" "operation f \<noteq> FLASH_OPERATION_ERASE"
    using assms bs by (auto simp: engine_inv_def binv_def)
  let ?f = "f\<lparr>operation := FLASH_OPERATION_WRITE\<rparr>"
  have "operation f = FLASH_OPERATION_NONE \<or> operation f = FLASH_OPERATION_WRITE" using i(5) by (cases "operation f") auto
  then obtain t1 where t1: "flash_prepare ops 0 FLASH_OPERATION_WRITE t = Some (True, t1)" "kept t t1" "content t1 = content t"
    "t_flash t1 = [?f]" using flash_prepare_ok [OF writable_ready [OF i(1)] i(2,3)] by blast
  let ?a = "buf_addr_low f AND NOT (2 ^ v - 1)"
  have l: "buf_addr_base f \<le> buf_addr_low f" "buf_addr_low f < buf_addr_high f" "unat (buf_addr_base f) mod 2 ^ w = 0"
    "unat (buf_addr_high f) \<le> unat (buf_addr_base f) + 2 ^ w" using bs(2) by (auto simp: live_def)
  have vw: "(2::nat) ^ v dvd 2 ^ w" using sizes(3) by (rule le_imp_power_dvd)
  have bm: "unat (buf_addr_base f) mod 2 ^ v = 0" using l(3) vw by (rule mod_0_trans)
  have a: "unat ?a = unat (buf_addr_low f) - unat (buf_addr_low f) mod 2 ^ v" by (rule unat_align_down)
  have am: "unat ?a mod 2 ^ v = 0" by (simp add: a minus_mod_eq_mult_div)
  have ba: "buf_addr_base f \<le> ?a"
  proof -
    obtain k where k: "unat (buf_addr_base f) = 2 ^ v * k" using bm by (auto simp: mod_0_imp_dvd elim!: dvdE)
    have "2 ^ v * k \<le> unat (buf_addr_low f)" using l(1) k by (simp add: word_le_nat_alt)
    then have "k \<le> unat (buf_addr_low f) div 2 ^ v" using div_le_mono [of "2 ^ v * k" _ "2 ^ v"] by simp
    then show ?thesis unfolding word_le_nat_alt a k minus_mod_eq_mult_div by simp
  qed
  have ah: "?a \<le> buf_addr_high f" "unat ?a \<le> unat (buf_addr_low f)"
    unfolding word_le_nat_alt a using l(2) by (auto simp: word_less_nat_alt)
  have lf: "live ?f bs" "geom ?f" "buf ?f = Some bs" using bs i(3) by (simp_all add: live_def)
  have w1: "writable t1" using t1(2) i(1) by (simp add: kept_def)
  have hb: "unat (buf_addr_low f) < unat (buf_addr_high f)" using l(2) by (simp add: word_less_nat_alt)
  have sel: "buf_addr_base ?f = buf_addr_base f" "buf_addr_high ?f = buf_addr_high f" by simp_all
  obtain t2 where t2: "flush_loop ops 0 ?a (?a - buf_addr_base f) (buf_addr_high f - ?a) 0 True t1 = Some (True, t2)"
    "writable t2" "t_flash t2 = [?f]" "flash_mode t2 = flash_mode t1" "plat_mallocs t2 = plat_mallocs t1"
    "content t2 = (\<lambda>x. if unat ?a \<le> x \<and> x < unat (buf_addr_base f) + 2 ^ w
                      then content t1 x AND bs ! (x - unat (buf_addr_base f)) else content t1 x)"
    using flush_loop_ok [OF w1 t1(4) lf(2,3) i(4) lf(1), of ?a 0, unfolded sel] ba am ah l(4) hb by auto
  have ff: "bs ! (x - unat (buf_addr_base f)) = 0xFF" if "unat (buf_addr_base f) \<le> x" "x < unat ?a" for x
    using bs(2) that ah(2) hb l(4) by (auto simp: live_def)
  have "content t2 = view t f"
    unfolding t2(6) t1(3) using live_not_max [OF bs(2)] ff ba
    by (auto simp: view_def bs(1) fun_eq_iff word_le_nat_alt not_le)
  moreover have "flash_buffered_flush ops 0 t = Some (True, t2\<lparr>t_flash := [?f\<lparr>buf_addr_base := UINT32_MAX, buf_addr_low := UINT32_MAX, buf_addr_high := 0\<rparr>]\<rparr>)"
    using live_not_max [OF bs(2)] l(2) t1(1,4) t2(1,3) i(3)
    by (simp add: flash_buffered_flush_def i(2) bs(1) Let_def geom_def)
  ultimately show ?thesis
    using t1 t2 i lf bs by (auto simp: engine_inv_def kept_def binv_def fresh_def)
qed

text \<open>The window step: after it the buffer is live for the window of dest, or still empty there.\<close>

definition window :: "target_flash \<Rightarrow> u32 \<Rightarrow> byte list \<Rightarrow> bool" where
  "window f base bs \<longleftrightarrow> buf f = Some bs \<and> length bs = 2 ^ w \<and> buf_addr_base f = base \<and>
     (live f bs \<or> buf_addr_low f = UINT32_MAX \<and> buf_addr_high f = 0 \<and> bs = replicate (2 ^ w) 0xFF)"

lemma window_step:
  assumes "engine_inv t f" "buf f \<noteq> None" "base \<noteq> UINT32_MAX"
  shows "\<exists>t' f' bs. flash_buffer_window ops 0 base True t = Some (True, t') \<and> writable t' \<and> t_flash t' = [f'] \<and> geom f' \<and>
    operation f' \<noteq> FLASH_OPERATION_ERASE \<and> window f' base bs \<and> view t' f' = view t f \<and>
    flash_mode t' = flash_mode t \<and> plat_mallocs t' = plat_mallocs t"
proof (cases "base = buf_addr_base f")
  case True
  obtain bs where bs: "buf f = Some bs" using assms(2) by blast
  with assms True have "length bs = 2 ^ w" "live f bs" by (auto simp: engine_inv_def binv_def fresh_def)
  then show ?thesis using True assms bs by (auto simp: engine_inv_def window_def flash_buffer_window_def)
next
  case False
  obtain t1 f1 where t1: "flash_buffered_flush ops 0 t = Some (True, t1)" "engine_inv t1 f1" "content t1 = view t f"
    "buf f1 \<noteq> None \<longrightarrow> fresh f1" "buf f1 = None \<longleftrightarrow> buf f = None" "flash_mode t1 = flash_mode t" "plat_mallocs t1 = plat_mallocs t"
    using flush_ok [OF assms(1)] by metis
  obtain bs where bs: "buf f1 = Some bs" using assms(2) t1(5) by auto
  have i: "writable t1" "t_flash t1 = [f1]" "geom f1" "length bs = 2 ^ w" "operation f1 \<noteq> FLASH_OPERATION_ERASE" "fresh f1"
    using t1 bs by (auto simp: engine_inv_def binv_def)
  let ?f = "f1\<lparr>buf_addr_base := base, buf := Some (replicate (2 ^ w) 0xFF)\<rparr>"
  have n: "unat (writebufsize f1) = 2 ^ w" "erased f1 = 0xFF" using i(3) sizes(2) by (auto simp: geom_def unat_exp)
  have bsq: "buf_set 0 0xFF (t1\<lparr>t_flash := [f1\<lparr>buf_addr_base := base\<rparr>]\<rparr>) = Some (t1\<lparr>t_flash := [?f]\<rparr>)"
    by (simp add: buf_set_def bs n i(4))
  have "view (t1\<lparr>t_flash := [?f]\<rparr>) ?f = view t f"
    using t1(3) by (auto simp: view_def fun_eq_iff)
  then show ?thesis
    using False t1 i assms(1) n bsq by (auto simp: engine_inv_def window_def fresh_def Let_def flash_buffer_window_def)
qed

lemma copy_live:
  assumes "window f base bs" "base AND NOT (2 ^ w - 1) = base" "unat (f_start f0) \<le> unat base"
    "unat base + 2 ^ w \<le> unat (f_start f0) + unat (f_length f0)"
    and "base \<le> dest" "dat \<noteq> []" "unat dest + length dat \<le> unat base + 2 ^ w"
    and f': "f' = f\<lparr>buf := Some (take (unat (dest - base)) bs @ dat @ drop (unat (dest - base) + length dat) bs),
        buf_addr_low := min (buf_addr_low f) dest, buf_addr_high := max (buf_addr_high f) (dest + of_nat (length dat))\<rparr>"
  shows "live f' (take (unat (dest - base)) bs @ dat @ drop (unat (dest - base) + length dat) bs)"
proof -
  let ?bs = "take (unat (dest - base)) bs @ dat @ drop (unat (dest - base) + length dat) bs"
  have o: "unat (dest - base) = unat dest - unat base" "unat base \<le> unat dest" using assms(5) by (simp_all add: unat_sub word_le_nat_alt)
  have u: "unat (dest + of_nat (length dat)) = unat dest + length dat"
    using assms(4,7) bounds(1) by (simp add: unat_word_ariths unat_of_nat)
  have bs: "length bs = 2 ^ w" "buf_addr_base f = base" using assms(1) by (auto simp: window_def)
  have bm: "unat base mod 2 ^ w = 0" using unat_align_down [of base w] assms(2) by (metis bits_mod_div_trivial minus_mod_eq_mult_div mod_mult_self1_is_0)
  have lo: "unat (buf_addr_low f') = min (unat (buf_addr_low f)) (unat dest)"
    and hi: "unat (buf_addr_high f') = max (unat (buf_addr_high f)) (unat dest + length dat)"
    unfolding f' by (simp_all add: min_def max_def word_le_nat_alt u)
  have old: "unat base \<le> unat (buf_addr_low f)" "unat (buf_addr_high f) \<le> unat base + 2 ^ w"
    "\<And>k. k < 2 ^ w \<Longrightarrow> unat base + k < unat (buf_addr_low f) \<or> unat (buf_addr_high f) \<le> unat base + k \<Longrightarrow> bs ! k = 0xFF"
    using assms(1,4) bounds(1) by (auto simp: window_def live_def word_le_nat_alt)
  have "?bs ! k = 0xFF" if k: "k < 2 ^ w" "unat base + k < unat (buf_addr_low f') \<or> unat (buf_addr_high f') \<le> unat base + k" for k
    using k old(3) [of k] o bs assms(6) unfolding lo hi by (auto simp: nth_append min_def max_def split: if_splits)
  moreover have "min (unat (buf_addr_low f)) (unat dest) < max (unat (buf_addr_high f)) (unat dest + length dat)"
    using assms(6) by (simp add: min_less_iff_disj less_max_iff_disj)
  ultimately show ?thesis
    using old(1,2) o bm assms(3,4,7) bs unfolding live_def word_le_nat_alt word_less_nat_alt lo hi
    by (auto simp: f')
qed

lemma window_geometry:
  assumes "unat (f_start f0) \<le> unat dest" "unat dest < unat (f_start f0) + unat (f_length f0)" "base = dest AND NOT (2 ^ w - 1)"
  shows "base AND NOT (2 ^ w - 1) = base" "unat (f_start f0) \<le> unat base" "base \<le> dest" "base \<noteq> UINT32_MAX"
    "unat base + 2 ^ w \<le> unat (f_start f0) + unat (f_length f0)" "unat (dest mod 2 ^ w) = unat (dest - base)"
    "unat (dest - base) = unat dest mod 2 ^ w" "unat base + unat dest mod 2 ^ w = unat dest"
proof -
  have b: "unat base = unat dest - unat dest mod 2 ^ w" unfolding assms(3) by (rule unat_align_down)
  show "base AND NOT (2 ^ w - 1) = base" unfolding assms(3) by (simp only: and.assoc and.idem)
  have e: "(unat (f_start f0) + unat (f_length f0)) mod 2 ^ w = 0" using bounds(4,5) by (rule mod_0_add)
  show S: "unat (f_start f0) \<le> unat base" and E: "unat base + 2 ^ w \<le> unat (f_start f0) + unat (f_length f0)"
    unfolding b using block_bounds [OF bounds(4) e assms(1,2)] by auto
  show le: "base \<le> dest" unfolding word_le_nat_alt b by simp
  have "(1::nat) \<le> 2 ^ w" by simp
  moreover have "unat (f_start f0) + unat (f_length f0) < 4294967296" using bounds(1) by simp
  ultimately have "unat base < 4294967295" using E by linarith
  then show "base \<noteq> UINT32_MAX" by auto
  show d: "unat (dest - base) = unat dest mod 2 ^ w" using le b by (simp add: unat_sub)
  show "unat (dest mod 2 ^ w) = unat (dest - base)" using d sizes(2) by (simp add: unat_mod_exp)
  show "unat base + unat dest mod 2 ^ w = unat dest" unfolding b by simp
qed

lemma write_step:
  assumes "engine_inv t f" "buf f \<noteq> None" "unat (f_start f0) \<le> unat dest"
    "unat dest + unat len \<le> unat (f_start f0) + unat (f_length f0)" "len \<noteq> 0" "unat len \<le> length src"
    and "\<forall>x. unat dest \<le> x \<and> x < unat dest + unat len \<longrightarrow> view t f x = 0xFF"
  shows "\<exists>t1 f1 ll. flash_buffered_write_loop ops 0 dest src len True t =
      flash_buffered_write_loop ops 0 (dest + ll) (drop (unat ll) src) (len - ll) True t1 \<and>
    0 < unat ll \<and> ll \<le> len \<and> engine_inv t1 f1 \<and> buf f1 \<noteq> None \<and>
    view t1 f1 = overlay (unat dest) (take (unat ll) src) (view t f) \<and>
    flash_mode t1 = flash_mode t \<and> plat_mallocs t1 = plat_mallocs t"
proof -
  define base where "base = dest AND NOT (2 ^ w - 1)"
  have len: "0 < unat len" using assms(5) by (simp add: unat_gt_0)
  then have lt: "unat dest < unat (f_start f0) + unat (f_length f0)" using assms(4) by linarith
  note G = window_geometry [OF assms(3) lt base_def]
  define ll where "ll = min (2 ^ w - dest mod 2 ^ w) len"
  have md: "unat dest mod 2 ^ w < 2 ^ w" by simp
  have wd: "unat (2 ^ w - dest mod 2 ^ w :: u32) = 2 ^ w - unat dest mod 2 ^ w"
    using md sizes(2) by (subst unat_sub) (simp_all add: word_le_nat_alt unat_exp unat_mod_exp)
  have ll: "unat ll = min (2 ^ w - unat dest mod 2 ^ w) (unat len)" unfolding ll_def by (simp add: min_def word_le_nat_alt wd)
  have ll0: "0 < unat ll" "ll \<le> len" "unat ll \<le> unat len" unfolding word_le_nat_alt ll using md len by auto
  have lw: "unat dest + unat ll \<le> unat base + 2 ^ w" using ll G(8) md by linarith
  obtain t1 f1 bs where t1: "flash_buffer_window ops 0 base True t = Some (True, t1)" "writable t1" "t_flash t1 = [f1]" "geom f1"
    "operation f1 \<noteq> FLASH_OPERATION_ERASE" "window f1 base bs" "view t1 f1 = view t f"
    "flash_mode t1 = flash_mode t" "plat_mallocs t1 = plat_mallocs t"
    using window_step [OF assms(1,2) G(4)] by (elim exE conjE) (rule that)
  let ?dat = "take (unat ll) src"
  have ld: "length ?dat = unat ll" "?dat \<noteq> []" "of_nat (length ?dat) = ll"
  proof -
    show l: "length ?dat = unat ll" using ll0(3) assms(6) by simp
    show "?dat \<noteq> []" using l ll0(1) by (metis length_0_conv less_nat_zero_code)
    show "of_nat (length ?dat) = ll" unfolding l by simp
  qed
  let ?bs = "take (unat (dest - base)) bs @ ?dat @ drop (unat (dest - base) + length ?dat) bs"
  let ?f = "f1\<lparr>buf := Some ?bs, buf_addr_low := min (buf_addr_low f1) dest,
              buf_addr_high := max (buf_addr_high f1) (dest + of_nat (length ?dat))\<rparr>"
  let ?t = "t1\<lparr>t_flash := [?f]\<rparr>"
  have bs: "buf f1 = Some bs" "length bs = 2 ^ w" "buf_addr_base f1 = base" using t1(6) by (auto simp: window_def)
  have live: "live ?f ?bs"
    using copy_live [OF t1(6) G(1,2,5,3) ld(2)] lw ld(1) by simp
  have lb: "length ?bs = 2 ^ w" using bs(2) ld(1) lw G(7,8) by simp
  have g: "writebufsize f = 2 ^ w" "t_flash t = [f]" using assms(1) by (auto simp: engine_inv_def geom_def)
  have cp: "buf_copy 0 (unat (dest - base)) ?dat t1 = Some (t1\<lparr>t_flash := [f1\<lparr>buf := Some ?bs\<rparr>]\<rparr>)"
    using t1(3) bs ld(1) lw G(7,8) by (simp add: buf_copy_def)
  have step: "flash_buffered_write_loop ops 0 dest src len True t =
      flash_buffered_write_loop ops 0 (dest + ll) (drop (unat ll) src) (len - ll) True ?t"
    using assms(5,6) ll0 cp t1(1) ld(3) G(6) sizes(2) unat_exp [of w] 
    by (subst flash_buffered_write_loop.simps) (simp add: g base_def [symmetric] ll_def [symmetric] Let_def t1(3) G(6)
       del: length_take)
  have "view ?t ?f = overlay (unat dest) ?dat (view t f)"
  proof
    fix x
    have v: "view t f x = (if unat base \<le> x \<and> x < unat base + 2 ^ w then content t1 x AND bs ! (x - unat base) else content t1 x)"
      unfolding t1(7) [symmetric] using bs G(4) by (simp add: view_def)
    have v': "view ?t ?f x = (if unat base \<le> x \<and> x < unat base + 2 ^ w then content t1 x AND ?bs ! (x - unat base) else content t1 x)"
      using bs(3) G(4) by (simp add: view_def)
    have n: "?bs ! (x - unat base) = (if unat dest \<le> x \<and> x < unat dest + unat ll then ?dat ! (x - unat dest) else bs ! (x - unat base))"
      if "unat base \<le> x" "x < unat base + 2 ^ w"
    proof -
      have "unat (dest - base) + length ?dat \<le> length bs" "x - unat base < length bs" using ld(1) lw G(7,8) bs(2) that by linarith+
      note nth_splice [OF this]
      moreover have "unat (dest - base) \<le> x - unat base \<longleftrightarrow> unat dest \<le> x" 
        "x - unat base < unat (dest - base) + length ?dat \<longleftrightarrow> x < unat dest + unat ll"
        "x - unat base - unat (dest - base) = x - unat dest"
        using that G(7,8) ld(1) by linarith+
      ultimately show ?thesis by (simp only:)
    qed
    consider "unat dest \<le> x" "x < unat dest + unat ll" | "unat base \<le> x" "x < unat dest"
      | "unat dest + unat ll \<le> x" "x < unat base + 2 ^ w" | "x < unat base" | "unat base + 2 ^ w \<le> x" by linarith
    then show "view ?t ?f x = overlay (unat dest) ?dat (view t f) x"
    proof cases
      case 1
      then have "view t f x = 0xFF" using assms(7) ll0(3) by simp
      then have "content t1 x = 0xFF" unfolding v by (auto split: if_splits dest: byte_and_eq_ff)
      moreover have w: "unat base \<le> x" "x < unat base + 2 ^ w" using 1 lw G(8) by linarith+
      ultimately show ?thesis using 1 ld(1) n [OF w] unfolding v' overlay_def by simp
    next
      case 2
      then have w: "unat base \<le> x" "x < unat base + 2 ^ w" using lw by linarith+
      show ?thesis using 2 n [OF w] unfolding v' overlay_def v by simp
    next
      case 3
      then have w: "unat base \<le> x" "x < unat base + 2 ^ w" using G(8) by linarith+
      show ?thesis using 3 ld(1) n [OF w] unfolding v' overlay_def v by simp
    next
      case 4
      then have "x < unat dest" using G(8) by linarith
      with 4 show ?thesis unfolding v' overlay_def v by simp
    next
      case 5
      then have "\<not> x < unat dest + unat ll" using lw by linarith
      with 5 ld(1) show ?thesis unfolding v' overlay_def v by simp
    qed
  qed
  then show ?thesis
    using step ll0 t1 live lb by (intro exI [of _ ?t] exI [of _ ?f] exI [of _ ll]) (simp add: engine_inv_def binv_def)
qed

lemma buffered_write_ok:
  assumes "engine_inv t f" "buf f \<noteq> None" "unat (f_start f0) \<le> unat dest"
    "unat dest + unat len \<le> unat (f_start f0) + unat (f_length f0)" "unat len \<le> length src"
    and "\<forall>x. unat dest \<le> x \<and> x < unat dest + unat len \<longrightarrow> view t f x = 0xFF"
  shows "\<exists>t' f'. flash_buffered_write_loop ops 0 dest src len True t = Some (True, t') \<and> engine_inv t' f' \<and> buf f' \<noteq> None \<and>
    view t' f' = overlay (unat dest) (take (unat len) src) (view t f) \<and> flash_mode t' = flash_mode t \<and> plat_mallocs t' = plat_mallocs t"
  using assms
proof (induction "unat len" arbitrary: dest src len t f rule: less_induct)
  case less
  show ?case
  proof (cases "len = 0")
    case True
    then have "flash_buffered_write_loop ops 0 dest src len True t = Some (True, t)"
      by (subst flash_buffered_write_loop.simps) simp
    with less.prems True show ?thesis by (auto simp: overlay_def fun_eq_iff)
  next
    case False
    obtain t1 f1 ll where t1: "flash_buffered_write_loop ops 0 dest src len True t =
        flash_buffered_write_loop ops 0 (dest + ll) (drop (unat ll) src) (len - ll) True t1"
      "0 < unat ll" "ll \<le> len" "engine_inv t1 f1" "buf f1 \<noteq> None"
      "view t1 f1 = overlay (unat dest) (take (unat ll) src) (view t f)" "flash_mode t1 = flash_mode t"
      "plat_mallocs t1 = plat_mallocs t"
      using write_step [OF less.prems(1-4) False less.prems(5,6)] by (elim exE conjE) (rule that)
    have l: "unat ll \<le> unat len" "unat (len - ll) = unat len - unat ll" using t1(3) by (simp_all add: word_le_nat_alt unat_sub)
    have d: "unat (dest + ll) = unat dest + unat ll"
      using less.prems(4) bounds(1) l(1) by (simp add: unat_word_ariths)
    have ff: "\<forall>x. unat (dest + ll) \<le> x \<and> x < unat (dest + ll) + unat (len - ll) \<longrightarrow> view t1 f1 x = 0xFF"
      unfolding t1(6) d l(2) using less.prems(5,6) l(1) by (auto simp: overlay_def)
    have 1: "unat (len - ll) < unat len" "unat (f_start f0) \<le> unat (dest + ll)"
      "unat (dest + ll) + unat (len - ll) \<le> unat (f_start f0) + unat (f_length f0)"
      "unat (len - ll) \<le> length (drop (unat ll) src)"
      using less.prems(3-5) l t1(2) d by (auto simp: diff_le_mono)
    obtain t2 f2 where t2: "flash_buffered_write_loop ops 0 (dest + ll) (drop (unat ll) src) (len - ll) True t1 = Some (True, t2)"
      "engine_inv t2 f2" "buf f2 \<noteq> None"
      "view t2 f2 = overlay (unat (dest + ll)) (take (unat (len - ll)) (drop (unat ll) src)) (view t1 f1)"
      "flash_mode t2 = flash_mode t1" "plat_mallocs t2 = plat_mallocs t1"
      using less.hyps [OF 1(1) t1(4,5) 1(2,3,4) ff] by (elim exE conjE) (rule that)
    have "view t2 f2 = overlay (unat dest) (take (unat len) src) (view t f)"
    proof -
      have "length (take (unat ll) src) = unat ll" using l(1) less.prems(5) by simp
      moreover have "take (unat ll) src @ take (unat len - unat ll) (drop (unat ll) src) = take (unat len) src"
        using l(1) by (metis le_add_diff_inverse take_add)
      ultimately show ?thesis
        unfolding t2(4) t1(6) d l(2) using overlay_append [of "unat dest" "take (unat ll) src"] by simp
    qed
    with t1 t2 show ?thesis by (intro exI [of _ t2] exI [of _ f2]) simp
  qed
qed

lemma alloc_ok:
  assumes "engine_inv t f" "buf f = None" "list_all id (plat_mallocs t)"
  shows "\<exists>t' f'. flash_buffer_alloc 0 t = (True, t') \<and> engine_inv t' f' \<and> buf f' \<noteq> None \<and> view t' f' = view t f \<and>
    flash_mode t' = flash_mode t \<and> list_all id (plat_mallocs t')"
proof -
  obtain t1 where t1: "plat_malloc t = (True, t1)" "writable t1" "t_flash t1 = [f]" "content t1 = content t"
    "flash_mode t1 = flash_mode t" "list_all id (plat_mallocs t1)"
    using assms by (cases "plat_mallocs t") (auto simp: plat_malloc_def engine_inv_def)
  have g: "unat (writebufsize f) = 2 ^ w" using assms(1) sizes(2) by (auto simp: engine_inv_def geom_def unat_exp)
  show ?thesis
    using t1 assms(1,2) by (auto simp: flash_buffer_alloc_def engine_inv_def binv_def fresh_def g view_def fun_eq_iff)
qed

text \<open>A target that is being programmed: the region is in state f and allocations succeed.\<close>

definition programming :: "'h target_scheme \<Rightarrow> target_flash \<Rightarrow> bool" where
  "programming t f \<longleftrightarrow> engine_inv t f \<and> list_all id (plat_mallocs t)"

lemma write_ok:
  assumes "programming t f" "unat (f_start f0) \<le> unat dest"
    "unat dest + unat len \<le> unat (f_start f0) + unat (f_length f0)" "len \<noteq> 0" "unat len \<le> length src"
    and "\<forall>x. unat dest \<le> x \<and> x < unat dest + unat len \<longrightarrow> view t f x = 0xFF"
  shows "\<exists>t' f'. target_flash_write ops dest src len t = Some (True, t') \<and> programming t' f' \<and> flash_mode t' \<and>
    view t' f' = overlay (unat dest) (take (unat len) src) (view t f)"
proof -
  have i: "engine_inv t f" "list_all id (plat_mallocs t)" using assms(1) by (simp_all add: programming_def)
  have lt: "unat dest < unat (f_start f0) + unat (f_length f0)" using assms(3,4) unat_gt_0 [of len] by linarith
  obtain t1 where t1: "target_enter_flash_mode ops t = Some (True, t1)" "engine_inv t1 f" "flash_mode t1"
    "view t1 f = view t f" "list_all id (plat_mallocs t1)"
  proof -
    have "writable t" using i(1) by (simp add: engine_inv_def)
    from enter_ok [OF writable_ready [OF this]] obtain t1 where e: "target_enter_flash_mode ops t = Some (True, t1)"
      "writable t \<longrightarrow> writable t1" "flash_mode t1" "content t1 = content t" "t_flash t1 = t_flash t"
      "plat_mallocs t1 = plat_mallocs t" by (elim exE conjE) (rule that)
    have "view t1 f = view t f" by (intro ext) (simp only: view_def e(4))
    with e i show ?thesis by (intro that [of t1]) (simp_all add: engine_inv_def)
  qed
  have g: "t_flash t1 = [f]" "geom f" using t1(2) by (auto simp: engine_inv_def)
  have c: "flash_contains dest f" using for_addr [OF g assms(2) lt] by (auto simp: target_flash_for_addr_def g split: if_splits)
  obtain t2 f2 where t2: "(if buf f = None then flash_buffer_alloc 0 t1 else (True, t1)) = (True, t2)" "engine_inv t2 f2"
    "buf f2 \<noteq> None" "view t2 f2 = view t f" "flash_mode t2" "list_all id (plat_mallocs t2)"
  proof (cases "buf f = None")
    case True
    from alloc_ok [OF t1(2) True t1(5)] obtain t2 f2 where "flash_buffer_alloc 0 t1 = (True, t2)" "engine_inv t2 f2" "buf f2 \<noteq> None"
      "view t2 f2 = view t1 f" "flash_mode t2 = flash_mode t1" "list_all id (plat_mallocs t2)" by (elim exE conjE) (rule that)
    with True t1 show ?thesis by (intro that [of t2 f2]) auto
  next
    case False
    with t1 show ?thesis by (intro that [of t1 f]) auto
  qed
  have le: "min (dest + len) (f_start f0 + f_length f0) = dest + len"
    using assms(3) bounds(1) by (auto simp: min_def word_le_nat_alt unat_word_ariths)
  have ff: "\<forall>x. unat dest \<le> x \<and> x < unat dest + unat len \<longrightarrow> view t2 f2 x = 0xFF" using assms(6) t2(4) by simp
  obtain t3 f3 where t3: "flash_buffered_write_loop ops 0 dest src len True t2 = Some (True, t3)" "engine_inv t3 f3"
    "view t3 f3 = overlay (unat dest) (take (unat len) src) (view t2 f2)" "flash_mode t3 = flash_mode t2"
    "plat_mallocs t3 = plat_mallocs t2"
    using buffered_write_ok [OF t2(2,3) assms(2,3,5) ff] by (elim exE conjE) (rule that)
  have g2: "t_flash t2 = [f2]" "f_start f2 = f_start f0" "f_length f2 = f_length f0" using t2(2) by (auto simp: engine_inv_def geom_def)
  have last: "write_loop ops (dest + len) (drop (unat len) src) 0 0 True t3 = Some (True, t3)"
    by (subst write_loop.simps) simp
  have "write_loop ops dest src len 0 True t1 = Some (True, t3)"
  proof (cases "buf f = None")
    case True
    with t2(1) have "flash_buffer_alloc 0 t1 = (True, t2)" by simp
    with True show ?thesis using t3(1) last
      by (subst write_loop.simps)
        (simp add: assms(4) for_addr [OF g assms(2) lt] g g2 le Let_def flash_buffered_write_def)
  next
    case False
    with t2(1) g g2 have e: "t2 = t1" "f2 = f" by auto
    show ?thesis using False t3(1) last g2 unfolding e
      by (subst write_loop.simps)
        (auto simp: assms(4) for_addr [OF g assms(2) lt] le Let_def flash_buffered_write_def)
  qed
  then have "target_flash_write ops dest src len t = Some (True, t3)"
    using t1(1) g c by (simp add: target_flash_write_def)
  then show ?thesis using t2 t3 by (auto simp: programming_def)
qed

lemma complete_ok:
  assumes "programming t f" "flash_mode t"
  shows "\<exists>t' f'. target_flash_complete ops t = Some (True, t') \<and> content t' = view t f \<and> ready t' \<and>
    \<not> flash_mode t' \<and> t_flash t' = [f'] \<and> geom f' \<and> operation f' = FLASH_OPERATION_NONE \<and>
    (buf f' = None \<or> fresh f')"
proof -
  obtain t1 f1 where t1: "flash_buffered_flush ops 0 t = Some (True, t1)" "engine_inv t1 f1" "content t1 = view t f"
    "buf f1 \<noteq> None \<longrightarrow> fresh f1" "flash_mode t1 = flash_mode t"
    using flush_ok [of t f] assms(1) unfolding programming_def by (elim exE conjE) auto
  have i: "ready t1" "t_flash t1 = [f1]" "geom f1" using t1(2) writable_ready by (auto simp: engine_inv_def)
  obtain t2 where t2: "flash_done ops 0 t1 = Some (True, t2)" "kept t1 t2" "content t2 = content t1"
    "t_flash t2 = [if operation f1 = FLASH_OPERATION_NONE then f1 else f1\<lparr>buf := None, operation := FLASH_OPERATION_NONE\<rparr>]"
    using flash_done_ok [OF i] by blast
  obtain r t3 where t3: "target_exit_flash_mode ops t2 = Some (r, t3)" "ready t3" "\<not> flash_mode t3" "content t3 = content t2"
    "t_flash t3 = t_flash t2" using exit_ok [of t2] t2(2) by (auto simp: kept_def)
  have "length (t_flash t) = 1" using assms(1) by (simp add: programming_def engine_inv_def)
  then have "target_flash_complete ops t = Some (True, t3)"
    using assms(2) t1(1) t2(1) t3(1) by (simp add: target_flash_complete_def)
  then show ?thesis using t1 t2 t3 i by (auto simp: fresh_def)
qed

subsubsection \<open>Sequences of writes\<close>

definition seg_in :: "u32 \<times> byte list \<Rightarrow> bool" where
  "seg_in sg \<longleftrightarrow> snd sg \<noteq> [] \<and> unat (f_start f0) \<le> unat (fst sg) \<and>
     unat (fst sg) + length (snd sg) \<le> unat (f_start f0) + unat (f_length f0)"

lemma writes_ok:
  assumes "programming t f" "flash_mode t" "list_all seg_in segs" "segs_disjoint segs"
    and "\<forall>sg\<in>set segs. \<forall>x\<in>seg_range sg. view t f x = 0xFF"
  shows "\<exists>t' f'. flash_write_all ops segs t = Some (True, t') \<and> programming t' f' \<and> flash_mode t' \<and>
    view t' f' = overlay_all segs (view t f)"
  using assms
proof (induction segs arbitrary: t f)
  case Nil
  then show ?case by auto
next
  case (Cons sg segs)
  obtain a bs where sg: "sg = (a, bs)" by (cases sg)
  have s: "bs \<noteq> []" "unat (f_start f0) \<le> unat a" "unat a + length bs \<le> unat (f_start f0) + unat (f_length f0)"
    using Cons.prems(3) by (auto simp: sg seg_in_def)
  let ?l = "of_nat (length bs) :: u32"
  have l: "unat ?l = length bs" using s(3) bounds(1) by (simp add: unat_of_nat)
  have l0: "?l \<noteq> 0" using s(1) l by (metis length_0_conv unat_0)
  have ff: "\<forall>x. unat a \<le> x \<and> x < unat a + unat ?l \<longrightarrow> view t f x = 0xFF"
    using Cons.prems(5) by (simp add: sg l seg_range_def)
  have le: "unat a + unat ?l \<le> unat (f_start f0) + unat (f_length f0)" "unat ?l \<le> length bs" using s(3) l by simp_all
  obtain t1 f1 where t1: "target_flash_write ops a bs ?l t = Some (True, t1)" "programming t1 f1" "flash_mode t1"
    "view t1 f1 = overlay (unat a) (take (unat ?l) bs) (view t f)"
    using write_ok [OF Cons.prems(1) s(2) le(1) l0 le(2) ff] by (elim exE conjE) (rule that)
  have v1: "view t1 f1 = overlay (unat a) bs (view t f)" using t1(4) by (simp add: l)
  have ff1: "\<forall>sg\<in>set segs. \<forall>x\<in>seg_range sg. view t1 f1 x = 0xFF"
  proof (intro ballI)
    fix sg' x
    assume sg': "sg' \<in> set segs" "x \<in> seg_range sg'"
    then have "x \<notin> seg_range sg" using Cons.prems(4) by auto
    moreover have "view t f x = 0xFF" using Cons.prems(5) sg' by simp
    ultimately show "view t1 f1 x = 0xFF" unfolding v1 by (auto simp: overlay_def sg seg_range_def)
  qed
  obtain t2 f2 where "flash_write_all ops segs t1 = Some (True, t2)" "programming t2 f2" "flash_mode t2"
    "view t2 f2 = overlay_all segs (view t1 f1)"
    using Cons.IH [OF t1(2,3) _ _ ff1] Cons.prems(3,4) by auto
  then show ?case using t1(1) v1 by (auto simp: sg)
qed

lemma erase_programming:
  assumes "writable t" "t_flash t = [f\<lparr>buf := None\<rparr>]" "geom f" "operation f = FLASH_OPERATION_NONE" "list_all id (plat_mallocs t)"
  shows "programming t (f\<lparr>buf := None\<rparr>)" "view t (f\<lparr>buf := None\<rparr>) = content t"
  using assms by (auto simp: programming_def engine_inv_def binv_def view_def fun_eq_iff)

lemma program_ok:
  assumes "ready t" "t_flash t = [f]" "geom f" "operation f = FLASH_OPERATION_NONE" "list_all id (plat_mallocs t)"
    and "unat (f_start f0) \<le> unat addr" "unat addr + unat len \<le> unat (f_start f0) + unat (f_length f0)" "len \<noteq> 0"
    and "segs_disjoint segs" "\<forall>sg\<in>set segs. snd sg \<noteq> [] \<and> unat addr \<le> unat (fst sg) \<and> unat (fst sg) + length (snd sg) \<le> unat addr + unat len"
  shows "\<exists>t'. flash_program ops addr len segs t = Some (True, t') \<and> ready t' \<and> \<not> flash_mode t' \<and>
    content t' = overlay_all segs (erased_range (unat addr - unat addr mod 2 ^ b) (align_up (unat addr + unat len) (2 ^ b)) (content t))"
proof -
  obtain t1 where t1: "target_flash_erase ops addr len t = Some (True, t1)" "writable t1" "t_flash t1 = [f\<lparr>buf := None\<rparr>]"
    "flash_mode t1" "plat_mallocs t1 = plat_mallocs t"
    "content t1 = erased_range (unat addr - unat addr mod 2 ^ b) (align_up (unat addr + unat len) (2 ^ b)) (content t)"
    using erase_ok [OF assms(1-4,6-8)] by (elim exE conjE) (rule that)
  have p: "programming t1 (f\<lparr>buf := None\<rparr>)" "view t1 (f\<lparr>buf := None\<rparr>) = content t1"
    using erase_programming [OF t1(2,3) assms(3,4)] assms(5) t1(5) by auto
  have in1: "list_all seg_in segs" using assms(6,7,10) by (fastforce simp: list_all_iff seg_in_def)
  have up: "unat addr + unat len \<le> align_up (unat addr + unat len) (2 ^ b)" by (rule align_up_le) simp
  have ff: "\<forall>sg\<in>set segs. \<forall>x\<in>seg_range sg. view t1 (f\<lparr>buf := None\<rparr>) x = 0xFF"
    unfolding p(2) t1(6) using assms(10) up by (fastforce simp: erased_range_def seg_range_def)
  obtain t2 f2 where t2: "flash_write_all ops segs t1 = Some (True, t2)" "programming t2 f2" "flash_mode t2"
    "view t2 f2 = overlay_all segs (view t1 (f\<lparr>buf := None\<rparr>))"
    using writes_ok [OF p(1) t1(4) in1 assms(9) ff] by (elim exE conjE) (rule that)
  obtain t3 f3 where t3: "target_flash_complete ops t2 = Some (True, t3)" "content t3 = view t2 f2" "ready t3" "\<not> flash_mode t3"
    using complete_ok [OF t2(2,3)] by (elim exE conjE) (rule that)
  show ?thesis
    using t1(1,6) t2(1,4) t3 p(2) by (auto simp: flash_program_def)
qed

end

end
