(* ===== verification/Standalone_Load.thy ===== *)
theory Standalone_Load
  imports Target_Flash
begin

text \<open>
  The on-device loader of the Cardputer, components/ui/bmp_standalone_load.c, and the sink that binds
  it to the target layer, components/ui/ui_debug.c. The loader walks an ELF or raw binary file and
  drives flash through callbacks: erase once, program in chunks of 2048 bytes, complete, and verify by
  reading back in blocks of 256 bytes. An open file is its contents, and the position is an argument;
  long has 32 bits, so an offset from 2^31 on cannot be sought. Failure is the reason string (Inl).
  Log lines are not modelled.
\<close>

subsection \<open>Files and headers\<close>

definition file_get :: "byte list \<Rightarrow> nat \<Rightarrow> nat \<Rightarrow> byte list option" where
  "file_get f pos n = (if pos + n \<le> length f then Some (take n (drop pos f)) else None)"

definition read_at :: "byte list \<Rightarrow> u32 \<Rightarrow> nat \<Rightarrow> byte list option" where
  "read_at f off n = (if off < 0x80000000 then file_get f (unat off) n else None)"

record elf32_ehdr =
  e_ident :: "byte list"
  e_machine :: u16
  e_entry :: u32
  e_phoff :: u32
  e_phentsize :: u16
  e_phnum :: u16

record elf32_phdr =
  p_type :: u32
  p_offset :: u32
  p_paddr :: u32
  p_filesz :: u32

definition u32_at :: "byte list \<Rightarrow> nat \<Rightarrow> u32" where
  "u32_at bs i = u32_of_bytes (take 4 (drop i bs))"

definition u16_at :: "byte list \<Rightarrow> nat \<Rightarrow> u16" where
  "u16_at bs i = u16_of_bytes (take 2 (drop i bs))"

definition parse_ehdr :: "byte list \<Rightarrow> elf32_ehdr" where
  "parse_ehdr bs = \<lparr>e_ident = take 16 bs, e_machine = u16_at bs 18, e_entry = u32_at bs 24, e_phoff = u32_at bs 28,
     e_phentsize = u16_at bs 42, e_phnum = u16_at bs 44\<rparr>"

definition parse_phdr :: "byte list \<Rightarrow> elf32_phdr" where
  "parse_phdr bs = \<lparr>p_type = u32_at bs 0, p_offset = u32_at bs 4, p_paddr = u32_at bs 12, p_filesz = u32_at bs 16\<rparr>"

definition phdr_at :: "byte list \<Rightarrow> elf32_ehdr \<Rightarrow> nat \<Rightarrow> elf32_phdr option" where
  "phdr_at f eh i = map_option parse_phdr (read_at f (e_phoff eh + of_nat i * ucast (e_phentsize eh)) 32)"

subsection \<open>Sinks\<close>

record 's flash_sink =
  sk_erase :: "u32 \<Rightarrow> u32 \<Rightarrow> 's \<Rightarrow> (bool \<times> 's) option"
  sk_write :: "u32 \<Rightarrow> byte list \<Rightarrow> 's \<Rightarrow> (bool \<times> 's) option"
  sk_complete :: "'s \<Rightarrow> (bool \<times> 's) option"
  sk_read :: "(u32 \<Rightarrow> nat \<Rightarrow> 's \<Rightarrow> (byte list option \<times> 's) option) option"
  sk_in_flash :: "(u32 \<Rightarrow> u32 \<Rightarrow> 's \<Rightarrow> bool) option"

text \<open>The sink of ui_debug.c over a target's function pointers. The destination of a read is filled
  completely when it succeeds.\<close>

definition target_sink :: "'h target_scheme target_ops \<Rightarrow> 'h target_scheme flash_sink" where
  "target_sink ops =
     \<lparr>sk_erase = target_flash_erase ops,
      sk_write = (\<lambda>a d t. target_flash_write ops a d (of_nat (length d)) t),
      sk_complete = target_flash_complete ops,
      sk_read = Some (\<lambda>a n t. do { (err, bs, t) \<leftarrow> target_mem_read ops (replicate n 0) a n t;
                                     Some (if err then None else Some bs, t) }),
      sk_in_flash = None\<rparr>"

definition seg_flashable :: "'s flash_sink \<Rightarrow> 's \<Rightarrow> elf32_phdr \<Rightarrow> bool" where
  "seg_flashable sink s ph \<longleftrightarrow>
     p_type ph = 1 \<and> p_filesz ph \<noteq> 0 \<and>
     (case sk_in_flash sink of None \<Rightarrow> True | Some g \<Rightarrow> g (p_paddr ph) (p_filesz ph) s)"

subsection \<open>Programming and verifying a range\<close>

type_synonym ('a, 's) load = "((string + 'a) \<times> 's) option"

lemma chunk_less: "left \<noteq> 0 \<Longrightarrow> unat (left - min left (2048 :: u32)) < unat left" "left \<noteq> 0 \<Longrightarrow> unat (left - min left (256 :: u32)) < unat left"
  by (auto simp: min_def unat_sub word_le_nat_alt unat_gt_0)

text \<open>The inner loop of the programming passes: left bytes from position pos of the file go to addr
  on. The result counts the bytes.\<close>

function write_chunks ::
  "string \<Rightarrow> 's flash_sink \<Rightarrow> byte list \<Rightarrow> nat \<Rightarrow> u32 \<Rightarrow> u32 \<Rightarrow> u32 \<Rightarrow> 's \<Rightarrow> (u32, 's) load" where
  "write_chunks msg sink f pos addr left cnt s =
     (if left = 0 then Some (Inr cnt, s)
      else (let want = min left 2048
            in case file_get f pos (unat want) of
                 None \<Rightarrow> Some (Inl msg, s)
               | Some dat \<Rightarrow>
                   do { (ok, s) \<leftarrow> sk_write sink addr dat s;
                        if \<not> ok then Some (Inl ''write failed'', s)
                        else write_chunks msg sink f (pos + unat want) (addr + want) (left - want) (cnt + want) s }))"
  by pat_completeness auto
termination
  by (relation "measure (\<lambda>(msg, sink, f, pos, addr, left, cnt, s). unat left)") (auto intro: chunk_less)

declare write_chunks.simps [simp del]

function verify_loop ::
  "byte list \<Rightarrow> nat \<Rightarrow> u32 \<Rightarrow> u32 \<Rightarrow> (u32 \<Rightarrow> nat \<Rightarrow> 's \<Rightarrow> (byte list option \<times> 's) option) \<Rightarrow> 's \<Rightarrow> (unit, 's) load" where
  "verify_loop f pos addr left rd s =
     (if left = 0 then Some (Inr (), s)
      else (let n = min left 256
            in case file_get f pos (unat n) of
                 None \<Rightarrow> Some (Inl ''short read (verify)'', s)
               | Some want \<Rightarrow>
                   do { (got, s) \<leftarrow> rd addr (unat n) s;
                        case got of
                          None \<Rightarrow> Some (Inl ''readback failed'', s)
                        | Some g \<Rightarrow>
                            if want \<noteq> g then Some (Inl ''verify mismatch'', s)
                            else verify_loop f (pos + unat n) (addr + n) (left - n) rd s }))"
  by pat_completeness auto
termination
  by (relation "measure (\<lambda>(f, pos, addr, left, rd, s). unat left)") (auto intro: chunk_less)

declare verify_loop.simps [simp del]

definition verify_range ::
  "byte list \<Rightarrow> u32 \<Rightarrow> u32 \<Rightarrow> u32 \<Rightarrow> (u32 \<Rightarrow> nat \<Rightarrow> 's \<Rightarrow> (byte list option \<times> 's) option) \<Rightarrow> 's \<Rightarrow> (unit, 's) load" where
  "verify_range f file_off addr len rd s =
     (if \<not> file_off < 0x80000000 then Some (Inl ''seek (verify)'', s)
      else verify_loop f (unat file_off) addr len rd s)"

subsection \<open>The two loaders\<close>

record load_result =
  lr_segments :: u32
  lr_bytes :: u32
  lr_entry :: u32

text \<open>Pass 1: the span of the flashable segments and their number.\<close>

fun span_loop :: "'s flash_sink \<Rightarrow> byte list \<Rightarrow> elf32_ehdr \<Rightarrow> 's \<Rightarrow> nat list \<Rightarrow> u32 \<Rightarrow> u32 \<Rightarrow> u32 \<Rightarrow> string + (u32 \<times> u32 \<times> u32)" where
  "span_loop sink f eh s [] lo hi n = Inr (lo, hi, n)"
| "span_loop sink f eh s (i # is) lo hi n =
     (case phdr_at f eh i of
        None \<Rightarrow> Inl ''short read (phdr)''
      | Some ph \<Rightarrow>
          if \<not> seg_flashable sink s ph then span_loop sink f eh s is lo hi n
          else span_loop sink f eh s is (if p_paddr ph < lo then p_paddr ph else lo)
                 (if p_paddr ph + p_filesz ph > hi then p_paddr ph + p_filesz ph else hi) (n + 1))"

text \<open>Pass 2: the result is the number of segments done and the bytes written.\<close>

fun program_loop ::
  "'s flash_sink \<Rightarrow> byte list \<Rightarrow> elf32_ehdr \<Rightarrow> nat list \<Rightarrow> u32 \<Rightarrow> u32 \<Rightarrow> 's \<Rightarrow> (u32 \<times> u32, 's) load" where
  "program_loop sink f eh [] cnt n s = Some (Inr (n, cnt), s)"
| "program_loop sink f eh (i # is) cnt n s =
     (case phdr_at f eh i of
        None \<Rightarrow> Some (Inl ''short read (phdr)'', s)
      | Some ph \<Rightarrow>
          if \<not> seg_flashable sink s ph then program_loop sink f eh is cnt n s
          else if \<not> p_offset ph < 0x80000000 then Some (Inl ''seek (segment)'', s)
          else do { (r, s) \<leftarrow> write_chunks ''short read (segment)'' sink f (unat (p_offset ph)) (p_paddr ph) (p_filesz ph) cnt s;
                    case r of
                      Inl e \<Rightarrow> Some (Inl e, s)
                    | Inr cnt \<Rightarrow> program_loop sink f eh is cnt (n + 1) s })"

fun verify_all ::
  "'s flash_sink \<Rightarrow> (u32 \<Rightarrow> nat \<Rightarrow> 's \<Rightarrow> (byte list option \<times> 's) option) \<Rightarrow> byte list \<Rightarrow> elf32_ehdr \<Rightarrow> nat list \<Rightarrow> 's \<Rightarrow>
   (unit, 's) load" where
  "verify_all sink rd f eh [] s = Some (Inr (), s)"
| "verify_all sink rd f eh (i # is) s =
     (case phdr_at f eh i of
        None \<Rightarrow> Some (Inl ''short read (phdr/verify)'', s)
      | Some ph \<Rightarrow>
          if \<not> seg_flashable sink s ph then verify_all sink rd f eh is s
          else do { (r, s) \<leftarrow> verify_range f (p_offset ph) (p_paddr ph) (p_filesz ph) rd s;
                    case r of Inl e \<Rightarrow> Some (Inl e, s) | Inr _ \<Rightarrow> verify_all sink rd f eh is s })"

definition ehdr_error :: "elf32_ehdr \<Rightarrow> string option" where
  "ehdr_error eh =
     (if take 4 (e_ident eh) \<noteq> [0x7f, 0x45, 0x4c, 0x46] then Some ''not an ELF''
      else if e_ident eh ! 4 \<noteq> 1 then Some ''not ELF32''
      else if e_ident eh ! 5 \<noteq> 1 then Some ''not little-endian''
      else if e_machine eh \<noteq> 40 then Some ''not EM_ARM''
      else if e_phnum eh = 0 \<or> e_phentsize eh < 32 then Some ''no/bad program headers''
      else None)"

definition bmp_load_elf :: "byte list \<Rightarrow> 's flash_sink \<Rightarrow> 's \<Rightarrow> (load_result, 's) load" where
  "bmp_load_elf f sink s =
     (case map_option parse_ehdr (read_at f 0 52) of
        None \<Rightarrow> Some (Inl ''short read (ehdr)'', s)
      | Some eh \<Rightarrow>
          (case ehdr_error eh of
             Some e \<Rightarrow> Some (Inl e, s)
           | None \<Rightarrow>
               (let is = [0..<unat (e_phnum eh)]
                in case span_loop sink f eh s is 0xffffffff 0 0 of
                     Inl e \<Rightarrow> Some (Inl e, s)
                   | Inr (lo, hi, n_load) \<Rightarrow>
                       if n_load = 0 then Some (Inl ''no flashable PT_LOAD'', s)
                       else do {
                         (ok, s) \<leftarrow> sk_erase sink lo (hi - lo) s;
                         if \<not> ok then Some (Inl ''erase failed'', s)
                         else do {
                           (r, s) \<leftarrow> program_loop sink f eh is 0 0 s;
                           case r of
                             Inl e \<Rightarrow> Some (Inl e, s)
                           | Inr (n, cnt) \<Rightarrow>
                               do { (ok, s) \<leftarrow> sk_complete sink s;
                                    if \<not> ok then Some (Inl ''flash complete failed'', s)
                                    else do {
                                      (r, s) \<leftarrow> (case sk_read sink of
                                                   None \<Rightarrow> Some (Inr (), s)
                                                 | Some rd \<Rightarrow> verify_all sink rd f eh is s);
                                      case r of
                                        Inl e \<Rightarrow> Some (Inl e, s)
                                      | Inr _ \<Rightarrow> Some (Inr \<lparr>lr_segments = n, lr_bytes = cnt, lr_entry = e_entry eh\<rparr>, s) } } } })))"

text \<open>ftell reports the size as a long; a file it cannot count is refused.\<close>

definition bmp_load_bin :: "byte list \<Rightarrow> u32 \<Rightarrow> 's flash_sink \<Rightarrow> 's \<Rightarrow> (load_result, 's) load" where
  "bmp_load_bin f base sink s =
     (if length f = 0 \<or> length f \<ge> 2 ^ 31 then Some (Inl ''empty/bad file'', s)
      else (let sz = of_nat (length f)
            in if (case sk_in_flash sink of None \<Rightarrow> False | Some g \<Rightarrow> \<not> g base sz s)
               then Some (Inl ''target range not flash'', s)
               else do {
                 (ok, s) \<leftarrow> sk_erase sink base sz s;
                 if \<not> ok then Some (Inl ''erase failed'', s)
                 else do {
                   (r, s) \<leftarrow> write_chunks ''short read (data)'' sink f 0 base sz 0 s;
                   case r of
                     Inl e \<Rightarrow> Some (Inl e, s)
                   | Inr cnt \<Rightarrow>
                       do { (ok, s) \<leftarrow> sk_complete sink s;
                            if \<not> ok then Some (Inl ''flash complete failed'', s)
                            else do {
                              (r, s) \<leftarrow> (case sk_read sink of
                                           None \<Rightarrow> Some (Inr (), s)
                                         | Some rd \<Rightarrow> verify_range f 0 base sz rd s);
                              case r of
                                Inl e \<Rightarrow> Some (Inl e, s)
                              | Inr _ \<Rightarrow> Some (Inr \<lparr>lr_segments = 1, lr_bytes = cnt, lr_entry = base\<rparr>, s) } } } }))"

subsection \<open>Chunks as segments\<close>

text \<open>Over the sink of a target, writing a range in chunks is writing a list of segments.\<close>

function chunk_list :: "byte list \<Rightarrow> nat \<Rightarrow> u32 \<Rightarrow> nat \<Rightarrow> (u32 \<times> byte list) list" where
  "chunk_list f pos addr n =
     (if n = 0 then [] else (addr, take (min n 2048) (drop pos f)) #
        chunk_list f (pos + min n 2048) (addr + of_nat (min n 2048)) (n - min n 2048))"
  by pat_completeness auto
termination by (relation "measure (\<lambda>(f, pos, addr, n). n)") auto

declare chunk_list.simps [simp del]

lemma flash_write_all_append:
  "flash_write_all ops (xs @ ys) t =
     do { (ok, t) \<leftarrow> flash_write_all ops xs t; if ok then flash_write_all ops ys t else Some (False, t) }"
proof (induction xs arbitrary: t)
  case (Cons x xs)
  obtain a bs where x: "x = (a, bs)" by (cases x)
  show ?case
  proof (cases "target_flash_write ops a bs (of_nat (length bs)) t")
    case (Some r)
    then show ?thesis using Cons.IH by (cases r) (auto simp: x)
  qed (simp add: x)
qed simp

lemma file_get_in: "pos + n \<le> length f \<Longrightarrow> file_get f pos n = Some (take n (drop pos f))"
  by (simp add: file_get_def)

lemma write_chunks_target:
  assumes "pos + unat left \<le> length f"
  shows "write_chunks msg (target_sink ops) f pos addr left cnt t =
    do { (ok, t) \<leftarrow> flash_write_all ops (chunk_list f pos addr (unat left)) t;
         Some (if ok then Inr (cnt + left) else Inl ''write failed'', t) }"
  using assms
proof (induction "unat left" arbitrary: pos addr left cnt t rule: less_induct)
  case less
  show ?case
  proof (cases "left = 0")
    case True
    then show ?thesis by (simp add: write_chunks.simps chunk_list.simps)
  next
    case False
    define w where "w = min left 2048"
    have w: "unat w = min (unat left) 2048" "w \<le> left" by (auto simp: w_def min_def word_le_nat_alt)
    have ll: "unat (left - w) = unat left - unat w" "unat (left - w) < unat left"
      using w(2) chunk_less(1) [OF False] by (simp_all add: unat_sub word_le_nat_alt w_def)
    have ne: "unat left \<noteq> 0" using False by (simp add: unat_eq_zero)
    have le: "pos + unat w \<le> length f" "pos + unat w + unat (left - w) \<le> length f"
      using less.prems w(1) ll(1) by auto
    have of: "of_nat (min (unat left) 2048) = w" unfolding w(1) [symmetric] by simp
    have lt: "length (take (unat w) (drop pos f)) = unat w" using le(1) by simp
    have c: "chunk_list f pos addr (unat left) =
      (addr, take (unat w) (drop pos f)) # chunk_list f (pos + unat w) (addr + w) (unat (left - w))"
      by (subst chunk_list.simps) (simp only: ne if_False of w(1) [symmetric] ll(1) of_nat_unat ucast_id)
    have IH: "write_chunks msg (target_sink ops) f (pos + unat w) (addr + w) (left - w) (cnt + w) t' =
      do { (ok, t) \<leftarrow> flash_write_all ops (chunk_list f (pos + unat w) (addr + w) (unat (left - w))) t';
           Some (if ok then Inr (cnt + left) else Inl ''write failed'', t) }" for t'
    proof -
      have e: "cnt + w + (left - w) = cnt + left" by simp
      show ?thesis using less.hyps [OF ll(2) le(2), of "addr + w" "cnt + w" t'] unfolding e .
    qed
    show ?thesis
    proof (cases "target_flash_write ops addr (take (unat w) (drop pos f)) w t")
      case None
      then show ?thesis using False lt
        by (subst write_chunks.simps) (simp add: w_def [symmetric] file_get_in [OF le(1)] c target_sink_def)
    next
      case (Some r)
      then show ?thesis using False lt IH
        by (cases r) (subst write_chunks.simps, auto simp: w_def [symmetric] file_get_in [OF le(1)] c target_sink_def)
    qed
  qed
qed


lemma flash_program_stages:
  assumes "flash_program ops a l segs t = Some (True, t')"
  shows "\<exists>t1 t2. target_flash_erase ops a l t = Some (True, t1) \<and> flash_write_all ops segs t1 = Some (True, t2) \<and>
    target_flash_complete ops t2 = Some (True, t')"
  using assms by (auto simp: flash_program_def bind_eq_Some_conv split: if_splits)

lemma chunk_list_step:
  "0 < n \<Longrightarrow> chunk_list f pos addr n = (addr, take (min n 2048) (drop pos f)) #
     chunk_list f (pos + min n 2048) (addr + of_nat (min n 2048)) (n - min n 2048)"
  by (subst chunk_list.simps) simp

lemma unat_add_chunk: "unat (addr :: u32) + n < 2 ^ 32 \<Longrightarrow> k \<le> n \<Longrightarrow> unat (addr + of_nat k) = unat addr + k"
  by (simp add: unat_word_ariths unat_of_nat)

lemma chunk_list_in:
  assumes "pos + n \<le> length f" "unat addr + n < 2 ^ 32" "sg \<in> set (chunk_list f pos addr n)"
  shows "snd sg \<noteq> [] \<and> unat addr \<le> unat (fst sg) \<and> unat (fst sg) + length (snd sg) \<le> unat addr + n"
  using assms
proof (induction n arbitrary: pos addr rule: less_induct)
  case (less n)
  show ?case
  proof (cases "n = 0")
    case True
    then show ?thesis using less.prems(3) by (simp add: chunk_list.simps)
  next
    case False
    let ?k = "min n 2048"
    have a: "unat (addr + of_nat ?k) = unat addr + ?k" using less.prems(2) by (rule unat_add_chunk) simp
    from less.prems(3) False consider "sg = (addr, take ?k (drop pos f))" | "sg \<in> set (chunk_list f (pos + ?k) (addr + of_nat ?k) (n - ?k))"
      by (auto simp: chunk_list_step)
    then show ?thesis
    proof cases
      case 1
      then show ?thesis using False less.prems(1) by auto
    next
      case 2
      have "snd sg \<noteq> [] \<and> unat (addr + of_nat ?k) \<le> unat (fst sg) \<and> unat (fst sg) + length (snd sg) \<le> unat (addr + of_nat ?k) + (n - ?k)"
        by (rule less.IH) (use False less.prems 2 a in auto)
      then show ?thesis unfolding a by auto
    qed
  qed
qed

lemma chunk_list_disjoint:
  assumes "pos + n \<le> length f" "unat addr + n < 2 ^ 32"
  shows "segs_disjoint (chunk_list f pos addr n)"
  using assms
proof (induction n arbitrary: pos addr rule: less_induct)
  case (less n)
  show ?case
  proof (cases "n = 0")
    case False
    let ?k = "min n 2048"
    have a: "unat (addr + of_nat ?k) = unat addr + ?k" using less.prems(2) by (rule unat_add_chunk) simp
    have r: "pos + ?k + (n - ?k) \<le> length f" "unat (addr + of_nat ?k) + (n - ?k) < 2 ^ 32" using less.prems a by auto
    have "segs_disjoint (chunk_list f (pos + ?k) (addr + of_nat ?k) (n - ?k))"
      by (rule less.IH) (use False r in auto)
    moreover have "seg_range (addr, take ?k (drop pos f)) \<inter> seg_range sg = {}"
      if "sg \<in> set (chunk_list f (pos + ?k) (addr + of_nat ?k) (n - ?k))" for sg
      using chunk_list_in [OF r that] unfolding a by (auto simp: seg_range_def)
    ultimately show ?thesis using False by (simp add: chunk_list_step)
  qed (simp add: chunk_list.simps)
qed

lemma overlay_chunks:
  assumes "pos + n \<le> length f" "unat addr + n < 2 ^ 32"
  shows "overlay_all (chunk_list f pos addr n) c = overlay (unat addr) (take n (drop pos f)) c"
  using assms
proof (induction n arbitrary: pos addr c rule: less_induct)
  case (less n)
  show ?case
  proof (cases "n = 0")
    case False
    let ?k = "min n 2048"
    have a: "unat (addr + of_nat ?k) = unat addr + ?k" using less.prems(2) by (rule unat_add_chunk) simp
    have r: "pos + ?k + (n - ?k) \<le> length f" "unat (addr + of_nat ?k) + (n - ?k) < 2 ^ 32" using less.prems a by auto
    have l: "length (take ?k (drop pos f)) = ?k" using less.prems(1) by simp
    have "take n (drop pos f) = take ?k (drop pos f) @ take (n - ?k) (drop (pos + ?k) f)"
      by (metis add.commute drop_drop le_add_diff_inverse2 min.cobounded1 take_add)
    moreover have "overlay_all (chunk_list f (pos + ?k) (addr + of_nat ?k) (n - ?k)) c' =
      overlay (unat addr + ?k) (take (n - ?k) (drop (pos + ?k) f)) c'" for c'
      using less.IH [OF _ r, of c'] False unfolding a by simp
    ultimately show ?thesis using False overlay_append [of "unat addr" "take ?k (drop pos f)"] l by (simp add: chunk_list_step)
  qed (auto simp: chunk_list.simps overlay_def fun_eq_iff)
qed

end
