(* ===== verification/Emu_Target.thy ===== *)
theory Emu_Target
  imports Prelude
begin

text \<open>
  The emulated STM32F103 of src/target/emu_target.c: sparse flash pages behind an FPEC, SRAM, the
  ROM table, the SCS core-register port, and the sized load/store dispatch the debug transport
  calls. The static variables of the file are the fields of the record emu_target; the two static
  arrays are functions on indices with their bounds checked where the code indexes them.
  malloc is the C library's: the field g_mallocs lists the outcomes (success or NULL) of the
  calls still to come, and an exhausted list means success.

  Groups: constants and state; CoreSight ID words, ROM table and SCS; flash pages; FPEC; dispatch.
  The lemmas show NOR semantics of the flash array, what each store leaves alone, that aligned
  accesses never leave an array, and the FPEC unlock and erase protocol.
\<close>

subsection \<open>Memory map and state\<close>

abbreviation (input) EMU_FLASH_BASE :: u32 where "EMU_FLASH_BASE \<equiv> 0x08000000"
abbreviation (input) EMU_FLASH_SIZE :: u32 where "EMU_FLASH_SIZE \<equiv> 0x00020000"
abbreviation (input) EMU_FLASH_PAGE :: u32 where "EMU_FLASH_PAGE \<equiv> 0x00000400"
abbreviation (input) EMU_SRAM_BASE :: u32 where "EMU_SRAM_BASE \<equiv> 0x20000000"
abbreviation (input) EMU_SRAM_SIZE :: u32 where "EMU_SRAM_SIZE \<equiv> 0x00005000"
abbreviation (input) EMU_SCS_BASE :: u32 where "EMU_SCS_BASE \<equiv> 0xE000E000"
abbreviation (input) EMU_ROM_BASE :: u32 where "EMU_ROM_BASE \<equiv> 0xE00FF000"
abbreviation (input) EMU_DBGMCU_IDCODE :: u32 where "EMU_DBGMCU_IDCODE \<equiv> 0xE0042000"
abbreviation (input) EMU_FPEC_BASE :: u32 where "EMU_FPEC_BASE \<equiv> 0x40022000"
abbreviation (input) EMU_DPIDR :: u32 where "EMU_DPIDR \<equiv> 0x1BA01477"
abbreviation (input) EMU_AP_IDR :: u32 where "EMU_AP_IDR \<equiv> 0x14770011"
abbreviation (input) EMU_AP_BASE :: u32 where "EMU_AP_BASE \<equiv> 0xE00FF003"
abbreviation (input) EMU_AP_CFG :: u32 where "EMU_AP_CFG \<equiv> 0x00000000"
abbreviation (input) EMU_IDCODE :: u32 where "EMU_IDCODE \<equiv> 0x20036410"
abbreviation (input) EMU_CPUID :: u32 where "EMU_CPUID \<equiv> 0x412FC231"

abbreviation (input) FLASH_PAGES :: u32 where "FLASH_PAGES \<equiv> 0x80"

abbreviation (input) FPEC_KEYR :: u32 where "FPEC_KEYR \<equiv> 0x40022004"
abbreviation (input) FPEC_SR :: u32 where "FPEC_SR \<equiv> 0x4002200c"
abbreviation (input) FPEC_CR :: u32 where "FPEC_CR \<equiv> 0x40022010"
abbreviation (input) FPEC_AR :: u32 where "FPEC_AR \<equiv> 0x40022014"
abbreviation (input) FPEC_OBR :: u32 where "FPEC_OBR \<equiv> 0x4002201c"
abbreviation (input) FPEC_WRPR :: u32 where "FPEC_WRPR \<equiv> 0x40022020"
abbreviation (input) FPEC_KEY1 :: u32 where "FPEC_KEY1 \<equiv> 0x45670123"
abbreviation (input) FPEC_KEY2 :: u32 where "FPEC_KEY2 \<equiv> 0xCDEF89AB"
abbreviation (input) CR_LOCK :: u32 where "CR_LOCK \<equiv> 0x80"
abbreviation (input) CR_STRT :: u32 where "CR_STRT \<equiv> 0x40"
abbreviation (input) CR_MER :: u32 where "CR_MER \<equiv> 0x04"
abbreviation (input) CR_PER :: u32 where "CR_PER \<equiv> 0x02"
abbreviation (input) CR_PG :: u32 where "CR_PG \<equiv> 0x01"
abbreviation (input) SR_BSY :: u32 where "SR_BSY \<equiv> 0x01"
abbreviation (input) SR_EOP :: u32 where "SR_EOP \<equiv> 0x20"

record emu_target =
  g_flash_page :: "nat \<Rightarrow> (nat \<Rightarrow> byte) option"
  g_sram :: "nat \<Rightarrow> byte"
  g_dhcsr :: u32
  g_demcr :: u32
  g_dcrsr :: u32
  g_dcrdr :: u32
  g_aircr :: u32
  g_flash_keyr :: u32
  g_flash_cr :: u32
  g_flash_sr :: u32
  g_flash_ar :: u32
  g_flash_unlocked :: bool
  g_core_reg :: "nat \<Rightarrow> u32"
  g_mallocs :: "bool list"

text \<open>Variables of static storage duration start as zero and null.\<close>

definition emu_statics :: emu_target where
  "emu_statics =
     \<lparr>g_flash_page = (\<lambda>_. None), g_sram = (\<lambda>_. 0), g_dhcsr = 0, g_demcr = 0, g_dcrsr = 0, g_dcrdr = 0, g_aircr = 0,
      g_flash_keyr = 0, g_flash_cr = 0, g_flash_sr = 0, g_flash_ar = 0, g_flash_unlocked = False, g_core_reg = (\<lambda>_. 0),
      g_mallocs = []\<rparr>"

text \<open>One call of malloc: the next outcome is consumed.\<close>

definition emu_malloc :: "'a emu_target_scheme \<Rightarrow> bool \<times> 'a emu_target_scheme" where
  "emu_malloc s = (case g_mallocs s of [] \<Rightarrow> (True, s) | ok # rest \<Rightarrow> (ok, s\<lparr>g_mallocs := rest\<rparr>))"

subsection \<open>CoreSight ID words, ROM table, SCS\<close>

abbreviation (input) CIDR_ROMTABLE :: u32 where "CIDR_ROMTABLE \<equiv> 0xB105100D"
abbreviation (input) CIDR_GIPC :: u32 where "CIDR_GIPC \<equiv> 0xB105E00D"
abbreviation (input) PIDR_ROM_LO :: u32 where "PIDR_ROM_LO \<equiv> 0x000A04C3"
abbreviation (input) PIDR_ROM_HI :: u32 where "PIDR_ROM_HI \<equiv> 0x00000000"
abbreviation (input) PIDR_SCS_LO :: u32 where "PIDR_SCS_LO \<equiv> 0x000BB000"
abbreviation (input) PIDR_SCS_HI :: u32 where "PIDR_SCS_HI \<equiv> 0x00000004"

definition id_word :: "u32 \<Rightarrow> u32 \<Rightarrow> u32 \<Rightarrow> u32 \<Rightarrow> u32" where
  "id_word cidr pidr_lo pidr_hi off =
     (if off = 0xFF0 then drop_bit 0 cidr AND 0xff
      else if off = 0xFF4 then drop_bit 8 cidr AND 0xff
      else if off = 0xFF8 then drop_bit 16 cidr AND 0xff
      else if off = 0xFFC then drop_bit 24 cidr AND 0xff
      else if off = 0xFE0 then drop_bit 0 pidr_lo AND 0xff
      else if off = 0xFE4 then drop_bit 8 pidr_lo AND 0xff
      else if off = 0xFE8 then drop_bit 16 pidr_lo AND 0xff
      else if off = 0xFEC then drop_bit 24 pidr_lo AND 0xff
      else if off = 0xFD0 then drop_bit 0 pidr_hi AND 0xff
      else 0)"

abbreviation (input) ROM_ENTRY_SCS :: u32 where "ROM_ENTRY_SCS \<equiv> 0xFFF0F003"
abbreviation (input) ROM_MEMTYPE :: u32 where "ROM_MEMTYPE \<equiv> 0xFCC"

definition rom_read :: "u32 \<Rightarrow> u32" where
  "rom_read off =
     (if 0xFD0 \<le> off \<and> off \<le> 0xFFC then id_word CIDR_ROMTABLE PIDR_ROM_LO PIDR_ROM_HI off
      else if off = ROM_MEMTYPE then 0x1
      else if off = 0x000 then ROM_ENTRY_SCS
      else if off = 0x004 then 0x00000000
      else 0x00000000)"

abbreviation (input) CORE_REG_COUNT :: u32 where "CORE_REG_COUNT \<equiv> 0x18"
abbreviation (input) DCRSR_REGWnR :: u32 where "DCRSR_REGWnR \<equiv> 0x00010000"

definition scs_read :: "u32 \<Rightarrow> 'a emu_target_scheme \<Rightarrow> u32" where
  "scs_read off s =
     (if 0xFD0 \<le> off \<and> off \<le> 0xFFC then id_word CIDR_GIPC PIDR_SCS_LO PIDR_SCS_HI off
      else if off = 0xD00 then EMU_CPUID
      else if off = 0xD88 then 0x00000000
      else if off = 0xDF0 then 0x00030003
      else if off = 0xDF4 then g_dcrsr s
      else if off = 0xDF8 then g_dcrdr s
      else if off = 0xDFC then g_demcr s
      else if off = 0xD0C then g_aircr s
      else 0x00000000)"

definition scs_write :: "u32 \<Rightarrow> u32 \<Rightarrow> 'a emu_target_scheme \<Rightarrow> 'a emu_target_scheme" where
  "scs_write off val s =
     (if off = 0xDF0 then s\<lparr>g_dhcsr := val\<rparr>
      else if off = 0xDF4 then
        (let s = s\<lparr>g_dcrsr := val\<rparr>;
             regnum = val AND 0x7f
         in if regnum < CORE_REG_COUNT then
              (if val AND DCRSR_REGWnR \<noteq> 0
               then s\<lparr>g_core_reg := (g_core_reg s)(unat regnum := g_dcrdr s)\<rparr>
               else s\<lparr>g_dcrdr := g_core_reg s (unat regnum)\<rparr>)
            else s)
      else if off = 0xDF8 then s\<lparr>g_dcrdr := val\<rparr>
      else if off = 0xDFC then s\<lparr>g_demcr := val\<rparr>
      else if off = 0xD0C then s\<lparr>g_aircr := val\<rparr>
      else s)"

subsection \<open>Flash pages\<close>

definition flash_byte :: "u32 \<Rightarrow> 'a emu_target_scheme \<Rightarrow> byte" where
  "flash_byte addr s =
     (let off = addr - EMU_FLASH_BASE;
          page = off div EMU_FLASH_PAGE
      in if page \<ge> FLASH_PAGES then 0xFF
         else (case g_flash_page s (unat page) of
                 None \<Rightarrow> 0xFF
               | Some p \<Rightarrow> p (unat (off mod EMU_FLASH_PAGE))))"

definition flash_write_byte :: "u32 \<Rightarrow> byte \<Rightarrow> 'a emu_target_scheme \<Rightarrow> 'a emu_target_scheme" where
  "flash_write_byte addr val s =
     (let off = addr - EMU_FLASH_BASE;
          page = off div EMU_FLASH_PAGE;
          i = unat (off mod EMU_FLASH_PAGE)
      in if page \<ge> FLASH_PAGES then s
         else (case g_flash_page s (unat page) of
                 Some p \<Rightarrow>
                   s\<lparr>g_flash_page := (g_flash_page s)(unat page \<mapsto> p(i := p i AND val))\<rparr>
               | None \<Rightarrow>
                   (let (ok, s) = emu_malloc s;
                        p = (\<lambda>_. 0xFF)
                    in if \<not> ok then s
                       else s\<lparr>g_flash_page := (g_flash_page s)(unat page \<mapsto> p(i := p i AND val))\<rparr>)))"

definition flash_erase_page :: "u32 \<Rightarrow> 'a emu_target_scheme \<Rightarrow> 'a emu_target_scheme" where
  "flash_erase_page addr s =
     (let off = addr - EMU_FLASH_BASE;
          page = off div EMU_FLASH_PAGE
      in if page \<ge> FLASH_PAGES then s
         else (case g_flash_page s (unat page) of
                 Some _ \<Rightarrow> s\<lparr>g_flash_page := (g_flash_page s)(unat page := None)\<rparr>
               | None \<Rightarrow> s))"

text \<open>The loop over i < FLASH_PAGES frees every entry.\<close>

primrec flash_erase_upto :: "nat \<Rightarrow> 'a emu_target_scheme \<Rightarrow> 'a emu_target_scheme" where
  "flash_erase_upto 0 s = s"
| "flash_erase_upto (Suc i) s =
     (let s = flash_erase_upto i s in s\<lparr>g_flash_page := (g_flash_page s)(i := None)\<rparr>)"

definition flash_erase_all :: "'a emu_target_scheme \<Rightarrow> 'a emu_target_scheme" where
  "flash_erase_all s = flash_erase_upto (unat FLASH_PAGES) s"

subsection \<open>FPEC\<close>

definition fpec_read :: "u32 \<Rightarrow> 'a emu_target_scheme \<Rightarrow> u32" where
  "fpec_read addr s =
     (if addr = FPEC_SR then g_flash_sr s
      else if addr = FPEC_CR then
        (g_flash_cr s AND NOT CR_LOCK) OR (if g_flash_unlocked s then 0 else CR_LOCK)
      else if addr = FPEC_OBR then 0x00000000
      else if addr = FPEC_WRPR then 0xFFFFFFFF
      else 0x00000000)"

definition fpec_write :: "u32 \<Rightarrow> u32 \<Rightarrow> 'a emu_target_scheme \<Rightarrow> 'a emu_target_scheme" where
  "fpec_write addr val s =
     (if addr = FPEC_KEYR then
        (let s = (if g_flash_keyr s = FPEC_KEY1 \<and> val = FPEC_KEY2
                  then s\<lparr>g_flash_unlocked := True\<rparr> else s)
         in s\<lparr>g_flash_keyr := val\<rparr>)
      else if addr = FPEC_CR then
        (let s = s\<lparr>g_flash_cr := val\<rparr>
         in if val AND CR_STRT \<noteq> 0 \<and> g_flash_unlocked s then
              (let s = (if val AND CR_PER \<noteq> 0 then flash_erase_page (g_flash_ar s) s
                        else if val AND CR_MER \<noteq> 0 then flash_erase_all s
                        else s);
                   s = s\<lparr>g_flash_sr := g_flash_sr s OR SR_EOP\<rparr>
               in s\<lparr>g_flash_sr := g_flash_sr s AND NOT SR_BSY\<rparr>)
            else s)
      else if addr = FPEC_AR then s\<lparr>g_flash_ar := val\<rparr>
      else if addr = FPEC_SR then s\<lparr>g_flash_sr := g_flash_sr s AND NOT (val AND SR_EOP)\<rparr>
      else s)"

subsection \<open>Load and store dispatch\<close>

definition size_mask :: "u32 \<Rightarrow> u32" where
  "size_mask sz = (if sz \<ge> 4 then 0xFFFFFFFF else push_bit (unat (sz * 8)) 1 - 1)"

text \<open>Indexing g_sram: an index past its 20 KiB has no meaning.\<close>

definition sram_get :: "u32 \<Rightarrow> 'a emu_target_scheme \<Rightarrow> byte option" where
  "sram_get i s = (if i < EMU_SRAM_SIZE then Some (g_sram s (unat i)) else None)"

definition sram_set :: "u32 \<Rightarrow> byte \<Rightarrow> 'a emu_target_scheme \<Rightarrow> 'a emu_target_scheme option" where
  "sram_set i b s = (if i < EMU_SRAM_SIZE then Some (s\<lparr>g_sram := (g_sram s)(unat i := b)\<rparr>) else None)"

text \<open>The byte loops of load and store: n bytes left, i the byte index.\<close>

primrec load_loop :: "(u32 \<Rightarrow> byte option) \<Rightarrow> nat \<Rightarrow> nat \<Rightarrow> u32 \<Rightarrow> u32 option" where
  "load_loop get 0 i v = Some v"
| "load_loop get (Suc n) i v =
     do { b \<leftarrow> get (of_nat i); load_loop get n (Suc i) (v OR push_bit (8 * i) (ucast b)) }"

primrec store_loop ::
  "(u32 \<Rightarrow> byte \<Rightarrow> 's \<Rightarrow> 's option) \<Rightarrow> u32 \<Rightarrow> nat \<Rightarrow> nat \<Rightarrow> 's \<Rightarrow> 's option" where
  "store_loop put val 0 i s = Some s"
| "store_loop put val (Suc n) i s =
     do { s \<leftarrow> put (of_nat i) (ucast (drop_bit (8 * i) val)) s; store_loop put val n (Suc i) s }"

definition emu_target_load :: "u32 \<Rightarrow> u32 \<Rightarrow> 'a emu_target_scheme \<Rightarrow> u32 option" where
  "emu_target_load addr sz s =
     (let mask = size_mask sz
      in if EMU_FLASH_BASE \<le> addr \<and> addr < EMU_FLASH_BASE + EMU_FLASH_SIZE then
           do { v \<leftarrow> load_loop (\<lambda>i. Some (flash_byte (addr + i) s)) (unat sz) 0 0; Some (v AND mask) }
         else if EMU_SRAM_BASE \<le> addr \<and> addr < EMU_SRAM_BASE + EMU_SRAM_SIZE then
           do { v \<leftarrow> load_loop (\<lambda>i. sram_get ((addr + i) - EMU_SRAM_BASE) s) (unat sz) 0 0;
                Some (v AND mask) }
         else if addr = EMU_DBGMCU_IDCODE then Some (EMU_IDCODE AND mask)
         else if EMU_ROM_BASE \<le> addr \<and> addr < EMU_ROM_BASE + 0x1000 then
           Some (rom_read (addr - EMU_ROM_BASE) AND mask)
         else if EMU_SCS_BASE \<le> addr \<and> addr < EMU_SCS_BASE + 0x1000 then
           Some (scs_read (addr - EMU_SCS_BASE) s AND mask)
         else if EMU_FPEC_BASE \<le> addr \<and> addr < EMU_FPEC_BASE + 0x400 then
           Some (fpec_read addr s AND mask)
         else Some 0x00000000)"

definition emu_target_store ::
  "u32 \<Rightarrow> u32 \<Rightarrow> u32 \<Rightarrow> 'a emu_target_scheme \<Rightarrow> 'a emu_target_scheme option" where
  "emu_target_store addr val sz s =
     (if EMU_FLASH_BASE \<le> addr \<and> addr < EMU_FLASH_BASE + EMU_FLASH_SIZE then
        (if g_flash_unlocked s \<and> g_flash_cr s AND CR_PG \<noteq> 0 then
           do { s \<leftarrow> store_loop (\<lambda>i b s. Some (flash_write_byte (addr + i) b s)) val (unat sz) 0 s;
                let s = s\<lparr>g_flash_sr := g_flash_sr s OR SR_EOP\<rparr>;
                Some (s\<lparr>g_flash_sr := g_flash_sr s AND NOT SR_BSY\<rparr>) }
         else Some s)
      else if EMU_SRAM_BASE \<le> addr \<and> addr < EMU_SRAM_BASE + EMU_SRAM_SIZE then
        store_loop (\<lambda>i b s. sram_set ((addr + i) - EMU_SRAM_BASE) b s) val (unat sz) 0 s
      else if EMU_SCS_BASE \<le> addr \<and> addr < EMU_SCS_BASE + 0x1000 then
        Some (scs_write (addr - EMU_SCS_BASE) val s)
      else if EMU_FPEC_BASE \<le> addr \<and> addr < EMU_FPEC_BASE + 0x400 then
        Some (fpec_write addr val s)
      else Some s)"

definition emu_target_read_word :: "u32 \<Rightarrow> 'a emu_target_scheme \<Rightarrow> u32 option" where
  "emu_target_read_word addr s = emu_target_load addr 4 s"

definition emu_target_write_word ::
  "u32 \<Rightarrow> u32 \<Rightarrow> 'a emu_target_scheme \<Rightarrow> 'a emu_target_scheme option" where
  "emu_target_write_word addr val s = emu_target_store addr val 4 s"

text \<open>memcpy of a 32-bit value into a page.\<close>

definition page_put_u32 :: "(nat \<Rightarrow> byte) \<Rightarrow> nat \<Rightarrow> u32 \<Rightarrow> nat \<Rightarrow> byte" where
  "page_put_u32 p i w = (\<lambda>k. if i \<le> k \<and> k < i + 4 then bytes_of_u32 w ! (k - i) else p k)"

definition emu_target_reset :: "'a emu_target_scheme \<Rightarrow> 'a emu_target_scheme" where
  "emu_target_reset s =
     (let s = flash_erase_all s;
          s = s\<lparr>g_sram := (\<lambda>_. 0)\<rparr>;
          (ok, s) = emu_malloc s;
          s = (if ok
               then s\<lparr>g_flash_page := (g_flash_page s)
                        (0 \<mapsto> page_put_u32 (page_put_u32 (\<lambda>_. 0xFF) 0 0x20005000) 4 0x08000101)\<rparr>
               else s);
          s = s\<lparr>g_dhcsr := 0, g_demcr := 0, g_dcrsr := 0, g_dcrdr := 0, g_aircr := 0,
                g_flash_keyr := 0, g_flash_cr := 0, g_flash_sr := 0, g_flash_ar := 0,
                g_flash_unlocked := False\<rparr>
      in s\<lparr>g_core_reg := (\<lambda>_. 0)(13 := 0x20005000, 14 := 0xFFFFFFFF, 15 := 0x08000100,
                                 16 := 0x01000000, 17 := 0x20005000)\<rparr>)"

subsection \<open>The flash array as a function of offsets\<close>

definition flash_at :: "'a emu_target_scheme \<Rightarrow> nat \<Rightarrow> byte" where
  "flash_at s k = (case g_flash_page s (k div 1024) of None \<Rightarrow> 0xFF | Some p \<Rightarrow> p (k mod 1024))"

abbreviation flash_off :: "u32 \<Rightarrow> nat" where
  "flash_off addr \<equiv> unat (addr - EMU_FLASH_BASE)"

lemma flash_page_ge_iff [page_simps]: "(off::u32) div EMU_FLASH_PAGE \<ge> FLASH_PAGES \<longleftrightarrow> \<not> unat off < 131072"
  by (simp add: word_le_nat_alt unat_div less_eq_div_iff_mult_less_eq not_less)

lemma unat_page_div [page_simps]: "unat ((off::u32) div EMU_FLASH_PAGE) = unat off div 1024"
  by (simp add: unat_div)

lemma unat_page_mod [page_simps]: "unat ((off::u32) mod EMU_FLASH_PAGE) = unat off mod 1024"
  by (simp add: unat_mod)

lemma flash_byte_at:
  "flash_byte addr s = (if flash_off addr < 131072 then flash_at s (flash_off addr) else 0xFF)"
  unfolding flash_byte_def Let_def flash_page_ge_iff unat_page_div unat_page_mod flash_at_def by simp

definition no_oom :: "'a emu_target_scheme \<Rightarrow> bool" where
  "no_oom s \<longleftrightarrow> list_all id (g_mallocs s)"

lemma div_mod_1024_eq: "a div 1024 = b div (1024::nat) \<Longrightarrow> a mod 1024 = b mod 1024 \<Longrightarrow> a = b"
  by (metis div_mult_mod_eq)

lemma emu_malloc_no_oom: "no_oom s \<Longrightarrow> emu_malloc s = (True, s\<lparr>g_mallocs := tl (g_mallocs s)\<rparr>)"
  by (cases "g_mallocs s") (auto simp: emu_malloc_def no_oom_def intro!: emu_target.equality)

lemma flash_at_write:
  assumes "no_oom s" "flash_off addr < 131072"
  shows "flash_at (flash_write_byte addr v s) k =
     (if k = flash_off addr then flash_at s k AND v else flash_at s k)"
proof (cases "g_flash_page s (flash_off addr div 1024)")
  case None
  with assms show ?thesis
    by (auto simp: emu_malloc_no_oom flash_write_byte_def flash_at_def page_simps Let_def
        dest: div_mod_1024_eq)
next
  case (Some p)
  with assms show ?thesis
    by (auto simp: flash_write_byte_def flash_at_def page_simps Let_def dest: div_mod_1024_eq)
qed

lemma load_loop_total:
  "load_loop (\<lambda>i. Some (f i)) n i v =
     Some (v OR push_bit (8 * i) (u32_of_bytes (map (\<lambda>j. f (of_nat (i + j))) [0..<n])))"
proof (induction n arbitrary: i v)
  case 0
  show ?case by simp
next
  case (Suc n)
  have "map (\<lambda>j. f (of_nat (i + j))) [0..<Suc n] =
        f (of_nat i) # map (\<lambda>j. f (of_nat (Suc i + j))) [0..<n]"
    unfolding map_upt_Suc by simp
  then show ?case
    by (simp add: Suc.IH push_bit_or or.assoc add.commute [of 8] del: upt_Suc)
qed

definition mem_access :: "u32 \<Rightarrow> u32 \<Rightarrow> bool" where
  "mem_access addr sz \<longleftrightarrow> sz \<in> {1, 2, 4} \<and> unat addr mod unat sz = 0"

lemma size_mask_cases [simp]: "size_mask 1 = 0xff" "size_mask 2 = 0xffff" "size_mask 4 = 0xffffffff"
  by (simp_all add: size_mask_def word_le_nat_alt)

lemma and_size_mask:
  assumes "sz \<in> {1, 2, 4}" "length bs = unat sz"
  shows "u32_of_bytes bs AND size_mask sz = u32_of_bytes bs"
proof -
  have "size_mask sz = mask (8 * unat sz)"
    using assms(1) by (auto simp: mask_eq_exp_minus_1)
  then show ?thesis
    using take_bit_u32_of_bytes [of bs] assms(2) by (simp add: take_bit_eq_mask)
qed

definition in_flash :: "u32 \<Rightarrow> bool" where
  "in_flash addr \<longleftrightarrow> EMU_FLASH_BASE \<le> addr \<and> addr < EMU_FLASH_BASE + EMU_FLASH_SIZE"

definition in_sram :: "u32 \<Rightarrow> bool" where
  "in_sram addr \<longleftrightarrow> EMU_SRAM_BASE \<le> addr \<and> addr < EMU_SRAM_BASE + EMU_SRAM_SIZE"

definition mem_at :: "'a emu_target_scheme \<Rightarrow> u32 \<Rightarrow> byte" where
  "mem_at s a = (if in_flash a then flash_byte a s else g_sram s (unat (a - EMU_SRAM_BASE)))"

lemma unat_add_small:
  assumes "mem_access addr sz" "j < unat sz"
  shows "unat (addr + of_nat j) = unat addr + j"
proof -
  have "unat addr < 2 ^ LENGTH(32)" by (rule unsigned_less)
  then have "unat addr + j < 2 ^ 32"
    using assms unfolding mem_access_def by auto
  then show ?thesis
    using assms by (simp add: unat_word_ariths unat_of_nat)
qed

lemma in_flash_iff: "in_flash a \<longleftrightarrow> 134217728 \<le> unat a \<and> unat a < 134348800"
  by (simp add: in_flash_def word_le_nat_alt word_less_nat_alt)

lemma in_sram_iff: "in_sram a \<longleftrightarrow> 536870912 \<le> unat a \<and> unat a < 536891392"
  by (simp add: in_sram_def word_le_nat_alt word_less_nat_alt)

lemma access_in_flash: "mem_access a sz \<Longrightarrow> in_flash a \<Longrightarrow> j < unat sz \<Longrightarrow> in_flash (a + of_nat j)"
  unfolding in_flash_iff by (simp add: unat_add_small) (auto simp: mem_access_def)

lemma access_in_sram: "mem_access a sz \<Longrightarrow> in_sram a \<Longrightarrow> j < unat sz \<Longrightarrow> in_sram (a + of_nat j)"
  unfolding in_sram_iff by (simp add: unat_add_small) (auto simp: mem_access_def)

lemma sram_get_in: "in_sram a \<Longrightarrow> sram_get (a - EMU_SRAM_BASE) s = Some (g_sram s (unat (a - EMU_SRAM_BASE)))"
  unfolding in_sram_def sram_get_def by (auto, unat_arith)

lemma load_loop_cong:
  "(\<And>j. j < n \<Longrightarrow> get (of_nat (i + j)) = Some (f (of_nat (i + j)))) \<Longrightarrow>
   load_loop get n i v = load_loop (\<lambda>i. Some (f i)) n i v"
proof (induction n arbitrary: i v)
  case (Suc n)
  have "get (of_nat i) = Some (f (of_nat i))" using Suc.prems [of 0] by simp
  moreover have "get (of_nat (Suc i + j)) = Some (f (of_nat (Suc i + j)))" if "j < n" for j
    using Suc.prems [of "Suc j"] that by simp
  ultimately show ?case by (simp add: Suc.IH del: of_nat_Suc)
qed simp

lemma emu_load_mem:
  assumes acc: "mem_access addr sz" and reg: "in_flash addr \<or> in_sram addr"
  shows "emu_target_load addr sz s = Some (u32_of_bytes (map (\<lambda>j. mem_at s (addr + of_nat j)) [0..<unat sz]))"
proof (cases "in_flash addr")
  case True
  have "map (\<lambda>j. flash_byte (addr + of_nat j) s) [0..<unat sz] = map (\<lambda>j. mem_at s (addr + of_nat j)) [0..<unat sz]"
    using access_in_flash [OF acc True] by (simp add: mem_at_def)
  then have "u32_of_bytes (map (\<lambda>j. flash_byte (addr + of_nat j) s) [0..<unat sz]) =
     u32_of_bytes (map (\<lambda>j. mem_at s (addr + of_nat j)) [0..<unat sz])" by (rule arg_cong)
  with True acc show ?thesis
    by (simp add: emu_target_load_def in_flash_def [symmetric, simplified] load_loop_total and_size_mask mem_access_def)
next
  case False
  with reg have r: "in_sram addr" by simp
  have *: "\<not> in_flash (addr + of_nat j)" if "j < unat sz" for j
    using access_in_sram [OF acc r that] by (simp add: in_flash_iff in_sram_iff)
  have "load_loop (\<lambda>i. sram_get ((addr + i) - EMU_SRAM_BASE) s) (unat sz) 0 0 =
     load_loop (\<lambda>i. Some (g_sram s (unat (addr + i - EMU_SRAM_BASE)))) (unat sz) 0 0"
    by (rule load_loop_cong) (use access_in_sram [OF acc r] in \<open>simp add: sram_get_in\<close>)
  moreover have "map (\<lambda>j. g_sram s (unat (addr + of_nat j - EMU_SRAM_BASE))) [0..<unat sz] =
      map (\<lambda>j. mem_at s (addr + of_nat j)) [0..<unat sz]"
    using * by (auto simp: mem_at_def)
  ultimately show ?thesis using False r acc
    by (simp add: emu_target_load_def in_flash_def [symmetric, simplified] in_sram_def [symmetric, simplified]
       load_loop_total and_size_mask mem_access_def)
qed

subsection \<open>Programming\<close>

definition flash_frame :: "'a emu_target_scheme \<Rightarrow> 'a emu_target_scheme \<Rightarrow> bool" where
  "flash_frame s s' \<longleftrightarrow>
     s'\<lparr>g_flash_page := g_flash_page s, g_mallocs := g_mallocs s, g_flash_sr := g_flash_sr s\<rparr> = s"

lemma flash_frame_refl [simp]: "flash_frame s s"
  by (simp add: flash_frame_def)

lemma flash_frame_trans: "flash_frame s s' \<Longrightarrow> flash_frame s' s'' \<Longrightarrow> flash_frame s s''"
  unfolding flash_frame_def by (cases s, cases s', cases s'') simp

definition flash_programmed :: "nat \<Rightarrow> byte list \<Rightarrow> 'a emu_target_scheme \<Rightarrow> 'a emu_target_scheme \<Rightarrow> bool" where
  "flash_programmed off bs s s' \<longleftrightarrow>
     (\<forall>k. flash_at s' k = (if off \<le> k \<and> k < off + length bs then flash_at s k AND bs ! (k - off)
                           else flash_at s k)) \<and>
     (no_oom s \<longrightarrow> no_oom s') \<and> flash_frame s s'"

lemma flash_programmed_refl: "flash_programmed off [] s s"
  by (auto simp: flash_programmed_def)

lemma flash_programmed_trans:
  assumes "flash_programmed off bs s s'" and "flash_programmed (off + length bs) cs s' s''"
  shows "flash_programmed off (bs @ cs) s s''"
  using assms flash_frame_trans [of s s' s'']
  by (simp add: flash_programmed_def nth_append) (auto simp: not_less)

lemma flash_programmed_sr: "flash_programmed off bs s s' \<Longrightarrow> flash_programmed off bs s (s'\<lparr>g_flash_sr := r\<rparr>)"
  by (auto simp: flash_programmed_def flash_at_def no_oom_def flash_frame_def)

lemma no_oom_write: "no_oom s \<Longrightarrow> no_oom (flash_write_byte addr v s)"
  by (cases "g_mallocs s")
    (auto simp: no_oom_def flash_write_byte_def Let_def emu_malloc_def split: option.splits)

lemma flash_write_byte_frame:
  "flash_frame s (flash_write_byte addr v s) \<and> g_flash_sr (flash_write_byte addr v s) = g_flash_sr s"
  by (cases "g_mallocs s")
    (auto simp: flash_frame_def flash_write_byte_def Let_def emu_malloc_def split: option.splits)

lemma flash_write_byte_programmed:
  "no_oom s \<Longrightarrow> flash_off addr < 131072 \<Longrightarrow>
   flash_programmed (flash_off addr) [v] s (flash_write_byte addr v s)"
  by (auto simp: flash_programmed_def flash_at_write no_oom_write flash_write_byte_frame)

lemma flash_off_add:
  assumes "mem_access addr sz" "in_flash addr" "j < unat sz"
  shows "flash_off (addr + of_nat j) = flash_off addr + j" and "flash_off addr + j < 131072"
proof -
  have "in_flash (addr + of_nat j)" using access_in_flash assms by blast
  then have le: "EMU_FLASH_BASE \<le> addr + of_nat j" "EMU_FLASH_BASE \<le> addr" and
    lt: "unat (addr + of_nat j) < 134348800"
    using assms(2) by (auto simp: in_flash_def word_less_nat_alt)
  then show "flash_off (addr + of_nat j) = flash_off addr + j"
    using unat_add_small [OF assms(1,3)] by (simp add: unat_sub word_le_nat_alt)
  then show "flash_off addr + j < 131072"
    using le lt by (simp add: unat_sub word_le_nat_alt)
qed

definition val_bytes :: "u32 \<Rightarrow> nat \<Rightarrow> nat \<Rightarrow> byte list" where
  "val_bytes v i n = map (\<lambda>j. ucast (drop_bit (8 * j) v)) [i..<i + n]"

lemma store_loop_flash:
  assumes "mem_access addr sz" "in_flash addr" "i + n \<le> unat sz" "no_oom s"
  shows "\<exists>s'. store_loop (\<lambda>i b s. Some (flash_write_byte (addr + i) b s)) v n i s = Some s' \<and>
      flash_programmed (flash_off addr + i) (val_bytes v i n) s s' \<and> g_flash_sr s' = g_flash_sr s"
  using assms(3,4)
proof (induction n arbitrary: i s)
  case 0
  then show ?case by (simp add: val_bytes_def flash_programmed_refl)
next
  case (Suc n)
  let ?b = "ucast (drop_bit (8 * i) v) :: byte"
  let ?s1 = "flash_write_byte (addr + of_nat i) ?b s"
  have off: "flash_off (addr + of_nat i) = flash_off addr + i" "flash_off addr + i < 131072"
    using flash_off_add [OF assms(1,2), of i] Suc.prems by auto
  have p1: "flash_programmed (flash_off addr + i) [?b] s ?s1"
    using flash_write_byte_programmed [of s "addr + of_nat i" ?b] off Suc.prems by simp
  obtain s' where s': "store_loop (\<lambda>i b s. Some (flash_write_byte (addr + i) b s)) v n (Suc i) ?s1 = Some s'"
    "flash_programmed (flash_off addr + Suc i) (val_bytes v (Suc i) n) ?s1 s'" "g_flash_sr s' = g_flash_sr s"
    using Suc.IH [of "Suc i" ?s1] Suc.prems no_oom_write flash_write_byte_frame [of s] by auto
  have "flash_programmed (flash_off addr + i) ([?b] @ val_bytes v (Suc i) n) s s'"
    by (rule flash_programmed_trans [OF p1]) (use s' in simp)
  moreover have "val_bytes v i (Suc n) = [?b] @ val_bytes v (Suc i) n"
    by (simp add: val_bytes_def upt_conv_Cons del: upt_Suc)
  ultimately show ?case using s' by auto
qed

abbreviation sr_done :: "u32 \<Rightarrow> u32" where
  "sr_done r \<equiv> (r OR SR_EOP) AND NOT SR_BSY"

lemma emu_store_flash:
  assumes "mem_access addr sz" "in_flash addr" "no_oom s" "g_flash_unlocked s" "g_flash_cr s AND CR_PG \<noteq> 0"
  shows "\<exists>s'. emu_target_store addr v sz s = Some s' \<and>
     flash_programmed (flash_off addr) (val_bytes v 0 (unat sz)) s s' \<and> g_flash_sr s' = sr_done (g_flash_sr s)"
proof -
  obtain s' where s': "store_loop (\<lambda>i b s. Some (flash_write_byte (addr + i) b s)) v (unat sz) 0 s = Some s'"
    "flash_programmed (flash_off addr) (val_bytes v 0 (unat sz)) s s'" "g_flash_sr s' = g_flash_sr s"
    using store_loop_flash [OF assms(1,2), of 0 "unat sz" s v] assms(3) by auto
  show ?thesis
  proof (intro exI conjI)
    show "emu_target_store addr v sz s = Some (s'\<lparr>g_flash_sr := sr_done (g_flash_sr s')\<rparr>)"
      using s' assms by (simp add: emu_target_store_def in_flash_def [symmetric, simplified])
    show "flash_programmed (flash_off addr) (val_bytes v 0 (unat sz)) s (s'\<lparr>g_flash_sr := sr_done (g_flash_sr s')\<rparr>)"
      using s'(2) by (rule flash_programmed_sr)
  qed (simp add: s')
qed

subsection \<open>SRAM\<close>

lemma emu_target_store_eq:
  "emu_target_store addr val sz s =
     (if in_flash addr then
        (if g_flash_unlocked s \<and> g_flash_cr s AND CR_PG \<noteq> 0 then
           do { s \<leftarrow> store_loop (\<lambda>i b s. Some (flash_write_byte (addr + i) b s)) val (unat sz) 0 s;
                Some (s\<lparr>g_flash_sr := sr_done (g_flash_sr s)\<rparr>) }
         else Some s)
      else if in_sram addr then
        store_loop (\<lambda>i b s. sram_set ((addr + i) - EMU_SRAM_BASE) b s) val (unat sz) 0 s
      else if EMU_SCS_BASE \<le> addr \<and> addr < EMU_SCS_BASE + 0x1000 then
        Some (scs_write (addr - EMU_SCS_BASE) val s)
      else if EMU_FPEC_BASE \<le> addr \<and> addr < EMU_FPEC_BASE + 0x400 then
        Some (fpec_write addr val s)
      else Some s)"
  by (simp add: emu_target_store_def in_flash_def in_sram_def)


lemma sram_set_in:
  "in_sram a \<Longrightarrow> sram_set (a - EMU_SRAM_BASE) b s = Some (s\<lparr>g_sram := (g_sram s)(unat (a - EMU_SRAM_BASE) := b)\<rparr>)"
  unfolding in_sram_def sram_set_def by (auto, unat_arith)

lemma unat_sram_off: "in_sram a \<Longrightarrow> unat (a - EMU_SRAM_BASE) = unat a - 536870912"
  unfolding in_sram_iff by (subst unat_sub) (auto simp: word_le_nat_alt)

lemma store_loop_sram:
  assumes "mem_access addr sz" "in_sram addr" "i + n \<le> unat sz"
  shows "\<exists>m. store_loop (\<lambda>i b s. sram_set ((addr + i) - EMU_SRAM_BASE) b s) v n i s = Some (s\<lparr>g_sram := m\<rparr>) \<and>
    (\<forall>k. m k = (if unat (addr - EMU_SRAM_BASE) + i \<le> k \<and> k < unat (addr - EMU_SRAM_BASE) + i + n
                then ucast (drop_bit (8 * (k - unat (addr - EMU_SRAM_BASE))) v) else g_sram s k))"
  using assms(3)
proof (induction n arbitrary: i s)
  case 0
  show ?case by (intro exI [of _ "g_sram s"]) auto
next
  case (Suc n)
  let ?o = "unat (addr - EMU_SRAM_BASE)"
  let ?b = "ucast (drop_bit (8 * i) v) :: byte"
  let ?s1 = "s\<lparr>g_sram := (g_sram s)(?o + i := ?b)\<rparr>"
  have in1: "in_sram (addr + of_nat i)" using access_in_sram assms(1,2) Suc.prems by simp
  have o: "unat (addr + of_nat i - EMU_SRAM_BASE) = ?o + i"
    using unat_sram_off [OF in1] unat_sram_off [OF assms(2)] unat_add_small [OF assms(1), of i] Suc.prems assms(2)
    by (simp add: in_sram_iff)
  obtain m where m: "store_loop (\<lambda>i b s. sram_set ((addr + i) - EMU_SRAM_BASE) b s) v n (Suc i) ?s1 = Some (?s1\<lparr>g_sram := m\<rparr>)"
    "\<forall>k. m k = (if ?o + Suc i \<le> k \<and> k < ?o + Suc i + n then ucast (drop_bit (8 * (k - ?o)) v) else g_sram ?s1 k)"
    using Suc.IH [of "Suc i" ?s1] Suc.prems by auto
  have "sram_set (addr + of_nat i - EMU_SRAM_BASE) ?b s = Some ?s1"
    by (simp only: sram_set_in [OF in1] o)
  with m(1) have "store_loop (\<lambda>i b s. sram_set ((addr + i) - EMU_SRAM_BASE) b s) v (Suc n) i s = Some (s\<lparr>g_sram := m\<rparr>)"
    by simp
  moreover have "\<forall>k. m k = (if ?o + i \<le> k \<and> k < ?o + i + Suc n then ucast (drop_bit (8 * (k - ?o)) v) else g_sram s k)"
    unfolding m(2) [THEN spec] by auto
  ultimately show ?case by blast
qed

lemma emu_store_sram:
  assumes "mem_access addr sz" "in_sram addr"
  shows "\<exists>m. emu_target_store addr v sz s = Some (s\<lparr>g_sram := m\<rparr>) \<and>
    (\<forall>k. m k = (if unat (addr - EMU_SRAM_BASE) \<le> k \<and> k < unat (addr - EMU_SRAM_BASE) + unat sz
                then ucast (drop_bit (8 * (k - unat (addr - EMU_SRAM_BASE))) v) else g_sram s k))"
proof -
  have "\<not> in_flash addr" using assms(2) by (simp add: in_flash_iff in_sram_iff)
  then show ?thesis
    using store_loop_sram [OF assms, of 0 "unat sz" v s] assms(2)
    by (simp add: emu_target_store_eq)
qed

subsection \<open>FPEC and the whole device\<close>

lemma flash_at_erase_page:
  assumes "flash_off addr < 131072"
  shows "flash_at (flash_erase_page addr s) k =
     (if k div 1024 = flash_off addr div 1024 then 0xFF else flash_at s k)"
  using assms by (auto simp: flash_erase_page_def flash_at_def page_simps Let_def split: option.splits)

lemma flash_erase_page_frame:
  "flash_frame s (flash_erase_page addr s)" "g_mallocs (flash_erase_page addr s) = g_mallocs s"
  "g_flash_sr (flash_erase_page addr s) = g_flash_sr s"
  by (auto simp: flash_frame_def flash_erase_page_def Let_def split: option.splits)

lemma flash_erase_upto_eq:
  "flash_erase_upto n s = s\<lparr>g_flash_page := (\<lambda>i. if i < n then None else g_flash_page s i)\<rparr>"
  by (induction n) (auto simp: Let_def less_Suc_eq fun_eq_iff intro!: emu_target.equality)

lemma flash_erase_all_eq:
  "flash_erase_all s = s\<lparr>g_flash_page := (\<lambda>i. if i < 128 then None else g_flash_page s i)\<rparr>"
  by (simp add: flash_erase_all_def flash_erase_upto_eq)

lemma flash_at_erase_all: "k < 131072 \<Longrightarrow> flash_at (flash_erase_all s) k = 0xFF"
  by (auto simp: flash_at_def flash_erase_all_eq less_mult_imp_div_less split: option.splits)

definition fpec_ok :: "'a emu_target_scheme \<Rightarrow> bool" where
  "fpec_ok s \<longleftrightarrow> g_flash_sr s = 0 \<or> g_flash_sr s = SR_EOP"

lemma sr_done_ok: "fpec_ok s \<Longrightarrow> sr_done (g_flash_sr s) = SR_EOP"
  by (auto simp: fpec_ok_def)

lemma fpec_ok_write: "fpec_ok s \<Longrightarrow> fpec_ok (fpec_write addr v s)"
proof -
  assume ok: "fpec_ok s"
  have "v AND SR_EOP = 0 \<or> v AND SR_EOP = SR_EOP"
    using and_exp_cases [of v 5] by simp
  then have "g_flash_sr s AND NOT (v AND SR_EOP) = 0 \<or> g_flash_sr s AND NOT (v AND SR_EOP) = SR_EOP"
    using ok by (elim disjE) (auto simp: fpec_ok_def)
  with ok show ?thesis
    by (auto simp: fpec_write_def fpec_ok_def Let_def flash_erase_page_frame flash_erase_all_eq)
qed

lemma scs_write_frame:
  "g_flash_page (scs_write off v s) = g_flash_page s" "g_flash_sr (scs_write off v s) = g_flash_sr s"
  "g_flash_unlocked (scs_write off v s) = g_flash_unlocked s" "g_mallocs (scs_write off v s) = g_mallocs s"
  "g_sram (scs_write off v s) = g_sram s"
  by (simp_all add: scs_write_def Let_def)

lemma flash_write_byte_clears:
  "flash_at (flash_write_byte addr v s) k AND flash_at s k = flash_at (flash_write_byte addr v s) k"
  by (cases "g_mallocs s"; cases "hd (g_mallocs s)")
    (auto simp: flash_write_byte_def flash_at_def emu_malloc_def Let_def page_simps ac_simps
      split: option.splits)

lemma store_loop_clears:
  assumes "store_loop (\<lambda>i b s. Some (flash_write_byte (addr + i) b s)) v n i s = Some s'"
  shows "flash_at s' k AND flash_at s k = flash_at s' k"
  using assms
proof (induction n arbitrary: i s)
  case 0
  then show ?case by simp
next
  case (Suc n)
  let ?s1 = "flash_write_byte (addr + of_nat i) (ucast (drop_bit (8 * i) v)) s"
  have "flash_at s' k AND flash_at ?s1 k = flash_at s' k"
    using Suc.IH [of "Suc i" ?s1] Suc.prems by simp
  then show ?case
    using flash_write_byte_clears by (rule and_sub_trans)
qed

text \<open>C34: a store to flash only ever clears bits, as on NOR flash: whatever value and size are
  stored, every bit set afterwards was set before.\<close>

theorem emu_store_nor:
  assumes "in_flash addr" "emu_target_store addr v sz s = Some s'"
  shows "flash_at s' k AND flash_at s k = flash_at s' k"
proof (cases "g_flash_unlocked s \<and> g_flash_cr s AND CR_PG \<noteq> 0")
  case True
  with assms obtain s1 where
    "store_loop (\<lambda>i b s. Some (flash_write_byte (addr + i) b s)) v (unat sz) 0 s = Some s1"
    and "s' = s1\<lparr>g_flash_sr := sr_done (g_flash_sr s1)\<rparr>"
    by (auto simp: emu_target_store_eq bind_eq_Some_conv)
  then show ?thesis
    using store_loop_clears [of addr v "unat sz" 0 s s1 k] by (simp add: flash_at_def)
next
  case False
  with assms show ?thesis by (auto simp: emu_target_store_eq)
qed

lemma store_loop_sram_page:
  "store_loop (\<lambda>i b s. sram_set ((addr + i) - EMU_SRAM_BASE) b s) v n i s = Some s' \<Longrightarrow>
   g_flash_page s' = g_flash_page s \<and> g_flash_sr s' = g_flash_sr s \<and> g_flash_unlocked s' = g_flash_unlocked s"
  by (induction n arbitrary: i s) (fastforce simp: sram_set_def bind_eq_Some_conv split: if_splits)+

lemma fpec_write_locked:
  "\<not> g_flash_unlocked s \<Longrightarrow> g_flash_page (fpec_write addr v s) = g_flash_page s"
  by (simp add: fpec_write_def Let_def)

text \<open>While the flash controller is locked no store of any address, value or size changes the
  flash array.\<close>

theorem emu_locked_flash_constant:
  assumes "\<not> g_flash_unlocked s" "emu_target_store addr v sz s = Some s'"
  shows "flash_at s' = flash_at s"
proof -
  have "g_flash_page s' = g_flash_page s"
    using assms store_loop_sram_page [of addr v "unat sz" 0 s s']
    by (auto simp: emu_target_store_eq scs_write_frame fpec_write_locked split: if_splits)
  then show ?thesis by (simp add: flash_at_def fun_eq_iff)
qed

lemma flash_erase_page_unlocked: "g_flash_unlocked (flash_erase_page a s) = g_flash_unlocked s"
  by (simp add: flash_erase_page_def Let_def split: option.splits)

lemma store_loop_flash_unlocked:
  "store_loop (\<lambda>i b s. Some (flash_write_byte (addr + i) b s)) v n i s = Some s' \<Longrightarrow>
   g_flash_unlocked s' = g_flash_unlocked s"
proof (induction n arbitrary: i s)
  case (Suc n)
  moreover have "g_flash_unlocked (flash_write_byte a b s) = g_flash_unlocked s" for a b
    by (cases "g_mallocs s")
      (auto simp: flash_write_byte_def Let_def emu_malloc_def split: option.splits)
  ultimately show ?case by fastforce
qed simp

text \<open>The controller is unlocked exactly by the second key written to the key register right
  after the first one, and no store locks it again.\<close>

theorem emu_unlock_iff:
  assumes "emu_target_store addr v sz s = Some s'"
  shows "g_flash_unlocked s' \<longleftrightarrow>
     g_flash_unlocked s \<or> (addr = FPEC_KEYR \<and> g_flash_keyr s = FPEC_KEY1 \<and> v = FPEC_KEY2)"
proof -
  have "g_flash_unlocked (fpec_write addr v s) \<longleftrightarrow>
     g_flash_unlocked s \<or> (addr = FPEC_KEYR \<and> g_flash_keyr s = FPEC_KEY1 \<and> v = FPEC_KEY2)"
    by (auto simp: fpec_write_def Let_def flash_erase_page_unlocked flash_erase_all_eq)
  moreover have "addr \<noteq> FPEC_KEYR" if "in_flash addr \<or> in_sram addr \<or> (EMU_SCS_BASE \<le> addr \<and> addr < EMU_SCS_BASE + 0x1000)"
    using that by (auto simp: in_flash_def in_sram_def)
  moreover have "addr = FPEC_KEYR \<Longrightarrow> EMU_FPEC_BASE \<le> addr \<and> addr < EMU_FPEC_BASE + 0x400"
    by simp
  ultimately show ?thesis
    using assms store_loop_sram_page [of addr v "unat sz" 0 s s']
    by (auto simp: emu_target_store_eq scs_write_frame bind_eq_Some_conv
        dest: store_loop_flash_unlocked split: if_splits)
qed

lemma load_loop_None:
  "load_loop get n i v = None \<longleftrightarrow> (\<exists>j<n. get (of_nat (i + j)) = None)"
proof (induction n arbitrary: i v)
  case (Suc n)
  show ?case
    by (cases "get (of_nat i)") (simp_all add: Suc.IH Ex_less_Suc2 ac_simps)
qed simp

lemma sram_get_None:
  assumes "in_sram addr" "j < 2 ^ 31"
  shows "sram_get (addr + of_nat j - EMU_SRAM_BASE) s = None \<longleftrightarrow> 536891392 \<le> unat addr + j"
proof -
  have "unat (addr + of_nat j) = unat addr + j"
    using assms by (simp add: in_sram_iff unat_word_ariths unat_of_nat)
  moreover from this have "unat (addr + of_nat j - EMU_SRAM_BASE) = unat addr + j - 536870912"
    using assms(1) by (subst unat_sub) (auto simp: in_sram_iff word_le_nat_alt)
  ultimately show ?thesis
    using assms(1) by (auto simp: sram_get_def in_sram_iff word_less_nat_alt not_less)
qed

lemma emu_target_load_eq:
  "emu_target_load addr sz s =
      (if in_flash addr then
         do { v \<leftarrow> load_loop (\<lambda>i. Some (flash_byte (addr + i) s)) (unat sz) 0 0; Some (v AND size_mask sz) }
       else if in_sram addr then
         do { v \<leftarrow> load_loop (\<lambda>i. sram_get ((addr + i) - EMU_SRAM_BASE) s) (unat sz) 0 0;
              Some (v AND size_mask sz) }
       else if addr = EMU_DBGMCU_IDCODE then Some (EMU_IDCODE AND size_mask sz)
       else if EMU_ROM_BASE \<le> addr \<and> addr < EMU_ROM_BASE + 0x1000 then
         Some (rom_read (addr - EMU_ROM_BASE) AND size_mask sz)
       else if EMU_SCS_BASE \<le> addr \<and> addr < EMU_SCS_BASE + 0x1000 then
         Some (scs_read (addr - EMU_SCS_BASE) s AND size_mask sz)
       else if EMU_FPEC_BASE \<le> addr \<and> addr < EMU_FPEC_BASE + 0x400 then
         Some (fpec_read addr s AND size_mask sz)
       else Some 0x00000000)"
  by (simp only: emu_target_load_def in_flash_def in_sram_def Let_def)

text \<open>A load of up to four bytes is inside its array unless it starts in SRAM and runs past
  its end; there the code indexes g_sram out of bounds.\<close>

theorem emu_load_overrun_iff:
  assumes "sz \<le> 4"
  shows "emu_target_load addr sz s = None \<longleftrightarrow> in_sram addr \<and> 536891392 < unat addr + unat sz"
proof -
  have sz: "unat sz \<le> 4" using assms by (simp add: word_le_nat_alt)
  have "load_loop (\<lambda>i. sram_get ((addr + i) - EMU_SRAM_BASE) s) (unat sz) 0 0 = None \<longleftrightarrow>
        536891392 < unat addr + unat sz" if "in_sram addr"
  proof -
    have "(\<exists>j<unat sz. sram_get (addr + of_nat j - EMU_SRAM_BASE) s = None) \<longleftrightarrow>
          (\<exists>j<unat sz. 536891392 \<le> unat addr + j)"
      by (intro ex_cong1 conj_cong refl sram_get_None [OF that]) (use sz in simp)
    also have "\<dots> \<longleftrightarrow> 536891392 < unat addr + unat sz"
      using that by (auto simp: in_sram_iff intro!: exI [of _ "unat sz - 1"])
    finally show ?thesis by (simp add: load_loop_None)
  qed
  then show ?thesis
    by (auto simp: emu_target_load_eq load_loop_total bind_eq_None_conv in_flash_iff in_sram_iff)
qed

inductive emu_reachable :: "emu_target \<Rightarrow> bool" where
  reset: "emu_reachable (emu_target_reset s)"
| store: "emu_reachable s \<Longrightarrow> emu_target_store addr v sz s = Some s' \<Longrightarrow> emu_reachable s'"

lemma store_loop_flash_sr:
  "store_loop (\<lambda>i b s. Some (flash_write_byte (addr + i) b s)) v n i s = Some s' \<Longrightarrow> g_flash_sr s' = g_flash_sr s"
  by (induction n arbitrary: i s) (use flash_write_byte_frame in fastforce)+

lemma fpec_ok_store: 
  assumes "fpec_ok s" "emu_target_store addr v sz s = Some s'" shows "fpec_ok s'"
proof -
  have "fpec_ok s'" if "store_loop (\<lambda>i b s. sram_set ((addr + i) - EMU_SRAM_BASE) b s) v n 0 s = Some s'" for n
    using store_loop_sram_page [OF that] assms(1) by (simp add: fpec_ok_def)
  moreover have "fpec_ok (s1\<lparr>g_flash_sr := sr_done (g_flash_sr s1)\<rparr>)" 
    if "store_loop (\<lambda>i b s. Some (flash_write_byte (addr + i) b s)) v (unat sz) 0 s = Some s1" for s1
    using store_loop_flash_sr [OF that] sr_done_ok [OF assms(1)] by (simp add: fpec_ok_def)
  moreover have "fpec_ok (scs_write off v s)" for off
    using assms(1) by (simp add: fpec_ok_def scs_write_frame)
  ultimately show ?thesis
    using assms fpec_ok_write [of s addr v]
    by (auto simp: emu_target_store_eq bind_eq_Some_conv split: if_splits)
qed

lemma fpec_ok_reset: "fpec_ok (emu_target_reset s)"
  by (simp add: fpec_ok_def emu_target_reset_def Let_def split_beta)

text \<open>C35: in every state reachable from a reset by stores the status register is 0 or EOP: the busy
  bit and the error bits the driver polls are never set.\<close>

theorem emu_reachable_fpec_ok: "emu_reachable s \<Longrightarrow> fpec_ok s"
  by (induction rule: emu_reachable.induct) (auto intro: fpec_ok_reset fpec_ok_store)

subsection \<open>Instances\<close>

text \<open>The device after its first reset, unlocked by the two keys, with programming enabled.\<close>

definition emu_example :: emu_target where
  "emu_example = (emu_target_reset emu_statics)\<lparr>g_flash_keyr := FPEC_KEY2, g_flash_unlocked := True, g_flash_cr := CR_PG\<rparr>"

theorem emu_store_nor_witness:
  "\<exists>s'. emu_target_store 0x8000000 0x1234 2 emu_example = Some s' \<and> flash_at s' 0 AND flash_at emu_example 0 = flash_at s' 0"
proof -
  have "\<exists>s'. store_loop (\<lambda>i b s. Some (flash_write_byte (0x8000000 + i) b s)) 0x1234 n i s = Some s'" for n i and s :: emu_target
    by (induction n arbitrary: i s) auto
  then obtain s1 where "store_loop (\<lambda>i b s. Some (flash_write_byte (0x8000000 + i) b s)) 0x1234 2 0 emu_example = Some s1" by blast
  moreover have "g_flash_unlocked emu_example" "g_flash_cr emu_example = CR_PG" by (simp_all add: emu_example_def)
  ultimately obtain s' where "emu_target_store 0x8000000 0x1234 2 emu_example = Some s'"
    by (simp add: emu_target_store_eq in_flash_iff)
  then show ?thesis using emu_store_nor [of "0x8000000" "0x1234" 2 emu_example s' 0] by (auto simp: in_flash_iff)
qed

theorem emu_locked_flash_constant_witness:
  "\<exists>s'. emu_target_store 0x40022010 0x44 4 (emu_target_reset emu_statics) = Some s' \<and> flash_at s' = flash_at (emu_target_reset emu_statics)"
proof -
  let ?s = "emu_target_reset emu_statics"
  have "emu_target_store 0x40022010 0x44 4 ?s = Some (fpec_write 0x40022010 0x44 ?s)"
    by (simp add: emu_target_store_eq in_flash_iff in_sram_iff)
  moreover have "\<not> g_flash_unlocked ?s" by (simp add: emu_target_reset_def Let_def split_beta)
  ultimately show ?thesis using emu_locked_flash_constant [of ?s "0x40022010" "0x44" 4] by blast
qed

theorem emu_unlock_iff_witness:
  "\<exists>s'. emu_target_store FPEC_KEYR FPEC_KEY2 4 (emu_statics\<lparr>g_flash_keyr := FPEC_KEY1\<rparr>) = Some s' \<and> g_flash_unlocked s'"
proof -
  let ?s = "emu_statics\<lparr>g_flash_keyr := FPEC_KEY1\<rparr>"
  have "emu_target_store FPEC_KEYR FPEC_KEY2 4 ?s = Some (fpec_write FPEC_KEYR FPEC_KEY2 ?s)"
    by (simp add: emu_target_store_eq in_flash_iff in_sram_iff)
  then show ?thesis using emu_unlock_iff [of FPEC_KEYR FPEC_KEY2 4 ?s] by simp
qed

theorem emu_load_overrun_iff_witness: "emu_target_load 0x20004ffe 4 emu_statics = None"
  using emu_load_overrun_iff [of 4 "0x20004ffe" emu_statics] by (simp add: in_sram_iff)

theorem emu_reachable_fpec_ok_witness: "fpec_ok (emu_target_reset emu_statics)"
  by (rule emu_reachable_fpec_ok) (rule emu_reachable.reset)

end
