(* ===== verification/Emu_Shim.thy ===== *)
theory Emu_Shim
  imports Emu_Target
begin

text \<open>
  The transport of the emulated target, src/target/emu_shim.c: ADIv5 debug-port and access-port
  transactions turned into sized loads and stores on the device model, with the posted-read
  behaviour of a real access port and the 1 KiB wrap of the transfer address register. The file's
  static variables, the device behind it and the one field of the debug port it writes (fault) are
  the record emu_shim.
\<close>

subsection \<open>Constants of adiv5.h\<close>

abbreviation (input) ADIV5_APnDP :: u16 where "ADIV5_APnDP \<equiv> 0x100"
abbreviation (input) ADIV5_DP_DPIDR :: u16 where "ADIV5_DP_DPIDR \<equiv> 0x0"
abbreviation (input) ADIV5_DP_ABORT :: u16 where "ADIV5_DP_ABORT \<equiv> 0x0"
abbreviation (input) ADIV5_DP_CTRLSTAT :: u16 where "ADIV5_DP_CTRLSTAT \<equiv> 0x4"
abbreviation (input) ADIV5_DP_SELECT :: u16 where "ADIV5_DP_SELECT \<equiv> 0x8"
abbreviation (input) ADIV5_DP_RDBUFF :: u16 where "ADIV5_DP_RDBUFF \<equiv> 0xc"
abbreviation (input) ADIV5_AP_CSW :: u16 where "ADIV5_AP_CSW \<equiv> 0x100"
abbreviation (input) ADIV5_AP_TAR :: u16 where "ADIV5_AP_TAR \<equiv> 0x104"
abbreviation (input) ADIV5_AP_DRW :: u16 where "ADIV5_AP_DRW \<equiv> 0x10c"
abbreviation (input) ADIV5_AP_DB0 :: u16 where "ADIV5_AP_DB0 \<equiv> 0x110"
abbreviation (input) ADIV5_AP_CFG :: u16 where "ADIV5_AP_CFG \<equiv> 0x1f4"
abbreviation (input) ADIV5_AP_BASE :: u16 where "ADIV5_AP_BASE \<equiv> 0x1f8"
abbreviation (input) ADIV5_AP_IDR :: u16 where "ADIV5_AP_IDR \<equiv> 0x1fc"
abbreviation (input) ADIV5_LOW_WRITE :: u8 where "ADIV5_LOW_WRITE \<equiv> 0"
abbreviation (input) ADIV5_LOW_READ :: u8 where "ADIV5_LOW_READ \<equiv> 1"
abbreviation (input) ADIV5_AP_CSW_DBGSWENABLE :: u32 where "ADIV5_AP_CSW_DBGSWENABLE \<equiv> 0x80000000"
abbreviation (input) ADIV5_AP_CSW_ADDRINC_SINGLE :: u32 where "ADIV5_AP_CSW_ADDRINC_SINGLE \<equiv> 0x10"
abbreviation (input) ADIV5_AP_CSW_ADDRINC_MASK :: u32 where "ADIV5_AP_CSW_ADDRINC_MASK \<equiv> 0x30"
abbreviation (input) ADIV5_AP_CSW_SIZE_BYTE :: u32 where "ADIV5_AP_CSW_SIZE_BYTE \<equiv> 0"
abbreviation (input) ADIV5_AP_CSW_SIZE_HALFWORD :: u32 where "ADIV5_AP_CSW_SIZE_HALFWORD \<equiv> 1"
abbreviation (input) ADIV5_AP_CSW_SIZE_WORD :: u32 where "ADIV5_AP_CSW_SIZE_WORD \<equiv> 2"
abbreviation (input) ADIV5_AP_CSW_SIZE_MASK :: u32 where "ADIV5_AP_CSW_SIZE_MASK \<equiv> 7"
abbreviation (input) ADIV5_DP_CTRLSTAT_CSYSPWRUPACK :: u32 where "ADIV5_DP_CTRLSTAT_CSYSPWRUPACK \<equiv> 0x80000000"
abbreviation (input) ADIV5_DP_CTRLSTAT_CSYSPWRUPREQ :: u32 where "ADIV5_DP_CTRLSTAT_CSYSPWRUPREQ \<equiv> 0x40000000"
abbreviation (input) ADIV5_DP_CTRLSTAT_CDBGPWRUPACK :: u32 where "ADIV5_DP_CTRLSTAT_CDBGPWRUPACK \<equiv> 0x20000000"
abbreviation (input) ADIV5_DP_CTRLSTAT_CDBGPWRUPREQ :: u32 where "ADIV5_DP_CTRLSTAT_CDBGPWRUPREQ \<equiv> 0x10000000"

subsection \<open>State and operations\<close>

record emu_shim =
  tgt :: emu_target
  g_posted :: u32
  g_tar :: u32
  g_csw :: u32
  g_ctrlstat :: u32
  g_select :: u32
  dp_fault :: u8

definition csw_access_size :: "emu_shim \<Rightarrow> u32" where
  "csw_access_size s =
     (if g_csw s AND ADIV5_AP_CSW_SIZE_MASK = ADIV5_AP_CSW_SIZE_BYTE then 1
      else if g_csw s AND ADIV5_AP_CSW_SIZE_MASK = ADIV5_AP_CSW_SIZE_HALFWORD then 2
      else 4)"

definition csw_autoinc :: "emu_shim \<Rightarrow> bool" where
  "csw_autoinc s \<longleftrightarrow> g_csw s AND ADIV5_AP_CSW_ADDRINC_MASK = ADIV5_AP_CSW_ADDRINC_SINGLE"

definition tar_autoinc :: "u32 \<Rightarrow> emu_shim \<Rightarrow> emu_shim" where
  "tar_autoinc sz s =
     (if csw_autoinc s
      then s\<lparr>g_tar := (g_tar s AND NOT 0x3FF) OR ((g_tar s + sz) AND 0x3FF)\<rparr>
      else s)"

definition ctrlstat_value :: "emu_shim \<Rightarrow> u32" where
  "ctrlstat_value s =
     (let v = g_ctrlstat s;
          v = (if g_ctrlstat s AND ADIV5_DP_CTRLSTAT_CSYSPWRUPREQ \<noteq> 0
               then v OR ADIV5_DP_CTRLSTAT_CSYSPWRUPACK else v);
          v = (if g_ctrlstat s AND ADIV5_DP_CTRLSTAT_CDBGPWRUPREQ \<noteq> 0
               then v OR ADIV5_DP_CTRLSTAT_CDBGPWRUPACK else v)
      in v)"

text \<open>The lane of a sub-word access: 8 * (TAR and (4 - size)).\<close>

definition lane_shift :: "u32 \<Rightarrow> u32 \<Rightarrow> nat" where
  "lane_shift tar sz = unat (8 * (tar AND (4 - sz)))"

definition ap_reg_read :: "u16 \<Rightarrow> emu_shim \<Rightarrow> (u32 \<times> emu_shim) option" where
  "ap_reg_read reg s =
     (let ret = g_posted s
      in if (ucast (drop_bit 24 (g_select s)) :: u8) \<noteq> 0 then
           (if reg = 0xF8 then Some (ret, s\<lparr>g_posted := 0xFFFFFFFF\<rparr>)
            else Some (ret, s\<lparr>g_posted := 0\<rparr>))
         else if reg = 0x00 then Some (ret, s\<lparr>g_posted := g_csw s OR ADIV5_AP_CSW_DBGSWENABLE\<rparr>)
         else if reg = 0x04 then Some (ret, s\<lparr>g_posted := g_tar s\<rparr>)
         else if reg = 0x0C then
           (let sz = csw_access_size s;
                shift = lane_shift (g_tar s) sz
            in do { v \<leftarrow> emu_target_load (g_tar s) sz (tgt s);
                    Some (ret, tar_autoinc sz (s\<lparr>g_posted := push_bit shift v\<rparr>)) })
         else if reg = 0x10 \<or> reg = 0x14 \<or> reg = 0x18 \<or> reg = 0x1C then
           do { v \<leftarrow> emu_target_load ((g_tar s AND NOT 0xF) + (ucast reg - 0x10)) 4 (tgt s);
                Some (ret, s\<lparr>g_posted := v\<rparr>) }
         else if reg = 0xF4 then Some (ret, s\<lparr>g_posted := EMU_AP_CFG\<rparr>)
         else if reg = 0xF8 then Some (ret, s\<lparr>g_posted := EMU_AP_BASE\<rparr>)
         else if reg = 0xFC then Some (ret, s\<lparr>g_posted := EMU_AP_IDR\<rparr>)
         else Some (ret, s\<lparr>g_posted := 0\<rparr>))"

definition ap_reg_write :: "u16 \<Rightarrow> u32 \<Rightarrow> emu_shim \<Rightarrow> emu_shim option" where
  "ap_reg_write reg val s =
     (if reg = 0x00 then Some (s\<lparr>g_csw := val\<rparr>)
      else if reg = 0x04 then Some (s\<lparr>g_tar := val\<rparr>)
      else if reg = 0x0C then
        (let sz = csw_access_size s;
             shift = lane_shift (g_tar s) sz;
             lane = drop_bit shift val AND size_mask sz
         in do { t \<leftarrow> emu_target_store (g_tar s) lane sz (tgt s);
                 Some (tar_autoinc sz (s\<lparr>tgt := t\<rparr>)) })
      else if reg = 0x10 \<or> reg = 0x14 \<or> reg = 0x18 \<or> reg = 0x1C then
        do { t \<leftarrow> emu_target_store ((g_tar s AND NOT 0xF) + (ucast reg - 0x10)) val 4 (tgt s);
             Some (s\<lparr>tgt := t\<rparr>) }
      else Some s)"

definition emu_shim_low_access ::
  "u8 \<Rightarrow> u16 \<Rightarrow> u32 \<Rightarrow> emu_shim \<Rightarrow> (u32 \<times> emu_shim) option" where
  "emu_shim_low_access rnw addr val s =
     (if addr AND ADIV5_APnDP \<noteq> 0 then
        (let reg = addr AND 0xFC
         in if rnw = ADIV5_LOW_READ then ap_reg_read reg s
            else do { s \<leftarrow> ap_reg_write reg val s; Some (0, s) })
      else
        (let reg = addr AND 0x0C
         in if rnw = ADIV5_LOW_READ then
              (if reg = 0x0 then Some (EMU_DPIDR, s)
               else if reg = 0x4 then Some (ctrlstat_value s, s)
               else if reg = 0xC then Some (g_posted s, s)
               else Some (0, s))
            else if reg = 0x0 then Some (0, s\<lparr>dp_fault := 0\<rparr>)
            else if reg = 0x4 then Some (0, s\<lparr>g_ctrlstat := val\<rparr>)
            else if reg = 0x8 then Some (0, s\<lparr>g_select := val\<rparr>)
            else Some (0, s)))"

definition emu_shim_dp_read :: "u16 \<Rightarrow> emu_shim \<Rightarrow> (u32 \<times> emu_shim) option" where
  "emu_shim_dp_read addr s =
     (if addr AND ADIV5_APnDP \<noteq> 0 then
        do { (_, s) \<leftarrow> emu_shim_low_access ADIV5_LOW_READ addr 0 s;
             emu_shim_low_access ADIV5_LOW_READ ADIV5_DP_RDBUFF 0 s }
      else emu_shim_low_access ADIV5_LOW_READ addr 0 s)"

definition emu_shim_error :: "bool \<Rightarrow> emu_shim \<Rightarrow> (u32 \<times> emu_shim) option" where
  "emu_shim_error protocol_recovery s = Some (0, s\<lparr>dp_fault := 0\<rparr>)"

definition emu_shim_abort :: "u32 \<Rightarrow> emu_shim \<Rightarrow> emu_shim option" where
  "emu_shim_abort abort s = Some (s\<lparr>dp_fault := 0\<rparr>)"

text \<open>emu_scan up to the point where it hands the debug port to adiv5_dp_init: the transport and
  the device are reset and the freshly allocated port has no fault.\<close>

definition emu_scan_reset :: "emu_shim \<Rightarrow> emu_shim" where
  "emu_scan_reset s =
     s\<lparr>g_posted := 0, g_tar := 0, g_csw := 0, g_ctrlstat := 0, g_select := 0,
       tgt := emu_target_reset (tgt s), dp_fault := 0\<rparr>"

text \<open>The state at boot: every static variable is zero.\<close>

definition shim_statics :: emu_shim where
  "shim_statics = \<lparr>tgt = emu_statics, g_posted = 0, g_tar = 0, g_csw = 0, g_ctrlstat = 0, g_select = 0, dp_fault = 0\<rparr>"

end
