(* ===== verification/Adiv5.thy ===== *)
theory Adiv5
  imports Emu_Shim
begin

text \<open>
  The access-port layer of src/target/adiv5.c that every memory access of the probe goes through:
  access setup, lane packing and unpacking, the block read and block write loops with their
  handling of the 10-bit auto-increment, and the banked register accessors. The debug port's
  function pointers are the record dp_ops over a state type 's; the access port's fields are the
  record adiv5_access_port.
\<close>

datatype align_e = ALIGN_8BIT | ALIGN_16BIT | ALIGN_32BIT | ALIGN_64BIT

text \<open>The enumerator's value, used as a shift count.\<close>

primrec align_val :: "align_e \<Rightarrow> nat" where
  "align_val ALIGN_8BIT = 0"
| "align_val ALIGN_16BIT = 1"
| "align_val ALIGN_32BIT = 2"
| "align_val ALIGN_64BIT = 3"

definition ALIGN_OF :: "u32 \<Rightarrow> align_e" where
  "ALIGN_OF x = (if x AND 3 = 0 then ALIGN_32BIT else if x AND 1 = 0 then ALIGN_16BIT else ALIGN_8BIT)"

definition MIN_ALIGN :: "u32 \<Rightarrow> u32 \<Rightarrow> align_e" where
  "MIN_ALIGN x y = (if align_val (ALIGN_OF x) < align_val (ALIGN_OF y) then ALIGN_OF x else ALIGN_OF y)"

record 's dp_ops =
  dp_read :: "u16 \<Rightarrow> 's \<Rightarrow> (u32 \<times> 's) option"
  dp_low_access :: "u8 \<Rightarrow> u16 \<Rightarrow> u32 \<Rightarrow> 's \<Rightarrow> (u32 \<times> 's) option"
  dp_error :: "bool \<Rightarrow> 's \<Rightarrow> (u32 \<times> 's) option"
  dp_abort :: "u32 \<Rightarrow> 's \<Rightarrow> 's option"
  dp_fault_of :: "'s \<Rightarrow> u8"
  dp_fault_set :: "u8 \<Rightarrow> 's \<Rightarrow> 's"
  swd_seq_in_parity :: "'s \<Rightarrow> 's option"

record adiv5_access_port =
  apsel :: u8
  idr :: u32
  ap_base :: u32
  csw :: u32
  ap_cortexm_demcr :: u32

abbreviation (input) SWDP_ACK_NO_RESPONSE :: u8 where "SWDP_ACK_NO_RESPONSE \<equiv> 7"

definition adiv5_dp_write :: "'s dp_ops \<Rightarrow> u16 \<Rightarrow> u32 \<Rightarrow> 's \<Rightarrow> 's option" where
  "adiv5_dp_write ops addr val s = do { (_, s) \<leftarrow> dp_low_access ops ADIV5_LOW_WRITE addr val s; Some s }"

definition adiv5_dp_recoverable_access ::
  "'s dp_ops \<Rightarrow> u8 \<Rightarrow> u16 \<Rightarrow> u32 \<Rightarrow> 's \<Rightarrow> (u32 \<times> 's) option" where
  "adiv5_dp_recoverable_access ops rnw addr val s =
     do { (res, s) \<leftarrow> dp_low_access ops rnw addr val s;
          if dp_fault_of ops s = SWDP_ACK_NO_RESPONSE then
            do { s \<leftarrow> swd_seq_in_parity ops s;
                 (_, s) \<leftarrow> dp_error ops True s;
                 dp_low_access ops rnw addr val s }
          else Some (res, s) }"

definition ap_select_word :: "adiv5_access_port \<Rightarrow> u16 \<Rightarrow> u32" where
  "ap_select_word ap addr = push_bit 24 (ucast (apsel ap)) OR ucast (addr AND 0xf0)"

definition firmware_ap_write :: "'s dp_ops \<Rightarrow> adiv5_access_port \<Rightarrow> u16 \<Rightarrow> u32 \<Rightarrow> 's \<Rightarrow> 's option" where
  "firmware_ap_write ops ap addr val s =
     do { (_, s) \<leftarrow> adiv5_dp_recoverable_access ops ADIV5_LOW_WRITE ADIV5_DP_SELECT (ap_select_word ap addr) s;
          adiv5_dp_write ops addr val s }"

definition firmware_ap_read :: "'s dp_ops \<Rightarrow> adiv5_access_port \<Rightarrow> u16 \<Rightarrow> 's \<Rightarrow> (u32 \<times> 's) option" where
  "firmware_ap_read ops ap addr s =
     do { (_, s) \<leftarrow> adiv5_dp_recoverable_access ops ADIV5_LOW_WRITE ADIV5_DP_SELECT (ap_select_word ap addr) s;
          dp_read ops addr s }"

definition ap_mem_access_setup :: "'s dp_ops \<Rightarrow> adiv5_access_port \<Rightarrow> u32 \<Rightarrow> align_e \<Rightarrow> 's \<Rightarrow> 's option" where
  "ap_mem_access_setup ops ap addr align s =
     (let c = csw ap OR ADIV5_AP_CSW_ADDRINC_SINGLE;
          c = (case align of
                 ALIGN_8BIT \<Rightarrow> c OR ADIV5_AP_CSW_SIZE_BYTE
               | ALIGN_16BIT \<Rightarrow> c OR ADIV5_AP_CSW_SIZE_HALFWORD
               | ALIGN_64BIT \<Rightarrow> c OR ADIV5_AP_CSW_SIZE_WORD
               | ALIGN_32BIT \<Rightarrow> c OR ADIV5_AP_CSW_SIZE_WORD)
      in do { s \<leftarrow> firmware_ap_write ops ap ADIV5_AP_CSW c s;
              adiv5_dp_write ops ADIV5_AP_TAR addr s })"

text \<open>Lane unpacking returns the bytes written to the destination buffer. The C code then advances
  the pointer by 1 << align; the read and write loops only use alignments below 64 bits, where that
  is the number of bytes copied.\<close>

definition adiv5_unpack_data :: "u32 \<Rightarrow> u32 \<Rightarrow> align_e \<Rightarrow> byte list" where
  "adiv5_unpack_data src dat align =
     (case align of
        ALIGN_8BIT \<Rightarrow> [ucast (drop_bit (unat (8 * (src AND 3))) dat AND 0xff)]
      | ALIGN_16BIT \<Rightarrow> bytes_of_u16 (ucast (drop_bit (unat (8 * (src AND 2))) dat AND 0xffff))
      | ALIGN_64BIT \<Rightarrow> bytes_of_u32 dat
      | ALIGN_32BIT \<Rightarrow> bytes_of_u32 dat)"

text \<open>Lane packing takes the bytes from the source buffer; None when the buffer is too short.\<close>

definition adiv5_pack_data :: "u32 \<Rightarrow> byte list \<Rightarrow> align_e \<Rightarrow> u32 option" where
  "adiv5_pack_data dest src align =
     (case align of
        ALIGN_8BIT \<Rightarrow>
          (if length src < 1 then None
           else Some (push_bit (unat (8 * (dest AND 3))) (ucast (src ! 0))))
      | ALIGN_16BIT \<Rightarrow>
          (if length src < 2 then None
           else Some (push_bit (unat (8 * (dest AND 2))) (ucast (u16_of_bytes (take 2 src)))))
      | _ \<Rightarrow>
          (if length src < 4 then None else Some (u32_of_bytes (take 4 src))))"

text \<open>The read loop: n more words after the one already posted.\<close>

primrec mem_read_loop ::
  "'s dp_ops \<Rightarrow> align_e \<Rightarrow> nat \<Rightarrow> u32 \<Rightarrow> u32 \<Rightarrow> byte list \<Rightarrow> 's \<Rightarrow> (byte list \<times> u32 \<times> 's) option" where
  "mem_read_loop ops align 0 src osrc acc s = Some (acc, src, s)"
| "mem_read_loop ops align (Suc n) src osrc acc s =
     do { (val, s) \<leftarrow> dp_low_access ops ADIV5_LOW_READ ADIV5_AP_DRW 0 s;
          let acc = acc @ adiv5_unpack_data src val align;
          let src = src + push_bit (align_val align) 1;
          if (src XOR osrc) AND 0xfffffc00 \<noteq> 0 then
            do { (_, s) \<leftarrow> dp_low_access ops ADIV5_LOW_WRITE ADIV5_AP_TAR src s;
                 (_, s) \<leftarrow> dp_low_access ops ADIV5_LOW_READ ADIV5_AP_DRW 0 s;
                 mem_read_loop ops align n src src acc s }
          else mem_read_loop ops align n src osrc acc s }"

definition advi5_mem_read_bytes ::
  "'s dp_ops \<Rightarrow> adiv5_access_port \<Rightarrow> u32 \<Rightarrow> nat \<Rightarrow> 's \<Rightarrow> (byte list \<times> 's) option" where
  "advi5_mem_read_bytes ops ap src len s =
     (let align = MIN_ALIGN src (of_nat len)
      in if len = 0 then Some ([], s)
         else
           (let n = len div 2 ^ align_val align
            in do { s \<leftarrow> ap_mem_access_setup ops ap src align s;
                    (_, s) \<leftarrow> dp_low_access ops ADIV5_LOW_READ ADIV5_AP_DRW 0 s;
                    (acc, src', s) \<leftarrow> mem_read_loop ops align (n - 1) src src [] s;
                    (val, s) \<leftarrow> dp_low_access ops ADIV5_LOW_READ ADIV5_DP_RDBUFF 0 s;
                    Some (acc @ adiv5_unpack_data src' val align, s) }))"

primrec mem_write_loop ::
  "'s dp_ops \<Rightarrow> align_e \<Rightarrow> nat \<Rightarrow> u32 \<Rightarrow> u32 \<Rightarrow> byte list \<Rightarrow> 's \<Rightarrow> 's option" where
  "mem_write_loop ops align 0 dest odest src s = Some s"
| "mem_write_loop ops align (Suc n) dest odest src s =
     do { val \<leftarrow> adiv5_pack_data dest src align;
          let src = drop (2 ^ align_val align) src;
          (_, s) \<leftarrow> dp_low_access ops ADIV5_LOW_WRITE ADIV5_AP_DRW val s;
          let dest = dest + push_bit (align_val align) 1;
          if (dest XOR odest) AND 0xfffffc00 \<noteq> 0 then
            do { (_, s) \<leftarrow> dp_low_access ops ADIV5_LOW_WRITE ADIV5_AP_TAR dest s;
                 mem_write_loop ops align n dest dest src s }
          else mem_write_loop ops align n dest odest src s }"

definition adiv5_mem_write_bytes ::
  "'s dp_ops \<Rightarrow> adiv5_access_port \<Rightarrow> u32 \<Rightarrow> byte list \<Rightarrow> nat \<Rightarrow> align_e \<Rightarrow> 's \<Rightarrow> 's option" where
  "adiv5_mem_write_bytes ops ap dest src len align s =
     do { s \<leftarrow> ap_mem_access_setup ops ap dest align s;
          s \<leftarrow> mem_write_loop ops align (len div 2 ^ align_val align) dest dest src s;
          (_, s) \<leftarrow> dp_read ops ADIV5_DP_RDBUFF s;
          Some s }"

definition adiv5_mem_write ::
  "'s dp_ops \<Rightarrow> adiv5_access_port \<Rightarrow> u32 \<Rightarrow> byte list \<Rightarrow> nat \<Rightarrow> 's \<Rightarrow> 's option" where
  "adiv5_mem_write ops ap dest src len s =
     adiv5_mem_write_bytes ops ap dest src len (MIN_ALIGN dest (of_nat len)) s"

subsection \<open>Identification registers and access port discovery\<close>

definition adiv5_mem_read32 :: "'s dp_ops \<Rightarrow> adiv5_access_port \<Rightarrow> u32 \<Rightarrow> 's \<Rightarrow> (u32 \<times> 's) option" where
  "adiv5_mem_read32 ops ap addr s =
     do { (bs, s) \<leftarrow> advi5_mem_read_bytes ops ap addr 4 s; Some (u32_of_bytes bs, s) }"

abbreviation (input) PIDR0_OFFSET :: u32 where "PIDR0_OFFSET \<equiv> 0xfe0"
abbreviation (input) PIDR4_OFFSET :: u32 where "PIDR4_OFFSET \<equiv> 0xfd0"
abbreviation (input) CIDR0_OFFSET :: u32 where "CIDR0_OFFSET \<equiv> 0xff0"

text \<open>The four ID bytes: one byte of each of four consecutive words.\<close>

definition id_of_data :: "byte list \<Rightarrow> u32" where
  "id_of_data dat =
     fold (\<lambda>i res. res OR push_bit (i * 8) (ucast (dat ! (4 * i)))) [0..<4] 0"

definition adiv5_ap_read_id :: "'s dp_ops \<Rightarrow> adiv5_access_port \<Rightarrow> u32 \<Rightarrow> 's \<Rightarrow> (u32 \<times> 's) option" where
  "adiv5_ap_read_id ops ap addr s =
     do { (dat, s) \<leftarrow> advi5_mem_read_bytes ops ap addr 16 s; Some (id_of_data dat, s) }"

definition adiv5_ap_read_pidr :: "'s dp_ops \<Rightarrow> adiv5_access_port \<Rightarrow> u32 \<Rightarrow> 's \<Rightarrow> (u64 \<times> 's) option" where
  "adiv5_ap_read_pidr ops ap addr s =
     do { (hi, s) \<leftarrow> adiv5_ap_read_id ops ap (addr + PIDR4_OFFSET) s;
          (lo, s) \<leftarrow> adiv5_ap_read_id ops ap (addr + PIDR0_OFFSET) s;
          Some (push_bit 32 (ucast hi) OR ucast lo, s) }"

abbreviation (input) ADIV5_AP_CSW_HNOSEC :: u32 where "ADIV5_AP_CSW_HNOSEC \<equiv> 0x40000000"
abbreviation (input) ADIV5_AP_CSW_MTE :: u32 where "ADIV5_AP_CSW_MTE \<equiv> 0x8000"
abbreviation (input) ADIV5_AP_CSW_TRINPROG :: u32 where "ADIV5_AP_CSW_TRINPROG \<equiv> 0x80"

text \<open>The reference counts are kept by the discovery (Adiv5_Discover); heap says
  whether malloc succeeds. The build has ENABLE_DEBUG = 1, so the configuration register is read.\<close>

definition adiv5_new_ap ::
  "'s dp_ops \<Rightarrow> u8 \<Rightarrow> bool \<Rightarrow> 's \<Rightarrow> (adiv5_access_port option \<times> 's) option" where
  "adiv5_new_ap ops sel heap s =
     (let tmpap = \<lparr>apsel = sel, idr = 0, ap_base = 0, csw = 0, ap_cortexm_demcr = 0\<rparr>
      in do { (v, s) \<leftarrow> firmware_ap_read ops tmpap ADIV5_AP_IDR s;
              let tmpap = tmpap\<lparr>idr := v\<rparr>;
              (v, s) \<leftarrow> firmware_ap_read ops tmpap ADIV5_AP_BASE s;
              let tmpap = tmpap\<lparr>ap_base := v\<rparr>;
              if ap_base tmpap = 0xffffffff then Some (None, s)
              else if idr tmpap = 0 then Some (None, s)
              else do {
                (v, s) \<leftarrow> firmware_ap_read ops tmpap ADIV5_AP_CSW s;
                let tmpap = tmpap\<lparr>csw := v\<rparr>;
                let tmpap = tmpap\<lparr>csw := csw tmpap AND
                  NOT (ADIV5_AP_CSW_SIZE_MASK OR ADIV5_AP_CSW_ADDRINC_MASK OR ADIV5_AP_CSW_MTE OR ADIV5_AP_CSW_HNOSEC)\<rparr>;
                let tmpap = tmpap\<lparr>csw := csw tmpap OR ADIV5_AP_CSW_DBGSWENABLE\<rparr>;
                if csw tmpap AND ADIV5_AP_CSW_TRINPROG \<noteq> 0 then Some (None, s)
                else if \<not> heap then Some (None, s)
                else do { (_, s) \<leftarrow> firmware_ap_read ops tmpap ADIV5_AP_CFG s; Some (Some tmpap, s) } } })"

subsection \<open>Lanes and the 1 KiB window\<close>

definition acc_size :: "align_e \<Rightarrow> u32" where
  "acc_size al = (case al of ALIGN_8BIT \<Rightarrow> 1 | ALIGN_16BIT \<Rightarrow> 2 | _ \<Rightarrow> 4)"

definition word_bytes :: "u32 \<Rightarrow> u32 \<Rightarrow> byte list" where
  "word_bytes sz v = take (unat sz) (bytes_of_u32 v)"

definition tar_next :: "u32 \<Rightarrow> u32 \<Rightarrow> u32" where
  "tar_next t sz = (t AND NOT 0x3FF) OR ((t + sz) AND 0x3FF)"

lemma lane_shift_cases:
  "lane_shift a 4 = 0" "lane_shift a 2 = 8 * unat (a AND 2)" "lane_shift a 1 = 8 * unat (a AND 3)"
proof -
  have le: "unat (a AND m) \<le> unat m" for m by (simp add: word_and_le1 word_le_nat_alt [symmetric])
  show "lane_shift a 4 = 0" by (simp add: lane_shift_def)
  show "lane_shift a 2 = 8 * unat (a AND 2)" using le [of 2] by (simp add: lane_shift_def unat_word_ariths)
  show "lane_shift a 1 = 8 * unat (a AND 3)" using le [of 3] by (simp add: lane_shift_def unat_word_ariths)
qed

lemma unat_mul8_and: "unat (8 * (a AND 3) :: u32) = 8 * unat (a AND 3)" "unat (8 * (a AND 2) :: u32) = 8 * unat (a AND 2)"
  using lane_shift_cases by (simp_all add: lane_shift_def)

lemma and_bound: "unat ((a::u32) AND 3) \<le> 3" "unat ((a::u32) AND 2) \<le> 2"
  using word_and_le1 [of a 3] word_and_le1 [of a 2] by (simp_all add: word_le_nat_alt)

lemma and_ff [simp]: "(x::u32) AND 0xff = take_bit 8 x" "(x::u32) AND 0xffff = take_bit 16 x"
  by (simp_all add: take_bit_eq_mask mask_eq_exp_minus_1)

lemma and_ffffffff [simp]: "(x::u32) AND 0xffffffff = x"
proof -
  have "(0xffffffff::u32) = - 1" by simp
  then show ?thesis by (simp only: and.right_neutral)
qed

lemma drop_push_lane:
  "sh + k \<le> 32 \<Longrightarrow> take_bit k (drop_bit sh (push_bit sh (v::u32))) = take_bit k v"
  by (rule bit_word_eqI) (auto simp: bit_simps)

lemma take_bit_ucast_id: "LENGTH('a) \<le> k \<Longrightarrow> take_bit k (ucast (b :: 'a::len word) :: u32) = ucast b"
  by (rule bit_word_eqI) (auto simp: bit_simps dest: bit_imp_le_length)

lemma ucast_take_bit_id: "LENGTH('a) \<le> k \<Longrightarrow> (ucast (take_bit k (v::u32)) :: 'a::len word) = ucast v"
  by (rule bit_word_eqI) (auto simp: bit_simps)

lemma bytes_of_u16_ucast: "bytes_of_u16 (ucast (v::u32)) = take 2 (bytes_of_u32 v)"
  by (auto simp: bytes_of_u16_def bytes_of_u32_def bit_simps intro!: bit_word_eqI)

lemma ucast_u16_of_bytes: "(ucast (u16_of_bytes [b, c]) :: u32) = u32_of_bytes [b, c]"
  unfolding u16_of_bytes_def
  by (rule bit_word_eqI) (auto simp: bit_simps dest: bit_imp_le_length)

lemma unpack_lane:
  assumes "al \<noteq> ALIGN_64BIT"
  shows "adiv5_unpack_data a (push_bit (lane_shift a (acc_size al)) v) al = word_bytes (acc_size al) v"
proof (cases al)
  case ALIGN_8BIT
  with drop_push_lane [of "8 * unat (a AND 3)" 8 v] and_bound [of a] show ?thesis
    by (simp add: adiv5_unpack_data_def acc_size_def word_bytes_def lane_shift_cases unat_mul8_and
        bytes_of_u32_def ucast_take_bit_id)
next
  case ALIGN_16BIT
  with drop_push_lane [of "8 * unat (a AND 2)" 16 v] and_bound [of a] show ?thesis
    by (simp add: adiv5_unpack_data_def acc_size_def word_bytes_def lane_shift_cases unat_mul8_and
        bytes_of_u16_ucast ucast_take_bit_id)
qed (use assms in \<open>simp_all add: adiv5_unpack_data_def acc_size_def word_bytes_def lane_shift_cases\<close>)

lemma pack_lane:
  assumes "al \<noteq> ALIGN_64BIT" "unat (acc_size al) \<le> length src"
  obtains v where "adiv5_pack_data a src al = Some v"
    and "drop_bit (lane_shift a (acc_size al)) v AND size_mask (acc_size al) =
         u32_of_bytes (take (unat (acc_size al)) src)"
proof (cases al)
  case ALIGN_8BIT
  with assms obtain b bs where "src = b # bs" by (cases src) (auto simp: acc_size_def)
  with ALIGN_8BIT drop_push_lane [of "8 * unat (a AND 3)" 8 "ucast b"] and_bound [of a] show ?thesis
    by (intro that) (auto simp: adiv5_pack_data_def acc_size_def lane_shift_cases unat_mul8_and take_bit_ucast_id)
next
  case ALIGN_16BIT
  with assms obtain b c bs where "src = b # c # bs" by (cases src; cases "tl src") (auto simp: acc_size_def)
  moreover have "take_bit 16 (u32_of_bytes [b, c]) = u32_of_bytes [b, c]"
    using take_bit_u32_of_bytes [of "[b, c]"] by simp
  ultimately show ?thesis
    using ALIGN_16BIT drop_push_lane [of "8 * unat (a AND 2)" 16 "u32_of_bytes [b, c]"] and_bound [of a]
    by (intro that) (auto simp: adiv5_pack_data_def acc_size_def lane_shift_cases unat_mul8_and
        ucast_u16_of_bytes simp del: u32_of_bytes.simps)
next
  case ALIGN_32BIT
  with assms show ?thesis
    by (intro that) (auto simp: adiv5_pack_data_def acc_size_def lane_shift_cases)
qed (use assms in simp)

lemma tar_next_same_page:
  assumes "((t + sz) XOR t) AND 0xfffffc00 = 0"
  shows "tar_next t sz = t + sz"
proof -
  have m: "(0xfffffc00 :: u32) = NOT 0x3FF" by simp
  have "bit (t + sz) n = bit t n" if "\<not> bit (0x3FF :: u32) n" "n < 32" for n
  proof -
    have "bit (((t + sz) XOR t) AND NOT 0x3FF) n = bit (0::u32) n" using assms unfolding m by simp
    then show ?thesis using that by (simp add: bit_simps)
  qed
  then show ?thesis
    unfolding tar_next_def by (intro bit_word_eqI) (auto simp: bit_simps)
qed

subsection \<open>Memory through an access port\<close>

definition csw_for :: "adiv5_access_port \<Rightarrow> align_e \<Rightarrow> u32" where
  "csw_for ap al = (csw ap OR ADIV5_AP_CSW_ADDRINC_SINGLE) OR (case al of ALIGN_8BIT \<Rightarrow> 0 | ALIGN_16BIT \<Rightarrow> 1 | _ \<Rightarrow> 2)"

lemma access_setup_csw:
  "ap_mem_access_setup ops ap a al s =
     do { s \<leftarrow> firmware_ap_write ops ap ADIV5_AP_CSW (csw_for ap al) s; adiv5_dp_write ops ADIV5_AP_TAR a s }"
  by (cases al) (simp_all add: ap_mem_access_setup_def csw_for_def Let_def)

lemma acc_size_cases [simp]: "al \<noteq> ALIGN_64BIT \<Longrightarrow> 2 ^ align_val al = acc_size al"
    "al \<noteq> ALIGN_64BIT \<Longrightarrow> 2 ^ align_val al = unat (acc_size al)"
  by (cases al; simp add: acc_size_def)+

lemma acc_size_in: "acc_size al \<in> {1, 2, 4}"
  by (cases al) (simp_all add: acc_size_def)

lemma mem_access_bits: "mem_access a (acc_size al) \<longleftrightarrow> take_bit (case al of ALIGN_8BIT \<Rightarrow> 0 | ALIGN_16BIT \<Rightarrow> 1 | _ \<Rightarrow> 2) a = 0"
proof -
  have *: "take_bit k a = 0 \<longleftrightarrow> unat a mod 2 ^ k = 0" for k
    using unat_eq_zero [of "take_bit k a"] by (simp only: unsigned_take_bit_eq take_bit_eq_mod [of k "unat a"])
  show ?thesis unfolding * by (cases al) (simp_all add: mem_access_def acc_size_def)
qed

lemma mem_access_add: "mem_access a (acc_size al) \<Longrightarrow> mem_access (a + acc_size al) (acc_size al)"
  by (cases al) (simp_all add: mem_access_def acc_size_def unat_word_ariths mod_mod_cancel)

lemma take_bit_tar_next: "k \<le> 10 \<Longrightarrow> take_bit k (tar_next a sz) = take_bit k (a + sz)"
proof -
  assume k: "k \<le> 10"
  have m: "(0x3FF :: u32) = mask 10" by (simp add: mask_eq_exp_minus_1)
  show ?thesis
    unfolding tar_next_def m by (rule bit_word_eqI) (use k in \<open>auto simp: bit_simps\<close>)
qed

lemma mem_access_tar_next:
  "mem_access a (acc_size al) \<Longrightarrow> mem_access (tar_next a (acc_size al)) (acc_size al)"
  using mem_access_add [of a al] unfolding mem_access_bits
  by (subst take_bit_tar_next) (auto split: align_e.splits)

definition read_chunks :: "(u32 \<Rightarrow> u32 \<Rightarrow> 'm \<Rightarrow> u32 option) \<Rightarrow> 'm \<Rightarrow> u32 \<Rightarrow> u32 \<Rightarrow> nat \<Rightarrow> byte list" where
  "read_chunks load m sz a n = concat (map (\<lambda>i. word_bytes sz (the (load (a + of_nat i * sz) sz m))) [0..<n])"

primrec store_chunks ::
  "(u32 \<Rightarrow> u32 \<Rightarrow> u32 \<Rightarrow> 'm \<Rightarrow> 'm option) \<Rightarrow> u32 \<Rightarrow> nat \<Rightarrow> u32 \<Rightarrow> byte list \<Rightarrow> 'm \<Rightarrow> 'm option" where
  "store_chunks store sz 0 a bs m = Some m"
| "store_chunks store sz (Suc n) a bs m =
     do { m \<leftarrow> store a (u32_of_bytes (take (unat sz) bs)) sz m;
          store_chunks store sz n (a + sz) (drop (unat sz) bs) m }"

lemma same_page_trans:
  "(x XOR o') AND m = 0 \<Longrightarrow> (y XOR o') AND m = 0 \<Longrightarrow> (x XOR y) AND m = (0::u32)"
  by (simp add: bit_eq_iff bit_simps) blast

lemma read_chunks_Suc:
  "read_chunks load m sz a (Suc n) = word_bytes sz (the (load a sz m)) @ read_chunks load m sz (a + sz) n"
proof -
  have "map (\<lambda>i. word_bytes sz (the (load (a + of_nat i * sz) sz m))) [0..<Suc n] =
    word_bytes sz (the (load a sz m)) # map (\<lambda>i. word_bytes sz (the (load (a + sz + of_nat i * sz) sz m))) [0..<n]"
    unfolding map_upt_Suc by (simp add: algebra_simps)
  then show ?thesis by (simp add: read_chunks_def del: upt_Suc)
qed

lemma read_chunks_0 [simp]: "read_chunks load m sz a 0 = []"
  by (simp add: read_chunks_def)

lemma ALIGN_OF_access: "mem_access a (acc_size (ALIGN_OF a))" "ALIGN_OF a \<noteq> ALIGN_64BIT"
proof -
  have "a AND 3 = take_bit 2 a" "a AND 1 = take_bit 1 a" by (simp_all add: take_bit_eq_mask mask_eq_exp_minus_1)
  then show "mem_access a (acc_size (ALIGN_OF a))" unfolding mem_access_bits by (simp add: ALIGN_OF_def)
qed (simp add: ALIGN_OF_def)

lemma mem_access_mono:
  "mem_access a (acc_size al) \<Longrightarrow> align_val al' \<le> align_val al \<Longrightarrow> mem_access a (acc_size al')"
  by (cases al; cases al'; simp add: mem_access_def acc_size_def; presburger)

lemma MIN_ALIGN_access:
  "mem_access x (acc_size (MIN_ALIGN x y))" "mem_access y (acc_size (MIN_ALIGN x y))" "MIN_ALIGN x y \<noteq> ALIGN_64BIT"
  using ALIGN_OF_access mem_access_mono [OF ALIGN_OF_access(1) [of x]] mem_access_mono [OF ALIGN_OF_access(1) [of y]]
  by (auto simp: MIN_ALIGN_def)

lemma MIN_ALIGN_len:
  assumes "len < 2 ^ 32"
  shows "len mod unat (acc_size (MIN_ALIGN a (of_nat len))) = 0"
  using MIN_ALIGN_access(2) [of "of_nat len" a] assms by (simp add: mem_access_def unat_of_nat)

locale mem_ap =
  fixes ops :: "'s dp_ops"
    and ap :: adiv5_access_port
    and ok :: "'s \<Rightarrow> bool"
    and sel :: "'s \<Rightarrow> bool"
    and tar_of :: "'s \<Rightarrow> u32"
    and csw_of :: "'s \<Rightarrow> u32"
    and posted_of :: "'s \<Rightarrow> u32"
    and mem_of :: "'s \<Rightarrow> 'm"
    and load :: "u32 \<Rightarrow> u32 \<Rightarrow> 'm \<Rightarrow> u32 option"
    and store :: "u32 \<Rightarrow> u32 \<Rightarrow> u32 \<Rightarrow> 'm \<Rightarrow> 'm option"
  assumes sel_ok: "sel s \<Longrightarrow> ok s"
    and no_fault: "ok s \<Longrightarrow> dp_fault_of ops s \<noteq> SWDP_ACK_NO_RESPONSE"
    and select: "ok s \<Longrightarrow> \<exists>x s'. dp_low_access ops ADIV5_LOW_WRITE ADIV5_DP_SELECT (ap_select_word ap ADIV5_AP_CSW) s = Some (x, s') \<and>
        sel s' \<and> mem_of s' = mem_of s"
    and write_csw: "sel s \<Longrightarrow> \<exists>x s'. dp_low_access ops ADIV5_LOW_WRITE ADIV5_AP_CSW v s = Some (x, s') \<and>
        sel s' \<and> csw_of s' = v \<and> mem_of s' = mem_of s"
    and write_tar: "sel s \<Longrightarrow> \<exists>x s'. dp_low_access ops ADIV5_LOW_WRITE ADIV5_AP_TAR v s = Some (x, s') \<and>
        sel s' \<and> tar_of s' = v \<and> csw_of s' = csw_of s \<and> mem_of s' = mem_of s"
    and read_drw: "sel s \<Longrightarrow> al \<noteq> ALIGN_64BIT \<Longrightarrow> csw_of s = csw_for ap al \<Longrightarrow>
        load (tar_of s) (acc_size al) (mem_of s) = Some v \<Longrightarrow>
        \<exists>s'. dp_low_access ops ADIV5_LOW_READ ADIV5_AP_DRW 0 s = Some (posted_of s, s') \<and>
          sel s' \<and> csw_of s' = csw_of s \<and> mem_of s' = mem_of s \<and>
          posted_of s' = push_bit (lane_shift (tar_of s) (acc_size al)) v \<and>
          tar_of s' = tar_next (tar_of s) (acc_size al)"
    and write_drw: "sel s \<Longrightarrow> al \<noteq> ALIGN_64BIT \<Longrightarrow> csw_of s = csw_for ap al \<Longrightarrow>
        store (tar_of s) (drop_bit (lane_shift (tar_of s) (acc_size al)) v AND size_mask (acc_size al))
          (acc_size al) (mem_of s) = Some m' \<Longrightarrow>
        \<exists>x s'. dp_low_access ops ADIV5_LOW_WRITE ADIV5_AP_DRW v s = Some (x, s') \<and>
          sel s' \<and> csw_of s' = csw_of s \<and> mem_of s' = m' \<and>
          tar_of s' = tar_next (tar_of s) (acc_size al)"
    and rdbuff: "sel s \<Longrightarrow> \<exists>s'. dp_low_access ops ADIV5_LOW_READ ADIV5_DP_RDBUFF 0 s = Some (posted_of s, s') \<and>
        sel s' \<and> mem_of s' = mem_of s"
    and dp_rdbuff: "sel s \<Longrightarrow> \<exists>x s'. dp_read ops ADIV5_DP_RDBUFF s = Some (x, s') \<and> sel s' \<and> mem_of s' = mem_of s"
    and load_total: "mem_access a sz \<Longrightarrow> \<exists>v. load a sz m = Some v"
begin

lemma access_setup:
  assumes "ok s"
  shows "\<exists>s'. ap_mem_access_setup ops ap a al s = Some s' \<and> sel s' \<and> tar_of s' = a \<and>
    csw_of s' = csw_for ap al \<and> mem_of s' = mem_of s"
proof -
  obtain x1 s1 where 1: "dp_low_access ops ADIV5_LOW_WRITE ADIV5_DP_SELECT (ap_select_word ap ADIV5_AP_CSW) s = Some (x1, s1)"
    "sel s1" "mem_of s1 = mem_of s" using select [OF assms] by blast
  obtain x2 s2 where 2: "dp_low_access ops ADIV5_LOW_WRITE ADIV5_AP_CSW (csw_for ap al) s1 = Some (x2, s2)"
    "sel s2" "csw_of s2 = csw_for ap al" "mem_of s2 = mem_of s" using write_csw [OF 1(2)] 1(3) by metis
  obtain x3 s3 where 3: "dp_low_access ops ADIV5_LOW_WRITE ADIV5_AP_TAR a s2 = Some (x3, s3)"
    "sel s3" "tar_of s3 = a" "csw_of s3 = csw_for ap al" "mem_of s3 = mem_of s" using write_tar [OF 2(2)] 2(3,4) by metis
  have nf: "dp_fault_of ops s1 \<noteq> SWDP_ACK_NO_RESPONSE" using sel_ok [OF 1(2)] by (rule no_fault)
  show ?thesis
    using 1 2 3 nf 
    by (simp add: access_setup_csw firmware_ap_write_def adiv5_dp_recoverable_access_def adiv5_dp_write_def)
qed

definition posted_for :: "align_e \<Rightarrow> u32 \<Rightarrow> 's \<Rightarrow> bool" where
  "posted_for al a s \<longleftrightarrow> sel s \<and> csw_of s = csw_for ap al \<and> tar_of s = tar_next a (acc_size al) \<and>
     posted_of s = push_bit (lane_shift a (acc_size al)) (the (load a (acc_size al) (mem_of s)))"

lemma post_read:
  assumes "sel s" "csw_of s = csw_for ap al" "al \<noteq> ALIGN_64BIT" "mem_access (tar_of s) (acc_size al)"
  shows "\<exists>s'. dp_low_access ops ADIV5_LOW_READ ADIV5_AP_DRW 0 s = Some (posted_of s, s') \<and>
    posted_for al (tar_of s) s' \<and> mem_of s' = mem_of s"
proof -
  obtain v where v: "load (tar_of s) (acc_size al) (mem_of s) = Some v" using load_total [OF assms(4)] by blast
  show ?thesis using read_drw [OF assms(1,3,2) v] assms(2) v by (auto simp: posted_for_def)
qed

lemma read_loop:
  assumes "al \<noteq> ALIGN_64BIT" "posted_for al src s" "mem_access src (acc_size al)"
    and "(src XOR osrc) AND 0xfffffc00 = 0"
  shows "\<exists>s'. mem_read_loop ops al n src osrc acc s =
      Some (acc @ read_chunks load (mem_of s) (acc_size al) src n, src + of_nat n * acc_size al, s') \<and>
    posted_for al (src + of_nat n * acc_size al) s' \<and> mem_of s' = mem_of s"
  using assms(2-)
proof (induction n arbitrary: src osrc acc s)
  case 0
  then show ?case by simp
next
  case (Suc n)
  let ?sz = "acc_size al"
  let ?b = "word_bytes ?sz (the (load src ?sz (mem_of s)))"
  have p: "sel s" "csw_of s = csw_for ap al" "tar_of s = tar_next src ?sz"
    "posted_of s = push_bit (lane_shift src ?sz) (the (load src ?sz (mem_of s)))"
    using Suc.prems(1) by (auto simp: posted_for_def)
  have acc1: "mem_access (src + ?sz) ?sz" using mem_access_add Suc.prems(2) .
  obtain s1 where s1: "dp_low_access ops ADIV5_LOW_READ ADIV5_AP_DRW 0 s = Some (posted_of s, s1)"
    "posted_for al (tar_next src ?sz) s1" "mem_of s1 = mem_of s"
    using post_read [OF p(1,2) assms(1)] mem_access_tar_next [OF Suc.prems(2)] p(3) by auto
  have unp: "adiv5_unpack_data src (posted_of s) al = ?b" unfolding p(4) by (rule unpack_lane [OF assms(1)])
  show ?case
  proof (cases "(src + ?sz XOR osrc) AND 0xfffffc00 = 0")
    case True
    have "tar_next src ?sz = src + ?sz"
      by (rule tar_next_same_page) (rule same_page_trans [OF True Suc.prems(3)])
    with s1 obtain s2 where "mem_read_loop ops al n (src + ?sz) osrc (acc @ ?b) s1 =
        Some ((acc @ ?b) @ read_chunks load (mem_of s) ?sz (src + ?sz) n, src + ?sz + of_nat n * ?sz, s2)"
      "posted_for al (src + ?sz + of_nat n * ?sz) s2" "mem_of s2 = mem_of s"
      using Suc.IH [of "src + ?sz" s1 osrc "acc @ ?b"] acc1 True by auto
    then show ?thesis
      using True s1(1) unp assms(1) by (simp add: read_chunks_Suc distrib_right add.assoc Let_def)
  next
    case False
    have q1: "sel s1" "csw_of s1 = csw_for ap al" using s1(2) by (auto simp: posted_for_def)
    obtain x2 s2 where s2: "dp_low_access ops ADIV5_LOW_WRITE ADIV5_AP_TAR (src + ?sz) s1 = Some (x2, s2)"
      "sel s2" "tar_of s2 = src + ?sz" "csw_of s2 = csw_for ap al" "mem_of s2 = mem_of s"
      using write_tar [OF q1(1), of "src + ?sz"] q1(2) s1(3) by auto
    obtain s3 where s3: "dp_low_access ops ADIV5_LOW_READ ADIV5_AP_DRW 0 s2 = Some (posted_of s2, s3)"
      "posted_for al (src + ?sz) s3" "mem_of s3 = mem_of s"
      using post_read [OF s2(2,4) assms(1)] acc1 s2(3,5) by auto
    obtain s4 where "mem_read_loop ops al n (src + ?sz) (src + ?sz) (acc @ ?b) s3 =
        Some ((acc @ ?b) @ read_chunks load (mem_of s) ?sz (src + ?sz) n, src + ?sz + of_nat n * ?sz, s4)"
      "posted_for al (src + ?sz + of_nat n * ?sz) s4" "mem_of s4 = mem_of s"
      using Suc.IH [OF s3(2) acc1, of "src + ?sz" "acc @ ?b"] s3(3) by auto
    then show ?thesis
      using False s1(1) s2(1) s3(1) unp assms(1) by (simp add: read_chunks_Suc distrib_right add.assoc Let_def)
  qed
qed

lemma block_read:
  assumes "ok s" "len < 2 ^ 32" and al_def: "al = MIN_ALIGN src (of_nat len)"
  shows "\<exists>s'. advi5_mem_read_bytes ops ap src len s =
      Some (read_chunks load (mem_of s) (acc_size al) src (len div unat (acc_size al)), s') \<and>
    ok s' \<and> mem_of s' = mem_of s"
proof (cases "len = 0")
  case True
  then show ?thesis using assms(1) by (simp add: advi5_mem_read_bytes_def)
next
  case False
  let ?sz = "acc_size al"
  have al: "al \<noteq> ALIGN_64BIT" "mem_access src ?sz" using MIN_ALIGN_access by (simp_all add: al_def)
  have "len mod unat ?sz = 0" unfolding al_def by (rule MIN_ALIGN_len [OF assms(2)])
  with False obtain n where n: "len div unat ?sz = Suc n"
    by (metis div_mult_mod_eq add_0_right mult_0 not0_implies_Suc)
  obtain s1 where s1: "ap_mem_access_setup ops ap src al s = Some s1" "sel s1" "tar_of s1 = src"
    "csw_of s1 = csw_for ap al" "mem_of s1 = mem_of s" using access_setup [OF assms(1)] by blast
  obtain s2 where s2: "dp_low_access ops ADIV5_LOW_READ ADIV5_AP_DRW 0 s1 = Some (posted_of s1, s2)"
    "posted_for al src s2" "mem_of s2 = mem_of s"
    using post_read [OF s1(2,4) al(1)] al(2) s1(3,5) by auto
  obtain s3 where s3: "mem_read_loop ops al n src src [] s2 =
      Some (read_chunks load (mem_of s) ?sz src n, src + of_nat n * ?sz, s3)"
    "posted_for al (src + of_nat n * ?sz) s3" "mem_of s3 = mem_of s"
    using read_loop [OF al(1) s2(2) al(2), of src n "[]"] s2(3) by auto
  obtain s4 where s4: "dp_low_access ops ADIV5_LOW_READ ADIV5_DP_RDBUFF 0 s3 = Some (posted_of s3, s4)"
    "sel s4" "mem_of s4 = mem_of s" using rdbuff [of s3] s3(2,3) by (auto simp: posted_for_def)
  have "adiv5_unpack_data (src + of_nat n * ?sz) (posted_of s3) al =
      word_bytes ?sz (the (load (src + of_nat n * ?sz) ?sz (mem_of s)))"
    using s3(2,3) unpack_lane [OF al(1)] by (simp add: posted_for_def)
  moreover have "read_chunks load (mem_of s) ?sz src (Suc n) =
      read_chunks load (mem_of s) ?sz src n @ word_bytes ?sz (the (load (src + of_nat n * ?sz) ?sz (mem_of s)))"
    by (simp add: read_chunks_def)
  ultimately show ?thesis
    using False s1(1) s2(1) s3(1) s4 sel_ok al(1) n
    by (simp add: advi5_mem_read_bytes_def al_def [symmetric] Let_def)
qed

lemma write_loop:
  assumes "al \<noteq> ALIGN_64BIT" "sel s" "csw_of s = csw_for ap al" "tar_of s = dest" "(dest XOR odest) AND 0xfffffc00 = 0"
    and "n * unat (acc_size al) \<le> length src" "store_chunks store (acc_size al) n dest src (mem_of s) = Some m'"
  shows "\<exists>s'. mem_write_loop ops al n dest odest src s = Some s' \<and> sel s' \<and> mem_of s' = m'"
  using assms(2-)
proof (induction n arbitrary: dest odest src s)
  case 0
  then show ?case by simp
next
  case (Suc n)
  let ?sz = "acc_size al"
  obtain v where v: "adiv5_pack_data dest src al = Some v"
    "drop_bit (lane_shift dest ?sz) v AND size_mask ?sz = u32_of_bytes (take (unat ?sz) src)"
    using pack_lane [OF assms(1), of src dest] Suc.prems(5) by auto
  obtain m1 where m1: "store dest (u32_of_bytes (take (unat ?sz) src)) ?sz (mem_of s) = Some m1"
    "store_chunks store ?sz n (dest + ?sz) (drop (unat ?sz) src) m1 = Some m'"
    using Suc.prems(6) by (auto simp: bind_eq_Some_conv)
  obtain x1 s1 where s1: "dp_low_access ops ADIV5_LOW_WRITE ADIV5_AP_DRW v s = Some (x1, s1)" "sel s1"
    "csw_of s1 = csw_for ap al" "mem_of s1 = m1" "tar_of s1 = tar_next dest ?sz"
    using write_drw [OF Suc.prems(1) assms(1) Suc.prems(2), of v m1] m1(1) v(2) Suc.prems(2,3) by auto
  have len: "n * unat ?sz \<le> length (drop (unat ?sz) src)" using Suc.prems(5) by simp
  show ?case
  proof (cases "(dest + ?sz XOR odest) AND 0xfffffc00 = 0")
    case True
    have "tar_next dest ?sz = dest + ?sz"
      by (rule tar_next_same_page) (rule same_page_trans [OF True Suc.prems(4)])
    then show ?thesis
      using Suc.IH [OF s1(2,3) _ True len] s1 m1(2) v(1) True assms(1) by (simp add: Let_def)
  next
    case False
    obtain x2 s2 where s2: "dp_low_access ops ADIV5_LOW_WRITE ADIV5_AP_TAR (dest + ?sz) s1 = Some (x2, s2)"
      "sel s2" "tar_of s2 = dest + ?sz" "csw_of s2 = csw_for ap al" "mem_of s2 = m1"
      using write_tar [OF s1(2), of "dest + ?sz"] s1(3,4) by auto
    then show ?thesis
      using Suc.IH [OF s2(2,4,3) _ len, of "dest + ?sz"] s1(1) m1(2) v(1) False assms(1) by (simp add: Let_def)
  qed
qed

lemma block_write_sized:
  assumes "ok s" "len \<le> length src" "al \<noteq> ALIGN_64BIT"
    and "store_chunks store (acc_size al) (len div unat (acc_size al)) dest src (mem_of s) = Some m'"
  shows "\<exists>s'. adiv5_mem_write_bytes ops ap dest src len al s = Some s' \<and> ok s' \<and> mem_of s' = m'"
proof -
  obtain s1 where s1: "ap_mem_access_setup ops ap dest al s = Some s1" "sel s1" "tar_of s1 = dest"
    "csw_of s1 = csw_for ap al" "mem_of s1 = mem_of s" using access_setup [OF assms(1)] by blast
  have "len div unat (acc_size al) * unat (acc_size al) \<le> length src"
    using assms(2) div_times_less_eq_dividend le_trans by blast
  then obtain s2 where s2: "mem_write_loop ops al (len div unat (acc_size al)) dest dest src s1 = Some s2" "sel s2" "mem_of s2 = m'"
    using write_loop [OF assms(3) s1(2,4,3), of dest "len div unat (acc_size al)" src m'] assms(4) s1(5) by auto
  obtain x3 s3 where "dp_read ops ADIV5_DP_RDBUFF s2 = Some (x3, s3)" "sel s3" "mem_of s3 = m'"
    using dp_rdbuff [OF s2(2)] s2(3) by auto
  then show ?thesis
    using s1(1) s2 sel_ok assms(3) by (simp add: adiv5_mem_write_bytes_def)
qed

lemma block_write:
  assumes "ok s" "len \<le> length src" "al = MIN_ALIGN dest (of_nat len)"
    and "store_chunks store (acc_size al) (len div unat (acc_size al)) dest src (mem_of s) = Some m'"
  shows "\<exists>s'. adiv5_mem_write ops ap dest src len s = Some s' \<and> ok s' \<and> mem_of s' = m'"
  using block_write_sized [OF assms(1,2) _ assms(4)] MIN_ALIGN_access(3) assms(3) by (simp add: adiv5_mem_write_def)

end

end
