(* ===== verification/Maths_Utils.thy ===== *)
theory Maths_Utils
  imports Prelude
begin

text \<open>src/maths_utils.c: the bit length ulog2 (the build is GCC, so __builtin_clz; the portable
  fallback is modelled beside it) and the odd parity of a word.\<close>

text \<open>The compiler builtin: the number of leading zero bits of a non-zero 32-bit value.\<close>

fun clz_from :: "nat \<Rightarrow> u32 \<Rightarrow> nat" where
  "clz_from 0 x = 0"
| "clz_from (Suc n) x = (if bit x n then 0 else Suc (clz_from n x))"

definition builtin_clz :: "u32 \<Rightarrow> u8" where
  "builtin_clz x = of_nat (clz_from 32 x)"

definition ulog2 :: "u32 \<Rightarrow> u8" where
  "ulog2 x = (if x = 0 then 0xff else 32 - builtin_clz x)"

definition ulog2_fallback :: "u32 \<Rightarrow> u8" where
  "ulog2_fallback x =
     (if x = 0 then 0xff
      else (let r = 0; v = x;
                (r, v) = (if v \<le> 0x0000ffff then (r + 16, push_bit 16 v) else (r, v));
                (r, v) = (if v \<le> 0x00ffffff then (r + 8, push_bit 8 v) else (r, v));
                (r, v) = (if v \<le> 0x0fffffff then (r + 4, push_bit 4 v) else (r, v));
                (r, v) = (if v \<le> 0x3fffffff then (r + 2, push_bit 2 v) else (r, v));
                r = (if v \<le> 0x7fffffff then r + 1 else r)
            in 8 - r))"

text \<open>The parity of a word: the builtin of the compiler, and the portable loop.\<close>

definition builtin_parity :: "u32 \<Rightarrow> u8" where
  "builtin_parity x = of_bool (odd (length (filter (bit x) [0..<32])))"

definition calculate_odd_parity :: "u32 \<Rightarrow> u8" where
  "calculate_odd_parity x = builtin_parity x"

definition calculate_odd_parity_fallback :: "u32 \<Rightarrow> u8" where
  "calculate_odd_parity_fallback x = fold (\<lambda>i r. r XOR ucast (drop_bit i x AND 1)) [0..<32] 0"

lemma parity_fold:
  "fold (\<lambda>i r. r XOR ucast (drop_bit i (x :: u32) AND 1)) is (of_bool b :: u8) = of_bool (b \<noteq> odd (length (filter (bit x) is)))"
proof (induction "is" arbitrary: b)
  case (Cons i "is")
  have "(ucast (drop_bit i x AND 1) :: u8) = of_bool (bit x i)"
    by (simp add: and_one_eq bit_iff_odd_drop_bit mod_2_eq_odd)
  moreover have "(of_bool b :: u8) XOR of_bool (bit x i) = of_bool (b \<noteq> bit x i)" by auto
  ultimately show ?case using Cons.IH [of "b \<noteq> bit x i"] by auto
qed simp

lemma calculate_odd_parity_same: "calculate_odd_parity_fallback x = calculate_odd_parity x"
  using parity_fold [of x "[0..<32]" False]
  by (simp add: calculate_odd_parity_fallback_def calculate_odd_parity_def builtin_parity_def)

end
