(* ===== verification/Cortexm.thy ===== *)
theory Cortexm
  imports Adiv5 Target Maths_Utils
begin

text \<open>
  The Cortex-M core layer, src/target/cortexm.c with the parts of cortex.c it uses: memory access
  through the access port with data-cache maintenance, core registers through DCRSR/DCRDR and the
  banked data registers, reset, halt and resume, halt diagnosis, and the FPB/DWT breakpoint and
  watchpoint slots. A Cortex-M target is a target record extended with the core's private structure
  (cortexm_priv_s), its access port and the debug port's state.

  The function pointers of target_s form a cycle in C (a reset handler reads memory through
  target->mem_read of the same structure). Here they are layered: cortexm_mem_ops holds the memory
  functions, and every handler is defined over the target_ops it calls through.
\<close>

record 'd cortexm = target +
  cm_ap :: adiv5_access_port
  cm_dp :: 'd
  base_addr :: u32
  icache_line_length :: u16
  dcache_line_length :: u16
  breakpoints_mask :: u8
  watchpoints_mask :: u8
  watchpoints_available :: u8
  breakpoints_available :: u8
  stepping :: bool
  on_bkpt :: bool
  flash_patch_revision :: u32
  priv_demcr :: u32

abbreviation (input) CORTEXM_AIRCR :: u32 where "CORTEXM_AIRCR \<equiv> 0xe000ed0c"
abbreviation (input) CORTEXM_CFSR :: u32 where "CORTEXM_CFSR \<equiv> 0xe000ed28"
abbreviation (input) CORTEXM_HFSR :: u32 where "CORTEXM_HFSR \<equiv> 0xe000ed2c"
abbreviation (input) CORTEXM_DFSR :: u32 where "CORTEXM_DFSR \<equiv> 0xe000ed30"
abbreviation (input) CORTEXM_DHCSR :: u32 where "CORTEXM_DHCSR \<equiv> 0xe000edf0"
abbreviation (input) CORTEXM_DCRSR :: u32 where "CORTEXM_DCRSR \<equiv> 0xe000edf4"
abbreviation (input) CORTEXM_DCRDR :: u32 where "CORTEXM_DCRDR \<equiv> 0xe000edf8"
abbreviation (input) CORTEXM_DEMCR :: u32 where "CORTEXM_DEMCR \<equiv> 0xe000edfc"
abbreviation (input) CORTEXM_ICIALLU :: u32 where "CORTEXM_ICIALLU \<equiv> 0xe000ef50"
abbreviation (input) CORTEXM_DCCMVAC :: u32 where "CORTEXM_DCCMVAC \<equiv> 0xe000ef68"
abbreviation (input) CORTEXM_DCCIMVAC :: u32 where "CORTEXM_DCCIMVAC \<equiv> 0xe000ef70"
abbreviation (input) CORTEXM_FPB_CTRL :: u32 where "CORTEXM_FPB_CTRL \<equiv> 0xe0002000"
abbreviation (input) CORTEXM_DWT_CTRL :: u32 where "CORTEXM_DWT_CTRL \<equiv> 0xe0001000"
abbreviation (input) CORTEXM_AIRCR_VECTKEY :: u32 where "CORTEXM_AIRCR_VECTKEY \<equiv> 0x05fa0000"
abbreviation (input) CORTEXM_AIRCR_SYSRESETREQ :: u32 where "CORTEXM_AIRCR_SYSRESETREQ \<equiv> 4"
abbreviation (input) CORTEXM_AIRCR_VECTCLRACTIVE :: u32 where "CORTEXM_AIRCR_VECTCLRACTIVE \<equiv> 2"
abbreviation (input) CORTEXM_HFSR_FORCED :: u32 where "CORTEXM_HFSR_FORCED \<equiv> 0x40000000"
abbreviation (input) CORTEXM_DFSR_RESETALL :: u32 where "CORTEXM_DFSR_RESETALL \<equiv> 0x1f"
abbreviation (input) CORTEXM_DFSR_VCATCH :: u32 where "CORTEXM_DFSR_VCATCH \<equiv> 8"
abbreviation (input) CORTEXM_DFSR_DWTTRAP :: u32 where "CORTEXM_DFSR_DWTTRAP \<equiv> 4"
abbreviation (input) CORTEXM_DFSR_BKPT :: u32 where "CORTEXM_DFSR_BKPT \<equiv> 2"
abbreviation (input) CORTEXM_DFSR_HALTED :: u32 where "CORTEXM_DFSR_HALTED \<equiv> 1"
abbreviation (input) CORTEXM_DHCSR_DBGKEY :: u32 where "CORTEXM_DHCSR_DBGKEY \<equiv> 0xa05f0000"
abbreviation (input) CORTEXM_DHCSR_S_RESET_ST :: u32 where "CORTEXM_DHCSR_S_RESET_ST \<equiv> 0x02000000"
abbreviation (input) CORTEXM_DHCSR_S_HALT :: u32 where "CORTEXM_DHCSR_S_HALT \<equiv> 0x00020000"
abbreviation (input) CORTEXM_DHCSR_C_MASKINTS :: u32 where "CORTEXM_DHCSR_C_MASKINTS \<equiv> 8"
abbreviation (input) CORTEXM_DHCSR_C_STEP :: u32 where "CORTEXM_DHCSR_C_STEP \<equiv> 4"
abbreviation (input) CORTEXM_DHCSR_C_HALT :: u32 where "CORTEXM_DHCSR_C_HALT \<equiv> 2"
abbreviation (input) CORTEXM_DHCSR_C_DEBUGEN :: u32 where "CORTEXM_DHCSR_C_DEBUGEN \<equiv> 1"
abbreviation (input) CORTEXM_DCRSR_REGWnR :: u32 where "CORTEXM_DCRSR_REGWnR \<equiv> 0x00010000"
abbreviation (input) CORTEXM_FPB_CTRL_KEY :: u32 where "CORTEXM_FPB_CTRL_KEY \<equiv> 2"
abbreviation (input) CORTEXM_FPB_CTRL_ENABLE :: u32 where "CORTEXM_FPB_CTRL_ENABLE \<equiv> 1"
abbreviation (input) CORTEXM_DWT_FUNC_MATCHED :: u32 where "CORTEXM_DWT_FUNC_MATCHED \<equiv> 0x01000000"
abbreviation (input) CORTEXM_DWT_FUNC_DATAVSIZE_WORD :: u32 where "CORTEXM_DWT_FUNC_DATAVSIZE_WORD \<equiv> 0x800"
abbreviation (input) CORTEXM_TOPT_FLAVOUR_V6M :: u32 where "CORTEXM_TOPT_FLAVOUR_V6M \<equiv> 2"
abbreviation (input) CORTEXM_TOPT_FLAVOUR_V7MF :: u32 where "CORTEXM_TOPT_FLAVOUR_V7MF \<equiv> 4"
abbreviation (input) CORTEX_CPUID_PARTNO_MASK :: u32 where "CORTEX_CPUID_PARTNO_MASK \<equiv> 0xfff0"
abbreviation (input) CORTEX_M0 :: u32 where "CORTEX_M0 \<equiv> 0xc200"
abbreviation (input) CORTEX_M4 :: u32 where "CORTEX_M4 \<equiv> 0xc240"
abbreviation (input) CORTEX_M23 :: u32 where "CORTEX_M23 \<equiv> 0xd200"
abbreviation (input) CORTEX_M33 :: u32 where "CORTEX_M33 \<equiv> 0xd210"

definition CORTEXM_FPB_COMP :: "u32 \<Rightarrow> u32" where "CORTEXM_FPB_COMP i = 0xe0002008 + 4 * i"
definition CORTEXM_DWT_COMP :: "u32 \<Rightarrow> u32" where "CORTEXM_DWT_COMP i = 0xe0001020 + 0x10 * i"
definition CORTEXM_DWT_MASK :: "u32 \<Rightarrow> u32" where "CORTEXM_DWT_MASK i = 0xe0001024 + 0x10 * i"
definition CORTEXM_DWT_FUNC :: "u32 \<Rightarrow> u32" where "CORTEXM_DWT_FUNC i = 0xe0001028 + 0x10 * i"

subsection \<open>Memory access\<close>

definition cortex_check_error :: "'d dp_ops \<Rightarrow> 'd cortexm \<Rightarrow> (bool \<times> 'd cortexm) option" where
  "cortex_check_error dp t = do { (e, d) \<leftarrow> dp_error dp False (cm_dp t); Some (e \<noteq> 0, t\<lparr>cm_dp := d\<rparr>) }"

text \<open>The inner loop over cache lines; a range that ends at the top of the address space makes it
  endless.\<close>

partial_function (option) cache_line_loop ::
  "'d dp_ops \<Rightarrow> adiv5_access_port \<Rightarrow> u32 \<Rightarrow> u32 \<Rightarrow> u32 \<Rightarrow> u32 \<Rightarrow> 'd \<Rightarrow> 'd option" where
  "cache_line_loop dp ap cache_reg minline ram ram_end d =
     (if ram < ram_end
      then do { d \<leftarrow> adiv5_mem_write dp ap cache_reg (bytes_of_u32 ram) 4 d;
                cache_line_loop dp ap cache_reg minline (ram + minline) ram_end d }
      else Some d)"

fun cache_clean_regions ::
  "'d dp_ops \<Rightarrow> adiv5_access_port \<Rightarrow> u32 \<Rightarrow> u32 \<Rightarrow> u32 \<Rightarrow> u32 \<Rightarrow> target_ram list \<Rightarrow> 'd \<Rightarrow> 'd option" where
  "cache_clean_regions dp ap cache_reg minline addr mem_end [] d = Some d"
| "cache_clean_regions dp ap cache_reg minline addr mem_end (r # rs) d =
     (let ram = ram_start r;
          ram_end = ram_start r + ram_length r;
          ram = (if addr > ram then addr else ram);
          ram_end = (if mem_end < ram_end then mem_end else ram_end)
      in do { d \<leftarrow> cache_line_loop dp ap cache_reg minline (ram AND NOT (minline - 1)) ram_end d;
              cache_clean_regions dp ap cache_reg minline addr mem_end rs d })"

definition cortexm_cache_clean ::
  "'d dp_ops \<Rightarrow> u32 \<Rightarrow> nat \<Rightarrow> bool \<Rightarrow> 'd cortexm \<Rightarrow> 'd cortexm option" where
  "cortexm_cache_clean dp addr len invalidate t =
     (if dcache_line_length t = 0 then Some t
      else (let cache_reg = (if invalidate then CORTEXM_DCCIMVAC else CORTEXM_DCCMVAC);
                minline = push_bit 2 (ucast (dcache_line_length t));
                mem_end = addr + of_nat len
            in do { d \<leftarrow> cache_clean_regions dp (cm_ap t) cache_reg minline addr mem_end (t_ram t) (cm_dp t);
                    Some (t\<lparr>cm_dp := d\<rparr>) }))"

definition cortexm_mem_read ::
  "'d dp_ops \<Rightarrow> u32 \<Rightarrow> nat \<Rightarrow> 'd cortexm \<Rightarrow> (byte list \<times> 'd cortexm) option" where
  "cortexm_mem_read dp src len t =
     do { t \<leftarrow> cortexm_cache_clean dp src len False t;
          (bs, d) \<leftarrow> advi5_mem_read_bytes dp (cm_ap t) src len (cm_dp t);
          Some (bs, t\<lparr>cm_dp := d\<rparr>) }"

definition cortexm_mem_write ::
  "'d dp_ops \<Rightarrow> u32 \<Rightarrow> byte list \<Rightarrow> nat \<Rightarrow> 'd cortexm \<Rightarrow> 'd cortexm option" where
  "cortexm_mem_write dp dest src len t =
     do { t \<leftarrow> cortexm_cache_clean dp dest len True t;
          d \<leftarrow> adiv5_mem_write dp (cm_ap t) dest src len (cm_dp t);
          Some (t\<lparr>cm_dp := d\<rparr>) }"

definition cortexm_mem_write_sized ::
  "'d dp_ops \<Rightarrow> 'd cortexm target_ops \<Rightarrow> u32 \<Rightarrow> byte list \<Rightarrow> nat \<Rightarrow> align_e \<Rightarrow> 'd cortexm \<Rightarrow> (bool \<times> 'd cortexm) option" where
  "cortexm_mem_write_sized dp ops dest src len align t =
     do { t \<leftarrow> cortexm_cache_clean dp dest len True t;
          d \<leftarrow> adiv5_mem_write_bytes dp (cm_ap t) dest src len align (cm_dp t);
          target_check_error ops (t\<lparr>cm_dp := d\<rparr>) }"

definition no_flash_ops :: "'s flash_ops" where
  "no_flash_ops = \<lparr>fprepare = None, ferase = (\<lambda>_ _ _ _. None), fwrite = (\<lambda>_ _ _ _ _. None), fdone = None\<rparr>"

text \<open>The first layer of function pointers: memory and error checking.\<close>

definition cortexm_mem_ops :: "'d dp_ops \<Rightarrow> 'd cortexm target_ops" where
  "cortexm_mem_ops dp = \<lparr>attach_fn = None, detach_fn = None, check_error_fn = Some (cortex_check_error dp),
     mem_read_fn = Some (cortexm_mem_read dp), mem_write_fn = Some (cortexm_mem_write dp), reg_read_fn = None,
     reg_write_fn = None, regs_read_fn = None, regs_write_fn = None, reset_fn = None, extended_reset_fn = None, halt_request_fn = None, halt_poll_fn = None,
     halt_resume_fn = None, breakwatch_set_fn = None, breakwatch_clear_fn = None, mass_erase_fn = None,
     enter_flash_mode_fn = None, exit_flash_mode_fn = None, destroy_callback_fn = Some,
     flash_ops_of = (\<lambda>_. no_flash_ops)\<rparr>"

subsection \<open>Core registers\<close>

definition regnum_cortex_m :: "u32 list" where
  "regnum_cortex_m = [0, 1, 2, 3, 4, 5, 6, 7, 8, 9, 10, 11, 12, 13, 14, 15, 0x10, 0x11, 0x12, 0x14]"

definition regnum_cortex_mf :: "u32 list" where
  "regnum_cortex_mf = [0x21,
     0x40, 0x41, 0x42, 0x43, 0x44, 0x45, 0x46, 0x47, 0x48, 0x49, 0x4a, 0x4b, 0x4c, 0x4d, 0x4e, 0x4f,
     0x50, 0x51, 0x52, 0x53, 0x54, 0x55, 0x56, 0x57, 0x58, 0x59, 0x5a, 0x5b, 0x5c, 0x5d, 0x5e, 0x5f]"

abbreviation (input) CORTEXM_GENERAL_REG_COUNT :: u32 where "CORTEXM_GENERAL_REG_COUNT \<equiv> 20"
abbreviation (input) CORTEX_FLOAT_REG_COUNT :: u32 where "CORTEX_FLOAT_REG_COUNT \<equiv> 33"
abbreviation (input) ADIV5_AP_DB_DCRSR :: u16 where "ADIV5_AP_DB_DCRSR \<equiv> 0x114"
abbreviation (input) ADIV5_AP_DB_DCRDR :: u16 where "ADIV5_AP_DB_DCRDR \<equiv> 0x118"

fun regs_read_loop :: "'d dp_ops \<Rightarrow> u32 list \<Rightarrow> 'd \<Rightarrow> (u32 list \<times> 'd) option" where
  "regs_read_loop dp [] d = Some ([], d)"
| "regs_read_loop dp (r # rs) d =
     do { d \<leftarrow> adiv5_dp_write dp ADIV5_AP_DB_DCRSR r d;
          (v, d) \<leftarrow> dp_read dp ADIV5_AP_DB_DCRDR d;
          (vs, d) \<leftarrow> regs_read_loop dp rs d;
          Some (v # vs, d) }"

fun regs_write_loop :: "'d dp_ops \<Rightarrow> (u32 \<times> u32) list \<Rightarrow> 'd \<Rightarrow> 'd option" where
  "regs_write_loop dp [] d = Some d"
| "regs_write_loop dp ((r, v) # rs) d =
     do { d \<leftarrow> adiv5_dp_write dp ADIV5_AP_DB_DCRDR v d;
          d \<leftarrow> adiv5_dp_write dp ADIV5_AP_DB_DCRSR (0x10000 OR r) d;
          regs_write_loop dp rs d }"

text \<open>The registers gdb sees: the general ones, and the floating-point ones on a core with an FPU.\<close>

definition cortexm_regnums :: "'d cortexm \<Rightarrow> u32 list" where
  "cortexm_regnums t =
     regnum_cortex_m @ (if target_options t AND CORTEXM_TOPT_FLAVOUR_V7MF \<noteq> 0 then regnum_cortex_mf else [])"

definition cortexm_regs_read :: "'d dp_ops \<Rightarrow> 'd cortexm \<Rightarrow> (u32 list \<times> 'd cortexm) option" where
  "cortexm_regs_read dp t =
     do { d \<leftarrow> ap_mem_access_setup dp (cm_ap t) CORTEXM_DHCSR ALIGN_32BIT (cm_dp t);
          d \<leftarrow> adiv5_dp_write dp ADIV5_DP_SELECT (push_bit 24 (ucast (apsel (cm_ap t))) OR 0x10) d;
          (vs, d) \<leftarrow> regs_read_loop dp (cortexm_regnums t) d;
          Some (vs, t\<lparr>cm_dp := d\<rparr>) }"

text \<open>Too short a register buffer has no meaning.\<close>

definition cortexm_regs_write :: "'d dp_ops \<Rightarrow> u32 list \<Rightarrow> 'd cortexm \<Rightarrow> 'd cortexm option" where
  "cortexm_regs_write dp regs t =
     (if length regs < length (cortexm_regnums t) then None
      else do { d \<leftarrow> ap_mem_access_setup dp (cm_ap t) CORTEXM_DHCSR ALIGN_32BIT (cm_dp t);
                d \<leftarrow> adiv5_dp_write dp ADIV5_DP_SELECT (push_bit 24 (ucast (apsel (cm_ap t))) OR 0x10) d;
                d \<leftarrow> regs_write_loop dp (zip (cortexm_regnums t) regs) d;
                Some (t\<lparr>cm_dp := d\<rparr>) })"

text \<open>dcrsr_regnum returns an int; its -1 becomes all ones in the 32-bit registers it is written to.\<close>

definition dcrsr_regnum :: "u32 \<Rightarrow> 'd cortexm \<Rightarrow> int" where
  "dcrsr_regnum reg t =
     (if reg < CORTEXM_GENERAL_REG_COUNT then uint (regnum_cortex_m ! unat reg)
      else if target_options t AND CORTEXM_TOPT_FLAVOUR_V7MF \<noteq> 0 \<and> reg < CORTEXM_GENERAL_REG_COUNT + CORTEX_FLOAT_REG_COUNT
        then uint (regnum_cortex_mf ! unat (reg - CORTEXM_GENERAL_REG_COUNT))
      else - 1)"

definition cortexm_reg_read ::
  "'d cortexm target_ops \<Rightarrow> u32 \<Rightarrow> nat \<Rightarrow> 'd cortexm \<Rightarrow> (int \<times> u32 \<times> 'd cortexm) option" where
  "cortexm_reg_read ops reg mx t =
     (if mx < 4 then Some (- 1, 0, t)
      else do { t \<leftarrow> target_mem_write32 ops CORTEXM_DCRSR (of_int (dcrsr_regnum reg t)) t;
                (v, t) \<leftarrow> target_mem_read32 ops CORTEXM_DCRDR t;
                Some (4, v, t) })"

definition cortexm_reg_write ::
  "'d cortexm target_ops \<Rightarrow> u32 \<Rightarrow> u32 \<Rightarrow> nat \<Rightarrow> 'd cortexm \<Rightarrow> (int \<times> 'd cortexm) option" where
  "cortexm_reg_write ops reg v mx t =
     (if mx < 4 then Some (- 1, t)
      else do { t \<leftarrow> target_mem_write32 ops CORTEXM_DCRDR v t;
                t \<leftarrow> target_mem_write32 ops CORTEXM_DCRSR (CORTEXM_DCRSR_REGWnR OR of_int (dcrsr_regnum reg t)) t;
                Some (4, t) })"

definition cortexm_pc_read :: "'d cortexm target_ops \<Rightarrow> 'd cortexm \<Rightarrow> (u32 \<times> 'd cortexm) option" where
  "cortexm_pc_read ops t =
     do { t \<leftarrow> target_mem_write32 ops CORTEXM_DCRSR 0x0f t; target_mem_read32 ops CORTEXM_DCRDR t }"

definition cortexm_pc_write :: "'d cortexm target_ops \<Rightarrow> u32 \<Rightarrow> 'd cortexm \<Rightarrow> 'd cortexm option" where
  "cortexm_pc_write ops v t =
     do { t \<leftarrow> target_mem_write32 ops CORTEXM_DCRDR v t;
          target_mem_write32 ops CORTEXM_DCRSR (CORTEXM_DCRSR_REGWnR OR 0x0f) t }"

subsection \<open>Reset, halt, resume\<close>

text \<open>The build defines PLATFORM_HAS_DEBUG, so cortexm_reset asks once more whether the timeout
  expired before it warns. The wait for S_RESET_ST to clear: n bounds the polls (one per element of the timeout
  outcomes still to come, and one more).\<close>

fun reset_wait :: "'d cortexm target_ops \<Rightarrow> nat \<Rightarrow> 'd cortexm \<Rightarrow> 'd cortexm option" where
  "reset_wait ops n t =
     do { (v, t) \<leftarrow> target_mem_read32 ops CORTEXM_DHCSR t;
          if v AND CORTEXM_DHCSR_S_RESET_ST \<noteq> 0 then
            (let (e, t) = platform_timeout_is_expired t
             in if e then Some t else (case n of 0 \<Rightarrow> None | Suc n \<Rightarrow> reset_wait ops n t))
          else Some t }"

definition cortexm_reset :: "'d cortexm target_ops \<Rightarrow> 'd cortexm \<Rightarrow> 'd cortexm option" where
  "cortexm_reset ops t =
     do { (_, t) \<leftarrow> target_mem_read32 ops CORTEXM_DHCSR t;
          let t = (if target_options t AND TOPT_INHIBIT_NRST = 0
                   then (let t = t\<lparr>plat_nrst := True\<rparr> in t\<lparr>plat_nrst := False\<rparr>) else t);
          (status, t) \<leftarrow> target_mem_read32 ops CORTEXM_DHCSR t;
          t \<leftarrow> (if status AND CORTEXM_DHCSR_S_RESET_ST = 0
                then target_mem_write32 ops CORTEXM_AIRCR (CORTEXM_AIRCR_VECTKEY OR CORTEXM_AIRCR_SYSRESETREQ) t
                else Some t);
          t \<leftarrow> (case extended_reset_fn ops of None \<Rightarrow> Some t | Some f \<Rightarrow> f t);
          t \<leftarrow> reset_wait ops (length (plat_expired t)) t;
          let (_, t) = platform_timeout_is_expired t;
          t \<leftarrow> target_mem_write32 ops CORTEXM_DFSR CORTEXM_DFSR_RESETALL t;
          (_, t) \<leftarrow> target_check_error ops t;
          Some t }"

definition cortexm_halt_request :: "'d cortexm target_ops \<Rightarrow> 'd cortexm \<Rightarrow> 'd cortexm option" where
  "cortexm_halt_request ops t =
     target_mem_write32 ops CORTEXM_DHCSR (CORTEXM_DHCSR_DBGKEY OR CORTEXM_DHCSR_C_HALT OR CORTEXM_DHCSR_C_DEBUGEN) t"

definition cortexm_halt_resume :: "'d cortexm target_ops \<Rightarrow> bool \<Rightarrow> 'd cortexm \<Rightarrow> 'd cortexm option" where
  "cortexm_halt_resume ops step t =
     (let dhcsr = CORTEXM_DHCSR_DBGKEY OR CORTEXM_DHCSR_C_DEBUGEN;
          dhcsr = (if step then dhcsr OR (CORTEXM_DHCSR_C_STEP OR CORTEXM_DHCSR_C_MASKINTS) else dhcsr)
      in do { t \<leftarrow> (if step \<noteq> stepping t
                    then do { t \<leftarrow> target_mem_write32 ops CORTEXM_DHCSR (dhcsr OR CORTEXM_DHCSR_C_HALT) t;
                              Some (t\<lparr>stepping := step\<rparr>) }
                    else Some t);
              t \<leftarrow> (if on_bkpt t
                    then do { (pc, t) \<leftarrow> cortexm_pc_read ops t;
                              (ins, t) \<leftarrow> target_mem_read16 ops pc t;
                              if ins AND 0xff00 = 0xbe00 then cortexm_pc_write ops (pc + 2) t else Some t }
                    else Some t);
              t \<leftarrow> (if icache_line_length t \<noteq> 0 then target_mem_write32 ops CORTEXM_ICIALLU 0 t else Some t);
              target_mem_write32 ops CORTEXM_DHCSR dhcsr t })"

subsection \<open>Breakpoint and watchpoint units\<close>

definition cortexm_dwt_mask :: "u32 \<Rightarrow> u32" where
  "cortexm_dwt_mask len = (if len < 2 then 0 else min (ucast (ulog2 (len - 1))) 31)"

definition cortexm_dwt_func :: "target_breakwatch_e \<Rightarrow> 'd cortexm \<Rightarrow> u32" where
  "cortexm_dwt_func type t =
     (let x = (if target_options t AND CORTEXM_TOPT_FLAVOUR_V6M = 0 then CORTEXM_DWT_FUNC_DATAVSIZE_WORD else 0)
      in case type of
           TARGET_WATCH_WRITE \<Rightarrow> 6 OR x
         | TARGET_WATCH_READ \<Rightarrow> 5 OR x
         | TARGET_WATCH_ACCESS \<Rightarrow> 7 OR x
         | _ \<Rightarrow> - 1)"

text \<open>The search for a free slot: the first i below the number available whose mask bit is clear,
  otherwise the number itself.\<close>

fun free_slot :: "u8 \<Rightarrow> nat \<Rightarrow> nat \<Rightarrow> nat" where
  "free_slot msk i 0 = i"
| "free_slot msk i (Suc n) = (if \<not> bit msk i then i else free_slot msk (Suc i) n)"

definition cortexm_breakwatch_set ::
  "'d cortexm target_ops \<Rightarrow> breakwatch \<Rightarrow> 'd cortexm \<Rightarrow> (int \<times> breakwatch \<times> 'd cortexm) option" where
  "cortexm_breakwatch_set ops bw t =
     (let val = bw_addr bw
      in case bw_type bw of
           TARGET_BREAK_HARD \<Rightarrow>
             (let val = (if flash_patch_revision t = 0
                         then (val AND 0x1ffffffc) OR (if bw_addr bw AND 2 \<noteq> 0 then 0x80000000 else 0x40000000)
                         else val);
                  val = val OR 1;
                  i = free_slot (breakpoints_mask t) 0 (unat (breakpoints_available t))
              in if i = unat (breakpoints_available t) then Some (- 1, bw, t)
                 else do { let t = t\<lparr>breakpoints_mask := breakpoints_mask t OR push_bit i 1\<rparr>;
                           t \<leftarrow> target_mem_write32 ops (CORTEXM_FPB_COMP (of_nat i)) val t;
                           Some (0, bw\<lparr>bw_reserved := (bw_reserved bw)[0 := of_nat i]\<rparr>, t) })
         | TARGET_BREAK_SOFT \<Rightarrow> Some (1, bw, t)
         | _ \<Rightarrow>
             (let i = free_slot (watchpoints_mask t) 0 (unat (watchpoints_available t))
              in if i = unat (watchpoints_available t) then Some (- 1, bw, t)
                 else do { let t = t\<lparr>watchpoints_mask := watchpoints_mask t OR push_bit i 1\<rparr>;
                           t \<leftarrow> target_mem_write32 ops (CORTEXM_DWT_COMP (of_nat i)) val t;
                           t \<leftarrow> target_mem_write32 ops (CORTEXM_DWT_MASK (of_nat i)) (cortexm_dwt_mask (bw_size bw)) t;
                           t \<leftarrow> target_mem_write32 ops (CORTEXM_DWT_FUNC (of_nat i)) (cortexm_dwt_func (bw_type bw) t) t;
                           Some (0, bw\<lparr>bw_reserved := (bw_reserved bw)[0 := of_nat i]\<rparr>, t) }))"

definition cortexm_breakwatch_clear ::
  "'d cortexm target_ops \<Rightarrow> breakwatch \<Rightarrow> 'd cortexm \<Rightarrow> (int \<times> 'd cortexm) option" where
  "cortexm_breakwatch_clear ops bw t =
     (let i = bw_reserved bw ! 0
      in case bw_type bw of
           TARGET_BREAK_HARD \<Rightarrow>
             do { let t = t\<lparr>breakpoints_mask := breakpoints_mask t AND NOT (push_bit (unat i) 1)\<rparr>;
                  t \<leftarrow> target_mem_write32 ops (CORTEXM_FPB_COMP i) 0 t;
                  Some (0, t) }
         | TARGET_BREAK_SOFT \<Rightarrow> Some (1, t)
         | _ \<Rightarrow>
             do { let t = t\<lparr>watchpoints_mask := watchpoints_mask t AND NOT (push_bit (unat i) 1)\<rparr>;
                  t \<leftarrow> target_mem_write32 ops (CORTEXM_DWT_FUNC i) 0 t;
                  Some (0, t) })"

fun check_watch_loop :: "'d cortexm target_ops \<Rightarrow> nat \<Rightarrow> nat \<Rightarrow> 'd cortexm \<Rightarrow> (nat \<times> 'd cortexm) option" where
  "check_watch_loop ops i 0 t = Some (i, t)"
| "check_watch_loop ops i (Suc n) t =
     (if bit (watchpoints_mask t) i
      then do { (v, t) \<leftarrow> target_mem_read32 ops (CORTEXM_DWT_FUNC (of_nat i)) t;
                if v AND CORTEXM_DWT_FUNC_MATCHED \<noteq> 0 then Some (i, t) else check_watch_loop ops (Suc i) n t }
      else check_watch_loop ops (Suc i) n t)"

definition cortexm_check_watch :: "'d cortexm target_ops \<Rightarrow> 'd cortexm \<Rightarrow> (u32 \<times> 'd cortexm) option" where
  "cortexm_check_watch ops t =
     do { (i, t) \<leftarrow> check_watch_loop ops 0 (unat (watchpoints_available t)) t;
          if i = unat (watchpoints_available t) then Some (0, t)
          else target_mem_read32 ops (CORTEXM_DWT_COMP (of_nat i)) t }"

end
