(* ===== verification/Cortexm_Run.thy ===== *)
theory Cortexm_Run
  imports Cortexm
begin

text \<open>
  Attaching to a Cortex-M core, running it and finding out why it halted: the rest of
  src/target/cortexm.c over the layer of Cortexm. The semihosting implementation
  (src/target/semihosting.c) is the parameter sh of the functions that reach it: it takes the call
  number, r1 and the target and gives the result. The exceptions a real wire can raise inside a memory
  access end the model's computation; the paths after TRY_CATCH are those of an access that returns.
\<close>

type_synonym 'd semihosting = "u32 \<Rightarrow> u32 \<Rightarrow> 'd cortexm \<Rightarrow> (u32 \<times> 'd cortexm) option"

abbreviation (input) CORTEXM_CPACR :: u32 where "CORTEXM_CPACR \<equiv> 0xe000ed88"
abbreviation (input) CORTEXM_CTR :: u32 where "CORTEXM_CTR \<equiv> 0xe000ed7c"
abbreviation (input) CORTEX_MAX_BREAKPOINTS :: u8 where "CORTEX_MAX_BREAKPOINTS \<equiv> 8"
abbreviation (input) CORTEX_MAX_WATCHPOINTS :: u8 where "CORTEX_MAX_WATCHPOINTS \<equiv> 8"
abbreviation (input) CORTEXM_XPSR_THUMB :: u32 where "CORTEXM_XPSR_THUMB \<equiv> 0x01000000"
abbreviation (input) CORTEX_REG_SP :: nat where "CORTEX_REG_SP \<equiv> 13"
abbreviation (input) CORTEX_REG_LR :: nat where "CORTEX_REG_LR \<equiv> 14"
abbreviation (input) CORTEX_REG_PC :: nat where "CORTEX_REG_PC \<equiv> 15"
abbreviation (input) CORTEX_REG_XPSR :: nat where "CORTEX_REG_XPSR \<equiv> 16"
abbreviation (input) CORTEX_REG_MSP :: nat where "CORTEX_REG_MSP \<equiv> 17"
abbreviation (input) CORTEX_REG_PSP :: nat where "CORTEX_REG_PSP \<equiv> 18"
abbreviation (input) CORTEX_REG_SPECIAL :: nat where "CORTEX_REG_SPECIAL \<equiv> 19"

subsection \<open>The identification registers of the core\<close>

definition cortex_dbg_read32 :: "'d dp_ops \<Rightarrow> u16 \<Rightarrow> 'd cortexm \<Rightarrow> (u32 \<times> 'd cortexm) option" where
  "cortex_dbg_read32 dp src t =
     do { (bs, d) \<leftarrow> advi5_mem_read_bytes dp (cm_ap t) (base_addr t + ucast src) 4 (cm_dp t);
          Some (u32_of_bytes bs, t\<lparr>cm_dp := d\<rparr>) }"

definition cortex_dbg_write32 :: "'d dp_ops \<Rightarrow> u16 \<Rightarrow> u32 \<Rightarrow> 'd cortexm \<Rightarrow> 'd cortexm option" where
  "cortex_dbg_write32 dp dest v t =
     do { d \<leftarrow> adiv5_mem_write dp (cm_ap t) (base_addr t + ucast dest) (bytes_of_u32 v) 4 (cm_dp t);
          Some (t\<lparr>cm_dp := d\<rparr>) }"

definition cortex_core_name :: "u32 \<Rightarrow> string option" where
  "cortex_core_name partno =
     map_of [(0xc050, ''A5''), (0xc070, ''A7''), (0xc080, ''A8''), (0xc090, ''A9''), (0xc140, ''R4''), (0xc150, ''R5''),
             (0x1320, ''STAR-MC1''), (0xd210, ''M33''), (0xd200, ''M23''), (0xc230, ''M3''), (0xc240, ''M4''),
             (0xc270, ''M7''), (0xc600, ''M0+''), (0xc200, ''M0'')] partno"

definition cortex_read_cpuid :: "'d dp_ops \<Rightarrow> 'd cortexm \<Rightarrow> 'd cortexm option" where
  "cortex_read_cpuid dp t =
     do { (v, t) \<leftarrow> cortex_dbg_read32 dp 0xd00 t;
          let t = t\<lparr>cpuid := v\<rparr>;
          case cortex_core_name (v AND CORTEX_CPUID_PARTNO_MASK) of
            None \<Rightarrow> Some t
          | Some name \<Rightarrow> Some (t\<lparr>core := Some name\<rparr>) }"

subsection \<open>Attach and detach\<close>

fun write_zero_all :: "'d cortexm target_ops \<Rightarrow> (u32 \<Rightarrow> u32) \<Rightarrow> nat \<Rightarrow> nat \<Rightarrow> 'd cortexm \<Rightarrow> 'd cortexm option" where
  "write_zero_all ops reg i 0 t = Some t"
| "write_zero_all ops reg i (Suc n) t =
     do { t \<leftarrow> target_mem_write32 ops (reg (of_nat i)) 0 t; write_zero_all ops reg (Suc i) n t }"

text \<open>The wait of cortexm_attach: False when the timeout expires first. n bounds the polls as in
  reset_wait.\<close>

fun attach_wait :: "'d cortexm target_ops \<Rightarrow> nat \<Rightarrow> 'd cortexm \<Rightarrow> (bool \<times> 'd cortexm) option" where
  "attach_wait ops n t =
     do { (v, t) \<leftarrow> target_mem_read32 ops CORTEXM_DHCSR t;
          if v AND CORTEXM_DHCSR_S_RESET_ST = 0 then Some (True, t)
          else (let (e, t) = platform_timeout_is_expired t
                in if e then Some (False, t) else (case n of 0 \<Rightarrow> None | Suc n \<Rightarrow> attach_wait ops n t)) }"

definition cortexm_size_units :: "'d cortexm target_ops \<Rightarrow> 'd cortexm \<Rightarrow> 'd cortexm option" where
  "cortexm_size_units ops t =
     do { let t = t\<lparr>breakpoints_available := CORTEX_MAX_BREAKPOINTS\<rparr>;
          (flash_break_cfg, t) \<leftarrow> target_mem_read32 ops CORTEXM_FPB_CTRL t;
          let bps = drop_bit 4 flash_break_cfg AND 0xf;
          let t = (if bps < ucast (breakpoints_available t) then t\<lparr>breakpoints_available := ucast bps\<rparr> else t);
          let t = t\<lparr>flash_patch_revision := drop_bit 28 flash_break_cfg, watchpoints_available := CORTEX_MAX_WATCHPOINTS\<rparr>;
          (wps, t) \<leftarrow> target_mem_read32 ops CORTEXM_DWT_CTRL t;
          Some (if drop_bit 28 wps < ucast (watchpoints_available t)
                then t\<lparr>watchpoints_available := ucast (drop_bit 28 wps)\<rparr> else t) }"

definition cortexm_attach :: "'d dp_ops \<Rightarrow> 'd cortexm target_ops \<Rightarrow> 'd cortexm \<Rightarrow> (bool \<times> 'd cortexm) option" where
  "cortexm_attach dp ops t =
     do { let t = t\<lparr>cm_dp := dp_fault_set dp 1 (cm_dp t)\<rparr>;
          (_, t) \<leftarrow> target_check_error ops t;
          t \<leftarrow> target_halt_request ops t;
          t \<leftarrow> target_mem_write32 ops CORTEXM_DEMCR (priv_demcr t) t;
          t \<leftarrow> target_mem_write32 ops CORTEXM_DFSR CORTEXM_DFSR_RESETALL t;
          t \<leftarrow> cortexm_size_units ops t;
          t \<leftarrow> write_zero_all ops CORTEXM_FPB_COMP 0 (unat (breakpoints_available t)) (t\<lparr>breakpoints_mask := 0\<rparr>);
          t \<leftarrow> write_zero_all ops CORTEXM_DWT_FUNC 0 (unat (watchpoints_available t)) (t\<lparr>watchpoints_mask := 0\<rparr>);
          t \<leftarrow> target_mem_write32 ops CORTEXM_FPB_CTRL (CORTEXM_FPB_CTRL_KEY OR CORTEXM_FPB_CTRL_ENABLE) t;
          (_, t) \<leftarrow> target_mem_read32 ops CORTEXM_DHCSR t;
          (status, t) \<leftarrow> target_mem_read32 ops CORTEXM_DHCSR t;
          if status AND CORTEXM_DHCSR_S_RESET_ST \<noteq> 0
          then (let t = t\<lparr>plat_nrst := False\<rparr> in attach_wait ops (length (plat_expired t)) t)
          else Some (True, t) }"

definition cortexm_detach :: "'d cortexm target_ops \<Rightarrow> 'd cortexm \<Rightarrow> 'd cortexm option" where
  "cortexm_detach ops t =
     do { t \<leftarrow> write_zero_all ops CORTEXM_FPB_COMP 0 (unat (breakpoints_available t)) t;
          t \<leftarrow> write_zero_all ops CORTEXM_DWT_FUNC 0 (unat (watchpoints_available t)) t;
          t \<leftarrow> target_mem_write32 ops CORTEXM_DEMCR (ap_cortexm_demcr (cm_ap t)) t;
          t \<leftarrow> target_mem_write32 ops CORTEXM_DHCSR
                (CORTEXM_DHCSR_DBGKEY OR CORTEXM_DHCSR_C_DEBUGEN OR CORTEXM_DHCSR_C_HALT) t;
          t \<leftarrow> target_mem_write32 ops CORTEXM_DHCSR (CORTEXM_DHCSR_DBGKEY OR CORTEXM_DHCSR_C_DEBUGEN) t;
          target_mem_write32 ops CORTEXM_DHCSR CORTEXM_DHCSR_DBGKEY t }"

subsection \<open>Why the core halted\<close>

definition stack_word :: "byte list \<Rightarrow> nat \<Rightarrow> u32" where
  "stack_word bs i = u32_of_bytes (take 4 (drop (4 * i) bs))"

text \<open>The registers after undoing an exception entry whose frame is stack.\<close>

definition unwound_regs :: "u32 list \<Rightarrow> byte list \<Rightarrow> u32 list" where
  "unwound_regs regs stack =
     (let retcode = regs ! CORTEX_REG_LR;
          spsel = bit retcode 2;
          fpca = (\<not> bit retcode 4);
          regs = regs[CORTEX_REG_LR := stack_word stack 5, CORTEX_REG_PC := stack_word stack 6];
          framesize = (if fpca then 0x68 else 0x20);
          framesize = (if bit (stack_word stack 7) 9 then framesize + 4 else framesize);
          regs = (if spsel
                  then (let regs = regs[CORTEX_REG_SPECIAL := regs ! CORTEX_REG_SPECIAL OR 0x4000000];
                            p = regs ! CORTEX_REG_PSP + framesize
                        in regs[CORTEX_REG_PSP := p, CORTEX_REG_SP := p])
                  else (let p = regs ! CORTEX_REG_MSP + framesize in regs[CORTEX_REG_MSP := p, CORTEX_REG_SP := p]))
      in if fpca then regs[CORTEX_REG_SPECIAL := regs ! CORTEX_REG_SPECIAL OR 0x2000000] else regs)"

definition cortexm_fault_unwind ::
  "'d dp_ops \<Rightarrow> 'd cortexm target_ops \<Rightarrow> 'd cortexm \<Rightarrow> (bool \<times> 'd cortexm) option" where
  "cortexm_fault_unwind dp ops t =
     do { (hfsr, t) \<leftarrow> target_mem_read32 ops CORTEXM_HFSR t;
          (cfsr, t) \<leftarrow> target_mem_read32 ops CORTEXM_CFSR t;
          t \<leftarrow> target_mem_write32 ops CORTEXM_HFSR hfsr t;
          t \<leftarrow> target_mem_write32 ops CORTEXM_CFSR cfsr t;
          if hfsr AND CORTEXM_HFSR_FORCED \<noteq> 0 \<or> cfsr \<noteq> 0 then
            do { (regs, t) \<leftarrow> cortexm_regs_read dp t;
                 let sp = (if bit (regs ! CORTEX_REG_LR) 2 then regs ! CORTEX_REG_PSP else regs ! CORTEX_REG_MSP);
                 (_, stack, t) \<leftarrow> target_mem_read ops (replicate 32 0) sp 32 t;
                 (err, t) \<leftarrow> target_check_error ops t;
                 if err then Some (False, t)
                 else do { t \<leftarrow> target_mem_write32 ops CORTEXM_AIRCR
                                 (CORTEXM_AIRCR_VECTKEY OR CORTEXM_AIRCR_VECTCLRACTIVE) t;
                           t \<leftarrow> cortexm_regs_write dp (unwound_regs regs stack) t;
                           Some (True, t) } }
          else Some (False, t) }"

definition cortexm_hostio_request ::
  "'d cortexm target_ops \<Rightarrow> 'd semihosting \<Rightarrow> 'd cortexm \<Rightarrow> (bool \<times> 'd cortexm) option" where
  "cortexm_hostio_request ops sh t =
     do { (_, syscall, t) \<leftarrow> target_reg_read ops 0 4 t;
          (_, r1, t) \<leftarrow> target_reg_read ops 1 4 t;
          (result, t) \<leftarrow> sh syscall r1 t;
          (_, t) \<leftarrow> target_reg_write ops 0 result 4 t;
          tc \<leftarrow> t_tc t;
          Some (interrupted tc, t) }"

text \<open>watch says whether the caller passed a place for the watchpoint address.\<close>

definition cortexm_halt_poll ::
  "'d dp_ops \<Rightarrow> 'd cortexm target_ops \<Rightarrow> 'd semihosting \<Rightarrow> bool \<Rightarrow> 'd cortexm \<Rightarrow>
   ((target_halt_reason_e \<times> u32 option) \<times> 'd cortexm) option" where
  "cortexm_halt_poll dp ops sh watch t =
     do { (dhcsr, t) \<leftarrow> target_mem_read32 ops CORTEXM_DHCSR t;
          if dhcsr AND CORTEXM_DHCSR_S_HALT = 0 then Some ((TARGET_HALT_RUNNING, None), t)
          else do {
            (dfsr, t) \<leftarrow> target_mem_read32 ops CORTEXM_DFSR t;
            t \<leftarrow> target_mem_write32 ops CORTEXM_DFSR dfsr t;
            (fault, t) \<leftarrow> (if dfsr AND CORTEXM_DFSR_VCATCH \<noteq> 0 then cortexm_fault_unwind dp ops t else Some (False, t));
            if fault then Some ((TARGET_HALT_FAULT, None), t)
            else do {
              let t = t\<lparr>on_bkpt := dfsr AND CORTEXM_DFSR_BKPT \<noteq> 0\<rparr>;
              (semihost, t) \<leftarrow> (if on_bkpt t
                 then do { (pc, t) \<leftarrow> cortexm_pc_read ops t;
                           (ins, t) \<leftarrow> target_mem_read16 ops pc t;
                           Some (ins = 0xbeab, t) }
                 else Some (False, t));
              if semihost then
                do { (int, t) \<leftarrow> cortexm_hostio_request ops sh t;
                     if int then Some ((TARGET_HALT_REQUEST, None), t)
                     else do { t \<leftarrow> target_halt_resume ops (stepping t) t; Some ((TARGET_HALT_RUNNING, None), t) } }
              else if dfsr AND CORTEXM_DFSR_DWTTRAP \<noteq> 0 then
                (if watch then do { (a, t) \<leftarrow> cortexm_check_watch ops t; Some ((TARGET_HALT_WATCHPOINT, Some a), t) }
                 else Some ((TARGET_HALT_WATCHPOINT, None), t))
              else if dfsr AND CORTEXM_DFSR_BKPT \<noteq> 0 then Some ((TARGET_HALT_BREAKPOINT, None), t)
              else if dfsr AND CORTEXM_DFSR_HALTED \<noteq> 0 then
                Some ((if stepping t then TARGET_HALT_STEPPING else TARGET_HALT_REQUEST, None), t)
              else Some ((TARGET_HALT_BREAKPOINT, None), t) } } }"

subsection \<open>Flash stubs\<close>

text \<open>Inl: the stub hung and was halted. Inr: the core stopped for a reason.\<close>

partial_function (option) stub_loop ::
  "'d dp_ops \<Rightarrow> 'd cortexm target_ops \<Rightarrow> 'd semihosting \<Rightarrow> 'd cortexm \<Rightarrow>
   ((unit + target_halt_reason_e) \<times> 'd cortexm) option" where
  "stub_loop dp ops sh t =
     (case platform_timeout_is_expired t of (e, t) \<Rightarrow>
        if e then do { t \<leftarrow> cortexm_halt_request ops t;
                       (_, t) \<leftarrow> cortexm_regs_read dp t;
                       Some (Inl (), t) }
        else do { ((reason, _), t) \<leftarrow> cortexm_halt_poll dp ops sh False t;
                  if reason = TARGET_HALT_RUNNING then stub_loop dp ops sh t else Some (Inr reason, t) })"

definition stub_regs :: "u32 \<Rightarrow> u32 \<Rightarrow> u32 \<Rightarrow> u32 \<Rightarrow> u32 \<Rightarrow> u32 list" where
  "stub_regs loadaddr r0 r1 r2 r3 =
     (replicate 53 0)[0 := r0, 1 := r1, 2 := r2, 3 := r3, 15 := loadaddr, CORTEX_REG_XPSR := CORTEXM_XPSR_THUMB, 19 := 0]"

definition cortexm_run_stub ::
  "'d dp_ops \<Rightarrow> 'd cortexm target_ops \<Rightarrow> 'd semihosting \<Rightarrow> u32 \<Rightarrow> u32 \<Rightarrow> u32 \<Rightarrow> u32 \<Rightarrow> u32 \<Rightarrow> 'd cortexm \<Rightarrow>
   (bool \<times> 'd cortexm) option" where
  "cortexm_run_stub dp ops sh loadaddr r0 r1 r2 r3 t =
     do { t \<leftarrow> cortexm_regs_write dp (stub_regs loadaddr r0 r1 r2 r3) t;
          (err, t) \<leftarrow> target_check_error ops t;
          if err then Some (False, t)
          else do {
            (_, t) \<leftarrow> cortexm_regs_read dp t;
            t \<leftarrow> cortexm_halt_resume ops False t;
            (r, t) \<leftarrow> stub_loop dp ops sh t;
            case r of
              Inl _ \<Rightarrow> Some (False, t)
            | Inr reason \<Rightarrow>
                if reason = TARGET_HALT_ERROR then None
                else if reason \<noteq> TARGET_HALT_BREAKPOINT then Some (False, t)
                else do { (pc, t) \<leftarrow> cortexm_pc_read ops t;
                          (ins, t) \<leftarrow> target_mem_read16 ops pc t;
                          Some (if drop_bit 8 ins \<noteq> 0xbe then False else ins AND 0xff \<noteq> 0, t) } } }"

subsection \<open>Vector catch\<close>

definition parse_enable_or_disable :: "string \<Rightarrow> bool option" where
  "parse_enable_or_disable value =
     (if value \<noteq> [] \<and> take (length value) ''enable'' = value then Some True
      else if value \<noteq> [] \<and> take (length value) ''disable'' = value then Some False
      else None)"

definition catch_vectors :: "string option list" where
  "catch_vectors = [Some ''reset'', None, None, None, Some ''mm'', Some ''nocp'', Some ''chk'', Some ''stat'', Some ''bus'',
     Some ''int'', Some ''hard'']"

definition vector_bits :: "string list \<Rightarrow> u32" where
  "vector_bits argv =
     fold (\<lambda>a tmp. fold (\<lambda>(i, v) tmp. if v = Some a then tmp OR push_bit i 1 else tmp) (enumerate 0 catch_vectors) tmp) argv 0"

definition cortexm_vector_catch ::
  "'d cortexm target_ops \<Rightarrow> string list \<Rightarrow> 'd cortexm \<Rightarrow> (bool \<times> 'd cortexm) option" where
  "cortexm_vector_catch ops argv t =
     (if length argv < 3 then Some (True, t)
      else (case parse_enable_or_disable (argv ! 1) of
              None \<Rightarrow> Some (True, t)
            | Some enable \<Rightarrow>
                do { let tmp = vector_bits argv;
                     let t = t\<lparr>priv_demcr := (if enable then priv_demcr t OR tmp else priv_demcr t AND NOT tmp)\<rparr>;
                     t \<leftarrow> target_mem_write32 ops CORTEXM_DEMCR (priv_demcr t) t;
                     Some (True, t) }))"

subsection \<open>The function pointers of a Cortex-M target\<close>

text \<open>gdb's buffers hold the registers as bytes.\<close>

fun words_of_bytes :: "byte list \<Rightarrow> u32 list" where
  "words_of_bytes (a # b # c # d # bs) = u32_of_bytes [a, b, c, d] # words_of_bytes bs"
| "words_of_bytes _ = []"

definition cortexm_regs_get :: "'d dp_ops \<Rightarrow> 'd cortexm \<Rightarrow> (byte list \<times> 'd cortexm) option" where
  "cortexm_regs_get dp t = do { (vs, t) \<leftarrow> cortexm_regs_read dp t; Some (concat (map bytes_of_u32 vs), t) }"

definition cortexm_regs_put :: "'d dp_ops \<Rightarrow> byte list \<Rightarrow> 'd cortexm \<Rightarrow> 'd cortexm option" where
  "cortexm_regs_put dp dat t = cortexm_regs_write dp (words_of_bytes dat) t"

definition cortexm_core_ops :: "'d dp_ops \<Rightarrow> 'd cortexm target_ops" where
  "cortexm_core_ops dp =
     (let m = cortexm_mem_ops dp
      in m\<lparr>reg_read_fn := Some (cortexm_reg_read m), reg_write_fn := Some (cortexm_reg_write m),
           regs_read_fn := Some (cortexm_regs_get dp), regs_write_fn := Some (cortexm_regs_put dp),
           reset_fn := Some (cortexm_reset m), halt_request_fn := Some (cortexm_halt_request m),
           halt_resume_fn := Some (cortexm_halt_resume m), breakwatch_set_fn := Some (cortexm_breakwatch_set m),
           breakwatch_clear_fn := Some (cortexm_breakwatch_clear m)\<rparr>)"

definition cortexm_ops :: "'d dp_ops \<Rightarrow> 'd semihosting \<Rightarrow> (flash_fns \<Rightarrow> 'd cortexm flash_ops) \<Rightarrow> 'd cortexm target_ops" where
  "cortexm_ops dp sh fo =
     (let c = cortexm_core_ops dp
      in c\<lparr>attach_fn := Some (cortexm_attach dp c), detach_fn := Some (cortexm_detach c),
           halt_poll_fn := Some (cortexm_halt_poll dp c sh True), flash_ops_of := fo\<rparr>)"

end
