(* ===== verification/Stm32f1.thy ===== *)
theory Stm32f1
  imports Cortexm
begin

text \<open>
  The STM32F1-family flash driver, src/target/stm32f1.c: unlocking the FPEC, page erase, programming
  with bank split, mass erase, option bytes, and the identification of the parts it supports
  (STM32F0/F1/F3, GD32, AT32, MM32). Everything goes through the target layer's memory functions;
  programming uses cortexm_mem_write_sized with the access width the part allows.
\<close>

subsection \<open>Registers\<close>

abbreviation (input) FLASH_KEYR :: u32 where "FLASH_KEYR \<equiv> 0x40022004"
abbreviation (input) FLASH_OPTKEYR :: u32 where "FLASH_OPTKEYR \<equiv> 0x40022008"
abbreviation (input) FLASH_SR :: u32 where "FLASH_SR \<equiv> 0x4002200c"
abbreviation (input) FLASH_CR :: u32 where "FLASH_CR \<equiv> 0x40022010"
abbreviation (input) FLASH_AR :: u32 where "FLASH_AR \<equiv> 0x40022014"
abbreviation (input) FLASH_OBR :: u32 where "FLASH_OBR \<equiv> 0x4002201c"
abbreviation (input) FLASH_BANK1_OFFSET :: u32 where "FLASH_BANK1_OFFSET \<equiv> 0"
abbreviation (input) FLASH_BANK2_OFFSET :: u32 where "FLASH_BANK2_OFFSET \<equiv> 0x40"
abbreviation (input) FLASH_BANK_SPLIT :: u32 where "FLASH_BANK_SPLIT \<equiv> 0x08080000"
abbreviation (input) FLASH_CR_OPTWRE :: u32 where "FLASH_CR_OPTWRE \<equiv> 0x200"
abbreviation (input) FLASH_CR_LOCK :: u32 where "FLASH_CR_LOCK \<equiv> 0x80"
abbreviation (input) FLASH_CR_STRT :: u32 where "FLASH_CR_STRT \<equiv> 0x40"
abbreviation (input) FLASH_CR_OPTER :: u32 where "FLASH_CR_OPTER \<equiv> 0x20"
abbreviation (input) FLASH_CR_OPTPG :: u32 where "FLASH_CR_OPTPG \<equiv> 0x10"
abbreviation (input) FLASH_CR_MER :: u32 where "FLASH_CR_MER \<equiv> 4"
abbreviation (input) FLASH_CR_PER :: u32 where "FLASH_CR_PER \<equiv> 2"
abbreviation (input) FLASH_CR_PG :: u32 where "FLASH_CR_PG \<equiv> 1"
abbreviation (input) FLASH_OBR_RDPRT :: u32 where "FLASH_OBR_RDPRT \<equiv> 2"
abbreviation (input) FLASH_SR_BSY :: u32 where "FLASH_SR_BSY \<equiv> 1"
abbreviation (input) SR_ERROR_MASK :: u32 where "SR_ERROR_MASK \<equiv> 0x14"
abbreviation (input) SR_PROG_ERROR :: u32 where "SR_PROG_ERROR \<equiv> 4"
abbreviation (input) FLASH_SR_EOP :: u32 where "FLASH_SR_EOP \<equiv> 0x20"
abbreviation (input) FLASH_OBP_RDP :: u32 where "FLASH_OBP_RDP \<equiv> 0x1ffff800"
abbreviation (input) FLASH_OBP_RDP_KEY :: u16 where "FLASH_OBP_RDP_KEY \<equiv> 0x5aa5"
abbreviation (input) FLASH_OBP_RDP_KEY_F3 :: u16 where "FLASH_OBP_RDP_KEY_F3 \<equiv> 0x55aa"
abbreviation (input) KEY1 :: u32 where "KEY1 \<equiv> 0x45670123"
abbreviation (input) KEY2 :: u32 where "KEY2 \<equiv> 0xcdef89ab"
abbreviation (input) DBGMCU_IDCODE :: u32 where "DBGMCU_IDCODE \<equiv> 0xe0042000"
abbreviation (input) DBGMCU_IDCODE_F0 :: u32 where "DBGMCU_IDCODE_F0 \<equiv> 0x40015800"
abbreviation (input) DBGMCU_IDCODE_GD32E5 :: u32 where "DBGMCU_IDCODE_GD32E5 \<equiv> 0xe0044000"
abbreviation (input) GD32Fx_FLASHSIZE :: u32 where "GD32Fx_FLASHSIZE \<equiv> 0x1ffff7e0"
abbreviation (input) DBGMCU_IDCODE_MM32L0 :: u32 where "DBGMCU_IDCODE_MM32L0 \<equiv> 0x40013400"
abbreviation (input) DBGMCU_IDCODE_MM32F3 :: u32 where "DBGMCU_IDCODE_MM32F3 \<equiv> 0x40007080"
abbreviation (input) STM32F1_TOPT_32BIT_WRITES :: u32 where "STM32F1_TOPT_32BIT_WRITES \<equiv> 0x100"
abbreviation (input) JEP106_MANUFACTURER_RV_GIGADEVICE :: u16 where "JEP106_MANUFACTURER_RV_GIGADEVICE \<equiv> 0x61e"

subsection \<open>The flash controller\<close>

definition stm32f1_flash_unlock ::
  "'d cortexm target_ops \<Rightarrow> u32 \<Rightarrow> 'd cortexm \<Rightarrow> (bool \<times> 'd cortexm) option" where
  "stm32f1_flash_unlock ops bank_offset t =
     do { t \<leftarrow> target_mem_write32 ops (FLASH_KEYR + bank_offset) KEY1 t;
          t \<leftarrow> target_mem_write32 ops (FLASH_KEYR + bank_offset) KEY2 t;
          (ctrl, t) \<leftarrow> target_mem_read32 ops (FLASH_CR + bank_offset) t;
          Some (ctrl AND FLASH_CR_LOCK = 0, t) }"

definition stm32f1_flash_clear_eop :: "'d cortexm target_ops \<Rightarrow> u32 \<Rightarrow> 'd cortexm \<Rightarrow> 'd cortexm option" where
  "stm32f1_flash_clear_eop ops bank_offset t =
     do { (status, t) \<leftarrow> target_mem_read32 ops (FLASH_SR + bank_offset) t;
          target_mem_write32 ops (FLASH_SR + bank_offset) (status OR FLASH_SR_EOP) t }"

text \<open>The polling loop; Inl is the early return on a communication error, Inr the status it ends
  with. With a timeout, target_print_progress looks at the clock once per poll.\<close>

partial_function (option) busy_loop ::
  "'d cortexm target_ops \<Rightarrow> u32 \<Rightarrow> bool \<Rightarrow> u32 \<Rightarrow> 'd cortexm \<Rightarrow> ((unit + u32) \<times> 'd cortexm) option" where
  "busy_loop ops bank_offset timeout status t =
     (if status AND FLASH_SR_EOP = 0 \<and> status AND FLASH_SR_BSY \<noteq> 0 then
        do { (status, t) \<leftarrow> target_mem_read32 ops (FLASH_SR + bank_offset) t;
             (err, t) \<leftarrow> target_check_error ops t;
             if err then Some (Inl (), t)
             else busy_loop ops bank_offset timeout status
                    (if timeout then snd (platform_timeout_is_expired t) else t) }
      else Some (Inr status, t))"

definition stm32f1_flash_busy_wait ::
  "'d cortexm target_ops \<Rightarrow> u32 \<Rightarrow> bool \<Rightarrow> 'd cortexm \<Rightarrow> (bool \<times> 'd cortexm) option" where
  "stm32f1_flash_busy_wait ops bank_offset timeout t =
     do { (r, t) \<leftarrow> busy_loop ops bank_offset timeout FLASH_SR_BSY t;
          case r of Inl _ \<Rightarrow> Some (False, t) | Inr status \<Rightarrow> Some (status AND SR_ERROR_MASK = 0, t) }"

definition at32f40_is_dual_bank :: "u16 \<Rightarrow> bool" where
  "at32f40_is_dual_bank pid \<longleftrightarrow> pid \<in> {0x0344, 0x0345, 0x0346, 0x0347, 0x034b, 0x034c, 0x0353}"

definition stm32f1_is_dual_bank :: "u16 \<Rightarrow> bool" where
  "stm32f1_is_dual_bank pid \<longleftrightarrow> pid = 0x430 \<or> at32f40_is_dual_bank pid"

definition stm32f1_bank_offset_for :: "u32 \<Rightarrow> u32" where
  "stm32f1_bank_offset_for addr = (if addr \<ge> FLASH_BANK_SPLIT then FLASH_BANK2_OFFSET else FLASH_BANK1_OFFSET)"

text \<open>The two short-circuit unlocks: bank 2 when the range reaches it on a dual-bank part, bank 1
  when the range starts in it. False as soon as one fails.\<close>

definition erase_unlock :: "'d cortexm target_ops \<Rightarrow> u32 \<Rightarrow> u32 \<Rightarrow> 'd cortexm \<Rightarrow> (bool \<times> 'd cortexm) option" where
  "erase_unlock ops addr end_addr t =
     do { (ok2, t) \<leftarrow> (if stm32f1_is_dual_bank (part_id t) \<and> end_addr \<ge> FLASH_BANK_SPLIT
                       then stm32f1_flash_unlock ops FLASH_BANK2_OFFSET t else Some (True, t));
          if \<not> ok2 then Some (False, t)
          else if addr < FLASH_BANK_SPLIT then stm32f1_flash_unlock ops 0 t else Some (True, t) }"

definition stm32f1_flash_erase ::
  "'d cortexm target_ops \<Rightarrow> u32 \<Rightarrow> u32 \<Rightarrow> 'd cortexm \<Rightarrow> (bool \<times> 'd cortexm) option" where
  "stm32f1_flash_erase ops addr len t =
     do { (ok, t) \<leftarrow> erase_unlock ops addr (addr + len - 1) t;
          if \<not> ok then Some (False, t)
          else do { let bank_offset = stm32f1_bank_offset_for addr;
                    t \<leftarrow> stm32f1_flash_clear_eop ops bank_offset t;
                    t \<leftarrow> target_mem_write32 ops (FLASH_CR + bank_offset) FLASH_CR_PER t;
                    t \<leftarrow> target_mem_write32 ops (FLASH_AR + bank_offset) addr t;
                    t \<leftarrow> target_mem_write32 ops (FLASH_CR + bank_offset) (FLASH_CR_STRT OR FLASH_CR_PER) t;
                    stm32f1_flash_busy_wait ops bank_offset False t } }"

definition stm32f1_bank1_length :: "u32 \<Rightarrow> u32 \<Rightarrow> u32" where
  "stm32f1_bank1_length addr len =
     (if addr \<ge> FLASH_BANK_SPLIT then 0
      else if addr + len > FLASH_BANK_SPLIT then FLASH_BANK_SPLIT - addr
      else len)"

text \<open>Programming one bank: the common part of the two halves of stm32f1_flash_write.\<close>

definition write_bank ::
  "'d dp_ops \<Rightarrow> 'd cortexm target_ops \<Rightarrow> u32 \<Rightarrow> u32 \<Rightarrow> byte list \<Rightarrow> u32 \<Rightarrow> align_e \<Rightarrow> 'd cortexm \<Rightarrow>
   (bool \<times> 'd cortexm) option" where
  "write_bank dp ops bank_offset dest src len psize t =
     do { t \<leftarrow> stm32f1_flash_clear_eop ops bank_offset t;
          t \<leftarrow> target_mem_write32 ops (FLASH_CR + bank_offset) FLASH_CR_PG t;
          (_, t) \<leftarrow> (if designer_code t = JEP106_MANUFACTURER_RV_GIGADEVICE \<and> cpuid t = 0x80000022
                    then target_mem_write ops dest src (unat len) t
                    else cortexm_mem_write_sized dp ops dest src (unat len) psize t);
          stm32f1_flash_busy_wait ops bank_offset False t }"

definition stm32f1_flash_write ::
  "'d dp_ops \<Rightarrow> 'd cortexm target_ops \<Rightarrow> u32 \<Rightarrow> byte list \<Rightarrow> u32 \<Rightarrow> 'd cortexm \<Rightarrow> (bool \<times> 'd cortexm) option" where
  "stm32f1_flash_write dp ops dest src len t =
     (let off = stm32f1_bank1_length dest len;
          psize = (if target_options t AND STM32F1_TOPT_32BIT_WRITES \<noteq> 0 then ALIGN_32BIT else ALIGN_16BIT)
      in do { (ok, t) \<leftarrow> (if off \<noteq> 0 then write_bank dp ops FLASH_BANK1_OFFSET dest src off psize t else Some (True, t));
              if \<not> ok then Some (False, t)
              else do { let remainder = len - off;
                        if stm32f1_is_dual_bank (part_id t) \<and> remainder \<noteq> 0
                        then write_bank dp ops FLASH_BANK2_OFFSET (dest + off) (drop (unat off) src) remainder psize t
                        else Some (True, t) } })"

definition stm32f1_mass_erase_bank ::
  "'d cortexm target_ops \<Rightarrow> u32 \<Rightarrow> 'd cortexm \<Rightarrow> (bool \<times> 'd cortexm) option" where
  "stm32f1_mass_erase_bank ops bank_offset t =
     do { (ok, t) \<leftarrow> stm32f1_flash_unlock ops bank_offset t;
          if \<not> ok then Some (False, t)
          else do { t \<leftarrow> stm32f1_flash_clear_eop ops bank_offset t;
                    t \<leftarrow> target_mem_write32 ops (FLASH_CR + bank_offset) FLASH_CR_MER t;
                    t \<leftarrow> target_mem_write32 ops (FLASH_CR + bank_offset) (FLASH_CR_STRT OR FLASH_CR_MER) t;
                    stm32f1_flash_busy_wait ops bank_offset True t } }"

definition stm32f1_mass_erase :: "'d cortexm target_ops \<Rightarrow> 'd cortexm \<Rightarrow> (bool \<times> 'd cortexm) option" where
  "stm32f1_mass_erase ops t =
     do { (ok, t) \<leftarrow> stm32f1_flash_unlock ops 0 t;
          if \<not> ok then Some (False, t)
          else do { (ok, t) \<leftarrow> stm32f1_mass_erase_bank ops FLASH_BANK1_OFFSET t;
                    if \<not> ok then Some (False, t)
                    else if stm32f1_is_dual_bank (part_id t)
                    then stm32f1_mass_erase_bank ops FLASH_BANK2_OFFSET t
                    else Some (True, t) } }"

subsection \<open>Option bytes\<close>

definition stm32f1_flash_readable_key :: "'d cortexm \<Rightarrow> u16" where
  "stm32f1_flash_readable_key t =
     (if part_id t \<in> {0x422, 0x432, 0x438, 0x440, 0x446, 0x445, 0x448, 0x442}
      then FLASH_OBP_RDP_KEY_F3 else FLASH_OBP_RDP_KEY)"

definition stm32f1_option_erase :: "'d cortexm target_ops \<Rightarrow> 'd cortexm \<Rightarrow> (bool \<times> 'd cortexm) option" where
  "stm32f1_option_erase ops t =
     do { t \<leftarrow> stm32f1_flash_clear_eop ops FLASH_BANK1_OFFSET t;
          t \<leftarrow> target_mem_write32 ops FLASH_CR (FLASH_CR_OPTER OR FLASH_CR_OPTWRE) t;
          t \<leftarrow> target_mem_write32 ops FLASH_CR (FLASH_CR_STRT OR FLASH_CR_OPTER OR FLASH_CR_OPTWRE) t;
          stm32f1_flash_busy_wait ops FLASH_BANK1_OFFSET False t }"

definition stm32f1_option_write_erased ::
  "'d cortexm target_ops \<Rightarrow> u32 \<Rightarrow> u16 \<Rightarrow> bool \<Rightarrow> 'd cortexm \<Rightarrow> (bool \<times> 'd cortexm) option" where
  "stm32f1_option_write_erased ops off val write16_broken t =
     (if val = 0xffff then Some (True, t)
      else do { t \<leftarrow> stm32f1_flash_clear_eop ops FLASH_BANK1_OFFSET t;
                t \<leftarrow> target_mem_write32 ops FLASH_CR (FLASH_CR_OPTPG OR FLASH_CR_OPTWRE) t;
                let addr = FLASH_OBP_RDP + off * 2;
                t \<leftarrow> (if write16_broken then target_mem_write32 ops addr (0xffff0000 OR ucast val) t
                      else target_mem_write16 ops addr val t);
                (result, t) \<leftarrow> stm32f1_flash_busy_wait ops FLASH_BANK1_OFFSET False t;
                if result \<or> off \<noteq> 0 then Some (result, t)
                else do { (status, t) \<leftarrow> target_mem_read32 ops FLASH_SR t;
                          Some (status AND SR_ERROR_MASK = SR_PROG_ERROR, t) } })"

fun option_read_loop :: "'d cortexm target_ops \<Rightarrow> u32 list \<Rightarrow> 'd cortexm \<Rightarrow> (u16 list \<times> 'd cortexm) option" where
  "option_read_loop ops [] t = Some ([], t)"
| "option_read_loop ops (i # is) t =
     do { (v, t) \<leftarrow> target_mem_read32 ops (FLASH_OBP_RDP + i) t;
          (vs, t) \<leftarrow> option_read_loop ops is t;
          Some (ucast (v AND 0xffff) # ucast (drop_bit 16 v) # vs, t) }"

fun option_write_loop ::
  "'d cortexm target_ops \<Rightarrow> u32 \<Rightarrow> u16 list \<Rightarrow> bool \<Rightarrow> 'd cortexm \<Rightarrow> (bool \<times> 'd cortexm) option" where
  "option_write_loop ops i [] broken t = Some (True, t)"
| "option_write_loop ops i (v # vs) broken t =
     do { (ok, t) \<leftarrow> stm32f1_option_write_erased ops i v broken t;
          if \<not> ok then Some (False, t) else option_write_loop ops (i + 1) vs broken t }"

definition write16_broken_part :: "'d cortexm \<Rightarrow> bool" where
  "write16_broken_part t \<longleftrightarrow> part_id t = 0x410 \<and> cpuid t AND CORTEX_CPUID_PARTNO_MASK = CORTEX_M23"

definition stm32f1_option_write ::
  "'d cortexm target_ops \<Rightarrow> u32 \<Rightarrow> u16 \<Rightarrow> 'd cortexm \<Rightarrow> (bool \<times> 'd cortexm) option" where
  "stm32f1_option_write ops addr val t =
     (let index = drop_bit 1 (addr - FLASH_OBP_RDP)
      in if index > 7 then Some (False, t)
         else do { (opt_val, t) \<leftarrow> option_read_loop ops [0, 4, 8, 12] t;
                   if opt_val ! unat index = val then Some (True, t)
                   else do { (ok, t) \<leftarrow> (if opt_val ! unat index \<noteq> 0xffff then stm32f1_option_erase ops t else Some (True, t));
                             if \<not> ok then Some (False, t)
                             else option_write_loop ops 0 (opt_val[unat index := val]) (write16_broken_part t) t } })"

text \<open>The monitor command without its printing: argv[1] is the word erase, or argv holds an address
  and a value as numbers (strtoul is the C library's, its result the model's argument).\<close>

datatype option_args = Opt_erase | Opt_write u32 u32 | Opt_other

definition stm32f1_cmd_option ::
  "'d cortexm target_ops \<Rightarrow> option_args \<Rightarrow> 'd cortexm \<Rightarrow> (bool \<times> 'd cortexm) option" where
  "stm32f1_cmd_option ops args t =
     do { (obr, t) \<leftarrow> target_mem_read32 ops FLASH_OBR t;
          if obr AND FLASH_OBR_RDPRT \<noteq> 0 \<and> args \<noteq> Opt_erase then Some (True, t)
          else do {
            (ok, t) \<leftarrow> stm32f1_flash_unlock ops FLASH_BANK1_OFFSET t;
            if \<not> ok then Some (False, t)
            else do {
              t \<leftarrow> target_mem_write32 ops FLASH_OPTKEYR KEY1 t;
              t \<leftarrow> target_mem_write32 ops FLASH_OPTKEYR KEY2 t;
              (ok, t) \<leftarrow> (case args of
                 Opt_erase \<Rightarrow>
                   do { (ok, t) \<leftarrow> stm32f1_option_erase ops t;
                        if \<not> ok then Some (False, t)
                        else stm32f1_option_write_erased ops 0 (stm32f1_flash_readable_key t) (write16_broken_part t) t }
               | Opt_write addr val \<Rightarrow> stm32f1_option_write ops addr (ucast val) t
               | Opt_other \<Rightarrow> Some (True, t));
              if \<not> ok then Some (False, t)
              else do { (_, t) \<leftarrow> option_read_loop ops [0, 4, 8, 12] t; Some (True, t) } } } }"

subsection \<open>Identification\<close>

text \<open>The function pointers stm32f1_add_flash installs are the ones named Flash_stm32f1. calloc is
  the platform's; a failed allocation leaves the target as it was.\<close>

definition stm32f1_flash_region :: "u32 \<Rightarrow> u32 \<Rightarrow> u32 \<Rightarrow> target_flash" where
  "stm32f1_flash_region addr len erasesize =
     \<lparr>f_start = addr, f_length = len, blocksize = erasesize, writesize = 1024, writebufsize = 0, erased = 0xff,
      operation = FLASH_OPERATION_NONE, f_fns = Flash_stm32f1, buf = None, buf_addr_base = 0, buf_addr_low = 0,
      buf_addr_high = 0\<rparr>"

definition stm32f1_add_flash :: "u32 \<Rightarrow> u32 \<Rightarrow> u32 \<Rightarrow> 'd cortexm \<Rightarrow> 'd cortexm option" where
  "stm32f1_add_flash addr len erasesize t =
     (let (ok, t) = plat_malloc t
      in if \<not> ok then Some t else target_add_flash (stm32f1_flash_region addr len erasesize) t)"

definition stm32f1_flash_ops :: "'d dp_ops \<Rightarrow> 'd cortexm target_ops \<Rightarrow> 'd cortexm flash_ops" where
  "stm32f1_flash_ops dp ops = \<lparr>fprepare = None, ferase = (\<lambda>i. stm32f1_flash_erase ops),
     fwrite = (\<lambda>i. stm32f1_flash_write dp ops), fdone = None\<rparr>"

definition stm32f1_read_idcode :: "'d cortexm target_ops \<Rightarrow> 'd cortexm \<Rightarrow> (u16 \<times> 'd cortexm) option" where
  "stm32f1_read_idcode ops t =
     (let part = cpuid t AND CORTEX_CPUID_PARTNO_MASK;
          addr = (if part = CORTEX_M0 \<or> part = CORTEX_M23 then DBGMCU_IDCODE_F0
                  else if part = CORTEX_M33 then DBGMCU_IDCODE_GD32E5
                  else DBGMCU_IDCODE)
      in do { (v, t) \<leftarrow> target_mem_read32 ops addr t; Some (ucast (v AND 0xfff), t) })"

definition stm32f1_cmd_list :: "string list" where
  "stm32f1_cmd_list = [''option'']"

text \<open>A probe returns whether it took the part, the function pointers (mass_erase may have been
  installed) and the target.\<close>

definition stm32f1_take ::
  "'d cortexm target_ops \<Rightarrow> string \<Rightarrow> u16 \<Rightarrow> (u32 \<times> u32) list \<Rightarrow> (u32 \<times> u32 \<times> u32) list \<Rightarrow> string \<Rightarrow> 'd cortexm \<Rightarrow>
   (bool \<times> 'd cortexm target_ops \<times> 'd cortexm) option" where
  "stm32f1_take ops name pid rams flashes cmdname t =
     do { let t = fold (\<lambda>(a, n). target_add_ram a n) rams (t\<lparr>driver := name, part_id := pid\<rparr>);
          t \<leftarrow> fold (\<lambda>(a, n, b) r. do { t \<leftarrow> r; stm32f1_add_flash a n b t }) flashes (Some t);
          Some (True, ops\<lparr>mass_erase_fn := Some (stm32f1_mass_erase ops)\<rparr>, target_add_commands stm32f1_cmd_list cmdname t) }"

definition stm32f1_probe ::
  "'d cortexm target_ops \<Rightarrow> 'd cortexm \<Rightarrow> (bool \<times> 'd cortexm target_ops \<times> 'd cortexm) option" where
  "stm32f1_probe ops t =
     do { (device_id, t) \<leftarrow> stm32f1_read_idcode ops t;
          if device_id \<in> {0x29b, 0x410, 0x412, 0x420} then
            stm32f1_take ops
              (if drop_bit 28 (idr (cm_ap t)) > 1 then ''STM32F1 (clone) medium density'' else ''STM32F1 medium density'')
              device_id [(0x20000000, 0x5000)] [(0x8000000, 0x20000, 0x400)] ''STM32 LD/MD/VL-LD/VL-MD'' t
          else if device_id \<in> {0x414, 0x418, 0x428} then
            stm32f1_take ops ''STM32F1  VL density'' device_id [(0x20000000, 0x10000)] [(0x8000000, 0x80000, 0x800)]
              ''STM32 HF/CL/VL-HD'' t
          else if device_id = 0x430 then
            stm32f1_take ops ''STM32F1  XL density'' device_id [(0x20000000, 0x18000)]
              [(0x8000000, 0x80000, 0x800), (0x8080000, 0x80000, 0x800)] ''STM32 XL/VL-XL'' t
          else if device_id \<in> {0x438, 0x422, 0x446} then
            stm32f1_take ops ''STM32F3'' device_id [(0x10000000, 0x4000), (0x20000000, 0x10000)]
              [(0x8000000, 0x80000, 0x800)] ''STM32F3'' t
          else if device_id \<in> {0x432, 0x439} then
            stm32f1_take ops ''STM32F3'' device_id [(0x20000000, 0x10000)] [(0x8000000, 0x80000, 0x800)] ''STM32F3'' t
          else if device_id = 0x444 then
            stm32f1_take ops ''STM32F03'' device_id [(0x20000000, 0x5000)] [(0x8000000, 0x8000, 0x400)] ''STM32F0'' t
          else if device_id = 0x445 then
            stm32f1_take ops ''STM32F04/F070x6'' device_id [(0x20000000, 0x5000)] [(0x8000000, 0x8000, 0x400)] ''STM32F0'' t
          else if device_id = 0x440 then
            stm32f1_take ops ''STM32F05/F030x8'' device_id [(0x20000000, 0x5000)] [(0x8000000, 0x10000, 0x400)] ''STM32F0'' t
          else if device_id = 0x448 then
            stm32f1_take ops ''STM32F07'' device_id [(0x20000000, 0x5000)] [(0x8000000, 0x20000, 0x800)] ''STM32F0'' t
          else if device_id = 0x442 then
            stm32f1_take ops ''STM32F09/F030xc'' device_id [(0x20000000, 0x5000)] [(0x8000000, 0x40000, 0x800)] ''STM32F0'' t
          else Some (False, ops\<lparr>mass_erase_fn := None\<rparr>, t) }"

definition gd32f1_probe ::
  "'d cortexm target_ops \<Rightarrow> 'd cortexm \<Rightarrow> (bool \<times> 'd cortexm target_ops \<times> 'd cortexm) option" where
  "gd32f1_probe ops t =
     do { (device_id, t) \<leftarrow> stm32f1_read_idcode ops t;
          let part = cpuid t AND CORTEX_CPUID_PARTNO_MASK;
          let found = (if device_id \<in> {0x414, 0x430} then Some (''GD32F3'', 0x800)
                       else if device_id = 0x418 then Some (''GD32F2'', 0x800)
                       else if device_id = 0x410 then
                         (if part = CORTEX_M23 then Some (''GD32E230'', 0x400)
                          else if part = CORTEX_M4 then Some (''GD32F3'', 0x800)
                          else Some (''GD32F1'', 0x400))
                       else if device_id = 0x444 then Some (''GD32E5'', 0x2000)
                       else None);
          case found of
            None \<Rightarrow> Some (False, ops, t)
          | Some (name, block_size) \<Rightarrow>
              do { let t = t\<lparr>driver := name\<rparr>;
                   (signature, t) \<leftarrow> target_mem_read32 ops GD32Fx_FLASHSIZE t;
                   let flash_size = (ucast (signature AND 0xffff) :: u16);
                   let ram_size = (ucast (drop_bit 16 signature) :: u16);
                   t \<leftarrow> (if flash_size > 512
                         then do { let flash_size_bank1 = flash_size - 512;
                                   t \<leftarrow> stm32f1_add_flash 0x8000000 (512 * 1024) block_size t;
                                   stm32f1_add_flash 0x8080000 (ucast flash_size_bank1 * 1024) 0x1000 t }
                         else stm32f1_add_flash 0x8000000 (ucast flash_size * 1024) block_size t);
                   let t = t\<lparr>part_id := device_id, target_options := target_options t OR STM32F1_TOPT_32BIT_WRITES\<rparr>;
                   let t = target_add_ram 0x20000000 (ucast ram_size * 1024) t;
                   Some (True, ops\<lparr>mass_erase_fn := Some (stm32f1_mass_erase ops)\<rparr>,
                         target_add_commands stm32f1_cmd_list (driver t) t) } }"

definition at32f40_detect ::
  "'d cortexm target_ops \<Rightarrow> u16 \<Rightarrow> 'd cortexm \<Rightarrow> (bool \<times> 'd cortexm target_ops \<times> 'd cortexm) option" where
  "at32f40_detect ops pid t =
     do { r \<leftarrow> (if pid \<in> {0x0240, 0x0241, 0x0242, 0x0243, 0x0249, 0x024a, 0x0254}
                then do { t \<leftarrow> stm32f1_add_flash 0x08000000 (256 * 1024) (2 * 1024) t; Some (Some t) }
                else if pid \<in> {0x02cd, 0x02ce, 0x02cf, 0x02d0, 0x02d1, 0x02d2}
                then do { t \<leftarrow> stm32f1_add_flash 0x08000000 (512 * 1024) (2 * 1024) t; Some (Some t) }
                else if at32f40_is_dual_bank pid
                then do { t \<leftarrow> stm32f1_add_flash 0x08000000 (512 * 1024) (2 * 1024) t;
                          t \<leftarrow> stm32f1_add_flash 0x08080000 (512 * 1024) (2 * 1024) t;
                          Some (Some t) }
                else Some None);
          case r of
            None \<Rightarrow> Some (False, ops, t)
          | Some t \<Rightarrow>
              (let t = target_add_ram 0x20000000 (96 * 1024) t;
                   t = t\<lparr>driver := ''AT32F403A/407'', part_id := pid,
                         target_options := target_options t OR STM32F1_TOPT_32BIT_WRITES\<rparr>
               in Some (True, ops\<lparr>mass_erase_fn := Some (stm32f1_mass_erase ops)\<rparr>, t)) }"

definition at32f41_detect ::
  "'d cortexm target_ops \<Rightarrow> u16 \<Rightarrow> 'd cortexm \<Rightarrow> (bool \<times> 'd cortexm target_ops \<times> 'd cortexm) option" where
  "at32f41_detect ops pid t =
     (let size = (if pid \<in> {0x0240, 0x0241, 0x0242, 0x0243, 0x024c} then Some (256 * 1024)
                  else if pid \<in> {0x01c4, 0x01c5, 0x01c6, 0x01c7, 0x01cd} then Some (128 * 1024)
                  else if pid \<in> {0x0108, 0x0109, 0x010a} then Some (64 * 1024)
                  else None)
      in case size of
           None \<Rightarrow> Some (False, ops, t)
         | Some n \<Rightarrow>
             do { t \<leftarrow> stm32f1_add_flash 0x08000000 n (2 * 1024) t;
                  let t = target_add_ram 0x20000000 (32 * 1024) t;
                  let t = t\<lparr>driver := ''AT32F415'', part_id := pid,
                            target_options := target_options t OR STM32F1_TOPT_32BIT_WRITES\<rparr>;
                  Some (True, ops\<lparr>mass_erase_fn := Some (stm32f1_mass_erase ops)\<rparr>, t) })"

definition at32f40x_probe ::
  "'d cortexm target_ops \<Rightarrow> 'd cortexm \<Rightarrow> (bool \<times> 'd cortexm target_ops \<times> 'd cortexm) option" where
  "at32f40x_probe ops t =
     (if cpuid t AND CORTEX_CPUID_PARTNO_MASK \<noteq> CORTEX_M4 then Some (False, ops, t)
      else do { (idcode, t) \<leftarrow> target_mem_read32 ops DBGMCU_IDCODE t;
                let series = idcode AND 0xfffff000;
                let pid = (ucast (idcode AND 0xfff) :: u16);
                if series = 0x70050000 then at32f40_detect ops pid t
                else if series = 0x70030000 then at32f41_detect ops pid t
                else Some (False, ops, t) })"

definition mm32_take ::
  "'d cortexm target_ops \<Rightarrow> string \<Rightarrow> u32 \<Rightarrow> (u32 \<times> u32) list \<Rightarrow> u32 \<Rightarrow> 'd cortexm \<Rightarrow>
   (bool \<times> 'd cortexm target_ops \<times> 'd cortexm) option" where
  "mm32_take ops name mm32_id rams flash_kbyte t =
     do { let t = t\<lparr>part_id := ucast (mm32_id AND 0xfff), driver := name\<rparr>;
          let t = fold (\<lambda>(a, kb). if kb \<noteq> 0 then target_add_ram a (kb * 1024) else id) rams t;
          t \<leftarrow> stm32f1_add_flash 0x08000000 (flash_kbyte * 1024) 0x400 t;
          Some (True, ops\<lparr>mass_erase_fn := Some (stm32f1_mass_erase ops)\<rparr>, target_add_commands stm32f1_cmd_list name t) }"

definition mm32f3xx_probe ::
  "'d cortexm target_ops \<Rightarrow> 'd cortexm \<Rightarrow> (bool \<times> 'd cortexm target_ops \<times> 'd cortexm) option" where
  "mm32f3xx_probe ops t =
     do { (mm32_id, t) \<leftarrow> target_mem_read32 ops DBGMCU_IDCODE_MM32F3 t;
          (err, t) \<leftarrow> target_check_error ops t;
          if err then Some (False, ops, t)
          else if mm32_id = 0xcc9aa0e7 then mm32_take ops ''MM32F3273'' mm32_id [(0x20000000, 128), (0x30000000, 0)] 512 t
          else if mm32_id = 0x4d4d0800 then mm32_take ops ''MM32F5277'' mm32_id [(0x20000000, 32), (0x30000000, 128)] 256 t
          else Some (False, ops, t) }"

text \<open>mm32l0xx_probe also replaces the debug port's write routine by mm32l0_mem_write_sized; its last
  result says so.\<close>

definition mm32l0xx_probe ::
  "'d cortexm target_ops \<Rightarrow> 'd cortexm \<Rightarrow> ((bool \<times> 'd cortexm target_ops \<times> 'd cortexm) \<times> bool) option" where
  "mm32l0xx_probe ops t =
     do { (mm32_id, t) \<leftarrow> target_mem_read32 ops DBGMCU_IDCODE_MM32L0 t;
          (err, t) \<leftarrow> target_check_error ops t;
          if err then Some ((False, ops, t), False)
          else if mm32_id = 0xcc568091 then
            do { r \<leftarrow> mm32_take ops ''MM32L07x'' mm32_id [(0x20000000, 8)] 128 t; Some (r, True) }
          else if mm32_id = 0xcc4460b1 then
            do { r \<leftarrow> mm32_take ops ''MM32SPIN05'' mm32_id [(0x20000000, 4)] 32 t; Some (r, True) }
          else if mm32_id = 0xcc56a097 then
            do { r \<leftarrow> mm32_take ops ''MM32SPIN27'' mm32_id [(0x20000000, 12)] 128 t; Some (r, True) }
          else Some ((False, ops, t), False) }"

text \<open>The MM32 write routine: as adiv5_mem_write_bytes, with the datum replicated on every lane and
  the address advanced before the data register is written.\<close>

definition mm32l0_pack :: "byte list \<Rightarrow> align_e \<Rightarrow> u32 option" where
  "mm32l0_pack src align =
     (case align of
        ALIGN_8BIT \<Rightarrow>
          (if length src < 1 then None
           else (let v = (ucast (src ! 0) :: u32); v = v OR push_bit 8 v in Some (v OR push_bit 16 v)))
      | ALIGN_16BIT \<Rightarrow>
          (if length src < 2 then None
           else (let v = (ucast (u16_of_bytes (take 2 src)) :: u32) in Some (v OR push_bit 16 v)))
      | _ \<Rightarrow> (if length src < 4 then None else Some (u32_of_bytes (take 4 src))))"

primrec mm32l0_write_loop ::
  "'s dp_ops \<Rightarrow> align_e \<Rightarrow> nat \<Rightarrow> u32 \<Rightarrow> u32 \<Rightarrow> byte list \<Rightarrow> 's \<Rightarrow> 's option" where
  "mm32l0_write_loop ops align 0 dest odest src s = Some s"
| "mm32l0_write_loop ops align (Suc n) dest odest src s =
     do { tmp \<leftarrow> mm32l0_pack src align;
          let src = drop (2 ^ align_val align) src;
          let dest = dest + push_bit (align_val align) 1;
          (_, s) \<leftarrow> dp_low_access ops ADIV5_LOW_WRITE ADIV5_AP_DRW tmp s;
          if (dest XOR odest) AND 0xfffffc00 \<noteq> 0 then
            do { (_, s) \<leftarrow> dp_low_access ops ADIV5_LOW_WRITE ADIV5_AP_TAR dest s;
                 mm32l0_write_loop ops align n dest dest src s }
          else mm32l0_write_loop ops align n dest odest src s }"

definition mm32l0_mem_write_sized ::
  "'s dp_ops \<Rightarrow> adiv5_access_port \<Rightarrow> u32 \<Rightarrow> byte list \<Rightarrow> nat \<Rightarrow> align_e \<Rightarrow> 's \<Rightarrow> 's option" where
  "mm32l0_mem_write_sized ops ap dest src len align s =
     do { s \<leftarrow> ap_mem_access_setup ops ap dest align s;
          s \<leftarrow> mm32l0_write_loop ops align (len div 2 ^ align_val align) dest dest src s;
          (_, s) \<leftarrow> dp_read ops ADIV5_DP_RDBUFF s;
          Some s }"

end
