(* ===== verification/Cortexm_Probe.thy ===== *)
theory Cortexm_Probe
  imports Cortexm_Run Stm32f1
begin

text \<open>
  Turning an access port into a target: cortexm_probe of src/target/cortexm.c. It fills a new target,
  reads the core's identity, tests for an FPU by writing the coprocessor access register, releases a
  held reset, reads the cache type, and then offers the target to the drivers in an order that
  depends on the designer and part codes. Drivers are named by the datatype cm_probe and run by a
  parameter; driver_table connects the names to the drivers modelled in Stm32f1.
\<close>

datatype cm_probe =
  P_imxrt | P_kinetis | P_gd32f1 | P_gd32f4 | P_stm32f1 | P_stm32f4 | P_stm32h5 | P_stm32h7 | P_stm32mp15_cm4
| P_stm32l0 | P_stm32l4 | P_stm32g0 | P_nrf51 | P_nrf91 | P_samx7x | P_sam4l | P_samd | P_samx5x | P_efm32
| P_msp432p4 | P_lpc11xx | P_rp | P_renesas_ra | P_lpc55xx | P_mm32f3xx | P_hc32l110 | P_lmi | P_ch32f1
| P_lpc15xx | P_lpc43xx | P_mm32l0xx | P_sam3x | P_lpc546xx | P_at32f40x | P_at32f43x | P_lpc40xx | P_msp432e4
| P_ke04 | P_lpc17xx

record probe_ids =
  dp_version :: nat
  dp_target_designer :: u16
  dp_target_partno :: u16
  dp_designer :: u16
  ap_designer :: u16
  ap_partno :: u16

abbreviation (input) JEP106_ARM_CHINA :: u16 where "JEP106_ARM_CHINA \<equiv> 0xa75"
abbreviation (input) JEP106_ERRATA_ARM_CHINA :: u16 where "JEP106_ERRATA_ARM_CHINA \<equiv> 0xc7f"

text \<open>The switch over designer codes: the drivers offered, in order.\<close>

definition probe_order :: "u16 \<Rightarrow> u16 \<Rightarrow> u32 \<Rightarrow> cm_probe list" where
  "probe_order designer part cpu =
     (if designer = 0x00e then [P_imxrt, P_kinetis]
      else if designer = 0x751 then [P_gd32f1, P_gd32f4]
      else if designer = 0x020 then
        [P_stm32f1, P_stm32f4, P_stm32h5, P_stm32h7, P_stm32mp15_cm4, P_stm32l0, P_stm32l4, P_stm32g0]
      else if designer = 0x034 \<or> designer = 0x041 then []
      else if designer = 0x244 then [P_nrf51, P_nrf91]
      else if designer = 0x01f then [P_samx7x, P_sam4l, P_samd, P_samx5x]
      else if designer = 0x673 then [P_efm32]
      else if designer = 0x017 then [P_msp432p4]
      else if designer = 0x501 then [P_lpc11xx]
      else if designer = 0x913 then [P_rp]
      else if designer = 0x423 then [P_renesas_ra]
      else if designer = 0x015 then (if cpu AND CORTEX_CPUID_PARTNO_MASK = CORTEX_M33 then [P_lpc55xx] else [])
      else if designer = JEP106_ARM_CHINA then [P_mm32f3xx]
      else if designer = 0x43b then
        (if part = 0x4c0 then [P_lpc11xx, P_hc32l110]
         else if part = 0x4c1 then [P_lpc11xx]
         else if part = 0x4c3 then [P_lmi, P_ch32f1, P_stm32f1, P_lpc15xx, P_mm32f3xx]
         else if part = 0x471 then [P_lpc11xx, P_lpc43xx, P_mm32l0xx]
         else if part = 0x4c4 then
           [P_sam3x, P_lmi, P_lpc546xx, P_lpc43xx, P_at32f40x, P_at32f43x, P_lpc40xx, P_kinetis, P_msp432e4]
         else if part = 0x4cb then [P_gd32f1]
         else [])
      else if designer = 0x8000 then [P_sam3x, P_ke04, P_lpc17xx, P_lpc11xx]
      else [])"

type_synonym 'd probe_fn = "'d cortexm target_ops \<Rightarrow> 'd cortexm \<Rightarrow> (bool \<times> 'd cortexm target_ops \<times> 'd cortexm) option"

text \<open>The PROBE macro over a list: the first driver that takes the part ends the search, after a
  refusal pending errors are cleared.\<close>

fun run_probes ::
  "(cm_probe \<Rightarrow> 'd probe_fn) \<Rightarrow> cm_probe list \<Rightarrow> 'd cortexm target_ops \<Rightarrow> 'd cortexm \<Rightarrow>
   ('d cortexm target_ops \<times> 'd cortexm) option" where
  "run_probes drivers [] ops t = Some (ops, t)"
| "run_probes drivers (p # ps) ops t =
     do { (taken, ops, t) \<leftarrow> drivers p ops t;
          if taken then Some (ops, t)
          else do { (_, t) \<leftarrow> target_check_error ops t; run_probes drivers ps ops t } }"

definition target_cmd_list :: "string list" where
  "target_cmd_list = [''erase_mass'', ''erase_range'', ''redirect_stdout'']"

definition cortexm_cmd_list :: "string list" where
  "cortexm_cmd_list = [''vector_catch'']"

text \<open>A zeroed target over an access port, with the platform state of env.\<close>

definition cortexm_new :: "adiv5_access_port \<Rightarrow> 'd cortexm \<Rightarrow> 'd cortexm" where
  "cortexm_new ap env =
     \<lparr>t_tc = None, t_ram = [], t_flash = [], flash_mode = False, target_options = 0, driver = [], cpuid = 0,
      core = None, cmdline = replicate 81 0, heapinfo = [0, 0, 0, 0], commands = [], stdout_redirected = False,
      bw_list = [], regs_size = 0, designer_code = 0, part_id = 0, attached = False,
      plat_clk_output = plat_clk_output env, plat_nrst = plat_nrst env, plat_mallocs = plat_mallocs env,
      plat_expired = plat_expired env,
      cm_ap = ap, cm_dp = cm_dp env, base_addr = 0, icache_line_length = 0, dcache_line_length = 0,
      breakpoints_mask = 0, watchpoints_mask = 0, watchpoints_available = 0, breakpoints_available = 0,
      stepping = False, on_bkpt = False, flash_patch_revision = 0, priv_demcr = 0\<rparr>"

definition probe_designer :: "probe_ids \<Rightarrow> u16 \<times> u16" where
  "probe_designer ids =
     (let (des, prt) = (if dp_version ids \<ge> 2 \<and> dp_target_designer ids \<noteq> 0
                        then (dp_target_designer ids, dp_target_partno ids) else (ap_designer ids, ap_partno ids));
          des = (if des = JEP106_ERRATA_ARM_CHINA \<and> dp_designer ids = JEP106_ARM_CHINA then JEP106_ARM_CHINA else des)
      in (des, prt))"

text \<open>Release from a reset held during the connection. reset_wait is the same poll as after a reset.\<close>

definition probe_release_reset :: "'d cortexm target_ops \<Rightarrow> 'd cortexm \<Rightarrow> 'd cortexm option" where
  "probe_release_reset ops t =
     do { t \<leftarrow> target_mem_write32 ops CORTEXM_DEMCR (priv_demcr t) t;
          t \<leftarrow> cortexm_halt_request ops t;
          let t = t\<lparr>plat_nrst := False\<rparr>;
          reset_wait ops (length (plat_expired t)) t }"

definition probe_cache_type :: "'d cortexm target_ops \<Rightarrow> 'd cortexm \<Rightarrow> 'd cortexm option" where
  "probe_cache_type ops t =
     do { (ct, t) \<leftarrow> target_mem_read32 ops CORTEXM_CTR t;
          if drop_bit 29 ct = 4
          then Some (t\<lparr>icache_line_length := push_bit (unat (ct AND 0xf)) 1,
                      dcache_line_length := push_bit (unat (drop_bit 16 ct AND 0xf)) 1\<rparr>)
          else do { (_, t) \<leftarrow> target_check_error ops t; Some t } }"

definition probe_fpu :: "'d cortexm target_ops \<Rightarrow> 'd cortexm \<Rightarrow> (bool \<times> 'd cortexm) option" where
  "probe_fpu ops t =
     do { (cpacr, t) \<leftarrow> target_mem_read32 ops CORTEXM_CPACR t;
          let cpacr = cpacr OR 0x00f00000;
          t \<leftarrow> target_mem_write32 ops CORTEXM_CPACR cpacr t;
          (v, t) \<leftarrow> target_mem_read32 ops CORTEXM_CPACR t;
          Some (v = cpacr, t) }"

text \<open>The result: the target that is in the list afterwards, with its function pointers, and the
  environment, which carries the debug port and the platform. When the allocation of the private
  structure fails, the target stays in the list without function pointers.\<close>

definition no_ops :: "'d cortexm target_ops" where
  "no_ops = \<lparr>attach_fn = None, detach_fn = None, check_error_fn = None, mem_read_fn = None, mem_write_fn = None, reg_read_fn = None,
     reg_write_fn = None, regs_read_fn = None, regs_write_fn = None, reset_fn = None, extended_reset_fn = None, halt_request_fn = None, halt_poll_fn = None,
     halt_resume_fn = None, breakwatch_set_fn = None, breakwatch_clear_fn = None, mass_erase_fn = None,
     enter_flash_mode_fn = None, exit_flash_mode_fn = None, destroy_callback_fn = Some,
     flash_ops_of = (\<lambda>_. no_flash_ops)\<rparr>"

definition cortexm_probe ::
  "'d dp_ops \<Rightarrow> 'd semihosting \<Rightarrow> (flash_fns \<Rightarrow> 'd cortexm flash_ops) \<Rightarrow> (cm_probe \<Rightarrow> 'd probe_fn) \<Rightarrow> probe_ids \<Rightarrow>
   adiv5_access_port \<Rightarrow> 'd cortexm \<Rightarrow> (('d cortexm target_ops \<times> 'd cortexm) option \<times> 'd cortexm) option" where
  "cortexm_probe dp sh fo drivers ids ap env =
     (let (ok, env) = plat_malloc env
      in if \<not> ok then Some (None, env)
         else do {
           let t = target_add_commands target_cmd_list ''Target'' (cortexm_new ap env);
           let t = t\<lparr>designer_code := fst (probe_designer ids), part_id := snd (probe_designer ids)\<rparr>;
           let (ok, t) = plat_malloc t;
           if \<not> ok then Some (Some (no_ops, t), t)
           else do {
             let ops = cortexm_ops dp sh fo;
             let t = t\<lparr>base_addr := 0xe000e000, driver := ''ARM Cortex-M''\<rparr>;
             t \<leftarrow> cortex_read_cpuid dp t;
             (is_cortexmf, t) \<leftarrow> probe_fpu ops t;
             let t = t\<lparr>regs_size := 80\<rparr>;
             let t = target_add_commands cortexm_cmd_list (driver t) t;
             let t = (if is_cortexmf then t\<lparr>target_options := target_options t OR CORTEXM_TOPT_FLAVOUR_V7MF,
                                            regs_size := regs_size t + 132\<rparr> else t);
             let t = t\<lparr>priv_demcr := 0x01000401\<rparr>;
             let conn_reset = plat_nrst t;
             t \<leftarrow> (if conn_reset then probe_release_reset ops t else Some t);
             t \<leftarrow> probe_cache_type ops t;
             t \<leftarrow> (if conn_reset then target_mem_write32 ops CORTEXM_DEMCR 0 t else Some t);
             (ops, t) \<leftarrow> run_probes drivers (probe_order (designer_code t) (part_id t) (cpuid t)) ops t;
             Some (Some (ops, t), t) } })"

text \<open>The drivers of src/target/stm32f1.c; any other driver is other. mm32l0xx_probe also replaces
  the debug port's write routine, which this table does not show.\<close>

definition driver_table :: "(cm_probe \<Rightarrow> 'd probe_fn) \<Rightarrow> cm_probe \<Rightarrow> 'd probe_fn" where
  "driver_table other p =
     (case p of P_stm32f1 \<Rightarrow> stm32f1_probe | P_gd32f1 \<Rightarrow> gd32f1_probe | P_at32f40x \<Rightarrow> at32f40x_probe
      | P_mm32f3xx \<Rightarrow> mm32f3xx_probe | _ \<Rightarrow> other p)"

end
