(* ===== verification/Adiv5_Emu.thy ===== *)
theory Adiv5_Emu
  imports Adiv5
begin

text \<open>
  The emulated transport as a provider of the access-port contract: the function pointers emu_scan
  installs in the debug port (emu_dp_ops), the access port that discovery creates (emu_ap), the
  interpretation of mem_ap on them, and what a block read or write of src/target/adiv5.c therefore
  does to the flash array and the SRAM of the device.
\<close>

definition emu_dp_ops :: "emu_shim dp_ops" where
  "emu_dp_ops = \<lparr>dp_read = emu_shim_dp_read, dp_low_access = emu_shim_low_access, dp_error = emu_shim_error,
     dp_abort = emu_shim_abort, dp_fault_of = dp_fault, dp_fault_set = (\<lambda>v. dp_fault_update (\<lambda>_. v)), swd_seq_in_parity = Some\<rparr>"

definition emu_ap :: adiv5_access_port where
  "emu_ap = \<lparr>apsel = 0, idr = EMU_AP_IDR, ap_base = EMU_AP_BASE, csw = ADIV5_AP_CSW_DBGSWENABLE,
     ap_cortexm_demcr = 0\<rparr>"

definition shim_ok :: "emu_shim \<Rightarrow> bool" where
  "shim_ok s \<longleftrightarrow> dp_fault s = 0"

definition shim_sel :: "emu_shim \<Rightarrow> bool" where
  "shim_sel s \<longleftrightarrow> shim_ok s \<and> (ucast (drop_bit 24 (g_select s)) :: u8) = 0"

lemma emu_dp_ops_sel [simp]:
  "dp_low_access emu_dp_ops = emu_shim_low_access" "dp_read emu_dp_ops = emu_shim_dp_read"
  "dp_fault_of emu_dp_ops = dp_fault" "dp_error emu_dp_ops = emu_shim_error"
  "dp_fault_set emu_dp_ops v s = s\<lparr>dp_fault := v\<rparr>"
  by (simp_all add: emu_dp_ops_def)

lemma emu_csw_for:
  assumes "al \<noteq> ALIGN_64BIT" "g_csw s = csw_for emu_ap al"
  shows "csw_access_size s = acc_size al" "csw_autoinc s"
  using assms by (cases al; simp add: csw_access_size_def csw_autoinc_def csw_for_def emu_ap_def acc_size_def)+

lemma emu_select_word: "(ucast (drop_bit 24 (ap_select_word emu_ap r)) :: u8) = 0"
proof -
  have "(ucast (drop_bit 24 (ucast (r AND 0xf0) :: u32)) :: u8) = 0"
    by (rule bit_word_eqI) (auto simp: bit_simps dest: bit_imp_le_length)
  then show ?thesis by (simp add: ap_select_word_def emu_ap_def)
qed

lemma emu_load_total: "mem_access a sz \<Longrightarrow> \<exists>v. emu_target_load a sz s = Some v"
  by (cases "in_flash a \<or> in_sram a", blast intro: emu_load_mem)
    (simp add: emu_target_load_eq)

interpretation emu_bus: mem_ap emu_dp_ops emu_ap shim_ok shim_sel g_tar g_csw g_posted tgt
  emu_target_load emu_target_store
proof unfold_locales
  fix s :: emu_shim and al v
  assume *: "shim_sel s" "al \<noteq> ALIGN_64BIT" "g_csw s = csw_for emu_ap al"
    "emu_target_load (g_tar s) (acc_size al) (tgt s) = Some v"
  then show "\<exists>s'. dp_low_access emu_dp_ops ADIV5_LOW_READ ADIV5_AP_DRW 0 s = Some (g_posted s, s') \<and>
          shim_sel s' \<and> g_csw s' = g_csw s \<and> tgt s' = tgt s \<and>
          g_posted s' = push_bit (lane_shift (g_tar s) (acc_size al)) v \<and>
          g_tar s' = tar_next (g_tar s) (acc_size al)"
    using emu_csw_for [OF *(2,3)]
    by (simp add: emu_shim_low_access_def ap_reg_read_def shim_sel_def shim_ok_def Let_def tar_autoinc_def
        csw_autoinc_def tar_next_def)
next
  fix s :: emu_shim and al v m'
  assume *: "shim_sel s" "al \<noteq> ALIGN_64BIT" "g_csw s = csw_for emu_ap al"
    "emu_target_store (g_tar s) (drop_bit (lane_shift (g_tar s) (acc_size al)) v AND size_mask (acc_size al))
        (acc_size al) (tgt s) = Some m'"
  then show "\<exists>x s'. dp_low_access emu_dp_ops ADIV5_LOW_WRITE ADIV5_AP_DRW v s = Some (x, s') \<and>
          shim_sel s' \<and> g_csw s' = g_csw s \<and> tgt s' = m' \<and>
          g_tar s' = tar_next (g_tar s) (acc_size al)"
    using emu_csw_for [OF *(2,3)]
    by (simp add: emu_shim_low_access_def ap_reg_write_def shim_sel_def shim_ok_def Let_def tar_autoinc_def
        csw_autoinc_def tar_next_def)
qed (auto simp: shim_sel_def shim_ok_def emu_shim_low_access_def emu_shim_dp_read_def ap_reg_write_def
   emu_select_word emu_load_total)

lemma emu_fault_ok: "shim_ok s \<Longrightarrow> dp_fault s \<noteq> 7"
  by (simp add: shim_ok_def)

lemma emu_new_ap_0:
  assumes "shim_ok s" "g_csw s = 0"
  shows "\<exists>s'. adiv5_new_ap emu_dp_ops 0 True s = Some (Some emu_ap, s') \<and> shim_ok s' \<and> tgt s' = tgt s \<and> g_ctrlstat s' = g_ctrlstat s"
  using assms by (simp add: adiv5_new_ap_def firmware_ap_read_def adiv5_dp_recoverable_access_def
    emu_shim_low_access_def emu_shim_dp_read_def ap_reg_read_def ap_select_word_def Let_def emu_ap_def shim_ok_def)

lemma emu_new_ap_other:
  assumes "i \<noteq> 0" "shim_ok s"
  shows "\<exists>s'. adiv5_new_ap emu_dp_ops i h s = Some (None, s') \<and> shim_ok s' \<and> tgt s' = tgt s"
proof -
  have "(ucast (drop_bit 24 (push_bit 24 (ucast i :: u32) OR ucast (r AND 0xf0 :: u16))) :: u8) = i" for r
    by (rule bit_word_eqI) (auto simp: bit_simps dest: bit_imp_le_length)
  from this [of ADIV5_AP_IDR] this [of ADIV5_AP_BASE] show ?thesis using assms
  by (simp add: adiv5_new_ap_def firmware_ap_read_def adiv5_dp_recoverable_access_def
    emu_shim_low_access_def emu_shim_dp_read_def ap_reg_read_def ap_select_word_def Let_def emu_ap_def shim_ok_def)
qed

subsection \<open>Block accesses to flash and SRAM\<close>

lemma length_1_2_4:
  assumes "sz \<in> {1, 2, 4 :: u32}" "length bs = unat sz"
  obtains (1) a where "sz = 1" "bs = [a]" | (2) a b where "sz = 2" "bs = [a, b]"
    | (4) a b c d where "sz = 4" "bs = [a, b, c, d]"
proof -
  from assms(1) consider "sz = 1" | "sz = 2" | "sz = 4" by blast
  then show ?thesis
  proof cases
    case 1
    with assms(2) have "length bs = Suc 0" by simp
    with 1 show ?thesis by (auto simp: length_Suc_conv intro: that)
  next
    case 2
    with assms(2) have "length bs = Suc (Suc 0)" by simp
    with 2 show ?thesis by (auto simp: length_Suc_conv intro: that)
  next
    case 3
    with assms(2) have "length bs = Suc (Suc (Suc (Suc 0)))" by simp
    with 3 show ?thesis by (auto simp: length_Suc_conv intro: that)
  qed
qed

lemma word_bytes_of_bytes:
  assumes "sz \<in> {1, 2, 4}" "length bs = unat sz"
  shows "word_bytes sz (u32_of_bytes bs) = bs"
proof -
  have *: "u32_of_bytes [a] = u32_of_bytes [a, 0, 0, 0]" "u32_of_bytes [a, b] = u32_of_bytes [a, b, 0, 0]" for a b
    by simp_all
  show ?thesis
    using assms
  proof (cases rule: length_1_2_4)
    case (1 a)
    then show ?thesis unfolding word_bytes_def by (simp only: * bytes_of_u32_of_bytes) simp
  next
    case (2 a b)
    then show ?thesis unfolding word_bytes_def by (simp only: * bytes_of_u32_of_bytes) simp
  next
    case (4 a b c d)
    then show ?thesis unfolding word_bytes_def by (simp only: bytes_of_u32_of_bytes) simp
  qed
qed

lemma val_bytes_word_bytes: "sz \<in> {1, 2, 4} \<Longrightarrow> val_bytes v 0 (unat sz) = word_bytes sz v"
  by (auto simp: val_bytes_def word_bytes_def bytes_of_u32_def upt_rec)

lemma val_bytes_of_bytes:
  "sz \<in> {1, 2, 4 :: u32} \<Longrightarrow> length bs = unat sz \<Longrightarrow> val_bytes (u32_of_bytes bs) 0 (unat sz) = bs"
  by (rule trans [OF val_bytes_word_bytes word_bytes_of_bytes])

definition flash_range :: "u32 \<Rightarrow> nat \<Rightarrow> bool" where
  "flash_range a n \<longleftrightarrow> n = 0 \<or> in_flash a \<and> unat a + n \<le> 134348800"

definition sram_range :: "u32 \<Rightarrow> nat \<Rightarrow> bool" where
  "sram_range a n \<longleftrightarrow> n = 0 \<or> in_sram a \<and> unat a + n \<le> 536891392"

lemma range_step:
  assumes "sz \<in> {1, 2, 4}" "flash_range a (unat sz + n)"
  shows "in_flash a" "flash_range (a + sz) n"
proof -
  have sz: "0 < unat sz" "unat sz \<le> 4" using assms(1) by auto
  with assms show "in_flash a" by (simp add: flash_range_def)
  with assms sz show "flash_range (a + sz) n"
    by (auto simp: flash_range_def in_flash_iff unat_word_ariths)
qed

lemma sram_range_step:
  assumes "sz \<in> {1, 2, 4}" "sram_range a (unat sz + n)"
  shows "in_sram a" "sram_range (a + sz) n"
proof -
  have sz: "0 < unat sz" "unat sz \<le> 4" using assms(1) by auto
  with assms show "in_sram a" by (simp add: sram_range_def)
  with assms sz show "sram_range (a + sz) n"
    by (auto simp: sram_range_def in_sram_iff unat_word_ariths)
qed

lemma mem_access_step: "mem_access a sz \<Longrightarrow> mem_access (a + sz) sz"
  by (auto simp: mem_access_def unat_word_ariths mod_mod_cancel)

lemma read_chunks_mem:
  assumes "mem_access a sz" "flash_range a (n * unat sz) \<or> sram_range a (n * unat sz)"
  shows "read_chunks emu_target_load m sz a n = map (\<lambda>j. mem_at m (a + of_nat j)) [0..<n * unat sz]"
  using assms
proof (induction n arbitrary: a)
  case (Suc n)
  have sz: "sz \<in> {1, 2, 4}" using Suc.prems(1) by (simp add: mem_access_def)
  have r: "in_flash a \<or> in_sram a" "flash_range (a + sz) (n * unat sz) \<or> sram_range (a + sz) (n * unat sz)"
    using Suc.prems(2) range_step [OF sz] sram_range_step [OF sz] by auto
  have "word_bytes sz (the (emu_target_load a sz m)) = map (\<lambda>j. mem_at m (a + of_nat j)) [0..<unat sz]"
    unfolding emu_load_mem [OF Suc.prems(1) r(1)] option.sel by (rule word_bytes_of_bytes [OF sz]) simp
  moreover have "map (\<lambda>j. mem_at m (a + sz + of_nat j)) [0..<n * unat sz] =
     map (\<lambda>j. mem_at m (a + of_nat j)) [unat sz..<unat sz + n * unat sz]"
    by (rule nth_equalityI) (simp_all add: ac_simps)
  ultimately show ?case
    using Suc.IH [OF mem_access_step [OF Suc.prems(1)] r(2)]
    by (simp add: read_chunks_Suc upt_add_eq_append [of 0 "unat sz" "n * unat sz"])
qed simp

lemma emu_read_bytes:
  assumes "shim_ok s" "flash_range a len \<or> sram_range a len"
  shows "\<exists>s'. advi5_mem_read_bytes emu_dp_ops emu_ap a len s =
      Some (map (\<lambda>j. mem_at (tgt s) (a + of_nat j)) [0..<len], s') \<and> shim_ok s' \<and> tgt s' = tgt s"
proof -
  let ?al = "MIN_ALIGN a (of_nat len)"
  have len: "len < 2 ^ 32" using assms(2) by (auto simp: flash_range_def sram_range_def)
  have d: "len div unat (acc_size ?al) * unat (acc_size ?al) = len"
    using MIN_ALIGN_len [OF len, of a] by (metis add.right_neutral div_mult_mod_eq)
  have "read_chunks emu_target_load (tgt s) (acc_size ?al) a (len div unat (acc_size ?al)) =
      map (\<lambda>j. mem_at (tgt s) (a + of_nat j)) [0..<len]"
    using read_chunks_mem [OF MIN_ALIGN_access(1) [of a "of_nat len"], of "len div unat (acc_size ?al)"] assms(2) d by simp
  then show ?thesis using emu_bus.block_read [OF assms(1) len refl, of a] by simp
qed

lemma flash_frame_ctl:
  assumes "flash_frame s s'"
  shows "g_flash_unlocked s' = g_flash_unlocked s" "g_flash_cr s' = g_flash_cr s" "g_sram s' = g_sram s"
    "g_flash_keyr s' = g_flash_keyr s" "g_flash_ar s' = g_flash_ar s" "g_demcr s' = g_demcr s"
  using assms unfolding flash_frame_def by (cases s, cases s', simp)+

lemma flash_programmed_ctl:
  assumes "flash_programmed off bs s s'"
  shows "no_oom s \<Longrightarrow> no_oom s'" "g_flash_unlocked s' = g_flash_unlocked s" "g_flash_cr s' = g_flash_cr s"
  using assms by (auto simp: flash_programmed_def dest: flash_frame_ctl)

lemma store_chunks_flash:
  assumes "mem_access a sz" "flash_range a (n * unat sz)" "n * unat sz \<le> length bs"
    and "no_oom m" "g_flash_unlocked m" "g_flash_cr m AND CR_PG \<noteq> 0" "fpec_ok m"
  shows "\<exists>m'. store_chunks emu_target_store sz n a bs m = Some m' \<and>
    flash_programmed (flash_off a) (take (n * unat sz) bs) m m' \<and> fpec_ok m' \<and>
    (n \<noteq> 0 \<longrightarrow> g_flash_sr m' = SR_EOP)"
  using assms
proof (induction n arbitrary: a bs m)
  case 0
  then show ?case by (simp add: flash_programmed_refl)
next
  case (Suc n)
  have sz: "sz \<in> {1, 2, 4}" "0 < unat sz" using Suc.prems(1) by (auto simp: mem_access_def)
  have r: "in_flash a" "flash_range (a + sz) (n * unat sz)" using Suc.prems(2) range_step [OF sz(1)] by auto
  let ?b = "take (unat sz) bs"
  have lb: "length ?b = unat sz" using Suc.prems(3) by simp
  obtain m1 where m1: "emu_target_store a (u32_of_bytes ?b) sz m = Some m1"
    "flash_programmed (flash_off a) ?b m m1" "g_flash_sr m1 = sr_done (g_flash_sr m)"
    using emu_store_flash [OF Suc.prems(1) r(1) Suc.prems(4-6), of "u32_of_bytes ?b"]
    by (simp only: val_bytes_of_bytes [OF sz(1) lb]) blast
  have fr: "no_oom m1" "g_flash_unlocked m1" "g_flash_cr m1 AND CR_PG \<noteq> 0" "fpec_ok m1"
    using flash_programmed_ctl [OF m1(2)] m1(3) Suc.prems(4-7) by (auto simp: fpec_ok_def)
  have off: "flash_off (a + sz) = flash_off a + length ?b" if "n \<noteq> 0"
    using r that sz(2) lb Suc.prems(2) by (auto simp: flash_range_def in_flash_iff word_le_nat_alt unat_sub unat_word_ariths)
  obtain m' where m': "store_chunks emu_target_store sz n (a + sz) (drop (unat sz) bs) m1 = Some m'"
    "flash_programmed (flash_off (a + sz)) (take (n * unat sz) (drop (unat sz) bs)) m1 m'" "fpec_ok m'"
    "n \<noteq> 0 \<longrightarrow> g_flash_sr m' = SR_EOP"
    using Suc.IH [OF mem_access_step [OF Suc.prems(1)] r(2) _ fr, of "drop (unat sz) bs"] Suc.prems(3)
    by (simp add: le_diff_conv2) blast
  have "flash_programmed (flash_off a + length ?b) (take (n * unat sz) (drop (unat sz) bs)) m1 m'"
    using m'(2) off by (cases n) (auto simp: flash_programmed_def)
  moreover have "g_flash_sr m' = SR_EOP"
    using m'(1,4) m1(3) sr_done_ok [OF Suc.prems(7)] by (cases n) auto
  ultimately show ?case using flash_programmed_trans [OF m1(2)] m' m1(1) lb
    by (simp add: take_add)
qed

lemma emu_write_flash_sized:
  assumes "shim_ok s" "flash_range a len" "len \<le> length bs" "al \<noteq> ALIGN_64BIT" "mem_access a (acc_size al)" "len mod unat (acc_size al) = 0"
    and "no_oom (tgt s)" "g_flash_unlocked (tgt s)" "g_flash_cr (tgt s) AND CR_PG \<noteq> 0" "fpec_ok (tgt s)"
  shows "\<exists>s'. adiv5_mem_write_bytes emu_dp_ops emu_ap a bs len al s = Some s' \<and> shim_ok s' \<and>
    flash_programmed (flash_off a) (take len bs) (tgt s) (tgt s') \<and> fpec_ok (tgt s') \<and>
    (len \<noteq> 0 \<longrightarrow> g_flash_sr (tgt s') = SR_EOP)"
proof -
  let ?sz = "acc_size al"
  have d: "len div unat ?sz * unat ?sz = len" using assms(6) by (metis add.right_neutral div_mult_mod_eq)
  obtain m' where m': "store_chunks emu_target_store ?sz (len div unat ?sz) a bs (tgt s) = Some m'"
    "flash_programmed (flash_off a) (take len bs) (tgt s) m'" "fpec_ok m'"
    "len div unat ?sz \<noteq> 0 \<longrightarrow> g_flash_sr m' = SR_EOP"
    using store_chunks_flash [OF assms(5) _ _ assms(7-10), of "len div unat ?sz" bs] assms(2,3) unfolding d by blast
  moreover have "len \<noteq> 0 \<longrightarrow> len div unat ?sz \<noteq> 0" using d by (metis mult_0)
  ultimately show ?thesis using emu_bus.block_write_sized [OF assms(1,3,4) m'(1)] by blast
qed

lemma emu_write_flash:
  assumes "shim_ok s" "flash_range a len" "len \<le> length bs"
    and "no_oom (tgt s)" "g_flash_unlocked (tgt s)" "g_flash_cr (tgt s) AND CR_PG \<noteq> 0" "fpec_ok (tgt s)"
  shows "\<exists>s'. adiv5_mem_write emu_dp_ops emu_ap a bs len s = Some s' \<and> shim_ok s' \<and>
    flash_programmed (flash_off a) (take len bs) (tgt s) (tgt s') \<and> fpec_ok (tgt s')"
proof -
  let ?sz = "acc_size (MIN_ALIGN a (of_nat len))"
  have len: "len < 2 ^ 32" using assms(2) by (auto simp: flash_range_def)
  have d: "len div unat ?sz * unat ?sz = len"
    using MIN_ALIGN_len [OF len, of a] by (metis add.right_neutral div_mult_mod_eq)
  obtain m' where m': "store_chunks emu_target_store ?sz (len div unat ?sz) a bs (tgt s) = Some m'"
    "flash_programmed (flash_off a) (take len bs) (tgt s) m'" "fpec_ok m'"
    using store_chunks_flash [OF MIN_ALIGN_access(1) [of a "of_nat len"] _ _ assms(4-7), of "len div unat ?sz" bs]
      assms(2,3) unfolding d by blast
  then show ?thesis using emu_bus.block_write [OF assms(1,3) refl m'(1)] by blast
qed

definition sram_updated :: "nat \<Rightarrow> byte list \<Rightarrow> 'a emu_target_scheme \<Rightarrow> 'a emu_target_scheme" where
  "sram_updated off bs m =
     m\<lparr>g_sram := (\<lambda>k. if off \<le> k \<and> k < off + length bs then bs ! (k - off) else g_sram m k)\<rparr>"

lemma sram_updated_append:
  "sram_updated (off + length bs) cs (sram_updated off bs m) = sram_updated off (bs @ cs) m"
  by (auto simp: sram_updated_def fun_eq_iff nth_append intro!: emu_target.equality)

lemma sram_updated_Nil [simp]: "sram_updated off [] m = m"
  by (auto simp: sram_updated_def fun_eq_iff intro!: emu_target.equality)

lemma emu_store_sram_bytes:
  assumes "mem_access a sz" "in_sram a" "length bs = unat sz"
  shows "emu_target_store a (u32_of_bytes bs) sz m = Some (sram_updated (unat (a - EMU_SRAM_BASE)) bs m)"
proof -
  have sz: "sz \<in> {1, 2, 4}" using assms(1) by (simp add: mem_access_def)
  have "ucast (drop_bit (8 * j) (u32_of_bytes bs)) = bs ! j" if "j < unat sz" for j
    using arg_cong [OF val_bytes_of_bytes [OF sz assms(3)], of "\<lambda>xs. xs ! j"] that by (simp add: val_bytes_def)
  moreover obtain f where "emu_target_store a (u32_of_bytes bs) sz m = Some (m\<lparr>g_sram := f\<rparr>)"
    "\<forall>k. f k = (if unat (a - EMU_SRAM_BASE) \<le> k \<and> k < unat (a - EMU_SRAM_BASE) + unat sz
       then ucast (drop_bit (8 * (k - unat (a - EMU_SRAM_BASE))) (u32_of_bytes bs)) else g_sram m k)"
    using emu_store_sram [OF assms(1,2)] by blast
  ultimately show ?thesis
    by (auto simp: sram_updated_def assms(3) fun_eq_iff intro!: emu_target.equality)
qed

lemma store_chunks_sram:
  assumes "mem_access a sz" "sram_range a (n * unat sz)" "n * unat sz \<le> length bs"
  shows "store_chunks emu_target_store sz n a bs m =
    Some (sram_updated (unat (a - EMU_SRAM_BASE)) (take (n * unat sz) bs) m)"
  using assms
proof (induction n arbitrary: a bs m)
  case (Suc n)
  have sz: "sz \<in> {1, 2, 4}" "0 < unat sz" using Suc.prems(1) by (auto simp: mem_access_def)
  have r: "in_sram a" "sram_range (a + sz) (n * unat sz)" using Suc.prems(2) sram_range_step [OF sz(1)] by auto
  let ?b = "take (unat sz) bs"
  have lb: "length ?b = unat sz" using Suc.prems(3) by simp
  have off: "unat (a + sz - EMU_SRAM_BASE) = unat (a - EMU_SRAM_BASE) + length ?b" if "n \<noteq> 0"
    using r that sz(2) lb Suc.prems(2) by (auto simp: sram_range_def in_sram_iff word_le_nat_alt unat_sub unat_word_ariths)
  have "store_chunks emu_target_store sz n (a + sz) (drop (unat sz) bs) (sram_updated (unat (a - EMU_SRAM_BASE)) ?b m) =
    Some (sram_updated (unat (a + sz - EMU_SRAM_BASE)) (take (n * unat sz) (drop (unat sz) bs))
      (sram_updated (unat (a - EMU_SRAM_BASE)) ?b m))"
    by (rule Suc.IH [OF mem_access_step [OF Suc.prems(1)] r(2)]) (use Suc.prems(3) in \<open>simp add: le_diff_conv2\<close>)
  moreover have "sram_updated (unat (a + sz - EMU_SRAM_BASE)) (take (n * unat sz) (drop (unat sz) bs))
      (sram_updated (unat (a - EMU_SRAM_BASE)) ?b m) =
      sram_updated (unat (a - EMU_SRAM_BASE)) (?b @ take (n * unat sz) (drop (unat sz) bs)) m"
    using off sram_updated_append [of "unat (a - EMU_SRAM_BASE)" ?b] by (cases "n = 0") auto
  ultimately show ?case
    using emu_store_sram_bytes [OF Suc.prems(1) r(1) lb, of m] by (simp add: take_add)
qed simp

lemma emu_write_sram:
  assumes "shim_ok s" "sram_range a len" "len \<le> length bs"
  shows "\<exists>s'. adiv5_mem_write emu_dp_ops emu_ap a bs len s = Some s' \<and> shim_ok s' \<and>
    tgt s' = sram_updated (unat (a - EMU_SRAM_BASE)) (take len bs) (tgt s)"
proof -
  let ?sz = "acc_size (MIN_ALIGN a (of_nat len))"
  have len: "len < 2 ^ 32" using assms(2) by (auto simp: sram_range_def)
  have d: "len div unat ?sz * unat ?sz = len"
    using MIN_ALIGN_len [OF len, of a] by (metis add.right_neutral div_mult_mod_eq)
  have "store_chunks emu_target_store ?sz (len div unat ?sz) a bs (tgt s) =
      Some (sram_updated (unat (a - EMU_SRAM_BASE)) (take len bs) (tgt s))"
    using store_chunks_sram [OF MIN_ALIGN_access(1) [of a "of_nat len"], of "len div unat ?sz" bs "tgt s"]
      assms(2,3) unfolding d by blast
  then show ?thesis using emu_bus.block_write [OF assms(1,3) refl] by blast
qed

lemma MIN_ALIGN_word: "mem_access a 4 \<Longrightarrow> MIN_ALIGN a 4 = ALIGN_32BIT"
  using mem_access_bits [of a ALIGN_32BIT]
  by (simp add: MIN_ALIGN_def ALIGN_OF_def acc_size_def take_bit_eq_mask mask_eq_exp_minus_1)

lemma emu_read_word:
  assumes "shim_ok s" "mem_access a 4" "emu_target_load a 4 (tgt s) = Some v"
  shows "\<exists>s'. advi5_mem_read_bytes emu_dp_ops emu_ap a 4 s = Some (bytes_of_u32 v, s') \<and> shim_ok s' \<and> tgt s' = tgt s"
  using emu_bus.block_read [OF assms(1), of 4 ALIGN_32BIT a] assms(2,3)
  by (simp add: MIN_ALIGN_word acc_size_def read_chunks_def word_bytes_def)

lemma emu_write_word:
  assumes "shim_ok s" "mem_access a 4" "emu_target_store a v 4 (tgt s) = Some m'"
  shows "\<exists>s'. adiv5_mem_write emu_dp_ops emu_ap a (bytes_of_u32 v) 4 s = Some s' \<and> shim_ok s' \<and> tgt s' = m'"
  using emu_bus.block_write [OF assms(1), of 4 "bytes_of_u32 v" ALIGN_32BIT a] assms(2,3)
  by (simp add: MIN_ALIGN_word acc_size_def)

end
