(* ===== verification/Stm32f1_Emu.thy ===== *)
theory Stm32f1_Emu
  imports Cortexm_Probe Adiv5_Emu Target_Flash
begin

text \<open>
  The STM32F1 driver on the emulated device: what each register sequence of src/target/stm32f1.c does
  to the flash controller of src/target/emu_target.c through the whole stack (target layer, Cortex-M
  layer, access port, transport). The driver then meets the contract of a flash region, so the
  buffered engine of src/target/target_flash.c programs the device correctly.
\<close>

subsection \<open>Accesses\<close>

definition emu_at :: "emu_shim cortexm \<Rightarrow> emu_shim cortexm \<Rightarrow> emu_target \<Rightarrow> bool" where
  "emu_at t0 t m \<longleftrightarrow> (\<exists>d. t = t0\<lparr>cm_dp := d\<rparr> \<and> shim_ok d \<and> tgt d = m) \<and> cm_ap t0 = emu_ap \<and> dcache_line_length t0 = 0"

definition emu_mem_ops :: "emu_shim cortexm target_ops \<Rightarrow> bool" where
  "emu_mem_ops ops \<longleftrightarrow> mem_read_fn ops = Some (cortexm_mem_read emu_dp_ops) \<and>
     mem_write_fn ops = Some (cortexm_mem_write emu_dp_ops) \<and> check_error_fn ops = Some (cortex_check_error emu_dp_ops)"

lemma emu_mem_ops_cortexm [simp]: "emu_mem_ops (cortexm_mem_ops emu_dp_ops)"
  by (simp add: emu_mem_ops_def cortexm_mem_ops_def)

lemma emu_at_cm_dp: "emu_at t0 t m \<Longrightarrow> shim_ok d \<Longrightarrow> tgt d = m' \<Longrightarrow> emu_at t0 (t\<lparr>cm_dp := d\<rparr>) m'"
  by (auto simp: emu_at_def)

lemma at_read32:
  assumes "emu_mem_ops ops" "emu_at t0 t m" "mem_access a 4" "emu_target_load a 4 m = Some v"
  shows "\<exists>t'. target_mem_read32 ops a t = Some (v, t') \<and> emu_at t0 t' m"
proof -
  have t: "cm_ap t = emu_ap" "dcache_line_length t = 0" "shim_ok (cm_dp t)" "tgt (cm_dp t) = m"
    using assms(2) by (auto simp: emu_at_def)
  obtain d where "advi5_mem_read_bytes emu_dp_ops emu_ap a 4 (cm_dp t) = Some (bytes_of_u32 v, d)" "shim_ok d" "tgt d = m"
    using emu_read_word [OF t(3) assms(3)] assms(4) t(4) by auto
  then show ?thesis using assms(1,2) t
    by (auto simp: emu_mem_ops_def target_mem_read32_def cortexm_mem_read_def cortexm_cache_clean_def intro: emu_at_cm_dp)
qed

lemma at_write32:
  assumes "emu_mem_ops ops" "emu_at t0 t m" "mem_access a 4" "emu_target_store a v 4 m = Some m'"
  shows "\<exists>t'. target_mem_write32 ops a v t = Some t' \<and> emu_at t0 t' m'"
proof -
  have t: "cm_ap t = emu_ap" "dcache_line_length t = 0" "shim_ok (cm_dp t)" "tgt (cm_dp t) = m"
    using assms(2) by (auto simp: emu_at_def)
  obtain d where "adiv5_mem_write emu_dp_ops emu_ap a (bytes_of_u32 v) 4 (cm_dp t) = Some d" "shim_ok d" "tgt d = m'"
    using emu_write_word [OF t(3) assms(3)] assms(4) t(4) by auto
  then show ?thesis using assms(1,2) t
    by (auto simp: emu_mem_ops_def target_mem_write32_def cortexm_mem_write_def cortexm_cache_clean_def intro: emu_at_cm_dp)
qed

lemma at_check:
  assumes "emu_mem_ops ops" "emu_at t0 t m"
  shows "\<exists>t'. target_check_error ops t = Some (False, t') \<and> emu_at t0 t' m"
  using assms by (auto simp: emu_mem_ops_def target_check_error_def cortex_check_error_def emu_shim_error_def emu_at_def shim_ok_def)

lemma fpec_load: "emu_target_load FPEC_SR 4 m = Some (g_flash_sr m)"
  "emu_target_load FPEC_CR 4 m = Some ((g_flash_cr m AND NOT CR_LOCK) OR (if g_flash_unlocked m then 0 else CR_LOCK))"
  by (simp_all add: emu_target_load_eq in_flash_def in_sram_def fpec_read_def)

lemma fpec_store:
  assumes "a \<in> {FPEC_KEYR, FPEC_CR, FPEC_AR, FPEC_SR}"
  shows "emu_target_store a v 4 m = Some (fpec_write a v m)" "mem_access a 4"
  using assms by (elim insertE emptyE; simp add: emu_target_store_eq in_flash_def in_sram_def mem_access_def)+

lemma fpec_write32:
  assumes "emu_mem_ops ops" "emu_at t0 t m" "a \<in> {FPEC_KEYR, FPEC_CR, FPEC_AR, FPEC_SR}"
  shows "\<exists>t'. target_mem_write32 ops a v t = Some t' \<and> emu_at t0 t' (fpec_write a v m)"
  by (rule at_write32 [OF assms(1,2) fpec_store(2) fpec_store(1)]) (use assms(3) in simp_all)

lemma lock_clear: "((c :: u32) AND NOT 0x80) AND 0x80 = 0"
proof -
  have "(c AND NOT 0x80) AND 0x80 = c AND (NOT 0x80 AND 0x80)" by (simp only: and.assoc)
  also have "NOT 0x80 AND (0x80::u32) = 0" by simp
  finally show ?thesis by simp
qed

definition fpec_unlocked :: "emu_target \<Rightarrow> emu_target" where
  "fpec_unlocked m = m\<lparr>g_flash_unlocked := True, g_flash_keyr := FPEC_KEY2\<rparr>"

lemma at_unlock:
  assumes ops: "emu_mem_ops ops" and "emu_at t0 t m"
  shows "\<exists>t'. stm32f1_flash_unlock ops 0 t = Some (True, t') \<and> emu_at t0 t' (fpec_unlocked m)"
proof -
  obtain t1 where t1: "target_mem_write32 ops FPEC_KEYR FPEC_KEY1 t = Some t1" "emu_at t0 t1 (fpec_write FPEC_KEYR FPEC_KEY1 m)"
    using fpec_write32 [OF ops assms(2), of FPEC_KEYR] by auto
  obtain t2 where t2: "target_mem_write32 ops FPEC_KEYR FPEC_KEY2 t1 = Some t2"
    "emu_at t0 t2 (fpec_write FPEC_KEYR FPEC_KEY2 (fpec_write FPEC_KEYR FPEC_KEY1 m))"
    using fpec_write32 [OF ops t1(2), of FPEC_KEYR] by auto
  have m: "fpec_write FPEC_KEYR FPEC_KEY2 (fpec_write FPEC_KEYR FPEC_KEY1 m) = fpec_unlocked m"
    by (simp add: fpec_write_def fpec_unlocked_def Let_def)
  obtain t3 where "target_mem_read32 ops FPEC_CR t2 = Some ((g_flash_cr m AND NOT CR_LOCK) OR 0, t3)" "emu_at t0 t3 (fpec_unlocked m)"
    using at_read32 [OF ops t2(2)[unfolded m] fpec_store(2) fpec_load(2)] by (auto simp: fpec_unlocked_def)
  then show ?thesis using t1(1) t2(1) lock_clear [of "g_flash_cr m"] by (simp add: stm32f1_flash_unlock_def)
qed

lemma at_clear_eop:
  assumes ops: "emu_mem_ops ops" and "emu_at t0 t m" "fpec_ok m"
  shows "\<exists>t'. stm32f1_flash_clear_eop ops 0 t = Some t' \<and> emu_at t0 t' (m\<lparr>g_flash_sr := 0\<rparr>)"
proof -
  obtain t1 where t1: "target_mem_read32 ops FPEC_SR t = Some (g_flash_sr m, t1)" "emu_at t0 t1 m"
    using at_read32 [OF ops assms(2) fpec_store(2) fpec_load(1)] by auto
  have "fpec_write FPEC_SR (g_flash_sr m OR 0x20) m = m\<lparr>g_flash_sr := 0\<rparr>"
    using assms(3) by (auto simp: fpec_ok_def fpec_write_def)
  then obtain t2 where "target_mem_write32 ops FPEC_SR (g_flash_sr m OR 0x20) t1 = Some t2" "emu_at t0 t2 (m\<lparr>g_flash_sr := 0\<rparr>)"
    using fpec_write32 [OF ops t1(2), of FPEC_SR "g_flash_sr m OR 0x20"] by auto
  with t1 show ?thesis by (simp add: stm32f1_flash_clear_eop_def)
qed

lemma at_busy_wait:
  assumes ops: "emu_mem_ops ops" and "emu_at t0 t m" "g_flash_sr m = 0x20"
  shows "\<exists>t'. stm32f1_flash_busy_wait ops 0 False t = Some (True, t') \<and> emu_at t0 t' m"
proof -
  obtain t1 where t1: "target_mem_read32 ops FPEC_SR t = Some (0x20, t1)" "emu_at t0 t1 m"
    using at_read32 [OF ops assms(2) fpec_store(2) fpec_load(1)] assms(3) by auto
  obtain t2 where t2: "target_check_error ops t1 = Some (False, t2)" "emu_at t0 t2 m" using at_check [OF ops t1(2)] by auto
  have "busy_loop ops 0 False 1 t = Some (Inr 0x20, t2)"
    using t1(1) t2(1) by (subst busy_loop.simps, subst busy_loop.simps) simp
  with t2 show ?thesis by (simp add: stm32f1_flash_busy_wait_def)
qed

lemma at_erase:
  assumes ops: "emu_mem_ops ops" and at: "emu_at t0 t m" "fpec_ok m" and a: "in_flash a" "in_flash (a + len - 1)"
  shows "\<exists>t' m'. stm32f1_flash_erase ops a len t = Some (True, t') \<and> emu_at t0 t' m' \<and> fpec_ok m' \<and> g_flash_unlocked m' \<and>
    g_mallocs m' = g_mallocs m \<and> g_sram m' = g_sram m \<and>
    (\<forall>k. flash_at m' k = (if k div 1024 = flash_off a div 1024 then 0xFF else flash_at m k))"
proof -
  have lt: "a < FLASH_BANK_SPLIT" "\<not> FLASH_BANK_SPLIT \<le> a" "\<not> FLASH_BANK_SPLIT \<le> a + len - 1"
    using a by (auto simp: in_flash_iff word_less_nat_alt word_le_nat_alt)
  obtain t1 where t1: "stm32f1_flash_unlock ops 0 t = Some (True, t1)" "emu_at t0 t1 (fpec_unlocked m)" using at_unlock [OF ops at(1)] by auto
  have fu: "fpec_ok (fpec_unlocked m)" using at(2) by (simp add: fpec_ok_def fpec_unlocked_def)
  let ?m2 = "(fpec_unlocked m)\<lparr>g_flash_sr := 0\<rparr>"
  obtain t2 where t2: "stm32f1_flash_clear_eop ops 0 t1 = Some t2" "emu_at t0 t2 ?m2" using at_clear_eop [OF ops t1(2) fu] by auto
  obtain t3 where t3: "target_mem_write32 ops FPEC_CR 2 t2 = Some t3" "emu_at t0 t3 (?m2\<lparr>g_flash_cr := 2\<rparr>)"
    using fpec_write32 [OF ops t2(2), of FPEC_CR 2] by (auto simp: fpec_write_def Let_def)
  let ?m4 = "?m2\<lparr>g_flash_cr := 2, g_flash_ar := a\<rparr>"
  obtain t4 where t4: "target_mem_write32 ops FPEC_AR a t3 = Some t4" "emu_at t0 t4 ?m4"
    using fpec_write32 [OF ops t3(2), of FPEC_AR a] by (auto simp: fpec_write_def Let_def)
  let ?m5 = "(flash_erase_page a (?m4\<lparr>g_flash_cr := 0x42\<rparr>))\<lparr>g_flash_sr := 0x20\<rparr>"
  have m5: "fpec_write FPEC_CR 0x42 ?m4 = ?m5"
    by (simp add: fpec_write_def Let_def fpec_unlocked_def flash_erase_page_frame)
  obtain t5 where t5: "target_mem_write32 ops FPEC_CR 0x42 t4 = Some t5" "emu_at t0 t5 ?m5"
    using fpec_write32 [OF ops t4(2), of FPEC_CR "0x42"] m5 by auto
  obtain t6 where t6: "stm32f1_flash_busy_wait ops 0 False t5 = Some (True, t6)" "emu_at t0 t6 ?m5"
    using at_busy_wait [OF ops t5(2)] by auto
  have "stm32f1_flash_erase ops a len t = Some (True, t6)"
    using lt t1(1) t2(1) t3(1) t4(1) t5(1) t6(1)
    by (simp add: stm32f1_flash_erase_def erase_unlock_def stm32f1_bank_offset_for_def Let_def)
  moreover have off: "flash_off a < 131072" using a(1) by (auto simp: in_flash_iff unat_sub word_le_nat_alt)
  have "flash_at ?m5 k = (if k div 1024 = flash_off a div 1024 then 0xFF else flash_at m k)" for k
  proof -
    have "flash_at ?m5 k = flash_at (flash_erase_page a (?m4\<lparr>g_flash_cr := 0x42\<rparr>)) k" by (simp add: flash_at_def)
    also have "\<dots> = (if k div 1024 = flash_off a div 1024 then 0xFF else flash_at (?m4\<lparr>g_flash_cr := 0x42\<rparr>) k)"
      by (rule flash_at_erase_page [OF off])
    finally show ?thesis by (simp add: flash_at_def fpec_unlocked_def)
  qed
  moreover have "fpec_ok ?m5" "g_flash_unlocked ?m5" "g_mallocs ?m5 = g_mallocs m" "g_sram ?m5 = g_sram m"
    using flash_frame_ctl(1,3) [OF flash_erase_page_frame(1) [of "?m4\<lparr>g_flash_cr := 0x42\<rparr>" a]] flash_erase_page_frame(2) [of a "?m4\<lparr>g_flash_cr := 0x42\<rparr>"]
    by (simp_all add: fpec_ok_def fpec_unlocked_def)
  ultimately show ?thesis using t6(2) by blast
qed

lemma at_write_sized:
  assumes ops: "emu_mem_ops ops" and at: "emu_at t0 t m" and "flash_range a (unat len)" "unat len \<le> length bs"
    "al \<noteq> ALIGN_64BIT" "mem_access a (acc_size al)" "unat len mod unat (acc_size al) = 0"
    and "no_oom m" "g_flash_unlocked m" "g_flash_cr m AND CR_PG \<noteq> 0" "fpec_ok m"
  shows "\<exists>e t' m'. cortexm_mem_write_sized emu_dp_ops ops a bs (unat len) al t = Some (e, t') \<and> emu_at t0 t' m' \<and>
    flash_programmed (flash_off a) (take (unat len) bs) m m' \<and> fpec_ok m' \<and> (len \<noteq> 0 \<longrightarrow> g_flash_sr m' = SR_EOP)"
proof -
  have t: "cm_ap t = emu_ap" "dcache_line_length t = 0" "shim_ok (cm_dp t)" "tgt (cm_dp t) = m"
    using at by (auto simp: emu_at_def)
  obtain d where d: "adiv5_mem_write_bytes emu_dp_ops emu_ap a bs (unat len) al (cm_dp t) = Some d" "shim_ok d"
    "flash_programmed (flash_off a) (take (unat len) bs) m (tgt d)" "fpec_ok (tgt d)"
    "len \<noteq> 0 \<longrightarrow> g_flash_sr (tgt d) = SR_EOP"
    using emu_write_flash_sized [OF t(3) assms(3-7)] assms(8-11) t(4) by (auto simp: unat_eq_zero)
  have "emu_at t0 (t\<lparr>cm_dp := d\<rparr>) (tgt d)" using emu_at_cm_dp [OF at d(2)] by simp
  then obtain t' where "target_check_error ops (t\<lparr>cm_dp := d\<rparr>) = Some (False, t')" "emu_at t0 t' (tgt d)"
    using at_check [OF ops] by blast
  then show ?thesis using t d by (auto simp: cortexm_mem_write_sized_def cortexm_cache_clean_def)
qed

lemma at_flash_write:
  assumes ops: "emu_mem_ops ops" and at: "emu_at t0 t m" "fpec_ok m" "no_oom m" "g_flash_unlocked m"
    and "flash_range a (unat len)" "len \<noteq> 0" "unat len \<le> length bs" "unat a mod 4 = 0" "unat len mod 4 = 0"
    and "\<not> (designer_code t0 = JEP106_MANUFACTURER_RV_GIGADEVICE \<and> cpuid t0 = 0x80000022)"
  shows "\<exists>t' m'. stm32f1_flash_write emu_dp_ops ops a bs len t = Some (True, t') \<and> emu_at t0 t' m' \<and> fpec_ok m' \<and>
    no_oom m' \<and> g_flash_unlocked m' \<and> g_sram m' = g_sram m \<and>
    (\<forall>k. flash_at m' k = (if flash_off a \<le> k \<and> k < flash_off a + unat len then flash_at m k AND bs ! (k - flash_off a)
                          else flash_at m k))"
proof -
  have ne: "0 < unat len" using assms(7) by (simp add: unat_gt_0)
  then have r: "in_flash a" "unat a + unat len \<le> 134348800" using assms(6) by (auto simp: flash_range_def)
  have sum: "unat (a + len) = unat a + unat len" using r by (simp add: unat_word_ariths in_flash_iff)
  have bl: "stm32f1_bank1_length a len = len"
    using r sum by (auto simp: stm32f1_bank1_length_def in_flash_iff word_less_nat_alt word_le_nat_alt)
  define al where "al = (if target_options t AND STM32F1_TOPT_32BIT_WRITES \<noteq> 0 then ALIGN_32BIT else ALIGN_16BIT)"
  have al: "al \<noteq> ALIGN_64BIT" "mem_access a (acc_size al)" "unat len mod unat (acc_size al) = 0"
    using assms(9,10) by (auto simp: al_def acc_size_def mem_access_def)
  let ?m1 = "m\<lparr>g_flash_sr := 0\<rparr>"
  obtain t1 where t1: "stm32f1_flash_clear_eop ops 0 t = Some t1" "emu_at t0 t1 ?m1" using at_clear_eop [OF ops at(1,2)] by auto
  let ?m2 = "?m1\<lparr>g_flash_cr := 1\<rparr>"
  obtain t2 where t2: "target_mem_write32 ops FPEC_CR 1 t1 = Some t2" "emu_at t0 t2 ?m2"
    using fpec_write32 [OF ops t1(2), of FPEC_CR 1] by (auto simp: fpec_write_def Let_def)
  have m2: "no_oom ?m2" "g_flash_unlocked ?m2" "g_flash_cr ?m2 AND CR_PG \<noteq> 0" "fpec_ok ?m2"
    using at(3,4) by (simp_all add: no_oom_def fpec_ok_def)
  obtain e t3 m3 where t3: "cortexm_mem_write_sized emu_dp_ops ops a bs (unat len) al t2 = Some (e, t3)" "emu_at t0 t3 m3"
    "flash_programmed (flash_off a) (take (unat len) bs) ?m2 m3" "fpec_ok m3" "g_flash_sr m3 = 0x20"
    using assms(7) at_write_sized [OF ops t2(2) assms(6,8) al m2] by blast
  have f3: "\<forall>k. flash_at m3 k = (if flash_off a \<le> k \<and> k < flash_off a + unat len then flash_at m k AND bs ! (k - flash_off a)
                          else flash_at m k)" "no_oom m3" "g_flash_unlocked m3" "g_sram m3 = g_sram m"
  proof -
    have len: "length (take (unat len) bs) = unat len" using assms(8) by simp
    have "flash_at ?m2 = flash_at m" by (simp add: flash_at_def fun_eq_iff)
    then show "\<forall>k. flash_at m3 k = (if flash_off a \<le> k \<and> k < flash_off a + unat len then flash_at m k AND bs ! (k - flash_off a)
                          else flash_at m k)" using t3(3) unfolding flash_programmed_def len by auto
    show "no_oom m3" "g_flash_unlocked m3" using flash_programmed_ctl [OF t3(3)] m2 by auto
    have "flash_frame ?m2 m3" using t3(3) by (simp add: flash_programmed_def)
    from flash_frame_ctl(3) [OF this] show "g_sram m3 = g_sram m" by simp
  qed
  obtain t4 where t4: "stm32f1_flash_busy_wait ops 0 False t3 = Some (True, t4)" "emu_at t0 t4 m3"
    using at_busy_wait [OF ops t3(2,5)] by auto
  have "designer_code t2 = designer_code t0" "cpuid t2 = cpuid t0" using t2(2) by (auto simp: emu_at_def)
  then have "write_bank emu_dp_ops ops 0 a bs len al t = Some (True, t4)"
    using t1(1) t2(1) t3(1) t4(1) assms(11) by (auto simp: write_bank_def)
  then have "stm32f1_flash_write emu_dp_ops ops a bs len t = Some (True, t4)"
    using assms(7) by (simp add: stm32f1_flash_write_def bl al_def [symmetric] Let_def)
  then show ?thesis using t4(2) t3(4) f3 by blast
qed

subsection \<open>The system control space and reset\<close>

lemma scs_access:
  assumes "off < 0x1000" "unat off mod 4 = 0"
  shows "emu_target_load (EMU_SCS_BASE + off) 4 m = Some (scs_read off m)"
    "emu_target_store (EMU_SCS_BASE + off) v 4 m = Some (scs_write off v m)" "mem_access (EMU_SCS_BASE + off) 4"
proof -
  have u: "unat (EMU_SCS_BASE + off) = 3758153728 + unat off" using assms(1) by (simp add: unat_word_ariths word_less_nat_alt)
  then have n: "\<not> in_flash (EMU_SCS_BASE + off)" "\<not> in_sram (EMU_SCS_BASE + off)"
    "EMU_SCS_BASE \<le> EMU_SCS_BASE + off" "EMU_SCS_BASE + off < EMU_SCS_BASE + 0x1000"
    "EMU_SCS_BASE + off < 3759140864" "off \<noteq> 212992"
    using assms(1) by (auto simp: in_flash_iff in_sram_iff word_le_nat_alt word_less_nat_alt)
  then show "emu_target_load (EMU_SCS_BASE + off) 4 m = Some (scs_read off m)"
    "emu_target_store (EMU_SCS_BASE + off) v 4 m = Some (scs_write off v m)"
    by (auto simp: emu_target_load_eq emu_target_store_eq)
  show "mem_access (EMU_SCS_BASE + off) 4" using assms(2) u by (simp add: mem_access_def) presburger
qed

lemma scs_read32:
  assumes "emu_mem_ops ops" "emu_at t0 t m" "off < 0x1000" "unat off mod 4 = 0"
  shows "\<exists>t'. target_mem_read32 ops (EMU_SCS_BASE + off) t = Some (scs_read off m, t') \<and> emu_at t0 t' m"
  using at_read32 [OF assms(1,2) scs_access(3) scs_access(1), of off] assms(3,4) by blast

lemma scs_write32:
  assumes "emu_mem_ops ops" "emu_at t0 t m" "off < 0x1000" "unat off mod 4 = 0"
  shows "\<exists>t'. target_mem_write32 ops (EMU_SCS_BASE + off) v t = Some t' \<and> emu_at t0 t' (scs_write off v m)"
  using at_write32 [OF assms(1,2) scs_access(3) scs_access(2), of off v] assms(3,4) by blast

lemma cm_dp_plat:
  "t\<lparr>cm_dp := d, plat_nrst := x\<rparr> = t\<lparr>plat_nrst := x, cm_dp := d\<rparr>"
  "t\<lparr>cm_dp := d, plat_expired := y\<rparr> = t\<lparr>plat_expired := y, cm_dp := d\<rparr>"
  by simp_all

lemma emu_at_plat:
  "emu_at t0 t m \<Longrightarrow> emu_at (t0\<lparr>plat_nrst := x\<rparr>) (t\<lparr>plat_nrst := x\<rparr>) m"
  "emu_at t0 t m \<Longrightarrow> emu_at (t0\<lparr>plat_expired := y\<rparr>) (t\<lparr>plat_expired := y\<rparr>) m"
  by (auto simp only: emu_at_def cm_dp_plat) auto

lemma at_reset:
  assumes ops: "emu_mem_ops ops" "extended_reset_fn ops = None" and at: "emu_at t0 t m"
  shows "\<exists>t' t0' x y. cortexm_reset ops t = Some t' \<and> t0' = t0\<lparr>plat_nrst := x, plat_expired := y\<rparr> \<and>
    emu_at t0' t' (m\<lparr>g_aircr := 0x05fa0004\<rparr>)"
proof -
  note rd = scs_read32 [OF ops(1), of _ _ _ "0xdf0", simplified, simplified scs_read_def, simplified]
  obtain t1 where t1: "target_mem_read32 ops CORTEXM_DHCSR t = Some (0x00030003, t1)" "emu_at t0 t1 m"
    using rd [OF at] by auto
  define t2 where "t2 = (if target_options t1 AND TOPT_INHIBIT_NRST = 0
                   then (let t = t1\<lparr>plat_nrst := True\<rparr> in t\<lparr>plat_nrst := False\<rparr>) else t1)"
  obtain x where t0: "emu_at (t0\<lparr>plat_nrst := x\<rparr>) t2 m"
    using that [of "plat_nrst t0"] that [of False] emu_at_plat(1) [OF t1(2), of False] t1(2)
    by (cases "target_options t1 AND TOPT_INHIBIT_NRST = 0") (simp_all add: t2_def Let_def)
  let ?t0 = "t0\<lparr>plat_nrst := x\<rparr>"
  obtain t3 where t3: "target_mem_read32 ops CORTEXM_DHCSR t2 = Some (0x00030003, t3)" "emu_at ?t0 t3 m"
    using rd [OF t0] by auto
  obtain t4 where t4: "target_mem_write32 ops CORTEXM_AIRCR 0x05fa0004 t3 = Some t4" "emu_at ?t0 t4 (m\<lparr>g_aircr := 0x05fa0004\<rparr>)"
    using scs_write32 [OF ops(1) t3(2), of "0xd0c" "0x05fa0004"] by (auto simp: scs_write_def)
  let ?m = "m\<lparr>g_aircr := 0x05fa0004\<rparr>"
  obtain t5 where t5: "target_mem_read32 ops CORTEXM_DHCSR t4 = Some (0x00030003, t5)" "emu_at ?t0 t5 ?m"
    using rd [OF t4(2)] by auto
  define t6 where "t6 = snd (platform_timeout_is_expired t5)"
  obtain y where t6: "emu_at (?t0\<lparr>plat_expired := y\<rparr>) t6 ?m"
    using that [of "plat_expired ?t0"] that [of "tl (plat_expired t5)"] emu_at_plat(2) [OF t5(2), of "tl (plat_expired t5)"] t5(2)
    by (cases "plat_expired t5") (simp_all add: t6_def platform_timeout_is_expired_def)
  let ?t1 = "?t0\<lparr>plat_expired := y\<rparr>"
  obtain t7 where t7: "target_mem_write32 ops CORTEXM_DFSR 0x1f t6 = Some t7" "emu_at ?t1 t7 ?m"
    using scs_write32 [OF ops(1) t6, of "0xd30" "0x1f"] by (auto simp: scs_write_def)
  obtain t8 where t8: "target_check_error ops t7 = Some (False, t8)" "emu_at ?t1 t8 ?m" using at_check [OF ops(1) t7(2)] by auto
  have "cortexm_reset ops t = Some t8"
    using t1(1) t3(1) t4(1) t5(1) t6_def t7(1) t8(1) ops(2)
    by (simp add: cortexm_reset_def t2_def [symmetric] case_prod_beta del: Let_def) 
  then show ?thesis using t8(2) by blast
qed

subsection \<open>The driver as a provider\<close>

text \<open>The function pointers of a target that stm32f1_probe has taken. The flash functions reach
  memory through the core's pointers.\<close>

definition stm32f1_fns :: "'d dp_ops \<Rightarrow> flash_fns \<Rightarrow> 'd cortexm flash_ops" where
  "stm32f1_fns dp = (\<lambda>_. stm32f1_flash_ops dp (cortexm_core_ops dp))"

definition stm32f1_target_ops :: "'d dp_ops \<Rightarrow> 'd semihosting \<Rightarrow> 'd cortexm target_ops" where
  "stm32f1_target_ops dp sh =
     (let c = cortexm_ops dp sh (stm32f1_fns dp) in c\<lparr>mass_erase_fn := Some (stm32f1_mass_erase c)\<rparr>)"

abbreviation emu_ops :: "emu_shim semihosting \<Rightarrow> emu_shim cortexm target_ops" where
  "emu_ops \<equiv> stm32f1_target_ops emu_dp_ops"

lemma emu_mem_ops_core [simp]: "emu_mem_ops (cortexm_core_ops emu_dp_ops)" "emu_mem_ops (cortexm_ops emu_dp_ops sh fo)"
  "emu_mem_ops (emu_ops sh)"
  by (simp_all add: emu_mem_ops_def cortexm_mem_ops_def cortexm_core_ops_def cortexm_ops_def stm32f1_target_ops_def Let_def)

lemma emu_ops_sel [simp]:
  "enter_flash_mode_fn (emu_ops sh) = None" "exit_flash_mode_fn (emu_ops sh) = None"
  "reset_fn (emu_ops sh) = Some (cortexm_reset (cortexm_mem_ops emu_dp_ops))"
  "flash_ops_of (emu_ops sh) x = stm32f1_flash_ops emu_dp_ops (cortexm_core_ops emu_dp_ops)"
  by (simp_all add: stm32f1_target_ops_def cortexm_ops_def cortexm_core_ops_def cortexm_mem_ops_def stm32f1_fns_def Let_def)

definition emu_region :: target_flash where
  "emu_region = (stm32f1_flash_region 0x8000000 0x20000 0x400)\<lparr>writebufsize := 1024\<rparr>"

definition emu_conf :: "emu_shim cortexm \<Rightarrow> bool" where
  "emu_conf t \<longleftrightarrow> designer_code t \<noteq> JEP106_MANUFACTURER_RV_GIGADEVICE \<and> target_options t AND TOPT_IN_SEMIHOSTING_SYSCALL = 0"

definition emu_ready :: "emu_shim cortexm \<Rightarrow> bool" where
  "emu_ready t \<longleftrightarrow> cm_ap t = emu_ap \<and> dcache_line_length t = 0 \<and> shim_ok (cm_dp t) \<and> fpec_ok (tgt (cm_dp t)) \<and>
     no_oom (tgt (cm_dp t)) \<and> emu_conf t"

definition emu_writable :: "emu_shim cortexm \<Rightarrow> bool" where
  "emu_writable t \<longleftrightarrow> emu_ready t \<and> g_flash_unlocked (tgt (cm_dp t))"

definition emu_content :: "emu_shim cortexm \<Rightarrow> nat \<Rightarrow> byte" where
  "emu_content t x = (if 134217728 \<le> x \<and> x < 134348800 then flash_at (tgt (cm_dp t)) (x - 134217728) else 0xFF)"

lemma emu_ready_at: "emu_ready t \<Longrightarrow> emu_at t t (tgt (cm_dp t))"
  unfolding emu_ready_def emu_at_def by (intro conjI exI [of _ "cm_dp t"]) auto

lemma emu_at_ready:
  assumes "emu_at t0 t m" "emu_conf t0" "fpec_ok m" "no_oom m"
  shows "emu_ready t" "emu_writable t = g_flash_unlocked m" "t_flash t = t_flash t0" "flash_mode t = flash_mode t0"
    "plat_mallocs t = plat_mallocs t0" "tgt (cm_dp t) = m"
  using assms by (auto simp: emu_at_def emu_ready_def emu_writable_def emu_conf_def)

lemma flash_off_unat: "in_flash a \<Longrightarrow> flash_off a = unat a - 134217728"
  by (auto simp: in_flash_iff unat_sub word_le_nat_alt)

lemma div_block_eq:
  assumes "(y :: nat) mod n = 0" "0 < n"
  shows "x div n = y div n \<longleftrightarrow> y \<le> x \<and> x < y + n"
proof
  assume "x div n = y div n"
  then have "x = y div n * n + x mod n" by (metis div_mult_mod_eq)
  moreover have "y = y div n * n" using assms(1) by auto
  moreover have "x mod n < n" using assms(2) by simp
  ultimately show "y \<le> x \<and> x < y + n" by linarith
next
  assume "y \<le> x \<and> x < y + n"
  then have "x = y div n * n + (x - y)" "x - y < n" using assms(1) by auto
  then show "x div n = y div n" by (metis add.right_neutral div_less div_mult_self3 assms(2) less_irrefl)
qed

lemma emu_erase:
  assumes "emu_ready t" "134217728 \<le> unat a" "unat a + 1024 \<le> 134348800" "unat a mod 1024 = 0"
  shows "\<exists>t'. stm32f1_flash_erase (cortexm_core_ops emu_dp_ops) a 1024 t = Some (True, t') \<and> emu_writable t' \<and>
    t_flash t' = t_flash t \<and> flash_mode t' = flash_mode t \<and> plat_mallocs t' = plat_mallocs t \<and>
    emu_content t' = (\<lambda>x. if unat a \<le> x \<and> x < unat a + 1024 then 0xFF else emu_content t x)"
proof -
  have r: "fpec_ok (tgt (cm_dp t))" "no_oom (tgt (cm_dp t))" "emu_conf t"
    using assms(1) by (simp_all add: emu_ready_def)
  have u: "unat (a + 1024 - 1) = unat a + 1023" using assms(3) by (simp add: unat_word_ariths)
  have f: "in_flash a" "in_flash (a + 1024 - 1)" using assms(2,3) u by (auto simp: in_flash_iff)
  obtain t' m' where t': "stm32f1_flash_erase (cortexm_core_ops emu_dp_ops) a 1024 t = Some (True, t')" "emu_at t t' m'" "fpec_ok m'"
    "g_flash_unlocked m'" "g_mallocs m' = g_mallocs (tgt (cm_dp t))"
    "\<forall>k. flash_at m' k = (if k div 1024 = flash_off a div 1024 then 0xFF else flash_at (tgt (cm_dp t)) k)"
    using at_erase [OF emu_mem_ops_core(1) emu_ready_at [OF assms(1)] r(1) f] by (elim exE conjE) (rule that)
  have oom: "no_oom m'" using r(2) t'(5) by (simp add: no_oom_def)
  note k = emu_at_ready [OF t'(2) r(3) t'(3) oom]
  have "emu_content t' x = (if unat a \<le> x \<and> x < unat a + 1024 then 0xFF else emu_content t x)" for x
  proof (cases "134217728 \<le> x \<and> x < 134348800")
    case True
    have "((x - 134217728) div 1024 = (unat a - 134217728) div 1024) = (unat a \<le> x \<and> x < unat a + 1024)"
    proof -
      have "1024 dvd unat a - 134217728" by (rule dvd_diff_nat) (use assms(4) in auto)
      then have "(unat a - 134217728) mod 1024 = 0" by simp
      then show ?thesis using div_block_eq [of "unat a - 134217728" 1024 "x - 134217728"] True assms(2) by simp linarith
    qed
    then show ?thesis using True t'(6) k(6) by (simp add: emu_content_def flash_off_unat [OF f(1)])
  next
    case False
    then show ?thesis using assms(2,3) by (auto simp: emu_content_def)
  qed
  then show ?thesis using t' k by (auto simp: fun_eq_iff)
qed

lemma emu_program:
  assumes "emu_writable t" "134217728 \<le> unat a" "unat a + 1024 \<le> 134348800" "unat a mod 1024 = 0" "length dat = 1024"
  shows "\<exists>t'. stm32f1_flash_write emu_dp_ops (cortexm_core_ops emu_dp_ops) a dat 1024 t = Some (True, t') \<and> emu_writable t' \<and>
    t_flash t' = t_flash t \<and> flash_mode t' = flash_mode t \<and> plat_mallocs t' = plat_mallocs t \<and>
    emu_content t' = (\<lambda>x. if unat a \<le> x \<and> x < unat a + 1024 then emu_content t x AND dat ! (x - unat a) else emu_content t x)"
proof -
  have r: "emu_ready t" "fpec_ok (tgt (cm_dp t))" "no_oom (tgt (cm_dp t))" "emu_conf t"
    "g_flash_unlocked (tgt (cm_dp t))"
    using assms(1) by (simp_all add: emu_ready_def emu_writable_def)
  have f: "in_flash a" using assms(2,3) by (auto simp: in_flash_iff)
  then have fr: "flash_range a (unat (1024 :: u32))" using assms(3) by (simp add: flash_range_def)
  have a4: "unat a mod 4 = 0" by (rule mod_0_trans [OF assms(4)]) simp
  obtain t' m' where t': "stm32f1_flash_write emu_dp_ops (cortexm_core_ops emu_dp_ops) a dat 1024 t = Some (True, t')" "emu_at t t' m'" "fpec_ok m'"
    "no_oom m'" "g_flash_unlocked m'"
    "\<forall>k. flash_at m' k = (if flash_off a \<le> k \<and> k < flash_off a + unat (1024 :: u32)
       then flash_at (tgt (cm_dp t)) k AND dat ! (k - flash_off a) else flash_at (tgt (cm_dp t)) k)"
    using at_flash_write [OF emu_mem_ops_core(1) emu_ready_at [OF r(1)] r(2,3,5) fr _ _ a4, of dat] assms(5) r(4)
    by (auto simp: emu_conf_def)
  note k = emu_at_ready [OF t'(2) r(4) t'(3,4)]
  have "emu_content t' x = (if unat a \<le> x \<and> x < unat a + 1024 then emu_content t x AND dat ! (x - unat a) else emu_content t x)" for x
  proof (cases "134217728 \<le> x \<and> x < 134348800")
    case True
    have "(unat a - 134217728 \<le> x - 134217728 \<and> x - 134217728 < unat a - 134217728 + 1024) = (unat a \<le> x \<and> x < unat a + 1024)"
      "x - 134217728 - (unat a - 134217728) = x - unat a"
      using True assms(2) by linarith+
    then show ?thesis using True t'(6) k(6) by (simp add: emu_content_def flash_off_unat [OF f])
  next
    case False
    then show ?thesis using assms(2,3) by (auto simp: emu_content_def)
  qed
  then show ?thesis using t' k by (auto simp: fun_eq_iff)
qed

lemma emu_reset:
  assumes "emu_ready t"
  shows "\<exists>t'. target_reset (emu_ops sh) t = Some t' \<and> emu_ready t' \<and> (emu_writable t \<longrightarrow> emu_writable t') \<and>
    emu_content t' = emu_content t \<and> t_flash t' = t_flash t \<and> flash_mode t' = flash_mode t \<and> plat_mallocs t' = plat_mallocs t"
proof -
  let ?m = "tgt (cm_dp t)"
  obtain t' t0 x y where t': "cortexm_reset (cortexm_mem_ops emu_dp_ops) t = Some t'" "t0 = t\<lparr>plat_nrst := x, plat_expired := y\<rparr>"
    "emu_at t0 t' (?m\<lparr>g_aircr := 0x05fa0004\<rparr>)"
    using at_reset [OF emu_mem_ops_cortexm _ emu_ready_at [OF assms]] by (auto simp: cortexm_mem_ops_def)
  have d: "emu_conf t0" "fpec_ok (?m\<lparr>g_aircr := 0x05fa0004\<rparr>)" "no_oom (?m\<lparr>g_aircr := 0x05fa0004\<rparr>)"
    using assms t'(2) by (auto simp: emu_ready_def emu_conf_def fpec_ok_def no_oom_def)
  note k = emu_at_ready [OF t'(3) d]
  have "emu_content t' = emu_content t" by (auto simp: emu_content_def fun_eq_iff k(6) flash_at_def)
  then show ?thesis using t' k assms
    by (auto simp: target_reset_def emu_writable_def)
qed

lemma emu_ready_upd [simp]:
  "emu_ready (t\<lparr>t_flash := fs\<rparr>) = emu_ready t" "emu_writable (t\<lparr>t_flash := fs\<rparr>) = emu_writable t" "emu_content (t\<lparr>t_flash := fs\<rparr>) = emu_content t"
  "emu_ready (t\<lparr>flash_mode := b\<rparr>) = emu_ready t" "emu_writable (t\<lparr>flash_mode := b\<rparr>) = emu_writable t" "emu_content (t\<lparr>flash_mode := b\<rparr>) = emu_content t"
  "emu_ready (t\<lparr>plat_mallocs := h\<rparr>) = emu_ready t" "emu_writable (t\<lparr>plat_mallocs := h\<rparr>) = emu_writable t" "emu_content (t\<lparr>plat_mallocs := h\<rparr>) = emu_content t"
  by (simp_all add: emu_ready_def emu_conf_def emu_writable_def emu_content_def fun_eq_iff)

interpretation emu_flash: flash_driver "emu_ops sh" emu_region 10 10 10 emu_ready emu_writable emu_content
  for sh
proof unfold_locales
  fix t :: "emu_shim cortexm" and a :: u32
  assume "emu_ready t" "unat (f_start emu_region) \<le> unat a"
      "unat a + 2 ^ 10 \<le> unat (f_start emu_region) + unat (f_length emu_region)" "unat a mod 2 ^ 10 = 0"
  then show "\<exists>t'. ferase (flash_ops_of (emu_ops sh) (f_fns emu_region)) 0 a (2 ^ 10) t = Some (True, t') \<and> emu_writable t' \<and>
        t_flash t' = t_flash t \<and> flash_mode t' = flash_mode t \<and> plat_mallocs t' = plat_mallocs t \<and>
        emu_content t' = (\<lambda>x. if unat a \<le> x \<and> x < unat a + 2 ^ 10 then 0xFF else emu_content t x)"
    using emu_erase [of t a] by (simp add: emu_region_def stm32f1_flash_region_def stm32f1_flash_ops_def)
next
  fix t :: "emu_shim cortexm" and a :: u32 and dat :: "byte list"
  assume "emu_writable t" "unat (f_start emu_region) \<le> unat a"
      "unat a + 2 ^ 10 \<le> unat (f_start emu_region) + unat (f_length emu_region)" "unat a mod 2 ^ 10 = 0" "length dat = 2 ^ 10"
  then show "\<exists>t'. fwrite (flash_ops_of (emu_ops sh) (f_fns emu_region)) 0 a dat (2 ^ 10) t = Some (True, t') \<and> emu_writable t' \<and>
        t_flash t' = t_flash t \<and> flash_mode t' = flash_mode t \<and> plat_mallocs t' = plat_mallocs t \<and>
        emu_content t' = (\<lambda>x. if unat a \<le> x \<and> x < unat a + 2 ^ 10 then emu_content t x AND dat ! (x - unat a) else emu_content t x)"
    using emu_program [of t a dat] by (simp add: emu_region_def stm32f1_flash_region_def stm32f1_flash_ops_def)
next
  fix t :: "emu_shim cortexm"
  assume "emu_ready t"
  then show "\<exists>t'. target_reset (emu_ops sh) t = Some t' \<and> emu_ready t' \<and> (emu_writable t \<longrightarrow> emu_writable t') \<and>
        emu_content t' = emu_content t \<and> t_flash t' = t_flash t \<and> flash_mode t' = flash_mode t \<and> plat_mallocs t' = plat_mallocs t"
    by (rule emu_reset)
qed (simp_all add: emu_region_def stm32f1_flash_region_def stm32f1_flash_ops_def
  emu_writable_def)

end
