(* ===== verification/Cortexm_Break.thy ===== *)
theory Cortexm_Break
  imports Cortexm_Run
begin

text \<open>
  The breakpoint and watchpoint slots of a Cortex-M core stay consistent with the target's list of
  breakpoints: each listed hardware breakpoint owns a comparator of its own, and the mask of used
  comparators is exactly the set of owned ones. The memory functions are those of the interface
  core_bus, which says that a word write to an aligned address returns and touches nothing of the
  target but the debug port.
\<close>

subsection \<open>Slots of one unit\<close>

lemma free_slot_bounds: "i \<le> free_slot msk i n \<and> free_slot msk i n \<le> i + n"
proof (induction n arbitrary: i)
  case (Suc n)
  show ?case using Suc.IH [of "Suc i"] by auto
qed simp

lemma free_slot_free: "free_slot msk i n < i + n \<Longrightarrow> \<not> bit msk (free_slot msk i n)"
proof (induction n arbitrary: i)
  case (Suc n)
  then show ?case using Suc.IH [of "Suc i"] by auto
qed simp

lemma free_slot_least: "i \<le> j \<Longrightarrow> j < free_slot msk i n \<Longrightarrow> bit msk j"
proof (induction n arbitrary: i)
  case (Suc n)
  then show ?case using Suc.IH [of "Suc i"] by (cases "i = j") (auto split: if_splits)
qed simp

lemma free_slot_full: "free_slot msk 0 n = n \<longleftrightarrow> (\<forall>j < n. bit msk j)"
  using free_slot_bounds [of 0 msk n] free_slot_free [of msk 0 n] free_slot_least [of 0 _ msk n]
  by (metis add_0 le_neq_implies_less zero_le)

lemma mask_set_clear:
  fixes msk :: u8
  assumes "\<not> bit msk i" "i < 8"
  shows "(msk OR push_bit i 1) AND NOT (push_bit i 1) = msk"
  by (rule bit_word_eqI) (use assms in \<open>auto simp: bit_simps\<close>)

definition unit_inv :: "u8 \<Rightarrow> nat \<Rightarrow> nat list \<Rightarrow> bool" where
  "unit_inv msk n slots \<longleftrightarrow> n \<le> 8 \<and> distinct slots \<and> (\<forall>j\<in>set slots. j < n) \<and> (\<forall>j. bit msk j \<longleftrightarrow> j \<in> set slots)"

lemma unit_inv_set:
  assumes "unit_inv msk n slots" "free_slot msk 0 n \<noteq> n"
  shows "unit_inv (msk OR push_bit (free_slot msk 0 n) 1) n (free_slot msk 0 n # slots)"
proof -
  let ?i = "free_slot msk 0 n"
  have i: "?i < n" "\<not> bit msk ?i" using free_slot_bounds [of 0 msk n] free_slot_free [of msk 0 n] assms(2) by auto
  with assms(1) show ?thesis by (auto simp: unit_inv_def bit_simps)
qed

lemma unit_inv_clear:
  assumes "unit_inv msk n (pre @ i # post)"
  shows "unit_inv (msk AND NOT (push_bit i 1)) n (pre @ post)"
proof -
  have "\<forall>j. bit (msk AND NOT (push_bit i 1)) j \<longleftrightarrow> bit msk j \<and> j \<noteq> i"
    by (auto simp: bit_simps dest: bit_imp_le_length)
  with assms show ?thesis by (auto simp: unit_inv_def)
qed

lemma unit_inv_full:
  assumes "unit_inv msk n slots"
  shows "free_slot msk 0 n = n \<longleftrightarrow> length slots = n"
proof -
  have "set slots \<subseteq> {..<n}" "distinct slots" using assms by (auto simp: unit_inv_def)
  then have "length slots = n \<longleftrightarrow> set slots = {..<n}"
    by (metis card_lessThan card_subset_eq distinct_card finite_lessThan)
  also have "\<dots> \<longleftrightarrow> (\<forall>j < n. bit msk j)" using assms by (auto simp: unit_inv_def)
  finally show ?thesis using free_slot_full by blast
qed

lemma unit_inv_mask: "unit_inv m n slots \<Longrightarrow> unit_inv m' n' slots \<Longrightarrow> m = m'"
  by (rule bit_word_eqI) (simp add: unit_inv_def)

subsection \<open>The list of breakpoints\<close>

definition is_hard :: "breakwatch \<Rightarrow> bool" where
  "is_hard bw \<longleftrightarrow> bw_type bw = TARGET_BREAK_HARD"

definition is_watch :: "breakwatch \<Rightarrow> bool" where
  "is_watch bw \<longleftrightarrow> bw_type bw \<in> {TARGET_WATCH_WRITE, TARGET_WATCH_READ, TARGET_WATCH_ACCESS}"

definition slots_of :: "(breakwatch \<Rightarrow> bool) \<Rightarrow> breakwatch list \<Rightarrow> nat list" where
  "slots_of P bws = map (\<lambda>bw. unat (bw_reserved bw ! 0)) (filter P bws)"

definition bw_inv :: "'d cortexm \<Rightarrow> bool" where
  "bw_inv t \<longleftrightarrow> unit_inv (breakpoints_mask t) (unat (breakpoints_available t)) (slots_of is_hard (bw_list t)) \<and>
     unit_inv (watchpoints_mask t) (unat (watchpoints_available t)) (slots_of is_watch (bw_list t))"

text \<open>With units that are marked used but belong to no listed breakpoint, \<open>hl\<close> of the
  comparators and \<open>wl\<close> of the watchpoint units: what is left behind when the list entry of a breakpoint
  that was set could not be allocated.\<close>

definition bw_lost :: "nat list \<Rightarrow> nat list \<Rightarrow> 'd cortexm \<Rightarrow> bool" where
  "bw_lost hl wl t \<longleftrightarrow>
     unit_inv (breakpoints_mask t) (unat (breakpoints_available t)) (slots_of is_hard (bw_list t) @ hl) \<and>
     unit_inv (watchpoints_mask t) (unat (watchpoints_available t)) (slots_of is_watch (bw_list t) @ wl)"

lemma bw_lost_none: "bw_lost [] [] t \<longleftrightarrow> bw_inv t"
  by (simp add: bw_lost_def bw_inv_def)

definition failing_mallocs :: "'h target_scheme \<Rightarrow> nat" where
  "failing_mallocs t = length (filter Not (plat_mallocs t))"

lemma plat_malloc_cases:
  obtains (ok) h where "plat_malloc t = (True, t\<lparr>plat_mallocs := h\<rparr>)" "failing_mallocs (t\<lparr>plat_mallocs := h\<rparr>) = failing_mallocs t"
  | (fails) h where "plat_malloc t = (False, t\<lparr>plat_mallocs := h\<rparr>)" "Suc (failing_mallocs (t\<lparr>plat_mallocs := h\<rparr>)) = failing_mallocs t"
proof (cases "plat_mallocs t")
  case Nil
  then show ?thesis using ok [of "[]"] by (simp add: plat_malloc_def failing_mallocs_def)
next
  case (Cons x xs)
  then show ?thesis using ok [of xs] fails [of xs] by (cases x) (simp_all add: plat_malloc_def failing_mallocs_def)
qed

lemma unit_inv_move: "unit_inv msk n (i # xs @ ys) \<longleftrightarrow> unit_inv msk n (xs @ i # ys)"
  by (auto simp: unit_inv_def)

lemma slots_of_simps [simp]:
  "slots_of P [] = []" "slots_of P (bw # bws) = (if P bw then unat (bw_reserved bw ! 0) # slots_of P bws else slots_of P bws)"
  "slots_of P (xs @ ys) = slots_of P xs @ slots_of P ys"
  by (simp_all add: slots_of_def)

lemma bw_find_split: "bw_find P bws = Some (pre, bw, post) \<Longrightarrow> bws = pre @ bw # post \<and> P bw"
  by (induction bws arbitrary: pre) (auto split: if_splits bind_splits)

locale core_bus =
  fixes ops :: "'d cortexm target_ops"
    and ok :: "'d cortexm \<Rightarrow> bool"
  assumes write32: "ok t \<Longrightarrow> unat a mod 4 = 0 \<Longrightarrow> \<exists>d. target_mem_write32 ops a v t = Some (t\<lparr>cm_dp := d\<rparr>) \<and> ok (t\<lparr>cm_dp := d\<rparr>)"
    and frame: "ok t \<Longrightarrow> ok (t\<lparr>breakpoints_mask := x\<rparr>)" "ok t \<Longrightarrow> ok (t\<lparr>watchpoints_mask := y\<rparr>)"
      "ok t \<Longrightarrow> ok (t\<lparr>bw_list := l\<rparr>)" "ok t \<Longrightarrow> ok (t\<lparr>plat_mallocs := h\<rparr>)"
begin

lemma comp_aligned:
  assumes "i < 8"
  shows "unat (CORTEXM_FPB_COMP (of_nat i)) mod 4 = 0" "unat (CORTEXM_DWT_COMP (of_nat i)) mod 4 = 0"
    "unat (CORTEXM_DWT_MASK (of_nat i)) mod 4 = 0" "unat (CORTEXM_DWT_FUNC (of_nat i)) mod 4 = 0"
proof -
  have "i \<in> set [0..<8]" using assms by simp
  then have "unat (CORTEXM_FPB_COMP (of_nat i)) mod 4 = 0 \<and> unat (CORTEXM_DWT_COMP (of_nat i)) mod 4 = 0 \<and>
    unat (CORTEXM_DWT_MASK (of_nat i)) mod 4 = 0 \<and> unat (CORTEXM_DWT_FUNC (of_nat i)) mod 4 = 0"
    by (auto simp: upt_rec CORTEXM_FPB_COMP_def CORTEXM_DWT_COMP_def CORTEXM_DWT_MASK_def CORTEXM_DWT_FUNC_def)
  then show "unat (CORTEXM_FPB_COMP (of_nat i)) mod 4 = 0" "unat (CORTEXM_DWT_COMP (of_nat i)) mod 4 = 0"
    "unat (CORTEXM_DWT_MASK (of_nat i)) mod 4 = 0" "unat (CORTEXM_DWT_FUNC (of_nat i)) mod 4 = 0" by blast+
qed

lemma set_full:
  "bw_type bw = TARGET_BREAK_HARD \<Longrightarrow> free_slot (breakpoints_mask t) 0 (unat (breakpoints_available t)) = unat (breakpoints_available t) \<Longrightarrow>
    cortexm_breakwatch_set ops bw t = Some (- 1, bw, t)"
  "is_watch bw \<Longrightarrow> free_slot (watchpoints_mask t) 0 (unat (watchpoints_available t)) = unat (watchpoints_available t) \<Longrightarrow>
    cortexm_breakwatch_set ops bw t = Some (- 1, bw, t)"
  by (auto simp: cortexm_breakwatch_set_def is_watch_def Let_def)

lemma set_hard:
  assumes "ok t" "bw_type bw = TARGET_BREAK_HARD" "unat (breakpoints_available t) \<le> 8"
    and i: "i = free_slot (breakpoints_mask t) 0 (unat (breakpoints_available t))" "i \<noteq> unat (breakpoints_available t)"
  shows "\<exists>d. cortexm_breakwatch_set ops bw t = Some (0, bw\<lparr>bw_reserved := (bw_reserved bw)[0 := of_nat i]\<rparr>,
           t\<lparr>breakpoints_mask := breakpoints_mask t OR push_bit i 1, cm_dp := d\<rparr>) \<and>
         ok (t\<lparr>breakpoints_mask := breakpoints_mask t OR push_bit i 1, cm_dp := d\<rparr>)"
proof -
  have i8: "i < 8" using free_slot_bounds [of 0 "breakpoints_mask t" "unat (breakpoints_available t)"] i assms(3) by linarith
  let ?v = "(if flash_patch_revision t = 0
             then (bw_addr bw AND 0x1ffffffc) OR (if bw_addr bw AND 2 \<noteq> 0 then 0x80000000 else 0x40000000)
             else bw_addr bw) OR 1"
  obtain d where "target_mem_write32 ops (CORTEXM_FPB_COMP (of_nat i)) ?v (t\<lparr>breakpoints_mask := breakpoints_mask t OR push_bit i 1\<rparr>) =
      Some (t\<lparr>breakpoints_mask := breakpoints_mask t OR push_bit i 1, cm_dp := d\<rparr>)"
      "ok (t\<lparr>breakpoints_mask := breakpoints_mask t OR push_bit i 1, cm_dp := d\<rparr>)"
    using write32 [OF frame(1) [OF assms(1)] comp_aligned(1) [OF i8]] by blast
  then show ?thesis using assms(2) i(2) unfolding cortexm_breakwatch_set_def i(1) [symmetric] Let_def by auto
qed

lemma set_watch:
  assumes "ok t" "is_watch bw" "unat (watchpoints_available t) \<le> 8"
    and i: "i = free_slot (watchpoints_mask t) 0 (unat (watchpoints_available t))" "i \<noteq> unat (watchpoints_available t)"
  shows "\<exists>d. cortexm_breakwatch_set ops bw t = Some (0, bw\<lparr>bw_reserved := (bw_reserved bw)[0 := of_nat i]\<rparr>,
           t\<lparr>watchpoints_mask := watchpoints_mask t OR push_bit i 1, cm_dp := d\<rparr>) \<and>
         ok (t\<lparr>watchpoints_mask := watchpoints_mask t OR push_bit i 1, cm_dp := d\<rparr>)"
proof -
  have i8: "i < 8" using free_slot_bounds [of 0 "watchpoints_mask t" "unat (watchpoints_available t)"] i assms(3) by linarith
  let ?t = "t\<lparr>watchpoints_mask := watchpoints_mask t OR push_bit i 1\<rparr>"
  obtain d1 where 1: "target_mem_write32 ops (CORTEXM_DWT_COMP (of_nat i)) (bw_addr bw) ?t = Some (?t\<lparr>cm_dp := d1\<rparr>)" "ok (?t\<lparr>cm_dp := d1\<rparr>)"
    using write32 [OF frame(2) [OF assms(1)] comp_aligned(2) [OF i8]] by blast
  obtain d2 where 2: "target_mem_write32 ops (CORTEXM_DWT_MASK (of_nat i)) (cortexm_dwt_mask (bw_size bw)) (?t\<lparr>cm_dp := d1\<rparr>) = Some (?t\<lparr>cm_dp := d2\<rparr>)" "ok (?t\<lparr>cm_dp := d2\<rparr>)"
    using write32 [OF 1(2) comp_aligned(3) [OF i8], of "cortexm_dwt_mask (bw_size bw)"] by auto
  obtain d3 where 3: "target_mem_write32 ops (CORTEXM_DWT_FUNC (of_nat i)) (cortexm_dwt_func (bw_type bw) (?t\<lparr>cm_dp := d2\<rparr>)) (?t\<lparr>cm_dp := d2\<rparr>) = Some (?t\<lparr>cm_dp := d3\<rparr>)" "ok (?t\<lparr>cm_dp := d3\<rparr>)"
    using write32 [OF 2(2) comp_aligned(4) [OF i8], of "cortexm_dwt_func (bw_type bw) (?t\<lparr>cm_dp := d2\<rparr>)"] by auto
  have "cortexm_breakwatch_set ops bw t = Some (0, bw\<lparr>bw_reserved := (bw_reserved bw)[0 := of_nat i]\<rparr>, ?t\<lparr>cm_dp := d3\<rparr>)"
    using assms(2) i(2) 1(1) 2(1) 3(1) unfolding cortexm_breakwatch_set_def i(1) [symmetric] Let_def is_watch_def
    by (cases "bw_type bw") auto
  then show ?thesis using 3(2) by blast
qed

lemma clear_hard:
  assumes "ok t" "bw_type bw = TARGET_BREAK_HARD" "unat (bw_reserved bw ! 0) < 8"
  shows "\<exists>d. cortexm_breakwatch_clear ops bw t = Some (0, t\<lparr>breakpoints_mask := breakpoints_mask t AND NOT (push_bit (unat (bw_reserved bw ! 0)) 1), cm_dp := d\<rparr>) \<and>
    ok (t\<lparr>breakpoints_mask := breakpoints_mask t AND NOT (push_bit (unat (bw_reserved bw ! 0)) 1), cm_dp := d\<rparr>)"
  using write32 [OF frame(1) [OF assms(1), of "breakpoints_mask t AND NOT (push_bit (unat (bw_reserved bw ! 0)) 1)"]
    comp_aligned(1) [OF assms(3)], of 0] assms(2)
  by (auto simp: cortexm_breakwatch_clear_def Let_def)

lemma clear_watch:
  assumes "ok t" "is_watch bw" "unat (bw_reserved bw ! 0) < 8"
  shows "\<exists>d. cortexm_breakwatch_clear ops bw t = Some (0, t\<lparr>watchpoints_mask := watchpoints_mask t AND NOT (push_bit (unat (bw_reserved bw ! 0)) 1), cm_dp := d\<rparr>) \<and>
    ok (t\<lparr>watchpoints_mask := watchpoints_mask t AND NOT (push_bit (unat (bw_reserved bw ! 0)) 1), cm_dp := d\<rparr>)"
  using write32 [OF frame(2) [OF assms(1), of "watchpoints_mask t AND NOT (push_bit (unat (bw_reserved bw ! 0)) 1)"]
    comp_aligned(4) [OF assms(3)], of 0] assms(2)
  by (auto simp: cortexm_breakwatch_clear_def Let_def is_watch_def)

subsubsection \<open>Through the target layer\<close>

definition new_bw :: "target_breakwatch_e \<Rightarrow> u32 \<Rightarrow> u32 \<Rightarrow> nat \<Rightarrow> breakwatch" where
  "new_bw type addr len i = \<lparr>bw_type = type, bw_addr = addr, bw_size = len, bw_reserved = [of_nat i, 0, 0, 0]\<rparr>"

lemma small_slot: "i < 8 \<Longrightarrow> unat (of_nat i :: u32) = i"
  by (simp add: unat_of_nat)

lemma bw_cases:
  obtains "bw_type bw = TARGET_BREAK_SOFT" | "is_hard bw" "\<not> is_watch bw" | "is_watch bw" "\<not> is_hard bw"
  by (cases "bw_type bw") (auto simp: is_hard_def is_watch_def)

lemma set_lost:
  assumes t: "ok t" "bw_lost hl wl t" and bw: "bw = \<lparr>bw_type = type, bw_addr = addr, bw_size = len, bw_reserved = [0, 0, 0, 0]\<rparr>"
  obtains (refused) r where "cortexm_breakwatch_set ops bw t = Some (r, bw, t)" "r \<noteq> 0"
  | (taken) i t1 where "cortexm_breakwatch_set ops bw t = Some (0, new_bw type addr len i, t1)" "ok t1" "bw_list t1 = bw_list t"
      "plat_mallocs t1 = plat_mallocs t" "bw_lost hl wl (t1\<lparr>bw_list := new_bw type addr len i # bw_list t\<rparr>)"
      "bw_lost (i # hl) wl t1 \<or> bw_lost hl (i # wl) t1"
proof (cases rule: bw_cases [of bw])
  case 1
  then show ?thesis by (intro refused [of 1]) (simp_all add: cortexm_breakwatch_set_def)
next
  case 2
  let ?n = "unat (breakpoints_available t)"
  define i where "i = free_slot (breakpoints_mask t) 0 ?n"
  have u: "unit_inv (breakpoints_mask t) ?n (slots_of is_hard (bw_list t) @ hl)" "?n \<le> 8" using t(2) by (auto simp: bw_lost_def unit_inv_def)
  show ?thesis
  proof (cases "i = ?n")
    case True
    then show ?thesis using set_full(1) [of bw t] 2 by (intro refused [of "- 1"]) (auto simp: is_hard_def i_def)
  next
    case False
    let ?t = "\<lambda>d. t\<lparr>breakpoints_mask := breakpoints_mask t OR push_bit i 1, cm_dp := d\<rparr>"
    have i8: "i < 8" using free_slot_bounds [of 0 "breakpoints_mask t" ?n] u(2) False i_def by linarith
    obtain d where d: "cortexm_breakwatch_set ops bw t = Some (0, new_bw type addr len i, ?t d)" "ok (?t d)"
      using set_hard [OF t(1) _ u(2) i_def False, of bw] 2(1) by (auto simp: is_hard_def new_bw_def bw)
    have "unit_inv (breakpoints_mask t OR push_bit i 1) ?n (i # slots_of is_hard (bw_list t) @ hl)"
      using unit_inv_set [OF u(1)] False i_def by blast
    then show ?thesis using d 2 t(2) i8
      by (intro taken [of i "?t d"]) (auto simp: bw_lost_def new_bw_def bw is_hard_def is_watch_def small_slot unit_inv_move)
  qed
next
  case 3
  let ?n = "unat (watchpoints_available t)"
  define i where "i = free_slot (watchpoints_mask t) 0 ?n"
  have u: "unit_inv (watchpoints_mask t) ?n (slots_of is_watch (bw_list t) @ wl)" "?n \<le> 8" using t(2) by (auto simp: bw_lost_def unit_inv_def)
  show ?thesis
  proof (cases "i = ?n")
    case True
    then show ?thesis using set_full(2) [of bw t] 3 by (intro refused [of "- 1"]) (auto simp: i_def)
  next
    case False
    let ?t = "\<lambda>d. t\<lparr>watchpoints_mask := watchpoints_mask t OR push_bit i 1, cm_dp := d\<rparr>"
    have i8: "i < 8" using free_slot_bounds [of 0 "watchpoints_mask t" ?n] u(2) False i_def by linarith
    obtain d where d: "cortexm_breakwatch_set ops bw t = Some (0, new_bw type addr len i, ?t d)" "ok (?t d)"
      using set_watch [OF t(1) 3(1) u(2) i_def False] by (auto simp: new_bw_def bw)
    have "unit_inv (watchpoints_mask t OR push_bit i 1) ?n (i # slots_of is_watch (bw_list t) @ wl)"
      using unit_inv_set [OF u(1)] False i_def by blast
    then show ?thesis using d 3 t(2) i8
      by (intro taken [of i "?t d"]) (auto simp: bw_lost_def new_bw_def bw is_hard_def is_watch_def small_slot unit_inv_move)
  qed
qed

lemma target_set:
  assumes fn: "breakwatch_set_fn tops = Some (cortexm_breakwatch_set ops)" and t: "ok t" "bw_lost hl wl t"
  shows "\<exists>r t' hl' wl'. target_breakwatch_set tops type addr len t = Some (r, t') \<and> ok t' \<and> bw_lost hl' wl' t' \<and>
    length hl' + length wl' + failing_mallocs t' = length hl + length wl + failing_mallocs t \<and>
    (if r = 0 then hl' = hl \<and> wl' = wl \<and> (\<exists>i. bw_list t' = new_bw type addr len i # bw_list t) else bw_list t' = bw_list t)"
proof -
  let ?bw = "\<lparr>bw_type = type, bw_addr = addr, bw_size = len, bw_reserved = [0, 0, 0, 0]\<rparr> :: breakwatch"
  from t refl [of ?bw] show ?thesis
  proof (cases rule: set_lost)
    case (refused r)
    then show ?thesis using fn t by (auto simp: target_breakwatch_set_def)
  next
    case (taken i t1)
    note fm = failing_mallocs_def
    show ?thesis
    proof (cases rule: plat_malloc_cases [of t1])
      case (ok h)
      let ?t' = "t1\<lparr>plat_mallocs := h, bw_list := new_bw type addr len i # bw_list t\<rparr>"
      have "target_breakwatch_set tops type addr len t = Some (0, ?t')" using fn taken ok by (simp add: target_breakwatch_set_def)
      moreover have "ok ?t'" using frame(3) [OF frame(4) [OF taken(2)]] by simp
      moreover have "bw_lost hl wl ?t'" using taken(5) by (simp add: bw_lost_def)
      moreover have "failing_mallocs ?t' = failing_mallocs t" using ok(2) taken(4) by (simp add: fm)
      ultimately show ?thesis by fastforce
    next
      case (fails h)
      let ?t' = "t1\<lparr>plat_mallocs := h\<rparr>"
      have r: "target_breakwatch_set tops type addr len t = Some (1, ?t')" using fn taken fails by (simp add: target_breakwatch_set_def)
      have k: "Suc (failing_mallocs ?t') = failing_mallocs t" using fails(2) taken(4) by (simp add: fm)
      have "bw_lost (i # hl) wl ?t' \<or> bw_lost hl (i # wl) ?t'" using taken(6) by (simp add: bw_lost_def)
      then show ?thesis using r k frame(4) [OF taken(2), of h] taken(3) by fastforce
    qed
  qed
qed

lemma target_clear:
  assumes fn: "breakwatch_clear_fn tops = Some (cortexm_breakwatch_clear ops)" and t: "ok t" "bw_lost hl wl t"
  shows "\<exists>r t'. target_breakwatch_clear tops type addr len t = Some (r, t') \<and> ok t' \<and> bw_lost hl wl t' \<and> plat_mallocs t' = plat_mallocs t \<and>
    (if r = 0 then \<exists>pre bw post. bw_find (bw_matches type addr len) (bw_list t) = Some (pre, bw, post) \<and> bw_list t' = pre @ post
     else t' = t)"
proof (cases "bw_find (bw_matches type addr len) (bw_list t)")
  case None
  with t show ?thesis by (auto simp: target_breakwatch_clear_def)
next
  case (Some r)
  obtain pre bw post where r: "r = (pre, bw, post)" by (cases r)
  have l: "bw_list t = pre @ bw # post" "bw_matches type addr len bw" using bw_find_split Some r by blast+
  show ?thesis
  proof (cases rule: bw_cases [of bw])
    case 1
    then show ?thesis using fn t Some r by (auto simp: target_breakwatch_clear_def cortexm_breakwatch_clear_def)
  next
    case 2
    let ?i = "unat (bw_reserved bw ! 0)"
    have u: "unit_inv (breakpoints_mask t) (unat (breakpoints_available t)) (slots_of is_hard pre @ ?i # slots_of is_hard post @ hl)"
      using t(2) 2 by (simp add: bw_lost_def l)
    then have i8: "?i < 8" by (auto simp: unit_inv_def)
    obtain d where d: "cortexm_breakwatch_clear ops bw t = Some (0, t\<lparr>breakpoints_mask := breakpoints_mask t AND NOT (push_bit ?i 1), cm_dp := d\<rparr>)"
      "ok (t\<lparr>breakpoints_mask := breakpoints_mask t AND NOT (push_bit ?i 1), cm_dp := d\<rparr>)"
      using clear_hard [OF t(1) _ i8] 2(1) by (auto simp: is_hard_def)
    let ?t = "t\<lparr>breakpoints_mask := breakpoints_mask t AND NOT (push_bit ?i 1), cm_dp := d, bw_list := pre @ post\<rparr>"
    have "target_breakwatch_clear tops type addr len t = Some (0, ?t)" using fn d(1) Some r by (simp add: target_breakwatch_clear_def)
    moreover have "ok ?t" using frame(3) [OF d(2)] by simp
    moreover have "bw_lost hl wl ?t" using t(2) unit_inv_clear [OF u] 2 by (auto simp: bw_lost_def l is_hard_def is_watch_def)
    ultimately show ?thesis using Some r by auto
  next
    case 3
    let ?i = "unat (bw_reserved bw ! 0)"
    have u: "unit_inv (watchpoints_mask t) (unat (watchpoints_available t)) (slots_of is_watch pre @ ?i # slots_of is_watch post @ wl)"
      using t(2) 3 by (simp add: bw_lost_def l)
    then have i8: "?i < 8" by (auto simp: unit_inv_def)
    obtain d where d: "cortexm_breakwatch_clear ops bw t = Some (0, t\<lparr>watchpoints_mask := watchpoints_mask t AND NOT (push_bit ?i 1), cm_dp := d\<rparr>)"
      "ok (t\<lparr>watchpoints_mask := watchpoints_mask t AND NOT (push_bit ?i 1), cm_dp := d\<rparr>)"
      using clear_watch [OF t(1) 3(1) i8] by auto
    let ?t = "t\<lparr>watchpoints_mask := watchpoints_mask t AND NOT (push_bit ?i 1), cm_dp := d, bw_list := pre @ post\<rparr>"
    have "target_breakwatch_clear tops type addr len t = Some (0, ?t)" using fn d(1) Some r by (simp add: target_breakwatch_clear_def)
    moreover have "ok ?t" using frame(3) [OF d(2)] by simp
    moreover have "bw_lost hl wl ?t" using t(2) unit_inv_clear [OF u] 3 by (auto simp: bw_lost_def l is_hard_def is_watch_def)
    ultimately show ?thesis using Some r by auto
  qed
qed

lemma clear_new: "bw_find (bw_matches type addr len) (new_bw type addr len i # bws) = Some ([], new_bw type addr len i, bws)"
  by (simp add: bw_matches_def new_bw_def)

end

subsection \<open>Sequences of requests\<close>

datatype bw_cmd = BW_set target_breakwatch_e u32 u32 | BW_clear target_breakwatch_e u32 u32

fun bw_exec :: "'d cortexm target_ops \<Rightarrow> bw_cmd list \<Rightarrow> 'd cortexm \<Rightarrow> (int list \<times> 'd cortexm) option" where
  "bw_exec ops [] t = Some ([], t)"
| "bw_exec ops (BW_set type addr len # cs) t =
     do { (r, t) \<leftarrow> target_breakwatch_set ops type addr len t; (rs, t) \<leftarrow> bw_exec ops cs t; Some (r # rs, t) }"
| "bw_exec ops (BW_clear type addr len # cs) t =
     do { (r, t) \<leftarrow> target_breakwatch_clear ops type addr len t; (rs, t) \<leftarrow> bw_exec ops cs t; Some (r # rs, t) }"

context core_bus
begin

lemma exec_inv:
  assumes fn: "breakwatch_set_fn tops = Some (cortexm_breakwatch_set ops)" "breakwatch_clear_fn tops = Some (cortexm_breakwatch_clear ops)"
    and "ok t" "bw_lost hl wl t"
  shows "\<exists>rs t' hl' wl'. bw_exec tops cs t = Some (rs, t') \<and> ok t' \<and> bw_lost hl' wl' t' \<and>
    length hl' + length wl' + failing_mallocs t' = length hl + length wl + failing_mallocs t"
  using assms(3-)
proof (induction cs arbitrary: t hl wl)
  case (Cons c cs)
  obtain r t1 hl1 wl1 where t1: "bw_exec tops (c # cs) t = do { (rs, t) \<leftarrow> bw_exec tops cs t1; Some (r # rs, t) }"
    "ok t1" "bw_lost hl1 wl1 t1" "length hl1 + length wl1 + failing_mallocs t1 = length hl + length wl + failing_mallocs t"
  proof (cases c)
    case (BW_set type addr len)
    obtain r t1 hl1 wl1 where "target_breakwatch_set tops type addr len t = Some (r, t1)" "ok t1" "bw_lost hl1 wl1 t1"
      "length hl1 + length wl1 + failing_mallocs t1 = length hl + length wl + failing_mallocs t"
      using target_set [OF fn(1) Cons.prems, of type addr len] by blast
    with BW_set show ?thesis by (intro that [of t1 r hl1 wl1]) simp_all
  next
    case (BW_clear type addr len)
    obtain r t1 where "target_breakwatch_clear tops type addr len t = Some (r, t1)" "ok t1" "bw_lost hl wl t1" "plat_mallocs t1 = plat_mallocs t"
      using target_clear [OF fn(2) Cons.prems, of type addr len] by blast
    with BW_clear show ?thesis by (intro that [of t1 r hl wl]) (simp_all add: failing_mallocs_def)
  qed
  obtain rs t2 hl2 wl2 where "bw_exec tops cs t1 = Some (rs, t2)" "ok t2" "bw_lost hl2 wl2 t2"
    "length hl2 + length wl2 + failing_mallocs t2 = length hl1 + length wl1 + failing_mallocs t1"
    using Cons.IH [OF t1(2,3)] by blast
  with t1 show ?case by auto
qed auto

lemma set_clear:
  assumes fn: "breakwatch_set_fn tops = Some (cortexm_breakwatch_set ops)" "breakwatch_clear_fn tops = Some (cortexm_breakwatch_clear ops)"
    and t: "ok t" "bw_lost hl wl t"
    and set: "target_breakwatch_set tops type addr len t = Some (0, t1)"
  shows "\<exists>t2. target_breakwatch_clear tops type addr len t1 = Some (0, t2) \<and> bw_list t2 = bw_list t \<and>
    breakpoints_mask t2 = breakpoints_mask t \<and> watchpoints_mask t2 = watchpoints_mask t"
proof -
  obtain i where t1: "ok t1" "bw_lost hl wl t1" "bw_list t1 = new_bw type addr len i # bw_list t"
    using target_set [OF fn(1) t, of type addr len] set by auto
  have soft: "type \<noteq> TARGET_BREAK_SOFT" using set fn(1) by (auto simp: target_breakwatch_set_def cortexm_breakwatch_set_def)
  obtain r t2 where t2: "target_breakwatch_clear tops type addr len t1 = Some (r, t2)" "bw_lost hl wl t2"
    "if r = 0 then \<exists>pre bw post. bw_find (bw_matches type addr len) (bw_list t1) = Some (pre, bw, post) \<and> bw_list t2 = pre @ post
     else t2 = t1"
    using target_clear [OF fn(2) t1(1,2), of type addr len] by blast
  have "r = 0"
    using t2(1) fn(2) soft unfolding target_breakwatch_clear_def t1(3) clear_new
    by (cases type) (auto simp: cortexm_breakwatch_clear_def new_bw_def Let_def split: bind_splits)
  moreover then have l: "bw_list t2 = bw_list t" using t2(3) unfolding t1(3) clear_new by auto
  moreover have "breakpoints_mask t2 = breakpoints_mask t" "watchpoints_mask t2 = watchpoints_mask t"
    using t2(2) t(2) unfolding bw_lost_def l by (auto dest: unit_inv_mask)
  ultimately show ?thesis using t2(1) by blast
qed

end

end
