(* ===== verification/Crc32.thy ===== *)
theory Crc32
  imports Target
begin

text \<open>
  src/crc32.c as built for a probe without a CRC unit: the byte-wise table-driven CRC and the loop
  that runs it over target memory in blocks of 128 bytes. The bit-wise form of the polynomial division
  (the one stm32_crc32 uses for its remainder) is the reference.
\<close>

definition crc32_table :: "u32 list" where
  "crc32_table =
    [0x00000000, 0x04c11db7, 0x09823b6e, 0x0d4326d9, 0x130476dc, 0x17c56b6b, 0x1a864db2, 0x1e475005,
     0x2608edb8, 0x22c9f00f, 0x2f8ad6d6, 0x2b4bcb61, 0x350c9b64, 0x31cd86d3, 0x3c8ea00a, 0x384fbdbd,
     0x4c11db70, 0x48d0c6c7, 0x4593e01e, 0x4152fda9, 0x5f15adac, 0x5bd4b01b, 0x569796c2, 0x52568b75,
     0x6a1936c8, 0x6ed82b7f, 0x639b0da6, 0x675a1011, 0x791d4014, 0x7ddc5da3, 0x709f7b7a, 0x745e66cd,
     0x9823b6e0, 0x9ce2ab57, 0x91a18d8e, 0x95609039, 0x8b27c03c, 0x8fe6dd8b, 0x82a5fb52, 0x8664e6e5,
     0xbe2b5b58, 0xbaea46ef, 0xb7a96036, 0xb3687d81, 0xad2f2d84, 0xa9ee3033, 0xa4ad16ea, 0xa06c0b5d,
     0xd4326d90, 0xd0f37027, 0xddb056fe, 0xd9714b49, 0xc7361b4c, 0xc3f706fb, 0xceb42022, 0xca753d95,
     0xf23a8028, 0xf6fb9d9f, 0xfbb8bb46, 0xff79a6f1, 0xe13ef6f4, 0xe5ffeb43, 0xe8bccd9a, 0xec7dd02d,
     0x34867077, 0x30476dc0, 0x3d044b19, 0x39c556ae, 0x278206ab, 0x23431b1c, 0x2e003dc5, 0x2ac12072,
     0x128e9dcf, 0x164f8078, 0x1b0ca6a1, 0x1fcdbb16, 0x018aeb13, 0x054bf6a4, 0x0808d07d, 0x0cc9cdca,
     0x7897ab07, 0x7c56b6b0, 0x71159069, 0x75d48dde, 0x6b93dddb, 0x6f52c06c, 0x6211e6b5, 0x66d0fb02,
     0x5e9f46bf, 0x5a5e5b08, 0x571d7dd1, 0x53dc6066, 0x4d9b3063, 0x495a2dd4, 0x44190b0d, 0x40d816ba,
     0xaca5c697, 0xa864db20, 0xa527fdf9, 0xa1e6e04e, 0xbfa1b04b, 0xbb60adfc, 0xb6238b25, 0xb2e29692,
     0x8aad2b2f, 0x8e6c3698, 0x832f1041, 0x87ee0df6, 0x99a95df3, 0x9d684044, 0x902b669d, 0x94ea7b2a,
     0xe0b41de7, 0xe4750050, 0xe9362689, 0xedf73b3e, 0xf3b06b3b, 0xf771768c, 0xfa325055, 0xfef34de2,
     0xc6bcf05f, 0xc27dede8, 0xcf3ecb31, 0xcbffd686, 0xd5b88683, 0xd1799b34, 0xdc3abded, 0xd8fba05a,
     0x690ce0ee, 0x6dcdfd59, 0x608edb80, 0x644fc637, 0x7a089632, 0x7ec98b85, 0x738aad5c, 0x774bb0eb,
     0x4f040d56, 0x4bc510e1, 0x46863638, 0x42472b8f, 0x5c007b8a, 0x58c1663d, 0x558240e4, 0x51435d53,
     0x251d3b9e, 0x21dc2629, 0x2c9f00f0, 0x285e1d47, 0x36194d42, 0x32d850f5, 0x3f9b762c, 0x3b5a6b9b,
     0x0315d626, 0x07d4cb91, 0x0a97ed48, 0x0e56f0ff, 0x1011a0fa, 0x14d0bd4d, 0x19939b94, 0x1d528623,
     0xf12f560e, 0xf5ee4bb9, 0xf8ad6d60, 0xfc6c70d7, 0xe22b20d2, 0xe6ea3d65, 0xeba91bbc, 0xef68060b,
     0xd727bbb6, 0xd3e6a601, 0xdea580d8, 0xda649d6f, 0xc423cd6a, 0xc0e2d0dd, 0xcda1f604, 0xc960ebb3,
     0xbd3e8d7e, 0xb9ff90c9, 0xb4bcb610, 0xb07daba7, 0xae3afba2, 0xaafbe615, 0xa7b8c0cc, 0xa379dd7b,
     0x9b3660c6, 0x9ff77d71, 0x92b45ba8, 0x9675461f, 0x8832161a, 0x8cf30bad, 0x81b02d74, 0x857130c3,
     0x5d8a9099, 0x594b8d2e, 0x5408abf7, 0x50c9b640, 0x4e8ee645, 0x4a4ffbf2, 0x470cdd2b, 0x43cdc09c,
     0x7b827d21, 0x7f436096, 0x7200464f, 0x76c15bf8, 0x68860bfd, 0x6c47164a, 0x61043093, 0x65c52d24,
     0x119b4be9, 0x155a565e, 0x18197087, 0x1cd86d30, 0x029f3d35, 0x065e2082, 0x0b1d065b, 0x0fdc1bec,
     0x3793a651, 0x3352bbe6, 0x3e119d3f, 0x3ad08088, 0x2497d08d, 0x2056cd3a, 0x2d15ebe3, 0x29d4f654,
     0xc5a92679, 0xc1683bce, 0xcc2b1d17, 0xc8ea00a0, 0xd6ad50a5, 0xd26c4d12, 0xdf2f6bcb, 0xdbee767c,
     0xe3a1cbc1, 0xe760d676, 0xea23f0af, 0xeee2ed18, 0xf0a5bd1d, 0xf464a0aa, 0xf9278673, 0xfde69bc4,
     0x89b8fd09, 0x8d79e0be, 0x803ac667, 0x84fbdbd0, 0x9abc8bd5, 0x9e7d9662, 0x933eb0bb, 0x97ffad0c,
     0xafb010b1, 0xab710d06, 0xa6322bdf, 0xa2f33668, 0xbcb4666d, 0xb8757bda, 0xb5365d03, 0xb1f740b4]"

definition crc32_calc :: "u32 \<Rightarrow> u8 \<Rightarrow> u32" where
  "crc32_calc crc data = push_bit 8 crc XOR crc32_table ! unat ((drop_bit 24 crc XOR ucast data) AND 0xff)"

text \<open>The loop over the blocks; offset is a 32-bit size_t. None as the first result is the read error.
  The keep-alive characters sent to gdb once a second do not show.\<close>

partial_function (option) crc_loop ::
  "'h target_scheme target_ops \<Rightarrow> u32 \<Rightarrow> u32 \<Rightarrow> u32 \<Rightarrow> u32 \<Rightarrow> byte list \<Rightarrow> 'h target_scheme \<Rightarrow>
   (u32 option \<times> 'h target_scheme) option" where
  "crc_loop ops base len offset crc buffer t =
     (if offset < len then
        do { let read_len = min 128 (len - offset);
             (err, buffer, t) \<leftarrow> target_mem_read ops buffer (base + offset) (unat ((read_len + 3) AND NOT 3)) t;
             if err then Some (None, t)
             else crc_loop ops base len (offset + 128) (foldl crc32_calc crc (take (unat read_len) buffer)) buffer t }
      else Some (Some crc, t))"

definition generic_crc32 ::
  "'h target_scheme target_ops \<Rightarrow> u32 \<Rightarrow> u32 \<Rightarrow> 'h target_scheme \<Rightarrow> (u32 option \<times> 'h target_scheme) option" where
  "generic_crc32 ops base len t = crc_loop ops base len 0 0xffffffff (replicate 128 0) t"

text \<open>bmd_crc32 times the run. From 512 bytes on it divides by the milliseconds that passed, which is
  None when they are 0.\<close>

definition bmd_crc32 ::
  "'h target_scheme target_ops \<Rightarrow> u32 \<Rightarrow> u32 \<Rightarrow> u32 \<Rightarrow> 'h target_scheme \<Rightarrow> (u32 option \<times> 'h target_scheme) option" where
  "bmd_crc32 ops time_elapsed base len t =
     do { (r, t) \<leftarrow> generic_crc32 ops base len t;
          if len \<ge> 512 \<and> time_elapsed = 0 then None else Some (r, t) }"

text \<open>The reference: one bit of the division by 0x04c11db7, and the eight bits of a byte.\<close>

definition crc_bit :: "u32 \<Rightarrow> u32" where
  "crc_bit crc = (if crc AND 0x80000000 \<noteq> 0 then push_bit 1 crc XOR 0x04c11db7 else push_bit 1 crc)"

definition crc_byte :: "u32 \<Rightarrow> u8 \<Rightarrow> u32" where
  "crc_byte crc data = (crc_bit ^^ 8) (crc XOR push_bit 24 (ucast data))"

subsection \<open>The table is the division\<close>

lemma crc_bit_bit: "crc_bit x = push_bit 1 x XOR (if bit x 31 then 0x04c11db7 else 0)"
proof -
  have "x AND 0x80000000 \<noteq> 0 \<longleftrightarrow> bit x 31"
  proof -
    have "(0x80000000 :: u32) = push_bit 31 1" by simp
    then show ?thesis by (metis and.commute bit_iff_and_push_bit_not_eq_0)
  qed
  then show ?thesis by (simp add: crc_bit_def)
qed

lemma xor_select:
  "(a XOR b) XOR (if P \<noteq> Q then p else 0) = (a XOR (if P then p else 0)) XOR (b XOR (if Q then (p :: u32) else 0))"
  by (rule bit_word_eqI) (auto simp: bit_simps)

lemma crc_bit_xor: "crc_bit (x XOR y) = crc_bit x XOR crc_bit y"
  unfolding crc_bit_bit push_bit_xor bit_xor_iff by (rule xor_select)

lemma crc_bits_xor: "(crc_bit ^^ n) (x XOR y) = (crc_bit ^^ n) x XOR (crc_bit ^^ n) y"
  by (induction n) (simp_all add: crc_bit_xor)

lemma crc_bits_low: "(\<forall>j. bit x j \<longrightarrow> j + n < 32) \<Longrightarrow> (crc_bit ^^ n) x = push_bit n x"
proof (induction n arbitrary: x)
  case (Suc n)
  have "\<not> bit x 31" using Suc.prems by fastforce
  then have 1: "crc_bit x = push_bit 1 x" by (simp add: crc_bit_bit)
  have "j + n < 32" if "bit (push_bit 1 x) j" for j
    using that Suc.prems [rule_format, of "j - 1"] unfolding bit_push_bit_iff by auto
  then have "(crc_bit ^^ n) (push_bit 1 x) = push_bit n (push_bit 1 x)" using Suc.IH by blast
  then show ?case unfolding funpow_Suc_right comp_def 1 push_bit_push_bit by simp
qed simp

text \<open>The table by doubling: each power of two adds its entry to all entries before.\<close>

definition crc_entry :: "nat \<Rightarrow> u32" where
  "crc_entry i = (crc_bit ^^ 8) (push_bit 24 (of_nat i))"

lemma crc_entry_add:
  assumes "j < 2 ^ k"
  shows "crc_entry (2 ^ k + j) = crc_entry (2 ^ k) XOR crc_entry j"
proof -
  have "(2 ^ k :: u32) AND of_nat j = 0"
  proof (rule bit_word_eqI)
    fix n
    have "\<not> bit j k" using assms by (metis bit_iff_odd div_less even_zero)
    then show "bit ((2 ^ k :: u32) AND of_nat j) n = bit (0 :: u32) n"
      by (auto simp: bit_simps bit_exp_iff bit_of_nat_iff)
  qed
  then have "(of_nat (2 ^ k + j) :: u32) = of_nat (2 ^ k) XOR of_nat j"
    by (simp add: disjunctive_add_eq_xor)
  then show ?thesis by (simp only: crc_entry_def push_bit_xor crc_bits_xor)
qed

definition crc_double :: "u32 list \<Rightarrow> u32 \<Rightarrow> u32 list" where
  "crc_double t p = t @ map ((XOR) p) t"

lemma crc_double_entries:
  assumes "t = map crc_entry [0..<2 ^ k]" "p = crc_entry (2 ^ k)"
  shows "crc_double t p = map crc_entry [0..<2 ^ Suc k]"
proof (rule nth_equalityI)
  fix i assume "i < length (crc_double t p)"
  then have i: "i < 2 ^ k + 2 ^ k" by (simp add: crc_double_def assms(1))
  show "crc_double t p ! i = map crc_entry [0..<2 ^ Suc k] ! i"
  proof (cases "i < 2 ^ k")
    case True
    then show ?thesis by (simp add: crc_double_def nth_append assms(1))
  next
    case False
    then have "crc_entry i = p XOR crc_entry (i - 2 ^ k)"
      using crc_entry_add [of "i - 2 ^ k" k] i assms(2) by auto
    then show ?thesis using False i by (simp add: crc_double_def nth_append assms(1))
  qed
qed (simp add: crc_double_def assms(1))

lemma crc_bits_8: "(crc_bit ^^ 8) x = crc_bit (crc_bit (crc_bit (crc_bit (crc_bit (crc_bit (crc_bit (crc_bit x)))))))"
  by (simp add: eval_nat_numeral)

lemma crc_basis:
  "crc_entry 1 = 0x04c11db7" "crc_entry 2 = 0x09823b6e" "crc_entry 4 = 0x130476dc" "crc_entry 8 = 0x2608edb8"
  "crc_entry 16 = 0x4c11db70" "crc_entry 32 = 0x9823b6e0" "crc_entry 64 = 0x34867077" "crc_entry 128 = 0x690ce0ee"
  unfolding crc_entry_def crc_bits_8 by (simp_all add: crc_bit_def)

lemma crc32_table_doubled:
  "crc32_table = foldl crc_double [0] [0x04c11db7, 0x09823b6e, 0x130476dc, 0x2608edb8, 0x4c11db70, 0x9823b6e0, 0x34867077, 0x690ce0ee]"
  by (simp add: crc32_table_def crc_double_def)

lemma crc32_table_entries: "crc32_table = map crc_entry [0..<256]"
proof -
  have z: "crc_entry 0 = 0" by (simp add: crc_entry_def crc_bits_8 crc_bit_def)
  have 0: "[0] = map crc_entry [0..<2 ^ 0]" using z by simp
  note d = crc_double_entries
  have "map crc_entry [0..<2 ^ 8] = crc32_table"
    unfolding crc32_table_doubled foldl.simps
    using d [OF d [OF d [OF d [OF d [OF d [OF d [OF d [OF 0]]]]]]]] crc_basis by simp
  then show ?thesis by simp
qed

lemma crc_split:
  fixes crc :: u32
  shows "crc XOR push_bit 24 (ucast d) = push_bit 24 ((drop_bit 24 crc XOR ucast (d :: u8)) AND 0xff) XOR (crc AND mask 24)"
proof -
  have m: "(0xff :: u32) = mask 8" by (simp add: mask_eq_exp_minus_1)
  show ?thesis unfolding m by (rule bit_word_eqI) (auto simp: bit_simps dest: bit_imp_le_length)
qed

lemma crc32_calc_eq: "crc32_calc crc d = crc_byte crc d"
proof -
  let ?i = "(drop_bit 24 crc XOR ucast d) AND 0xff :: u32"
  have lt: "unat ?i < 256"
  proof -
    have "?i \<le> 0xff" by (rule word_and_le1)
    then show ?thesis by (simp add: word_le_nat_alt)
  qed
  have "crc_byte crc d = (crc_bit ^^ 8) (push_bit 24 ?i) XOR (crc_bit ^^ 8) (crc AND mask 24)"
    unfolding crc_byte_def crc_split crc_bits_xor ..
  also have "(crc_bit ^^ 8) (crc AND mask 24) = push_bit 8 (crc AND mask 24)"
    by (rule crc_bits_low) (auto simp: bit_simps)
  also have "push_bit 8 (crc AND mask 24) = push_bit 8 crc"
    by (rule bit_word_eqI) (auto simp: bit_simps)
  also have "(crc_bit ^^ 8) (push_bit 24 ?i) = crc32_table ! unat ?i"
    using lt by (simp add: crc32_table_entries crc_entry_def)
  finally show ?thesis by (simp add: crc32_calc_def ac_simps)
qed

text \<open>C30: the table-driven step is eight steps of the bit-wise division by 0x04c11db7, for every
  register value and byte.\<close>

theorem crc32_calc_is_division: "crc32_calc crc d = (crc_bit ^^ 8) (crc XOR push_bit 24 (ucast d))"
  unfolding crc32_calc_eq by (rule crc_byte_def)

text \<open>Timing a run of 512 bytes or more that takes less than a millisecond divides by zero.\<close>

theorem bmd_crc32_fast_run: "512 \<le> len \<Longrightarrow> bmd_crc32 ops 0 base len t = None"
  by (auto simp: bmd_crc32_def split: bind_splits)

text \<open>The bound is met by 512 itself.\<close>

theorem bmd_crc32_fast_run_witness: "\<forall>(ops :: unit target_scheme target_ops) t. bmd_crc32 ops 0 0x8000000 512 t = None"
  by (intro allI bmd_crc32_fast_run) simp

end
