(* ===== verification/Emu_Session.thy ===== *)
theory Emu_Session
  imports Stm32f1_Emu Cortexm_Break Crc32
begin

text \<open>
  The probe at work on the emulated device, end to end: recognising the part, programming sessions
  read back through the memory interface, mass erase, core registers, and breakpoints. Every theorem
  runs the functions of the upper layers over the transport and device models.
\<close>

subsection \<open>Programming and reading back\<close>

lemma overlay_all_outside: "(\<forall>sg\<in>set segs. x \<notin> seg_range sg) \<Longrightarrow> overlay_all segs c x = c x"
proof (induction segs arbitrary: c)
  case (Cons sg segs)
  then show ?case by (cases sg) (auto simp: overlay_def seg_range_def)
qed simp

lemma overlay_all_inside:
  assumes "segs_disjoint segs" "(a, bs) \<in> set segs" "unat a \<le> x" "x < unat a + length bs"
  shows "overlay_all segs c x = bs ! (x - unat a)"
  using assms
proof (induction segs arbitrary: c)
  case (Cons sg segs)
  show ?case
  proof (cases "sg = (a, bs)")
    case True
    have "x \<in> seg_range sg" using True Cons.prems(3,4) by (simp add: seg_range_def)
    then have "\<forall>sg'\<in>set segs. x \<notin> seg_range sg'" using Cons.prems(1) by auto
    then show ?thesis using True Cons.prems(3,4) overlay_all_outside by (simp add: overlay_def)
  next
    case False
    then show ?thesis using Cons by (cases sg) auto
  qed
qed simp

lemma emu_mem_read:
  assumes ops: "emu_mem_ops ops" and t: "emu_ready t"
    and a: "flash_range a n"
  shows "\<exists>t'. target_mem_read ops dest a n t = Some (False, map (\<lambda>j. emu_content t (unat a + j)) [0..<n] @ drop n dest, t') \<and>
    emu_at t t' (tgt (cm_dp t))"
proof -
  have r: "cm_ap t = emu_ap" "dcache_line_length t = 0" "shim_ok (cm_dp t)" using t(1) by (simp_all add: emu_ready_def)
  obtain d where d: "advi5_mem_read_bytes emu_dp_ops emu_ap a n (cm_dp t) = Some (map (\<lambda>j. mem_at (tgt (cm_dp t)) (a + of_nat j)) [0..<n], d)"
    "shim_ok d" "tgt d = tgt (cm_dp t)" using emu_read_bytes [OF r(3)] a by blast
  have "mem_at (tgt (cm_dp t)) (a + of_nat j) = emu_content t (unat a + j)" if "j < n" for j
  proof -
    have u: "unat (a + of_nat j) = unat a + j" "134217728 \<le> unat a" "unat a + j < 134348800"
      using a that by (auto simp: flash_range_def in_flash_iff unat_word_ariths unat_of_nat)
    then have f: "in_flash (a + of_nat j)" by (simp add: in_flash_iff)
    have "flash_off (a + of_nat j) = unat a + j - 134217728" using flash_off_unat [OF f] u by simp
    moreover have "unat a + j - 134217728 < 131072" using u by linarith
    ultimately show ?thesis using f u by (simp add: mem_at_def emu_content_def flash_byte_at)
  qed
  then have eq: "map (\<lambda>j. mem_at (tgt (cm_dp t)) (a + of_nat j)) [0..<n] = map (\<lambda>j. emu_content t (unat a + j)) [0..<n]" by simp
  have "emu_at t (t\<lparr>cm_dp := d\<rparr>) (tgt (cm_dp t))" using emu_at_cm_dp [OF emu_ready_at [OF t] d(2,3)] by simp
  then obtain t' where "target_check_error ops (t\<lparr>cm_dp := d\<rparr>) = Some (False, t')" "emu_at t t' (tgt (cm_dp t))"
    using at_check [OF ops] by blast
  then show ?thesis using ops t r d(1) eq
    by (auto simp: target_mem_read_def emu_mem_ops_def cortexm_mem_read_def cortexm_cache_clean_def overwrite_def emu_ready_def emu_conf_def)
qed


lemma emu_region_geom: "emu_flash.geom emu_region" "operation emu_region = FLASH_OPERATION_NONE"
  "unat (f_start emu_region) = 134217728" "unat (f_length emu_region) = 131072"
  unfolding emu_flash.geom_def by (simp_all add: emu_region_def stm32f1_flash_region_def)

lemma session_readback:
  assumes "emu_ready t" "t_flash t = [emu_region]" "list_all id (plat_mallocs t)"
    and "134217728 \<le> unat addr" "unat addr + unat len \<le> 134348800" "len \<noteq> 0"
    and "segs_disjoint segs"
    and "\<forall>sg\<in>set segs. snd sg \<noteq> [] \<and> unat addr \<le> unat (fst sg) \<and> unat (fst sg) + length (snd sg) \<le> unat addr + unat len"
  shows "\<exists>t'. flash_program (emu_ops sh) addr len segs t = Some (True, t') \<and> \<not> flash_mode t' \<and>
    (\<forall>(a, bs)\<in>set segs. \<exists>t''. target_mem_read (emu_ops sh) (replicate (length bs) 0) a (length bs) t' = Some (False, bs, t'')) \<and>
    (\<forall>x. x < unat addr - unat addr mod 1024 \<or> align_up (unat addr + unat len) 1024 \<le> x \<longrightarrow> emu_content t' x = emu_content t x)"
proof -
  obtain t' where t': "flash_program (emu_ops sh) addr len segs t = Some (True, t')" "emu_ready t'" "\<not> flash_mode t'"
    "emu_content t' = overlay_all segs (erased_range (unat addr - unat addr mod 2 ^ 10) (align_up (unat addr + unat len) (2 ^ 10)) (emu_content t))"
    using emu_flash.program_ok [OF assms(1,2) emu_region_geom(1,2) assms(3) _ _ assms(6,7,8)] assms(4,5)
    unfolding emu_region_geom(3,4) by auto
  have up: "unat addr + unat len \<le> align_up (unat addr + unat len) (2 ^ 10)" by (rule align_up_le) simp
  have "\<exists>t''. target_mem_read (emu_ops sh) (replicate (length bs) 0) a (length bs) t' = Some (False, bs, t'')"
    if sg: "(a, bs) \<in> set segs" for a bs
  proof -
    have b: "unat addr \<le> unat a" "unat a + length bs \<le> unat addr + unat len" "0 < length bs" using assms(8) sg by auto
    then have "unat a < 134348800" "unat a + length bs \<le> 134348800" using assms(5) by linarith+
    then have "flash_range a (length bs)" using assms(4) b(1) by (simp add: flash_range_def in_flash_iff)
    from emu_mem_read [OF emu_mem_ops_core(3) t'(2) this, of sh "replicate (length bs) 0"] obtain t'' where
      "target_mem_read (emu_ops sh) (replicate (length bs) 0) a (length bs) t' =
         Some (False, map (\<lambda>j. emu_content t' (unat a + j)) [0..<length bs], t'')" by auto
    moreover have "map (\<lambda>j. emu_content t' (unat a + j)) [0..<length bs] = bs"
      by (rule nth_equalityI) (simp_all add: t'(4) overlay_all_inside [OF assms(7) sg])
    ultimately show ?thesis by auto
  qed
  moreover have "emu_content t' x = emu_content t x"
    if x: "x < unat addr - unat addr mod 1024 \<or> align_up (unat addr + unat len) 1024 \<le> x" for x
  proof -
    have "\<forall>sg\<in>set segs. x \<notin> seg_range sg" using assms(8) x up by (fastforce simp: seg_range_def)
    then show ?thesis using x by (auto simp: t'(4) overlay_all_outside erased_range_def)
  qed
  ultimately show ?thesis using t' by blast
qed

text \<open>C3: a whole programming session on the emulated part. Erasing a range and writing pairwise
  disjoint segments inside it through the buffered flash layer succeeds; afterwards every segment reads
  back as written, and flash outside the erased pages is unchanged. The allocations of the flash layer
  succeed.\<close>

theorem emu_session_readback:
  assumes "emu_ready t" "t_flash t = [emu_region]" "list_all id (plat_mallocs t)"
    and "134217728 \<le> unat addr" "unat addr + unat len \<le> 134348800" "len \<noteq> 0"
    and "segs_disjoint segs"
    and "\<forall>sg\<in>set segs. snd sg \<noteq> [] \<and> unat addr \<le> unat (fst sg) \<and> unat (fst sg) + length (snd sg) \<le> unat addr + unat len"
  shows "\<exists>t'. flash_program (emu_ops sh) addr len segs t = Some (True, t') \<and> \<not> flash_mode t' \<and>
    (\<forall>(a, bs)\<in>set segs. \<exists>t''. target_mem_read (emu_ops sh) (replicate (length bs) 0) a (length bs) t' = Some (False, bs, t'')) \<and>
    (\<forall>x. x < unat addr - unat addr mod 1024 \<or> align_up (unat addr + unat len) 1024 \<le> x \<longrightarrow> emu_content t' x = emu_content t x)"
  by (rule session_readback [OF assms])

subsection \<open>Probing\<close>

lemma dp_read32:
  assumes "emu_mem_ops ops" "cm_ap t = emu_ap" "dcache_line_length t = 0" "shim_ok (cm_dp t)" "mem_access a 4"
    "emu_target_load a 4 (tgt (cm_dp t)) = Some v"
  shows "\<exists>d. target_mem_read32 ops a t = Some (v, t\<lparr>cm_dp := d\<rparr>) \<and> shim_ok d \<and> tgt d = tgt (cm_dp t)"
proof -
  have "emu_at t t (tgt (cm_dp t))" unfolding emu_at_def using assms by (intro conjI exI [of _ "cm_dp t"]) auto
  from at_read32 [OF assms(1) this assms(5,6)] show ?thesis by (auto simp: emu_at_def)
qed

lemma dp_write32:
  assumes "emu_mem_ops ops" "cm_ap t = emu_ap" "dcache_line_length t = 0" "shim_ok (cm_dp t)" "mem_access a 4"
    "emu_target_store a v 4 (tgt (cm_dp t)) = Some m"
  shows "\<exists>d. target_mem_write32 ops a v t = Some (t\<lparr>cm_dp := d\<rparr>) \<and> shim_ok d \<and> tgt d = m"
proof -
  have "emu_at t t (tgt (cm_dp t))" unfolding emu_at_def using assms by (intro conjI exI [of _ "cm_dp t"]) auto
  from at_write32 [OF assms(1) this assms(5,6)] show ?thesis by (auto simp: emu_at_def)
qed

lemma dp_check:
  assumes "emu_mem_ops ops" "shim_ok (cm_dp t)"
  shows "\<exists>d. target_check_error ops t = Some (False, t\<lparr>cm_dp := d\<rparr>) \<and> shim_ok d \<and> tgt d = tgt (cm_dp t)"
  using assms by (auto simp: emu_mem_ops_def target_check_error_def cortex_check_error_def emu_shim_error_def shim_ok_def)

lemma emu_probe_fpu:
  assumes "emu_mem_ops ops" "cm_ap t = emu_ap" "dcache_line_length t = 0" "shim_ok (cm_dp t)"
  shows "\<exists>d. probe_fpu ops t = Some (False, t\<lparr>cm_dp := d\<rparr>) \<and> shim_ok d \<and> tgt d = tgt (cm_dp t)"
proof -
  note sc = scs_access [of "0xd88", simplified]
  have z: "scs_read 0xd88 m = 0" for m :: emu_target by (simp add: scs_read_def)
  have w: "scs_write 0xd88 v m = m" for v and m :: emu_target by (simp add: scs_write_def)
  obtain d1 where d1: "target_mem_read32 ops CORTEXM_CPACR t = Some (0, t\<lparr>cm_dp := d1\<rparr>)" "shim_ok d1" "tgt d1 = tgt (cm_dp t)"
    using dp_read32 [OF assms sc(3) sc(1)] z by auto
  obtain d2 where d2: "target_mem_write32 ops CORTEXM_CPACR 0x00f00000 (t\<lparr>cm_dp := d1\<rparr>) = Some (t\<lparr>cm_dp := d2\<rparr>)" "shim_ok d2" "tgt d2 = tgt (cm_dp t)"
    using dp_write32 [of ops "t\<lparr>cm_dp := d1\<rparr>", OF assms(1) _ _ _ sc(3) sc(2), of "0x00f00000"] assms d1 w by auto
  obtain d3 where "target_mem_read32 ops CORTEXM_CPACR (t\<lparr>cm_dp := d2\<rparr>) = Some (0, t\<lparr>cm_dp := d3\<rparr>)" "shim_ok d3" "tgt d3 = tgt (cm_dp t)"
    using dp_read32 [of ops "t\<lparr>cm_dp := d2\<rparr>", OF assms(1) _ _ _ sc(3) sc(1)] assms d2 z by auto
  then show ?thesis using d1 d2 by (auto simp: probe_fpu_def)
qed

lemma emu_probe_cache:
  assumes "emu_mem_ops ops" "cm_ap t = emu_ap" "dcache_line_length t = 0" "shim_ok (cm_dp t)"
  shows "\<exists>d. probe_cache_type ops t = Some (t\<lparr>cm_dp := d\<rparr>) \<and> shim_ok d \<and> tgt d = tgt (cm_dp t)"
proof -
  note sc = scs_access [of "0xd7c", simplified]
  obtain d1 where d1: "target_mem_read32 ops CORTEXM_CTR t = Some (0, t\<lparr>cm_dp := d1\<rparr>)" "shim_ok d1" "tgt d1 = tgt (cm_dp t)"
    using dp_read32 [OF assms sc(3) sc(1)] by (auto simp: scs_read_def)
  obtain d2 where "target_check_error ops (t\<lparr>cm_dp := d1\<rparr>) = Some (False, t\<lparr>cm_dp := d2\<rparr>)" "shim_ok d2" "tgt d2 = tgt (cm_dp t)"
    using dp_check [OF assms(1), of "t\<lparr>cm_dp := d1\<rparr>"] d1 by auto
  then show ?thesis using d1 by (auto simp: probe_cache_type_def)
qed

lemma emu_read_cpuid:
  assumes "cm_ap t = emu_ap" "base_addr t = EMU_SCS_BASE" "shim_ok (cm_dp t)"
  shows "\<exists>d. cortex_read_cpuid emu_dp_ops t = Some (t\<lparr>cm_dp := d, cpuid := EMU_CPUID, core := Some ''M3''\<rparr>) \<and> shim_ok d \<and> tgt d = tgt (cm_dp t)"
proof -
  note sc = scs_access [of "0xd00", simplified]
  obtain d where "advi5_mem_read_bytes emu_dp_ops emu_ap (EMU_SCS_BASE + 0xd00) 4 (cm_dp t) = Some (bytes_of_u32 EMU_CPUID, d)"
    "shim_ok d" "tgt d = tgt (cm_dp t)"
    using emu_read_word [OF assms(3) sc(3) sc(1)] by (auto simp: scs_read_def)
  then show ?thesis using assms
    by (auto simp: cortex_read_cpuid_def cortex_dbg_read32_def cortex_core_name_def)
qed

lemma emu_stm32f1_probe:
  assumes "emu_mem_ops ops" "cm_ap t = emu_ap" "dcache_line_length t = 0" "shim_ok (cm_dp t)" "cpuid t = EMU_CPUID" "plat_mallocs t = []"
  shows "\<exists>d. stm32f1_probe ops t = Some (True, ops\<lparr>mass_erase_fn := Some (stm32f1_mass_erase ops)\<rparr>,
      t\<lparr>cm_dp := d, driver := ''STM32F1 medium density'', part_id := 0x410,
        t_ram := \<lparr>ram_start = 0x20000000, ram_length = 0x5000\<rparr> # t_ram t, t_flash := emu_region # t_flash t,
        commands := commands t @ [(''STM32 LD/MD/VL-LD/VL-MD'', [''option''])]\<rparr>) \<and> shim_ok d \<and> tgt d = tgt (cm_dp t)"
proof -
  have ld: "emu_target_load 0xe0042000 4 (tgt (cm_dp t)) = Some 0x20036410" "mem_access 0xe0042000 4"
    by (simp_all add: emu_target_load_eq in_flash_iff in_sram_iff mem_access_def)
  obtain d where "target_mem_read32 ops 0xe0042000 t = Some (0x20036410, t\<lparr>cm_dp := d\<rparr>)" "shim_ok d" "tgt d = tgt (cm_dp t)"
    using dp_read32 [OF assms(1-4) ld(2,1)] by auto
  then show ?thesis using assms
    by (auto simp: stm32f1_probe_def stm32f1_read_idcode_def emu_ap_def stm32f1_take_def stm32f1_add_flash_def plat_malloc_def target_add_ram_def
       target_add_flash_def flash_sized_def stm32f1_flash_region_def emu_region_def target_add_commands_def stm32f1_cmd_list_def)
qed


text \<open>Probing the device runs the driver search to the STM32F1 driver.\<close>

lemma emu_cortexm_probe:
  assumes "fst (probe_designer ids) = 0x020" "shim_ok (cm_dp env)" "plat_mallocs env = []" "\<not> plat_nrst env"
    "fpec_ok (tgt (cm_dp env))" "no_oom (tgt (cm_dp env))"
  shows "\<exists>t. cortexm_probe emu_dp_ops sh (stm32f1_fns emu_dp_ops) (driver_table other) ids emu_ap env = Some (Some (emu_ops sh, t), t) \<and>
    emu_ready t \<and> t_flash t = [emu_region] \<and> t_ram t = [\<lparr>ram_start = EMU_SRAM_BASE, ram_length = EMU_SRAM_SIZE\<rparr>] \<and>
    driver t = ''STM32F1 medium density'' \<and> core t = Some ''M3'' \<and> part_id t = 0x410 \<and> regs_size t = 80 \<and>
    tgt (cm_dp t) = tgt (cm_dp env) \<and> \<not> stepping t \<and> \<not> on_bkpt t \<and> icache_line_length t = 0 \<and> plat_mallocs t = [] \<and>
    bw_list t = []"
proof -
  let ?ops = "cortexm_ops emu_dp_ops sh (stm32f1_fns emu_dp_ops)"
  define t1 where "t1 = (cortexm_new emu_ap env)\<lparr>commands := [(''Target'', target_cmd_list)],
     designer_code := fst (probe_designer ids), part_id := snd (probe_designer ids), base_addr := EMU_SCS_BASE, driver := ''ARM Cortex-M''\<rparr>"
  have t1: "cm_ap t1 = emu_ap" "base_addr t1 = EMU_SCS_BASE" "shim_ok (cm_dp t1)" "dcache_line_length t1 = 0"
    "plat_mallocs t1 = []" "tgt (cm_dp t1) = tgt (cm_dp env)" "designer_code t1 = 0x020" "\<not> plat_nrst t1"
    "t_ram t1 = []" "t_flash t1 = []" "target_options t1 = 0"
    using assms by (simp_all add: t1_def cortexm_new_def)
  obtain d2 where d2: "cortex_read_cpuid emu_dp_ops t1 = Some (t1\<lparr>cm_dp := d2, cpuid := EMU_CPUID, core := Some ''M3''\<rparr>)" "shim_ok d2"
    "tgt d2 = tgt (cm_dp t1)" using emu_read_cpuid [OF t1(1-3)] by auto
  define t2 where "t2 = t1\<lparr>cm_dp := d2, cpuid := EMU_CPUID, core := Some ''M3''\<rparr>"
  obtain d3 where d3: "probe_fpu ?ops t2 = Some (False, t2\<lparr>cm_dp := d3\<rparr>)" "shim_ok d3" "tgt d3 = tgt (cm_dp t2)"
    using emu_probe_fpu [OF emu_mem_ops_core(2), of t2] t1 d2 by (auto simp: t2_def)
  define t3 where "t3 = t2\<lparr>cm_dp := d3, regs_size := 80, commands := commands t2 @ [(''ARM Cortex-M'', cortexm_cmd_list)],
    priv_demcr := 0x01000401\<rparr>"
  obtain d4 where d4: "probe_cache_type ?ops t3 = Some (t3\<lparr>cm_dp := d4\<rparr>)" "shim_ok d4" "tgt d4 = tgt (cm_dp t3)"
    using emu_probe_cache [OF emu_mem_ops_core(2), of t3] t1 d2 d3 by (auto simp: t3_def t2_def)
  define t4 where "t4 = t3\<lparr>cm_dp := d4\<rparr>"
  note ts = t4_def t3_def t2_def
  obtain d5 where d5: "stm32f1_probe ?ops t4 = Some (True, ?ops\<lparr>mass_erase_fn := Some (stm32f1_mass_erase ?ops)\<rparr>,
      t4\<lparr>cm_dp := d5, driver := ''STM32F1 medium density'', part_id := 0x410,
        t_ram := \<lparr>ram_start = 0x20000000, ram_length = 0x5000\<rparr> # t_ram t4, t_flash := emu_region # t_flash t4,
        commands := commands t4 @ [(''STM32 LD/MD/VL-LD/VL-MD'', [''option''])]\<rparr>)" "shim_ok d5" "tgt d5 = tgt (cm_dp t4)"
    using emu_stm32f1_probe [OF emu_mem_ops_core(2), of t4] t1 d2 d3 d4 by (auto simp: ts)
  let ?t = "t4\<lparr>cm_dp := d5, driver := ''STM32F1 medium density'', part_id := 0x410,
        t_ram := \<lparr>ram_start = 0x20000000, ram_length = 0x5000\<rparr> # t_ram t4, t_flash := emu_region # t_flash t4,
        commands := commands t4 @ [(''STM32 LD/MD/VL-LD/VL-MD'', [''option''])]\<rparr>"
  have ord: "\<exists>ps. probe_order (designer_code t4) (part_id t4) (cpuid t4) = P_stm32f1 # ps"
    using t1 by (simp add: ts probe_order_def)
  then have run: "run_probes (driver_table other) (probe_order (designer_code t4) (part_id t4) (cpuid t4)) ?ops t4 = Some (emu_ops sh, ?t)"
    using d5(1) by (auto simp: driver_table_def stm32f1_target_ops_def Let_def)
  have "cortexm_probe emu_dp_ops sh (stm32f1_fns emu_dp_ops) (driver_table other) ids emu_ap env = Some (Some (emu_ops sh, ?t), ?t)"
  proof -
    have m: "plat_malloc env = (True, env)" using assms(3) by (simp add: plat_malloc_def)
    have n: "commands (cortexm_new emu_ap env) = []" "plat_mallocs (cortexm_new emu_ap env) = []" "target_options (cortexm_new emu_ap env) = 0"
      "plat_nrst (cortexm_new emu_ap env) = False"
      using assms by (simp_all add: cortexm_new_def)
    note c = d2(1) [folded t2_def, unfolded t1_def] d3(1) d4(1) [folded t4_def] run
    have "driver t2 = ''ARM Cortex-M''" "plat_mallocs t2 = []" "\<not> plat_nrst t2" using n by (simp_all add: t2_def t1_def)
    then show ?thesis
      using assms(3) by (simp add: cortexm_probe_def target_add_commands_def plat_malloc_def n c t3_def [symmetric] d4(1) [folded t4_def] Let_def)
  qed
  then show ?thesis using t1 d2 d3 d4 d5 assms(5,6)
    by (auto simp: ts emu_ready_def emu_conf_def t1_def cortexm_new_def)
qed

subsection \<open>Mass erase\<close>

lemma at_busy_wait_timed:
  assumes ops: "emu_mem_ops ops" and "emu_at t0 t m" "g_flash_sr m = 0x20"
  shows "\<exists>t' y. stm32f1_flash_busy_wait ops 0 True t = Some (True, t') \<and> emu_at (t0\<lparr>plat_expired := y\<rparr>) t' m"
proof -
  obtain t1 where t1: "target_mem_read32 ops FPEC_SR t = Some (0x20, t1)" "emu_at t0 t1 m"
    using at_read32 [OF ops assms(2) fpec_store(2) fpec_load(1)] assms(3) by auto
  obtain t2 where t2: "target_check_error ops t1 = Some (False, t2)" "emu_at t0 t2 m" using at_check [OF ops t1(2)] by auto
  define t3 where "t3 = snd (platform_timeout_is_expired t2)"
  obtain y where y: "emu_at (t0\<lparr>plat_expired := y\<rparr>) t3 m"
    using that [of "plat_expired t0"] that [of "tl (plat_expired t2)"] emu_at_plat(2) [OF t2(2), of "tl (plat_expired t2)"] t2(2)
    by (cases "plat_expired t2") (simp_all add: t3_def platform_timeout_is_expired_def)
  have "busy_loop ops 0 True 1 t = Some (Inr 0x20, t3)"
    using t1(1) t2(1) t3_def by (subst busy_loop.simps, subst busy_loop.simps) simp
  with y show ?thesis by (auto simp: stm32f1_flash_busy_wait_def)
qed

lemma at_mass_erase_bank:
  assumes ops: "emu_mem_ops ops" and at: "emu_at t0 t m" "fpec_ok m"
  shows "\<exists>t' m' y. stm32f1_mass_erase_bank ops 0 t = Some (True, t') \<and> emu_at (t0\<lparr>plat_expired := y\<rparr>) t' m' \<and> fpec_ok m' \<and>
    g_flash_unlocked m' \<and> g_mallocs m' = g_mallocs m \<and> g_sram m' = g_sram m \<and> (\<forall>k < 131072. flash_at m' k = 0xFF)"
proof -
  obtain t1 where t1: "stm32f1_flash_unlock ops 0 t = Some (True, t1)" "emu_at t0 t1 (fpec_unlocked m)" using at_unlock [OF ops at(1)] by auto
  have fu: "fpec_ok (fpec_unlocked m)" using at(2) by (simp add: fpec_ok_def fpec_unlocked_def)
  let ?m2 = "(fpec_unlocked m)\<lparr>g_flash_sr := 0\<rparr>"
  obtain t2 where t2: "stm32f1_flash_clear_eop ops 0 t1 = Some t2" "emu_at t0 t2 ?m2" using at_clear_eop [OF ops t1(2) fu] by auto
  obtain t3 where t3: "target_mem_write32 ops FPEC_CR 4 t2 = Some t3" "emu_at t0 t3 (?m2\<lparr>g_flash_cr := 4\<rparr>)"
    using fpec_write32 [OF ops t2(2), of FPEC_CR 4] by (auto simp: fpec_write_def Let_def)
  let ?m5 = "(flash_erase_all (?m2\<lparr>g_flash_cr := 0x44\<rparr>))\<lparr>g_flash_sr := 0x20\<rparr>"
  have m5: "fpec_write FPEC_CR 0x44 (?m2\<lparr>g_flash_cr := 4\<rparr>) = ?m5"
    by (simp add: fpec_write_def Let_def fpec_unlocked_def flash_erase_all_eq)
  obtain t5 where t5: "target_mem_write32 ops FPEC_CR 0x44 t3 = Some t5" "emu_at t0 t5 ?m5"
    using fpec_write32 [OF ops t3(2), of FPEC_CR "0x44"] m5 by auto
  obtain t6 y where t6: "stm32f1_flash_busy_wait ops 0 True t5 = Some (True, t6)" "emu_at (t0\<lparr>plat_expired := y\<rparr>) t6 ?m5"
    using at_busy_wait_timed [OF ops t5(2)] by auto
  have "stm32f1_mass_erase_bank ops 0 t = Some (True, t6)"
    using t1(1) t2(1) t3(1) t5(1) t6(1) by (simp add: stm32f1_mass_erase_bank_def)
  moreover have "fpec_ok ?m5" "g_flash_unlocked ?m5" "g_mallocs ?m5 = g_mallocs m" "g_sram ?m5 = g_sram m" "\<forall>k < 131072. flash_at ?m5 k = 0xFF"
    by (auto simp: fpec_ok_def fpec_unlocked_def flash_erase_all_eq flash_at_def)
  ultimately show ?thesis using t6(2) by blast
qed

text \<open>C31: the mass erase command leaves every byte of flash erased and SRAM as it was.\<close>

theorem emu_mass_erase:
  assumes "emu_ready t" "\<not> stm32f1_is_dual_bank (part_id t)"
  shows "\<exists>t'. target_cmd_mass_erase (emu_ops sh) t = Some (True, t') \<and> emu_ready t' \<and> (\<forall>x. emu_content t' x = 0xFF) \<and>
    g_sram (tgt (cm_dp t')) = g_sram (tgt (cm_dp t))"
proof -
  let ?c = "cortexm_ops emu_dp_ops sh (stm32f1_fns emu_dp_ops)"
  have r: "fpec_ok (tgt (cm_dp t))" "no_oom (tgt (cm_dp t))" "emu_conf t" using assms(1) by (simp_all add: emu_ready_def)
  let ?m = "fpec_unlocked (tgt (cm_dp t))"
  obtain t1 where t1: "stm32f1_flash_unlock ?c 0 t = Some (True, t1)" "emu_at t t1 ?m"
    using at_unlock [OF emu_mem_ops_core(2) emu_ready_at [OF assms(1)]] by auto
  have f1: "fpec_ok ?m" using r(1) by (simp add: fpec_ok_def fpec_unlocked_def)
  obtain t2 m2 y where t2: "stm32f1_mass_erase_bank ?c 0 t1 = Some (True, t2)" "emu_at (t\<lparr>plat_expired := y\<rparr>) t2 m2" "fpec_ok m2"
    "g_flash_unlocked m2" "g_mallocs m2 = g_mallocs ?m" "g_sram m2 = g_sram ?m" "\<forall>k < 131072. flash_at m2 k = 0xFF"
    using at_mass_erase_bank [OF emu_mem_ops_core(2) [of sh "stm32f1_fns emu_dp_ops"] t1(2) f1] by (elim exE conjE) (rule that)
  have c: "emu_conf (t\<lparr>plat_expired := y\<rparr>)" "no_oom m2" using r t2(5) by (simp_all add: emu_conf_def no_oom_def fpec_unlocked_def)
  note k = emu_at_ready [OF t2(2) c(1) t2(3) c(2)]
  have "part_id t2 = part_id t" using t2(2) by (auto simp: emu_at_def)
  then have "target_cmd_mass_erase (emu_ops sh) t = Some (True, t2)" using t1(1) t2(1) assms(2)
    by (simp add: target_cmd_mass_erase_def stm32f1_target_ops_def Let_def stm32f1_mass_erase_def)
  moreover have "emu_content t2 x = 0xFF" for x using t2(7) by (auto simp: emu_content_def k(6))
  moreover have "g_sram (tgt (cm_dp t2)) = g_sram (tgt (cm_dp t))" using t2(6) k(6) by (simp add: fpec_unlocked_def)
  ultimately show ?thesis using k(1) by blast
qed

subsection \<open>Core registers\<close>

definition core_reg_after :: "u32 \<Rightarrow> u32 \<Rightarrow> emu_target \<Rightarrow> emu_target" where
  "core_reg_after r v m = m\<lparr>g_dcrdr := v, g_dcrsr := 0x10000 OR r, g_core_reg := (g_core_reg m)(unat r := v)\<rparr>"

lemma dcrsr_small:
  assumes "r < 21"
  shows "(0x10000 OR r) AND 0x7f = (r :: u32)" "(0x10000 OR r) AND 0x10000 \<noteq> (0 :: u32)" "r AND 0x7f = r" "r AND 0x10000 = 0"
proof -
  have "unat r < 21" using assms by (simp add: word_less_nat_alt)
  then have "unat r \<in> set [0..<21]" by simp
  moreover have "r = of_nat (unat r)" by simp
  ultimately have "r \<in> set (map of_nat [0..<21])" by (metis image_eqI list.set_map)
  then have "(0x10000 OR r) AND 0x7f = r \<and> (0x10000 OR r) AND 0x10000 \<noteq> 0 \<and> r AND 0x7f = r \<and> r AND 0x10000 = 0"
    by (auto simp: upt_rec)
  then show "(0x10000 OR r) AND 0x7f = (r :: u32)" "(0x10000 OR r) AND 0x10000 \<noteq> (0 :: u32)" "r AND 0x7f = r" "r AND 0x10000 = 0"
    by blast+
qed

lemma regnum_cortex_m_small: "(reg :: u32) < 20 \<Longrightarrow> regnum_cortex_m ! unat reg < 21"
proof -
  assume "reg < 20"
  then have "unat reg < length regnum_cortex_m" by (simp add: regnum_cortex_m_def word_less_nat_alt)
  moreover have "list_all (\<lambda>r. r < 21) regnum_cortex_m" by (simp add: regnum_cortex_m_def)
  ultimately show ?thesis by (simp add: list_all_length)
qed

lemma regnum_cortex_m_inj: "(reg :: u32) < 20 \<Longrightarrow> (reg' :: u32) < 20 \<Longrightarrow> regnum_cortex_m ! unat reg = regnum_cortex_m ! unat reg' \<longleftrightarrow> reg = reg'"
proof -
  assume "reg < 20" "reg' < 20"
  then have "unat reg < length regnum_cortex_m" "unat reg' < length regnum_cortex_m" by (simp_all add: regnum_cortex_m_def word_less_nat_alt)
  moreover have "distinct regnum_cortex_m" by (simp add: regnum_cortex_m_def)
  ultimately show ?thesis by (metis nth_eq_iff_index_eq word_unat_eq_iff)
qed

lemma at_reg_write:
  assumes ops: "emu_mem_ops ops" and at: "emu_at t0 t m" and reg: "reg < 20"
  shows "\<exists>t'. cortexm_reg_write ops reg v 4 t = Some (4, t') \<and> emu_at t0 t' (core_reg_after (regnum_cortex_m ! unat reg) v m)"
proof -
  let ?r = "regnum_cortex_m ! unat reg"
  note r = dcrsr_small [OF regnum_cortex_m_small [OF reg]]
  have lt: "?r < 0x18" using regnum_cortex_m_small [OF reg] by (simp add: word_less_nat_alt)
  obtain t1 where t1: "target_mem_write32 ops CORTEXM_DCRDR v t = Some t1" "emu_at t0 t1 (m\<lparr>g_dcrdr := v\<rparr>)"
    using scs_write32 [OF ops at, of "0xdf8" v] by (auto simp: scs_write_def)
  have "scs_write 0xdf4 (0x10000 OR ?r) (m\<lparr>g_dcrdr := v\<rparr>) = core_reg_after ?r v m"
    using r lt by (simp add: scs_write_def core_reg_after_def Let_def)
  then obtain t2 where t2: "target_mem_write32 ops CORTEXM_DCRSR (0x10000 OR ?r) t1 = Some t2" "emu_at t0 t2 (core_reg_after ?r v m)"
    using scs_write32 [OF ops t1(2), of "0xdf4" "0x10000 OR ?r"] by auto
  then show ?thesis using t1(1) reg by (simp add: cortexm_reg_write_def dcrsr_regnum_def)
qed

lemma at_reg_read:
  assumes ops: "emu_mem_ops ops" and at: "emu_at t0 t m" and reg: "reg < 20"
  shows "\<exists>t' m'. cortexm_reg_read ops reg 4 t = Some (4, g_core_reg m (unat (regnum_cortex_m ! unat reg)), t') \<and> emu_at t0 t' m' \<and>
    g_core_reg m' = g_core_reg m"
proof -
  let ?r = "regnum_cortex_m ! unat reg"
  note r = dcrsr_small [OF regnum_cortex_m_small [OF reg]]
  have lt: "?r < 0x18" using regnum_cortex_m_small [OF reg] by (simp add: word_less_nat_alt)
  let ?m = "m\<lparr>g_dcrsr := ?r, g_dcrdr := g_core_reg m (unat ?r)\<rparr>"
  have "scs_write 0xdf4 ?r m = ?m" using r lt by (simp add: scs_write_def Let_def)
  then obtain t1 where t1: "target_mem_write32 ops CORTEXM_DCRSR ?r t = Some t1" "emu_at t0 t1 ?m"
    using scs_write32 [OF ops at, of "0xdf4" ?r] by auto
  obtain t2 where "target_mem_read32 ops CORTEXM_DCRDR t1 = Some (g_core_reg m (unat ?r), t2)" "emu_at t0 t2 ?m"
    using scs_read32 [OF ops t1(2), of "0xdf8"] by (auto simp: scs_read_def)
  then show ?thesis using t1(1) reg by (auto simp: cortexm_reg_read_def dcrsr_regnum_def)
qed

text \<open>A core register written through DCRSR and DCRDR reads back, and no other register
  changes.\<close>

theorem emu_reg_write_read:
  assumes "emu_ready t" "reg < 20" "reg' < 20"
  shows "\<exists>t1 t2 w t3. target_reg_write (emu_ops sh) reg v 4 t = Some (4, t1) \<and>
    target_reg_read (emu_ops sh) reg' 4 t1 = Some (4, if reg' = reg then v else w, t2) \<and>
    target_reg_read (emu_ops sh) reg' 4 t = Some (4, w, t3)"
proof -
  let ?m = "tgt (cm_dp t)" and ?ops = "cortexm_mem_ops emu_dp_ops"
  have f: "reg_read_fn (emu_ops sh) = Some (cortexm_reg_read ?ops)" "reg_write_fn (emu_ops sh) = Some (cortexm_reg_write ?ops)"
    by (simp_all add: stm32f1_target_ops_def cortexm_ops_def cortexm_core_ops_def Let_def)
  obtain t1 where t1: "cortexm_reg_write ?ops reg v 4 t = Some (4, t1)" "emu_at t t1 (core_reg_after (regnum_cortex_m ! unat reg) v ?m)"
    using at_reg_write [OF emu_mem_ops_cortexm emu_ready_at [OF assms(1)] assms(2)] by blast
  let ?w = "g_core_reg ?m (unat (regnum_cortex_m ! unat reg'))"
  obtain t2 where "cortexm_reg_read ?ops reg' 4 t1 = Some (4, if reg' = reg then v else ?w, t2)"
    using at_reg_read [OF emu_mem_ops_cortexm t1(2) assms(3)] regnum_cortex_m_inj [OF assms(3,2)]
    by (auto simp: core_reg_after_def word_unat_eq_iff)
  moreover obtain t3 where "cortexm_reg_read ?ops reg' 4 t = Some (4, ?w, t3)"
    using at_reg_read [OF emu_mem_ops_cortexm emu_ready_at [OF assms(1)] assms(3)] by blast
  ultimately show ?thesis using t1(1) f by (auto simp: target_reg_write_def target_reg_read_def)
qed

subsection \<open>Breakpoints\<close>

lemma emu_store_total:
  assumes "mem_access a sz"
  shows "\<exists>m'. emu_target_store a v sz m = Some m'"
proof (cases "in_sram a")
  case True
  then have "\<exists>m'. emu_target_store a v sz m = Some m'" using emu_store_sram [OF assms True] by blast
  then show ?thesis .
next
  case False
  have "\<exists>m'. store_loop (\<lambda>i b s. Some (flash_write_byte (a + i) b s)) v n i m = Some m'" for n i m
    by (induction n arbitrary: i m) auto
  then show ?thesis using False by (auto simp: emu_target_store_eq bind_eq_Some_conv)
qed

definition emu_bus_ok :: "emu_shim cortexm \<Rightarrow> bool" where
  "emu_bus_ok t \<longleftrightarrow> cm_ap t = emu_ap \<and> dcache_line_length t = 0 \<and> shim_ok (cm_dp t)"

interpretation emu_core: core_bus "cortexm_mem_ops emu_dp_ops" emu_bus_ok
proof unfold_locales
  fix t :: "emu_shim cortexm" and a v :: u32
  assume t: "emu_bus_ok t" and a: "unat a mod 4 = 0"
  then have "mem_access a 4" by (simp add: mem_access_def)
  moreover obtain m where "emu_target_store a v 4 (tgt (cm_dp t)) = Some m" using emu_store_total calculation by blast
  ultimately show "\<exists>d. target_mem_write32 (cortexm_mem_ops emu_dp_ops) a v t = Some (t\<lparr>cm_dp := d\<rparr>) \<and> emu_bus_ok (t\<lparr>cm_dp := d\<rparr>)"
    using dp_write32 [OF emu_mem_ops_cortexm] t by (force simp: emu_bus_ok_def)
qed (simp_all add: emu_bus_ok_def)

lemma emu_ops_bw: "breakwatch_set_fn (emu_ops sh) = Some (cortexm_breakwatch_set (cortexm_mem_ops emu_dp_ops))"
  "breakwatch_clear_fn (emu_ops sh) = Some (cortexm_breakwatch_clear (cortexm_mem_ops emu_dp_ops))"
  by (simp_all add: stm32f1_target_ops_def cortexm_ops_def cortexm_core_ops_def Let_def)

text \<open>C8: any sequence of setting and clearing breakpoints and watchpoints runs to its end, and
  afterwards every listed breakpoint owns a distinct unit that is marked used, and every unit marked used
  has its owner in the list but for the lost ones \<open>hl\<close> and \<open>wl\<close>. A unit is lost where the list entry of a
  breakpoint that was set could not be allocated: the lost units are exactly as many as the allocations
  of the sequence that failed, so that none is lost while memory lasts.\<close>

theorem emu_breakpoints_consistent:
  assumes "emu_bus_ok t" "bw_inv t"
  shows "\<exists>rs t' hl wl. bw_exec (emu_ops sh) cs t = Some (rs, t') \<and> bw_lost hl wl t' \<and>
    length hl + length wl + failing_mallocs t' = failing_mallocs t"
  using emu_core.exec_inv [OF emu_ops_bw [of sh] assms(1), where hl = "[]" and wl = "[]" and cs = cs] assms(2) by (auto simp: bw_lost_none)

text \<open>Clearing a breakpoint that was just set succeeds and restores the list and both masks.\<close>

theorem emu_breakpoint_set_clear:
  assumes "emu_bus_ok t" "bw_lost hl wl t" "target_breakwatch_set (emu_ops sh) type addr len t = Some (0, t1)"
  shows "\<exists>t2. target_breakwatch_clear (emu_ops sh) type addr len t1 = Some (0, t2) \<and> bw_list t2 = bw_list t \<and>
    breakpoints_mask t2 = breakpoints_mask t \<and> watchpoints_mask t2 = watchpoints_mask t"
  by (rule emu_core.set_clear [OF emu_ops_bw assms])

subsection \<open>Checksum of flash\<close>

definition flash_bytes :: "emu_shim cortexm \<Rightarrow> nat \<Rightarrow> nat \<Rightarrow> byte list" where
  "flash_bytes t a n = map (\<lambda>j. emu_content t (a + j)) [0..<n]"

lemma flash_bytes_add: "flash_bytes t a (m + n) = flash_bytes t a m @ flash_bytes t (a + m) n"
  by (rule nth_equalityI) (auto simp: flash_bytes_def nth_append add.assoc)

lemma read_rounded: "(n :: u32) \<le> 128 \<Longrightarrow> unat ((n + 3) AND NOT 3) \<le> 128 \<and> unat n \<le> unat ((n + 3) AND NOT 3) \<and> unat ((n + 3) AND NOT 3) < unat n + 4"
proof -
  assume "n \<le> 128"
  then have n: "unat n \<le> 128" by (simp add: word_le_nat_alt)
  then have u: "unat (n + 3) = unat n + 3" by (simp add: unat_word_ariths)
  have "unat ((n + 3) AND NOT 3) = unat (n + 3) - unat (n + 3) mod 4"
    using unat_align_down [of "n + 3" 2] by simp
  moreover have "m + 3 - (m + 3) mod 4 \<le> 128 \<and> m \<le> m + 3 - (m + 3) mod 4 \<and> m + 3 - (m + 3) mod 4 < m + 4"
    if "m \<le> 128" for m :: nat using that by presburger
  ultimately show ?thesis unfolding u using n by presburger
qed

lemma emu_crc_loop:
  assumes "emu_ready t" "134217728 \<le> unat base" "unat base + unat len + 3 \<le> 134348800" "offset \<le> len" "length buffer = 128"
  shows "\<exists>t'. crc_loop (emu_ops sh) base len offset crc buffer t =
    Some (Some (foldl crc_byte crc (flash_bytes t (unat base + unat offset) (unat len - unat offset))), t') \<and> emu_ready t'"
  using assms
proof (induction "unat len - unat offset" arbitrary: offset crc buffer t rule: less_induct)
  case less
  show ?case
  proof (cases "offset < len")
    case False
    then have "offset = len" using less.prems(4) by simp
    then show ?thesis using less.prems(1) by (subst crc_loop.simps) (auto simp: flash_bytes_def)
  next
    case True
    define n where "n = min 128 (len - offset)"
    define r where "r = unat ((n + 3) AND NOT 3)"
    have lo: "unat offset < unat len" using True by (simp add: word_less_nat_alt)
    have d: "unat (len - offset) = unat len - unat offset" using less.prems(4) by (simp add: unat_sub word_le_nat_alt)
    have n: "n \<le> 128" "unat n = min 128 (unat len - unat offset)" using d by (auto simp: n_def min_def word_le_nat_alt)
    have r: "r \<le> 128" "unat n \<le> r" "r < unat n + 4" using read_rounded [OF n(1)] by (auto simp: r_def)
    have nl: "unat n \<le> unat len - unat offset" "unat n \<le> 128" "0 < unat n" using n(2) lo by auto
    have bo: "unat (base + offset) = unat base + unat offset" using less.prems(3) lo by (simp add: unat_word_ariths)
    have fr: "flash_range (base + offset) r" using less.prems(2,3) lo r nl by (auto simp: flash_range_def in_flash_iff bo)
    obtain t1 where t1: "target_mem_read (emu_ops sh) buffer (base + offset) r t =
        Some (False, flash_bytes t (unat base + unat offset) r @ drop r buffer, t1)" "emu_at t t1 (tgt (cm_dp t))"
      using emu_mem_read [OF emu_mem_ops_core(3) less.prems(1) fr, of sh buffer] by (auto simp: flash_bytes_def bo)
    have rd: "emu_ready t1" "emu_content t1 = emu_content t"
      using emu_at_ready [OF t1(2)] less.prems(1) by (auto simp: emu_ready_def emu_content_def fun_eq_iff)
    have tk: "take (unat n) (flash_bytes t (unat base + unat offset) r @ drop r buffer) = flash_bytes t (unat base + unat offset) (unat n)"
      using r(2) by (simp add: flash_bytes_def take_map min_def)
    have crc: "crc32_calc = crc_byte" by (intro ext) (rule crc32_calc_eq)
    let ?b = "flash_bytes t (unat base + unat offset) r @ drop r buffer"
    let ?crc = "foldl crc_byte crc (flash_bytes t (unat base + unat offset) (unat n))"
    have step: "crc_loop (emu_ops sh) base len offset crc buffer t = crc_loop (emu_ops sh) base len (offset + 128) ?crc ?b t1"
      by (subst crc_loop.simps)
        (simp only: True if_True Let_def n_def [symmetric] r_def [symmetric] t1(1) bind.bind_lunit prod.case if_False tk crc)
    have o: "unat (offset + 128) = unat offset + 128" using less.prems(3) lo by (simp add: unat_word_ariths)
    show ?thesis
    proof (cases "unat offset + 128 \<le> unat len")
      case True
      have n128: "unat n = 128" using n(2) True by simp
      have IH: "\<exists>t'. crc_loop (emu_ops sh) base len (offset + 128) ?crc ?b t1 =
        Some (Some (foldl crc_byte ?crc (flash_bytes t1 (unat base + unat (offset + 128)) (unat len - unat (offset + 128)))), t') \<and> emu_ready t'"
        by (rule less.hyps) (use less.prems rd True o lo r(1) in \<open>auto simp: word_le_nat_alt flash_bytes_def\<close>)
      have "flash_bytes t (unat base + unat offset) (unat len - unat offset) =
        flash_bytes t (unat base + unat offset) 128 @ flash_bytes t1 (unat base + unat (offset + 128)) (unat len - unat (offset + 128))"
        using flash_bytes_add [of t "unat base + unat offset" 128 "unat len - unat (offset + 128)"] True o rd(2)
        by (simp add: flash_bytes_def add.assoc)
      with IH show ?thesis unfolding step n128 by simp
    next
      case False
      then have "unat n = unat len - unat offset" using n(2) by simp
      moreover have "\<not> offset + 128 < len" using False o by (simp add: word_less_nat_alt)
      then have "crc_loop (emu_ops sh) base len (offset + 128) ?crc ?b t1 = Some (Some ?crc, t1)" by (subst crc_loop.simps) simp
      ultimately show ?thesis unfolding step using rd(1) by simp
    qed
  qed
qed

text \<open>The checksum of a flash range, computed through the debug interface block by block, is the
  bit-wise CRC-32 of its contents.\<close>

theorem emu_crc32:
  assumes "emu_ready t" "134217728 \<le> unat base" "unat base + unat len + 3 \<le> 134348800"
  shows "\<exists>t'. generic_crc32 (emu_ops sh) base len t = Some (Some (foldl crc_byte 0xffffffff (flash_bytes t (unat base) (unat len))), t')"
  using emu_crc_loop [OF assms, of 0 "replicate 128 0" sh "0xffffffff"] by (auto simp: generic_crc32_def)

subsection \<open>Instances\<close>

text \<open>The environment after emu_scan has reset the transport at boot, and the board as the probe
  leaves it.\<close>

definition emu_env :: "emu_shim cortexm" where
  "emu_env =
     \<lparr>t_tc = None, t_ram = [], t_flash = [], flash_mode = False, target_options = 0, driver = [], cpuid = 0,
      core = None, cmdline = replicate 81 0, heapinfo = [0, 0, 0, 0], commands = [], stdout_redirected = False,
      bw_list = [], regs_size = 0, designer_code = 0, part_id = 0, attached = False,
      plat_clk_output = False, plat_nrst = False, plat_mallocs = [], plat_expired = [],
      cm_ap = emu_ap, cm_dp = emu_scan_reset shim_statics, base_addr = 0, icache_line_length = 0, dcache_line_length = 0,
      breakpoints_mask = 0, watchpoints_mask = 0, watchpoints_available = 0, breakpoints_available = 0,
      stepping = False, on_bkpt = False, flash_patch_revision = 0, priv_demcr = 0\<rparr>"

definition emu_board :: "emu_shim cortexm" where
  "emu_board = (cortexm_new emu_ap emu_env)\<lparr>t_flash := [emu_region], designer_code := 0x020, part_id := 0x410, breakpoints_available := 6,
     watchpoints_available := 4\<rparr>"

lemma emu_boot_ok: "shim_ok (emu_scan_reset s)" "fpec_ok (tgt (emu_scan_reset s))" "no_oom (tgt (emu_scan_reset shim_statics))"
  by (simp add: emu_scan_reset_def shim_ok_def, simp add: emu_scan_reset_def fpec_ok_reset)
    (simp add: emu_scan_reset_def shim_statics_def emu_target_reset_def Let_def no_oom_def emu_malloc_def flash_erase_all_eq emu_statics_def)

lemma emu_board_ready: "emu_ready emu_board" "emu_bus_ok emu_board" "t_flash emu_board = [emu_region]" "plat_mallocs emu_board = []"
  "part_id emu_board = 0x410" "breakpoints_mask emu_board = 0" "watchpoints_mask emu_board = 0" "bw_list emu_board = []"
  "breakpoints_available emu_board = 6" "watchpoints_available emu_board = 4"
  by (simp_all add: emu_board_def cortexm_new_def emu_env_def emu_ready_def emu_bus_ok_def emu_conf_def emu_boot_ok)

lemma emu_board_bw: "bw_inv emu_board"
  by (simp add: bw_inv_def unit_inv_def slots_of_def emu_board_ready)

theorem emu_session_readback_witness:
  "\<forall>sh. \<exists>t'. flash_program (emu_ops sh) 0x8000000 0x800 [(0x8000010, [1, 2, 3]), (0x8000400, [4])] emu_board = Some (True, t') \<and>
     (\<exists>t''. target_mem_read (emu_ops sh) [0, 0, 0] 0x8000010 3 t' = Some (False, [1, 2, 3], t'')) \<and>
     emu_content t' 134219776 = emu_content emu_board 134219776"
proof
  fix sh
  let ?segs = "[(0x8000010, [1, 2, 3]), (0x8000400, [4])] :: (u32 \<times> byte list) list"
  have "segs_disjoint ?segs" by (auto simp: seg_range_def)
  from emu_session_readback [OF emu_board_ready(1,3) _ _ _ _ this, of "0x8000000" "0x800" sh]
  show "\<exists>t'. flash_program (emu_ops sh) 0x8000000 0x800 ?segs emu_board = Some (True, t') \<and>
     (\<exists>t''. target_mem_read (emu_ops sh) [0, 0, 0] 0x8000010 3 t' = Some (False, [1, 2, 3], t'')) \<and>
     emu_content t' 134219776 = emu_content emu_board 134219776"
    by (auto simp: emu_board_ready align_up_def numeral_3_eq_3)
qed

theorem emu_mass_erase_witness:
  "\<forall>sh. \<exists>t'. target_cmd_mass_erase (emu_ops sh) emu_board = Some (True, t') \<and> emu_content t' 134217728 = 0xFF"
  using emu_mass_erase [OF emu_board_ready(1)]
  by (auto simp: emu_board_ready stm32f1_is_dual_bank_def at32f40_is_dual_bank_def)

theorem emu_reg_write_read_witness:
  "\<forall>sh. \<exists>t1 t2. target_reg_write (emu_ops sh) 15 0x8000200 4 emu_board = Some (4, t1) \<and>
     target_reg_read (emu_ops sh) 15 4 t1 = Some (4, 0x8000200, t2)"
  using emu_reg_write_read [OF emu_board_ready(1), of 15 15 _ "0x8000200"] by fastforce

theorem emu_breakpoints_consistent_witness:
  "\<forall>sh. \<exists>rs t' hl wl. bw_exec (emu_ops sh) [BW_set TARGET_BREAK_HARD 0x8000100 2, BW_clear TARGET_BREAK_HARD 0x8000100 2]
       (emu_board\<lparr>plat_mallocs := [False]\<rparr>) = Some (rs, t') \<and> bw_lost hl wl t' \<and> length hl + length wl + failing_mallocs t' = 1"
proof
  fix sh
  have "emu_bus_ok (emu_board\<lparr>plat_mallocs := [False]\<rparr>)" "bw_inv (emu_board\<lparr>plat_mallocs := [False]\<rparr>)"
    using emu_board_ready(2) emu_board_bw by (simp_all add: emu_bus_ok_def bw_inv_def)
  from emu_breakpoints_consistent [OF this, of sh "[BW_set TARGET_BREAK_HARD 0x8000100 2, BW_clear TARGET_BREAK_HARD 0x8000100 2]"]
  show "\<exists>rs t' hl wl. bw_exec (emu_ops sh) [BW_set TARGET_BREAK_HARD 0x8000100 2, BW_clear TARGET_BREAK_HARD 0x8000100 2]
       (emu_board\<lparr>plat_mallocs := [False]\<rparr>) = Some (rs, t') \<and> bw_lost hl wl t' \<and> length hl + length wl + failing_mallocs t' = 1"
    by (simp only: failing_mallocs_def) simp
qed

theorem emu_breakpoint_set_clear_witness:
  "\<forall>sh. \<exists>t1 t2. target_breakwatch_set (emu_ops sh) TARGET_BREAK_HARD 0x8000100 2 emu_board = Some (0, t1) \<and>
     target_breakwatch_clear (emu_ops sh) TARGET_BREAK_HARD 0x8000100 2 t1 = Some (0, t2) \<and> bw_list t2 = [] \<and> breakpoints_mask t2 = 0"
proof
  fix sh
  have "free_slot 0 0 6 \<noteq> 6" unfolding free_slot_full by (auto intro: exI [of _ 0])
  then obtain t1 where t1: "target_breakwatch_set (emu_ops sh) TARGET_BREAK_HARD 0x8000100 2 emu_board = Some (0, t1)"
    using emu_core.set_hard [OF emu_board_ready(2), of "\<lparr>bw_type = TARGET_BREAK_HARD, bw_addr = 0x8000100, bw_size = 2, bw_reserved = [0, 0, 0, 0]\<rparr>"]
    by (auto simp: target_breakwatch_set_def emu_ops_bw plat_malloc_def emu_board_ready split: list.split)
  then show "\<exists>t1 t2. target_breakwatch_set (emu_ops sh) TARGET_BREAK_HARD 0x8000100 2 emu_board = Some (0, t1) \<and>
     target_breakwatch_clear (emu_ops sh) TARGET_BREAK_HARD 0x8000100 2 t1 = Some (0, t2) \<and> bw_list t2 = [] \<and> breakpoints_mask t2 = 0"
    using emu_breakpoint_set_clear [OF emu_board_ready(2) emu_board_bw [folded bw_lost_none] t1] by (auto simp: emu_board_ready)
qed

theorem emu_crc32_witness:
  "\<forall>sh. \<exists>t'. generic_crc32 (emu_ops sh) 0x8000000 0x400 emu_board =
     Some (Some (foldl crc_byte 0xffffffff (flash_bytes emu_board 134217728 1024)), t')"
  using emu_crc32 [OF emu_board_ready(1), of "0x8000000" "0x400"] by simp

end
