(* ===== verification/Emu_Load.thy ===== *)
theory Emu_Load
  imports Standalone_Load Emu_Session
begin

text \<open>
  The standalone loader on the emulated device: a binary or ELF file that fits the flash is loaded,
  verified, and afterwards is what the flash holds.
\<close>

subsection \<open>Verification\<close>

lemma emu_sink_read:
  assumes "emu_ready t" "flash_range a n"
  shows "\<exists>t'. the (sk_read (target_sink (emu_ops sh))) a n t = Some (Some (flash_bytes t (unat a) n), t') \<and> emu_ready t' \<and>
    emu_content t' = emu_content t"
proof -
  obtain t' where t': "target_mem_read (emu_ops sh) (replicate n 0) a n t = Some (False, flash_bytes t (unat a) n, t')" "emu_at t t' (tgt (cm_dp t))"
    using emu_mem_read [OF emu_mem_ops_core(3) assms, of sh "replicate n 0"] by (auto simp: flash_bytes_def)
  have "emu_ready t'" "emu_content t' = emu_content t"
    using emu_at_ready [OF t'(2)] assms(1) by (auto simp: emu_ready_def emu_content_def fun_eq_iff)
  with t'(1) show ?thesis by (simp add: target_sink_def)
qed

lemma emu_verify_loop:
  assumes "emu_ready t" "pos + unat left \<le> length f" "134217728 \<le> unat addr" "unat addr + unat left \<le> 134348800"
    and "flash_bytes t (unat addr) (unat left) = take (unat left) (drop pos f)"
  shows "\<exists>t'. verify_loop f pos addr left (the (sk_read (target_sink (emu_ops sh)))) t = Some (Inr (), t') \<and> emu_ready t' \<and>
    emu_content t' = emu_content t"
  using assms
proof (induction "unat left" arbitrary: pos addr left t rule: less_induct)
  case less
  show ?case
  proof (cases "left = 0")
    case True
    then show ?thesis using less.prems(1) by (simp add: verify_loop.simps)
  next
    case False
    define n where "n = min left 256"
    let ?rd = "the (sk_read (target_sink (emu_ops sh)))"
    have n: "unat n \<le> unat left" "n \<le> left" "0 < unat n" using False by (auto simp: n_def min_def word_le_nat_alt unat_gt_0)
    have ll: "unat (left - n) = unat left - unat n" using n(2) by (simp add: unat_sub word_le_nat_alt)
    have u: "unat (addr + n) = unat addr + unat n" using less.prems(4) n(1) by (simp add: unat_word_ariths)
    have fr: "flash_range addr (unat n)" using less.prems(3,4) n by (auto simp: flash_range_def in_flash_iff)
    obtain t1 where t1: "?rd addr (unat n) t = Some (Some (flash_bytes t (unat addr) (unat n)), t1)" "emu_ready t1"
      "emu_content t1 = emu_content t" using emu_sink_read [OF less.prems(1) fr] by blast
    have split: "flash_bytes t (unat addr) (unat left) = flash_bytes t (unat addr) (unat n) @ flash_bytes t (unat addr + unat n) (unat left - unat n)"
      using flash_bytes_add [of t "unat addr" "unat n" "unat left - unat n"] n(1) by simp
    have fl: "length (flash_bytes t (unat addr) (unat n)) = unat n" by (simp add: flash_bytes_def)
    have hd: "take (unat n) (drop pos f) = flash_bytes t (unat addr) (unat n)"
      using arg_cong [OF less.prems(5), of "take (unat n)"] n(1) fl unfolding split by (simp add: min_def)
    have tl: "flash_bytes t1 (unat (addr + n)) (unat (left - n)) = take (unat (left - n)) (drop (pos + unat n) f)"
      using arg_cong [OF less.prems(5), of "drop (unat n)"] n(1) fl t1(3) unfolding split u ll
      by (simp add: flash_bytes_def drop_take add.commute)
    obtain t' where "verify_loop f (pos + unat n) (addr + n) (left - n) ?rd t1 = Some (Inr (), t')" "emu_ready t'" "emu_content t' = emu_content t1"
      using less.hyps [of "left - n" t1 "pos + unat n" "addr + n"] t1(2) tl less.prems n ll u by auto
    moreover have "file_get f pos (unat n) = Some (flash_bytes t (unat addr) (unat n))"
      using less.prems(2) n(1) hd by (simp add: file_get_def)
    ultimately show ?thesis using False t1
      by (subst verify_loop.simps) (simp add: n_def [symmetric] Let_def)
  qed
qed

subsection \<open>Binary files\<close>

lemma flash_bytes_overlay:
  assumes "emu_content t = overlay a bs c" "length bs = n"
  shows "flash_bytes t a n = bs"
  by (rule nth_equalityI) (simp_all add: flash_bytes_def assms overlay_def)

lemma load_bin_ok:
  assumes "emu_ready t" "t_flash t = [emu_region]" "list_all id (plat_mallocs t)"
    and "f \<noteq> []" "134217728 \<le> unat base" "unat base + length f \<le> 134348800"
  shows "\<exists>t'. bmp_load_bin f base (target_sink (emu_ops sh)) t =
      Some (Inr \<lparr>lr_segments = 1, lr_bytes = of_nat (length f), lr_entry = base\<rparr>, t') \<and>
    flash_bytes t' (unat base) (length f) = f \<and>
    (\<forall>x. x < unat base - unat base mod 1024 \<or> align_up (unat base + length f) 1024 \<le> x \<longrightarrow> emu_content t' x = emu_content t x)"
proof -
  let ?sz = "of_nat (length f) :: u32" and ?c = "chunk_list f 0 base (length f)" and ?ops = "emu_ops sh"
  have sz: "unat ?sz = length f" "?sz \<noteq> 0" using assms(4-6) by (simp_all add: unat_of_nat word_unat_eq_iff)
  have lt: "0 + length f \<le> length f" "unat base + length f < 2 ^ 32" using assms(6) by simp_all
  have segs: "\<forall>sg\<in>set ?c. snd sg \<noteq> [] \<and> unat base \<le> unat (fst sg) \<and> unat (fst sg) + length (snd sg) \<le> unat base + unat ?sz"
    using chunk_list_in [OF lt] unfolding sz(1) by blast
  obtain t3 where t3: "flash_program ?ops base ?sz ?c t = Some (True, t3)" "emu_ready t3" "\<not> flash_mode t3"
    "emu_content t3 = overlay_all ?c (erased_range (unat base - unat base mod 2 ^ 10) (align_up (unat base + unat ?sz) (2 ^ 10)) (emu_content t))"
    using emu_flash.program_ok [OF assms(1,2) emu_region_geom(1,2) assms(3) _ _ sz(2) chunk_list_disjoint [OF lt] segs] assms(5,6)
    unfolding emu_region_geom(3,4) sz(1) by auto
  have c3: "emu_content t3 = overlay (unat base) f (erased_range (unat base - unat base mod 2 ^ 10) (align_up (unat base + length f) (2 ^ 10)) (emu_content t))"
    using t3(4) overlay_chunks [OF lt] by (simp add: sz(1))
  obtain t1 t2 where st: "target_flash_erase ?ops base ?sz t = Some (True, t1)" "flash_write_all ?ops ?c t1 = Some (True, t2)"
    "target_flash_complete ?ops t2 = Some (True, t3)" using flash_program_stages [OF t3(1)] by blast
  have w: "write_chunks ''short read (data)'' (target_sink ?ops) f 0 base ?sz 0 t1 = Some (Inr ?sz, t2)"
    using write_chunks_target [of 0 ?sz f "''short read (data)''" ?ops base 0 t1] st(2) by (simp add: sz(1))
  have fb: "flash_bytes t3 (unat base) (length f) = f" by (rule flash_bytes_overlay [OF c3]) simp
  obtain t4 where t4: "verify_loop f 0 base ?sz (the (sk_read (target_sink ?ops))) t3 = Some (Inr (), t4)" "emu_content t4 = emu_content t3"
    using emu_verify_loop [OF t3(2), of 0 ?sz f base sh] fb assms(5,6) by (auto simp: sz(1))
  have "bmp_load_bin f base (target_sink ?ops) t = Some (Inr \<lparr>lr_segments = 1, lr_bytes = ?sz, lr_entry = base\<rparr>, t4)"
    using st(1,3) w t4(1) assms(4,6) by (simp add: bmp_load_bin_def Let_def target_sink_def verify_range_def)
  moreover have "flash_bytes t4 (unat base) (length f) = f" using fb t4(2) by (simp add: flash_bytes_def)
  moreover have "emu_content t4 x = emu_content t x"
    if "x < unat base - unat base mod 1024 \<or> align_up (unat base + length f) 1024 \<le> x" for x
    using that align_up_le [of "2 ^ 10" "unat base + length f"] unfolding t4(2) c3 by (auto simp: overlay_def erased_range_def)
  ultimately show ?thesis by blast
qed

text \<open>Loading a binary file that fits the flash succeeds with the right counts; afterwards the flash
  holds the file at its base address, and every byte outside the erased pages is unchanged.\<close>

theorem emu_load_bin:
  assumes "emu_ready t" "t_flash t = [emu_region]" "list_all id (plat_mallocs t)"
    and "f \<noteq> []" "134217728 \<le> unat base" "unat base + length f \<le> 134348800"
  shows "\<exists>t'. bmp_load_bin f base (target_sink (emu_ops sh)) t =
      Some (Inr \<lparr>lr_segments = 1, lr_bytes = of_nat (length f), lr_entry = base\<rparr>, t') \<and>
    flash_bytes t' (unat base) (length f) = f \<and>
    (\<forall>x. x < unat base - unat base mod 1024 \<or> align_up (unat base + length f) 1024 \<le> x \<longrightarrow> emu_content t' x = emu_content t x)"
  by (rule load_bin_ok [OF assms])

subsection \<open>ELF files\<close>

definition flashable :: "elf32_phdr \<Rightarrow> bool" where
  "flashable ph \<longleftrightarrow> p_type ph = 1 \<and> p_filesz ph \<noteq> 0"

definition elf_phdrs :: "byte list \<Rightarrow> elf32_ehdr \<Rightarrow> elf32_phdr list option" where
  "elf_phdrs f eh = those (map (phdr_at f eh) [0..<unat (e_phnum eh)])"

definition elf_seg :: "byte list \<Rightarrow> elf32_phdr \<Rightarrow> u32 \<times> byte list" where
  "elf_seg f ph = (p_paddr ph, take (unat (p_filesz ph)) (drop (unat (p_offset ph)) f))"

definition seg_chunks :: "byte list \<Rightarrow> elf32_phdr \<Rightarrow> (u32 \<times> byte list) list" where
  "seg_chunks f ph = chunk_list f (unat (p_offset ph)) (p_paddr ph) (unat (p_filesz ph))"

definition seg_fits :: "byte list \<Rightarrow> elf32_phdr \<Rightarrow> bool" where
  "seg_fits f ph \<longleftrightarrow> p_offset ph < 0x80000000 \<and> unat (p_offset ph) + unat (p_filesz ph) \<le> length f \<and>
     134217728 \<le> unat (p_paddr ph) \<and> unat (p_paddr ph) + unat (p_filesz ph) \<le> 134348800"

lemma those_Some: "those xs = Some ys \<longleftrightarrow> xs = map Some ys"
  by (induction xs arbitrary: ys) (auto split: option.splits simp: Cons_eq_map_conv)

lemma seg_flashable_target [simp]: "seg_flashable (target_sink ops) s ph = flashable ph"
  by (simp add: seg_flashable_def target_sink_def flashable_def)

lemma target_span:
  assumes "map (phdr_at f eh) is = map Some phs"
  shows "\<exists>lo' hi'. span_loop (target_sink ops) f eh s is lo hi n = Inr (lo', hi', n + of_nat (length (filter flashable phs))) \<and>
    lo' \<le> lo \<and> hi \<le> hi' \<and> (\<forall>ph\<in>set (filter flashable phs). lo' \<le> p_paddr ph \<and> p_paddr ph + p_filesz ph \<le> hi') \<and>
    (lo' = lo \<or> lo' \<in> p_paddr ` set (filter flashable phs)) \<and>
    (hi' = hi \<or> hi' \<in> (\<lambda>ph. p_paddr ph + p_filesz ph) ` set (filter flashable phs))"
  using assms
proof (induction "is" arbitrary: phs lo hi n)
  case (Cons i "is")
  then obtain ph rest where ph: "phs = ph # rest" "phdr_at f eh i = Some ph" "map (phdr_at f eh) is = map Some rest"
    by (cases phs) auto
  show ?case
  proof (cases "flashable ph")
    case False
    then show ?thesis using Cons.IH [OF ph(3), of lo hi n] ph by simp
  next
    case True
    let ?lo = "if p_paddr ph < lo then p_paddr ph else lo" and ?e = "p_paddr ph + p_filesz ph"
    let ?hi = "if ?e > hi then ?e else hi"
    obtain lo' hi' where r: "span_loop (target_sink ops) f eh s is ?lo ?hi (n + 1) = Inr (lo', hi', n + 1 + of_nat (length (filter flashable rest)))"
      "lo' \<le> ?lo" "?hi \<le> hi'" "\<forall>ph\<in>set (filter flashable rest). lo' \<le> p_paddr ph \<and> p_paddr ph + p_filesz ph \<le> hi'"
      "lo' = ?lo \<or> lo' \<in> p_paddr ` set (filter flashable rest)"
      "hi' = ?hi \<or> hi' \<in> (\<lambda>ph. p_paddr ph + p_filesz ph) ` set (filter flashable rest)"
      using Cons.IH [OF ph(3), of ?lo ?hi "n + 1"] by (elim exE conjE) (rule that)
    have b: "lo' \<le> lo" "lo' \<le> p_paddr ph" "hi \<le> hi'" "?e \<le> hi'" using r(2,3) by (auto split: if_splits)
    show ?thesis
    proof (rule exI [of _ lo'], rule exI [of _ hi'], intro conjI)
      show "span_loop (target_sink ops) f eh s (i # is) lo hi n = Inr (lo', hi', n + of_nat (length (filter flashable phs)))"
        using True r(1) by (simp add: ph add.assoc)
      show "lo' = lo \<or> lo' \<in> p_paddr ` set (filter flashable phs)" using True r(5) by (auto simp: ph split: if_splits)
      show "hi' = hi \<or> hi' \<in> (\<lambda>ph. p_paddr ph + p_filesz ph) ` set (filter flashable phs)" using True r(6) by (auto simp: ph split: if_splits)
    qed (use True r(4) b in \<open>auto simp: ph\<close>)
  qed
qed auto

lemma target_program:
  assumes "map (phdr_at f eh) is = map Some phs" "\<forall>ph\<in>set (filter flashable phs). seg_fits f ph"
  shows "program_loop (target_sink ops) f eh is cnt n t =
    do { (ok, t) \<leftarrow> flash_write_all ops (concat (map (seg_chunks f) (filter flashable phs))) t;
         Some (if ok then Inr (n + of_nat (length (filter flashable phs)), cnt + sum_list (map p_filesz (filter flashable phs)))
               else Inl ''write failed'', t) }"
  using assms
proof (induction "is" arbitrary: phs cnt n t)
  case (Cons i "is")
  then obtain ph rest where ph: "phs = ph # rest" "phdr_at f eh i = Some ph" "map (phdr_at f eh) is = map Some rest"
    by (cases phs) auto
  have fit: "\<forall>ph\<in>set (filter flashable rest). seg_fits f ph" using Cons.prems(2) ph by auto
  show ?case
  proof (cases "flashable ph")
    case False
    then have flt: "filter flashable phs = filter flashable rest" by (simp add: ph)
    have "program_loop (target_sink ops) f eh (i # is) cnt n t = program_loop (target_sink ops) f eh is cnt n t"
      using False by (simp add: ph(2))
    then show ?thesis unfolding flt Cons.IH [OF ph(3) fit] .
  next
    case True
    then have s: "p_offset ph < 0x80000000" "unat (p_offset ph) + unat (p_filesz ph) \<le> length f"
      using Cons.prems(2) ph by (auto simp: seg_fits_def)
    have eq: "n + of_nat (length (filter flashable phs)) = n + 1 + of_nat (length (filter flashable rest))"
      "cnt + sum_list (map p_filesz (filter flashable phs)) = cnt + p_filesz ph + sum_list (map p_filesz (filter flashable rest))"
      "concat (map (seg_chunks f) (filter flashable phs)) = seg_chunks f ph @ concat (map (seg_chunks f) (filter flashable rest))"
      using True by (simp_all add: ph)
    note w = write_chunks_target [OF s(2), of "''short read (segment)''" ops "p_paddr ph" cnt, folded seg_chunks_def]
    show ?thesis
    proof (cases "flash_write_all ops (seg_chunks f ph) t")
      case None
      then show ?thesis unfolding eq using True s(1) by (simp add: ph(2) w flash_write_all_append)
    next
      case (Some r)
      then show ?thesis unfolding eq using True s(1) Cons.IH [OF ph(3) fit]
        by (cases r) (auto simp: ph(2) w flash_write_all_append)
    qed
  qed
qed simp

lemma target_verify:
  assumes "map (phdr_at f eh) is = map Some phs" "\<forall>ph\<in>set (filter flashable phs). seg_fits f ph" "emu_ready t"
    and "\<forall>ph\<in>set (filter flashable phs). flash_bytes t (unat (p_paddr ph)) (unat (p_filesz ph)) = snd (elf_seg f ph)"
  shows "\<exists>t'. verify_all (target_sink (emu_ops sh)) (the (sk_read (target_sink (emu_ops sh)))) f eh is t = Some (Inr (), t') \<and>
    emu_content t' = emu_content t"
  using assms
proof (induction "is" arbitrary: phs t)
  case (Cons i "is")
  then obtain ph rest where ph: "phs = ph # rest" "phdr_at f eh i = Some ph" "map (phdr_at f eh) is = map Some rest"
    by (cases phs) auto
  have fit: "\<forall>ph\<in>set (filter flashable rest). seg_fits f ph" using Cons.prems(2) ph by auto
  show ?case
  proof (cases "flashable ph")
    case False
    then show ?thesis using Cons.IH [OF ph(3) fit Cons.prems(3)] Cons.prems(4) ph by simp
  next
    case True
    then have s: "p_offset ph < 0x80000000" "unat (p_offset ph) + unat (p_filesz ph) \<le> length f"
      "134217728 \<le> unat (p_paddr ph)" "unat (p_paddr ph) + unat (p_filesz ph) \<le> 134348800"
      using Cons.prems(2) ph by (auto simp: seg_fits_def)
    have "flash_bytes t (unat (p_paddr ph)) (unat (p_filesz ph)) = take (unat (p_filesz ph)) (drop (unat (p_offset ph)) f)"
      using Cons.prems(4) True by (simp add: ph elf_seg_def)
    then obtain t1 where t1: "verify_loop f (unat (p_offset ph)) (p_paddr ph) (p_filesz ph) (the (sk_read (target_sink (emu_ops sh)))) t = Some (Inr (), t1)"
      "emu_ready t1" "emu_content t1 = emu_content t" using emu_verify_loop [OF Cons.prems(3) s(2-4)] by blast
    have "\<forall>ph\<in>set (filter flashable rest). flash_bytes t1 (unat (p_paddr ph)) (unat (p_filesz ph)) = snd (elf_seg f ph)"
      using Cons.prems(4) by (simp add: ph flash_bytes_def t1(3))
    from Cons.IH [OF ph(3) fit t1(2) this] show ?thesis using t1 True s(1) by (auto simp: ph verify_range_def)
  qed
qed simp

lemma segs_disjoint_append:
  "segs_disjoint (xs @ ys) \<longleftrightarrow> segs_disjoint xs \<and> segs_disjoint ys \<and> (\<forall>x\<in>set xs. \<forall>y\<in>set ys. seg_range x \<inter> seg_range y = {})"
  by (induction xs) auto

lemma overlay_all_append: "overlay_all (xs @ ys) c = overlay_all ys (overlay_all xs c)"
  by (induction xs c rule: overlay_all.induct) auto

lemma seg_chunks_in:
  assumes "seg_fits f ph" "sg \<in> set (seg_chunks f ph)"
  shows "snd sg \<noteq> [] \<and> unat (p_paddr ph) \<le> unat (fst sg) \<and> unat (fst sg) + length (snd sg) \<le> unat (p_paddr ph) + unat (p_filesz ph)"
    "seg_range sg \<subseteq> seg_range (elf_seg f ph)"
proof -
  have "unat (p_paddr ph) + unat (p_filesz ph) < 2 ^ 32" using assms(1) by (simp add: seg_fits_def)
  from chunk_list_in [OF _ this, of "unat (p_offset ph)" f sg] assms
  show *: "snd sg \<noteq> [] \<and> unat (p_paddr ph) \<le> unat (fst sg) \<and> unat (fst sg) + length (snd sg) \<le> unat (p_paddr ph) + unat (p_filesz ph)"
    by (simp add: seg_chunks_def seg_fits_def)
  show "seg_range sg \<subseteq> seg_range (elf_seg f ph)"
    using * assms(1) by (auto simp: seg_range_def elf_seg_def seg_fits_def)
qed

lemma chunks_of_segments:
  assumes "\<forall>ph\<in>set phs. seg_fits f ph" "segs_disjoint (map (elf_seg f) phs)"
  shows "segs_disjoint (concat (map (seg_chunks f) phs))"
    "overlay_all (concat (map (seg_chunks f) phs)) c = overlay_all (map (elf_seg f) phs) c"
proof -
  have "segs_disjoint (concat (map (seg_chunks f) phs)) \<and>
    overlay_all (concat (map (seg_chunks f) phs)) c = overlay_all (map (elf_seg f) phs) c"
    using assms
  proof (induction phs arbitrary: c)
    case (Cons ph phs)
    have fit: "seg_fits f ph" "\<forall>ph\<in>set phs. seg_fits f ph" using Cons.prems(1) by auto
    have r: "unat (p_offset ph) + unat (p_filesz ph) \<le> length f" "unat (p_paddr ph) + unat (p_filesz ph) < 2 ^ 32"
      using fit(1) by (simp_all add: seg_fits_def)
    have "seg_range x \<inter> seg_range y = {}" if xy: "x \<in> set (seg_chunks f ph)" "y \<in> set (concat (map (seg_chunks f) phs))" for x y
    proof -
      from xy(2) obtain ph' where p: "ph' \<in> set phs" "y \<in> set (seg_chunks f ph')" by auto
      then have "seg_range (elf_seg f ph) \<inter> seg_range (elf_seg f ph') = {}" using Cons.prems(2) by auto
      then show ?thesis using seg_chunks_in(2) [OF fit(1) xy(1)] seg_chunks_in(2) [of f ph' y] fit(2) p by blast
    qed
    then show ?case using Cons.IH fit(2) Cons.prems(2) chunk_list_disjoint [OF r] overlay_chunks [OF r]
      by (auto simp: segs_disjoint_append overlay_all_append seg_chunks_def elf_seg_def)
  qed simp
  then show "segs_disjoint (concat (map (seg_chunks f) phs))"
    "overlay_all (concat (map (seg_chunks f) phs)) c = overlay_all (map (elf_seg f) phs) c" by auto
qed


lemma elf_span_ok:
  assumes "elf_phdrs f eh = Some phs" "filter flashable phs \<noteq> []" "\<forall>ph\<in>set (filter flashable phs). seg_fits f ph"
  shows "\<exists>lo hi. span_loop (target_sink ops) f eh s [0..<unat (e_phnum eh)] 0xffffffff 0 0 =
      Inr (lo, hi, of_nat (length (filter flashable phs))) \<and> of_nat (length (filter flashable phs)) \<noteq> (0 :: u32) \<and>
    134217728 \<le> unat lo \<and> unat lo + unat (hi - lo) \<le> 134348800 \<and> hi - lo \<noteq> 0 \<and>
    (\<forall>ph\<in>set (filter flashable phs). unat lo \<le> unat (p_paddr ph) \<and>
       unat (p_paddr ph) + unat (p_filesz ph) \<le> unat lo + unat (hi - lo))"
proof -
  let ?s = "filter flashable phs"
  have m: "map (phdr_at f eh) [0..<unat (e_phnum eh)] = map Some phs" using assms(1) by (simp add: elf_phdrs_def those_Some)
  have "length phs = unat (e_phnum eh)" using arg_cong [OF m, of length] by simp
  then have "length phs < 65536" using unsigned_less [of "e_phnum eh", where 'a = nat] by simp
  then have l: "length ?s < 65536" using length_filter_le [of flashable phs] by linarith
  have n: "of_nat (length ?s) \<noteq> (0 :: u32)" using l assms(2) by (simp add: word_unat_eq_iff unat_of_nat)
  have e: "unat (p_paddr ph + p_filesz ph) = unat (p_paddr ph) + unat (p_filesz ph)" "p_filesz ph \<noteq> 0"
    "134217728 \<le> unat (p_paddr ph)" "unat (p_paddr ph) + unat (p_filesz ph) \<le> 134348800" if "ph \<in> set ?s" for ph
    using that assms(3) by (auto simp: seg_fits_def unat_word_ariths flashable_def)
  obtain lo hi where r: "span_loop (target_sink ops) f eh s [0..<unat (e_phnum eh)] 0xffffffff 0 0 = Inr (lo, hi, 0 + of_nat (length ?s))"
    "\<forall>ph\<in>set ?s. lo \<le> p_paddr ph \<and> p_paddr ph + p_filesz ph \<le> hi"
    "lo = 0xffffffff \<or> lo \<in> p_paddr ` set ?s" "hi = 0 \<or> hi \<in> (\<lambda>ph. p_paddr ph + p_filesz ph) ` set ?s"
    using target_span [OF m, of ops s "0xffffffff" 0 0] by (elim exE conjE) (rule that)
  obtain ph0 where ph0: "ph0 \<in> set ?s" using assms(2) by (cases ?s) auto
  have lo0: "unat lo \<le> unat (p_paddr ph0)" "unat (p_paddr ph0) + unat (p_filesz ph0) \<le> unat hi"
    using r(2) ph0 e(1) [OF ph0] by (auto simp: word_le_nat_alt)
  have f0: "0 < unat (p_filesz ph0)" using e(2) [OF ph0] by (simp add: unat_gt_0)
  have lo: "134217728 \<le> unat lo" using r(3) e(3,4) [OF ph0] e(3) lo0(1) f0 by auto
  have hi: "unat hi \<le> 134348800" using r(4) e(1,4) by auto
  have d: "unat (hi - lo) = unat hi - unat lo" using lo0 by (subst unat_sub) (auto simp: word_le_nat_alt)
  have "unat lo + unat (hi - lo) = unat hi" using lo0 unfolding d by linarith
  moreover have "\<forall>ph\<in>set ?s. unat lo \<le> unat (p_paddr ph) \<and> unat (p_paddr ph) + unat (p_filesz ph) \<le> unat hi"
    using r(2) e(1) by (auto simp: word_le_nat_alt)
  moreover have "hi - lo \<noteq> 0" using lo0 f0 by auto
  ultimately show ?thesis using r(1) n lo hi by auto
qed

text \<open>C6: loading a well-formed ELF file whose non-empty loadable segments lie in flash and do not
  overlap succeeds, with the number of segments, their bytes and the entry point; afterwards the flash
  holds every segment at its physical address.\<close>

theorem emu_load_elf:
  assumes "emu_ready t" "t_flash t = [emu_region]" "list_all id (plat_mallocs t)"
    and "map_option parse_ehdr (read_at f 0 52) = Some eh" "ehdr_error eh = None" "elf_phdrs f eh = Some phs"
    and "segs = filter flashable phs" "segs \<noteq> []" "\<forall>ph\<in>set segs. seg_fits f ph" "segs_disjoint (map (elf_seg f) segs)"
  shows "\<exists>t'. bmp_load_elf f (target_sink (emu_ops sh)) t =
      Some (Inr \<lparr>lr_segments = of_nat (length segs), lr_bytes = sum_list (map p_filesz segs), lr_entry = e_entry eh\<rparr>, t') \<and>
    (\<forall>ph\<in>set segs. flash_bytes t' (unat (p_paddr ph)) (unat (p_filesz ph)) = snd (elf_seg f ph))"
proof -
  let ?ops = "emu_ops sh" and ?c = "concat (map (seg_chunks f) segs)" and ?is = "[0..<unat (e_phnum eh)]"
  note sg = assms(7) [symmetric]
  have m: "map (phdr_at f eh) ?is = map Some phs" using assms(6) by (simp add: elf_phdrs_def those_Some)
  obtain lo hi where sp: "span_loop (target_sink ?ops) f eh t ?is 0xffffffff 0 0 = Inr (lo, hi, of_nat (length segs))"
    "of_nat (length segs) \<noteq> (0 :: u32)" "134217728 \<le> unat lo" "unat lo + unat (hi - lo) \<le> 134348800" "hi - lo \<noteq> 0"
    "\<forall>ph\<in>set segs. unat lo \<le> unat (p_paddr ph) \<and> unat (p_paddr ph) + unat (p_filesz ph) \<le> unat lo + unat (hi - lo)"
    using elf_span_ok [OF assms(6), unfolded sg, OF assms(8,9), of ?ops t] by (elim exE conjE) (rule that)
  note ch = chunks_of_segments [OF assms(9,10)]
  have ci: "\<forall>x\<in>set ?c. snd x \<noteq> [] \<and> unat lo \<le> unat (fst x) \<and> unat (fst x) + length (snd x) \<le> unat lo + unat (hi - lo)"
    using seg_chunks_in(1) assms(9) sp(6) by fastforce
  obtain t3 where t3: "flash_program ?ops lo (hi - lo) ?c t = Some (True, t3)" "emu_ready t3"
    "emu_content t3 = overlay_all ?c (erased_range (unat lo - unat lo mod 2 ^ 10) (align_up (unat lo + unat (hi - lo)) (2 ^ 10)) (emu_content t))"
    using emu_flash.program_ok [OF assms(1,2) emu_region_geom(1,2) assms(3) _ _ sp(5) ch(1) ci] sp(3,4)
    unfolding emu_region_geom(3,4) by auto
  obtain t1 t2 where st: "target_flash_erase ?ops lo (hi - lo) t = Some (True, t1)" "flash_write_all ?ops ?c t1 = Some (True, t2)"
    "target_flash_complete ?ops t2 = Some (True, t3)" using flash_program_stages [OF t3(1)] by blast
  have pr: "program_loop (target_sink ?ops) f eh ?is 0 0 t1 = Some (Inr (of_nat (length segs), sum_list (map p_filesz segs)), t2)"
    using target_program [OF m, unfolded sg, OF assms(9), of ?ops 0 0 t1] st(2) by simp
  have fb: "\<forall>ph\<in>set segs. flash_bytes t3 (unat (p_paddr ph)) (unat (p_filesz ph)) = snd (elf_seg f ph)"
  proof
    fix ph assume ph: "ph \<in> set segs"
    have l: "length (snd (elf_seg f ph)) = unat (p_filesz ph)" using assms(9) ph by (auto simp: elf_seg_def seg_fits_def min_def)
    have in1: "(p_paddr ph, snd (elf_seg f ph)) \<in> set (map (elf_seg f) segs)" using ph by (auto simp: elf_seg_def)
    show "flash_bytes t3 (unat (p_paddr ph)) (unat (p_filesz ph)) = snd (elf_seg f ph)"
      by (rule nth_equalityI) (simp_all add: flash_bytes_def l t3(3) ch(2) overlay_all_inside [OF assms(10) in1])
  qed
  obtain t4 where t4: "verify_all (target_sink ?ops) (the (sk_read (target_sink ?ops))) f eh ?is t3 = Some (Inr (), t4)"
    "emu_content t4 = emu_content t3" using target_verify [OF m, unfolded sg, OF assms(9) t3(2) fb] by blast
  have tsel: "sk_erase (target_sink ?ops) = target_flash_erase ?ops" "sk_complete (target_sink ?ops) = target_flash_complete ?ops"
    by (simp_all add: target_sink_def)
  obtain rd where rd: "sk_read (target_sink ?ops) = Some rd" by (simp add: target_sink_def)
  have "bmp_load_elf f (target_sink ?ops) t =
     Some (Inr \<lparr>lr_segments = of_nat (length segs), lr_bytes = sum_list (map p_filesz segs), lr_entry = e_entry eh\<rparr>, t4)"
    unfolding bmp_load_elf_def assms(4) option.case assms(5) Let_def sp(1) sum.case prod.case
    using sp(2) st(1,3) pr t4(1) tsel rd by simp
  then show ?thesis using fb t4(2) by (auto simp: flash_bytes_def)
qed

subsection \<open>Refused files\<close>

lemma span_refused:
  assumes "\<exists>i\<in>set is. phdr_at f eh i = None"
  shows "\<exists>e. span_loop sink f eh s is lo hi n = Inl e"
  using assms
proof (induction "is" arbitrary: lo hi n)
  case (Cons i "is")
  then show ?case by (cases "phdr_at f eh i") auto
qed simp

lemma span_none:
  assumes "\<forall>i\<in>set is. \<forall>ph. phdr_at f eh i = Some ph \<longrightarrow> \<not> seg_flashable sink s ph" "\<forall>i\<in>set is. phdr_at f eh i \<noteq> None"
  shows "span_loop sink f eh s is lo hi n = Inr (lo, hi, n)"
  using assms by (induction "is" arbitrary: lo hi n) auto

text \<open>C7: a file that is too short for its header, has a bad header, a truncated program header table or
  nothing to load is refused before the target is touched, whatever the sink is.\<close>

theorem load_elf_refused:
  assumes "case map_option parse_ehdr (read_at f 0 52) of
       None \<Rightarrow> True
     | Some eh \<Rightarrow> ehdr_error eh \<noteq> None \<or> elf_phdrs f eh = None \<or>
         (\<forall>phs. elf_phdrs f eh = Some phs \<longrightarrow> (\<forall>ph\<in>set phs. \<not> seg_flashable sink s ph))"
  shows "\<exists>e. bmp_load_elf f sink s = Some (Inl e, s)"
proof (cases "map_option parse_ehdr (read_at f 0 52)")
  case None
  then show ?thesis by (simp add: bmp_load_elf_def)
next
  case (Some eh)
  let ?is = "[0..<unat (e_phnum eh)]"
  show ?thesis
  proof (cases "ehdr_error eh")
    case None
    have "\<exists>e. span_loop sink f eh s ?is 0xffffffff 0 0 = Inl e \<or> span_loop sink f eh s ?is 0xffffffff 0 0 = Inr (0xffffffff, 0, 0)"
    proof (cases "\<exists>i\<in>set ?is. phdr_at f eh i = None")
      case True
      then show ?thesis using span_refused [of ?is f eh sink s "0xffffffff" 0 0] by auto
    next
      case False
      define phs where "phs = map (\<lambda>i. the (phdr_at f eh i)) ?is"
      have ph: "elf_phdrs f eh = Some phs" using False by (auto simp: elf_phdrs_def those_Some phs_def)
      then have "\<forall>ph\<in>set phs. \<not> seg_flashable sink s ph" using assms Some None by simp
      then have "\<forall>i\<in>set ?is. \<forall>ph. phdr_at f eh i = Some ph \<longrightarrow> \<not> seg_flashable sink s ph"
        unfolding phs_def by (metis (mono_tags) image_eqI list.set_map option.sel)
      then show ?thesis using span_none [of ?is f eh sink s "0xffffffff" 0 0] False by auto
    qed
    then show ?thesis using Some None by (auto simp: bmp_load_elf_def Let_def)
  qed (simp add: bmp_load_elf_def Some)
qed

subsection \<open>Instances\<close>

theorem emu_load_bin_witness:
  "\<forall>sh. \<exists>t'. bmp_load_bin [1, 2, 3] 0x8000100 (target_sink (emu_ops sh)) emu_board =
      Some (Inr \<lparr>lr_segments = 1, lr_bytes = 3, lr_entry = 0x8000100\<rparr>, t') \<and> flash_bytes t' 134217984 3 = [1, 2, 3]"
proof
  fix sh
  show "\<exists>t'. bmp_load_bin [1, 2, 3] 0x8000100 (target_sink (emu_ops sh)) emu_board =
      Some (Inr \<lparr>lr_segments = 1, lr_bytes = 3, lr_entry = 0x8000100\<rparr>, t') \<and> flash_bytes t' 134217984 3 = [1, 2, 3]"
    using emu_load_bin [OF emu_board_ready(1,3), of "[1, 2, 3]" "0x8000100" sh]
    by (auto simp: emu_board_ready numeral_3_eq_3)
qed

text \<open>An ELF file with one program header and a segment of four bytes.\<close>

definition elf_example :: "byte list" where
  "elf_example =
     [0x7f, 0x45, 0x4c, 0x46, 1, 1, 1, 0, 0, 0, 0, 0, 0, 0, 0, 0,
      2, 0, 40, 0, 1, 0, 0, 0, 0x01, 0x01, 0, 0x08, 52, 0, 0, 0,
      0, 0, 0, 0, 0, 0, 0, 0, 52, 0, 32, 0, 1, 0, 0, 0, 0, 0, 0, 0,
      1, 0, 0, 0, 84, 0, 0, 0, 0, 0, 0, 0x08, 0, 0, 0, 0x08,
      4, 0, 0, 0, 4, 0, 0, 0, 5, 0, 0, 0, 4, 0, 0, 0,
      0xde, 0xad, 0xbe, 0xef]"

definition elf_example_hdr :: elf32_ehdr where
  "elf_example_hdr = \<lparr>e_ident = [0x7f, 0x45, 0x4c, 0x46, 1, 1, 1, 0, 0, 0, 0, 0, 0, 0, 0, 0], e_machine = 40, e_entry = 0x8000101,
     e_phoff = 52, e_phentsize = 32, e_phnum = 1\<rparr>"

definition elf_example_seg :: elf32_phdr where
  "elf_example_seg = \<lparr>p_type = 1, p_offset = 84, p_paddr = 0x8000000, p_filesz = 4\<rparr>"

lemma elf_example_parse: "map_option parse_ehdr (read_at elf_example 0 52) = Some elf_example_hdr"
  by (simp add: read_at_def file_get_def elf_example_def parse_ehdr_def elf_example_hdr_def u32_at_def u16_at_def u16_of_bytes_def)

lemma elf_example_phdrs: "elf_phdrs elf_example elf_example_hdr = Some [elf_example_seg]"
  by (simp add: elf_phdrs_def phdr_at_def read_at_def file_get_def elf_example_def parse_phdr_def elf_example_hdr_def elf_example_seg_def u32_at_def)

lemma elf_example_ok: "ehdr_error elf_example_hdr = None" "filter flashable [elf_example_seg] = [elf_example_seg]" "seg_fits elf_example elf_example_seg"
  by (simp_all add: ehdr_error_def elf_example_hdr_def flashable_def elf_example_seg_def seg_fits_def elf_example_def)

theorem emu_load_elf_witness:
  "\<forall>sh. \<exists>t'. bmp_load_elf elf_example (target_sink (emu_ops sh)) emu_board =
      Some (Inr \<lparr>lr_segments = 1, lr_bytes = 4, lr_entry = 0x8000101\<rparr>, t') \<and> flash_bytes t' 134217728 4 = [0xde, 0xad, 0xbe, 0xef]"
proof
  fix sh
  have "\<exists>t'. bmp_load_elf elf_example (target_sink (emu_ops sh)) emu_board =
      Some (Inr \<lparr>lr_segments = of_nat (length [elf_example_seg]), lr_bytes = sum_list (map p_filesz [elf_example_seg]), lr_entry = e_entry elf_example_hdr\<rparr>, t') \<and>
    (\<forall>ph\<in>set [elf_example_seg]. flash_bytes t' (unat (p_paddr ph)) (unat (p_filesz ph)) = snd (elf_seg elf_example ph))"
    by (rule emu_load_elf [OF emu_board_ready(1,3) _ elf_example_parse elf_example_ok(1) elf_example_phdrs elf_example_ok(2) [symmetric]])
      (simp_all add: emu_board_ready elf_example_ok(3))
  moreover have "snd (elf_seg elf_example elf_example_seg) = [0xde, 0xad, 0xbe, 0xef]"
    by (simp add: elf_seg_def elf_example_seg_def elf_example_def)
  ultimately show "\<exists>t'. bmp_load_elf elf_example (target_sink (emu_ops sh)) emu_board =
      Some (Inr \<lparr>lr_segments = 1, lr_bytes = 4, lr_entry = 0x8000101\<rparr>, t') \<and> flash_bytes t' 134217728 4 = [0xde, 0xad, 0xbe, 0xef]"
    by (simp add: elf_example_seg_def elf_example_hdr_def)
qed

theorem load_elf_refused_witness: "\<forall>sink (s :: unit). \<exists>e. bmp_load_elf (take 51 elf_example) sink s = Some (Inl e, s)"
  by (intro allI load_elf_refused) (simp add: read_at_def file_get_def elf_example_def)

end
