(* ===== verification/Adiv5_Discover.thy ===== *)
theory Adiv5_Discover
  imports Cortexm_Probe
begin

text \<open>
  Discovery of what is behind a debug port, src/target/adiv5.c: adiv5_dp_init reads DPIDR and TARGETID,
  powers the port up, walks the access ports, halts and prepares the core behind the first AHB access
  port, walks the CoreSight ROM tables and starts the probe of each core it finds, and resumes the cores
  again. The record discovery is the state: the environment every target shares (debug port and
  platform), the targets of this port, what is known of the port and the current access port, and the
  reference counts of both.

  Probes that are not modelled (Cortex-A and Cortex-R, the recovery access ports behind their IDR check,
  the rescue port of the RP2040, the LPC55 mailbox) are the parameter ext, by the name ext_probe. Debug
  output is left out; the register accesses it causes in this build are kept. A ROM table that contains
  itself is walked for ever: fuel bounds the depth, and None is the result when it does not suffice.
\<close>

subsection \<open>State\<close>

datatype arm_arch_e = aa_nosupport | aa_cortexm | aa_cortexa | aa_cortexr | aa_end

datatype ext_probe =
  E_kinetis_mdm | E_nrf51_mdm | E_efm32_aap | E_lpc55_dmap | E_cortexa u32 | E_cortexr u32 | E_rp_rescue | E_lpc55_dp_prepare

record 'd discovery =
  d_env :: "'d cortexm"
  d_targets :: "('d cortexm target_ops \<times> 'd cortexm) list"
  d_ids :: probe_ids
  d_partno :: u16
  d_quirks :: u8
  d_dp_refcnt :: int
  d_ap_refcnt :: int
  d_dp_freed :: bool

type_synonym 'd ext = "ext_probe \<Rightarrow> adiv5_access_port \<Rightarrow> 'd discovery \<Rightarrow> 'd discovery option"

abbreviation (input) ADIV5_DP_QUIRK_MINDP :: u8 where "ADIV5_DP_QUIRK_MINDP \<equiv> 1"
abbreviation (input) ADIV5_DP_QUIRK_DUPED_AP :: u8 where "ADIV5_DP_QUIRK_DUPED_AP \<equiv> 2"
abbreviation (input) JEP106_MANUFACTURER_ARM :: u16 where "JEP106_MANUFACTURER_ARM \<equiv> 0x43b"
abbreviation (input) JEP106_MANUFACTURER_STM :: u16 where "JEP106_MANUFACTURER_STM \<equiv> 0x020"
abbreviation (input) JEP106_MANUFACTURER_NXP :: u16 where "JEP106_MANUFACTURER_NXP \<equiv> 0x015"
abbreviation (input) JEP106_MANUFACTURER_ATMEL :: u16 where "JEP106_MANUFACTURER_ATMEL \<equiv> 0x01f"
abbreviation (input) JEP106_MANUFACTURER_RASPBERRY :: u16 where "JEP106_MANUFACTURER_RASPBERRY \<equiv> 0x913"
abbreviation (input) JEP106_ERRATA_STM32WX :: u16 where "JEP106_ERRATA_STM32WX \<equiv> 0x420"
abbreviation (input) JEP106_ERRATA_CS :: u16 where "JEP106_ERRATA_CS \<equiv> 0x555"
abbreviation (input) ASCII_CODE_FLAG :: u16 where "ASCII_CODE_FLAG \<equiv> 0x8000"
abbreviation (input) JTAG_IDCODE_PARTNO_DPv0 :: u16 where "JTAG_IDCODE_PARTNO_DPv0 \<equiv> 0xba00"
abbreviation (input) CID_CLASS_MASK :: u32 where "CID_CLASS_MASK \<equiv> 0xf000"
abbreviation (input) CID_PREAMBLE :: u32 where "CID_PREAMBLE \<equiv> 0xb105000d"
abbreviation (input) DEVTYPE_OFFSET :: u32 where "DEVTYPE_OFFSET \<equiv> 0xfcc"
abbreviation (input) DEVARCH_OFFSET :: u32 where "DEVARCH_OFFSET \<equiv> 0xfbc"
abbreviation (input) SAMX5X_DSU_CTRLSTAT :: u32 where "SAMX5X_DSU_CTRLSTAT \<equiv> 0x41002100"
abbreviation (input) PWRUP_ACK :: u32 where "PWRUP_ACK \<equiv> 0xa0000000"
abbreviation (input) PWRUP_REQ :: u32 where "PWRUP_REQ \<equiv> 0x50000000"

text \<open>Access to the debug port and the timers of the environment.\<close>

definition on_dp :: "('d \<Rightarrow> ('a \<times> 'd) option) \<Rightarrow> 'd discovery \<Rightarrow> ('a \<times> 'd discovery) option" where
  "on_dp f s = do { (x, d) \<leftarrow> f (cm_dp (d_env s)); Some (x, s\<lparr>d_env := (d_env s)\<lparr>cm_dp := d\<rparr>\<rparr>) }"

definition on_dp_do :: "('d \<Rightarrow> 'd option) \<Rightarrow> 'd discovery \<Rightarrow> 'd discovery option" where
  "on_dp_do f s = do { d \<leftarrow> f (cm_dp (d_env s)); Some (s\<lparr>d_env := (d_env s)\<lparr>cm_dp := d\<rparr>\<rparr>) }"

definition d_expired :: "'d discovery \<Rightarrow> bool \<times> 'd discovery" where
  "d_expired s = (let (e, env) = platform_timeout_is_expired (d_env s) in (e, s\<lparr>d_env := env\<rparr>))"

definition d_malloc :: "'d discovery \<Rightarrow> bool \<times> 'd discovery" where
  "d_malloc s = (let (ok, env) = plat_malloc (d_env s) in (ok, s\<lparr>d_env := env\<rparr>))"

text \<open>A target sees the shared environment.\<close>

definition put_env :: "'d cortexm \<Rightarrow> 'd cortexm \<Rightarrow> 'd cortexm" where
  "put_env env t = t\<lparr>plat_clk_output := plat_clk_output env, plat_nrst := plat_nrst env, plat_mallocs := plat_mallocs env,
     plat_expired := plat_expired env, cm_dp := cm_dp env\<rparr>"

subsection \<open>Reference counts\<close>

definition adiv5_ap_ref :: "'d discovery \<Rightarrow> 'd discovery" where
  "adiv5_ap_ref s =
     (let s = (if d_ap_refcnt s = 0 then s\<lparr>d_dp_refcnt := d_dp_refcnt s + 1\<rparr> else s)
      in s\<lparr>d_ap_refcnt := d_ap_refcnt s + 1\<rparr>)"

definition adiv5_dp_unref :: "'d discovery \<Rightarrow> 'd discovery" where
  "adiv5_dp_unref s =
     (let s = s\<lparr>d_dp_refcnt := d_dp_refcnt s - 1\<rparr>
      in if d_dp_refcnt s = 0 then s\<lparr>d_dp_freed := True\<rparr> else s)"

definition adiv5_ap_unref :: "'d discovery \<Rightarrow> 'd discovery" where
  "adiv5_ap_unref s =
     (let s = s\<lparr>d_ap_refcnt := d_ap_refcnt s - 1\<rparr>
      in if d_ap_refcnt s = 0 then adiv5_dp_unref s else s)"

subsection \<open>Halting and preparing a Cortex-M core\<close>

fun initial_halt_loop ::
  "'d dp_ops \<Rightarrow> bool \<Rightarrow> u32 \<Rightarrow> nat \<Rightarrow> bool \<Rightarrow> 'd discovery \<Rightarrow> (u32 \<times> 'd discovery) option" where
  "initial_halt_loop dp connect_assert_nrst ctrlstat n reset_seen s =
     (let (e, s) = d_expired s
      in if e then Some (0, s)
         else (case n of
                 0 \<Rightarrow> None
               | Suc n \<Rightarrow>
                   do { s \<leftarrow> (if d_quirks s AND ADIV5_DP_QUIRK_MINDP = 0
                              then do { (_, s) \<leftarrow> on_dp (dp_low_access dp ADIV5_LOW_WRITE ADIV5_DP_CTRLSTAT
                                                   (ctrlstat OR push_bit 12 0xfff)) s; Some s }
                              else Some s);
                        (_, s) \<leftarrow> on_dp (dp_low_access dp ADIV5_LOW_WRITE ADIV5_AP_DRW
                                    (CORTEXM_DHCSR_DBGKEY OR CORTEXM_DHCSR_C_DEBUGEN OR CORTEXM_DHCSR_C_HALT)) s;
                        (dhcsr, s) \<leftarrow> on_dp (dp_low_access dp ADIV5_LOW_READ ADIV5_AP_DRW 0) s;
                        (dhcsr, s) \<leftarrow> (if d_quirks s AND ADIV5_DP_QUIRK_MINDP \<noteq> 0
                                        then on_dp (dp_low_access dp ADIV5_LOW_READ ADIV5_DP_RDBUFF 0) s
                                        else Some (dhcsr, s));
                        if dhcsr = 0xffffffff \<or> dhcsr AND 0xf000fff0 \<noteq> 0
                        then initial_halt_loop dp connect_assert_nrst ctrlstat n reset_seen s
                        else if dhcsr AND CORTEXM_DHCSR_S_RESET_ST \<noteq> 0 \<and> \<not> reset_seen
                        then (if connect_assert_nrst then Some (dhcsr, s)
                              else initial_halt_loop dp connect_assert_nrst ctrlstat n True s)
                        else if dhcsr AND (CORTEXM_DHCSR_S_HALT OR CORTEXM_DHCSR_C_DEBUGEN) =
                                (CORTEXM_DHCSR_S_HALT OR CORTEXM_DHCSR_C_DEBUGEN)
                        then Some (dhcsr, s)
                        else initial_halt_loop dp connect_assert_nrst ctrlstat n reset_seen s }))"

declare initial_halt_loop.simps [simp del]

definition cortexm_initial_halt ::
  "'d dp_ops \<Rightarrow> bool \<Rightarrow> adiv5_access_port \<Rightarrow> 'd discovery \<Rightarrow> (u32 \<times> 'd discovery) option" where
  "cortexm_initial_halt dp connect_assert_nrst ap s =
     do { (ctrlstat, s) \<leftarrow> on_dp (dp_read dp ADIV5_DP_CTRLSTAT) s;
          s \<leftarrow> on_dp_do (firmware_ap_write dp ap ADIV5_AP_CSW (csw ap OR ADIV5_AP_CSW_SIZE_WORD)) s;
          (_, s) \<leftarrow> on_dp (dp_low_access dp ADIV5_LOW_WRITE ADIV5_AP_TAR CORTEXM_DHCSR) s;
          (_, s) \<leftarrow> on_dp (dp_low_access dp ADIV5_LOW_WRITE ADIV5_AP_DRW (CORTEXM_DHCSR_DBGKEY OR CORTEXM_DHCSR_C_DEBUGEN)) s;
          (_, s) \<leftarrow> on_dp (dp_read dp ADIV5_DP_RDBUFF) s;
          initial_halt_loop dp connect_assert_nrst ctrlstat (length (plat_expired (d_env s))) False s }"

text \<open>The wait for the core to leave reset: False when the timeout expires first.\<close>

fun prepare_wait :: "'d dp_ops \<Rightarrow> adiv5_access_port \<Rightarrow> nat \<Rightarrow> 'd discovery \<Rightarrow> (bool \<times> 'd discovery) option" where
  "prepare_wait dp ap n s =
     do { (dhcsr, s) \<leftarrow> on_dp (adiv5_mem_read32 dp ap CORTEXM_DHCSR) s;
          if dhcsr AND CORTEXM_DHCSR_S_RESET_ST = 0 then Some (True, s)
          else (let (e, s) = d_expired s
                in if e then Some (False, s) else (case n of 0 \<Rightarrow> None | Suc n \<Rightarrow> prepare_wait dp ap n s)) }"

declare prepare_wait.simps [simp del]

text \<open>The result carries the access port with its saved DEMCR. The failure message reads DHCSR.\<close>

definition cortexm_prepare ::
  "'d dp_ops \<Rightarrow> bool \<Rightarrow> adiv5_access_port \<Rightarrow> 'd discovery \<Rightarrow> (bool \<times> adiv5_access_port \<times> 'd discovery) option" where
  "cortexm_prepare dp connect_assert_nrst ap s =
     do { (dhcsr, s) \<leftarrow> cortexm_initial_halt dp connect_assert_nrst ap s;
          if dhcsr = 0 then do { (_, s) \<leftarrow> on_dp (adiv5_mem_read32 dp ap CORTEXM_DHCSR) s; Some (False, ap, s) }
          else do {
            s \<leftarrow> on_dp_do (\<lambda>d. Some (dp_fault_set dp 0 d)) s;
            (v, s) \<leftarrow> on_dp (adiv5_mem_read32 dp ap CORTEXM_DEMCR) s;
            let ap = ap\<lparr>ap_cortexm_demcr := v\<rparr>;
            s \<leftarrow> on_dp_do (adiv5_mem_write dp ap CORTEXM_DEMCR (bytes_of_u32 0x01000401) 4) s;
            let s = s\<lparr>d_env := (d_env s)\<lparr>plat_nrst := False\<rparr>\<rparr>;
            (ok, s) \<leftarrow> prepare_wait dp ap (length (plat_expired (d_env s))) s;
            Some (ok, ap, s) } }"

subsection \<open>Components\<close>

text \<open>Part number, device type, architecture identifier and what to do about it. The expected component
  class of an entry only shows in a warning.\<close>

definition arm_component_lut :: "(u16 \<times> u8 \<times> u16 \<times> arm_arch_e) list" where
  "arm_component_lut =
     [(0x000, 0x00, 0, aa_cortexm), (0x001, 0x00, 0, aa_nosupport), (0x002, 0x00, 0, aa_nosupport), (0x003, 0x00, 0,
      aa_nosupport), (0x008, 0x00, 0, aa_cortexm), (0x00a, 0x00, 0, aa_nosupport), (0x00b, 0x00, 0, aa_nosupport), (0x00c, 0x00,
      0, aa_cortexm), (0x00d, 0x00, 0, aa_nosupport), (0x00e, 0x00, 0, aa_nosupport), (0x101, 0x00, 0, aa_nosupport), (0x471,
      0x00, 0, aa_nosupport), (0x490, 0x00, 0, aa_nosupport), (0x4c0, 0x00, 0, aa_nosupport), (0x4c3, 0x00, 0, aa_nosupport),
      (0x4c4, 0x00, 0, aa_nosupport), (0x4c7, 0x00, 0, aa_nosupport), (0x4c8, 0x00, 0, aa_nosupport), (0x906, 0x14, 0,
      aa_nosupport), (0x907, 0x21, 0, aa_nosupport), (0x908, 0x12, 0, aa_nosupport), (0x910, 0x00, 0, aa_nosupport), (0x912, 0x11,
      0, aa_nosupport), (0x913, 0x43, 0, aa_nosupport), (0x914, 0x11, 0, aa_nosupport), (0x917, 0x00, 0, aa_nosupport), (0x920,
      0x00, 0, aa_nosupport), (0x921, 0x00, 0, aa_nosupport), (0x922, 0x00, 0, aa_nosupport), (0x923, 0x11, 0, aa_nosupport),
      (0x924, 0x13, 0, aa_nosupport), (0x925, 0x13, 0, aa_nosupport), (0x930, 0x00, 0, aa_nosupport), (0x932, 0x31, 0x0a31,
      aa_nosupport), (0x941, 0x00, 0, aa_nosupport), (0x950, 0x13, 0, aa_nosupport), (0x955, 0x00, 0, aa_nosupport), (0x956, 0x13,
      0, aa_nosupport), (0x95f, 0x00, 0, aa_nosupport), (0x961, 0x32, 0, aa_nosupport), (0x961, 0x21, 0, aa_nosupport), (0x962,
      0x00, 0, aa_nosupport), (0x963, 0x63, 0x0a63, aa_nosupport), (0x975, 0x13, 0x4a13, aa_nosupport), (0x9a0, 0x16, 0,
      aa_nosupport), (0x9a1, 0x11, 0, aa_nosupport), (0x9a6, 0x14, 0x1a14, aa_nosupport), (0x9a9, 0x11, 0, aa_nosupport), (0x9a5,
      0x00, 0, aa_nosupport), (0x9a7, 0x16, 0, aa_nosupport), (0x9af, 0x00, 0, aa_nosupport), (0xc05, 0x00, 0, aa_cortexa),
      (0xc07, 0x15, 0, aa_cortexa), (0xc08, 0x00, 0, aa_cortexa), (0xc09, 0x15, 0, aa_cortexa), (0xc0f, 0x00, 0, aa_nosupport),
      (0xc14, 0x15, 0, aa_cortexr), (0xcd0, 0x00, 0, aa_nosupport), (0xd20, 0x00, 0x2a04, aa_cortexm), (0xd20, 0x11, 0,
      aa_nosupport), (0xd20, 0x13, 0, aa_nosupport), (0xd20, 0x31, 0x0a31, aa_nosupport), (0xd20, 0x00, 0x1a02, aa_nosupport),
      (0xd20, 0x00, 0x1a03, aa_nosupport), (0xd20, 0x14, 0x1a14, aa_nosupport), (0xd21, 0x00, 0x2a04, aa_cortexm), (0xd21, 0x31,
      0x0a31, aa_nosupport), (0xd21, 0x43, 0x1a01, aa_nosupport), (0xd21, 0x00, 0x1a02, aa_nosupport), (0xd21, 0x00, 0x1a03,
      aa_nosupport), (0xd21, 0x14, 0x1a14, aa_nosupport), (0xd21, 0x13, 0x4a13, aa_nosupport), (0xd21, 0x11, 0, aa_nosupport),
      (0x132, 0x31, 0x0a31, aa_nosupport), (0x132, 0x43, 0x1a01, aa_nosupport), (0x132, 0x00, 0x1a02, aa_nosupport), (0x132, 0x00,
      0x1a03, aa_nosupport), (0x132, 0x14, 0x1a14, aa_nosupport), (0x132, 0x00, 0x2a04, aa_cortexm), (0x132, 0x13, 0x4a13,
      aa_nosupport), (0x132, 0x11, 0, aa_nosupport), (0x9a3, 0x13, 0, aa_nosupport), (0xfff, 0x00, 0, aa_end)]"

text \<open>The entry of a component, aa_end when there is none.\<close>

definition component_arch :: "u16 \<Rightarrow> u8 \<Rightarrow> u16 \<Rightarrow> arm_arch_e" where
  "component_arch part_number dev_type arch_id =
     (case find (\<lambda>(p, d, a, arch). arch = aa_end \<or> (p = part_number \<and> d = dev_type \<and> a = arch_id)) arm_component_lut of
        None \<Rightarrow> aa_end | Some (_, _, _, arch) \<Rightarrow> arch)"

definition pidr_designer :: "u64 \<Rightarrow> u16" where
  "pidr_designer pidr =
     (if bit pidr 19
      then (let designer = ucast (drop_bit 24 (pidr AND push_bit 32 0xf)) OR ucast (drop_bit 12 (pidr AND push_bit 12 0x7f))
            in if designer = JEP106_ERRATA_STM32WX \<or> designer = JEP106_ERRATA_CS then JEP106_MANUFACTURER_STM else designer)
      else ucast (drop_bit 12 (pidr AND push_bit 12 0x7f)) OR ASCII_CODE_FLAG)"

text \<open>cortexm_probe on the current access port. It takes a reference once the target is allocated, which
  joins the list.\<close>

definition probe_core ::
  "'d dp_ops \<Rightarrow> 'd semihosting \<Rightarrow> (flash_fns \<Rightarrow> 'd cortexm flash_ops) \<Rightarrow> (cm_probe \<Rightarrow> 'd probe_fn) \<Rightarrow> adiv5_access_port \<Rightarrow>
   'd discovery \<Rightarrow> 'd discovery option" where
  "probe_core dp sh fo drivers ap s =
     do { let s = (if fst (plat_malloc (d_env s)) then adiv5_ap_ref s else s);
          (r, env) \<leftarrow> cortexm_probe dp sh fo drivers (d_ids s) ap (d_env s);
          Some (case r of None \<Rightarrow> s\<lparr>d_env := env\<rparr> | Some tt \<Rightarrow> s\<lparr>d_env := env, d_targets := d_targets s @ [tt]\<rparr>) }"

definition probe_arch ::
  "('d discovery \<Rightarrow> 'd discovery option) \<Rightarrow> 'd ext \<Rightarrow> adiv5_access_port \<Rightarrow> u32 \<Rightarrow> arm_arch_e \<Rightarrow> 'd discovery \<Rightarrow> 'd discovery option" where
  "probe_arch prb ext ap addr arch s =
     (case arch of
        aa_cortexm \<Rightarrow> prb s
      | aa_cortexa \<Rightarrow> ext (E_cortexa addr) ap s
      | aa_cortexr \<Rightarrow> ext (E_cortexr addr) ap s
      | _ \<Rightarrow> Some s)"

text \<open>A component that is not a ROM table.\<close>

definition probe_component ::
  "'d dp_ops \<Rightarrow> ('d discovery \<Rightarrow> 'd discovery option) \<Rightarrow> 'd ext \<Rightarrow> adiv5_access_port \<Rightarrow> u32 \<Rightarrow> u32 \<Rightarrow> u64 \<Rightarrow>
   'd discovery \<Rightarrow> 'd discovery option" where
  "probe_component dp prb ext ap addr cid_class pidr s =
     (if pidr_designer pidr \<noteq> JEP106_MANUFACTURER_ARM \<and> pidr_designer pidr \<noteq> JEP106_ARM_CHINA then Some s
      else do {
        (dev_type, arch_id, s) \<leftarrow>
          (if cid_class = 9
           then do { (v, s) \<leftarrow> on_dp (adiv5_mem_read32 dp ap (addr + DEVTYPE_OFFSET)) s;
                     (devarch, s) \<leftarrow> on_dp (adiv5_mem_read32 dp ap (addr + DEVARCH_OFFSET)) s;
                     Some (ucast (v AND 0xff), if bit devarch 20 then ucast (devarch AND 0xffff) else 0, s) }
           else Some (0, 0, s));
        probe_arch prb ext ap addr (component_arch (ucast (pidr AND 0xfff)) dev_type arch_id) s })"

text \<open>The entries of a ROM table at addr; child starts the probe of an entry. At most 960 entries are
  read, n of them are left.\<close>

primrec rom_entries ::
  "'d dp_ops \<Rightarrow> (u32 \<Rightarrow> 'd discovery \<Rightarrow> 'd discovery option) \<Rightarrow> adiv5_access_port \<Rightarrow> u32 \<Rightarrow> nat \<Rightarrow> 'd discovery \<Rightarrow> 'd discovery option" where
  "rom_entries dp child ap addr 0 s = Some s"
| "rom_entries dp child ap addr (Suc n) s =
     do { (_, s) \<leftarrow> on_dp (dp_error dp False) s;
          (entry, s) \<leftarrow> on_dp (adiv5_mem_read32 dp ap (addr + of_nat (959 - n) * 4)) s;
          (err, s) \<leftarrow> on_dp (dp_error dp False) s;
          if err \<noteq> 0 then Some s
          else if entry = 0 then Some s
          else if \<not> bit entry 0 then rom_entries dp child ap addr n s
          else do { s \<leftarrow> child (addr + (entry AND 0xfffff000)) s; rom_entries dp child ap addr n s } }"

text \<open>A ROM table; the designer and part of the outermost one are those of the access port.\<close>

definition probe_rom_table ::
  "'d dp_ops \<Rightarrow> ('d discovery \<Rightarrow> 'd discovery option) \<Rightarrow> (u32 \<Rightarrow> 'd discovery \<Rightarrow> 'd discovery option) \<Rightarrow> adiv5_access_port \<Rightarrow>
   u32 \<Rightarrow> nat \<Rightarrow> u64 \<Rightarrow> 'd discovery \<Rightarrow> 'd discovery option" where
  "probe_rom_table dp prb child ap addr recursion pidr s =
     do { let s = (if recursion = 0
                   then s\<lparr>d_ids := (d_ids s)\<lparr>ap_designer := pidr_designer pidr, ap_partno := ucast (pidr AND 0xfff)\<rparr>\<rparr>
                   else s);
          (prot, s) \<leftarrow>
            (if recursion = 0 \<and> ap_designer (d_ids s) = JEP106_MANUFACTURER_ATMEL \<and> ap_partno (d_ids s) = 0xcd0
             then do { (v, s) \<leftarrow> on_dp (adiv5_mem_read32 dp ap SAMX5X_DSU_CTRLSTAT) s; Some (bit v 16, s) }
             else Some (False, s));
          if prot then prb s
          else do {
            (_, s) \<leftarrow> on_dp (adiv5_mem_read32 dp ap (addr OR 0xfcc)) s;
            (_, s) \<leftarrow> on_dp (dp_error dp False) s;
            rom_entries dp child ap addr 960 s } }"

primrec adiv5_component_probe ::
  "'d dp_ops \<Rightarrow> ('d discovery \<Rightarrow> 'd discovery option) \<Rightarrow> 'd ext \<Rightarrow> adiv5_access_port \<Rightarrow> nat \<Rightarrow> u32 \<Rightarrow> nat \<Rightarrow>
   'd discovery \<Rightarrow> 'd discovery option" where
  "adiv5_component_probe dp prb ext ap 0 addr recursion s = None"
| "adiv5_component_probe dp prb ext ap (Suc fuel) addr recursion s =
     (let addr = addr AND 0xfffff000
      in if addr = 0 then Some s
         else do {
           (cidr, s) \<leftarrow> on_dp (adiv5_ap_read_id dp ap (addr + CIDR0_OFFSET)) s;
           if dp_fault_of dp (cm_dp (d_env s)) \<noteq> 0 then Some s
           else do {
             (err, s) \<leftarrow> on_dp (dp_error dp False) s;
             if err \<noteq> 0 then Some s
             else if cidr AND NOT CID_CLASS_MASK \<noteq> CID_PREAMBLE then Some s
             else do {
               (pidr, s) \<leftarrow> on_dp (adiv5_ap_read_pidr dp ap addr) s;
               let cid_class = drop_bit 12 (cidr AND CID_CLASS_MASK);
               if cid_class = 1
               then probe_rom_table dp prb (\<lambda>a. adiv5_component_probe dp prb ext ap fuel a (recursion + 1)) ap addr recursion pidr s
               else probe_component dp prb ext ap addr cid_class pidr s } } })"

subsection \<open>The debug port\<close>

definition adiv5_dp_clear_sticky_errors :: "'d dp_ops \<Rightarrow> 'd discovery \<Rightarrow> 'd discovery option" where
  "adiv5_dp_clear_sticky_errors dp s =
     (if dp_version (d_ids s) \<noteq> 0 then on_dp_do (dp_abort dp 0x4) s
      else do { (_, s) \<leftarrow> on_dp (dp_error dp False) s; Some s })"

definition jep106_code :: "u16 \<Rightarrow> u16" where
  "jep106_code designer = push_bit 1 (designer AND 0x780) OR (designer AND 0x7f)"

text \<open>What DPIDR says of the port; an invalid value means version 0.\<close>

definition dpidr_ids :: "u32 \<Rightarrow> 'd discovery \<Rightarrow> 'd discovery" where
  "dpidr_ids dpidr s =
     (let version = unat (drop_bit 12 (dpidr AND 0xf000));
          designer = jep106_code (ucast (drop_bit 1 (dpidr AND 0xffe)));
          partno = ucast (drop_bit 20 (dpidr AND 0x0ff00000));
          quirks = ucast (drop_bit 16 dpidr) AND ADIV5_DP_QUIRK_MINDP
      in if designer \<noteq> 0 \<and> version > 0 \<and> bit dpidr 0
         then s\<lparr>d_ids := (d_ids s)\<lparr>dp_version := version, dp_designer := designer\<rparr>, d_partno := partno, d_quirks := quirks\<rparr>
         else s\<lparr>d_ids := (d_ids s)\<lparr>dp_version := 0, dp_designer := 0\<rparr>, d_partno := 0, d_quirks := 0\<rparr>)"

text \<open>TARGETID, on the second bank of the port. TARGETSEL is only used by the multi-drop scan.\<close>

definition dp_targetid :: "'d dp_ops \<Rightarrow> 'd discovery \<Rightarrow> 'd discovery option" where
  "dp_targetid dp s =
     do { s \<leftarrow> on_dp_do (adiv5_dp_write dp ADIV5_DP_SELECT 2) s;
          (targetid, s) \<leftarrow> on_dp (dp_read dp ADIV5_DP_CTRLSTAT) s;
          s \<leftarrow> on_dp_do (adiv5_dp_write dp ADIV5_DP_SELECT 0) s;
          Some (s\<lparr>d_ids := (d_ids s)\<lparr>dp_target_designer := jep106_code (ucast (drop_bit 1 (targetid AND 0xffe))),
                                     dp_target_partno := ucast (drop_bit 12 (targetid AND 0x0ffff000))\<rparr>\<rparr>) }"

fun power_down_wait :: "'d dp_ops \<Rightarrow> nat \<Rightarrow> 'd discovery \<Rightarrow> 'd discovery option" where
  "power_down_wait dp n s =
     do { (status, s) \<leftarrow> on_dp (dp_read dp ADIV5_DP_CTRLSTAT) s;
          let (e, s) = d_expired s;
          if e \<or> status AND PWRUP_ACK = 0 then Some s
          else (case n of 0 \<Rightarrow> None | Suc n \<Rightarrow> power_down_wait dp n s) }"

fun power_up_wait :: "'d dp_ops \<Rightarrow> nat \<Rightarrow> 'd discovery \<Rightarrow> (bool \<times> 'd discovery) option" where
  "power_up_wait dp n s =
     do { (status, s) \<leftarrow> on_dp (dp_read dp ADIV5_DP_CTRLSTAT) s;
          if status AND PWRUP_ACK = PWRUP_ACK then Some (True, s)
          else (let (e, s) = d_expired s
                in if e then Some (False, s) else (case n of 0 \<Rightarrow> None | Suc n \<Rightarrow> power_up_wait dp n s)) }"

declare power_down_wait.simps [simp del] power_up_wait.simps [simp del]

text \<open>The recovery access ports look at IDR first; these are their checks.\<close>

definition recovery_probes :: "(ext_probe \<times> (u32 \<Rightarrow> bool)) list" where
  "recovery_probes =
     [(E_kinetis_mdm, \<lambda>i. i = 0x1c0020 \<or> i = 0x1c0000), (E_nrf51_mdm, \<lambda>i. i = 0x02880000),
      (E_efm32_aap, \<lambda>i. i AND 0x0fffff0f = 0x06e60001), (E_lpc55_dmap, \<lambda>i. i = 0x002a0000)]"

fun run_recovery :: "'d ext \<Rightarrow> adiv5_access_port \<Rightarrow> (ext_probe \<times> (u32 \<Rightarrow> bool)) list \<Rightarrow> 'd discovery \<Rightarrow> 'd discovery option" where
  "run_recovery ext ap [] s = Some s"
| "run_recovery ext ap ((p, matches) # ps) s =
     do { s \<leftarrow> (if matches (idr ap) then ext p ap s else Some s); run_recovery ext ap ps s }"

text \<open>The cores of this access port are resumed. Within one port the number tells access ports apart.\<close>

fun resume_targets ::
  "adiv5_access_port \<Rightarrow> ('d cortexm target_ops \<times> 'd cortexm) list \<Rightarrow> 'd cortexm \<Rightarrow>
   (('d cortexm target_ops \<times> 'd cortexm) list \<times> 'd cortexm) option" where
  "resume_targets ap [] env = Some ([], env)"
| "resume_targets ap ((ops, t) # ts) env =
     (if apsel (cm_ap t) = apsel ap
      then do { t \<leftarrow> target_halt_resume ops False (put_env env t);
                (ts, env) \<leftarrow> resume_targets ap ts (put_env t env);
                Some ((ops, t) # ts, env) }
      else do { (ts, env) \<leftarrow> resume_targets ap ts env; Some ((ops, t) # ts, env) })"

text \<open>One access port: True tells to stop because the port repeats itself.\<close>

definition dp_probe_ap ::
  "'d dp_ops \<Rightarrow> ('d discovery \<Rightarrow> adiv5_access_port \<Rightarrow> 'd discovery option) \<Rightarrow> 'd ext \<Rightarrow> bool \<Rightarrow> nat \<Rightarrow> adiv5_access_port \<Rightarrow>
   'd discovery \<Rightarrow> (bool \<times> 'd discovery) option" where
  "dp_probe_ap dp prb ext connect_assert_nrst fuel ap s =
     do { s \<leftarrow> run_recovery ext ap recovery_probes s;
          (ap, s) \<leftarrow> (if apsel ap = 0 \<and> drop_bit 13 (idr ap AND 0x1e000) = 8 \<and> idr ap AND 0xf = 1
                       then do { (_, ap, s) \<leftarrow> cortexm_prepare dp connect_assert_nrst ap s; Some (ap, s) }
                       else Some (ap, s));
          s \<leftarrow> adiv5_component_probe dp (\<lambda>s. prb s ap) ext ap fuel (ap_base ap) 0 s;
          s \<leftarrow> (if connect_assert_nrst then Some s
                else do { (ts, env) \<leftarrow> resume_targets ap (d_targets s) (d_env s); Some (s\<lparr>d_targets := ts, d_env := env\<rparr>) });
          let s = adiv5_ap_unref s;
          Some (d_quirks s AND ADIV5_DP_QUIRK_DUPED_AP \<noteq> 0, s) }"

text \<open>The walk over the access ports. adiv5_new_ap calls malloc only for a port that answers; only then
  is an outcome of malloc used up.\<close>

fun dp_probe_aps ::
  "'d dp_ops \<Rightarrow> ('d discovery \<Rightarrow> adiv5_access_port \<Rightarrow> 'd discovery option) \<Rightarrow> 'd ext \<Rightarrow> bool \<Rightarrow> nat \<Rightarrow> nat list \<Rightarrow> nat \<Rightarrow>
   'd discovery \<Rightarrow> 'd discovery option" where
  "dp_probe_aps dp prb ext nrst fuel [] invalid_aps s = Some s"
| "dp_probe_aps dp prb ext nrst fuel (i # is) invalid_aps s =
     (if \<not> invalid_aps < 8 then Some s
      else do {
        let (heap, env) = plat_malloc (d_env s);
        let reached = (case adiv5_new_ap dp (of_nat i) True (cm_dp (d_env s)) of Some (Some _, _) \<Rightarrow> True | _ \<Rightarrow> False);
        (r, s) \<leftarrow> on_dp (adiv5_new_ap dp (of_nat i) heap) s;
        let s = (if reached then s\<lparr>d_env := (d_env s)\<lparr>plat_mallocs := plat_mallocs env\<rparr>\<rparr> else s);
        (case r of
           None \<Rightarrow>
             do { s \<leftarrow> adiv5_dp_clear_sticky_errors dp s;
                  if invalid_aps + 1 = 8 then Some s else dp_probe_aps dp prb ext nrst fuel is (invalid_aps + 1) s }
         | Some ap \<Rightarrow>
             do { let s = adiv5_ap_ref (s\<lparr>d_ap_refcnt := 0\<rparr>);
                  (stop, s) \<leftarrow> dp_probe_ap dp prb ext nrst fuel ap s;
                  if stop then Some s else dp_probe_aps dp prb ext nrst fuel is invalid_aps s }) })"

definition adiv5_dp_init ::
  "'d dp_ops \<Rightarrow> 'd semihosting \<Rightarrow> (flash_fns \<Rightarrow> 'd cortexm flash_ops) \<Rightarrow> (cm_probe \<Rightarrow> 'd probe_fn) \<Rightarrow> 'd ext \<Rightarrow> bool \<Rightarrow> nat \<Rightarrow>
   'd discovery \<Rightarrow> 'd discovery option" where
  "adiv5_dp_init dp sh fo drivers ext nrst fuel s =
     do { (dpidr, s) \<leftarrow> (if dp_designer (d_ids s) \<noteq> JEP106_MANUFACTURER_ARM \<or> d_partno s \<noteq> JTAG_IDCODE_PARTNO_DPv0
                          then do { (v, s) \<leftarrow> on_dp (dp_low_access dp ADIV5_LOW_READ ADIV5_DP_DPIDR 0) s; Some (Some v, s) }
                          else Some (None, s));
          if dpidr = Some 0 then Some (s\<lparr>d_dp_freed := True\<rparr>)
          else do {
            let s = (case dpidr of None \<Rightarrow> s | Some v \<Rightarrow> dpidr_ids v s);
            s \<leftarrow> adiv5_dp_clear_sticky_errors dp s;
            s \<leftarrow> (if dp_version (d_ids s) \<ge> 2 then dp_targetid dp s else Some s);
            if dp_designer (d_ids s) = JEP106_MANUFACTURER_RASPBERRY \<and> d_partno s = 2
            then (let (ok, s) = d_malloc s
                  in if ok then ext E_rp_rescue \<lparr>apsel = 0, idr = 0, ap_base = 0, csw = 0, ap_cortexm_demcr = 0\<rparr> s else Some s)
            else do {
              s \<leftarrow> on_dp_do (adiv5_dp_write dp ADIV5_DP_CTRLSTAT 0) s;
              s \<leftarrow> power_down_wait dp (length (plat_expired (d_env s))) s;
              s \<leftarrow> on_dp_do (adiv5_dp_write dp ADIV5_DP_CTRLSTAT PWRUP_REQ) s;
              (up, s) \<leftarrow> power_up_wait dp (length (plat_expired (d_env s))) s;
              if \<not> up then Some (s\<lparr>d_dp_freed := True\<rparr>)
              else do {
                s \<leftarrow> (if dp_target_designer (d_ids s) = JEP106_MANUFACTURER_NXP
                      then ext E_lpc55_dp_prepare \<lparr>apsel = 0, idr = 0, ap_base = 0, csw = 0, ap_cortexm_demcr = 0\<rparr> s else Some s);
                let s = s\<lparr>d_dp_refcnt := d_dp_refcnt s + 1\<rparr>;
                s \<leftarrow> dp_probe_aps dp (\<lambda>s ap. probe_core dp sh fo drivers ap s) ext nrst fuel [0..<256] 0 s;
                Some (adiv5_dp_unref s) } } } }"

end
