(* ===== verification/Emu_Scan.thy ===== *)
theory Emu_Scan
  imports Emu_Load Adiv5_Discover
begin

text \<open>
  The scan for the emulated target, emu_scan of src/target/emu_shim.c, carried through adiv5_dp_init: the
  port identifies itself and powers up, access port 0 answers and the other ones do not, the core is halted
  and prepared, the ROM table leads to the system control space, whose component starts the probe of the
  core, and the core is resumed. The lemmas follow the transactions: emu_disc says that only the debug port
  moved on and what its device is, calm that the device kept its memories.
\<close>

subsection \<open>Access to the emulated port\<close>

definition emu_disc :: "emu_shim discovery \<Rightarrow> emu_shim discovery \<Rightarrow> emu_target \<Rightarrow> bool" where
  "emu_disc s0 s m \<longleftrightarrow> (\<exists>d. s = s0\<lparr>d_env := (d_env s0)\<lparr>cm_dp := d\<rparr>\<rparr> \<and> shim_ok d \<and> tgt d = m)"

lemma emu_disc_refl: "shim_ok (cm_dp (d_env s)) \<Longrightarrow> emu_disc s s (tgt (cm_dp (d_env s)))"
  unfolding emu_disc_def by (intro exI [of _ "cm_dp (d_env s)"]) simp

lemma emu_disc_on:
  assumes "emu_disc s0 s m" "\<And>d. shim_ok d \<Longrightarrow> tgt d = m \<Longrightarrow> \<exists>d'. f d = Some (v, d') \<and> shim_ok d' \<and> tgt d' = m'"
  shows "\<exists>s'. on_dp f s = Some (v, s') \<and> emu_disc s0 s' m'"
proof -
  obtain d where d: "s = s0\<lparr>d_env := (d_env s0)\<lparr>cm_dp := d\<rparr>\<rparr>" "shim_ok d" "tgt d = m" using assms(1) by (auto simp: emu_disc_def)
  obtain d' where "f d = Some (v, d')" "shim_ok d'" "tgt d' = m'" using assms(2) [OF d(2,3)] by blast
  then show ?thesis using d(1) by (auto simp: on_dp_def emu_disc_def)
qed

lemma emu_disc_do:
  assumes "emu_disc s0 s m" "\<And>d. shim_ok d \<Longrightarrow> tgt d = m \<Longrightarrow> \<exists>d'. f d = Some d' \<and> shim_ok d' \<and> tgt d' = m'"
  shows "\<exists>s'. on_dp_do f s = Some s' \<and> emu_disc s0 s' m'"
proof -
  obtain d where d: "s = s0\<lparr>d_env := (d_env s0)\<lparr>cm_dp := d\<rparr>\<rparr>" "shim_ok d" "tgt d = m" using assms(1) by (auto simp: emu_disc_def)
  obtain d' where "f d = Some d'" "shim_ok d'" "tgt d' = m'" using assms(2) [OF d(2,3)] by blast
  then show ?thesis using d(1) by (auto simp: on_dp_do_def emu_disc_def)
qed

lemma disc_read32:
  assumes "emu_disc s0 s m" "mem_access a 4" "emu_target_load a 4 m = Some v"
  shows "\<exists>s'. on_dp (adiv5_mem_read32 emu_dp_ops emu_ap a) s = Some (v, s') \<and> emu_disc s0 s' m"
proof (rule emu_disc_on [OF assms(1)])
  fix d assume "shim_ok d" "tgt d = m"
  then show "\<exists>d'. adiv5_mem_read32 emu_dp_ops emu_ap a d = Some (v, d') \<and> shim_ok d' \<and> tgt d' = m"
    using emu_read_word [OF _ assms(2), of d v] assms(3) by (auto simp: adiv5_mem_read32_def)
qed

lemma disc_read_id:
  assumes "emu_disc s0 s m" "mem_access a 4" "emu_target_load a 4 m = Some v0" "emu_target_load (a + 4) 4 m = Some v1"
    "emu_target_load (a + 8) 4 m = Some v2" "emu_target_load (a + 12) 4 m = Some v3"
  shows "\<exists>s'. on_dp (adiv5_ap_read_id emu_dp_ops emu_ap a) s = Some (u32_of_bytes [ucast v0, ucast v1, ucast v2, ucast v3], s') \<and> emu_disc s0 s' m"
proof (rule emu_disc_on [OF assms(1)])
  fix d assume d: "shim_ok d" "tgt d = m"
  have al: "MIN_ALIGN a 16 = ALIGN_32BIT"
    using MIN_ALIGN_word [OF assms(2)] by (simp add: MIN_ALIGN_def ALIGN_OF_def split: if_splits)
  have i: "id_of_data (bytes_of_u32 v0 @ bytes_of_u32 v1 @ bytes_of_u32 v2 @ bytes_of_u32 v3) = u32_of_bytes [ucast v0, ucast v1, ucast v2, ucast v3]"
    by (rule bit_word_eqI) (auto simp: id_of_data_def bytes_of_u32_def upt_rec bit_simps)
  obtain d' where "advi5_mem_read_bytes emu_dp_ops emu_ap a 16 d = Some (bytes_of_u32 v0 @ bytes_of_u32 v1 @ bytes_of_u32 v2 @ bytes_of_u32 v3, d')"
    "shim_ok d'" "tgt d' = m"
    using emu_bus.block_read [OF d(1), of 16 ALIGN_32BIT a] assms(3-6) d(2)
    by (auto simp: al acc_size_def read_chunks_def word_bytes_def upt_rec)
  then show "\<exists>d'. adiv5_ap_read_id emu_dp_ops emu_ap a d = Some (u32_of_bytes [ucast v0, ucast v1, ucast v2, ucast v3], d') \<and> shim_ok d' \<and> tgt d' = m"
    by (simp add: adiv5_ap_read_id_def i)
qed

lemma disc_error:
  assumes "emu_disc s0 s m"
  shows "\<exists>s'. on_dp (dp_error emu_dp_ops False) s = Some (0, s') \<and> emu_disc s0 s' m"
  by (rule emu_disc_on [OF assms]) (auto simp: emu_shim_error_def shim_ok_def)

lemma disc_pidr:
  assumes at: "emu_disc s0 s m"
    and hi: "\<And>s. emu_disc s0 s m \<Longrightarrow> \<exists>s'. on_dp (adiv5_ap_read_id emu_dp_ops emu_ap (a + PIDR4_OFFSET)) s = Some (h, s') \<and> emu_disc s0 s' m"
    and lo: "\<And>s. emu_disc s0 s m \<Longrightarrow> \<exists>s'. on_dp (adiv5_ap_read_id emu_dp_ops emu_ap (a + PIDR0_OFFSET)) s = Some (l, s') \<and> emu_disc s0 s' m"
  shows "\<exists>s'. on_dp (adiv5_ap_read_pidr emu_dp_ops emu_ap a) s = Some (push_bit 32 (ucast h) OR ucast l, s') \<and> emu_disc s0 s' m"
proof -
  obtain s1 where s1: "on_dp (adiv5_ap_read_id emu_dp_ops emu_ap (a + PIDR4_OFFSET)) s = Some (h, s1)" "emu_disc s0 s1 m" using hi [OF at] by blast
  obtain s2 where s2: "on_dp (adiv5_ap_read_id emu_dp_ops emu_ap (a + PIDR0_OFFSET)) s1 = Some (l, s2)" "emu_disc s0 s2 m" using lo [OF s1(2)] by blast
  have "on_dp (adiv5_ap_read_pidr emu_dp_ops emu_ap a) s = Some (push_bit 32 (ucast h) OR ucast l, s2)"
    using s1(1) s2(1) by (auto simp: on_dp_def adiv5_ap_read_pidr_def bind_eq_Some_conv)
  then show ?thesis using s2(2) by blast
qed

lemma rom_access:
  assumes "off < 0x1000" "unat off mod 4 = 0"
  shows "emu_target_load (EMU_ROM_BASE + off) 4 m = Some (rom_read off)" "mem_access (EMU_ROM_BASE + off) 4"
proof -
  have u: "unat (EMU_ROM_BASE + off) = 3759140864 + unat off" using assms(1) by (simp add: unat_word_ariths word_less_nat_alt)
  then have n: "\<not> in_flash (EMU_ROM_BASE + off)" "\<not> in_sram (EMU_ROM_BASE + off)" "EMU_ROM_BASE + off \<noteq> 0xe0042000"
    "EMU_ROM_BASE \<le> EMU_ROM_BASE + off" "EMU_ROM_BASE + off < EMU_ROM_BASE + 0x1000"
    using assms(1) by (auto simp: in_flash_iff in_sram_iff word_le_nat_alt word_less_nat_alt word_unat_eq_iff)
  then show "emu_target_load (EMU_ROM_BASE + off) 4 m = Some (rom_read off)" by (auto simp: emu_target_load_eq)
  show "mem_access (EMU_ROM_BASE + off) 4" using assms(2) u by (simp add: mem_access_def) presburger
qed

subsection \<open>Identification of the components\<close>

definition quiet :: "emu_target \<Rightarrow> emu_target \<Rightarrow> bool" where
  "quiet m m' \<longleftrightarrow> g_flash_page m' = g_flash_page m \<and> g_sram m' = g_sram m \<and> g_flash_sr m' = g_flash_sr m \<and>
     g_flash_unlocked m' = g_flash_unlocked m \<and> g_mallocs m' = g_mallocs m"

lemma quiet_simps [simp]: "quiet m m" "quiet m (scs_write off v m') = quiet m m'"
  by (simp_all add: quiet_def scs_write_frame)

lemma rom_id:
  assumes "emu_disc s0 s m"
  shows "\<exists>s'. on_dp (adiv5_ap_read_id emu_dp_ops emu_ap (EMU_ROM_BASE + CIDR0_OFFSET)) s = Some (CIDR_ROMTABLE, s') \<and> emu_disc s0 s' m"
    "\<exists>s'. on_dp (adiv5_ap_read_pidr emu_dp_ops emu_ap EMU_ROM_BASE) s = Some (0x000A04C3, s') \<and> emu_disc s0 s' m"
proof -
  note r = rom_access(1) [of "0xff0" m] rom_access(1) [of "0xff4" m] rom_access(1) [of "0xff8" m] rom_access(1) [of "0xffc" m]
  note h = rom_access(1) [of "0xfd0" m] rom_access(1) [of "0xfd4" m] rom_access(1) [of "0xfd8" m] rom_access(1) [of "0xfdc" m]
  note l = rom_access(1) [of "0xfe0" m] rom_access(1) [of "0xfe4" m] rom_access(1) [of "0xfe8" m] rom_access(1) [of "0xfec" m]
  note ac = rom_access(2) [of "0xff0"] rom_access(2) [of "0xfd0"] rom_access(2) [of "0xfe0"]
  show "\<exists>s'. on_dp (adiv5_ap_read_id emu_dp_ops emu_ap (EMU_ROM_BASE + CIDR0_OFFSET)) s = Some (CIDR_ROMTABLE, s') \<and> emu_disc s0 s' m"
    using disc_read_id [OF assms ac(1) r(1)] r(2-4) by (simp add: rom_read_def id_word_def)
  have hi: "\<exists>s'. on_dp (adiv5_ap_read_id emu_dp_ops emu_ap (EMU_ROM_BASE + PIDR4_OFFSET)) s = Some (0, s') \<and> emu_disc s0 s' m"
    if "emu_disc s0 s m" for s
    using disc_read_id [OF that ac(2) h(1)] h(2-4) by (simp add: rom_read_def id_word_def)
  have lo: "\<exists>s'. on_dp (adiv5_ap_read_id emu_dp_ops emu_ap (EMU_ROM_BASE + PIDR0_OFFSET)) s = Some (0x000A04C3, s') \<and> emu_disc s0 s' m"
    if "emu_disc s0 s m" for s
    using disc_read_id [OF that ac(3) l(1)] l(2-4) by (simp add: rom_read_def id_word_def)
  show "\<exists>s'. on_dp (adiv5_ap_read_pidr emu_dp_ops emu_ap EMU_ROM_BASE) s = Some (0x000A04C3, s') \<and> emu_disc s0 s' m"
    using disc_pidr [OF assms hi lo] by simp
qed

lemma scs_id:
  assumes "emu_disc s0 s m"
  shows "\<exists>s'. on_dp (adiv5_ap_read_id emu_dp_ops emu_ap (EMU_SCS_BASE + CIDR0_OFFSET)) s = Some (CIDR_GIPC, s') \<and> emu_disc s0 s' m"
    "\<exists>s'. on_dp (adiv5_ap_read_pidr emu_dp_ops emu_ap EMU_SCS_BASE) s = Some (0x4000BB000, s') \<and> emu_disc s0 s' m"
proof -
  note r = scs_access(1) [of "0xff0" m] scs_access(1) [of "0xff4" m] scs_access(1) [of "0xff8" m] scs_access(1) [of "0xffc" m]
  note h = scs_access(1) [of "0xfd0" m] scs_access(1) [of "0xfd4" m] scs_access(1) [of "0xfd8" m] scs_access(1) [of "0xfdc" m]
  note l = scs_access(1) [of "0xfe0" m] scs_access(1) [of "0xfe4" m] scs_access(1) [of "0xfe8" m] scs_access(1) [of "0xfec" m]
  note ac = scs_access(3) [of "0xff0"] scs_access(3) [of "0xfd0"] scs_access(3) [of "0xfe0"]
  show "\<exists>s'. on_dp (adiv5_ap_read_id emu_dp_ops emu_ap (EMU_SCS_BASE + CIDR0_OFFSET)) s = Some (CIDR_GIPC, s') \<and> emu_disc s0 s' m"
    using disc_read_id [OF assms ac(1) r(1)] r(2-4) by (simp add: scs_read_def id_word_def)
  have hi: "\<exists>s'. on_dp (adiv5_ap_read_id emu_dp_ops emu_ap (EMU_SCS_BASE + PIDR4_OFFSET)) s = Some (4, s') \<and> emu_disc s0 s' m"
    if "emu_disc s0 s m" for s
    using disc_read_id [OF that ac(2) h(1)] h(2-4) by (simp add: scs_read_def id_word_def)
  have lo: "\<exists>s'. on_dp (adiv5_ap_read_id emu_dp_ops emu_ap (EMU_SCS_BASE + PIDR0_OFFSET)) s = Some (0x000BB000, s') \<and> emu_disc s0 s' m"
    if "emu_disc s0 s m" for s
    using disc_read_id [OF that ac(3) l(1)] l(2-4) by (simp add: scs_read_def id_word_def)
  show "\<exists>s'. on_dp (adiv5_ap_read_pidr emu_dp_ops emu_ap EMU_SCS_BASE) s = Some (0x4000BB000, s') \<and> emu_disc s0 s' m"
    using disc_pidr [OF assms hi lo] by simp
qed

lemma pidr_values:
  "pidr_designer 0x000A04C3 = 0x020" "ucast ((0x000A04C3 :: u64) AND 0xfff) = (0x4c3 :: u16)"
  "pidr_designer 0x4000BB000 = 0x43b" "ucast ((0x4000BB000 :: u64) AND 0xfff) = (0 :: u16)" "component_arch 0 0 0 = aa_cortexm"
  by (simp_all add: pidr_designer_def component_arch_def arm_component_lut_def Let_def bit_numeral_rec)

lemma emu_disc_fault: "emu_disc s0 s m \<Longrightarrow> dp_fault (cm_dp (d_env s)) = 0"
  by (auto simp: emu_disc_def shim_ok_def)

lemma scs_component:
  assumes "emu_disc s0 s m"
  shows "\<exists>s'. adiv5_component_probe emu_dp_ops prb ext emu_ap (Suc fuel) EMU_SCS_BASE r s = prb s' \<and> emu_disc s0 s' m"
proof -
  obtain s1 where s1: "on_dp (adiv5_ap_read_id emu_dp_ops emu_ap (EMU_SCS_BASE + CIDR0_OFFSET)) s = Some (CIDR_GIPC, s1)" "emu_disc s0 s1 m"
    using scs_id(1) [OF assms] by blast
  obtain s2 where s2: "on_dp (dp_error emu_dp_ops False) s1 = Some (0, s2)" "emu_disc s0 s2 m" using disc_error [OF s1(2)] by blast
  obtain s3 where s3: "on_dp (adiv5_ap_read_pidr emu_dp_ops emu_ap EMU_SCS_BASE) s2 = Some (0x4000BB000, s3)" "emu_disc s0 s3 m"
    using scs_id(2) [OF s2(2)] by blast
  have "adiv5_component_probe emu_dp_ops prb ext emu_ap (Suc fuel) EMU_SCS_BASE r s = prb s3"
    using s1(1) s2(1) s3(1) emu_disc_fault [OF s1(2)] pidr_values(3-5)
    by (simp add: probe_component_def probe_arch_def Let_def)
  with s3(2) show ?thesis by blast
qed

subsection \<open>The ROM table\<close>

definition rom_ids :: "emu_shim discovery \<Rightarrow> emu_shim discovery" where
  "rom_ids s = s\<lparr>d_ids := (d_ids s)\<lparr>ap_designer := 0x020, ap_partno := 0x4c3\<rparr>\<rparr>"

lemma emu_disc_rom_ids: "emu_disc s0 s m \<Longrightarrow> emu_disc (rom_ids s0) (rom_ids s) m"
proof -
  assume "emu_disc s0 s m"
  then obtain d where "s = s0\<lparr>d_env := (d_env s0)\<lparr>cm_dp := d\<rparr>\<rparr>" "shim_ok d" "tgt d = m" by (auto simp: emu_disc_def)
  then show ?thesis unfolding emu_disc_def rom_ids_def by (intro exI [of _ d]) (cases s0, simp)
qed

lemma rom_entry:
  assumes "emu_disc s0 s m" "n < 960" "off = of_nat (959 - n) * 4" "k = Suc n"
  shows "\<exists>s'. rom_entries emu_dp_ops child emu_ap EMU_ROM_BASE k s =
      (if rom_read off = 0 then Some s'
       else if \<not> bit (rom_read off) 0 then rom_entries emu_dp_ops child emu_ap EMU_ROM_BASE n s'
       else do { s \<leftarrow> child (EMU_ROM_BASE + (rom_read off AND 0xfffff000)) s'; rom_entries emu_dp_ops child emu_ap EMU_ROM_BASE n s }) \<and>
    emu_disc s0 s' m"
proof -
  have u: "unat off = (959 - n) * 4" unfolding assms(3) by (simp add: unat_word_ariths unat_of_nat del: of_nat_diff)
  have o: "off < 0x1000" "unat off mod 4 = 0" by (auto simp: word_less_nat_alt u)
  obtain s1 where s1: "on_dp (dp_error emu_dp_ops False) s = Some (0, s1)" "emu_disc s0 s1 m" using disc_error [OF assms(1)] by blast
  obtain s2 where s2: "on_dp (adiv5_mem_read32 emu_dp_ops emu_ap (EMU_ROM_BASE + off)) s1 = Some (rom_read off, s2)" "emu_disc s0 s2 m"
    using disc_read32 [OF s1(2) rom_access(2,1) [OF o]] by blast
  obtain s3 where s3: "on_dp (dp_error emu_dp_ops False) s2 = Some (0, s3)" "emu_disc s0 s3 m" using disc_error [OF s2(2)] by blast
  have "rom_entries emu_dp_ops child emu_ap EMU_ROM_BASE k s =
      (if rom_read off = 0 then Some s3
       else if \<not> bit (rom_read off) 0 then rom_entries emu_dp_ops child emu_ap EMU_ROM_BASE n s3
       else do { s \<leftarrow> child (EMU_ROM_BASE + (rom_read off AND 0xfffff000)) s3; rom_entries emu_dp_ops child emu_ap EMU_ROM_BASE n s })"
    unfolding assms(4) rom_entries.simps(2) assms(3) [symmetric] s1(1) bind.bind_lunit prod.case s2(1) s3(1) by simp
  with s3(2) show ?thesis by blast
qed

lemma rom_values: "rom_read 0 = 0xFFF0F003" "rom_read 4 = 0" "rom_read 0xfcc = 1"
  by (simp_all add: rom_read_def)

lemma rom_walk:
  assumes at: "emu_disc s0 s m"
    and child: "\<And>s'. emu_disc s0 s' m \<Longrightarrow> \<exists>s1. child EMU_SCS_BASE s' = Some s1 \<and> shim_ok (cm_dp (d_env s1))"
  shows "\<exists>s' s1 s2. child EMU_SCS_BASE s' = Some s1 \<and> emu_disc s0 s' m \<and>
    rom_entries emu_dp_ops child emu_ap EMU_ROM_BASE 960 s = Some s2 \<and> emu_disc s1 s2 (tgt (cm_dp (d_env s1)))"
proof -
  obtain s1 where s1: "rom_entries emu_dp_ops child emu_ap EMU_ROM_BASE 960 s =
      do { s \<leftarrow> child EMU_SCS_BASE s1; rom_entries emu_dp_ops child emu_ap EMU_ROM_BASE 959 s }" "emu_disc s0 s1 m"
  proof -
    have *: "(959::nat) < 960" "(0::u32) = of_nat (959 - 959) * 4" "960 = Suc 959" by simp_all
    have v: "rom_read 0 \<noteq> 0" "bit (rom_read 0) 0" "EMU_ROM_BASE + (rom_read 0 AND 0xfffff000) = EMU_SCS_BASE" by (simp_all add: rom_values)
    show ?thesis using rom_entry [OF at *, of child] that unfolding v(3) using v(1,2) by (simp only: if_False not_True_eq_False simp_thms) blast
  qed
  obtain s2 where s2: "child EMU_SCS_BASE s1 = Some s2" "shim_ok (cm_dp (d_env s2))" using child [OF s1(2)] by blast
  obtain s3 where "rom_entries emu_dp_ops child emu_ap EMU_ROM_BASE 959 s2 = Some s3" "emu_disc s2 s3 (tgt (cm_dp (d_env s2)))"
  proof -
    have *: "(958::nat) < 960" "(4::u32) = of_nat (959 - 958) * 4" "959 = Suc 958" by simp_all
    show ?thesis using rom_entry [OF emu_disc_refl [OF s2(2)] *, of child] that unfolding rom_values(2) by (simp only: if_True simp_thms) blast
  qed
  then show ?thesis using s1 s2 by auto
qed

lemma component_probe:
  assumes at: "emu_disc s0 s m"
    and prb: "\<And>s'. emu_disc (rom_ids s0) s' m \<Longrightarrow> \<exists>s1. prb s' = Some s1 \<and> shim_ok (cm_dp (d_env s1))"
  shows "\<exists>s' s1 s2. prb s' = Some s1 \<and> emu_disc (rom_ids s0) s' m \<and>
    adiv5_component_probe emu_dp_ops prb ext emu_ap (Suc (Suc fuel)) EMU_AP_BASE 0 s = Some s2 \<and> emu_disc s1 s2 (tgt (cm_dp (d_env s1)))"
proof -
  obtain s1 where s1: "on_dp (adiv5_ap_read_id emu_dp_ops emu_ap (EMU_ROM_BASE + CIDR0_OFFSET)) s = Some (CIDR_ROMTABLE, s1)" "emu_disc s0 s1 m"
    using rom_id(1) [OF at] by blast
  obtain s2 where s2: "on_dp (dp_error emu_dp_ops False) s1 = Some (0, s2)" "emu_disc s0 s2 m" using disc_error [OF s1(2)] by blast
  obtain s3 where s3: "on_dp (adiv5_ap_read_pidr emu_dp_ops emu_ap EMU_ROM_BASE) s2 = Some (0x000A04C3, s3)" "emu_disc s0 s3 m"
    using rom_id(2) [OF s2(2)] by blast
  note s3' = emu_disc_rom_ids [OF s3(2)]
  obtain s4 where s4: "on_dp (adiv5_mem_read32 emu_dp_ops emu_ap (EMU_ROM_BASE OR 0xfcc)) (rom_ids s3) = Some (1, s4)" "emu_disc (rom_ids s0) s4 m"
    using disc_read32 [OF s3' rom_access(2,1), of "0xfcc"] rom_values by auto
  obtain s5 where s5: "on_dp (dp_error emu_dp_ops False) s4 = Some (0, s5)" "emu_disc (rom_ids s0) s5 m" using disc_error [OF s4(2)] by blast
  define child where "child = (\<lambda>a. adiv5_component_probe emu_dp_ops prb ext emu_ap (Suc fuel) a (0 + 1))"
  have c: "\<exists>s''. child EMU_SCS_BASE s' = prb s'' \<and> emu_disc (rom_ids s0) s'' m" if "emu_disc (rom_ids s0) s' m" for s'
    unfolding child_def by (rule scs_component [OF that])
  then have cc: "\<exists>s1. child EMU_SCS_BASE s' = Some s1 \<and> shim_ok (cm_dp (d_env s1))" if "emu_disc (rom_ids s0) s' m" for s'
    using prb that by fastforce
  have "\<exists>s' s1 s2. child EMU_SCS_BASE s' = Some s1 \<and> emu_disc (rom_ids s0) s' m \<and>
    rom_entries emu_dp_ops child emu_ap EMU_ROM_BASE 960 s5 = Some s2 \<and> emu_disc s1 s2 (tgt (cm_dp (d_env s1)))"
    by (rule rom_walk [OF s5(2)]) (rule cc)
  then obtain s6 s8 s9 where s6: "child EMU_SCS_BASE s6 = Some s8" "emu_disc (rom_ids s0) s6 m"
    "rom_entries emu_dp_ops child emu_ap EMU_ROM_BASE 960 s5 = Some s9" "emu_disc s8 s9 (tgt (cm_dp (d_env s8)))" by (elim exE conjE) (rule that)
  obtain s7 where s7: "prb s7 = Some s8" "emu_disc (rom_ids s0) s7 m" using c [OF s6(2)] s6(1) by auto
  have tbl: "probe_rom_table emu_dp_ops prb child emu_ap EMU_ROM_BASE 0 0x000A04C3 s3 = Some s9"
    unfolding probe_rom_table_def pidr_values Let_def using s4(1) s5(1) s6(3)
    by (simp add: rom_ids_def [symmetric]) (simp add: rom_ids_def)
  have "adiv5_component_probe emu_dp_ops prb ext emu_ap (Suc (Suc fuel)) EMU_AP_BASE 0 s = Some s9"
    unfolding adiv5_component_probe.simps(2) [of _ _ _ _ "Suc fuel"] child_def [symmetric]
    using s1(1) s2(1) s3(1) emu_disc_fault [OF s1(2)] tbl by (simp add: Let_def)
  with s7 s6(4) show ?thesis by blast
qed

subsection \<open>Halting the core\<close>

text \<open>Only the debug port, the timers and the reset line of the environment change, and the device keeps
  its memories.\<close>

definition calm :: "emu_shim discovery \<Rightarrow> emu_shim discovery \<Rightarrow> bool" where
  "calm s s' \<longleftrightarrow> (\<exists>d y n. s' = s\<lparr>d_env := (d_env s)\<lparr>plat_nrst := n, plat_expired := y, cm_dp := d\<rparr>\<rparr> \<and> shim_ok d \<and>
     quiet (tgt (cm_dp (d_env s))) (tgt d) \<and> (n \<longrightarrow> plat_nrst (d_env s)))"

lemma quiet_trans: "quiet a b \<Longrightarrow> quiet b c \<Longrightarrow> quiet a c"
  by (simp add: quiet_def)

lemma calmI:
  assumes "s' = s\<lparr>d_env := (d_env s)\<lparr>plat_nrst := n, plat_expired := y, cm_dp := d\<rparr>\<rparr>" "shim_ok d"
    "quiet (tgt (cm_dp (d_env s))) (tgt d)" "n \<longrightarrow> plat_nrst (d_env s)"
  shows "calm s s'"
  using assms unfolding calm_def by blast

lemma calm_trans:
  assumes "calm s1 s2" "calm s2 s3"
  shows "calm s1 s3"
proof -
  obtain d y n where 1: "s2 = s1\<lparr>d_env := (d_env s1)\<lparr>plat_nrst := n, plat_expired := y, cm_dp := d\<rparr>\<rparr>" "shim_ok d"
     "quiet (tgt (cm_dp (d_env s1))) (tgt d)" "n \<longrightarrow> plat_nrst (d_env s1)" using assms(1) by (auto simp: calm_def)
  obtain d' y' n' where 2: "s3 = s2\<lparr>d_env := (d_env s2)\<lparr>plat_nrst := n', plat_expired := y', cm_dp := d'\<rparr>\<rparr>" "shim_ok d'"
     "quiet (tgt (cm_dp (d_env s2))) (tgt d')" "n' \<longrightarrow> plat_nrst (d_env s2)" using assms(2) by (auto simp: calm_def)
  show ?thesis by (rule calmI [where n = n' and y = y' and d = d']) (use 1 2 in \<open>auto intro: quiet_trans\<close>)
qed

lemma calm_refl: "shim_ok (cm_dp (d_env s)) \<Longrightarrow> calm s s"
  by (rule calmI [where n = "plat_nrst (d_env s)" and y = "plat_expired (d_env s)" and d = "cm_dp (d_env s)"]) auto

lemma disc_calm:
  assumes "emu_disc s s' m" "quiet (tgt (cm_dp (d_env s))) m"
  shows "calm s s'"
proof -
  obtain d where "s' = s\<lparr>d_env := (d_env s)\<lparr>cm_dp := d\<rparr>\<rparr>" "shim_ok d" "tgt d = m" using assms(1) by (auto simp: emu_disc_def)
  then show ?thesis
    by (intro calmI [where n = "plat_nrst (d_env s)" and y = "plat_expired (d_env s)" and d = d]) (use assms(2) in auto)
qed

lemma calm_expired: "shim_ok (cm_dp (d_env s)) \<Longrightarrow> calm s (snd (d_expired s))"
  by (cases "plat_expired (d_env s)")
    (auto simp: d_expired_def platform_timeout_is_expired_def calm_refl intro: calmI [where n = "plat_nrst (d_env s)" and d = "cm_dp (d_env s)"])

text \<open>The transport while the core is halted: word accesses to DHCSR without increment.\<close>

definition halting :: "emu_shim \<Rightarrow> bool" where
  "halting d \<longleftrightarrow> shim_sel d \<and> g_csw d AND ADIV5_AP_CSW_SIZE_MASK = ADIV5_AP_CSW_SIZE_WORD \<and>
     g_csw d AND ADIV5_AP_CSW_ADDRINC_MASK = 0 \<and> g_tar d = CORTEXM_DHCSR"

lemma halting_ops:
  assumes "halting d"
  shows "\<exists>d'. emu_shim_low_access ADIV5_LOW_WRITE ADIV5_DP_CTRLSTAT v d = Some (0, d') \<and> halting d' \<and> tgt d' = tgt d"
    "\<exists>d'. emu_shim_low_access ADIV5_LOW_WRITE ADIV5_AP_DRW v d = Some (0, d') \<and> halting d' \<and> tgt d' = scs_write 0xdf0 v (tgt d)"
    "\<exists>x d'. emu_shim_low_access ADIV5_LOW_READ ADIV5_AP_DRW 0 d = Some (x, d') \<and> halting d' \<and> tgt d' = tgt d"
    "\<exists>x d'. emu_shim_low_access ADIV5_LOW_READ ADIV5_DP_RDBUFF 0 d = Some (x, d') \<and> halting d' \<and> tgt d' = tgt d"
proof -
  note sc = scs_access [of "0xdf0", simplified]
  have sz: "csw_access_size d = 4" "\<not> csw_autoinc d" using assms by (simp_all add: halting_def csw_access_size_def csw_autoinc_def)
  have ls: "lane_shift 0xe000edf0 4 = 0" by (simp add: lane_shift_def)
  have mk: "v AND size_mask 4 = v" by (simp add: size_mask_def)
  show "\<exists>d'. emu_shim_low_access ADIV5_LOW_WRITE ADIV5_DP_CTRLSTAT v d = Some (0, d') \<and> halting d' \<and> tgt d' = tgt d"
    "\<exists>x d'. emu_shim_low_access ADIV5_LOW_READ ADIV5_DP_RDBUFF 0 d = Some (x, d') \<and> halting d' \<and> tgt d' = tgt d"
    using assms by (simp_all add: emu_shim_low_access_def halting_def shim_sel_def shim_ok_def)
  show "\<exists>d'. emu_shim_low_access ADIV5_LOW_WRITE ADIV5_AP_DRW v d = Some (0, d') \<and> halting d' \<and> tgt d' = scs_write 0xdf0 v (tgt d)"
    "\<exists>x d'. emu_shim_low_access ADIV5_LOW_READ ADIV5_AP_DRW 0 d = Some (x, d') \<and> halting d' \<and> tgt d' = tgt d"
    using assms sz ls mk
    by (simp_all add: sc(1,2) emu_shim_low_access_def ap_reg_write_def ap_reg_read_def halting_def shim_sel_def shim_ok_def Let_def tar_autoinc_def
        csw_access_size_def csw_autoinc_def)
qed

definition halting_at :: "emu_shim discovery \<Rightarrow> emu_shim discovery \<Rightarrow> bool" where
  "halting_at s s' \<longleftrightarrow> calm s s' \<and> halting (cm_dp (d_env s')) \<and> g_demcr (tgt (cm_dp (d_env s'))) = g_demcr (tgt (cm_dp (d_env s)))"

lemma halting_at_shim: "halting_at s s' \<Longrightarrow> shim_ok (cm_dp (d_env s'))"
  by (simp add: halting_at_def halting_def shim_sel_def)

lemma halting_at_trans:
  assumes "halting_at s s1" "calm s1 s2" "halting (cm_dp (d_env s2))" "g_demcr (tgt (cm_dp (d_env s2))) = g_demcr (tgt (cm_dp (d_env s1)))"
  shows "halting_at s s2"
  using assms calm_trans by (auto simp: halting_at_def)

lemma halting_step:
  assumes "halting_at s s1" "halting (cm_dp (d_env s1)) \<Longrightarrow> \<exists>x d'. f (cm_dp (d_env s1)) = Some (x, d') \<and> halting d' \<and> tgt d' = m'"
    "quiet (tgt (cm_dp (d_env s1))) m'" "g_demcr m' = g_demcr (tgt (cm_dp (d_env s1)))"
  shows "\<exists>x s2. on_dp f s1 = Some (x, s2) \<and> halting_at s s2"
proof -
  obtain x d' where d: "f (cm_dp (d_env s1)) = Some (x, d')" "halting d'" "tgt d' = m'"
    using assms(1,2) by (auto simp: halting_at_def)
  let ?s2 = "s1\<lparr>d_env := (d_env s1)\<lparr>cm_dp := d'\<rparr>\<rparr>"
  have "calm s1 ?s2" by (rule calmI [where n = "plat_nrst (d_env s1)" and y = "plat_expired (d_env s1)" and d = d'])
    (use d assms(3) in \<open>auto simp: halting_def shim_sel_def\<close>)
  then have "halting_at s ?s2" using assms(1,4) d by (intro halting_at_trans [OF assms(1)]) simp_all
  then show ?thesis using d(1) by (simp add: on_dp_def)
qed

lemma halting_low:
  assumes "halting_at s s1"
  shows "\<exists>x s2. on_dp (emu_shim_low_access ADIV5_LOW_WRITE ADIV5_DP_CTRLSTAT v) s1 = Some (x, s2) \<and> halting_at s s2"
    "\<exists>x s2. on_dp (emu_shim_low_access ADIV5_LOW_WRITE ADIV5_AP_DRW v) s1 = Some (x, s2) \<and> halting_at s s2"
    "\<exists>x s2. on_dp (emu_shim_low_access ADIV5_LOW_READ ADIV5_AP_DRW 0) s1 = Some (x, s2) \<and> halting_at s s2"
    "\<exists>x s2. on_dp (emu_shim_low_access ADIV5_LOW_READ ADIV5_DP_RDBUFF 0) s1 = Some (x, s2) \<and> halting_at s s2"
proof -
  let ?m = "tgt (cm_dp (d_env s1))"
  show "\<exists>x s2. on_dp (emu_shim_low_access ADIV5_LOW_WRITE ADIV5_DP_CTRLSTAT v) s1 = Some (x, s2) \<and> halting_at s s2"
    by (rule halting_step [OF assms, where m' = ?m]) (drule halting_ops(1) [of _ v], use quiet_simps in auto)
  show "\<exists>x s2. on_dp (emu_shim_low_access ADIV5_LOW_WRITE ADIV5_AP_DRW v) s1 = Some (x, s2) \<and> halting_at s s2"
    by (rule halting_step [OF assms, where m' = "scs_write 0xdf0 v ?m"]) (drule halting_ops(2) [of _ v], blast, simp_all add: scs_write_def quiet_def)
  show "\<exists>x s2. on_dp (emu_shim_low_access ADIV5_LOW_READ ADIV5_AP_DRW 0) s1 = Some (x, s2) \<and> halting_at s s2"
    by (rule halting_step [OF assms, where m' = ?m]) (drule halting_ops(3), use quiet_simps in auto)
  show "\<exists>x s2. on_dp (emu_shim_low_access ADIV5_LOW_READ ADIV5_DP_RDBUFF 0) s1 = Some (x, s2) \<and> halting_at s s2"
    by (rule halting_step [OF assms, where m' = ?m]) (drule halting_ops(4), use quiet_simps in auto)
qed

lemma initial_halt_ok:
  assumes "halting_at s s1" "length (plat_expired (d_env s1)) \<le> n"
  shows "\<exists>v s2. initial_halt_loop emu_dp_ops nrst cs n seen s1 = Some (v, s2) \<and> halting_at s s2"
  using assms
proof (induction n arbitrary: s1 seen)
  case 0
  then show ?case by (subst initial_halt_loop.simps) (simp add: d_expired_def platform_timeout_is_expired_def)
next
  case (Suc n)
  obtain e s2 where s2: "d_expired s1 = (e, s2)" by fastforce
  have h2: "halting_at s s2"
    using Suc.prems(1) calm_expired [OF halting_at_shim [OF Suc.prems(1)]] s2
    by (intro halting_at_trans [OF Suc.prems(1)])
      (auto simp: halting_at_def d_expired_def platform_timeout_is_expired_def split: list.splits)
  show ?case
  proof (cases e)
    case True
    then show ?thesis using h2 by (subst initial_halt_loop.simps) (simp add: s2)
  next
    case False
    then have l2: "length (plat_expired (d_env s2)) \<le> n"
      using Suc.prems(2) s2 by (auto simp: d_expired_def platform_timeout_is_expired_def split: list.splits)
    have keep: "length (plat_expired (d_env s')) = length (plat_expired (d_env s''))" "d_quirks s' = d_quirks s''"
      if "on_dp f s'' = Some (x, s')" for f x s' s''
      using that by (auto simp: on_dp_def bind_eq_Some_conv)
    obtain s3 where s3: "(if d_quirks s2 AND ADIV5_DP_QUIRK_MINDP = 0
          then do { (_, s) \<leftarrow> on_dp (emu_shim_low_access ADIV5_LOW_WRITE ADIV5_DP_CTRLSTAT (cs OR push_bit 12 0xfff)) s2; Some s }
          else Some s2) = Some s3" "halting_at s s3" "length (plat_expired (d_env s3)) \<le> n"
      using halting_low(1) [OF h2, of "cs OR push_bit 12 0xfff"] h2 l2 keep(1) by (fastforce split: if_splits)
    obtain x4 s4 where s4: "on_dp (emu_shim_low_access ADIV5_LOW_WRITE ADIV5_AP_DRW
         (CORTEXM_DHCSR_DBGKEY OR CORTEXM_DHCSR_C_DEBUGEN OR CORTEXM_DHCSR_C_HALT)) s3 = Some (x4, s4)" "halting_at s s4"
      using halting_low(2) [OF s3(2)] by blast
    obtain x5 s5 where s5: "on_dp (emu_shim_low_access ADIV5_LOW_READ ADIV5_AP_DRW 0) s4 = Some (x5, s5)" "halting_at s s5"
      using halting_low(3) [OF s4(2)] by blast
    obtain x6 s6 where s6: "(if d_quirks s5 AND ADIV5_DP_QUIRK_MINDP \<noteq> 0
          then on_dp (emu_shim_low_access ADIV5_LOW_READ ADIV5_DP_RDBUFF 0) s5 else Some (x5, s5)) = Some (x6, s6)" "halting_at s s6"
      "length (plat_expired (d_env s6)) \<le> n"
    proof (cases "d_quirks s5 AND ADIV5_DP_QUIRK_MINDP = 0")
      case True
      then show ?thesis using that [of x5 s5] s5(2) s3(3) keep(1) [OF s5(1)] keep(1) [OF s4(1)] by simp
    next
      case False
      obtain x s' where "on_dp (emu_shim_low_access ADIV5_LOW_READ ADIV5_DP_RDBUFF 0) s5 = Some (x, s')" "halting_at s s'"
        using halting_low(4) [OF s5(2)] by blast
      then show ?thesis using False that [of x s'] s3(3) keep(1) [OF s5(1)] keep(1) [OF s4(1)] keep(1) by force
    qed
    have "initial_halt_loop emu_dp_ops nrst cs (Suc n) seen s1 =
      (if x6 = 0xffffffff \<or> x6 AND 0xf000fff0 \<noteq> 0 then initial_halt_loop emu_dp_ops nrst cs n seen s6
       else if x6 AND CORTEXM_DHCSR_S_RESET_ST \<noteq> 0 \<and> \<not> seen
       then (if nrst then Some (x6, s6) else initial_halt_loop emu_dp_ops nrst cs n True s6)
       else if x6 AND (CORTEXM_DHCSR_S_HALT OR CORTEXM_DHCSR_C_DEBUGEN) = (CORTEXM_DHCSR_S_HALT OR CORTEXM_DHCSR_C_DEBUGEN)
       then Some (x6, s6)
       else initial_halt_loop emu_dp_ops nrst cs n seen s6)"
      by (subst initial_halt_loop.simps)
        (simp only: s2 False Let_def prod.case if_False nat.case emu_dp_ops_sel s3(1) bind.bind_lunit s4(1) s5(1) s6(1))
    then show ?thesis using Suc.IH [OF s6(2,3)] s6(2) by auto
  qed
qed

subsection \<open>Preparing the core\<close>

lemma halt_setup:
  assumes "shim_ok d"
  shows "\<exists>x d'. emu_shim_dp_read ADIV5_DP_CTRLSTAT d = Some (x, d') \<and> d' = d"
    "\<exists>d'. firmware_ap_write emu_dp_ops emu_ap ADIV5_AP_CSW (csw emu_ap OR ADIV5_AP_CSW_SIZE_WORD) d = Some d' \<and> shim_sel d' \<and>
       g_csw d' = csw emu_ap OR ADIV5_AP_CSW_SIZE_WORD \<and> tgt d' = tgt d"
  using assms emu_select_word [of ADIV5_AP_CSW]
  by (simp_all add: emu_shim_dp_read_def emu_shim_low_access_def firmware_ap_write_def adiv5_dp_recoverable_access_def
      adiv5_dp_write_def ap_reg_write_def shim_ok_def shim_sel_def)

lemma emu_initial_halt:
  assumes "shim_ok (cm_dp (d_env s))"
  shows "\<exists>v s'. cortexm_initial_halt emu_dp_ops nrst emu_ap s = Some (v, s') \<and> halting_at s s'"
proof -
  let ?d = "cm_dp (d_env s)"
  obtain x where x: "emu_shim_dp_read ADIV5_DP_CTRLSTAT ?d = Some (x, ?d)" using halt_setup(1) [OF assms] by blast
  obtain d2 where d2: "firmware_ap_write emu_dp_ops emu_ap ADIV5_AP_CSW (csw emu_ap OR ADIV5_AP_CSW_SIZE_WORD) ?d = Some d2" "shim_sel d2"
    "g_csw d2 = csw emu_ap OR ADIV5_AP_CSW_SIZE_WORD" "tgt d2 = tgt ?d" using halt_setup(2) [OF assms] by blast
  define d3 where "d3 = d2\<lparr>g_tar := CORTEXM_DHCSR\<rparr>"
  have d3: "emu_shim_low_access ADIV5_LOW_WRITE ADIV5_AP_TAR CORTEXM_DHCSR d2 = Some (0, d3)"
    by (simp add: emu_shim_low_access_def ap_reg_write_def d3_def)
  have h3: "halting d3" "tgt d3 = tgt ?d" using d2 by (simp_all add: halting_def d3_def shim_sel_def shim_ok_def emu_ap_def)
  let ?s3 = "s\<lparr>d_env := (d_env s)\<lparr>cm_dp := d3\<rparr>\<rparr>"
  have "calm s ?s3" by (rule calmI [where n = "plat_nrst (d_env s)" and y = "plat_expired (d_env s)" and d = d3])
    (use h3 in \<open>auto simp: halting_def shim_sel_def\<close>)
  then have a3: "halting_at s ?s3" using h3 by (simp add: halting_at_def)
  obtain x4 s4 where s4: "on_dp (emu_shim_low_access ADIV5_LOW_WRITE ADIV5_AP_DRW (CORTEXM_DHCSR_DBGKEY OR CORTEXM_DHCSR_C_DEBUGEN)) ?s3 = Some (x4, s4)"
    "halting_at s s4" using halting_low(2) [OF a3] by blast
  obtain x5 s5 where s5: "on_dp (emu_shim_low_access ADIV5_LOW_READ ADIV5_DP_RDBUFF 0) s4 = Some (x5, s5)" "halting_at s s5"
    using halting_low(4) [OF s4(2)] by blast
  have rd: "emu_shim_dp_read ADIV5_DP_RDBUFF = emu_shim_low_access ADIV5_LOW_READ ADIV5_DP_RDBUFF 0"
    by (simp add: fun_eq_iff emu_shim_dp_read_def)
  obtain v s6 where s6: "initial_halt_loop emu_dp_ops nrst x (length (plat_expired (d_env s5))) False s5 = Some (v, s6)" "halting_at s s6"
    using initial_halt_ok [OF s5(2) order_refl] by blast
  have c1: "on_dp (emu_shim_dp_read ADIV5_DP_CTRLSTAT) s = Some (x, s)" using x by (simp add: on_dp_def)
  have c2: "on_dp_do (firmware_ap_write emu_dp_ops emu_ap ADIV5_AP_CSW (csw emu_ap OR ADIV5_AP_CSW_SIZE_WORD)) s = Some (s\<lparr>d_env := (d_env s)\<lparr>cm_dp := d2\<rparr>\<rparr>)"
    using d2(1) by (simp add: on_dp_do_def)
  have c3: "on_dp (emu_shim_low_access ADIV5_LOW_WRITE ADIV5_AP_TAR CORTEXM_DHCSR) (s\<lparr>d_env := (d_env s)\<lparr>cm_dp := d2\<rparr>\<rparr>) = Some (0, ?s3)"
    using d3 by (simp add: on_dp_def)
  have "cortexm_initial_halt emu_dp_ops nrst emu_ap s = Some (v, s6)"
    unfolding cortexm_initial_halt_def emu_dp_ops_sel c1 bind.bind_lunit prod.case c2 c3 s4(1) rd s5(1) s6(1) by (rule refl)
  with s6(2) show ?thesis by blast
qed

lemma calm_shim: "calm s s' \<Longrightarrow> shim_ok (cm_dp (d_env s'))"
  by (auto simp: calm_def)

lemma calm_disc:
  assumes "calm s s1" "emu_disc s1 s2 m" "quiet (tgt (cm_dp (d_env s1))) m"
  shows "calm s s2"
  using calm_trans [OF assms(1) disc_calm [OF assms(2,3)]] .

lemma emu_prepare:
  assumes "shim_ok (cm_dp (d_env s))" "g_demcr (tgt (cm_dp (d_env s))) = 0"
  shows "\<exists>b s'. cortexm_prepare emu_dp_ops nrst emu_ap s = Some (b, emu_ap, s') \<and> calm s s'"
proof -
  note dh = scs_access [of "0xdf0", simplified] and de = scs_access [of "0xdfc", simplified]
  obtain v s1 where s1: "cortexm_initial_halt emu_dp_ops nrst emu_ap s = Some (v, s1)" "halting_at s s1"
    using emu_initial_halt [OF assms(1)] by blast
  have k1: "calm s s1" "shim_ok (cm_dp (d_env s1))" "g_demcr (tgt (cm_dp (d_env s1))) = 0"
    using s1(2) assms(2) halting_at_shim by (auto simp: halting_at_def)
  let ?m = "tgt (cm_dp (d_env s1))"
  show ?thesis
  proof (cases "v = 0")
    case True
    obtain s2 where "on_dp (adiv5_mem_read32 emu_dp_ops emu_ap CORTEXM_DHCSR) s1 = Some (scs_read 0xdf0 ?m, s2)" "emu_disc s1 s2 ?m"
      using disc_read32 [OF emu_disc_refl [OF k1(2)] dh(3,1)] by blast
    then show ?thesis using s1(1) True calm_disc [OF k1(1)] by (auto simp: cortexm_prepare_def)
  next
    case False
    obtain s2 where s2: "on_dp_do (\<lambda>d. Some (dp_fault_set emu_dp_ops 0 d)) s1 = Some s2" "emu_disc s1 s2 ?m"
      using emu_disc_do [OF emu_disc_refl [OF k1(2)], of "\<lambda>d. Some (dp_fault_set emu_dp_ops 0 d)" ?m] by (auto simp: shim_ok_def)
    obtain s3 where s3: "on_dp (adiv5_mem_read32 emu_dp_ops emu_ap CORTEXM_DEMCR) s2 = Some (0, s3)" "emu_disc s1 s3 ?m"
      using disc_read32 [OF s2(2) de(3,1)] k1(3) by (auto simp: scs_read_def)
    have ap: "emu_ap\<lparr>ap_cortexm_demcr := 0\<rparr> = emu_ap" by (simp add: emu_ap_def)
    let ?m4 = "scs_write 0xdfc 0x01000401 ?m"
    have w4: "\<exists>d'. adiv5_mem_write emu_dp_ops emu_ap CORTEXM_DEMCR (bytes_of_u32 0x01000401) 4 d = Some d' \<and> shim_ok d' \<and> tgt d' = ?m4"
      if "shim_ok d" "tgt d = ?m" for d
      using emu_write_word [OF that(1) de(3,2)] that(2) by simp
    obtain s4 where s4: "on_dp_do (adiv5_mem_write emu_dp_ops emu_ap CORTEXM_DEMCR (bytes_of_u32 0x01000401) 4) s3 = Some s4" "emu_disc s1 s4 ?m4"
      using emu_disc_do [OF s3(2), of "adiv5_mem_write emu_dp_ops emu_ap CORTEXM_DEMCR (bytes_of_u32 0x01000401) 4" ?m4, OF w4] by blast
    have k4: "calm s s4" using calm_disc [OF k1(1) s4(2)] by simp
    let ?s5 = "s4\<lparr>d_env := (d_env s4)\<lparr>plat_nrst := False\<rparr>\<rparr>"
    have "calm s4 ?s5"
      by (rule calmI [where n = False and y = "plat_expired (d_env s4)" and d = "cm_dp (d_env s4)"]) (use calm_shim [OF k4] in auto)
    then have k5: "calm s ?s5" by (rule calm_trans [OF k4])
    obtain s6 where s6: "on_dp (adiv5_mem_read32 emu_dp_ops emu_ap CORTEXM_DHCSR) ?s5 = Some (0x00030003, s6)" "emu_disc ?s5 s6 (tgt (cm_dp (d_env ?s5)))"
      using disc_read32 [OF emu_disc_refl [OF calm_shim [OF k5]] dh(3,1)] by (auto simp: scs_read_def)
    have "prepare_wait emu_dp_ops emu_ap (length (plat_expired (d_env ?s5))) ?s5 = Some (True, s6)"
      by (subst prepare_wait.simps) (simp add: s6(1))
    then have "cortexm_prepare emu_dp_ops nrst emu_ap s = Some (True, emu_ap, s6)"
      using s1(1) False s2(1) s3(1) s4(1) by (simp add: cortexm_prepare_def ap Let_def)
    moreover have "calm s s6" by (rule calm_disc [OF k5 s6(2)]) simp
    ultimately show ?thesis by blast
  qed
qed

subsection \<open>The core behind access port 0\<close>

definition found :: "emu_target \<Rightarrow> emu_shim cortexm \<Rightarrow> bool" where
  "found m t \<longleftrightarrow> emu_ready t \<and> t_flash t = [emu_region] \<and> t_ram t = [\<lparr>ram_start = EMU_SRAM_BASE, ram_length = EMU_SRAM_SIZE\<rparr>] \<and>
     driver t = ''STM32F1 medium density'' \<and> core t = Some ''M3'' \<and> part_id t = 0x410 \<and> regs_size t = 80 \<and> plat_mallocs t = [] \<and>
     quiet m (tgt (cm_dp t))"

definition dpv1_ids :: "probe_ids \<Rightarrow> bool" where
  "dpv1_ids ids \<longleftrightarrow> dp_version ids = 1 \<and> dp_designer ids = JEP106_MANUFACTURER_ARM"

lemma emu_probe_core:
  assumes "emu_disc (rom_ids s0) s m" "dpv1_ids (d_ids s0)" "plat_mallocs (d_env s0) = []" "\<not> plat_nrst (d_env s0)" "fpec_ok m" "no_oom m"
  shows "\<exists>t. probe_core emu_dp_ops sh (stm32f1_fns emu_dp_ops) (driver_table other) emu_ap s =
      Some ((adiv5_ap_ref s)\<lparr>d_env := t, d_targets := d_targets s0 @ [(emu_ops sh, t)]\<rparr>) \<and>
    found m t \<and> \<not> stepping t \<and> \<not> on_bkpt t \<and> icache_line_length t = 0"
proof -
  obtain d where s: "s = (rom_ids s0)\<lparr>d_env := (d_env s0)\<lparr>cm_dp := d\<rparr>\<rparr>" "shim_ok d" "tgt d = m"
    using assms(1) by (auto simp: emu_disc_def rom_ids_def)
  have ids: "fst (probe_designer (d_ids s)) = 0x020" using assms(2) s(1) by (simp add: probe_designer_def rom_ids_def dpv1_ids_def)
  have env: "shim_ok (cm_dp (d_env s))" "plat_mallocs (d_env s) = []" "\<not> plat_nrst (d_env s)" "fpec_ok (tgt (cm_dp (d_env s)))" "no_oom (tgt (cm_dp (d_env s)))"
    using s assms by (simp_all add: rom_ids_def)
  obtain t where t: "cortexm_probe emu_dp_ops sh (stm32f1_fns emu_dp_ops) (driver_table other) (d_ids s) emu_ap (d_env s) = Some (Some (emu_ops sh, t), t)"
    "emu_ready t" "t_flash t = [emu_region]" "t_ram t = [\<lparr>ram_start = EMU_SRAM_BASE, ram_length = EMU_SRAM_SIZE\<rparr>]"
    "driver t = ''STM32F1 medium density''" "core t = Some ''M3''" "part_id t = 0x410" "regs_size t = 80"
    "tgt (cm_dp t) = tgt (cm_dp (d_env s))" "\<not> stepping t" "\<not> on_bkpt t" "icache_line_length t = 0" "plat_mallocs t = []"
    using emu_cortexm_probe [OF ids env, of sh other] by (elim exE conjE) (rule that)
  have ref: "d_ids (adiv5_ap_ref s) = d_ids s" "d_env (adiv5_ap_ref s) = d_env s" "d_targets (adiv5_ap_ref s) = d_targets s0"
    using s(1) by (simp_all add: adiv5_ap_ref_def Let_def rom_ids_def)
  have "probe_core emu_dp_ops sh (stm32f1_fns emu_dp_ops) (driver_table other) emu_ap s =
      Some ((adiv5_ap_ref s)\<lparr>d_env := t, d_targets := d_targets s0 @ [(emu_ops sh, t)]\<rparr>)"
    using t(1) env(2) by (simp add: probe_core_def plat_malloc_def ref Let_def)
  then show ?thesis using t(2-) s(1,3) by (auto simp: found_def)
qed

lemma found_dp:
  assumes "found m t" "shim_ok d" "quiet (tgt (cm_dp t)) (tgt d)"
  shows "found m (t\<lparr>cm_dp := d\<rparr>)"
  using assms by (auto simp: found_def emu_ready_def emu_conf_def quiet_def fpec_ok_def no_oom_def)

lemma emu_resume:
  assumes "found m t" "\<not> stepping t" "\<not> on_bkpt t" "icache_line_length t = 0" "emu_disc s1 s2 (tgt (cm_dp t))" "d_env s1 = t"
  shows "\<exists>d. resume_targets emu_ap [(emu_ops sh, t)] (d_env s2) = Some ([(emu_ops sh, t\<lparr>cm_dp := d\<rparr>)], t\<lparr>cm_dp := d\<rparr>) \<and>
    shim_ok d \<and> quiet (tgt (cm_dp t)) (tgt d)"
proof -
  obtain d where d: "d_env s2 = t\<lparr>cm_dp := d\<rparr>" "shim_ok d" "tgt d = tgt (cm_dp t)" using assms(5,6) by (auto simp: emu_disc_def)
  have p: "put_env (d_env s2) t = t\<lparr>cm_dp := d\<rparr>" by (simp add: put_env_def d(1))
  have r: "cm_ap t = emu_ap" "dcache_line_length t = 0" using assms(1) by (simp_all add: found_def emu_ready_def)
  let ?t = "t\<lparr>cm_dp := d\<rparr>" and ?m = "tgt (cm_dp t)"
  have at: "emu_at t ?t ?m" using d r by (auto simp: emu_at_def)
  obtain t' where "target_mem_write32 (cortexm_mem_ops emu_dp_ops) CORTEXM_DHCSR (CORTEXM_DHCSR_DBGKEY OR CORTEXM_DHCSR_C_DEBUGEN) ?t = Some t'"
    "emu_at t t' (scs_write 0xdf0 (CORTEXM_DHCSR_DBGKEY OR CORTEXM_DHCSR_C_DEBUGEN) ?m)"
    using scs_write32 [OF emu_mem_ops_cortexm at, of "0xdf0"] by auto
  then obtain d' where d': "target_mem_write32 (cortexm_mem_ops emu_dp_ops) CORTEXM_DHCSR (CORTEXM_DHCSR_DBGKEY OR CORTEXM_DHCSR_C_DEBUGEN) ?t = Some (t\<lparr>cm_dp := d'\<rparr>)"
    "shim_ok d'" "tgt d' = scs_write 0xdf0 (CORTEXM_DHCSR_DBGKEY OR CORTEXM_DHCSR_C_DEBUGEN) ?m" by (auto simp: emu_at_def)
  have "halt_resume_fn (emu_ops sh) = Some (cortexm_halt_resume (cortexm_mem_ops emu_dp_ops))"
    by (simp add: stm32f1_target_ops_def cortexm_ops_def cortexm_core_ops_def Let_def)
  then have "target_halt_resume (emu_ops sh) False ?t = Some (t\<lparr>cm_dp := d'\<rparr>)"
    using assms(2-4) d'(1) by (simp add: target_halt_resume_def cortexm_halt_resume_def)
  moreover have "put_env (t\<lparr>cm_dp := d'\<rparr>) (t\<lparr>cm_dp := d\<rparr>) = t\<lparr>cm_dp := d'\<rparr>" by (simp add: put_env_def)
  ultimately have "resume_targets emu_ap [(emu_ops sh, t)] (d_env s2) = Some ([(emu_ops sh, t\<lparr>cm_dp := d'\<rparr>)], t\<lparr>cm_dp := d'\<rparr>)"
    using p r(1) d(1) by simp
  then show ?thesis using d' by auto
qed

text \<open>The whole work on access port 0, from a port with no targets yet.\<close>

definition port_state :: "emu_shim discovery \<Rightarrow> bool" where
  "port_state s \<longleftrightarrow> shim_ok (cm_dp (d_env s)) \<and> dpv1_ids (d_ids s) \<and> plat_mallocs (d_env s) = [] \<and> \<not> plat_nrst (d_env s) \<and>
     fpec_ok (tgt (cm_dp (d_env s))) \<and> no_oom (tgt (cm_dp (d_env s))) \<and> d_quirks s = 0"

lemma emu_probe_ap:
  assumes p: "port_state s" "g_demcr (tgt (cm_dp (d_env s))) = 0" "d_targets s = []" "d_ap_refcnt s = 1" "d_dp_refcnt s = 2" "\<not> d_dp_freed s"
  shows "\<exists>t s'. dp_probe_ap emu_dp_ops (\<lambda>s ap. probe_core emu_dp_ops sh (stm32f1_fns emu_dp_ops) (driver_table other) ap s) ext nrst
      (Suc (Suc fuel)) emu_ap s = Some (False, s') \<and> d_targets s' = [(emu_ops sh, t)] \<and> found (tgt (cm_dp (d_env s))) t \<and>
    d_env s' = t\<lparr>cm_dp := cm_dp (d_env s')\<rparr> \<and> shim_ok (cm_dp (d_env s')) \<and> quiet (tgt (cm_dp t)) (tgt (cm_dp (d_env s'))) \<and>
    dp_version (d_ids s') = 1 \<and> d_quirks s' = 0 \<and> d_dp_refcnt s' = 2 \<and> \<not> d_dp_freed s'"
proof -
  let ?prb = "\<lambda>s. probe_core emu_dp_ops sh (stm32f1_fns emu_dp_ops) (driver_table other) emu_ap s"
  let ?org = "tgt (cm_dp (d_env s))"
  have rec: "run_recovery ext emu_ap recovery_probes s = Some s" by (simp add: recovery_probes_def emu_ap_def)
  obtain b s1 where s1: "cortexm_prepare emu_dp_ops nrst emu_ap s = Some (b, emu_ap, s1)" "calm s s1"
    using emu_prepare [of s nrst] p by (auto simp: port_state_def)
  let ?m = "tgt (cm_dp (d_env s1))"
  have k: "port_state s1" "d_targets s1 = []" "d_ap_refcnt s1 = 1" "d_dp_refcnt s1 = 2" "\<not> d_dp_freed s1" "quiet ?org ?m"
    using s1(2) p by (auto simp: calm_def port_state_def quiet_def fpec_ok_def no_oom_def)
  have pc: "\<exists>t. ?prb s' = Some ((adiv5_ap_ref s')\<lparr>d_env := t, d_targets := d_targets s1 @ [(emu_ops sh, t)]\<rparr>) \<and>
    found ?m t \<and> \<not> stepping t \<and> \<not> on_bkpt t \<and> icache_line_length t = 0" if "emu_disc (rom_ids s1) s' ?m" for s'
    using emu_probe_core [OF that, of sh other] k(1) by (simp add: port_state_def)
  then have pc': "\<exists>s1'. ?prb s' = Some s1' \<and> shim_ok (cm_dp (d_env s1'))" if "emu_disc (rom_ids s1) s' ?m" for s'
    using that by (fastforce simp: found_def emu_ready_def)
  have at: "emu_disc s1 s1 ?m" using emu_disc_refl k(1) by (simp add: port_state_def)
  have "\<exists>s' sa sb. ?prb s' = Some sa \<and> emu_disc (rom_ids s1) s' ?m \<and>
    adiv5_component_probe emu_dp_ops ?prb ext emu_ap (Suc (Suc fuel)) EMU_AP_BASE 0 s1 = Some sb \<and> emu_disc sa sb (tgt (cm_dp (d_env sa)))"
    by (rule component_probe [OF at]) (rule pc')
  then obtain s2 s3 s4 where s4: "?prb s2 = Some s3" "emu_disc (rom_ids s1) s2 ?m"
    "adiv5_component_probe emu_dp_ops ?prb ext emu_ap (Suc (Suc fuel)) EMU_AP_BASE 0 s1 = Some s4" "emu_disc s3 s4 (tgt (cm_dp (d_env s3)))"
    by (elim exE conjE) (rule that)
  obtain t where t: "s3 = (adiv5_ap_ref s2)\<lparr>d_env := t, d_targets := [(emu_ops sh, t)]\<rparr>" "found ?m t" "\<not> stepping t" "\<not> on_bkpt t"
    "icache_line_length t = 0" using pc [OF s4(2)] s4(1) k(2) by auto
  have f: "found ?org t" using t(2) k(6) by (auto simp: found_def intro: quiet_trans)
  have f2: "d_ids s2 = (d_ids s1)\<lparr>ap_designer := 0x020, ap_partno := 0x4c3\<rparr>" "d_quirks s2 = d_quirks s1" "d_ap_refcnt s2 = 1" "d_dp_refcnt s2 = 2" "\<not> d_dp_freed s2"
    using s4(2) k by (auto simp: emu_disc_def rom_ids_def)
  obtain d4 where d4: "s4 = s3\<lparr>d_env := t\<lparr>cm_dp := d4\<rparr>\<rparr>" "shim_ok d4" "tgt d4 = tgt (cm_dp t)" using s4(4) t(1) by (auto simp: emu_disc_def)
  obtain ts env where r: "(if nrst then Some s4 else do { (ts, env) \<leftarrow> resume_targets emu_ap (d_targets s4) (d_env s4); Some (s4\<lparr>d_targets := ts, d_env := env\<rparr>) }) =
      Some (s4\<lparr>d_targets := [(emu_ops sh, ts)], d_env := env\<rparr>)" "found ?org ts" "env = ts\<lparr>cm_dp := cm_dp env\<rparr>" "shim_ok (cm_dp env)" "quiet (tgt (cm_dp ts)) (tgt (cm_dp env))"
  proof (cases nrst)
    case True
    have tt: "d_targets s4 = [(emu_ops sh, t)]" "d_env s4 = t\<lparr>cm_dp := d4\<rparr>" using d4(1) t(1) by simp_all
    have "s4 = s4\<lparr>d_targets := [(emu_ops sh, t)], d_env := t\<lparr>cm_dp := d4\<rparr>\<rparr>" unfolding tt [symmetric] by simp
    then show ?thesis using True f d4(2,3) by (intro that [of "t\<lparr>cm_dp := d4\<rparr>" t]) simp_all
  next
    case False
    obtain d where d: "resume_targets emu_ap [(emu_ops sh, t)] (d_env s4) = Some ([(emu_ops sh, t\<lparr>cm_dp := d\<rparr>)], t\<lparr>cm_dp := d\<rparr>)" "shim_ok d"
      "quiet (tgt (cm_dp t)) (tgt d)" using emu_resume [OF f t(3-5), of s3 s4 sh] s4(4) t(1) by auto
    have "d_targets s4 = [(emu_ops sh, t)]" using d4(1) t(1) by simp
    then show ?thesis using False d found_dp [OF f d(2,3)] by (intro that [of "t\<lparr>cm_dp := d\<rparr>" "t\<lparr>cm_dp := d\<rparr>"]) simp_all
  qed
  let ?s5 = "s4\<lparr>d_targets := [(emu_ops sh, ts)], d_env := env\<rparr>"
  have fin: "d_quirks (adiv5_ap_unref ?s5) = 0" "d_ids (adiv5_ap_unref ?s5) = d_ids s2" "d_dp_refcnt (adiv5_ap_unref ?s5) = 2" "\<not> d_dp_freed (adiv5_ap_unref ?s5)"
    "d_env (adiv5_ap_unref ?s5) = env" "d_targets (adiv5_ap_unref ?s5) = [(emu_ops sh, ts)]"
    using d4(1) t(1) f2 k(1) by (simp_all add: adiv5_ap_unref_def adiv5_ap_ref_def Let_def port_state_def)
  have ahb: "apsel emu_ap = 0" "drop_bit 13 (idr emu_ap AND 0x1e000) = 8" "idr emu_ap AND 0xf = 1" "ap_base emu_ap = EMU_AP_BASE" by (simp_all add: emu_ap_def)
  have "dp_probe_ap emu_dp_ops (\<lambda>s ap. probe_core emu_dp_ops sh (stm32f1_fns emu_dp_ops) (driver_table other) ap s) ext nrst
      (Suc (Suc fuel)) emu_ap s = Some (False, adiv5_ap_unref ?s5)"
    unfolding dp_probe_ap_def rec bind.bind_lunit ahb s1(1) prod.case simp_thms if_True s4(3) r(1) Let_def fin(1) by simp
  then show ?thesis using r(2-5) fin f2(1) k(1) by (intro exI [of _ ts] exI [of _ "adiv5_ap_unref ?s5"]) (auto simp: port_state_def dpv1_ids_def)
qed

subsection \<open>The other access ports\<close>

text \<open>The access ports that do not answer: each gives up one of the eight attempts.\<close>

lemma sticky_clear:
  assumes "emu_disc s0 s m"
  shows "\<exists>s'. adiv5_dp_clear_sticky_errors emu_dp_ops s = Some s' \<and> emu_disc s0 s' m"
proof (cases "dp_version (d_ids s) = 0")
  case True
  then show ?thesis using disc_error [OF assms] by (auto simp: adiv5_dp_clear_sticky_errors_def)
next
  case False
  have "\<exists>s'. on_dp_do (dp_abort emu_dp_ops 4) s = Some s' \<and> emu_disc s0 s' m"
    by (rule emu_disc_do [OF assms]) (auto simp: emu_shim_abort_def shim_ok_def emu_dp_ops_def)
  then show ?thesis using False by (simp add: adiv5_dp_clear_sticky_errors_def)
qed

lemma other_aps:
  assumes "emu_disc s0 s m" "\<forall>i \<in> set is. 0 < i \<and> i < 256"
  shows "\<exists>s'. dp_probe_aps emu_dp_ops prb ext nrst fuel is k s = Some s' \<and> emu_disc s0 s' m"
  using assms
proof (induction "is" arbitrary: k s)
  case Nil
  then show ?case by simp
next
  case (Cons i "is")
  have i: "(of_nat i :: u8) \<noteq> 0"
    using Cons.prems(2) by (simp add: word_unat_eq_iff unat_of_nat)
  have no: "\<exists>d'. adiv5_new_ap emu_dp_ops (of_nat i) h d = Some (None, d') \<and> shim_ok d' \<and> tgt d' = m" if "shim_ok d" "tgt d = m" for d h
    using emu_new_ap_other [OF i that(1), of h] that(2) by simp
  obtain s1 where s1: "on_dp (adiv5_new_ap emu_dp_ops (of_nat i) (fst (plat_malloc (d_env s)))) s = Some (None, s1)" "emu_disc s0 s1 m"
    using emu_disc_on [OF Cons.prems(1), where f = "adiv5_new_ap emu_dp_ops (of_nat i) (fst (plat_malloc (d_env s)))" and v = None and m' = m] no
    by (auto intro: that)
  have "shim_ok (cm_dp (d_env s))" "tgt (cm_dp (d_env s)) = m" using Cons.prems(1) by (auto simp: emu_disc_def)
  from no [OF this, of True] have r: "(case adiv5_new_ap emu_dp_ops (of_nat i) True (cm_dp (d_env s)) of Some (Some _, _) \<Rightarrow> True | _ \<Rightarrow> False) = False"
    by auto
  obtain s2 where s2: "adiv5_dp_clear_sticky_errors emu_dp_ops s1 = Some s2" "emu_disc s0 s2 m" using sticky_clear [OF s1(2)] by blast
  have "dp_probe_aps emu_dp_ops prb ext nrst fuel (i # is) k s =
    (if \<not> k < 8 then Some s else if k + 1 = 8 then Some s2 else dp_probe_aps emu_dp_ops prb ext nrst fuel is (k + 1) s2)"
    using s1(1) s2(1) by (cases "plat_malloc (d_env s)") (simp only: dp_probe_aps.simps r, simp)
  moreover obtain s3 where "dp_probe_aps emu_dp_ops prb ext nrst fuel is (k + 1) s2 = Some s3" "emu_disc s0 s3 m"
    using Cons.IH [OF s2(2), of "k + 1"] Cons.prems(2) by auto
  ultimately show ?case using Cons.prems(1) s2(2) by auto
qed

definition fresh_port :: "emu_shim discovery \<Rightarrow> bool" where
  "fresh_port s \<longleftrightarrow> port_state s \<and> g_csw (cm_dp (d_env s)) = 0 \<and> g_demcr (tgt (cm_dp (d_env s))) = 0 \<and> d_targets s = [] \<and> \<not> d_dp_freed s"

lemma emu_walk:
  assumes "fresh_port s" "d_dp_refcnt s = 1"
  shows "\<exists>t s'. dp_probe_aps emu_dp_ops (\<lambda>s ap. probe_core emu_dp_ops sh (stm32f1_fns emu_dp_ops) (driver_table other) ap s) ext nrst
      (Suc (Suc fuel)) [0..<256] 0 s = Some s' \<and> d_targets s' = [(emu_ops sh, t)] \<and> found (tgt (cm_dp (d_env s))) t \<and>
    d_env s' = t\<lparr>cm_dp := cm_dp (d_env s')\<rparr> \<and> shim_ok (cm_dp (d_env s')) \<and> quiet (tgt (cm_dp t)) (tgt (cm_dp (d_env s'))) \<and>
    d_dp_refcnt s' = 2 \<and> \<not> d_dp_freed s'"
proof -
  let ?prb = "\<lambda>s ap. probe_core emu_dp_ops sh (stm32f1_fns emu_dp_ops) (driver_table other) ap s"
  let ?org = "tgt (cm_dp (d_env s))"
  note fp = assms(1) [unfolded fresh_port_def port_state_def]
  obtain d where d: "adiv5_new_ap emu_dp_ops 0 True (cm_dp (d_env s)) = Some (Some emu_ap, d)" "shim_ok d" "tgt d = ?org"
    using emu_new_ap_0 [of "cm_dp (d_env s)"] fp by auto
  let ?s1 = "s\<lparr>d_env := (d_env s)\<lparr>cm_dp := d\<rparr>\<rparr>"
  have m: "plat_malloc (d_env s) = (True, d_env s)" "plat_mallocs (d_env s) = []" using fp by (simp_all add: plat_malloc_def)
  have n: "on_dp (adiv5_new_ap emu_dp_ops (of_nat 0) True) s = Some (Some emu_ap, ?s1)" using d(1) by (simp add: on_dp_def)
  let ?s2 = "adiv5_ap_ref (?s1\<lparr>d_ap_refcnt := 0\<rparr>)"
  have s2: "port_state ?s2" "g_demcr (tgt (cm_dp (d_env ?s2))) = 0" "d_targets ?s2 = []" "d_ap_refcnt ?s2 = 1" "d_dp_refcnt ?s2 = 2" "\<not> d_dp_freed ?s2"
    using fp d assms(2) by (simp_all add: adiv5_ap_ref_def port_state_def)
  obtain t s3 where s3: "dp_probe_ap emu_dp_ops ?prb ext nrst (Suc (Suc fuel)) emu_ap ?s2 = Some (False, s3)" "d_targets s3 = [(emu_ops sh, t)]"
    "found (tgt (cm_dp (d_env ?s2))) t" "d_env s3 = t\<lparr>cm_dp := cm_dp (d_env s3)\<rparr>" "shim_ok (cm_dp (d_env s3))" "quiet (tgt (cm_dp t)) (tgt (cm_dp (d_env s3)))"
    "d_dp_refcnt s3 = 2" "\<not> d_dp_freed s3"
    using emu_probe_ap [OF s2, of sh other ext nrst fuel] by (elim exE conjE) (rule that)
  have o: "tgt (cm_dp (d_env ?s2)) = ?org" using d(3) by (simp add: adiv5_ap_ref_def)
  obtain s4 where s4: "dp_probe_aps emu_dp_ops ?prb ext nrst (Suc (Suc fuel)) [1..<256] 0 s3 = Some s4" "emu_disc s3 s4 (tgt (cm_dp (d_env s3)))"
    using other_aps [OF emu_disc_refl [OF s3(5)], of "[1..<256]" ?prb ext nrst "Suc (Suc fuel)" 0] by auto
  have up: "[0..<256] = 0 # [1..<256]" by (simp add: upt_conv_Cons)
  have "?s1\<lparr>d_env := (d_env ?s1)\<lparr>plat_mallocs := plat_mallocs (d_env s)\<rparr>\<rparr> = ?s1" by simp
  then have "dp_probe_aps emu_dp_ops ?prb ext nrst (Suc (Suc fuel)) [0..<256] 0 s = Some s4"
    using s3(1) s4(1) n d(1) by (simp add: up m(1))
  moreover obtain d4 where "s4 = s3\<lparr>d_env := (d_env s3)\<lparr>cm_dp := d4\<rparr>\<rparr>" "shim_ok d4" "tgt d4 = tgt (cm_dp (d_env s3))"
    using s4(2) by (auto simp: emu_disc_def)
  moreover obtain d3 where "d_env s3 = t\<lparr>cm_dp := d3\<rparr>" "quiet (tgt (cm_dp t)) (tgt d3)" using s3(4,6) by blast
  ultimately show ?thesis using s3(2,3,7,8) o
    by (intro exI [of _ t] exI [of _ s4]) simp
qed

subsection \<open>The scan\<close>

definition emu_scan ::
  "emu_shim semihosting \<Rightarrow> (cm_probe \<Rightarrow> emu_shim probe_fn) \<Rightarrow> emu_shim ext \<Rightarrow> bool \<Rightarrow> nat \<Rightarrow> emu_shim cortexm \<Rightarrow>
   (bool \<times> emu_shim discovery) option" where
  "emu_scan sh other ext nrst fuel env =
     do { let (ok, env) = plat_malloc (env\<lparr>cm_dp := emu_scan_reset (cm_dp env)\<rparr>);
          let s = \<lparr>d_env = env, d_targets = [],
                   d_ids = \<lparr>dp_version = 0, dp_target_designer = 0, dp_target_partno = 0, dp_designer = 0, ap_designer = 0, ap_partno = 0\<rparr>,
                   d_partno = 0, d_quirks = 0, d_dp_refcnt = 0, d_ap_refcnt = 0, d_dp_freed = False\<rparr>;
          if \<not> ok then Some (False, s)
          else do { s \<leftarrow> adiv5_dp_init emu_dp_ops sh (stm32f1_fns emu_dp_ops) (driver_table other) ext nrst fuel s;
                    Some (True, s) } }"

lemma emu_dpidr: "dpidr_ids EMU_DPIDR s = s\<lparr>d_ids := (d_ids s)\<lparr>dp_version := 1, dp_designer := 0x43b\<rparr>, d_partno := 0xba, d_quirks := 0\<rparr>"
  by (simp add: dpidr_ids_def Let_def jep106_code_def)

lemma emu_power:
  "power_down_wait emu_dp_ops n (s\<lparr>d_env := (d_env s)\<lparr>cm_dp := d\<lparr>g_ctrlstat := 0\<rparr>\<rparr>\<rparr>) =
     Some (snd (d_expired (s\<lparr>d_env := (d_env s)\<lparr>cm_dp := d\<lparr>g_ctrlstat := 0\<rparr>\<rparr>\<rparr>)))"
  "power_up_wait emu_dp_ops n (s\<lparr>d_env := (d_env s)\<lparr>cm_dp := d\<lparr>g_ctrlstat := PWRUP_REQ\<rparr>\<rparr>\<rparr>) =
     Some (True, s\<lparr>d_env := (d_env s)\<lparr>cm_dp := d\<lparr>g_ctrlstat := PWRUP_REQ\<rparr>\<rparr>\<rparr>)"
  by (simp_all add: power_down_wait.simps power_up_wait.simps on_dp_def emu_shim_dp_read_def emu_shim_low_access_def ctrlstat_value_def Let_def
    split: prod.split)

text \<open>The state in which the walk over the access ports starts.\<close>

lemma emu_dp_init:
  assumes "dp_designer (d_ids s) = 0" "dp_target_designer (d_ids s) = 0"
  shows "adiv5_dp_init emu_dp_ops sh fo drivers ext nrst fuel s =
    do { s \<leftarrow> dp_probe_aps emu_dp_ops (\<lambda>s ap. probe_core emu_dp_ops sh fo drivers ap s) ext nrst fuel [0..<256] 0
                (s\<lparr>d_ids := (d_ids s)\<lparr>dp_version := 1, dp_designer := 0x43b\<rparr>, d_partno := 0xba, d_quirks := 0,
                   d_env := (d_env s)\<lparr>plat_expired := tl (plat_expired (d_env s)),
                                     cm_dp := (cm_dp (d_env s))\<lparr>dp_fault := 0, g_ctrlstat := PWRUP_REQ\<rparr>\<rparr>,
                   d_dp_refcnt := d_dp_refcnt s + 1\<rparr>);
         Some (adiv5_dp_unref s) }"
proof -
  let ?d = "(cm_dp (d_env s))\<lparr>dp_fault := 0\<rparr>"
  let ?s1 = "s\<lparr>d_ids := (d_ids s)\<lparr>dp_version := 1, dp_designer := 0x43b\<rparr>, d_partno := 0xba, d_quirks := 0\<rparr>"
  have 1: "on_dp (emu_shim_low_access ADIV5_LOW_READ ADIV5_DP_DPIDR 0) s = Some (EMU_DPIDR, s)"
    by (simp add: on_dp_def emu_shim_low_access_def)
  have 2: "adiv5_dp_clear_sticky_errors emu_dp_ops ?s1 = Some (?s1\<lparr>d_env := (d_env s)\<lparr>cm_dp := ?d\<rparr>\<rparr>)"
    by (simp add: adiv5_dp_clear_sticky_errors_def on_dp_do_def emu_dp_ops_def emu_shim_abort_def)
  have 3: "on_dp_do (adiv5_dp_write emu_dp_ops ADIV5_DP_CTRLSTAT v) (x\<lparr>d_env := e\<rparr>) = Some (x\<lparr>d_env := e\<lparr>cm_dp := (cm_dp e)\<lparr>g_ctrlstat := v\<rparr>\<rparr>\<rparr>)" for x e v
    by (simp add: adiv5_dp_write_def on_dp_do_def emu_shim_low_access_def)
  have 4: "power_down_wait emu_dp_ops n (x\<lparr>d_env := e\<lparr>cm_dp := d\<lparr>g_ctrlstat := 0\<rparr>\<rparr>\<rparr>) =
      Some (x\<lparr>d_env := e\<lparr>plat_expired := tl (plat_expired e), cm_dp := d\<lparr>g_ctrlstat := 0\<rparr>\<rparr>\<rparr>)" for n x e d
    using emu_power(1) [where n = n and s = "x\<lparr>d_env := e\<rparr>" and d = d] by (cases "plat_expired e") (simp_all add: d_expired_def platform_timeout_is_expired_def)
  have 5: "power_up_wait emu_dp_ops n (x\<lparr>d_env := e\<lparr>plat_expired := y, cm_dp := d\<lparr>g_ctrlstat := PWRUP_REQ\<rparr>\<rparr>\<rparr>) =
      Some (True, x\<lparr>d_env := e\<lparr>plat_expired := y, cm_dp := d\<lparr>g_ctrlstat := PWRUP_REQ\<rparr>\<rparr>\<rparr>)" for n x e y d
    using emu_power(2) [where n = n and s = "x\<lparr>d_env := e\<lparr>plat_expired := y\<rparr>\<rparr>" and d = d] by simp
  show ?thesis
    using assms by (simp add: adiv5_dp_init_def 1 emu_dpidr 2 3 4 5 Let_def del: One_nat_def)
qed

lemma emu_scan_result:
  assumes "plat_mallocs env = []" "\<not> plat_nrst env" "no_oom (tgt (emu_scan_reset (cm_dp env)))"
  shows "\<exists>t s. emu_scan sh other ext nrst (Suc (Suc fuel)) env = Some (True, s) \<and> d_targets s = [(emu_ops sh, t)] \<and>
    found (tgt (emu_scan_reset (cm_dp env))) t \<and>
    d_env s = t\<lparr>cm_dp := cm_dp (d_env s)\<rparr> \<and> shim_ok (cm_dp (d_env s)) \<and> quiet (tgt (cm_dp t)) (tgt (cm_dp (d_env s))) \<and>
    d_dp_refcnt s = 1 \<and> \<not> d_dp_freed s"
proof -
  let ?ids = "\<lparr>dp_version = 1, dp_target_designer = 0, dp_target_partno = 0, dp_designer = 0x43b, ap_designer = 0, ap_partno = 0\<rparr>"
  let ?d = "(emu_scan_reset (cm_dp env))\<lparr>dp_fault := 0, g_ctrlstat := PWRUP_REQ\<rparr>"
  define s where "s = \<lparr>d_env = env\<lparr>plat_expired := tl (plat_expired env), cm_dp := ?d\<rparr>, d_targets = [],
    d_ids = ?ids, d_partno = 0xba, d_quirks = 0, d_dp_refcnt = 1, d_ap_refcnt = 0, d_dp_freed = False\<rparr>"
  have m: "tgt (cm_dp (d_env s)) = tgt (emu_scan_reset (cm_dp env))" by (simp add: s_def)
  have "g_csw ?d = 0" "g_demcr (tgt ?d) = 0" by (simp_all add: emu_scan_reset_def emu_target_reset_def Let_def split: prod.split)
  then have f: "fresh_port s" "d_dp_refcnt s = 1" using assms emu_boot_ok(1,2) [of "cm_dp env"]
    by (simp_all add: fresh_port_def port_state_def dpv1_ids_def s_def shim_ok_def)
  obtain t s' where s': "dp_probe_aps emu_dp_ops (\<lambda>s ap. probe_core emu_dp_ops sh (stm32f1_fns emu_dp_ops) (driver_table other) ap s) ext nrst
      (Suc (Suc fuel)) [0..<256] 0 s = Some s'" "d_targets s' = [(emu_ops sh, t)]" "found (tgt (emu_scan_reset (cm_dp env))) t"
    "d_env s' = t\<lparr>cm_dp := cm_dp (d_env s')\<rparr>" "shim_ok (cm_dp (d_env s'))" "quiet (tgt (cm_dp t)) (tgt (cm_dp (d_env s')))"
    "d_dp_refcnt s' = 2" "\<not> d_dp_freed s'"
    using emu_walk [OF f, of sh other ext nrst fuel] unfolding m by (elim exE conjE) (rule that)
  have "emu_scan sh other ext nrst (Suc (Suc fuel)) env = Some (True, adiv5_dp_unref s')"
    using s'(1) assms(1) by (simp add: emu_scan_def plat_malloc_def emu_dp_init s_def)
  then show ?thesis using s'(2-) by (intro exI [of _ t] exI [of _ "adiv5_dp_unref s'"]) (simp add: adiv5_dp_unref_def)
qed

lemma found_seen:
  assumes "found m t" "d_env s = t\<lparr>cm_dp := cm_dp (d_env s)\<rparr>" "shim_ok (cm_dp (d_env s))" "quiet (tgt (cm_dp t)) (tgt (cm_dp (d_env s)))"
  shows "put_env (d_env s) t = t\<lparr>cm_dp := cm_dp (d_env s)\<rparr>" "found m (put_env (d_env s) t)"
proof -
  have "plat_clk_output (d_env s) = plat_clk_output t" "plat_nrst (d_env s) = plat_nrst t" "plat_mallocs (d_env s) = plat_mallocs t"
    "plat_expired (d_env s) = plat_expired t" by (subst assms(2), simp)+
  then show p: "put_env (d_env s) t = t\<lparr>cm_dp := cm_dp (d_env s)\<rparr>" by (simp add: put_env_def)
  show "found m (put_env (d_env s) t)" unfolding p by (rule found_dp [OF assms(1,3,4)])
qed

lemma quiet_flash: "quiet m m' \<Longrightarrow> flash_at m' n = flash_at m n"
  by (simp add: quiet_def flash_at_def)

text \<open>C5: whatever the timers do, with the reset line released and no allocation failing, the scan succeeds and
  finds exactly one target, the emulated STM32F1: with its flash and RAM, ready to be programmed, its flash
  as the reset leaves it. The debug port stays allocated, held by the target alone.\<close>

theorem emu_scan_finds:
  assumes "plat_mallocs env = []" "\<not> plat_nrst env" "no_oom (tgt (emu_scan_reset (cm_dp env)))" "2 \<le> fuel"
  shows "\<exists>t s. emu_scan sh other ext nrst fuel env = Some (True, s) \<and> d_targets s = [(emu_ops sh, t)] \<and>
    emu_ready (put_env (d_env s) t) \<and> t_flash t = [emu_region] \<and> t_ram t = [\<lparr>ram_start = EMU_SRAM_BASE, ram_length = EMU_SRAM_SIZE\<rparr>] \<and>
    driver t = ''STM32F1 medium density'' \<and> core t = Some ''M3'' \<and> part_id t = 0x410 \<and> regs_size t = 80 \<and>
    (\<forall>n. flash_at (tgt (cm_dp (d_env s))) n = flash_at (tgt (emu_scan_reset (cm_dp env))) n) \<and>
    d_dp_refcnt s = 1 \<and> \<not> d_dp_freed s"
proof -
  obtain f where f: "fuel = Suc (Suc f)" using assms(4) by (metis add_2_eq_Suc le_Suc_ex)
  obtain t s where s: "emu_scan sh other ext nrst fuel env = Some (True, s)" "d_targets s = [(emu_ops sh, t)]"
    "found (tgt (emu_scan_reset (cm_dp env))) t" "d_env s = t\<lparr>cm_dp := cm_dp (d_env s)\<rparr>" "shim_ok (cm_dp (d_env s))"
    "quiet (tgt (cm_dp t)) (tgt (cm_dp (d_env s)))" "d_dp_refcnt s = 1" "\<not> d_dp_freed s"
    using emu_scan_result [OF assms(1-3), of sh other ext nrst f, folded f] by (elim exE conjE) (rule that)
  have r: "emu_ready (put_env (d_env s) t)" using found_seen(2) [OF s(3-6)] by (simp add: found_def)
  have "flash_at (tgt (cm_dp (d_env s))) n = flash_at (tgt (emu_scan_reset (cm_dp env))) n" for n
    using quiet_flash [OF s(6)] quiet_flash s(3) by (simp add: found_def)
  then show ?thesis using s(1-3,7,8) r unfolding found_def by (intro exI [of _ t] exI [of _ s]) blast
qed

theorem emu_scan_finds_witness:
  "\<forall>sh other ext nrst. \<exists>t s. emu_scan sh other ext nrst 2 (emu_env\<lparr>plat_expired := [True, False], cm_dp := shim_statics\<rparr>) = Some (True, s) \<and>
     d_targets s = [(emu_ops sh, t)] \<and> emu_ready (put_env (d_env s) t) \<and> driver t = ''STM32F1 medium density''"
proof (intro allI)
  fix sh other ext nrst
  show "\<exists>t s. emu_scan sh other ext nrst 2 (emu_env\<lparr>plat_expired := [True, False], cm_dp := shim_statics\<rparr>) = Some (True, s) \<and>
     d_targets s = [(emu_ops sh, t)] \<and> emu_ready (put_env (d_env s) t) \<and> driver t = ''STM32F1 medium density''"
    using emu_scan_finds [of "emu_env\<lparr>plat_expired := [True, False], cm_dp := shim_statics\<rparr>" 2 sh other ext nrst] emu_boot_ok(3)
    by (simp add: emu_env_def) (elim exE conjE, intro exI conjI)
qed

end
