(* ===== verification/Hex_Utils.thy ===== *)
theory Hex_Utils
  imports Prelude
begin

text \<open>
  src/hex_utils.c and is_hex of include/hex_utils.h: bytes to and from hexadecimal text, which the
  GDB and remote protocols carry. Characters are their codes, and the uint8_t arithmetic wraps.
  A source buffer that is too short has no meaning.
\<close>

definition hex_digit :: "u8 \<Rightarrow> byte" where
  "hex_digit v = (if v > 9 then v + 0x07 else v) + 0x30"

text \<open>The destination after the call: two digits per byte and the terminating zero.\<close>

definition hexify :: "byte list \<Rightarrow> byte list" where
  "hexify bs = concat (map (\<lambda>b. [hex_digit (drop_bit 4 b), hex_digit (b AND 0xf)]) bs) @ [0]"

definition unhex_digit :: "byte \<Rightarrow> u8" where
  "unhex_digit h =
     (let tmp = h - 0x30;
          tmp = (if tmp > 9 then tmp - 7 else tmp)
      in if tmp > 16 then tmp - 0x20 else tmp)"

primrec unhexify :: "nat \<Rightarrow> byte list \<Rightarrow> byte list option" where
  "unhexify 0 hex = Some []"
| "unhexify (Suc n) hex =
     (case hex of
        a # b # hex \<Rightarrow> do { bs \<leftarrow> unhexify n hex; Some ((push_bit 4 (unhex_digit a) OR unhex_digit b) # bs) }
      | _ \<Rightarrow> None)"

definition is_hex :: "byte \<Rightarrow> bool" where
  "is_hex x \<longleftrightarrow> 0x30 \<le> x \<and> x \<le> 0x39 \<or> 0x41 \<le> x \<and> x \<le> 0x46 \<or> 0x61 \<le> x \<and> x \<le> 0x66"

fun hex_num_loop :: "nat \<Rightarrow> byte list \<Rightarrow> u64 \<Rightarrow> u64 option" where
  "hex_num_loop 0 str ret = Some ret"
| "hex_num_loop (Suc n) [] ret = None"
| "hex_num_loop (Suc n) (c # str) ret =
     (if \<not> is_hex c then Some ret else hex_num_loop n str (push_bit 4 ret OR ucast (unhex_digit c)))"

definition hex_string_to_num :: "nat \<Rightarrow> byte list \<Rightarrow> u64 option" where
  "hex_string_to_num max_digits str = hex_num_loop max_digits str 0"

subsection \<open>Digits\<close>

lemma nibble_cases:
  assumes "(v :: u8) < 16"
  shows "v \<in> {0, 1, 2, 3, 4, 5, 6, 7, 8, 9, 10, 11, 12, 13, 14, 15}"
proof -
  have "unat v \<in> set [0..<16]" using assms by (simp add: word_less_nat_alt)
  moreover have "v = of_nat (unat v)" by simp
  ultimately have "v \<in> set (map of_nat [0..<16])" by (metis image_eqI list.set_map)
  then show ?thesis by (simp add: upt_rec)
qed

lemma unhex_hex_digit [simp]: "v < 16 \<Longrightarrow> unhex_digit (hex_digit v) = v"
  using nibble_cases [of v] by (auto simp: unhex_digit_def hex_digit_def)

lemma is_hex_hex_digit [simp]: "v < 16 \<Longrightarrow> is_hex (hex_digit v)"
  using nibble_cases [of v] by (auto simp: is_hex_def hex_digit_def)

lemma unhex_digit_less: "is_hex h \<Longrightarrow> unhex_digit h < 16"
  unfolding is_hex_def unhex_digit_def Let_def by (auto; unat_arith)

lemma hex_digit_framing: "v < 16 \<Longrightarrow> hex_digit v \<notin> {0x24, 0x23, 0x7d, 0x2a, 0x21, 4}"
  using nibble_cases [of v] by (auto simp: hex_digit_def)

lemma nibbles_less [simp]: "drop_bit 4 (b :: byte) < 16" "(b :: byte) AND 0xf < 16"
proof -
  have "unat b < 256" using unsigned_less [of b, where 'a = nat] by simp
  then show "drop_bit 4 b < 16" by (simp add: drop_bit_eq_div word_less_nat_alt unat_div less_mult_imp_div_less)
  have "b AND 0xf \<le> 0xf" by (rule word_and_le1)
  then show "b AND 0xf < 16" by (simp add: word_le_nat_alt word_less_nat_alt)
qed

lemma nibbles_join:
  "push_bit 4 (drop_bit 4 (b :: byte)) OR (b AND 0xf) = b"
  "push_bit 4 (push_bit 4 (x :: u64) OR ucast (drop_bit 4 b)) OR ucast (b AND 0xf) = push_bit 8 x OR ucast b"
proof -
  have m: "(0xf :: byte) = mask 4" by (simp add: mask_eq_exp_minus_1)
  show "push_bit 4 (drop_bit 4 b) OR (b AND 0xf) = b" unfolding m by (rule bit_word_eqI) (auto simp: bit_simps)
  show "push_bit 4 (push_bit 4 x OR ucast (drop_bit 4 b)) OR ucast (b AND 0xf) = push_bit 8 x OR ucast b"
    unfolding m by (rule bit_word_eqI) (auto simp: bit_simps dest: bit_imp_le_length)
qed

lemma unhexify_hex: "unhexify (length bs) (hexify bs @ rest) = Some bs"
  by (induction bs) (simp_all add: hexify_def nibbles_join)

text \<open>Decoding what hexify wrote gives the bytes back, whatever text follows.\<close>

theorem unhexify_hexify: "unhexify (length bs) (hexify bs @ rest) = Some bs"
  by (rule unhexify_hex)

lemma hex_num_loop_hexify:
  "hex_num_loop (2 * length bs) (hexify bs) x = Some (foldl (\<lambda>acc b. push_bit 8 acc OR ucast b) x bs)"
  by (induction bs arbitrary: x) (simp_all add: hexify_def nibbles_join(2) [simplified])

text \<open>Parsing the hexadecimal text of some bytes as a number gives their big-endian value, modulo
  2^64.\<close>

theorem hex_string_to_num_hexify:
  "hex_string_to_num (2 * length bs) (hexify bs) = Some (foldl (\<lambda>acc b. push_bit 8 acc OR ucast b) 0 bs)"
  unfolding hex_string_to_num_def by (rule hex_num_loop_hexify)

end
