(* ===== verification/Scanf.thy ===== *)
theory Scanf
  imports Hex_Utils Target
begin

text \<open>
  The parts of the C library the packet handlers parse with: sscanf with the directives they use, strtoul in
  base 16, and strings that end at the first zero byte. A number item is an optional sign, for hexadecimal an
  optional 0x, and digits, at most as many characters as the width of the directive; a value that does not
  fit is ULONG_MAX, as strtoul has it, and a minus sign negates modulo 2 to the 32.
\<close>

subsection \<open>Strings\<close>

definition ascii :: "string \<Rightarrow> byte list" where
  "ascii s = map of_char s"

definition cstr :: "byte list \<Rightarrow> byte list" where
  "cstr bs = takeWhile (\<lambda>b. b \<noteq> 0) bs"

definition is_space :: "byte \<Rightarrow> bool" where
  "is_space c \<longleftrightarrow> c = 0x20 \<or> 0x09 \<le> c \<and> c \<le> 0x0d"

subsection \<open>Numbers\<close>

definition digit_value :: "nat \<Rightarrow> byte \<Rightarrow> nat option" where
  "digit_value base c =
     (let v = (if 0x30 \<le> c \<and> c \<le> 0x39 then Some (unat (c - 0x30))
               else if 0x41 \<le> c \<and> c \<le> 0x46 then Some (unat (c - 0x37))
               else if 0x61 \<le> c \<and> c \<le> 0x66 then Some (unat (c - 0x57)) else None)
      in case v of Some d \<Rightarrow> (if d < base then Some d else None) | None \<Rightarrow> None)"

text \<open>Digits from the front, at most w of them: the value, how many were read, and the rest.\<close>

fun scan_digits :: "nat \<Rightarrow> nat \<Rightarrow> byte list \<Rightarrow> nat \<Rightarrow> nat \<Rightarrow> nat \<times> nat \<times> byte list" where
  "scan_digits base w (c # cs) acc n =
     (case digit_value base c of
        Some d \<Rightarrow> if 0 < w then scan_digits base (w - 1) cs (acc * base + d) (n + 1) else (acc, n, c # cs)
      | None \<Rightarrow> (acc, n, c # cs))"
| "scan_digits base w [] acc n = (acc, n, [])"

definition clamp_u32 :: "nat \<Rightarrow> u32" where
  "clamp_u32 n = (if n < 2 ^ 32 then of_nat n else 0xffffffff)"

text \<open>A whole number item; None is a matching failure.\<close>

definition scan_sign :: "nat \<Rightarrow> byte list \<Rightarrow> bool \<times> nat \<times> byte list" where
  "scan_sign w cs =
     (case cs of
        c # cs' \<Rightarrow> if 0 < w \<and> (c = 0x2b \<or> c = 0x2d) then (c = 0x2d, w - 1, cs') else (False, w, cs)
      | [] \<Rightarrow> (False, w, cs))"

definition scan_prefix :: "nat \<Rightarrow> nat \<Rightarrow> byte list \<Rightarrow> nat \<times> byte list" where
  "scan_prefix base w cs =
     (case cs of
        z # x # cs' \<Rightarrow> if base = 16 \<and> 2 \<le> w \<and> z = 0x30 \<and> (x = 0x58 \<or> x = 0x78) then (w - 2, cs') else (w, cs)
      | _ \<Rightarrow> (w, cs))"

definition scan_number :: "nat \<Rightarrow> nat \<Rightarrow> byte list \<Rightarrow> (u32 \<times> byte list) option" where
  "scan_number base w cs =
     (let (neg, w, cs) = scan_sign w (dropWhile is_space cs);
          (w, cs) = scan_prefix base w cs;
          (v, n, cs) = scan_digits base w cs 0 0
      in if n = 0 then None else Some (if neg then - clamp_u32 v else clamp_u32 v, cs))"

text \<open>strtoul: without a number the value is 0 and nothing is read. It has no width: the item may be as
  long as the text.\<close>

definition strtoul16 :: "byte list \<Rightarrow> u32 \<times> byte list" where
  "strtoul16 cs = (case scan_number 16 (length cs) cs of Some r \<Rightarrow> r | None \<Rightarrow> (0, cs))"

subsection \<open>Formats\<close>

text \<open>Directives: literal text, %x and %u with an optional width, %c, %n, and %*[...], which skips a nonempty
  run of the given characters.\<close>

datatype fmt = Lit "byte list" | Fx "nat option" | Fu "nat option" | Fc | Fn | Fskip "byte list"

fun drop_prefix :: "byte list \<Rightarrow> byte list \<Rightarrow> byte list option" where
  "drop_prefix [] cs = Some cs"
| "drop_prefix (p # ps) (c # cs) = (if p = c then drop_prefix ps cs else None)"
| "drop_prefix (p # ps) [] = None"

text \<open>The values assigned, in order, and the position stored by %n, if the scan came that far; len is the
  length of the whole text.\<close>

fun scan :: "nat \<Rightarrow> fmt list \<Rightarrow> byte list \<Rightarrow> u32 list \<times> nat option" where
  "scan len [] cs = ([], None)"
| "scan len (Lit l # fs) cs = (case drop_prefix l cs of Some cs \<Rightarrow> scan len fs cs | None \<Rightarrow> ([], None))"
| "scan len (Fx w # fs) cs =
     (case scan_number 16 (case w of Some n \<Rightarrow> n | None \<Rightarrow> length cs) cs of
        Some (v, cs) \<Rightarrow> (let (vs, p) = scan len fs cs in (v # vs, p)) | None \<Rightarrow> ([], None))"
| "scan len (Fu w # fs) cs =
     (case scan_number 10 (case w of Some n \<Rightarrow> n | None \<Rightarrow> length cs) cs of
        Some (v, cs) \<Rightarrow> (let (vs, p) = scan len fs cs in (v # vs, p)) | None \<Rightarrow> ([], None))"
| "scan len (Fc # fs) cs = (case cs of c # cs \<Rightarrow> (let (vs, p) = scan len fs cs in (ucast c # vs, p)) | [] \<Rightarrow> ([], None))"
| "scan len (Fn # fs) cs = (let (vs, p) = scan len fs cs in (vs, case p of Some q \<Rightarrow> Some q | None \<Rightarrow> Some (len - length cs)))"
| "scan len (Fskip ks # fs) cs =
     (case cs of c # _ \<Rightarrow> (if c \<in> set ks then scan len fs (dropWhile (\<lambda>b. b \<in> set ks) cs) else ([], None))
      | [] \<Rightarrow> ([], None))"

definition sscanf :: "byte list \<Rightarrow> fmt list \<Rightarrow> u32 list \<times> nat option" where
  "sscanf text fs = scan (length (cstr text)) fs (cstr text)"

subsection \<open>Printed numbers are read back\<close>

lemma ascii_append [simp]: "ascii (s @ s') = ascii s @ ascii s'"
  by (simp add: ascii_def)

lemma ascii_simps [simp]: "ascii [] = []" "ascii (c # s) = of_char c # ascii s"
  by (simp_all add: ascii_def)

lemma hex_char: "n < 16 \<Longrightarrow> digit_value 16 (of_char (''0123456789abcdef'' ! n)) = Some n"
proof -
  assume "n < 16"
  moreover have "list_all (\<lambda>n. digit_value 16 (of_char (''0123456789abcdef'' ! n)) = Some n) [0..<16]" by code_simp
  ultimately show ?thesis by (simp add: list_all_iff)
qed

lemma scan_hex_digits:
  assumes "length (hex_digits n) \<le> w"
  shows "scan_digits 16 w (ascii (hex_digits n) @ cs) acc m =
    scan_digits 16 (w - length (hex_digits n)) cs (acc * 16 ^ length (hex_digits n) + n) (m + length (hex_digits n))"
  using assms
proof (induction n arbitrary: w cs acc m rule: hex_digits.induct)
  case (1 n)
  show ?case
  proof (cases "n < 16")
    case True
    then show ?thesis using 1(2) by (simp add: hex_digits.simps [of n] hex_char)
  next
    case False
    then have h: "hex_digits n = hex_digits (n div 16) @ [''0123456789abcdef'' ! (n mod 16)]" by (simp add: hex_digits.simps [of n])
    have l: "length (hex_digits (n div 16)) < w" using 1(2) by (simp add: h)
    have d: "digit_value 16 (of_char (''0123456789abcdef'' ! (n mod 16))) = Some (n mod 16)" by (rule hex_char) simp
    show ?thesis
      using 1(1) [OF False, of w "of_char (''0123456789abcdef'' ! (n mod 16)) # cs" acc m] l d
      by (simp add: h algebra_simps)
  qed
qed

lemma length_hex_digits: "n < 16 ^ Suc k \<Longrightarrow> length (hex_digits n) \<le> Suc k"
proof (induction k arbitrary: n)
  case 0
  then show ?case by (simp add: hex_digits.simps [of n])
next
  case (Suc k)
  then show ?case by (auto simp: hex_digits.simps [of n] less_mult_imp_div_less mult.commute)
qed

lemma hex_digits_nonempty: "hex_digits n \<noteq> []"
  by (subst hex_digits.simps) simp

lemma length_fmt_x: "length (fmt_x a) \<le> 8" "0 < length (fmt_x a)"
  using length_hex_digits [of "unat a" 7] unsigned_less [of a] by (simp_all add: fmt_x_def hex_digits_nonempty)

lemma digit_plain: "digit_value 16 c \<noteq> None \<Longrightarrow> \<not> is_space c \<and> c \<noteq> 0x2b \<and> c \<noteq> 0x2d \<and> c \<noteq> 0x58 \<and> c \<noteq> 0x78 \<and> c \<noteq> 0"
  by (auto simp: digit_value_def is_space_def Let_def word_le_nat_alt split: if_splits)

lemma hex_digits_all: "list_all (\<lambda>c. digit_value 16 c \<noteq> None) (ascii (hex_digits n))"
proof (induction n rule: hex_digits.induct)
  case (1 n)
  show ?case
  proof (cases "n < 16")
    case True
    then show ?thesis by (simp add: hex_digits.simps [of n] hex_char)
  next
    case False
    have "digit_value 16 (of_char (''0123456789abcdef'' ! (n mod 16))) = Some (n mod 16)" by (rule hex_char) simp
    then show ?thesis using 1 [OF False] False by (simp add: hex_digits.simps [of n])
  qed
qed

text \<open>A number printed with %x is read back by %x, with or without a width of 8, when no character follows
  that could continue it.\<close>

definition hex_stop :: "byte list \<Rightarrow> bool" where
  "hex_stop cs \<longleftrightarrow> (case cs of [] \<Rightarrow> True | c # _ \<Rightarrow> digit_value 16 c = None \<and> c \<noteq> 0x58 \<and> c \<noteq> 0x78)"

lemma scan_number_fmt_x:
  assumes "length (fmt_x a) \<le> w" "hex_stop cs"
  shows "scan_number 16 w (ascii (fmt_x a) @ cs) = Some (a, cs)"
proof -
  let ?d = "ascii (fmt_x a)"
  obtain c ds where d: "?d = c # ds" using length_fmt_x(2) [of a] by (cases "fmt_x a") auto
  have all: "list_all (\<lambda>c. digit_value 16 c \<noteq> None) ?d" unfolding fmt_x_def by (rule hex_digits_all)
  then have c: "\<not> is_space c" "c \<noteq> 0x2b" "c \<noteq> 0x2d" using d digit_plain [of c] by auto
  have s: "scan_sign w (dropWhile is_space (?d @ cs)) = (False, w, ?d @ cs)" using d c by (simp add: scan_sign_def)
  have p: "scan_prefix 16 w (?d @ cs) = (w, ?d @ cs)"
  proof (cases ds)
    case Nil
    then show ?thesis using d assms(2) by (cases cs) (auto simp: scan_prefix_def hex_stop_def)
  next
    case (Cons x ds')
    then show ?thesis using d all digit_plain [of x] by (auto simp: scan_prefix_def)
  qed
  have "scan_digits 16 w (?d @ cs) 0 0 = (unat a, length (fmt_x a), cs)"
    using scan_hex_digits [of "unat a" w cs 0 0] assms
    by (auto simp: fmt_x_def hex_stop_def split: list.splits)
  moreover have "length (fmt_x a) \<noteq> 0" using length_fmt_x(2) [of a] by simp
  moreover have "unat a < 2 ^ LENGTH(32)" by (rule unsigned_less)
  moreover from this have "clamp_u32 (unat a) = a" by (simp add: clamp_u32_def)
  ultimately show ?thesis by (simp add: scan_number_def s p)
qed

lemma drop_prefix_append [simp]: "drop_prefix l (l @ cs) = Some cs"
  by (induction l) auto

lemma fmt_x_nonzero: "0 \<notin> set (ascii (fmt_x a))"
  using hex_digits_all [of "unat a"] digit_plain [of 0] by (auto simp: fmt_x_def list_all_iff)

lemma cstr_append: "0 \<notin> set p \<Longrightarrow> cstr (p @ r) = p @ cstr r"
  by (induction p) (auto simp: cstr_def)

lemma cstr_0 [simp]: "cstr (0 # r) = []" "cstr [] = []"
  by (simp_all add: cstr_def)

lemma length_ascii [simp]: "length (ascii s) = length s"
  by (simp add: ascii_def)

end
