(* ===== verification/Gdb_Packet.thy ===== *)
theory Gdb_Packet
  imports Hex_Utils
begin

text \<open>
  The GDB remote serial framing of src/gdb_packet.c: capturing packets from the character stream with
  escapes, checksums, acknowledgements and the embedded remote-control packets, and sending packets.
  The stream from the host is a list of characters still to come, what is sent is a list of
  characters; a call that needs more input than there is has not returned (Inl). The caller's buffer
  is a list, and a write outside it has no meaning (None). Handling a remote-control packet
  (src/remote.c) is a parameter, process, giving what it sends.
\<close>

datatype packet_state_e =
  PACKET_IDLE | PACKET_GDB_CAPTURE | PACKET_GDB_ESCAPE | PACKET_GDB_CHECKSUM_UPPER | PACKET_GDB_CHECKSUM_LOWER

abbreviation (input) GDB_PACKET_START :: byte where "GDB_PACKET_START \<equiv> 0x24"
abbreviation (input) GDB_PACKET_END :: byte where "GDB_PACKET_END \<equiv> 0x23"
abbreviation (input) GDB_PACKET_ACK :: byte where "GDB_PACKET_ACK \<equiv> 0x2b"
abbreviation (input) GDB_PACKET_NACK :: byte where "GDB_PACKET_NACK \<equiv> 0x2d"
abbreviation (input) GDB_PACKET_ESCAPE :: byte where "GDB_PACKET_ESCAPE \<equiv> 0x7d"
abbreviation (input) GDB_PACKET_RUNLENGTH_START :: byte where "GDB_PACKET_RUNLENGTH_START \<equiv> 0x2a"
abbreviation (input) GDB_PACKET_NOTIFICATION_START :: byte where "GDB_PACKET_NOTIFICATION_START \<equiv> 0x25"
abbreviation (input) GDB_PACKET_ESCAPE_XOR :: byte where "GDB_PACKET_ESCAPE_XOR \<equiv> 0x20"
abbreviation (input) REMOTE_SOM :: byte where "REMOTE_SOM \<equiv> 0x21"
abbreviation (input) REMOTE_EOM :: byte where "REMOTE_EOM \<equiv> 0x23"
abbreviation (input) EOT :: byte where "EOT \<equiv> 0x04"

definition put :: "nat \<Rightarrow> byte \<Rightarrow> byte list \<Rightarrow> byte list option" where
  "put i c packet = (if i < length packet then Some (packet[i := c]) else None)"

text \<open>Switching NoAckMode: the new mode and what is sent.\<close>

definition gdb_set_noackmode :: "bool \<Rightarrow> bool \<Rightarrow> bool \<times> byte list" where
  "gdb_set_noackmode enable noackmode = (enable, if \<not> enable \<and> noackmode then [GDB_PACKET_ACK] else [])"

subsection \<open>Receiving\<close>

record capture =
  cp_state :: packet_state_e
  cp_offset :: nat
  cp_checksum :: u8
  cp_rx_checksum :: u8
  cp_packet :: "byte list"
  cp_out :: "byte list"

fun consume_remote_packet ::
  "(byte list \<Rightarrow> byte list) \<Rightarrow> nat \<Rightarrow> nat \<Rightarrow> byte list \<Rightarrow> byte list \<Rightarrow> byte list \<Rightarrow>
   (unit + (packet_state_e \<times> byte list \<times> byte list \<times> byte list)) option" where
  "consume_remote_packet process size' offset packet out [] = Some (Inl ())"
| "consume_remote_packet process size' offset packet out (c # cs) =
     (if c = EOT then do { packet \<leftarrow> put 0 c packet; Some (Inr (PACKET_IDLE, packet, out, cs)) }
      else if c = REMOTE_SOM then consume_remote_packet process size' 0 packet out cs
      else if c = REMOTE_EOM then
        do { packet \<leftarrow> put offset 0 packet;
             let out = out @ process (take offset packet);
             packet \<leftarrow> put 0 0 packet;
             Some (Inr (PACKET_IDLE, packet, out, cs)) }
      else if c = GDB_PACKET_START then Some (Inr (PACKET_GDB_CAPTURE, packet, out, cs))
      else if offset < size' then
        do { packet \<leftarrow> put offset c packet; consume_remote_packet process size' (offset + 1) packet out cs }
      else do { packet \<leftarrow> put 0 0 packet; Some (Inr (PACKET_IDLE, packet, out, cs)) })"

text \<open>One character in a state other than PACKET_IDLE; Inl is the final state of a capture that
  returns its offset.\<close>

definition capture_step :: "bool \<Rightarrow> byte \<Rightarrow> capture \<Rightarrow> (capture + capture) option" where
  "capture_step noackmode c s =
     (case cp_state s of
        PACKET_GDB_CAPTURE \<Rightarrow>
          (if c = GDB_PACKET_START then Some (Inr (s\<lparr>cp_offset := 0, cp_checksum := 0\<rparr>))
           else if c = GDB_PACKET_END then Some (Inr (s\<lparr>cp_state := PACKET_GDB_CHECKSUM_UPPER\<rparr>))
           else (let s = s\<lparr>cp_checksum := cp_checksum s + c\<rparr>
                 in if c = GDB_PACKET_ESCAPE then Some (Inr (s\<lparr>cp_state := PACKET_GDB_ESCAPE\<rparr>))
                    else do { p \<leftarrow> put (cp_offset s) c (cp_packet s);
                              Some (Inr (s\<lparr>cp_packet := p, cp_offset := cp_offset s + 1\<rparr>)) }))
      | PACKET_GDB_ESCAPE \<Rightarrow>
          do { p \<leftarrow> put (cp_offset s) (c XOR GDB_PACKET_ESCAPE_XOR) (cp_packet s);
               Some (Inr (s\<lparr>cp_checksum := cp_checksum s + c, cp_packet := p, cp_offset := cp_offset s + 1,
                            cp_state := PACKET_GDB_CAPTURE\<rparr>)) }
      | PACKET_GDB_CHECKSUM_UPPER \<Rightarrow>
          Some (Inr (s\<lparr>cp_rx_checksum := (if noackmode then cp_rx_checksum s else push_bit 4 (unhex_digit c)),
                       cp_state := PACKET_GDB_CHECKSUM_LOWER\<rparr>))
      | PACKET_GDB_CHECKSUM_LOWER \<Rightarrow>
          (let s = (if noackmode then s
                    else (let rx = cp_rx_checksum s OR unhex_digit c
                          in s\<lparr>cp_rx_checksum := rx,
                               cp_out := cp_out s @ [if rx = cp_checksum s then GDB_PACKET_ACK else GDB_PACKET_NACK]\<rparr>))
           in if noackmode \<or> cp_rx_checksum s = cp_checksum s
              then do { p \<leftarrow> put (cp_offset s) 0 (cp_packet s); Some (Inl (s\<lparr>cp_packet := p\<rparr>)) }
              else Some (Inr (s\<lparr>cp_state := PACKET_IDLE\<rparr>)))
      | PACKET_IDLE \<Rightarrow> Some (Inr s))"

text \<open>One character in PACKET_IDLE, with the rest of the stream for a remote packet.\<close>

definition idle_step ::
  "(byte list \<Rightarrow> byte list) \<Rightarrow> nat \<Rightarrow> byte \<Rightarrow> capture \<Rightarrow> byte list \<Rightarrow> (unit + (capture \<times> byte list)) option" where
  "idle_step process size' c s cs =
     do { p \<leftarrow> put 0 c (cp_packet s);
          let s = s\<lparr>cp_packet := p\<rparr>;
          if c = GDB_PACKET_START
          then Some (Inr (s\<lparr>cp_state := PACKET_GDB_CAPTURE, cp_offset := 0, cp_checksum := 0\<rparr>, cs))
          else if c = REMOTE_SOM
          then do { r \<leftarrow> consume_remote_packet process size' 0 p (cp_out s) cs;
                    case r of
                      Inl _ \<Rightarrow> Some (Inl ())
                    | Inr (st, p, out, cs) \<Rightarrow>
                        Some (Inr (s\<lparr>cp_state := st, cp_packet := p, cp_out := out, cp_offset := 0, cp_checksum := 0\<rparr>, cs)) }
          else Some (Inr (s, cs)) }"

lemma consume_shorter:
  "consume_remote_packet process size' offset packet out cs = Some (Inr (st, p, out', cs')) \<Longrightarrow> length cs' \<le> length cs"
  by (induction process size' offset packet out cs rule: consume_remote_packet.induct)
    (auto simp: bind_eq_Some_conv split: if_splits)

lemma idle_step_shorter:
  assumes "idle_step process size' c s cs = Some (Inr (s', cs'))"
  shows "length cs' \<le> length cs"
proof (cases "c = REMOTE_SOM")
  case True
  with assms obtain y r where r: "put 0 c (cp_packet s) = Some y" "consume_remote_packet process size' 0 y (cp_out s) cs = Some r"
    by (auto simp: idle_step_def bind_eq_Some_conv)
  with True assms show ?thesis
    by (cases r) (auto simp: idle_step_def dest: consume_shorter)
next
  case False
  with assms show ?thesis by (auto simp: idle_step_def bind_eq_Some_conv Let_def split: if_splits)
qed

text \<open>The check at the end of each turn of the loop.\<close>

definition overflow_restart :: "nat \<Rightarrow> capture \<Rightarrow> capture" where
  "overflow_restart size' s = (if cp_offset s \<ge> size' then s\<lparr>cp_state := PACKET_IDLE\<rparr> else s)"

function getpacket_loop ::
  "(byte list \<Rightarrow> byte list) \<Rightarrow> bool \<Rightarrow> nat \<Rightarrow> capture \<Rightarrow> byte list \<Rightarrow> (unit + (nat \<times> capture \<times> byte list)) option" where
  "getpacket_loop process noackmode size' s [] = Some (Inl ())"
| "getpacket_loop process noackmode size' s (c # cs) =
     (if cp_state s = PACKET_IDLE then
        (case idle_step process size' c s cs of
           None \<Rightarrow> None
         | Some (Inl _) \<Rightarrow> Some (Inl ())
         | Some (Inr (s', cs')) \<Rightarrow>
             if cp_packet s' ! 0 = EOT
             then (case put 1 0 (cp_packet s') of None \<Rightarrow> None | Some p \<Rightarrow> Some (Inr (1, s'\<lparr>cp_packet := p\<rparr>, cs')))
             else getpacket_loop process noackmode size' (overflow_restart size' s') cs')
      else
        (case capture_step noackmode c s of
           None \<Rightarrow> None
         | Some (Inl s') \<Rightarrow> Some (Inr (cp_offset s', s', cs))
         | Some (Inr s') \<Rightarrow> getpacket_loop process noackmode size' (overflow_restart size' s') cs))"
  by pat_completeness auto
termination
  by (relation "measure (\<lambda>(process, noackmode, size', s, cs). length cs)") (auto dest: idle_step_shorter)

definition gdb_getpacket ::
  "(byte list \<Rightarrow> byte list) \<Rightarrow> bool \<Rightarrow> nat \<Rightarrow> byte list \<Rightarrow> byte list \<Rightarrow>
   (unit + (nat \<times> capture \<times> byte list)) option" where
  "gdb_getpacket process noackmode size' packet input =
     getpacket_loop process noackmode size'
       \<lparr>cp_state = PACKET_IDLE, cp_offset = 0, cp_checksum = 0, cp_rx_checksum = 0, cp_packet = packet, cp_out = []\<rparr> input"

subsection \<open>Sending\<close>

text \<open>The characters gdb_next_char sends for one, and the checksum after it.\<close>

definition needs_escape :: "byte \<Rightarrow> bool" where
  "needs_escape v \<longleftrightarrow> v = GDB_PACKET_START \<or> v = GDB_PACKET_END \<or> v = GDB_PACKET_ESCAPE \<or> v = GDB_PACKET_RUNLENGTH_START"

definition gdb_next_char :: "byte \<Rightarrow> u8 \<Rightarrow> byte list \<times> u8" where
  "gdb_next_char v csum =
     (if needs_escape v
      then ([GDB_PACKET_ESCAPE, v XOR GDB_PACKET_ESCAPE_XOR], csum + (GDB_PACKET_ESCAPE + (v XOR GDB_PACKET_ESCAPE_XOR)))
      else ([v], csum + v))"

fun next_chars :: "byte list \<Rightarrow> u8 \<Rightarrow> byte list \<times> u8" where
  "next_chars [] csum = ([], csum)"
| "next_chars (v # vs) csum =
     (let (o1, csum) = gdb_next_char v csum; (o2, csum) = next_chars vs csum in (o1 @ o2, csum))"

text \<open>snprintf of a byte with %02X.\<close>

definition csum_digits :: "u8 \<Rightarrow> byte list" where
  "csum_digits csum = [hex_digit (drop_bit 4 csum), hex_digit (csum AND 0xf)]"

definition frame_bytes :: "byte \<Rightarrow> byte list \<Rightarrow> byte list" where
  "frame_bytes start packet =
     (let (body, csum) = next_chars packet 0 in start # body @ GDB_PACKET_END # csum_digits csum)"

text \<open>The resend loop: one reply per try, a value other than the acknowledgement when
  gdb_if_getchar_to times out; an exhausted list is an endless timeout.\<close>

fun send_tries :: "bool \<Rightarrow> byte list \<Rightarrow> nat \<Rightarrow> byte option list \<Rightarrow> byte list \<times> byte option list" where
  "send_tries noackmode fr tries_left replies =
     (if noackmode then (fr, replies)
      else (let (r, replies) = (case replies of [] \<Rightarrow> (None, []) | r # rs \<Rightarrow> (r, rs))
            in if r = Some GDB_PACKET_ACK then (fr, replies)
               else (case tries_left of
                       0 \<Rightarrow> (fr, replies)
                     | Suc n \<Rightarrow> (let (out, replies) = send_tries noackmode fr n replies in (fr @ out, replies)))))"

declare send_tries.simps [simp del]

definition gdb_putpacket :: "bool \<Rightarrow> byte list \<Rightarrow> byte option list \<Rightarrow> byte list \<times> byte option list" where
  "gdb_putpacket noackmode packet replies = send_tries noackmode (frame_bytes GDB_PACKET_START packet) 3 replies"

definition gdb_putpacket2 :: "bool \<Rightarrow> byte list \<Rightarrow> byte list \<Rightarrow> byte option list \<Rightarrow> byte list \<times> byte option list" where
  "gdb_putpacket2 noackmode packet1 packet2 replies =
     (let (body1, csum) = next_chars packet1 0;
          (body2, csum) = next_chars packet2 csum
      in send_tries noackmode (GDB_PACKET_START # body1 @ body2 @ GDB_PACKET_END # csum_digits csum) 3 replies)"

definition gdb_put_notification :: "byte list \<Rightarrow> byte list" where
  "gdb_put_notification packet = frame_bytes GDB_PACKET_NOTIFICATION_START packet"

text \<open>Console output: a failed allocation sends nothing; with the local user interface capturing, the
  text goes there instead.\<close>

definition gdb_out ::
  "bool \<Rightarrow> bool \<Rightarrow> bool \<Rightarrow> byte list \<Rightarrow> byte option list \<Rightarrow> byte list \<times> byte list \<times> byte option list" where
  "gdb_out ui_capture_active alloc_ok noackmode text replies =
     (if ui_capture_active then (text, [], replies)
      else if \<not> alloc_ok then ([], [], replies)
      else (let (out, replies) = gdb_putpacket2 noackmode [0x4f] (take (2 * length text) (hexify text)) replies
            in ([], out, replies)))"

subsection \<open>Framing round trip\<close>

lemma next_chars_append:
  "next_chars (xs @ ys) k =
     (let (o1, k) = next_chars xs k; (o2, k) = next_chars ys k in (o1 @ o2, k))"
  by (induction xs arbitrary: k) (auto simp: Let_def split: prod.splits)

lemma xor_escape [simp]: "(v XOR 0x20) XOR (0x20 :: byte) = v"
  by (simp add: xor.assoc)

lemma put_in [simp]: "i < length p \<Longrightarrow> put i c p = Some (p[i := c])"
  by (simp add: put_def)

definition in_capture :: "capture \<Rightarrow> nat \<Rightarrow> bool" where
  "in_capture s size' \<longleftrightarrow> cp_state s = PACKET_GDB_CAPTURE \<and> cp_offset s < size' \<and> size' < length (cp_packet s)"

lemma loop_next_char:
  assumes "in_capture s size'" "cp_offset s + 1 < size'"
  shows "getpacket_loop process na size' s (fst (gdb_next_char v k) @ cs) =
    getpacket_loop process na size' (s\<lparr>cp_packet := (cp_packet s)[cp_offset s := v], cp_offset := cp_offset s + 1,
      cp_checksum := cp_checksum s + (snd (gdb_next_char v k) - k)\<rparr>) cs"
proof (cases "needs_escape v")
  case True
  then show ?thesis using assms
    by (cases s) (auto simp: gdb_next_char_def in_capture_def capture_step_def overflow_restart_def Let_def add.assoc)
next
  case False
  then show ?thesis using assms
    by (cases s) (auto simp: gdb_next_char_def in_capture_def capture_step_def overflow_restart_def Let_def needs_escape_def)
qed

definition captured :: "byte list \<Rightarrow> u8 \<Rightarrow> capture \<Rightarrow> capture" where
  "captured vs k s = s\<lparr>cp_packet := take (cp_offset s) (cp_packet s) @ vs @ drop (cp_offset s + length vs) (cp_packet s),
     cp_offset := cp_offset s + length vs, cp_checksum := k\<rparr>"

lemma captured_Cons:
  assumes "cp_offset s < length (cp_packet s)"
  shows "captured vs k' (s\<lparr>cp_packet := (cp_packet s)[cp_offset s := v], cp_offset := cp_offset s + 1, cp_checksum := k\<rparr>) =
    captured (v # vs) k' s"
  using assms by (auto simp: captured_def take_Suc_conv_app_nth intro!: capture.equality)

lemma loop_next_chars:
  assumes "in_capture s size'" "cp_offset s + length vs < size'" "next_chars vs (cp_checksum s) = (body, k)"
  shows "getpacket_loop process na size' s (body @ cs) = getpacket_loop process na size' (captured vs k s) cs"
  using assms
proof (induction vs arbitrary: s body)
  case Nil
  then show ?case by (cases s) (simp add: captured_def)
next
  case (Cons v vs)
  let ?k = "cp_checksum s"
  obtain b2 where b: "body = fst (gdb_next_char v ?k) @ b2" "next_chars vs (snd (gdb_next_char v ?k)) = (b2, k)"
    using Cons.prems(3) by (auto simp: Let_def split: prod.splits)
  let ?s = "s\<lparr>cp_packet := (cp_packet s)[cp_offset s := v], cp_offset := cp_offset s + 1, cp_checksum := snd (gdb_next_char v ?k)\<rparr>"
  have "getpacket_loop process na size' s (body @ cs) = getpacket_loop process na size' ?s (b2 @ cs)"
    using loop_next_char [OF Cons.prems(1), of process na v ?k "b2 @ cs"] Cons.prems(2) by (simp add: b(1))
  also have "\<dots> = getpacket_loop process na size' (captured vs k ?s) cs"
    by (rule Cons.IH) (use Cons.prems b(2) in \<open>auto simp: in_capture_def\<close>)
  also have "captured vs k ?s = captured (v # vs) k s"
    by (rule captured_Cons) (use Cons.prems(1) in \<open>simp add: in_capture_def\<close>)
  finally show ?case .
qed

lemma csum_digits_ok: "push_bit 4 (unhex_digit (csum_digits k ! 0)) OR unhex_digit (csum_digits k ! 1) = k"
  by (simp add: csum_digits_def nibbles_join)

lemma loop_tail:
  assumes "cp_state s = PACKET_GDB_CAPTURE" "cp_offset s < size'" "size' < length (cp_packet s)"
  shows "getpacket_loop process na size' s (GDB_PACKET_END # csum_digits (cp_checksum s) @ cs) =
    Some (Inr (cp_offset s, s\<lparr>cp_state := PACKET_GDB_CHECKSUM_LOWER,
      cp_rx_checksum := (if na then cp_rx_checksum s else cp_checksum s),
      cp_out := (if na then cp_out s else cp_out s @ [GDB_PACKET_ACK]), cp_packet := (cp_packet s)[cp_offset s := 0]\<rparr>, cs))"
  using assms by (cases s) (auto simp: csum_digits_def capture_step_def overflow_restart_def Let_def nibbles_join)

lemma packet_received:
  assumes "length payload < size'" "size' < length buffer"
  shows "\<exists>s. gdb_getpacket process noackmode size' buffer (frame_bytes GDB_PACKET_START payload @ rest) =
      Some (Inr (length payload, s, rest)) \<and>
    cp_packet s = payload @ 0 # drop (Suc (length payload)) buffer \<and>
    cp_out s = (if noackmode then [] else [GDB_PACKET_ACK])"
proof -
  obtain body k where bk: "next_chars payload 0 = (body, k)" by fastforce
  let ?s = "\<lparr>cp_state = PACKET_GDB_CAPTURE, cp_offset = 0, cp_checksum = 0, cp_rx_checksum = 0, cp_packet = buffer[0 := 0x24], cp_out = []\<rparr>"
  have ne: "0 < size'" "buffer \<noteq> []" using assms by auto
  then have "gdb_getpacket process noackmode size' buffer (frame_bytes GDB_PACKET_START payload @ rest) =
    getpacket_loop process noackmode size' ?s (body @ GDB_PACKET_END # csum_digits k @ rest)"
    by (simp add: gdb_getpacket_def frame_bytes_def bk idle_step_def overflow_restart_def)
  also have "\<dots> = getpacket_loop process noackmode size' (captured payload k ?s) (GDB_PACKET_END # csum_digits k @ rest)"
    by (rule loop_next_chars) (use assms bk ne in \<open>auto simp: in_capture_def\<close>)
  finally have eq: "gdb_getpacket process noackmode size' buffer (frame_bytes GDB_PACKET_START payload @ rest) =
    getpacket_loop process noackmode size' (captured payload k ?s) (GDB_PACKET_END # csum_digits k @ rest)" .
  show ?thesis unfolding eq
    using loop_tail [of "captured payload k ?s" size' process noackmode rest] assms
    by (auto simp: captured_def nth_append list_update_append drop_update_swap upd_conv_take_nth_drop)
qed

text \<open>C29: a packet sent by the framing code is received as it was, acknowledged unless NoAckMode is
  on, and the stream is left right behind it.\<close>

theorem gdb_packet_roundtrip:
  assumes "length payload < size'" "size' < length buffer"
  shows "\<exists>s. gdb_getpacket process noackmode size' buffer (frame_bytes GDB_PACKET_START payload @ rest) =
      Some (Inr (length payload, s, rest)) \<and>
    take (length payload) (cp_packet s) = payload \<and> cp_packet s ! length payload = 0 \<and>
    cp_out s = (if noackmode then [] else [GDB_PACKET_ACK])"
  using packet_received [OF assms, of process noackmode rest] by (auto simp: nth_append)

lemma bad_tail:
  assumes "cp_state s = PACKET_GDB_CAPTURE" "cp_offset s < size'" "size' < length (cp_packet s)" "k' \<noteq> cp_checksum s"
  shows "getpacket_loop process False size' s (GDB_PACKET_END # csum_digits k' @ cs) =
      getpacket_loop process False size' (s\<lparr>cp_state := PACKET_IDLE, cp_rx_checksum := k', cp_out := cp_out s @ [GDB_PACKET_NACK]\<rparr>) cs"
    "getpacket_loop process True size' s (GDB_PACKET_END # csum_digits k' @ cs) =
      Some (Inr (cp_offset s, s\<lparr>cp_state := PACKET_GDB_CHECKSUM_LOWER, cp_packet := (cp_packet s)[cp_offset s := 0]\<rparr>, cs))"
  using assms by (cases s; auto simp: csum_digits_def capture_step_def overflow_restart_def Let_def nibbles_join)+

text \<open>C33: a frame whose checksum digits are those of another value. While packets are acknowledged it
  is refused: it is answered with a negative acknowledgement and capture starts again behind it. In
  NoAckMode checksums are ignored: its payload is received and nothing is sent.\<close>

theorem gdb_packet_bad_checksum:
  assumes "length payload < size'" "size' < length buffer" "next_chars payload 0 = (body, k)" "k' \<noteq> k"
  shows "\<exists>s. gdb_getpacket process noackmode size' buffer (GDB_PACKET_START # body @ GDB_PACKET_END # csum_digits k' @ rest) =
      (if noackmode then Some (Inr (length payload, s, rest)) else getpacket_loop process noackmode size' s rest) \<and>
    (if noackmode then take (length payload) (cp_packet s) = payload \<and> cp_packet s ! length payload = 0 \<and> cp_out s = []
     else cp_state s = PACKET_IDLE \<and> cp_out s = [GDB_PACKET_NACK])"
proof -
  let ?s = "\<lparr>cp_state = PACKET_GDB_CAPTURE, cp_offset = 0, cp_checksum = 0, cp_rx_checksum = 0, cp_packet = buffer[0 := 0x24], cp_out = []\<rparr>"
  have ne: "0 < size'" "buffer \<noteq> []" using assms(1,2) by auto
  then have "gdb_getpacket process noackmode size' buffer (GDB_PACKET_START # body @ GDB_PACKET_END # csum_digits k' @ rest) =
    getpacket_loop process noackmode size' ?s (body @ GDB_PACKET_END # csum_digits k' @ rest)"
    by (simp add: gdb_getpacket_def idle_step_def overflow_restart_def)
  also have "\<dots> = getpacket_loop process noackmode size' (captured payload k ?s) (GDB_PACKET_END # csum_digits k' @ rest)"
    by (rule loop_next_chars) (use assms ne in \<open>auto simp: in_capture_def\<close>)
  finally have eq: "gdb_getpacket process noackmode size' buffer (GDB_PACKET_START # body @ GDB_PACKET_END # csum_digits k' @ rest) =
    getpacket_loop process noackmode size' (captured payload k ?s) (GDB_PACKET_END # csum_digits k' @ rest)" .
  show ?thesis unfolding eq
    using bad_tail [of "captured payload k ?s" size' k' process rest] assms
    by (cases noackmode) (auto simp: captured_def nth_append list_update_append)
qed

subsection \<open>The caller's buffer\<close>

lemma put_length: "put i c p = Some p' \<Longrightarrow> length p' = length p"
  by (auto simp: put_def split: if_splits)

lemma consume_safe:
  assumes "offset \<le> size'" "size' < length packet"
  shows "\<exists>r. consume_remote_packet process size' offset packet out cs = Some r \<and>
    (\<forall>st p out' cs'. r = Inr (st, p, out', cs') \<longrightarrow> length p = length packet)"
  using assms
proof (induction process size' offset packet out cs rule: consume_remote_packet.induct)
  case (2 process size' offset packet out c cs)
  have "packet \<noteq> []" using 2(4) by auto
  with 2 show ?case by auto
qed simp

lemma idle_step_safe:
  assumes "cp_offset s \<le> size'" "size' < length (cp_packet s)" "cp_state s = PACKET_IDLE"
  shows "\<exists>r. idle_step process size' c s cs = Some r \<and>
    (\<forall>s' cs'. r = Inr (s', cs') \<longrightarrow> length (cp_packet s') = length (cp_packet s) \<and> cp_offset s' \<le> size')"
proof -
  have ne: "cp_packet s \<noteq> []" using assms(2) by auto
  obtain r where "consume_remote_packet process size' 0 ((cp_packet s)[0 := c]) (cp_out s) cs = Some r"
    "\<forall>st p out' cs'. r = Inr (st, p, out', cs') \<longrightarrow> length p = length (cp_packet s)"
    using consume_safe [of 0 size' "(cp_packet s)[0 := c]" process "cp_out s" cs] assms(2) by auto
  with ne assms(1) show ?thesis by (cases r) (auto simp: idle_step_def Let_def)
qed

lemma capture_step_safe:
  assumes "cp_offset s < size'" "size' < length (cp_packet s)"
  shows "\<exists>r. capture_step na c s = Some r \<and>
    (\<forall>s'. r = Inr s' \<longrightarrow> length (cp_packet s') = length (cp_packet s) \<and> cp_offset s' \<le> size')"
  using assms by (cases "cp_state s") (auto simp: capture_step_def Let_def)

lemma loop_safe:
  assumes "cp_offset s \<le> size'" "0 < size'" "size' < length (cp_packet s)" "cp_state s \<noteq> PACKET_IDLE \<longrightarrow> cp_offset s < size'"
  shows "getpacket_loop process na size' s cs \<noteq> None"
  using assms
proof (induction process na size' s cs rule: getpacket_loop.induct)
  case (2 process na size' s c cs)
  show ?case
  proof (cases "cp_state s = PACKET_IDLE")
    case True
    obtain r where r: "idle_step process size' c s cs = Some r"
      "\<forall>s' cs'. r = Inr (s', cs') \<longrightarrow> length (cp_packet s') = length (cp_packet s) \<and> cp_offset s' \<le> size'"
      using idle_step_safe [OF 2(3,5) True] by blast
    show ?thesis
    proof (cases r)
      case (Inl a)
      with True r(1) show ?thesis by simp
    next
      case (Inr b)
      obtain s' cs' where b: "b = (s', cs')" by (cases b)
      have s': "length (cp_packet s') = length (cp_packet s)" "cp_offset s' \<le> size'" using r(2) Inr b by auto
      have IH: "getpacket_loop process na size' (overflow_restart size' s') cs' \<noteq> None" if "cp_packet s' ! 0 \<noteq> EOT"
        by (rule 2(1) [OF True r(1) Inr b [symmetric] that]) (use s' 2(4,5) in \<open>auto simp: overflow_restart_def\<close>)
      have "1 < length (cp_packet s')" using s'(1) 2(4,5) by linarith
      with True r(1) Inr b IH show ?thesis by simp
    qed
  next
    case False
    obtain r where r: "capture_step na c s = Some r"
      "\<forall>s'. r = Inr s' \<longrightarrow> length (cp_packet s') = length (cp_packet s) \<and> cp_offset s' \<le> size'"
      using capture_step_safe [of s size' na c] 2(5,6) False by blast
    show ?thesis
    proof (cases r)
      case (Inl a)
      with False r(1) show ?thesis by simp
    next
      case (Inr s')
      have "getpacket_loop process na size' (overflow_restart size' s') cs \<noteq> None"
        by (rule 2(2) [OF False r(1) Inr]) (use r(2) Inr 2(4,5) in \<open>auto simp: overflow_restart_def\<close>)
      with False r(1) Inr show ?thesis by simp
    qed
  qed
qed simp

text \<open>C32: capturing never writes outside a buffer of size + 1 characters, whatever arrives.\<close>

theorem gdb_getpacket_in_bounds:
  assumes "0 < size'" "length buffer = size' + 1"
  shows "gdb_getpacket process noackmode size' buffer input \<noteq> None"
  unfolding gdb_getpacket_def by (rule loop_safe) (use assms in simp_all)

subsection \<open>Resending\<close>

lemma send_tries_unfold:
  "send_tries True fr n rs = (fr, rs)"
  "send_tries False fr n (Some GDB_PACKET_ACK # rs) = (fr, rs)"
  "r \<noteq> Some GDB_PACKET_ACK \<Longrightarrow> send_tries False fr (Suc n) (r # rs) =
     (let (out, rs) = send_tries False fr n rs in (fr @ out, rs))"
  "send_tries False fr 0 (r # rs) = (fr, rs)"
  by (simp_all add: send_tries.simps [of _ _ _ "_ # _"] send_tries.simps [of True])

text \<open>How often a packet is sent. With acknowledgements on, it goes out once more for each of the
  first refusals or timeouts, four times at most, and each try takes one reply.\<close>

theorem gdb_putpacket_tries:
  assumes "Some GDB_PACKET_ACK \<notin> set bad" "length bad \<le> 3"
  shows "gdb_putpacket False packet (bad @ Some GDB_PACKET_ACK # replies) =
    (concat (replicate (length bad + 1) (frame_bytes GDB_PACKET_START packet)), replies)"
proof -
  have "send_tries False fr n (bad @ Some GDB_PACKET_ACK # replies) = (concat (replicate (length bad + 1) fr), replies)"
    if "length bad \<le> n" "Some GDB_PACKET_ACK \<notin> set bad" for fr n bad
    using that
  proof (induction bad arbitrary: n)
    case (Cons b bad)
    then show ?case by (cases n) (auto simp: send_tries_unfold)
  qed (simp add: send_tries_unfold)
  with assms show ?thesis by (simp add: gdb_putpacket_def)
qed

lemma putpacket2_append: "gdb_putpacket2 noackmode p1 p2 replies = gdb_putpacket noackmode (p1 @ p2) replies"
  by (simp add: gdb_putpacket2_def gdb_putpacket_def frame_bytes_def next_chars_append Let_def split: prod.splits)

text \<open>Sending a packet in two parts sends the same characters as sending it whole.\<close>

theorem gdb_putpacket2_append:
  "gdb_putpacket2 noackmode p1 p2 replies = gdb_putpacket noackmode (p1 @ p2) replies"
  by (rule putpacket2_append)

subsection \<open>Instances\<close>

text \<open>The packet g, sent and received into a buffer of four characters, with an interrupt character
  left in the stream.\<close>

theorem gdb_packet_roundtrip_witness:
  "\<forall>process. \<exists>s. gdb_getpacket process False 3 [0, 0, 0, 0] (frame_bytes GDB_PACKET_START [0x67] @ [0x03]) = Some (Inr (1, s, [0x03])) \<and>
     take 1 (cp_packet s) = [0x67] \<and> cp_packet s ! 1 = 0 \<and> cp_out s = [GDB_PACKET_ACK]"
  using gdb_packet_roundtrip [of "[0x67]" 3 "[0, 0, 0, 0]" _ False "[0x03]"] by simp

theorem gdb_packet_bad_checksum_witness:
  "\<forall>process. (\<exists>s. gdb_getpacket process False 3 [0, 0, 0, 0] (GDB_PACKET_START # [0x67] @ GDB_PACKET_END # csum_digits 0x68 @ []) =
      getpacket_loop process False 3 s [] \<and> cp_state s = PACKET_IDLE \<and> cp_out s = [GDB_PACKET_NACK]) \<and>
    (\<exists>s. gdb_getpacket process True 3 [0, 0, 0, 0] (GDB_PACKET_START # [0x67] @ GDB_PACKET_END # csum_digits 0x68 @ []) =
      Some (Inr (1, s, [])) \<and> cp_packet s ! 1 = 0 \<and> cp_out s = [])"
proof -
  have "next_chars [0x67] 0 = ([0x67], 0x67)" by (simp add: gdb_next_char_def needs_escape_def)
  note w = gdb_packet_bad_checksum [OF _ _ this, of 3 "[0, 0, 0, 0]" "0x68" _ _ "[]"]
  show ?thesis using w [where noackmode = False] w [where noackmode = True] by (intro allI conjI) fastforce+
qed

theorem gdb_getpacket_in_bounds_witness: "\<forall>process input. gdb_getpacket process False 1 [0, 0] input \<noteq> None"
  by (intro allI gdb_getpacket_in_bounds) simp_all

theorem gdb_putpacket_tries_witness:
  "gdb_putpacket False [0x4f, 0x4b] ([Some GDB_PACKET_NACK, None] @ Some GDB_PACKET_ACK # []) =
     (frame_bytes GDB_PACKET_START [0x4f, 0x4b] @ frame_bytes GDB_PACKET_START [0x4f, 0x4b] @ frame_bytes GDB_PACKET_START [0x4f, 0x4b], [])"
  using gdb_putpacket_tries [of "[Some GDB_PACKET_NACK, None]" "[0x4f, 0x4b]" "[]"] by simp

end
