(* ===== verification/Rtt.thy ===== *)
theory Rtt
  imports Target
begin

text \<open>
  Real-time transfer, src/rtt.c: the search for the control block in target memory, the copy of the ring
  buffers of its channels between target and host, and the poll that drives both and adapts its pace. The
  record rtt holds the file's variables; the host side is the characters waiting to be sent to the target and
  those sent to the host, and the times platform_time_ms gives are a list. Messages for the console are
  collected in rt_msgs. Search loops that wrap around the address space do not end; fuel bounds the number of
  blocks read and of halt polls, and None is the result when it does not suffice.
\<close>

subsection \<open>State\<close>

abbreviation (input) MAX_RTT_CHAN :: nat where "MAX_RTT_CHAN \<equiv> 16"
abbreviation (input) RTT_UP_BUF_SIZE :: nat where "RTT_UP_BUF_SIZE \<equiv> 1032"

datatype rtt_retval_e = RTT_OK | RTT_IDLE | RTT_ERR

record rtt_channel =
  name_addr :: u32
  buf_addr :: u32
  buf_size :: u32
  rt_head :: u32
  rt_tail :: u32
  rt_flag :: u32

record rtt =
  rtt_enabled :: bool
  rtt_found :: bool
  rtt_halt :: bool
  rtt_cbaddr :: u32
  rtt_num_up_chan :: u32
  rtt_num_down_chan :: u32
  rtt_auto_channel :: bool
  rtt_channel_enabled :: "bool list"
  rtt_channels :: "rtt_channel list"
  rtt_min_poll_ms :: u32
  rtt_max_poll_ms :: u32
  rtt_max_poll_errs :: u32
  poll_ms :: u32
  poll_errs :: u32
  last_poll_ms :: u32
  rtt_flag_skip :: bool
  rtt_flag_block :: bool
  rtt_flag_ram :: bool
  rtt_ram_start :: u32
  rtt_ram_end :: u32
  saved_cblock_header :: "byte list"
  rtt_ident :: "byte list"
  rt_down :: "byte list"
  rt_up :: "byte list"
  rt_times :: "u32 list"
  rt_msgs :: "string list"

definition no_channel :: rtt_channel where
  "no_channel = \<lparr>name_addr = 0, buf_addr = 0, buf_size = 0, rt_head = 0, rt_tail = 0, rt_flag = 0\<rparr>"

text \<open>The variables at start-up.\<close>

definition rtt_statics :: rtt where
  "rtt_statics = \<lparr>rtt_enabled = False, rtt_found = False, rtt_halt = False, rtt_cbaddr = 0, rtt_num_up_chan = 0, rtt_num_down_chan = 0,
     rtt_auto_channel = True, rtt_channel_enabled = replicate MAX_RTT_CHAN False, rtt_channels = replicate MAX_RTT_CHAN no_channel,
     rtt_min_poll_ms = 8, rtt_max_poll_ms = 256, rtt_max_poll_errs = 10, poll_ms = 0, poll_errs = 0, last_poll_ms = 0,
     rtt_flag_skip = False, rtt_flag_block = False, rtt_flag_ram = False, rtt_ram_start = 0, rtt_ram_end = 0,
     saved_cblock_header = replicate 24 0, rtt_ident = replicate 16 0, rt_down = [], rt_up = [], rt_times = [], rt_msgs = []\<rparr>"

definition rt_out :: "string \<Rightarrow> rtt \<Rightarrow> rtt" where
  "rt_out m r = r\<lparr>rt_msgs := rt_msgs r @ [m]\<rparr>"

definition read_fail :: "u32 \<Rightarrow> rtt \<Rightarrow> rtt" where
  "read_fail addr r = rt_out (''rtt: read fail at 0x'' @ fmt_x addr @ [CHR 0x0d, CHR 0x0a]) r"

subsection \<open>Finding the control block\<close>

abbreviation (input) rk_p :: u64 where "rk_p \<equiv> 0x444110cd"
abbreviation (input) rk_q :: u64 where "rk_q \<equiv> 0x797a9691"
abbreviation (input) rk_r :: u64 where "rk_r \<equiv> 0x73b07d01"

text \<open>One step of the rolling hash: the byte old leaves the window and new enters it.\<close>

definition rk_step :: "u64 \<Rightarrow> byte \<Rightarrow> byte \<Rightarrow> u64" where
  "rk_step t old new =
     (let t = (t + rk_q - rk_r * ucast old mod rk_q) mod rk_q
      in (push_bit 8 t + ucast new) mod rk_q)"

text \<open>The scan of one block: Inr i when the hash matches after the i-th byte.\<close>

function rk_scan :: "byte list \<Rightarrow> nat \<Rightarrow> nat \<Rightarrow> u64 \<Rightarrow> u64 + nat" where
  "rk_scan srch_buf n i t =
     (if i < n
      then (let t = rk_step t (srch_buf ! i) (srch_buf ! (i + 16))
            in if rk_p = t then Inr i else rk_scan srch_buf n (Suc i) t)
      else Inl t)"
  by pat_completeness auto
termination
  by (relation "measure (\<lambda>(_, n, i, _). n - i)") auto

declare rk_scan.simps [simp del]

primrec fast_search_loop ::
  "'h target_scheme target_ops \<Rightarrow> nat \<Rightarrow> u32 \<Rightarrow> u32 \<Rightarrow> byte list \<Rightarrow> u64 \<Rightarrow> rtt \<Rightarrow> 'h target_scheme \<Rightarrow>
   (u32 \<times> rtt \<times> 'h target_scheme) option" where
  "fast_search_loop ops 0 addr ram_end srch_buf t r tg = (if addr < ram_end then None else Some (0, r, tg))"
| "fast_search_loop ops (Suc fuel) addr ram_end srch_buf t r tg =
     (if addr < ram_end
      then do { let buf_siz = unat (min 128 (ram_end - addr));
                let srch_buf = take 16 (drop 128 srch_buf) @ drop 16 srch_buf;
                (err, dat, tg) \<leftarrow> target_mem_read ops (drop 16 srch_buf) addr buf_siz tg;
                if err then Some (0, read_fail addr r, tg)
                else (case rk_scan (take 16 srch_buf @ dat) buf_siz 0 t of
                        Inr i \<Rightarrow> Some (addr + of_nat i - 16 + 1, r, tg)
                      | Inl t \<Rightarrow> fast_search_loop ops fuel (addr + 128) ram_end (take 16 srch_buf @ dat) t r tg) }
      else Some (0, r, tg))"

definition fast_search ::
  "'h target_scheme target_ops \<Rightarrow> nat \<Rightarrow> u32 \<Rightarrow> u32 \<Rightarrow> rtt \<Rightarrow> 'h target_scheme \<Rightarrow> (u32 \<times> rtt \<times> 'h target_scheme) option" where
  "fast_search ops fuel from_addr to_addr r tg = fast_search_loop ops fuel from_addr to_addr (replicate 144 0) 0 r tg"

text \<open>The search for a given text, in blocks of 128 bytes that overlap. The buffer is not initialised; a read
  that fails leaves the search to go on with the next block.\<close>

definition rtt_ident_str :: "rtt \<Rightarrow> byte list" where
  "rtt_ident_str r = takeWhile (\<lambda>b. b \<noteq> 0) (rtt_ident r)"

definition ident_offset :: "byte list \<Rightarrow> byte list \<Rightarrow> nat \<Rightarrow> nat option" where
  "ident_offset s srch_buf buf_siz =
     find (\<lambda>off. take (length s) (drop off srch_buf) = s) [0..<buf_siz - length s - 1]"

primrec memory_search_loop ::
  "'h target_scheme target_ops \<Rightarrow> byte list \<Rightarrow> nat \<Rightarrow> u32 \<Rightarrow> u32 \<Rightarrow> rtt \<Rightarrow> 'h target_scheme \<Rightarrow>
   (u32 \<times> rtt \<times> 'h target_scheme) option" where
  "memory_search_loop ops s 0 addr ram_end r tg = (if addr < ram_end then None else Some (0, r, tg))"
| "memory_search_loop ops s (Suc fuel) addr ram_end r tg =
     (if addr < ram_end
      then do { let buf_siz = unat (min (ram_end - addr) 128);
                (err, dat, tg) \<leftarrow> target_mem_read ops (replicate 128 0) addr buf_siz tg;
                if err then memory_search_loop ops s fuel (addr + (128 - of_nat (length s) - 1)) ram_end (read_fail addr r) tg
                else (case ident_offset s dat buf_siz of
                        Some off \<Rightarrow> Some (addr + of_nat off, r, tg)
                      | None \<Rightarrow> memory_search_loop ops s fuel (addr + (128 - of_nat (length s) - 1)) ram_end r tg) }
      else Some (0, r, tg))"

definition memory_search ::
  "'h target_scheme target_ops \<Rightarrow> nat \<Rightarrow> u32 \<Rightarrow> u32 \<Rightarrow> rtt \<Rightarrow> 'h target_scheme \<Rightarrow> (u32 \<times> rtt \<times> 'h target_scheme) option" where
  "memory_search ops fuel from_addr to_addr r tg =
     (let s = rtt_ident_str r
      in if length s = 0 \<or> length s > 64 then Some (0, r, tg)
         else memory_search_loop ops s fuel from_addr to_addr r tg)"

definition search_range ::
  "'h target_scheme target_ops \<Rightarrow> nat \<Rightarrow> u32 \<Rightarrow> u32 \<Rightarrow> rtt \<Rightarrow> 'h target_scheme \<Rightarrow> (u32 \<times> rtt \<times> 'h target_scheme) option" where
  "search_range ops fuel from_addr to_addr r tg =
     (if take 1 (rtt_ident r) = [0] then fast_search ops fuel from_addr to_addr r tg
      else memory_search ops fuel from_addr to_addr r tg)"

primrec search_ram ::
  "'h target_scheme target_ops \<Rightarrow> nat \<Rightarrow> target_ram list \<Rightarrow> rtt \<Rightarrow> 'h target_scheme \<Rightarrow> (u32 \<times> rtt \<times> 'h target_scheme) option" where
  "search_ram ops fuel [] r tg = Some (0, r, tg)"
| "search_ram ops fuel (m # ms) r tg =
     do { (a, r, tg) \<leftarrow> search_range ops fuel (ram_start m) (ram_start m + ram_length m) r tg;
          if a \<noteq> 0 then Some (a, r, tg) else search_ram ops fuel ms r tg }"

text \<open>The numbers of channels in the control block, cut down to the table of this file.\<close>

definition channel_counts :: "u32 \<Rightarrow> u32 \<Rightarrow> u32 \<times> u32" where
  "channel_counts n0 n1 =
     (let up = (if n0 > 16 then 16 else n0) in (up, if up + n1 > 16 then 16 - up else n1))"

definition auto_channels :: "u32 \<Rightarrow> u32 \<Rightarrow> bool list" where
  "auto_channels up down =
     (let en = (replicate MAX_RTT_CHAN False)[0 := (up > 0), 1 := (up > 1)]
      in if up < 16 \<and> down > 0 then en[unat up := True] else en)"

definition u32_at :: "byte list \<Rightarrow> nat \<Rightarrow> u32" where
  "u32_at bs k = u32_of_bytes (take 4 (drop k bs))"

text \<open>The control block at rtt_cbaddr is taken over.\<close>

definition accept_cblock :: "'h target_scheme target_ops \<Rightarrow> rtt \<Rightarrow> 'h target_scheme \<Rightarrow> (rtt \<times> 'h target_scheme) option" where
  "accept_cblock ops r tg =
     do { (err, num_buf, tg) \<leftarrow> target_mem_read ops (replicate 8 0) (rtt_cbaddr r + 16) 8 tg;
          if err then Some (r, tg)
          else do {
            let (up, down) = channel_counts (u32_at num_buf 0) (u32_at num_buf 4);
            let r = r\<lparr>rtt_num_up_chan := up, rtt_num_down_chan := down\<rparr>;
            if up > 255 \<or> down > 255 then Some ((rt_out (''rtt: bad cblock'' @ [CHR 0x0d, CHR 0x0a]) r)\<lparr>rtt_enabled := False\<rparr>, tg)
            else if up = 0 \<and> down = 0 then Some ((rt_out (''rtt: empty cblock'' @ [CHR 0x0d, CHR 0x0a]) r)\<lparr>rtt_enabled := False\<rparr>, tg)
            else do {
              let r = r\<lparr>rtt_channels := replicate MAX_RTT_CHAN no_channel\<rparr>;
              let r = (if rtt_auto_channel r then r\<lparr>rtt_channel_enabled := auto_channels up down\<rparr> else r);
              (err, hdr, tg) \<leftarrow> target_mem_read ops (saved_cblock_header r) (rtt_cbaddr r) 24 tg;
              if err then Some (r\<lparr>saved_cblock_header := hdr\<rparr>, tg)
              else Some (r\<lparr>saved_cblock_header := hdr, rtt_found := True\<rparr>, tg) } } }"

definition search_cblock ::
  "'h target_scheme target_ops \<Rightarrow> nat \<Rightarrow> rtt \<Rightarrow> 'h target_scheme \<Rightarrow> (u32 \<times> rtt \<times> 'h target_scheme) option" where
  "search_cblock ops fuel r tg =
     (if \<not> rtt_flag_ram r then search_ram ops fuel (t_ram tg) r tg
      else search_range ops fuel (rtt_ram_start r) (rtt_ram_end r) r tg)"

definition find_rtt :: "'h target_scheme target_ops \<Rightarrow> nat \<Rightarrow> rtt \<Rightarrow> 'h target_scheme \<Rightarrow> (rtt \<times> 'h target_scheme) option" where
  "find_rtt ops fuel r tg =
     do { let r = r\<lparr>rtt_found := False, poll_ms := rtt_max_poll_ms r, poll_errs := 0, last_poll_ms := 0\<rparr>;
          if \<not> rtt_enabled r then Some (r, tg)
          else do {
            (a, r, tg) \<leftarrow> search_cblock ops fuel (r\<lparr>rtt_cbaddr := 0\<rparr>) tg;
            let r = r\<lparr>rtt_cbaddr := a\<rparr>;
            if a = 0 then Some (r, tg) else accept_cblock ops r tg } }"

subsection \<open>From host to target\<close>

definition set_channel :: "nat \<Rightarrow> rtt_channel \<Rightarrow> rtt \<Rightarrow> rtt" where
  "set_channel i c r = r\<lparr>rtt_channels := (rtt_channels r)[i := c]\<rparr>"

text \<open>The characters are copied until the ring is full or there are none left; False is a failed write.\<close>

function read_rtt_loop ::
  "'h target_scheme target_ops \<Rightarrow> nat \<Rightarrow> rtt \<Rightarrow> 'h target_scheme \<Rightarrow> (bool \<times> rtt \<times> 'h target_scheme) option" where
  "read_rtt_loop ops i r tg =
     (let c = rtt_channels r ! i;
          next_head = (rt_head c + 1) mod buf_size c
      in if rt_tail c = next_head then Some (True, r, tg)
         else (case rt_down r of
                 [] \<Rightarrow> Some (True, r, tg)
               | ch # rest \<Rightarrow>
                   do { (err, tg) \<leftarrow> target_mem_write ops (buf_addr c + rt_head c) [ch] 1 tg;
                        if err then Some (False, r\<lparr>rt_down := rest\<rparr>, tg)
                        else read_rtt_loop ops i (set_channel i (c\<lparr>rt_head := next_head\<rparr>) (r\<lparr>rt_down := rest\<rparr>)) tg }))"
  by pat_completeness auto
termination
  by (relation "measure (\<lambda>(_, _, r, _). length (rt_down r))") (auto simp: set_channel_def)

declare read_rtt_loop.simps [simp del]

definition read_rtt ::
  "'h target_scheme target_ops \<Rightarrow> nat \<Rightarrow> rtt \<Rightarrow> 'h target_scheme \<Rightarrow> (rtt_retval_e \<times> rtt \<times> 'h target_scheme) option" where
  "read_rtt ops i r tg =
     (if rt_down r = [] then Some (RTT_IDLE, r, tg)
      else if length (rtt_channels r) \<le> i then None
      else (let c = rtt_channels r ! i
            in if buf_addr c = 0 \<or> buf_size c = 0 then Some (RTT_IDLE, r, tg)
               else if rt_head c \<ge> buf_size c \<or> rt_tail c \<ge> buf_size c then Some (RTT_ERR, r, tg)
               else do { (ok, r, tg) \<leftarrow> read_rtt_loop ops i r tg;
                         if \<not> ok then Some (RTT_ERR, r, tg)
                         else do { (err, tg) \<leftarrow> target_mem_write ops (rtt_cbaddr r + 24 + of_nat i * 24 + 12)
                                                  (bytes_of_u32 (rt_head (rtt_channels r ! i))) 4 tg;
                                   Some (if err then RTT_ERR else RTT_OK, r, tg) } }))"

subsection \<open>From target to host\<close>

text \<open>The buffer has room for len and the padding; the bytes behind len are what the aligned read left.\<close>

definition rtt_aligned_mem_read ::
  "'h target_scheme target_ops \<Rightarrow> byte list \<Rightarrow> u32 \<Rightarrow> u32 \<Rightarrow> 'h target_scheme \<Rightarrow> (bool \<times> byte list \<times> 'h target_scheme) option" where
  "rtt_aligned_mem_read ops dest src len tg =
     (let offset = src AND 3;
          src0 = src - offset;
          len0 = len + offset;
          len0 = (if len0 AND 3 \<noteq> 0 then (len0 + 4) AND NOT 3 else len0)
      in if src0 = src \<and> len0 = len then target_mem_read ops dest src (unat len) tg
         else if length dest < unat len0 then None
         else do { (err, dest, tg) \<leftarrow> target_mem_read ops dest src0 (unat len0) tg;
                   Some (err, take (unat len) (drop (unat offset) dest) @ drop (unat len) dest, tg) })"

text \<open>One of the two reads of print_rtt: len bytes from the tail of the channel into the buffer behind the
  bytes already read. The result is the advanced channel, the buffer and the number of bytes in it.\<close>

definition print_part ::
  "'h target_scheme target_ops \<Rightarrow> rtt_channel \<Rightarrow> u32 \<Rightarrow> byte list \<Rightarrow> nat \<Rightarrow> 'h target_scheme \<Rightarrow>
   ((rtt_channel \<times> byte list \<times> nat) option \<times> 'h target_scheme) option" where
  "print_part ops c len xmit_buf bytes_read tg =
     do { (err, dat, tg) \<leftarrow> rtt_aligned_mem_read ops (drop bytes_read xmit_buf) (buf_addr c + rt_tail c) len tg;
          if err then Some (None, tg)
          else Some (Some (c\<lparr>rt_tail := (rt_tail c + len) mod buf_size c\<rparr>, take bytes_read xmit_buf @ dat, bytes_read + unat len), tg) }"

text \<open>The part of the ring up to its end when the data wraps around, then the part before the head. The result
  is the channel as far as it got and, unless a read failed, the buffer with the number of bytes in it.\<close>

definition print_parts ::
  "'h target_scheme target_ops \<Rightarrow> rtt_channel \<Rightarrow> 'h target_scheme \<Rightarrow>
   (rtt_channel \<times> (byte list \<times> nat) option \<times> 'h target_scheme) option" where
  "print_parts ops c tg =
     do { (p, tg) \<leftarrow> (if rt_tail c > rt_head c
                      then print_part ops c (min (buf_size c - rt_tail c) 1024) (replicate RTT_UP_BUF_SIZE 0) 0 tg
                      else Some (Some (c, replicate RTT_UP_BUF_SIZE 0, 0), tg));
          (case p of
             None \<Rightarrow> Some (c, None, tg)
           | Some (c, xmit_buf, n) \<Rightarrow>
               do { (p, tg) \<leftarrow> (if rt_head c > rt_tail c \<and> n < 1024
                                then print_part ops c (min (rt_head c - rt_tail c) (1024 - of_nat n)) xmit_buf n tg
                                else Some (Some (c, xmit_buf, n), tg));
                    (case p of
                       None \<Rightarrow> Some (c, None, tg)
                     | Some (c, xmit_buf, n) \<Rightarrow> Some (c, Some (xmit_buf, n), tg)) }) }"

definition print_rtt ::
  "'h target_scheme target_ops \<Rightarrow> nat \<Rightarrow> rtt \<Rightarrow> 'h target_scheme \<Rightarrow> (rtt_retval_e \<times> rtt \<times> 'h target_scheme) option" where
  "print_rtt ops i r tg =
     (if length (rtt_channels r) \<le> i then None
      else (let c = rtt_channels r ! i
            in if buf_addr c = 0 \<or> buf_size c = 0 then Some (RTT_IDLE, r, tg)
               else if rt_head c \<ge> buf_size c \<or> rt_tail c \<ge> buf_size c then Some (RTT_ERR, r, tg)
               else if rt_head c = rt_tail c then Some (RTT_IDLE, r, tg)
               else do {
                 (c, p, tg) \<leftarrow> print_parts ops c tg;
                 let r = set_channel i c r;
                 (case p of
                    None \<Rightarrow> Some (RTT_ERR, r, tg)
                  | Some (xmit_buf, n) \<Rightarrow>
                      do { (err, tg) \<leftarrow> target_mem_write ops (rtt_cbaddr r + 24 + of_nat i * 24 + 16) (bytes_of_u32 (rt_tail c)) 4 tg;
                           if err then Some (RTT_ERR, r, tg)
                           else Some (RTT_OK, r\<lparr>rt_up := rt_up r @ take n xmit_buf\<rparr>, tg) }) }))"

subsection \<open>Polling\<close>

text \<open>target_mem_access_needs_halt: the core's name contains RVDBG.\<close>

fun is_infix :: "string \<Rightarrow> string \<Rightarrow> bool" where
  "is_infix p [] = (p = [])"
| "is_infix p (c # s) = (take (length p) (c # s) = p \<or> is_infix p s)"

definition target_mem_access_needs_halt :: "'h target_scheme \<Rightarrow> bool" where
  "target_mem_access_needs_halt tg = (case core tg of None \<Rightarrow> False | Some n \<Rightarrow> is_infix ''RVDBG'' n)"

primrec halt_wait ::
  "'h target_scheme target_ops \<Rightarrow> nat \<Rightarrow> 'h target_scheme \<Rightarrow> (target_halt_reason_e \<times> 'h target_scheme) option" where
  "halt_wait ops 0 tg = None"
| "halt_wait ops (Suc n) tg =
     do { ((reason, _), tg) \<leftarrow> target_halt_poll ops tg;
          if reason = TARGET_HALT_RUNNING then halt_wait ops n tg else Some (reason, tg) }"

text \<open>A running target is halted for the memory accesses when it has to be; True tells to resume it.\<close>

definition rtt_halt_target ::
  "'h target_scheme target_ops \<Rightarrow> nat \<Rightarrow> rtt \<Rightarrow> 'h target_scheme \<Rightarrow> (bool \<times> 'h target_scheme) option" where
  "rtt_halt_target ops fuel r tg =
     (if \<not> rtt_halt r then Some (False, tg)
      else do { ((reason, _), tg) \<leftarrow> target_halt_poll ops tg;
                if reason \<noteq> TARGET_HALT_RUNNING then Some (False, tg)
                else do { tg \<leftarrow> target_halt_request ops tg;
                          (reason, tg) \<leftarrow> halt_wait ops fuel tg;
                          Some (reason = TARGET_HALT_REQUEST, tg) } })"

definition parse_channel :: "byte list \<Rightarrow> nat \<Rightarrow> rtt_channel" where
  "parse_channel bs i =
     \<lparr>name_addr = u32_at bs (24 * i), buf_addr = u32_at bs (24 * i + 4), buf_size = u32_at bs (24 * i + 8),
      rt_head = u32_at bs (24 * i + 12), rt_tail = u32_at bs (24 * i + 16), rt_flag = u32_at bs (24 * i + 20)\<rparr>"

text \<open>The channels in turn: whether one was busy and whether one failed.\<close>

fun rtt_io ::
  "'h target_scheme target_ops \<Rightarrow> nat list \<Rightarrow> bool \<Rightarrow> bool \<Rightarrow> rtt \<Rightarrow> 'h target_scheme \<Rightarrow>
   (bool \<times> bool \<times> rtt \<times> 'h target_scheme) option" where
  "rtt_io ops [] busy err r tg = Some (busy, err, r, tg)"
| "rtt_io ops (i # is) busy err r tg =
     (if length (rtt_channel_enabled r) \<le> i \<or> length (rtt_channels r) \<le> i then None
      else if \<not> rtt_channel_enabled r ! i then rtt_io ops is busy err r tg
      else do { (result, r, tg) \<leftarrow>
                  (if i < unat (rtt_num_up_chan r) then print_rtt ops i r tg
                   else read_rtt ops i (r\<lparr>rtt_flag_skip := (rt_flag (rtt_channels r ! i) = 0),
                                          rtt_flag_block := (rt_flag (rtt_channels r ! i) = 2)\<rparr>) tg);
                rtt_io ops is (busy \<or> result = RTT_OK) (err \<or> result = RTT_ERR) r tg })"

text \<open>The control block must not have changed since it was found.\<close>

definition check_cblock :: "'h target_scheme target_ops \<Rightarrow> rtt \<Rightarrow> 'h target_scheme \<Rightarrow> (rtt \<times> 'h target_scheme) option" where
  "check_cblock ops r tg =
     (if \<not> rtt_found r then Some (r, tg)
      else do { (err, hdr, tg) \<leftarrow> target_mem_read ops (replicate 24 0) (rtt_cbaddr r) 24 tg;
                Some (if err \<or> hdr \<noteq> saved_cblock_header r then r\<lparr>rtt_found := False\<rparr> else r, tg) })"

definition channel_bytes :: "rtt_channel \<Rightarrow> byte list" where
  "channel_bytes c =
     bytes_of_u32 (name_addr c) @ bytes_of_u32 (buf_addr c) @ bytes_of_u32 (buf_size c) @
     bytes_of_u32 (rt_head c) @ bytes_of_u32 (rt_tail c) @ bytes_of_u32 (rt_flag c)"

text \<open>The table of channels is read from the target in place, also when the read then reports an error.\<close>

definition rtt_transfer :: "'h target_scheme target_ops \<Rightarrow> rtt \<Rightarrow> 'h target_scheme \<Rightarrow> (bool \<times> bool \<times> rtt \<times> 'h target_scheme) option" where
  "rtt_transfer ops r tg =
     (if \<not> (rtt_found r \<and> rtt_cbaddr r \<noteq> 0) then Some (False, False, r, tg)
      else (let n = unat (rtt_num_up_chan r + rtt_num_down_chan r)
            in if MAX_RTT_CHAN < n then None
               else do { (err, bs, tg) \<leftarrow> target_mem_read ops (concat (map channel_bytes (take n (rtt_channels r)))) (rtt_cbaddr r + 24) (24 * n) tg;
                         let r = r\<lparr>rtt_channels := map (parse_channel bs) [0..<n] @ drop n (rtt_channels r)\<rparr>;
                         if err then Some (False, True, read_fail (rtt_cbaddr r + 24) r, tg)
                         else rtt_io ops [0..<n] False False r tg }))"

definition poll_pace :: "bool \<Rightarrow> rtt \<Rightarrow> u32" where
  "poll_pace faster r =
     (let p = (if faster then poll_ms r div 2 else poll_ms r * 2)
      in if p > rtt_max_poll_ms r then rtt_max_poll_ms r else if p < rtt_min_poll_ms r then rtt_min_poll_ms r else p)"

definition count_errors :: "bool \<Rightarrow> rtt \<Rightarrow> rtt" where
  "count_errors err r =
     (if \<not> err then r
      else (let r = (rt_out (''rtt: err'' @ [CHR 0x0d, CHR 0x0a]) r)\<lparr>poll_errs := poll_errs r + 1\<rparr>
            in if rtt_max_poll_errs r \<noteq> 0 \<and> poll_errs r > rtt_max_poll_errs r
               then (rt_out ([CHR 0x0d, CHR 0x0a] @ ''rtt lost'' @ [CHR 0x0d, CHR 0x0a]) r)\<lparr>rtt_enabled := False\<rparr> else r))"

text \<open>A poll that is due at the time now.\<close>

definition poll_round :: "'h target_scheme target_ops \<Rightarrow> nat \<Rightarrow> u32 \<Rightarrow> rtt \<Rightarrow> 'h target_scheme \<Rightarrow> (rtt \<times> 'h target_scheme) option" where
  "poll_round ops fuel now r tg =
     do { let r = (if rtt_found r then r else r\<lparr>rtt_halt := target_mem_access_needs_halt tg\<rparr>);
          (resume_target, tg) \<leftarrow> rtt_halt_target ops fuel r tg;
          (r, tg) \<leftarrow> (if rtt_found r then Some (r, tg) else find_rtt ops fuel r tg);
          (r, tg) \<leftarrow> check_cblock ops r tg;
          (busy, err, r, tg) \<leftarrow> rtt_transfer ops r tg;
          tg \<leftarrow> (if resume_target then target_halt_resume ops False tg else Some tg);
          let r = r\<lparr>last_poll_ms := now\<rparr>;
          let r = r\<lparr>poll_ms := poll_pace (busy \<and> \<not> err) r\<rparr>;
          Some (count_errors err r, tg) }"

definition poll_due :: "u32 \<Rightarrow> rtt \<Rightarrow> bool" where
  "poll_due now r \<longleftrightarrow> last_poll_ms r + poll_ms r \<le> now \<or> now < last_poll_ms r"

definition poll_rtt :: "'h target_scheme target_ops \<Rightarrow> nat \<Rightarrow> rtt \<Rightarrow> 'h target_scheme \<Rightarrow> (rtt \<times> 'h target_scheme) option" where
  "poll_rtt ops fuel r tg =
     (if \<not> rtt_enabled r then Some (r, tg)
      else (let now = (case rt_times r of [] \<Rightarrow> 0 | t # ts \<Rightarrow> t);
                r = r\<lparr>rt_times := tl (rt_times r)\<rparr>
            in if poll_due now r then poll_round ops fuel now r tg else Some (r, tg)))"

subsection \<open>Invariant\<close>

text \<open>What the tables and the pace have to satisfy between polls.\<close>

definition rtt_wf :: "rtt \<Rightarrow> bool" where
  "rtt_wf r \<longleftrightarrow> length (rtt_channels r) = MAX_RTT_CHAN \<and> length (rtt_channel_enabled r) = MAX_RTT_CHAN \<and>
     rtt_min_poll_ms r \<le> rtt_max_poll_ms r \<and>
     (rtt_found r \<longrightarrow> unat (rtt_num_up_chan r) + unat (rtt_num_down_chan r) \<le> MAX_RTT_CHAN \<and>
        rtt_min_poll_ms r \<le> poll_ms r \<and> poll_ms r \<le> rtt_max_poll_ms r)"

text \<open>What the transfer of data leaves alone.\<close>

definition keeps :: "rtt \<Rightarrow> rtt \<Rightarrow> bool" where
  "keeps r r' \<longleftrightarrow> length (rtt_channels r') = length (rtt_channels r) \<and> rtt_channel_enabled r' = rtt_channel_enabled r \<and>
     rtt_found r' = rtt_found r \<and> rtt_num_up_chan r' = rtt_num_up_chan r \<and> rtt_num_down_chan r' = rtt_num_down_chan r \<and>
     rtt_min_poll_ms r' = rtt_min_poll_ms r \<and> rtt_max_poll_ms r' = rtt_max_poll_ms r \<and> poll_ms r' = poll_ms r \<and>
     rtt_enabled r' = rtt_enabled r \<and> rtt_halt r' = rtt_halt r \<and> rtt_cbaddr r' = rtt_cbaddr r \<and>
     saved_cblock_header r' = saved_cblock_header r \<and> rtt_flag_ram r' = rtt_flag_ram r \<and>
     rtt_ram_start r' = rtt_ram_start r \<and> rtt_ram_end r' = rtt_ram_end r"

lemma keeps_refl [simp]: "keeps r r"
  by (simp add: keeps_def)

lemma keeps_trans [trans]: "keeps r s \<Longrightarrow> keeps s t \<Longrightarrow> keeps r t"
  by (simp add: keeps_def)

lemma keeps_upd [simp]:
  "keeps r (set_channel i c r)" "keeps r (r\<lparr>rt_down := d\<rparr>)" "keeps r (r\<lparr>rt_up := u\<rparr>)" "keeps r (read_fail a r)" "keeps r (rt_out m r)"
  "keeps r (r\<lparr>rtt_flag_skip := b, rtt_flag_block := b'\<rparr>)" "keeps r (r\<lparr>rt_times := ts\<rparr>)"
  by (simp_all add: keeps_def set_channel_def read_fail_def rt_out_def)

lemma fast_search_frame:
  assumes "fast_search_loop ops fuel addr e b t r tg = Some (a, r', tg')"
  shows "keeps r r'"
  using assms
proof (induction fuel arbitrary: addr b t r tg)
  case 0
  then show ?case by (simp split: if_splits)
next
  case (Suc fuel)
  then show ?case by (fastforce simp: Let_def bind_eq_Some_conv split: if_splits sum.splits)
qed

lemma memory_search_frame:
  assumes "memory_search_loop ops s fuel addr e r tg = Some (a, r', tg')"
  shows "keeps r r'"
  using assms
proof (induction fuel arbitrary: addr r tg)
  case 0
  then show ?case by (simp split: if_splits)
next
  case (Suc fuel)
  show ?case
  proof (cases "addr < e")
    case True
    then obtain err dat tg1 where
      "(if err then memory_search_loop ops s fuel (addr + (128 - of_nat (length s) - 1)) e (read_fail addr r) tg1
        else (case ident_offset s dat (unat (min (e - addr) 128)) of
                Some off \<Rightarrow> Some (addr + of_nat off, r, tg1)
              | None \<Rightarrow> memory_search_loop ops s fuel (addr + (128 - of_nat (length s) - 1)) e r tg1)) = Some (a, r', tg')"
      using Suc.prems by (auto simp: Let_def bind_eq_Some_conv)
    then show ?thesis by (auto split: if_splits option.splits dest!: Suc.IH intro: keeps_trans [OF keeps_upd(4)])
  qed (use Suc.prems in simp)
qed

lemma search_range_frame: "search_range ops fuel a e r tg = Some (x, r', tg') \<Longrightarrow> keeps r r'"
  by (auto simp: search_range_def fast_search_def memory_search_def Let_def split: if_splits
      dest: fast_search_frame memory_search_frame)

lemma search_ram_frame: "search_ram ops fuel ms r tg = Some (x, r', tg') \<Longrightarrow> keeps r r'"
  by (induction ms arbitrary: r tg)
    (auto simp: bind_eq_Some_conv split: if_splits dest: search_range_frame intro: keeps_trans)

lemma read_rtt_loop_frame: "read_rtt_loop ops i r tg = Some (ok, r', tg') \<Longrightarrow> keeps r r'"
proof (induction ops i r tg rule: read_rtt_loop.induct)
  case (1 ops i r tg)
  show ?case
  proof (cases "rt_down r")
    case Nil
    then show ?thesis using "1.prems" by (subst (asm) read_rtt_loop.simps) (simp add: Let_def split: if_splits)
  next
    case (Cons ch rest)
    let ?c = "rtt_channels r ! i"
    let ?r = "set_channel i (?c\<lparr>rt_head := (rt_head ?c + 1) mod buf_size ?c\<rparr>) (r\<lparr>rt_down := rest\<rparr>)"
    have "keeps r ?r" by (rule keeps_trans [OF keeps_upd(2) keeps_upd(1)])
    with Cons "1.prems" "1.IH" [OF refl refl _ Cons] show ?thesis
      by (subst (asm) read_rtt_loop.simps) (auto simp: Let_def bind_eq_Some_conv intro: keeps_trans split: if_splits)
  qed
qed

lemma read_rtt_frame: "read_rtt ops i r tg = Some (x, r', tg') \<Longrightarrow> keeps r r'"
  by (auto simp: read_rtt_def Let_def bind_eq_Some_conv split: if_splits dest: read_rtt_loop_frame)

lemma print_rtt_frame: "print_rtt ops i r tg = Some (x, r', tg') \<Longrightarrow> keeps r r'"
  by (auto simp: print_rtt_def Let_def bind_eq_Some_conv keeps_def set_channel_def split: if_splits option.splits)

lemma rtt_io_frame: "rtt_io ops is busy err r tg = Some (b, e, r', tg') \<Longrightarrow> keeps r r'"
proof (induction ops "is" busy err r tg rule: rtt_io.induct)
  case (2 ops i "is" busy err r tg)
  then show ?case
    by (fastforce simp: bind_eq_Some_conv intro: keeps_trans [OF print_rtt_frame] keeps_trans [OF keeps_trans [OF keeps_upd(6) read_rtt_frame]] split: if_splits)
qed simp

lemma channel_counts_bound:
  assumes "channel_counts n m = (up, down)" "down \<le> 255"
  shows "unat up + unat down \<le> 16"
proof -
  have up: "unat up \<le> 16" "up = (if n > 16 then 16 else n)" using assms(1) by (auto simp: channel_counts_def Let_def word_less_nat_alt split: if_splits)
  show ?thesis
  proof (cases "up + m > 16")
    case True
    then have "down = 16 - up" using assms(1) up(2) by (auto simp: channel_counts_def Let_def)
    then show ?thesis using up(1) by (simp add: unat_sub word_le_nat_alt)
  next
    case False
    then have "down = m" using assms(1) up(2) by (auto simp: channel_counts_def Let_def)
    then show ?thesis using False up(1) assms(2) by (simp add: word_le_nat_alt word_less_nat_alt unat_word_ariths)
  qed
qed

lemma accept_cblock_wf:
  assumes "accept_cblock ops r tg = Some (r', tg')" "rtt_wf r" "\<not> rtt_found r" "poll_ms r = rtt_max_poll_ms r"
  shows "rtt_wf r'"
proof -
  have len: "length (auto_channels up down) = 16" for up down by (simp add: auto_channels_def Let_def)
  show ?thesis using assms
    by (auto simp: accept_cblock_def Let_def bind_eq_Some_conv rtt_wf_def rt_out_def len not_less
        intro: channel_counts_bound split: if_splits prod.splits)
qed

lemma search_cblock_frame: "search_cblock ops fuel r tg = Some (x, r', tg') \<Longrightarrow> keeps r r'"
  by (auto simp: search_cblock_def split: if_splits dest: search_range_frame search_ram_frame)

lemma find_rtt_wf:
  assumes "find_rtt ops fuel r tg = Some (r', tg')" "rtt_wf r"
  shows "rtt_wf r'"
proof (cases "rtt_enabled r")
  case False
  then show ?thesis using assms by (auto simp: find_rtt_def rtt_wf_def)
next
  case True
  let ?r = "r\<lparr>rtt_found := False, poll_ms := rtt_max_poll_ms r, poll_errs := 0, last_poll_ms := 0, rtt_cbaddr := 0\<rparr>"
  obtain a s tg1 where s: "search_cblock ops fuel ?r tg = Some (a, s, tg1)"
    "(if a = 0 then Some (s\<lparr>rtt_cbaddr := a\<rparr>, tg1) else accept_cblock ops (s\<lparr>rtt_cbaddr := a\<rparr>) tg1) = Some (r', tg')"
    using assms(1) True by (simp add: find_rtt_def Let_def bind_eq_Some_conv split: prod.splits) blast
  have "rtt_wf (s\<lparr>rtt_cbaddr := a\<rparr>)" "\<not> rtt_found (s\<lparr>rtt_cbaddr := a\<rparr>)" "poll_ms (s\<lparr>rtt_cbaddr := a\<rparr>) = rtt_max_poll_ms (s\<lparr>rtt_cbaddr := a\<rparr>)"
    using search_cblock_frame [OF s(1)] assms(2) by (auto simp: keeps_def rtt_wf_def)
  then show ?thesis using s(2) accept_cblock_wf [of ops "s\<lparr>rtt_cbaddr := a\<rparr>"] by (cases "a = 0") auto
qed

lemma keeps_wf: "keeps r r' \<Longrightarrow> rtt_wf r \<Longrightarrow> rtt_wf r'"
  by (simp add: keeps_def rtt_wf_def)

lemma check_cblock_wf: "check_cblock ops r tg = Some (r', tg') \<Longrightarrow> rtt_wf r \<Longrightarrow> rtt_wf r'"
  by (auto simp: check_cblock_def bind_eq_Some_conv rtt_wf_def split: if_splits)

lemma rtt_transfer_wf:
  assumes "rtt_transfer ops r tg = Some (b, e, r', tg')" "rtt_wf r"
  shows "rtt_wf r'"
proof -
  let ?n = "unat (rtt_num_up_chan r + rtt_num_down_chan r)"
  have "rtt_wf (r\<lparr>rtt_channels := map (parse_channel bs) [0..<?n] @ drop ?n (rtt_channels r)\<rparr>)" if "\<not> 16 < ?n" for bs
    using that assms(2) by (simp add: rtt_wf_def)
  then show ?thesis using assms
    by (auto simp: rtt_transfer_def Let_def bind_eq_Some_conv split: if_splits dest!: rtt_io_frame dest: keeps_wf intro: keeps_wf [OF keeps_upd(4)])
qed

lemma poll_pace_bounds:
  "rtt_min_poll_ms r \<le> rtt_max_poll_ms r \<Longrightarrow> rtt_min_poll_ms r \<le> poll_pace f r \<and> poll_pace f r \<le> rtt_max_poll_ms r"
  by (auto simp: poll_pace_def Let_def)

lemma poll_round_wf:
  assumes "poll_round ops fuel now r tg = Some (r', tg')" "rtt_wf r"
  shows "rtt_wf r'"
proof -
  let ?r = "if rtt_found r then r else r\<lparr>rtt_halt := target_mem_access_needs_halt tg\<rparr>"
  obtain rs t1 r2 t2 r3 t3 busy err r4 t4 where s:
    "(if rtt_found ?r then Some (?r, t1) else find_rtt ops fuel ?r t1) = Some (r2, t2)"
    "check_cblock ops r2 t2 = Some (r3, t3)" "rtt_transfer ops r3 t3 = Some (busy, err, r4, t4)"
    "r' = count_errors err ((r4\<lparr>last_poll_ms := now\<rparr>)\<lparr>poll_ms := poll_pace (busy \<and> \<not> err) (r4\<lparr>last_poll_ms := now\<rparr>)\<rparr>)"
    using assms(1) unfolding poll_round_def by (auto simp: Let_def bind_eq_Some_conv)
  have "rtt_wf ?r" using assms(2) by (simp add: rtt_wf_def)
  then have "rtt_wf r2" using s(1) find_rtt_wf by (auto split: if_splits)
  then have "rtt_wf r4" using s(2,3) check_cblock_wf rtt_transfer_wf by blast
  then show ?thesis using poll_pace_bounds [of "r4\<lparr>last_poll_ms := now\<rparr>"]
    unfolding s(4) by (auto simp: count_errors_def rtt_wf_def rt_out_def Let_def)
qed

lemma poll_rtt_keeps_wf:
  assumes "poll_rtt ops fuel r tg = Some (r', tg')" "rtt_wf r"
  shows "rtt_wf r'"
proof -
  have "rtt_wf (r\<lparr>rt_times := ts\<rparr>)" for ts using assms(2) by (simp add: rtt_wf_def)
  then show ?thesis using assms by (auto simp: poll_rtt_def Let_def dest: poll_round_wf split: if_splits)
qed

end
