(* ===== verification/Gdb_Main.thy ===== *)
theory Gdb_Main
  imports Scanf Gdb_Packet Target_Flash Crc32 Rtt
begin

text \<open>
  The GDB server of src/gdb_main.c: one handler per packet over the target layer, with the reply each sends;
  the poll of a running target, and the loop of src/main.c that takes packets from the link. The record
  gdb_server holds the file's globals, the list of targets (the pointers cur_target and last_target are
  positions in it), the packet buffer and the two directions of the link. A change under one target shows in
  the others as gs_share says, since targets may sit on one debug port.

  None is a use of a null pointer, of a variable sscanf did not set or of memory outside a buffer, or a poll
  that the given fuel does not finish. Exceptions raised below the target layer, LEDs and debug output are
  left out. The monitor commands, the register description and the remote protocol are parameters, the record gdb_ext, which also gives the fuel of a poll of src/rtt.c.
\<close>

subsection \<open>State\<close>

record 's gdb_server =
  gs_targets :: "('s target_ops \<times> 's) list"
  gs_share :: "'s \<Rightarrow> 's \<Rightarrow> 's"
  cur_target :: "nat option"
  last_target :: "nat option"
  gdb_target_running :: bool
  gdb_needs_detach_notify :: bool
  gdb_controller :: target_controller
  gs_noackmode :: bool
  gs_pbuf :: "byte list"
  gs_out :: "byte list"
  gs_input :: "byte option list"
  gs_ui_capture :: "byte list option"
  gs_mallocs :: "bool list"
  gs_crc_ms :: "u32 list"
  semihosting_wallclock_epoch :: u32
  semihosting_features_offset :: u8
  gs_stdout :: "byte list"
  gs_rtt :: rtt

record 's gdb_ext =
  x_command_process :: "byte list \<Rightarrow> 's gdb_server \<Rightarrow> (int \<times> 's gdb_server) option"
  x_regs_description :: "'s target_ops \<Rightarrow> 's \<Rightarrow> byte list"
  x_rtt_fuel :: nat
  x_remote :: "byte list \<Rightarrow> byte list"

abbreviation (input) GDB_PACKET_BUFFER_SIZE :: nat where "GDB_PACKET_BUFFER_SIZE \<equiv> 1024"
abbreviation (input) MAX_CMDLINE :: nat where "MAX_CMDLINE \<equiv> 81"

subsection \<open>The link\<close>

definition reply :: "byte list \<Rightarrow> 's gdb_server \<Rightarrow> 's gdb_server" where
  "reply p s = (let (out, input) = gdb_putpacket (gs_noackmode s) p (gs_input s) in s\<lparr>gs_out := gs_out s @ out, gs_input := input\<rparr>)"

definition reply2 :: "byte list \<Rightarrow> byte list \<Rightarrow> 's gdb_server \<Rightarrow> 's gdb_server" where
  "reply2 p q s = (let (out, input) = gdb_putpacket2 (gs_noackmode s) p q (gs_input s) in s\<lparr>gs_out := gs_out s @ out, gs_input := input\<rparr>)"

definition replyz :: "string \<Rightarrow> 's gdb_server \<Rightarrow> 's gdb_server" where
  "replyz text s = reply (ascii text) s"

definition set_noackmode :: "bool \<Rightarrow> 's gdb_server \<Rightarrow> 's gdb_server" where
  "set_noackmode enable s =
     (let (mode, out) = gdb_set_noackmode enable (gs_noackmode s) in s\<lparr>gs_noackmode := mode, gs_out := gs_out s @ out\<rparr>)"

definition console :: "string \<Rightarrow> 's gdb_server \<Rightarrow> 's gdb_server" where
  "console text s =
     (let (ok, ms) = (case gs_mallocs s of [] \<Rightarrow> (True, []) | m # ms \<Rightarrow> (m, ms));
          (ui, out, input) = gdb_out (gs_ui_capture s \<noteq> None) ok (gs_noackmode s) (ascii text) (gs_input s)
      in s\<lparr>gs_ui_capture := map_option (\<lambda>u. u @ ui) (gs_ui_capture s), gs_mallocs := (if gs_ui_capture s = None then ms else gs_mallocs s),
           gs_out := gs_out s @ out, gs_input := input\<rparr>)"

text \<open>A reply of hexadecimal text is written into the packet buffer first.\<close>

definition reply_hex :: "byte list \<Rightarrow> 's gdb_server \<Rightarrow> 's gdb_server option" where
  "reply_hex bs s =
     (let h = hexify bs
      in if length h \<le> length (gs_pbuf s)
         then Some (reply (take (2 * length bs) h) (s\<lparr>gs_pbuf := h @ drop (length h) (gs_pbuf s)\<rparr>))
         else None)"

subsection \<open>Targets\<close>

definition on_target :: "nat \<Rightarrow> ('s target_ops \<Rightarrow> 's \<Rightarrow> ('a \<times> 's) option) \<Rightarrow> 's gdb_server \<Rightarrow> ('a \<times> 's gdb_server) option" where
  "on_target i f s =
     (if i < length (gs_targets s)
      then do { let (ops, t) = gs_targets s ! i;
                (x, t) \<leftarrow> f ops t;
                Some (x, s\<lparr>gs_targets := (map (map_prod id (gs_share s t)) (gs_targets s))[i := (ops, t)]\<rparr>) }
      else None)"

definition on_cur :: "('s target_ops \<Rightarrow> 's \<Rightarrow> ('a \<times> 's) option) \<Rightarrow> 's gdb_server \<Rightarrow> ('a \<times> 's gdb_server) option" where
  "on_cur f s = (case cur_target s of None \<Rightarrow> None | Some i \<Rightarrow> on_target i f s)"

definition of_target :: "nat \<Rightarrow> ('s target_ops \<Rightarrow> 's \<Rightarrow> 'a) \<Rightarrow> 's gdb_server \<Rightarrow> 'a option" where
  "of_target i f s = (if i < length (gs_targets s) then Some (f (fst (gs_targets s ! i)) (snd (gs_targets s ! i))) else None)"

definition of_cur :: "('s target_ops \<Rightarrow> 's \<Rightarrow> 'a) \<Rightarrow> 's gdb_server \<Rightarrow> 'a option" where
  "of_cur f s = (case cur_target s of None \<Rightarrow> None | Some i \<Rightarrow> of_target i f s)"

definition on_cur_do :: "('s target_ops \<Rightarrow> 's \<Rightarrow> 's option) \<Rightarrow> 's gdb_server \<Rightarrow> 's gdb_server option" where
  "on_cur_do f s = do { (_, s) \<leftarrow> on_cur (\<lambda>ops t. do { t \<leftarrow> f ops t; Some ((), t) }) s; Some s }"

definition gdb_target_destroy_callback :: "nat \<Rightarrow> 's gdb_server \<Rightarrow> 's gdb_server" where
  "gdb_target_destroy_callback i s =
     (let s = (if cur_target s = Some i
               then (let s = s\<lparr>gs_out := gs_out s @ gdb_put_notification (ascii ''%Stop:W00'')\<rparr>;
                         s = console ''You are now detached from the previous target.\<newline>'' s
                     in s\<lparr>cur_target := None, gdb_needs_detach_notify := True\<rparr>)
               else s)
      in if last_target s = Some i then s\<lparr>last_target := None\<rparr> else s)"

text \<open>The callback of the stand-alone mode's controller, in components/ui/ui_debug.c.\<close>

definition ui_ctrl_destroy :: "'s gdb_server \<Rightarrow> 's gdb_server" where
  "ui_ctrl_destroy s = s\<lparr>cur_target := None\<rparr>"

text \<open>target->tc->destroy_callback, if the target has a controller.\<close>

definition tc_destroy_callback :: "nat \<Rightarrow> 'h target_scheme gdb_server \<Rightarrow> 'h target_scheme gdb_server" where
  "tc_destroy_callback i s =
     (case t_tc (snd (gs_targets s ! i)) of
        None \<Rightarrow> s
      | Some tc \<Rightarrow> (case tc_object tc of Gdb_controller \<Rightarrow> gdb_target_destroy_callback i s | Ui_controller \<Rightarrow> ui_ctrl_destroy s))"

text \<open>target_attach calls the callback of the controller the target has so far; the result is the target, unless
  its attach function refuses.\<close>

definition attach_target :: "target_controller \<Rightarrow> nat \<Rightarrow> 'h target_scheme gdb_server \<Rightarrow> (nat option \<times> 'h target_scheme gdb_server) option" where
  "attach_target controller i s =
     (if i < length (gs_targets s)
      then do { (ok, s) \<leftarrow> on_target i (\<lambda>ops. target_attach (ops\<lparr>destroy_callback_fn := Some\<rparr>) controller) (tc_destroy_callback i s);
                Some (if ok then Some i else None, s) }
      else None)"

definition target_attach_n :: "u32 \<Rightarrow> target_controller \<Rightarrow> 'h target_scheme gdb_server \<Rightarrow> (nat option \<times> 'h target_scheme gdb_server) option" where
  "target_attach_n n controller s =
     (if 1 \<le> unat n \<and> unat n \<le> length (gs_targets s) then attach_target controller (unat n - 1) s else Some (None, s))"

definition detach_cur :: "'h target_scheme gdb_server \<Rightarrow> 'h target_scheme gdb_server option" where
  "detach_cur s = do { s \<leftarrow> on_cur_do target_detach s; Some (s\<lparr>last_target := cur_target s, cur_target := None\<rparr>) }"

text \<open>target_list_free: an attached target is detached, the callback of an owned one is called.\<close>

primrec list_free_loop :: "nat list \<Rightarrow> 'h target_scheme gdb_server \<Rightarrow> 'h target_scheme gdb_server option" where
  "list_free_loop [] s = Some s"
| "list_free_loop (i # is) s =
     do { (_, s) \<leftarrow> on_target i (\<lambda>ops t. if attached t then (case detach_fn ops of None \<Rightarrow> None | Some f \<Rightarrow> do { t \<leftarrow> f t; Some ((), t) })
                                        else Some ((), t)) s;
          list_free_loop is (tc_destroy_callback i s) }"

definition target_list_free :: "'h target_scheme gdb_server \<Rightarrow> 'h target_scheme gdb_server option" where
  "target_list_free s = do { s \<leftarrow> list_free_loop [0..<length (gs_targets s)] s; Some (s\<lparr>gs_targets := []\<rparr>) }"

subsection \<open>Memory and registers\<close>

definition handle_g :: "'h target_scheme gdb_server \<Rightarrow> 'h target_scheme gdb_server option" where
  "handle_g s =
     (case cur_target s of
        None \<Rightarrow> Some (replyz ''EFF'' s)
      | Some i \<Rightarrow>
          do { sz \<leftarrow> of_cur (\<lambda>ops t. regs_size t) s;
               if sz = 0 then Some (replyz ''00'' s)
               else do { (bs, s) \<leftarrow> on_cur target_regs_read s;
                         if length bs \<noteq> sz then None else reply_hex bs s } })"

definition handle_m :: "nat \<Rightarrow> 'h target_scheme gdb_server \<Rightarrow> 'h target_scheme gdb_server option" where
  "handle_m pbuf_size s =
     (case cur_target s of
        None \<Rightarrow> Some (replyz ''EFF'' s)
      | Some _ \<Rightarrow>
          (case sscanf (gs_pbuf s) [Lit (ascii ''m''), Fx None, Lit (ascii '',''), Fx None] of
             ([addr, len], _) \<Rightarrow>
               if unat len > pbuf_size div 2 then Some (replyz ''E02'' s)
               else do { ((err, mem), s) \<leftarrow> on_cur (\<lambda>ops t. do { (e, bs, t) \<leftarrow> target_mem_read ops (replicate (unat len) 0) addr (unat len) t; Some ((e, bs), t) }) s;
                         if err then Some (replyz ''E01'' s) else reply_hex mem s }
           | _ \<Rightarrow> None))"

definition handle_G :: "'h target_scheme gdb_server \<Rightarrow> 'h target_scheme gdb_server option" where
  "handle_G s =
     (case cur_target s of
        None \<Rightarrow> Some (replyz ''EFF'' s)
      | Some _ \<Rightarrow>
          do { sz \<leftarrow> of_cur (\<lambda>ops t. regs_size t) s;
               if sz = 0 then Some (replyz ''OK'' s)
               else do { bs \<leftarrow> unhexify sz (drop 1 (gs_pbuf s));
                         s \<leftarrow> on_cur_do (\<lambda>ops. target_regs_write ops bs) s;
                         Some (replyz ''OK'' s) } })"

text \<open>The offset %n stores is a signed int, and size - hex is compared as unsigned.\<close>

definition write_memory :: "u32 \<Rightarrow> byte list \<Rightarrow> 'h target_scheme gdb_server \<Rightarrow> 'h target_scheme gdb_server option" where
  "write_memory addr bs s =
     do { (err, s) \<leftarrow> on_cur (\<lambda>ops. target_mem_write ops addr bs (length bs)) s;
          Some (if err then replyz ''E01'' s else replyz ''OK'' s) }"

definition handle_M :: "nat \<Rightarrow> 'h target_scheme gdb_server \<Rightarrow> 'h target_scheme gdb_server option" where
  "handle_M sz s =
     (case cur_target s of
        None \<Rightarrow> Some (replyz ''EFF'' s)
      | Some _ \<Rightarrow>
          (case sscanf (gs_pbuf s) [Lit (ascii ''M''), Fx None, Lit (ascii '',''), Fx None, Lit (ascii '':''), Fn] of
             ([addr, len], Some hex) \<Rightarrow>
               if unat len > unat (of_nat sz - of_nat hex :: u32) div 2 then Some (replyz ''E02'' s)
               else do { bs \<leftarrow> unhexify (unat len) (drop hex (gs_pbuf s)); write_memory addr bs s }
           | _ \<Rightarrow> None))"

definition handle_X :: "nat \<Rightarrow> 'h target_scheme gdb_server \<Rightarrow> 'h target_scheme gdb_server option" where
  "handle_X sz s =
     (case cur_target s of
        None \<Rightarrow> Some (replyz ''EFF'' s)
      | Some _ \<Rightarrow>
          (case sscanf (gs_pbuf s) [Lit (ascii ''X''), Fx None, Lit (ascii '',''), Fx None, Lit (ascii '':''), Fn] of
             ([addr, len], Some bin) \<Rightarrow>
               if unat len > unat (of_nat sz - of_nat bin :: u32) then Some (replyz ''E02'' s)
               else if length (gs_pbuf s) < bin + unat len then None
               else write_memory addr (take (unat len) (drop bin (gs_pbuf s))) s
           | _ \<Rightarrow> None))"

definition handle_p :: "'h target_scheme gdb_server \<Rightarrow> 'h target_scheme gdb_server option" where
  "handle_p s =
     (case cur_target s of
        None \<Rightarrow> Some (replyz ''EFF'' s)
      | Some _ \<Rightarrow>
          do { has \<leftarrow> of_cur (\<lambda>ops t. reg_read_fn ops \<noteq> None) s;
               if \<not> has then Some (replyz ''00'' s)
               else (case sscanf (gs_pbuf s) [Lit (ascii ''p''), Fx None] of
                       ([reg], _) \<Rightarrow>
                         do { ((n, v), s) \<leftarrow> on_cur (\<lambda>ops t. do { (n, v, t) \<leftarrow> target_reg_read ops reg 8 t; Some ((n, v), t) }) s;
                              if n = 0 then Some (replyz ''EFF'' s)
                              else if 0 < n \<and> n \<le> 4 then reply_hex (take (nat n) (bytes_of_u32 v)) s
                              else None }
                     | _ \<Rightarrow> None) })"

text \<open>The value is decoded into four bytes, however long it is.\<close>

definition handle_P :: "'h target_scheme gdb_server \<Rightarrow> 'h target_scheme gdb_server option" where
  "handle_P s =
     (case cur_target s of
        None \<Rightarrow> Some (replyz ''EFF'' s)
      | Some _ \<Rightarrow>
          do { has \<leftarrow> of_cur (\<lambda>ops t. reg_write_fn ops \<noteq> None) s;
               if \<not> has then Some (replyz ''OK'' s)
               else (case strtoul16 (drop 1 (cstr (gs_pbuf s))) of
                       (reg, c # packet) \<Rightarrow>
                         if c \<noteq> 0x3d then Some (replyz ''EFF'' s)
                         else do { v \<leftarrow> unhexify (length packet div 2) packet;
                                   if 4 < length v then None
                                   else do { (n, s) \<leftarrow> on_cur (\<lambda>ops. target_reg_write ops reg (u32_of_bytes v) 4) s;
                                             Some (if 0 < n then replyz ''OK'' s else replyz ''EFF'' s) } }
                     | (reg, []) \<Rightarrow> Some (replyz ''EFF'' s)) })"

text \<open>The thread of an operation: only threads 0 and 1 exist. Both variables start at 0.\<close>

definition handle_H :: "'h target_scheme gdb_server \<Rightarrow> 'h target_scheme gdb_server option" where
  "handle_H s =
     Some (case sscanf (gs_pbuf s) [Lit (ascii ''H''), Fc, Fx None] of
             ([_, thread_id], _) \<Rightarrow> if thread_id \<le> 1 then replyz ''OK'' s else replyz ''E01'' s
           | _ \<Rightarrow> replyz ''OK'' s)"

subsection \<open>Run control\<close>

definition handle_halt_reason :: "'h target_scheme gdb_server \<Rightarrow> 'h target_scheme gdb_server option" where
  "handle_halt_reason s =
     Some (if cur_target s = None then replyz ''W00'' s else s\<lparr>gdb_target_running := True\<rparr>)"

definition handle_resume :: "bool \<Rightarrow> 'h target_scheme gdb_server \<Rightarrow> 'h target_scheme gdb_server option" where
  "handle_resume single_step s =
     (if cur_target s = None then Some (replyz ''X1D'' s)
      else do { s \<leftarrow> on_cur_do (\<lambda>ops. target_halt_resume ops single_step) s; handle_halt_reason s })"

definition handle_detach :: "byte \<Rightarrow> 'h target_scheme gdb_server \<Rightarrow> 'h target_scheme gdb_server option" where
  "handle_detach c s =
     do { s \<leftarrow> (if cur_target s = None then Some s else detach_cur s);
          let s = (if c = 0x44 then replyz ''OK'' s else s);
          Some (set_noackmode False s) }"

definition handle_kill_target :: "'h target_scheme gdb_server \<Rightarrow> 'h target_scheme gdb_server option" where
  "handle_kill_target s =
     (if cur_target s = None then Some s else do { s \<leftarrow> on_cur_do target_reset s; detach_cur s })"

text \<open>When the re-attach fails, the reset goes through a null pointer.\<close>

definition handle_reset :: "'h target_scheme gdb_server \<Rightarrow> 'h target_scheme gdb_server option" where
  "handle_reset s =
     (case (cur_target s, last_target s) of
        (Some _, _) \<Rightarrow> on_cur_do target_reset s
      | (None, Some i) \<Rightarrow> do { (c, s) \<leftarrow> attach_target (gdb_controller s) i s; on_cur_do target_reset (s\<lparr>cur_target := c\<rparr>) }
      | (None, None) \<Rightarrow> Some s)"

subsection \<open>Queries\<close>

definition exec_q_rcmd :: "'h target_scheme gdb_ext \<Rightarrow> byte list \<Rightarrow> nat \<Rightarrow> 'h target_scheme gdb_server \<Rightarrow> 'h target_scheme gdb_server option" where
  "exec_q_rcmd x packet length' s =
     do { dat \<leftarrow> unhexify (length' div 2) packet;
          (c, s) \<leftarrow> x_command_process x dat s;
          Some (if c < 0 then replyz [] s else if c = 0 then replyz ''OK'' s
                else reply (take 14 (hexify (ascii ''Failed\<newline>''))) s) }"

definition handle_q_string_reply :: "byte list \<Rightarrow> byte list \<Rightarrow> 's gdb_server \<Rightarrow> 's gdb_server" where
  "handle_q_string_reply text param s =
     (case sscanf param [Fx (Some 8), Lit (ascii '',''), Fx (Some 8)] of
        ([addr, len], _) \<Rightarrow>
          if unat addr > length text then replyz ''E01'' s
          else if unat addr = length text then replyz ''l'' s
          else reply2 (ascii ''m'') (take (unat len) (drop (unat addr) text)) s
      | _ \<Rightarrow> replyz ''E01'' s)"

definition exec_q_supported :: "'s gdb_server \<Rightarrow> 's gdb_server" where
  "exec_q_supported s = replyz ''PacketSize=400;qXfer:memory-map:read+;qXfer:features:read+;vContSupported+'' (set_noackmode False s)"

definition map_target :: "'s gdb_server \<Rightarrow> nat option" where
  "map_target s = (case cur_target s of Some i \<Rightarrow> Some i | None \<Rightarrow> last_target s)"

definition exec_q_memory_map :: "byte list \<Rightarrow> 'h target_scheme gdb_server \<Rightarrow> 'h target_scheme gdb_server option" where
  "exec_q_memory_map packet s =
     (case map_target s of
        None \<Rightarrow> Some (replyz ''E01'' s)
      | Some i \<Rightarrow>
          do { r \<leftarrow> of_target i (\<lambda>ops. target_mem_map 1024 (replicate 1024 (CHR 0x00))) s;
               (_, text) \<leftarrow> r;
               Some (handle_q_string_reply (cstr (ascii text)) packet s) })"

definition exec_q_feature_read :: "'h target_scheme gdb_ext \<Rightarrow> byte list \<Rightarrow> 'h target_scheme gdb_server \<Rightarrow> 'h target_scheme gdb_server option" where
  "exec_q_feature_read x packet s =
     (case map_target s of
        None \<Rightarrow> Some (replyz ''E01'' s)
      | Some i \<Rightarrow>
          do { text \<leftarrow> of_target i (x_regs_description x) s; Some (handle_q_string_reply text packet s) })"

definition exec_q_crc :: "byte list \<Rightarrow> 'h target_scheme gdb_server \<Rightarrow> 'h target_scheme gdb_server option" where
  "exec_q_crc packet s =
     (case sscanf packet [Fx None, Lit (ascii '',''), Fx None] of
        ([addr, len], _) \<Rightarrow>
          if cur_target s = None then Some (replyz ''E01'' s)
          else do { let (ms, rest) = (case gs_crc_ms s of [] \<Rightarrow> (1, []) | m # rest \<Rightarrow> (m, rest));
                    (crc, s) \<leftarrow> on_cur (\<lambda>ops. bmd_crc32 ops ms addr len) (s\<lparr>gs_crc_ms := rest\<rparr>);
                    Some (case crc of None \<Rightarrow> replyz ''E03'' s | Some v \<Rightarrow> replyz (CHR ''C'' # fmt_x v) s) }
      | _ \<Rightarrow> Some s)"

definition exec_q_thread_info :: "byte \<Rightarrow> 's gdb_server \<Rightarrow> 's gdb_server" where
  "exec_q_thread_info c s = (if c = 0x66 \<and> cur_target s \<noteq> None then replyz ''m1'' s else replyz ''l'' s)"

definition exec_q_noackmode :: "'s gdb_server \<Rightarrow> 's gdb_server" where
  "exec_q_noackmode s = replyz ''OK'' (set_noackmode True s)"

definition exec_q_attached :: "byte list \<Rightarrow> nat \<Rightarrow> 'h target_scheme gdb_server \<Rightarrow> 'h target_scheme gdb_server option" where
  "exec_q_attached packet length' s =
     (if (length' \<noteq> 0 \<and> take 1 packet = [0x3a]) \<or> cur_target s = None then Some (replyz ''E01'' s)
      else do { inhibit \<leftarrow> of_cur (\<lambda>ops t. target_options t AND TOPT_INHIBIT_NRST \<noteq> 0) s;
                Some (replyz (if inhibit then ''1'' else ''0'') s) })"

text \<open>The table of queries: the first prefix that fits decides. The rest of the buffer and the rest of the
  length go to the handler.\<close>

datatype q_command =
  Q_rcmd | Q_supported | Q_memory_map | Q_feature_read | Q_crc | Q_c | Q_thread_info byte | Q_noackmode | Q_attached

definition q_commands :: "(string \<times> q_command) list" where
  "q_commands =
     [(''qRcmd,'', Q_rcmd), (''qSupported'', Q_supported), (''qXfer:memory-map:read::'', Q_memory_map),
      (''qXfer:features:read:target.xml:'', Q_feature_read), (''qCRC:'', Q_crc), (''qC'', Q_c),
      (''qfThreadInfo'', Q_thread_info 0x66), (''qsThreadInfo'', Q_thread_info 0x73),
      (''QStartNoAckMode'', Q_noackmode), (''qAttached'', Q_attached)]"

definition exec_q :: "'h target_scheme gdb_ext \<Rightarrow> q_command \<Rightarrow> byte list \<Rightarrow> nat \<Rightarrow> 'h target_scheme gdb_server \<Rightarrow> 'h target_scheme gdb_server option" where
  "exec_q x q packet length' s =
     (case q of
        Q_rcmd \<Rightarrow> exec_q_rcmd x packet length' s
      | Q_supported \<Rightarrow> Some (exec_q_supported s)
      | Q_memory_map \<Rightarrow> exec_q_memory_map packet s
      | Q_feature_read \<Rightarrow> exec_q_feature_read x packet s
      | Q_crc \<Rightarrow> exec_q_crc packet s
      | Q_c \<Rightarrow> Some (replyz ''QC1'' s)
      | Q_thread_info c \<Rightarrow> Some (exec_q_thread_info c s)
      | Q_noackmode \<Rightarrow> Some (exec_q_noackmode s)
      | Q_attached \<Rightarrow> exec_q_attached packet length' s)"

definition exec_command :: "byte list \<Rightarrow> (string \<times> 'c) list \<Rightarrow> (string \<times> 'c) option" where
  "exec_command packet cmds = find (\<lambda>(prefix, _). take (length prefix) (cstr packet) = ascii prefix) cmds"

definition handle_q_packet :: "'h target_scheme gdb_ext \<Rightarrow> nat \<Rightarrow> 'h target_scheme gdb_server \<Rightarrow> 'h target_scheme gdb_server option" where
  "handle_q_packet x length' s =
     (case exec_command (gs_pbuf s) q_commands of
        None \<Rightarrow> Some (replyz [] s)
      | Some (prefix, q) \<Rightarrow> exec_q x q (drop (length prefix) (gs_pbuf s)) (length' - length prefix) s)"

subsection \<open>Verbose packets\<close>

text \<open>The command line of vRun. The decoding looks at four characters to decode two; the escape of a space or
  a backslash needs room for two characters.\<close>

function run_cmdline :: "byte list \<Rightarrow> byte list \<Rightarrow> byte list option" where
  "run_cmdline tok acc =
     (case tok of
        [] \<Rightarrow> None
      | c # tok' \<Rightarrow>
          if c = 0 then Some acc
          else if length acc + 1 \<ge> MAX_CMDLINE then Some acc
          else if c = 0x3b then run_cmdline tok' (acc @ [0x20])
          else if \<not> (is_hex c \<and> (case tok' of d # _ \<Rightarrow> is_hex d | [] \<Rightarrow> False)) then Some acc
          else (case unhexify 2 tok of
                  Some (v # _) \<Rightarrow>
                    if v = 0x20 \<or> v = 0x5c
                    then (if length acc + 2 \<ge> MAX_CMDLINE then Some acc else run_cmdline (drop 2 tok) (acc @ [0x5c, v]))
                    else run_cmdline (drop 2 tok) (acc @ [v])
                | _ \<Rightarrow> None))"
  by pat_completeness auto
termination
  by (relation "measure (\<lambda>(tok, acc). length tok)") auto

declare run_cmdline.simps [simp del]

definition run_target :: "byte list \<Rightarrow> 'h target_scheme gdb_server \<Rightarrow> 'h target_scheme gdb_server option" where
  "run_target line s = do { s \<leftarrow> on_cur_do (\<lambda>ops. target_set_cmdline line) s; s \<leftarrow> on_cur_do target_reset s; Some (replyz ''T05'' s) }"

definition handle_v_attach :: "u32 \<Rightarrow> 'h target_scheme gdb_server \<Rightarrow> 'h target_scheme gdb_server option" where
  "handle_v_attach n s =
     do { (c, s) \<leftarrow> target_attach_n n (gdb_controller s) s;
          let s = s\<lparr>cur_target := c\<rparr>;
          Some (if c = None then replyz ''E01'' s else replyz ''T05thread:1;'' s) }"

definition handle_v_run :: "byte list \<Rightarrow> 'h target_scheme gdb_server \<Rightarrow> 'h target_scheme gdb_server option" where
  "handle_v_run tok s =
     do { line \<leftarrow> run_cmdline (if take 1 tok = [0x3b] then drop 1 tok else tok) [];
          let s = s\<lparr>semihosting_wallclock_epoch := 0xffffffff, gs_rtt := (gs_rtt s)\<lparr>rtt_found := False\<rparr>\<rparr>;
          (case (cur_target s, last_target s) of
             (Some _, _) \<Rightarrow> run_target line s
           | (None, Some i) \<Rightarrow>
               do { (c, s) \<leftarrow> attach_target (gdb_controller s) i s;
                    let s = s\<lparr>cur_target := c\<rparr>;
                    if c = None then Some (replyz ''E01'' s) else run_target line s }
           | (None, None) \<Rightarrow> Some (replyz ''E01'' s)) }"

definition handle_v_cont :: "byte \<Rightarrow> byte \<Rightarrow> 'h target_scheme gdb_server \<Rightarrow> 'h target_scheme gdb_server option" where
  "handle_v_cont c action s =
     (if c = 0x3f then Some (replyz ''vCont;c;C;s;t'' s)
      else if cur_target s = None then Some (replyz ''E01'' s)
      else if action = 0x73 \<or> action = 0x63 \<or> action = 0x43
      then do { s \<leftarrow> on_cur_do (\<lambda>ops. target_halt_resume ops (action = 0x73)) s; Some (s\<lparr>gdb_target_running := True\<rparr>) }
      else Some s)"

definition flash_abort :: "'h target_scheme gdb_server \<Rightarrow> 'h target_scheme gdb_server option" where
  "flash_abort s = do { (_, s) \<leftarrow> on_cur target_flash_complete s; Some (replyz ''EFF'' s) }"

definition handle_v_flash_erase :: "u32 \<Rightarrow> u32 \<Rightarrow> 'h target_scheme gdb_server \<Rightarrow> 'h target_scheme gdb_server option" where
  "handle_v_flash_erase addr len s =
     (if cur_target s = None then Some (replyz ''EFF'' s)
      else do { (ok, s) \<leftarrow> on_cur (\<lambda>ops. target_flash_erase ops addr len) s;
                if ok then Some (replyz ''OK'' s) else flash_abort s })"

definition handle_v_flash_write :: "u32 \<Rightarrow> nat \<Rightarrow> nat \<Rightarrow> 'h target_scheme gdb_server \<Rightarrow> 'h target_scheme gdb_server option" where
  "handle_v_flash_write addr bin plen s =
     (if cur_target s = None then flash_abort s
      else if plen < bin \<or> length (gs_pbuf s) < plen then None
      else do { (ok, s) \<leftarrow> on_cur (\<lambda>ops. target_flash_write ops addr (take (plen - bin) (drop bin (gs_pbuf s))) (of_nat (plen - bin))) s;
                if ok then Some (replyz ''OK'' s) else flash_abort s })"

definition handle_v_flash_done :: "'h target_scheme gdb_server \<Rightarrow> 'h target_scheme gdb_server option" where
  "handle_v_flash_done s =
     do { (ok, s) \<leftarrow> on_cur target_flash_complete s; Some (if ok then replyz ''OK'' s else replyz ''EFF'' s) }"

definition handle_v_stopped :: "'s gdb_server \<Rightarrow> 's gdb_server" where
  "handle_v_stopped s =
     (if gdb_needs_detach_notify s then (replyz ''W00'' s)\<lparr>gdb_needs_detach_notify := False\<rparr> else replyz ''OK'' s)"

definition has_prefix :: "string \<Rightarrow> byte list \<Rightarrow> bool" where
  "has_prefix prefix packet \<longleftrightarrow> take (length prefix) (cstr packet) = ascii prefix"

definition handle_v_packet :: "nat \<Rightarrow> 'h target_scheme gdb_server \<Rightarrow> 'h target_scheme gdb_server option" where
  "handle_v_packet plen s =
     (let packet = gs_pbuf s;
          attach = sscanf packet [Lit (ascii ''vAttach;''), Fx (Some 8)];
          erase = sscanf packet [Lit (ascii ''vFlashErase:''), Fx (Some 8), Lit (ascii '',''), Fx (Some 8)];
          wr = sscanf packet [Lit (ascii ''vFlashWrite:''), Fx (Some 8), Lit (ascii '':''), Fn]
      in if length (fst attach) = 1 then handle_v_attach (fst attach ! 0) s
         else if has_prefix ''vKill;'' packet then do { s \<leftarrow> handle_kill_target s; Some (replyz ''OK'' s) }
         else if has_prefix ''vRun'' packet then handle_v_run (drop 4 packet) s
         else if has_prefix ''vCont'' packet
         then (if length packet \<le> 6 then None else handle_v_cont (packet ! 5) (packet ! 6) s)
         else if length (fst erase) = 2 then handle_v_flash_erase (fst erase ! 0) (fst erase ! 1) s
         else if length (fst wr) = 1
         then (case snd wr of None \<Rightarrow> None | Some bin \<Rightarrow> handle_v_flash_write (fst wr ! 0) bin plen s)
         else if cstr packet = ascii ''vFlashDone'' then handle_v_flash_done s
         else if cstr packet = ascii ''vStopped'' then Some (handle_v_stopped s)
         else Some (replyz [] s))"

subsection \<open>Breakpoints\<close>

text \<open>A kind beyond the five of the enumeration is refused by the default case of every core's
  breakwatch_set, and never in the list of those set.\<close>

definition breakwatch_kind :: "u32 \<Rightarrow> target_breakwatch_e option" where
  "breakwatch_kind type =
     (if type = 0 then Some TARGET_BREAK_SOFT else if type = 1 then Some TARGET_BREAK_HARD
      else if type = 2 then Some TARGET_WATCH_WRITE else if type = 3 then Some TARGET_WATCH_READ
      else if type = 4 then Some TARGET_WATCH_ACCESS else None)"

definition handle_z_packet :: "'h target_scheme gdb_server \<Rightarrow> 'h target_scheme gdb_server option" where
  "handle_z_packet s =
     (case sscanf (gs_pbuf s) [Fskip (ascii ''zZ''), Fu None, Lit (ascii '',''), Fx (Some 8), Lit (ascii '',''), Fu None] of
        ([type, addr, len], _) \<Rightarrow>
          do { let set_it = (take 1 (gs_pbuf s) = ascii ''Z'');
               (ret, s) \<leftarrow> (case breakwatch_kind type of
                              None \<Rightarrow> Some (if set_it then 1 else - 1, s)
                            | Some k \<Rightarrow> on_cur (\<lambda>ops. if set_it then target_breakwatch_set ops k addr len
                                                         else target_breakwatch_clear ops k addr len) s);
               Some (if ret < 0 then replyz ''E01'' s else if ret > 0 then replyz [] s else replyz ''OK'' s) }
      | _ \<Rightarrow> None)"

subsection \<open>Dispatch\<close>

definition just :: "'s gdb_server option \<Rightarrow> (int \<times> 's gdb_server) option" where
  "just r = do { s \<leftarrow> r; Some (0, s) }"

text \<open>The controller is one object that the server and every target it has attached share.\<close>

definition set_tc :: "(target_controller \<Rightarrow> target_controller) \<Rightarrow> 'h target_scheme gdb_server \<Rightarrow> 'h target_scheme gdb_server" where
  "set_tc f s =
     s\<lparr>gdb_controller := f (gdb_controller s),
       gs_targets := map (map_prod id (\<lambda>t. t\<lparr>t_tc := map_option (\<lambda>tc. if tc_object tc = Gdb_controller then f tc else tc) (t_tc t)\<rparr>)) (gs_targets s)\<rparr>"

text \<open>semihosting_reply of src/target/semihosting.c: the reply of the debugger to a File-I/O request.\<close>

definition semihosting_reply :: "'h target_scheme gdb_server \<Rightarrow> (int \<times> 'h target_scheme gdb_server) option" where
  "semihosting_reply s =
     (case gs_pbuf s of
        _ # c # _ \<Rightarrow>
          (let neg = (c = of_char (CHR ''-''));
               (items, _) = sscanf (drop (if neg then 2 else 1) (gs_pbuf s)) [Fx None, Lit (ascii '',''), Fx None, Lit (ascii '',''), Fc]
           in case items of
                [] \<Rightarrow> Some (- 1, set_tc (\<lambda>tc. tc\<lparr>interrupted := False, gdb_errno := 9999\<rparr>) s)
              | retcode # rest \<Rightarrow>
                  Some (sint (if neg then - retcode else retcode),
                    set_tc (\<lambda>tc. tc\<lparr>gdb_errno := (case rest of e # _ \<Rightarrow> e | [] \<Rightarrow> 0),
                      interrupted := (case rest of [e, f] \<Rightarrow> f = of_char (CHR ''C'') | _ \<Rightarrow> False)\<rparr>) s))
      | _ \<Rightarrow> None)"

definition gdb_main_loop ::
  "'h target_scheme gdb_ext \<Rightarrow> nat \<Rightarrow> nat \<Rightarrow> bool \<Rightarrow> 'h target_scheme gdb_server \<Rightarrow> (int \<times> 'h target_scheme gdb_server) option" where
  "gdb_main_loop x pbuf_size sz in_syscall s =
     (case gs_pbuf s of
        [] \<Rightarrow> None
      | c # _ \<Rightarrow>
          if c = of_char (CHR ''g'') then just (handle_g s)
          else if c = of_char (CHR ''m'') then just (handle_m pbuf_size s)
          else if c = of_char (CHR ''G'') then just (handle_G s)
          else if c = of_char (CHR ''M'') then just (handle_M sz s)
          else if c = of_char (CHR ''H'') then just (handle_H s)
          else if c = of_char (CHR ''s'') then just (handle_resume True s)
          else if c = of_char (CHR ''c'') \<or> c = of_char (CHR ''C'') then just (handle_resume False s)
          else if c = of_char (CHR ''?'') then just (handle_halt_reason s)
          else if c = of_char (CHR ''p'') then just (handle_p s)
          else if c = of_char (CHR ''P'') then just (handle_P s)
          else if c = of_char (CHR ''F'') then (if in_syscall then semihosting_reply s else just (Some (replyz [] s)))
          else if c = of_char (CHR ''!'') then just (Some (replyz ''OK'' s))
          else if c = EOT \<or> c = of_char (CHR ''D'') then just (handle_detach c s)
          else if c = of_char (CHR ''k'') then just (handle_kill_target s)
          else if c = of_char (CHR ''r'') \<or> c = of_char (CHR ''R'') then just (handle_reset s)
          else if c = of_char (CHR ''X'') then just (handle_X sz s)
          else if c = of_char (CHR ''Q'') \<or> c = of_char (CHR ''q'') then just (handle_q_packet x sz s)
          else if c = of_char (CHR ''v'') then just (handle_v_packet sz s)
          else if c = of_char (CHR ''Z'') \<or> c = of_char (CHR ''z'')
          then just (if cur_target s = None then Some (replyz ''EFF'' s) else handle_z_packet s)
          else just (Some (replyz [] s)))"

definition gdb_main :: "'h target_scheme gdb_ext \<Rightarrow> nat \<Rightarrow> nat \<Rightarrow> 'h target_scheme gdb_server \<Rightarrow> 'h target_scheme gdb_server option" where
  "gdb_main x pbuf_size sz s = do { (_, s) \<leftarrow> gdb_main_loop x pbuf_size sz False s; Some s }"

subsection \<open>A running target\<close>

definition gdb_halt_target :: "'h target_scheme gdb_server \<Rightarrow> 'h target_scheme gdb_server option" where
  "gdb_halt_target s = (if cur_target s = None then Some (replyz ''W00'' s) else on_cur_do target_halt_request s)"

definition halt_signal :: "target_halt_reason_e \<Rightarrow> u32 option \<Rightarrow> byte list option" where
  "halt_signal reason watch =
     (case reason of
        TARGET_HALT_RUNNING \<Rightarrow> Some []
      | TARGET_HALT_ERROR \<Rightarrow> Some (ascii ''X1D'')
      | TARGET_HALT_REQUEST \<Rightarrow> Some (ascii ''T02'')
      | TARGET_HALT_WATCHPOINT \<Rightarrow>
          (case watch of
             None \<Rightarrow> None
           | Some a \<Rightarrow> Some (ascii ''T05watch:'' @ concat (map csum_digits (rev (bytes_of_u32 a))) @ ascii '';''))
      | TARGET_HALT_FAULT \<Rightarrow> Some (ascii ''T0B'')
      | _ \<Rightarrow> Some (ascii ''T05''))"

definition gdb_poll_target :: "'h target_scheme gdb_server \<Rightarrow> 'h target_scheme gdb_server option" where
  "gdb_poll_target s =
     (if cur_target s = None then Some (replyz ''W00'' s)
      else do { ((reason, watch), s) \<leftarrow> on_cur target_halt_poll s;
                if reason = TARGET_HALT_RUNNING then Some s
                else do { p \<leftarrow> halt_signal reason watch; Some (reply p (s\<lparr>gdb_target_running := False\<rparr>)) } })"

text \<open>poll_rtt on the current target; what it prints goes to the console of the debugger.\<close>

definition serve_rtt :: "nat \<Rightarrow> 'h target_scheme gdb_server \<Rightarrow> 'h target_scheme gdb_server option" where
  "serve_rtt fuel s =
     do { (r, s) \<leftarrow> on_cur (\<lambda>ops. poll_rtt ops fuel ((gs_rtt s)\<lparr>rt_msgs := []\<rparr>)) s;
          Some (fold console (rt_msgs r) (s\<lparr>gs_rtt := r\<lparr>rt_msgs := []\<rparr>\<rparr>)) }"

text \<open>bmp_poll_loop: fuel bounds the number of polls. A getchar that times out is an entry None of the input,
  and every call times out once the input is used up.\<close>

primrec poll_loop :: "'h target_scheme gdb_ext \<Rightarrow> nat \<Rightarrow> 'h target_scheme gdb_server \<Rightarrow> 'h target_scheme gdb_server option" where
  "poll_loop x 0 s = (if gdb_target_running s \<and> cur_target s \<noteq> None then None else Some s)"
| "poll_loop x (Suc n) s =
     (if \<not> (gdb_target_running s \<and> cur_target s \<noteq> None) then Some s
      else do { s \<leftarrow> gdb_poll_target s;
                if \<not> (gdb_target_running s \<and> cur_target s \<noteq> None) then Some s
                else do { let (c, input) = (case gs_input s of [] \<Rightarrow> (None, []) | c # cs \<Rightarrow> (c, cs));
                          let s = s\<lparr>gs_input := input\<rparr>;
                          s \<leftarrow> (if c = Some 0x03 \<or> c = Some 0x04 then on_cur_do target_halt_request s else Some s);
                          s \<leftarrow> (if rtt_enabled (gs_rtt s) then serve_rtt (x_rtt_fuel x) s else Some s);
                          poll_loop x n s } })"

text \<open>What is left of the input after its first k characters.\<close>

fun drop_chars :: "nat \<Rightarrow> byte option list \<Rightarrow> byte option list" where
  "drop_chars 0 cs = cs"
| "drop_chars (Suc k) [] = []"
| "drop_chars (Suc k) (None # cs) = drop_chars (Suc k) cs"
| "drop_chars (Suc k) (Some _ # cs) = drop_chars k cs"

definition read_packet :: "'h target_scheme gdb_ext \<Rightarrow> 'h target_scheme gdb_server \<Rightarrow> (nat option \<times> 'h target_scheme gdb_server) option" where
  "read_packet x s =
     (let cs = List.map_filter id (gs_input s)
      in case gdb_getpacket (x_remote x) (gs_noackmode s) GDB_PACKET_BUFFER_SIZE (gs_pbuf s) cs of
           None \<Rightarrow> None
         | Some (Inl _) \<Rightarrow> Some (None, s)
         | Some (Inr (n, c, rest)) \<Rightarrow>
             Some (Some n, s\<lparr>gs_pbuf := cp_packet c, gs_out := gs_out s @ cp_out c,
                            gs_input := drop_chars (length cs - length rest) (gs_input s)\<rparr>))"

text \<open>One turn of the loop; it stays in gdb_getpacket, with the result False, when the input ends before a
  packet is complete.\<close>

definition bmp_poll_loop :: "'h target_scheme gdb_ext \<Rightarrow> nat \<Rightarrow> 'h target_scheme gdb_server \<Rightarrow> (bool \<times> 'h target_scheme gdb_server) option" where
  "bmp_poll_loop x fuel s =
     do { s \<leftarrow> poll_loop x fuel s;
          (n, s) \<leftarrow> read_packet x s;
          (case n of
             None \<Rightarrow> Some (False, s)
           | Some sz \<Rightarrow> do { s \<leftarrow> gdb_main x GDB_PACKET_BUFFER_SIZE sz s; Some (True, s) }) }"

text \<open>One turn of the board's own thread, gdb_application_thread of src/main/main.c. It does not poll the target.\<close>

definition gdb_application_thread :: "'h target_scheme gdb_ext \<Rightarrow> 'h target_scheme gdb_server \<Rightarrow> (bool \<times> 'h target_scheme gdb_server) option" where
  "gdb_application_thread x s =
     do { (n, s) \<leftarrow> read_packet x s;
          (case n of
             None \<Rightarrow> Some (False, s)
           | Some sz \<Rightarrow> do { s \<leftarrow> gdb_main x GDB_PACKET_BUFFER_SIZE sz s; Some (True, s) }) }"

text \<open>While no target runs, both loops do the same.\<close>

lemma application_turn: "\<not> gdb_target_running s \<or> cur_target s = None \<Longrightarrow> bmp_poll_loop x fuel s = gdb_application_thread x s"
  by (cases fuel) (auto simp: bmp_poll_loop_def gdb_application_thread_def)

subsection \<open>Pointers into the target list\<close>

definition ptrs :: "'s gdb_server \<Rightarrow> nat \<times> nat option \<times> nat option" where
  "ptrs s = (length (gs_targets s), cur_target s, last_target s)"

lemma reply_same [simp]:
  "gs_targets (reply p s) = gs_targets s" "cur_target (reply p s) = cur_target s" "last_target (reply p s) = last_target s"
  "gs_pbuf (reply p s) = gs_pbuf s" "gdb_target_running (reply p s) = gdb_target_running s" "gs_share (reply p s) = gs_share s"
  "gs_noackmode (reply p s) = gs_noackmode s"
  by (simp_all add: reply_def split: prod.split)

lemma replyz_same [simp]:
  "gs_targets (replyz z s) = gs_targets s" "cur_target (replyz z s) = cur_target s" "last_target (replyz z s) = last_target s"
  "gs_pbuf (replyz z s) = gs_pbuf s" "gdb_target_running (replyz z s) = gdb_target_running s" "gs_share (replyz z s) = gs_share s"
  "gs_noackmode (replyz z s) = gs_noackmode s"
  by (simp_all add: replyz_def)

lemma ptrs_simps [simp]:
  "ptrs (reply p s) = ptrs s" "ptrs (replyz z s) = ptrs s" "ptrs (reply2 p q s) = ptrs s" "ptrs (set_noackmode b s) = ptrs s"
  "ptrs (console z s) = ptrs s" "ptrs (s\<lparr>gdb_target_running := r\<rparr>) = ptrs s" "ptrs (s\<lparr>gs_input := i\<rparr>) = ptrs s" "ptrs (s\<lparr>gs_pbuf := b'\<rparr>) = ptrs s"
  "ptrs (s\<lparr>gs_crc_ms := c\<rparr>) = ptrs s" "ptrs (s\<lparr>gdb_needs_detach_notify := d\<rparr>) = ptrs s" "ptrs (s\<lparr>gs_out := o'\<rparr>) = ptrs s"
  "ptrs (s\<lparr>semihosting_wallclock_epoch := e\<rparr>) = ptrs s" "ptrs (s\<lparr>gs_rtt := f\<rparr>) = ptrs s"
  by (simp_all add: ptrs_def reply2_def set_noackmode_def console_def split: prod.split)

lemma on_target_ptrs: "on_target i f s = Some (x, s') \<Longrightarrow> ptrs s' = ptrs s"
  by (auto simp: on_target_def ptrs_def bind_eq_Some_conv split: if_splits prod.splits)

lemma on_cur_ptrs: "on_cur f s = Some (x, s') \<Longrightarrow> ptrs s' = ptrs s"
  by (auto simp: on_cur_def split: option.splits dest: on_target_ptrs)

lemma on_cur_do_ptrs: "on_cur_do f s = Some s' \<Longrightarrow> ptrs s' = ptrs s"
  by (auto simp: on_cur_do_def bind_eq_Some_conv dest: on_cur_ptrs)

lemma serve_rtt_ptrs: "serve_rtt fuel s = Some s' \<Longrightarrow> ptrs s' = ptrs s"
proof -
  have "ptrs (fold console ms u) = ptrs u" for ms and u :: "'a target_scheme gdb_server" by (induction ms arbitrary: u) simp_all
  then show "serve_rtt fuel s = Some s' \<Longrightarrow> ptrs s' = ptrs s" by (auto simp: serve_rtt_def bind_eq_Some_conv dest!: on_cur_ptrs)
qed

lemma semihosting_reply_ptrs: "semihosting_reply s = Some (r, s') \<Longrightarrow> ptrs s' = ptrs s"
  by (auto simp: semihosting_reply_def set_tc_def ptrs_def Let_def split: list.splits prod.splits)

lemma reply_hex_ptrs: "reply_hex bs s = Some s' \<Longrightarrow> ptrs s' = ptrs s"
  by (auto simp: reply_hex_def Let_def split: if_splits)

definition ptrs_ok :: "nat \<times> nat option \<times> nat option \<Rightarrow> bool" where
  "ptrs_ok p \<longleftrightarrow> (case p of (n, c, l) \<Rightarrow> (\<forall>i. c = Some i \<or> l = Some i \<longrightarrow> i < n))"

definition pointers_ok :: "'s gdb_server \<Rightarrow> bool" where
  "pointers_ok s \<longleftrightarrow> ptrs_ok (ptrs s)"

lemma write_memory_ptrs: "write_memory a bs s = Some s' \<Longrightarrow> ptrs s' = ptrs s"
  by (auto simp: write_memory_def bind_eq_Some_conv dest!: on_cur_ptrs split: if_splits)

lemmas ptr_dests = on_target_ptrs on_cur_ptrs on_cur_do_ptrs reply_hex_ptrs write_memory_ptrs

lemma memory_ptrs:
  "handle_g s = Some s' \<Longrightarrow> ptrs s' = ptrs s"
  "handle_m n s = Some s' \<Longrightarrow> ptrs s' = ptrs s"
  "handle_G s = Some s' \<Longrightarrow> ptrs s' = ptrs s"
  "handle_M sz s = Some s' \<Longrightarrow> ptrs s' = ptrs s"
  "handle_X sz s = Some s' \<Longrightarrow> ptrs s' = ptrs s"
  "handle_p s = Some s' \<Longrightarrow> ptrs s' = ptrs s"
  "handle_P s = Some s' \<Longrightarrow> ptrs s' = ptrs s"
  "handle_H s = Some s' \<Longrightarrow> ptrs s' = ptrs s"
  "handle_z_packet s = Some s' \<Longrightarrow> ptrs s' = ptrs s"
  subgoal by (auto simp: handle_g_def bind_eq_Some_conv split: option.splits if_splits dest!: ptr_dests)
  subgoal by (auto simp: handle_m_def bind_eq_Some_conv split: option.splits if_splits prod.splits list.splits dest!: ptr_dests)
  subgoal by (auto simp: handle_G_def bind_eq_Some_conv split: option.splits if_splits dest!: ptr_dests)
  subgoal by (auto simp: handle_M_def bind_eq_Some_conv split: option.splits if_splits prod.splits list.splits dest!: ptr_dests)
  subgoal by (auto simp: handle_X_def bind_eq_Some_conv split: option.splits if_splits prod.splits list.splits dest!: ptr_dests)
  subgoal by (auto simp: handle_p_def bind_eq_Some_conv split: option.splits if_splits prod.splits list.splits dest!: ptr_dests)
  subgoal by (auto simp: handle_P_def bind_eq_Some_conv split: option.splits if_splits prod.splits list.splits dest!: ptr_dests)
  subgoal by (auto simp: handle_H_def split: prod.splits list.splits if_splits)
  subgoal by (auto simp: handle_z_packet_def bind_eq_Some_conv Let_def split: option.splits if_splits prod.splits list.splits dest!: ptr_dests)
  done

lemma pointers_ptrs: "ptrs s' = ptrs s \<Longrightarrow> pointers_ok s' = pointers_ok s"
  by (simp add: pointers_ok_def)

lemma pointers_update:
  "pointers_ok (s\<lparr>cur_target := c, last_target := l\<rparr>) \<longleftrightarrow> (\<forall>i. c = Some i \<or> l = Some i \<longrightarrow> i < length (gs_targets s))"
  "pointers_ok (s\<lparr>cur_target := c\<rparr>) \<longleftrightarrow> (\<forall>i. c = Some i \<or> last_target s = Some i \<longrightarrow> i < length (gs_targets s))"
  "pointers_ok s \<longleftrightarrow> (\<forall>i. cur_target s = Some i \<or> last_target s = Some i \<longrightarrow> i < length (gs_targets s))"
  by (simp_all add: pointers_ok_def ptrs_ok_def ptrs_def)

lemma callback_targets [simp]: "gs_targets (gdb_target_destroy_callback i s) = gs_targets s"
  by (simp add: gdb_target_destroy_callback_def Let_def console_def split: prod.split)

lemma callback_pointers:
  "cur_target (gdb_target_destroy_callback i s) = (if cur_target s = Some i then None else cur_target s)"
  "last_target (gdb_target_destroy_callback i s) = (if last_target s = Some i then None else last_target s)"
  by (simp_all add: gdb_target_destroy_callback_def Let_def console_def split: prod.split)

lemma tc_callback_pointers:
  "gs_targets (tc_destroy_callback i s) = gs_targets s" "gs_share (tc_destroy_callback i s) = gs_share s"
  "gdb_controller (tc_destroy_callback i s) = gdb_controller s"
  "pointers_ok s \<Longrightarrow> pointers_ok (tc_destroy_callback i s)"
  by (auto simp: tc_destroy_callback_def ui_ctrl_destroy_def pointers_update callback_pointers gdb_target_destroy_callback_def Let_def console_def
      split: option.split controller_object.split prod.split)

lemma attach_pointers:
  assumes "attach_target tc i s = Some (c, s')" "pointers_ok s"
  shows "pointers_ok (s'\<lparr>cur_target := c\<rparr>)" "pointers_ok s'"
proof -
  obtain ok where i: "i < length (gs_targets s)" and c: "c = (if ok then Some i else None)"
    and "on_target i (\<lambda>ops. target_attach (ops\<lparr>destroy_callback_fn := Some\<rparr>) tc) (tc_destroy_callback i s) = Some (ok, s')"
    using assms(1) by (auto simp: attach_target_def bind_eq_Some_conv split: if_splits)
  then have p: "ptrs s' = ptrs (tc_destroy_callback i s)" by (blast dest: on_target_ptrs)
  show "pointers_ok (s'\<lparr>cur_target := c\<rparr>)" "pointers_ok s'"
    using p tc_callback_pointers(4) [OF assms(2), of i] tc_callback_pointers(1) [of i s] i c by (auto simp: pointers_update ptrs_def split: if_splits)
qed

lemma attach_n_pointers:
  assumes "target_attach_n n tc s = Some (c, s')" "pointers_ok s"
  shows "pointers_ok (s'\<lparr>cur_target := c\<rparr>)"
  using assms attach_pointers(1) [of tc "unat n - 1" s c s'] by (auto simp: target_attach_n_def pointers_update split: if_splits)

lemma detach_pointers:
  assumes "detach_cur s = Some s'" "pointers_ok s"
  shows "pointers_ok s'"
proof -
  obtain s1 where "on_cur_do target_detach s = Some s1" "s' = s1\<lparr>last_target := cur_target s1, cur_target := None\<rparr>"
    using assms(1) by (auto simp: detach_cur_def bind_eq_Some_conv)
  then show ?thesis using assms(2) by (auto simp: pointers_ok_def ptrs_ok_def ptrs_def dest!: on_cur_do_ptrs)
qed

lemma run_control_pointers:
  "handle_halt_reason s = Some s' \<Longrightarrow> pointers_ok s \<Longrightarrow> pointers_ok s'"
  "handle_resume b s = Some s' \<Longrightarrow> pointers_ok s \<Longrightarrow> pointers_ok s'"
  "handle_detach c s = Some s' \<Longrightarrow> pointers_ok s \<Longrightarrow> pointers_ok s'"
  "handle_kill_target s = Some s' \<Longrightarrow> pointers_ok s \<Longrightarrow> pointers_ok s'"
  "handle_reset s = Some s' \<Longrightarrow> pointers_ok s \<Longrightarrow> pointers_ok s'"
proof -
  show hr: "pointers_ok s \<Longrightarrow> pointers_ok s'" if "handle_halt_reason s = Some s'" for s s' :: "'a target_scheme gdb_server"
    using that by (auto simp: handle_halt_reason_def pointers_ok_def split: if_splits)
  show "handle_resume b s = Some s' \<Longrightarrow> pointers_ok s \<Longrightarrow> pointers_ok s'"
    by (auto simp: handle_resume_def bind_eq_Some_conv pointers_ok_def split: if_splits dest!: on_cur_do_ptrs hr [unfolded pointers_ok_def])
  show "handle_detach c s = Some s' \<Longrightarrow> pointers_ok s \<Longrightarrow> pointers_ok s'"
    by (auto simp: handle_detach_def bind_eq_Some_conv Let_def pointers_ok_def split: if_splits dest!: detach_pointers [unfolded pointers_ok_def])
  show "handle_kill_target s = Some s' \<Longrightarrow> pointers_ok s \<Longrightarrow> pointers_ok s'"
    by (auto simp: handle_kill_target_def bind_eq_Some_conv split: if_splits dest!: on_cur_do_ptrs pointers_ptrs detach_pointers)
  show "handle_reset s = Some s' \<Longrightarrow> pointers_ok s \<Longrightarrow> pointers_ok s'"
    by (auto simp: handle_reset_def bind_eq_Some_conv split: option.splits dest!: on_cur_do_ptrs pointers_ptrs attach_pointers(1))
qed

lemma v_pointers:
  assumes "handle_v_packet n s = Some s'" "pointers_ok s"
  shows "pointers_ok s'"
proof -
  have run: "pointers_ok s'" if "run_target line s = Some s'" "pointers_ok s" for line and s s' :: "'a target_scheme gdb_server"
    using that by (auto simp: run_target_def bind_eq_Some_conv dest!: on_cur_do_ptrs pointers_ptrs) (simp add: pointers_ok_def)
  have vrun: "pointers_ok s'" if "handle_v_run tok s = Some s'" "pointers_ok s" for tok and s s' :: "'a target_scheme gdb_server"
  proof -
    let ?s = "s\<lparr>semihosting_wallclock_epoch := 0xffffffff, gs_rtt := (gs_rtt s)\<lparr>rtt_found := False\<rparr>\<rparr>"
    have ok: "pointers_ok ?s" using that(2) by (simp add: pointers_ok_def)
    then have "pointers_ok (replyz ''E01'' ?s)" by (simp add: pointers_ok_def)
    moreover have "pointers_ok (replyz ''E01'' (s1\<lparr>cur_target := c\<rparr>))" if "pointers_ok (s1\<lparr>cur_target := c\<rparr>)" for s1 c
      using that by (simp add: pointers_ok_def)
    ultimately show ?thesis using that(1) ok
      by (auto simp: handle_v_run_def bind_eq_Some_conv Let_def split: option.splits if_splits dest!: run dest: attach_pointers(1))
  qed
  have fa: "pointers_ok s'" if "flash_abort s = Some s'" "pointers_ok s" for s s' :: "'a target_scheme gdb_server"
    using that by (auto simp: flash_abort_def bind_eq_Some_conv pointers_ok_def dest!: on_cur_ptrs)
  have er: "pointers_ok s'" if "handle_v_flash_erase a l s = Some s'" "pointers_ok s" for a l and s s' :: "'a target_scheme gdb_server"
    using that fa by (auto simp: handle_v_flash_erase_def bind_eq_Some_conv pointers_ok_def split: if_splits dest!: on_cur_ptrs)
  have wr: "pointers_ok s'" if "handle_v_flash_write a b l s = Some s'" "pointers_ok s" for a b l and s s' :: "'a target_scheme gdb_server"
    using that fa by (auto simp: handle_v_flash_write_def bind_eq_Some_conv pointers_ok_def split: if_splits dest!: on_cur_ptrs)
  have dn: "pointers_ok s'" if "handle_v_flash_done s = Some s'" "pointers_ok s" for s s' :: "'a target_scheme gdb_server"
    using that by (auto simp: handle_v_flash_done_def bind_eq_Some_conv pointers_ok_def split: if_splits dest!: on_cur_ptrs)
  have cont: "pointers_ok s'" if "handle_v_cont a b s = Some s'" "pointers_ok s" for a b and s s' :: "'a target_scheme gdb_server"
    using that by (auto simp: handle_v_cont_def bind_eq_Some_conv pointers_ok_def split: if_splits dest!: on_cur_do_ptrs)
  have at: "pointers_ok s'" if "handle_v_attach k s = Some s'" "pointers_ok s" for k and s s' :: "'a target_scheme gdb_server"
    using that attach_n_pointers by (auto simp: handle_v_attach_def bind_eq_Some_conv pointers_ok_def Let_def split: if_splits)
  have kill: "pointers_ok (replyz z s')" if "handle_kill_target s = Some s'" "pointers_ok s" for z and s s' :: "'a target_scheme gdb_server"
    using run_control_pointers(4) [OF that] by (simp add: pointers_ok_def)
  have other: "pointers_ok (replyz z s)" "pointers_ok (handle_v_stopped s)" for z
    using assms(2) by (simp_all add: pointers_ok_def handle_v_stopped_def)
  show ?thesis using assms other
    by (auto simp: handle_v_packet_def bind_eq_Some_conv Let_def split: if_splits option.splits
      dest: vrun er wr dn cont at kill)
qed

text \<open>The monitor commands keep the pointers, too.\<close>

definition ext_ok :: "'h target_scheme gdb_ext \<Rightarrow> bool" where
  "ext_ok x \<longleftrightarrow>
     (\<forall>bs s r s'. x_command_process x bs s = Some (r, s') \<longrightarrow> pointers_ok s \<longrightarrow> pointers_ok s')"

lemma string_reply_ptrs [simp]: "ptrs (handle_q_string_reply text p s) = ptrs s"
  by (simp add: handle_q_string_reply_def split: prod.split list.split)

lemma q_pointers:
  assumes "handle_q_packet x n s = Some s'" "pointers_ok s" "ext_ok x"
  shows "pointers_ok s'"
proof -
  have "pointers_ok s'" if "exec_q x q p k s = Some s'" for q p k
  proof (cases q)
    case Q_rcmd
    then show ?thesis using that assms(2,3)
      by (auto simp: exec_q_def exec_q_rcmd_def bind_eq_Some_conv ext_ok_def pointers_ok_def split: if_splits)
  next
    case Q_memory_map
    then show ?thesis using that assms(2)
      by (auto simp: exec_q_def exec_q_memory_map_def bind_eq_Some_conv pointers_ok_def split: option.splits dest!: on_target_ptrs)
  next
    case Q_feature_read
    then show ?thesis using that assms(2)
      by (auto simp: exec_q_def exec_q_feature_read_def bind_eq_Some_conv pointers_ok_def split: option.splits dest!: on_target_ptrs)
  next
    case Q_crc
    then show ?thesis using that assms(2)
      by (auto simp: exec_q_def exec_q_crc_def bind_eq_Some_conv pointers_ok_def
        split: option.splits prod.splits list.splits if_splits dest!: on_cur_ptrs)
  next
    case Q_attached
    then show ?thesis using that assms(2)
      by (auto simp: exec_q_def exec_q_attached_def bind_eq_Some_conv pointers_ok_def split: if_splits dest!: on_cur_ptrs)
  qed (use that assms(2) in \<open>auto simp: exec_q_def pointers_ok_def exec_q_supported_def exec_q_thread_info_def exec_q_noackmode_def split: if_splits\<close>)
  then show ?thesis using assms(1,2) by (auto simp: handle_q_packet_def pointers_ok_def split: option.splits prod.splits)
qed

lemma just_Some: "just r = Some (v, s) \<longleftrightarrow> v = 0 \<and> r = Some s"
  by (auto simp: just_def bind_eq_Some_conv)

lemma memory_pointers:
  "handle_g s = Some s' \<Longrightarrow> pointers_ok s \<Longrightarrow> pointers_ok s'"
  "handle_m n s = Some s' \<Longrightarrow> pointers_ok s \<Longrightarrow> pointers_ok s'"
  "handle_G s = Some s' \<Longrightarrow> pointers_ok s \<Longrightarrow> pointers_ok s'"
  "handle_M sz s = Some s' \<Longrightarrow> pointers_ok s \<Longrightarrow> pointers_ok s'"
  "handle_X sz s = Some s' \<Longrightarrow> pointers_ok s \<Longrightarrow> pointers_ok s'"
  "handle_p s = Some s' \<Longrightarrow> pointers_ok s \<Longrightarrow> pointers_ok s'"
  "handle_P s = Some s' \<Longrightarrow> pointers_ok s \<Longrightarrow> pointers_ok s'"
  "handle_H s = Some s' \<Longrightarrow> pointers_ok s \<Longrightarrow> pointers_ok s'"
  "handle_z_packet s = Some s' \<Longrightarrow> pointers_ok s \<Longrightarrow> pointers_ok s'"
  by (blast dest: memory_ptrs pointers_ptrs [THEN iffD2])+

lemma main_pointers:
  assumes "gdb_main_loop x n sz sys s = Some (r, s')" "pointers_ok s" "ext_ok x"
  shows "pointers_ok s'"
proof -
  have z: "pointers_ok (replyz t s)" for t using assms(2) by (simp add: pointers_ok_def)
  have sh: "pointers_ok s'" if "semihosting_reply s = Some (r, s')"
    using that assms(2) semihosting_reply_ptrs pointers_ptrs by blast
  note d = memory_pointers [OF _ assms(2)] run_control_pointers [OF _ assms(2)] q_pointers [OF _ assms(2,3)] v_pointers [OF _ assms(2)]
  show ?thesis using assms(1) unfolding gdb_main_loop_def
    by (auto simp only: just_Some option.inject split: list.splits if_splits intro: z sh d)
qed

lemma poll_pointers:
  assumes "poll_loop x n s = Some s'" "pointers_ok s"
  shows "pointers_ok s'"
  using assms
proof (induction n arbitrary: s)
  case 0
  then show ?case by (auto split: if_splits)
next
  case (Suc n)
  have poll: "pointers_ok s'" if "gdb_poll_target s = Some s'" "pointers_ok s" for s s' :: "'a target_scheme gdb_server"
    using that by (auto simp: gdb_poll_target_def bind_eq_Some_conv pointers_ok_def split: if_splits dest!: on_cur_ptrs)
  show ?case using Suc.prems
    by (auto simp: bind_eq_Some_conv Let_def pointers_ok_def split: if_splits prod.splits dest!: poll [unfolded pointers_ok_def] on_cur_do_ptrs serve_rtt_ptrs
      Suc.IH [unfolded pointers_ok_def])
qed

text \<open>A turn of the main loop keeps both pointers inside the list of targets.\<close>

lemma turn_pointers:
  assumes "bmp_poll_loop x fuel s = Some (b, s')" "pointers_ok s" "ext_ok x"
  shows "pointers_ok s'"
proof -
  obtain s1 n s2 where 1: "poll_loop x fuel s = Some s1" and 2: "read_packet x s1 = Some (n, s2)"
    and 3: "case n of None \<Rightarrow> s' = s2 | Some sz \<Rightarrow> gdb_main x 1024 sz s2 = Some s'"
    using assms(1) by (auto simp: bmp_poll_loop_def bind_eq_Some_conv split: option.splits)
  have "ptrs s2 = ptrs s1" using 2 by (auto simp: read_packet_def Let_def split: option.splits sum.splits prod.splits)
  then have "pointers_ok s2" using poll_pointers [OF 1 assms(2)] by (simp add: pointers_ok_def)
  then show ?thesis using 3 main_pointers assms(3) by (auto simp: gdb_main_def bind_eq_Some_conv split: option.splits)
qed

subsection \<open>Packets without a target\<close>

text \<open>Without a target, every packet that needs one is refused with EFF and changes nothing else.\<close>

theorem gdb_no_target:
  assumes "cur_target s = None" "gs_pbuf s = of_char c # rest" "c \<in> set ''gmGMpPXZz''"
  shows "gdb_main_loop x n sz sys s = Some (0, replyz ''EFF'' s)"
proof -
  have "c = CHR ''g'' \<or> c = CHR ''m'' \<or> c = CHR ''G'' \<or> c = CHR ''M'' \<or> c = CHR ''p'' \<or> c = CHR ''P'' \<or> c = CHR ''X'' \<or> c = CHR ''Z'' \<or> c = CHR ''z''"
    using assms(3) by auto
  then show ?thesis using assms(1,2)
    by (elim disjE) (simp_all add: gdb_main_loop_def just_def handle_g_def handle_m_def handle_G_def handle_M_def handle_p_def handle_P_def handle_X_def)
qed

text \<open>The flash packets are not among them: vFlashDone and vFlashWrite without a target go through a null
  pointer.\<close>

theorem gdb_flash_no_target:
  assumes "cur_target s = None" "cstr (gs_pbuf s) = ascii ''vFlashDone'' \<or> (\<exists>a. cstr (gs_pbuf s) = ascii (''vFlashWrite:'' @ fmt_x a @ '':''))"
  shows "gdb_main_loop x n sz sys s = None"
proof -
  have c: "\<exists>rest. gs_pbuf s = of_char (CHR ''v'') # rest"
    using assms(2) by (cases "gs_pbuf s") (auto simp: cstr_def split: if_splits)
  have oc: "on_cur f s = None" for f :: "'a target_scheme target_ops \<Rightarrow> 'a target_scheme \<Rightarrow> ('b \<times> 'a target_scheme) option"
    using assms(1) by (simp add: on_cur_def)
  have "handle_v_packet sz s = None"
    using assms(2)
  proof
    assume d: "cstr (gs_pbuf s) = ascii ''vFlashDone''"
    show ?thesis by (simp add: handle_v_packet_def sscanf_def has_prefix_def d handle_v_flash_done_def oc)
  next
    assume "\<exists>a. cstr (gs_pbuf s) = ascii (''vFlashWrite:'' @ fmt_x a @ '':'')"
    then obtain a where a: "cstr (gs_pbuf s) = ascii (''vFlashWrite:'' @ fmt_x a @ '':'')" by blast
    have n: "scan_number 16 8 (ascii (fmt_x a) @ [0x3a]) = Some (a, [0x3a])"
      by (rule scan_number_fmt_x) (simp_all add: length_fmt_x(1) hex_stop_def digit_value_def)
    show ?thesis using assms(1)
      by (simp add: handle_v_packet_def sscanf_def has_prefix_def a n handle_v_flash_write_def flash_abort_def oc)
  qed
  then show ?thesis using c by (auto simp: gdb_main_loop_def just_def)
qed

subsection \<open>Binary and hexadecimal writes\<close>

text \<open>The requests a debugger sends: the operation, an address and a length in hexadecimal, and a colon.\<close>

definition mem_request :: "char \<Rightarrow> u32 \<Rightarrow> u32 \<Rightarrow> byte list" where
  "mem_request c a n = ascii (c # fmt_x a @ '','' @ fmt_x n @ '':'')"

lemma scan_request:
  assumes "of_char c \<noteq> (0 :: byte)"
  shows "sscanf (mem_request c a n @ r) [Lit (ascii [c]), Fx None, Lit (ascii '',''), Fx None, Lit (ascii '':''), Fn] =
    ([a, n], Some (length (mem_request c a n)))"
proof -
  have z: "0 \<notin> set (mem_request c a n)" using assms by (auto simp: mem_request_def fmt_x_nonzero)
  have t: "cstr (mem_request c a n @ r) = of_char c # ascii (fmt_x a) @ 0x2c # ascii (fmt_x n) @ 0x3a # cstr r"
    unfolding cstr_append [OF z] by (simp add: mem_request_def)
  have s: "hex_stop (0x2c # cs)" "hex_stop (0x3a # cs)" for cs by (simp_all add: hex_stop_def digit_value_def)
  show ?thesis unfolding sscanf_def t by (simp add: mem_request_def scan_number_fmt_x s)
qed

lemma on_target_pbuf: "on_target i f (s\<lparr>gs_pbuf := p\<rparr>) = map_option (map_prod id (gs_pbuf_update (\<lambda>_. p))) (on_target i f s)"
  by (cases "gs_targets s ! i"; cases "f (fst (gs_targets s ! i)) (snd (gs_targets s ! i))") (auto simp: on_target_def)

lemma reply_pbuf: "reply q (s\<lparr>gs_pbuf := p\<rparr>) = (reply q s)\<lparr>gs_pbuf := p\<rparr>" "replyz z (s\<lparr>gs_pbuf := p\<rparr>) = (replyz z s)\<lparr>gs_pbuf := p\<rparr>"
  by (simp_all add: reply_def replyz_def split: prod.split)

lemma write_memory_pbuf: "write_memory a bs (s\<lparr>gs_pbuf := p\<rparr>) = map_option (gs_pbuf_update (\<lambda>_. p)) (write_memory a bs s)"
proof (cases "cur_target s")
  case (Some i)
  then show ?thesis
    by (cases "on_target i (\<lambda>ops. target_mem_write ops a bs (length bs)) s") (auto simp: write_memory_def on_cur_def on_target_pbuf reply_pbuf)
qed (simp add: write_memory_def on_cur_def)

lemma write_X:
  assumes "cur_target s \<noteq> None" "length bs < 2 ^ 31"
  shows "gdb_main_loop x n (length (mem_request (CHR ''X'') a (of_nat (length bs))) + length bs) sys
      (s\<lparr>gs_pbuf := mem_request (CHR ''X'') a (of_nat (length bs)) @ bs @ zs\<rparr>) =
    just (write_memory a bs (s\<lparr>gs_pbuf := mem_request (CHR ''X'') a (of_nat (length bs)) @ bs @ zs\<rparr>))"
proof -
  let ?h = "mem_request (CHR ''X'') a (of_nat (length bs))"
  have u: "unat (of_nat (length bs) :: u32) = length bs" using assms(2) by (simp add: unat_of_nat)
  have h: "\<exists>r. ?h = of_char (CHR ''X'') # r" by (simp add: mem_request_def)
  have sc: "sscanf (?h @ bs @ zs) [Lit (ascii ''X''), Fx None, Lit (ascii '',''), Fx None, Lit (ascii '':''), Fn] =
    ([a, of_nat (length bs)], Some (length ?h))" by (rule scan_request) simp
  have "handle_X (length ?h + length bs) (s\<lparr>gs_pbuf := ?h @ bs @ zs\<rparr>) = write_memory a bs (s\<lparr>gs_pbuf := ?h @ bs @ zs\<rparr>)"
    unfolding handle_X_def using assms(1) sc by (auto simp: u split: option.splits)
  moreover obtain r where "?h = of_char (CHR ''X'') # r" using h by blast
  ultimately show ?thesis by (simp add: gdb_main_loop_def)
qed

lemma write_M:
  assumes "cur_target s \<noteq> None" "length bs < 2 ^ 31"
  shows "gdb_main_loop x n (length (mem_request (CHR ''M'') a (of_nat (length bs))) + 2 * length bs) sys
      (s\<lparr>gs_pbuf := mem_request (CHR ''M'') a (of_nat (length bs)) @ hexify bs @ zs\<rparr>) =
    just (write_memory a bs (s\<lparr>gs_pbuf := mem_request (CHR ''M'') a (of_nat (length bs)) @ hexify bs @ zs\<rparr>))"
proof -
  let ?h = "mem_request (CHR ''M'') a (of_nat (length bs))"
  have u: "unat (of_nat (length bs) :: u32) = length bs" using assms(2) by (simp add: unat_of_nat)
  have u2: "unat (of_nat (2 * length bs) :: u32) = 2 * length bs" unfolding unat_of_nat using assms(2) by simp
  have h: "\<exists>r. ?h = of_char (CHR ''M'') # r" by (simp add: mem_request_def)
  have sc: "sscanf (?h @ hexify bs @ zs) [Lit (ascii ''M''), Fx None, Lit (ascii '',''), Fx None, Lit (ascii '':''), Fn] =
    ([a, of_nat (length bs)], Some (length ?h))" by (rule scan_request) simp
  have "(of_nat (length ?h + 2 * length bs) - of_nat (length ?h) :: u32) = of_nat (2 * length bs)" by simp
  then have "handle_M (length ?h + 2 * length bs) (s\<lparr>gs_pbuf := ?h @ hexify bs @ zs\<rparr>) = write_memory a bs (s\<lparr>gs_pbuf := ?h @ hexify bs @ zs\<rparr>)"
    unfolding handle_M_def using assms(1) sc u2 by (auto simp: u unhexify_hex split: option.splits)
  moreover obtain r where "?h = of_char (CHR ''M'') # r" using h by blast
  ultimately show ?thesis by (simp add: gdb_main_loop_def)
qed

text \<open>A binary write (X) does what the hexadecimal write (M) of the same bytes does, up to what is left in
  the packet buffer.\<close>

theorem gdb_X_is_M:
  assumes "cur_target s \<noteq> None" "length bs < 2 ^ 31"
  shows "map_option (map_prod id (gs_pbuf_update (\<lambda>_. [])))
      (gdb_main_loop x n (length (mem_request (CHR ''X'') a (of_nat (length bs))) + length bs) sys
        (s\<lparr>gs_pbuf := mem_request (CHR ''X'') a (of_nat (length bs)) @ bs @ zs\<rparr>)) =
    map_option (map_prod id (gs_pbuf_update (\<lambda>_. [])))
      (gdb_main_loop x n (length (mem_request (CHR ''M'') a (of_nat (length bs))) + 2 * length bs) sys
        (s\<lparr>gs_pbuf := mem_request (CHR ''M'') a (of_nat (length bs)) @ hexify bs @ zs'\<rparr>))"
  unfolding write_X [OF assms] write_M [OF assms] write_memory_pbuf
  by (cases "write_memory a bs s") (simp_all add: just_def)

subsection \<open>Reading a document in pieces\<close>

definition xfer_request :: "u32 \<Rightarrow> u32 \<Rightarrow> byte list" where
  "xfer_request a n = ascii (fmt_x a @ '','' @ fmt_x n) @ [0]"

lemma scan_xfer: "sscanf (xfer_request a n) [Fx (Some 8), Lit (ascii '',''), Fx (Some 8)] = ([a, n], None)"
proof -
  have z: "0 \<notin> set (ascii (fmt_x a @ '','' @ fmt_x n))" by (auto simp: fmt_x_nonzero)
  have t: "cstr (xfer_request a n) = ascii (fmt_x a) @ 0x2c # ascii (fmt_x n)"
    unfolding xfer_request_def cstr_append [OF z] by simp
  have s: "hex_stop (0x2c # cs)" "hex_stop []" for cs by (simp_all add: hex_stop_def digit_value_def)
  have n: "scan_number 16 8 (ascii (fmt_x n)) = Some (n, [])" using scan_number_fmt_x [OF length_fmt_x(1) s(2)] by simp
  show ?thesis unfolding sscanf_def t by (simp add: scan_number_fmt_x length_fmt_x(1) s n)
qed

lemma string_reply:
  assumes "unat a \<le> length text"
  shows "handle_q_string_reply text (xfer_request a n) s =
    (if unat a = length text then replyz ''l'' s else reply (ascii ''m'' @ take (unat n) (drop (unat a) text)) s)"
  using assms unfolding handle_q_string_reply_def scan_xfer by (simp add: reply2_def reply_def putpacket2_append)

lemma concat_pieces: "concat (map (\<lambda>k. take n (drop (k * n) text)) [0..<c]) = take (c * n) text"
  by (induction c) (simp_all add: take_add [symmetric] add.commute)

text \<open>C28: a debugger that reads a document (the memory map or the register description) in pieces of n bytes
  gets the document, piece by piece, and then the answer that there is no more.\<close>

theorem gdb_xfer_complete:
  assumes "length text < 2 ^ 32" "0 < n" "n < 2 ^ 32"
  shows "\<exists>pieces. concat pieces = text \<and> (\<forall>p \<in> set pieces. p \<noteq> [] \<and> length p \<le> n) \<and>
    fold (\<lambda>off. handle_q_string_reply text (xfer_request (of_nat off) (of_nat n)))
      (map (\<lambda>k. k * n) [0..<(length text + n - 1) div n] @ [length text]) s =
    replyz ''l'' (fold (\<lambda>p. reply (ascii ''m'' @ p)) pieces s)"
proof -
  let ?c = "(length text + n - 1) div n"
  let ?ps = "map (\<lambda>k. take n (drop (k * n) text)) [0..<?c]"
  have lt: "k * n < length text" if "k < ?c" for k
  proof -
    have "Suc k * n \<le> ?c * n" using that by (intro mult_le_mono1) simp
    also have "\<dots> \<le> length text + n - 1" by (rule div_times_less_eq_dividend)
    finally show ?thesis using assms(2) by simp
  qed
  have ge: "length text \<le> ?c * n"
  proof -
    have "length text + n - 1 < (?c + 1) * n" using dividend_less_div_times [OF assms(2), of "length text + n - 1"] by simp
    then show ?thesis by simp
  qed
  have u: "unat (of_nat m :: u32) = m" if "m \<le> length text" for m using that assms(1) by (simp add: unat_of_nat)
  have un: "unat (of_nat n :: u32) = n" using assms(3) by (simp add: unat_of_nat)
  have ul: "unat (of_nat (length text) :: u32) = length text" by (rule u) simp
  have step: "handle_q_string_reply text (xfer_request (of_nat (k * n)) (of_nat n)) s = reply (ascii ''m'' @ take n (drop (k * n) text)) s"
    if "k \<in> set [0..<?c]" for k and s :: "'a gdb_server"
  proof -
    have l: "k * n < length text" using that lt by simp
    have "unat (of_nat (k * n) :: u32) = k * n" by (rule u) (use l in \<open>simp\<close>)
    then show ?thesis using string_reply [of "of_nat (k * n)" "text" "of_nat n" s] l by (simp only: un) simp
  qed
  have "fold (\<lambda>off. handle_q_string_reply text (xfer_request (of_nat off) (of_nat n))) (map (\<lambda>k. k * n) [0..<?c]) s =
    fold (\<lambda>p. reply (ascii ''m'' @ p)) ?ps s"
    unfolding fold_map by (rule fold_cong) (rule refl, rule refl, simp only: o_def fun_eq_iff step, simp)
  moreover have "handle_q_string_reply text (xfer_request (of_nat (length text)) (of_nat n)) t = replyz ''l'' t" for t :: "'a gdb_server"
    using string_reply [of "of_nat (length text)" "text" "of_nat n" t] by (simp only: ul) simp
  moreover have "concat ?ps = text" using ge by (simp add: concat_pieces)
  moreover have "\<forall>p \<in> set ?ps. p \<noteq> [] \<and> length p \<le> n"
  proof
    fix p
    assume "p \<in> set ?ps"
    then obtain k where "k < ?c" "p = take n (drop (k * n) text)" by auto
    then show "p \<noteq> [] \<and> length p \<le> n" using lt [of k] assms(2) by simp
  qed
  ultimately show ?thesis by (intro exI [of _ ?ps]) simp
qed

subsection \<open>A packet from the link\<close>

lemma map_filter_Some: "List.map_filter id (map Some xs @ ys) = xs @ List.map_filter id ys"
  by (induction xs) (simp_all add: List.map_filter_simps)

lemma drop_chars_Some: "drop_chars (length xs) (map Some xs @ ys) = ys"
  by (induction xs) simp_all

lemma gdb_turn:
  assumes "\<not> (gdb_target_running s \<and> cur_target s \<noteq> None)" "length p < 1024" "length (gs_pbuf s) = 1025"
    "gs_input s = map Some (frame_bytes GDB_PACKET_START p) @ rest"
  shows "bmp_poll_loop x fuel s =
    do { s \<leftarrow> gdb_main x 1024 (length p)
           (s\<lparr>gs_pbuf := p @ 0 # drop (Suc (length p)) (gs_pbuf s),
              gs_out := gs_out s @ (if gs_noackmode s then [] else [GDB_PACKET_ACK]), gs_input := rest\<rparr>);
         Some (True, s) }"
proof -
  let ?f = "frame_bytes GDB_PACKET_START p"
  obtain c where c: "gdb_getpacket (x_remote x) (gs_noackmode s) 1024 (gs_pbuf s) (?f @ List.map_filter id rest) =
      Some (Inr (length p, c, List.map_filter id rest))" "cp_packet c = p @ 0 # drop (Suc (length p)) (gs_pbuf s)"
    "cp_out c = (if gs_noackmode s then [] else [GDB_PACKET_ACK])"
    using packet_received [of p 1024 "gs_pbuf s" "x_remote x" "gs_noackmode s" "List.map_filter id rest"] assms(2,3) by auto
  have "poll_loop x fuel s = Some s" using assms(1) by (cases fuel) auto
  then show ?thesis using c
    by (simp add: bmp_poll_loop_def read_packet_def assms(4) map_filter_Some drop_chars_Some Let_def)
qed

subsection \<open>Register values\<close>

definition hex_text :: "byte list \<Rightarrow> byte list" where
  "hex_text bs = concat (map (\<lambda>b. [hex_digit (drop_bit 4 b), hex_digit (b AND 0xf)]) bs)"

lemma hexify_text: "hexify bs = hex_text bs @ [0]" "length (hex_text bs) = 2 * length bs"
  by (induction bs) (simp_all add: hexify_def hex_text_def)

lemma hex_text_nonzero: "0 \<notin> set (hex_text bs)"
proof -
  have n: "hex_digit v \<noteq> 0" if "v < 16" for v using nibble_cases [OF that] by (auto simp: hex_digit_def)
  show ?thesis by (auto simp: hex_text_def n dest: sym)
qed

lemma unhexify_text: "unhexify (length bs) (hex_text bs @ r) = Some bs"
  by (induction bs) (simp_all add: hex_text_def nibbles_join)

lemma strtoul_fmt_x: "strtoul16 (ascii (fmt_x r) @ 0x3d # cs) = (r, 0x3d # cs)"
  by (simp add: strtoul16_def scan_number_fmt_x hex_stop_def digit_value_def)

text \<open>C40: a P packet with a value of more than four bytes overruns the buffer of four bytes the value is
  decoded into.\<close>

theorem gdb_P_overflow:
  assumes "cur_target s = Some i" "i < length (gs_targets s)" "reg_write_fn (fst (gs_targets s ! i)) \<noteq> None"
    "gs_pbuf s = ascii (''P'' @ fmt_x r @ ''='') @ hexify bs @ zs" "4 < length bs"
  shows "gdb_main_loop x n sz sys s = None"
proof -
  have z: "0 \<notin> set (ascii (''P'' @ fmt_x r @ ''='') @ hex_text bs)" by (auto simp: fmt_x_nonzero hex_text_nonzero)
  have p: "gs_pbuf s = (ascii (''P'' @ fmt_x r @ ''='') @ hex_text bs) @ 0 # zs" using assms(4) by (simp add: hexify_text)
  have c: "cstr (gs_pbuf s) = of_char (CHR ''P'') # ascii (fmt_x r) @ 0x3d # hex_text bs" unfolding p cstr_append [OF z] by simp
  have u: "unhexify (length bs) (hex_text bs) = Some bs" using unhexify_text [of bs "[]"] by simp
  have "handle_P s = None"
    using assms(1,2,3,5) u by (auto simp: handle_P_def of_cur_def of_target_def c strtoul_fmt_x hexify_text(2))
  then show ?thesis using assms(4) by (simp add: gdb_main_loop_def just_def)
qed

subsection \<open>Instances\<close>

definition bare_ops :: "'s target_ops" where
  "bare_ops = \<lparr>attach_fn = None, detach_fn = Some Some, check_error_fn = None, mem_read_fn = None, mem_write_fn = None, reg_read_fn = None,
     reg_write_fn = Some (\<lambda>_ _ n t. Some (int n, t)), regs_read_fn = None, regs_write_fn = None, reset_fn = None, extended_reset_fn = None,
     halt_request_fn = None, halt_poll_fn = None, halt_resume_fn = None, breakwatch_set_fn = None, breakwatch_clear_fn = None,
     mass_erase_fn = None, enter_flash_mode_fn = None, exit_flash_mode_fn = None, destroy_callback_fn = Some,
     flash_ops_of = (\<lambda>_. \<lparr>fprepare = None, ferase = (\<lambda>_ _ _ t. Some (True, t)), fwrite = (\<lambda>_ _ _ _ t. Some (True, t)), fdone = None\<rparr>)\<rparr>"

definition server_with :: "('s target_ops \<times> 's) list \<Rightarrow> byte option list \<Rightarrow> 's gdb_server" where
  "server_with ts input =
     \<lparr>gs_targets = ts, gs_share = (\<lambda>_ u. u), cur_target = (if ts = [] then None else Some 0), last_target = None, gdb_target_running = False,
      gdb_needs_detach_notify = False, gdb_controller = \<lparr>tc_object = Gdb_controller, semihosting_buffer = [], gdb_errno = 0, interrupted = False\<rparr>, gs_noackmode = True,
      gs_pbuf = replicate 1025 0, gs_out = [], gs_input = input, gs_ui_capture = None, gs_mallocs = [], gs_crc_ms = [],
      semihosting_wallclock_epoch = 0, semihosting_features_offset = 0, gs_stdout = [], gs_rtt = rtt_statics\<rparr>"

definition bare_ext :: "'h target_scheme gdb_ext" where
  "bare_ext = \<lparr>x_command_process = (\<lambda>_ s. Some (0, s)), x_regs_description = (\<lambda>_ _. []),
     x_rtt_fuel = 0, x_remote = (\<lambda>_. [])\<rparr>"

abbreviation server_example :: "byte option list \<Rightarrow> target gdb_server" where
  "server_example \<equiv> server_with [(bare_ops, map_example\<lparr>t_tc := Some \<lparr>tc_object = Gdb_controller, semihosting_buffer = [], gdb_errno = 0, interrupted = False\<rparr>\<rparr>)]"

lemma server_fields [simp]:
  "gs_targets (server_with ts i) = ts" "cur_target (server_with ts i) = (if ts = [] then None else Some 0)" "last_target (server_with ts i) = None"
  "gs_pbuf (server_with ts i) = replicate 1025 0" "gs_input (server_with ts i) = i" "\<not> gdb_target_running (server_with ts i)"
  "gs_noackmode (server_with ts i)" "gs_share (server_with ts i) = (\<lambda>_ u. u)" "gs_out (server_with ts i) = []"
  by (simp_all add: server_with_def)

lemma bare_ext_ok: "ext_ok bare_ext"
  by (simp add: ext_ok_def bare_ext_def)

theorem gdb_no_target_witness:
  "gdb_main_loop bare_ext 1024 1 False ((server_with [] [] :: target gdb_server)\<lparr>gs_pbuf := [0x67, 0]\<rparr>) =
     Some (0, replyz ''EFF'' ((server_with [] [])\<lparr>gs_pbuf := [0x67, 0]\<rparr>))"
  by (rule gdb_no_target [where c = "CHR ''g''" and rest = "[0]"]) simp_all

theorem gdb_flash_no_target_witness:
  "gdb_main_loop bare_ext 1024 10 False ((server_with [] [] :: target gdb_server)\<lparr>gs_pbuf := ascii ''vFlashDone''\<rparr>) = None"
  by (rule gdb_flash_no_target) (simp_all add: cstr_def)

theorem gdb_P_overflow_witness:
  "gdb_main_loop bare_ext 1024 13 False ((server_example [])\<lparr>gs_pbuf := ascii (''P'' @ fmt_x 0 @ ''='') @ hexify [1, 2, 3, 4, 5] @ []\<rparr>) = None"
  by (rule gdb_P_overflow [where i = 0 and r = 0 and bs = "[1, 2, 3, 4, 5]" and zs = "[]"]) (simp_all add: bare_ops_def)

theorem gdb_X_is_M_witness:
  "map_option (map_prod id (gs_pbuf_update (\<lambda>_. [])))
      (gdb_main_loop bare_ext 1024 (length (mem_request (CHR ''X'') 0x20000000 1) + 1) False
        ((server_example [])\<lparr>gs_pbuf := mem_request (CHR ''X'') 0x20000000 1 @ [7] @ []\<rparr>)) =
    map_option (map_prod id (gs_pbuf_update (\<lambda>_. [])))
      (gdb_main_loop bare_ext 1024 (length (mem_request (CHR ''M'') 0x20000000 1) + 2) False
        ((server_example [])\<lparr>gs_pbuf := mem_request (CHR ''M'') 0x20000000 1 @ hexify [7] @ []\<rparr>))"
  using gdb_X_is_M [of "server_example []" "[7]" bare_ext 1024 "0x20000000" False "[]" "[]"] by simp

theorem gdb_xfer_complete_witness:
  "\<exists>pieces. concat pieces = [1, 2, 3 :: byte] \<and> (\<forall>p \<in> set pieces. p \<noteq> [] \<and> length p \<le> 2) \<and>
    fold (\<lambda>off. handle_q_string_reply [1, 2, 3] (xfer_request (of_nat off) (of_nat 2)))
      (map (\<lambda>k. k * 2) [0..<(length [1, 2, 3 :: byte] + 2 - 1) div 2] @ [length [1, 2, 3 :: byte]]) (server_with [] [] :: target gdb_server) =
    replyz ''l'' (fold (\<lambda>p. reply (ascii ''m'' @ p)) pieces (server_with [] []))"
  by (rule gdb_xfer_complete) simp_all

end
