(* ===== verification/Gdb_Pointers.thy ===== *)
theory Gdb_Pointers
  imports Gdb_Main
begin

text \<open>
  The pointers cur_target and last_target of src/gdb_main.c over attaching, detaching, killing, resetting and scanning,
  and the two verbs of src/components/ui/ui_debug.c that attach and detach from the stand-alone mode. A scan frees every
  target first (target_list_free), so the pointers must not outlive the list; that they do not rests on the callbacks
  of the controllers.
\<close>

subsection \<open>The stand-alone mode\<close>

definition ui_controller :: target_controller where
  "ui_controller = \<lparr>tc_object = Ui_controller, semihosting_buffer = [], gdb_errno = 0, interrupted = False\<rparr>"

definition v_attach :: "u32 \<Rightarrow> 'h target_scheme gdb_server \<Rightarrow> 'h target_scheme gdb_server option" where
  "v_attach n s =
     do { (t, s) \<leftarrow> target_attach_n n ui_controller s;
          Some (case t of None \<Rightarrow> s | Some i \<Rightarrow> s\<lparr>cur_target := Some i\<rparr>) }"

definition v_detach :: "'h target_scheme gdb_server \<Rightarrow> 'h target_scheme gdb_server option" where
  "v_detach s =
     (if cur_target s = None then Some s
      else do { s \<leftarrow> on_cur_do target_detach s; Some (s\<lparr>cur_target := None\<rparr>) })"

subsection \<open>Operations on the pointers\<close>






subsection \<open>The invariant\<close>

text \<open>Drivers whose functions come back, in states that are good, and leave the controller alone; refuse says that an
  attach may be refused.\<close>

definition returns :: "('h target_scheme \<Rightarrow> bool) \<Rightarrow> ('h target_scheme \<Rightarrow> 'h target_scheme option) \<Rightarrow> bool" where
  "returns good f \<longleftrightarrow> (\<forall>t. good t \<longrightarrow> (\<exists>t'. f t = Some t' \<and> good t' \<and> t_tc t' = t_tc t))"

definition answers :: "('h target_scheme \<Rightarrow> bool) \<Rightarrow> bool \<Rightarrow> ('h target_scheme \<Rightarrow> (bool \<times> 'h target_scheme) option) \<Rightarrow> bool" where
  "answers good refuse f \<longleftrightarrow> (\<forall>t. good t \<longrightarrow> (\<exists>ok t'. f t = Some (ok, t') \<and> good t' \<and> t_tc t' = t_tc t \<and> (ok \<or> refuse)))"

definition tame :: "('h target_scheme \<Rightarrow> bool) \<Rightarrow> bool \<Rightarrow> 'h target_scheme target_ops \<Rightarrow> bool" where
  "tame good refuse ops \<longleftrightarrow>
     (case detach_fn ops of None \<Rightarrow> False | Some f \<Rightarrow> returns good f) \<and>
     (case attach_fn ops of None \<Rightarrow> True | Some f \<Rightarrow> answers good refuse f) \<and>
     (case reset_fn ops of None \<Rightarrow> True | Some f \<Rightarrow> returns good f)"

definition good_closed :: "('h target_scheme \<Rightarrow> bool) \<Rightarrow> bool" where
  "good_closed good \<longleftrightarrow> (\<forall>t c b a. good t \<longrightarrow> good (t\<lparr>t_tc := c, plat_clk_output := b\<rparr>) \<and> good (t\<lparr>plat_clk_output := b\<rparr>) \<and>
     good (t\<lparr>plat_clk_output := b, attached := a\<rparr>) \<and> good (t\<lparr>attached := a\<rparr>))"





lemma server_view:
  "gs_targets (replyz z s) = gs_targets s" "gs_share (replyz z s) = gs_share s" "gdb_controller (replyz z s) = gdb_controller s"
  "gs_targets (set_noackmode b s) = gs_targets s" "gs_share (set_noackmode b s) = gs_share s" "gdb_controller (set_noackmode b s) = gdb_controller s"
  by (simp_all add: replyz_def reply_def set_noackmode_def split: prod.split)

lemma noackmode_pointers: "cur_target (set_noackmode b s) = cur_target s" "last_target (set_noackmode b s) = last_target s"
  by (simp_all add: set_noackmode_def split: prod.split)




lemma detach_call:
  assumes "tame good refuse ops" "good_closed good" "good t"
  shows "\<exists>t'. target_detach ops t = Some t' \<and> good t' \<and> t_tc t' = t_tc t"
proof -
  obtain f where f: "detach_fn ops = Some f" "returns good f" using assms(1) by (auto simp: tame_def split: option.splits)
  obtain t' where "f t = Some t'" "good t'" "t_tc t' = t_tc t" using f(2) assms(3) unfolding returns_def by blast
  moreover from this have "good (t'\<lparr>plat_clk_output := False, attached := False\<rparr>)" using assms(2) unfolding good_closed_def by blast
  ultimately show ?thesis using f(1) by (simp add: target_detach_def)
qed



subsection \<open>The operations keep it\<close>











text \<open>The stand-alone mode's controller has a callback of its own, which clears cur_target only: when it has attached a
  target and the debugger detaches, last_target still names the target after the list is freed.\<close>

theorem ui_attach_dangles:
  assumes "tame good refuse ops" "good_closed good" "good t" "gs_targets s = [(ops, t)]" "t_tc t = None" "attach_fn ops = None"
  shows "\<exists>s1 s2 s3. v_attach 1 s = Some s1 \<and> handle_detach c s1 = Some s2 \<and> target_list_free s2 = Some s3 \<and>
    gs_targets s3 = [] \<and> last_target s3 = Some 0"
proof -
  let ?t = "t\<lparr>t_tc := Some ui_controller, plat_clk_output := True, attached := True\<rparr>"
  have t: "good ?t" using assms(2,3) unfolding good_closed_def by (metis (no_types))
  obtain u where u: "target_detach ops ?t = Some u" "t_tc u = Some ui_controller" "\<not> attached u"
    using detach_call [OF assms(1,2) t] by (auto simp: target_detach_def bind_eq_Some_conv)
  have 1: "v_attach 1 s = Some (s\<lparr>gs_targets := [(ops, ?t)], cur_target := Some 0\<rparr>)"
    using assms(4-6) by (simp add: v_attach_def target_attach_n_def attach_target_def tc_destroy_callback_def on_target_def target_attach_def)
  let ?s2 = "s\<lparr>gs_targets := [(ops, u)], cur_target := None, last_target := Some 0\<rparr>"
  have "detach_cur (s\<lparr>gs_targets := [(ops, ?t)], cur_target := Some 0\<rparr>) = Some ?s2"
    using u(1) by (simp add: detach_cur_def on_cur_do_def on_cur_def on_target_def)
  then have 2: "handle_detach c (s\<lparr>gs_targets := [(ops, ?t)], cur_target := Some 0\<rparr>) = Some (set_noackmode False (if c = 0x44 then replyz ''OK'' ?s2 else ?s2))"
    by (simp add: handle_detach_def)
  have "\<exists>s3. target_list_free s' = Some s3 \<and> gs_targets s3 = [] \<and> last_target s3 = Some 0" if "gs_targets s' = [(ops, u)]" "last_target s' = Some 0" for s'
    using that u(2,3) by (simp add: target_list_free_def on_target_def tc_destroy_callback_def ui_controller_def ui_ctrl_destroy_def)
  then show ?thesis using 1 2 by (simp add: server_view noackmode_pointers)
qed

end
