(* ===== verification/Semihosting.thy ===== *)
theory Semihosting
  imports Gdb_Main
begin

text \<open>
  Semihosting, src/target/semihosting.c in the firmware build: a target that stops for a system call has it
  carried out by the debugger, through File-I/O packets. A call runs on the server of Gdb_Main, with the current
  target as its target: it sends a request and serves packets until the reply comes. Results of type int32_t
  are words. Buffers that are not initialised start as zeros. Fuel bounds the packets served in one call, the
  length of a string and so on; a call that waits for ever is None. What goes to the auxiliary serial port is
  collected in gs_stdout.
\<close>

subsection \<open>Requests\<close>

record semihosting_s =
  sh_r1 :: u32
  sh_params :: "u32 list"

abbreviation (input) INT32_MAX :: u32 where "INT32_MAX \<equiv> 0x7fffffff"
abbreviation (input) SEMIHOSTING_FEATURES_LENGTH :: u32 where "SEMIHOSTING_FEATURES_LENGTH \<equiv> 5"
abbreviation (input) STDOUT_READ_BUF_SIZE :: nat where "STDOUT_READ_BUF_SIZE \<equiv> 64"

definition param :: "semihosting_s \<Rightarrow> nat \<Rightarrow> u32" where
  "param request i = sh_params request ! i"

definition semihosting_features :: "byte list" where
  "semihosting_features = ascii ''SHFB'' @ [3]"

definition semihosting_tempname_template :: "byte list" where
  "semihosting_tempname_template = ascii ''tempAA.tmp'' @ [0]"

text \<open>The conversions %08X, %X and %u.\<close>

definition fmt_08X :: "u32 \<Rightarrow> byte list" where
  "fmt_08X v = take 8 (hexify (rev (bytes_of_u32 v)))"

definition fmt_X :: "u32 \<Rightarrow> byte list" where
  "fmt_X v = (case dropWhile (\<lambda>c. c = 0x30) (fmt_08X v) of [] \<Rightarrow> [0x30] | ds \<Rightarrow> ds)"

fun dec_digits :: "nat \<Rightarrow> string" where
  "dec_digits n = (if n < 10 then [''0123456789'' ! n] else dec_digits (n div 10) @ [''0123456789'' ! (n mod 10)])"

declare dec_digits.simps [simp del]

definition fmt_u :: "u32 \<Rightarrow> string" where
  "fmt_u v = dec_digits (unat v)"

text \<open>Packets are served until one that leaves F at the start of the buffer.\<close>

primrec semihosting_get_gdb_response ::
  "'h target_scheme gdb_ext \<Rightarrow> nat \<Rightarrow> 'h target_scheme gdb_server \<Rightarrow> (u32 \<times> 'h target_scheme gdb_server) option" where
  "semihosting_get_gdb_response x 0 s = None"
| "semihosting_get_gdb_response x (Suc n) s =
     do { (m, s) \<leftarrow> read_packet x s;
          (case m of
             None \<Rightarrow> None
           | Some sz \<Rightarrow>
               if sz = 1 \<and> take 1 (gs_pbuf s) = [0x04] then Some (- 1, s)
               else do { (result, s) \<leftarrow> gdb_main_loop x GDB_PACKET_BUFFER_SIZE sz True s;
                         if take 1 (gs_pbuf s) = [of_char (CHR ''F'')] then Some (of_int result, s)
                         else semihosting_get_gdb_response x n s }) }"

definition host_call ::
  "'h target_scheme gdb_ext \<Rightarrow> nat \<Rightarrow> byte list \<Rightarrow> 'h target_scheme gdb_server \<Rightarrow> (u32 \<times> 'h target_scheme gdb_server) option" where
  "host_call x fuel p s = semihosting_get_gdb_response x fuel (reply p s)"

definition comma :: "byte list" where "comma = ascii '',''"
definition slash :: "byte list" where "slash = ascii ''/''"

definition semihosting_remote_read ::
  "'h target_scheme gdb_ext \<Rightarrow> nat \<Rightarrow> u32 \<Rightarrow> u32 \<Rightarrow> u32 \<Rightarrow> 'h target_scheme gdb_server \<Rightarrow> (u32 \<times> 'h target_scheme gdb_server) option" where
  "semihosting_remote_read x fuel fd buf_taddr count s =
     host_call x fuel (ascii ''Fread,'' @ fmt_08X fd @ comma @ fmt_08X buf_taddr @ comma @ fmt_08X count) s"

text \<open>Output that is redirected: one read and one send for each block of the given sizes. Every block is read
  from the start of the target's buffer.\<close>

primrec send_blocks ::
  "u32 \<Rightarrow> nat list \<Rightarrow> byte list \<Rightarrow> 'h target_scheme gdb_server \<Rightarrow> 'h target_scheme gdb_server option" where
  "send_blocks buf_taddr [] buffer s = Some s"
| "send_blocks buf_taddr (amount # ns) buffer s =
     do { (buffer, s) \<leftarrow> on_cur (\<lambda>ops t. do { (_, bs, t) \<leftarrow> target_mem_read ops buffer buf_taddr amount t; Some (bs, t) }) s;
          send_blocks buf_taddr ns buffer (s\<lparr>gs_stdout := gs_stdout s @ take amount buffer\<rparr>) }"

definition block_sizes :: "nat \<Rightarrow> nat list" where
  "block_sizes count = map (\<lambda>i. min (count - STDOUT_READ_BUF_SIZE * i) STDOUT_READ_BUF_SIZE) [0..<(count + STDOUT_READ_BUF_SIZE - 1) div STDOUT_READ_BUF_SIZE]"

text \<open>The offset of the loop wraps for counts within 64 of the largest, and the loop does not end.\<close>

definition semihosting_remote_write ::
  "'h target_scheme gdb_ext \<Rightarrow> nat \<Rightarrow> u32 \<Rightarrow> u32 \<Rightarrow> u32 \<Rightarrow> 'h target_scheme gdb_server \<Rightarrow> (u32 \<times> 'h target_scheme gdb_server) option" where
  "semihosting_remote_write x fuel fd buf_taddr count s =
     do { redirected \<leftarrow> of_cur (\<lambda>_. stdout_redirected) s;
          if redirected \<and> (fd = 1 \<or> fd = 2)
          then if count > 0xffffffc0 then None
               else do { s \<leftarrow> send_blocks buf_taddr (block_sizes (unat count)) (replicate STDOUT_READ_BUF_SIZE 0) s; Some (count, s) }
          else host_call x fuel (ascii ''Fwrite,'' @ fmt_08X fd @ comma @ fmt_08X buf_taddr @ comma @ fmt_08X count) s }"

subsection \<open>Files\<close>

definition open_mode_flags :: "u32 list" where
  "open_mode_flags = [0, 2, 1 OR 0x200 OR 0x400, 2 OR 0x200 OR 0x400, 1 OR 0x200 OR 8, 2 OR 0x200 OR 8]"

definition read_name :: "nat \<Rightarrow> u32 \<Rightarrow> nat \<Rightarrow> 'h target_scheme gdb_server \<Rightarrow> (byte list \<times> 'h target_scheme gdb_server) option" where
  "read_name room taddr len s =
     (if room < len then None
      else on_cur (\<lambda>ops t. do { (_, bs, t) \<leftarrow> target_mem_read ops (replicate room 0) taddr len t; Some (bs, t) }) s)"

definition semihosting_open ::
  "'h target_scheme gdb_ext \<Rightarrow> nat \<Rightarrow> semihosting_s \<Rightarrow> 'h target_scheme gdb_server \<Rightarrow> (u32 \<times> 'h target_scheme gdb_server) option" where
  "semihosting_open x fuel request s =
     (let file_name_taddr = param request 0;
          file_name_length = param request 2;
          mode = unat (drop_bit 1 (param request 1));
          call = (\<lambda>open_mode s. do { (result, s) \<leftarrow> host_call x fuel (ascii ''Fopen,'' @ fmt_08X file_name_taddr @ slash @ fmt_08X (file_name_length + 1) @ comma @
                                       fmt_08X open_mode @ comma @ fmt_08X 0x1a4) s;
                                     Some (if result \<noteq> - 1 then result + 1 else result, s) })
      in if length open_mode_flags \<le> mode then None
         else (let open_mode = open_mode_flags ! mode
               in if file_name_length \<le> 4
                  then do { (file_name, s) \<leftarrow> read_name 4 file_name_taddr (unat file_name_length + 1) s;
                            if take 4 file_name = ascii '':tt'' @ [0]
                            then Some (if open_mode = 0 then 1 else if open_mode AND 0x400 \<noteq> 0 then 2 else 3, s)
                            else call open_mode s }
                  else if file_name_length \<le> 22
                  then do { (file_name, s) \<leftarrow> read_name 22 file_name_taddr (unat file_name_length + 1) s;
                            if take 22 file_name = ascii '':semihosting-features'' @ [0]
                            then if open_mode = 0 then Some (INT32_MAX, s\<lparr>semihosting_features_offset := 0\<rparr>) else Some (- 1, s)
                            else call open_mode s }
                  else call open_mode s))"

definition semihosting_close ::
  "'h target_scheme gdb_ext \<Rightarrow> nat \<Rightarrow> semihosting_s \<Rightarrow> 'h target_scheme gdb_server \<Rightarrow> (u32 \<times> 'h target_scheme gdb_server) option" where
  "semihosting_close x fuel request s =
     (let fd = param request 0 - 1
      in if fd = 0 \<or> fd = 1 \<or> fd = 2 \<or> param request 0 = INT32_MAX then Some (0, s)
         else host_call x fuel (ascii ''Fclose,'' @ fmt_08X fd) s)"

definition semihosting_read ::
  "'h target_scheme gdb_ext \<Rightarrow> nat \<Rightarrow> semihosting_s \<Rightarrow> 'h target_scheme gdb_server \<Rightarrow> (u32 \<times> 'h target_scheme gdb_server) option" where
  "semihosting_read x fuel request s =
     (let buf_taddr = param request 1;
          buf_len = param request 2
      in if param request 0 = INT32_MAX
         then do { let offset = semihosting_features_offset s;
                   let amount = min buf_len (SEMIHOSTING_FEATURES_LENGTH - ucast offset);
                   (_, s) \<leftarrow> on_cur (\<lambda>ops. target_mem_write ops buf_taddr (drop (unat offset) semihosting_features) (unat amount)) s;
                   Some (buf_len - amount, s\<lparr>semihosting_features_offset := offset + ucast amount\<rparr>) }
         else do { (result, s) \<leftarrow> semihosting_remote_read x fuel (param request 0 - 1) buf_taddr buf_len s;
                   Some (if 0 \<le>s result then buf_len - result else result, s) })"

definition semihosting_write ::
  "'h target_scheme gdb_ext \<Rightarrow> nat \<Rightarrow> semihosting_s \<Rightarrow> 'h target_scheme gdb_server \<Rightarrow> (u32 \<times> 'h target_scheme gdb_server) option" where
  "semihosting_write x fuel request s =
     (if param request 0 = INT32_MAX then Some (- 1, s)
      else do { let buf_len = param request 2;
                (result, s) \<leftarrow> semihosting_remote_write x fuel (param request 0 - 1) (param request 1) buf_len s;
                Some (if 0 \<le>s result then buf_len - result else result, s) })"

definition semihosting_writec ::
  "'h target_scheme gdb_ext \<Rightarrow> nat \<Rightarrow> semihosting_s \<Rightarrow> 'h target_scheme gdb_server \<Rightarrow> (u32 \<times> 'h target_scheme gdb_server) option" where
  "semihosting_writec x fuel request s =
     do { (_, s) \<leftarrow> semihosting_remote_write x fuel 1 (sh_r1 request) 1 s; Some (0, s) }"

primrec string_end ::
  "nat \<Rightarrow> u32 \<Rightarrow> 'h target_scheme gdb_server \<Rightarrow> (u32 \<times> 'h target_scheme gdb_server) option" where
  "string_end 0 taddr s = None"
| "string_end (Suc n) taddr s =
     do { (c, s) \<leftarrow> on_cur (\<lambda>ops. target_mem_read8 ops taddr) s;
          if c = 0 then Some (taddr, s)
          else do { (err, s) \<leftarrow> on_cur target_check_error s;
                    if err then Some (taddr, s) else string_end n (taddr + 1) s } }"

definition semihosting_write0 ::
  "'h target_scheme gdb_ext \<Rightarrow> nat \<Rightarrow> semihosting_s \<Rightarrow> 'h target_scheme gdb_server \<Rightarrow> (u32 \<times> 'h target_scheme gdb_server) option" where
  "semihosting_write0 x fuel request s =
     do { let str_begin_taddr = sh_r1 request;
          (str_end_taddr, s) \<leftarrow> string_end fuel str_begin_taddr s;
          let len = str_end_taddr - str_begin_taddr;
          if 0 \<le>s len
          then do { (result, s) \<leftarrow> semihosting_remote_write x fuel 1 str_begin_taddr len s;
                    Some (if result \<noteq> len then - 1 else 0, s) }
          else Some (0, s) }"

definition semihosting_isatty ::
  "'h target_scheme gdb_ext \<Rightarrow> nat \<Rightarrow> semihosting_s \<Rightarrow> 'h target_scheme gdb_server \<Rightarrow> (u32 \<times> 'h target_scheme gdb_server) option" where
  "semihosting_isatty x fuel request s = host_call x fuel (ascii ''Fisatty,'' @ fmt_08X (param request 0 - 1)) s"

definition semihosting_seek ::
  "'h target_scheme gdb_ext \<Rightarrow> nat \<Rightarrow> semihosting_s \<Rightarrow> 'h target_scheme gdb_server \<Rightarrow> (u32 \<times> 'h target_scheme gdb_server) option" where
  "semihosting_seek x fuel request s =
     (let fd = param request 0 - 1;
          offset = param request 1
      in if param request 0 = INT32_MAX
         then Some (0, s\<lparr>semihosting_features_offset := (if 0 \<le>s offset \<and> offset <s SEMIHOSTING_FEATURES_LENGTH then ucast offset else 5)\<rparr>)
         else do { (result, s) \<leftarrow> host_call x fuel (ascii ''Flseek,'' @ fmt_08X fd @ comma @ fmt_08X offset @ comma @ fmt_08X 0) s;
                   Some (if result = offset then 0 else - 1, s) })"

definition semihosting_rename ::
  "'h target_scheme gdb_ext \<Rightarrow> nat \<Rightarrow> semihosting_s \<Rightarrow> 'h target_scheme gdb_server \<Rightarrow> (u32 \<times> 'h target_scheme gdb_server) option" where
  "semihosting_rename x fuel request s =
     host_call x fuel (ascii ''Frename,'' @ fmt_08X (param request 0) @ slash @ fmt_08X (param request 1 + 1) @ comma @
       fmt_08X (param request 2) @ slash @ fmt_08X (param request 3 + 1)) s"

definition semihosting_remove ::
  "'h target_scheme gdb_ext \<Rightarrow> nat \<Rightarrow> semihosting_s \<Rightarrow> 'h target_scheme gdb_server \<Rightarrow> (u32 \<times> 'h target_scheme gdb_server) option" where
  "semihosting_remove x fuel request s =
     host_call x fuel (ascii ''Funlink,'' @ fmt_08X (param request 0) @ slash @ fmt_08X (param request 1 + 1)) s"

definition semihosting_system ::
  "'h target_scheme gdb_ext \<Rightarrow> nat \<Rightarrow> semihosting_s \<Rightarrow> 'h target_scheme gdb_server \<Rightarrow> (u32 \<times> 'h target_scheme gdb_server) option" where
  "semihosting_system x fuel request s =
     host_call x fuel (ascii ''Fsystem,'' @ fmt_08X (param request 0) @ slash @ fmt_08X (param request 1 + 1)) s"

subsection \<open>Calls with a buffer of the probe\<close>

definition read_be4 :: "byte list \<Rightarrow> nat \<Rightarrow> u32" where
  "read_be4 buffer offset = u32_of_bytes (rev (take 4 (drop offset buffer)))"

definition read_be8 :: "byte list \<Rightarrow> nat \<Rightarrow> u64" where
  "read_be8 buffer offset = push_bit 32 (ucast (read_be4 buffer offset)) OR ucast (read_be4 buffer (offset + 4))"

text \<open>While the call runs, accesses of the debugger to target memory go to the buffer. The address given is
  the start of the first RAM region. The result is that of the call and the buffer.\<close>

definition buffered_call ::
  "byte list \<Rightarrow> (u32 \<Rightarrow> 'h target_scheme gdb_server \<Rightarrow> (u32 \<times> 'h target_scheme gdb_server) option) \<Rightarrow> 'h target_scheme gdb_server \<Rightarrow>
   ((u32 \<times> byte list) \<times> 'h target_scheme gdb_server) option" where
  "buffered_call buffer call s =
     do { s \<leftarrow> on_cur_do (\<lambda>ops t. case t_tc t of None \<Rightarrow> None
            | Some tc \<Rightarrow> Some (t\<lparr>target_options := target_options t OR TOPT_IN_SEMIHOSTING_SYSCALL, t_tc := Some (tc\<lparr>semihosting_buffer := buffer\<rparr>)\<rparr>)) s;
          ram \<leftarrow> of_cur (\<lambda>_. t_ram) s;
          (case ram of
             [] \<Rightarrow> None
           | m # _ \<Rightarrow>
               do { (result, s) \<leftarrow> call (ram_start m) s;
                    (buffer, s) \<leftarrow> on_cur (\<lambda>ops t. case t_tc t of None \<Rightarrow> None
                      | Some tc \<Rightarrow> Some (semihosting_buffer tc, t\<lparr>target_options := target_options t AND NOT TOPT_IN_SEMIHOSTING_SYSCALL\<rparr>)) s;
                    Some ((result, buffer), s) }) }"

definition semihosting_file_length ::
  "'h target_scheme gdb_ext \<Rightarrow> nat \<Rightarrow> semihosting_s \<Rightarrow> 'h target_scheme gdb_server \<Rightarrow> (u32 \<times> 'h target_scheme gdb_server) option" where
  "semihosting_file_length x fuel request s =
     (if param request 0 = INT32_MAX then Some (SEMIHOSTING_FEATURES_LENGTH, s)
      else do { let fd = param request 0 - 1;
                ((stat_result, file_stat), s) \<leftarrow>
                  buffered_call (replicate 64 0) (\<lambda>ram. host_call x fuel (ascii ''Ffstat,'' @ fmt_X fd @ comma @ fmt_08X ram)) s;
                let result = read_be4 file_stat 32;
                Some (if stat_result \<noteq> 0 \<or> read_be4 file_stat 28 \<noteq> 0 \<or> result AND 0x80000000 \<noteq> 0 then - 1 else result, s) })"

definition semihosting_get_time ::
  "'h target_scheme gdb_ext \<Rightarrow> nat \<Rightarrow> 'h target_scheme gdb_server \<Rightarrow> ((u64 \<times> u32) \<times> 'h target_scheme gdb_server) option" where
  "semihosting_get_time x fuel s =
     do { ((result, time_value), s) \<leftarrow>
            buffered_call (replicate 12 0) (\<lambda>ram. host_call x fuel (ascii ''Fgettimeofday,'' @ fmt_08X ram @ comma @ fmt_08X 0)) s;
          Some (if result \<noteq> 0 then (- 1, - 1) else (read_be8 time_value 4, read_be4 time_value 0), s) }"

definition centiseconds :: "u64 \<Rightarrow> u32 \<Rightarrow> u32" where
  "centiseconds microseconds seconds = seconds * 100 + ucast microseconds div 10000"

definition semihosting_clock ::
  "'h target_scheme gdb_ext \<Rightarrow> nat \<Rightarrow> 'h target_scheme gdb_server \<Rightarrow> (u32 \<times> 'h target_scheme gdb_server) option" where
  "semihosting_clock x fuel s =
     do { ((microseconds, seconds), s) \<leftarrow> semihosting_get_time x fuel s;
          if seconds = - 1 \<and> microseconds = - 1 then Some (seconds, s)
          else do { let c = centiseconds microseconds seconds;
                    let s = (if semihosting_wallclock_epoch s > c then s\<lparr>semihosting_wallclock_epoch := c\<rparr> else s);
                    Some ((c - semihosting_wallclock_epoch s) AND 0x7fffffff, s) } }"

definition semihosting_time ::
  "'h target_scheme gdb_ext \<Rightarrow> nat \<Rightarrow> 'h target_scheme gdb_server \<Rightarrow> (u32 \<times> 'h target_scheme gdb_server) option" where
  "semihosting_time x fuel s = do { ((_, seconds), s) \<leftarrow> semihosting_get_time x fuel s; Some (seconds, s) }"

definition semihosting_readc ::
  "'h target_scheme gdb_ext \<Rightarrow> nat \<Rightarrow> 'h target_scheme gdb_server \<Rightarrow> (u32 \<times> 'h target_scheme gdb_server) option" where
  "semihosting_readc x fuel s =
     do { ((result, ch), s) \<leftarrow> buffered_call [of_char (CHR ''?'')] (\<lambda>ram. semihosting_remote_read x fuel 0 ram 1) s;
          Some (if result \<noteq> 1 then - 1 else ucast (hd ch), s) }"

subsection \<open>The other calls\<close>

definition semihosting_exit ::
  "u32 \<Rightarrow> u32 \<Rightarrow> 'h target_scheme gdb_server \<Rightarrow> (u32 \<times> 'h target_scheme gdb_server) option" where
  "semihosting_exit reason status_code s =
     do { let s = console (if reason = 0x20026 then ''exit('' @ fmt_u status_code @ '')\<newline>''
                           else ''Exception trapped: '' @ fmt_x reason @ '' ('' @ fmt_u status_code @ '')\<newline>'') s;
          s \<leftarrow> on_cur_do (\<lambda>ops. target_halt_resume ops True) s;
          Some (0, s) }"

definition semihosting_get_command_line ::
  "semihosting_s \<Rightarrow> 'h target_scheme gdb_server \<Rightarrow> (u32 \<times> 'h target_scheme gdb_server) option" where
  "semihosting_get_command_line request s =
     do { line \<leftarrow> of_cur (\<lambda>_. cmdline) s;
          let command_line = cstr line @ [0];
          if length command_line > unat (param request 1) then Some (- 1, s)
          else do { (err, s) \<leftarrow> on_cur (\<lambda>ops. target_mem_write ops (param request 0) command_line (length command_line)) s;
                    if err then Some (- 1, s)
                    else do { s \<leftarrow> on_cur_do (\<lambda>ops. target_mem_write32 ops (sh_r1 request + 4) (of_nat (length command_line))) s;
                              (err, s) \<leftarrow> on_cur target_check_error s;
                              Some (if err then - 1 else 0, s) } } }"

definition semihosting_is_error :: "u32 \<Rightarrow> u32" where
  "semihosting_is_error code =
     (if code \<in> set [1, 2, 4, 5, 9, 13, 14, 16, 17, 19, 20, 21, 22, 23, 24, 27, 28, 29, 30, 88, 91, 9999] then 1 else 0)"

definition semihosting_heap_info ::
  "semihosting_s \<Rightarrow> 'h target_scheme gdb_server \<Rightarrow> (u32 \<times> 'h target_scheme gdb_server) option" where
  "semihosting_heap_info request s =
     do { (err, s) \<leftarrow> on_cur (\<lambda>ops t. target_mem_write ops (sh_r1 request) (concat (map bytes_of_u32 (heapinfo t))) 16 t) s;
          Some (if err then - 1 else 0, s) }"

definition temp_name :: "u8 \<Rightarrow> byte list" where
  "temp_name target_id =
     (let n = semihosting_tempname_template in n[4 := n ! 4 + drop_bit 4 target_id, 5 := n ! 5 + (target_id AND 0xff)])"

definition semihosting_temp_name ::
  "semihosting_s \<Rightarrow> 'h target_scheme gdb_server \<Rightarrow> (u32 \<times> 'h target_scheme gdb_server) option" where
  "semihosting_temp_name request s =
     (let file_name = temp_name (ucast (param request 1))
      in if param request 2 < 11 then Some (- 1, s)
         else do { (err, s) \<leftarrow> on_cur (\<lambda>ops. target_mem_write ops (param request 0) file_name 11) s;
                   Some (if err then - 1 else 0, s) })"

definition semihosting_handle_request ::
  "'h target_scheme gdb_ext \<Rightarrow> nat \<Rightarrow> semihosting_s \<Rightarrow> u32 \<Rightarrow> 'h target_scheme gdb_server \<Rightarrow> (u32 \<times> 'h target_scheme gdb_server) option" where
  "semihosting_handle_request x fuel request syscall s =
     (if syscall = 0x01 then semihosting_open x fuel request s
      else if syscall = 0x02 then semihosting_close x fuel request s
      else if syscall = 0x06 then semihosting_read x fuel request s
      else if syscall = 0x05 then semihosting_write x fuel request s
      else if syscall = 0x03 then semihosting_writec x fuel request s
      else if syscall = 0x04 then semihosting_write0 x fuel request s
      else if syscall = 0x09 then semihosting_isatty x fuel request s
      else if syscall = 0x0a then semihosting_seek x fuel request s
      else if syscall = 0x0f then semihosting_rename x fuel request s
      else if syscall = 0x0e then semihosting_remove x fuel request s
      else if syscall = 0x12 then semihosting_system x fuel request s
      else if syscall = 0x0c then semihosting_file_length x fuel request s
      else if syscall = 0x10 then semihosting_clock x fuel s
      else if syscall = 0x11 then semihosting_time x fuel s
      else if syscall = 0x07 then semihosting_readc x fuel s
      else if syscall = 0x13
      then do { tc \<leftarrow> of_cur (\<lambda>_. t_tc) s; (case tc of None \<Rightarrow> None | Some tc \<Rightarrow> Some (gdb_errno tc, s)) }
      else if syscall = 0x18 then semihosting_exit (sh_r1 request) 0 s
      else if syscall = 0x20 then semihosting_exit (param request 0) (param request 1) s
      else if syscall = 0x15 then semihosting_get_command_line request s
      else if syscall = 0x08 then Some (semihosting_is_error (param request 0), s)
      else if syscall = 0x16 then semihosting_heap_info request s
      else if syscall = 0x0d then semihosting_temp_name request s
      else Some (- 1, s))"

definition semihosting_request ::
  "'h target_scheme gdb_ext \<Rightarrow> nat \<Rightarrow> u32 \<Rightarrow> u32 \<Rightarrow> 'h target_scheme gdb_server \<Rightarrow> (u32 \<times> 'h target_scheme gdb_server) option" where
  "semihosting_request x fuel syscall r1 s =
     do { tc \<leftarrow> of_cur (\<lambda>_. t_tc) s;
          if tc = None then None
          else do { let s = set_tc (\<lambda>tc. tc\<lparr>interrupted := False\<rparr>) s;
                    (bs, s) \<leftarrow> (if syscall \<noteq> 0x18
                               then on_cur (\<lambda>ops t. do { (_, bs, t) \<leftarrow> target_mem_read ops (replicate 16 0) r1 16 t; Some (bs, t) }) s
                               else Some (replicate 16 0, s));
                    semihosting_handle_request x fuel \<lparr>sh_r1 = r1, sh_params = map (u32_at bs) [0, 4, 8, 12]\<rparr> syscall s } }"

end
