(* ===== verification/Gdb_Session.thy ===== *)
theory Gdb_Session
  imports Gdb_Main Emu_Load
begin

text \<open>
  Sessions of a debugger with the server of Gdb_Main over the link: requests framed by the debugger, taken by
  the main loop, handled, and answered. The packets that program flash implement a session of the flash layer
  for every target; on the emulated device the flash then reads back over the link as written.
\<close>

subsection \<open>Requests and answers on the link\<close>

text \<open>What a debugger sends for a request: the frame and, unless NoAckMode is on, the acknowledgement of the
  answer. What it sees: the acknowledgement of the request and the frame of the answer.\<close>

definition wire :: "bool \<Rightarrow> byte list \<Rightarrow> byte option list" where
  "wire na p = map Some (frame_bytes GDB_PACKET_START p) @ (if na then [] else [Some GDB_PACKET_ACK])"

definition answer :: "bool \<Rightarrow> byte list \<Rightarrow> byte list" where
  "answer na q = (if na then [] else [GDB_PACKET_ACK]) @ frame_bytes GDB_PACKET_START q"

primrec turns :: "'h target_scheme gdb_ext \<Rightarrow> nat \<Rightarrow> 'h target_scheme gdb_server \<Rightarrow> 'h target_scheme gdb_server option" where
  "turns x 0 s = Some s"
| "turns x (Suc n) s = do { (ok, s) \<leftarrow> bmp_poll_loop x 0 s; if ok then turns x n s else None }"

text \<open>A server with one target, halted, that gdb is connected to.\<close>

definition serving :: "'s target_ops \<Rightarrow> 's \<Rightarrow> 's gdb_server \<Rightarrow> bool" where
  "serving ops t s \<longleftrightarrow> gs_targets s = [(ops, t)] \<and> cur_target s = Some 0 \<and> \<not> gdb_target_running s \<and> length (gs_pbuf s) = 1025"

lemma reply_acked:
  assumes "gs_input s = (if gs_noackmode s then [] else [Some GDB_PACKET_ACK]) @ rest"
  shows "reply q s = s\<lparr>gs_out := gs_out s @ frame_bytes GDB_PACKET_START q, gs_input := rest\<rparr>"
  using assms by (cases "gs_noackmode s") (simp_all add: reply_def gdb_putpacket_def send_tries.simps [of _ _ 3])

lemma on_cur_serving:
  "serving ops t s \<Longrightarrow> on_cur f s = do { (x, t) \<leftarrow> f ops t; Some (x, s\<lparr>gs_targets := [(ops, t)]\<rparr>) }"
  by (simp add: serving_def on_cur_def on_target_def)

text \<open>The request p is answered q, and leaves the target t'.\<close>

definition answers :: "'h target_scheme target_ops \<Rightarrow> 'h target_scheme \<Rightarrow> byte list \<Rightarrow> byte list \<Rightarrow> 'h target_scheme \<Rightarrow> bool" where
  "answers ops t p q t' \<longleftrightarrow> (\<forall>s x z. serving ops t s \<longrightarrow> gs_pbuf s = p @ 0 # z \<longrightarrow>
     (\<exists>pb. length pb = 1025 \<and> gdb_main x 1024 (length p) s = Some (reply q (s\<lparr>gs_targets := [(ops, t')], gs_pbuf := pb\<rparr>))))"

lemma answersI:
  assumes "\<And>s x z. serving ops t s \<Longrightarrow> gs_pbuf s = p @ 0 # z \<Longrightarrow> gdb_main x 1024 (length p) s = Some (reply q (s\<lparr>gs_targets := [(ops, t')]\<rparr>))"
  shows "answers ops t p q t'"
  unfolding answers_def
proof (intro allI impI)
  fix s x z
  assume a: "serving ops t s" "gs_pbuf s = p @ 0 # z"
  have "s\<lparr>gs_targets := [(ops, t')], gs_pbuf := gs_pbuf s\<rparr> = s\<lparr>gs_targets := [(ops, t')]\<rparr>" by simp
  then show "\<exists>pb. length pb = 1025 \<and> gdb_main x 1024 (length p) s = Some (reply q (s\<lparr>gs_targets := [(ops, t')], gs_pbuf := pb\<rparr>))"
    using assms [OF a] a(1) by (intro exI [of _ "gs_pbuf s"]) (simp add: serving_def)
qed

lemma exchange:
  assumes "serving ops t s" "gs_input s = wire (gs_noackmode s) p @ rest" "length p < 1024" "answers ops t p q t'"
  shows "\<exists>s'. turns x 1 s = Some s' \<and> serving ops t' s' \<and> gs_input s' = rest \<and>
    gs_out s' = gs_out s @ answer (gs_noackmode s) q \<and> gs_noackmode s' = gs_noackmode s"
proof -
  let ?a = "(if gs_noackmode s then [] else [Some GDB_PACKET_ACK]) @ rest"
  let ?s1 = "s\<lparr>gs_pbuf := p @ 0 # drop (Suc (length p)) (gs_pbuf s),
              gs_out := gs_out s @ (if gs_noackmode s then [] else [GDB_PACKET_ACK]), gs_input := ?a\<rparr>"
  have sv: "serving ops t ?s1" using assms(1,3) by (simp add: serving_def)
  obtain pb where m: "gdb_main x 1024 (length p) ?s1 = Some (reply q (?s1\<lparr>gs_targets := [(ops, t')], gs_pbuf := pb\<rparr>))" "length pb = 1025"
    using assms(4) sv unfolding answers_def by fastforce
  have r: "reply q (?s1\<lparr>gs_targets := [(ops, t')], gs_pbuf := pb\<rparr>) = ?s1\<lparr>gs_targets := [(ops, t')], gs_pbuf := pb, gs_out := gs_out ?s1 @ frame_bytes GDB_PACKET_START q, gs_input := rest\<rparr>"
    by (subst reply_acked [where rest = rest]) simp_all
  have "bmp_poll_loop x 0 s = do { s \<leftarrow> gdb_main x 1024 (length p) ?s1; Some (True, s) }"
    by (rule gdb_turn) (use assms in \<open>simp_all add: serving_def wire_def\<close>)
  then have "bmp_poll_loop x 0 s = Some (True, reply q (?s1\<lparr>gs_targets := [(ops, t')], gs_pbuf := pb\<rparr>))" unfolding m(1) by simp
  then show ?thesis unfolding r using assms(1,3) m(2) by (simp add: serving_def answer_def)
qed

subsection \<open>Programming flash over the link\<close>

definition erase_request :: "u32 \<Rightarrow> u32 \<Rightarrow> byte list" where
  "erase_request a n = ascii (''vFlashErase:'' @ fmt_x a @ '','' @ fmt_x n)"

definition write_request :: "u32 \<Rightarrow> byte list \<Rightarrow> byte list" where
  "write_request a bs = ascii (''vFlashWrite:'' @ fmt_x a @ '':'') @ bs"

definition done_request :: "byte list" where
  "done_request = ascii ''vFlashDone''"

lemma stops: "hex_stop (0x2c # cs)" "hex_stop (0x3a # cs)" "hex_stop []"
  by (simp_all add: hex_stop_def digit_value_def)

lemma scan_number_end: "length (fmt_x a) \<le> w \<Longrightarrow> scan_number 16 w (ascii (fmt_x a)) = Some (a, [])"
  using scan_number_fmt_x [OF _ stops(3)] by simp

lemma main_v:
  assumes "gs_pbuf s = of_char (CHR ''v'') # r"
  shows "gdb_main x n sz s = handle_v_packet sz s"
proof -
  have "gdb_main_loop x n sz False s = just (handle_v_packet sz s)" using assms by (simp add: gdb_main_loop_def)
  then show ?thesis by (cases "handle_v_packet sz s") (simp_all add: gdb_main_def just_def)
qed

lemma handle_erase:
  assumes "serving ops t s" "gs_pbuf s = erase_request a n @ 0 # z" "target_flash_erase ops a n t = Some (True, t')"
  shows "gdb_main x k sz s = Some (reply (ascii ''OK'') (s\<lparr>gs_targets := [(ops, t')]\<rparr>))"
proof -
  have z: "0 \<notin> set (erase_request a n)" by (auto simp: erase_request_def fmt_x_nonzero)
  have c: "cstr (gs_pbuf s) = erase_request a n" unfolding assms(2) cstr_append [OF z] by simp
  have cur: "cur_target s = Some 0" using assms(1) by (simp add: serving_def)
  have "handle_v_packet sz s = handle_v_flash_erase a n s"
    by (simp add: handle_v_packet_def sscanf_def has_prefix_def c [unfolded erase_request_def] scan_number_fmt_x scan_number_end length_fmt_x(1) stops)
  also have "\<dots> = Some (reply (ascii ''OK'') (s\<lparr>gs_targets := [(ops, t')]\<rparr>))"
    using assms(3) cur by (simp add: handle_v_flash_erase_def on_cur_serving [OF assms(1)] replyz_def)
  finally show ?thesis using main_v [of s] assms(2) by (simp add: erase_request_def)
qed

lemma handle_write:
  assumes "serving ops t s" "gs_pbuf s = write_request a bs @ 0 # z" "target_flash_write ops a bs (of_nat (length bs)) t = Some (True, t')"
  shows "gdb_main x k (length (write_request a bs)) s = Some (reply (ascii ''OK'') (s\<lparr>gs_targets := [(ops, t')]\<rparr>))"
proof -
  let ?h = "ascii (''vFlashWrite:'' @ fmt_x a @ '':'')"
  have z: "0 \<notin> set ?h" by (auto simp: fmt_x_nonzero)
  have p: "gs_pbuf s = ?h @ bs @ 0 # z" using assms(2) by (simp add: write_request_def)
  have c: "cstr (gs_pbuf s) = ?h @ cstr (bs @ 0 # z)" unfolding p cstr_append [OF z] by simp
  have cur: "cur_target s = Some 0" using assms(1) by (simp add: serving_def)
  have "handle_v_packet (length (write_request a bs)) s = handle_v_flash_write a (13 + length (fmt_x a)) (length (write_request a bs)) s"
    by (simp add: handle_v_packet_def sscanf_def has_prefix_def c scan_number_fmt_x length_fmt_x(1) stops)
  also have "\<dots> = Some (reply (ascii ''OK'') (s\<lparr>gs_targets := [(ops, t')]\<rparr>))"
  proof -
    have l: "length ?h = 13 + length (fmt_x a)" by simp
    have "length (write_request a bs) - (13 + length (fmt_x a)) = length bs" by (simp add: write_request_def)
    moreover have "take (length bs) (drop (13 + length (fmt_x a)) (gs_pbuf s)) = bs" unfolding p l [symmetric] by (simp del: ascii_append ascii_simps length_ascii)
    moreover have "length (gs_pbuf s) = length (write_request a bs) + Suc (length z)" by (simp add: assms(2))
    moreover have "13 + length (fmt_x a) \<le> length (write_request a bs)" by (simp add: write_request_def)
    ultimately show ?thesis using assms(3) cur by (simp add: handle_v_flash_write_def on_cur_serving [OF assms(1)] replyz_def)
  qed
  finally show ?thesis using main_v [of s] p by simp
qed

lemma handle_done:
  assumes "serving ops t s" "gs_pbuf s = done_request @ 0 # z" "target_flash_complete ops t = Some (True, t')"
  shows "gdb_main x k sz s = Some (reply (ascii ''OK'') (s\<lparr>gs_targets := [(ops, t')]\<rparr>))"
proof -
  have c: "cstr (gs_pbuf s) = done_request" unfolding assms(2) by (simp add: done_request_def cstr_def)
  have "handle_v_packet sz s = handle_v_flash_done s"
    by (simp add: handle_v_packet_def sscanf_def has_prefix_def c [unfolded done_request_def])
  also have "\<dots> = Some (reply (ascii ''OK'') (s\<lparr>gs_targets := [(ops, t')]\<rparr>))"
    using assms(3) by (simp add: handle_v_flash_done_def on_cur_serving [OF assms(1)] replyz_def)
  finally show ?thesis using main_v [of s] assms(2) by (simp add: done_request_def)
qed

lemma flash_answers:
  "target_flash_erase ops a n t = Some (True, t') \<Longrightarrow> answers ops t (erase_request a n) (ascii ''OK'') t'"
  "target_flash_write ops a bs (of_nat (length bs)) t = Some (True, t') \<Longrightarrow> answers ops t (write_request a bs) (ascii ''OK'') t'"
  "target_flash_complete ops t = Some (True, t') \<Longrightarrow> answers ops t done_request (ascii ''OK'') t'"
  by (rule answersI, erule (2) handle_erase handle_write handle_done)+

lemma turns_trans: "turns x m s = Some s1 \<Longrightarrow> turns x n s1 = Some s2 \<Longrightarrow> turns x (m + n) s = Some s2"
  by (induction m arbitrary: s) (auto simp: bind_eq_Some_conv split: if_splits)

lemma write_session:
  assumes "serving ops t s" "flash_write_all ops segs t = Some (True, t')" "\<forall>(a, bs) \<in> set segs. length (write_request a bs) < 1024"
    "gs_input s = concat (map (\<lambda>(a, bs). wire (gs_noackmode s) (write_request a bs)) segs) @ rest"
  shows "\<exists>s'. turns x (length segs) s = Some s' \<and> serving ops t' s' \<and> gs_input s' = rest \<and>
    gs_out s' = gs_out s @ concat (replicate (length segs) (answer (gs_noackmode s) (ascii ''OK''))) \<and> gs_noackmode s' = gs_noackmode s"
  using assms
proof (induction segs arbitrary: t s)
  case Nil
  then show ?case by simp
next
  case (Cons sg segs)
  obtain a bs where sg: "sg = (a, bs)" by (cases sg)
  obtain t1 where t1: "target_flash_write ops a bs (of_nat (length bs)) t = Some (True, t1)" "flash_write_all ops segs t1 = Some (True, t')"
    using Cons.prems(2) by (auto simp: sg bind_eq_Some_conv split: if_splits)
  have in1: "gs_input s = wire (gs_noackmode s) (write_request a bs) @
    concat (map (\<lambda>(a, bs). wire (gs_noackmode s) (write_request a bs)) segs) @ rest" using Cons.prems(4) by (simp add: sg)
  have len: "length (write_request a bs) < 1024" using Cons.prems(3) by (simp add: sg)
  obtain s1 where s1: "turns x 1 s = Some s1" "serving ops t1 s1"
    "gs_input s1 = concat (map (\<lambda>(a, bs). wire (gs_noackmode s) (write_request a bs)) segs) @ rest"
    "gs_out s1 = gs_out s @ answer (gs_noackmode s) (ascii ''OK'')" "gs_noackmode s1 = gs_noackmode s"
    using exchange [OF Cons.prems(1) in1 len flash_answers(2) [OF t1(1)], of x] by blast
  obtain s2 where "turns x (length segs) s1 = Some s2" "serving ops t' s2" "gs_input s2 = rest"
    "gs_out s2 = gs_out s1 @ concat (replicate (length segs) (answer (gs_noackmode s1) (ascii ''OK'')))" "gs_noackmode s2 = gs_noackmode s1"
    using Cons.IH [OF s1(2) t1(2)] Cons.prems(3) s1(3,5) by auto
  then show ?case using s1(4,5) turns_trans [OF s1(1), of "length segs" s2] by auto
qed

lemma length_requests: "length (erase_request a n) < 1024" "length done_request < 1024"
  using length_fmt_x(1) [of a] length_fmt_x(1) [of n] by (simp_all add: erase_request_def done_request_def)

lemma flash_session:
  assumes "serving ops t s" "flash_program ops a n segs t = Some (True, t')" "\<forall>(a, bs) \<in> set segs. length (write_request a bs) < 1024"
    "gs_input s = wire (gs_noackmode s) (erase_request a n) @
       concat (map (\<lambda>(a, bs). wire (gs_noackmode s) (write_request a bs)) segs) @ wire (gs_noackmode s) done_request @ rest"
  shows "\<exists>s'. turns x (length segs + 2) s = Some s' \<and> serving ops t' s' \<and> gs_input s' = rest \<and> gs_noackmode s' = gs_noackmode s \<and>
    gs_out s' = gs_out s @ concat (replicate (length segs + 2) (answer (gs_noackmode s) (ascii ''OK'')))"
proof -
  let ?na = "gs_noackmode s"
  obtain t1 t2 where t: "target_flash_erase ops a n t = Some (True, t1)" "flash_write_all ops segs t1 = Some (True, t2)"
    "target_flash_complete ops t2 = Some (True, t')" using flash_program_stages [OF assms(2)] by blast
  obtain s1 where s1: "turns x 1 s = Some s1" "serving ops t1 s1" "gs_noackmode s1 = ?na"
    "gs_input s1 = concat (map (\<lambda>(a, bs). wire ?na (write_request a bs)) segs) @ wire ?na done_request @ rest"
    "gs_out s1 = gs_out s @ answer ?na (ascii ''OK'')"
    using exchange [OF assms(1,4) length_requests(1) flash_answers(1) [OF t(1)], of x] by blast
  obtain s2 where s2: "turns x (length segs) s1 = Some s2" "serving ops t2 s2" "gs_noackmode s2 = ?na" "gs_input s2 = wire ?na done_request @ rest"
    "gs_out s2 = gs_out s1 @ concat (replicate (length segs) (answer ?na (ascii ''OK'')))"
    using write_session [OF s1(2) t(2) assms(3), of "wire ?na done_request @ rest" x] s1(3,4) by auto
  obtain s3 where s3: "turns x 1 s2 = Some s3" "serving ops t' s3" "gs_noackmode s3 = ?na" "gs_input s3 = rest"
    "gs_out s3 = gs_out s2 @ answer ?na (ascii ''OK'')"
    using exchange [OF s2(2) _ length_requests(2) flash_answers(3) [OF t(3)], of rest x] s2(3,4) by auto
  have "1 + (length segs + 1) = length segs + 2" by simp
  then have "turns x (length segs + 2) s = Some s3" using turns_trans [OF s1(1) turns_trans [OF s2(1) s3(1)]] by (simp only:)
  moreover have "concat (replicate (length segs + 2) w) = w @ concat (replicate (length segs) w) @ w" for w :: "byte list"
    by (induction segs) simp_all
  ultimately show ?thesis using s1(5) s2(5) s3(2-5) by simp
qed

text \<open>C2: the flash packets implement a programming session: when the target layer can erase a range and
  program some segments into it, the packets vFlashErase, vFlashWrite and vFlashDone that ask for it over the
  link, with or without acknowledgements, are each answered OK and leave the target exactly as the session
  does.\<close>

theorem gdb_flash_session:
  assumes "serving ops t s" "flash_program ops a n segs t = Some (True, t')" "\<forall>(a, bs) \<in> set segs. length (write_request a bs) < 1024"
    "gs_input s = wire (gs_noackmode s) (erase_request a n) @
       concat (map (\<lambda>(a, bs). wire (gs_noackmode s) (write_request a bs)) segs) @ wire (gs_noackmode s) done_request @ rest"
  shows "\<exists>s'. turns x (length segs + 2) s = Some s' \<and> gs_targets s' = [(ops, t')] \<and> gs_input s' = rest \<and>
    gs_out s' = gs_out s @ concat (replicate (length segs + 2) (answer (gs_noackmode s) (ascii ''OK'')))"
  using flash_session [OF assms, of x] by (auto simp: serving_def)

definition read_request :: "u32 \<Rightarrow> u32 \<Rightarrow> byte list" where
  "read_request a n = ascii (''m'' @ fmt_x a @ '','' @ fmt_x n)"

lemma length_read_request: "length (read_request a n) < 1024"
  using length_fmt_x(1) [of a] length_fmt_x(1) [of n] by (simp add: read_request_def)

lemma handle_read:
  assumes "serving ops t s" "gs_pbuf s = read_request a n @ 0 # z"
    "target_mem_read ops (replicate (unat n) 0) a (unat n) t = Some (False, bs, t')" "length bs = unat n" "unat n \<le> 512"
  shows "handle_m 1024 s = Some (reply (hex_text bs) (s\<lparr>gs_targets := [(ops, t')], gs_pbuf := hex_text bs @ 0 # drop (Suc (2 * length bs)) (gs_pbuf s)\<rparr>))"
proof -
  have z: "0 \<notin> set (read_request a n)" by (auto simp: read_request_def fmt_x_nonzero)
  have c: "cstr (gs_pbuf s) = read_request a n" unfolding assms(2) cstr_append [OF z] by simp
  have cur: "cur_target s = Some 0" "length (gs_pbuf s) = 1025" using assms(1) by (simp_all add: serving_def)
  have sc: "sscanf (gs_pbuf s) [Lit (ascii ''m''), Fx None, Lit (ascii '',''), Fx None] = ([a, n], None)"
    unfolding sscanf_def c by (simp add: read_request_def scan_number_fmt_x scan_number_end stops)
  have o: "on_cur (\<lambda>ops t. do { (e, bs, t) \<leftarrow> target_mem_read ops (replicate (unat n) 0) a (unat n) t; Some ((e, bs), t) }) s =
    Some ((False, bs), s\<lparr>gs_targets := [(ops, t')]\<rparr>)"
    by (simp add: on_cur_serving [OF assms(1)] assms(3))
  show ?thesis unfolding handle_m_def sc cur(1) using o assms(4,5) cur(2) by (simp add: reply_hex_def Let_def hexify_text)
qed

lemma read_answers:
  assumes "target_mem_read ops (replicate (unat n) 0) a (unat n) t = Some (False, bs, t')" "length bs = unat n" "unat n \<le> 512"
  shows "answers ops t (read_request a n) (hex_text bs) t'"
  unfolding answers_def
proof (intro allI impI)
  fix s :: "'a target_scheme gdb_server" and x z
  assume a: "serving ops t s" "gs_pbuf s = read_request a n @ 0 # z"
  let ?pb = "hex_text bs @ 0 # drop (Suc (2 * length bs)) (gs_pbuf s)"
  have l: "length ?pb = 1025" using assms(2,3) a(1) by (simp add: hexify_text serving_def)
  obtain r where "gs_pbuf s = of_char (CHR ''m'') # r" using a(2) by (simp add: read_request_def)
  then have "gdb_main x 1024 (length (read_request a n)) s = Some (reply (hex_text bs) (s\<lparr>gs_targets := [(ops, t')], gs_pbuf := ?pb\<rparr>))"
    using handle_read [OF a assms] by (simp add: gdb_main_def gdb_main_loop_def just_def)
  then show "\<exists>pb. length pb = 1025 \<and> gdb_main x 1024 (length (read_request a n)) s = Some (reply (hex_text bs) (s\<lparr>gs_targets := [(ops, t')], gs_pbuf := pb\<rparr>))"
    using l by blast
qed

text \<open>C1: a whole session of a debugger with the emulated target: it programs pairwise disjoint segments into
  the flash, each small enough for one packet, and reads one of at most 512 bytes back, and the answer is the
  hexadecimal text of what it wrote. The allocations of the flash layer succeed.\<close>

theorem emu_gdb_session:
  assumes "serving (emu_ops sh) t s" "emu_ready t" "t_flash t = [emu_region]" "list_all id (plat_mallocs t)"
    and "134217728 \<le> unat addr" "unat addr + unat len \<le> 134348800" "len \<noteq> 0"
    and "segs_disjoint segs"
    and "\<forall>sg\<in>set segs. snd sg \<noteq> [] \<and> unat addr \<le> unat (fst sg) \<and> unat (fst sg) + length (snd sg) \<le> unat addr + unat len \<and>
      length (write_request (fst sg) (snd sg)) < 1024"
    and "(a, bs) \<in> set segs" "length bs \<le> 512"
    and "gs_input s = wire (gs_noackmode s) (erase_request addr len) @
       concat (map (\<lambda>(a, bs). wire (gs_noackmode s) (write_request a bs)) segs) @ wire (gs_noackmode s) done_request @
       wire (gs_noackmode s) (read_request a (of_nat (length bs))) @ rest"
  shows "\<exists>s'. turns x (length segs + 3) s = Some s' \<and> gs_input s' = rest \<and>
    gs_out s' = gs_out s @ concat (replicate (length segs + 2) (answer (gs_noackmode s) (ascii ''OK''))) @ answer (gs_noackmode s) (hex_text bs)"
proof -
  have segs: "\<forall>sg\<in>set segs. snd sg \<noteq> [] \<and> unat addr \<le> unat (fst sg) \<and> unat (fst sg) + length (snd sg) \<le> unat addr + unat len"
    "\<forall>(a, bs)\<in>set segs. length (write_request a bs) < 1024" using assms(9) by auto
  obtain t1 t2 where p: "flash_program (emu_ops sh) addr len segs t = Some (True, t1)"
    "target_mem_read (emu_ops sh) (replicate (length bs) 0) a (length bs) t1 = Some (False, bs, t2)"
    using session_readback [OF assms(2-8) segs(1), of sh] assms(10) by fastforce
  have u: "unat (of_nat (length bs) :: u32) = length bs" using assms(11) by (simp add: unat_of_nat)
  obtain s1 where s1: "turns x (length segs + 2) s = Some s1" "serving (emu_ops sh) t1 s1"
    "gs_input s1 = wire (gs_noackmode s) (read_request a (of_nat (length bs))) @ rest" "gs_noackmode s1 = gs_noackmode s"
    "gs_out s1 = gs_out s @ concat (replicate (length segs + 2) (answer (gs_noackmode s) (ascii ''OK'')))"
    using flash_session [OF assms(1) p(1) segs(2) assms(12), of x] by blast
  have an: "answers (emu_ops sh) t1 (read_request a (of_nat (length bs))) (hex_text bs) t2"
    by (rule read_answers) (simp_all add: u p(2) assms(11))
  obtain s2 where s2: "turns x 1 s1 = Some s2" "gs_input s2 = rest" "gs_out s2 = gs_out s1 @ answer (gs_noackmode s1) (hex_text bs)"
    using exchange [OF s1(2) _ length_read_request an, of rest x] s1(3,4) by auto
  have "length segs + 2 + 1 = length segs + 3" by simp
  then have "turns x (length segs + 3) s = Some s2" using turns_trans [OF s1(1) s2(1)] by (simp only:)
  then show ?thesis using s2(2,3) s1(4,5) by auto
qed

subsection \<open>Instances\<close>

lemma replicate_small: "concat (replicate 3 w) = w @ w @ w" "concat (replicate 2 w) = w @ w"
  by (simp_all add: numeral_2_eq_2 numeral_3_eq_3)

lemma emu_board_serving: "serving (emu_ops sh) emu_board (server_with [(emu_ops sh, emu_board)] input)"
  by (simp add: serving_def)

theorem emu_gdb_session_witness:
  "\<forall>sh. \<exists>s'. turns bare_ext 4 (server_with [(emu_ops sh, emu_board)]
      (wire True (erase_request 0x8000000 0x400) @ wire True (write_request 0x8000010 [1, 2, 3]) @ wire True done_request @
       wire True (read_request 0x8000010 3))) = Some s' \<and>
    gs_out s' = answer True (ascii ''OK'') @ answer True (ascii ''OK'') @ answer True (ascii ''OK'') @ answer True (hex_text [1, 2, 3])"
proof
  fix sh
  let ?input = "wire True (erase_request 0x8000000 0x400) @ wire True (write_request 0x8000010 [1, 2, 3]) @ wire True done_request @
       wire True (read_request 0x8000010 3)"
  have l: "length (write_request 0x8000010 [1, 2, 3]) < 1024" using length_fmt_x(1) [of "0x8000010"] by (simp add: write_request_def)
  show "\<exists>s'. turns bare_ext 4 (server_with [(emu_ops sh, emu_board)] ?input) = Some s' \<and>
    gs_out s' = answer True (ascii ''OK'') @ answer True (ascii ''OK'') @ answer True (ascii ''OK'') @ answer True (hex_text [1, 2, 3])"
    using emu_gdb_session [OF emu_board_serving [of sh ?input] emu_board_ready(1,3), of "0x8000000" "0x400" "[(0x8000010, [1, 2, 3])]"
      "0x8000010" "[1, 2, 3]" "[]" bare_ext] l
    by (simp add: emu_board_ready replicate_small del: add_2_eq_Suc add_2_eq_Suc') blast
qed

theorem gdb_flash_session_witness:
  "\<forall>sh. \<exists>t' s'. turns bare_ext 2 (server_with [(emu_ops sh, emu_board)] (wire True (erase_request 0x8000000 0x400) @ wire True done_request)) = Some s' \<and>
    gs_targets s' = [(emu_ops sh, t')] \<and> gs_out s' = answer True (ascii ''OK'') @ answer True (ascii ''OK'')"
proof
  fix sh
  let ?input = "wire True (erase_request 0x8000000 0x400) @ wire True done_request"
  obtain t' where "flash_program (emu_ops sh) 0x8000000 0x400 [] emu_board = Some (True, t')"
    using session_readback [OF emu_board_ready(1,3), of "0x8000000" "0x400" "[]" sh] by (auto simp: emu_board_ready)
  from gdb_flash_session [OF emu_board_serving [of sh ?input] this, of "[]" bare_ext]
  show "\<exists>t' s'. turns bare_ext 2 (server_with [(emu_ops sh, emu_board)] ?input) = Some s' \<and>
    gs_targets s' = [(emu_ops sh, t')] \<and> gs_out s' = answer True (ascii ''OK'') @ answer True (ascii ''OK'')"
    by (simp add: replicate_small del: add_2_eq_Suc add_2_eq_Suc') blast
qed

end
