(* ===== verification/Target_Memory.thy ===== *)
theory Target_Memory
  imports Target
begin

text \<open>
  Memory as the clients of the target layer use it: a contract for target_mem_read and target_mem_write on a
  range of addresses that behaves as memory. Whatever is read is what the bytes hold, a write changes the
  bytes it covers and no other, and neither fails. A weaker contract asks for no memory at all: a target that
  answers every access for which the caller's buffer is large enough, with whatever bytes and errors.
\<close>

definition bytes_at :: "(nat \<Rightarrow> byte) \<Rightarrow> nat \<Rightarrow> nat \<Rightarrow> byte list" where
  "bytes_at m a n = map (\<lambda>j. m (a + j)) [0..<n]"

definition write_at :: "nat \<Rightarrow> byte list \<Rightarrow> (nat \<Rightarrow> byte) \<Rightarrow> nat \<Rightarrow> byte" where
  "write_at a bs m = (\<lambda>x. if a \<le> x \<and> x < a + length bs then bs ! (x - a) else m x)"

lemma length_bytes_at [simp]: "length (bytes_at m a n) = n"
  by (simp add: bytes_at_def)

lemma nth_bytes_at [simp]: "j < n \<Longrightarrow> bytes_at m a n ! j = m (a + j)"
  by (simp add: bytes_at_def)

lemma bytes_at_0 [simp]: "bytes_at m a 0 = []"
  by (simp add: bytes_at_def)

lemma bytes_at_add: "bytes_at m a (n + k) = bytes_at m a n @ bytes_at m (a + n) k"
  by (rule nth_equalityI) (auto simp: nth_append)

lemma bytes_at_cong: "(\<And>x. a \<le> x \<Longrightarrow> x < a + n \<Longrightarrow> m x = m' x) \<Longrightarrow> bytes_at m a n = bytes_at m' a n"
  by (simp add: bytes_at_def)

lemma take_bytes_at: "take k (bytes_at m a n) = bytes_at m a (min k n)"
  by (rule nth_equalityI) auto

lemma drop_bytes_at: "drop k (bytes_at m a n) = bytes_at m (a + k) (n - k)"
  by (rule nth_equalityI) (auto simp: add.assoc)

lemma write_at_outside: "x < a \<or> a + length bs \<le> x \<Longrightarrow> write_at a bs m x = m x"
  by (auto simp: write_at_def)

lemma bytes_at_write_outside: "b + n \<le> a \<or> a + length bs \<le> b \<Longrightarrow> bytes_at (write_at a bs m) b n = bytes_at m b n"
  by (rule bytes_at_cong) (auto simp: write_at_def)

lemma bytes_at_write_same: "length bs = n \<Longrightarrow> bytes_at (write_at a bs m) a n = bs"
  by (rule nth_equalityI) (auto simp: write_at_def)

locale target_memory =
  fixes ops :: "'h target_scheme target_ops"
    and good :: "'h target_scheme \<Rightarrow> bool"
    and mem :: "'h target_scheme \<Rightarrow> nat \<Rightarrow> byte"
    and lo hi :: nat
  assumes aligned: "lo mod 4 = 0" "hi mod 4 = 0" "hi + 128 \<le> 2 ^ 32"
    and mem_read: "good t \<Longrightarrow> lo \<le> unat a \<Longrightarrow> unat a + n \<le> hi \<Longrightarrow>
      \<exists>t'. target_mem_read ops dest a n t = Some (False, bytes_at (mem t) (unat a) n @ drop n dest, t') \<and> good t' \<and> mem t' = mem t"
    and mem_write: "good t \<Longrightarrow> lo \<le> unat a \<Longrightarrow> unat a + n \<le> hi \<Longrightarrow> n \<le> length bs \<Longrightarrow>
      \<exists>t'. target_mem_write ops a bs n t = Some (False, t') \<and> good t' \<and> mem t' = write_at (unat a) (take n bs) (mem t)"
begin

lemma unat_plus: "unat (a :: u32) + j \<le> hi \<Longrightarrow> unat (a + of_nat j) = unat a + j"
  using aligned(3) by (simp add: unat_word_ariths unat_of_nat)

end

text \<open>Nothing is said of an access that is longer than its buffer: a client that is shown to run over this
  contract never makes one.\<close>

locale target_answers =
  fixes ops :: "'h target_scheme target_ops"
    and good :: "'h target_scheme \<Rightarrow> bool"
  assumes read_answers: "good t \<Longrightarrow> n \<le> length dest \<Longrightarrow> n < 2 ^ 32 \<Longrightarrow>
      \<exists>err dat t'. target_mem_read ops dest a n t = Some (err, dat, t') \<and> length dat = length dest \<and>
        good t' \<and> core t' = core t \<and> t_ram t' = t_ram t"
    and write_answers: "good t \<Longrightarrow> n \<le> length bs \<Longrightarrow> n < 2 ^ 32 \<Longrightarrow>
      \<exists>err t'. target_mem_write ops a bs n t = Some (err, t') \<and> good t' \<and> core t' = core t \<and> t_ram t' = t_ram t"
begin

definition follows :: "'h target_scheme \<Rightarrow> 'h target_scheme \<Rightarrow> bool" where
  "follows t t' \<longleftrightarrow> good t' \<and> core t' = core t \<and> t_ram t' = t_ram t"

lemma follows_good: "follows t t' \<Longrightarrow> good t'"
  by (simp add: follows_def)

lemma follows_refl: "good t \<Longrightarrow> follows t t"
  by (simp add: follows_def)

lemma follows_trans: "follows t t' \<Longrightarrow> follows t' t'' \<Longrightarrow> follows t t''"
  by (simp add: follows_def)

lemma read_follows:
  "good t \<Longrightarrow> n \<le> length dest \<Longrightarrow> n < 2 ^ 32 \<Longrightarrow>
    \<exists>err dat t'. target_mem_read ops dest a n t = Some (err, dat, t') \<and> length dat = length dest \<and> follows t t'"
  using read_answers unfolding follows_def by blast

lemma write_follows:
  "good t \<Longrightarrow> n \<le> length bs \<Longrightarrow> n < 2 ^ 32 \<Longrightarrow> \<exists>err t'. target_mem_write ops a bs n t = Some (err, t') \<and> follows t t'"
  using write_answers unfolding follows_def by blast

end

end
