(* ===== verification/Rtt_Search.thy ===== *)
theory Rtt_Search
  imports Rtt Target_Memory
begin

text \<open>
  The search for the control block, fast_search of src/rtt.c, is a search with a rolling hash. The hash of a
  window of sixteen bytes is their big-endian value modulo a prime; the search returns the first address whose
  window has the hash of the identifier.
\<close>

definition RK_Q :: int where "RK_Q = 0x797a9691"

definition rk_hash :: "byte list \<Rightarrow> int" where
  "rk_hash bs = foldl (\<lambda>h b. h * 256 + uint b) 0 bs mod RK_Q"

text \<open>The identifier of a control block: the text SEGGER RTT and zeros up to sixteen bytes.\<close>

definition rtt_id :: "byte list" where
  "rtt_id = [0x53, 0x45, 0x47, 0x47, 0x45, 0x52, 0x20, 0x52, 0x54, 0x54, 0, 0, 0, 0, 0, 0]"

text \<open>The window of sixteen bytes that ends with the k-th byte of bs, where zeros precede bs.\<close>

definition window :: "byte list \<Rightarrow> nat \<Rightarrow> byte list" where
  "window bs k = take 16 (drop (Suc k) (replicate 16 0 @ bs))"

definition hit :: "byte list \<Rightarrow> nat \<Rightarrow> bool" where
  "hit bs k \<longleftrightarrow> rk_hash (window bs k) = rk_hash rtt_id"

definition rtt_search_spec :: "u32 \<Rightarrow> byte list \<Rightarrow> u32" where
  "rtt_search_spec a bs =
     (case find (hit bs) [0..<length bs] of None \<Rightarrow> 0 | Some k \<Rightarrow> a + of_nat k - 15)"

lemma rk_hash_id: "rk_hash rtt_id = uint rk_p"
  by (simp add: rk_hash_def rtt_id_def RK_Q_def)

lemma rk_hash_bound: "0 \<le> rk_hash bs" "rk_hash bs < RK_Q"
  by (simp_all add: rk_hash_def RK_Q_def)

lemma foldl_value:
  "foldl (\<lambda>h b. h * 256 + uint b) x bs = x * 256 ^ length bs + foldl (\<lambda>h b. h * 256 + uint (b :: byte)) 0 bs"
proof (induction bs arbitrary: x rule: rev_induct)
  case (snoc b bs)
  show ?case using snoc.IH [of x] by (simp add: algebra_simps)
qed simp

lemma mod_shift: "(a mod q + q - (r mod q) * c mod q) mod q = (a + q - r * c) mod (q :: int)"
proof -
  have "(a mod q + q - (r mod q) * c mod q) mod q = (a mod q + q - r * c mod q) mod q" by (simp add: mod_mult_left_eq)
  also have "\<dots> = ((a + q) mod q - r * c mod q) mod q" by (metis mod_add_left_eq mod_diff_left_eq)
  also have "\<dots> = (a + q - r * c) mod q" by (simp only: mod_diff_eq)
  finally show ?thesis .
qed

lemma rk_hash_shift:
  assumes "length ws = 15"
  shows "rk_hash (ws @ [b]) = ((rk_hash (c # ws) + RK_Q - uint rk_r * uint c mod RK_Q) mod RK_Q * 256 + uint b) mod RK_Q"
proof -
  let ?v = "foldl (\<lambda>h b. h * 256 + uint (b :: byte)) 0 ws"
  have r: "uint rk_r = 256 ^ 15 mod RK_Q" by (simp add: RK_Q_def)
  have "rk_hash (c # ws) = (uint c * 256 ^ 15 + ?v) mod RK_Q"
    using foldl_value [of "uint c" ws] assms by (simp add: rk_hash_def)
  then have "(rk_hash (c # ws) + RK_Q - uint rk_r * uint c mod RK_Q) mod RK_Q =
      ((uint c * 256 ^ 15 + ?v) mod RK_Q + RK_Q - (256 ^ 15 mod RK_Q) * uint c mod RK_Q) mod RK_Q"
    unfolding r by simp
  also have "\<dots> = ((uint c * 256 ^ 15 + ?v) + RK_Q - 256 ^ 15 * uint c) mod RK_Q"
    by (rule mod_shift)
  also have "\<dots> = (?v + RK_Q) mod RK_Q" by (simp add: algebra_simps)
  also have "\<dots> = ?v mod RK_Q" by simp
  finally have e: "(rk_hash (c # ws) + RK_Q - uint rk_r * uint c mod RK_Q) mod RK_Q = ?v mod RK_Q" .
  have "rk_hash (ws @ [b]) = (?v * 256 + uint b) mod RK_Q" by (simp add: rk_hash_def)
  also have "\<dots> = (?v mod RK_Q * 256 + uint b) mod RK_Q" by (metis mod_add_left_eq mod_mult_left_eq)
  finally show ?thesis unfolding e .
qed

lemma rk_step_hash:
  assumes "length ws = 15" "uint t = rk_hash (c # ws)"
  shows "uint (rk_step t c b) = rk_hash (ws @ [b])"
proof -
  have q: "uint rk_q = RK_Q" by (simp add: RK_Q_def)
  have c: "uint (ucast c :: u64) = uint c" "uint c < 256" and b: "uint (ucast b :: u64) = uint b" "uint b < 256"
    using uint_bounded [of c] uint_bounded [of b] by (simp_all add: unsigned_ucast_eq take_bit_int_eq_self)
  have t: "0 \<le> uint t" "uint t < RK_Q" using rk_hash_bound assms(2) by auto
  have m: "uint (rk_r * ucast c mod rk_q) = uint rk_r * uint c mod RK_Q"
    using c by (simp add: uint_mod_distrib uint_word_ariths q RK_Q_def)
  then have m': "0 \<le> uint (rk_r * ucast c mod rk_q)" "uint (rk_r * ucast c mod rk_q) < RK_Q" by (simp_all add: RK_Q_def)
  have s: "uint (t + rk_q - rk_r * ucast c mod rk_q) = uint t + RK_Q - uint rk_r * uint c mod RK_Q"
  proof -
    have "uint (t + rk_q - rk_r * ucast c mod rk_q) = (uint t + RK_Q - uint (rk_r * ucast c mod rk_q)) mod 18446744073709551616"
      unfolding q [symmetric] by (simp add: uint_word_ariths mod_simps)
    also have "\<dots> = uint t + RK_Q - uint (rk_r * ucast c mod rk_q)"
      by (rule mod_pos_pos_trivial) (insert t m', unfold RK_Q_def, linarith+)
    finally show ?thesis unfolding m .
  qed
  define u where "u = (t + rk_q - rk_r * ucast c mod rk_q) mod rk_q"
  have u: "uint u = (uint t + RK_Q - uint rk_r * uint c mod RK_Q) mod RK_Q" unfolding u_def uint_mod_distrib s q ..
  have ub: "0 \<le> uint u" "uint u < RK_Q" unfolding u by (simp_all add: RK_Q_def)
  have "uint (push_bit 8 u + ucast b) = uint u * 256 + uint b"
    using ub b by (simp add: uint_word_ariths push_bit_eq_mult RK_Q_def)
  then have "uint (rk_step t c b) = (uint u * 256 + uint b) mod RK_Q"
    unfolding rk_step_def Let_def u_def [symmetric] uint_mod_distrib q by simp
  then show ?thesis using rk_hash_shift [OF assms(1), of b c] u assms(2) by simp
qed

subsection \<open>The search finds the first match\<close>

definition padded :: "byte list \<Rightarrow> nat \<Rightarrow> byte list" where
  "padded bs k = take 16 (drop k (replicate 16 0 @ bs))"

lemma padded_Suc: "padded bs (Suc k) = window bs k"
  by (simp add: padded_def window_def)

lemma length_padded: "k \<le> length bs \<Longrightarrow> length (padded bs k) = 16"
  by (simp add: padded_def)

lemma nth_padded: "j < 16 \<Longrightarrow> k \<le> length bs \<Longrightarrow> padded bs k ! j = (replicate 16 0 @ bs) ! (k + j)"
  by (simp add: padded_def del: drop_append)

lemma padded_shift:
  assumes "k < length bs"
  obtains ws where "length ws = 15" "padded bs k = (replicate 16 0 @ bs) ! k # ws" "padded bs (Suc k) = ws @ [bs ! k]"
proof -
  let ?xs = "replicate 16 0 @ bs"
  let ?ws = "take 15 (drop (Suc k) ?xs)"
  have "padded bs k = ?xs ! k # ?ws"
    using assms by (simp add: padded_def Cons_nth_drop_Suc [symmetric] del: drop_append)
  moreover have "padded bs (Suc k) = ?ws @ [bs ! k]"
    using assms take_Suc_conv_app_nth [of 15 "drop (Suc k) ?xs"] by (simp add: padded_def nth_append del: drop_append)
  ultimately show ?thesis using that [of ?ws] assms by (simp del: drop_append)
qed

lemma rk_scan_find:
  assumes "uint t = rk_hash (padded bs (k + i))" "i \<le> n" "k + n \<le> length bs"
    and "\<And>j. j < n + 16 \<Longrightarrow> sbuf ! j = (replicate 16 0 @ bs) ! (k + j)"
  shows "case find (\<lambda>j. hit bs (k + j)) [i..<n] of
      Some j \<Rightarrow> rk_scan sbuf n i t = Inr j
    | None \<Rightarrow> \<exists>t'. rk_scan sbuf n i t = Inl t' \<and> uint t' = rk_hash (padded bs (k + n))"
  using assms(1,2)
proof (induction "n - i" arbitrary: i t)
  case 0
  then show ?case by (subst rk_scan.simps) simp
next
  case (Suc d)
  then have i: "i < n" by simp
  obtain ws where ws: "length ws = 15" "padded bs (k + i) = (replicate 16 0 @ bs) ! (k + i) # ws" "padded bs (Suc (k + i)) = ws @ [bs ! (k + i)]"
    using padded_shift [of "k + i" bs] i assms(3) by auto
  have b: "sbuf ! i = (replicate 16 0 @ bs) ! (k + i)" "sbuf ! (i + 16) = bs ! (k + i)"
    using assms(4) [of i] assms(4) [of "i + 16"] i by (simp_all add: nth_append)
  let ?t = "rk_step t (sbuf ! i) (sbuf ! (i + 16))"
  have t: "uint ?t = rk_hash (padded bs (k + Suc i))"
    using rk_step_hash [OF ws(1), of t] Suc.prems(1) ws b by simp
  have h: "hit bs (k + i) \<longleftrightarrow> rk_p = ?t"
    using t by (simp add: hit_def rk_hash_id padded_Suc [symmetric] word_uint_eq_iff eq_commute)
  have u: "[i..<n] = i # [Suc i..<n]" using i by (simp add: upt_rec)
  show ?case
  proof (cases "rk_p = ?t")
    case True
    then show ?thesis using i h unfolding u by (simp add: rk_scan.simps [of sbuf n i t])
  next
    case False
    then have e: "rk_scan sbuf n i t = rk_scan sbuf n (Suc i) ?t" using i by (simp add: rk_scan.simps [of sbuf n i t])
    have "\<not> hit bs (k + i)" using False h by simp
    moreover have "d = n - Suc i" using Suc.hyps(2) by simp
    ultimately show ?thesis using Suc.hyps(1) [of "Suc i" ?t] t i unfolding u e by simp
  qed
qed

lemma find_shift: "find P [k..<k + n] = map_option ((+) k) (find (\<lambda>j. P (k + j)) [0..<n])"
proof -
  have "find P (map ((+) k) xs) = map_option ((+) k) (find (\<lambda>j. P (k + j)) xs)" for xs by (induction xs) auto
  moreover have "map ((+) k) [0..<n] = [k..<k + n]" by (rule nth_equalityI) simp_all
  ultimately show ?thesis by metis
qed

lemma find_append: "find P (xs @ ys) = (case find P xs of None \<Rightarrow> find P ys | Some x \<Rightarrow> Some x)"
  by (induction xs) auto

context target_memory
begin

lemma fast_search_loop_finds:
  assumes "good tg" "bs = bytes_at (mem tg) (unat a) L" "lo \<le> unat a" "unat a + L \<le> hi" "L \<le> k + 128 * fuel"
    and "length srch_buf = 144" "k < L \<Longrightarrow> take 16 (drop 128 srch_buf) = padded bs k" "uint t = rk_hash (padded bs k)"
    and "unat addr = unat a + k" "unat e = unat a + L"
  shows "\<exists>tg'. fast_search_loop ops fuel addr e srch_buf t r tg =
      Some (case find (hit bs) [k..<L] of None \<Rightarrow> 0 | Some j \<Rightarrow> a + of_nat j - 15, r, tg') \<and> good tg' \<and> mem tg' = mem tg"
  using assms
proof (induction fuel arbitrary: k addr srch_buf t tg)
  case 0
  then have "\<not> addr < e" by (simp add: word_less_nat_alt)
  then show ?case using 0 by simp
next
  case (Suc fuel)
  show ?case
  proof (cases "addr < e")
    case False
    then have "L \<le> k" using Suc.prems(9,10) by (simp add: word_less_nat_alt)
    then show ?thesis using False Suc.prems(1) by simp
  next
    case True
    then have kL: "k < L" using Suc.prems(9,10) by (simp add: word_less_nat_alt)
    define n where "n = min 128 (L - k)"
    have en: "unat (e - addr) = L - k" using True Suc.prems(9,10) by (simp add: unat_sub word_le_nat_alt word_less_nat_alt)
    have n: "unat (min 128 (e - addr)) = n" unfolding n_def en [symmetric] by (simp add: min_def word_le_nat_alt)
    define sb where "sb = take 16 (drop 128 srch_buf) @ drop 16 srch_buf"
    have sb: "length sb = 144" "take 16 sb = padded bs k" using Suc.prems(2,6,7) kL length_padded [of k bs] by (simp_all add: sb_def)
    have r: "lo \<le> unat addr" "unat addr + n \<le> hi" using Suc.prems(3,4,9) kL by (auto simp: n_def)
    obtain tg1 where tg1: "target_mem_read ops (drop 16 sb) addr n tg = Some (False, bytes_at (mem tg) (unat addr) n @ drop n (drop 16 sb), tg1)"
      "good tg1" "mem tg1 = mem tg" using mem_read [OF Suc.prems(1) r] by blast
    define sbuf where "sbuf = take 16 sb @ bytes_at (mem tg) (unat addr) n @ drop n (drop 16 sb)"
    have lb: "length bs = L" using Suc.prems(2) by simp
    have nth: "sbuf ! j = (replicate 16 0 @ bs) ! (k + j)" if "j < n + 16" for j
    proof (cases "j < 16")
      case True
      then have "sbuf ! j = padded bs k ! j" using sb length_padded [of k bs] kL lb by (simp add: sbuf_def nth_append)
      then show ?thesis using nth_padded [OF True] kL lb by simp
    next
      case False
      then have "j - 16 < n" using that by simp
      then have "sbuf ! j = mem tg (unat a + (k + (j - 16)))" using False sb(1) Suc.prems(9) by (simp add: sbuf_def nth_append add.assoc)
      moreover have "k + (j - 16) < L" using that False by (auto simp: n_def)
      ultimately show ?thesis using False Suc.prems(2) by (simp add: nth_append)
    qed
    have scan: "case find (\<lambda>j. hit bs (k + j)) [0..<n] of
        Some j \<Rightarrow> rk_scan sbuf n 0 t = Inr j
      | None \<Rightarrow> \<exists>t'. rk_scan sbuf n 0 t = Inl t' \<and> uint t' = rk_hash (padded bs (k + n))"
      by (rule rk_scan_find) (use Suc.prems(8) lb nth kL in \<open>auto simp: n_def\<close>)
    have split: "[k..<L] = [k..<k + n] @ [k + n..<L]" using upt_add_eq_append [of k "k + n" "L - (k + n)"] kL by (simp add: n_def)
    have loop: "fast_search_loop ops (Suc fuel) addr e srch_buf t r tg =
      (case rk_scan sbuf n 0 t of Inr i \<Rightarrow> Some (addr + of_nat i - 16 + 1, r, tg1)
       | Inl t \<Rightarrow> fast_search_loop ops fuel (addr + 128) e sbuf t r tg1)"
      unfolding sbuf_def using True tg1(1) n by (simp add: Let_def sb_def [symmetric] cong: sum.case_cong)
    have addr: "addr = a + of_nat k" using Suc.prems(9) Suc.prems(4) kL by (intro word_unat_eq_iff [THEN iffD2]) (simp add: unat_plus)
    show ?thesis
    proof (cases "find (\<lambda>j. hit bs (k + j)) [0..<n]")
      case (Some j)
      then have "find (hit bs) [k..<L] = Some (k + j)" unfolding split find_append find_shift by simp
      then show ?thesis using scan Some tg1(2,3) unfolding loop by (simp add: addr algebra_simps)
    next
      case None
      then have f: "find (hit bs) [k..<L] = find (hit bs) [k + n..<L]" unfolding split find_append find_shift by simp
      obtain t' where t': "rk_scan sbuf n 0 t = Inl t'" "uint t' = rk_hash (padded bs (k + n))" using scan None by auto
      have u: "unat (addr + 128) = unat a + (k + 128)"
        using Suc.prems(4,9) kL aligned(3) by (simp add: unat_word_ariths)
      show ?thesis
      proof (cases "n = 128")
        case True
        have lbuf: "length sbuf = 144" using True sb(1) by (simp add: sbuf_def)
        have b: "take 16 (drop 128 sbuf) = padded bs (k + 128)" if "k + 128 < L"
        proof (rule nth_equalityI)
          fix j assume j: "j < length (take 16 (drop 128 sbuf))"
          then show "take 16 (drop 128 sbuf) ! j = padded bs (k + 128) ! j"
            using nth [of "128 + j"] nth_padded [of j "k + 128" bs] that lb lbuf True by (simp add: add.assoc)
        qed (use lbuf length_padded [of "k + 128" bs] that lb in simp)
        have le: "L \<le> k + 128 + 128 * fuel" using Suc.prems(5) by simp
        have bs1: "bs = bytes_at (mem tg1) (unat a) L" unfolding tg1(3) by (rule Suc.prems(2))
        have ut: "uint t' = rk_hash (padded bs (k + 128))" using t'(2) True by simp
        from Suc.IH [OF tg1(2) bs1 Suc.prems(3,4) le lbuf b ut u Suc.prems(10)]
        show ?thesis unfolding loop t'(1) sum.case f unfolding True tg1(3) by blast
      next
        case False
        then have "L = k + n" using kL by (auto simp: n_def)
        moreover have "\<not> addr + 128 < e" using Suc.prems(10) False u by (simp add: word_less_nat_alt n_def)
        ultimately show ?thesis using t' f tg1(2,3) unfolding loop by (cases fuel) simp_all
      qed
    qed
  qed
qed

lemma fast_search_finds:
  assumes "good tg" "lo \<le> unat a" "unat a + L \<le> hi" "L \<le> 128 * fuel" "unat e = unat a + L"
  shows "\<exists>tg'. fast_search ops fuel a e r tg = Some (rtt_search_spec a (bytes_at (mem tg) (unat a) L), r, tg') \<and> good tg' \<and> mem tg' = mem tg"
proof -
  let ?bs = "bytes_at (mem tg) (unat a) L"
  have p: "padded ?bs 0 = replicate 16 0" by (simp add: padded_def)
  have "rk_hash (replicate 16 0) = 0" by (simp add: rk_hash_def numeral_eq_Suc)
  then show ?thesis
    using fast_search_loop_finds [OF assms(1) refl assms(2,3), of 0 fuel "replicate 144 0" 0 a e r] assms(4,5) p
    by (simp add: fast_search_def rtt_search_spec_def)
qed

end

end
