(* ===== verification/Rtt_Fifo.thy ===== *)
theory Rtt_Fifo
  imports Rtt Target_Memory
begin

text \<open>
  The ring buffers of src/rtt.c as queues. A channel of the control block in target memory is a queue of
  bytes: what lies between its tail and its head. print_rtt takes up to 1024 bytes off the queue of an up
  channel for the host, read_rtt appends what the host has sent to the queue of a down channel as far as there
  is room, and a poll does one or the other for each enabled channel in turn.
\<close>

subsection \<open>Rings in memory\<close>

definition ring_bytes :: "(nat \<Rightarrow> byte) \<Rightarrow> nat \<Rightarrow> nat \<Rightarrow> nat \<Rightarrow> nat \<Rightarrow> byte list" where
  "ring_bytes m b S t n = map (\<lambda>k. m (b + (t + k) mod S)) [0..<n]"

lemma length_ring_bytes [simp]: "length (ring_bytes m b S t n) = n"
  by (simp add: ring_bytes_def)

lemma nth_ring_bytes [simp]: "k < n \<Longrightarrow> ring_bytes m b S t n ! k = m (b + (t + k) mod S)"
  by (simp add: ring_bytes_def)

lemma take_ring_bytes: "take k (ring_bytes m b S t n) = ring_bytes m b S t (min k n)"
  by (rule nth_equalityI) auto

lemma drop_ring_bytes: "drop k (ring_bytes m b S t n) = ring_bytes m b S ((t + k) mod S) (n - k)"
  by (rule nth_equalityI) (auto simp: mod_add_left_eq add.assoc)

lemma ring_bytes_add: "ring_bytes m b S t (n + k) = ring_bytes m b S t n @ ring_bytes m b S ((t + n) mod S) k"
  using append_take_drop_id [of n "ring_bytes m b S t (n + k)"] by (simp add: take_ring_bytes drop_ring_bytes)

lemma ring_bytes_straight: "t + n \<le> S \<Longrightarrow> ring_bytes m b S t n = bytes_at m (b + t) n"
  by (rule nth_equalityI) (auto simp: add.assoc)

lemma ring_bytes_cong: "0 < S \<Longrightarrow> (\<And>x. b \<le> x \<Longrightarrow> x < b + S \<Longrightarrow> m x = m' x) \<Longrightarrow> ring_bytes m b S t n = ring_bytes m' b S t n"
  by (simp add: ring_bytes_def)

lemma mod_ring_inj:
  assumes "k < n" "n < (S :: nat)"
  shows "(t + k) mod S \<noteq> (t + n) mod S"
proof
  assume "(t + k) mod S = (t + n) mod S"
  then have "S dvd (t + n) - (t + k)" using assms(1) by (subst (asm) eq_commute) (simp add: mod_eq_dvd_iff_nat)
  then show False using assms nat_dvd_not_less [of "n - k" S] by simp
qed

lemma ring_bytes_upd:
  assumes "n < S"
  shows "ring_bytes (m(b + (t + n) mod S := x)) b S t (Suc n) = ring_bytes m b S t n @ [x]"
  using mod_ring_inj [OF _ assms, of _ t] by (intro nth_equalityI) (auto simp: nth_append less_Suc_eq)

text \<open>Bytes written behind the head, one after the other.\<close>

fun ring_put :: "nat \<Rightarrow> nat \<Rightarrow> nat \<Rightarrow> byte list \<Rightarrow> (nat \<Rightarrow> byte) \<Rightarrow> nat \<Rightarrow> byte" where
  "ring_put b S h [] m = m"
| "ring_put b S h (x # xs) m = ring_put b S ((h + 1) mod S) xs (m(b + h := x))"

lemma ring_put_outside: "h < S \<Longrightarrow> x < b \<or> b + S \<le> x \<Longrightarrow> ring_put b S h xs m x = m x"
  by (induction xs arbitrary: h m) auto

lemma ring_put_bytes:
  assumes "n + length xs < S"
  shows "ring_bytes (ring_put b S ((t + n) mod S) xs m) b S t (n + length xs) = ring_bytes m b S t n @ xs"
  using assms
proof (induction xs arbitrary: n m)
  case (Cons x xs)
  define m' where "m' = m(b + (t + n) mod S := x)"
  have "((t + n) mod S + 1) mod S = (t + Suc n) mod S" by (simp add: mod_Suc_eq)
  then have "ring_put b S ((t + n) mod S) (x # xs) m = ring_put b S ((t + Suc n) mod S) xs m'" by (simp add: m'_def)
  moreover have "ring_bytes m' b S t (Suc n) = ring_bytes m b S t n @ [x]" using ring_bytes_upd Cons.prems by (simp add: m'_def)
  ultimately show ?case using Cons.IH [of "Suc n" m'] Cons.prems by simp
qed simp

subsection \<open>Channels in memory\<close>

definition word_at :: "(nat \<Rightarrow> byte) \<Rightarrow> nat \<Rightarrow> u32" where
  "word_at m a = u32_of_bytes (bytes_at m a 4)"

definition chan_at :: "(nat \<Rightarrow> byte) \<Rightarrow> nat \<Rightarrow> nat \<Rightarrow> rtt_channel" where
  "chan_at m cb i =
     (let a = cb + 24 + 24 * i
      in \<lparr>name_addr = word_at m a, buf_addr = word_at m (a + 4), buf_size = word_at m (a + 8),
          rt_head = word_at m (a + 12), rt_tail = word_at m (a + 16), rt_flag = word_at m (a + 20)\<rparr>)"

definition chan_size :: "rtt_channel \<Rightarrow> nat" where
  "chan_size c = (if buf_addr c = 0 then 0 else unat (buf_size c))"

definition chan_used :: "rtt_channel \<Rightarrow> nat" where
  "chan_used c = (if chan_size c = 0 then 0 else (unat (rt_head c) + chan_size c - unat (rt_tail c)) mod chan_size c)"

text \<open>The queue of a channel.\<close>

definition chan_queue :: "(nat \<Rightarrow> byte) \<Rightarrow> rtt_channel \<Rightarrow> byte list" where
  "chan_queue m c = ring_bytes m (unat (buf_addr c)) (chan_size c) (unat (rt_tail c)) (chan_used c)"

definition chan_region :: "rtt_channel \<Rightarrow> nat set" where
  "chan_region c = {unat (buf_addr c)..<unat (buf_addr c) + chan_size c}"

definition chan_ok :: "nat \<Rightarrow> nat \<Rightarrow> rtt_channel \<Rightarrow> bool" where
  "chan_ok lo hi c \<longleftrightarrow> chan_size c = 0 \<or>
     lo \<le> unat (buf_addr c) \<and> unat (buf_addr c) + chan_size c \<le> hi \<and> rt_head c < buf_size c \<and> rt_tail c < buf_size c"

text \<open>A control block at cb with n channels whose rings are apart from it and from each other.\<close>

definition cblock_ok :: "nat \<Rightarrow> nat \<Rightarrow> (nat \<Rightarrow> byte) \<Rightarrow> nat \<Rightarrow> nat \<Rightarrow> bool" where
  "cblock_ok lo hi m cb n \<longleftrightarrow> lo \<le> cb \<and> cb + 24 + 24 * n \<le> hi \<and>
     (\<forall>i<n. chan_ok lo hi (chan_at m cb i) \<and> chan_region (chan_at m cb i) \<inter> {cb..<cb + 24 + 24 * n} = {} \<and>
        (\<forall>j<n. i \<noteq> j \<longrightarrow> chan_region (chan_at m cb i) \<inter> chan_region (chan_at m cb j) = {}))"

definition queues :: "(nat \<Rightarrow> byte) \<Rightarrow> nat \<Rightarrow> nat \<Rightarrow> byte list list" where
  "queues m cb n = map (\<lambda>i. chan_queue m (chan_at m cb i)) [0..<n]"

definition capacity :: "(nat \<Rightarrow> byte) \<Rightarrow> nat \<Rightarrow> nat \<Rightarrow> nat" where
  "capacity m cb i = chan_size (chan_at m cb i) - 1"

text \<open>The transfer for one channel: the queues, what the host has received, what it has sent.\<close>

fun fifo_step :: "nat \<Rightarrow> (nat \<Rightarrow> nat) \<Rightarrow> nat \<Rightarrow> byte list list \<times> byte list \<times> byte list \<Rightarrow> byte list list \<times> byte list \<times> byte list" where
  "fifo_step up cap i (qs, out, inp) =
     (if i < up then (qs[i := drop 1024 (qs ! i)], out @ take 1024 (qs ! i), inp)
      else (let k = cap i - length (qs ! i) in (qs[i := qs ! i @ take k inp], out, drop k inp)))"

lemma word_at_write_outside: "b + 4 \<le> a \<or> a + length bs \<le> b \<Longrightarrow> word_at (write_at a bs m) b = word_at m b"
  by (simp add: word_at_def bytes_at_write_outside)

lemma word_at_write_same [simp]: "word_at (write_at a (bytes_of_u32 v) m) a = v"
  by (simp add: word_at_def bytes_at_write_same)

lemma bytes_of_word_at: "bytes_of_u32 (word_at m a) = bytes_at m a 4"
proof -
  have "bytes_at m a 4 = [m a, m (a + 1), m (a + 2), m (a + 3)]" by (simp add: bytes_at_def upt_rec numeral_3_eq_3)
  then show ?thesis unfolding word_at_def by (simp only: bytes_of_u32_of_bytes)
qed

lemma write_at_id: "bytes_at m a (length bs) = bs \<Longrightarrow> write_at a bs m = m"
  by (auto simp: write_at_def fun_eq_iff) (metis add_diff_inverse_nat less_diff_conv2 nat_add_left_cancel_less not_less nth_bytes_at)

lemma u32_at_bytes_at: "k + 4 \<le> n \<Longrightarrow> u32_at (bytes_at m a n) k = word_at m (a + k)"
  by (auto simp: u32_at_def word_at_def drop_bytes_at take_bytes_at min_def)

lemma length_channels: "length (concat (map channel_bytes cs)) = 24 * length cs"
  by (induction cs) (simp_all add: channel_bytes_def)

lemma parse_channel_at: "i < n \<Longrightarrow> parse_channel (bytes_at m (cb + 24) (24 * n)) i = chan_at m cb i"
  by (simp add: parse_channel_def chan_at_def Let_def u32_at_bytes_at add.assoc)

subsection \<open>From target to host\<close>

lemma unat_and_3: "unat ((a :: u32) AND 3) = unat a mod 4"
proof -
  have "a AND 3 = a mod 2 ^ 2" unfolding take_bit_eq_mod [symmetric] by (simp add: take_bit_eq_mask mask_eq_exp_minus_1)
  then show ?thesis using unat_mod_exp [of 2 a] by simp
qed

definition round4 :: "nat \<Rightarrow> nat" where
  "round4 n = n + (4 - n mod 4) mod 4"

lemma round_up_word:
  fixes n :: u32
  assumes "unat n + 4 < 2 ^ 32"
  defines "k \<equiv> (if n AND 3 \<noteq> 0 then (n + 4) AND NOT 3 else n)"
  shows "unat k = round4 (unat n)"
proof -
  have u: "unat (n + 4) = unat n + 4" using assms(1) by (simp add: unat_word_ariths)
  have "unat ((n + 4) AND NOT 3) = unat n + 4 - unat n mod 4" using unat_align_down [of "n + 4" 2] u by simp
  moreover have "n AND 3 \<noteq> 0 \<longleftrightarrow> unat n mod 4 \<noteq> 0" by (metis unat_and_3 unat_eq_zero)
  ultimately show ?thesis unfolding k_def round4_def by auto
qed

lemma round4_le: "round4 n \<le> n + 3"
proof -
  have "(4 - n mod 4) mod 4 < (4 :: nat)" by simp
  then show ?thesis unfolding round4_def by linarith
qed

lemma round4_below:
  assumes "n \<le> k" "k mod 4 = 0"
  shows "round4 n \<le> k"
proof (cases "n mod 4 = 0")
  case True
  then show ?thesis using assms(1) by (simp add: round4_def)
next
  case False
  obtain j where j: "k = 4 * j" using assms(2) by (auto simp: mod_0_imp_dvd elim!: dvdE)
  define q s where "q = n div 4" and "s = n mod 4"
  have n: "n = 4 * q + s" "s < 4" "s \<noteq> 0" using False by (simp_all add: q_def s_def)
  have "4 * q < 4 * j" using assms(1) j n by linarith
  then have "q + 1 \<le> j" by simp
  moreover have "round4 n = n + (4 - s)" using n(2,3) by (simp add: round4_def s_def [symmetric])
  ultimately show ?thesis using j n by linarith
qed

lemma round_range:
  assumes "lo mod 4 = 0" "hi mod 4 = 0" "lo \<le> s" "s + n \<le> (hi :: nat)"
  shows "lo \<le> s - s mod 4" "s - s mod 4 + round4 (s mod 4 + n) \<le> hi"
proof -
  show "lo \<le> s - s mod 4"
    using assms(1,3) by (metis div_le_mono div_mult_mod_eq minus_mod_eq_div_mult mult_le_mono1 add.right_neutral)
  have "s mod 4 \<le> s" by simp
  moreover have "(hi - (s - s mod 4)) mod 4 = 0"
    using assms(2) by (metis dvd_diff_nat dvd_minus_mod mod_eq_0_iff_dvd)
  ultimately show "s - s mod 4 + round4 (s mod 4 + n) \<le> hi"
    using round4_below [of "s mod 4 + n" "hi - (s - s mod 4)"] assms(4) by linarith
qed

context target_memory
begin

lemma aligned_read:
  assumes t: "good t" and r: "lo \<le> unat src" "unat src + unat len \<le> hi" and d: "unat len + 8 \<le> length dest"
  shows "\<exists>t' d'. rtt_aligned_mem_read ops dest src len t = Some (False, bytes_at (mem t) (unat src) (unat len) @ d', t') \<and>
    unat len + length d' = length dest \<and> good t' \<and> mem t' = mem t"
proof -
  define off where "off = src AND 3"
  define src0 where "src0 = src - off"
  define len0 where "len0 = (if (len + off) AND 3 \<noteq> 0 then (len + off + 4) AND NOT 3 else len + off)"
  have read: "rtt_aligned_mem_read ops dest src len t =
      (if src0 = src \<and> len0 = len then target_mem_read ops dest src (unat len) t
       else if length dest < unat len0 then None
       else do { (err, dest, t) \<leftarrow> target_mem_read ops dest src0 (unat len0) t;
                 Some (err, take (unat len) (drop (unat off) dest) @ drop (unat len) dest, t) })"
    unfolding rtt_aligned_mem_read_def Let_def off_def src0_def len0_def by (rule refl)
  have off: "unat off = unat src mod 4" "unat off < 4" by (simp_all add: off_def unat_and_3)
  then have s0: "unat src0 = unat src - unat off" unfolding src0_def by (subst unat_sub) (simp_all add: word_le_nat_alt)
  have l: "unat (len + off) = unat off + unat len" using off(2) r aligned(3) by (simp add: unat_word_ariths)
  have l0: "unat len0 = round4 (unat off + unat len)"
    using round_up_word [of "len + off"] off(2) r aligned(3) unfolding len0_def l by simp
  have le: "unat len0 \<le> length dest" "unat len + unat off \<le> unat len0"
    using round4_le [of "unat off + unat len"] off(2) d unfolding l0 by (simp_all add: round4_def)
  have rr: "lo \<le> unat src0" "unat src0 + unat len0 \<le> hi"
    using round_range [OF aligned(1,2) r] unfolding s0 l0 off(1) by simp_all
  show ?thesis
  proof (cases "src0 = src \<and> len0 = len")
    case True
    then show ?thesis using mem_read [OF t r, of dest] d unfolding read by auto
  next
    case False
    obtain t' where t': "target_mem_read ops dest src0 (unat len0) t =
        Some (False, bytes_at (mem t) (unat src0) (unat len0) @ drop (unat len0) dest, t')" "good t'" "mem t' = mem t"
      using mem_read [OF t rr] by blast
    define x where "x = bytes_at (mem t) (unat src0) (unat len0) @ drop (unat len0) dest"
    have "take (unat len) (drop (unat off) x) = bytes_at (mem t) (unat src) (unat len)"
      using le(2) off by (simp add: x_def drop_bytes_at take_bytes_at s0)
    moreover have "rtt_aligned_mem_read ops dest src len t = Some (False, take (unat len) (drop (unat off) x) @ drop (unat len) x, t')"
      using False le(1) t'(1) unfolding read x_def [symmetric] by auto
    moreover have "length x = length dest" using le(1) by (simp add: x_def)
    ultimately show ?thesis using t'(2,3) d by auto
  qed
qed

end

lemma chan_size_pos: "chan_size c \<noteq> 0 \<longleftrightarrow> buf_addr c \<noteq> 0 \<and> buf_size c \<noteq> 0"
  by (auto simp: chan_size_def unat_gt_0)

lemma chan_size_eq: "chan_size c \<noteq> 0 \<Longrightarrow> chan_size c = unat (buf_size c)"
  by (simp add: chan_size_def split: if_splits)

lemma chan_okD:
  assumes "chan_ok lo hi c" "chan_size c \<noteq> 0"
  shows "lo \<le> unat (buf_addr c)" "unat (buf_addr c) + chan_size c \<le> hi" "unat (rt_head c) < chan_size c" "unat (rt_tail c) < chan_size c"
  using assms by (auto simp: chan_ok_def word_less_nat_alt chan_size_def split: if_splits)

lemma chan_used_eq:
  assumes "chan_ok lo hi c" "chan_size c \<noteq> 0"
  shows "chan_used c = (if unat (rt_tail c) \<le> unat (rt_head c) then unat (rt_head c) - unat (rt_tail c)
    else unat (rt_head c) + chan_size c - unat (rt_tail c))"
proof -
  have *: "unat (rt_head c) < chan_size c" "unat (rt_tail c) < chan_size c" using chan_okD [OF assms] by simp_all
  show ?thesis
  proof (cases "unat (rt_tail c) \<le> unat (rt_head c)")
    case True
    then have "unat (rt_head c) + chan_size c - unat (rt_tail c) = (unat (rt_head c) - unat (rt_tail c)) + chan_size c" by simp
    then have "(unat (rt_head c) + chan_size c - unat (rt_tail c)) mod chan_size c = unat (rt_head c) - unat (rt_tail c)"
      using * by (simp only: mod_add_self2) simp
    then show ?thesis using True assms(2) by (simp add: chan_used_def)
  qed (use * assms(2) in \<open>simp add: chan_used_def\<close>)
qed

context target_memory
begin

lemma ring_advance:
  assumes "chan_ok lo hi c" "chan_size c \<noteq> 0" "unat (rt_tail c) + unat len \<le> chan_size c"
  shows "unat ((rt_tail c + len) mod buf_size c) = (unat (rt_tail c) + unat len) mod chan_size c"
  using assms(3) chan_okD [OF assms(1,2)] aligned(3) chan_size_eq [OF assms(2)] by (simp add: unat_mod unat_word_ariths)

lemma print_part_reads:
  assumes "good t" "chan_ok lo hi c" "chan_size c \<noteq> 0" "unat (rt_tail c) + unat len \<le> chan_size c"
    and "n + unat len \<le> 1024" "length xb = 1032"
  shows "\<exists>t' d. print_part ops c len xb n t = Some (Some (c\<lparr>rt_tail := (rt_tail c + len) mod buf_size c\<rparr>,
      take n xb @ bytes_at (mem t) (unat (buf_addr c) + unat (rt_tail c)) (unat len) @ d, n + unat len), t') \<and>
    n + unat len + length d = 1032 \<and> good t' \<and> mem t' = mem t"
proof -
  have a: "unat (buf_addr c + rt_tail c) = unat (buf_addr c) + unat (rt_tail c)"
    using assms(4) chan_okD [OF assms(2,3)] aligned(3) by (simp add: unat_word_ariths)
  have dl: "unat len + 8 \<le> length (drop n xb)" using assms(5,6) by simp
  obtain t' d where "rtt_aligned_mem_read ops (drop n xb) (buf_addr c + rt_tail c) len t =
      Some (False, bytes_at (mem t) (unat (buf_addr c + rt_tail c)) (unat len) @ d, t')"
    "unat len + length d = length (drop n xb)" "good t'" "mem t' = mem t"
    using aligned_read [OF assms(1) _ _ dl, of "buf_addr c + rt_tail c"] assms(4) a chan_okD [OF assms(2,3)] by auto
  then show ?thesis using assms(5,6) a unfolding print_part_def by auto
qed

text \<open>The second read: from a tail that is not past the head.\<close>

lemma print_rest:
  assumes "good t" "chan_ok lo hi c" "chan_size c \<noteq> 0" "rt_tail c \<le> rt_head c" "n \<le> 1024" "length xb = 1032"
  defines "k \<equiv> min (unat (rt_head c) - unat (rt_tail c)) (1024 - n)"
  shows "\<exists>t' d v. (if rt_head c > rt_tail c \<and> n < 1024
      then print_part ops c (min (rt_head c - rt_tail c) (1024 - of_nat n)) xb n t else Some (Some (c, xb, n), t)) =
      Some (Some (c\<lparr>rt_tail := v\<rparr>, take n xb @ bytes_at (mem t) (unat (buf_addr c) + unat (rt_tail c)) k @ d, n + k), t') \<and>
    unat v = (unat (rt_tail c) + k) mod chan_size c \<and> good t' \<and> mem t' = mem t"
proof (cases "rt_head c > rt_tail c \<and> n < 1024")
  case True
  let ?len = "min (rt_head c - rt_tail c) (1024 - of_nat n)"
  have n: "unat (1024 - of_nat n :: u32) = 1024 - n" using True by (subst unat_sub) (simp_all add: word_le_nat_alt unat_of_nat)
  have h: "unat (rt_head c - rt_tail c) = unat (rt_head c) - unat (rt_tail c)" using assms(4) by (simp add: unat_sub)
  have len: "unat ?len = k" unfolding k_def n [symmetric] h [symmetric] by (simp add: min_def word_le_nat_alt)
  have b: "unat (rt_tail c) + unat ?len \<le> chan_size c" "n + unat ?len \<le> 1024"
    using chan_okD [OF assms(2,3)] assms(4,5) unfolding len k_def by (auto simp: word_le_nat_alt)
  show ?thesis using print_part_reads [OF assms(1-3) b assms(6)] ring_advance [OF assms(2,3) b(1)] True unfolding len by auto
next
  case False
  then have k: "k = 0" using assms(4,5) by (auto simp: k_def word_le_nat_alt word_less_nat_alt)
  have "(if rt_head c > rt_tail c \<and> n < 1024
      then print_part ops c (min (rt_head c - rt_tail c) (1024 - of_nat n)) xb n t else Some (Some (c, xb, n), t)) =
      Some (Some (c\<lparr>rt_tail := rt_tail c\<rparr>, take n xb @ [] @ drop n xb, n + 0), t)" unfolding if_not_P [OF False] by simp
  then show ?thesis using k assms(1) chan_okD(4) [OF assms(2,3)] by (intro exI [of _ t] exI [of _ "drop n xb"] exI [of _ "rt_tail c"]) simp
qed

lemma print_parts_reads:
  assumes "good t" "chan_ok lo hi c" "chan_size c \<noteq> 0"
  defines "k \<equiv> min 1024 (chan_used c)"
  shows "\<exists>t' xb v. print_parts ops c t = Some (c\<lparr>rt_tail := v\<rparr>, Some (xb, k), t') \<and> take k xb = take 1024 (chan_queue (mem t) c) \<and>
    unat v = (unat (rt_tail c) + k) mod chan_size c \<and> good t' \<and> mem t' = mem t"
proof (cases "rt_tail c > rt_head c")
  case False
  then have le: "rt_tail c \<le> rt_head c" by simp
  then have u: "chan_used c = unat (rt_head c) - unat (rt_tail c)" using chan_used_eq [OF assms(2,3)] by (simp add: word_le_nat_alt)
  have "chan_used c + unat (rt_tail c) \<le> chan_size c" using u le chan_okD [OF assms(2,3)] by (simp add: word_le_nat_alt)
  then have q: "take 1024 (chan_queue (mem t) c) = bytes_at (mem t) (unat (buf_addr c) + unat (rt_tail c)) k"
    by (simp add: chan_queue_def ring_bytes_straight add.commute take_bytes_at k_def min.commute)
  show ?thesis using print_rest [OF assms(1-3) le, of 0 "replicate 1032 0"] False u q unfolding print_parts_def k_def
    by (auto simp: min.commute)
next
  case True
  let ?len = "min (buf_size c - rt_tail c) 1024"
  define n where "n = min (chan_size c - unat (rt_tail c)) 1024"
  note ok = chan_okD [OF assms(2,3)]
  have lt: "unat (rt_head c) < unat (rt_tail c)" using True by (simp add: word_less_nat_alt)
  have u: "chan_used c = unat (rt_head c) + chan_size c - unat (rt_tail c)" using chan_used_eq [OF assms(2,3)] lt by simp
  have s: "unat (buf_size c - rt_tail c) = chan_size c - unat (rt_tail c)"
    using ok chan_size_eq [OF assms(3)] by (subst unat_sub) (simp_all add: word_le_nat_alt)
  have len: "unat ?len = n" unfolding n_def s [symmetric] by (simp add: min_def word_le_nat_alt)
  have b: "unat (rt_tail c) + unat ?len \<le> chan_size c" "0 + unat ?len \<le> 1024" using ok unfolding len n_def by auto
  define v where "v = (rt_tail c + ?len) mod buf_size c"
  have v: "unat v = (unat (rt_tail c) + n) mod chan_size c" using ring_advance [OF assms(2,3) b(1)] unfolding len v_def .
  let ?c = "c\<lparr>rt_tail := v\<rparr>"
  obtain t1 d where p: "print_part ops c ?len (replicate 1032 0) 0 t =
      Some (Some (?c, bytes_at (mem t) (unat (buf_addr c) + unat (rt_tail c)) n @ d, n), t1)" "n + length d = 1032" "good t1" "mem t1 = mem t"
    using print_part_reads [OF assms(1-3) b, of "replicate 1032 0"] unfolding len v_def [symmetric] by auto
  have q1: "ring_bytes (mem t) (unat (buf_addr c)) (chan_size c) (unat (rt_tail c)) n = bytes_at (mem t) (unat (buf_addr c) + unat (rt_tail c)) n"
    using ok by (intro ring_bytes_straight) (simp add: n_def)
  show ?thesis
  proof (cases "n = chan_size c - unat (rt_tail c)")
    case True
    define k2 where "k2 = min (unat (rt_head c)) (1024 - n)"
    have v0: "v = 0" using v True ok by (simp add: unat_eq_zero [symmetric])
    have c1: "chan_ok lo hi ?c" "chan_size ?c = chan_size c" "chan_size ?c \<noteq> 0"
      using assms(2,3) v0 by (auto simp: chan_ok_def chan_size_def word_gt_0 split: if_splits)
    have le: "rt_tail ?c \<le> rt_head ?c" "n \<le> 1024" using v0 by (simp_all add: n_def)
    have "chan_used c = n + unat (rt_head c)" using u True ok(4) by linarith
    then have k: "k = n + k2" using le(2) unfolding k_def k2_def by (auto simp: min_def)
    have "ring_bytes (mem t) (unat (buf_addr c)) (chan_size c) 0 k2 = bytes_at (mem t) (unat (buf_addr c)) k2"
      using ok ring_bytes_straight [of 0 k2 "chan_size c"] by (simp add: k2_def)
    then have q: "take 1024 (chan_queue (mem t) c) = bytes_at (mem t) (unat (buf_addr c) + unat (rt_tail c)) n @ bytes_at (mem t) (unat (buf_addr c)) k2"
      using q1 True ok unfolding chan_queue_def take_ring_bytes k_def [symmetric] k ring_bytes_add by simp
    have w: "(unat (rt_tail c) + k) mod chan_size c = k2 mod chan_size c" using True ok unfolding k by (simp add: add.assoc [symmetric])
    show ?thesis using print_rest [OF p(3) c1(1,3) le, of "bytes_at (mem t) (unat (buf_addr c) + unat (rt_tail c)) n @ d"] p \<open>rt_head c < rt_tail c\<close> c1(2) v0 q w
      unfolding print_parts_def k k2_def [symmetric] by (auto simp: k2_def)
  next
    case False
    then have n: "n = 1024" "1024 < chan_size c - unat (rt_tail c)" by (auto simp: n_def)
    then have "unat v = unat (rt_tail c) + 1024" using v by simp
    moreover from this have "\<not> rt_tail ?c < rt_head ?c" using lt by (simp add: word_less_nat_alt)
    moreover have "k = 1024" using n u by (simp add: k_def)
    ultimately show ?thesis using p n q1 \<open>rt_head c < rt_tail c\<close> unfolding print_parts_def chan_queue_def take_ring_bytes k_def [symmetric] by auto
  qed
qed

lemma field_addr:
  fixes a :: u32
  assumes "unat a + 48 + 24 * i \<le> hi"
  shows "unat (a + 24 + of_nat i * 24 + 16) = unat a + 40 + 24 * i" "unat (a + 24 + of_nat i * 24 + 12) = unat a + 36 + 24 * i"
proof -
  have "a + 24 + of_nat i * 24 + 16 = a + of_nat (40 + 24 * i)" "a + 24 + of_nat i * 24 + 12 = a + of_nat (36 + 24 * i)" by simp_all
  then show "unat (a + 24 + of_nat i * 24 + 16) = unat a + 40 + 24 * i" "unat (a + 24 + of_nat i * 24 + 12) = unat a + 36 + 24 * i"
    using unat_plus [of a "40 + 24 * i"] unat_plus [of a "36 + 24 * i"] assms by (simp_all only:)
qed

lemma print_rtt_takes:
  assumes t: "good t" and c: "chan_ok lo hi (rtt_channels r ! i)" "i < length (rtt_channels r)"
    and a: "lo \<le> unat (rtt_cbaddr r)" "unat (rtt_cbaddr r) + 48 + 24 * i \<le> hi"
    and q: "rt_tail (rtt_channels r ! i) = word_at (mem t) (unat (rtt_cbaddr r) + 40 + 24 * i)"
  defines "c \<equiv> rtt_channels r ! i"
  defines "v \<equiv> of_nat ((unat (rt_tail c) + min 1024 (chan_used c)) mod chan_size c)"
  shows "\<exists>x t'. print_rtt ops i r t = Some (x, (set_channel i (c\<lparr>rt_tail := v\<rparr>) r)\<lparr>rt_up := rt_up r @ take 1024 (chan_queue (mem t) c)\<rparr>, t') \<and>
    x \<noteq> RTT_ERR \<and> good t' \<and> mem t' = write_at (unat (rtt_cbaddr r) + 40 + 24 * i) (bytes_of_u32 v) (mem t)"
proof (cases "chan_used c = 0")
  case True
  have v: "v = rt_tail c"
  proof (cases "chan_size c = 0")
    case False
    then show ?thesis using True chan_okD(4) [OF c(1), folded c_def] by (simp add: v_def)
  qed (simp add: v_def True)
  have idle: "print_rtt ops i r t = Some (RTT_IDLE, r, t)"
  proof (cases "chan_size c = 0")
    case True
    then show ?thesis using c(2) chan_size_pos [of c] by (auto simp: print_rtt_def c_def Let_def)
  next
    case False
    have "rt_head c = rt_tail c" "rt_head c < buf_size c" "rt_tail c < buf_size c"
      using True chan_okD(3,4) [OF c(1), folded c_def, OF False] chan_used_eq [OF c(1), folded c_def, OF False] chan_size_eq [OF False]
      by (auto simp: word_unat_eq_iff word_less_nat_alt split: if_splits)
    then show ?thesis using c(2) False chan_size_pos [of c] by (simp add: print_rtt_def c_def [symmetric] Let_def)
  qed
  have "write_at (unat (rtt_cbaddr r) + 40 + 24 * i) (bytes_of_u32 v) (mem t) = mem t"
    unfolding v c_def q bytes_of_word_at by (rule write_at_id) simp
  moreover have "chan_queue (mem t) c = []" using True by (simp add: chan_queue_def ring_bytes_def)
  ultimately show ?thesis using idle t unfolding v by (simp add: set_channel_def c_def)
next
  case False
  then have S: "chan_size c \<noteq> 0" by (auto simp: chan_used_def split: if_splits)
  note ok = chan_okD [OF c(1), folded c_def, OF S]
  obtain t1 xb w where p: "print_parts ops c t = Some (c\<lparr>rt_tail := w\<rparr>, Some (xb, min 1024 (chan_used c)), t1)"
    "take (min 1024 (chan_used c)) xb = take 1024 (chan_queue (mem t) c)"
    "unat w = (unat (rt_tail c) + min 1024 (chan_used c)) mod chan_size c" "good t1" "mem t1 = mem t"
    using print_parts_reads [OF t c(1), folded c_def, OF S] by blast
  have w: "w = v" unfolding v_def p(3) [symmetric] by simp
  note ad = field_addr(1) [OF a(2)]
  obtain t2 where t2: "target_mem_write ops (rtt_cbaddr r + 24 + of_nat i * 24 + 16) (bytes_of_u32 v) 4 t1 = Some (False, t2)"
    "good t2" "mem t2 = write_at (unat (rtt_cbaddr r) + 40 + 24 * i) (bytes_of_u32 v) (mem t)"
    using mem_write [OF p(4), of "rtt_cbaddr r + 24 + of_nat i * 24 + 16" 4 "bytes_of_u32 v"] a ad p(5) by auto
  have ne: "rt_head c \<noteq> rt_tail c" "\<not> buf_size c \<le> rt_head c" "\<not> buf_size c \<le> rt_tail c" "buf_addr c \<noteq> 0" "buf_size c \<noteq> 0"
    using False chan_used_eq [OF c(1), folded c_def, OF S] ok chan_size_eq [OF S] chan_size_pos [of c] S
    by (auto simp: word_le_nat_alt)
  have "print_rtt ops i r t = Some (RTT_OK, (set_channel i (c\<lparr>rt_tail := v\<rparr>) r)\<lparr>rt_up := rt_up r @ take 1024 (chan_queue (mem t) c)\<rparr>, t2)"
    using p(1,2) t2(1) ne c(2) unfolding print_rtt_def c_def [symmetric] w by (simp add: Let_def set_channel_def)
  then show ?thesis using t2(2,3) by blast
qed

end

subsection \<open>From host to target\<close>

lemma ring_next:
  fixes t n S :: nat
  assumes "t < S" "n < S"
  shows "t = ((t + n) mod S + 1) mod S \<longleftrightarrow> Suc n = S"
proof -
  have e: "((t + n) mod S + 1) mod S = (t + Suc n) mod S" by (simp add: mod_Suc_eq)
  show ?thesis
  proof (cases "Suc n = S")
    case False
    then have "(t + 0) mod S \<noteq> (t + Suc n) mod S" using assms(2) by (intro mod_ring_inj) auto
    then show ?thesis unfolding e using assms(1) False by simp
  qed (use e assms(1) in auto)
qed

lemma chan_head_used:
  assumes "chan_ok lo hi c" "chan_size c \<noteq> 0"
  shows "unat (rt_head c) = (unat (rt_tail c) + chan_used c) mod chan_size c" "chan_used c < chan_size c"
  using chan_okD [OF assms] chan_used_eq [OF assms] by (auto simp: not_le)

lemma chan_used_eqI:
  assumes "chan_ok lo hi c" "chan_size c \<noteq> 0" "unat (rt_head c) = (unat (rt_tail c) + n) mod chan_size c" "n < chan_size c"
  shows "chan_used c = n"
  using mod_ring_inj [of _ _ "chan_size c" "unat (rt_tail c)"] chan_head_used [OF assms(1,2)] assms(3,4)
  by (metis nat_neq_iff)

context target_memory
begin

lemma read_rtt_loop_puts:
  assumes "good t" "chan_ok lo hi (rtt_channels r ! i)" "chan_size (rtt_channels r ! i) \<noteq> 0" "i < length (rtt_channels r)"
  defines "c \<equiv> rtt_channels r ! i"
  defines "k \<equiv> min (length (rt_down r)) (chan_size c - 1 - chan_used c)"
  defines "v \<equiv> of_nat ((unat (rt_head c) + k) mod chan_size c)"
  shows "\<exists>t'. read_rtt_loop ops i r t = Some (True, set_channel i (c\<lparr>rt_head := v\<rparr>) (r\<lparr>rt_down := drop k (rt_down r)\<rparr>), t') \<and>
    good t' \<and> mem t' = ring_put (unat (buf_addr c)) (chan_size c) (unat (rt_head c)) (take k (rt_down r)) (mem t)"
  unfolding v_def k_def c_def using assms(1-4)
proof (induction "rt_down r" arbitrary: r t)
  case Nil
  let ?c = "rtt_channels r ! i"
  have "set_channel i (?c\<lparr>rt_head := of_nat ((unat (rt_head ?c) + 0) mod chan_size ?c)\<rparr>) (r\<lparr>rt_down := drop 0 (rt_down r)\<rparr>) = r"
    using chan_okD(3) [OF Nil.prems(2,3)] by (simp add: set_channel_def)
  then show ?case using Nil.hyps Nil.prems by (simp add: read_rtt_loop.simps [of ops i r t] Let_def del: drop0)
next
  case (Cons x xs)
  let ?c = "rtt_channels r ! i"
  let ?S = "chan_size ?c"
  note ok = chan_okD [OF Cons.prems(2,3)]
  note hd = chan_head_used [OF Cons.prems(2,3)]
  have sz: "?S = unat (buf_size ?c)" by (rule chan_size_eq [OF Cons.prems(3)])
  define nh where "nh = (rt_head ?c + 1) mod buf_size ?c"
  have nh: "unat nh = (unat (rt_head ?c) + 1) mod ?S"
    using ok aligned(3) sz by (simp add: nh_def unat_mod unat_word_ariths)
  have full: "rt_tail ?c = nh \<longleftrightarrow> Suc (chan_used ?c) = ?S"
    using ring_next [OF ok(4) hd(2)] nh hd(1) by (simp add: word_unat_eq_iff)
  show ?case
  proof (cases "rt_tail ?c = nh")
    case True
    have "set_channel i (?c\<lparr>rt_head := of_nat ((unat (rt_head ?c) + 0) mod ?S)\<rparr>) (r\<lparr>rt_down := drop 0 (rt_down r)\<rparr>) = r"
      using ok(3) by (simp add: set_channel_def)
    moreover have "read_rtt_loop ops i r t = Some (True, r, t)"
      using True by (simp add: read_rtt_loop.simps [of ops i r t] Let_def nh_def)
    moreover have "min (length (rt_down r)) (?S - 1 - chan_used ?c) = 0" using full True by simp
    ultimately show ?thesis using Cons.prems(1) by (simp del: drop0)
  next
    case False
    let ?r = "set_channel i (?c\<lparr>rt_head := nh\<rparr>) (r\<lparr>rt_down := xs\<rparr>)"
    have u: "Suc (chan_used ?c) < ?S" using full False hd(2) by simp
    have a: "unat (buf_addr ?c + rt_head ?c) = unat (buf_addr ?c) + unat (rt_head ?c)"
      using ok aligned(3) by (simp add: unat_word_ariths)
    obtain t1 where t1: "target_mem_write ops (buf_addr ?c + rt_head ?c) [x] 1 t = Some (False, t1)" "good t1"
      "mem t1 = (mem t)(unat (buf_addr ?c) + unat (rt_head ?c) := x)"
      using mem_write [OF Cons.prems(1), of "buf_addr ?c + rt_head ?c" 1 "[x]"] a ok
      by (auto simp: write_at_def fun_upd_def fun_eq_iff)
    have loop: "read_rtt_loop ops i r t = read_rtt_loop ops i ?r t1"
      using False t1(1) by (simp add: read_rtt_loop.simps [of ops i r t] Let_def nh_def Cons.hyps(2) [symmetric])
    have c: "rtt_channels ?r ! i = ?c\<lparr>rt_head := nh\<rparr>" "rt_down ?r = xs" "length (rtt_channels ?r) = length (rtt_channels r)"
      using Cons.prems(4) by (simp_all add: set_channel_def)
    have S: "chan_size (?c\<lparr>rt_head := nh\<rparr>) = ?S" by (simp add: chan_size_def)
    have ok': "chan_ok lo hi (?c\<lparr>rt_head := nh\<rparr>)"
      using Cons.prems(2,3) nh ok(3) sz S by (auto simp: chan_ok_def word_less_nat_alt)
    have used: "chan_used (?c\<lparr>rt_head := nh\<rparr>) = Suc (chan_used ?c)"
      using u hd(1) nh S Cons.prems(3) by (intro chan_used_eqI [OF ok']) (simp_all add: mod_Suc_eq)
    define k where "k = min (length xs) (?S - 1 - Suc (chan_used ?c))"
    have k: "min (length (rt_down r)) (?S - 1 - chan_used ?c) = Suc k" using u Cons.hyps(2) [symmetric] by (auto simp: k_def)
    have "(unat nh + k) mod ?S = (unat (rt_head ?c) + Suc k) mod ?S" unfolding nh by (simp add: mod_Suc_eq mod_add_left_eq)
    moreover obtain t' where "read_rtt_loop ops i ?r t1 = Some (True, set_channel i (?c\<lparr>rt_head := of_nat ((unat nh + k) mod ?S)\<rparr>)
        (?r\<lparr>rt_down := drop k xs\<rparr>), t')" "good t'"
      "mem t' = ring_put (unat (buf_addr ?c)) ?S (unat nh) (take k xs) (mem t1)"
      using Cons.hyps(1) [of ?r t1] t1(2) ok' S Cons.prems(3,4) unfolding c used k_def by auto
    moreover have "set_channel i d (?r\<lparr>rt_down := drop k xs\<rparr>) = set_channel i d (r\<lparr>rt_down := drop (Suc k) (rt_down r)\<rparr>)" for d
      using Cons.hyps(2) [symmetric] by (simp add: set_channel_def)
    ultimately show ?thesis using t1(3) Cons.hyps(2) [symmetric] unfolding k loop nh by auto
  qed
qed

lemma read_rtt_puts:
  assumes t: "good t" and c: "chan_ok lo hi (rtt_channels r ! i)" "i < length (rtt_channels r)"
    and a: "lo \<le> unat (rtt_cbaddr r)" "unat (rtt_cbaddr r) + 48 + 24 * i \<le> hi"
    and q: "rt_head (rtt_channels r ! i) = word_at (mem t) (unat (rtt_cbaddr r) + 36 + 24 * i)"
  defines "c \<equiv> rtt_channels r ! i"
  defines "k \<equiv> min (length (rt_down r)) (chan_size c - 1 - chan_used c)"
  defines "v \<equiv> of_nat ((unat (rt_head c) + k) mod chan_size c)"
  shows "\<exists>x t'. read_rtt ops i r t = Some (x, set_channel i (c\<lparr>rt_head := v\<rparr>) (r\<lparr>rt_down := drop k (rt_down r)\<rparr>), t') \<and>
    x \<noteq> RTT_ERR \<and> good t' \<and> mem t' = write_at (unat (rtt_cbaddr r) + 36 + 24 * i) (bytes_of_u32 v)
      (ring_put (unat (buf_addr c)) (chan_size c) (unat (rt_head c)) (take k (rt_down r)) (mem t))"
proof (cases "rt_down r = [] \<or> chan_size c = 0")
  case True
  then have "read_rtt ops i r t = Some (RTT_IDLE, r, t)"
    using c(2) chan_size_pos [of c] by (auto simp: read_rtt_def c_def Let_def)
  moreover have k: "k = 0" using True by (auto simp: k_def)
  moreover have v: "v = rt_head c"
  proof (cases "chan_size c = 0")
    case False
    then show ?thesis using k chan_okD(3) [OF c(1), folded c_def] by (simp add: v_def)
  qed (simp add: v_def k)
  moreover have "write_at (unat (rtt_cbaddr r) + 36 + 24 * i) (bytes_of_u32 (rt_head c)) (mem t) = mem t"
    unfolding c_def q bytes_of_word_at by (rule write_at_id) simp
  ultimately show ?thesis using t by (simp add: set_channel_def c_def)
next
  case False
  then have S: "chan_size c \<noteq> 0" by simp
  note ok = chan_okD [OF c(1), folded c_def, OF S]
  let ?r = "set_channel i (c\<lparr>rt_head := v\<rparr>) (r\<lparr>rt_down := drop k (rt_down r)\<rparr>)"
  obtain t1 where t1: "read_rtt_loop ops i r t = Some (True, ?r, t1)" "good t1"
    "mem t1 = ring_put (unat (buf_addr c)) (chan_size c) (unat (rt_head c)) (take k (rt_down r)) (mem t)"
    using read_rtt_loop_puts [OF t c(1) _ c(2), folded c_def, OF S] unfolding k_def v_def by blast
  have r: "rtt_cbaddr ?r = rtt_cbaddr r" "rt_head (rtt_channels ?r ! i) = v" using c(2) by (simp_all add: set_channel_def)
  note ad = field_addr(2) [OF a(2)]
  obtain t2 where t2: "target_mem_write ops (rtt_cbaddr r + 24 + of_nat i * 24 + 12) (bytes_of_u32 v) 4 t1 = Some (False, t2)"
    "good t2" "mem t2 = write_at (unat (rtt_cbaddr r) + 36 + 24 * i) (bytes_of_u32 v) (mem t1)"
    using mem_write [OF t1(2), of "rtt_cbaddr r + 24 + of_nat i * 24 + 12" 4 "bytes_of_u32 v"] a ad by auto
  have ne: "\<not> buf_size c \<le> rt_head c" "\<not> buf_size c \<le> rt_tail c" "buf_addr c \<noteq> 0" "buf_size c \<noteq> 0"
    using ok chan_size_eq [OF S] chan_size_pos [of c] S by (auto simp: word_le_nat_alt)
  have "read_rtt ops i r t = Some (RTT_OK, ?r, t2)"
    using t1(1) t2(1) ne c(2) False r unfolding read_rtt_def c_def [symmetric] by (simp add: Let_def)
  then show ?thesis using t2(2,3) t1(3) by auto
qed

end

subsection \<open>One channel\<close>

lemma chan_at_write:
  "chan_at (write_at (cb + 40 + 24 * i) (bytes_of_u32 v) m) cb j = (if j = i then (chan_at m cb i)\<lparr>rt_tail := v\<rparr> else chan_at m cb j)"
  "chan_at (write_at (cb + 36 + 24 * i) (bytes_of_u32 v) m) cb j = (if j = i then (chan_at m cb i)\<lparr>rt_head := v\<rparr> else chan_at m cb j)"
proof -
  have e: "cb + 24 + 24 * i + 16 = cb + 40 + 24 * i" "cb + 24 + 24 * i + 12 = cb + 36 + 24 * i" by simp_all
  consider "j = i" | "j < i" | "i < j" by linarith
  then show "chan_at (write_at (cb + 40 + 24 * i) (bytes_of_u32 v) m) cb j = (if j = i then (chan_at m cb i)\<lparr>rt_tail := v\<rparr> else chan_at m cb j)"
    "chan_at (write_at (cb + 36 + 24 * i) (bytes_of_u32 v) m) cb j = (if j = i then (chan_at m cb i)\<lparr>rt_head := v\<rparr> else chan_at m cb j)"
    by (cases; auto simp: chan_at_def Let_def word_at_write_outside e)+
qed

lemma chan_at_cong:
  assumes "\<And>x. cb + 24 + 24 * j \<le> x \<Longrightarrow> x < cb + 48 + 24 * j \<Longrightarrow> m x = m' x"
  shows "chan_at m cb j = chan_at m' cb j"
proof -
  have "word_at m (cb + 24 + 24 * j + d) = word_at m' (cb + 24 + 24 * j + d)" if "d \<le> 20" for d
    unfolding word_at_def using that by (intro arg_cong [of _ _ u32_of_bytes] bytes_at_cong assms) auto
  from this [of 0] this [of 4] this [of 8] this [of 12] this [of 16] this [of 20] show ?thesis by (simp add: chan_at_def Let_def)
qed

text \<open>A change of the head or tail of one channel and of the bytes of its ring.\<close>

lemma cblock_upd:
  assumes "cblock_ok lo hi m cb n" "i < n" "chan_ok lo hi c" "buf_addr c = buf_addr (chan_at m cb i)" "buf_size c = buf_size (chan_at m cb i)"
    and "\<And>j. j < n \<Longrightarrow> chan_at m' cb j = (if j = i then c else chan_at m cb j)"
    and "\<And>j x. j < n \<Longrightarrow> j \<noteq> i \<Longrightarrow> x \<in> chan_region (chan_at m cb j) \<Longrightarrow> m' x = m x"
  shows "cblock_ok lo hi m' cb n" "queues m' cb n = (queues m cb n)[i := chan_queue m' c]" "j < n \<Longrightarrow> capacity m' cb j = capacity m cb j"
proof -
  have S: "chan_size c = chan_size (chan_at m cb i)" "chan_region c = chan_region (chan_at m cb i)"
    using assms(4,5) by (simp_all add: chan_size_def chan_region_def)
  have r: "chan_region (chan_at m' cb j) = chan_region (chan_at m cb j)" if "j < n" for j using assms(6) that S by simp
  show "cblock_ok lo hi m' cb n" using assms(1,3) r assms(6) unfolding cblock_ok_def by auto
  show "capacity m' cb j = capacity m cb j" if "j < n" for j using assms(6) that S by (simp add: capacity_def)
  have "chan_queue m' (chan_at m cb j) = chan_queue m (chan_at m cb j)" if "j < n" "j \<noteq> i" for j
  proof (cases "chan_size (chan_at m cb j) = 0")
    case False
    then show ?thesis unfolding chan_queue_def using assms(7) [OF that] by (intro ring_bytes_cong) (auto simp: chan_region_def)
  qed (simp add: chan_queue_def chan_used_def ring_bytes_def)
  then show "queues m' cb n = (queues m cb n)[i := chan_queue m' c]"
    using assms(2,6) by (intro nth_equalityI) (auto simp: queues_def nth_list_update)
qed

text \<open>The view of the host and of the target on the channels agree.\<close>

definition linked :: "nat \<Rightarrow> nat \<Rightarrow> (nat \<Rightarrow> byte) \<Rightarrow> nat \<Rightarrow> rtt \<Rightarrow> bool" where
  "linked lo hi m n r \<longleftrightarrow> cblock_ok lo hi m (unat (rtt_cbaddr r)) n \<and> n \<le> length (rtt_channels r) \<and>
     (\<forall>i<n. rtt_channels r ! i = chan_at m (unat (rtt_cbaddr r)) i)"

lemma linkedD:
  assumes "linked lo hi m n r" "i < n"
  shows "cblock_ok lo hi m (unat (rtt_cbaddr r)) n" "n \<le> length (rtt_channels r)"
    "\<And>j. j < n \<Longrightarrow> rtt_channels r ! j = chan_at m (unat (rtt_cbaddr r)) j"
    "i < length (rtt_channels r)" "rtt_channels r ! i = chan_at m (unat (rtt_cbaddr r)) i"
    "lo \<le> unat (rtt_cbaddr r)" "unat (rtt_cbaddr r) + 48 + 24 * i \<le> hi" "chan_ok lo hi (rtt_channels r ! i)"
    "chan_region (rtt_channels r ! i) \<inter> {unat (rtt_cbaddr r)..<unat (rtt_cbaddr r) + 24 + 24 * n} = {}"
    "chan_region (chan_at m (unat (rtt_cbaddr r)) i) \<inter> {unat (rtt_cbaddr r)..<unat (rtt_cbaddr r) + 24 + 24 * n} = {}"
    "\<And>j. j < n \<Longrightarrow> j \<noteq> i \<Longrightarrow> chan_region (chan_at m (unat (rtt_cbaddr r)) j) \<inter> chan_region (chan_at m (unat (rtt_cbaddr r)) i) = {}"
  using assms by (auto simp: linked_def cblock_ok_def)

lemma unat_of_nat_mod:
  assumes "chan_size c \<noteq> 0"
  shows "unat (of_nat (x mod chan_size c) :: u32) = x mod chan_size c"
proof -
  have "x mod chan_size c < 2 ^ LENGTH(32)"
    using assms unsigned_less [of "buf_size c", where 'a = nat] mod_less_divisor [of "chan_size c" x] unfolding chan_size_eq [OF assms]
    by (simp del: mod_less_divisor)
  then show ?thesis by (rule of_nat_inverse [OF refl])
qed

lemma empty_queue: "chan_size c = 0 \<Longrightarrow> chan_queue m c = []" "chan_size c = 0 \<Longrightarrow> chan_used c = 0"
  by (simp_all add: chan_queue_def chan_used_def ring_bytes_def)

lemma queue_taken:
  assumes "chan_ok lo hi c" "\<And>x. x \<in> chan_region c \<Longrightarrow> m' x = m x"
  defines "v \<equiv> of_nat ((unat (rt_tail c) + min 1024 (chan_used c)) mod chan_size c)"
  shows "chan_ok lo hi (c\<lparr>rt_tail := v\<rparr>)" "chan_queue m' (c\<lparr>rt_tail := v\<rparr>) = drop 1024 (chan_queue m c)"
proof -
  let ?c = "c\<lparr>rt_tail := v\<rparr>"
  let ?k = "min 1024 (chan_used c)"
  have S: "chan_size ?c = chan_size c" by (simp add: chan_size_def)
  have "chan_ok lo hi ?c \<and> chan_queue m' ?c = drop 1024 (chan_queue m c)"
  proof (cases "chan_size c = 0")
    case True
    then show ?thesis using S empty_queue by (simp add: chan_ok_def)
  next
    case False
    have v: "unat v = (unat (rt_tail c) + ?k) mod chan_size c" unfolding v_def by (rule unat_of_nat_mod [OF False])
    have ok: "chan_ok lo hi ?c"
      using assms(1) False S v chan_size_eq [OF False] by (auto simp: chan_ok_def word_less_nat_alt)
    have "(unat v + (chan_used c - ?k)) mod chan_size c = (unat (rt_tail c) + chan_used c) mod chan_size c"
      unfolding v mod_add_left_eq by simp
    then have "chan_used ?c = chan_used c - ?k"
      using chan_head_used [OF assms(1) False] S False by (intro chan_used_eqI [OF ok]) auto
    then have "chan_queue m' ?c = ring_bytes m' (unat (buf_addr c)) (chan_size c) ((unat (rt_tail c) + ?k) mod chan_size c) (chan_used c - ?k)"
      by (simp add: chan_queue_def S v)
    also have "\<dots> = ring_bytes m (unat (buf_addr c)) (chan_size c) ((unat (rt_tail c) + ?k) mod chan_size c) (chan_used c - ?k)"
      using False assms(2) by (intro ring_bytes_cong) (auto simp: chan_region_def)
    also have "\<dots> = drop ?k (chan_queue m c)" by (simp add: chan_queue_def drop_ring_bytes)
    also have "\<dots> = drop 1024 (chan_queue m c)" by (simp add: min_def chan_queue_def)
    finally show ?thesis using ok by simp
  qed
  then show "chan_ok lo hi ?c" "chan_queue m' ?c = drop 1024 (chan_queue m c)" by simp_all
qed

lemma queue_put:
  fixes d :: "byte list" and c :: rtt_channel
  assumes "chan_ok lo hi c"
  defines "k \<equiv> min (length d) (chan_size c - 1 - chan_used c)"
  assumes put: "\<And>x. x \<in> chan_region c \<Longrightarrow> m' x = ring_put (unat (buf_addr c)) (chan_size c) (unat (rt_head c)) (take k d) m x"
  defines "v \<equiv> of_nat ((unat (rt_head c) + k) mod chan_size c)"
  shows "chan_ok lo hi (c\<lparr>rt_head := v\<rparr>)" "chan_queue m' (c\<lparr>rt_head := v\<rparr>) = chan_queue m c @ take k d"
proof -
  let ?c = "c\<lparr>rt_head := v\<rparr>"
  have S: "chan_size ?c = chan_size c" by (simp add: chan_size_def)
  have "chan_ok lo hi ?c \<and> chan_queue m' ?c = chan_queue m c @ take k d"
  proof (cases "chan_size c = 0")
    case True
    then show ?thesis using S empty_queue by (simp add: chan_ok_def k_def)
  next
    case False
    note hd = chan_head_used [OF assms(1) False]
    have v: "unat v = (unat (rt_head c) + k) mod chan_size c" unfolding v_def by (rule unat_of_nat_mod [OF False])
    have ok: "chan_ok lo hi ?c"
      using assms(1) False S v chan_size_eq [OF False] by (auto simp: chan_ok_def word_less_nat_alt)
    have k: "length (take k d) = k" "chan_used c + k < chan_size c" using hd(2) by (auto simp: k_def)
    have "chan_used ?c = chan_used c + k"
      using v S False k(2) hd(1) by (intro chan_used_eqI [OF ok]) (auto simp: mod_add_left_eq add.assoc)
    then have "chan_queue m' ?c = ring_bytes m' (unat (buf_addr c)) (chan_size c) (unat (rt_tail c)) (chan_used c + k)"
      by (simp add: chan_queue_def S)
    also have "\<dots> = ring_bytes (ring_put (unat (buf_addr c)) (chan_size c) (unat (rt_head c)) (take k d) m)
        (unat (buf_addr c)) (chan_size c) (unat (rt_tail c)) (chan_used c + k)"
      using False put by (intro ring_bytes_cong) (auto simp: chan_region_def)
    also have "\<dots> = chan_queue m c @ take k d"
      using ring_put_bytes [of "chan_used c" "take k d" "chan_size c"] k unfolding chan_queue_def hd(1) by simp
    finally show ?thesis using ok by simp
  qed
  then show "chan_ok lo hi ?c" "chan_queue m' ?c = chan_queue m c @ take k d" by simp_all
qed


subsection \<open>A poll\<close>

context target_memory
begin

lemma up_step:
  assumes "good t" "linked lo hi (mem t) n r" "i < n"
  shows "\<exists>x r' t'. print_rtt ops i r t = Some (x, r', t') \<and> x \<noteq> RTT_ERR \<and> good t' \<and> linked lo hi (mem t') n r' \<and>
    queues (mem t') (unat (rtt_cbaddr r)) n = (queues (mem t) (unat (rtt_cbaddr r)) n)[i := drop 1024 (queues (mem t) (unat (rtt_cbaddr r)) n ! i)] \<and>
    rt_up r' = rt_up r @ take 1024 (queues (mem t) (unat (rtt_cbaddr r)) n ! i) \<and> rt_down r' = rt_down r \<and>
    (\<forall>j<n. capacity (mem t') (unat (rtt_cbaddr r)) j = capacity (mem t) (unat (rtt_cbaddr r)) j) \<and>
    bytes_at (mem t') (unat (rtt_cbaddr r)) 24 = bytes_at (mem t) (unat (rtt_cbaddr r)) 24"
proof -
  let ?cb = "unat (rtt_cbaddr r)"
  let ?c = "rtt_channels r ! i"
  note cb = linkedD(1-3) [OF assms(2,3)] and i = linkedD(4,5) [OF assms(2,3)] and b = linkedD(6,7) [OF assms(2,3)]
    and c = linkedD(8,9) [OF assms(2,3)]
  have tl: "rt_tail ?c = word_at (mem t) (?cb + 40 + 24 * i)" unfolding i(2) by (simp add: chan_at_def Let_def add.commute add.left_commute)
  define v :: u32 where "v = of_nat ((unat (rt_tail ?c) + min 1024 (chan_used ?c)) mod chan_size ?c)"
  define m' where "m' = write_at (?cb + 40 + 24 * i) (bytes_of_u32 v) (mem t)"
  obtain x t' where t': "print_rtt ops i r t = Some (x, (set_channel i (?c\<lparr>rt_tail := v\<rparr>) r)\<lparr>rt_up := rt_up r @ take 1024 (chan_queue (mem t) ?c)\<rparr>, t')"
    "x \<noteq> RTT_ERR" "good t'" "mem t' = m'"
    using print_rtt_takes [OF assms(1) c(1) i(1) b tl] unfolding v_def m'_def by blast
  have out: "m' y = mem t y" if "y < ?cb + 24 \<or> ?cb + 24 + 24 * n \<le> y" for y
    unfolding m'_def using that assms(3) by (intro write_at_outside) auto
  have reg: "m' y = mem t y" if "j < n" "y \<in> chan_region (chan_at (mem t) ?cb j)" for j y
    using linkedD(10) [OF assms(2) that(1)] that(2) by (intro out) auto
  have q: "chan_ok lo hi (?c\<lparr>rt_tail := v\<rparr>)" "chan_queue m' (?c\<lparr>rt_tail := v\<rparr>) = drop 1024 (chan_queue (mem t) ?c)"
    using queue_taken [OF c(1), of m' "mem t"] reg [OF assms(3)] i(2) unfolding v_def by auto
  have ch: "chan_at m' ?cb j = (if j = i then ?c\<lparr>rt_tail := v\<rparr> else chan_at (mem t) ?cb j)" for j
    unfolding m'_def chan_at_write i(2) ..
  note u = cblock_upd [OF cb(1) assms(3) q(1), of m', OF _ _ ch reg]
  have "queues (mem t) ?cb n ! i = chan_queue (mem t) ?c" using assms(3) i(2) by (simp add: queues_def)
  moreover have "linked lo hi m' n ((set_channel i (?c\<lparr>rt_tail := v\<rparr>) r)\<lparr>rt_up := rt_up r @ take 1024 (chan_queue (mem t) ?c)\<rparr>)"
    using u(1) i cb(2,3) ch by (auto simp: linked_def set_channel_def nth_list_update)
  moreover have "bytes_at m' ?cb 24 = bytes_at (mem t) ?cb 24" using out by (intro bytes_at_cong) auto
  ultimately show ?thesis using t' u(2,3) q(2) i(2) by (auto simp: set_channel_def)
qed

lemma down_step:
  assumes "good t" "linked lo hi (mem t) n r" "i < n"
  defines "k \<equiv> capacity (mem t) (unat (rtt_cbaddr r)) i - length (queues (mem t) (unat (rtt_cbaddr r)) n ! i)"
  shows "\<exists>x r' t'. read_rtt ops i r t = Some (x, r', t') \<and> x \<noteq> RTT_ERR \<and> good t' \<and> linked lo hi (mem t') n r' \<and>
    queues (mem t') (unat (rtt_cbaddr r)) n = (queues (mem t) (unat (rtt_cbaddr r)) n)[i := queues (mem t) (unat (rtt_cbaddr r)) n ! i @ take k (rt_down r)] \<and>
    rt_up r' = rt_up r \<and> rt_down r' = drop k (rt_down r) \<and>
    (\<forall>j<n. capacity (mem t') (unat (rtt_cbaddr r)) j = capacity (mem t) (unat (rtt_cbaddr r)) j) \<and>
    bytes_at (mem t') (unat (rtt_cbaddr r)) 24 = bytes_at (mem t) (unat (rtt_cbaddr r)) 24"
proof -
  let ?cb = "unat (rtt_cbaddr r)"
  let ?c = "rtt_channels r ! i"
  note cb = linkedD(1-3) [OF assms(2,3)] and i = linkedD(4,5) [OF assms(2,3)] and b = linkedD(6,7) [OF assms(2,3)]
    and c = linkedD(8,9) [OF assms(2,3)]
  have hd: "rt_head ?c = word_at (mem t) (?cb + 36 + 24 * i)" unfolding i(2) by (simp add: chan_at_def Let_def add.commute add.left_commute)
  define k' where "k' = min (length (rt_down r)) (chan_size ?c - 1 - chan_used ?c)"
  define v :: u32 where "v = of_nat ((unat (rt_head ?c) + k') mod chan_size ?c)"
  define m1 where "m1 = ring_put (unat (buf_addr ?c)) (chan_size ?c) (unat (rt_head ?c)) (take k' (rt_down r)) (mem t)"
  define m' where "m' = write_at (?cb + 36 + 24 * i) (bytes_of_u32 v) m1"
  obtain x t' where t': "read_rtt ops i r t = Some (x, set_channel i (?c\<lparr>rt_head := v\<rparr>) (r\<lparr>rt_down := drop k' (rt_down r)\<rparr>), t')"
    "x \<noteq> RTT_ERR" "good t'" "mem t' = m'"
    using read_rtt_puts [OF assms(1) c(1) i(1) b hd] unfolding v_def m'_def m1_def k'_def by blast
  have m1: "m1 y = mem t y" if "y \<notin> chan_region ?c" for y
  proof (cases "chan_size ?c = 0")
    case True
    then show ?thesis by (simp add: m1_def k'_def)
  next
    case False
    then show ?thesis unfolding m1_def using that chan_okD(3) [OF c(1)] by (intro ring_put_outside) (auto simp: chan_region_def)
  qed
  have out: "m' y = m1 y" if "y < ?cb + 24 \<or> ?cb + 24 + 24 * n \<le> y" for y
    unfolding m'_def using that assms(3) by (intro write_at_outside) auto
  have reg: "m' y = mem t y" if "j < n" "j \<noteq> i" "y \<in> chan_region (chan_at (mem t) ?cb j)" for j y
    using linkedD(10) [OF assms(2) that(1)] linkedD(11) [OF assms(2,3) that(1,2)] that(3) i(2) by (subst out) (auto intro!: m1)
  have own: "m' y = m1 y" if "y \<in> chan_region ?c" for y using c(2) that by (intro out) auto
  have q: "chan_ok lo hi (?c\<lparr>rt_head := v\<rparr>)" "chan_queue m' (?c\<lparr>rt_head := v\<rparr>) = chan_queue (mem t) ?c @ take k' (rt_down r)"
    using queue_put [OF c(1), of m' "rt_down r" "mem t"] own unfolding v_def m1_def k'_def by blast+
  have "chan_at m1 ?cb j = chan_at (mem t) ?cb j" if "j < n" for j
    using c(2) that by (intro chan_at_cong m1) auto
  then have ch: "chan_at m' ?cb j = (if j = i then ?c\<lparr>rt_head := v\<rparr> else chan_at (mem t) ?cb j)" if "j < n" for j
    using that assms(3) i(2) unfolding m'_def chan_at_write by simp
  note u = cblock_upd [OF cb(1) assms(3) q(1), of m', OF _ _ ch reg]
  have qi: "queues (mem t) ?cb n ! i = chan_queue (mem t) ?c" using assms(3) i(2) by (simp add: queues_def)
  have "k = chan_size ?c - 1 - chan_used ?c" unfolding k_def qi using i(2) by (simp add: capacity_def chan_queue_def)
  then have k: "take k' (rt_down r) = take k (rt_down r)" "drop k' (rt_down r) = drop k (rt_down r)" by (simp_all add: k'_def min_def)
  have "linked lo hi m' n (set_channel i (?c\<lparr>rt_head := v\<rparr>) (r\<lparr>rt_down := drop k' (rt_down r)\<rparr>))"
    using u(1) i cb(2,3) ch by (auto simp: linked_def set_channel_def nth_list_update)
  moreover have "bytes_at m' ?cb 24 = bytes_at (mem t) ?cb 24"
    using c(2) by (intro bytes_at_cong) (subst out, auto intro!: m1)
  ultimately show ?thesis using t' u(2,3) q(2) qi i(2) unfolding k by (auto simp: set_channel_def)
qed

end

text \<open>Between polls of a target whose control block has been found.\<close>

definition rtt_session :: "nat \<Rightarrow> nat \<Rightarrow> (nat \<Rightarrow> byte) \<Rightarrow> rtt \<Rightarrow> bool" where
  "rtt_session lo hi m r \<longleftrightarrow> rtt_wf r \<and> rtt_enabled r \<and> rtt_found r \<and> \<not> rtt_halt r \<and> rtt_cbaddr r \<noteq> 0 \<and>
     saved_cblock_header r = bytes_at m (unat (rtt_cbaddr r)) 24 \<and>
     cblock_ok lo hi m (unat (rtt_cbaddr r)) (unat (rtt_num_up_chan r) + unat (rtt_num_down_chan r))"

text \<open>The queues of the channels with what the host has received and sent, and what a poll should do to them.\<close>

definition rtt_view :: "(nat \<Rightarrow> byte) \<Rightarrow> rtt \<Rightarrow> byte list list \<times> byte list \<times> byte list" where
  "rtt_view m r = (queues m (unat (rtt_cbaddr r)) (unat (rtt_num_up_chan r) + unat (rtt_num_down_chan r)), rt_up r, rt_down r)"

definition fifo_poll :: "nat \<Rightarrow> nat \<Rightarrow> (nat \<Rightarrow> nat) \<Rightarrow> bool list \<Rightarrow> byte list list \<times> byte list \<times> byte list \<Rightarrow> byte list list \<times> byte list \<times> byte list" where
  "fifo_poll up n cap en = fold (fifo_step up cap) (filter (\<lambda>i. en ! i) [0..<n])"

context target_memory
begin

lemma io_refines:
  assumes "good t" "linked lo hi (mem t) n r" "set is \<subseteq> {0..<n}" "n \<le> length (rtt_channel_enabled r)"
    and "\<And>j. j < n \<Longrightarrow> capacity (mem t) (unat (rtt_cbaddr r)) j = cap j"
  shows "\<exists>b r' t'. rtt_io ops is busy False r t = Some (b, False, r', t') \<and> good t' \<and> linked lo hi (mem t') n r' \<and>
    (queues (mem t') (unat (rtt_cbaddr r)) n, rt_up r', rt_down r') =
      fold (fifo_step (unat (rtt_num_up_chan r)) cap) (filter (\<lambda>i. rtt_channel_enabled r ! i) is)
        (queues (mem t) (unat (rtt_cbaddr r)) n, rt_up r, rt_down r) \<and>
    bytes_at (mem t') (unat (rtt_cbaddr r)) 24 = bytes_at (mem t) (unat (rtt_cbaddr r)) 24"
  using assms
proof (induction "is" arbitrary: busy r t)
  case Nil
  then show ?case by simp
next
  case (Cons i "is")
  have i: "i < n" "i < length (rtt_channel_enabled r)" "i < length (rtt_channels r)"
    using Cons.prems(2-4) by (auto simp: linked_def)
  show ?case
  proof (cases "rtt_channel_enabled r ! i")
    case False
    then show ?thesis using Cons.IH [OF Cons.prems(1,2) _ Cons.prems(4,5), of busy] Cons.prems(3) i by auto
  next
    case True
    let ?cb = "unat (rtt_cbaddr r)" and ?r = "r\<lparr>rtt_flag_skip := (rt_flag (rtt_channels r ! i) = 0), rtt_flag_block := (rt_flag (rtt_channels r ! i) = 2)\<rparr>"
    have l: "linked lo hi (mem t) n ?r" using Cons.prems(2) by (simp add: linked_def)
    obtain x r1 t1 where s: "(if i < unat (rtt_num_up_chan r) then print_rtt ops i r t else read_rtt ops i ?r t) = Some (x, r1, t1)"
      "x \<noteq> RTT_ERR" "good t1" "linked lo hi (mem t1) n r1" "keeps r r1"
      "(queues (mem t1) ?cb n, rt_up r1, rt_down r1) = fifo_step (unat (rtt_num_up_chan r)) cap i (queues (mem t) ?cb n, rt_up r, rt_down r)"
      "\<And>j. j < n \<Longrightarrow> capacity (mem t1) ?cb j = cap j" "bytes_at (mem t1) ?cb 24 = bytes_at (mem t) ?cb 24"
    proof (cases "i < unat (rtt_num_up_chan r)")
      case True
      then show ?thesis using up_step [OF Cons.prems(1,2) i(1)] Cons.prems(5) that print_rtt_frame by fastforce
    next
      case False
      obtain x r1 t1 where d: "read_rtt ops i ?r t = Some (x, r1, t1)" "x \<noteq> RTT_ERR" "good t1" "linked lo hi (mem t1) n r1"
        "queues (mem t1) ?cb n = (queues (mem t) ?cb n)[i := queues (mem t) ?cb n ! i @ take (cap i - length (queues (mem t) ?cb n ! i)) (rt_down r)]"
        "rt_up r1 = rt_up r" "rt_down r1 = drop (cap i - length (queues (mem t) ?cb n ! i)) (rt_down r)"
        "\<forall>j<n. capacity (mem t1) ?cb j = capacity (mem t) ?cb j" "bytes_at (mem t1) ?cb 24 = bytes_at (mem t) ?cb 24"
        using down_step [OF Cons.prems(1) l i(1)] Cons.prems(5) [OF i(1)] by auto
      have "keeps r r1" using keeps_trans [OF keeps_upd(6) read_rtt_frame [OF d(1)]] .
      then show ?thesis using False d Cons.prems(5) by (intro that [of x r1 t1]) (simp_all add: Let_def)
    qed
    have k: "rtt_cbaddr r1 = rtt_cbaddr r" "rtt_channel_enabled r1 = rtt_channel_enabled r" "rtt_num_up_chan r1 = rtt_num_up_chan r"
      using s(5) by (simp_all add: keeps_def)
    have "rtt_io ops (i # is) busy False r t = rtt_io ops is (busy \<or> x = RTT_OK) False r1 t1"
      using True i s(1,2) by simp
    then show ?thesis using Cons.IH [OF s(3,4), of "busy \<or> x = RTT_OK"] Cons.prems(3,4) s(6-8) True unfolding k by auto
  qed
qed

lemma poll_refines:
  assumes "good t" "rtt_session lo hi (mem t) r" "rt_times r = now # ts" "poll_due now r"
  shows "\<exists>r' t'. poll_rtt ops fuel r t = Some (r', t') \<and> good t' \<and> rtt_session lo hi (mem t') r' \<and>
    rtt_view (mem t') r' = fifo_poll (unat (rtt_num_up_chan r)) (unat (rtt_num_up_chan r) + unat (rtt_num_down_chan r))
      (capacity (mem t) (unat (rtt_cbaddr r))) (rtt_channel_enabled r) (rtt_view (mem t) r)"
proof -
  define n where "n = unat (rtt_num_up_chan r) + unat (rtt_num_down_chan r)"
  let ?cb = "unat (rtt_cbaddr r)"
  let ?r = "r\<lparr>rt_times := ts\<rparr>"
  have s: "rtt_wf r" "rtt_enabled r" "rtt_found r" "\<not> rtt_halt r" "rtt_cbaddr r \<noteq> 0" "saved_cblock_header r = bytes_at (mem t) ?cb 24"
    "cblock_ok lo hi (mem t) ?cb n" using assms(2) by (simp_all add: rtt_session_def n_def)
  have n: "n \<le> 16" "length (rtt_channels r) = 16" "length (rtt_channel_enabled r) = 16" using s(1,3) by (simp_all add: rtt_wf_def n_def)
  have un: "unat (rtt_num_up_chan r + rtt_num_down_chan r) = n" using n(1) by (simp add: unat_word_ariths n_def)
  have cb: "lo \<le> ?cb" "?cb + 24 + 24 * n \<le> hi" using s(7) by (simp_all add: cblock_ok_def)
  have ua: "unat (rtt_cbaddr r + 24) = ?cb + 24" using unat_plus [of "rtt_cbaddr r" 24] cb(2) by simp
  obtain t1 where t1: "target_mem_read ops (replicate 24 0) (rtt_cbaddr r) 24 t = Some (False, bytes_at (mem t) ?cb 24, t1)" "good t1" "mem t1 = mem t"
    using mem_read [OF assms(1), of "rtt_cbaddr r" 24 "replicate 24 0"] cb by auto
  have ck: "check_cblock ops ?r t = Some (?r, t1)" using s(3,6) t1(1) by (simp add: check_cblock_def)
  let ?d = "concat (map channel_bytes (take n (rtt_channels r)))"
  have d: "length ?d = 24 * n" using n length_channels [of "take n (rtt_channels r)"] by simp
  obtain t2 where t2: "target_mem_read ops ?d (rtt_cbaddr r + 24) (24 * n) t1 = Some (False, bytes_at (mem t) (?cb + 24) (24 * n), t2)"
    "good t2" "mem t2 = mem t"
    using mem_read [OF t1(2), of "rtt_cbaddr r + 24" "24 * n" ?d] cb ua t1(3) d by auto
  define r2 where "r2 = ?r\<lparr>rtt_channels := map (chan_at (mem t) ?cb) [0..<n] @ drop n (rtt_channels r)\<rparr>"
  have pm: "map (parse_channel (bytes_at (mem t) (?cb + 24) (24 * n))) [0..<n] = map (chan_at (mem t) ?cb) [0..<n]"
    by (simp add: parse_channel_at)
  have tr: "rtt_transfer ops ?r t1 = rtt_io ops [0..<n] False False r2 t2"
    using s(3,5) t2(1) n(1) un unfolding r2_def pm [symmetric] by (simp add: rtt_transfer_def Let_def)
  have l: "linked lo hi (mem t2) n r2" using s(7) t2(3) n by (simp add: linked_def r2_def nth_append)
  obtain b r3 t3 where io: "rtt_io ops [0..<n] False False r2 t2 = Some (b, False, r3, t3)" "good t3" "linked lo hi (mem t3) n r3"
    "(queues (mem t3) ?cb n, rt_up r3, rt_down r3) = fifo_poll (unat (rtt_num_up_chan r)) n (capacity (mem t) ?cb) (rtt_channel_enabled r)
        (queues (mem t) ?cb n, rt_up r, rt_down r)"
    "bytes_at (mem t3) ?cb 24 = bytes_at (mem t) ?cb 24"
    using io_refines [OF t2(2) l, of "[0..<n]" "capacity (mem t) ?cb" False] n t2(3) unfolding fifo_poll_def by (auto simp: r2_def)
  have k: "keeps r r3" using rtt_io_frame [OF io(1)] n by (simp add: keeps_def r2_def)
  let ?r' = "count_errors False ((r3\<lparr>last_poll_ms := now\<rparr>)\<lparr>poll_ms := poll_pace (b \<and> \<not> False) (r3\<lparr>last_poll_ms := now\<rparr>)\<rparr>)"
  have rs: "poll_rtt ops fuel r t = Some (?r', t3)"
    using assms(3,4) s(2-4) ck tr io(1) by (simp add: poll_rtt_def poll_round_def poll_due_def rtt_halt_target_def Let_def)
  then have "rtt_wf ?r'" by (rule poll_rtt_keeps_wf [OF _ s(1)])
  then have "rtt_session lo hi (mem t3) ?r'" using k s io(3,5) by (simp add: rtt_session_def count_errors_def keeps_def linked_def n_def)
  moreover have "rtt_view (mem t3) ?r' = (queues (mem t3) ?cb n, rt_up r3, rt_down r3)"
    using k by (simp add: rtt_view_def count_errors_def keeps_def n_def)
  ultimately show ?thesis using rs io(2,4) by (auto simp: rtt_view_def n_def)
qed

end

end
