(* ===== verification/Rtt_Bounds.thy ===== *)
theory Rtt_Bounds
  imports Rtt_Fifo
begin

text \<open>
  Polling is safe with any target. Over the contract target_answers, which promises nothing about what memory
  holds or which accesses fail, a poll runs to its end, every access stays inside the buffer it is given, and
  the tables of src/rtt.c stay within their sixteen channels. The search needs a range that ends 128 bytes below
  the end of the address space, or it never ends, and fuel for its steps of at least 63 bytes.
\<close>

definition range_ok :: "nat \<Rightarrow> u32 \<Rightarrow> u32 \<Rightarrow> bool" where
  "range_ok fuel a e \<longleftrightarrow> unat e + 128 \<le> 2 ^ 32 \<and> unat e \<le> unat a + 63 * fuel"

definition search_ok :: "nat \<Rightarrow> rtt \<Rightarrow> 'h target_scheme \<Rightarrow> bool" where
  "search_ok fuel r tg \<longleftrightarrow>
     (if rtt_flag_ram r then range_ok fuel (rtt_ram_start r) (rtt_ram_end r)
      else list_all (\<lambda>m. range_ok fuel (ram_start m) (ram_start m + ram_length m)) (t_ram tg))"

text \<open>The state between polls: the tables are well-formed, the saved header has its 24 bytes, the target is one
  whose memory is read while it runs, and the ranges to be searched are good.\<close>

definition rtt_safe :: "nat \<Rightarrow> rtt \<Rightarrow> 'h target_scheme \<Rightarrow> bool" where
  "rtt_safe fuel r tg \<longleftrightarrow> rtt_wf r \<and> length (saved_cblock_header r) = 24 \<and> \<not> rtt_halt r \<and>
     \<not> target_mem_access_needs_halt tg \<and> search_ok fuel r tg"

definition stable :: "rtt \<Rightarrow> rtt \<Rightarrow> bool" where
  "stable r r' \<longleftrightarrow> length (saved_cblock_header r') = length (saved_cblock_header r) \<and> rtt_halt r' = rtt_halt r \<and>
     rtt_flag_ram r' = rtt_flag_ram r \<and> rtt_ram_start r' = rtt_ram_start r \<and> rtt_ram_end r' = rtt_ram_end r"

lemma stable_refl [simp]: "stable r r"
  by (simp add: stable_def)

lemma stable_trans [trans]: "stable r s \<Longrightarrow> stable s t \<Longrightarrow> stable r t"
  by (simp add: stable_def)

lemma keeps_stable: "keeps r r' \<Longrightarrow> stable r r'"
  by (simp add: keeps_def stable_def)

lemma range_ok_step:
  assumes "range_ok (Suc fuel) a e" "a < e" "63 \<le> unat d" "unat d \<le> 128"
  shows "range_ok fuel (a + d) e"
proof -
  have "unat a < unat e" using assms(2) by (simp add: word_less_nat_alt)
  then have "unat (a + d) = unat a + unat d" using assms(1,4) by (simp add: range_ok_def unat_word_ariths)
  then show ?thesis using assms(1,3) by (simp add: range_ok_def)
qed

lemma range_end: "range_ok 0 a e \<Longrightarrow> \<not> a < e"
  by (simp add: range_ok_def word_less_nat_alt)

lemma unsigned_less_word32: "unat (v :: u32) < 2 ^ 32"
  using unsigned_less [of v] by simp

lemma channels_length: "n \<le> length cs \<Longrightarrow> length (concat (map channel_bytes (take n cs))) = 24 * n"
proof (induction cs arbitrary: n)
  case (Cons c cs)
  then show ?case by (cases n) (simp_all add: channel_bytes_def)
qed simp

lemma padded_len:
  fixes len src :: u32
  assumes "unat len \<le> 1024" "off = src AND 3" "len0 = (if (len + off) AND 3 \<noteq> 0 then (len + off + 4) AND NOT 3 else len + off)"
  shows "unat len0 \<le> unat len + 6" "unat off \<le> 3" "unat off + unat len \<le> unat len0"
proof -
  have o: "unat off \<le> 3" using unat_and_3 [of src] assms(2) by simp
  have u: "unat (len + off) = unat len + unat off" using assms(1) o by (simp add: unat_word_ariths)
  then have "unat len0 = round4 (unat len + unat off)" using round_up_word [of "len + off"] assms(1,3) o by simp
  then show "unat len0 \<le> unat len + 6" "unat off + unat len \<le> unat len0" using round4_le [of "unat len + unat off"] o by (simp_all add: round4_def)
qed (use unat_and_3 [of src] assms(2) in simp)

context target_answers
begin

subsection \<open>The search\<close>

lemma fast_search_answers:
  assumes "good t" "length b = 144" "range_ok fuel a e"
  shows "\<exists>x r' t'. fast_search_loop ops fuel a e b h r t = Some (x, r', t') \<and> follows t t'"
  using assms
proof (induction fuel arbitrary: a b h r t)
  case 0
  then show ?case using range_end by (auto intro: follows_refl)
next
  case (Suc fuel)
  show ?case
  proof (cases "a < e")
    case True
    let ?n = "unat (min 128 (e - a))" and ?b = "take 16 (drop 128 b) @ drop 16 b"
    have n: "?n \<le> 128" by (simp add: min_def word_le_nat_alt)
    then have d: "?n \<le> length (drop 16 ?b)" "?n < 2 ^ 32" using Suc.prems(2) by simp_all
    obtain err dat t1 where t1: "target_mem_read ops (drop 16 ?b) a ?n t = Some (err, dat, t1)" "length dat = length (drop 16 ?b)" "follows t t1"
      using read_follows [OF Suc.prems(1) d] by blast
    have l: "length (take 16 ?b @ dat) = 144" using Suc.prems(2) t1(2) by simp
    have "range_ok fuel (a + 128) e" by (rule range_ok_step [OF Suc.prems(3) True]) simp_all
    then have "\<exists>x r' t'. fast_search_loop ops fuel (a + 128) e (take 16 ?b @ dat) h' r t1 = Some (x, r', t') \<and> follows t t'" for h'
      using Suc.IH [OF follows_good [OF t1(3)] l, of "a + 128" h' r] follows_trans [OF t1(3)] by blast
    then show ?thesis using t1(1,3) True
      by (auto simp: Let_def split: sum.split)
  qed (use Suc.prems(1) in \<open>auto intro: follows_refl\<close>)
qed

lemma memory_search_answers:
  assumes "good t" "length s \<le> 64" "range_ok fuel a e"
  shows "\<exists>x r' t'. memory_search_loop ops s fuel a e r t = Some (x, r', t') \<and> follows t t'"
  using assms(1,3)
proof (induction fuel arbitrary: a r t)
  case 0
  then show ?case using range_end by (auto intro: follows_refl)
next
  case (Suc fuel)
  show ?case
  proof (cases "a < e")
    case True
    let ?n = "unat (min (e - a) 128)" and ?a = "a + (128 - of_nat (length s) - 1)"
    have n: "?n \<le> length (replicate 128 (0 :: byte))" by (simp add: min_def word_le_nat_alt)
    then have d: "?n < 2 ^ 32" by simp
    obtain err dat t1 where t1: "target_mem_read ops (replicate 128 0) a ?n t = Some (err, dat, t1)" "follows t t1"
      using read_follows [OF Suc.prems(1) n d] by blast
    have "unat (128 - of_nat (length s) - 1 :: u32) = 127 - length s" using assms(2) by (simp add: unat_sub_if' unat_of_nat)
    then have "range_ok fuel ?a e" by (intro range_ok_step [OF Suc.prems(2) True]) (use assms(2) in simp_all)
    then have "\<exists>x r' t'. memory_search_loop ops s fuel ?a e r'' t1 = Some (x, r', t') \<and> follows t t'" for r''
      using Suc.IH [OF follows_good [OF t1(2)], of ?a r''] follows_trans [OF t1(2)] by blast
    then show ?thesis using t1 True by (auto simp: Let_def split: option.split)
  qed (use Suc.prems(1) in \<open>auto intro: follows_refl\<close>)
qed

lemma search_range_answers:
  assumes "good t" "range_ok fuel a e"
  shows "\<exists>x r' t'. search_range ops fuel a e r t = Some (x, r', t') \<and> follows t t'"
  using fast_search_answers [OF assms(1) _ assms(2), of "replicate 144 0" 0 r] memory_search_answers [OF assms(1) _ assms(2), of "rtt_ident_str r" r]
    follows_refl [OF assms(1)]
  by (auto simp: search_range_def fast_search_def memory_search_def Let_def)

lemma search_ram_answers:
  assumes "good t" "list_all (\<lambda>m. range_ok fuel (ram_start m) (ram_start m + ram_length m)) ms"
  shows "\<exists>x r' t'. search_ram ops fuel ms r t = Some (x, r', t') \<and> follows t t'"
  using assms
proof (induction ms arbitrary: r t)
  case (Cons m ms)
  obtain x r1 t1 where 1: "search_range ops fuel (ram_start m) (ram_start m + ram_length m) r t = Some (x, r1, t1)" "follows t t1"
    using search_range_answers [OF Cons.prems(1)] Cons.prems(2) by fastforce
  obtain y r2 t2 where "search_ram ops fuel ms r1 t1 = Some (y, r2, t2)" "follows t1 t2"
    using Cons.IH [OF follows_good [OF 1(2)]] Cons.prems(2) by fastforce
  then show ?case using 1 follows_trans [OF 1(2)] by (cases "x = 0") auto
qed (auto intro: follows_refl)

lemma search_cblock_answers:
  assumes "good t" "search_ok fuel r t"
  shows "\<exists>x r' t'. search_cblock ops fuel r t = Some (x, r', t') \<and> follows t t'"
  using assms search_range_answers [OF assms(1)] search_ram_answers [OF assms(1)] by (auto simp: search_cblock_def search_ok_def split: if_splits)

lemma accept_answers:
  assumes "good t" "length (saved_cblock_header r) = 24"
  shows "\<exists>r' t'. accept_cblock ops r t = Some (r', t') \<and> follows t t' \<and> stable r r'"
proof -
  obtain err nb t1 where 1: "target_mem_read ops (replicate 8 0) (rtt_cbaddr r + 16) 8 t = Some (err, nb, t1)" "follows t t1"
    using read_follows [OF assms(1), of 8 "replicate 8 0" "rtt_cbaddr r + 16"] by simp blast
  obtain err' hdr t2 where 2: "target_mem_read ops (saved_cblock_header r) (rtt_cbaddr r) 24 t1 = Some (err', hdr, t2)" "length hdr = 24" "follows t1 t2"
    using read_follows [OF follows_good [OF 1(2)], of 24 "saved_cblock_header r" "rtt_cbaddr r"] assms(2) by auto
  obtain up down where c: "channel_counts (u32_at nb 0) (u32_at nb 4) = (up, down)" by fastforce
  show ?thesis using 1 2 follows_trans [OF 1(2) 2(3)] assms(2)
    by (auto simp: accept_cblock_def c Let_def stable_def rt_out_def)
qed

lemma find_answers:
  assumes "good t" "search_ok fuel r t" "length (saved_cblock_header r) = 24"
  shows "\<exists>r' t'. find_rtt ops fuel r t = Some (r', t') \<and> follows t t' \<and> stable r r'"
proof (cases "rtt_enabled r")
  case False
  then show ?thesis using follows_refl [OF assms(1)] by (auto simp: find_rtt_def stable_def)
next
  case True
  let ?r = "r\<lparr>rtt_found := False, poll_ms := rtt_max_poll_ms r, poll_errs := 0, last_poll_ms := 0, rtt_cbaddr := 0\<rparr>"
  have "search_ok fuel ?r t" using assms(2) by (simp add: search_ok_def)
  then obtain x r1 t1 where 1: "search_cblock ops fuel ?r t = Some (x, r1, t1)" "follows t t1" using search_cblock_answers [OF assms(1)] by blast
  have s: "stable r (r1\<lparr>rtt_cbaddr := x\<rparr>)" using search_cblock_frame [OF 1(1)] by (simp add: keeps_def stable_def)
  obtain r2 t2 where 2: "accept_cblock ops (r1\<lparr>rtt_cbaddr := x\<rparr>) t1 = Some (r2, t2)" "follows t1 t2" "stable (r1\<lparr>rtt_cbaddr := x\<rparr>) r2"
    using accept_answers [OF follows_good [OF 1(2)], of "r1\<lparr>rtt_cbaddr := x\<rparr>"] s assms(3) by (auto simp: stable_def)
  show ?thesis using True 1 2(1) s stable_trans [OF s 2(3)] follows_trans [OF 1(2) 2(2)] by (cases "x = 0") (auto simp: find_rtt_def Let_def)
qed

subsection \<open>The transfers\<close>

lemma aligned_read_answers:
  assumes "good t" "unat len \<le> 1024" "unat len + 6 \<le> length dest"
  shows "\<exists>err dat t'. rtt_aligned_mem_read ops dest src len t = Some (err, dat, t') \<and> length dat = length dest \<and> follows t t'"
proof -
  define off where "off = src AND 3"
  define len0 where "len0 = (if (len + off) AND 3 \<noteq> 0 then (len + off + 4) AND NOT 3 else len + off)"
  have p: "unat len0 \<le> unat len + 6" "unat off \<le> 3" "unat off + unat len \<le> unat len0" using padded_len [OF assms(2) off_def len0_def] by blast+
  have eq: "rtt_aligned_mem_read ops dest src len t =
      (if src - off = src \<and> len0 = len then target_mem_read ops dest src (unat len) t
       else if length dest < unat len0 then None
       else do { (err, dest, tg) \<leftarrow> target_mem_read ops dest (src - off) (unat len0) t;
                 Some (err, take (unat len) (drop (unat off) dest) @ drop (unat len) dest, tg) })"
    unfolding rtt_aligned_mem_read_def Let_def off_def len0_def by (rule refl)
  obtain e1 d1 t1 where 1: "target_mem_read ops dest src (unat len) t = Some (e1, d1, t1)" "length d1 = length dest" "follows t t1"
    using read_follows [OF assms(1), of "unat len" dest src] assms(2,3) by (metis add_leD1 unsigned_less_word32)
  obtain e2 d2 t2 where 2: "target_mem_read ops dest (src - off) (unat len0) t = Some (e2, d2, t2)" "length d2 = length dest" "follows t t2"
    using read_follows [OF assms(1), of "unat len0" dest "src - off"] p(1) assms(3) by (metis order.trans unsigned_less_word32)
  show ?thesis unfolding eq using 1 2 p assms(3) by (simp add: not_less)
qed

lemma print_part_answers:
  assumes "good t" "unat len + n \<le> 1024" "length xb = 1032"
  shows "\<exists>p t'. print_part ops c len xb n t = Some (p, t') \<and> follows t t' \<and>
    (\<forall>c' xb' n'. p = Some (c', xb', n') \<longrightarrow> length xb' = 1032 \<and> n' \<le> 1024)"
proof -
  obtain err dat t' where "rtt_aligned_mem_read ops (drop n xb) (buf_addr c + rt_tail c) len t = Some (err, dat, t')"
    "length dat = length (drop n xb)" "follows t t'"
    using aligned_read_answers [OF assms(1), of len "drop n xb"] assms(2,3) by fastforce
  then show ?thesis using assms(2,3) by (auto simp: print_part_def)
qed

lemma print_parts_answers:
  assumes "good t"
  shows "\<exists>c' p t'. print_parts ops c t = Some (c', p, t') \<and> follows t t'"
proof -
  let ?xb = "replicate RTT_UP_BUF_SIZE (0 :: byte)"
  have m: "unat (min x (1024 :: u32)) + 0 \<le> 1024" for x by (simp add: min_def word_le_nat_alt)
  obtain p t1 where 1: "(if rt_tail c > rt_head c then print_part ops c (min (buf_size c - rt_tail c) 1024) ?xb 0 t
      else Some (Some (c, ?xb, 0), t)) = Some (p, t1)" "follows t t1"
      "\<forall>c' xb' n'. p = Some (c', xb', n') \<longrightarrow> length xb' = 1032 \<and> n' \<le> 1024"
    using print_part_answers [OF assms m, of ?xb c] follows_refl [OF assms] by (cases "rt_tail c > rt_head c") fastforce+
  show ?thesis
  proof (cases p)
    case None
    then show ?thesis using 1(1,2) unfolding print_parts_def by (simp only: Option.bind.bind_lunit) auto
  next
    case (Some q)
    obtain c1 xb n where q: "q = (c1, xb, n)" by (cases q)
    have n: "length xb = 1032" "n \<le> 1024" using 1(3) Some q by auto
    have "unat (1024 - of_nat n :: u32) = 1024 - n" using n(2) by (simp add: unat_sub_if' unat_of_nat)
    then have m2: "unat (min x (1024 - of_nat n :: u32)) + n \<le> 1024" for x using n(2) by (auto simp: min_def word_le_nat_alt)
    obtain p2 t2 where 2: "(if rt_head c1 > rt_tail c1 \<and> n < 1024 then print_part ops c1 (min (rt_head c1 - rt_tail c1) (1024 - of_nat n)) xb n t1
        else Some (Some (c1, xb, n), t1)) = Some (p2, t2)" "follows t1 t2"
    proof (cases "rt_head c1 > rt_tail c1 \<and> n < 1024")
      case True
      then show ?thesis using that print_part_answers [OF follows_good [OF 1(2)] m2 n(1), of c1 "rt_head c1 - rt_tail c1"] by auto
    next
      case False
      then show ?thesis using follows_refl [OF follows_good [OF 1(2)]] by (intro that [of "Some (c1, xb, n)" t1]) auto
    qed
    show ?thesis using follows_trans [OF 1(2) 2(2)] unfolding print_parts_def 1(1) Some q Option.bind.bind_lunit prod.case option.case 2(1)
      by (auto split: option.split)
  qed
qed

lemma print_rtt_answers:
  assumes "good t" "i < length (rtt_channels r)"
  shows "\<exists>x r' t'. print_rtt ops i r t = Some (x, r', t') \<and> follows t t'"
proof -
  obtain c p t1 where 1: "print_parts ops (rtt_channels r ! i) t = Some (c, p, t1)" "follows t t1" using print_parts_answers [OF assms(1)] by blast
  obtain err t2 where 2: "target_mem_write ops (rtt_cbaddr r + 24 + of_nat i * 24 + 16) (bytes_of_u32 (rt_tail c)) 4 t1 = Some (err, t2)" "follows t1 t2"
    using write_follows [OF follows_good [OF 1(2)], of 4 "bytes_of_u32 (rt_tail c)"] by simp blast
  have cb: "rtt_cbaddr (set_channel i c r) = rtt_cbaddr r" by (simp add: set_channel_def)
  show ?thesis using assms(2) 1 2 follows_refl [OF assms(1)] follows_trans [OF 1(2) 2(2)]
    by (auto simp: print_rtt_def Let_def cb split: option.split)
qed

lemma read_rtt_loop_answers:
  assumes "good t"
  shows "\<exists>ok r' t'. read_rtt_loop ops i r t = Some (ok, r', t') \<and> follows t t'"
  using assms
proof (induction "length (rt_down r)" arbitrary: r t)
  case 0
  then have "read_rtt_loop ops i r t = Some (True, r, t)" by (subst read_rtt_loop.simps) (simp add: Let_def)
  then show ?case using follows_refl [OF 0(2)] by blast
next
  case (Suc n)
  then obtain ch rest where d: "rt_down r = ch # rest" by (cases "rt_down r") auto
  let ?c = "rtt_channels r ! i"
  obtain err t1 where 1: "target_mem_write ops (buf_addr ?c + rt_head ?c) [ch] 1 t = Some (err, t1)" "follows t t1"
    using write_follows [OF Suc.prems, of 1 "[ch]" "buf_addr ?c + rt_head ?c"] by auto
  have "\<exists>ok r' t'. read_rtt_loop ops i (set_channel i c (r\<lparr>rt_down := rest\<rparr>)) t1 = Some (ok, r', t') \<and> follows t t'" for c
    using Suc.hyps(1) [OF _ follows_good [OF 1(2)], of "set_channel i c (r\<lparr>rt_down := rest\<rparr>)"] Suc.hyps(2) d follows_trans [OF 1(2)]
    by (fastforce simp: set_channel_def)
  then show ?case using 1 d follows_refl [OF Suc.prems] by (subst read_rtt_loop.simps) (auto simp: Let_def)
qed

lemma read_rtt_answers:
  assumes "good t" "i < length (rtt_channels r)"
  shows "\<exists>x r' t'. read_rtt ops i r t = Some (x, r', t') \<and> follows t t'"
proof -
  obtain ok r1 t1 where 1: "read_rtt_loop ops i r t = Some (ok, r1, t1)" "follows t t1" using read_rtt_loop_answers [OF assms(1)] by blast
  obtain err t2 where 2: "target_mem_write ops (rtt_cbaddr r1 + 24 + of_nat i * 24 + 12) (bytes_of_u32 (rt_head (rtt_channels r1 ! i))) 4 t1 = Some (err, t2)" "follows t1 t2"
    using write_follows [OF follows_good [OF 1(2)], of 4 "bytes_of_u32 (rt_head (rtt_channels r1 ! i))"] by simp blast
  show ?thesis using assms(2) 1 2 follows_refl [OF assms(1)] follows_trans [OF 1(2) 2(2)] by (auto simp: read_rtt_def Let_def)
qed

lemma rtt_io_answers:
  assumes "good t" "length (rtt_channels r) = 16" "length (rtt_channel_enabled r) = 16" "\<forall>i\<in>set is. i < 16"
  shows "\<exists>b e r' t'. rtt_io ops is busy err r t = Some (b, e, r', t') \<and> follows t t'"
  using assms
proof (induction "is" arbitrary: busy err r t)
  case (Cons i "is")
  show ?case
  proof (cases "rtt_channel_enabled r ! i")
    case False
    then show ?thesis using Cons.IH [OF Cons.prems(1-3), of busy err] Cons.prems by simp
  next
    case True
    let ?r = "r\<lparr>rtt_flag_skip := (rt_flag (rtt_channels r ! i) = 0), rtt_flag_block := (rt_flag (rtt_channels r ! i) = 2)\<rparr>"
    let ?step = "if i < unat (rtt_num_up_chan r) then print_rtt ops i r t else read_rtt ops i ?r t"
    have i: "i < length (rtt_channels r)" "i < length (rtt_channels ?r)" using Cons.prems by simp_all
    obtain x r1 t1 where 1: "?step = Some (x, r1, t1)" "follows t t1"
      using print_rtt_answers [OF Cons.prems(1) i(1)] read_rtt_answers [OF Cons.prems(1) i(2)] by (cases "i < unat (rtt_num_up_chan r)") auto
    have "keeps r r1"
      using 1(1) print_rtt_frame [of ops i r t] keeps_trans [OF keeps_upd(6) read_rtt_frame [of ops i ?r t]]
      by (cases "i < unat (rtt_num_up_chan r)") simp_all
    then have "length (rtt_channels r1) = 16" "length (rtt_channel_enabled r1) = 16" using Cons.prems(2,3) by (simp_all add: keeps_def)
    from Cons.IH [OF follows_good [OF 1(2)] this, of "busy \<or> x = RTT_OK" "err \<or> x = RTT_ERR"] Cons.prems(4)
    obtain b e r2 t2 where "rtt_io ops is (busy \<or> x = RTT_OK) (err \<or> x = RTT_ERR) r1 t1 = Some (b, e, r2, t2)" "follows t1 t2" by auto
    moreover have "rtt_io ops (i # is) busy err r t = do { (result, r, tg) \<leftarrow> ?step; rtt_io ops is (busy \<or> result = RTT_OK) (err \<or> result = RTT_ERR) r tg }"
      using True i Cons.prems(3,4) by simp
    ultimately show ?thesis using follows_trans [OF 1(2)] unfolding 1(1) by auto
  qed
qed (auto intro: follows_refl)

lemma check_answers:
  assumes "good t"
  shows "\<exists>r' t'. check_cblock ops r t = Some (r', t') \<and> follows t t' \<and> stable r r'"
proof -
  obtain err hdr t1 where "target_mem_read ops (replicate 24 0) (rtt_cbaddr r) 24 t = Some (err, hdr, t1)" "follows t t1"
    using read_follows [OF assms, of 24 "replicate 24 0" "rtt_cbaddr r"] by auto
  then show ?thesis using follows_refl [OF assms] by (auto simp: check_cblock_def stable_def)
qed

lemma transfer_answers:
  assumes "good t" "rtt_wf r"
  shows "\<exists>b e r' t'. rtt_transfer ops r t = Some (b, e, r', t') \<and> follows t t' \<and> stable r r'"
proof (cases "rtt_found r \<and> rtt_cbaddr r \<noteq> 0")
  case False
  then show ?thesis using follows_refl [OF assms(1)] by (auto simp: rtt_transfer_def)
next
  case True
  define n where "n = unat (rtt_num_up_chan r + rtt_num_down_chan r)"
  have n: "n \<le> 16" using True assms(2) by (simp add: rtt_wf_def n_def unat_word_ariths)
  have c: "length (rtt_channels r) = 16" "length (rtt_channel_enabled r) = 16" using assms(2) by (simp_all add: rtt_wf_def)
  let ?dest = "concat (map channel_bytes (take n (rtt_channels r)))"
  have "24 * n \<le> length ?dest" "24 * n < 2 ^ 32" using channels_length [of n "rtt_channels r"] n c(1) by simp_all
  then obtain err bs t1 where 1: "target_mem_read ops ?dest (rtt_cbaddr r + 24) (24 * n) t = Some (err, bs, t1)" "follows t t1"
    using read_follows [OF assms(1)] by blast
  let ?r = "r\<lparr>rtt_channels := map (parse_channel bs) [0..<n] @ drop n (rtt_channels r)\<rparr>"
  have l: "length (rtt_channels ?r) = 16" "length (rtt_channel_enabled ?r) = 16" "\<forall>i\<in>set [0..<n]. i < 16" using n c by simp_all
  obtain b e r2 t2 where 2: "rtt_io ops [0..<n] False False ?r t1 = Some (b, e, r2, t2)" "follows t1 t2"
    using rtt_io_answers [OF follows_good [OF 1(2)] l] by blast
  have "stable r r2" using keeps_stable [OF rtt_io_frame [OF 2(1)]] by (simp add: stable_def)
  moreover have "stable r (read_fail (rtt_cbaddr r + 24) ?r)" by (simp add: stable_def read_fail_def rt_out_def)
  ultimately show ?thesis using True n 1 2 follows_trans [OF 1(2) 2(2)]
    unfolding rtt_transfer_def n_def [symmetric] Let_def by auto
qed

subsection \<open>A poll\<close>

lemma round_answers:
  assumes "good t" "rtt_safe fuel r t"
  shows "\<exists>r' t'. poll_round ops fuel now r t = Some (r', t') \<and> follows t t' \<and> stable r r'"
proof -
  let ?r = "if rtt_found r then r else r\<lparr>rtt_halt := target_mem_access_needs_halt t\<rparr>"
  have r: "\<not> rtt_halt ?r" "rtt_wf ?r" "stable r ?r" "search_ok fuel ?r t" "length (saved_cblock_header ?r) = 24"
    using assms(2) by (auto simp: rtt_safe_def rtt_wf_def stable_def search_ok_def)
  obtain r1 t1 where 1: "(if rtt_found ?r then Some (?r, t) else find_rtt ops fuel ?r t) = Some (r1, t1)" "follows t t1" "stable r r1" "rtt_wf r1"
  proof (cases "rtt_found ?r")
    case True
    show ?thesis by (rule that [of ?r t]) (use True r follows_refl [OF assms(1)] in simp_all)
  next
    case False
    obtain r1 t1 where "find_rtt ops fuel ?r t = Some (r1, t1)" "follows t t1" "stable ?r r1" using find_answers [OF assms(1) r(4,5)] by blast
    moreover have "rtt_wf r1" by (rule find_rtt_wf [OF calculation(1) r(2)])
    moreover have "stable r r1" by (rule stable_trans [OF r(3) calculation(3)])
    ultimately show ?thesis using False by (intro that [of r1 t1]) (simp_all only: if_False)
  qed
  obtain r2 t2 where 2: "check_cblock ops r1 t1 = Some (r2, t2)" "follows t1 t2" "stable r1 r2" using check_answers [OF follows_good [OF 1(2)]] by blast
  obtain b e r3 t3 where 3: "rtt_transfer ops r2 t2 = Some (b, e, r3, t3)" "follows t2 t3" "stable r2 r3"
    using transfer_answers [OF follows_good [OF 2(2)] check_cblock_wf [OF 2(1) 1(4)]] by blast
  let ?r4 = "(r3\<lparr>last_poll_ms := now\<rparr>)\<lparr>poll_ms := poll_pace (b \<and> \<not> e) (r3\<lparr>last_poll_ms := now\<rparr>)\<rparr>"
  have h: "rtt_halt_target ops fuel ?r t = Some (False, t)" using r(1) by (simp add: rtt_halt_target_def)
  have "poll_round ops fuel now r t = Some (count_errors e ?r4, t3)"
    unfolding poll_round_def Let_def h Option.bind.bind_lunit prod.case 1(1) 2(1) 3(1) by simp
  moreover have "stable r3 (count_errors e ?r4)" by (simp add: count_errors_def stable_def rt_out_def Let_def)
  ultimately have "\<exists>r'. poll_round ops fuel now r t = Some (r', t3) \<and> stable r3 r'" by blast
  then show ?thesis using follows_trans [OF 1(2) follows_trans [OF 2(2) 3(2)]] stable_trans [OF 1(3) stable_trans [OF 2(3) 3(3)]] stable_trans by blast
qed

lemma poll_answers:
  assumes "good t" "rtt_safe fuel r t"
  shows "\<exists>r' t'. poll_rtt ops fuel r t = Some (r', t') \<and> good t' \<and> rtt_safe fuel r' t'"
proof -
  let ?now = "case rt_times r of [] \<Rightarrow> 0 | x # xs \<Rightarrow> x" and ?r = "r\<lparr>rt_times := tl (rt_times r)\<rparr>"
  have r: "rtt_safe fuel ?r t" "stable r ?r" using assms(2) by (simp_all add: rtt_safe_def rtt_wf_def search_ok_def stable_def)
  obtain r1 t1 where "poll_round ops fuel ?now ?r t = Some (r1, t1)" "follows t t1" "stable r r1"
    using round_answers [OF assms(1) r(1)] stable_trans [OF r(2)] by blast
  then have "\<exists>r' t'. poll_rtt ops fuel r t = Some (r', t') \<and> follows t t' \<and> stable r r'"
    using follows_refl [OF assms(1)] r(2) unfolding poll_rtt_def Let_def by (cases "rtt_enabled r"; cases "poll_due ?now ?r") simp_all
  then obtain r' t' where r: "poll_rtt ops fuel r t = Some (r', t')" "follows t t'" "stable r r'" by blast
  have "rtt_wf r'" using poll_rtt_keeps_wf [OF r(1)] assms(2) by (simp add: rtt_safe_def)
  then have "rtt_safe fuel r' t'" using r(2,3) assms(2)
    by (auto simp: rtt_safe_def follows_def stable_def search_ok_def target_mem_access_needs_halt_def)
  then show ?thesis using r(1,2) follows_good by blast
qed

end

end
