(* ===== verification/Emu_Rtt.thy ===== *)
theory Emu_Rtt
  imports Rtt_Search Rtt_Bounds Emu_Session
begin

text \<open>
  Real-time transfer with the emulated device. Its SRAM meets the contract target_memory, through the whole
  stack of target layer, Cortex-M layer, access port and transport, so the search of src/rtt.c finds the first
  match of the identifier in it and a poll moves bytes through the rings in it as through queues.
\<close>

definition emu_sram :: "emu_shim cortexm \<Rightarrow> nat \<Rightarrow> byte" where
  "emu_sram t x = (if 536870912 \<le> x then g_sram (tgt (cm_dp t)) (x - 536870912) else 0)"

lemma sram_rangeI: "536870912 \<le> unat a \<Longrightarrow> unat a + n \<le> 536891392 \<Longrightarrow> sram_range a n"
  by (auto simp: sram_range_def in_sram_iff)

lemma emu_sram_updated:
  assumes "in_sram a" "tgt (cm_dp t') = sram_updated (unat (a - EMU_SRAM_BASE)) bs (tgt (cm_dp t))"
  shows "emu_sram t' = write_at (unat a) bs (emu_sram t)"
proof
  fix x
  have "unat (a - EMU_SRAM_BASE) = unat a - 536870912" "536870912 \<le> unat a" using unat_sram_off [OF assms(1)] assms(1) by (simp_all add: in_sram_iff)
  then show "emu_sram t' x = write_at (unat a) bs (emu_sram t) x"
    unfolding emu_sram_def write_at_def assms(2) by (auto simp: sram_updated_def)
qed

lemma emu_sram_read:
  assumes ops: "emu_mem_ops ops" and t: "emu_ready t" and r: "536870912 \<le> unat a" "unat a + n \<le> 536891392"
  shows "\<exists>t'. target_mem_read ops dest a n t = Some (False, bytes_at (emu_sram t) (unat a) n @ drop n dest, t') \<and>
    emu_ready t' \<and> emu_sram t' = emu_sram t"
proof -
  have s: "cm_ap t = emu_ap" "dcache_line_length t = 0" "shim_ok (cm_dp t)" "emu_conf t" "fpec_ok (tgt (cm_dp t))" "no_oom (tgt (cm_dp t))"
    using t by (simp_all add: emu_ready_def)
  obtain d where d: "advi5_mem_read_bytes emu_dp_ops emu_ap a n (cm_dp t) = Some (map (\<lambda>j. mem_at (tgt (cm_dp t)) (a + of_nat j)) [0..<n], d)"
    "shim_ok d" "tgt d = tgt (cm_dp t)" using emu_read_bytes [OF s(3)] sram_rangeI [OF r] by blast
  have "mem_at (tgt (cm_dp t)) (a + of_nat j) = emu_sram t (unat a + j)" if "j < n" for j
  proof -
    have u: "unat (a + of_nat j) = unat a + j" using r that by (simp add: unat_word_ariths unat_of_nat)
    then have i: "in_sram (a + of_nat j)" "\<not> in_flash (a + of_nat j)" using r that by (simp_all add: in_sram_iff in_flash_iff)
    show ?thesis using unat_sram_off [OF i(1)] i u r by (simp add: mem_at_def emu_sram_def)
  qed
  then have eq: "map (\<lambda>j. mem_at (tgt (cm_dp t)) (a + of_nat j)) [0..<n] = bytes_at (emu_sram t) (unat a) n" by (simp add: bytes_at_def)
  have "emu_at t (t\<lparr>cm_dp := d\<rparr>) (tgt (cm_dp t))" using emu_at_cm_dp [OF emu_ready_at [OF t] d(2,3)] by simp
  then obtain t' where t': "target_check_error ops (t\<lparr>cm_dp := d\<rparr>) = Some (False, t')" "emu_at t t' (tgt (cm_dp t))"
    using at_check [OF ops] by blast
  have "emu_ready t'" "emu_sram t' = emu_sram t"
    using emu_at_ready [OF t'(2) s(4-6)] by (simp_all add: emu_sram_def fun_eq_iff)
  then show ?thesis using ops s d(1) eq t'(1)
    by (auto simp: target_mem_read_def emu_mem_ops_def cortexm_mem_read_def cortexm_cache_clean_def overwrite_def emu_conf_def)
qed

lemma emu_sram_write:
  assumes ops: "emu_mem_ops ops" and t: "emu_ready t" and r: "536870912 \<le> unat a" "unat a + n \<le> 536891392" "n \<le> length bs"
  shows "\<exists>t'. target_mem_write ops a bs n t = Some (False, t') \<and> emu_ready t' \<and> emu_sram t' = write_at (unat a) (take n bs) (emu_sram t)"
proof -
  have s: "cm_ap t = emu_ap" "dcache_line_length t = 0" "shim_ok (cm_dp t)" "emu_conf t" "fpec_ok (tgt (cm_dp t))" "no_oom (tgt (cm_dp t))"
    using t by (simp_all add: emu_ready_def)
  obtain d where d: "adiv5_mem_write emu_dp_ops emu_ap a bs n (cm_dp t) = Some d" "shim_ok d"
    "tgt d = sram_updated (unat (a - EMU_SRAM_BASE)) (take n bs) (tgt (cm_dp t))"
    using emu_write_sram [OF s(3) sram_rangeI [OF r(1,2)] r(3)] by blast
  obtain t' where t': "target_check_error ops (t\<lparr>cm_dp := d\<rparr>) = Some (False, t')" "emu_at t t' (tgt d)"
    using at_check [OF ops emu_at_cm_dp [OF emu_ready_at [OF t] d(2) refl]] by blast
  have ok: "fpec_ok (tgt d)" "no_oom (tgt d)" using s(5,6) unfolding d(3) by (simp_all add: fpec_ok_def no_oom_def sram_updated_def)
  have e: "emu_ready t'" "tgt (cm_dp t') = tgt d" using emu_at_ready [OF t'(2) s(4) ok] by simp_all
  have "emu_sram t' = write_at (unat a) (take n bs) (emu_sram t)"
  proof (cases "n = 0")
    case True
    then show ?thesis using e(2) d(3) by (auto simp: emu_sram_def write_at_def fun_eq_iff)
  next
    case False
    then have "in_sram a" using r by (simp add: in_sram_iff)
    then show ?thesis using e(2) d(3) by (intro emu_sram_updated) simp_all
  qed
  then show ?thesis using ops s d(1) t'(1) e(1)
    by (auto simp: target_mem_write_def emu_mem_ops_def cortexm_mem_write_def cortexm_cache_clean_def emu_conf_def)
qed

interpretation emu_ram: target_memory "emu_ops sh" emu_ready emu_sram 536870912 536891392
  by unfold_locales (use emu_sram_read [OF emu_mem_ops_core(3)] emu_sram_write [OF emu_mem_ops_core(3)] in auto)

subsection \<open>Any access\<close>

text \<open>The emulated device answers every access, to whatever address.\<close>

lemma store_chunks_total: "mem_access a sz \<Longrightarrow> \<exists>m'. store_chunks emu_target_store sz n a bs m = Some m'"
proof (induction n arbitrary: a bs m)
  case (Suc n)
  obtain m1 where "emu_target_store a (u32_of_bytes (take (unat sz) bs)) sz m = Some m1" using emu_store_total [OF Suc.prems] by blast
  then show ?case using Suc.IH [OF mem_access_step [OF Suc.prems]] by simp
qed simp

lemma length_read_chunks: "length (read_chunks load m sz a n) = n * unat sz" if "sz \<in> {1, 2, 4}"
  using that by (induction n arbitrary: a) (auto simp: read_chunks_Suc read_chunks_def word_bytes_def)

definition emu_answers :: "emu_shim cortexm \<Rightarrow> bool" where
  "emu_answers t \<longleftrightarrow> emu_bus_ok t \<and> target_options t AND TOPT_IN_SEMIHOSTING_SYSCALL = 0"

lemma emu_check:
  assumes "emu_mem_ops ops" "shim_ok d"
  shows "\<exists>d'. target_check_error ops (t\<lparr>cm_dp := d\<rparr>) = Some (False, t\<lparr>cm_dp := d'\<rparr>) \<and> shim_ok d'"
  using assms by (auto simp: emu_mem_ops_def target_check_error_def cortex_check_error_def emu_shim_error_def shim_ok_def)

lemma emu_any_read:
  assumes ops: "emu_mem_ops ops" and t: "emu_answers t" and n: "n \<le> length dest" "n < 2 ^ 32"
  shows "\<exists>dat d. target_mem_read ops dest a n t = Some (False, dat, t\<lparr>cm_dp := d\<rparr>) \<and> length dat = length dest \<and> shim_ok d"
proof -
  have s: "cm_ap t = emu_ap" "dcache_line_length t = 0" "shim_ok (cm_dp t)" "target_options t AND TOPT_IN_SEMIHOSTING_SYSCALL = 0"
    using t by (simp_all add: emu_answers_def emu_bus_ok_def)
  let ?sz = "acc_size (MIN_ALIGN a (of_nat n))"
  have sz: "?sz \<in> {1, 2, 4}" using MIN_ALIGN_access(1) [of a "of_nat n"] by (simp add: mem_access_def)
  obtain d where d: "advi5_mem_read_bytes emu_dp_ops emu_ap a n (cm_dp t) = Some (read_chunks emu_target_load (tgt (cm_dp t)) ?sz a (n div unat ?sz), d)" "shim_ok d"
    using emu_bus.block_read [OF s(3) n(2) refl, of a] by blast
  have "length (read_chunks emu_target_load (tgt (cm_dp t)) ?sz a (n div unat ?sz)) \<le> length dest"
    unfolding length_read_chunks [OF sz] using n(1) by (metis div_times_less_eq_dividend order.trans)
  moreover obtain d' where "target_check_error ops (t\<lparr>cm_dp := d\<rparr>) = Some (False, t\<lparr>cm_dp := d'\<rparr>)" "shim_ok d'" using emu_check [OF ops d(2)] by blast
  ultimately show ?thesis using ops s d(1)
    by (auto simp: target_mem_read_def emu_mem_ops_def cortexm_mem_read_def cortexm_cache_clean_def overwrite_def)
qed

lemma emu_any_write:
  assumes ops: "emu_mem_ops ops" and t: "emu_answers t" and n: "n \<le> length bs"
  shows "\<exists>d. target_mem_write ops a bs n t = Some (False, t\<lparr>cm_dp := d\<rparr>) \<and> shim_ok d"
proof -
  have s: "cm_ap t = emu_ap" "dcache_line_length t = 0" "shim_ok (cm_dp t)" "target_options t AND TOPT_IN_SEMIHOSTING_SYSCALL = 0"
    using t by (simp_all add: emu_answers_def emu_bus_ok_def)
  let ?sz = "acc_size (MIN_ALIGN a (of_nat n))"
  obtain m where "store_chunks emu_target_store ?sz (n div unat ?sz) a bs (tgt (cm_dp t)) = Some m"
    using store_chunks_total [OF MIN_ALIGN_access(1)] by blast
  then obtain d where d: "adiv5_mem_write emu_dp_ops emu_ap a bs n (cm_dp t) = Some d" "shim_ok d"
    using emu_bus.block_write [OF s(3) n refl] by blast
  obtain d' where "target_check_error ops (t\<lparr>cm_dp := d\<rparr>) = Some (False, t\<lparr>cm_dp := d'\<rparr>)" "shim_ok d'" using emu_check [OF ops d(2)] by blast
  then show ?thesis using ops s d(1) by (auto simp: target_mem_write_def emu_mem_ops_def cortexm_mem_write_def cortexm_cache_clean_def)
qed

interpretation emu_any: target_answers "emu_ops sh" emu_answers
proof unfold_locales
  fix t :: "emu_shim cortexm" and n and dest bs :: "byte list" and a :: u32
  assume t: "emu_answers t"
  have k: "emu_answers (t\<lparr>cm_dp := d\<rparr>)" if "shim_ok d" for d using t that by (simp add: emu_answers_def emu_bus_ok_def)
  show "\<exists>err dat t'. target_mem_read (emu_ops sh) dest a n t = Some (err, dat, t') \<and> length dat = length dest \<and> emu_answers t' \<and> core t' = core t \<and> t_ram t' = t_ram t"
    if "n \<le> length dest" "n < 2 ^ 32" using emu_any_read [OF emu_mem_ops_core(3) t that, of sh a] k by auto
  show "\<exists>err t'. target_mem_write (emu_ops sh) a bs n t = Some (err, t') \<and> emu_answers t' \<and> core t' = core t \<and> t_ram t' = t_ram t"
    if "n \<le> length bs" using emu_any_write [OF emu_mem_ops_core(3) t that, of sh a] k by auto
qed

text \<open>C12: a poll is safe with every target whose memory can be read while it runs, whatever its memory holds and
  however the accesses to it end. Of the target only this is known: it answers an access when the buffer it is given
  is large enough, and keeps its RAM regions. Then a poll runs to its end, so every access stays inside its buffer,
  and it leaves the state as it must be for the next poll: there are never more than sixteen channels in the tables, a
  control block that says otherwise is cut down or refused, and the pace is between its bounds. The ranges that are
  searched end 128 bytes or more below the end of the address space, and fuel is one step for each 63 bytes.\<close>

theorem rtt_poll_safe:
  assumes "target_answers ops good" "good t" "rtt_safe fuel r t"
  shows "\<exists>r' t'. poll_rtt ops fuel r t = Some (r', t') \<and> good t' \<and> rtt_safe fuel r' t'"
  by (rule target_answers.poll_answers [OF assms])

subsection \<open>Its memory\<close>

text \<open>C11: the search for the control block, which keeps a rolling hash of the last sixteen bytes, finds what it is
  meant to find: the first address in the range whose sixteen bytes have the hash of the identifier SEGGER RTT
  (with zeros before the range), and 0 when there is none. It reads each block of 128 bytes once, so one step
  for each block is enough.\<close>

theorem emu_rtt_search:
  assumes "emu_ready t" "536870912 \<le> unat a" "unat a + n \<le> 536891392" "unat e = unat a + n" "n \<le> 128 * fuel"
  shows "\<exists>t'. fast_search (emu_ops sh) fuel a e r t = Some (rtt_search_spec a (bytes_at (emu_sram t) (unat a) n), r, t') \<and>
    emu_ready t' \<and> emu_sram t' = emu_sram t"
  using emu_ram.fast_search_finds [OF assms(1-3,5,4)] by blast

text \<open>C10: a poll of the emulated device moves data as a set of queues does. For every enabled up channel in turn
  up to 1024 bytes leave its queue for the host, for every enabled down channel what the host has sent is
  appended as far as the ring has room, and no other queue changes; afterwards the next poll finds the same
  situation. No byte is lost, duplicated or reordered when a ring wraps around.\<close>

theorem emu_rtt_poll:
  assumes "emu_ready t" "rtt_session 536870912 536891392 (emu_sram t) r" "rt_times r = now # ts" "poll_due now r"
  shows "\<exists>r' t'. poll_rtt (emu_ops sh) fuel r t = Some (r', t') \<and> emu_ready t' \<and>
    rtt_session 536870912 536891392 (emu_sram t') r' \<and>
    rtt_view (emu_sram t') r' = fifo_poll (unat (rtt_num_up_chan r)) (unat (rtt_num_up_chan r) + unat (rtt_num_down_chan r))
      (capacity (emu_sram t) (unat (rtt_cbaddr r))) (rtt_channel_enabled r) (rtt_view (emu_sram t) r)"
  by (rule emu_ram.poll_refines [OF assms])

subsection \<open>A device with a control block\<close>

text \<open>A control block with an up channel that holds four bytes across the end of its ring of sixteen, and a
  down channel that holds one byte in its ring of eight.\<close>

definition rtt_block :: "byte list" where
  "rtt_block = [0x53, 0x45, 0x47, 0x47, 0x45, 0x52, 0x20, 0x52, 0x54, 0x54, 0, 0, 0, 0, 0, 0, 1, 0, 0, 0, 1, 0, 0, 0, 0, 0, 0, 0, 0, 2, 0, 0x20, 0x10, 0, 0, 0, 2, 0, 0, 0, 0xe, 0, 0, 0, 0, 0, 0, 0, 0, 0, 0, 0, 0x20, 2, 0, 0x20, 8, 0, 0, 0, 7, 0, 0, 0, 6, 0, 0, 0, 0, 0, 0, 0]"

definition rtt_rings :: "nat \<Rightarrow> byte" where
  "rtt_rings = (\<lambda>k. if 256 \<le> k \<and> k < 328 then rtt_block ! (k - 256) else if k = 526 then 1 else if k = 527 then 2
     else if k = 512 then 3 else if k = 513 then 4 else if k = 550 then 9 else 0)"

definition rtt_board :: "emu_shim cortexm" where
  "rtt_board = emu_board\<lparr>cm_dp := (cm_dp emu_board)\<lparr>tgt := (tgt (cm_dp emu_board))\<lparr>g_sram := rtt_rings\<rparr>\<rparr>\<rparr>"

definition rtt_host :: rtt where
  "rtt_host = rtt_statics\<lparr>rtt_enabled := True, rtt_found := True, rtt_cbaddr := 0x20000100, rtt_num_up_chan := 1, rtt_num_down_chan := 1,
     rtt_channel_enabled := [True, True] @ replicate 14 False, poll_ms := 256, saved_cblock_header := take 24 rtt_block,
     rt_down := [5, 6], rt_times := [256]\<rparr>"

lemma rtt_board_ready: "emu_ready rtt_board"
  using emu_board_ready(1) by (simp add: rtt_board_def emu_ready_def fpec_ok_def no_oom_def emu_conf_def shim_ok_def)

lemma rtt_board_sram: "emu_sram rtt_board x = (if 536870912 \<le> x then rtt_rings (x - 536870912) else 0)"
  by (simp add: emu_sram_def rtt_board_def)

lemma rtt_board_chans:
  "chan_at (emu_sram rtt_board) 536871168 0 = \<lparr>name_addr = 0, buf_addr = 0x20000200, buf_size = 16, rt_head = 2, rt_tail = 14, rt_flag = 0\<rparr>"
  "chan_at (emu_sram rtt_board) 536871168 1 = \<lparr>name_addr = 0, buf_addr = 0x20000220, buf_size = 8, rt_head = 7, rt_tail = 6, rt_flag = 0\<rparr>"
  by (simp_all add: chan_at_def word_at_def bytes_at_def upt_rec rtt_board_sram rtt_rings_def rtt_block_def Let_def)

lemma rtt_board_header: "bytes_at (emu_sram rtt_board) 536871168 24 = take 24 rtt_block"
proof -
  have "length rtt_block = 72" by (simp add: rtt_block_def)
  then show ?thesis by (intro nth_equalityI) (simp_all add: rtt_board_sram rtt_rings_def)
qed

lemma less_2: "(\<forall>i<2. P i) \<longleftrightarrow> P 0 \<and> P (Suc 0)"
  by (auto simp: numeral_2_eq_2 less_Suc_eq)

lemma rtt_board_session: "rtt_session 536870912 536891392 (emu_sram rtt_board) rtt_host"
proof -
  have "cblock_ok 536870912 536891392 (emu_sram rtt_board) 536871168 2"
    unfolding cblock_ok_def less_2 using rtt_board_chans by (auto simp: chan_ok_def chan_size_def chan_region_def)
  then have "cblock_ok 536870912 536891392 (emu_sram rtt_board) 536871168 (Suc (Suc 0))" by (simp only: numeral_2_eq_2)
  then show ?thesis using rtt_board_header by (simp add: rtt_session_def rtt_host_def rtt_statics_def rtt_wf_def)
qed

lemma rtt_board_view: "rtt_view (emu_sram rtt_board) rtt_host = ([[1, 2, 3, 4], [9]], [], [5, 6])"
  using rtt_board_chans
  by (simp add: rtt_view_def rtt_host_def rtt_statics_def queues_def upt_rec chan_queue_def chan_used_def chan_size_def ring_bytes_def rtt_board_sram rtt_rings_def)

theorem emu_rtt_poll_witness:
  "\<forall>sh. \<exists>r' t'. poll_rtt (emu_ops sh) 1 rtt_host rtt_board = Some (r', t') \<and> emu_ready t' \<and>
    rtt_session 536870912 536891392 (emu_sram t') r' \<and> rtt_view (emu_sram t') r' = ([[], [9, 5, 6]], [1, 2, 3, 4], [])"
proof
  fix sh
  have "fifo_poll (Suc 0) (Suc (Suc 0)) (capacity (emu_sram rtt_board) 536871168) (rtt_channel_enabled rtt_host) ([[1, 2, 3, 4], [9]], [], [5, 6]) =
      ([[], [9, 5, 6]], [1, 2, 3, 4], [])"
    using rtt_board_chans by (simp add: fifo_poll_def rtt_host_def rtt_statics_def upt_rec capacity_def chan_size_def Let_def)
  then show "\<exists>r' t'. poll_rtt (emu_ops sh) 1 rtt_host rtt_board = Some (r', t') \<and> emu_ready t' \<and>
      rtt_session 536870912 536891392 (emu_sram t') r' \<and> rtt_view (emu_sram t') r' = ([[], [9, 5, 6]], [1, 2, 3, 4], [])"
    using emu_rtt_poll [OF rtt_board_ready rtt_board_session, of 256 "[]" sh 1] rtt_board_view
    by (simp add: rtt_host_def rtt_statics_def poll_due_def)
qed

text \<open>A control block that claims more channels than there is room for, with nothing behind it, in a device
  that is polled for the first time.\<close>

definition rtt_wild :: "emu_shim cortexm" where
  "rtt_wild = rtt_board\<lparr>t_ram := [\<lparr>ram_start = EMU_SRAM_BASE, ram_length = EMU_SRAM_SIZE\<rparr>], core := Some ''M3'', cm_dp := (cm_dp rtt_board)\<lparr>tgt := (tgt (cm_dp rtt_board))\<lparr>g_sram :=
     (\<lambda>k. if k < 16 then rtt_block ! k else 0xff)\<rparr>\<rparr>\<rparr>"

theorem rtt_poll_safe_witness:
  "\<forall>sh. \<exists>r' t'. poll_rtt (emu_ops sh) 326 (rtt_statics\<lparr>rtt_enabled := True, rt_times := [256]\<rparr>) rtt_wild = Some (r', t') \<and>
     emu_answers t' \<and> rtt_safe 326 r' t'"
proof
  fix sh
  let ?r = "rtt_statics\<lparr>rtt_enabled := True, rt_times := [256]\<rparr>"
  have "emu_bus_ok rtt_wild" "target_options rtt_wild AND TOPT_IN_SEMIHOSTING_SYSCALL = 0"
    using rtt_board_ready by (simp_all add: rtt_wild_def emu_bus_ok_def emu_ready_def emu_conf_def shim_ok_def)
  then have g: "emu_answers rtt_wild" by (simp add: emu_answers_def)
  have "rtt_safe 326 ?r rtt_wild"
    by (simp add: rtt_safe_def rtt_wf_def rtt_statics_def search_ok_def range_ok_def rtt_wild_def target_mem_access_needs_halt_def)
  from rtt_poll_safe [OF emu_any.target_answers_axioms g this]
  show "\<exists>r' t'. poll_rtt (emu_ops sh) 326 ?r rtt_wild = Some (r', t') \<and> emu_answers t' \<and> rtt_safe 326 r' t'" .
qed

theorem emu_rtt_search_witness:
  "\<forall>sh. \<exists>t'. fast_search (emu_ops sh) 1 0x20000100 0x20000110 rtt_host rtt_board = Some (0x20000100, rtt_host, t') \<and> emu_ready t'"
proof
  fix sh
  have "bytes_at (emu_sram rtt_board) 536871168 16 = rtt_id"
    by (simp add: bytes_at_def upt_rec rtt_board_sram rtt_rings_def rtt_block_def rtt_id_def)
  moreover have "rtt_search_spec 0x20000100 rtt_id = 0x20000100"
    by code_simp
  ultimately show "\<exists>t'. fast_search (emu_ops sh) 1 0x20000100 0x20000110 rtt_host rtt_board = Some (0x20000100, rtt_host, t') \<and> emu_ready t'"
    using emu_rtt_search [OF rtt_board_ready, of "0x20000100" 16 "0x20000110" 1 sh rtt_host] by auto
qed

end
