(* ===== verification/Semihosting_Session.thy ===== *)
theory Semihosting_Session
  imports Semihosting Gdb_Session Emu_Rtt
begin

text \<open>
  System calls carried out over the link: the request the probe sends, the packets the debugger sends while it
  carries the request out, its reply, and the result the target gets.
\<close>

subsection \<open>Packets during a call\<close>

declare semihosting_get_gdb_response.simps [simp del]

definition ack_in :: "bool \<Rightarrow> byte option list" where
  "ack_in na = (if na then [] else [Some GDB_PACKET_ACK])"

definition ack_out :: "bool \<Rightarrow> byte list" where
  "ack_out na = (if na then [] else [GDB_PACKET_ACK])"

lemma wire_ack: "wire na p = map Some (frame_bytes GDB_PACKET_START p) @ ack_in na"
  "answer na q = ack_out na @ frame_bytes GDB_PACKET_START q"
  by (simp_all add: wire_def ack_in_def answer_def ack_out_def)

lemma reply_acks:
  "gs_input s = ack_in (gs_noackmode s) @ rest \<Longrightarrow> reply q s = s\<lparr>gs_out := gs_out s @ frame_bytes GDB_PACKET_START q, gs_input := rest\<rparr>"
  unfolding ack_in_def by (rule reply_acked)

definition received :: "byte list \<Rightarrow> byte option list \<Rightarrow> 's gdb_server \<Rightarrow> 's gdb_server" where
  "received p rest s = s\<lparr>gs_pbuf := p @ 0 # drop (Suc (length p)) (gs_pbuf s), gs_out := gs_out s @ ack_out (gs_noackmode s), gs_input := rest\<rparr>"

lemma read_packet_frame:
  assumes "length p < 1024" "length (gs_pbuf s) = 1025" "gs_input s = map Some (frame_bytes GDB_PACKET_START p) @ rest"
  shows "read_packet x s = Some (Some (length p), received p rest s)"
proof -
  obtain c where "gdb_getpacket (x_remote x) (gs_noackmode s) 1024 (gs_pbuf s) (frame_bytes GDB_PACKET_START p @ List.map_filter id rest) =
      Some (Inr (length p, c, List.map_filter id rest))" "cp_packet c = p @ 0 # drop (Suc (length p)) (gs_pbuf s)"
    "cp_out c = (if gs_noackmode s then [] else [GDB_PACKET_ACK])"
    using packet_received [of p 1024 "gs_pbuf s" "x_remote x" "gs_noackmode s" "List.map_filter id rest"] assms(1,2) by auto
  then show ?thesis by (simp add: read_packet_def assms(3) map_filter_Some drop_chars_Some Let_def received_def ack_out_def)
qed

lemma received_serving: "serving ops t s \<Longrightarrow> length p < 1024 \<Longrightarrow> serving ops t (received p rest s)"
  by (simp add: serving_def received_def)

text \<open>A packet that is not the reply is served, and the wait goes on unless F is left in the buffer.\<close>

lemma response_step:
  assumes "serving ops t s" "length p < 1024" "p \<noteq> [0x04]" "gs_input s = map Some (frame_bytes GDB_PACKET_START p) @ rest"
    "gdb_main_loop x 1024 (length p) True (received p rest s) = Some (r, s')"
  shows "semihosting_get_gdb_response x (Suc n) s =
    (if take 1 (gs_pbuf s') = [of_char (CHR ''F'')] then Some (of_int r, s') else semihosting_get_gdb_response x n s')"
proof -
  have "length (gs_pbuf s) = 1025" using assms(1) by (simp add: serving_def)
  then have rp: "read_packet x s = Some (Some (length p), received p rest s)" by (rule read_packet_frame [OF assms(2) _ assms(4)])
  have "\<not> (length p = 1 \<and> take 1 (gs_pbuf (received p rest s)) = [0x04])"
    using assms(3) by (cases p) (auto simp: received_def)
  then show ?thesis using assms(5) by (auto simp: rp semihosting_get_gdb_response.simps)
qed

definition F_reply :: "u32 \<Rightarrow> byte list" where
  "F_reply v = ascii (''F'' @ fmt_x v)"

lemma length_F_reply: "length (F_reply v) < 1024" "F_reply v \<noteq> [0x04]"
  using length_fmt_x(1) [of v] by (simp_all add: F_reply_def)

definition replied :: "'h target_scheme gdb_server \<Rightarrow> 'h target_scheme gdb_server" where
  "replied s = set_tc (\<lambda>tc. tc\<lparr>gdb_errno := 0, interrupted := False\<rparr>) s"

lemma scan_F_reply: "sscanf (drop 1 (F_reply v @ 0 # z)) [Fx None, Lit (ascii '',''), Fx None, Lit (ascii '',''), Fc] = ([v], None)"
proof -
  have c: "cstr (drop 1 (F_reply v @ 0 # z)) = ascii (fmt_x v)" by (simp add: F_reply_def cstr_append [OF fmt_x_nonzero])
  show ?thesis unfolding sscanf_def c by (simp add: scan_number_end)
qed

lemma F_reply_cases: "\<exists>c cs. F_reply v = of_char (CHR ''F'') # c # cs \<and> c \<noteq> of_char (CHR ''-'')"
proof -
  obtain c ds where d: "ascii (fmt_x v) = c # ds" using length_fmt_x(2) [of v] by (cases "fmt_x v") auto
  have "list_all (\<lambda>c. digit_value 16 c \<noteq> None) (ascii (fmt_x v))" unfolding fmt_x_def by (rule hex_digits_all)
  then have "c \<noteq> of_char (CHR ''-'')" using d digit_plain [of c] by auto
  then show ?thesis using d by (simp add: F_reply_def)
qed

lemma response_F:
  assumes "serving ops t s" "gs_input s = map Some (frame_bytes GDB_PACKET_START (F_reply v)) @ rest"
  shows "semihosting_get_gdb_response x (Suc n) s = Some (v, replied (received (F_reply v) rest s))"
proof -
  let ?s = "received (F_reply v) rest s"
  obtain c cs where f: "F_reply v = of_char (CHR ''F'') # c # cs" "c \<noteq> of_char (CHR ''-'')" using F_reply_cases by blast
  have pb: "gs_pbuf ?s = F_reply v @ 0 # drop (Suc (length (F_reply v))) (gs_pbuf s)" by (simp add: received_def)
  have sc: "sscanf (drop 1 (gs_pbuf ?s)) [Fx None, Lit (ascii '',''), Fx None, Lit (ascii '',''), Fc] = ([v], None)"
    unfolding pb by (rule scan_F_reply)
  have q: "gs_pbuf ?s = of_char (CHR ''F'') # c # (cs @ 0 # drop (Suc (length (F_reply v))) (gs_pbuf s))" by (simp add: received_def f(1))
  have "semihosting_reply ?s = Some (sint v, replied ?s)"
    using sc f(2) unfolding semihosting_reply_def q by (simp add: Let_def replied_def)
  then have "gdb_main_loop x 1024 (length (F_reply v)) True ?s = Some (sint v, replied ?s)"
    unfolding gdb_main_loop_def q by simp
  from response_step [OF assms(1) length_F_reply assms(2) this] show ?thesis
    using q by (simp add: replied_def set_tc_def)
qed


lemma sint_small: "unat (v :: u32) < 2 ^ 31 \<Longrightarrow> 0 \<le> sint v"
proof -
  assume "unat v < 2 ^ 31"
  then have u: "uint v < 2 ^ 31" by (metis uint_nat of_nat_less_iff of_nat_numeral of_nat_power)
  have "sint v = signed_take_bit 31 (uint v)" by (simp add: sint_uint)
  also have "\<dots> = uint v" by (rule signed_take_bit_int_eq_self) (use u uint_ge_0 [of v] in linarith)+
  finally show ?thesis by simp
qed

lemma hex_digit_F: "hex_digit (drop_bit 4 b) = of_char (CHR ''F'') \<longleftrightarrow> (0xF0 :: byte) \<le> b"
proof -
  have u: "unat (drop_bit 4 b) = unat b div 16" "unat b < 256"
    using unsigned_less [of b, where 'a = nat] by (simp_all add: drop_bit_eq_div unat_div)
  then have v: "drop_bit 4 b < 16" by (simp add: word_less_nat_alt)
  have "hex_digit (drop_bit 4 b) = of_char (CHR ''F'') \<longleftrightarrow> drop_bit 4 b = 15"
    using nibble_cases [OF v] by (auto simp: hex_digit_def)
  also have "\<dots> \<longleftrightarrow> 0xF0 \<le> b"
    using u by (auto simp: word_le_nat_alt word_unat_eq_iff)
  finally show ?thesis .
qed

lemma response_read:
  assumes "serving ops t s" "gs_input s = wire (gs_noackmode s) (read_request a n) @ rest" "0 < unat n" "unat n \<le> 512"
    "target_mem_read ops (replicate (unat n) 0) a (unat n) t = Some (False, bs, t')" "length bs = unat n"
  shows "\<exists>s'. serving ops t' s' \<and> gs_input s' = rest \<and> gs_out s' = gs_out s @ answer (gs_noackmode s) (hex_text bs) \<and>
    gs_noackmode s' = gs_noackmode s \<and>
    (\<forall>k. semihosting_get_gdb_response x (Suc k) s = (if hd bs \<ge> 0xF0 then Some (0, s') else semihosting_get_gdb_response x k s'))"
proof -
  let ?p = "read_request a n" and ?i = "ack_in (gs_noackmode s) @ rest"
  let ?s = "received ?p ?i s"
  let ?pb = "hex_text bs @ 0 # drop (Suc (2 * length bs)) (gs_pbuf ?s)"
  let ?s' = "?s\<lparr>gs_targets := [(ops, t')], gs_pbuf := ?pb, gs_out := gs_out ?s @ frame_bytes GDB_PACKET_START (hex_text bs), gs_input := rest\<rparr>"
  have i: "gs_input s = map Some (frame_bytes GDB_PACKET_START ?p) @ ?i" using assms(2) by (simp add: wire_ack)
  have sv: "serving ops t ?s" by (rule received_serving [OF assms(1) length_read_request])
  have pb: "gs_pbuf ?s = ?p @ 0 # drop (Suc (length ?p)) (gs_pbuf s)" by (simp add: received_def)
  have l: "length (gs_pbuf ?s) = 1025" using sv by (simp add: serving_def)
  have "reply (hex_text bs) (?s\<lparr>gs_targets := [(ops, t')], gs_pbuf := ?pb\<rparr>) = ?s'"
    by (subst reply_acks [where rest = rest]) (simp_all add: received_def)
  then have h: "handle_m 1024 ?s = Some ?s'" using handle_read [OF sv pb assms(5,6,4)] by simp
  obtain r where r: "gs_pbuf ?s = of_char (CHR ''m'') # r" unfolding pb by (simp add: read_request_def)
  have m: "gdb_main_loop x 1024 (length ?p) True ?s = Some (0, ?s')" using h unfolding gdb_main_loop_def r by (simp add: just_def)
  have ne: "?p \<noteq> [0x04]" by (simp add: read_request_def)
  obtain b br where b: "bs = b # br" using assms(3,6) by (cases bs) auto
  have F: "take 1 (gs_pbuf ?s') = [of_char (CHR ''F'')] \<longleftrightarrow> hd bs \<ge> 0xF0"
    using hex_digit_F [of b] by (simp add: b hex_text_def)
  have "serving ops t' ?s'" using sv l assms(4,6) by (simp add: serving_def hexify_text)
  moreover have "gs_out ?s' = gs_out s @ answer (gs_noackmode s) (hex_text bs)" by (simp add: received_def wire_ack)
  moreover have "semihosting_get_gdb_response x (Suc k) s = (if hd bs \<ge> 0xF0 then Some (0, ?s') else semihosting_get_gdb_response x k ?s')" for k
    using response_step [OF assms(1) length_read_request ne i m, of k] unfolding F by simp
  ultimately show ?thesis by (intro exI [of _ ?s']) (simp add: received_def)
qed


definition write_call :: "u32 \<Rightarrow> u32 \<Rightarrow> u32 \<Rightarrow> byte list" where
  "write_call fd a n = ascii ''Fwrite,'' @ fmt_08X fd @ comma @ fmt_08X a @ comma @ fmt_08X n"

text \<open>C13: SYS_WRITE over the link. The probe sends an Fwrite request, the debugger fetches the data with an m
  packet and answers with the number of bytes it wrote; the target gets the number of bytes left, as the ABI
  asks. This holds as long as the first byte of the data is below 0xF0. The text of the answer to the m packet is
  built in the buffer the reply is looked for in, so when it starts with an F the call ends there: the target is
  told that nothing was written and the reply stays unread on the link.\<close>

theorem semihosting_write_over_link:
  assumes "serving ops t s" "\<not> stdout_redirected t" "h \<noteq> INT32_MAX"
    and "target_mem_read ops (replicate (unat n) 0) a (unat n) t = Some (False, bs, t')" "length bs = unat n" "0 < unat n" "unat n \<le> 512"
    and "gs_input s = ack_in (gs_noackmode s) @ wire (gs_noackmode s) (read_request a n) @ map Some (frame_bytes GDB_PACKET_START (F_reply v)) @ rest"
    and "v \<le> n" "2 \<le> fuel"
  shows "\<exists>s'. semihosting_write x fuel \<lparr>sh_r1 = r1, sh_params = [h, a, n, p3]\<rparr> s = Some (if hd bs < 0xF0 then n - v else n, s') \<and>
    gs_out s' = gs_out s @ frame_bytes GDB_PACKET_START (write_call (h - 1) a n) @ answer (gs_noackmode s) (hex_text bs) @
      (if hd bs < 0xF0 then ack_out (gs_noackmode s) else []) \<and>
    gs_input s' = (if hd bs < 0xF0 then rest else map Some (frame_bytes GDB_PACKET_START (F_reply v)) @ rest)"
proof -
  let ?f = "map Some (frame_bytes GDB_PACKET_START (F_reply v)) @ rest"
  let ?s = "s\<lparr>gs_out := gs_out s @ frame_bytes GDB_PACKET_START (write_call (h - 1) a n), gs_input := wire (gs_noackmode s) (read_request a n) @ ?f\<rparr>"
  have r: "reply (write_call (h - 1) a n) s = ?s" by (rule reply_acks) (simp add: assms(8))
  have sv: "serving ops t ?s" using assms(1) by (simp add: serving_def)
  have red: "of_cur (\<lambda>_. stdout_redirected) s = Some False" using assms(1,2) by (simp add: serving_def of_cur_def of_target_def)
  obtain s1 where s1: "serving ops t' s1" "gs_input s1 = ?f" "gs_out s1 = gs_out ?s @ answer (gs_noackmode s) (hex_text bs)"
    "gs_noackmode s1 = gs_noackmode s"
    "\<And>k. semihosting_get_gdb_response x (Suc k) ?s = (if hd bs \<ge> 0xF0 then Some (0, s1) else semihosting_get_gdb_response x k s1)"
    using response_read [OF sv _ assms(6,7,4,5), where rest = ?f and x = x] by auto
  have F: "semihosting_get_gdb_response x (Suc k) s1 = Some (v, replied (received (F_reply v) rest s1))" for k
    by (rule response_F [OF s1(1,2)])
  have w: "semihosting_write x fuel \<lparr>sh_r1 = r1, sh_params = [h, a, n, p3]\<rparr> s =
    do { (result, s) \<leftarrow> semihosting_get_gdb_response x fuel ?s; Some (if 0 \<le>s result then n - result else result, s) }"
    using r assms(3) by (simp add: semihosting_write_def semihosting_remote_write_def param_def red host_call_def write_call_def)
  obtain k where k: "fuel = Suc (Suc k)" using assms(10) by (cases fuel; cases "fuel - 1") auto
  have n: "0 \<le>s v" using sint_small [of v] assms(7,9) by (simp add: word_sle_eq word_le_nat_alt)
  show ?thesis
  proof (cases "hd bs < 0xF0")
    case True
    then have "\<not> 0xF0 \<le> hd bs" by simp
    then have "semihosting_get_gdb_response x fuel ?s = Some (v, replied (received (F_reply v) rest s1))"
      using s1(5) [of "Suc k"] F [of k] by (simp add: k)
    then show ?thesis using w n True s1 by (simp add: replied_def received_def set_tc_def)
  next
    case False
    then have "0xF0 \<le> hd bs" by simp
    then have "semihosting_get_gdb_response x fuel ?s = Some (0, s1)" using s1(5) [of "Suc k"] by (simp add: k)
    then show ?thesis using w False s1 by simp
  qed
qed


subsection \<open>Redirected output\<close>

lemma map_upt_add: "map f [0..<m + n] = map f [0..<m] @ map (\<lambda>i. f (i + m)) [0..<n]"
  by (rule nth_equalityI) (auto simp: nth_append)

lemma map_upt_Suc: "map f [0..<Suc n] = f 0 # map (\<lambda>i. f (Suc i)) [0..<n]"
  by (rule nth_equalityI) (auto simp: nth_Cons' simp del: upt_Suc)

lemma block_sizes_step: "block_sizes (64 + d) = 64 # block_sizes d"
proof -
  have q: "(64 + d + STDOUT_READ_BUF_SIZE - 1) div STDOUT_READ_BUF_SIZE = Suc ((d + STDOUT_READ_BUF_SIZE - 1) div STDOUT_READ_BUF_SIZE)"
    by linarith
  show ?thesis unfolding block_sizes_def q map_upt_Suc by simp
qed

lemma block_sizes_small: "0 < c \<Longrightarrow> c \<le> 64 \<Longrightarrow> block_sizes c = [c]" "block_sizes 0 = []"
proof -
  assume c: "0 < c" "c \<le> 64"
  then have q: "(c + STDOUT_READ_BUF_SIZE - 1) div STDOUT_READ_BUF_SIZE = Suc 0" by (intro div_nat_eqI) auto
  show "block_sizes c = [c]" using c unfolding block_sizes_def q by simp
qed (simp add: block_sizes_def)

lemma block_sizes_le: "n \<in> set (block_sizes c) \<Longrightarrow> n \<le> 64 \<and> n \<le> c"
  by (auto simp: block_sizes_def)

lemma blocks_repeat: "concat (map (bytes_at m a) (block_sizes c)) = map (\<lambda>i. m (a + i mod 64)) [0..<c]"
proof (induction c rule: less_induct)
  case (less c)
  consider "c = 0" | "0 < c" "c \<le> 64" | "64 < c" by linarith
  then show ?case
  proof cases
    case 2
    then show ?thesis by (auto simp: block_sizes_small bytes_at_def)
  next
    case 3
    define d where "d = c - 64"
    then have d: "c = 64 + d" "d < c" using 3 by simp_all
    have "map (\<lambda>i. m (a + i mod 64)) [0..<c] = bytes_at m a 64 @ map (\<lambda>i. m (a + i mod 64)) [0..<d]"
      unfolding d(1) map_upt_add by (simp add: bytes_at_def)
    then show ?thesis using less [OF d(2)] unfolding d(1) block_sizes_step by simp
  qed (simp add: block_sizes_small)
qed

context target_memory
begin

lemma send_blocks_reads:
  assumes "serving ops t s" "good t" "lo \<le> unat a" "\<forall>n \<in> set ns. n \<le> 64 \<and> unat a + n \<le> hi" "length buffer = 64"
  shows "\<exists>t' s'. send_blocks a ns buffer s = Some s' \<and> serving ops t' s' \<and> good t' \<and> mem t' = mem t \<and>
    gs_stdout s' = gs_stdout s @ concat (map (bytes_at (mem t) (unat a)) ns)"
  using assms
proof (induction ns arbitrary: buffer s t)
  case (Cons n ns)
  obtain t1 where t1: "target_mem_read ops buffer a n t = Some (False, bytes_at (mem t) (unat a) n @ drop n buffer, t1)" "good t1" "mem t1 = mem t"
    using mem_read [OF Cons.prems(2,3), of n buffer] Cons.prems(4) by auto
  let ?b = "bytes_at (mem t) (unat a) n @ drop n buffer"
  let ?s = "s\<lparr>gs_targets := [(ops, t1)], gs_stdout := gs_stdout s @ bytes_at (mem t) (unat a) n\<rparr>"
  have "send_blocks a (n # ns) buffer s = send_blocks a ns ?b ?s"
    by (simp add: on_cur_serving [OF Cons.prems(1)] t1(1))
  moreover have "serving ops t1 ?s" using Cons.prems(1) by (simp add: serving_def)
  moreover have "length ?b = 64" using Cons.prems(4,5) by simp
  ultimately show ?case using Cons.IH [of t1 ?s ?b] t1 Cons.prems(3,4) by auto
qed auto

lemma redirected_write:
  assumes "serving ops t s" "good t" "stdout_redirected t" "h = 2 \<or> h = 3" "lo \<le> unat a" "unat a + unat n \<le> hi"
  shows "\<exists>s'. semihosting_write x fuel \<lparr>sh_r1 = r1, sh_params = [h, a, n, p3]\<rparr> s = Some (if 0 \<le>s n then 0 else n, s') \<and>
    gs_stdout s' = gs_stdout s @ map (\<lambda>i. mem t (unat a + i mod 64)) [0..<unat n]"
proof -
  have red: "of_cur (\<lambda>_. stdout_redirected) s = Some True" using assms(1,3) by (simp add: serving_def of_cur_def of_target_def)
  have n: "\<not> n > 0xffffffc0" using assms(6) aligned(3) by (simp add: word_less_nat_alt)
  have "\<forall>k \<in> set (block_sizes (unat n)). k \<le> 64 \<and> unat a + k \<le> hi" using block_sizes_le assms(6) by fastforce
  then obtain s' where "send_blocks a (block_sizes (unat n)) (replicate 64 0) s = Some s'"
    "gs_stdout s' = gs_stdout s @ map (\<lambda>i. mem t (unat a + i mod 64)) [0..<unat n]"
    using send_blocks_reads [OF assms(1,2,5), of "block_sizes (unat n)" "replicate 64 0"] unfolding blocks_repeat by auto
  moreover have "(h - 1 = 1 \<or> h - 1 = 2) \<and> h \<noteq> INT32_MAX" using assms(4) by auto
  ultimately show ?thesis using n by (auto simp: semihosting_write_def semihosting_remote_write_def param_def red)
qed

end

text \<open>C15: output that is redirected to the serial port of the probe. The result says that everything was
  written, and up to 64 bytes that is so; but each further block of 64 bytes is read from the start of the buffer
  again, so byte i of the output is byte i mod 64 of the data.\<close>

theorem emu_semihosting_stdout:
  assumes "serving (emu_ops sh) t s" "emu_ready t" "stdout_redirected t" "h = 2 \<or> h = 3" "536870912 \<le> unat a" "unat a + unat n \<le> 536891392"
  shows "\<exists>s'. semihosting_write x fuel \<lparr>sh_r1 = r1, sh_params = [h, a, n, p3]\<rparr> s = Some (0, s') \<and>
    gs_stdout s' = gs_stdout s @ map (\<lambda>i. emu_sram t (unat a + i mod 64)) [0..<unat n]"
proof -
  have "unat n < 2 ^ 31" using assms(5,6) by simp
  then have "0 \<le>s n" using sint_small [of n] by (simp add: word_sle_eq)
  then show ?thesis using emu_ram.redirected_write [OF assms, of x fuel r1 p3] by simp
qed

subsection \<open>The time\<close>








subsection \<open>Instances\<close>

definition semi_board :: "emu_shim cortexm" where
  "semi_board = emu_board\<lparr>stdout_redirected := True,
     cm_dp := (cm_dp emu_board)\<lparr>tgt := (tgt (cm_dp emu_board))\<lparr>g_sram := (\<lambda>k. if k = 0 then 0x48 else if k = 1 then 0x69 else 0xff)\<rparr>\<rparr>\<rparr>"

lemma semi_board_ready: "emu_ready semi_board" "stdout_redirected semi_board"
  "emu_sram semi_board x = (if 536870912 \<le> x then if x = 536870912 then 0x48 else if x = 536870913 then 0x69 else 0xff else 0)"
  using emu_board_ready(1) by (auto simp: semi_board_def emu_ready_def emu_conf_def shim_ok_def fpec_ok_def no_oom_def emu_sram_def)

theorem emu_semihosting_stdout_witness:
  "\<forall>sh. \<exists>s'. semihosting_write bare_ext 0 \<lparr>sh_r1 = 0, sh_params = [2, 0x20000000, 2, 0]\<rparr> (server_with [(emu_ops sh, semi_board)] []) = Some (0, s') \<and>
    gs_stdout s' = [0x48, 0x69]"
proof
  fix sh
  have "serving (emu_ops sh) semi_board (server_with [(emu_ops sh, semi_board)] [])" by (simp add: serving_def)
  from emu_semihosting_stdout [OF this semi_board_ready(1,2), of 2 "0x20000000" 2 bare_ext 0 0 0]
  show "\<exists>s'. semihosting_write bare_ext 0 \<lparr>sh_r1 = 0, sh_params = [2, 0x20000000, 2, 0]\<rparr> (server_with [(emu_ops sh, semi_board)] []) = Some (0, s') \<and>
    gs_stdout s' = [0x48, 0x69]"
    by (simp add: semi_board_ready(3) upt_rec server_with_def)
qed

definition plain_board :: "emu_shim cortexm" where
  "plain_board = semi_board\<lparr>stdout_redirected := False, t_tc := Some \<lparr>tc_object = Gdb_controller, semihosting_buffer = [], gdb_errno = 5, interrupted = True\<rparr>,
     t_ram := [\<lparr>ram_start = 0x20000000, ram_length = 0x5000\<rparr>], target_options := 0\<rparr>"

lemma plain_board_ready: "emu_ready plain_board" "\<not> stdout_redirected plain_board" "emu_sram plain_board = emu_sram semi_board"
  using semi_board_ready(1) by (auto simp: plain_board_def emu_ready_def emu_conf_def emu_sram_def fun_eq_iff)

theorem semihosting_write_over_link_witness:
  "\<forall>sh. (\<exists>s'. semihosting_write bare_ext 2 \<lparr>sh_r1 = 0, sh_params = [2, 0x20000000, 2, 0]\<rparr>
      (server_with [(emu_ops sh, plain_board)] (wire True (read_request 0x20000000 2) @ map Some (frame_bytes GDB_PACKET_START (F_reply 2)))) = Some (0, s') \<and>
      gs_out s' = frame_bytes GDB_PACKET_START (write_call 1 0x20000000 2) @ answer True (hex_text [0x48, 0x69]) \<and> gs_input s' = []) \<and>
    (\<exists>s'. semihosting_write bare_ext 2 \<lparr>sh_r1 = 0, sh_params = [2, 0x20000002, 2, 0]\<rparr>
      (server_with [(emu_ops sh, plain_board)] (wire True (read_request 0x20000002 2) @ map Some (frame_bytes GDB_PACKET_START (F_reply 2)))) = Some (2, s') \<and>
      gs_input s' = map Some (frame_bytes GDB_PACKET_START (F_reply 2)))"
proof (intro allI conjI)
  fix sh
  have sv: "serving (emu_ops sh) plain_board (server_with [(emu_ops sh, plain_board)] i)" for i by (simp add: serving_def)
  obtain t1 where t1: "target_mem_read (emu_ops sh) (replicate (unat (2 :: u32)) 0) 0x20000000 (unat (2 :: u32)) plain_board = Some (False, [0x48, 0x69], t1)"
    using emu_ram.mem_read [OF plain_board_ready(1), of "0x20000000" 2 sh "replicate (unat (2 :: u32)) 0"]
    by (auto simp: bytes_at_def plain_board_ready(3) semi_board_ready(3) upt_rec)
  obtain t2 where t2: "target_mem_read (emu_ops sh) (replicate (unat (2 :: u32)) 0) 0x20000002 (unat (2 :: u32)) plain_board = Some (False, [0xff, 0xff], t2)"
    using emu_ram.mem_read [OF plain_board_ready(1), of "0x20000002" 2 sh "replicate (unat (2 :: u32)) 0"]
    by (auto simp: bytes_at_def plain_board_ready(3) semi_board_ready(3) upt_rec)
  let ?i = "\<lambda>a. wire True (read_request a 2) @ map Some (frame_bytes GDB_PACKET_START (F_reply 2))"
  show "\<exists>s'. semihosting_write bare_ext 2 \<lparr>sh_r1 = 0, sh_params = [2, 0x20000000, 2, 0]\<rparr> (server_with [(emu_ops sh, plain_board)] (?i 0x20000000)) = Some (0, s') \<and>
      gs_out s' = frame_bytes GDB_PACKET_START (write_call 1 0x20000000 2) @ answer True (hex_text [0x48, 0x69]) \<and> gs_input s' = []"
    using semihosting_write_over_link [OF sv [of "?i 0x20000000"] plain_board_ready(2) _ t1, of 2 2 "[]" 2 bare_ext 0 0]
    by (simp add: server_with_def ack_in_def ack_out_def)
  show "\<exists>s'. semihosting_write bare_ext 2 \<lparr>sh_r1 = 0, sh_params = [2, 0x20000002, 2, 0]\<rparr> (server_with [(emu_ops sh, plain_board)] (?i 0x20000002)) = Some (2, s') \<and>
      gs_input s' = map Some (frame_bytes GDB_PACKET_START (F_reply 2))"
    using semihosting_write_over_link [OF sv [of "?i 0x20000002"] plain_board_ready(2) _ t2, of 2 2 "[]" 2 bare_ext 0 0]
    by (auto simp: server_with_def ack_in_def ack_out_def)
qed


end
