(* ===== verification/Jtagtap.thy ===== *)
theory Jtagtap
  imports Prelude
begin

text \<open>
  The bit-banged JTAG port, src/platforms/common/jtagtap.c. The pins are a record with the device behind them:
  a rising edge of TCK clocks the device, the parameter clock, with the levels of TMS and TDI, and its answer is the
  level of TDO until the next rising edge. Delay loops do nothing. Each sequence has two variants, one for a
  clock that is slowed down and one at full speed; target_clk_divider chooses. None is an access outside an
  array. The port has no TRST line on this board.
\<close>

subsection \<open>Pins\<close>

type_synonym 'd tap_clock = "bool \<Rightarrow> bool \<Rightarrow> 'd \<Rightarrow> bool \<times> 'd"

record 'd jtag_pins =
  tms_pin :: bool
  tdi_pin :: bool
  tck_pin :: bool
  tdo_pin :: bool
  target_clk_divider :: u32
  jp_dev :: 'd

definition gpio_set_tck :: "'d tap_clock \<Rightarrow> 'd jtag_pins \<Rightarrow> 'd jtag_pins" where
  "gpio_set_tck clock p =
     (if tck_pin p then p
      else (let (out, d) = clock (tms_pin p) (tdi_pin p) (jp_dev p) in p\<lparr>tck_pin := True, tdo_pin := out, jp_dev := d\<rparr>))"

definition gpio_clear_tck :: "'d jtag_pins \<Rightarrow> 'd jtag_pins" where
  "gpio_clear_tck p = p\<lparr>tck_pin := False\<rparr>"

subsection \<open>One cycle\<close>

definition jtagtap_next_clk_delay :: "'d tap_clock \<Rightarrow> 'd jtag_pins \<Rightarrow> bool \<times> 'd jtag_pins" where
  "jtagtap_next_clk_delay clock p = (let p = gpio_set_tck clock p; result = tdo_pin p in (result, gpio_clear_tck p))"

definition jtagtap_next_no_delay :: "'d tap_clock \<Rightarrow> 'd jtag_pins \<Rightarrow> bool \<times> 'd jtag_pins" where
  "jtagtap_next_no_delay clock p = (let p = gpio_set_tck clock p; result = tdo_pin p in (result, gpio_clear_tck p))"

definition jtagtap_next :: "'d tap_clock \<Rightarrow> bool \<Rightarrow> bool \<Rightarrow> 'd jtag_pins \<Rightarrow> bool \<times> 'd jtag_pins" where
  "jtagtap_next clock tms tdi p =
     (let p = p\<lparr>tms_pin := tms, tdi_pin := tdi\<rparr>
      in if target_clk_divider p \<noteq> 0xffffffff then jtagtap_next_clk_delay clock p else jtagtap_next_no_delay clock p)"

subsection \<open>Sequences\<close>

primrec jtagtap_tms_seq_clk_delay :: "'d tap_clock \<Rightarrow> u32 \<Rightarrow> nat \<Rightarrow> 'd jtag_pins \<Rightarrow> 'd jtag_pins" where
  "jtagtap_tms_seq_clk_delay clock tms_states 0 p = p"
| "jtagtap_tms_seq_clk_delay clock tms_states (Suc n) p =
     (let state = bit tms_states 0;
          p = gpio_clear_tck (gpio_set_tck clock (p\<lparr>tms_pin := state\<rparr>))
      in jtagtap_tms_seq_clk_delay clock (drop_bit 1 tms_states) n p)"

primrec tms_seq_no_delay_loop :: "'d tap_clock \<Rightarrow> u32 \<Rightarrow> bool \<Rightarrow> nat \<Rightarrow> 'd jtag_pins \<Rightarrow> 'd jtag_pins" where
  "tms_seq_no_delay_loop clock tms_states state 0 p = p"
| "tms_seq_no_delay_loop clock tms_states state (Suc n) p =
     (let p = gpio_set_tck clock (p\<lparr>tms_pin := state\<rparr>);
          tms_states = drop_bit 1 tms_states
      in tms_seq_no_delay_loop clock tms_states (bit tms_states 0) n (gpio_clear_tck p))"

definition jtagtap_tms_seq_no_delay :: "'d tap_clock \<Rightarrow> u32 \<Rightarrow> nat \<Rightarrow> 'd jtag_pins \<Rightarrow> 'd jtag_pins" where
  "jtagtap_tms_seq_no_delay clock tms_states clock_cycles p = tms_seq_no_delay_loop clock tms_states (bit tms_states 0) clock_cycles p"

definition jtagtap_tms_seq :: "'d tap_clock \<Rightarrow> u32 \<Rightarrow> nat \<Rightarrow> 'd jtag_pins \<Rightarrow> 'd jtag_pins" where
  "jtagtap_tms_seq clock tms_states ticks p =
     (let p = p\<lparr>tdi_pin := True\<rparr>
      in if target_clk_divider p \<noteq> 0xffffffff then jtagtap_tms_seq_clk_delay clock tms_states ticks p
         else jtagtap_tms_seq_no_delay clock tms_states ticks p)"

definition jtagtap_reset :: "'d tap_clock \<Rightarrow> 'd jtag_pins \<Rightarrow> 'd jtag_pins" where
  "jtagtap_reset clock = jtagtap_tms_seq clock 0x1f 6"

text \<open>The loops of a data sequence of n cycles, with the cycles that are left; the value collects the bits of a
  byte.\<close>

primrec tdi_tdo_clk_delay_loop ::
  "'d tap_clock \<Rightarrow> byte list \<Rightarrow> bool \<Rightarrow> nat \<Rightarrow> nat \<Rightarrow> u8 \<Rightarrow> byte list \<Rightarrow> 'd jtag_pins \<Rightarrow> (u8 \<times> byte list \<times> 'd jtag_pins) option" where
  "tdi_tdo_clk_delay_loop clock data_in final_tms n 0 v data_out p = Some (v, data_out, p)"
| "tdi_tdo_clk_delay_loop clock data_in final_tms n (Suc k) v data_out p =
     (let cycle = n - Suc k; b = cycle mod 8; byte = cycle div 8
      in if byte \<ge> length data_in then None
         else (let p = p\<lparr>tms_pin := (cycle + 1 \<ge> n \<and> final_tms)\<rparr>;
                   p = p\<lparr>tdi_pin := bit (data_in ! byte) b\<rparr>;
                   p = gpio_set_tck clock p;
                   v = (if tdo_pin p then v OR push_bit b 1 else v)
               in if b = 7
                  then if byte \<ge> length data_out then None
                       else tdi_tdo_clk_delay_loop clock data_in final_tms n k 0 (data_out[byte := v]) (gpio_clear_tck p)
                  else tdi_tdo_clk_delay_loop clock data_in final_tms n k v data_out (gpio_clear_tck p)))"

definition store_rest :: "nat \<Rightarrow> u8 \<Rightarrow> byte list \<Rightarrow> byte list option" where
  "store_rest clock_cycles v data_out =
     (if clock_cycles mod 8 \<noteq> 0
      then if (clock_cycles - 1) div 8 \<ge> length data_out then None else Some (data_out[(clock_cycles - 1) div 8 := v])
      else Some data_out)"

definition jtagtap_tdi_tdo_seq_clk_delay ::
  "'d tap_clock \<Rightarrow> byte list \<Rightarrow> byte list \<Rightarrow> bool \<Rightarrow> nat \<Rightarrow> 'd jtag_pins \<Rightarrow> (byte list \<times> 'd jtag_pins) option" where
  "jtagtap_tdi_tdo_seq_clk_delay clock data_in data_out final_tms clock_cycles p =
     do { (v, data_out, p) \<leftarrow> tdi_tdo_clk_delay_loop clock data_in final_tms clock_cycles clock_cycles 0 data_out p;
          data_out \<leftarrow> store_rest clock_cycles v data_out;
          Some (data_out, p) }"

primrec tdi_tdo_no_delay_loop ::
  "'d tap_clock \<Rightarrow> byte list \<Rightarrow> bool \<Rightarrow> nat \<Rightarrow> nat \<Rightarrow> u8 \<Rightarrow> byte list \<Rightarrow> 'd jtag_pins \<Rightarrow> (u8 \<times> byte list \<times> 'd jtag_pins) option" where
  "tdi_tdo_no_delay_loop clock data_in final_tms n 0 v data_out p = Some (v, data_out, p)"
| "tdi_tdo_no_delay_loop clock data_in final_tms n (Suc k) v data_out p =
     (let cycle = n - Suc k; b = cycle mod 8; byte = cycle div 8; tms = (cycle + 1 \<ge> n \<and> final_tms)
      in if byte \<ge> length data_in then None
         else (let tdi = bit (data_in ! byte) b;
                   p = gpio_clear_tck p;
                   p = p\<lparr>tdi_pin := tdi\<rparr>;
                   p = p\<lparr>tms_pin := tms\<rparr>;
                   p = gpio_set_tck clock p;
                   v = (if tdo_pin p then v OR push_bit b 1 else v)
               in if b = 7
                  then if byte \<ge> length data_out then None
                       else tdi_tdo_no_delay_loop clock data_in final_tms n k 0 (data_out[byte := v]) p
                  else tdi_tdo_no_delay_loop clock data_in final_tms n k v data_out p))"

definition jtagtap_tdi_tdo_seq_no_delay ::
  "'d tap_clock \<Rightarrow> byte list \<Rightarrow> byte list \<Rightarrow> bool \<Rightarrow> nat \<Rightarrow> 'd jtag_pins \<Rightarrow> (byte list \<times> 'd jtag_pins) option" where
  "jtagtap_tdi_tdo_seq_no_delay clock data_in data_out final_tms clock_cycles p =
     do { (v, data_out, p) \<leftarrow> tdi_tdo_no_delay_loop clock data_in final_tms clock_cycles clock_cycles 0 data_out p;
          data_out \<leftarrow> store_rest clock_cycles v data_out;
          Some (data_out, gpio_clear_tck p) }"

definition jtagtap_tdi_tdo_seq ::
  "'d tap_clock \<Rightarrow> byte list \<Rightarrow> bool \<Rightarrow> byte list \<Rightarrow> nat \<Rightarrow> 'd jtag_pins \<Rightarrow> (byte list \<times> 'd jtag_pins) option" where
  "jtagtap_tdi_tdo_seq clock data_out final_tms data_in clock_cycles p =
     (let p = p\<lparr>tms_pin := False, tdi_pin := False\<rparr>
      in if target_clk_divider p \<noteq> 0xffffffff then jtagtap_tdi_tdo_seq_clk_delay clock data_in data_out final_tms clock_cycles p
         else jtagtap_tdi_tdo_seq_no_delay clock data_in data_out final_tms clock_cycles p)"

primrec tdi_clk_delay_loop ::
  "'d tap_clock \<Rightarrow> byte list \<Rightarrow> bool \<Rightarrow> nat \<Rightarrow> nat \<Rightarrow> 'd jtag_pins \<Rightarrow> 'd jtag_pins option" where
  "tdi_clk_delay_loop clock data_in final_tms n 0 p = Some p"
| "tdi_clk_delay_loop clock data_in final_tms n (Suc k) p =
     (let cycle = n - Suc k; b = cycle mod 8; byte = cycle div 8
      in if byte \<ge> length data_in then None
         else (let p = p\<lparr>tms_pin := (cycle + 1 \<ge> n \<and> final_tms)\<rparr>;
                   p = p\<lparr>tdi_pin := bit (data_in ! byte) b\<rparr>
               in tdi_clk_delay_loop clock data_in final_tms n k (gpio_clear_tck (gpio_set_tck clock p))))"

definition jtagtap_tdi_seq_clk_delay :: "'d tap_clock \<Rightarrow> byte list \<Rightarrow> bool \<Rightarrow> nat \<Rightarrow> 'd jtag_pins \<Rightarrow> 'd jtag_pins option" where
  "jtagtap_tdi_seq_clk_delay clock data_in final_tms clock_cycles p = tdi_clk_delay_loop clock data_in final_tms clock_cycles clock_cycles p"

primrec tdi_no_delay_loop ::
  "'d tap_clock \<Rightarrow> byte list \<Rightarrow> bool \<Rightarrow> nat \<Rightarrow> nat \<Rightarrow> 'd jtag_pins \<Rightarrow> 'd jtag_pins option" where
  "tdi_no_delay_loop clock data_in final_tms n 0 p = Some p"
| "tdi_no_delay_loop clock data_in final_tms n (Suc k) p =
     (let cycle = n - Suc k; b = cycle mod 8; byte = cycle div 8; tms = (cycle + 1 \<ge> n \<and> final_tms)
      in if byte \<ge> length data_in then None
         else (let tdi = bit (data_in ! byte) b;
                   p = gpio_clear_tck p;
                   p = p\<lparr>tms_pin := tms\<rparr>;
                   p = p\<lparr>tdi_pin := tdi\<rparr>
               in tdi_no_delay_loop clock data_in final_tms n k (gpio_set_tck clock p)))"

definition jtagtap_tdi_seq_no_delay :: "'d tap_clock \<Rightarrow> byte list \<Rightarrow> bool \<Rightarrow> nat \<Rightarrow> 'd jtag_pins \<Rightarrow> 'd jtag_pins option" where
  "jtagtap_tdi_seq_no_delay clock data_in final_tms clock_cycles p =
     do { p \<leftarrow> tdi_no_delay_loop clock data_in final_tms clock_cycles clock_cycles p; Some (gpio_clear_tck p) }"

definition jtagtap_tdi_seq :: "'d tap_clock \<Rightarrow> bool \<Rightarrow> byte list \<Rightarrow> nat \<Rightarrow> 'd jtag_pins \<Rightarrow> 'd jtag_pins option" where
  "jtagtap_tdi_seq clock final_tms data_in clock_cycles p =
     (let p = p\<lparr>tms_pin := False\<rparr>
      in if target_clk_divider p \<noteq> 0xffffffff then jtagtap_tdi_seq_clk_delay clock data_in final_tms clock_cycles p
         else jtagtap_tdi_seq_no_delay clock data_in final_tms clock_cycles p)"

primrec jtagtap_cycle_clk_delay :: "'d tap_clock \<Rightarrow> nat \<Rightarrow> 'd jtag_pins \<Rightarrow> 'd jtag_pins" where
  "jtagtap_cycle_clk_delay clock 0 p = p"
| "jtagtap_cycle_clk_delay clock (Suc n) p = jtagtap_cycle_clk_delay clock n (gpio_clear_tck (gpio_set_tck clock p))"

primrec jtagtap_cycle_no_delay :: "'d tap_clock \<Rightarrow> nat \<Rightarrow> 'd jtag_pins \<Rightarrow> 'd jtag_pins" where
  "jtagtap_cycle_no_delay clock 0 p = p"
| "jtagtap_cycle_no_delay clock (Suc n) p = jtagtap_cycle_no_delay clock n (gpio_clear_tck (gpio_set_tck clock p))"

text \<open>The number of further cycles is clock_cycles - 1 in unsigned arithmetic.\<close>

definition jtagtap_cycle :: "'d tap_clock \<Rightarrow> bool \<Rightarrow> bool \<Rightarrow> u32 \<Rightarrow> 'd jtag_pins \<Rightarrow> 'd jtag_pins" where
  "jtagtap_cycle clock tms tdi clock_cycles p =
     (let p = snd (jtagtap_next clock tms tdi p)
      in if target_clk_divider p \<noteq> 0xffffffff then jtagtap_cycle_clk_delay clock (unat (clock_cycles - 1)) p
         else jtagtap_cycle_no_delay clock (unat (clock_cycles - 1)) p)"

primrec swd_idle :: "'d tap_clock \<Rightarrow> nat \<Rightarrow> 'd jtag_pins \<Rightarrow> 'd jtag_pins" where
  "swd_idle clock 0 p = p"
| "swd_idle clock (Suc n) p = swd_idle clock n (snd (jtagtap_next clock True False p))"

definition jtagtap_init :: "'d tap_clock \<Rightarrow> 'd jtag_pins \<Rightarrow> 'd jtag_pins" where
  "jtagtap_init clock p = jtagtap_tms_seq clock 0xe73c 16 (swd_idle clock 51 p)"


subsection \<open>Both variants do the same\<close>

lemma clear_simps [simp]:
  "gpio_clear_tck (gpio_clear_tck p) = gpio_clear_tck p" "tck_pin (gpio_clear_tck p) = False" "jp_dev (gpio_clear_tck p) = jp_dev p"
  "tdo_pin (gpio_clear_tck p) = tdo_pin p" "target_clk_divider (gpio_clear_tck p) = target_clk_divider p"
  "(gpio_clear_tck p)\<lparr>tms_pin := a\<rparr> = gpio_clear_tck (p\<lparr>tms_pin := a\<rparr>)" "(gpio_clear_tck p)\<lparr>tdi_pin := a\<rparr> = gpio_clear_tck (p\<lparr>tdi_pin := a\<rparr>)"
  by (simp_all add: gpio_clear_tck_def)

lemma tdi_tms_order: "p\<lparr>tdi_pin := a, tms_pin := b\<rparr> = p\<lparr>tms_pin := b, tdi_pin := a\<rparr>"
  by simp

lemma clear_low: "\<not> tck_pin p \<Longrightarrow> gpio_clear_tck p = p"
  by (simp add: gpio_clear_tck_def)

lemma tms_seq_same: "tms_seq_no_delay_loop clock w (bit w 0) n p = jtagtap_tms_seq_clk_delay clock w n p"
  by (induction n arbitrary: w p) (simp_all add: Let_def)

lemma tdi_tdo_same:
  "map_option (\<lambda>(v, out, q). (v, out, gpio_clear_tck q)) (tdi_tdo_no_delay_loop clock data_in f n k v out q) =
   tdi_tdo_clk_delay_loop clock data_in f n k v out (gpio_clear_tck q)"
  by (induction k arbitrary: v out q) (simp_all add: Let_def tdi_tms_order del: push_bit_of_1)

lemma tdi_same:
  "map_option gpio_clear_tck (tdi_no_delay_loop clock data_in f n k q) = tdi_clk_delay_loop clock data_in f n k (gpio_clear_tck q)"
  by (induction k arbitrary: q) (simp_all add: Let_def)

lemma cycle_same: "jtagtap_cycle_no_delay clock n p = jtagtap_cycle_clk_delay clock n p"
  by (induction n arbitrary: p) simp_all

lemma seq_no_delay:
  assumes "\<not> tck_pin p"
  shows "jtagtap_tms_seq_no_delay clock w n p = jtagtap_tms_seq_clk_delay clock w n p"
    "jtagtap_tdi_tdo_seq_no_delay clock data_in data_out f n p = jtagtap_tdi_tdo_seq_clk_delay clock data_in data_out f n p"
    "jtagtap_tdi_seq_no_delay clock data_in f n p = jtagtap_tdi_seq_clk_delay clock data_in f n p"
proof -
  show "jtagtap_tms_seq_no_delay clock w n p = jtagtap_tms_seq_clk_delay clock w n p" by (simp add: jtagtap_tms_seq_no_delay_def tms_seq_same)
  show "jtagtap_tdi_tdo_seq_no_delay clock data_in data_out f n p = jtagtap_tdi_tdo_seq_clk_delay clock data_in data_out f n p"
    using tdi_tdo_same [of clock data_in f n n 0 data_out p, symmetric]
    unfolding jtagtap_tdi_tdo_seq_clk_delay_def jtagtap_tdi_tdo_seq_no_delay_def clear_low [OF assms]
    by (cases "tdi_tdo_no_delay_loop clock data_in f n n 0 data_out p") auto
  show "jtagtap_tdi_seq_no_delay clock data_in f n p = jtagtap_tdi_seq_clk_delay clock data_in f n p"
    using tdi_same [of clock data_in f n n p, symmetric]
    unfolding jtagtap_tdi_seq_clk_delay_def jtagtap_tdi_seq_no_delay_def clear_low [OF assms]
    by (cases "tdi_no_delay_loop clock data_in f n n p") auto
qed

subsection \<open>What a sequence does to the device\<close>

primrec clocks :: "'d tap_clock \<Rightarrow> (bool \<times> bool) list \<Rightarrow> 'd \<Rightarrow> bool list \<times> 'd" where
  "clocks clock [] d = ([], d)"
| "clocks clock (x # xs) d = (let (out, d) = clock (fst x) (snd x) d; (outs, d) = clocks clock xs d in (out # outs, d))"

lemma clocks_append:
  "clocks clock (xs @ ys) d = (fst (clocks clock xs d) @ fst (clocks clock ys (snd (clocks clock xs d))), snd (clocks clock ys (snd (clocks clock xs d))))"
  by (induction xs arbitrary: d) (simp_all add: split_beta Let_def)

lemma length_clocks [simp]: "length (fst (clocks clock xs d)) = length xs"
  by (induction xs arbitrary: d) (simp_all add: split_beta Let_def)

definition idle_pins :: "'d jtag_pins \<Rightarrow> bool" where
  "idle_pins p \<longleftrightarrow> \<not> tck_pin p"

definition moved :: "'d jtag_pins \<Rightarrow> 'd jtag_pins \<Rightarrow> 'd \<Rightarrow> bool" where
  "moved p p' d \<longleftrightarrow> idle_pins p' \<and> jp_dev p' = d \<and> target_clk_divider p' = target_clk_divider p"

lemma pulse:
  "\<not> tck_pin p \<Longrightarrow> gpio_clear_tck (gpio_set_tck clock p) =
    p\<lparr>tdo_pin := fst (clock (tms_pin p) (tdi_pin p) (jp_dev p)), jp_dev := snd (clock (tms_pin p) (tdi_pin p) (jp_dev p))\<rparr>"
  "\<not> tck_pin p \<Longrightarrow> tdo_pin (gpio_set_tck clock p) = fst (clock (tms_pin p) (tdi_pin p) (jp_dev p))"
  by (simp_all add: gpio_set_tck_def gpio_clear_tck_def split_beta)

lemma next_clocks:
  assumes "idle_pins p"
  shows "\<exists>p'. jtagtap_next clock tms tdi p = (fst (clock tms tdi (jp_dev p)), p') \<and> moved p p' (snd (clock tms tdi (jp_dev p)))"
  using assms by (simp add: jtagtap_next_def jtagtap_next_clk_delay_def jtagtap_next_no_delay_def idle_pins_def Let_def pulse moved_def)

definition tms_steps :: "u32 \<Rightarrow> nat \<Rightarrow> (bool \<times> bool) list" where
  "tms_steps w n = map (\<lambda>i. (bit w i, True)) [0..<n]"

lemma tms_steps_Suc: "tms_steps w (Suc n) = (bit w 0, True) # tms_steps (drop_bit 1 w) n"
  by (rule nth_equalityI) (auto simp: tms_steps_def nth_Cons' bit_drop_bit_eq simp del: upt_Suc)

lemma tms_seq_delay_clocks:
  assumes "idle_pins p" "tdi_pin p"
  shows "moved p (jtagtap_tms_seq_clk_delay clock w n p) (snd (clocks clock (tms_steps w n) (jp_dev p)))"
  using assms
proof (induction n arbitrary: w p)
  case (Suc n)
  let ?p = "gpio_clear_tck (gpio_set_tck clock (p\<lparr>tms_pin := bit w 0\<rparr>))"
  have "idle_pins ?p \<and> tdi_pin ?p \<and> jp_dev ?p = snd (clock (bit w 0) True (jp_dev p)) \<and> target_clk_divider ?p = target_clk_divider p"
    using Suc.prems by (simp add: pulse idle_pins_def)
  then show ?case using Suc.IH [of ?p "drop_bit 1 w"] by (simp add: Let_def tms_steps_Suc moved_def split_beta)
qed (simp add: moved_def tms_steps_def)

lemma tms_seq_clocks:
  assumes "idle_pins p"
  shows "moved p (jtagtap_tms_seq clock w n p) (snd (clocks clock (tms_steps w n) (jp_dev p)))"
  using tms_seq_delay_clocks [of "p\<lparr>tdi_pin := True\<rparr>" clock w n] seq_no_delay(1) [of "p\<lparr>tdi_pin := True\<rparr>"] assms
  by (simp add: jtagtap_tms_seq_def Let_def idle_pins_def moved_def)


definition data_steps :: "byte list \<Rightarrow> bool \<Rightarrow> nat \<Rightarrow> (bool \<times> bool) list" where
  "data_steps data_in f n = map (\<lambda>c. (c + 1 \<ge> n \<and> f, bit (data_in ! (c div 8)) (c mod 8))) [0..<n]"

lemma length_data_steps [simp]: "length (data_steps data_in f n) = n"
  by (simp add: data_steps_def)

lemma data_steps_drop:
  "Suc k \<le> n \<Longrightarrow> drop (n - Suc k) (data_steps data_in f n) =
    (n - Suc k + 1 \<ge> n \<and> f, bit (data_in ! ((n - Suc k) div 8)) ((n - Suc k) mod 8)) # drop (n - k) (data_steps data_in f n)"
  by (subst Cons_nth_drop_Suc [symmetric]) (simp_all add: data_steps_def Suc_diff_Suc)

lemma tdi_delay_clocks:
  assumes "idle_pins p" "n \<le> 8 * length data_in" "k \<le> n"
  shows "\<exists>p'. tdi_clk_delay_loop clock data_in f n k p = Some p' \<and> moved p p' (snd (clocks clock (drop (n - k) (data_steps data_in f n)) (jp_dev p)))"
  using assms
proof (induction k arbitrary: p)
  case (Suc k)
  let ?c = "n - Suc k"
  let ?q = "p\<lparr>tms_pin := (?c + 1 \<ge> n \<and> f), tdi_pin := bit (data_in ! (?c div 8)) (?c mod 8)\<rparr>"
  let ?p = "gpio_clear_tck (gpio_set_tck clock ?q)"
  have c: "?c div 8 < length data_in" using Suc.prems(2,3) by (simp add: less_mult_imp_div_less mult.commute)
  have q: "idle_pins ?p" "jp_dev ?p = snd (clock (?c + 1 \<ge> n \<and> f) (bit (data_in ! (?c div 8)) (?c mod 8)) (jp_dev p))"
    "target_clk_divider ?p = target_clk_divider p" using Suc.prems(1) by (simp_all add: pulse idle_pins_def)
  show ?case using Suc.IH [OF q(1) Suc.prems(2)] Suc.prems(3) c q
    by (simp add: Let_def data_steps_drop moved_def split_beta)
qed (simp add: moved_def data_steps_def)

lemma tdi_seq_clocks:
  assumes "idle_pins p" "n \<le> 8 * length data_in"
  shows "\<exists>p'. jtagtap_tdi_seq clock f data_in n p = Some p' \<and> moved p p' (snd (clocks clock (data_steps data_in f n) (jp_dev p)))"
  using tdi_delay_clocks [of "p\<lparr>tms_pin := False\<rparr>" n data_in n clock f] seq_no_delay(3) [of "p\<lparr>tms_pin := False\<rparr>"] assms
  by (auto simp: jtagtap_tdi_seq_def jtagtap_tdi_seq_clk_delay_def Let_def idle_pins_def moved_def)

definition byte_of_bits :: "bool list \<Rightarrow> byte" where
  "byte_of_bits bs = horner_sum of_bool 2 bs"

definition chunk :: "bool list \<Rightarrow> nat \<Rightarrow> byte" where
  "chunk bs i = byte_of_bits (take 8 (drop (8 * i) bs))"

definition pack_bits :: "bool list \<Rightarrow> byte list" where
  "pack_bits bs = map (chunk bs) [0..<(length bs + 7) div 8]"

definition stored :: "bool list \<Rightarrow> byte list \<Rightarrow> byte list" where
  "stored bs out = map (chunk bs) [0..<length bs div 8] @ drop (length bs div 8) out"

lemma div_8:
  fixes m :: nat
  shows "m mod 8 = 0 \<Longrightarrow> (m + 7) div 8 = m div 8"
    and "m mod 8 \<noteq> 0 \<Longrightarrow> (m + 7) div 8 = Suc (m div 8)"
    and "m mod 8 \<noteq> 0 \<Longrightarrow> (m - 1) div 8 = m div 8"
    and "m mod 8 \<noteq> 0 \<Longrightarrow> m \<le> 8 * l \<Longrightarrow> m div 8 < l"
    and "m mod 8 = 7 \<Longrightarrow> 8 * (Suc m div 8) = Suc m"
    and "m mod 8 = 7 \<Longrightarrow> m = 8 * (m div 8) + 7"
    and "m mod 8 = 7 \<Longrightarrow> (m + 1) div 8 = Suc (m div 8)"
    and "m mod 8 \<noteq> 7 \<Longrightarrow> Suc m div 8 = m div 8"
proof -
  define q r where qr: "q = m div 8" "r = m mod 8"
  have m: "m = 8 * q + r" "m div 8 = q" "m mod 8 = r" "r < 8" by (simp_all add: qr)
  have d: "(8 * q + k) div 8 = q + k div 8" for k by (simp add: div_mult_self4)
  have s: "Suc m = 8 * q + Suc r" "m + 7 = 8 * q + (r + 7)" "m + 1 = 8 * q + (r + 1)" using m(1) by simp_all
  show "m mod 8 = 0 \<Longrightarrow> (m + 7) div 8 = m div 8" unfolding m(2,3) s(2) d by simp
  show "m mod 8 \<noteq> 0 \<Longrightarrow> (m + 7) div 8 = Suc (m div 8)" unfolding m(2,3) s(2) d using m(4) by simp
  show "m mod 8 \<noteq> 0 \<Longrightarrow> (m - 1) div 8 = m div 8"
  proof -
    assume "m mod 8 \<noteq> 0"
    then have "m - 1 = 8 * q + (r - 1)" using m(1,3) by simp
    then show "(m - 1) div 8 = m div 8" using m(2,4) by (simp add: d)
  qed
  show "m mod 8 \<noteq> 0 \<Longrightarrow> m \<le> 8 * l \<Longrightarrow> m div 8 < l" unfolding m(2,3) using m(1) by linarith
  show "m mod 8 = 7 \<Longrightarrow> 8 * (Suc m div 8) = Suc m" unfolding m(3) s(1) d by simp
  show "m mod 8 = 7 \<Longrightarrow> m = 8 * (m div 8) + 7" using m by simp
  show "m mod 8 = 7 \<Longrightarrow> (m + 1) div 8 = Suc (m div 8)" unfolding m(2,3) s(3) d by simp
  show "m mod 8 \<noteq> 7 \<Longrightarrow> Suc m div 8 = m div 8" unfolding m(2,3) s(1) d using m(4) by simp
qed

lemma byte_of_bits_add: "length bs < 8 \<Longrightarrow> (if b then byte_of_bits bs OR push_bit (length bs) 1 else byte_of_bits bs) = byte_of_bits (bs @ [b])"
  by (rule bit_word_eqI) (auto simp: byte_of_bits_def bit_horner_sum_bit_word_iff bit_simps nth_append less_Suc_eq)

lemma chunk_append: "Suc i * 8 \<le> length bs \<Longrightarrow> chunk (bs @ cs) i = chunk bs i"
  by (simp add: chunk_def)

lemma stored_add:
  assumes "length bs mod 8 = 7" "length bs div 8 < length out"
  shows "(stored bs out)[length bs div 8 := byte_of_bits (drop (8 * (length bs div 8)) bs @ [b])] = stored (bs @ [b]) out"
proof -
  let ?k = "length bs div 8"
  have k: "length bs = 8 * ?k + 7" "(length bs + 1) div 8 = Suc ?k" using div_8(6,7) [OF assms(1)] by simp_all
  have old: "map (chunk (bs @ [b])) [0..<?k] = map (chunk bs) [0..<?k]" using k(1) by (intro map_cong) (auto intro!: chunk_append)
  have new: "chunk (bs @ [b]) ?k = byte_of_bits (drop (8 * ?k) bs @ [b])" using k(1) by (simp add: chunk_def)
  have "drop ?k out = out ! ?k # drop (Suc ?k) out" using assms(2) by (simp add: Cons_nth_drop_Suc)
  then show ?thesis using old new k(2) by (simp add: stored_def list_update_append)
qed

lemma stored_same: "length bs mod 8 \<noteq> 7 \<Longrightarrow> stored (bs @ [b]) out = stored bs out"
proof -
  assume "length bs mod 8 \<noteq> 7"
  then have k: "(length bs + 1) div 8 = length bs div 8" using div_8(8) by simp
  have "map (chunk (bs @ [b])) [0..<length bs div 8] = map (chunk bs) [0..<length bs div 8]"
    by (intro map_cong) (auto intro!: chunk_append)
  then show ?thesis using k by (simp add: stored_def)
qed


lemma length_stored [simp]: "length bs \<le> 8 * length out \<Longrightarrow> length (stored bs out) = length out"
  by (simp add: stored_def)

lemma tdi_tdo_delay_clocks:
  assumes "idle_pins p" "n \<le> 8 * length data_in" "n \<le> 8 * length out" "k \<le> n" "length bs = n - k"
    "v = byte_of_bits (drop (8 * (length bs div 8)) bs)"
    "r = clocks clock (drop (n - k) (data_steps data_in f n)) (jp_dev p)" "bs' = bs @ fst r"
  shows "\<exists>p'. tdi_tdo_clk_delay_loop clock data_in f n k v (stored bs out) p =
      Some (byte_of_bits (drop (8 * (length bs' div 8)) bs'), stored bs' out, p') \<and> moved p p' (snd r)"
  using assms
proof (induction k arbitrary: p bs v r bs')
  case 0
  then show ?case by (simp add: moved_def data_steps_def)
next
  case (Suc k)
  let ?c = "n - Suc k"
  let ?tms = "?c + 1 \<ge> n \<and> f" and ?tdi = "bit (data_in ! (?c div 8)) (?c mod 8)"
  let ?q = "p\<lparr>tms_pin := ?tms, tdi_pin := ?tdi\<rparr>"
  let ?p = "gpio_clear_tck (gpio_set_tck clock ?q)" and ?b = "fst (clock ?tms ?tdi (jp_dev p))"
  have lt: "?c div 8 < length data_in" "?c div 8 < length out" "length bs = ?c"
    using Suc.prems(2,3,4,5) by (simp_all add: less_mult_imp_div_less mult.commute)
  have q: "idle_pins ?p" "jp_dev ?p = snd (clock ?tms ?tdi (jp_dev p))" "target_clk_divider ?p = target_clk_divider p"
    "tdo_pin (gpio_set_tck clock ?q) = ?b" using Suc.prems(1) by (simp_all add: pulse idle_pins_def)
  let ?bs = "bs @ [?b]" and ?r = "clocks clock (drop (n - k) (data_steps data_in f n)) (jp_dev ?p)"
  have r: "r = (?b # fst ?r, snd ?r)" unfolding Suc.prems(7) data_steps_drop [OF Suc.prems(4)] using q(2) by (simp add: split_beta)
  have bs': "bs' = ?bs @ fst ?r" using Suc.prems(8) r by simp
  have d: "length (drop (8 * (length bs div 8)) bs) = ?c mod 8" using lt(3) by (simp add: minus_mult_div_eq_mod)
  have v: "(if ?b then v OR push_bit (?c mod 8) 1 else v) = byte_of_bits (drop (8 * (length bs div 8)) bs @ [?b])"
    unfolding Suc.prems(6) d [symmetric] by (rule byte_of_bits_add) (simp del: length_drop add: d)
  let ?v = "byte_of_bits (drop (8 * (length bs div 8)) bs @ [?b])"
  have step: "tdi_tdo_clk_delay_loop clock data_in f n (Suc k) v (stored bs out) p =
    tdi_tdo_clk_delay_loop clock data_in f n k (if ?c mod 8 = 7 then 0 else ?v) (stored ?bs out) ?p"
  proof (cases "?c mod 8 = 7")
    case True
    then show ?thesis using lt v q(4) stored_add [of bs out ?b] Suc.prems(3,4) by (simp add: Let_def)
  next
    case False
    then show ?thesis using lt v q(4) stored_same [of bs ?b out] by (simp add: Let_def)
  qed
  have w: "(if ?c mod 8 = 7 then 0 else ?v) = byte_of_bits (drop (8 * (length ?bs div 8)) ?bs)"
  proof (cases "?c mod 8 = 7")
    case True
    then have "8 * (length ?bs div 8) = length ?bs" using div_8(5) lt(3) by simp
    then show ?thesis using True by (simp add: byte_of_bits_def)
  next
    case False
    then have "length ?bs div 8 = length bs div 8" using div_8(8) lt(3) by simp
    then show ?thesis using False by simp
  qed
  have "\<exists>p'. tdi_tdo_clk_delay_loop clock data_in f n k (if ?c mod 8 = 7 then 0 else ?v) (stored ?bs out) ?p =
      Some (byte_of_bits (drop (8 * (length bs' div 8)) bs'), stored bs' out, p') \<and> moved ?p p' (snd ?r)"
    by (rule Suc.IH [OF q(1) Suc.prems(2,3) _ _ w refl bs']) (use Suc.prems(4,5) in simp_all)
  then show ?case unfolding step using q(3) r by (auto simp: moved_def)
qed

lemma stored_rest:
  assumes "length bs \<le> 8 * length out"
  shows "store_rest (length bs) (byte_of_bits (drop (8 * (length bs div 8)) bs)) (stored bs out) =
    Some (pack_bits bs @ drop ((length bs + 7) div 8) out)"
proof (cases "length bs mod 8 = 0")
  case True
  then have "(length bs + 7) div 8 = length bs div 8" by (rule div_8(1))
  then show ?thesis using True by (simp add: store_rest_def stored_def pack_bits_def)
next
  case False
  let ?k = "length bs div 8"
  have k: "(length bs + 7) div 8 = Suc ?k" "(length bs - 1) div 8 = ?k" "?k < length out" using div_8(2-4) [OF False] assms by simp_all
  have "length (drop (8 * ?k) bs) \<le> 8" using minus_mult_div_eq_mod [of "length bs" 8] mod_less_divisor [of 8 "length bs"] by simp
  then have "chunk bs ?k = byte_of_bits (drop (8 * ?k) bs)" unfolding chunk_def by (metis take_all)
  moreover have "drop ?k out = out ! ?k # drop (Suc ?k) out" using k(3) by (simp add: Cons_nth_drop_Suc)
  ultimately show ?thesis using False k assms by (simp add: store_rest_def stored_def pack_bits_def list_update_append)
qed

lemma tdi_tdo_seq_clocks:
  assumes "idle_pins p" "n \<le> 8 * length data_in" "n \<le> 8 * length out"
  shows "\<exists>p'. jtagtap_tdi_tdo_seq clock out f data_in n p =
      Some (pack_bits (fst (clocks clock (data_steps data_in f n) (jp_dev p))) @ drop ((n + 7) div 8) out, p') \<and>
    moved p p' (snd (clocks clock (data_steps data_in f n) (jp_dev p)))"
proof -
  let ?p = "p\<lparr>tms_pin := False, tdi_pin := False\<rparr>" and ?r = "clocks clock (data_steps data_in f n) (jp_dev p)"
  have l: "length (fst ?r) = n" by (simp add: data_steps_def)
  have s: "stored [] out = out" "byte_of_bits (drop (8 * (length [] div 8)) []) = 0" by (simp_all add: stored_def byte_of_bits_def)
  obtain p' where p': "tdi_tdo_clk_delay_loop clock data_in f n n 0 out ?p =
      Some (byte_of_bits (drop (8 * (length (fst ?r) div 8)) (fst ?r)), stored (fst ?r) out, p')" "moved ?p p' (snd ?r)"
    using tdi_tdo_delay_clocks [of ?p n data_in out n "[]" 0 ?r clock f "fst ?r"] assms s by (auto simp: idle_pins_def)
  have "jtagtap_tdi_tdo_seq_clk_delay clock data_in out f n ?p = Some (pack_bits (fst ?r) @ drop ((n + 7) div 8) out, p')"
    using stored_rest [of "fst ?r" out] assms(3) unfolding l by (simp add: jtagtap_tdi_tdo_seq_clk_delay_def p'(1) l)
  then show ?thesis using p'(2) seq_no_delay(2) [of ?p] assms(1)
    by (auto simp: jtagtap_tdi_tdo_seq_def Let_def idle_pins_def moved_def)
qed

end
