(* ===== verification/Jtag_Scan.thy ===== *)
theory Jtag_Scan
  imports Prelude
begin

text \<open>
  JTAG chain scan, src/target/jtag_scan.c, with the device table of src/target/jtag_devs.c. The port is the
  record jtag_proc of functions over a state; that state holds everything the functions reach. The bytes of
  data are lists; None is an access outside an array or a shift by the width of the word. What a handler of
  the table does with a device is a parameter, as are the list of targets, which the scan frees first, and the
  initialisation of the port. Debug output is left out.
\<close>

subsection \<open>The port\<close>

record 's jtag_proc =
  proc_reset :: "'s \<Rightarrow> 's option"
  proc_next :: "bool \<Rightarrow> bool \<Rightarrow> 's \<Rightarrow> (bool \<times> 's) option"
  proc_tms_seq :: "u32 \<Rightarrow> nat \<Rightarrow> 's \<Rightarrow> 's option"
  proc_tdi_tdo_seq :: "byte list \<Rightarrow> bool \<Rightarrow> byte list \<Rightarrow> nat \<Rightarrow> 's \<Rightarrow> (byte list \<times> 's) option"
  proc_tdi_seq :: "bool \<Rightarrow> byte list \<Rightarrow> nat \<Rightarrow> 's \<Rightarrow> 's option"
  proc_cycle :: "bool \<Rightarrow> bool \<Rightarrow> u32 \<Rightarrow> 's \<Rightarrow> 's option"
  tap_idle_cycles :: u8

definition jtagtap_shift_ir :: "'s jtag_proc \<Rightarrow> 's \<Rightarrow> 's option" where
  "jtagtap_shift_ir proc = proc_tms_seq proc 0x03 4"

definition jtagtap_shift_dr :: "'s jtag_proc \<Rightarrow> 's \<Rightarrow> 's option" where
  "jtagtap_shift_dr proc = proc_tms_seq proc 0x01 3"

definition jtagtap_return_idle :: "'s jtag_proc \<Rightarrow> nat \<Rightarrow> 's \<Rightarrow> 's option" where
  "jtagtap_return_idle proc cycles = proc_tms_seq proc 0x01 (cycles + 1)"

subsection \<open>Devices\<close>

record jtag_ir_quirks =
  quirk_value :: u32
  quirk_length :: u8

datatype jtag_handler = Adiv5_jtag_dp | Riscv_jtag_dtm

record jtag_dev_descr =
  d_idcode :: u32
  d_idmask :: u32
  d_descr :: string
  d_handler :: "jtag_handler option"
  d_quirks :: jtag_ir_quirks

definition descriptor :: "u32 \<Rightarrow> u32 \<Rightarrow> string \<Rightarrow> jtag_handler option \<Rightarrow> u8 \<Rightarrow> u32 \<Rightarrow> jtag_dev_descr" where
  "descriptor idcode idmask descr handler ir_length ir_value =
     \<lparr>d_idcode = idcode, d_idmask = idmask, d_descr = descr, d_handler = handler,
      d_quirks = \<lparr>quirk_value = ir_value, quirk_length = ir_length\<rparr>\<rparr>"

text \<open>The options of a build.\<close>

record jtag_build =
  enable_debug :: bool
  enable_xilinx :: bool
  enable_riscv :: bool
  enable_cortexar :: bool

definition esp32_build :: jtag_build where
  "esp32_build = \<lparr>enable_debug = True, enable_xilinx = False, enable_riscv = False, enable_cortexar = False\<rparr>"

definition descr_arm :: "jtag_build \<Rightarrow> jtag_dev_descr list" where
  "descr_arm cfg =
   [descriptor 0x0ba00477 0x0fff0fff ''ADIv5 JTAG-DP port.'' (Some Adiv5_jtag_dp) 0 0] @
   (if enable_debug cfg then [
    descriptor 0x00000477 0x00000fff ''Unknown ARM.'' None 0 0,
    descriptor 0x06410041 0x0fffffff ''STM32, Medium density.'' None 0 0,
    descriptor 0x06412041 0x0fffffff ''STM32, Low density.'' None 0 0,
    descriptor 0x06414041 0x0fffffff ''STM32, High density.'' None 0 0,
    descriptor 0x06416041 0x0fffffff ''STM32L.'' None 0 0,
    descriptor 0x06418041 0x0fffffff ''STM32, Connectivity Line.'' None 0 0,
    descriptor 0x06420041 0x0fffffff ''STM32, Value Line.'' None 0 0,
    descriptor 0x06428041 0x0fffffff ''STM32, Value Line, High density.'' None 0 0,
    descriptor 0x06411041 0xffffffff ''STM32F2xx.'' None 0 0,
    descriptor 0x06422041 0xffffffff ''STM32F3xx.'' None 0 0,
    descriptor 0x06413041 0xffffffff ''STM32F4xx.'' None 0 0,
    descriptor 0x00000041 0x00000fff ''STM32 BSD.'' None 0 0,
    descriptor 0x0bb11477 0xffffffff ''NPX: LPC11C24.'' None 0 0] else [])"

definition descr_xilinx_1 :: "jtag_dev_descr list" where
  "descr_xilinx_1 = [
    descriptor 0x1396d093 0xffffffff ''Xilinx XCVU440.'' None 18 0x11451,
    descriptor 0x0484a093 0x0fffffff ''Xilinx, 6-bit IR.'' None 6 1,
    descriptor 0x04af2093 0x0fffffff ''Xilinx 12-bit IR.'' None 12 1,
    descriptor 0x036d9093 0x0fffffff ''Xilinx 22-bit IR.'' None 22 1,
    descriptor 0x036db093 0x0fffffff ''Xilinx 38-bit IR.'' None 38 1,
    descriptor 0x0396d093 0x0fffdfff ''Xilinx 18-bit IR.'' None 18 1,
    descriptor 0x03931093 0x0fffdfff ''Xilinx 18-bit IR.'' None 18 1,
    descriptor 0x04b79093 0x0fffbfff ''Xilinx 18-bit IR.'' None 18 1,
    descriptor 0x04ac0033 0x0fff9fff ''Xilinx 6-bit IR.'' None 6 1,
    descriptor 0x0380d093 0x0feddfff ''Xilinx 12-bit IR.'' None 12 1,
    descriptor 0x04600093 0x0fe53fff ''Xilinx 12-bit IR.'' None 12 1,
    descriptor 0x04b21093 0x0ffa1fff ''Xilinx 12-bit IR.'' None 12 1]"

definition descr_xilinx_2 :: "jtag_dev_descr list" where
  "descr_xilinx_2 = [
    descriptor 0x04b01093 0x0ffa1fff ''Xilinx 18-bit IR.'' None 18 1,
    descriptor 0x04b01093 0x0ff81fff ''Xilinx 18-bit IR.'' None 18 1,
    descriptor 0x04b01093 0x0ff09fff ''Xilinx 24-bit IR.'' None 24 1,
    descriptor 0x04d00093 0x0ffc0fff ''Xilinx 21-bit OR 14-bit IR.'' None 21 1,
    descriptor 0x03681093 0x0ff81fff ''Xilinx 24-bit IR.'' None 6 1,
    descriptor 0x04c00093 0x0fe88fff ''Xilinx 28-bit IR.'' None 28 1,
    descriptor 0x03800093 0x0fe80fff ''Xilinx 6-bit IR.'' None 6 1,
    descriptor 0x03600093 0x0fe00fff ''Xilinx 6-bit IR.'' None 6 0x11,
    descriptor 0x04c00093 0x0fe00fff ''Xilinx 6-bit IR.'' None 6 1,
    descriptor 0x04a00093 0x0fe00fff ''Xilinx 6-bit IR.'' None 6 1,
    descriptor 0x04600093 0x0fe00fff ''Xilinx 12-bit IR.'' None 12 1,
    descriptor 0x00000093 0x00000fff ''Xilinx.'' None 6 1]"

definition descr_others :: "jtag_build \<Rightarrow> jtag_dev_descr list" where
  "descr_others cfg =
   (if enable_riscv cfg then [
    descriptor 0x0000563d 0x0fffffff ''RISC-V debug v0.13.'' (Some Riscv_jtag_dtm) 0 0] else []) @
   (if enable_cortexar cfg then [
    descriptor 0x0b90002f 0x0ff00fff ''TI ICEPick.'' None 0 0] else []) @
   (if enable_debug cfg then [
    descriptor 0x000007a3 0x00000fff ''Gigadevice BSD.'' None 0 0,
    descriptor 0x8940303f 0xffffffff ''ATMega16.'' None 0 0,
    descriptor 0x0792603f 0xffffffff ''AT91SAM9261.'' None 0 0,
    descriptor 0x20270013 0xffffffff ''i80386ex.'' None 0 0,
    descriptor 0x07b7617f 0xffffffff ''BCM2835.'' None 0 0] else []) @
   [descriptor 0 0 ''Unknown'' None 0 0]"

definition dev_descr :: "jtag_build \<Rightarrow> jtag_dev_descr list" where
  "dev_descr cfg = descr_arm cfg @ (if enable_xilinx cfg then descr_xilinx_1 @ descr_xilinx_2 else []) @ descr_others cfg"

record jtag_dev =
  jd_idcode :: u32
  current_ir :: u32
  dr_prescan :: u8
  dr_postscan :: u8
  ir_len :: u8
  ir_prescan :: u8
  ir_postscan :: u8

definition zero_dev :: jtag_dev where
  "zero_dev = \<lparr>jd_idcode = 0, current_ir = 0, dr_prescan = 0, dr_postscan = 0, ir_len = 0, ir_prescan = 0, ir_postscan = 0\<rparr>"

abbreviation (input) JTAG_MAX_DEVS :: nat where "JTAG_MAX_DEVS \<equiv> 32"
abbreviation (input) JTAG_MAX_IR_LEN :: u8 where "JTAG_MAX_IR_LEN \<equiv> 32"

definition ones :: "byte list" where
  "ones = replicate 8 0xff"

record 's jtag =
  jtag_devs :: "jtag_dev list"
  jtag_dev_count :: u32
  js_port :: 's

definition on_port :: "('s \<Rightarrow> 's option) \<Rightarrow> 's jtag \<Rightarrow> 's jtag option" where
  "on_port f s = do { p \<leftarrow> f (js_port s); Some (s\<lparr>js_port := p\<rparr>) }"

definition from_port :: "('s \<Rightarrow> ('a \<times> 's) option) \<Rightarrow> 's jtag \<Rightarrow> ('a \<times> 's jtag) option" where
  "from_port f s = do { (x, p) \<leftarrow> f (js_port s); Some (x, s\<lparr>js_port := p\<rparr>) }"

definition get_dev :: "nat \<Rightarrow> 's jtag \<Rightarrow> jtag_dev option" where
  "get_dev i s = (if i < length (jtag_devs s) then Some (jtag_devs s ! i) else None)"

definition upd_dev :: "nat \<Rightarrow> (jtag_dev \<Rightarrow> jtag_dev) \<Rightarrow> 's jtag \<Rightarrow> 's jtag option" where
  "upd_dev i f s = (if i < length (jtag_devs s) then Some (s\<lparr>jtag_devs := (jtag_devs s)[i := f (jtag_devs s ! i)]\<rparr>) else None)"

definition jtag_add_device :: "u32 \<Rightarrow> jtag_dev \<Rightarrow> 's jtag \<Rightarrow> 's jtag option" where
  "jtag_add_device dev_index dev s =
     do { let s = (if dev_index = 0 then s\<lparr>jtag_devs := replicate JTAG_MAX_DEVS zero_dev\<rparr> else s);
          s \<leftarrow> upd_dev (unat dev_index) (\<lambda>_. dev) s;
          Some (s\<lparr>jtag_dev_count := dev_index + 1\<rparr>) }"

subsection \<open>Scanning the chain\<close>

text \<open>From the given device on; the result is False when the chain is too long, and the number of devices.\<close>

function read_idcodes_loop :: "'s jtag_proc \<Rightarrow> nat \<Rightarrow> 's jtag \<Rightarrow> ((bool \<times> nat) \<times> 's jtag) option" where
  "read_idcodes_loop proc device s =
     (if device > JTAG_MAX_DEVS then Some ((True, device), s)
      else do { (bs, s) \<leftarrow> from_port (proc_tdi_tdo_seq proc (replicate 4 0) False ones 32) s;
                let idcode = u32_of_bytes bs;
                if idcode = 0xffffffff then Some ((True, device), s)
                else if device = JTAG_MAX_DEVS then Some ((False, device), s\<lparr>jtag_dev_count := 0\<rparr>)
                else do { s \<leftarrow> upd_dev device (\<lambda>d. d\<lparr>jd_idcode := idcode\<rparr>) s;
                          read_idcodes_loop proc (device + 1) s } })"
  by pat_completeness auto
termination by (relation "measure (\<lambda>(proc, device, s). 33 - device)") auto

definition jtag_read_idcodes :: "'s jtag_proc \<Rightarrow> 's jtag \<Rightarrow> (bool \<times> 's jtag) option" where
  "jtag_read_idcodes proc s =
     do { s \<leftarrow> on_port (jtagtap_shift_dr proc) s;
          ((ok, device), s) \<leftarrow> read_idcodes_loop proc 0 s;
          if \<not> ok then Some (False, s)
          else do { (_, s) \<leftarrow> from_port (proc_next proc True True) s;
                    s \<leftarrow> on_port (jtagtap_return_idle proc 1) s;
                    Some (True, s\<lparr>jtag_dev_count := of_nat device\<rparr>) } }"

definition find_descr :: "jtag_build \<Rightarrow> u32 \<Rightarrow> jtag_dev_descr option" where
  "find_descr cfg idcode =
     List.find (\<lambda>d. idcode AND d_idmask d = d_idcode d) (takeWhile (\<lambda>d. d_idcode d \<noteq> 0) (dev_descr cfg))"

definition jtag_device_get_quirks :: "jtag_build \<Rightarrow> u32 \<Rightarrow> jtag_ir_quirks" where
  "jtag_device_get_quirks cfg idcode =
     (case find_descr cfg idcode of Some d \<Rightarrow> d_quirks d | None \<Rightarrow> \<lparr>quirk_value = 0, quirk_length = 0\<rparr>)"

text \<open>The loop of jtag_read_irs. The result is False when a bit does not match the quirk, and otherwise the length
  the loop ends with.\<close>

function read_irs_loop ::
  "jtag_build \<Rightarrow> 's jtag_proc \<Rightarrow> nat \<Rightarrow> nat \<Rightarrow> u8 \<Rightarrow> jtag_ir_quirks \<Rightarrow> 's jtag \<Rightarrow> ((bool \<times> u8) \<times> 's jtag) option" where
  "read_irs_loop cfg proc prescan device len quirks s =
     (if len > JTAG_MAX_IR_LEN then Some ((True, len), s)
      else do { (next_bit, s) \<leftarrow> from_port (proc_next proc False True) s;
                if quirk_length quirks \<noteq> 0 \<and> len \<ge> 32 then None
                else if quirk_length quirks \<noteq> 0 \<and> bit (quirk_value quirks) (unat len) \<noteq> next_bit
                then Some ((False, len), s\<lparr>jtag_dev_count := 0\<rparr>)
                else (let len' = len + 1
                      in if quirk_length quirks = 0 \<and> next_bit \<and> len' > 1 \<or> len' = quirk_length quirks
                         then if quirk_length quirks = 0 \<and> len' = 2 then Some ((True, len'), s)
                              else (let overrun = (if quirk_length quirks \<noteq> 0 then 0 else 1);
                                        device_ir = len' - overrun
                                    in do { s \<leftarrow> upd_dev device (\<lambda>d. d\<lparr>ir_len := device_ir, ir_prescan := of_nat prescan, current_ir := 0xffffffff\<rparr>) s;
                                            d \<leftarrow> get_dev (device + 1) s;
                                            read_irs_loop cfg proc (prescan + unat device_ir) (device + 1) overrun (jtag_device_get_quirks cfg (jd_idcode d)) s })
                         else read_irs_loop cfg proc prescan device len' quirks s) })"
  by pat_completeness auto
termination
  by (relation "measure (\<lambda>(cfg, proc, prescan, device, len, quirks, s). (length (jtag_devs s) - device) * 34 + (33 - unat len))")
    (auto simp: upd_dev_def get_dev_def from_port_def word_le_nat_alt word_less_nat_alt unat_word_ariths split: if_splits bind_splits)

declare read_idcodes_loop.simps [simp del]
declare read_irs_loop.simps [simp del]

definition jtag_read_irs :: "jtag_build \<Rightarrow> 's jtag_proc \<Rightarrow> 's jtag \<Rightarrow> (bool \<times> 's jtag) option" where
  "jtag_read_irs cfg proc s =
     do { s \<leftarrow> on_port (jtagtap_shift_ir proc) s;
          d \<leftarrow> get_dev 0 s;
          ((ok, len), s) \<leftarrow> read_irs_loop cfg proc 0 0 0 (jtag_device_get_quirks cfg (jd_idcode d)) s;
          if \<not> ok then Some (False, s)
          else if len > JTAG_MAX_IR_LEN then Some (False, s\<lparr>jtag_dev_count := 0\<rparr>)
          else Some (True, s) }"

function sanity_loop :: "'s jtag_proc \<Rightarrow> nat \<Rightarrow> 's jtag \<Rightarrow> (nat \<times> 's jtag) option" where
  "sanity_loop proc device s =
     (if device > unat (jtag_dev_count s) then Some (device, s)
      else do { (b, s) \<leftarrow> from_port (proc_next proc False True) s;
                if b then Some (device, s)
                else do { s \<leftarrow> upd_dev device (\<lambda>d. d\<lparr>dr_prescan := of_nat device, dr_postscan := ucast (jtag_dev_count s - of_nat device - 1)\<rparr>) s;
                          sanity_loop proc (device + 1) s } })"
  by pat_completeness auto
termination
  by (relation "measure (\<lambda>(proc, device, s). Suc (unat (jtag_dev_count s)) - device)")
    (auto simp: upd_dev_def from_port_def split: if_splits bind_splits)

declare sanity_loop.simps [simp del]

definition jtag_sanity_check :: "'s jtag_proc \<Rightarrow> 's jtag \<Rightarrow> (bool \<times> 's jtag) option" where
  "jtag_sanity_check proc s =
     do { s \<leftarrow> on_port (jtagtap_shift_dr proc) s;
          (device, s) \<leftarrow> sanity_loop proc 0 s;
          if device \<noteq> unat (jtag_dev_count s) then Some (False, s\<lparr>jtag_dev_count := 0\<rparr>)
          else do { (_, s) \<leftarrow> from_port (proc_next proc True True) s;
                    s \<leftarrow> on_port (jtagtap_return_idle proc 1) s;
                    Some (jtag_dev_count s \<noteq> 0, s) } }"

text \<open>The devices idx - 1, ..., 0 get what lies behind them.\<close>

primrec fill_postscan :: "nat \<Rightarrow> u8 \<Rightarrow> 's jtag \<Rightarrow> 's jtag option" where
  "fill_postscan 0 postscan s = Some s"
| "fill_postscan (Suc idx) postscan s =
     do { s \<leftarrow> upd_dev idx (\<lambda>d. d\<lparr>ir_postscan := postscan\<rparr>) s;
          d \<leftarrow> get_dev idx s;
          fill_postscan idx (postscan + ir_len d) s }"

record 's jtag_ext =
  jx_target_list_free :: "'s \<Rightarrow> 's option"
  jx_jtagtap_init :: "'s \<Rightarrow> 's option"
  jx_handler :: "jtag_handler \<Rightarrow> u8 \<Rightarrow> 's jtag \<Rightarrow> 's jtag option"

primrec run_handlers :: "jtag_build \<Rightarrow> 's jtag_ext \<Rightarrow> nat list \<Rightarrow> 's jtag \<Rightarrow> 's jtag option" where
  "run_handlers cfg x [] s = Some s"
| "run_handlers cfg x (device # ds) s =
     do { d \<leftarrow> get_dev device s;
          s \<leftarrow> (case find_descr cfg (jd_idcode d) of
                 Some e \<Rightarrow> (case d_handler e of Some h \<Rightarrow> jx_handler x h (of_nat device) s | None \<Rightarrow> Some s)
               | None \<Rightarrow> Some s);
          run_handlers cfg x ds s }"

definition jtag_scan :: "jtag_build \<Rightarrow> 's jtag_proc \<Rightarrow> 's jtag_ext \<Rightarrow> 's jtag \<Rightarrow> (bool \<times> 's jtag) option" where
  "jtag_scan cfg proc x s =
     do { s \<leftarrow> on_port (jx_target_list_free x) s;
          let s = s\<lparr>jtag_dev_count := 0, jtag_devs := replicate JTAG_MAX_DEVS zero_dev\<rparr>;
          s \<leftarrow> on_port (jx_jtagtap_init x) s;
          s \<leftarrow> on_port (proc_reset proc) s;
          (ok, s) \<leftarrow> jtag_read_idcodes proc s;
          (ok, s) \<leftarrow> (if ok then jtag_read_irs cfg proc s else Some (False, s));
          if \<not> ok then Some (False, s)
          else do { (_, s) \<leftarrow> from_port (proc_next proc True True) s;
                    s \<leftarrow> on_port (jtagtap_return_idle proc 1) s;
                    (ok, s) \<leftarrow> jtag_sanity_check proc s;
                    if \<not> ok then Some (False, s)
                    else do { s \<leftarrow> fill_postscan (unat (jtag_dev_count s)) 0 s;
                              s \<leftarrow> run_handlers cfg x [0..<unat (jtag_dev_count s)] s;
                              Some (jtag_dev_count s > 0, s) } } }"

subsection \<open>One device of the chain\<close>

definition all_bypass :: "'s jtag \<Rightarrow> 's jtag" where
  "all_bypass s = s\<lparr>jtag_devs := map (\<lambda>d. d\<lparr>current_ir := 0xffffffff\<rparr>) (take (unat (jtag_dev_count s)) (jtag_devs s)) @ drop (unat (jtag_dev_count s)) (jtag_devs s)\<rparr>"

definition jtag_dev_write_ir :: "'s jtag_proc \<Rightarrow> u8 \<Rightarrow> u32 \<Rightarrow> 's jtag \<Rightarrow> 's jtag option" where
  "jtag_dev_write_ir proc dev_index ir s =
     do { d \<leftarrow> get_dev (unat dev_index) s;
          if ir = current_ir d then Some s
          else if unat (jtag_dev_count s) > length (jtag_devs s) then None
          else do { s \<leftarrow> upd_dev (unat dev_index) (\<lambda>d. d\<lparr>current_ir := ir\<rparr>) (all_bypass s);
                    s \<leftarrow> on_port (jtagtap_shift_ir proc) s;
                    s \<leftarrow> on_port (proc_tdi_seq proc False ones (unat (ir_prescan d))) s;
                    s \<leftarrow> on_port (proc_tdi_seq proc (ir_postscan d = 0) (bytes_of_u32 ir) (unat (ir_len d))) s;
                    s \<leftarrow> on_port (proc_tdi_seq proc True ones (unat (ir_postscan d))) s;
                    on_port (jtagtap_return_idle proc 1) s } }"

definition jtag_dev_shift_dr ::
  "'s jtag_proc \<Rightarrow> u8 \<Rightarrow> byte list option \<Rightarrow> byte list \<Rightarrow> nat \<Rightarrow> 's jtag \<Rightarrow> (byte list option \<times> 's jtag) option" where
  "jtag_dev_shift_dr proc dev_index data_out data_in clock_cycles s =
     do { d \<leftarrow> get_dev (unat dev_index) s;
          s \<leftarrow> on_port (jtagtap_shift_dr proc) s;
          s \<leftarrow> on_port (proc_tdi_seq proc False ones (unat (dr_prescan d))) s;
          (data_out, s) \<leftarrow>
            (case data_out of
               Some out \<Rightarrow> do { (out, s) \<leftarrow> from_port (proc_tdi_tdo_seq proc out (dr_postscan d = 0) data_in clock_cycles) s; Some (Some out, s) }
             | None \<Rightarrow> do { s \<leftarrow> on_port (proc_tdi_seq proc (dr_postscan d = 0) data_in clock_cycles) s; Some (None, s) });
          s \<leftarrow> on_port (proc_tdi_seq proc True ones (unat (dr_postscan d))) s;
          s \<leftarrow> on_port (jtagtap_return_idle proc 1) s;
          Some (data_out, s) }"

end
