(* ===== verification/Jtag_Chain.thy ===== *)
theory Jtag_Chain
  imports Jtagtap Jtag_Scan
begin

text \<open>
  A chain of devices behind the port. The contract jtag_port says that the functions of a port clock the devices
  as their names tell; the bit-banged port meets it. The contract tap_chain is what IEEE 1149.1 asks of the devices:
  the controller with its sixteen states, capture, shift and update of the instruction and data registers.
  Over both, the scan finds every device of the chain, and afterwards instructions and data reach the device
  they are meant for.
\<close>

subsection \<open>The port\<close>

text \<open>The first words TDO gives while ones are clocked in with TMS low, and the table with codes written
  to its first entries.\<close>

fun tdo_words :: "'d tap_clock \<Rightarrow> nat \<Rightarrow> 'd \<Rightarrow> u32 list" where
  "tdo_words clock 0 d = []"
| "tdo_words clock (Suc n) d =
     (let (bs, d) = clocks clock (replicate 32 (False, True)) d in u32_of_bytes (pack_bits bs) # tdo_words clock n d)"

definition with_idcodes :: "u32 list \<Rightarrow> jtag_dev list \<Rightarrow> jtag_dev list" where
  "with_idcodes ids devs = map (\<lambda>(w, d). d\<lparr>jd_idcode := w\<rparr>) (zip ids devs) @ drop (length ids) devs"

lemma length_ones: "length ones = 8"
  by (simp add: ones_def)

lemma bit_mask_byte: "i < 8 \<Longrightarrow> bit (0xff :: byte) i"
proof -
  assume "i < 8"
  moreover have "(0xff :: byte) = mask 8" by (simp add: mask_eq_exp_minus_1)
  ultimately show ?thesis by (simp only: bit_mask_iff) simp
qed

lemma data_steps_ones: "data_steps ones False 32 = replicate 32 (False, True)"
proof (rule nth_equalityI)
  fix i
  assume "i < length (data_steps ones False 32)"
  then have "i < 32" "i div 8 < 8" by simp_all
  then have "ones ! (i div 8) = 0xff" by (simp add: ones_def nth_Cons')
  then show "data_steps ones False 32 ! i = replicate 32 (False, True) ! i"
    using bit_mask_byte [of "i mod 8"] \<open>i < 32\<close> by (simp add: data_steps_def)
qed simp

locale jtag_port =
  fixes proc :: "'s jtag_proc" and ok :: "'s \<Rightarrow> bool" and clock :: "'d tap_clock" and dev :: "'s \<Rightarrow> 'd"
  assumes next_ok: "ok s \<Longrightarrow> \<exists>s'. proc_next proc tms tdi s = Some (fst (clock tms tdi (dev s)), s') \<and> ok s' \<and> dev s' = snd (clock tms tdi (dev s))"
    and reset_ok: "ok s \<Longrightarrow> \<exists>s'. proc_reset proc s = Some s' \<and> ok s' \<and> dev s' = snd (clocks clock (tms_steps 0x1f 6) (dev s))"
    and tms_ok: "ok s \<Longrightarrow> \<exists>s'. proc_tms_seq proc w n s = Some s' \<and> ok s' \<and> dev s' = snd (clocks clock (tms_steps w n) (dev s))"
    and tdi_ok: "ok s \<Longrightarrow> n \<le> 8 * length data_in \<Longrightarrow>
      \<exists>s'. proc_tdi_seq proc f data_in n s = Some s' \<and> ok s' \<and> dev s' = snd (clocks clock (data_steps data_in f n) (dev s))"
    and tdi_tdo_ok: "ok s \<Longrightarrow> n \<le> 8 * length data_in \<Longrightarrow> n \<le> 8 * length out \<Longrightarrow>
      \<exists>s'. proc_tdi_tdo_seq proc out f data_in n s =
          Some (pack_bits (fst (clocks clock (data_steps data_in f n) (dev s))) @ drop ((n + 7) div 8) out, s') \<and>
        ok s' \<and> dev s' = snd (clocks clock (data_steps data_in f n) (dev s))"
begin

lemma read_tdo_word:
  assumes "ok (js_port s)"
  shows "\<exists>bs p. from_port (proc_tdi_tdo_seq proc (replicate 4 0) False ones 32) s = Some (bs, s\<lparr>js_port := p\<rparr>) \<and> ok p \<and>
    tdo_words clock (Suc n) (dev (js_port s)) = u32_of_bytes bs # tdo_words clock n (dev p)"
proof -
  obtain p where "proc_tdi_tdo_seq proc (replicate 4 0) False ones 32 (js_port s) =
      Some (pack_bits (fst (clocks clock (replicate 32 (False, True)) (dev (js_port s)))), p)" "ok p"
    "dev p = snd (clocks clock (replicate 32 (False, True)) (dev (js_port s)))"
    using tdi_tdo_ok [OF assms, of 32 ones "replicate 4 0" False] by (auto simp: length_ones data_steps_ones)
  then show ?thesis by (intro exI [of _ p] exI) (simp add: from_port_def split_beta)
qed

lemma idcodes_loop_returns:
  assumes "ok (js_port s)" "length (jtag_devs s) = 32" "k \<le> 32" "ids = takeWhile (\<lambda>w. w \<noteq> 0xffffffff) (tdo_words clock (33 - k) (dev (js_port s)))"
  shows "\<exists>p. read_idcodes_loop proc k s = Some ((k + length ids \<le> 32, min 32 (k + length ids)),
      s\<lparr>js_port := p, jtag_devs := take k (jtag_devs s) @ with_idcodes ids (drop k (jtag_devs s)),
        jtag_dev_count := (if k + length ids \<le> 32 then jtag_dev_count s else 0)\<rparr>) \<and> ok p"
  using assms
proof (induction "32 - k" arbitrary: k s ids)
  case (0 k s)
  then have k: "k = 32" "drop 32 (jtag_devs s) = []" "take 32 (jtag_devs s) = jtag_devs s" by simp_all
  obtain bs p where "from_port (proc_tdi_tdo_seq proc (replicate 4 0) False ones 32) s = Some (bs, s\<lparr>js_port := p\<rparr>)" "ok p"
    "tdo_words clock (Suc 0) (dev (js_port s)) = u32_of_bytes bs # tdo_words clock 0 (dev p)"
    using read_tdo_word [OF 0(2)] by blast
  then show ?case using 0(5) k
    by (cases "u32_of_bytes bs = 0xffffffff") (auto simp: read_idcodes_loop.simps [of proc 32] with_idcodes_def)
next
  case (Suc m k s)
  have k: "k < 32" "m = 32 - Suc k" "33 - k = Suc (33 - Suc k)" using Suc(2) by simp_all
  obtain bs p where p: "from_port (proc_tdi_tdo_seq proc (replicate 4 0) False ones 32) s = Some (bs, s\<lparr>js_port := p\<rparr>)" "ok p"
    and w: "tdo_words clock (33 - k) (dev (js_port s)) = u32_of_bytes bs # tdo_words clock (33 - Suc k) (dev p)"
    using read_tdo_word [OF Suc(3)] unfolding k(3) by blast
  let ?w = "u32_of_bytes bs" and ?ids = "takeWhile (\<lambda>w. w \<noteq> 0xffffffff) (tdo_words clock (33 - Suc k) (dev p))"
  let ?ds = "(jtag_devs s)[k := (jtag_devs s ! k)\<lparr>jd_idcode := ?w\<rparr>]" and ?l = "jtag_devs s"
  let ?s = "s\<lparr>js_port := p, jtag_devs := ?ds\<rparr>"
  have step: "read_idcodes_loop proc k s = (if ?w = 0xffffffff then Some ((True, k), s\<lparr>js_port := p\<rparr>) else read_idcodes_loop proc (Suc k) ?s)"
    using p(1) k(1) Suc(4) by (simp add: read_idcodes_loop.simps [of proc k] upd_dev_def)
  show ?case
  proof (cases "?w = 0xffffffff")
    case True
    then show ?thesis using step Suc(6) w p(2) k(1) by (auto simp: with_idcodes_def)
  next
    case False
    obtain q where q: "read_idcodes_loop proc (Suc k) ?s = Some ((Suc k + length ?ids \<le> 32, min 32 (Suc k + length ?ids)),
      ?s\<lparr>js_port := q, jtag_devs := take (Suc k) ?ds @ with_idcodes ?ids (drop (Suc k) ?ds),
        jtag_dev_count := (if Suc k + length ?ids \<le> 32 then jtag_dev_count s else 0)\<rparr>)" "ok q"
      using Suc(1) [OF k(2), of ?s ?ids] p(2) Suc(4) k(1) by (auto cong: if_cong)
    have "take (Suc k) ?ds @ with_idcodes ?ids (drop (Suc k) ?ds) = take k ?l @ with_idcodes (?w # ?ids) (drop k ?l)"
      using k(1) Suc(4) by (simp add: with_idcodes_def take_Suc_conv_app_nth Cons_nth_drop_Suc [symmetric, of k ?l])
    then show ?thesis using step q Suc(6) w False by auto
  qed
qed

lemma read_idcodes_returns:
  assumes "ok (js_port s)" "length (jtag_devs s) = 32"
    and "ids = takeWhile (\<lambda>w. w \<noteq> 0xffffffff) (tdo_words clock 33 (snd (clocks clock (tms_steps 1 3) (dev (js_port s)))))"
  shows "\<exists>p. jtag_read_idcodes proc s = Some (length ids \<le> 32, s\<lparr>js_port := p, jtag_devs := with_idcodes ids (jtag_devs s),
      jtag_dev_count := (if length ids \<le> 32 then of_nat (length ids) else 0)\<rparr>) \<and> ok p"
proof -
  obtain p where p: "on_port (jtagtap_shift_dr proc) s = Some (s\<lparr>js_port := p\<rparr>)" "ok p"
    "dev p = snd (clocks clock (tms_steps 1 3) (dev (js_port s)))"
    using tms_ok [OF assms(1), of 1 3] by (auto simp: on_port_def jtagtap_shift_dr_def)
  let ?s = "\<lambda>p1. s\<lparr>js_port := p1, jtag_devs := with_idcodes ids (jtag_devs s), jtag_dev_count := (if length ids \<le> 32 then jtag_dev_count s else 0)\<rparr>"
  obtain p1 where s': "read_idcodes_loop proc 0 (s\<lparr>js_port := p\<rparr>) = Some ((length ids \<le> 32, min 32 (length ids)), ?s p1)" "ok p1"
    using idcodes_loop_returns [of "s\<lparr>js_port := p\<rparr>" 0 ids] p(2,3) assms(2,3) by (auto cong: if_cong)
  obtain b q where q: "from_port (proc_next proc True True) (?s p1) = Some (b, ?s q)" "ok q"
    using next_ok [OF s'(2), of True True] by (cases s) (auto simp: from_port_def)
  obtain q' where q': "on_port (jtagtap_return_idle proc 1) (?s q) = Some (?s q')" "ok q'"
    using tms_ok [OF q(2), of 1 2] by (cases s) (auto simp: on_port_def jtagtap_return_idle_def numeral_2_eq_2)
  show ?thesis
  proof (cases "length ids \<le> 32")
    case True
    then show ?thesis using p(1) s' q q' unfolding jtag_read_idcodes_def by auto
  next
    case False
    then show ?thesis using p(1) s' unfolding jtag_read_idcodes_def by auto
  qed
qed

end

definition gpio_proc :: "'d tap_clock \<Rightarrow> 'd jtag_pins jtag_proc" where
  "gpio_proc clock =
     \<lparr>proc_reset = (\<lambda>p. Some (jtagtap_reset clock p)), proc_next = (\<lambda>tms tdi p. Some (jtagtap_next clock tms tdi p)),
      proc_tms_seq = (\<lambda>w n p. Some (jtagtap_tms_seq clock w n p)), proc_tdi_tdo_seq = jtagtap_tdi_tdo_seq clock,
      proc_tdi_seq = jtagtap_tdi_seq clock, proc_cycle = (\<lambda>tms tdi n p. Some (jtagtap_cycle clock tms tdi n p)), tap_idle_cycles = 1\<rparr>"

interpretation gpio: jtag_port "gpio_proc clock" idle_pins clock jp_dev
proof unfold_locales
  fix s :: "'a jtag_pins" and tms tdi f :: bool and w n and data_in out :: "byte list"
  assume s: "idle_pins s"
  show "\<exists>s'. proc_next (gpio_proc clock) tms tdi s = Some (fst (clock tms tdi (jp_dev s)), s') \<and> idle_pins s' \<and> jp_dev s' = snd (clock tms tdi (jp_dev s))"
    using next_clocks [OF s, of clock tms tdi] by (auto simp: gpio_proc_def moved_def)
  show "\<exists>s'. proc_reset (gpio_proc clock) s = Some s' \<and> idle_pins s' \<and> jp_dev s' = snd (clocks clock (tms_steps 0x1f 6) (jp_dev s))"
    using tms_seq_clocks [OF s, of clock] by (simp add: gpio_proc_def moved_def jtagtap_reset_def)
  show "\<exists>s'. proc_tms_seq (gpio_proc clock) w n s = Some s' \<and> idle_pins s' \<and> jp_dev s' = snd (clocks clock (tms_steps w n) (jp_dev s))"
    using tms_seq_clocks [OF s, of clock] by (simp add: gpio_proc_def moved_def)
  assume n: "n \<le> 8 * length data_in"
  show "\<exists>s'. proc_tdi_seq (gpio_proc clock) f data_in n s = Some s' \<and> idle_pins s' \<and> jp_dev s' = snd (clocks clock (data_steps data_in f n) (jp_dev s))"
    using tdi_seq_clocks [OF s n, of clock f] by (auto simp: gpio_proc_def moved_def)
  assume "n \<le> 8 * length out"
  then show "\<exists>s'. proc_tdi_tdo_seq (gpio_proc clock) out f data_in n s =
          Some (pack_bits (fst (clocks clock (data_steps data_in f n) (jp_dev s))) @ drop ((n + 7) div 8) out, s') \<and>
        idle_pins s' \<and> jp_dev s' = snd (clocks clock (data_steps data_in f n) (jp_dev s))"
    using tdi_tdo_seq_clocks [OF s n, of out clock f] by (auto simp: gpio_proc_def moved_def)
qed

subsection \<open>The devices\<close>

datatype tap_state =
  Test_Logic_Reset | Run_Test_Idle
| Select_DR | Capture_DR | Shift_DR | Exit1_DR | Pause_DR | Exit2_DR | Update_DR
| Select_IR | Capture_IR | Shift_IR | Exit1_IR | Pause_IR | Exit2_IR | Update_IR

fun tap_next :: "tap_state \<Rightarrow> bool \<Rightarrow> tap_state" where
  "tap_next Test_Logic_Reset tms = (if tms then Test_Logic_Reset else Run_Test_Idle)"
| "tap_next Run_Test_Idle tms = (if tms then Select_DR else Run_Test_Idle)"
| "tap_next Select_DR tms = (if tms then Select_IR else Capture_DR)"
| "tap_next Capture_DR tms = (if tms then Exit1_DR else Shift_DR)"
| "tap_next Shift_DR tms = (if tms then Exit1_DR else Shift_DR)"
| "tap_next Exit1_DR tms = (if tms then Update_DR else Pause_DR)"
| "tap_next Pause_DR tms = (if tms then Exit2_DR else Pause_DR)"
| "tap_next Exit2_DR tms = (if tms then Update_DR else Shift_DR)"
| "tap_next Update_DR tms = (if tms then Select_DR else Run_Test_Idle)"
| "tap_next Select_IR tms = (if tms then Test_Logic_Reset else Capture_IR)"
| "tap_next Capture_IR tms = (if tms then Exit1_IR else Shift_IR)"
| "tap_next Shift_IR tms = (if tms then Exit1_IR else Shift_IR)"
| "tap_next Exit1_IR tms = (if tms then Update_IR else Pause_IR)"
| "tap_next Pause_IR tms = (if tms then Exit2_IR else Pause_IR)"
| "tap_next Exit2_IR tms = (if tms then Update_IR else Shift_IR)"
| "tap_next Update_IR tms = (if tms then Select_DR else Run_Test_Idle)"

record tap_dev =
  td_idcode :: u32
  td_capture :: "bool list"

definition bits :: "u32 \<Rightarrow> nat \<Rightarrow> bool list" where
  "bits w n = map (bit w) [0..<n]"

fun split_at :: "nat list \<Rightarrow> 'a list \<Rightarrow> 'a list list" where
  "split_at [] xs = []"
| "split_at (n # ns) xs = take n xs # split_at ns (drop n xs)"

lemma tl_drop_snoc: "n < length ys \<Longrightarrow> tl (drop n ys) @ [b] = drop (Suc n) (ys @ [b])"
  by (simp add: drop_Suc tl_drop)

definition dbits :: "byte list \<Rightarrow> nat \<Rightarrow> bool list" where
  "dbits data n = map (\<lambda>c. bit (data ! (c div 8)) (c mod 8)) [0..<n]"

lemma length_dbits [simp]: "length (dbits data n) = n"
  by (simp add: dbits_def)

lemma data_steps_bits: "map snd (data_steps data f n) = dbits data n"
  by (simp add: data_steps_def dbits_def)

lemma data_steps_shift: "(f \<longrightarrow> n = 0) \<Longrightarrow> \<forall>x \<in> set (data_steps data f n). \<not> fst x"
  by (auto simp: data_steps_def)

lemma data_steps_exit:
  assumes "0 < n"
  shows "\<exists>xs b. data_steps data True n = xs @ [(True, b)] \<and> (\<forall>x \<in> set xs. \<not> fst x) \<and> map snd xs @ [b] = dbits data n \<and> Suc (length xs) = n"
proof -
  obtain m where n: "n = Suc m" using assms by (cases n) auto
  let ?xs = "map (\<lambda>c. (False, bit (data ! (c div 8)) (c mod 8))) [0..<m]"
  have "data_steps data True n = ?xs @ [(True, bit (data ! (m div 8)) (m mod 8))]" by (simp add: data_steps_def n)
  then show ?thesis by (intro exI [of _ ?xs] exI [of _ "bit (data ! (m div 8)) (m mod 8)"]) (auto simp: dbits_def n)
qed

lemma dbits_ones: "n \<le> 64 \<Longrightarrow> dbits ones n = replicate n True"
proof (rule nth_equalityI)
  fix i
  assume "n \<le> 64" "i < length (dbits ones n)"
  then have i: "i div 8 < 8" "i < n" by (simp_all add: less_mult_imp_div_less)
  have "bit (0xff :: byte) (i mod 8)" by (rule bit_mask_byte) simp
  then show "dbits ones n ! i = replicate n True ! i" using i by (simp add: dbits_def ones_def)
qed simp

lemma bits_ones: "n \<le> 32 \<Longrightarrow> bits 0xffffffff n = replicate n True"
proof (rule nth_equalityI)
  fix i
  assume n: "n \<le> 32" "i < length (bits 0xffffffff n)"
  have "(0xffffffff :: u32) = mask 32" by (simp add: mask_eq_exp_minus_1)
  then have "bit (0xffffffff :: u32) i" using n by (simp only: bit_mask_iff) (simp add: bits_def)
  then show "bits 0xffffffff n ! i = replicate n True ! i" using n by (simp add: bits_def)
qed (simp add: bits_def)

lemma bytes_of_u32_nth: "j < 4 \<Longrightarrow> bytes_of_u32 w ! j = ucast (drop_bit (8 * j) w)"
  by (auto simp: bytes_of_u32_def nth_Cons' numeral_eq_Suc less_Suc_eq)

lemma dbits_word: "n \<le> 32 \<Longrightarrow> dbits (bytes_of_u32 w) n = bits w n"
proof (rule nth_equalityI)
  fix i
  assume n: "n \<le> 32" "i < length (dbits (bytes_of_u32 w) n)"
  then have i: "i div 8 < 4" "8 * (i div 8) + i mod 8 = i" "i < n" by (simp_all add: less_mult_imp_div_less)
  have "bit (bytes_of_u32 w ! (i div 8)) (i mod 8) = bit w (8 * (i div 8) + i mod 8)"
    unfolding bytes_of_u32_nth [OF i(1)] by (simp add: bit_simps)
  then show "dbits (bytes_of_u32 w) n ! i = bits w n ! i" using i by (simp add: dbits_def bits_def)
qed (simp add: bits_def)

lemma pack_word: "u32_of_bytes (pack_bits (bits w 32)) = w"
proof -
  have "chunk (bits w 32) i = ucast (drop_bit (8 * i) w)" if "i < 4" for i
    by (rule bit_word_eqI) (use that in \<open>auto simp: chunk_def byte_of_bits_def bit_horner_sum_bit_word_iff bits_def bit_simps\<close>)
  then have "pack_bits (bits w 32) = bytes_of_u32 w"
    by (simp add: pack_bits_def bits_def bytes_of_u32_def upt_rec)
  then show ?thesis by simp
qed

lemma js_order: "s\<lparr>js_port := p, jtag_devs := ds\<rparr> = s\<lparr>jtag_devs := ds, js_port := p\<rparr>"
  by simp

definition with_ir :: "nat \<Rightarrow> nat \<Rightarrow> jtag_dev \<Rightarrow> jtag_dev" where
  "with_ir n pre d = d\<lparr>ir_len := of_nat n, ir_prescan := of_nat pre, current_ir := 0xffffffff\<rparr>"

text \<open>A device whose instruction register the scan can measure: the table has a quirk for it and the captured bits
  are those of the quirk, or the captured bits are a one and zeros.\<close>

definition ir_ok :: "jtag_build \<Rightarrow> tap_dev \<Rightarrow> bool" where
  "ir_ok cfg d \<longleftrightarrow>
     (let q = jtag_device_get_quirks cfg (td_idcode d); n = length (td_capture d)
      in 2 \<le> n \<and> n \<le> 32 \<and>
         (if quirk_length q = 0 then td_capture d = True # replicate (n - 1) False
          else unat (quirk_length q) = n \<and> td_capture d = bits (quirk_value q) n \<and> bit (quirk_value q) 0))"

lemma ir_ok_hd: "ir_ok cfg d \<Longrightarrow> hd (td_capture d) \<and> td_capture d \<noteq> []"
  by (cases "td_capture d") (auto simp: ir_ok_def Let_def bits_def upt_rec split: if_splits)

text \<open>The device next to TDO is the first. The shift path is the concatenation of the registers between TDI and
  TDO, the bit that leaves next first. An instruction is None after a reset, which selects the identification
  register, and otherwise the bits of the instruction register; all ones select the bypass register of one bit.\<close>

locale tap_chain =
  fixes clock :: "'d tap_clock" and tap :: "'d \<Rightarrow> tap_state" and path :: "'d \<Rightarrow> bool list"
    and insns :: "'d \<Rightarrow> bool list option list" and captured :: "'d \<Rightarrow> nat \<Rightarrow> bool list" and devs :: "tap_dev list"
  assumes tap_clock: "tap (snd (clock tms tdi d)) = tap_next (tap d) tms"
    and reset_insns: "tap_next (tap d) tms = Test_Logic_Reset \<Longrightarrow> insns (snd (clock tms tdi d)) = replicate (length devs) None"
    and update_insns: "tap_next (tap d) tms = Update_IR \<Longrightarrow>
      insns (snd (clock tms tdi d)) = map Some (split_at (map (length \<circ> td_capture) devs) (path d))"
    and keep_insns: "tap_next (tap d) tms \<noteq> Test_Logic_Reset \<Longrightarrow> tap_next (tap d) tms \<noteq> Update_IR \<Longrightarrow> insns (snd (clock tms tdi d)) = insns d"
    and capture_ir: "tap d = Capture_IR \<Longrightarrow> path (snd (clock tms tdi d)) = concat (map td_capture devs)"
    and capture_dr: "tap d = Capture_DR \<Longrightarrow> path (snd (clock tms tdi d)) = concat (map (captured d) [0..<length devs])"
    and shift: "tap d = Shift_DR \<or> tap d = Shift_IR \<Longrightarrow> path d \<noteq> [] \<Longrightarrow>
      fst (clock tms tdi d) = hd (path d) \<and> path (snd (clock tms tdi d)) = tl (path d) @ [tdi]"
    and keep_path: "tap d \<notin> {Capture_DR, Shift_DR, Capture_IR, Shift_IR} \<Longrightarrow> path (snd (clock tms tdi d)) = path d"
    and captured_idcode: "i < length devs \<Longrightarrow> insns d ! i = None \<Longrightarrow> captured d i = bits (td_idcode (devs ! i)) 32"
    and captured_bypass: "i < length devs \<Longrightarrow> insns d ! i = Some (replicate (length (td_capture (devs ! i))) True) \<Longrightarrow> captured d i = [False]"
begin

text \<open>In a shift state the bits shifted in follow those of the path.\<close>

lemma shift_run:
  assumes "tap d = Shift_DR \<or> tap d = Shift_IR" "path d \<noteq> []" "\<forall>x \<in> set xs. \<not> fst x"
  shows "fst (clocks clock xs d) = take (length xs) (path d @ map snd xs) \<and>
    path (snd (clocks clock xs d)) = drop (length xs) (path d @ map snd xs) \<and>
    tap (snd (clocks clock xs d)) = tap d \<and> insns (snd (clocks clock xs d)) = insns d"
  using assms
proof (induction xs arbitrary: d)
  case (Cons x xs)
  obtain tdi where x: "x = (False, tdi)" using Cons.prems(3) by (cases x) auto
  obtain b bs where b: "path d = b # bs" using Cons.prems(2) by (cases "path d") auto
  let ?d = "snd (clock False tdi d)"
  have t: "tap ?d = tap d" "insns ?d = insns d" using Cons.prems(1) keep_insns [of d False tdi] by (auto simp: tap_clock)
  have s: "fst (clock False tdi d) = b" "path ?d = bs @ [tdi]" using shift [OF Cons.prems(1,2), of False tdi] b by simp_all
  have "fst (clocks clock xs ?d) = take (length xs) (path ?d @ map snd xs) \<and>
    path (snd (clocks clock xs ?d)) = drop (length xs) (path ?d @ map snd xs) \<and>
    tap (snd (clocks clock xs ?d)) = tap ?d \<and> insns (snd (clocks clock xs ?d)) = insns ?d"
    by (rule Cons.IH) (use Cons.prems t s in auto)
  then show ?case using t s by (simp add: x b split_beta Let_def)
qed simp

lemma shift_exit:
  assumes "tap d = Shift_DR \<or> tap d = Shift_IR" "path d \<noteq> []" "\<forall>x \<in> set xs. \<not> fst x"
  shows "fst (clocks clock (xs @ [(True, b)]) d) = take (Suc (length xs)) (path d @ map snd xs) \<and>
    path (snd (clocks clock (xs @ [(True, b)]) d)) = drop (Suc (length xs)) (path d @ map snd xs @ [b]) \<and>
    tap (snd (clocks clock (xs @ [(True, b)]) d)) = (if tap d = Shift_DR then Exit1_DR else Exit1_IR) \<and>
    insns (snd (clocks clock (xs @ [(True, b)]) d)) = insns d"
proof -
  let ?d = "snd (clocks clock xs d)"
  have r: "fst (clocks clock xs d) = take (length xs) (path d @ map snd xs)" "path ?d = drop (length xs) (path d @ map snd xs)"
    "tap ?d = tap d" "insns ?d = insns d" using shift_run [OF assms] by simp_all
  have l: "length xs < length (path d @ map snd xs)" using assms(2) by simp
  then have ne: "path ?d \<noteq> []" unfolding r(2) by (simp only: drop_eq_Nil not_le)
  have s: "fst (clock True b ?d) = hd (path ?d)" "path (snd (clock True b ?d)) = tl (path ?d) @ [b]"
    using shift [of ?d True b] assms(1) r(3) ne by auto
  have t: "tap (snd (clock True b ?d)) = (if tap d = Shift_DR then Exit1_DR else Exit1_IR)" "insns (snd (clock True b ?d)) = insns d"
    using assms(1) r(3,4) keep_insns [of ?d True b] by (auto simp: tap_clock)
  have "take (length xs) (path d @ map snd xs) @ [hd (path ?d)] = take (Suc (length xs)) (path d @ map snd xs)"
    unfolding r(2) hd_drop_conv_nth [OF l] by (rule take_Suc_conv_app_nth [OF l, symmetric])
  moreover have "tl (path ?d) @ [b] = drop (Suc (length xs)) (path d @ map snd xs @ [b])"
    unfolding r(2) append_assoc [symmetric] by (rule tl_drop_snoc [OF l])
  ultimately show ?thesis using s t r by (simp add: clocks_append split_beta)
qed

lemma step:
  "tap_next (tap d) tms = st \<Longrightarrow> tap d \<notin> {Capture_DR, Shift_DR, Capture_IR, Shift_IR} \<Longrightarrow> st \<noteq> Test_Logic_Reset \<Longrightarrow> st \<noteq> Update_IR \<Longrightarrow>
    tap (snd (clock tms tdi d)) = st \<and> path (snd (clock tms tdi d)) = path d \<and> insns (snd (clock tms tdi d)) = insns d"
  using tap_clock keep_path keep_insns by metis

lemma reset_run: "tap (snd (clocks clock (tms_steps 0x1f 6) d)) = Run_Test_Idle \<and>
    insns (snd (clocks clock (tms_steps 0x1f 6) d)) = replicate (length devs) None"
proof -
  let ?c = "\<lambda>d. snd (clock True True d)"
  let ?e = "?c (?c (?c (?c d)))"
  have t: "tap (?c d) = tap_next (tap d) True" for d by (rule tap_clock)
  have e: "tap_next (tap ?e) True = Test_Logic_Reset" unfolding t by (cases "tap d") simp_all
  have i: "tap (?c ?e) = Test_Logic_Reset" "insns (?c ?e) = replicate (length devs) None" using e reset_insns [OF e] by (simp_all add: t)
  have s: "tms_steps 0x1f 6 = [(True, True), (True, True), (True, True), (True, True), (True, True), (False, True)]"
    by (simp add: tms_steps_def upt_rec)
  show ?thesis using i step [of "?c ?e" False Run_Test_Idle True] unfolding s by (simp add: split_beta)
qed

definition mid :: "'d \<Rightarrow> 'd" where
  "mid d = snd (clocks clock [(True, True), (False, True)] d)"

lemma shift_dr_run:
  assumes "tap d = Run_Test_Idle"
  shows "tap (snd (clocks clock (tms_steps 1 3) d)) = Shift_DR \<and> insns (snd (clocks clock (tms_steps 1 3) d)) = insns d \<and>
    path (snd (clocks clock (tms_steps 1 3) d)) = concat (map (captured (mid d)) [0..<length devs]) \<and> insns (mid d) = insns d"
proof -
  let ?a = "snd (clock True True d)"
  let ?b = "snd (clock False True ?a)"
  have a: "tap ?a = Select_DR" "insns ?a = insns d" using step [of d True Select_DR True] assms by simp_all
  have b: "tap ?b = Capture_DR" "insns ?b = insns d" using step [of ?a False Capture_DR True] a by simp_all
  have m: "mid d = ?b" by (simp add: mid_def split_beta)
  have s: "tms_steps 1 3 = [(True, True), (False, True), (False, True)]" by (simp add: tms_steps_def upt_rec)
  show ?thesis unfolding s m using b capture_dr [OF b(1), of False True] keep_insns [of ?b False True] by (simp add: split_beta tap_clock)
qed

lemma shift_ir_run:
  assumes "tap d = Run_Test_Idle"
  shows "tap (snd (clocks clock (tms_steps 3 4) d)) = Shift_IR \<and> insns (snd (clocks clock (tms_steps 3 4) d)) = insns d \<and>
    path (snd (clocks clock (tms_steps 3 4) d)) = concat (map td_capture devs)"
proof -
  let ?a = "snd (clock True True d)"
  let ?b = "snd (clock True True ?a)"
  let ?c = "snd (clock False True ?b)"
  have a: "tap ?a = Select_DR" "insns ?a = insns d" using step [of d True Select_DR True] assms by simp_all
  have b: "tap ?b = Select_IR" "insns ?b = insns d" using step [of ?a True Select_IR True] a by simp_all
  have c: "tap ?c = Capture_IR" "insns ?c = insns d" using step [of ?b False Capture_IR True] b by simp_all
  have s: "tms_steps 3 4 = [(True, True), (True, True), (False, True), (False, True)]" by (simp add: tms_steps_def upt_rec)
  show ?thesis unfolding s using c capture_ir [OF c(1), of False True] keep_insns [of ?c False True] by (simp add: split_beta tap_clock)
qed

lemma idle_dr_run:
  assumes "tap d = Exit1_DR"
  shows "tap (snd (clocks clock (tms_steps 1 2) d)) = Run_Test_Idle \<and> insns (snd (clocks clock (tms_steps 1 2) d)) = insns d \<and>
    path (snd (clocks clock (tms_steps 1 2) d)) = path d"
proof -
  have s: "tms_steps 1 2 = [(True, True), (False, True)]" by (simp add: tms_steps_def upt_rec)
  show ?thesis using step [of d True Update_DR True] step [of "snd (clock True True d)" False Run_Test_Idle True] assms unfolding s by (simp add: split_beta)
qed

lemma idle_ir_run:
  assumes "tap d = Exit1_IR"
  shows "tap (snd (clocks clock (tms_steps 1 2) d)) = Run_Test_Idle \<and>
    insns (snd (clocks clock (tms_steps 1 2) d)) = map Some (split_at (map (length \<circ> td_capture) devs) (path d))"
proof -
  have s: "tms_steps 1 2 = [(True, True), (False, True)]" by (simp add: tms_steps_def upt_rec)
  show ?thesis using update_insns [of d True True] step [of "snd (clock True True d)" False Run_Test_Idle True] assms
    unfolding s by (simp add: split_beta tap_clock)
qed

end

locale jtag_bus = jtag_port proc ok clock dev + tap_chain clock tap path insns captured devs
  for proc :: "'s jtag_proc" and ok clock and dev :: "'s \<Rightarrow> 'd" and tap path insns captured devs
begin

definition state :: "'s \<Rightarrow> tap_state \<Rightarrow> bool list \<Rightarrow> bool list option list \<Rightarrow> bool" where
  "state p st ps is \<longleftrightarrow> ok p \<and> tap (dev p) = st \<and> path (dev p) = ps \<and> insns (dev p) = is"

lemma port_reset:
  assumes "ok (js_port s)"
  shows "\<exists>p ps. on_port (proc_reset proc) s = Some (s\<lparr>js_port := p\<rparr>) \<and> state p Run_Test_Idle ps (replicate (length devs) None)"
  using reset_ok [OF assms] reset_run [of "dev (js_port s)"] by (auto simp: on_port_def state_def)

lemma port_shift_dr:
  assumes "state (js_port s) Run_Test_Idle ps is"
  shows "\<exists>p. on_port (jtagtap_shift_dr proc) s = Some (s\<lparr>js_port := p\<rparr>) \<and>
    state p Shift_DR (concat (map (captured (mid (dev (js_port s)))) [0..<length devs])) is \<and> insns (mid (dev (js_port s))) = is"
  using tms_ok [of "js_port s" 1 3] shift_dr_run [of "dev (js_port s)"] assms by (auto simp: on_port_def state_def jtagtap_shift_dr_def)

lemma port_shift_ir:
  assumes "state (js_port s) Run_Test_Idle ps is"
  shows "\<exists>p. on_port (jtagtap_shift_ir proc) s = Some (s\<lparr>js_port := p\<rparr>) \<and> state p Shift_IR (concat (map td_capture devs)) is"
  using tms_ok [of "js_port s" 3 4] shift_ir_run [of "dev (js_port s)"] assms by (auto simp: on_port_def state_def jtagtap_shift_ir_def)

lemma port_idle_dr:
  assumes "state (js_port s) Exit1_DR ps is"
  shows "\<exists>p. on_port (jtagtap_return_idle proc 1) s = Some (s\<lparr>js_port := p\<rparr>) \<and> state p Run_Test_Idle ps is"
  using tms_ok [of "js_port s" 1 2] idle_dr_run [of "dev (js_port s)"] assms
  by (auto simp: on_port_def state_def jtagtap_return_idle_def numeral_2_eq_2 [symmetric] simp del: One_nat_def)

lemma port_idle_ir:
  assumes "state (js_port s) Exit1_IR ps is"
  shows "\<exists>p ps'. on_port (jtagtap_return_idle proc 1) s = Some (s\<lparr>js_port := p\<rparr>) \<and>
    state p Run_Test_Idle ps' (map Some (split_at (map (length \<circ> td_capture) devs) ps))"
  using tms_ok [of "js_port s" 1 2] idle_ir_run [of "dev (js_port s)"] assms
  by (auto simp: on_port_def state_def jtagtap_return_idle_def numeral_2_eq_2 [symmetric] simp del: One_nat_def)

lemma port_next:
  assumes "state (js_port s) st (b # bs) is" "st = Shift_DR \<or> st = Shift_IR"
  shows "\<exists>p. from_port (proc_next proc False tdi) s = Some (b, s\<lparr>js_port := p\<rparr>) \<and> state p st (bs @ [tdi]) is"
proof -
  let ?d = "dev (js_port s)"
  have st: "tap ?d = Shift_DR \<or> tap ?d = Shift_IR" "path ?d \<noteq> []" "ok (js_port s)" using assms by (auto simp: state_def)
  obtain p where "proc_next proc False tdi (js_port s) = Some (fst (clock False tdi ?d), p)" "ok p" "dev p = snd (clock False tdi ?d)"
    using next_ok [OF st(3), of False tdi] by auto
  moreover have "insns (snd (clock False tdi ?d)) = insns ?d" "tap (snd (clock False tdi ?d)) = tap ?d"
    using st(1) keep_insns [of ?d False tdi] by (auto simp: tap_clock)
  ultimately show ?thesis using shift [OF st(1,2), of False tdi] assms(1) by (auto simp: from_port_def state_def)
qed

lemma port_exit:
  assumes "state (js_port s) st (b # bs) is" "st = Shift_DR \<and> st' = Exit1_DR \<or> st = Shift_IR \<and> st' = Exit1_IR"
  shows "\<exists>p. from_port (proc_next proc True tdi) s = Some (b, s\<lparr>js_port := p\<rparr>) \<and> state p st' (bs @ [tdi]) is"
proof -
  let ?d = "dev (js_port s)"
  have st: "tap ?d = Shift_DR \<or> tap ?d = Shift_IR" "path ?d \<noteq> []" "ok (js_port s)" using assms by (auto simp: state_def)
  obtain p where "proc_next proc True tdi (js_port s) = Some (fst (clock True tdi ?d), p)" "ok p" "dev p = snd (clock True tdi ?d)"
    using next_ok [OF st(3), of True tdi] by auto
  moreover have "insns (snd (clock True tdi ?d)) = insns ?d" "tap (snd (clock True tdi ?d)) = st'"
    using assms keep_insns [of ?d True tdi] by (auto simp: tap_clock state_def)
  ultimately show ?thesis using shift [OF st(1,2), of True tdi] assms(1) by (auto simp: from_port_def state_def)
qed

lemma port_tdi:
  assumes "state (js_port s) st ps is" "st = Shift_DR \<or> st = Shift_IR" "ps \<noteq> []" "n \<le> 8 * length data" "f \<longrightarrow> n = 0"
  shows "\<exists>p. on_port (proc_tdi_seq proc f data n) s = Some (s\<lparr>js_port := p\<rparr>) \<and> state p st (drop n (ps @ dbits data n)) is"
proof -
  have "ok (js_port s)" using assms(1) by (simp add: state_def)
  then obtain p where p: "proc_tdi_seq proc f data n (js_port s) = Some p" "ok p" "dev p = snd (clocks clock (data_steps data f n) (dev (js_port s)))"
    using tdi_ok [OF _ assms(4)] by blast
  show ?thesis using p shift_run [of "dev (js_port s)" "data_steps data f n"] assms data_steps_shift [OF assms(5), of data]
    by (auto simp: on_port_def state_def data_steps_bits)
qed

lemma port_tdi_exit:
  assumes "state (js_port s) st ps is" "st = Shift_DR \<and> st' = Exit1_DR \<or> st = Shift_IR \<and> st' = Exit1_IR" "ps \<noteq> []" "n \<le> 8 * length data" "0 < n"
  shows "\<exists>p. on_port (proc_tdi_seq proc True data n) s = Some (s\<lparr>js_port := p\<rparr>) \<and> state p st' (drop n (ps @ dbits data n)) is"
proof -
  have "ok (js_port s)" using assms(1) by (simp add: state_def)
  then obtain p where p: "proc_tdi_seq proc True data n (js_port s) = Some p" "ok p" "dev p = snd (clocks clock (data_steps data True n) (dev (js_port s)))"
    using tdi_ok [OF _ assms(4)] by blast
  obtain xs b where x: "data_steps data True n = xs @ [(True, b)]" "\<forall>x \<in> set xs. \<not> fst x" "map snd xs @ [b] = dbits data n" "Suc (length xs) = n"
    using data_steps_exit [OF assms(5), of data] by blast
  show ?thesis using p shift_exit [of "dev (js_port s)" xs b] assms x by (auto simp: on_port_def state_def)
qed

lemma port_tdi_tdo:
  assumes "state (js_port s) st ps is" "st = Shift_DR \<or> st = Shift_IR" "ps \<noteq> []" "n \<le> 8 * length data" "n \<le> 8 * length out" "f \<longrightarrow> n = 0"
  shows "\<exists>p. from_port (proc_tdi_tdo_seq proc out f data n) s =
      Some (pack_bits (take n (ps @ dbits data n)) @ drop ((n + 7) div 8) out, s\<lparr>js_port := p\<rparr>) \<and> state p st (drop n (ps @ dbits data n)) is"
proof -
  have "ok (js_port s)" using assms(1) by (simp add: state_def)
  then obtain p where p: "proc_tdi_tdo_seq proc out f data n (js_port s) =
      Some (pack_bits (fst (clocks clock (data_steps data f n) (dev (js_port s)))) @ drop ((n + 7) div 8) out, p)" "ok p"
    "dev p = snd (clocks clock (data_steps data f n) (dev (js_port s)))"
    using tdi_tdo_ok [OF _ assms(4,5)] by blast
  show ?thesis using p shift_run [of "dev (js_port s)" "data_steps data f n"] assms data_steps_shift [OF assms(6), of data]
    by (auto simp: from_port_def state_def data_steps_bits)
qed

lemma port_tdi_tdo_exit:
  assumes "state (js_port s) st ps is" "st = Shift_DR \<and> st' = Exit1_DR \<or> st = Shift_IR \<and> st' = Exit1_IR" "ps \<noteq> []" "n \<le> 8 * length data" "n \<le> 8 * length out" "0 < n"
  shows "\<exists>p. from_port (proc_tdi_tdo_seq proc out True data n) s =
      Some (pack_bits (take n (ps @ dbits data n)) @ drop ((n + 7) div 8) out, s\<lparr>js_port := p\<rparr>) \<and> state p st' (drop n (ps @ dbits data n)) is"
proof -
  have "ok (js_port s)" using assms(1) by (simp add: state_def)
  then obtain p where p: "proc_tdi_tdo_seq proc out True data n (js_port s) =
      Some (pack_bits (fst (clocks clock (data_steps data True n) (dev (js_port s)))) @ drop ((n + 7) div 8) out, p)" "ok p"
    "dev p = snd (clocks clock (data_steps data True n) (dev (js_port s)))"
    using tdi_tdo_ok [OF _ assms(4,5)] by blast
  obtain xs b where x: "data_steps data True n = xs @ [(True, b)]" "\<forall>x \<in> set xs. \<not> fst x" "map snd xs @ [b] = dbits data n" "Suc (length xs) = n"
    using data_steps_exit [OF assms(6), of data] by blast
  have "take n (ps @ dbits data n) = take (Suc (length xs)) (ps @ map snd xs)"
    using assms(3) x(3,4) by (cases ps) (auto simp flip: x(3))
  then show ?thesis using p shift_exit [of "dev (js_port s)" xs b] assms x by (auto simp: from_port_def state_def)
qed

subsection \<open>Identification codes\<close>

lemma read_word:
  assumes "state (js_port s) Shift_DR ps is" "ps \<noteq> []" "take 32 (ps @ replicate 32 True) = bits w 32"
  shows "\<exists>p. from_port (proc_tdi_tdo_seq proc (replicate 4 0) False ones 32) s = Some (pack_bits (bits w 32), s\<lparr>js_port := p\<rparr>) \<and>
    state p Shift_DR (drop 32 (ps @ replicate 32 True)) is"
  using port_tdi_tdo [OF assms(1) _ assms(2), of 32 ones "replicate 4 0" False] assms(3)
  by (simp add: dbits_ones length_ones)

lemma idcodes_loop:
  assumes "state (js_port s) Shift_DR ps is" "ps = concat (map (\<lambda>d. bits (td_idcode d) 32) (drop k devs)) @ replicate m True" "ps \<noteq> []"
    and "k \<le> length devs" "length devs \<le> 32" "\<forall>d \<in> set devs. td_idcode d \<noteq> 0xffffffff" "length (jtag_devs s) = 32"
  shows "\<exists>p ds. read_idcodes_loop proc k s = Some ((True, length devs), s\<lparr>jtag_devs := ds, js_port := p\<rparr>) \<and>
    state p Shift_DR (replicate (length ps) True) is \<and> length ds = 32 \<and>
    (\<forall>i<32. ds ! i = (if k \<le> i \<and> i < length devs then (jtag_devs s ! i)\<lparr>jd_idcode := td_idcode (devs ! i)\<rparr> else jtag_devs s ! i))"
  using assms
proof (induction "length devs - k" arbitrary: k s ps m)
  case 0
  then have k: "k = length devs" "ps = replicate m True" "0 < m" by simp_all
  have ones: "take 32 (ps @ replicate 32 True) = bits 0xffffffff 32"
    using k(2) by (simp add: bits_ones flip: replicate_add)
  obtain p where p: "from_port (proc_tdi_tdo_seq proc (replicate 4 0) False ones 32) s = Some (pack_bits (bits 0xffffffff 32), s\<lparr>js_port := p\<rparr>)"
    "state p Shift_DR (drop 32 (ps @ replicate 32 True)) is" using read_word [OF 0(2,4) ones] by auto
  have "drop 32 (ps @ replicate 32 True) = replicate (length ps) True" using k(2) by (simp flip: replicate_add)
  moreover have "read_idcodes_loop proc k s = Some ((True, k), s\<lparr>js_port := p\<rparr>)"
    using p(1) k(1) 0(6) by (simp add: read_idcodes_loop.simps [of proc "length devs"] pack_word)
  ultimately show ?case using p(2) k(1) 0(8) by (intro exI [of _ p] exI [of _ "jtag_devs s"]) auto
next
  case (Suc n)
  have k: "k < length devs" using Suc(2) by simp
  let ?w = "td_idcode (devs ! k)"
  let ?r = "concat (map (\<lambda>d. bits (td_idcode d) 32) (drop (Suc k) devs)) @ replicate m True"
  have ps: "ps = bits ?w 32 @ ?r" using Suc(4) k by (simp add: Cons_nth_drop_Suc [symmetric])
  have l: "length (bits ?w 32) = 32" by (simp add: bits_def)
  obtain p where p: "from_port (proc_tdi_tdo_seq proc (replicate 4 0) False ones 32) s = Some (pack_bits (bits ?w 32), s\<lparr>js_port := p\<rparr>)"
    "state p Shift_DR (drop 32 (ps @ replicate 32 True)) is" using read_word [OF Suc(3,5), of ?w] ps l by auto
  let ?ds = "(jtag_devs s)[k := (jtag_devs s ! k)\<lparr>jd_idcode := ?w\<rparr>]"
  let ?s = "s\<lparr>js_port := p, jtag_devs := ?ds\<rparr>" and ?ps = "?r @ replicate 32 True"
  have w: "?w \<noteq> 0xffffffff" "k < 32" "length (jtag_devs s) = 32" using Suc(7,8,9) k by simp_all
  have step: "read_idcodes_loop proc k s = read_idcodes_loop proc (Suc k) ?s"
    using p(1) w by (simp add: read_idcodes_loop.simps [of proc k] pack_word upd_dev_def)
  have "state (js_port ?s) Shift_DR ?ps is" using p(2) ps l by simp
  moreover have "?ps = concat (map (\<lambda>d. bits (td_idcode d) 32) (drop (Suc k) devs)) @ replicate (m + 32) True" by (simp add: replicate_add)
  moreover have "n = length devs - Suc k" using Suc(2) by simp
  ultimately obtain p' ds where r: "read_idcodes_loop proc (Suc k) ?s = Some ((True, length devs), ?s\<lparr>jtag_devs := ds, js_port := p'\<rparr>)"
    "state p' Shift_DR (replicate (length ?ps) True) is" "length ds = 32"
    "\<forall>i<32. ds ! i = (if Suc k \<le> i \<and> i < length devs then (?ds ! i)\<lparr>jd_idcode := td_idcode (devs ! i)\<rparr> else ?ds ! i)"
    using Suc(1) [of "Suc k" ?s ?ps "m + 32"] k Suc(7,8) w(3) by auto
  have "length ?ps = length ps" using ps l by simp
  then show ?case unfolding step using r w k
    by (intro exI [of _ p'] exI [of _ ds]) (auto simp: nth_list_update)
qed

subsection \<open>Instruction registers\<close>

lemma irs_step:
  assumes "l \<le> 32" "from_port (proc_next proc False True) s = Some (b, s1)" "ql = unat (quirk_length q)"
  shows "read_irs_loop cfg proc pre k (of_nat l) q s =
    (if ql \<noteq> 0 \<and> 32 \<le> l then None
     else if ql \<noteq> 0 \<and> bit (quirk_value q) l \<noteq> b then Some ((False, of_nat l), s1\<lparr>jtag_dev_count := 0\<rparr>)
     else if ql = 0 \<and> b \<and> 1 \<le> l \<or> Suc l = ql
     then if ql = 0 \<and> l = 1 then Some ((True, 2), s1)
          else (let ov = (if ql \<noteq> 0 then 0 else 1); n = Suc l - ov
                in do { s \<leftarrow> upd_dev k (\<lambda>d. d\<lparr>ir_len := of_nat n, ir_prescan := of_nat pre, current_ir := 0xffffffff\<rparr>) s1;
                        d \<leftarrow> get_dev (Suc k) s;
                        read_irs_loop cfg proc (pre + n) (Suc k) (of_nat ov) (jtag_device_get_quirks cfg (jd_idcode d)) s })
     else read_irs_loop cfg proc pre k (of_nat (Suc l)) q s1)"
proof -
  have u: "unat (of_nat l :: u8) = l" "unat (of_nat (Suc l) :: u8) = Suc l" using assms(1) by (simp_all add: unat_of_nat del: of_nat_Suc)
  have e: "(of_nat l :: u8) + 1 = of_nat (Suc l)" by simp
  have c: "\<not> (of_nat l :: u8) > 32" "(of_nat l :: u8) \<ge> 32 \<longleftrightarrow> 32 \<le> l" "(of_nat (Suc l) :: u8) > 1 \<longleftrightarrow> 1 \<le> l"
    "(of_nat (Suc l) :: u8) = quirk_length q \<longleftrightarrow> Suc l = ql" "(of_nat (Suc l) :: u8) = 2 \<longleftrightarrow> l = 1" "quirk_length q = 0 \<longleftrightarrow> ql = 0"
    using assms(1,3) by (auto simp: word_less_nat_alt word_le_nat_alt u word_unat_eq_iff simp del: of_nat_Suc)
  have n: "(of_nat (Suc l) - 1 :: u8) = of_nat l" by simp
  have one: "(of_nat (Suc 0) :: u8) = 1" by simp
  have two: "l = 1 \<Longrightarrow> (of_nat (Suc l) :: u8) = 2" by simp
  show ?thesis
  proof (cases "Suc l = ql")
    case True
    then have q: "ql = Suc l" "unat (quirk_length q) = Suc l" using assms(3) by simp_all
    show ?thesis using c unfolding q(1)
      by (subst read_irs_loop.simps) (simp add: assms(2) q(2) u e n one two Let_def del: of_nat_Suc cong: if_cong)
  next
    case False
    then show ?thesis
      by (subst read_irs_loop.simps) (simp add: assms(2) c u e n one two Let_def del: of_nat_Suc cong: if_cong)
  qed
qed

lemma ir_zeros:
  assumes "state (js_port s) Shift_IR (replicate m False @ rest) is" "rest \<noteq> []" "quirk_length q = 0" "0 < l" "l + m \<le> 32"
  shows "\<exists>p. read_irs_loop cfg proc pre k (of_nat l) q s = read_irs_loop cfg proc pre k (of_nat (l + m)) q (s\<lparr>js_port := p\<rparr>) \<and>
    state p Shift_IR (rest @ replicate m True) is"
  using assms
proof (induction m arbitrary: l s rest)
  case 0
  then show ?case by (intro exI [of _ "js_port s"]) simp
next
  case (Suc m)
  obtain p where p: "from_port (proc_next proc False True) s = Some (False, s\<lparr>js_port := p\<rparr>)"
    "state p Shift_IR (replicate m False @ rest @ [True]) is"
    using port_next [of s Shift_IR False "replicate m False @ rest" "is" True] Suc.prems(1) by auto
  have step: "read_irs_loop cfg proc pre k (of_nat l) q s = read_irs_loop cfg proc pre k (of_nat (Suc l)) q (s\<lparr>js_port := p\<rparr>)"
    using Suc.prems(3,5) by (subst irs_step [OF _ p(1) refl]) simp_all
  obtain p' where "read_irs_loop cfg proc pre k (of_nat (Suc l)) q (s\<lparr>js_port := p\<rparr>) =
      read_irs_loop cfg proc pre k (of_nat (Suc l + m)) q (s\<lparr>js_port := p, js_port := p'\<rparr>)" "state p' Shift_IR ((rest @ [True]) @ replicate m True) is"
    using Suc.IH [of "s\<lparr>js_port := p\<rparr>" "rest @ [True]" "Suc l"] p(2) Suc.prems by auto
  then show ?case unfolding step by (intro exI [of _ p']) (simp add: replicate_append_same del: of_nat_Suc)
qed

lemma ir_match:
  assumes "state (js_port s) Shift_IR (map (bit (quirk_value q)) [l..<l + m] @ rest) is" "rest \<noteq> []"
    "unat (quirk_length q) = n" "l + m < n" "n \<le> 32"
  shows "\<exists>p. read_irs_loop cfg proc pre k (of_nat l) q s = read_irs_loop cfg proc pre k (of_nat (l + m)) q (s\<lparr>js_port := p\<rparr>) \<and>
    state p Shift_IR (rest @ replicate m True) is"
  using assms
proof (induction m arbitrary: l s rest)
  case 0
  then show ?case by (intro exI [of _ "js_port s"]) simp
next
  case (Suc m)
  let ?b = "bit (quirk_value q) l"
  have e: "map (bit (quirk_value q)) [l..<l + Suc m] = ?b # map (bit (quirk_value q)) [Suc l..<Suc l + m]" by (subst upt_conv_Cons) (simp_all del: upt_Suc)
  obtain p where p: "from_port (proc_next proc False True) s = Some (?b, s\<lparr>js_port := p\<rparr>)"
    "state p Shift_IR (map (bit (quirk_value q)) [Suc l..<Suc l + m] @ rest @ [True]) is"
    using port_next [of s Shift_IR ?b "map (bit (quirk_value q)) [Suc l..<Suc l + m] @ rest" "is" True] Suc.prems(1) unfolding e by auto
  have step: "read_irs_loop cfg proc pre k (of_nat l) q s = read_irs_loop cfg proc pre k (of_nat (Suc l)) q (s\<lparr>js_port := p\<rparr>)"
    using Suc.prems(3-5) by (subst irs_step [OF _ p(1) Suc.prems(3) [symmetric]]) auto
  obtain p' where "read_irs_loop cfg proc pre k (of_nat (Suc l)) q (s\<lparr>js_port := p\<rparr>) =
      read_irs_loop cfg proc pre k (of_nat (Suc l + m)) q (s\<lparr>js_port := p, js_port := p'\<rparr>)" "state p' Shift_IR ((rest @ [True]) @ replicate m True) is"
    using Suc.IH [of "s\<lparr>js_port := p\<rparr>" "Suc l" "rest @ [True]"] p(2) Suc.prems by auto
  then show ?case unfolding step by (intro exI [of _ p']) (simp add: replicate_append_same del: of_nat_Suc)
qed

text \<open>One device: its fields are set, and the loop goes on with the next, of which one bit is already read when the
  length was found by the next one.\<close>

lemma ir_plain:
  assumes "state (js_port s) Shift_IR (drop ov (True # replicate (n - 1) False) @ rest) is" "hd (rest @ [True])" "rest \<noteq> [] \<or> ov = 0" "ov \<le> 1" "2 \<le> n" "n \<le> 32"
    "quirk_length q = 0" "Suc k < length (jtag_devs s)"
  shows "\<exists>p. read_irs_loop cfg proc pre k (of_nat ov) q s =
      read_irs_loop cfg proc (pre + n) (Suc k) (of_nat 1) (jtag_device_get_quirks cfg (jd_idcode (jtag_devs s ! Suc k)))
        (s\<lparr>jtag_devs := (jtag_devs s)[k := with_ir n pre (jtag_devs s ! k)], js_port := p\<rparr>) \<and>
    state p Shift_IR (drop 1 (rest @ replicate (n - ov + 1) True)) is"
proof -
  let ?z = "replicate (n - 1) False"
  have "\<exists>p. read_irs_loop cfg proc pre k (of_nat ov) q s = read_irs_loop cfg proc pre k (of_nat 1) q (s\<lparr>js_port := p\<rparr>) \<and>
    state p Shift_IR (?z @ rest @ replicate (1 - ov) True) is"
  proof (cases "ov = 0")
    case True
    obtain p where p: "from_port (proc_next proc False True) s = Some (True, s\<lparr>js_port := p\<rparr>)" "state p Shift_IR (?z @ rest @ [True]) is"
      using port_next [of s Shift_IR True "?z @ rest" "is" True] assms(1) True by auto
    show ?thesis using p(2) True assms(7) by (subst irs_step [OF _ p(1) refl]) auto
  next
    case False
    then have "ov = 1" using assms(4) by simp
    then show ?thesis using assms(1) by (intro exI [of _ "js_port s"]) simp
  qed
  then obtain p where p: "read_irs_loop cfg proc pre k (of_nat ov) q s = read_irs_loop cfg proc pre k (of_nat 1) q (s\<lparr>js_port := p\<rparr>)"
    "state p Shift_IR (?z @ rest @ replicate (1 - ov) True) is" by blast
  obtain p' where p': "read_irs_loop cfg proc pre k (of_nat 1) q (s\<lparr>js_port := p\<rparr>) = read_irs_loop cfg proc pre k (of_nat n) q (s\<lparr>js_port := p'\<rparr>)"
    "state p' Shift_IR (True # drop 1 (rest @ replicate (n - ov) True)) is"
  proof -
    have "(rest @ replicate (1 - ov) True) @ replicate (n - 1) True = True # drop 1 (rest @ replicate (n - ov) True)"
      using assms(2-6) by (cases rest; cases n) (auto simp flip: replicate_add)
    then show ?thesis using ir_zeros [of "s\<lparr>js_port := p\<rparr>" "n - 1" "rest @ replicate (1 - ov) True" "is" q 1 cfg pre k] p(2) assms(3-7) that
      by (auto simp del: of_nat_1 One_nat_def)
  qed
  obtain p'' where p'': "from_port (proc_next proc False True) (s\<lparr>js_port := p'\<rparr>) = Some (True, s\<lparr>js_port := p''\<rparr>)"
    "state p'' Shift_IR (drop 1 (rest @ replicate (n - ov) True) @ [True]) is"
    using port_next [of "s\<lparr>js_port := p'\<rparr>" Shift_IR True "drop 1 (rest @ replicate (n - ov) True)" "is" True] p'(2) by auto
  have "read_irs_loop cfg proc pre k (of_nat n) q (s\<lparr>js_port := p'\<rparr>) =
      read_irs_loop cfg proc (pre + n) (Suc k) (of_nat 1) (jtag_device_get_quirks cfg (jd_idcode (jtag_devs s ! Suc k)))
        (s\<lparr>jtag_devs := (jtag_devs s)[k := with_ir n pre (jtag_devs s ! k)], js_port := p''\<rparr>)"
    using assms(5-8) by (subst irs_step [OF _ p''(1) refl]) (simp_all add: upd_dev_def get_dev_def with_ir_def js_order)
  moreover have "drop 1 (rest @ replicate (n - ov) True) @ [True] = drop 1 (rest @ replicate (n - ov + 1) True)"
    using assms(4,5) by (cases rest; cases "n - ov") (auto simp: replicate_append_same)
  ultimately show ?thesis using p(1) p'(1) p''(2) by (intro exI [of _ p'']) (simp del: drop_append)
qed

lemma ir_quirk:
  assumes "state (js_port s) Shift_IR (drop ov (bits (quirk_value q) n) @ rest) is" "ov \<le> 1" "2 \<le> n" "n \<le> 32"
    "unat (quirk_length q) = n" "Suc k < length (jtag_devs s)"
  shows "\<exists>p. read_irs_loop cfg proc pre k (of_nat ov) q s =
      read_irs_loop cfg proc (pre + n) (Suc k) (of_nat 0) (jtag_device_get_quirks cfg (jd_idcode (jtag_devs s ! Suc k)))
        (s\<lparr>jtag_devs := (jtag_devs s)[k := with_ir n pre (jtag_devs s ! k)], js_port := p\<rparr>) \<and>
    state p Shift_IR (rest @ replicate (n - ov) True) is"
proof -
  let ?m = "n - 1 - ov" and ?b = "bit (quirk_value q) (n - 1)"
  have l: "ov + ?m = n - 1" "Suc (n - 1) = n" using assms(2,3) by simp_all
  have lt: "\<not> 32 \<le> n - Suc 0" using assms(3,4) by simp
  have "bits (quirk_value q) n = map (bit (quirk_value q)) [0..<n - 1] @ [?b]"
    unfolding bits_def by (subst l(2) [symmetric], subst upt_Suc_append) simp_all
  then have e: "drop ov (bits (quirk_value q) n) @ rest = map (bit (quirk_value q)) [ov..<ov + ?m] @ ?b # rest"
    using assms(2,3) unfolding l(1) by (simp add: drop_map)
  obtain p where p: "read_irs_loop cfg proc pre k (of_nat ov) q s = read_irs_loop cfg proc pre k (of_nat (n - 1)) q (s\<lparr>js_port := p\<rparr>)"
    "state p Shift_IR (?b # rest @ replicate ?m True) is"
    using ir_match [OF assms(1) [unfolded e] _ assms(5), of cfg pre k] assms(3,4) unfolding l(1) by auto
  obtain p' where p': "from_port (proc_next proc False True) (s\<lparr>js_port := p\<rparr>) = Some (?b, s\<lparr>js_port := p'\<rparr>)"
    "state p' Shift_IR (rest @ replicate ?m True @ [True]) is"
    using port_next [of "s\<lparr>js_port := p\<rparr>" Shift_IR ?b "rest @ replicate ?m True" "is" True] p(2) by auto
  have "read_irs_loop cfg proc pre k (of_nat (n - 1)) q (s\<lparr>js_port := p\<rparr>) =
      read_irs_loop cfg proc (pre + n) (Suc k) (of_nat 0) (jtag_device_get_quirks cfg (jd_idcode (jtag_devs s ! Suc k)))
        (s\<lparr>jtag_devs := (jtag_devs s)[k := with_ir n pre (jtag_devs s ! k)], js_port := p'\<rparr>)"
    using assms(3,4,6) lt by (subst irs_step [OF _ p'(1) assms(5) [symmetric]]) (simp_all add: upd_dev_def get_dev_def with_ir_def js_order)
  moreover have "replicate ?m True @ [True] = replicate (n - ov) True" using assms(2,3) by (cases "n - ov") (auto simp: replicate_append_same)
  ultimately show ?thesis using p(1) p'(2) by (intro exI [of _ p']) simp
qed

lemma ir_device:
  assumes "state (js_port s) Shift_IR (drop ov (td_capture d) @ rest) is" "ir_ok cfg d" "hd (rest @ [True])" "rest \<noteq> [] \<or> ov = 0" "ov \<le> 1"
    "Suc k < length (jtag_devs s)" "n = length (td_capture d)"
  shows "\<exists>p ov'. ov' \<le> 1 \<and> read_irs_loop cfg proc pre k (of_nat ov) (jtag_device_get_quirks cfg (td_idcode d)) s =
      read_irs_loop cfg proc (pre + n) (Suc k) (of_nat ov') (jtag_device_get_quirks cfg (jd_idcode (jtag_devs s ! Suc k)))
        (s\<lparr>jtag_devs := (jtag_devs s)[k := with_ir n pre (jtag_devs s ! k)], js_port := p\<rparr>) \<and>
    state p Shift_IR (drop ov' (rest @ replicate (n - ov + ov') True)) is"
proof (cases "quirk_length (jtag_device_get_quirks cfg (td_idcode d)) = 0")
  case True
  then have c: "td_capture d = True # replicate (n - 1) False" "2 \<le> n" "n \<le> 32" using assms(2,7) by (simp_all add: ir_ok_def Let_def)
  show ?thesis using ir_plain [OF assms(1) [unfolded c(1)] assms(3-5) c(2,3) True assms(6), of cfg pre] by blast
next
  case False
  then have c: "td_capture d = bits (quirk_value (jtag_device_get_quirks cfg (td_idcode d))) n" "2 \<le> n" "n \<le> 32"
    "unat (quirk_length (jtag_device_get_quirks cfg (td_idcode d))) = n" using assms(2,7) by (simp_all add: ir_ok_def Let_def)
  show ?thesis using ir_quirk [OF assms(1) [unfolded c(1)] assms(5) c(2-4) assms(6), of cfg pre] by (metis drop_0 add_0_right zero_le_one)
qed

lemma ir_end:
  assumes "state (js_port s) Shift_IR (replicate m True) is" "0 < m" "ov \<le> 1" "quirk_length q = 0"
  shows "\<exists>p. read_irs_loop cfg proc pre k (of_nat ov) q s = Some ((True, 2), s\<lparr>js_port := p\<rparr>) \<and> state p Shift_IR (replicate m True) is"
proof -
  obtain j where m: "m = Suc j" using assms(2) by (cases m) auto
  have bit: "\<exists>p. from_port (proc_next proc False True) s = Some (True, s\<lparr>js_port := p\<rparr>) \<and> state p Shift_IR (replicate m True) is"
    if "state (js_port s) Shift_IR (replicate m True) is" for s
    using port_next [of s Shift_IR True "replicate j True" "is" True] that by (auto simp: m replicate_append_same)
  have one: "\<exists>p. read_irs_loop cfg proc pre k (of_nat 1) q s = Some ((True, 2), s\<lparr>js_port := p\<rparr>) \<and> state p Shift_IR (replicate m True) is"
    if st: "state (js_port s) Shift_IR (replicate m True) is" for s
  proof -
    obtain p where p: "from_port (proc_next proc False True) s = Some (True, s\<lparr>js_port := p\<rparr>)" "state p Shift_IR (replicate m True) is" using bit [OF st] by auto
    show ?thesis using p(2) assms(4) by (subst irs_step [OF _ p(1) refl]) auto
  qed
  show ?thesis
  proof (cases "ov = 0")
    case True
    obtain p where p: "from_port (proc_next proc False True) s = Some (True, s\<lparr>js_port := p\<rparr>)" "state p Shift_IR (replicate m True) is" using bit [OF assms(1)] by auto
    have "read_irs_loop cfg proc pre k (of_nat ov) q s = read_irs_loop cfg proc pre k (of_nat 1) q (s\<lparr>js_port := p\<rparr>)"
      unfolding True using assms(4) by (subst irs_step [OF _ p(1) refl]) simp_all
    then show ?thesis using one [of "s\<lparr>js_port := p\<rparr>"] p(2) by auto
  next
    case False
    then have "ov = 1" using assms(3) by simp
    then show ?thesis using one [OF assms(1)] by simp
  qed
qed

lemma irs_loop:
  assumes "state (js_port s) Shift_IR (drop ov (concat (map td_capture (drop k devs)) @ replicate m True)) is" "ov \<le> 1" "ov < m \<or> ov = 0 \<and> k < length devs"
    and "k \<le> length devs" "length devs < length (jtag_devs s)" "list_all (ir_ok cfg) devs"
    and "\<forall>i < length (jtag_devs s). jd_idcode (jtag_devs s ! i) = (if i < length devs then td_idcode (devs ! i) else 0)"
    and "pre = sum_list (map (length \<circ> td_capture) (take k devs))" "quirk_length (jtag_device_get_quirks cfg 0) = 0"
  shows "\<exists>p ds. read_irs_loop cfg proc pre k (of_nat ov) (jtag_device_get_quirks cfg (jd_idcode (jtag_devs s ! k))) s = Some ((True, 2), s\<lparr>jtag_devs := ds, js_port := p\<rparr>) \<and>
    state p Shift_IR (replicate (length (concat (map td_capture (drop k devs))) + m - ov) True) is \<and> length ds = length (jtag_devs s) \<and>
    (\<forall>i < length ds. ds ! i = (if k \<le> i \<and> i < length devs
       then with_ir (length (td_capture (devs ! i))) (sum_list (map (length \<circ> td_capture) (take i devs))) (jtag_devs s ! i) else jtag_devs s ! i))"
  using assms
proof (induction "length devs - k" arbitrary: k s ov m pre)
  case 0
  then have k: "k = length devs" by simp
  have st: "state (js_port s) Shift_IR (replicate (m - ov) True) is" "0 < m - ov" using 0 k by simp_all
  have "quirk_length (jtag_device_get_quirks cfg (jd_idcode (jtag_devs s ! k))) = 0" using 0 k by simp
  then obtain p where "read_irs_loop cfg proc pre k (of_nat ov) (jtag_device_get_quirks cfg (jd_idcode (jtag_devs s ! k))) s = Some ((True, 2), s\<lparr>js_port := p\<rparr>)"
    "state p Shift_IR (replicate (m - ov) True) is" using ir_end [OF st 0(3)] by blast
  then show ?case using k by (intro exI [of _ p] exI [of _ "jtag_devs s"]) auto
next
  case (Suc n)
  have k: "k < length devs" "Suc k < length (jtag_devs s)" using Suc(2,7) by simp_all
  let ?d = "devs ! k"
  let ?n = "length (td_capture ?d)" and ?r = "concat (map td_capture (drop (Suc k) devs)) @ replicate m True"
  have ok: "ir_ok cfg d" if "d \<in> set devs" for d using Suc(8) that by (simp add: list_all_iff)
  then have kok: "ir_ok cfg ?d" "2 \<le> ?n" using ok [of ?d] k by (simp, simp add: ir_ok_def Let_def)
  have hd: "hd (td_capture d)" "td_capture d \<noteq> []" if "d \<in> set devs" for d
    using ir_ok_hd [OF ok [OF that]] by simp_all
  have r: "hd (?r @ [True])" "?r \<noteq> [] \<or> ov = 0"
  proof -
    show "hd (?r @ [True])"
    proof (cases "Suc k < length devs")
      case True
      then show ?thesis using hd [of "devs ! Suc k"] by (simp add: Cons_nth_drop_Suc [symmetric])
    qed (cases m, simp_all)
  qed (use Suc(5) in auto)
  have e: "drop ov (concat (map td_capture (drop k devs)) @ replicate m True) = drop ov (td_capture ?d) @ ?r"
    using k Suc(4) kok(2) by (simp add: Cons_nth_drop_Suc [symmetric])
  have id: "jd_idcode (jtag_devs s ! k) = td_idcode ?d" using Suc(9) k by simp
  obtain p ov' where p: "ov' \<le> 1" "read_irs_loop cfg proc pre k (of_nat ov) (jtag_device_get_quirks cfg (td_idcode ?d)) s =
      read_irs_loop cfg proc (pre + ?n) (Suc k) (of_nat ov') (jtag_device_get_quirks cfg (jd_idcode (jtag_devs s ! Suc k)))
        (s\<lparr>jtag_devs := (jtag_devs s)[k := with_ir ?n pre (jtag_devs s ! k)], js_port := p\<rparr>)"
    "state p Shift_IR (drop ov' (?r @ replicate (?n - ov + ov') True)) is"
    using ir_device [OF Suc(3) [unfolded e] kok(1) r Suc(4) k(2) refl, of pre] by blast
  let ?ds = "(jtag_devs s)[k := with_ir ?n pre (jtag_devs s ! k)]"
  let ?s = "s\<lparr>jtag_devs := ?ds, js_port := p\<rparr>" and ?m = "m + (?n - ov + ov')"
  have "?r @ replicate (?n - ov + ov') True = concat (map td_capture (drop (Suc k) devs)) @ replicate ?m True" by (simp add: replicate_add)
  then have st: "state (js_port ?s) Shift_IR (drop ov' (concat (map td_capture (drop (Suc k) devs)) @ replicate ?m True)) is" using p(3) by (simp del: drop_append)
  have pre: "pre + ?n = sum_list (map (length \<circ> td_capture) (take (Suc k) devs))" using Suc(10) k by (simp add: take_Suc_conv_app_nth)
  have ids: "\<forall>i < length (jtag_devs ?s). jd_idcode (jtag_devs ?s ! i) = (if i < length devs then td_idcode (devs ! i) else 0)"
    using Suc(9) k by (auto simp: nth_list_update with_ir_def)
  have q: "jd_idcode (jtag_devs s ! Suc k) = jd_idcode (jtag_devs ?s ! Suc k)" by simp
  obtain p' ds where r': "read_irs_loop cfg proc (pre + ?n) (Suc k) (of_nat ov') (jtag_device_get_quirks cfg (jd_idcode (jtag_devs ?s ! Suc k))) ?s =
      Some ((True, 2), ?s\<lparr>jtag_devs := ds, js_port := p'\<rparr>)"
    "state p' Shift_IR (replicate (length (concat (map td_capture (drop (Suc k) devs))) + ?m - ov') True) is" "length ds = length (jtag_devs ?s)"
    "\<forall>i < length ds. ds ! i = (if Suc k \<le> i \<and> i < length devs
       then with_ir (length (td_capture (devs ! i))) (sum_list (map (length \<circ> td_capture) (take i devs))) (jtag_devs ?s ! i) else jtag_devs ?s ! i)"
    using Suc(1) [of "Suc k" ?s ov' ?m "pre + ?n"] st p(1) k Suc(2,5,7,8,11) pre ids kok(2) Suc(4) by fastforce
  have l: "length (concat (map td_capture (drop (Suc k) devs))) + ?m - ov' = length (concat (map td_capture (drop k devs))) + m - ov"
    using k(1) kok(2) Suc(4) by (simp add: Cons_nth_drop_Suc [symmetric])
  show ?case unfolding id p(2) q r'(1)
    using r'(2-4) k Suc(10) unfolding l
    by (intro exI [of _ p'] exI [of _ ds]) (auto simp: nth_list_update)
qed

end

end
