(* ===== verification/Jtag_Session.thy ===== *)
theory Jtag_Session
  imports Jtag_Chain
begin

text \<open>
  The scan of a chain from reset to the table of devices, and access to one device of the chain. The last part
  runs both on the bit-banged port with a chain of devices as IEEE 1149.1 describes them.
\<close>

subsection \<open>The table\<close>

definition ir_lens :: "tap_dev list \<Rightarrow> nat list" where
  "ir_lens devs = map (length \<circ> td_capture) devs"

text \<open>A chain the scan can handle.\<close>

definition chain_ok :: "jtag_build \<Rightarrow> tap_dev list \<Rightarrow> bool" where
  "chain_ok cfg devs \<longleftrightarrow>
     devs \<noteq> [] \<and> length devs < 32 \<and> list_all (ir_ok cfg) devs \<and> list_all (\<lambda>d. td_idcode d \<noteq> 0xffffffff) devs \<and> sum_list (ir_lens devs) < 256"

text \<open>What the table says of a chain: the identification code, the length of the instruction register, and how many
  bits of instruction and data registers come before and after those of the device when all others are bypassed.\<close>

definition scanned :: "tap_dev list \<Rightarrow> 's jtag \<Rightarrow> bool" where
  "scanned devs s \<longleftrightarrow>
     unat (jtag_dev_count s) = length devs \<and> length (jtag_devs s) = 32 \<and>
     (\<forall>i < length devs. let d = jtag_devs s ! i
        in jd_idcode d = td_idcode (devs ! i) \<and> unat (ir_len d) = length (td_capture (devs ! i)) \<and>
           unat (ir_prescan d) = sum_list (ir_lens (take i devs)) \<and> unat (ir_postscan d) = sum_list (ir_lens (drop (Suc i) devs)) \<and>
           unat (dr_prescan d) = i \<and> unat (dr_postscan d) = length devs - 1 - i)"

text \<open>The instructions in the devices are those the table says.\<close>

definition synced :: "tap_dev list \<Rightarrow> 's jtag \<Rightarrow> bool list option list \<Rightarrow> bool" where
  "synced devs s is \<longleftrightarrow> is = map (\<lambda>i. Some (bits (current_ir (jtag_devs s ! i)) (length (td_capture (devs ! i))))) [0..<length devs]"

definition with_dr :: "nat \<Rightarrow> nat \<Rightarrow> jtag_dev \<Rightarrow> jtag_dev" where
  "with_dr n i d = d\<lparr>dr_prescan := of_nat i, dr_postscan := of_nat (n - 1 - i)\<rparr>"

lemma length_bits: "length (bits w n) = n"
  by (simp add: bits_def)

lemma split_at_concat: "split_at (map length xss) (concat xss) = xss"
  by (induction xss) simp_all

lemma split_at_ones: "split_at ns (replicate (sum_list ns) True) = map (\<lambda>n. replicate n True) ns"
  by (induction ns) (simp_all add: replicate_add)

lemma no_quirk_0: "quirk_length (jtag_device_get_quirks cfg 0) = 0"
proof -
  have "find_descr cfg 0 = None" by (auto simp: find_descr_def find_None_iff dest: set_takeWhileD)
  then show ?thesis by (simp add: jtag_device_get_quirks_def)
qed

lemma sum_take_drop: "i < length ns \<Longrightarrow> sum_list (take i ns) + ns ! i + sum_list (drop (Suc i) ns) = (sum_list ns :: nat)"
  by (metis add.assoc id_take_nth_drop sum_list.Cons sum_list.append)

lemma scannedI:
  assumes "chain_ok cfg devs" "unat (jtag_dev_count s) = length devs" "length (jtag_devs s) = 32"
    "\<And>i. i < length devs \<Longrightarrow> jtag_devs s ! i = (with_dr (length devs) i (with_ir (ir_lens devs ! i) (sum_list (take i (ir_lens devs))) d))
      \<lparr>jd_idcode := td_idcode (devs ! i), ir_postscan := of_nat (sum_list (drop (Suc i) (ir_lens devs)))\<rparr>"
  shows "scanned devs s"
proof -
  have b: "sum_list (ir_lens devs) < 256" "length devs < 32" using assms(1) by (simp_all add: chain_ok_def)
  have u: "m < 256 \<Longrightarrow> unat (of_nat m :: u8) = m" for m by (simp add: unat_of_nat)
  show ?thesis unfolding scanned_def Let_def
  proof (intro conjI allI impI)
    fix i
    assume i: "i < length devs"
    have t: "sum_list (take i (ir_lens devs)) + ir_lens devs ! i + sum_list (drop (Suc i) (ir_lens devs)) < 256"
      using sum_take_drop [of i "ir_lens devs"] i b(1) by (simp add: ir_lens_def)
    have e: "ir_lens (take i devs) = take i (ir_lens devs)" "ir_lens (drop (Suc i) devs) = drop (Suc i) (ir_lens devs)" "length (td_capture (devs ! i)) = ir_lens devs ! i"
      using i by (simp_all add: ir_lens_def take_map drop_map)
    note d = assms(4) [OF i]
    show "jd_idcode (jtag_devs s ! i) = td_idcode (devs ! i)" unfolding d by simp
    show "unat (ir_len (jtag_devs s ! i)) = length (td_capture (devs ! i))" unfolding d e using t by (simp add: with_dr_def with_ir_def u)
    show "unat (ir_prescan (jtag_devs s ! i)) = sum_list (ir_lens (take i devs))" unfolding d e using t by (simp add: with_dr_def with_ir_def u)
    show "unat (ir_postscan (jtag_devs s ! i)) = sum_list (ir_lens (drop (Suc i) devs))" unfolding d e using t by (simp add: u)
    show "unat (dr_prescan (jtag_devs s ! i)) = i" unfolding d using i b(2) by (simp add: with_dr_def u)
    show "unat (dr_postscan (jtag_devs s ! i)) = length devs - 1 - i" unfolding d using i b(2) by (simp add: with_dr_def u del: of_nat_diff)
  qed (use assms(2,3) in simp_all)
qed

lemma fill_postscan_sets:
  assumes "idx \<le> length (jtag_devs s)" "\<forall>i < idx. ir_len (jtag_devs s ! i) = of_nat (lens ! i)" "idx \<le> length lens"
  shows "\<exists>ds. fill_postscan idx (of_nat c) s = Some (s\<lparr>jtag_devs := ds\<rparr>) \<and> length ds = length (jtag_devs s) \<and>
    (\<forall>i < length ds. ds ! i = (if i < idx then (jtag_devs s ! i)\<lparr>ir_postscan := of_nat (c + sum_list (drop (Suc i) (take idx lens)))\<rparr> else jtag_devs s ! i))"
  using assms
proof (induction idx arbitrary: c s)
  case 0
  then show ?case by (intro exI [of _ "jtag_devs s"]) simp
next
  case (Suc idx)
  let ?ds = "(jtag_devs s)[idx := (jtag_devs s ! idx)\<lparr>ir_postscan := of_nat c\<rparr>]"
  have step: "fill_postscan (Suc idx) (of_nat c) s = fill_postscan idx (of_nat (c + lens ! idx)) (s\<lparr>jtag_devs := ?ds\<rparr>)"
    using Suc.prems by (simp add: upd_dev_def get_dev_def)
  obtain ds where ds: "fill_postscan idx (of_nat (c + lens ! idx)) (s\<lparr>jtag_devs := ?ds\<rparr>) = Some (s\<lparr>jtag_devs := ds\<rparr>)" "length ds = length ?ds"
    "\<forall>i < length ds. ds ! i = (if i < idx then (?ds ! i)\<lparr>ir_postscan := of_nat (c + lens ! idx + sum_list (drop (Suc i) (take idx lens)))\<rparr> else ?ds ! i)"
    using Suc.IH [of "s\<lparr>jtag_devs := ?ds\<rparr>" "c + lens ! idx"] Suc.prems by auto
  have l: "idx < length lens" using Suc.prems(3) by simp
  have "sum_list (drop (Suc i) (take (Suc idx) lens)) = lens ! idx + sum_list (drop (Suc i) (take idx lens))" if "i < idx" for i
    using that l by (simp add: take_Suc_conv_app_nth)
  moreover have "drop (Suc idx) (take (Suc idx) lens) = []" using l by simp
  ultimately show ?case unfolding step using ds Suc.prems(1)
    by (intro exI [of _ ds]) (auto simp: nth_list_update less_Suc_eq add.assoc)
qed

lemma shifted_out: "length ps = length xs + length ys + length zs \<Longrightarrow> drop (length zs) (drop (length ys) (drop (length xs) (ps @ xs) @ ys) @ zs) = xs @ ys @ zs"
  by simp

lemma split_at_append: "split_at (ns @ ms) (xs @ ys) = split_at ns xs @ split_at ms ys" if "length xs = sum_list ns"
  using that by (induction ns arbitrary: xs) auto

definition others_bypass :: "tap_dev list \<Rightarrow> nat \<Rightarrow> 's jtag \<Rightarrow> bool" where
  "others_bypass devs i s \<longleftrightarrow> (\<forall>j < length devs. j \<noteq> i \<longrightarrow> current_ir (jtag_devs s ! j) = 0xffffffff)"

context jtag_bus
begin

lemma bypass_captured:
  assumes "insns d = map (\<lambda>n. Some (replicate n True)) (ir_lens devs)"
  shows "concat (map (captured d) [0..<length devs]) = replicate (length devs) False"
proof -
  have "map (captured d) [0..<length devs] = map (\<lambda>_. [False]) [0..<length devs]"
    using captured_bypass [of _ d] by (intro map_cong) (auto simp: assms ir_lens_def)
  then show ?thesis by (simp add: map_replicate_const concat_replicate_trivial flip: replicate_append_same)
qed

lemma sanity_sets:
  assumes "state (js_port s) Shift_DR (replicate (n - k) False @ replicate k True) is" "k \<le> n" "0 < n" "unat (jtag_dev_count s) = n" "n < 256" "n \<le> length (jtag_devs s)"
  shows "\<exists>p ds. sanity_loop proc k s = Some (n, s\<lparr>jtag_devs := ds, js_port := p\<rparr>) \<and> state p Shift_DR (replicate n True) is \<and>
    length ds = length (jtag_devs s) \<and>
    (\<forall>i < length ds. ds ! i = (if k \<le> i \<and> i < n then with_dr n i (jtag_devs s ! i) else jtag_devs s ! i))"
  using assms
proof (induction "n - k" arbitrary: k s)
  case 0
  then have k: "k = n" by simp
  obtain j where n: "n = Suc j" using 0(4) by (cases n) auto
  obtain p where p: "from_port (proc_next proc False True) s = Some (True, s\<lparr>js_port := p\<rparr>)" "state p Shift_DR (replicate n True) is"
    using port_next [of s Shift_DR True "replicate j True" "is" True] 0(2) by (auto simp: k n replicate_append_same)
  have "sanity_loop proc k s = Some (n, s\<lparr>js_port := p\<rparr>)" using p(1) 0(5) k by (simp add: sanity_loop.simps [of proc n])
  then show ?case using p(2) k by (intro exI [of _ p] exI [of _ "jtag_devs s"]) auto
next
  case (Suc j)
  have k: "k < n" "n - k = Suc j" "n - Suc k = j" using Suc(2) by simp_all
  obtain p where p: "from_port (proc_next proc False True) s = Some (False, s\<lparr>js_port := p\<rparr>)" "state p Shift_DR (replicate (n - Suc k) False @ replicate (Suc k) True) is"
    using port_next [of s Shift_DR False "replicate j False @ replicate k True" "is" True] Suc(3) unfolding k(2,3) by (auto simp: replicate_append_same)
  let ?s = "s\<lparr>jtag_devs := (jtag_devs s)[k := with_dr n k (jtag_devs s ! k)], js_port := p\<rparr>"
  have w: "(ucast (jtag_dev_count s - of_nat k - 1) :: u8) = of_nat (n - 1 - k)"
  proof -
    have c: "jtag_dev_count s = of_nat n" unfolding Suc(6) [symmetric] by simp
    have "jtag_dev_count s - of_nat k - 1 = of_nat (n - 1 - k)" unfolding c using k(1) by (simp add: of_nat_diff)
    then show ?thesis using Suc(7) by (simp add: unsigned_of_nat take_bit_nat_eq_self)
  qed
  have step: "sanity_loop proc k s = sanity_loop proc (Suc k) ?s"
    using p(1) Suc(6,8) k(1) w by (simp add: sanity_loop.simps [of proc k] upd_dev_def with_dr_def js_order)
  obtain p' ds where r: "sanity_loop proc (Suc k) ?s = Some (n, ?s\<lparr>jtag_devs := ds, js_port := p'\<rparr>)" "state p' Shift_DR (replicate n True) is"
    "length ds = length (jtag_devs ?s)"
    "\<forall>i < length ds. ds ! i = (if Suc k \<le> i \<and> i < n then with_dr n i (jtag_devs ?s ! i) else jtag_devs ?s ! i)"
    using Suc(1) [of "Suc k" ?s] p(2) k Suc(5-8) by auto
  show ?case unfolding step using r k by (intro exI [of _ p'] exI [of _ ds]) (auto simp: nth_list_update not_less_eq_eq dest: le_antisym)
qed

subsection \<open>The scan\<close>

lemma idcodes_read:
  assumes "state (js_port s) Run_Test_Idle ps (replicate (length devs) None)" "chain_ok cfg devs" "jtag_devs s = replicate 32 zero_dev"
  shows "\<exists>p ds. jtag_read_idcodes proc s = Some (True, s\<lparr>jtag_devs := ds, js_port := p, jtag_dev_count := of_nat (length devs)\<rparr>) \<and>
    (\<exists>ps is. state p Run_Test_Idle ps is) \<and> length ds = 32 \<and>
    (\<forall>i<32. ds ! i = (if i < length devs then zero_dev\<lparr>jd_idcode := td_idcode (devs ! i)\<rparr> else zero_dev))"
proof -
  have c: "devs \<noteq> []" "length devs \<le> 32" "\<forall>d \<in> set devs. td_idcode d \<noteq> 0xffffffff" using assms(2) by (auto simp: chain_ok_def list_all_iff)
  let ?is = "replicate (length devs) None" and ?ps = "concat (map (\<lambda>d. bits (td_idcode d) 32) devs)"
  have "map (captured d) [0..<length devs] = map (\<lambda>d. bits (td_idcode d) 32) devs" if "insns d = ?is" for d
    using captured_idcode [of _ d] that by (intro nth_equalityI) auto
  then obtain p where p: "on_port (jtagtap_shift_dr proc) s = Some (s\<lparr>js_port := p\<rparr>)" "state p Shift_DR ?ps ?is"
    using port_shift_dr [OF assms(1)] by auto
  have ne: "?ps \<noteq> []" using c(1) by (cases devs) (auto simp: bits_def)
  obtain p1 ds where p1: "read_idcodes_loop proc 0 (s\<lparr>js_port := p\<rparr>) = Some ((True, length devs), s\<lparr>jtag_devs := ds, js_port := p1\<rparr>)"
    "state p1 Shift_DR (replicate (length ?ps) True) ?is" "length ds = 32"
    "\<forall>i<32. ds ! i = (if i < length devs then zero_dev\<lparr>jd_idcode := td_idcode (devs ! i)\<rparr> else zero_dev)"
  proof -
    have "state (js_port (s\<lparr>js_port := p\<rparr>)) Shift_DR ?ps ?is" "?ps = concat (map (\<lambda>d. bits (td_idcode d) 32) (drop 0 devs)) @ replicate 0 True"
      "length (jtag_devs (s\<lparr>js_port := p\<rparr>)) = 32" using p(2) assms(3) by simp_all
    from idcodes_loop [OF this(1,2) ne _ c(2,3) this(3)] obtain p1 ds where
      "read_idcodes_loop proc 0 (s\<lparr>js_port := p\<rparr>) = Some ((True, length devs), s\<lparr>js_port := p, jtag_devs := ds, js_port := p1\<rparr>)"
      "state p1 Shift_DR (replicate (length ?ps) True) ?is" "length ds = 32"
      "\<forall>i<32. ds ! i = (if 0 \<le> i \<and> i < length devs then (jtag_devs (s\<lparr>js_port := p\<rparr>) ! i)\<lparr>jd_idcode := td_idcode (devs ! i)\<rparr> else jtag_devs (s\<lparr>js_port := p\<rparr>) ! i)"
      by blast
    then show ?thesis using assms(3) by (intro that) auto
  qed
  obtain j where j: "length ?ps = Suc j" using ne by (cases "length ?ps") auto
  obtain p2 where p2: "from_port (proc_next proc True True) (s\<lparr>jtag_devs := ds, js_port := p1\<rparr>) = Some (True, s\<lparr>jtag_devs := ds, js_port := p2\<rparr>)"
    "state p2 Exit1_DR (replicate j True @ [True]) ?is"
    using port_exit [of "s\<lparr>jtag_devs := ds, js_port := p1\<rparr>" Shift_DR True "replicate j True" ?is Exit1_DR True] p1(2) unfolding j by auto
  obtain p3 where p3: "on_port (jtagtap_return_idle proc 1) (s\<lparr>jtag_devs := ds, js_port := p2\<rparr>) = Some (s\<lparr>jtag_devs := ds, js_port := p3\<rparr>)"
    "state p3 Run_Test_Idle (replicate j True @ [True]) ?is"
    using port_idle_dr [of "s\<lparr>jtag_devs := ds, js_port := p2\<rparr>"] p2(2) by auto
  show ?thesis using p(1) p1(1) p2(1) p3 p1(3,4) unfolding jtag_read_idcodes_def by (intro exI [of _ p3] exI [of _ ds]) auto
qed

lemma irs_read:
  assumes "state (js_port s) Run_Test_Idle ps is" "chain_ok cfg devs" "length (jtag_devs s) = 32" "quirk_length (jtag_device_get_quirks cfg 0) = 0"
    "\<forall>i<32. jd_idcode (jtag_devs s ! i) = (if i < length devs then td_idcode (devs ! i) else 0)"
  shows "\<exists>p ds. jtag_read_irs cfg proc s = Some (True, s\<lparr>jtag_devs := ds, js_port := p\<rparr>) \<and>
    state p Shift_IR (replicate (sum_list (ir_lens devs)) True) is \<and> length ds = 32 \<and>
    (\<forall>i<32. ds ! i = (if i < length devs then with_ir (length (td_capture (devs ! i))) (sum_list (ir_lens (take i devs))) (jtag_devs s ! i) else jtag_devs s ! i))"
proof -
  have c: "devs \<noteq> []" "length devs < 32" "list_all (ir_ok cfg) devs" using assms(2) by (simp_all add: chain_ok_def)
  let ?ps = "concat (map td_capture devs)"
  obtain p where p: "on_port (jtagtap_shift_ir proc) s = Some (s\<lparr>js_port := p\<rparr>)" "state p Shift_IR ?ps is" using port_shift_ir [OF assms(1)] by auto
  have l: "length ?ps = sum_list (ir_lens devs)" by (simp add: length_concat ir_lens_def comp_def)
  let ?s = "s\<lparr>js_port := p\<rparr>"
  have st: "state (js_port ?s) Shift_IR (drop 0 (concat (map td_capture (drop 0 devs)) @ replicate 0 True)) is" using p(2) by simp
  have ids: "\<forall>i < length (jtag_devs ?s). jd_idcode (jtag_devs ?s ! i) = (if i < length devs then td_idcode (devs ! i) else 0)" using assms(3,5) by simp
  obtain p1 ds where r: "read_irs_loop cfg proc 0 0 (of_nat 0) (jtag_device_get_quirks cfg (jd_idcode (jtag_devs ?s ! 0))) ?s = Some ((True, 2), ?s\<lparr>jtag_devs := ds, js_port := p1\<rparr>)"
    "state p1 Shift_IR (replicate (length (concat (map td_capture (drop 0 devs))) + 0 - 0) True) is" "length ds = length (jtag_devs ?s)"
    "\<forall>i < length ds. ds ! i = (if 0 \<le> i \<and> i < length devs
       then with_ir (length (td_capture (devs ! i))) (sum_list (map (length \<circ> td_capture) (take i devs))) (jtag_devs ?s ! i) else jtag_devs ?s ! i)"
    using irs_loop [OF st _ _ _ _ c(3) ids _ assms(4)] c(1,2) assms(3) by fastforce
  have "jtag_read_irs cfg proc s = Some (True, s\<lparr>jtag_devs := ds, js_port := p1\<rparr>)"
    using p(1) r(1) assms(3) by (auto simp: jtag_read_irs_def get_dev_def)
  then show ?thesis using r(2-4) assms(3) l by (intro exI [of _ p1] exI [of _ ds]) (simp add: ir_lens_def)
qed

lemma irs_exit:
  assumes "state (js_port s) Shift_IR (replicate (sum_list (ir_lens devs)) True) is" "0 < sum_list (ir_lens devs)"
  shows "\<exists>q p ps. from_port (proc_next proc True True) s = Some (True, s\<lparr>js_port := q\<rparr>) \<and>
    on_port (jtagtap_return_idle proc 1) (s\<lparr>js_port := q\<rparr>) = Some (s\<lparr>js_port := p\<rparr>) \<and> state p Run_Test_Idle ps (map (\<lambda>n. Some (replicate n True)) (ir_lens devs))"
proof -
  obtain j where j: "sum_list (ir_lens devs) = Suc j" using assms(2) by (cases "sum_list (ir_lens devs)") auto
  obtain p where p: "from_port (proc_next proc True True) s = Some (True, s\<lparr>js_port := p\<rparr>)" "state p Exit1_IR (replicate (Suc j) True) is"
    using port_exit [of s Shift_IR True "replicate j True" "is" Exit1_IR True] assms(1) by (auto simp: j replicate_append_same)
  have "split_at (map (length \<circ> td_capture) devs) (replicate (Suc j) True) = map (\<lambda>n. replicate n True) (ir_lens devs)"
    using split_at_ones [of "ir_lens devs"] unfolding j by (simp add: ir_lens_def)
  then show ?thesis using p port_idle_ir [of "s\<lparr>js_port := p\<rparr>" "replicate (Suc j) True" "is"] by (auto simp: comp_def)
qed

lemma sanity_passes:
  assumes "state (js_port s) Run_Test_Idle ps (map (\<lambda>n. Some (replicate n True)) (ir_lens devs))" "devs \<noteq> []" "length devs < 32"
    "unat (jtag_dev_count s) = length devs" "length (jtag_devs s) = 32"
  shows "\<exists>p ds ps. jtag_sanity_check proc s = Some (True, s\<lparr>jtag_devs := ds, js_port := p\<rparr>) \<and>
    state p Run_Test_Idle ps (map (\<lambda>n. Some (replicate n True)) (ir_lens devs)) \<and> length ds = 32 \<and>
    (\<forall>i<32. ds ! i = (if i < length devs then with_dr (length devs) i (jtag_devs s ! i) else jtag_devs s ! i))"
proof -
  let ?is = "map (\<lambda>n. Some (replicate n True)) (ir_lens devs)" and ?n = "length devs"
  obtain p where p: "on_port (jtagtap_shift_dr proc) s = Some (s\<lparr>js_port := p\<rparr>)" "state p Shift_DR (replicate ?n False) ?is"
    using port_shift_dr [OF assms(1)] bypass_captured by auto
  have st: "state (js_port (s\<lparr>js_port := p\<rparr>)) Shift_DR (replicate (?n - 0) False @ replicate 0 True) ?is" using p(2) by simp
  obtain p1 ds where r: "sanity_loop proc 0 (s\<lparr>js_port := p\<rparr>) = Some (?n, s\<lparr>js_port := p\<rparr>\<lparr>jtag_devs := ds, js_port := p1\<rparr>)" "state p1 Shift_DR (replicate ?n True) ?is"
    "length ds = 32" "\<forall>i<32. ds ! i = (if i < ?n then with_dr ?n i (jtag_devs s ! i) else jtag_devs s ! i)"
    using sanity_sets [OF st] assms(2-5) by auto
  obtain j where j: "?n = Suc j" using assms(2) by (cases ?n) auto
  let ?s = "s\<lparr>jtag_devs := ds, js_port := p1\<rparr>"
  obtain p2 where p2: "from_port (proc_next proc True True) ?s = Some (True, ?s\<lparr>js_port := p2\<rparr>)" "state p2 Exit1_DR (replicate j True @ [True]) ?is"
    using port_exit [of ?s Shift_DR True "replicate j True" ?is Exit1_DR True] r(2) unfolding j by auto
  obtain p3 where p3: "on_port (jtagtap_return_idle proc 1) (?s\<lparr>js_port := p2\<rparr>) = Some (?s\<lparr>js_port := p2, js_port := p3\<rparr>)" "state p3 Run_Test_Idle (replicate j True @ [True]) ?is"
    using port_idle_dr [of "?s\<lparr>js_port := p2\<rparr>"] p2(2) by auto
  have "jtag_dev_count s \<noteq> 0" using assms(2,4) by auto
  then have "jtag_sanity_check proc s = Some (True, s\<lparr>jtag_devs := ds, js_port := p3\<rparr>)"
    using p(1) r(1) p2(1) p3(1) assms(4) by (simp add: jtag_sanity_check_def)
  then show ?thesis using p3(2) r(3,4) by blast
qed

lemma scan_finds:
  assumes "chain_ok cfg devs" "jx_target_list_free x (js_port s) = Some p0" "jx_jtagtap_init x p0 = Some p1" "ok p1"
  shows "\<exists>s' ps is. jtag_scan cfg proc x s = do { s \<leftarrow> run_handlers cfg x [0..<length devs] s'; Some (jtag_dev_count s > 0, s) } \<and>
    scanned devs s' \<and> (\<forall>i < length devs. current_ir (jtag_devs s' ! i) = 0xffffffff) \<and> state (js_port s') Run_Test_Idle ps is \<and> synced devs s' is"
proof -
  let ?n = "length devs" and ?L = "ir_lens devs"
  have c: "devs \<noteq> []" "?n < 32" "list_all (ir_ok cfg) devs" "sum_list ?L < 256" using assms(1) by (simp_all add: chain_ok_def)
  have L: "2 \<le> ?L ! i" "?L ! i \<le> 32" "?L ! i = length (td_capture (devs ! i))" if "i < ?n" for i
    using c(3) that by (auto simp: ir_lens_def ir_ok_def Let_def list_all_length)
  have pos: "0 < sum_list ?L" using sum_take_drop [of 0 ?L] L(1) [of 0] c(1) by (simp add: ir_lens_def)
  let ?sa = "s\<lparr>js_port := p1, jtag_dev_count := 0, jtag_devs := replicate 32 zero_dev\<rparr>"
  obtain p2 ps where p2: "on_port (proc_reset proc) ?sa = Some (?sa\<lparr>js_port := p2\<rparr>)" "state p2 Run_Test_Idle ps (replicate ?n None)"
    using port_reset [of ?sa] assms(4) by auto
  let ?sb = "?sa\<lparr>js_port := p2\<rparr>"
  obtain p3 da psa isa where p3: "jtag_read_idcodes proc ?sb = Some (True, ?sb\<lparr>jtag_devs := da, js_port := p3, jtag_dev_count := of_nat ?n\<rparr>)"
    "state p3 Run_Test_Idle psa isa" "length da = 32" "\<forall>i<32. da ! i = (if i < ?n then zero_dev\<lparr>jd_idcode := td_idcode (devs ! i)\<rparr> else zero_dev)"
    using idcodes_read [of ?sb ps cfg] p2(2) assms(1) by auto
  let ?sc = "?sb\<lparr>jtag_devs := da, js_port := p3, jtag_dev_count := of_nat ?n\<rparr>"
  have ids: "\<forall>i<32. jd_idcode (jtag_devs ?sc ! i) = (if i < ?n then td_idcode (devs ! i) else 0)" using p3(4) by (simp add: zero_dev_def)
  obtain p4 db where p4: "jtag_read_irs cfg proc ?sc = Some (True, ?sc\<lparr>jtag_devs := db, js_port := p4\<rparr>)"
    "state p4 Shift_IR (replicate (sum_list ?L) True) isa" "length db = 32"
    "\<forall>i<32. db ! i = (if i < ?n then with_ir (length (td_capture (devs ! i))) (sum_list (ir_lens (take i devs))) (da ! i) else da ! i)"
    using irs_read [of ?sc psa isa cfg, OF _ assms(1) _ no_quirk_0 ids] p3(2,3) by auto
  let ?sd = "?sc\<lparr>jtag_devs := db, js_port := p4\<rparr>" and ?is = "map (\<lambda>n. Some (replicate n True)) ?L"
  obtain q p5 psb where p5: "from_port (proc_next proc True True) ?sd = Some (True, ?sd\<lparr>js_port := q\<rparr>)"
    "on_port (jtagtap_return_idle proc 1) (?sd\<lparr>js_port := q\<rparr>) = Some (?sd\<lparr>js_port := p5\<rparr>)" "state p5 Run_Test_Idle psb ?is" using irs_exit [of ?sd isa] p4(2) pos by auto
  let ?se = "?sd\<lparr>js_port := p5\<rparr>"
  have cnt: "unat (of_nat ?n :: u32) = ?n" using c(2) by (simp add: unat_of_nat)
  obtain p6 dc psc where p6: "jtag_sanity_check proc ?se = Some (True, ?se\<lparr>jtag_devs := dc, js_port := p6\<rparr>)"
    "state p6 Run_Test_Idle psc ?is" "length dc = 32" "\<forall>i<32. dc ! i = (if i < ?n then with_dr ?n i (db ! i) else db ! i)"
    using sanity_passes [of ?se psb] p5(3) c(1,2) cnt p4(3) by auto
  let ?sf = "?se\<lparr>jtag_devs := dc, js_port := p6\<rparr>"
  have lens: "\<forall>i < ?n. ir_len (jtag_devs ?sf ! i) = of_nat (?L ! i)"
    using p6(4) p4(4) c(2) L(3) by (simp add: with_dr_def with_ir_def)
  obtain dd where dd: "fill_postscan ?n (of_nat 0) ?sf = Some (?sf\<lparr>jtag_devs := dd\<rparr>)" "length dd = 32"
    "\<forall>i < 32. dd ! i = (if i < ?n then (dc ! i)\<lparr>ir_postscan := of_nat (0 + sum_list (drop (Suc i) (take ?n ?L)))\<rparr> else dc ! i)"
    using fill_postscan_sets [of ?n ?sf ?L 0] lens p6(3) c(2) by (auto simp: ir_lens_def)
  let ?sg = "?sf\<lparr>jtag_devs := dd\<rparr>"
  have dev: "dd ! i = (with_dr ?n i (with_ir (?L ! i) (sum_list (take i ?L)) zero_dev))\<lparr>jd_idcode := td_idcode (devs ! i), ir_postscan := of_nat (sum_list (drop (Suc i) ?L))\<rparr>"
    if "i < ?n" for i using dd(3) p6(4) p4(4) p3(4) that c(2) L(3) [OF that] by (simp add: with_dr_def with_ir_def ir_lens_def take_map drop_map)
  have sc: "scanned devs ?sg" by (rule scannedI [OF assms(1)]) (use cnt dd(2) dev in simp_all)
  have cur: "current_ir (dd ! i) = 0xffffffff" if "i < ?n" for i using dev [OF that] by (simp add: with_dr_def with_ir_def)
  have "synced devs ?sg ?is" unfolding synced_def
    by (rule nth_equalityI) (use cur L bits_ones in \<open>auto simp: ir_lens_def\<close>)
  moreover have "jtag_scan cfg proc x s = do { s \<leftarrow> run_handlers cfg x [0..<?n] ?sg; Some (jtag_dev_count s > 0, s) }"
  proof -
    have "on_port (jx_target_list_free x) s = Some (s\<lparr>js_port := p0\<rparr>)" using assms(2) by (simp add: on_port_def)
    moreover have "on_port (jx_jtagtap_init x) (s\<lparr>js_port := p0, jtag_dev_count := 0, jtag_devs := replicate 32 zero_dev\<rparr>) = Some ?sa"
      using assms(3) by (simp add: on_port_def)
    ultimately show ?thesis unfolding jtag_scan_def using p2(1) p3(1) p4(1) p5(1,2) p6(1) dd(1) cnt by simp
  qed
  ultimately show ?thesis using sc cur p6(2) by (intro exI [of _ ?sg]) auto
qed

subsection \<open>Access to one device\<close>

lemma port_tdi_none:
  assumes "state (js_port s) st ps is"
  shows "\<exists>p. on_port (proc_tdi_seq proc f data 0) s = Some (s\<lparr>js_port := p\<rparr>) \<and> state p st ps is"
  using tdi_ok [of "js_port s" 0 data f] assms by (auto simp: on_port_def state_def data_steps_def)

text \<open>Ones for the devices before, the data, ones for those after: the last bit leaves the shift state.\<close>

lemma port_slice:
  assumes "state (js_port s) st ps is" "st = Shift_DR \<and> st' = Exit1_DR \<or> st = Shift_IR \<and> st' = Exit1_IR"
    "length ps = pre + n + post" "0 < n" "n \<le> 8 * length data" "pre \<le> 64" "post \<le> 64"
  shows "\<exists>p1 p2 p3. on_port (proc_tdi_seq proc False ones pre) s = Some (s\<lparr>js_port := p1\<rparr>) \<and>
    on_port (proc_tdi_seq proc (post = 0) data n) (s\<lparr>js_port := p1\<rparr>) = Some (s\<lparr>js_port := p2\<rparr>) \<and>
    on_port (proc_tdi_seq proc True ones post) (s\<lparr>js_port := p2\<rparr>) = Some (s\<lparr>js_port := p3\<rparr>) \<and>
    state p3 st' (replicate pre True @ dbits data n @ replicate post True) is"
proof -
  have ne: "ps \<noteq> []" "st = Shift_DR \<or> st = Shift_IR" using assms(2-4) by auto
  obtain p1 where p1: "on_port (proc_tdi_seq proc False ones pre) s = Some (s\<lparr>js_port := p1\<rparr>)" "state p1 st (drop pre (ps @ replicate pre True)) is"
    using port_tdi [OF assms(1) ne(2,1), of pre ones False] assms(6) by (auto simp: dbits_ones length_ones)
  let ?q = "drop pre (ps @ replicate pre True)" and ?e = "replicate pre True @ dbits data n @ replicate post True"
  have q: "?q \<noteq> []" using assms(3,4) by simp
  have e: "drop post (drop n (?q @ dbits data n) @ replicate post True) = ?e"
    using shifted_out [of ps "replicate pre True" "dbits data n" "replicate post True"] assms(3) by simp
  show ?thesis
  proof (cases "post = 0")
    case True
    obtain p2 where p2: "on_port (proc_tdi_seq proc True data n) (s\<lparr>js_port := p1\<rparr>) = Some (s\<lparr>js_port := p2\<rparr>)" "state p2 st' (drop n (?q @ dbits data n)) is"
      using port_tdi_exit [of "s\<lparr>js_port := p1\<rparr>" st ?q "is" st' n data] p1(2) assms(2,4,5) q by auto
    obtain p3 where "on_port (proc_tdi_seq proc True ones 0) (s\<lparr>js_port := p2\<rparr>) = Some (s\<lparr>js_port := p2\<rparr>\<lparr>js_port := p3\<rparr>)" "state p3 st' (drop n (?q @ dbits data n)) is"
      using port_tdi_none [of "s\<lparr>js_port := p2\<rparr>" st' _ "is" True ones] p2(2) by auto
    then show ?thesis using p1(1) p2(1) e True by (intro exI [of _ p1] exI [of _ p2] exI [of _ p3]) simp
  next
    case False
    obtain p2 where p2: "on_port (proc_tdi_seq proc False data n) (s\<lparr>js_port := p1\<rparr>) = Some (s\<lparr>js_port := p2\<rparr>)" "state p2 st (drop n (?q @ dbits data n)) is"
      using port_tdi [of "s\<lparr>js_port := p1\<rparr>" st ?q "is" n data False] p1(2) ne(2) assms(5) q by auto
    have r: "drop n (?q @ dbits data n) \<noteq> []" using assms(3) False by simp
    obtain p3 where "on_port (proc_tdi_seq proc True ones post) (s\<lparr>js_port := p2\<rparr>) = Some (s\<lparr>js_port := p2\<rparr>\<lparr>js_port := p3\<rparr>)"
      "state p3 st' (drop post (drop n (?q @ dbits data n) @ replicate post True)) is"
      using port_tdi_exit [of "s\<lparr>js_port := p2\<rparr>", OF _ assms(2) r, of "is" post ones] p2(2) assms(7) False by (auto simp: dbits_ones length_ones simp del: drop_append drop_drop)
    then show ?thesis using p1(1) p2(1) e False by (intro exI [of _ p1] exI [of _ p2] exI [of _ p3]) simp
  qed
qed

lemma port_slice_tdo:
  assumes "state (js_port s) st ps is" "st = Shift_DR \<and> st' = Exit1_DR \<or> st = Shift_IR \<and> st' = Exit1_IR"
    "length ps = pre + n + post" "0 < n" "n \<le> 8 * length data" "pre \<le> 64" "post \<le> 64" "n \<le> 8 * length out" "take n (drop pre ps) = d"
  shows "\<exists>p1 p2 p3. on_port (proc_tdi_seq proc False ones pre) s = Some (s\<lparr>js_port := p1\<rparr>) \<and>
    from_port (proc_tdi_tdo_seq proc out (post = 0) data n) (s\<lparr>js_port := p1\<rparr>) = Some (pack_bits d @ drop ((n + 7) div 8) out, s\<lparr>js_port := p2\<rparr>) \<and>
    on_port (proc_tdi_seq proc True ones post) (s\<lparr>js_port := p2\<rparr>) = Some (s\<lparr>js_port := p3\<rparr>) \<and>
    state p3 st' (replicate pre True @ dbits data n @ replicate post True) is"
proof -
  have ne: "ps \<noteq> []" "st = Shift_DR \<or> st = Shift_IR" using assms(2-4) by auto
  obtain p1 where p1: "on_port (proc_tdi_seq proc False ones pre) s = Some (s\<lparr>js_port := p1\<rparr>)" "state p1 st (drop pre (ps @ replicate pre True)) is"
    using port_tdi [OF assms(1) ne(2,1), of pre ones False] assms(6) by (auto simp: dbits_ones length_ones)
  let ?q = "drop pre (ps @ replicate pre True)" and ?e = "replicate pre True @ dbits data n @ replicate post True"
  have q: "?q \<noteq> []" using assms(3,4) by simp
  have d: "take n (?q @ dbits data n) = d" using assms(3,9) by auto
  have e: "drop post (drop n (?q @ dbits data n) @ replicate post True) = ?e"
    using shifted_out [of ps "replicate pre True" "dbits data n" "replicate post True"] assms(3) by simp
  show ?thesis
  proof (cases "post = 0")
    case True
    obtain p2 where p2: "from_port (proc_tdi_tdo_seq proc out True data n) (s\<lparr>js_port := p1\<rparr>) = Some (pack_bits d @ drop ((n + 7) div 8) out, s\<lparr>js_port := p2\<rparr>)" "state p2 st' (drop n (?q @ dbits data n)) is"
      using port_tdi_tdo_exit [of "s\<lparr>js_port := p1\<rparr>" st ?q "is" st' n data out] p1(2) assms(2,4,5,8) q d by (auto simp del: take_append)
    obtain p3 where "on_port (proc_tdi_seq proc True ones 0) (s\<lparr>js_port := p2\<rparr>) = Some (s\<lparr>js_port := p2\<rparr>\<lparr>js_port := p3\<rparr>)" "state p3 st' (drop n (?q @ dbits data n)) is"
      using port_tdi_none [of "s\<lparr>js_port := p2\<rparr>" st' _ "is" True ones] p2(2) by auto
    then show ?thesis using p1(1) p2(1) e True by (intro exI [of _ p1] exI [of _ p2] exI [of _ p3]) simp
  next
    case False
    obtain p2 where p2: "from_port (proc_tdi_tdo_seq proc out False data n) (s\<lparr>js_port := p1\<rparr>) = Some (pack_bits d @ drop ((n + 7) div 8) out, s\<lparr>js_port := p2\<rparr>)" "state p2 st (drop n (?q @ dbits data n)) is"
      using port_tdi_tdo [of "s\<lparr>js_port := p1\<rparr>" st ?q "is" n data out False] p1(2) ne(2) assms(5,8) q d by (auto simp del: take_append)
    have r: "drop n (?q @ dbits data n) \<noteq> []" using assms(3) False by simp
    obtain p3 where "on_port (proc_tdi_seq proc True ones post) (s\<lparr>js_port := p2\<rparr>) = Some (s\<lparr>js_port := p2\<rparr>\<lparr>js_port := p3\<rparr>)"
      "state p3 st' (drop post (drop n (?q @ dbits data n) @ replicate post True)) is"
      using port_tdi_exit [of "s\<lparr>js_port := p2\<rparr>", OF _ assms(2) r, of "is" post ones] p2(2) assms(7) False by (auto simp: dbits_ones length_ones simp del: drop_append drop_drop)
    then show ?thesis using p1(1) p2(1) e False by (intro exI [of _ p1] exI [of _ p2] exI [of _ p3]) simp
  qed
qed

lemma bypass_path:
  assumes "i < length devs" "synced devs s is" "others_bypass devs i s" "list_all (ir_ok cfg) devs" "insns d = is"
  shows "concat (map (captured d) [0..<length devs]) = replicate i False @ captured d i @ replicate (length devs - 1 - i) False"
proof -
  have b: "captured d j = [False]" if "j < length devs" "j \<noteq> i" for j
  proof (rule captured_bypass [OF that(1)])
    have "length (td_capture (devs ! j)) \<le> 32" using assms(4) that(1) by (auto simp: list_all_length ir_ok_def Let_def)
    then show "insns d ! j = Some (replicate (length (td_capture (devs ! j))) True)"
      using assms(2,3,5) that by (simp add: synced_def others_bypass_def bits_ones)
  qed
  have f: "concat (map (captured d) js) = replicate (length js) False" if "\<forall>j \<in> set js. j < length devs \<and> j \<noteq> i" for js
    using that b by (induction js) simp_all
  have "[0..<length devs] = [0..<i] @ i # [Suc i..<length devs]"
    using assms(1) upt_add_eq_append [of 0 i "length devs - i"] by (simp add: upt_conv_Cons)
  then show ?thesis using f [of "[0..<i]"] f [of "[Suc i..<length devs]"] assms(1) by simp
qed

lemma dev_shift_dr:
  assumes "scanned devs s" "list_all (ir_ok cfg) devs" "length devs < 32" "state (js_port s) Run_Test_Idle ps is" "synced devs s is" "others_bypass devs i s" "i < length devs" "unat idx = i"
    and "n = length (captured (mid (dev (js_port s))) i)" "0 < n" "n \<le> 8 * length data" "n \<le> 8 * length out"
  shows "\<exists>p. jtag_dev_shift_dr proc idx (Some out) data n s =
      Some (Some (pack_bits (captured (mid (dev (js_port s))) i) @ drop ((n + 7) div 8) out), s\<lparr>js_port := p\<rparr>) \<and>
    state p Run_Test_Idle (replicate i True @ dbits data n @ replicate (length devs - 1 - i) True) is"
proof -
  let ?D = "captured (mid (dev (js_port s))) i" and ?d = "jtag_devs s ! i" and ?post = "length devs - 1 - i"
  have d: "get_dev (unat idx) s = Some ?d" "unat (dr_prescan ?d) = i" "unat (dr_postscan ?d) = ?post"
    using assms(1,3,7,8) by (auto simp: scanned_def get_dev_def Let_def)
  have l: "?post \<le> 64" "i \<le> 64" using assms(3,7) by simp_all
  have z: "dr_postscan ?d = 0 \<longleftrightarrow> ?post = 0" using d(3) by (metis unat_eq_zero)
  obtain p where p: "on_port (jtagtap_shift_dr proc) s = Some (s\<lparr>js_port := p\<rparr>)" "state p Shift_DR (replicate i False @ ?D @ replicate ?post False) is"
    using port_shift_dr [OF assms(4)] bypass_path [OF assms(7,5,6,2)] by auto
  let ?s = "s\<lparr>js_port := p\<rparr>"
  obtain p1 p2 p3 where p3: "on_port (proc_tdi_seq proc False ones i) ?s = Some (?s\<lparr>js_port := p1\<rparr>)"
    "from_port (proc_tdi_tdo_seq proc out (?post = 0) data n) (?s\<lparr>js_port := p1\<rparr>) = Some (pack_bits ?D @ drop ((n + 7) div 8) out, ?s\<lparr>js_port := p2\<rparr>)"
    "on_port (proc_tdi_seq proc True ones ?post) (?s\<lparr>js_port := p2\<rparr>) = Some (?s\<lparr>js_port := p3\<rparr>)"
    "state p3 Exit1_DR (replicate i True @ dbits data n @ replicate ?post True) is"
    using port_slice_tdo [of ?s Shift_DR "replicate i False @ ?D @ replicate ?post False" "is" Exit1_DR i n ?post data out ?D] p(2) l assms(9-12) by auto
  obtain p4 where p4: "on_port (jtagtap_return_idle proc 1) (?s\<lparr>js_port := p3\<rparr>) = Some (?s\<lparr>js_port := p3\<rparr>\<lparr>js_port := p4\<rparr>)"
    "state p4 Run_Test_Idle (replicate i True @ dbits data n @ replicate ?post True) is"
    using port_idle_dr [of "?s\<lparr>js_port := p3\<rparr>"] p3(4) by auto
  show ?thesis using d z p(1) p3(1-3) p4 by (intro exI [of _ p4]) (simp add: jtag_dev_shift_dr_def)
qed

text \<open>Writing an instruction puts it in the device and puts all others in bypass.\<close>

lemma dev_write_ir:
  assumes "scanned devs s" "list_all (ir_ok cfg) devs" "state (js_port s) Run_Test_Idle ps is" "synced devs s is" "i < length devs" "unat idx = i"
    and "ir \<noteq> current_ir (jtag_devs s ! i)" "sum_list (ir_lens (take i devs)) \<le> 64" "sum_list (ir_lens (drop (Suc i) devs)) \<le> 64" "length devs < 32"
  shows "\<exists>s' ps' is'. jtag_dev_write_ir proc idx ir s = Some s' \<and> state (js_port s') Run_Test_Idle ps' is' \<and> scanned devs s' \<and> synced devs s' is' \<and>
    others_bypass devs i s' \<and> current_ir (jtag_devs s' ! i) = ir"
proof -
  let ?d = "jtag_devs s ! i" and ?pre = "ir_lens (take i devs)" and ?post = "ir_lens (drop (Suc i) devs)" and ?n = "length (td_capture (devs ! i))"
  let ?ds = "(map (\<lambda>d. d\<lparr>current_ir := 0xffffffff\<rparr>) (take (length devs) (jtag_devs s)) @ drop (length devs) (jtag_devs s))[i := ?d\<lparr>current_ir := ir\<rparr>]"
  let ?s = "s\<lparr>jtag_devs := ?ds\<rparr>"
  have d: "get_dev (unat idx) s = Some ?d" "unat (ir_len ?d) = ?n" "unat (ir_prescan ?d) = sum_list ?pre" "unat (ir_postscan ?d) = sum_list ?post"
    "unat (jtag_dev_count s) = length devs" "length (jtag_devs s) = 32"
    using assms(1,5,6,10) by (auto simp: scanned_def get_dev_def Let_def)
  have z: "ir_postscan ?d = 0 \<longleftrightarrow> sum_list ?post = 0" using d(4) by (metis unat_eq_zero)
  have nth: "?ds ! j = (if j = i then ?d\<lparr>current_ir := ir\<rparr> else if j < length devs then (jtag_devs s ! j)\<lparr>current_ir := 0xffffffff\<rparr> else jtag_devs s ! j)" if "j < 32" for j
    using that d(6) assms(5,10) by (auto simp: nth_list_update nth_append)
  have up: "upd_dev (unat idx) (\<lambda>d. d\<lparr>current_ir := ir\<rparr>) (all_bypass s) = Some ?s"
    using d(5,6) assms(5,6,10) by (auto simp: upd_dev_def all_bypass_def nth_append)
  have n: "2 \<le> ?n" "?n \<le> 32" using assms(2,5) by (auto simp: list_all_length ir_ok_def Let_def)
  have L: "map (length \<circ> td_capture) devs = ?pre @ ?n # ?post"
    using arg_cong [OF id_take_nth_drop [OF assms(5)], of "map (length \<circ> td_capture)"] by (simp add: ir_lens_def)
  obtain p where p: "on_port (jtagtap_shift_ir proc) ?s = Some (?s\<lparr>js_port := p\<rparr>)" "state p Shift_IR (concat (map td_capture devs)) is"
    using port_shift_ir [of ?s ps "is"] assms(3) by auto
  let ?sa = "?s\<lparr>js_port := p\<rparr>" and ?path = "replicate (sum_list ?pre) True @ dbits (bytes_of_u32 ir) ?n @ replicate (sum_list ?post) True"
  have len: "length (concat (map td_capture devs)) = sum_list ?pre + ?n + sum_list ?post"
    using arg_cong [OF L, of sum_list] by (simp add: length_concat comp_def)
  have st: "state (js_port ?sa) Shift_IR (concat (map td_capture devs)) is" using p(2) by simp
  have ex: "Shift_IR = Shift_DR \<and> Exit1_IR = Exit1_DR \<or> Shift_IR = Shift_IR \<and> Exit1_IR = Exit1_IR" by simp
  have b: "0 < ?n" "?n \<le> 8 * length (bytes_of_u32 ir)" using n by (linarith, simp add: bytes_of_u32_def)
  obtain p1 p2 p3 where p3: "on_port (proc_tdi_seq proc False ones (sum_list ?pre)) ?sa = Some (?sa\<lparr>js_port := p1\<rparr>)"
    "on_port (proc_tdi_seq proc (sum_list ?post = 0) (bytes_of_u32 ir) ?n) (?sa\<lparr>js_port := p1\<rparr>) = Some (?sa\<lparr>js_port := p2\<rparr>)"
    "on_port (proc_tdi_seq proc True ones (sum_list ?post)) (?sa\<lparr>js_port := p2\<rparr>) = Some (?sa\<lparr>js_port := p3\<rparr>)" "state p3 Exit1_IR ?path is"
    using port_slice [OF st ex len b assms(8,9)] by blast
  have st3: "state (js_port (?sa\<lparr>js_port := p3\<rparr>)) Exit1_IR ?path is" using p3(4) by simp
  obtain p4 ps' where p4: "on_port (jtagtap_return_idle proc 1) (?sa\<lparr>js_port := p3\<rparr>) = Some (?sa\<lparr>js_port := p3\<rparr>\<lparr>js_port := p4\<rparr>)"
    "state p4 Run_Test_Idle ps' (map Some (split_at (map (length \<circ> td_capture) devs) ?path))"
    using port_idle_ir [OF st3] by blast
  let ?sb = "s\<lparr>jtag_devs := ?ds, js_port := p4\<rparr>"
  have run: "jtag_dev_write_ir proc idx ir s = Some ?sb"
    unfolding jtag_dev_write_ir_def using d assms(7,10) up z p(1) p3(1-3) p4(1) by simp
  have sp: "split_at (map (length \<circ> td_capture) devs) ?path = map (\<lambda>n. replicate n True) ?pre @ bits ir ?n # map (\<lambda>n. replicate n True) ?post"
    unfolding L using n(2) by (simp add: split_at_append split_at_ones dbits_word length_bits)
  have ln: "Suc (length ?pre + length ?post) = length devs" using assms(5) by (simp add: ir_lens_def)
  have "synced devs ?sb (map Some (split_at (map (length \<circ> td_capture) devs) ?path))"
    unfolding synced_def sp
  proof (rule nth_equalityI)
    show l: "length (map Some (map (\<lambda>n. replicate n True) ?pre @ bits ir ?n # map (\<lambda>n. replicate n True) ?post)) =
      length (map (\<lambda>i. Some (bits (current_ir (jtag_devs ?sb ! i)) (length (td_capture (devs ! i))))) [0..<length devs])"
      using ln by (simp only: length_map length_append list.size length_upt add_Suc_right add_0_right diff_zero)
    fix j
    assume "j < length (map Some (map (\<lambda>n. replicate n True) ?pre @ bits ir ?n # map (\<lambda>n. replicate n True) ?post))"
    then have j: "j < length devs" unfolding l by simp
    moreover have "length (td_capture (devs ! j)) \<le> 32" using assms(2) j by (auto simp: list_all_length ir_ok_def Let_def)
    ultimately show "map Some (map (\<lambda>n. replicate n True) ?pre @ bits ir ?n # map (\<lambda>n. replicate n True) ?post) ! j =
      map (\<lambda>i. Some (bits (current_ir (jtag_devs ?sb ! i)) (length (td_capture (devs ! i))))) [0..<length devs] ! j"
      using nth [of j] assms(5,10) by (auto simp: nth_append ir_lens_def bits_ones nth_Cons')
  qed
  moreover have "scanned devs ?sb" using assms(1) nth assms(10) by (auto simp: scanned_def Let_def)
  moreover have "others_bypass devs i ?sb" "current_ir (jtag_devs ?sb ! i) = ir" using d(6) assms(5,10) by (auto simp: others_bypass_def nth_append)
  ultimately show ?thesis using run p4(2) by (intro exI [of _ ?sb]) auto
qed

end

end
