(* ===== verification/Jtag_Gpio.thy ===== *)
theory Jtag_Gpio
  imports Jtag_Session
begin

text \<open>
  The scan and the access to a device on the bit-banged port. The devices are any that keep the laws of tap_chain;
  a chain that does, written out as a state machine, closes the theory.
\<close>

subsection \<open>A chain of devices\<close>

text \<open>The controllers of all devices are in the same state. The function reg says what a device captures under an
  instruction that is neither identification nor bypass.\<close>

record tap_line =
  tl_tap :: tap_state
  tl_path :: "bool list"
  tl_insns :: "bool list option list"

definition line_captured :: "tap_dev list \<Rightarrow> (nat \<Rightarrow> bool list \<Rightarrow> bool list) \<Rightarrow> tap_line \<Rightarrow> nat \<Rightarrow> bool list" where
  "line_captured devs reg d i =
     (case tl_insns d ! i of
        None \<Rightarrow> bits (td_idcode (devs ! i)) 32
      | Some ir \<Rightarrow> if ir = replicate (length (td_capture (devs ! i))) True then [False] else reg i ir)"

definition line_clock :: "tap_dev list \<Rightarrow> (nat \<Rightarrow> bool list \<Rightarrow> bool list) \<Rightarrow> tap_line tap_clock" where
  "line_clock devs reg tms tdi d =
     (let st = tap_next (tl_tap d) tms;
          shifting = (tl_tap d = Shift_DR \<or> tl_tap d = Shift_IR) \<and> tl_path d \<noteq> [];
          path = (if tl_tap d = Capture_IR then concat (map td_capture devs)
                  else if tl_tap d = Capture_DR then concat (map (line_captured devs reg d) [0..<length devs])
                  else if shifting then tl (tl_path d) @ [tdi] else tl_path d);
          insns = (if st = Test_Logic_Reset then replicate (length devs) None
                   else if st = Update_IR then map Some (split_at (map (length \<circ> td_capture) devs) (tl_path d))
                   else tl_insns d)
      in (if shifting then hd (tl_path d) else True, \<lparr>tl_tap = st, tl_path = path, tl_insns = insns\<rparr>))"

interpretation line: tap_chain "line_clock devs reg" tl_tap tl_path tl_insns "line_captured devs reg" devs
  by unfold_locales (auto simp: line_clock_def line_captured_def Let_def)

interpretation gpio_line: jtag_bus "gpio_proc (line_clock devs reg)" idle_pins "line_clock devs reg" jp_dev tl_tap tl_path tl_insns "line_captured devs reg" devs
  by unfold_locales

subsection \<open>The port behind the scan\<close>

lemma swd_idle_pins: "idle_pins p \<Longrightarrow> idle_pins (swd_idle clock n p)"
proof (induction n arbitrary: p)
  case (Suc n)
  then show ?case using next_clocks [OF Suc.prems, of clock True False] by (auto simp: moved_def)
qed simp

lemma jtagtap_init_pins: "idle_pins p \<Longrightarrow> idle_pins (jtagtap_init clock p)"
  using tms_seq_clocks [OF swd_idle_pins [of p clock 51], of clock "0xe73c" 16] by (simp add: jtagtap_init_def moved_def)

lemma gpio_bus: "tap_chain clock tap path insns captured devs \<Longrightarrow> jtag_bus (gpio_proc clock) idle_pins clock jp_dev tap path insns captured devs"
  by (intro jtag_bus.intro gpio.jtag_port_axioms)

lemmas gpio_state = jtag_bus.state_def [OF gpio_bus]

text \<open>C24: On the bit-banged port, jtag_scan finds every device of a chain it can measure, from whatever state the
  devices are in. Such a chain has from one to 31 devices with the controller of IEEE 1149.1 and fewer than 256
  instruction bits in all; every device has an identification code, and its instruction register, of 2 to 32 bits,
  captures what the table of devices gives as a quirk for it or, without a quirk, a one followed by zeros (the
  standard only fixes the first two bits; a device that captures another one without a quirk is outside). When the
  scan comes to the handlers, the table holds the devices with their identification codes, their instruction register
  lengths and their positions, every controller is in Run-Test/Idle, and the instructions in the devices are those the
  table says.\<close>

theorem jtag_scan_finds:
  assumes "tap_chain clock tap path insns captured devs"
    and "devs \<noteq> []" "length devs < 32" "sum_list (ir_lens devs) < 256" "list_all (\<lambda>d. td_idcode d \<noteq> 0xffffffff) devs" "list_all (ir_ok cfg) devs"
    and "jx_target_list_free x (js_port s) = Some p" "idle_pins p" "jx_jtagtap_init x = (\<lambda>p. Some (jtagtap_init clock p))"
  shows "\<exists>s'. jtag_scan cfg (gpio_proc clock) x s = do { s \<leftarrow> run_handlers cfg x [0..<length devs] s'; Some (jtag_dev_count s > 0, s) } \<and>
    scanned devs s' \<and> idle_pins (js_port s') \<and> tap (jp_dev (js_port s')) = Run_Test_Idle \<and> synced devs s' (insns (jp_dev (js_port s')))"
proof -
  have i: "jx_jtagtap_init x p = Some (jtagtap_init clock p)" using assms(9) by simp
  have "chain_ok cfg devs" using assms(2-6) by (simp add: chain_ok_def)
  from jtag_bus.scan_finds [OF gpio_bus [OF assms(1)] this assms(7) i jtagtap_init_pins [OF assms(8)]]
  show ?thesis unfolding gpio_state [OF assms(1)] by blast
qed

definition stm32_chain :: "tap_dev list" where
  "stm32_chain =
     [\<lparr>td_idcode = 0x3ba00477, td_capture = [True, False, False, False]\<rparr>,
      \<lparr>td_idcode = 0x16410041, td_capture = [True, False, False, False, False]\<rparr>]"

definition no_handlers :: "'d tap_clock \<Rightarrow> 'd jtag_pins jtag_ext" where
  "no_handlers clock = \<lparr>jx_target_list_free = Some, jx_jtagtap_init = (\<lambda>p. Some (jtagtap_init clock p)), jx_handler = (\<lambda>_ _. Some)\<rparr>"

definition stm32_pins :: "tap_line jtag_pins jtag" where
  "stm32_pins = \<lparr>jtag_devs = [], jtag_dev_count = 0,
     js_port = \<lparr>tms_pin = False, tdi_pin = False, tck_pin = False, tdo_pin = False, target_clk_divider = 0,
                jp_dev = \<lparr>tl_tap = Pause_DR, tl_path = [], tl_insns = []\<rparr>\<rparr>\<rparr>"

lemma stm32_chain_ok: "chain_ok esp32_build stm32_chain"
proof -
  have "quirk_length (jtag_device_get_quirks esp32_build 0x3ba00477) = 0" "quirk_length (jtag_device_get_quirks esp32_build 0x16410041) = 0"
    by code_simp+
  then show ?thesis by (simp add: chain_ok_def stm32_chain_def ir_ok_def ir_lens_def)
qed

theorem jtag_scan_finds_witness:
  "\<exists>s'. jtag_scan esp32_build (gpio_proc (line_clock stm32_chain (\<lambda>_ _. []))) (no_handlers (line_clock stm32_chain (\<lambda>_ _. []))) stm32_pins =
      do { s \<leftarrow> run_handlers esp32_build (no_handlers (line_clock stm32_chain (\<lambda>_ _. []))) [0..<length stm32_chain] s'; Some (jtag_dev_count s > 0, s) } \<and>
    scanned stm32_chain s' \<and> idle_pins (js_port s') \<and> tl_tap (jp_dev (js_port s')) = Run_Test_Idle \<and> synced stm32_chain s' (tl_insns (jp_dev (js_port s')))"
  by (rule jtag_scan_finds [OF line.tap_chain_axioms, where p = "js_port stm32_pins"])
    (use stm32_chain_ok in \<open>simp_all add: chain_ok_def no_handlers_def stm32_pins_def idle_pins_def\<close>)

text \<open>C25: After a scan, jtag_dev_write_ir puts an instruction other than its current one in one device and every
  other device in bypass, and a following jtag_dev_shift_dr reads what that device captures and leaves the given bits in its data register, with
  ones in the bypass registers of the others; the table stays true and every controller ends in Run-Test/Idle. The
  instruction registers on either side may hold at most the 64 bits of ones.\<close>

theorem jtag_dev_access:
  assumes "tap_chain clock tap path insns captured devs" "chain_ok cfg devs"
    and "scanned devs s" "idle_pins (js_port s)" "tap (jp_dev (js_port s)) = Run_Test_Idle" "synced devs s (insns (jp_dev (js_port s)))"
    and "unat i < length devs" "ir \<noteq> current_ir (jtag_devs s ! unat i)"
    and "sum_list (ir_lens (take (unat i) devs)) \<le> 64" "sum_list (ir_lens (drop (Suc (unat i)) devs)) \<le> 64"
    and "\<And>d. insns d ! unat i = Some (bits ir (length (td_capture (devs ! unat i)))) \<Longrightarrow> captured d (unat i) = dr"
    and "0 < length dr" "length dr \<le> 8 * length data_in" "length dr \<le> 8 * length data_out"
  shows "\<exists>s1 s2. jtag_dev_write_ir (gpio_proc clock) i ir s = Some s1 \<and> others_bypass devs (unat i) s1 \<and> current_ir (jtag_devs s1 ! unat i) = ir \<and>
    jtag_dev_shift_dr (gpio_proc clock) i (Some data_out) data_in (length dr) s1 = Some (Some (pack_bits dr @ drop ((length dr + 7) div 8) data_out), s2) \<and>
    path (jp_dev (js_port s2)) = replicate (unat i) True @ dbits data_in (length dr) @ replicate (length devs - 1 - unat i) True \<and>
    scanned devs s2 \<and> idle_pins (js_port s2) \<and> tap (jp_dev (js_port s2)) = Run_Test_Idle \<and> synced devs s2 (insns (jp_dev (js_port s2)))"
proof -
  note bus = gpio_bus [OF assms(1)] and st = gpio_state [OF assms(1)]
  have c: "list_all (ir_ok cfg) devs" "length devs < 32" using assms(2) by (simp_all add: chain_ok_def)
  have "jtag_bus.state idle_pins jp_dev tap path insns (js_port s) Run_Test_Idle (path (jp_dev (js_port s))) (insns (jp_dev (js_port s)))"
    unfolding st using assms(4,5) by simp
  from jtag_bus.dev_write_ir [OF bus assms(3) c(1) this assms(6,7) refl assms(8-10) c(2)] obtain s1 ps1 is1 where
    s1: "jtag_dev_write_ir (gpio_proc clock) i ir s = Some s1" "jtag_bus.state idle_pins jp_dev tap path insns (js_port s1) Run_Test_Idle ps1 is1"
      "scanned devs s1" "synced devs s1 is1" "others_bypass devs (unat i) s1" "current_ir (jtag_devs s1 ! unat i) = ir" by blast
  let ?m = "tap_chain.mid clock (jp_dev (js_port s1))"
  have "insns ?m = is1" using tap_chain.shift_dr_run [OF assms(1)] s1(2) unfolding st by metis
  then have dr: "captured ?m (unat i) = dr" using s1(4,6) assms(7) by (intro assms(11)) (simp add: synced_def)
  from jtag_bus.dev_shift_dr [OF bus s1(3) c s1(2,4,5) assms(7) refl, where n = "length dr", unfolded dr, OF refl assms(12-14)]
  obtain p where p: "jtag_dev_shift_dr (gpio_proc clock) i (Some data_out) data_in (length dr) s1 =
      Some (Some (pack_bits dr @ drop ((length dr + 7) div 8) data_out), s1\<lparr>js_port := p\<rparr>)"
    "jtag_bus.state idle_pins jp_dev tap path insns p Run_Test_Idle (replicate (unat i) True @ dbits data_in (length dr) @ replicate (length devs - 1 - unat i) True) is1" by blast
  moreover have "scanned devs (s1\<lparr>js_port := p\<rparr>)" "synced devs (s1\<lparr>js_port := p\<rparr>) is1" using s1(3,4) by (simp_all add: scanned_def synced_def)
  ultimately show ?thesis using s1 unfolding st by (intro exI [of _ s1] exI [of _ "s1\<lparr>js_port := p\<rparr>"]) auto
qed

definition scanned_pins :: "tap_line jtag_pins jtag" where
  "scanned_pins = \<lparr>jtag_devs =
       \<lparr>jd_idcode = 0x3ba00477, current_ir = 0xffffffff, dr_prescan = 0, dr_postscan = 1, ir_len = 4, ir_prescan = 0, ir_postscan = 5\<rparr> #
       \<lparr>jd_idcode = 0x16410041, current_ir = 0xffffffff, dr_prescan = 1, dr_postscan = 0, ir_len = 5, ir_prescan = 4, ir_postscan = 0\<rparr> #
       replicate 30 zero_dev, jtag_dev_count = 2,
     js_port = \<lparr>tms_pin = False, tdi_pin = False, tck_pin = False, tdo_pin = False, target_clk_divider = 0,
                jp_dev = \<lparr>tl_tap = Run_Test_Idle, tl_path = [], tl_insns = [Some (replicate 4 True), Some (replicate 5 True)]\<rparr>\<rparr>\<rparr>"

lemma stm32_chain_simps:
  "length stm32_chain = 2" "td_idcode (stm32_chain ! 0) = 0x3ba00477" "td_idcode (stm32_chain ! 1) = 0x16410041"
  "length (td_capture (stm32_chain ! 0)) = 4" "length (td_capture (stm32_chain ! 1)) = 5"
  "sum_list (ir_lens (take 0 stm32_chain)) = 0" "sum_list (ir_lens (take 1 stm32_chain)) = 4"
  "sum_list (ir_lens (drop (Suc 0) stm32_chain)) = 5" "sum_list (ir_lens (drop (Suc 1) stm32_chain)) = 0"
  by (simp_all add: stm32_chain_def ir_lens_def)

lemma scanned_pins_ok: "scanned stm32_chain scanned_pins" "synced stm32_chain scanned_pins (tl_insns (jp_dev (js_port scanned_pins)))"
proof -
  show "scanned stm32_chain scanned_pins"
    unfolding scanned_def stm32_chain_simps(1) by (auto simp: Let_def less_2_cases_iff stm32_chain_simps [simplified] scanned_pins_def)
  show "synced stm32_chain scanned_pins (tl_insns (jp_dev (js_port scanned_pins)))"
    unfolding synced_def stm32_chain_simps(1) by (simp add: upt_rec stm32_chain_simps [simplified] scanned_pins_def bits_ones)
qed

lemma dpacc_not_bypass: "bits 0xa 4 \<noteq> replicate 4 True"
  by (simp add: bits_def upt_rec numeral_eq_Suc)

theorem jtag_dev_access_witness:
  "\<exists>s1 s2. jtag_dev_write_ir (gpio_proc (line_clock stm32_chain (\<lambda>_ _. bits 0xf0000040 32))) 0 0xa scanned_pins = Some s1 \<and>
    others_bypass stm32_chain 0 s1 \<and> current_ir (jtag_devs s1 ! 0) = 0xa \<and>
    jtag_dev_shift_dr (gpio_proc (line_clock stm32_chain (\<lambda>_ _. bits 0xf0000040 32))) 0 (Some (replicate 4 0)) [1, 2, 3, 4] 32 s1 =
      Some (Some (pack_bits (bits 0xf0000040 32) @ drop ((32 + 7) div 8) (replicate 4 0)), s2) \<and>
    tl_path (jp_dev (js_port s2)) = replicate 0 True @ dbits [1, 2, 3, 4] 32 @ replicate (length stm32_chain - 1 - 0) True \<and>
    scanned stm32_chain s2 \<and> idle_pins (js_port s2) \<and> tl_tap (jp_dev (js_port s2)) = Run_Test_Idle \<and> synced stm32_chain s2 (tl_insns (jp_dev (js_port s2)))"
proof -
  let ?reg = "\<lambda>_ _. bits 0xf0000040 32"
  have dr: "line_captured stm32_chain ?reg d (unat (0 :: u8)) = bits 0xf0000040 32"
    if "tl_insns d ! unat (0 :: u8) = Some (bits 0xa (length (td_capture (stm32_chain ! unat (0 :: u8)))))" for d
    using that dpacc_not_bypass by (simp add: line_captured_def stm32_chain_simps)
  have h: "idle_pins (js_port scanned_pins)" "tl_tap (jp_dev (js_port scanned_pins)) = Run_Test_Idle" "unat (0 :: u8) < length stm32_chain"
    "0xa \<noteq> current_ir (jtag_devs scanned_pins ! unat (0 :: u8))" "sum_list (ir_lens (take (unat (0 :: u8)) stm32_chain)) \<le> 64"
    "sum_list (ir_lens (drop (Suc (unat (0 :: u8))) stm32_chain)) \<le> 64"
    by (simp_all add: scanned_pins_def idle_pins_def stm32_chain_def ir_lens_def)
  have b: "0 < length (bits 0xf0000040 32)" "length (bits 0xf0000040 32) \<le> 8 * length [1, 2, 3, 4 :: byte]" "length (bits 0xf0000040 32) \<le> 8 * length (replicate 4 (0 :: byte))"
    by (simp_all add: length_bits)
  show ?thesis using jtag_dev_access [OF line.tap_chain_axioms stm32_chain_ok scanned_pins_ok(1) h(1,2) scanned_pins_ok(2) h(3-6) dr b]
    unfolding length_bits unat_0 .
qed

text \<open>C26: With the clock slowed down and at full speed, the port does the same to the pins and the devices and returns the
  same bits.\<close>

theorem jtagtap_same_at_full_speed:
  assumes "\<not> tck_pin p"
  shows "jtagtap_tms_seq_no_delay clock w n p = jtagtap_tms_seq_clk_delay clock w n p \<and>
    jtagtap_tdi_tdo_seq_no_delay clock data_in data_out f n p = jtagtap_tdi_tdo_seq_clk_delay clock data_in data_out f n p \<and>
    jtagtap_tdi_seq_no_delay clock data_in f n p = jtagtap_tdi_seq_clk_delay clock data_in f n p \<and>
    jtagtap_cycle_no_delay clock n p = jtagtap_cycle_clk_delay clock n p"
  using seq_no_delay [OF assms] cycle_same by auto

theorem jtagtap_same_at_full_speed_witness:
  "jtagtap_tms_seq_no_delay (line_clock stm32_chain (\<lambda>_ _. [])) 0x1f 6 (js_port stm32_pins) = jtagtap_tms_seq_clk_delay (line_clock stm32_chain (\<lambda>_ _. [])) 0x1f 6 (js_port stm32_pins) \<and>
   jtagtap_tdi_tdo_seq_no_delay (line_clock stm32_chain (\<lambda>_ _. [])) [1] [0] True 6 (js_port stm32_pins) =
     jtagtap_tdi_tdo_seq_clk_delay (line_clock stm32_chain (\<lambda>_ _. [])) [1] [0] True 6 (js_port stm32_pins) \<and>
   jtagtap_tdi_seq_no_delay (line_clock stm32_chain (\<lambda>_ _. [])) [1] True 6 (js_port stm32_pins) =
     jtagtap_tdi_seq_clk_delay (line_clock stm32_chain (\<lambda>_ _. [])) [1] True 6 (js_port stm32_pins) \<and>
   jtagtap_cycle_no_delay (line_clock stm32_chain (\<lambda>_ _. [])) 6 (js_port stm32_pins) = jtagtap_cycle_clk_delay (line_clock stm32_chain (\<lambda>_ _. [])) 6 (js_port stm32_pins)"
  by (rule jtagtap_same_at_full_speed) (simp add: stm32_pins_def)

text \<open>C27: What reading the identification codes does, whatever TDO answers. The codes are the 32-bit words before the
  first one of all ones, among the first 33 words TDO gives in Shift-DR while ones are shifted in. With at most 32 of
  them the result is success and they are the devices that are counted; without an end among the first 33 words it is
  failure and no device is counted. The codes are written to the first entries of the table, never behind its 32
  entries, nothing else of the table changes, and TCK is left low.\<close>

theorem jtag_read_idcodes_returns:
  assumes "idle_pins (js_port s)" "length (jtag_devs s) = 32"
    and "ids = takeWhile (\<lambda>w. w \<noteq> 0xffffffff) (tdo_words clock 33 (snd (clocks clock (tms_steps 1 3) (jp_dev (js_port s)))))"
  shows "\<exists>p. jtag_read_idcodes (gpio_proc clock) s = Some (length ids \<le> 32, s\<lparr>js_port := p, jtag_devs := with_idcodes ids (jtag_devs s),
      jtag_dev_count := (if length ids \<le> 32 then of_nat (length ids) else 0)\<rparr>) \<and> idle_pins p"
  using gpio.read_idcodes_returns [OF assms] .

text \<open>A line held low never ends; one held high has no device.\<close>

lemma bits_0: "bits 0 n = replicate n False"
  by (rule nth_equalityI) (simp_all add: bits_def)

lemma tdo_words_const:
  assumes "b \<in> {True, False}"
  shows "tdo_words (\<lambda>tms tdi d. (b, d)) n d = replicate n (if b then 0xffffffff else 0)"
proof -
  have c: "clocks (\<lambda>tms tdi d. (b, d)) xs d = (replicate (length xs) b, d)" for xs by (induction xs) auto
  have "u32_of_bytes (pack_bits (replicate 32 b)) = (if b then 0xffffffff else 0)"
    using pack_word [of "if b then 0xffffffff else 0"] bits_ones [of 32] bits_0 [of 32] by (cases b) simp_all
  then show ?thesis by (induction n) (simp_all add: c)
qed

theorem jtag_read_idcodes_returns_witness:
  "\<exists>p q. jtag_read_idcodes (gpio_proc (\<lambda>tms tdi d. (False, d))) (stm32_pins\<lparr>jtag_devs := replicate 32 zero_dev\<rparr>) =
      Some (False, stm32_pins\<lparr>js_port := p, jtag_devs := with_idcodes (replicate 33 0) (replicate 32 zero_dev), jtag_dev_count := 0\<rparr>) \<and> idle_pins p \<and>
    jtag_read_idcodes (gpio_proc (\<lambda>tms tdi d. (True, d))) (stm32_pins\<lparr>jtag_devs := replicate 32 zero_dev\<rparr>) =
      Some (True, stm32_pins\<lparr>js_port := q, jtag_devs := replicate 32 zero_dev, jtag_dev_count := 0\<rparr>) \<and> idle_pins q"
proof -
  let ?s = "stm32_pins\<lparr>jtag_devs := replicate 32 zero_dev\<rparr>"
  have s: "idle_pins (js_port ?s)" "length (jtag_devs ?s) = 32" by (simp_all add: stm32_pins_def idle_pins_def)
  have low: "replicate 33 0 = takeWhile (\<lambda>w. w \<noteq> 0xffffffff) (tdo_words (\<lambda>tms tdi d. (False, d)) 33 d)"
    and high: "[] = takeWhile (\<lambda>w. w \<noteq> 0xffffffff) (tdo_words (\<lambda>tms tdi d. (True, d)) 33 d)" for d :: tap_line
    by (simp_all add: tdo_words_const takeWhile_replicate)
  show ?thesis using jtag_read_idcodes_returns [OF s low] jtag_read_idcodes_returns [OF s high] by (auto simp: with_idcodes_def)
qed

end
