(* ===== verification/Swdptap.thy ===== *)
theory Swdptap
  imports Maths_Utils
begin

text \<open>
  The bit-banged SWD port, src/platforms/common/swdptap.c. The pins are a record with the device behind them. The
  device is a parameter: the level it gives SWDIO while the probe does not drive the line, and what a rising edge
  of SWCLK does to it, with the level the probe drives, None while the line floats. The static variable olddir
  always tells the mode of the pin, so one field stands for both. Delay loops do nothing; each sequence has a
  variant for a clock that is slowed down and one at full speed. None is a shift by the width of the word or more.
\<close>

subsection \<open>Pins\<close>

datatype swdio_status = SWDIO_STATUS_FLOAT | SWDIO_STATUS_DRIVE

record 'd swd_wire =
  wire_level :: "'d \<Rightarrow> bool"
  wire_rise :: "bool option \<Rightarrow> 'd \<Rightarrow> 'd"

record 'd swd_pins =
  swclk :: bool
  swdio :: bool
  olddir :: swdio_status
  swd_clk_divider :: u32
  swd_dev :: 'd

definition host_level :: "'d swd_pins \<Rightarrow> bool option" where
  "host_level p = (if olddir p = SWDIO_STATUS_DRIVE then Some (swdio p) else None)"

definition swclk_set :: "'d swd_wire \<Rightarrow> 'd swd_pins \<Rightarrow> 'd swd_pins" where
  "swclk_set w p = (if swclk p then p else p\<lparr>swclk := True, swd_dev := wire_rise w (host_level p) (swd_dev p)\<rparr>)"

definition swclk_clear :: "'d swd_pins \<Rightarrow> 'd swd_pins" where
  "swclk_clear p = p\<lparr>swclk := False\<rparr>"

definition swdio_get :: "'d swd_wire \<Rightarrow> 'd swd_pins \<Rightarrow> bool" where
  "swdio_get w p = (case host_level p of Some b \<Rightarrow> b | None \<Rightarrow> wire_level w (swd_dev p))"

subsection \<open>Sequences\<close>

definition swdptap_turnaround :: "'d swd_wire \<Rightarrow> swdio_status \<Rightarrow> 'd swd_pins \<Rightarrow> 'd swd_pins" where
  "swdptap_turnaround w dir p =
     (if dir = olddir p then p
      else if dir = SWDIO_STATUS_FLOAT then swclk_set w (p\<lparr>olddir := SWDIO_STATUS_FLOAT\<rparr>)
      else (swclk_clear (swclk_set w (swclk_clear p)))\<lparr>olddir := SWDIO_STATUS_DRIVE\<rparr>)"

text \<open>The loops run over the cycles that are left.\<close>

primrec seq_in_clk_delay_loop :: "'d swd_wire \<Rightarrow> nat \<Rightarrow> nat \<Rightarrow> u32 \<Rightarrow> 'd swd_pins \<Rightarrow> (u32 \<times> 'd swd_pins) option" where
  "seq_in_clk_delay_loop w n 0 v p = Some (v, p)"
| "seq_in_clk_delay_loop w n (Suc k) v p =
     (let cycle = n - Suc k; p = swclk_clear p; b = swdio_get w p
      in if b \<and> cycle \<ge> 32 then None
         else seq_in_clk_delay_loop w n k (v OR (if b then push_bit cycle 1 else 0)) (swclk_set w p))"

definition swdptap_seq_in_clk_delay :: "'d swd_wire \<Rightarrow> nat \<Rightarrow> 'd swd_pins \<Rightarrow> (u32 \<times> 'd swd_pins) option" where
  "swdptap_seq_in_clk_delay w clock_cycles p =
     do { (v, p) \<leftarrow> seq_in_clk_delay_loop w clock_cycles clock_cycles 0 p; Some (v, swclk_clear p) }"

primrec seq_in_no_delay_loop :: "'d swd_wire \<Rightarrow> nat \<Rightarrow> nat \<Rightarrow> u32 \<Rightarrow> 'd swd_pins \<Rightarrow> (u32 \<times> 'd swd_pins) option" where
  "seq_in_no_delay_loop w n 0 v p = Some (v, p)"
| "seq_in_no_delay_loop w n (Suc k) v p =
     (let cycle = n - Suc k; p = swclk_clear p; b = swdio_get w p
      in if b \<and> cycle \<ge> 32 then None
         else seq_in_no_delay_loop w n k (v OR (if b then push_bit cycle 1 else 0)) (swclk_set w p))"

definition swdptap_seq_in_no_delay :: "'d swd_wire \<Rightarrow> nat \<Rightarrow> 'd swd_pins \<Rightarrow> (u32 \<times> 'd swd_pins) option" where
  "swdptap_seq_in_no_delay w clock_cycles p =
     do { (v, p) \<leftarrow> seq_in_no_delay_loop w clock_cycles clock_cycles 0 p; Some (v, swclk_clear p) }"

definition swdptap_seq_in :: "'d swd_wire \<Rightarrow> nat \<Rightarrow> 'd swd_pins \<Rightarrow> (u32 \<times> 'd swd_pins) option" where
  "swdptap_seq_in w clock_cycles p =
     (let p = swdptap_turnaround w SWDIO_STATUS_FLOAT p
      in if swd_clk_divider p \<noteq> 0xffffffff then swdptap_seq_in_clk_delay w clock_cycles p
         else swdptap_seq_in_no_delay w clock_cycles p)"

definition swdptap_seq_in_parity :: "'d swd_wire \<Rightarrow> nat \<Rightarrow> 'd swd_pins \<Rightarrow> ((bool \<times> u32) \<times> 'd swd_pins) option" where
  "swdptap_seq_in_parity w clock_cycles p =
     do { (result, p) \<leftarrow> swdptap_seq_in w clock_cycles p;
          let parity = calculate_odd_parity result \<noteq> 0;
          let b = swdio_get w p;
          let p = swclk_set w p;
          let p = swdptap_turnaround w SWDIO_STATUS_DRIVE p;
          Some ((parity \<noteq> b, result), p) }"

primrec seq_out_clk_delay_loop :: "'d swd_wire \<Rightarrow> u32 \<Rightarrow> nat \<Rightarrow> nat \<Rightarrow> 'd swd_pins \<Rightarrow> 'd swd_pins option" where
  "seq_out_clk_delay_loop w tms_states n 0 p = Some p"
| "seq_out_clk_delay_loop w tms_states n (Suc k) p =
     (let cycle = n - Suc k
      in if cycle \<ge> 32 then None
         else seq_out_clk_delay_loop w tms_states n k (swclk_set w ((swclk_clear p)\<lparr>swdio := bit tms_states cycle\<rparr>)))"

definition swdptap_seq_out_clk_delay :: "'d swd_wire \<Rightarrow> u32 \<Rightarrow> nat \<Rightarrow> 'd swd_pins \<Rightarrow> 'd swd_pins option" where
  "swdptap_seq_out_clk_delay w tms_states clock_cycles p =
     do { p \<leftarrow> seq_out_clk_delay_loop w tms_states clock_cycles clock_cycles p; Some (swclk_clear p) }"

primrec seq_out_no_delay_loop :: "'d swd_wire \<Rightarrow> u32 \<Rightarrow> nat \<Rightarrow> nat \<Rightarrow> 'd swd_pins \<Rightarrow> 'd swd_pins option" where
  "seq_out_no_delay_loop w tms_states n 0 p = Some p"
| "seq_out_no_delay_loop w tms_states n (Suc k) p =
     (let cycle = n - Suc k
      in if cycle \<ge> 32 then None
         else seq_out_no_delay_loop w tms_states n k (swclk_set w ((swclk_clear p)\<lparr>swdio := bit tms_states cycle\<rparr>)))"

definition swdptap_seq_out_no_delay :: "'d swd_wire \<Rightarrow> u32 \<Rightarrow> nat \<Rightarrow> 'd swd_pins \<Rightarrow> 'd swd_pins option" where
  "swdptap_seq_out_no_delay w tms_states clock_cycles p =
     do { p \<leftarrow> seq_out_no_delay_loop w tms_states clock_cycles clock_cycles p; Some (swclk_clear p) }"

definition swdptap_seq_out :: "'d swd_wire \<Rightarrow> u32 \<Rightarrow> nat \<Rightarrow> 'd swd_pins \<Rightarrow> 'd swd_pins option" where
  "swdptap_seq_out w tms_states clock_cycles p =
     (let p = swdptap_turnaround w SWDIO_STATUS_DRIVE p
      in if swd_clk_divider p \<noteq> 0xffffffff then swdptap_seq_out_clk_delay w tms_states clock_cycles p
         else swdptap_seq_out_no_delay w tms_states clock_cycles p)"

definition swdptap_seq_out_parity :: "'d swd_wire \<Rightarrow> u32 \<Rightarrow> nat \<Rightarrow> 'd swd_pins \<Rightarrow> 'd swd_pins option" where
  "swdptap_seq_out_parity w tms_states clock_cycles p =
     do { let parity = calculate_odd_parity tms_states \<noteq> 0;
          p \<leftarrow> swdptap_seq_out w tms_states clock_cycles p;
          let p = p\<lparr>swdio := parity\<rparr>;
          Some (swclk_clear (swclk_set w p)) }"

subsection \<open>What a sequence does to the device\<close>

text \<open>A list of rising edges, with the level of the line before each.\<close>

primrec edges :: "'d swd_wire \<Rightarrow> bool option list \<Rightarrow> 'd \<Rightarrow> bool list \<times> 'd" where
  "edges w [] d = ([], d)"
| "edges w (h # hs) d =
     (let b = (case h of Some b \<Rightarrow> b | None \<Rightarrow> wire_level w d); (bs, d) = edges w hs (wire_rise w h d) in (b # bs, d))"

lemma edges_append:
  "edges w (xs @ ys) d = (fst (edges w xs d) @ fst (edges w ys (snd (edges w xs d))), snd (edges w ys (snd (edges w xs d))))"
  by (induction xs arbitrary: d) (simp_all add: split_beta Let_def)

lemma length_edges [simp]: "length (fst (edges w xs d)) = length xs"
  by (induction xs arbitrary: d) (simp_all add: split_beta Let_def)

definition turn :: "swdio_status \<Rightarrow> swdio_status \<Rightarrow> bool option list" where
  "turn dir dir' = (if dir = dir' then [] else [None])"

definition wbits :: "u32 \<Rightarrow> nat \<Rightarrow> bool option list" where
  "wbits v n = map (\<lambda>i. Some (bit v i)) [0..<n]"

definition low_pins :: "swdio_status \<Rightarrow> 'd swd_pins \<Rightarrow> bool" where
  "low_pins dir p \<longleftrightarrow> olddir p = dir \<and> \<not> swclk p"

lemma seq_delay_same:
  "seq_in_no_delay_loop w n k v p = seq_in_clk_delay_loop w n k v p" "seq_out_no_delay_loop w x n k p = seq_out_clk_delay_loop w x n k p"
proof -
  show "seq_in_no_delay_loop w n k v p = seq_in_clk_delay_loop w n k v p" by (induction k arbitrary: v p) (simp_all add: Let_def)
  show "seq_out_no_delay_loop w x n k p = seq_out_clk_delay_loop w x n k p" by (induction k arbitrary: p) (simp_all add: Let_def)
qed

lemma pins_simps [simp]:
  "swclk (swclk_clear p) = False" "olddir (swclk_clear p) = olddir p" "swd_dev (swclk_clear p) = swd_dev p"
  "olddir (swclk_set w p) = olddir p" "swd_clk_divider (swclk_clear p) = swd_clk_divider p" "swd_clk_divider (swclk_set w p) = swd_clk_divider p"
  "host_level (swclk_clear p) = host_level p" "host_level (swclk_set w p) = host_level p"
  by (simp_all add: swclk_clear_def swclk_set_def host_level_def)

lemma swclk_set_dev: "\<not> swclk p \<Longrightarrow> swd_dev (swclk_set w p) = wire_rise w (host_level p) (swd_dev p)" "swclk (swclk_set w p)"
  by (simp_all add: swclk_set_def)

text \<open>The value is that of the bits read.\<close>

definition bits_word :: "bool list \<Rightarrow> u32" where
  "bits_word bs = horner_sum of_bool 2 bs"

lemma bit_bits_word: "bit (bits_word bs) i \<longleftrightarrow> i < 32 \<and> i < length bs \<and> bs ! i"
  by (auto simp: bits_word_def bit_horner_sum_bit_word_iff)

lemma bits_word_snoc: "length bs < 32 \<Longrightarrow> bits_word bs OR (if b then push_bit (length bs) 1 else 0) = bits_word (bs @ [b])"
  by (rule bit_word_eqI) (auto simp: bit_bits_word bit_simps nth_append less_Suc_eq)

lemma seq_in_edges:
  assumes "host_level p = None" "k \<le> n" "n \<le> 32" "length bs = n - k"
  shows "\<exists>p'. seq_in_clk_delay_loop w n k (bits_word bs) p = Some (bits_word (bs @ fst (edges w (replicate k None) (swd_dev p))), p') \<and>
    swd_dev p' = snd (edges w (replicate k None) (swd_dev p)) \<and> olddir p' = olddir p \<and> swd_clk_divider p' = swd_clk_divider p"
  using assms
proof (induction k arbitrary: bs p)
  case (Suc k)
  let ?b = "wire_level w (swd_dev p)" and ?p = "swclk_set w (swclk_clear p)"
  have c: "n - Suc k < 32" "length bs = n - Suc k" "length (bs @ [?b]) = n - k" using Suc.prems by simp_all
  have g: "swdio_get w (swclk_clear p) = ?b" using Suc.prems(1) by (simp add: swdio_get_def)
  have d: "swd_dev ?p = wire_rise w None (swd_dev p)" using Suc.prems(1) by (simp add: swclk_set_dev)
  have v: "bits_word bs OR (if ?b then push_bit (n - Suc k) 1 else 0) = bits_word (bs @ [?b])" using bits_word_snoc [of bs ?b] c(1) unfolding c(2) by blast
  have "\<exists>p'. seq_in_clk_delay_loop w n k (bits_word (bs @ [?b])) ?p = Some (bits_word ((bs @ [?b]) @ fst (edges w (replicate k None) (swd_dev ?p))), p') \<and>
    swd_dev p' = snd (edges w (replicate k None) (swd_dev ?p)) \<and> olddir p' = olddir ?p \<and> swd_clk_divider p' = swd_clk_divider ?p"
    by (rule Suc.IH) (use Suc.prems c(3) in simp_all)
  then show ?case using c(1) unfolding seq_in_clk_delay_loop.simps Let_def g v by (simp add: d split_beta)
qed simp

lemma seq_out_edges:
  assumes "olddir p = SWDIO_STATUS_DRIVE" "k \<le> n" "n \<le> 32"
  shows "\<exists>p'. seq_out_clk_delay_loop w x n k p = Some p' \<and> swd_dev p' = snd (edges w (drop (n - k) (wbits x n)) (swd_dev p)) \<and>
    olddir p' = olddir p \<and> swd_clk_divider p' = swd_clk_divider p"
  using assms
proof (induction k arbitrary: p)
  case 0
  then show ?case by (simp add: wbits_def)
next
  case (Suc k)
  let ?p = "swclk_set w ((swclk_clear p)\<lparr>swdio := bit x (n - Suc k)\<rparr>)"
  have d: "swd_dev ?p = wire_rise w (Some (bit x (n - Suc k))) (swd_dev p)" using Suc.prems(1) by (simp add: swclk_set_dev swclk_clear_def host_level_def)
  have "drop (n - Suc k) (wbits x n) = Some (bit x (n - Suc k)) # drop (n - k) (wbits x n)"
    using Suc.prems(2) by (subst Cons_nth_drop_Suc [symmetric]) (simp_all add: wbits_def Suc_diff_Suc)
  moreover have "olddir ?p = olddir p" "swd_clk_divider ?p = swd_clk_divider p" by (simp_all add: swclk_clear_def)
  ultimately show ?case using Suc.IH [of ?p] Suc.prems d by (simp add: Let_def split_beta)
qed

lemma turn_edges:
  assumes "low_pins dir p"
  shows "swd_dev (swdptap_turnaround w dir' p) = snd (edges w (turn dir dir') (swd_dev p))" "olddir (swdptap_turnaround w dir' p) = dir'"
    "swd_clk_divider (swdptap_turnaround w dir' p) = swd_clk_divider p"
    "dir' = SWDIO_STATUS_DRIVE \<Longrightarrow> \<not> swclk (swdptap_turnaround w dir' p)"
  using assms by (cases dir; cases dir'; auto simp: swdptap_turnaround_def low_pins_def turn_def swclk_set_def swclk_clear_def host_level_def split_beta)+

lemma swd_seq_in:
  assumes "low_pins dir p" "n \<le> 32"
  shows "\<exists>p'. swdptap_seq_in w n p = Some (bits_word (drop (length (turn dir SWDIO_STATUS_FLOAT)) (fst (edges w (turn dir SWDIO_STATUS_FLOAT @ replicate n None) (swd_dev p)))), p') \<and>
    low_pins SWDIO_STATUS_FLOAT p' \<and> swd_dev p' = snd (edges w (turn dir SWDIO_STATUS_FLOAT @ replicate n None) (swd_dev p)) \<and> swd_clk_divider p' = swd_clk_divider p"
proof -
  let ?p = "swdptap_turnaround w SWDIO_STATUS_FLOAT p"
  have t: "swd_dev ?p = snd (edges w (turn dir SWDIO_STATUS_FLOAT) (swd_dev p))" "olddir ?p = SWDIO_STATUS_FLOAT" "swd_clk_divider ?p = swd_clk_divider p"
    using turn_edges [OF assms(1)] by simp_all
  have h: "host_level ?p = None" using t(2) by (simp add: host_level_def)
  have z: "bits_word [] = 0" by (simp add: bits_word_def)
  obtain p' where "seq_in_clk_delay_loop w n n 0 ?p = Some (bits_word (fst (edges w (replicate n None) (swd_dev ?p))), p')"
    "swd_dev p' = snd (edges w (replicate n None) (swd_dev ?p))" "olddir p' = SWDIO_STATUS_FLOAT" "swd_clk_divider p' = swd_clk_divider p"
    using seq_in_edges [OF h order_refl assms(2), of "[]" w] t unfolding z by auto
  then show ?thesis using t(1,3)
    by (intro exI [of _ "swclk_clear p'"]) (simp add: Let_def swdptap_seq_in_def swdptap_seq_in_clk_delay_def swdptap_seq_in_no_delay_def seq_delay_same low_pins_def edges_append)
qed

lemma swd_seq_out:
  assumes "low_pins dir p" "n \<le> 32"
  shows "\<exists>p'. swdptap_seq_out w x n p = Some p' \<and> low_pins SWDIO_STATUS_DRIVE p' \<and>
    swd_dev p' = snd (edges w (turn dir SWDIO_STATUS_DRIVE @ wbits x n) (swd_dev p)) \<and> swd_clk_divider p' = swd_clk_divider p"
proof -
  let ?p = "swdptap_turnaround w SWDIO_STATUS_DRIVE p"
  have t: "swd_dev ?p = snd (edges w (turn dir SWDIO_STATUS_DRIVE) (swd_dev p))" "olddir ?p = SWDIO_STATUS_DRIVE" "swd_clk_divider ?p = swd_clk_divider p"
    using turn_edges [OF assms(1)] by simp_all
  obtain p' where "seq_out_clk_delay_loop w x n n ?p = Some p'" "swd_dev p' = snd (edges w (wbits x n) (swd_dev ?p))"
    "olddir p' = SWDIO_STATUS_DRIVE" "swd_clk_divider p' = swd_clk_divider p"
    using seq_out_edges [OF t(2) order_refl assms(2), of w x] t by auto
  then show ?thesis using t(1,3)
    by (intro exI [of _ "swclk_clear p'"]) (simp add: Let_def swdptap_seq_out_def swdptap_seq_out_clk_delay_def swdptap_seq_out_no_delay_def seq_delay_same low_pins_def edges_append)
qed

lemma swd_seq_in_parity:
  assumes "low_pins SWDIO_STATUS_FLOAT p" "n \<le> 32"
  shows "\<exists>p'. let r = edges w (replicate (Suc n) None) (swd_dev p); v = bits_word (take n (fst r)) in
    swdptap_seq_in_parity w n p = Some (((calculate_odd_parity v \<noteq> 0) \<noteq> fst r ! n, v), p') \<and>
    low_pins SWDIO_STATUS_DRIVE p' \<and> swd_dev p' = snd (edges w [None] (snd r)) \<and> swd_clk_divider p' = swd_clk_divider p"
proof -
  obtain q where q: "swdptap_seq_in w n p = Some (bits_word (fst (edges w (replicate n None) (swd_dev p))), q)"
    "low_pins SWDIO_STATUS_FLOAT q" "swd_dev q = snd (edges w (replicate n None) (swd_dev p))" "swd_clk_divider q = swd_clk_divider p"
    using swd_seq_in [OF assms, of w] by (auto simp: turn_def)
  have h: "host_level q = None" "\<not> swclk q" using q(2) by (simp_all add: low_pins_def host_level_def)
  have g: "swdio_get w q = wire_level w (swd_dev q)" using h(1) by (simp add: swdio_get_def)
  let ?q = "swclk_set w q"
  have s: "swd_dev ?q = wire_rise w None (swd_dev q)" "olddir ?q = SWDIO_STATUS_FLOAT" using swclk_set_dev(1) [OF h(2), of w] h(1) q(2) by (simp_all add: low_pins_def)
  let ?q' = "swdptap_turnaround w SWDIO_STATUS_DRIVE ?q"
  have t: "swd_dev ?q' = wire_rise w None (swd_dev ?q)" "low_pins SWDIO_STATUS_DRIVE ?q'" "swd_clk_divider ?q' = swd_clk_divider p"
    using s(2) q(4) by (simp_all add: swdptap_turnaround_def low_pins_def swclk_set_def swclk_clear_def host_level_def)
  have r: "edges w (replicate (Suc n) None) (swd_dev p) = (fst (edges w (replicate n None) (swd_dev p)) @ [wire_level w (swd_dev q)], swd_dev ?q)"
    unfolding replicate_Suc replicate_append_same [symmetric] edges_append s(1) q(3) by simp
  show ?thesis unfolding r using q(1) g t by (intro exI [of _ ?q']) (simp add: swdptap_seq_in_parity_def Let_def nth_append)
qed

lemma swd_seq_out_parity:
  assumes "low_pins dir p" "n \<le> 32"
  shows "\<exists>p'. swdptap_seq_out_parity w x n p = Some p' \<and> low_pins SWDIO_STATUS_DRIVE p' \<and>
    swd_dev p' = snd (edges w (turn dir SWDIO_STATUS_DRIVE @ wbits x n @ [Some (calculate_odd_parity x \<noteq> 0)]) (swd_dev p)) \<and> swd_clk_divider p' = swd_clk_divider p"
proof -
  obtain q where q: "swdptap_seq_out w x n p = Some q" "low_pins SWDIO_STATUS_DRIVE q"
    "swd_dev q = snd (edges w (turn dir SWDIO_STATUS_DRIVE @ wbits x n) (swd_dev p))" "swd_clk_divider q = swd_clk_divider p"
    using swd_seq_out [OF assms, of w x] by auto
  let ?p = "calculate_odd_parity x \<noteq> 0"
  let ?q = "swclk_clear (swclk_set w (q\<lparr>swdio := ?p\<rparr>))"
  have "swd_dev ?q = snd (edges w [Some ?p] (swd_dev q))" "low_pins SWDIO_STATUS_DRIVE ?q" "swd_clk_divider ?q = swd_clk_divider p"
    using q(2,4) by (simp_all add: swclk_set_def low_pins_def host_level_def)
  then show ?thesis unfolding append_assoc [symmetric] edges_append [of w _ "[Some ?p]"] q(3) [symmetric]
    using q(1) by (intro exI [of _ ?q]) (simp add: swdptap_seq_out_parity_def Let_def)
qed

end
