(* ===== verification/Adiv5_Swd.thy ===== *)
theory Adiv5_Swd
  imports Swdptap Adiv5
begin

text \<open>
  The debug port over SWD, src/target/adiv5_swd.c, over a port given by the functions of swd_proc. The state is a
  record with the port, the fields of adiv5_debug_port that these functions use, and the outcomes of the platform:
  whether a time-out has expired each time it is asked, and whether an allocation succeeds. The value of a call is
  Inl with the message of the exception it raises, or Inr with its result. None is what C gives no meaning to. An
  access that is answered with a fault calls itself through the abort register; fuel bounds the depth of these
  calls and the number of requests of one access.

  In the record of operations that the layers above use an exception is None: only adiv5_dp_read_dpidr catches
  one. What the scan does with a port it has found is a parameter, and so is the list of targets.
\<close>

subsection \<open>State\<close>

record 'p swd_proc =
  proc_seq_in :: "nat \<Rightarrow> 'p \<Rightarrow> (u32 \<times> 'p) option"
  proc_seq_in_parity :: "nat \<Rightarrow> 'p \<Rightarrow> ((bool \<times> u32) \<times> 'p) option"
  proc_seq_out :: "u32 \<Rightarrow> nat \<Rightarrow> 'p \<Rightarrow> 'p option"
  proc_seq_out_parity :: "u32 \<Rightarrow> nat \<Rightarrow> 'p \<Rightarrow> 'p option"

record 'p swd_dp =
  sw_port :: 'p
  sw_fault :: u8
  sw_version :: u8
  sw_instance :: u8
  sw_targetsel :: u32
  sw_expired :: "bool list"
  sw_mallocs :: "bool list"

definition swdptap_init :: "'d swd_wire \<Rightarrow> 'd swd_pins swd_proc" where
  "swdptap_init w =
     \<lparr>proc_seq_in = swdptap_seq_in w, proc_seq_in_parity = swdptap_seq_in_parity w,
      proc_seq_out = swdptap_seq_out w, proc_seq_out_parity = swdptap_seq_out_parity w\<rparr>"

definition on_swd :: "('p \<Rightarrow> 'p option) \<Rightarrow> 'p swd_dp \<Rightarrow> 'p swd_dp option" where
  "on_swd f s = do { p \<leftarrow> f (sw_port s); Some (s\<lparr>sw_port := p\<rparr>) }"

definition from_swd :: "('p \<Rightarrow> ('a \<times> 'p) option) \<Rightarrow> 'p swd_dp \<Rightarrow> ('a \<times> 'p swd_dp) option" where
  "from_swd f s = do { (x, p) \<leftarrow> f (sw_port s); Some (x, s\<lparr>sw_port := p\<rparr>) }"

definition sw_timeout :: "'p swd_dp \<Rightarrow> bool \<times> 'p swd_dp" where
  "sw_timeout s = (case sw_expired s of [] \<Rightarrow> (True, s) | e # es \<Rightarrow> (e, s\<lparr>sw_expired := es\<rparr>))"

definition sw_calloc :: "'p swd_dp \<Rightarrow> bool \<times> 'p swd_dp" where
  "sw_calloc s = (case sw_mallocs s of [] \<Rightarrow> (True, s) | m # ms \<Rightarrow> (m, s\<lparr>sw_mallocs := ms\<rparr>))"

abbreviation (input) ADIV5_DP_TARGETSEL :: u16 where "ADIV5_DP_TARGETSEL \<equiv> 0xc"
abbreviation (input) SWDP_ACK_OK :: u8 where "SWDP_ACK_OK \<equiv> 1"
abbreviation (input) SWDP_ACK_WAIT :: u8 where "SWDP_ACK_WAIT \<equiv> 2"
abbreviation (input) SWDP_ACK_FAULT :: u8 where "SWDP_ACK_FAULT \<equiv> 4"
abbreviation (input) ADIV5_DP_ABORT_DAPABORT :: u32 where "ADIV5_DP_ABORT_DAPABORT \<equiv> 1"
abbreviation (input) ADIV5_DP_ABORT_STKERRCLR :: u32 where "ADIV5_DP_ABORT_STKERRCLR \<equiv> 4"

subsection \<open>Packets\<close>

definition make_packet_request :: "u8 \<Rightarrow> u16 \<Rightarrow> u8" where
  "make_packet_request rnw addr =
     (let apndp = addr AND ADIV5_APnDP \<noteq> 0;
          addr = addr AND 0xff;
          request = 0x81;
          request = (if apndp then request XOR 0x22 else request);
          request = (if rnw \<noteq> 0 then request XOR 0x24 else request);
          addr = addr AND 0xc;
          request = request OR ucast (push_bit 1 addr AND 0x18)
      in if addr = 4 \<or> addr = 8 then request XOR 0x20 else request)"

definition swd_line_reset_sequence :: "'p swd_proc \<Rightarrow> bool \<Rightarrow> 'p swd_dp \<Rightarrow> 'p swd_dp option" where
  "swd_line_reset_sequence proc idle_cycles s =
     do { s \<leftarrow> on_swd (proc_seq_out proc 0xffffffff 32) s;
          on_swd (proc_seq_out proc 0x0fffffff (if idle_cycles then 32 else 28)) s }"

definition dormant_to_swd_sequence :: "'p swd_proc \<Rightarrow> 'p swd_dp \<Rightarrow> 'p swd_dp option" where
  "dormant_to_swd_sequence proc s =
     do { s \<leftarrow> swd_line_reset_sequence proc False s;
          s \<leftarrow> on_swd (proc_seq_out proc 0x6209f392 32) s;
          s \<leftarrow> on_swd (proc_seq_out proc 0x86852d95 32) s;
          s \<leftarrow> on_swd (proc_seq_out proc 0xe3ddafe9 32) s;
          s \<leftarrow> on_swd (proc_seq_out proc 0x19bc0ea2 32) s;
          s \<leftarrow> on_swd (proc_seq_out proc (push_bit 4 0x1a) 12) s;
          swd_line_reset_sequence proc True s }"

definition jtag_to_swd_sequence :: "'p swd_proc \<Rightarrow> 'p swd_dp \<Rightarrow> 'p swd_dp option" where
  "jtag_to_swd_sequence proc s =
     do { s \<leftarrow> swd_line_reset_sequence proc False s;
          s \<leftarrow> on_swd (proc_seq_out proc 0xe79e 16) s;
          swd_line_reset_sequence proc True s }"

subsection \<open>Access\<close>

definition adiv5_swd_write_no_check :: "'p swd_proc \<Rightarrow> u16 \<Rightarrow> u32 \<Rightarrow> 'p swd_dp \<Rightarrow> (bool \<times> 'p swd_dp) option" where
  "adiv5_swd_write_no_check proc addr data s =
     do { let request = make_packet_request ADIV5_LOW_WRITE addr;
          s \<leftarrow> on_swd (proc_seq_out proc (ucast request) 8) s;
          (res, s) \<leftarrow> from_swd (proc_seq_in proc 3) s;
          s \<leftarrow> on_swd (proc_seq_out_parity proc data 32) s;
          s \<leftarrow> on_swd (proc_seq_out proc 0 8) s;
          Some ((ucast res :: u8) \<noteq> SWDP_ACK_OK, s) }"

definition adiv5_swd_read_no_check :: "'p swd_proc \<Rightarrow> u16 \<Rightarrow> 'p swd_dp \<Rightarrow> (u32 \<times> 'p swd_dp) option" where
  "adiv5_swd_read_no_check proc addr s =
     do { let request = make_packet_request ADIV5_LOW_READ addr;
          s \<leftarrow> on_swd (proc_seq_out proc (ucast request) 8) s;
          (res, s) \<leftarrow> from_swd (proc_seq_in proc 3) s;
          ((_, data), s) \<leftarrow> from_swd (proc_seq_in_parity proc 32) s;
          s \<leftarrow> on_swd (proc_seq_out proc 0 8) s;
          Some (if (ucast res :: u8) = SWDP_ACK_OK then data else 0, s) }"

definition adiv5_swd_clear_error :: "'p swd_proc \<Rightarrow> bool \<Rightarrow> 'p swd_dp \<Rightarrow> (u32 \<times> 'p swd_dp) option" where
  "adiv5_swd_clear_error proc protocol_recovery s =
     do { s \<leftarrow> (if sw_version s \<ge> 2 \<and> sw_fault s \<noteq> 0 \<or> protocol_recovery
                then do { s \<leftarrow> swd_line_reset_sequence proc True s;
                          s \<leftarrow> (if sw_version s \<ge> 2
                                then do { (_, s) \<leftarrow> adiv5_swd_write_no_check proc ADIV5_DP_TARGETSEL (sw_targetsel s) s; Some s }
                                else Some s);
                          (_, s) \<leftarrow> adiv5_swd_read_no_check proc ADIV5_DP_DPIDR s;
                          Some s }
                else Some s);
          (v, s) \<leftarrow> adiv5_swd_read_no_check proc ADIV5_DP_CTRLSTAT s;
          let err = v AND (0x02 OR 0x10 OR 0x20 OR 0x80);
          let clr = (if err AND 0x02 \<noteq> 0 then 0x10 else 0) OR (if err AND 0x10 \<noteq> 0 then 0x2 else 0) OR
                    (if err AND 0x20 \<noteq> 0 then 0x4 else 0) OR (if err AND 0x80 \<noteq> 0 then 0x8 else 0);
          s \<leftarrow> (if clr \<noteq> 0 then do { (_, s) \<leftarrow> adiv5_swd_write_no_check proc ADIV5_DP_ABORT clr s; Some s } else Some s);
          Some (err, s\<lparr>sw_fault := 0\<rparr>) }"

text \<open>The request until the answer is neither WAIT nor FAULT or the time is over; abort writes the abort register.\<close>

primrec swd_request_loop ::
  "'p swd_proc \<Rightarrow> (u32 \<Rightarrow> 'p swd_dp \<Rightarrow> ((string + u32) \<times> 'p swd_dp) option) \<Rightarrow> u8 \<Rightarrow> nat \<Rightarrow> 'p swd_dp \<Rightarrow> ((string + u8) \<times> 'p swd_dp) option" where
  "swd_request_loop proc abort request 0 s = None"
| "swd_request_loop proc abort request (Suc n) s =
     do { s \<leftarrow> on_swd (proc_seq_out proc (ucast request) 8) s;
          (v, s) \<leftarrow> from_swd (proc_seq_in proc 3) s;
          let ack = (ucast v :: u8);
          (r, s) \<leftarrow> (if ack = SWDP_ACK_FAULT then abort 0x1e s else Some (Inr 0, s));
          (case r of
             Inl e \<Rightarrow> Some (Inl e, s)
           | Inr _ \<Rightarrow>
               if ack = SWDP_ACK_WAIT \<or> ack = SWDP_ACK_FAULT
               then (let (expired, s) = sw_timeout s
                     in if expired then Some (Inr ack, s) else swd_request_loop proc abort request n s)
               else Some (Inr ack, s)) }"

primrec firmware_swdp_low_access ::
  "'p swd_proc \<Rightarrow> nat \<Rightarrow> u8 \<Rightarrow> u16 \<Rightarrow> u32 \<Rightarrow> 'p swd_dp \<Rightarrow> ((string + u32) \<times> 'p swd_dp) option" where
  "firmware_swdp_low_access proc 0 rnw addr val s = None"
| "firmware_swdp_low_access proc (Suc fuel) rnw addr val s =
     (if addr AND ADIV5_APnDP \<noteq> 0 \<and> sw_fault s \<noteq> 0 then Some (Inr 0, s)
      else
        (let abort = (\<lambda>v. firmware_swdp_low_access proc fuel ADIV5_LOW_WRITE ADIV5_DP_ABORT v);
             request = make_packet_request rnw addr
         in do { (r, s) \<leftarrow> swd_request_loop proc abort request (Suc fuel) s;
                 (case r of
                    Inl e \<Rightarrow> Some (Inl e, s)
                  | Inr ack \<Rightarrow>
                      if ack = SWDP_ACK_WAIT then
                        do { (r, s) \<leftarrow> abort ADIV5_DP_ABORT_DAPABORT s;
                             (case r of Inl e \<Rightarrow> Some (Inl e, s) | Inr _ \<Rightarrow> Some (Inr 0, s\<lparr>sw_fault := ack\<rparr>)) }
                      else if ack = SWDP_ACK_FAULT \<or> ack = SWDP_ACK_NO_RESPONSE then Some (Inr 0, s\<lparr>sw_fault := ack\<rparr>)
                      else if ack \<noteq> SWDP_ACK_OK then Some (Inl ''SWD invalid ACK'', s)
                      else if rnw \<noteq> 0 then
                        do { ((bad, response), s) \<leftarrow> from_swd (proc_seq_in_parity proc 32) s;
                             if bad then Some (Inl ''SWD parity error'', s\<lparr>sw_fault := 1\<rparr>)
                             else do { s \<leftarrow> on_swd (proc_seq_out proc 0 8) s; Some (Inr response, s) } }
                      else
                        do { s \<leftarrow> on_swd (proc_seq_out_parity proc val 32) s;
                             s \<leftarrow> on_swd (proc_seq_out proc 0 8) s;
                             Some (Inr 0, s) }) }))"

definition no_exception :: "((string + 'a) \<times> 's) option \<Rightarrow> ('a \<times> 's) option" where
  "no_exception r = (case r of Some (Inr x, s) \<Rightarrow> Some (x, s) | _ \<Rightarrow> None)"

definition firmware_swdp_abort :: "'p swd_proc \<Rightarrow> nat \<Rightarrow> u32 \<Rightarrow> 'p swd_dp \<Rightarrow> 'p swd_dp option" where
  "firmware_swdp_abort proc fuel abort s =
     do { (_, s) \<leftarrow> no_exception (firmware_swdp_low_access proc fuel ADIV5_LOW_WRITE ADIV5_DP_ABORT abort s); Some s }"

text \<open>The operations of the port, with the one for reading a register as an argument; the recoverable access that
  this one is made of does not use it.\<close>

definition swd_dp_ops :: "'p swd_proc \<Rightarrow> nat \<Rightarrow> (u16 \<Rightarrow> 'p swd_dp \<Rightarrow> (u32 \<times> 'p swd_dp) option) \<Rightarrow> 'p swd_dp dp_ops" where
  "swd_dp_ops proc fuel rd =
     \<lparr>dp_read = rd, dp_low_access = (\<lambda>rnw addr val s. no_exception (firmware_swdp_low_access proc fuel rnw addr val s)),
      dp_error = adiv5_swd_clear_error proc, dp_abort = firmware_swdp_abort proc fuel,
      dp_fault_of = sw_fault, dp_fault_set = (\<lambda>v. sw_fault_update (\<lambda>_. v)),
      swd_seq_in_parity = (\<lambda>s. do { (_, s) \<leftarrow> from_swd (proc_seq_in_parity proc 32) s; Some s })\<rparr>"

definition firmware_swdp_read :: "'s dp_ops \<Rightarrow> u16 \<Rightarrow> 's \<Rightarrow> (u32 \<times> 's) option" where
  "firmware_swdp_read ops addr s =
     (if addr AND ADIV5_APnDP \<noteq> 0
      then do { (_, s) \<leftarrow> adiv5_dp_recoverable_access ops ADIV5_LOW_READ addr 0 s;
                dp_low_access ops ADIV5_LOW_READ ADIV5_DP_RDBUFF 0 s }
      else adiv5_dp_recoverable_access ops ADIV5_LOW_READ addr 0 s)"

definition swd_ops :: "'p swd_proc \<Rightarrow> nat \<Rightarrow> 'p swd_dp dp_ops" where
  "swd_ops proc fuel = swd_dp_ops proc fuel (firmware_swdp_read (swd_dp_ops proc fuel (\<lambda>_ _. None)))"

subsection \<open>Scan\<close>

definition adiv5_dp_read_dpidr :: "'p swd_proc \<Rightarrow> nat \<Rightarrow> 'p swd_dp \<Rightarrow> (u32 \<times> 'p swd_dp) option" where
  "adiv5_dp_read_dpidr proc fuel s =
     do { (r, s) \<leftarrow> firmware_swdp_low_access proc fuel ADIV5_LOW_READ ADIV5_DP_DPIDR 0 s;
          (case r of Inl _ \<Rightarrow> Some (0, s) | Inr dpidr \<Rightarrow> Some (dpidr, s)) }"

text \<open>What the scan reaches outside of this file: the list of targets and adiv5_dp_init, which gets the port.\<close>

record ('p, 'x) swd_ext =
  sx_target_list_free :: "'x \<Rightarrow> 'x option"
  sx_target_list :: "'x \<Rightarrow> bool"
  sx_dp_init :: "'p swd_dp \<Rightarrow> 'x \<Rightarrow> ('p swd_dp \<times> 'x) option"

text \<open>A port is a copy of the first one; when it is handed over, the line and the platform are shared.\<close>

definition swd_hand_over :: "'p swd_proc \<Rightarrow> nat \<Rightarrow> ('p, 'x) swd_ext \<Rightarrow> 'p swd_dp \<Rightarrow> 'p swd_dp \<Rightarrow> 'x \<Rightarrow> ('p swd_dp \<times> 'x) option" where
  "swd_hand_over proc fuel ext target_dp s x =
     do { target_dp \<leftarrow> firmware_swdp_abort proc fuel ADIV5_DP_ABORT_STKERRCLR target_dp;
          (target_dp, x) \<leftarrow> sx_dp_init ext target_dp x;
          Some (s\<lparr>sw_port := sw_port target_dp, sw_expired := sw_expired target_dp, sw_mallocs := sw_mallocs target_dp\<rparr>, x) }"

primrec multidrop_loop :: "'p swd_proc \<Rightarrow> nat \<Rightarrow> ('p, 'x) swd_ext \<Rightarrow> u32 \<Rightarrow> nat list \<Rightarrow> 'p swd_dp \<Rightarrow> 'x \<Rightarrow> ('p swd_dp \<times> 'x) option" where
  "multidrop_loop proc fuel ext targetid [] s x = Some (s, x)"
| "multidrop_loop proc fuel ext targetid (instance # is) s x =
     do { s \<leftarrow> swd_line_reset_sequence proc True s;
          let s = s\<lparr>sw_fault := 0\<rparr>;
          (_, s) \<leftarrow> adiv5_swd_write_no_check proc ADIV5_DP_TARGETSEL (push_bit 28 (of_nat instance) OR (targetid AND (0xffe OR 0x0ffff000)) OR 1) s;
          (dpidr, s) \<leftarrow> adiv5_dp_read_dpidr proc fuel s;
          if dpidr = 0 then multidrop_loop proc fuel ext targetid is s x
          else (let (heap, s) = sw_calloc s
                in if \<not> heap then None
                   else do { (s, x) \<leftarrow> swd_hand_over proc fuel ext (s\<lparr>sw_instance := of_nat instance\<rparr>) s x;
                             multidrop_loop proc fuel ext targetid is s x }) }"

definition adiv5_swd_multidrop_scan :: "'p swd_proc \<Rightarrow> nat \<Rightarrow> ('p, 'x) swd_ext \<Rightarrow> u32 \<Rightarrow> 'p swd_dp \<Rightarrow> 'x \<Rightarrow> ('p swd_dp \<times> 'x) option" where
  "adiv5_swd_multidrop_scan proc fuel ext targetid s x = multidrop_loop proc fuel ext targetid [0..<16] s x"

text \<open>The first read of DPIDR, and the second after the sequence for older devices; 0 is none.\<close>

definition scan_dpidr :: "'p swd_proc \<Rightarrow> nat \<Rightarrow> 'p swd_dp \<Rightarrow> (u32 \<times> 'p swd_dp) option" where
  "scan_dpidr proc fuel s =
     do { (dpidr, s) \<leftarrow> adiv5_dp_read_dpidr proc fuel s;
          if dpidr \<noteq> 0 then Some (dpidr, s)
          else do { s \<leftarrow> jtag_to_swd_sequence proc s;
                    adiv5_dp_read_dpidr proc fuel (s\<lparr>sw_fault := 0\<rparr>) } }"

definition adiv5_swd_scan :: "'p swd_proc \<Rightarrow> nat \<Rightarrow> ('p, 'x) swd_ext \<Rightarrow> u32 \<Rightarrow> 'p swd_dp \<Rightarrow> 'x \<Rightarrow> ((bool \<times> 'p swd_dp) \<times> 'x) option" where
  "adiv5_swd_scan proc fuel ext targetid s x =
     do { x \<leftarrow> sx_target_list_free ext x;
          let (heap, s) = sw_calloc s;
          if \<not> heap then Some ((False, s), x)
          else do {
            let s = s\<lparr>sw_fault := 0, sw_version := 0, sw_instance := 0, sw_targetsel := 0\<rparr>;
            s \<leftarrow> dormant_to_swd_sequence proc s;
            (tid, s) \<leftarrow>
              (if targetid \<noteq> 0 then Some (Some targetid, s)
               else do { (dpidr, s) \<leftarrow> scan_dpidr proc fuel s;
                         if dpidr = 0 then Some (None, s)
                         else do {
                           let s = s\<lparr>sw_version := ucast (drop_bit 12 (dpidr AND 0xf000))\<rparr>;
                           if sw_version s \<ge> 2
                           then do { s \<leftarrow> adiv5_dp_write (swd_ops proc fuel) ADIV5_DP_SELECT 2 s;
                                     (v, s) \<leftarrow> dp_read (swd_ops proc fuel) ADIV5_DP_CTRLSTAT s;
                                     s \<leftarrow> adiv5_dp_write (swd_ops proc fuel) ADIV5_DP_SELECT 0 s;
                                     Some (Some v, s) }
                           else Some (Some targetid, s) } });
            (case tid of
               None \<Rightarrow> Some ((False, s), x)
             | Some tid \<Rightarrow>
                 do { (s, x) \<leftarrow> (if targetid \<noteq> 0 \<or> sw_version s \<ge> 2 then adiv5_swd_multidrop_scan proc fuel ext tid s x
                                 else swd_hand_over proc fuel ext s s x);
                      Some ((sx_target_list ext x, s), x) }) } }"

end
