(* ===== verification/Swd_Line.thy ===== *)
theory Swd_Line
  imports Adiv5_Swd
begin

text \<open>
  A device on the line. The contract swd_port says which edges the functions of a port send; the bit-banged port
  meets it. The contract swd_target is the protocol of a serial wire debug port: how it answers a request, and what
  follows an answer. Over both, an access of the debug port is an access to a register of the device.
\<close>

subsection \<open>The port\<close>

locale swd_port =
  fixes proc :: "'p swd_proc" and ok :: "'p \<Rightarrow> bool" and w :: "'d swd_wire" and dir :: "'p \<Rightarrow> swdio_status" and dev :: "'p \<Rightarrow> 'd"
  assumes in_ok: "ok p \<Longrightarrow> n \<le> 32 \<Longrightarrow> \<exists>p'. proc_seq_in proc n p =
      Some (bits_word (drop (length (turn (dir p) SWDIO_STATUS_FLOAT)) (fst (edges w (turn (dir p) SWDIO_STATUS_FLOAT @ replicate n None) (dev p)))), p') \<and>
      ok p' \<and> dir p' = SWDIO_STATUS_FLOAT \<and> dev p' = snd (edges w (turn (dir p) SWDIO_STATUS_FLOAT @ replicate n None) (dev p))"
    and in_parity_ok: "ok p \<Longrightarrow> dir p = SWDIO_STATUS_FLOAT \<Longrightarrow> n \<le> 32 \<Longrightarrow>
      \<exists>p'. let r = edges w (replicate (Suc n) None) (dev p); v = bits_word (take n (fst r)) in
        proc_seq_in_parity proc n p = Some (((calculate_odd_parity v \<noteq> 0) \<noteq> fst r ! n, v), p') \<and>
        ok p' \<and> dir p' = SWDIO_STATUS_DRIVE \<and> dev p' = snd (edges w [None] (snd r))"
    and out_ok: "ok p \<Longrightarrow> n \<le> 32 \<Longrightarrow> \<exists>p'. proc_seq_out proc x n p = Some p' \<and> ok p' \<and> dir p' = SWDIO_STATUS_DRIVE \<and>
        dev p' = snd (edges w (turn (dir p) SWDIO_STATUS_DRIVE @ wbits x n) (dev p))"
    and out_parity_ok: "ok p \<Longrightarrow> n \<le> 32 \<Longrightarrow> \<exists>p'. proc_seq_out_parity proc x n p = Some p' \<and> ok p' \<and> dir p' = SWDIO_STATUS_DRIVE \<and>
        dev p' = snd (edges w (turn (dir p) SWDIO_STATUS_DRIVE @ wbits x n @ [Some (calculate_odd_parity x \<noteq> 0)]) (dev p))"

definition clock_low :: "'d swd_pins \<Rightarrow> bool" where
  "clock_low p \<longleftrightarrow> \<not> swclk p"

lemma low_pins_clock: "low_pins dir p \<longleftrightarrow> clock_low p \<and> olddir p = dir"
  by (auto simp: low_pins_def clock_low_def)

interpretation swd_gpio: swd_port "swdptap_init w" clock_low w olddir swd_dev
proof unfold_locales
  fix p :: "'a swd_pins" and n :: nat and x :: u32
  assume p: "clock_low p" and n: "n \<le> 32"
  have l: "low_pins (olddir p) p" using p by (simp add: low_pins_clock)
  show "\<exists>p'. proc_seq_in (swdptap_init w) n p =
      Some (bits_word (drop (length (turn (olddir p) SWDIO_STATUS_FLOAT)) (fst (edges w (turn (olddir p) SWDIO_STATUS_FLOAT @ replicate n None) (swd_dev p)))), p') \<and>
      clock_low p' \<and> olddir p' = SWDIO_STATUS_FLOAT \<and> swd_dev p' = snd (edges w (turn (olddir p) SWDIO_STATUS_FLOAT @ replicate n None) (swd_dev p))"
    using swd_seq_in [OF l n, of w] unfolding low_pins_clock swdptap_init_def by auto
  show "\<exists>p'. proc_seq_out (swdptap_init w) x n p = Some p' \<and> clock_low p' \<and> olddir p' = SWDIO_STATUS_DRIVE \<and>
        swd_dev p' = snd (edges w (turn (olddir p) SWDIO_STATUS_DRIVE @ wbits x n) (swd_dev p))"
    using swd_seq_out [OF l n, of w x] unfolding low_pins_clock swdptap_init_def by auto
  show "\<exists>p'. proc_seq_out_parity (swdptap_init w) x n p = Some p' \<and> clock_low p' \<and> olddir p' = SWDIO_STATUS_DRIVE \<and>
        swd_dev p' = snd (edges w (turn (olddir p) SWDIO_STATUS_DRIVE @ wbits x n @ [Some (calculate_odd_parity x \<noteq> 0)]) (swd_dev p))"
    using swd_seq_out_parity [OF l n, of w x] unfolding low_pins_clock swdptap_init_def by auto
next
  fix p :: "'a swd_pins" and n :: nat
  assume "clock_low p" "olddir p = SWDIO_STATUS_FLOAT" "n \<le> 32"
  then show "\<exists>p'. let r = edges w (replicate (Suc n) None) (swd_dev p); v = bits_word (take n (fst r)) in
        proc_seq_in_parity (swdptap_init w) n p = Some (((calculate_odd_parity v \<noteq> 0) \<noteq> fst r ! n, v), p') \<and>
        clock_low p' \<and> olddir p' = SWDIO_STATUS_DRIVE \<and> swd_dev p' = snd (edges w [None] (snd r))"
    using swd_seq_in_parity [of p n w] unfolding low_pins_clock swdptap_init_def Let_def by auto
qed

subsection \<open>Requests\<close>

definition request_bits :: "bool \<Rightarrow> u16 \<Rightarrow> bool list" where
  "request_bits rnw addr =
     [True, bit addr 8, rnw, bit addr 2, bit addr 3, ((bit addr 8 \<noteq> rnw) \<noteq> bit addr 2) \<noteq> bit addr 3, False, True]"

lemma and_bit: "(x :: 'a::len word) AND push_bit n 1 = (if bit x n then push_bit n 1 else 0)"
  by (rule bit_word_eqI) (auto simp: bit_simps)

lemma addr_and_c: "((addr :: u16) AND 0xff) AND 0xc = (if bit addr 2 then 4 else 0) OR (if bit addr 3 then 8 else 0)"
proof -
  have "(addr AND 0xff) AND 0xc = (addr AND push_bit 2 1) OR (addr AND push_bit 3 1)"
    by (simp add: and.assoc flip: bit.conj_disj_distrib)
  then show ?thesis unfolding and_bit by simp
qed

lemma addr_and_100: "(addr :: u16) AND 0x100 \<noteq> 0 \<longleftrightarrow> bit addr 8"
  using and_bit [of addr 8] by (simp split: if_splits)

lemma wbits_8: "wbits v 8 = [Some (bit v 0), Some (bit v 1), Some (bit v 2), Some (bit v 3), Some (bit v 4), Some (bit v 5), Some (bit v 6), Some (bit v 7)]"
  by (simp add: wbits_def upt_rec numeral_eq_Suc)

text \<open>The request is what the protocol asks for: start, the three fields, their parity, stop and park.\<close>

lemma make_packet_request_bits: "wbits (ucast (make_packet_request rnw addr)) 8 = map Some (request_bits (rnw \<noteq> 0) addr)"
  unfolding make_packet_request_def Let_def addr_and_c addr_and_100 request_bits_def wbits_8
  by (cases "bit addr 2"; cases "bit addr 3"; cases "bit addr 8"; cases "rnw = 0") simp_all

subsection \<open>The device\<close>

text \<open>After the eight bits of a request and a turnaround the device gives its answer, least bit first. On OK a read is
  followed by the word, its parity and a turnaround, a write by a turnaround, the word and its parity; any other
  answer by a turnaround. Registers are told by the bits of the address that a request has.\<close>

definition reg_of :: "u16 \<Rightarrow> u16" where
  "reg_of addr = addr AND 0x10c"

definition request_edges :: "bool \<Rightarrow> u16 \<Rightarrow> bool option list" where
  "request_edges rnw addr = map Some (request_bits rnw addr) @ replicate 4 None"

definition ack_bits :: "u8 \<Rightarrow> bool list" where
  "ack_bits a = [bit a 0, bit a 1, bit a 2]"

subsection \<open>An empty line\<close>

text \<open>The edges of a line reset: at least fifty ones, and four idle cycles where they are asked for; of the way out of the
  dormant state: the selection alert of 128 bits and, after four cycles, the activation code of the debug port; and of
  the switch from JTAG of older devices.\<close>

definition line_reset_edges :: "bool \<Rightarrow> bool option list" where
  "line_reset_edges idle_cycles = replicate 60 (Some True) @ (if idle_cycles then replicate 4 (Some False) else [])"

definition dormant_edges :: "bool option list" where
  "dormant_edges = line_reset_edges False @ concat (map (\<lambda>v. wbits v 32) [0x6209f392, 0x86852d95, 0xe3ddafe9, 0x19bc0ea2]) @
     replicate 4 (Some False) @ wbits 0x1a 8 @ line_reset_edges True"

definition jtag_edges :: "bool option list" where
  "jtag_edges = line_reset_edges False @ wbits 0xe79e 16 @ line_reset_edges True"

lemma wbits_mask: "m \<le> 32 \<Longrightarrow> m \<le> n \<Longrightarrow> wbits (mask m) n = replicate m (Some True) @ replicate (n - m) (Some False)"
  by (rule nth_equalityI) (auto simp: wbits_def bit_mask_iff nth_append)

lemma wbits_push: "wbits (push_bit k v) n = replicate (min k n) (Some False) @ wbits v (n - k)" if "n \<le> 32"
  using that by (intro nth_equalityI) (auto simp: wbits_def bit_push_bit_iff nth_append)

lemma line_reset_wbits: "wbits 0xffffffff 32 @ wbits 0x0fffffff (if b then 32 else 28) = line_reset_edges b"
proof -
  have m: "(0xffffffff :: u32) = mask 32" "(0x0fffffff :: u32) = mask 28" by (simp_all add: mask_eq_exp_minus_1)
  have "replicate 32 (Some True) @ replicate 28 (Some True) = replicate 60 (Some True)" by (simp flip: replicate_add)
  then show ?thesis unfolding m by (cases b) (simp_all add: wbits_mask line_reset_edges_def del: mask_numeral)
qed

context swd_port
begin

definition sent :: "'p \<Rightarrow> bool option list \<Rightarrow> 'p \<Rightarrow> bool" where
  "sent p es p' \<longleftrightarrow> ok p' \<and> dir p' = SWDIO_STATUS_DRIVE \<and> dev p' = snd (edges w (turn (dir p) SWDIO_STATUS_DRIVE @ es) (dev p))"

lemma sent_trans: "sent p es q \<Longrightarrow> sent q fs r \<Longrightarrow> sent p (es @ fs) r"
  by (simp add: sent_def turn_def edges_append)

lemma out_swd:
  assumes "sent p es q" "n \<le> 32"
  shows "\<exists>r. on_swd (proc_seq_out proc x n) (s\<lparr>sw_port := q\<rparr>) = Some (s\<lparr>sw_port := r\<rparr>) \<and> sent p (es @ wbits x n) r"
proof -
  have "ok q" using assms(1) by (simp add: sent_def)
  then obtain r where "proc_seq_out proc x n q = Some r" "sent q (wbits x n) r" using out_ok [OF _ assms(2)] unfolding sent_def by blast
  then show ?thesis using sent_trans [OF assms(1)] by (auto simp: on_swd_def)
qed

lemma line_reset:
  assumes "ok (sw_port s)"
  shows "\<exists>r. swd_line_reset_sequence proc b s = Some (s\<lparr>sw_port := r\<rparr>) \<and> sent (sw_port s) (line_reset_edges b) r"
proof -
  obtain p where p: "on_swd (proc_seq_out proc 0xffffffff 32) s = Some (s\<lparr>sw_port := p\<rparr>)" "sent (sw_port s) (wbits 0xffffffff 32) p"
    using out_ok [OF assms, of 32 "0xffffffff"] by (auto simp: on_swd_def sent_def)
  have "(if b then 32 else 28 :: nat) \<le> 32" by simp
  from out_swd [OF p(2) this, of "0x0fffffff" s] show ?thesis
    unfolding swd_line_reset_sequence_def p(1) line_reset_wbits [symmetric] Option.bind.bind_lunit .
qed

lemma line_reset_on:
  assumes "sent p es q"
  shows "\<exists>r. swd_line_reset_sequence proc b (s\<lparr>sw_port := q\<rparr>) = Some (s\<lparr>sw_port := r\<rparr>) \<and> sent p (es @ line_reset_edges b) r"
proof -
  have "ok q" using assms by (simp add: sent_def)
  then obtain r where "swd_line_reset_sequence proc b (s\<lparr>sw_port := q\<rparr>) = Some (s\<lparr>sw_port := r\<rparr>)" "sent q (line_reset_edges b) r"
    using line_reset [of "s\<lparr>sw_port := q\<rparr>" b] by auto
  then show ?thesis using sent_trans [OF assms] by blast
qed

lemma dormant_select:
  assumes "ok (sw_port s)"
  obtains q where "dormant_to_swd_sequence proc s = Some (s\<lparr>sw_port := q\<rparr>)" "sent (sw_port s) dormant_edges q"
proof -
  let ?s = "\<lambda>p. s\<lparr>sw_port := p\<rparr>" and ?p = "sw_port s"
  note o = out_swd [of ?p _ _ 32, OF _ order.refl, of _ _ _ s]
  obtain p where p: "swd_line_reset_sequence proc False s = Some (?s p)" "sent ?p (line_reset_edges False) p" using line_reset [OF assms] by blast
  obtain p1 where p1: "on_swd (proc_seq_out proc 0x6209f392 32) (?s p) = Some (?s p1)" "sent ?p (line_reset_edges False @ wbits 0x6209f392 32) p1"
    using o [OF p(2)] by blast
  obtain p2 where p2: "on_swd (proc_seq_out proc 0x86852d95 32) (?s p1) = Some (?s p2)"
    "sent ?p ((line_reset_edges False @ wbits 0x6209f392 32) @ wbits 0x86852d95 32) p2" using o [OF p1(2)] by blast
  obtain p3 where p3: "on_swd (proc_seq_out proc 0xe3ddafe9 32) (?s p2) = Some (?s p3)"
    "sent ?p (((line_reset_edges False @ wbits 0x6209f392 32) @ wbits 0x86852d95 32) @ wbits 0xe3ddafe9 32) p3" using o [OF p2(2)] by blast
  obtain p4 where p4: "on_swd (proc_seq_out proc 0x19bc0ea2 32) (?s p3) = Some (?s p4)"
    "sent ?p ((((line_reset_edges False @ wbits 0x6209f392 32) @ wbits 0x86852d95 32) @ wbits 0xe3ddafe9 32) @ wbits 0x19bc0ea2 32) p4" using o [OF p3(2)] by blast
  obtain p5 where p5: "on_swd (proc_seq_out proc (push_bit 4 0x1a) 12) (?s p4) = Some (?s p5)"
    "sent ?p (((((line_reset_edges False @ wbits 0x6209f392 32) @ wbits 0x86852d95 32) @ wbits 0xe3ddafe9 32) @ wbits 0x19bc0ea2 32) @ wbits (push_bit 4 0x1a) 12) p5"
    using out_swd [OF p4(2), of 12 "push_bit 4 0x1a" s] by (auto simp del: push_bit_numeral append_assoc)
  obtain p6 where p6: "swd_line_reset_sequence proc True (?s p5) = Some (?s p6)"
    "sent ?p ((((((line_reset_edges False @ wbits 0x6209f392 32) @ wbits 0x86852d95 32) @ wbits 0xe3ddafe9 32) @ wbits 0x19bc0ea2 32) @ wbits (push_bit 4 0x1a) 12) @ line_reset_edges True) p6"
    using line_reset_on [OF p5(2), of True s] by blast
  have "dormant_to_swd_sequence proc s = Some (?s p6)"
    using p(1) p1(1) p2(1) p3(1) p4(1) p5(1) p6(1) by (simp add: dormant_to_swd_sequence_def)
  moreover have "sent ?p dormant_edges p6" using p6(2) by (simp add: dormant_edges_def wbits_push del: push_bit_numeral)
  ultimately show ?thesis using that by blast
qed

lemma jtag_select:
  assumes "ok (sw_port s)"
  obtains q where "jtag_to_swd_sequence proc s = Some (s\<lparr>sw_port := q\<rparr>)" "sent (sw_port s) jtag_edges q"
proof -
  let ?s = "\<lambda>p. s\<lparr>sw_port := p\<rparr>" and ?p = "sw_port s"
  obtain p where p: "swd_line_reset_sequence proc False s = Some (?s p)" "sent ?p (line_reset_edges False) p" using line_reset [OF assms] by blast
  obtain q where q: "on_swd (proc_seq_out proc 0xe79e 16) (?s p) = Some (?s q)" "sent ?p (line_reset_edges False @ wbits 0xe79e 16) q"
    using out_swd [OF p(2), of 16 "0xe79e" s] by auto
  obtain r where r: "swd_line_reset_sequence proc True (?s q) = Some (?s r)" "sent ?p ((line_reset_edges False @ wbits 0xe79e 16) @ line_reset_edges True) r"
    using line_reset_on [OF q(2), of True s] by blast
  then show ?thesis using p(1) q(1) that by (simp add: jtag_to_swd_sequence_def jtag_edges_def)
qed

text \<open>On a line that nothing drives, the pull-up makes every answer no response.\<close>

lemma empty_edges: "\<forall>d. wire_level w d \<Longrightarrow> fst (edges w (replicate n None) d) = replicate n True"
  by (induction n arbitrary: d) (simp_all add: split_beta)

lemma empty_dpidr:
  assumes "\<forall>d. wire_level w d" "sent p0 es (sw_port s)"
  obtains q where "adiv5_dp_read_dpidr proc (Suc n) s = Some (0, s\<lparr>sw_port := q, sw_fault := SWDP_ACK_NO_RESPONSE\<rparr>)" "ok q" "dir q = SWDIO_STATUS_FLOAT"
    "dev q = snd (edges w (turn (dir p0) SWDIO_STATUS_DRIVE @ es @ request_edges True ADIV5_DP_DPIDR) (dev p0))"
proof -
  let ?req = "ucast (make_packet_request ADIV5_LOW_READ ADIV5_DP_DPIDR)"
  obtain p where p: "on_swd (proc_seq_out proc ?req 8) s = Some (s\<lparr>sw_port := p\<rparr>)" "sent p0 (es @ map Some (request_bits True ADIV5_DP_DPIDR)) p"
    using out_swd [OF assms(2), of 8 ?req s] make_packet_request_bits [of ADIV5_LOW_READ ADIV5_DP_DPIDR] by auto
  then have d: "dir p = SWDIO_STATUS_DRIVE" "ok p" by (simp_all add: sent_def)
  have t: "turn (dir p) SWDIO_STATUS_FLOAT @ replicate 3 None = replicate 4 None" "length (turn (dir p) SWDIO_STATUS_FLOAT) = 1"
    using d(1) by (simp_all add: turn_def numeral_eq_Suc)
  have r4: "drop 1 (replicate 4 True) = [True, True, True]" by (simp add: numeral_eq_Suc)
  have v: "(ucast (bits_word (drop 1 (replicate 4 True))) :: u8) = SWDP_ACK_NO_RESPONSE" unfolding r4 by (simp add: bits_word_def)
  obtain q where q: "from_swd (proc_seq_in proc 3) (s\<lparr>sw_port := p\<rparr>) = Some (bits_word (drop 1 (replicate 4 True)), s\<lparr>sw_port := q\<rparr>)" "ok q"
      "dir q = SWDIO_STATUS_FLOAT" "dev q = snd (edges w (replicate 4 None) (dev p))"
    using in_ok [OF d(2), of 3] unfolding t empty_edges [OF assms(1)] by (auto simp: from_swd_def)
  have "swd_request_loop proc abort (make_packet_request ADIV5_LOW_READ ADIV5_DP_DPIDR) (Suc n) s = Some (Inr SWDP_ACK_NO_RESPONSE, s\<lparr>sw_port := q\<rparr>)" for abort
    using p(1) q(1) v by simp
  then have "adiv5_dp_read_dpidr proc (Suc n) s = Some (0, s\<lparr>sw_port := q, sw_fault := SWDP_ACK_NO_RESPONSE\<rparr>)"
    by (simp add: adiv5_dp_read_dpidr_def Let_def del: swd_request_loop.simps)
  moreover have "dev q = snd (edges w (turn (dir p0) SWDIO_STATUS_DRIVE @ es @ request_edges True ADIV5_DP_DPIDR) (dev p0))"
    using q(4) p(2) by (simp add: sent_def edges_append request_edges_def)
  ultimately show ?thesis using q(2,3) that by blast
qed

lemma empty_scan:
  assumes "\<forall>d. wire_level w d" "ok (sw_port s)" "sx_target_list_free ext x = Some y" "fst (sw_calloc s)"
  shows "\<exists>s'. adiv5_swd_scan proc (Suc n) ext 0 s x = Some ((False, s'), y) \<and> sw_fault s' = SWDP_ACK_NO_RESPONSE \<and>
    dev (sw_port s') = snd (edges w (turn (dir (sw_port s)) SWDIO_STATUS_DRIVE @ dormant_edges @ request_edges True ADIV5_DP_DPIDR @
      None # jtag_edges @ request_edges True ADIV5_DP_DPIDR) (dev (sw_port s)))"
proof -
  let ?s = "(snd (sw_calloc s))\<lparr>sw_fault := 0, sw_version := 0, sw_instance := 0, sw_targetsel := 0\<rparr>"
  have s: "sw_port ?s = sw_port s" by (simp add: sw_calloc_def split: list.split)
  then obtain p where p: "dormant_to_swd_sequence proc ?s = Some (?s\<lparr>sw_port := p\<rparr>)" "sent (sw_port s) dormant_edges p"
    using dormant_select [of ?s] assms(2) by metis
  obtain q where q: "adiv5_dp_read_dpidr proc (Suc n) (?s\<lparr>sw_port := p\<rparr>) = Some (0, ?s\<lparr>sw_port := p\<rparr>\<lparr>sw_port := q, sw_fault := SWDP_ACK_NO_RESPONSE\<rparr>)"
      "ok q" "dir q = SWDIO_STATUS_FLOAT"
      "dev q = snd (edges w (turn (dir (sw_port s)) SWDIO_STATUS_DRIVE @ dormant_edges @ request_edges True ADIV5_DP_DPIDR) (dev (sw_port s)))"
    using empty_dpidr [OF assms(1), of "sw_port s" dormant_edges "?s\<lparr>sw_port := p\<rparr>" n] p(2) by auto
  let ?sa = "?s\<lparr>sw_port := p\<rparr>\<lparr>sw_port := q, sw_fault := SWDP_ACK_NO_RESPONSE\<rparr>"
  obtain r where r: "jtag_to_swd_sequence proc ?sa = Some (?sa\<lparr>sw_port := r\<rparr>)" "sent q jtag_edges r" using jtag_select [of ?sa] q(2) by auto
  let ?sb = "?sa\<lparr>sw_port := r\<rparr>\<lparr>sw_fault := 0\<rparr>"
  obtain z where z: "adiv5_dp_read_dpidr proc (Suc n) ?sb = Some (0, ?sb\<lparr>sw_port := z, sw_fault := SWDP_ACK_NO_RESPONSE\<rparr>)"
    "dev z = snd (edges w (turn (dir q) SWDIO_STATUS_DRIVE @ jtag_edges @ request_edges True ADIV5_DP_DPIDR) (dev q))"
    using empty_dpidr [OF assms(1), of q jtag_edges ?sb n] r(2) by auto
  then have d: "scan_dpidr proc (Suc n) (?s\<lparr>sw_port := p\<rparr>) = Some (0, ?sb\<lparr>sw_port := z, sw_fault := SWDP_ACK_NO_RESPONSE\<rparr>)"
    unfolding scan_dpidr_def q(1) Option.bind.bind_lunit using r(1) by simp
  have "adiv5_swd_scan proc (Suc n) ext 0 s x = Some ((False, ?sb\<lparr>sw_port := z, sw_fault := SWDP_ACK_NO_RESPONSE\<rparr>), y)"
    unfolding adiv5_swd_scan_def using assms(3,4) p(1) d by (simp add: split_beta Let_def)
  moreover have "dev z = snd (edges w (turn (dir (sw_port s)) SWDIO_STATUS_DRIVE @ dormant_edges @ request_edges True ADIV5_DP_DPIDR @
      None # jtag_edges @ request_edges True ADIV5_DP_DPIDR) (dev (sw_port s)))"
    using z(2) q(3,4) by (simp add: turn_def edges_append split_beta)
  ultimately show ?thesis by auto
qed

end

locale swd_target =
  fixes w :: "'d swd_wire" and idle :: "'d \<Rightarrow> bool" and regs :: "'d \<Rightarrow> 'r"
    and ack :: "bool \<Rightarrow> u16 \<Rightarrow> 'r \<Rightarrow> u8" and rd :: "u16 \<Rightarrow> 'r \<Rightarrow> u32 \<times> 'r" and wr :: "u16 \<Rightarrow> u32 \<Rightarrow> 'r \<Rightarrow> 'r"
  assumes ack_le: "ack rnw a r \<le> 7"
    and idle_low: "idle d \<Longrightarrow> idle (wire_rise w (Some False) d) \<and> regs (wire_rise w (Some False) d) = regs d"
    and request: "idle d \<Longrightarrow> drop 9 (fst (edges w (request_edges rnw addr) d)) = ack_bits (ack rnw (reg_of addr) (regs d))"
    and read_data: "idle d \<Longrightarrow> ack True (reg_of addr) (regs d) = SWDP_ACK_OK \<Longrightarrow> d1 = snd (edges w (request_edges True addr) d) \<Longrightarrow>
      fst (edges w (replicate 33 None) d1) = map (bit (fst (rd (reg_of addr) (regs d)))) [0..<32] @ [calculate_odd_parity (fst (rd (reg_of addr) (regs d))) \<noteq> 0] \<and>
      idle (snd (edges w (replicate 34 None) d1)) \<and> regs (snd (edges w (replicate 34 None) d1)) = snd (rd (reg_of addr) (regs d))"
    and write_data: "idle d \<Longrightarrow> ack False (reg_of addr) (regs d) = SWDP_ACK_OK \<Longrightarrow>
      d2 = snd (edges w (request_edges False addr @ None # wbits v 32 @ [Some (calculate_odd_parity v \<noteq> 0)]) d) \<Longrightarrow>
      idle d2 \<and> regs d2 = wr (reg_of addr) v (regs d)"
    and refused: "idle d \<Longrightarrow> ack rnw (reg_of addr) (regs d) \<noteq> SWDP_ACK_OK \<Longrightarrow> d2 = snd (edges w (request_edges rnw addr @ [None]) d) \<Longrightarrow>
      idle d2 \<and> regs d2 = regs d"
begin

lemma idle_cycles: "idle d \<Longrightarrow> idle (snd (edges w (wbits 0 n) d)) \<and> regs (snd (edges w (wbits 0 n) d)) = regs d"
proof (induction n)
  case (Suc n)
  have "wbits 0 (Suc n) = wbits 0 n @ [Some False]" by (simp add: wbits_def)
  then show ?case using Suc idle_low by (simp add: edges_append)
qed (simp add: wbits_def)

end

lemma bits_word_ack: "a \<le> 7 \<Longrightarrow> (ucast (bits_word (ack_bits a)) :: u8) = a"
proof (rule bit_word_eqI)
  fix n
  assume a: "a \<le> 7" "n < LENGTH(8)"
  have "unat a < 2 ^ 3" using a(1) by (simp add: word_le_nat_alt)
  then have "unat (take_bit 3 a) = unat a" by (simp only: unsigned_take_bit_eq take_bit_nat_eq_self)
  then have "take_bit 3 a = a" by (simp only: word_unat_eq_iff)
  then have "bit a n \<longleftrightarrow> n < 3 \<and> bit a n" by (metis bit_take_bit_iff)
  then show "bit (ucast (bits_word (ack_bits a)) :: u8) n = bit a n"
    using a(2) by (auto simp: bit_simps bit_bits_word ack_bits_def nth_Cons' less_Suc_eq numeral_eq_Suc)
qed

lemma sw_order: "s\<lparr>sw_expired := es, sw_port := p\<rparr> = s\<lparr>sw_port := p, sw_expired := es\<rparr>"
  by simp

lemma bits_word_bits: "bits_word (map (bit v) [0..<32]) = v"
  by (rule bit_word_eqI) (simp add: bit_bits_word)

locale swd_bus = swd_port proc ok w dir dev + swd_target w idle regs ack rd wr
  for proc :: "'p swd_proc" and ok and w :: "'d swd_wire" and dir and dev :: "'p \<Rightarrow> 'd" and idle and regs :: "'d \<Rightarrow> 'r" and ack rd wr
begin

text \<open>The line is free, after the turnaround that the next sequence makes if the device had it last.\<close>

definition free :: "'p \<Rightarrow> bool" where
  "free p \<longleftrightarrow> ok p \<and> idle (snd (edges w (turn (dir p) SWDIO_STATUS_DRIVE) (dev p)))"

definition state :: "'p \<Rightarrow> 'r" where
  "state p = regs (snd (edges w (turn (dir p) SWDIO_STATUS_DRIVE) (dev p)))"

lemma free_driven: "dir p = SWDIO_STATUS_DRIVE \<Longrightarrow> free p \<longleftrightarrow> ok p \<and> idle (dev p)" "dir p = SWDIO_STATUS_DRIVE \<Longrightarrow> state p = regs (dev p)"
  by (simp_all add: free_def state_def turn_def)

text \<open>One request: the answer is read, and the line is with the device.\<close>

lemma send_request:
  assumes "free (sw_port s)"
  shows "\<exists>d p p'. on_swd (proc_seq_out proc (ucast (make_packet_request rnw addr)) 8) s = Some (s\<lparr>sw_port := p\<rparr>) \<and>
    from_swd (proc_seq_in proc 3) (s\<lparr>sw_port := p\<rparr>) = Some (bits_word (ack_bits (ack (rnw \<noteq> 0) (reg_of addr) (state (sw_port s)))), s\<lparr>sw_port := p'\<rparr>) \<and>
    idle d \<and> regs d = state (sw_port s) \<and> ok p' \<and> dir p' = SWDIO_STATUS_FLOAT \<and> dev p' = snd (edges w (request_edges (rnw \<noteq> 0) addr) d)"
proof -
  let ?d = "snd (edges w (turn (dir (sw_port s)) SWDIO_STATUS_DRIVE) (dev (sw_port s)))"
  have f: "ok (sw_port s)" "idle ?d" "regs ?d = state (sw_port s)" using assms by (simp_all add: free_def state_def)
  let ?req = "map Some (request_bits (rnw \<noteq> 0) addr)"
  obtain p where p: "proc_seq_out proc (ucast (make_packet_request rnw addr)) 8 (sw_port s) = Some p" "ok p" "dir p = SWDIO_STATUS_DRIVE"
    "dev p = snd (edges w ?req ?d)"
    using out_ok [OF f(1), of 8 "ucast (make_packet_request rnw addr)"] by (auto simp: make_packet_request_bits edges_append)
  have t: "turn (dir p) SWDIO_STATUS_FLOAT = [None]" using p(3) by (simp add: turn_def)
  have e: "edges w (request_edges (rnw \<noteq> 0) addr) ?d = (fst (edges w ?req ?d) @ fst (edges w (replicate 4 None) (dev p)), snd (edges w (replicate 4 None) (dev p)))"
    unfolding request_edges_def edges_append p(4) ..
  have r4: "[None] @ replicate 3 None = replicate 4 None" by (simp add: numeral_eq_Suc)
  have l: "length (fst (edges w ?req ?d)) = 8" by (simp add: request_bits_def)
  have "drop 1 (fst (edges w (replicate 4 None) (dev p))) = ack_bits (ack (rnw \<noteq> 0) (reg_of addr) (state (sw_port s)))"
    using request [OF f(2), of "rnw \<noteq> 0" addr] l unfolding e f(3) by simp
  then obtain p' where "proc_seq_in proc 3 p = Some (bits_word (ack_bits (ack (rnw \<noteq> 0) (reg_of addr) (state (sw_port s)))), p')" "ok p'" "dir p' = SWDIO_STATUS_FLOAT"
    "dev p' = snd (edges w (replicate 4 None) (dev p))"
    using in_ok [OF p(2), of 3] unfolding t r4 by auto
  then show ?thesis using p f(2,3) e by (intro exI [of _ ?d] exI [of _ p] exI [of _ p']) (simp add: on_swd_def from_swd_def)
qed

text \<open>An answer of OK ends the loop.\<close>

lemma request_ok:
  assumes "free (sw_port s)" "ack (rnw \<noteq> 0) (reg_of addr) (state (sw_port s)) = SWDP_ACK_OK"
  shows "\<exists>d p. swd_request_loop proc abort (make_packet_request rnw addr) (Suc n) s = Some (Inr SWDP_ACK_OK, s\<lparr>sw_port := p\<rparr>) \<and>
    idle d \<and> regs d = state (sw_port s) \<and> ok p \<and> dir p = SWDIO_STATUS_FLOAT \<and> dev p = snd (edges w (request_edges (rnw \<noteq> 0) addr) d)"
proof -
  obtain d p p' where r: "on_swd (proc_seq_out proc (ucast (make_packet_request rnw addr)) 8) s = Some (s\<lparr>sw_port := p\<rparr>)"
    "from_swd (proc_seq_in proc 3) (s\<lparr>sw_port := p\<rparr>) = Some (bits_word (ack_bits SWDP_ACK_OK), s\<lparr>sw_port := p'\<rparr>)"
    "idle d" "regs d = state (sw_port s)" "ok p'" "dir p' = SWDIO_STATUS_FLOAT" "dev p' = snd (edges w (request_edges (rnw \<noteq> 0) addr) d)"
    using send_request [OF assms(1), of rnw addr] unfolding assms(2) by blast
  have "(ucast (bits_word (ack_bits SWDP_ACK_OK)) :: u8) = SWDP_ACK_OK" by (rule bits_word_ack) simp
  then show ?thesis using r by (intro exI [of _ d] exI [of _ p']) simp
qed

lemma access_read:
  assumes "free (sw_port s)" "ack True (reg_of addr) (state (sw_port s)) = SWDP_ACK_OK" "addr AND ADIV5_APnDP = 0 \<or> sw_fault s = 0" "rnw \<noteq> 0"
  shows "\<exists>p. firmware_swdp_low_access proc (Suc n) rnw addr val s = Some (Inr (fst (rd (reg_of addr) (state (sw_port s)))), s\<lparr>sw_port := p\<rparr>) \<and>
    free p \<and> state p = snd (rd (reg_of addr) (state (sw_port s))) \<and> dir p = SWDIO_STATUS_DRIVE"
proof -
  let ?r = "state (sw_port s)" and ?x = "fst (rd (reg_of addr) (state (sw_port s)))"
  obtain d p where p: "swd_request_loop proc (\<lambda>v. firmware_swdp_low_access proc n ADIV5_LOW_WRITE ADIV5_DP_ABORT v) (make_packet_request rnw addr) (Suc n) s =
      Some (Inr SWDP_ACK_OK, s\<lparr>sw_port := p\<rparr>)"
    "idle d" "regs d = ?r" "ok p" "dir p = SWDIO_STATUS_FLOAT" "dev p = snd (edges w (request_edges True addr) d)"
    using request_ok [OF assms(1), of rnw addr "\<lambda>v. firmware_swdp_low_access proc n ADIV5_LOW_WRITE ADIV5_DP_ABORT v" n] assms(2,4) by auto
  let ?e = "edges w (replicate 33 None) (dev p)"
  have d: "fst ?e = map (bit ?x) [0..<32] @ [calculate_odd_parity ?x \<noteq> 0]" "idle (snd (edges w (replicate 34 None) (dev p)))"
    "regs (snd (edges w (replicate 34 None) (dev p))) = snd (rd (reg_of addr) ?r)"
    using read_data [OF p(2) _ p(6)] assms(2) unfolding p(3) by simp_all
  have e34: "snd (edges w (replicate 34 None) (dev p)) = snd (edges w [None] (snd ?e))"
    using edges_append [of w "replicate 33 None" "[None]" "dev p"] by (simp add: replicate_append_same flip: replicate_Suc)
  have "take 32 (fst ?e) = map (bit ?x) [0..<32]" "fst ?e ! 32 = (calculate_odd_parity ?x \<noteq> 0)" unfolding d(1) by (simp_all add: nth_append)
  then obtain p1 where p1: "proc_seq_in_parity proc 32 p = Some ((False, ?x), p1)" "ok p1" "dir p1 = SWDIO_STATUS_DRIVE" "dev p1 = snd (edges w (replicate 34 None) (dev p))"
    using in_parity_ok [OF p(4,5), of 32] unfolding e34 Let_def by (auto simp: bits_word_bits)
  obtain p2 where p2: "proc_seq_out proc 0 8 p1 = Some p2" "ok p2" "dir p2 = SWDIO_STATUS_DRIVE" "dev p2 = snd (edges w (wbits 0 8) (dev p1))"
    using out_ok [OF p1(2), of 8 0] p1(3) by (auto simp: turn_def)
  have "free p2" "state p2 = snd (rd (reg_of addr) ?r)"
    using idle_cycles [of "dev p1" 8] d(2,3) p1(4) p2(2,4) free_driven [OF p2(3)] by simp_all
  then show ?thesis using p(1) p1(1) p2(1,3) assms(3,4) by (intro exI [of _ p2]) (auto simp: from_swd_def on_swd_def Let_def simp del: swd_request_loop.simps)
qed

lemma access_write:
  assumes "free (sw_port s)" "ack False (reg_of addr) (state (sw_port s)) = SWDP_ACK_OK" "addr AND ADIV5_APnDP = 0 \<or> sw_fault s = 0"
  shows "\<exists>p. firmware_swdp_low_access proc (Suc n) ADIV5_LOW_WRITE addr val s = Some (Inr 0, s\<lparr>sw_port := p\<rparr>) \<and>
    free p \<and> state p = wr (reg_of addr) val (state (sw_port s)) \<and> dir p = SWDIO_STATUS_DRIVE"
proof -
  let ?r = "state (sw_port s)"
  obtain d p where p: "swd_request_loop proc (\<lambda>v. firmware_swdp_low_access proc n ADIV5_LOW_WRITE ADIV5_DP_ABORT v) (make_packet_request ADIV5_LOW_WRITE addr) (Suc n) s =
      Some (Inr SWDP_ACK_OK, s\<lparr>sw_port := p\<rparr>)"
    "idle d" "regs d = ?r" "ok p" "dir p = SWDIO_STATUS_FLOAT" "dev p = snd (edges w (request_edges False addr) d)"
    using request_ok [OF assms(1), of ADIV5_LOW_WRITE addr "\<lambda>v. firmware_swdp_low_access proc n ADIV5_LOW_WRITE ADIV5_DP_ABORT v" n] assms(2) by auto
  let ?out = "None # wbits val 32 @ [Some (calculate_odd_parity val \<noteq> 0)]"
  obtain p1 where p1: "proc_seq_out_parity proc val 32 p = Some p1" "ok p1" "dir p1 = SWDIO_STATUS_DRIVE" "dev p1 = snd (edges w ?out (dev p))"
    using out_parity_ok [OF p(4), of 32 val] p(5) by (auto simp: turn_def)
  have "dev p1 = snd (edges w (request_edges False addr @ ?out) d)" unfolding edges_append p1(4) p(6) by simp
  then have d: "idle (dev p1)" "regs (dev p1) = wr (reg_of addr) val ?r" using write_data [OF p(2)] assms(2) unfolding p(3) by blast+
  obtain p2 where p2: "proc_seq_out proc 0 8 p1 = Some p2" "ok p2" "dir p2 = SWDIO_STATUS_DRIVE" "dev p2 = snd (edges w (wbits 0 8) (dev p1))"
    using out_ok [OF p1(2), of 8 0] p1(3) by (auto simp: turn_def)
  have "free p2" "state p2 = wr (reg_of addr) val ?r"
    using idle_cycles [of "dev p1" 8] d p2(2,4) free_driven [OF p2(3)] by simp_all
  then show ?thesis using p(1) p1(1) p2(1,3) assms(3) by (intro exI [of _ p2]) (auto simp: on_swd_def Let_def simp del: swd_request_loop.simps)
qed

lemma wait_step:
  assumes "free (sw_port s)" "ack (rnw \<noteq> 0) (reg_of addr) (state (sw_port s)) = SWDP_ACK_WAIT"
  shows "\<exists>p. (\<forall>b es. sw_expired s = b # es \<longrightarrow> swd_request_loop proc abort (make_packet_request rnw addr) (Suc n) s =
      (if b then Some (Inr SWDP_ACK_WAIT, s\<lparr>sw_port := p, sw_expired := es\<rparr>) else swd_request_loop proc abort (make_packet_request rnw addr) n (s\<lparr>sw_port := p, sw_expired := es\<rparr>))) \<and>
    free p \<and> state p = state (sw_port s)"
proof -
  obtain d p p' where r: "on_swd (proc_seq_out proc (ucast (make_packet_request rnw addr)) 8) s = Some (s\<lparr>sw_port := p\<rparr>)"
    "from_swd (proc_seq_in proc 3) (s\<lparr>sw_port := p\<rparr>) = Some (bits_word (ack_bits SWDP_ACK_WAIT), s\<lparr>sw_port := p'\<rparr>)"
    "idle d" "regs d = state (sw_port s)" "ok p'" "dir p' = SWDIO_STATUS_FLOAT" "dev p' = snd (edges w (request_edges (rnw \<noteq> 0) addr) d)"
    using send_request [OF assms(1), of rnw addr] unfolding assms(2) by blast
  have a: "(ucast (bits_word (ack_bits SWDP_ACK_WAIT)) :: u8) = SWDP_ACK_WAIT" by (rule bits_word_ack) simp
  have "snd (edges w (turn (dir p') SWDIO_STATUS_DRIVE) (dev p')) = snd (edges w (request_edges (rnw \<noteq> 0) addr @ [None]) d)"
    unfolding edges_append r(7) r(6) by (simp add: turn_def)
  then have "free p'" "state p' = state (sw_port s)"
    using refused [OF r(3), of "rnw \<noteq> 0" addr] assms(2) r(4,5) by (simp_all add: free_def state_def)
  then show ?thesis using r(1,2) a by (intro exI [of _ p']) (simp add: sw_timeout_def)
qed

text \<open>A device that keeps asking for time is asked again until the time-out, and then the access is aborted.\<close>

lemma request_wait:
  assumes "free (sw_port s)" "ack (rnw \<noteq> 0) (reg_of addr) (state (sw_port s)) = SWDP_ACK_WAIT" "sw_expired s = replicate k False @ True # es" "k < n"
  shows "\<exists>p. swd_request_loop proc abort (make_packet_request rnw addr) n s = Some (Inr SWDP_ACK_WAIT, s\<lparr>sw_port := p, sw_expired := es\<rparr>) \<and>
    free p \<and> state p = state (sw_port s)"
  using assms
proof (induction k arbitrary: s n)
  case (0 s n)
  obtain m where n: "n = Suc m" using 0(4) by (cases n) auto
  obtain p where p: "\<And>b es. sw_expired s = b # es \<Longrightarrow> swd_request_loop proc abort (make_packet_request rnw addr) (Suc m) s =
      (if b then Some (Inr SWDP_ACK_WAIT, s\<lparr>sw_port := p, sw_expired := es\<rparr>) else swd_request_loop proc abort (make_packet_request rnw addr) m (s\<lparr>sw_port := p, sw_expired := es\<rparr>))"
    "free p" "state p = state (sw_port s)" using wait_step [OF 0(1,2), of abort m] by blast
  show ?case using p(1) [of True es] p(2,3) 0(3) unfolding n by auto
next
  case (Suc k s n)
  obtain m where n: "n = Suc m" "k < m" using Suc.prems(4) by (cases n) auto
  obtain p where p: "\<And>b es. sw_expired s = b # es \<Longrightarrow> swd_request_loop proc abort (make_packet_request rnw addr) (Suc m) s =
      (if b then Some (Inr SWDP_ACK_WAIT, s\<lparr>sw_port := p, sw_expired := es\<rparr>) else swd_request_loop proc abort (make_packet_request rnw addr) m (s\<lparr>sw_port := p, sw_expired := es\<rparr>))"
    "free p" "state p = state (sw_port s)" using wait_step [OF Suc.prems(1,2), of abort m] by blast
  let ?s = "s\<lparr>sw_port := p, sw_expired := replicate k False @ True # es\<rparr>"
  have "swd_request_loop proc abort (make_packet_request rnw addr) n s = swd_request_loop proc abort (make_packet_request rnw addr) m ?s"
    using p(1) [of False "replicate k False @ True # es"] Suc.prems(3) unfolding n(1) by simp
  then show ?case using Suc.IH [of ?s m] p(2,3) Suc.prems(2) n(2) by auto
qed

lemma access_wait:
  assumes "free (sw_port s)" "ack (rnw \<noteq> 0) (reg_of addr) (state (sw_port s)) = SWDP_ACK_WAIT" "ack False 0 (state (sw_port s)) = SWDP_ACK_OK"
    and "addr AND ADIV5_APnDP = 0 \<or> sw_fault s = 0" "sw_expired s = replicate k False @ True # es" "k \<le> Suc n"
  shows "\<exists>p. firmware_swdp_low_access proc (Suc (Suc n)) rnw addr val s = Some (Inr 0, s\<lparr>sw_port := p, sw_expired := es, sw_fault := SWDP_ACK_WAIT\<rparr>) \<and>
    free p \<and> state p = wr 0 ADIV5_DP_ABORT_DAPABORT (state (sw_port s)) \<and> dir p = SWDIO_STATUS_DRIVE"
proof -
  let ?abort = "\<lambda>v. firmware_swdp_low_access proc (Suc n) ADIV5_LOW_WRITE ADIV5_DP_ABORT v"
  obtain p where p: "swd_request_loop proc ?abort (make_packet_request rnw addr) (Suc (Suc n)) s = Some (Inr SWDP_ACK_WAIT, s\<lparr>sw_port := p, sw_expired := es\<rparr>)"
    "free p" "state p = state (sw_port s)" using request_wait [OF assms(1,2,5), of "Suc (Suc n)" ?abort] assms(6) by auto
  have z: "reg_of ADIV5_DP_ABORT = 0" by (simp add: reg_of_def)
  obtain p' where p': "?abort ADIV5_DP_ABORT_DAPABORT (s\<lparr>sw_port := p, sw_expired := es\<rparr>) = Some (Inr 0, s\<lparr>sw_port := p', sw_expired := es\<rparr>)"
    "free p'" "state p' = wr 0 ADIV5_DP_ABORT_DAPABORT (state (sw_port s))" "dir p' = SWDIO_STATUS_DRIVE"
    using access_write [of "s\<lparr>sw_port := p, sw_expired := es\<rparr>" ADIV5_DP_ABORT n ADIV5_DP_ABORT_DAPABORT] p(2,3) assms(3) unfolding z by (auto simp: sw_order simp del: firmware_swdp_low_access.simps)
  show ?thesis using p(1) p' assms(4) unfolding firmware_swdp_low_access.simps(2) [of proc "Suc n"] Let_def
    by (intro exI [of _ p']) (auto simp del: swd_request_loop.simps firmware_swdp_low_access.simps)
qed

end

end
