(* ===== verification/Swd_Emu.thy ===== *)
theory Swd_Emu
  imports Swd_Line Adiv5_Emu
begin

text \<open>
  A device that speaks the protocol of swd_target, with any registers behind it, and the registers of the emulated
  target in this place: block accesses to memory through the pins of the probe are then accesses to the flash
  array and the SRAM of the emulated target.
\<close>

subsection \<open>A device\<close>

datatype slave_phase =
  Await "bool list"
| Send "bool list" "u16 option"
| Receive u16 "bool list"
| Lost

record 'r swd_slave =
  sl_phase :: slave_phase
  sl_regs :: 'r

definition slave_addr :: "bool list \<Rightarrow> u16" where
  "slave_addr bs = (if bs ! 1 then 0x100 else 0) OR (if bs ! 3 then 4 else 0) OR (if bs ! 4 then 8 else 0)"

definition slave_level :: "'r swd_slave \<Rightarrow> bool" where
  "slave_level s = (case sl_phase s of Send (b # bs) nx \<Rightarrow> b | _ \<Rightarrow> True)"

text \<open>The device behind a request: what it answers, reads and writes. A write waits for its word.\<close>

definition slave_request ::
  "(bool \<Rightarrow> u16 \<Rightarrow> 'r \<Rightarrow> u8) \<Rightarrow> (u16 \<Rightarrow> 'r \<Rightarrow> u32 \<times> 'r) \<Rightarrow> bool list \<Rightarrow> 'r swd_slave \<Rightarrow> 'r swd_slave" where
  "slave_request ack rd bs s =
     (let rnw = bs ! 2; addr = slave_addr bs; a = ack rnw addr (sl_regs s)
      in if bs \<noteq> request_bits rnw addr then s\<lparr>sl_phase := Lost\<rparr>
         else if a \<noteq> SWDP_ACK_OK then s\<lparr>sl_phase := Send (True # ack_bits a @ [True]) None\<rparr>
         else if rnw
         then (let (x, r) = rd addr (sl_regs s)
               in \<lparr>sl_phase = Send (True # ack_bits a @ map (bit x) [0..<32] @ [calculate_odd_parity x \<noteq> 0, True]) None, sl_regs = r\<rparr>)
         else s\<lparr>sl_phase := Send (True # ack_bits a @ [True]) (Some addr)\<rparr>)"

definition slave_rise ::
  "(bool \<Rightarrow> u16 \<Rightarrow> 'r \<Rightarrow> u8) \<Rightarrow> (u16 \<Rightarrow> 'r \<Rightarrow> u32 \<times> 'r) \<Rightarrow> (u16 \<Rightarrow> u32 \<Rightarrow> 'r \<Rightarrow> 'r) \<Rightarrow> bool option \<Rightarrow> 'r swd_slave \<Rightarrow> 'r swd_slave" where
  "slave_rise ack rd wr h s =
     (case sl_phase s of
        Await bs \<Rightarrow>
          (case h of
             None \<Rightarrow> s\<lparr>sl_phase := Lost\<rparr>
           | Some b \<Rightarrow> (let bs = bs @ [b]
                        in if bs = [False] then s else if length bs < 8 then s\<lparr>sl_phase := Await bs\<rparr> else slave_request ack rd bs s))
      | Send bs nx \<Rightarrow>
          (if tl bs \<noteq> [] then s\<lparr>sl_phase := Send (tl bs) nx\<rparr>
           else s\<lparr>sl_phase := (case nx of None \<Rightarrow> Await [] | Some addr \<Rightarrow> Receive addr [])\<rparr>)
      | Receive addr bs \<Rightarrow>
          (case h of
             None \<Rightarrow> s\<lparr>sl_phase := Lost\<rparr>
           | Some b \<Rightarrow> (if length bs < 32 then s\<lparr>sl_phase := Receive addr (bs @ [b])\<rparr>
                        else if b = (calculate_odd_parity (bits_word bs) \<noteq> 0)
                        then \<lparr>sl_phase = Await [], sl_regs = wr addr (bits_word bs) (sl_regs s)\<rparr>
                        else s\<lparr>sl_phase := Await []\<rparr>))
      | Lost \<Rightarrow> s)"

definition slave_wire where
  "slave_wire ack rd wr = \<lparr>wire_level = slave_level, wire_rise = slave_rise ack rd wr\<rparr>"

definition slave_idle :: "'r swd_slave \<Rightarrow> bool" where
  "slave_idle s \<longleftrightarrow> sl_phase s = Await []"

lemma slave_wire_simps [simp]: "wire_level (slave_wire ack rd wr) = slave_level" "wire_rise (slave_wire ack rd wr) = slave_rise ack rd wr"
  by (simp_all add: slave_wire_def)

definition after_send :: "u16 option \<Rightarrow> slave_phase" where
  "after_send nx = (case nx of None \<Rightarrow> Await [] | Some addr \<Rightarrow> Receive addr [])"

lemma send_run:
  assumes "sl_phase s = Send bs nx" "n \<le> length bs" "bs \<noteq> []"
  shows "edges (slave_wire ack rd wr) (replicate n None) s =
    (take n bs, s\<lparr>sl_phase := (if n < length bs then Send (drop n bs) nx else after_send nx)\<rparr>)"
  using assms
proof (induction n arbitrary: s bs)
  case 0
  then show ?case by (cases s) simp
next
  case (Suc n)
  obtain b cs where bs: "bs = b # cs" using Suc.prems(3) by (cases bs) auto
  show ?case
  proof (cases "cs = []")
    case True
    then show ?thesis using Suc.prems bs by (auto simp: slave_level_def slave_rise_def after_send_def)
  next
    case False
    then have r: "slave_rise ack rd wr None s = s\<lparr>sl_phase := Send cs nx\<rparr>" using Suc.prems(1) bs by (simp add: slave_rise_def)
    have "edges (slave_wire ack rd wr) (replicate n None) (s\<lparr>sl_phase := Send cs nx\<rparr>) =
        (take n cs, s\<lparr>sl_phase := (if n < length cs then Send (drop n cs) nx else after_send nx)\<rparr>)"
      using Suc.IH [of "s\<lparr>sl_phase := Send cs nx\<rparr>" cs] Suc.prems(2) False bs by simp
    then show ?thesis using r Suc.prems(1) bs by (simp add: slave_level_def)
  qed
qed

lemma receive_run:
  assumes "sl_phase s = Receive addr bs" "length bs + length cs \<le> 32"
  shows "snd (edges (slave_wire ack rd wr) (map Some cs) s) = s\<lparr>sl_phase := Receive addr (bs @ cs)\<rparr>"
  using assms
proof (induction cs arbitrary: s bs)
  case Nil
  then show ?case by (cases s) simp
next
  case (Cons c cs)
  have "slave_rise ack rd wr (Some c) s = s\<lparr>sl_phase := Receive addr (bs @ [c])\<rparr>" using Cons.prems by (simp add: slave_rise_def)
  then show ?case using Cons.IH [of "s\<lparr>sl_phase := Receive addr (bs @ [c])\<rparr>" "bs @ [c]"] Cons.prems(2) by (simp add: split_beta)
qed

lemma slave_addr_request: "slave_addr (request_bits rnw addr) = reg_of addr"
proof -
  have "(addr :: u16) AND 0x10c = (addr AND push_bit 8 1) OR (addr AND push_bit 2 1) OR (addr AND push_bit 3 1)"
    by (simp flip: bit.conj_disj_distrib)
  then show ?thesis unfolding and_bit by (simp add: slave_addr_def request_bits_def reg_of_def)
qed

lemma request_bits_reg: "request_bits rnw (reg_of addr) = request_bits rnw addr"
proof -
  have "bit (0x10c :: u16) n" if "n \<in> {2, 3, 8}" for n using that by auto
  then show ?thesis by (simp add: request_bits_def reg_of_def bit_and_iff)
qed

lemma slave_request_phase: "slave_request ack rd bs (s\<lparr>sl_phase := ph\<rparr>) = slave_request ack rd bs s"
  by (simp add: slave_request_def Let_def split_beta)

lemma request_run:
  assumes "slave_idle s"
  shows "snd (edges (slave_wire ack rd wr) (map Some (request_bits rnw addr)) s) = slave_request ack rd (request_bits rnw addr) s"
  using assms by (simp add: request_bits_def slave_idle_def slave_rise_def slave_request_phase)

text \<open>What follows a request.\<close>

lemma slave_request_simps:
  "ack rnw (reg_of addr) (sl_regs s) \<noteq> SWDP_ACK_OK \<Longrightarrow>
    slave_request ack rd (request_bits rnw addr) s = s\<lparr>sl_phase := Send (True # ack_bits (ack rnw (reg_of addr) (sl_regs s)) @ [True]) None\<rparr>"
  "ack True (reg_of addr) (sl_regs s) = SWDP_ACK_OK \<Longrightarrow> rd (reg_of addr) (sl_regs s) = (x, r) \<Longrightarrow> slave_request ack rd (request_bits True addr) s =
    \<lparr>sl_phase = Send (True # ack_bits SWDP_ACK_OK @ map (bit x) [0..<32] @ [calculate_odd_parity x \<noteq> 0, True]) None, sl_regs = r\<rparr>"
  "ack False (reg_of addr) (sl_regs s) = SWDP_ACK_OK \<Longrightarrow>
    slave_request ack rd (request_bits False addr) s = s\<lparr>sl_phase := Send (True # ack_bits SWDP_ACK_OK @ [True]) (Some (reg_of addr))\<rparr>"
proof -
  have b: "request_bits rnw addr ! 2 = rnw" for rnw by (simp add: request_bits_def)
  note d = slave_request_def Let_def b slave_addr_request request_bits_reg
  show "ack rnw (reg_of addr) (sl_regs s) \<noteq> SWDP_ACK_OK \<Longrightarrow>
    slave_request ack rd (request_bits rnw addr) s = s\<lparr>sl_phase := Send (True # ack_bits (ack rnw (reg_of addr) (sl_regs s)) @ [True]) None\<rparr>"
    unfolding d by simp
  show "ack True (reg_of addr) (sl_regs s) = SWDP_ACK_OK \<Longrightarrow> rd (reg_of addr) (sl_regs s) = (x, r) \<Longrightarrow> slave_request ack rd (request_bits True addr) s =
    \<lparr>sl_phase = Send (True # ack_bits SWDP_ACK_OK @ map (bit x) [0..<32] @ [calculate_odd_parity x \<noteq> 0, True]) None, sl_regs = r\<rparr>"
    unfolding d by simp
  show "ack False (reg_of addr) (sl_regs s) = SWDP_ACK_OK \<Longrightarrow>
    slave_request ack rd (request_bits False addr) s = s\<lparr>sl_phase := Send (True # ack_bits SWDP_ACK_OK @ [True]) (Some (reg_of addr))\<rparr>"
    unfolding d by simp
qed

lemma slave_answer:
  assumes "slave_idle s" "slave_request ack rd (request_bits rnw addr) s = s'" "sl_phase s' = Send (True # ack_bits a @ b # bs) nx"
  shows "drop 9 (fst (edges (slave_wire ack rd wr) (request_edges rnw addr) s)) = ack_bits a"
    "snd (edges (slave_wire ack rd wr) (request_edges rnw addr) s) = s'\<lparr>sl_phase := Send (b # bs) nx\<rparr>"
proof -
  let ?w = "slave_wire ack rd wr"
  have l: "length (ack_bits a) = 3" "length (fst (edges ?w (map Some (request_bits rnw addr)) s)) = 8" by (simp_all add: ack_bits_def request_bits_def)
  have r: "edges ?w (replicate 4 None) s' = (True # ack_bits a, s'\<lparr>sl_phase := Send (b # bs) nx\<rparr>)"
    using send_run [OF assms(3), of 4 ack rd wr] l(1) by (simp add: numeral_eq_Suc)
  show "drop 9 (fst (edges ?w (request_edges rnw addr) s)) = ack_bits a"
    unfolding request_edges_def edges_append request_run [OF assms(1)] assms(2) r using l by simp
  show "snd (edges ?w (request_edges rnw addr) s) = s'\<lparr>sl_phase := Send (b # bs) nx\<rparr>"
    unfolding request_edges_def edges_append request_run [OF assms(1)] assms(2) r by simp
qed

definition ack3 :: "(bool \<Rightarrow> u16 \<Rightarrow> 'r \<Rightarrow> u8) \<Rightarrow> bool \<Rightarrow> u16 \<Rightarrow> 'r \<Rightarrow> u8" where
  "ack3 ack rnw a r = ack rnw a r AND 7"

interpretation slave: swd_target "slave_wire (ack3 ack) rd wr" slave_idle sl_regs "ack3 ack" rd wr
proof unfold_locales
  fix rnw a and r :: 'a
  show "ack3 ack rnw a r \<le> 7" by (simp add: ack3_def word_and_le1)
next
  fix d :: "'a swd_slave"
  assume "slave_idle d"
  then show "slave_idle (wire_rise (slave_wire (ack3 ack) rd wr) (Some False) d) \<and> sl_regs (wire_rise (slave_wire (ack3 ack) rd wr) (Some False) d) = sl_regs d"
    by (simp add: slave_idle_def slave_rise_def)
next
  fix d :: "'a swd_slave" and rnw addr
  assume d: "slave_idle d"
  show "drop 9 (fst (edges (slave_wire (ack3 ack) rd wr) (request_edges rnw addr) d)) = ack_bits (ack3 ack rnw (reg_of addr) (sl_regs d))"
  proof (cases "ack3 ack rnw (reg_of addr) (sl_regs d) = SWDP_ACK_OK")
    case False
    then show ?thesis using slave_answer(1) [OF d slave_request_simps(1) [where ack = "ack3 ack" and rd = rd, OF False]] by simp
  next
    case ok: True
    show ?thesis
    proof (cases rnw)
      case True
      obtain x r where x: "rd (reg_of addr) (sl_regs d) = (x, r)" by fastforce
      have "map (bit x) [0..<32] = bit x 0 # map (bit x) [1..<32]" by (simp add: upt_conv_Cons)
      then show ?thesis using slave_answer(1) [OF d slave_request_simps(2) [where ack = "ack3 ack" and rd = rd, OF _ x]] ok True by simp
    next
      case False
      then show ?thesis using slave_answer(1) [OF d slave_request_simps(3) [where ack = "ack3 ack" and rd = rd]] ok by simp
    qed
  qed
next
  fix d d1 :: "'a swd_slave" and addr
  assume d: "slave_idle d" "ack3 ack True (reg_of addr) (sl_regs d) = SWDP_ACK_OK" "d1 = snd (edges (slave_wire (ack3 ack) rd wr) (request_edges True addr) d)"
  obtain x r where x: "rd (reg_of addr) (sl_regs d) = (x, r)" by fastforce
  let ?bs = "map (bit x) [0..<32] @ [calculate_odd_parity x \<noteq> 0, True]"
  have m: "map (bit x) [0..<32] = bit x 0 # map (bit x) [1..<32]" by (simp add: upt_conv_Cons)
  have d1: "d1 = \<lparr>sl_phase = Send ?bs None, sl_regs = r\<rparr>"
    unfolding d(3) using slave_answer(2) [OF d(1) slave_request_simps(2) [where ack = "ack3 ack" and rd = rd, OF d(2) x]] m by simp
  have "edges (slave_wire (ack3 ack) rd wr) (replicate n None) d1 = (take n ?bs, d1\<lparr>sl_phase := (if n < 34 then Send (drop n ?bs) None else Await [])\<rparr>)" if "n \<le> 34" for n
    using send_run [of d1 ?bs None n "ack3 ack" rd wr] that d1 by (simp add: after_send_def)
  from this [of 33] this [of 34]
  show "fst (edges (slave_wire (ack3 ack) rd wr) (replicate 33 None) d1) =
      map (bit (fst (rd (reg_of addr) (sl_regs d)))) [0..<32] @ [calculate_odd_parity (fst (rd (reg_of addr) (sl_regs d))) \<noteq> 0] \<and>
      slave_idle (snd (edges (slave_wire (ack3 ack) rd wr) (replicate 34 None) d1)) \<and>
      sl_regs (snd (edges (slave_wire (ack3 ack) rd wr) (replicate 34 None) d1)) = snd (rd (reg_of addr) (sl_regs d))"
    by (simp add: x d1 slave_idle_def)
next
  fix d d2 :: "'a swd_slave" and addr v
  let ?w = "slave_wire (ack3 ack) rd wr" and ?a = "reg_of addr"
  assume d: "slave_idle d" "ack3 ack False (reg_of addr) (sl_regs d) = SWDP_ACK_OK"
    "d2 = snd (edges ?w (request_edges False addr @ None # wbits v 32 @ [Some (calculate_odd_parity v \<noteq> 0)]) d)"
  have d1: "snd (edges ?w (request_edges False addr) d) = d\<lparr>sl_phase := Send [True] (Some ?a)\<rparr>"
    using slave_answer(2) [OF d(1) slave_request_simps(3) [where ack = "ack3 ack" and rd = rd, OF d(2)]] by simp
  have r: "slave_rise (ack3 ack) rd wr None (d\<lparr>sl_phase := Send [True] (Some ?a)\<rparr>) = d\<lparr>sl_phase := Receive ?a []\<rparr>" by (simp add: slave_rise_def)
  have wb: "wbits v 32 = map Some (map (bit v) [0..<32])" by (simp add: wbits_def)
  have rx: "snd (edges ?w (wbits v 32) (d\<lparr>sl_phase := Receive ?a []\<rparr>)) = d\<lparr>sl_phase := Receive ?a (map (bit v) [0..<32])\<rparr>"
    unfolding wb using receive_run [of "d\<lparr>sl_phase := Receive ?a []\<rparr>" ?a "[]" "map (bit v) [0..<32]" "ack3 ack" rd wr] by simp
  have "d2 = snd (edges ?w [Some (calculate_odd_parity v \<noteq> 0)] (d\<lparr>sl_phase := Receive ?a (map (bit v) [0..<32])\<rparr>))"
    unfolding d(3) edges_append d1 by (simp add: split_beta edges_append r rx)
  then have "d2 = \<lparr>sl_phase = Await [], sl_regs = wr ?a v (sl_regs d)\<rparr>" by (simp add: slave_rise_def bits_word_bits)
  then show "slave_idle d2 \<and> sl_regs d2 = wr ?a v (sl_regs d)" by (simp add: slave_idle_def)
next
  fix d d2 :: "'a swd_slave" and rnw addr
  let ?w = "slave_wire (ack3 ack) rd wr"
  assume d: "slave_idle d" "ack3 ack rnw (reg_of addr) (sl_regs d) \<noteq> SWDP_ACK_OK" "d2 = snd (edges ?w (request_edges rnw addr @ [None]) d)"
  have d1: "snd (edges ?w (request_edges rnw addr) d) = d\<lparr>sl_phase := Send [True] None\<rparr>"
    using slave_answer(2) [OF d(1) slave_request_simps(1) [where ack = "ack3 ack" and rd = rd, OF d(2)]] by simp
  have "d2 = d\<lparr>sl_phase := Await []\<rparr>" unfolding d(3) edges_append d1 by (simp add: slave_rise_def)
  then show "slave_idle d2 \<and> sl_regs d2 = sl_regs d" by (simp add: slave_idle_def)
qed

interpretation gpio_slave: swd_bus "swdptap_init (slave_wire (ack3 ack) rd wr)" clock_low "slave_wire (ack3 ack) rd wr" olddir swd_dev slave_idle sl_regs "ack3 ack" rd wr
  by unfold_locales

subsection \<open>The registers of the emulated target\<close>

text \<open>The bits of an access port address that a request does not have are those of the last write to SELECT.\<close>

definition emu_reg :: "u16 \<Rightarrow> emu_shim \<Rightarrow> u16" where
  "emu_reg a r = (if a AND ADIV5_APnDP \<noteq> 0 then a OR (ucast (g_select r) AND 0xf0) else a)"

definition emu_rd :: "u16 \<Rightarrow> emu_shim \<Rightarrow> u32 \<times> emu_shim" where
  "emu_rd a r = (case emu_shim_low_access ADIV5_LOW_READ (emu_reg a r) 0 r of Some x \<Rightarrow> x | None \<Rightarrow> (0, r))"

definition emu_wr :: "u16 \<Rightarrow> u32 \<Rightarrow> emu_shim \<Rightarrow> emu_shim" where
  "emu_wr a v r = (case emu_shim_low_access ADIV5_LOW_WRITE (emu_reg a r) v r of Some (_, r) \<Rightarrow> r | None \<Rightarrow> r)"

definition emu_wire :: "emu_shim swd_slave swd_wire" where
  "emu_wire = slave_wire (ack3 (\<lambda>_ _ _. SWDP_ACK_OK)) emu_rd emu_wr"

type_synonym emu_swd = "emu_shim swd_slave swd_pins swd_dp"

definition emu_line :: "emu_swd \<Rightarrow> emu_shim" where
  "emu_line s = sl_regs (snd (edges emu_wire (turn (olddir (sw_port s)) SWDIO_STATUS_DRIVE) (swd_dev (sw_port s))))"

definition emu_line_ok :: "emu_swd \<Rightarrow> bool" where
  "emu_line_ok s \<longleftrightarrow> clock_low (sw_port s) \<and> slave_idle (snd (edges emu_wire (turn (olddir (sw_port s)) SWDIO_STATUS_DRIVE) (swd_dev (sw_port s)))) \<and>
     sw_fault s = 0 \<and> shim_ok (emu_line s)"

definition emu_line_sel :: "emu_swd \<Rightarrow> bool" where
  "emu_line_sel s \<longleftrightarrow> emu_line_ok s \<and> shim_sel (emu_line s) \<and> (ucast (g_select (emu_line s)) :: u16) AND 0xf0 = 0"

definition emu_swd_ops :: "nat \<Rightarrow> emu_swd dp_ops" where
  "emu_swd_ops n = swd_ops (swdptap_init emu_wire) (Suc n)"

lemma ack3_ok: "ack3 (\<lambda>_ _ _. SWDP_ACK_OK) rnw a r = SWDP_ACK_OK"
  by (simp add: ack3_def)

lemma line_state:
  "swd_bus.state emu_wire olddir swd_dev sl_regs (sw_port s) = emu_line s"
  "swd_bus.free clock_low emu_wire olddir swd_dev slave_idle (sw_port s) \<longleftrightarrow>
    clock_low (sw_port s) \<and> slave_idle (snd (edges emu_wire (turn (olddir (sw_port s)) SWDIO_STATUS_DRIVE) (swd_dev (sw_port s))))"
  unfolding emu_line_def emu_wire_def gpio_slave.state_def gpio_slave.free_def by simp_all

lemma emu_ops_low: "dp_low_access (emu_swd_ops n) rnw addr v s = no_exception (firmware_swdp_low_access (swdptap_init emu_wire) (Suc n) rnw addr v s)"
  by (simp add: emu_swd_ops_def swd_ops_def swd_dp_ops_def)

lemma emu_swd_read:
  assumes "emu_line_ok s" "emu_shim_low_access ADIV5_LOW_READ (emu_reg (reg_of addr) (emu_line s)) 0 (emu_line s) = Some (x, r)" "shim_ok r"
  shows "\<exists>s'. dp_low_access (emu_swd_ops n) ADIV5_LOW_READ addr v s = Some (x, s') \<and> emu_line_ok s' \<and> emu_line s' = r"
proof -
  have f: "swd_bus.free clock_low emu_wire olddir swd_dev slave_idle (sw_port s)" "sw_fault s = 0" using assms(1) by (simp_all add: line_state emu_line_ok_def)
  have "emu_rd (reg_of addr) (emu_line s) = (x, r)" using assms(2) by (simp add: emu_rd_def)
  then obtain p where p: "firmware_swdp_low_access (swdptap_init emu_wire) (Suc n) ADIV5_LOW_READ addr v s = Some (Inr x, s\<lparr>sw_port := p\<rparr>)"
    "swd_bus.free clock_low emu_wire olddir swd_dev slave_idle p" "swd_bus.state emu_wire olddir swd_dev sl_regs p = r"
    using gpio_slave.access_read [of "\<lambda>_ _ _. SWDP_ACK_OK" emu_rd emu_wr s addr ADIV5_LOW_READ n v, folded emu_wire_def, OF f(1) ack3_ok] f(2)
    unfolding line_state by auto
  then show ?thesis using f(2) assms(3) line_state [of "s\<lparr>sw_port := p\<rparr>"] unfolding emu_ops_low
    by (intro exI [of _ "s\<lparr>sw_port := p\<rparr>"]) (simp add: no_exception_def emu_line_ok_def)
qed

lemma emu_swd_write:
  assumes "emu_line_ok s" "emu_shim_low_access ADIV5_LOW_WRITE (emu_reg (reg_of addr) (emu_line s)) v (emu_line s) = Some (x, r)" "shim_ok r"
  shows "\<exists>s'. dp_low_access (emu_swd_ops n) ADIV5_LOW_WRITE addr v s = Some (0, s') \<and> emu_line_ok s' \<and> emu_line s' = r"
proof -
  have f: "swd_bus.free clock_low emu_wire olddir swd_dev slave_idle (sw_port s)" "sw_fault s = 0" using assms(1) by (simp_all add: line_state emu_line_ok_def)
  have "emu_wr (reg_of addr) v (emu_line s) = r" using assms(2) by (simp add: emu_wr_def)
  then obtain p where p: "firmware_swdp_low_access (swdptap_init emu_wire) (Suc n) ADIV5_LOW_WRITE addr v s = Some (Inr 0, s\<lparr>sw_port := p\<rparr>)"
    "swd_bus.free clock_low emu_wire olddir swd_dev slave_idle p" "swd_bus.state emu_wire olddir swd_dev sl_regs p = r"
    using gpio_slave.access_write [of "\<lambda>_ _ _. SWDP_ACK_OK" emu_rd emu_wr s addr n v, folded emu_wire_def, OF f(1) ack3_ok] f(2)
    unfolding line_state by auto
  then show ?thesis using f(2) assms(3) line_state [of "s\<lparr>sw_port := p\<rparr>"] unfolding emu_ops_low
    by (intro exI [of _ "s\<lparr>sw_port := p\<rparr>"]) (simp add: no_exception_def emu_line_ok_def)
qed

lemma emu_reg_bank0:
  "(ucast (g_select r) :: u16) AND 0xf0 = 0 \<Longrightarrow> addr \<in> {0x100, 0x104, 0x10c} \<Longrightarrow> emu_reg (reg_of addr) r = addr"
  "addr \<in> {0x0, 0x4, 0x8, 0xc} \<Longrightarrow> emu_reg (reg_of addr) r = addr"
  by (auto simp: emu_reg_def reg_of_def)

lemma emu_keep_select:
  assumes "emu_shim_low_access rnw addr v r = Some (x, r')" "addr AND ADIV5_APnDP \<noteq> 0"
  shows "g_select r' = g_select r"
  using assms by (auto simp: emu_shim_low_access_def ap_reg_read_def ap_reg_write_def tar_autoinc_def Let_def split: if_splits bind_splits)

lemma emu_swd_ap:
  assumes "emu_line_sel s" "addr \<in> {0x100, 0x104, 0x10c}" "shim_sel r"
  shows "emu_shim_low_access ADIV5_LOW_READ addr 0 (emu_line s) = Some (x, r) \<Longrightarrow>
      \<exists>s'. dp_low_access (emu_swd_ops n) ADIV5_LOW_READ addr 0 s = Some (x, s') \<and> emu_line_sel s' \<and> emu_line s' = r"
    and "emu_shim_low_access ADIV5_LOW_WRITE addr v (emu_line s) = Some (x, r) \<Longrightarrow>
      \<exists>s'. dp_low_access (emu_swd_ops n) ADIV5_LOW_WRITE addr v s = Some (0, s') \<and> emu_line_sel s' \<and> emu_line s' = r"
proof -
  have l: "emu_line_ok s" "(ucast (g_select (emu_line s)) :: u16) AND 0xf0 = 0" using assms(1) by (simp_all add: emu_line_sel_def)
  have k: "emu_reg (reg_of addr) (emu_line s) = addr" "addr AND ADIV5_APnDP \<noteq> 0" "shim_ok r"
    using emu_reg_bank0(1) [OF l(2) assms(2)] assms(2,3) by (auto simp: shim_sel_def)
  show "\<exists>s'. dp_low_access (emu_swd_ops n) ADIV5_LOW_READ addr 0 s = Some (x, s') \<and> emu_line_sel s' \<and> emu_line s' = r"
    if "emu_shim_low_access ADIV5_LOW_READ addr 0 (emu_line s) = Some (x, r)"
    using emu_swd_read [OF l(1) _ k(3), of addr x n 0] that emu_keep_select [OF that k(2)] l(2) assms(3) unfolding k(1) by (auto simp: emu_line_sel_def)
  show "\<exists>s'. dp_low_access (emu_swd_ops n) ADIV5_LOW_WRITE addr v s = Some (0, s') \<and> emu_line_sel s' \<and> emu_line s' = r"
    if "emu_shim_low_access ADIV5_LOW_WRITE addr v (emu_line s) = Some (x, r)"
    using emu_swd_write [OF l(1) _ k(3), of addr v x n] that emu_keep_select [OF that k(2)] l(2) assms(3) unfolding k(1) by (auto simp: emu_line_sel_def)
qed

lemma emu_swd_rdbuff:
  assumes "emu_line_sel s"
  shows "\<exists>s'. dp_low_access (emu_swd_ops n) ADIV5_LOW_READ ADIV5_DP_RDBUFF 0 s = Some (g_posted (emu_line s), s') \<and> emu_line_sel s' \<and> emu_line s' = emu_line s"
proof -
  have "emu_shim_low_access ADIV5_LOW_READ (emu_reg (reg_of ADIV5_DP_RDBUFF) (emu_line s)) 0 (emu_line s) = Some (g_posted (emu_line s), emu_line s)"
    using emu_reg_bank0(2) [of ADIV5_DP_RDBUFF] by (simp add: emu_shim_low_access_def)
  then show ?thesis using emu_swd_read [of s ADIV5_DP_RDBUFF _ _ n 0] assms by (auto simp: emu_line_sel_def shim_sel_def)
qed

lemma emu_swd_select:
  assumes "emu_line_ok s"
  shows "\<exists>s'. dp_low_access (emu_swd_ops n) ADIV5_LOW_WRITE ADIV5_DP_SELECT (ap_select_word emu_ap ADIV5_AP_CSW) s = Some (0, s') \<and>
    emu_line_sel s' \<and> tgt (emu_line s') = tgt (emu_line s)"
proof -
  let ?v = "ap_select_word emu_ap ADIV5_AP_CSW" and ?r = "emu_line s"
  have "emu_shim_low_access ADIV5_LOW_WRITE (emu_reg (reg_of ADIV5_DP_SELECT) ?r) ?v ?r = Some (0, ?r\<lparr>g_select := ?v\<rparr>)"
    using emu_reg_bank0(2) [of ADIV5_DP_SELECT] by (simp add: emu_shim_low_access_def)
  moreover have "shim_ok (?r\<lparr>g_select := ?v\<rparr>)" using assms by (simp add: emu_line_ok_def shim_ok_def)
  ultimately obtain s' where s': "dp_low_access (emu_swd_ops n) ADIV5_LOW_WRITE ADIV5_DP_SELECT ?v s = Some (0, s')" "emu_line_ok s'" "emu_line s' = ?r\<lparr>g_select := ?v\<rparr>"
    using emu_swd_write [OF assms, of ADIV5_DP_SELECT ?v] by blast
  have "(ucast ?v :: u16) AND 0xf0 = 0" by (simp add: ap_select_word_def emu_ap_def)
  then show ?thesis using s' emu_select_word [of ADIV5_AP_CSW] by (auto simp: emu_line_sel_def shim_sel_def emu_line_ok_def)
qed

interpretation emu_swd_bus: mem_ap "emu_swd_ops n" emu_ap emu_line_ok emu_line_sel "\<lambda>s. g_tar (emu_line s)" "\<lambda>s. g_csw (emu_line s)"
  "\<lambda>s. g_posted (emu_line s)" "\<lambda>s. tgt (emu_line s)" emu_target_load emu_target_store
proof unfold_locales
  fix s :: emu_swd and v
  show "emu_line_sel s \<Longrightarrow> emu_line_ok s" by (simp add: emu_line_sel_def)
  show "emu_line_ok s \<Longrightarrow> dp_fault_of (emu_swd_ops n) s \<noteq> SWDP_ACK_NO_RESPONSE" by (simp add: emu_line_ok_def emu_swd_ops_def swd_ops_def swd_dp_ops_def)
  show "emu_line_ok s \<Longrightarrow> \<exists>x s'. dp_low_access (emu_swd_ops n) ADIV5_LOW_WRITE ADIV5_DP_SELECT (ap_select_word emu_ap ADIV5_AP_CSW) s = Some (x, s') \<and>
      emu_line_sel s' \<and> tgt (emu_line s') = tgt (emu_line s)" using emu_swd_select by blast
  show "emu_line_sel s \<Longrightarrow> \<exists>x s'. dp_low_access (emu_swd_ops n) ADIV5_LOW_WRITE ADIV5_AP_CSW v s = Some (x, s') \<and>
      emu_line_sel s' \<and> g_csw (emu_line s') = v \<and> tgt (emu_line s') = tgt (emu_line s)"
    using emu_swd_ap(2) [of s ADIV5_AP_CSW "(emu_line s)\<lparr>g_csw := v\<rparr>" v 0 n]
    by (auto simp: emu_line_sel_def shim_sel_def shim_ok_def emu_shim_low_access_def ap_reg_write_def)
  show "emu_line_sel s \<Longrightarrow> \<exists>x s'. dp_low_access (emu_swd_ops n) ADIV5_LOW_WRITE ADIV5_AP_TAR v s = Some (x, s') \<and>
      emu_line_sel s' \<and> g_tar (emu_line s') = v \<and> g_csw (emu_line s') = g_csw (emu_line s) \<and> tgt (emu_line s') = tgt (emu_line s)"
    using emu_swd_ap(2) [of s ADIV5_AP_TAR "(emu_line s)\<lparr>g_tar := v\<rparr>" v 0 n]
    by (auto simp: emu_line_sel_def shim_sel_def shim_ok_def emu_shim_low_access_def ap_reg_write_def)
  show "emu_line_sel s \<Longrightarrow> \<exists>s'. dp_low_access (emu_swd_ops n) ADIV5_LOW_READ ADIV5_DP_RDBUFF 0 s = Some (g_posted (emu_line s), s') \<and>
      emu_line_sel s' \<and> tgt (emu_line s') = tgt (emu_line s)" using emu_swd_rdbuff by fastforce
  show "\<exists>x s'. dp_read (emu_swd_ops n) ADIV5_DP_RDBUFF s = Some (x, s') \<and> emu_line_sel s' \<and> tgt (emu_line s') = tgt (emu_line s)" if sel: "emu_line_sel s"
  proof -
    obtain s' where s': "dp_low_access (emu_swd_ops n) ADIV5_LOW_READ ADIV5_DP_RDBUFF 0 s = Some (g_posted (emu_line s), s')" "emu_line_sel s'" "emu_line s' = emu_line s"
      using emu_swd_rdbuff [OF sel] by blast
    moreover have "dp_low_access (swd_dp_ops (swdptap_init emu_wire) (Suc n) rdf) = dp_low_access (emu_swd_ops n)" for rdf
      by (simp add: emu_swd_ops_def swd_ops_def swd_dp_ops_def)
    moreover have "dp_read (emu_swd_ops n) = firmware_swdp_read (swd_dp_ops (swdptap_init emu_wire) (Suc n) (\<lambda>_ _. None))" "dp_fault_of (swd_dp_ops (swdptap_init emu_wire) (Suc n) rdf) = sw_fault" for rdf
      by (simp_all add: emu_swd_ops_def swd_ops_def swd_dp_ops_def)
    moreover have "sw_fault s' = 0" using s'(2) by (simp add: emu_line_sel_def emu_line_ok_def)
    ultimately show ?thesis by (simp add: firmware_swdp_read_def adiv5_dp_recoverable_access_def)
  qed
next
  fix s :: emu_swd and al v
  assume s: "emu_line_sel s" and h: "al \<noteq> ALIGN_64BIT" "g_csw (emu_line s) = csw_for emu_ap al" "emu_target_load (g_tar (emu_line s)) (acc_size al) (tgt (emu_line s)) = Some v"
  have "shim_sel (emu_line s)" using s by (simp add: emu_line_sel_def)
  from emu_bus.read_drw [OF this h] obtain r where r: "emu_shim_low_access ADIV5_LOW_READ ADIV5_AP_DRW 0 (emu_line s) = Some (g_posted (emu_line s), r)"
    "shim_sel r" "g_csw r = g_csw (emu_line s)" "tgt r = tgt (emu_line s)" "g_posted r = push_bit (lane_shift (g_tar (emu_line s)) (acc_size al)) v"
    "g_tar r = tar_next (g_tar (emu_line s)) (acc_size al)" by auto
  then show "\<exists>s'. dp_low_access (emu_swd_ops n) ADIV5_LOW_READ ADIV5_AP_DRW 0 s = Some (g_posted (emu_line s), s') \<and>
          emu_line_sel s' \<and> g_csw (emu_line s') = g_csw (emu_line s) \<and> tgt (emu_line s') = tgt (emu_line s) \<and>
          g_posted (emu_line s') = push_bit (lane_shift (g_tar (emu_line s)) (acc_size al)) v \<and>
          g_tar (emu_line s') = tar_next (g_tar (emu_line s)) (acc_size al)"
    using emu_swd_ap(1) [OF s _ r(2), of ADIV5_AP_DRW _ n] by auto
next
  fix s :: emu_swd and al v m'
  assume s: "emu_line_sel s" and h: "al \<noteq> ALIGN_64BIT" "g_csw (emu_line s) = csw_for emu_ap al"
    "emu_target_store (g_tar (emu_line s)) (drop_bit (lane_shift (g_tar (emu_line s)) (acc_size al)) v AND size_mask (acc_size al)) (acc_size al) (tgt (emu_line s)) = Some m'"
  have "shim_sel (emu_line s)" using s by (simp add: emu_line_sel_def)
  from emu_bus.write_drw [OF this h] obtain x r where r: "emu_shim_low_access ADIV5_LOW_WRITE ADIV5_AP_DRW v (emu_line s) = Some (x, r)"
    "shim_sel r" "g_csw r = g_csw (emu_line s)" "tgt r = m'" "g_tar r = tar_next (g_tar (emu_line s)) (acc_size al)" by auto
  then show "\<exists>x s'. dp_low_access (emu_swd_ops n) ADIV5_LOW_WRITE ADIV5_AP_DRW v s = Some (x, s') \<and>
          emu_line_sel s' \<and> g_csw (emu_line s') = g_csw (emu_line s) \<and> tgt (emu_line s') = m' \<and>
          g_tar (emu_line s') = tar_next (g_tar (emu_line s)) (acc_size al)"
    using emu_swd_ap(2) [OF s _ r(2), of ADIV5_AP_DRW v _ n] by auto
qed (auto intro: emu_load_total)

subsection \<open>Access through the pins\<close>

lemma gpio_swd: "swd_target w idle regs ack rd wr \<Longrightarrow> swd_bus (swdptap_init w) clock_low w olddir swd_dev idle regs ack rd wr"
  by (intro swd_bus.intro swd_gpio.swd_port_axioms)

text \<open>The line is free and with the probe.\<close>

definition line_free :: "('d \<Rightarrow> bool) \<Rightarrow> 'd swd_pins \<Rightarrow> bool" where
  "line_free idle p \<longleftrightarrow> clock_low p \<and> olddir p = SWDIO_STATUS_DRIVE \<and> idle (swd_dev p)"

lemma line_free_bus:
  assumes "swd_target w idle regs ack rd wr" "olddir p = SWDIO_STATUS_DRIVE"
  shows "swd_bus.free clock_low w olddir swd_dev idle p \<longleftrightarrow> line_free idle p" "swd_bus.state w olddir swd_dev regs p = regs (swd_dev p)"
  using swd_bus.free_driven [OF gpio_swd [OF assms(1)] assms(2)] assms(2) by (simp_all add: line_free_def)

text \<open>C21: An access of the debug port over the bit-banged SWD port reads or writes the register of the device: for every
  device that keeps the protocol and answers OK, a read returns what the register holds, a write stores its word, and
  the line is free for the next access.\<close>

theorem swd_register_access:
  assumes "swd_target w idle regs ack rd wr" "line_free idle (sw_port s)" "addr AND ADIV5_APnDP = 0 \<or> sw_fault s = 0"
  shows "(ack True (reg_of addr) (regs (swd_dev (sw_port s))) = SWDP_ACK_OK \<longrightarrow>
      (\<exists>p. firmware_swdp_low_access (swdptap_init w) (Suc n) ADIV5_LOW_READ addr v s = Some (Inr (fst (rd (reg_of addr) (regs (swd_dev (sw_port s))))), s\<lparr>sw_port := p\<rparr>) \<and>
        line_free idle p \<and> regs (swd_dev p) = snd (rd (reg_of addr) (regs (swd_dev (sw_port s)))))) \<and>
    (ack False (reg_of addr) (regs (swd_dev (sw_port s))) = SWDP_ACK_OK \<longrightarrow>
      (\<exists>p. firmware_swdp_low_access (swdptap_init w) (Suc n) ADIV5_LOW_WRITE addr v s = Some (Inr 0, s\<lparr>sw_port := p\<rparr>) \<and>
        line_free idle p \<and> regs (swd_dev p) = wr (reg_of addr) v (regs (swd_dev (sw_port s)))))"
proof -
  note bus = gpio_swd [OF assms(1)] and lf = line_free_bus [OF assms(1)]
  have d: "olddir (sw_port s) = SWDIO_STATUS_DRIVE" using assms(2) by (simp add: line_free_def)
  have f: "swd_bus.free clock_low w olddir swd_dev idle (sw_port s)" using assms(2) by (simp add: lf(1) [OF d])
  note st = lf(2) [OF d]
  show ?thesis
  proof (intro conjI impI)
    assume "ack True (reg_of addr) (regs (swd_dev (sw_port s))) = SWDP_ACK_OK"
    then show "\<exists>p. firmware_swdp_low_access (swdptap_init w) (Suc n) ADIV5_LOW_READ addr v s = Some (Inr (fst (rd (reg_of addr) (regs (swd_dev (sw_port s))))), s\<lparr>sw_port := p\<rparr>) \<and>
        line_free idle p \<and> regs (swd_dev p) = snd (rd (reg_of addr) (regs (swd_dev (sw_port s))))"
      using swd_bus.access_read [OF bus f, unfolded st, OF _ assms(3), of ADIV5_LOW_READ n v] lf by (metis zero_neq_one)
  next
    assume "ack False (reg_of addr) (regs (swd_dev (sw_port s))) = SWDP_ACK_OK"
    then show "\<exists>p. firmware_swdp_low_access (swdptap_init w) (Suc n) ADIV5_LOW_WRITE addr v s = Some (Inr 0, s\<lparr>sw_port := p\<rparr>) \<and>
        line_free idle p \<and> regs (swd_dev p) = wr (reg_of addr) v (regs (swd_dev (sw_port s)))"
      using swd_bus.access_write [OF bus f, unfolded st, OF _ assms(3), of n v] lf by metis
  qed
qed

text \<open>A device with one register that counts its reads, and that asks for time at the access port.\<close>

definition counter_wire :: "u32 swd_slave swd_wire" where
  "counter_wire = slave_wire (ack3 (\<lambda>rnw a r. if a AND 0x100 \<noteq> 0 then SWDP_ACK_WAIT else SWDP_ACK_OK)) (\<lambda>a r. (r, r + 1)) (\<lambda>a v r. v)"

definition counter_pins :: "u32 swd_slave swd_pins swd_dp" where
  "counter_pins = \<lparr>sw_port = \<lparr>swclk = False, swdio = False, olddir = SWDIO_STATUS_DRIVE, swd_clk_divider = 0, swd_dev = \<lparr>sl_phase = Await [], sl_regs = 41\<rparr>\<rparr>,
     sw_fault = 0, sw_version = 1, sw_instance = 0, sw_targetsel = 0, sw_expired = [False, True], sw_mallocs = []\<rparr>"

lemma counter_free: "line_free slave_idle (sw_port counter_pins)"
  by (simp add: line_free_def counter_pins_def clock_low_def slave_idle_def)

theorem swd_register_access_witness:
  "(\<exists>p. firmware_swdp_low_access (swdptap_init counter_wire) 1 ADIV5_LOW_READ 4 0 counter_pins = Some (Inr 41, counter_pins\<lparr>sw_port := p\<rparr>) \<and>
      line_free slave_idle p \<and> sl_regs (swd_dev p) = 42) \<and>
   (\<exists>p. firmware_swdp_low_access (swdptap_init counter_wire) 1 ADIV5_LOW_WRITE 4 0 counter_pins = Some (Inr 0, counter_pins\<lparr>sw_port := p\<rparr>) \<and>
      line_free slave_idle p \<and> sl_regs (swd_dev p) = 0)"
  using swd_register_access [OF slave.swd_target_axioms counter_free, of 4 "\<lambda>rnw a r. if a AND 0x100 \<noteq> 0 then SWDP_ACK_WAIT else SWDP_ACK_OK"
      "\<lambda>a r. (r, r + 1)" "\<lambda>a v r. v" 0 0, folded counter_wire_def]
  by (simp add: ack3_def reg_of_def counter_pins_def del: firmware_swdp_low_access.simps)

text \<open>C22: A device that answers every request for a register with WAIT is asked again until the time-out of the access
  has expired; the access is then aborted through the abort register, its result is 0, and the fault of the port is
  WAIT, so that accesses to access ports are refused from then on.\<close>

theorem swd_access_times_out:
  assumes "swd_target w idle regs ack rd wr" "line_free idle (sw_port s)" "addr AND ADIV5_APnDP = 0 \<or> sw_fault s = 0"
    and "ack (rnw \<noteq> 0) (reg_of addr) (regs (swd_dev (sw_port s))) = SWDP_ACK_WAIT" "ack False 0 (regs (swd_dev (sw_port s))) = SWDP_ACK_OK"
    and "sw_expired s = replicate k False @ True # es" "k \<le> Suc n" "addr' AND ADIV5_APnDP \<noteq> 0"
  shows "\<exists>p. let s' = s\<lparr>sw_port := p, sw_expired := es, sw_fault := SWDP_ACK_WAIT\<rparr> in
    firmware_swdp_low_access (swdptap_init w) (Suc (Suc n)) rnw addr v s = Some (Inr 0, s') \<and>
    line_free idle p \<and> regs (swd_dev p) = wr 0 ADIV5_DP_ABORT_DAPABORT (regs (swd_dev (sw_port s))) \<and>
    firmware_swdp_low_access (swdptap_init w) (Suc n) rnw' addr' v' s' = Some (Inr 0, s')"
proof -
  note bus = gpio_swd [OF assms(1)] and lf = line_free_bus [OF assms(1)]
  have d: "olddir (sw_port s) = SWDIO_STATUS_DRIVE" using assms(2) by (simp add: line_free_def)
  have f: "swd_bus.free clock_low w olddir swd_dev idle (sw_port s)" using assms(2) by (simp add: lf(1) [OF d])
  note st = lf(2) [OF d]
  obtain p where p: "firmware_swdp_low_access (swdptap_init w) (Suc (Suc n)) rnw addr v s = Some (Inr 0, s\<lparr>sw_port := p, sw_expired := es, sw_fault := SWDP_ACK_WAIT\<rparr>)"
    "line_free idle p" "regs (swd_dev p) = wr 0 ADIV5_DP_ABORT_DAPABORT (regs (swd_dev (sw_port s)))"
    using swd_bus.access_wait [OF bus f, unfolded st, OF assms(4,5,3,6,7), of v] lf by metis
  then show ?thesis using assms(8) unfolding Let_def
    by (intro exI [of _ p] conjI) (simp_all only: firmware_swdp_low_access.simps(2) [of _ n], simp)
qed

theorem swd_access_times_out_witness:
  "\<exists>p. let s' = counter_pins\<lparr>sw_port := p, sw_expired := [], sw_fault := SWDP_ACK_WAIT\<rparr> in
    firmware_swdp_low_access (swdptap_init counter_wire) (Suc (Suc 0)) ADIV5_LOW_READ ADIV5_AP_DRW 0 counter_pins = Some (Inr 0, s') \<and>
    line_free slave_idle p \<and> sl_regs (swd_dev p) = ADIV5_DP_ABORT_DAPABORT \<and>
    firmware_swdp_low_access (swdptap_init counter_wire) (Suc 0) ADIV5_LOW_READ ADIV5_AP_DRW 0 s' = Some (Inr 0, s')"
  unfolding counter_wire_def
  by (rule swd_access_times_out [OF slave.swd_target_axioms counter_free, where k = 1]) (simp_all add: ack3_def reg_of_def counter_pins_def)

text \<open>C23: A scan of a line that nothing drives, given as the edges it clocks. After the way out of the dormant state it
  reads the identification register, gets no response, takes the line back, switches as older devices need it from
  JTAG, and reads the register once more; after the second missing response it ends: the result is failure, the fault
  of the port is no response, and the targets are those that freeing the list leaves. Only when its port cannot be
  allocated is the line not touched.\<close>

theorem swd_scan_empty_line:
  assumes "\<forall>d. wire_level w d" "clock_low (sw_port s)" "sx_target_list_free ext x = Some y"
  shows "\<exists>s'. adiv5_swd_scan (swdptap_init w) (Suc n) ext 0 s x = Some ((False, s'), y) \<and>
    (if fst (sw_calloc s)
     then sw_fault s' = SWDP_ACK_NO_RESPONSE \<and>
       swd_dev (sw_port s') = snd (edges w (turn (olddir (sw_port s)) SWDIO_STATUS_DRIVE @ dormant_edges @ request_edges True ADIV5_DP_DPIDR @
         None # jtag_edges @ request_edges True ADIV5_DP_DPIDR) (swd_dev (sw_port s)))
     else s' = snd (sw_calloc s))"
proof (cases "fst (sw_calloc s)")
  case True
  then show ?thesis using swd_gpio.empty_scan [OF assms True] by simp
next
  case False
  then show ?thesis using assms(3) by (simp add: adiv5_swd_scan_def split_beta Let_def)
qed

text \<open>A line with a counter of edges: both attempts are clocked.\<close>

definition edge_wire :: "nat swd_wire" where
  "edge_wire = \<lparr>wire_level = (\<lambda>_. True), wire_rise = (\<lambda>_ d. Suc d)\<rparr>"

lemma edge_count: "snd (edges edge_wire es d) = d + length es"
  by (induction es arbitrary: d) (simp_all add: edge_wire_def split_beta Let_def)

theorem swd_scan_empty_line_witness:
  "\<exists>s'. adiv5_swd_scan (swdptap_init edge_wire) (Suc 0)
     \<lparr>sx_target_list_free = (\<lambda>_. Some ()), sx_target_list = (\<lambda>_. False), sx_dp_init = (\<lambda>s x. Some (s, x))\<rparr> 0
     \<lparr>sw_port = \<lparr>swclk = False, swdio = False, olddir = SWDIO_STATUS_FLOAT, swd_clk_divider = 0, swd_dev = 0\<rparr>,
      sw_fault = 0, sw_version = 0, sw_instance = 0, sw_targetsel = 0, sw_expired = [], sw_mallocs = []\<rparr> () = Some ((False, s'), ()) \<and>
     sw_fault s' = SWDP_ACK_NO_RESPONSE \<and> swd_dev (sw_port s') = 430"
proof -
  have l: "length dormant_edges = 264" "length jtag_edges = 140" "length (request_edges True ADIV5_DP_DPIDR) = 12"
    by (simp_all add: dormant_edges_def jtag_edges_def line_reset_edges_def wbits_def request_edges_def request_bits_def)
  show ?thesis
    using swd_scan_empty_line [of edge_wire "\<lparr>sw_port = \<lparr>swclk = False, swdio = False, olddir = SWDIO_STATUS_FLOAT, swd_clk_divider = 0, swd_dev = 0\<rparr>,
        sw_fault = 0, sw_version = 0, sw_instance = 0, sw_targetsel = 0, sw_expired = [], sw_mallocs = []\<rparr>"
      "\<lparr>sx_target_list_free = (\<lambda>_. Some ()), sx_target_list = (\<lambda>_. False), sx_dp_init = (\<lambda>s x. Some (s, x))\<rparr>" "()" "()" 0]
    unfolding edge_count by (simp add: clock_low_def sw_calloc_def turn_def l) (simp add: edge_wire_def)
qed

subsection \<open>Memory of the emulated target\<close>

lemma read_chunks_all:
  assumes "flash_range a len \<or> sram_range a len" "al = MIN_ALIGN a (of_nat len)"
  shows "len < 2 ^ 32" "len div unat (acc_size al) * unat (acc_size al) = len"
    "read_chunks emu_target_load m (acc_size al) a (len div unat (acc_size al)) = map (\<lambda>j. mem_at m (a + of_nat j)) [0..<len]"
proof -
  show len: "len < 2 ^ 32" using assms(1) by (auto simp: flash_range_def sram_range_def)
  show d: "len div unat (acc_size al) * unat (acc_size al) = len"
    using MIN_ALIGN_len [OF len, of a] unfolding assms(2) by (metis add.right_neutral div_mult_mod_eq)
  show "read_chunks emu_target_load m (acc_size al) a (len div unat (acc_size al)) = map (\<lambda>j. mem_at m (a + of_nat j)) [0..<len]"
    using read_chunks_mem [OF MIN_ALIGN_access(1) [of a "of_nat len"], of "len div unat (acc_size al)" m] assms(1) d unfolding assms(2) by simp
qed

lemma sram_updated_at:
  assumes "sram_range a (length bs)" "j < length bs"
  shows "mem_at (sram_updated (unat (a - EMU_SRAM_BASE)) bs m) (a + of_nat j) = bs ! j"
proof -
  have r: "in_sram a" "unat a + length bs \<le> 536891392" using assms by (auto simp: sram_range_def)
  have u: "unat (a + of_nat j) = unat a + j" using r assms(2) by (simp add: unat_word_ariths unat_of_nat)
  have b: "unat (a - EMU_SRAM_BASE) = unat a - 536870912" "536870912 \<le> unat a" using r(1) by (auto simp: in_sram_iff word_le_nat_alt unat_sub)
  have "unat (a + of_nat j - EMU_SRAM_BASE) = unat a + j - 536870912" using u b(2) by (simp add: word_le_nat_alt unat_sub)
  moreover have "\<not> in_flash (a + of_nat j)" using u b(2) by (simp add: in_flash_iff)
  moreover have "unat a - 536870912 \<le> unat a + j - 536870912" "unat a + j - 536870912 < unat a - 536870912 + length bs" "unat a + j - 536870912 - (unat a - 536870912) = j"
    using b(2) assms(2) by simp_all
  ultimately show ?thesis using b(1) by (simp add: mem_at_def sram_updated_def)
qed

text \<open>C16: Memory of the emulated target is reached through the pins: with the registers of the emulated target behind an
  SWD line, a block written to its SRAM through the bit-banged port arrives there and nowhere else, and reading the
  block back, or any block of flash or SRAM, returns what the memory holds.\<close>

theorem emu_swd_memory:
  assumes "emu_line_ok s" "sram_range a (length bs)" "flash_range a' len \<or> sram_range a' len"
  shows "\<exists>s1 s2 s3. adiv5_mem_write (emu_swd_ops n) emu_ap a bs (length bs) s = Some s1 \<and>
    tgt (emu_line s1) = sram_updated (unat (a - EMU_SRAM_BASE)) bs (tgt (emu_line s)) \<and>
    advi5_mem_read_bytes (emu_swd_ops n) emu_ap a (length bs) s1 = Some (bs, s2) \<and>
    advi5_mem_read_bytes (emu_swd_ops n) emu_ap a' len s2 = Some (map (\<lambda>j. mem_at (tgt (emu_line s1)) (a' + of_nat j)) [0..<len], s3) \<and>
    emu_line_ok s3 \<and> tgt (emu_line s3) = tgt (emu_line s1)"
proof -
  let ?al = "MIN_ALIGN a (of_nat (length bs))" and ?m = "sram_updated (unat (a - EMU_SRAM_BASE)) bs (tgt (emu_line s))"
  note c = read_chunks_all [OF disjI2 [OF assms(2)] refl]
  have "store_chunks emu_target_store (acc_size ?al) (length bs div unat (acc_size ?al)) a bs (tgt (emu_line s)) = Some ?m"
    using store_chunks_sram [OF MIN_ALIGN_access(1) [of a "of_nat (length bs)"], of "length bs div unat (acc_size ?al)" bs "tgt (emu_line s)"] assms(2) c(2) by simp
  then obtain s1 where s1: "adiv5_mem_write (emu_swd_ops n) emu_ap a bs (length bs) s = Some s1" "emu_line_ok s1" "tgt (emu_line s1) = ?m"
    using emu_swd_bus.block_write [OF assms(1) order_refl refl, where n = n and dest = a] by blast
  have "map (\<lambda>j. mem_at ?m (a + of_nat j)) [0..<length bs] = bs" by (rule nth_equalityI) (simp_all add: sram_updated_at [OF assms(2)])
  then obtain s2 where s2: "advi5_mem_read_bytes (emu_swd_ops n) emu_ap a (length bs) s1 = Some (bs, s2)" "emu_line_ok s2" "tgt (emu_line s2) = ?m"
    using emu_swd_bus.block_read [OF s1(2) c(1) refl, of n a] unfolding s1(3) c(3) by auto
  show ?thesis using emu_swd_bus.block_read [OF s2(2) read_chunks_all(1) [OF assms(3) refl] refl, of n a'] s1 s2
    unfolding s2(3) read_chunks_all(3) [OF assms(3) refl] by auto
qed

definition emu_pins :: emu_swd where
  "emu_pins = \<lparr>sw_port = \<lparr>swclk = False, swdio = False, olddir = SWDIO_STATUS_FLOAT, swd_clk_divider = 0, swd_dev = \<lparr>sl_phase = Send [True] None, sl_regs = shim_statics\<rparr>\<rparr>,
     sw_fault = 0, sw_version = 1, sw_instance = 0, sw_targetsel = 0, sw_expired = [], sw_mallocs = []\<rparr>"

theorem emu_swd_memory_witness:
  "\<exists>s1 s2 s3. adiv5_mem_write (emu_swd_ops 0) emu_ap 0x200003fe [1, 2, 3, 4] (length [1, 2, 3, 4 :: byte]) emu_pins = Some s1 \<and>
    tgt (emu_line s1) = sram_updated (unat (0x200003fe - EMU_SRAM_BASE)) [1, 2, 3, 4] (tgt (emu_line emu_pins)) \<and>
    advi5_mem_read_bytes (emu_swd_ops 0) emu_ap 0x200003fe (length [1, 2, 3, 4 :: byte]) s1 = Some ([1, 2, 3, 4], s2) \<and>
    advi5_mem_read_bytes (emu_swd_ops 0) emu_ap 0x8000000 16 s2 = Some (map (\<lambda>j. mem_at (tgt (emu_line s1)) (0x8000000 + of_nat j)) [0..<16], s3) \<and>
    emu_line_ok s3 \<and> tgt (emu_line s3) = tgt (emu_line s1)"
  by (rule emu_swd_memory)
    (simp_all add: emu_line_ok_def emu_line_def emu_pins_def clock_low_def turn_def emu_wire_def slave_rise_def slave_idle_def shim_ok_def shim_statics_def
      sram_range_def flash_range_def in_sram_iff in_flash_iff)

end
