(* ===== verification/Adiv5_Jtag.thy ===== *)
theory Adiv5_Jtag
  imports Adiv5 Jtag_Gpio
begin

text \<open>
  The debug port over JTAG, src/target/adiv5_jtag.c, on a device of the chain that jtag_scan.c keeps. The state is a
  record with the chain, the fields of adiv5_debug_port that these functions use, and whether the time-out has expired
  each time it is asked, after the last of these it has. The value of an access is Inl with the message of the
  exception it raises, or Inr with its result. None is what C gives no meaning to. The bytes of the response that the
  sequence does not write are not used; they are zero here.
\<close>

subsection \<open>Words of eight bytes\<close>

definition bytes_of_u64 :: "u64 \<Rightarrow> byte list" where
  "bytes_of_u64 v = bytes_of_u32 (ucast v) @ bytes_of_u32 (ucast (drop_bit 32 v))"

definition u64_of_bytes :: "byte list \<Rightarrow> u64" where
  "u64_of_bytes bs = ucast (u32_of_bytes (take 4 bs)) OR push_bit 32 (ucast (u32_of_bytes (take 4 (drop 4 bs))))"

subsection \<open>Access\<close>

record 'p jtag_dp =
  jt_chain :: "'p jtag"
  jt_dev_index :: u8
  jt_fault :: u8
  jt_designer_code :: u16
  jt_partno :: u16
  jt_expired :: "bool list"

abbreviation (input) JTAGDP_ACK_OK :: u8 where "JTAGDP_ACK_OK \<equiv> 2"
abbreviation (input) JTAGDP_ACK_WAIT :: u8 where "JTAGDP_ACK_WAIT \<equiv> 1"
abbreviation (input) IR_ABORT :: u32 where "IR_ABORT \<equiv> 8"
abbreviation (input) IR_DPACC :: u32 where "IR_DPACC \<equiv> 0xa"
abbreviation (input) IR_APACC :: u32 where "IR_APACC \<equiv> 0xb"

definition jtagdp_request :: "u8 \<Rightarrow> u16 \<Rightarrow> u32 \<Rightarrow> u64" where
  "jtagdp_request rnw addr val =
     (let addr = addr AND 0xff
      in push_bit 3 (ucast val) OR ucast (drop_bit 1 addr AND 6) OR (if rnw \<noteq> 0 then 1 else 0))"

text \<open>The loop over the outcomes of the time-out that are left.\<close>

primrec jtagdp_loop :: "'p jtag_proc \<Rightarrow> u8 \<Rightarrow> u64 \<Rightarrow> bool list \<Rightarrow> 'p jtag \<Rightarrow> (((u64 \<times> bool list) \<times> 'p jtag) option)" where
  "jtagdp_loop proc dev_index request [] s =
     do { (out, s) \<leftarrow> jtag_dev_shift_dr proc dev_index (Some (replicate 8 0)) (bytes_of_u64 request) 35 s;
          response \<leftarrow> map_option u64_of_bytes out;
          Some ((response, []), s) }"
| "jtagdp_loop proc dev_index request (expired # es) s =
     do { (out, s) \<leftarrow> jtag_dev_shift_dr proc dev_index (Some (replicate 8 0)) (bytes_of_u64 request) 35 s;
          response \<leftarrow> map_option u64_of_bytes out;
          let ack = (ucast response AND 7 :: u8);
          if \<not> expired \<and> ack = JTAGDP_ACK_WAIT then jtagdp_loop proc dev_index request es s else Some ((response, es), s) }"

definition adiv5_jtagdp_abort :: "'p jtag_proc \<Rightarrow> u32 \<Rightarrow> 'p jtag_dp \<Rightarrow> 'p jtag_dp option" where
  "adiv5_jtagdp_abort proc abort s =
     do { let request = push_bit 3 (ucast abort);
          c \<leftarrow> jtag_dev_write_ir proc (jt_dev_index s) IR_ABORT (jt_chain s);
          (_, c) \<leftarrow> jtag_dev_shift_dr proc (jt_dev_index s) None (bytes_of_u64 request) 35 c;
          Some (s\<lparr>jt_chain := c\<rparr>) }"

definition fw_adiv5_jtagdp_low_access :: "'p jtag_proc \<Rightarrow> u8 \<Rightarrow> u16 \<Rightarrow> u32 \<Rightarrow> 'p jtag_dp \<Rightarrow> ((string + u32) \<times> 'p jtag_dp) option" where
  "fw_adiv5_jtagdp_low_access proc rnw addr val s =
     do { let apndp = addr AND ADIV5_APnDP \<noteq> 0;
          let request = jtagdp_request rnw addr val;
          c \<leftarrow> jtag_dev_write_ir proc (jt_dev_index s) (if apndp then IR_APACC else IR_DPACC) (jt_chain s);
          ((response, es), c) \<leftarrow> jtagdp_loop proc (jt_dev_index s) request (jt_expired s) c;
          let s = s\<lparr>jt_chain := c, jt_expired := es\<rparr>;
          let result = ucast (drop_bit 3 response);
          let ack = (ucast response AND 7 :: u8);
          if ack = JTAGDP_ACK_WAIT
          then do { s \<leftarrow> adiv5_jtagdp_abort proc 1 s; Some (Inr 0, s\<lparr>jt_fault := 1\<rparr>) }
          else if ack \<noteq> JTAGDP_ACK_OK then Some (Inl ''JTAG-DP invalid ACK'', s)
          else Some (Inr result, s) }"

text \<open>These two go through the operations of the port.\<close>

definition fw_adiv5_jtagdp_read :: "'s dp_ops \<Rightarrow> u16 \<Rightarrow> 's \<Rightarrow> (u32 \<times> 's) option" where
  "fw_adiv5_jtagdp_read ops addr s =
     do { (_, s) \<leftarrow> dp_low_access ops ADIV5_LOW_READ addr 0 s;
          dp_low_access ops ADIV5_LOW_READ ADIV5_DP_RDBUFF 0 s }"

definition adiv5_jtagdp_error :: "'s dp_ops \<Rightarrow> bool \<Rightarrow> 's \<Rightarrow> (u32 \<times> 's) option" where
  "adiv5_jtagdp_error ops protocol_recovery s =
     do { (v, s) \<leftarrow> dp_read ops ADIV5_DP_CTRLSTAT s;
          let status = v AND 0xf0000032;
          let s = dp_fault_set ops 0 s;
          (v, s) \<leftarrow> dp_low_access ops ADIV5_LOW_WRITE ADIV5_DP_CTRLSTAT status s;
          Some (v AND 0x32, s) }"

subsection \<open>A device that was found\<close>

text \<open>The port as the handler of the device table sets it up, and what it does before adiv5_dp_init; heap says whether
  calloc succeeds.\<close>

definition jtag_dp_setup :: "u8 \<Rightarrow> bool list \<Rightarrow> 'p jtag \<Rightarrow> 'p jtag_dp option" where
  "jtag_dp_setup dev_index es c =
     do { d \<leftarrow> get_dev (unat dev_index) c;
          let idcode = jd_idcode d;
          let designer = (ucast (drop_bit 1 (idcode AND 0xffe)) :: u16);
          Some \<lparr>jt_chain = c, jt_dev_index = dev_index, jt_fault = 0,
                jt_designer_code = push_bit 1 (designer AND 0x780) OR (designer AND 0x7f),
                jt_partno = ucast (drop_bit 12 (idcode AND 0xffff000)), jt_expired = es\<rparr> }"

definition adiv5_jtag_dp_handler ::
  "'p jtag_proc \<Rightarrow> 'p jtag_dp dp_ops \<Rightarrow> bool \<Rightarrow> ('p jtag_dp \<Rightarrow> 'p jtag_dp option) \<Rightarrow> u8 \<Rightarrow> bool list \<Rightarrow> 'p jtag \<Rightarrow> ('p jtag \<times> bool list) option" where
  "adiv5_jtag_dp_handler proc ops heap dp_init dev_index es c =
     (if \<not> heap then Some (c, es)
      else do { s \<leftarrow> jtag_dp_setup dev_index es c;
                s \<leftarrow> (if jt_partno s = 0xba00 then do { (_, s) \<leftarrow> dp_error ops False s; Some s } else adiv5_jtagdp_abort proc 4 s);
                s \<leftarrow> dp_init s;
                Some (jt_chain s, jt_expired s) })"

subsection \<open>The bits of a request\<close>

definition bits64 :: "u64 \<Rightarrow> nat \<Rightarrow> bool list" where
  "bits64 v n = map (bit v) [0..<n]"

lemma length_bits64 [simp]: "length (bits64 v n) = n"
  by (simp add: bits64_def)

lemma bytes_of_u64_nth: "j < 8 \<Longrightarrow> bytes_of_u64 v ! j = ucast (drop_bit (8 * j) v)"
  by (auto simp: bytes_of_u64_def bytes_of_u32_def nth_append nth_Cons' numeral_eq_Suc less_Suc_eq bit_simps intro!: bit_word_eqI)

lemma length_bytes_of_u64 [simp]: "length (bytes_of_u64 v) = 8"
  by (simp add: bytes_of_u64_def)

lemma dbits_u64: "n \<le> 64 \<Longrightarrow> dbits (bytes_of_u64 v) n = bits64 v n"
proof (rule nth_equalityI)
  fix i
  assume n: "n \<le> 64" "i < length (dbits (bytes_of_u64 v) n)"
  then have i: "i div 8 < 8" "8 * (i div 8) + i mod 8 = i" "i < n" by (simp_all add: less_mult_imp_div_less)
  have "bit (bytes_of_u64 v ! (i div 8)) (i mod 8) = bit v (8 * (i div 8) + i mod 8)"
    unfolding bytes_of_u64_nth [OF i(1)] by (simp add: bit_simps)
  then show "dbits (bytes_of_u64 v) n ! i = bits64 v n ! i" using i by (simp add: dbits_def bits64_def)
qed simp

lemma bytes_of_u64_of: "u64_of_bytes (bytes_of_u64 v) = v"
  by (rule bit_word_eqI) (auto simp: u64_of_bytes_def bytes_of_u64_def bit_simps)

lemma pack_bits64:
  assumes "n \<le> 64"
  shows "pack_bits (bits64 v n) @ drop ((n + 7) div 8) (replicate 8 0) = bytes_of_u64 (take_bit n v)"
proof (rule nth_equalityI)
  have d: "(n + 7) div 8 \<le> 8" using assms by simp
  then show "length (pack_bits (bits64 v n) @ drop ((n + 7) div 8) (replicate 8 0)) = length (bytes_of_u64 (take_bit n v))"
    by (simp add: pack_bits_def)
  fix j
  assume j: "j < length (pack_bits (bits64 v n) @ drop ((n + 7) div 8) (replicate 8 0))"
  then have j8: "j < 8" using d by (simp add: pack_bits_def)
  show "(pack_bits (bits64 v n) @ drop ((n + 7) div 8) (replicate 8 0)) ! j = bytes_of_u64 (take_bit n v) ! j"
  proof (cases "j < (n + 7) div 8")
    case True
    have "chunk (bits64 v n) j = ucast (drop_bit (8 * j) (take_bit n v))"
      by (rule bit_word_eqI) (use assms in \<open>auto simp: chunk_def byte_of_bits_def bit_horner_sum_bit_word_iff bits64_def bit_simps\<close>)
    then show ?thesis using True bytes_of_u64_nth [OF j8] by (simp add: pack_bits_def nth_append)
  next
    case False
    have "ucast (drop_bit (8 * j) (take_bit n v)) = (0 :: byte)"
      by (rule bit_word_eqI) (use False in \<open>auto simp: bit_simps\<close>)
    then show ?thesis using False j8 bytes_of_u64_nth [OF j8] by (simp add: pack_bits_def nth_append)
  qed
qed

lemma response_fields:
  "(ucast (take_bit 35 r) AND 7 :: u8) = ucast r AND 7" "(ucast (drop_bit 3 (take_bit 35 r)) :: u32) = ucast (drop_bit 3 (r :: u64))"
proof -
  have m: "(7 :: u8) = mask 3" by (simp add: mask_eq_exp_minus_1)
  show "(ucast (take_bit 35 r) AND 7 :: u8) = ucast r AND 7" unfolding m by (rule bit_word_eqI) (auto simp: bit_simps)
  show "(ucast (drop_bit 3 (take_bit 35 r)) :: u32) = ucast (drop_bit 3 r)" by (rule bit_word_eqI) (auto simp: bit_simps)
qed


subsection \<open>The port on a chain\<close>

text \<open>The instruction of a device can be written when the registers on either side hold at most 64 bits.\<close>

definition ir_reachable :: "tap_dev list \<Rightarrow> nat \<Rightarrow> bool" where
  "ir_reachable devs i \<longleftrightarrow> i < length devs \<and> sum_list (ir_lens (take i devs)) \<le> 64 \<and> sum_list (ir_lens (drop (Suc i) devs)) \<le> 64"

context jtag_bus
begin

text \<open>The table is true, every controller is idle, and only the given device may be out of bypass.\<close>

definition chain_at :: "nat \<Rightarrow> 's jtag \<Rightarrow> bool" where
  "chain_at i s \<longleftrightarrow> scanned devs s \<and> others_bypass devs i s \<and> state (js_port s) Run_Test_Idle (path (dev (js_port s))) (insns (dev (js_port s))) \<and>
     synced devs s (insns (dev (js_port s)))"

definition dp_answers :: "nat \<Rightarrow> u32 \<Rightarrow> u64 \<Rightarrow> bool" where
  "dp_answers i ir r \<longleftrightarrow> (\<forall>d. insns d ! i = Some (bits ir (length (td_capture (devs ! i)))) \<longrightarrow> captured d i = bits64 r 35)"

definition dp_wide :: "nat \<Rightarrow> u32 \<Rightarrow> bool" where
  "dp_wide i ir \<longleftrightarrow> (\<forall>d. insns d ! i = Some (bits ir (length (td_capture (devs ! i)))) \<longrightarrow> length (captured d i) = 35)"

lemma chain_atI:
  assumes "scanned devs s" "others_bypass devs i s" "state (js_port s) Run_Test_Idle ps is" "synced devs s is"
  shows "chain_at i s" "path (dev (js_port s)) = ps"
  using assms by (auto simp: chain_at_def state_def)

lemma chain_ir:
  assumes "chain_at i s" "chain_ok cfg devs" "ir_reachable devs i" "unat idx = i"
  shows "\<exists>s'. jtag_dev_write_ir proc idx ir s = Some s' \<and> chain_at i s' \<and> current_ir (jtag_devs s' ! i) = ir"
proof (cases "ir = current_ir (jtag_devs s ! i)")
  case True
  have "get_dev (unat idx) s = Some (jtag_devs s ! i)"
    using assms by (auto simp: chain_at_def scanned_def get_dev_def chain_ok_def ir_reachable_def)
  then show ?thesis using True assms(1) by (auto simp: jtag_dev_write_ir_def)
next
  case False
  have c: "list_all (ir_ok cfg) devs" "length devs < 32" using assms(2) by (simp_all add: chain_ok_def)
  have r: "i < length devs" "sum_list (ir_lens (take i devs)) \<le> 64" "sum_list (ir_lens (drop (Suc i) devs)) \<le> 64" using assms(3) by (simp_all add: ir_reachable_def)
  have s: "scanned devs s" "state (js_port s) Run_Test_Idle (path (dev (js_port s))) (insns (dev (js_port s)))" "synced devs s (insns (dev (js_port s)))"
    using assms(1) by (simp_all add: chain_at_def)
  from dev_write_ir [OF s(1) c(1) s(2,3) r(1) assms(4) False r(2,3) c(2)] show ?thesis using chain_atI by blast
qed

lemma chain_moved: "chain_at i s \<Longrightarrow> state p Run_Test_Idle ps (insns (dev (js_port s))) \<Longrightarrow> chain_at i (s\<lparr>js_port := p\<rparr>) \<and> path (dev p) = ps"
  by (auto simp: chain_at_def scanned_def others_bypass_def synced_def state_def)

lemma chain_shift:
  assumes "chain_at i s" "chain_ok cfg devs" "i < length devs" "unat idx = i" "dp_answers i (current_ir (jtag_devs s ! i)) r"
  shows "\<exists>p. jtag_dev_shift_dr proc idx (Some (replicate 8 0)) (bytes_of_u64 v) 35 s = Some (Some (bytes_of_u64 (take_bit 35 r)), s\<lparr>js_port := p\<rparr>) \<and>
    chain_at i (s\<lparr>js_port := p\<rparr>) \<and> path (dev p) = replicate i True @ bits64 v 35 @ replicate (length devs - 1 - i) True"
proof -
  have c: "list_all (ir_ok cfg) devs" "length devs < 32" using assms(2) by (simp_all add: chain_ok_def)
  have s: "scanned devs s" "state (js_port s) Run_Test_Idle (path (dev (js_port s))) (insns (dev (js_port s)))" "synced devs s (insns (dev (js_port s)))" "others_bypass devs i s"
    using assms(1) by (simp_all add: chain_at_def)
  have "insns (mid (dev (js_port s))) = insns (dev (js_port s))" using port_shift_dr [OF s(2)] by auto
  then have "insns (mid (dev (js_port s))) ! i = Some (bits (current_ir (jtag_devs s ! i)) (length (td_capture (devs ! i))))"
    using s(3) assms(3) by (simp add: synced_def)
  then have d: "captured (mid (dev (js_port s))) i = bits64 r 35" using assms(5) by (simp add: dp_answers_def)
  from dev_shift_dr [OF s(1) c s(2,3,4) assms(3,4), unfolded d, of 35 "bytes_of_u64 v" "replicate 8 0"]
  obtain p where p: "jtag_dev_shift_dr proc idx (Some (replicate 8 0)) (bytes_of_u64 v) 35 s = Some (Some (bytes_of_u64 (take_bit 35 r)), s\<lparr>js_port := p\<rparr>)"
    "state p Run_Test_Idle (replicate i True @ bits64 v 35 @ replicate (length devs - 1 - i) True) (insns (dev (js_port s)))"
    using pack_bits64 [of 35 r] dbits_u64 [of 35 v] by auto
  then show ?thesis using chain_moved [OF assms(1) p(2)] by blast
qed

lemma chain_loop:
  assumes "chain_at i s" "chain_ok cfg devs" "i < length devs" "unat idx = i" "dp_answers i (current_ir (jtag_devs s ! i)) r"
  shows "\<exists>p. jtagdp_loop proc idx v es s =
      Some ((take_bit 35 r, if ucast r AND 7 = JTAGDP_ACK_WAIT then tl (dropWhile Not es) else tl es), s\<lparr>js_port := p\<rparr>) \<and>
    chain_at i (s\<lparr>js_port := p\<rparr>) \<and> path (dev p) = replicate i True @ bits64 v 35 @ replicate (length devs - 1 - i) True"
  using assms(1,5)
proof (induction es arbitrary: s)
  case Nil
  then show ?case using chain_shift [OF Nil(1) assms(2-4) Nil(2), of v] by (auto simp: bytes_of_u64_of)
next
  case (Cons e es)
  obtain p where p: "jtag_dev_shift_dr proc idx (Some (replicate 8 0)) (bytes_of_u64 v) 35 s = Some (Some (bytes_of_u64 (take_bit 35 r)), s\<lparr>js_port := p\<rparr>)"
    "chain_at i (s\<lparr>js_port := p\<rparr>)" "path (dev p) = replicate i True @ bits64 v 35 @ replicate (length devs - 1 - i) True"
    using chain_shift [OF Cons(2) assms(2-4) Cons(3), of v] by blast
  show ?case using p Cons.IH [OF p(2)] Cons.prems(2) by (auto simp: bytes_of_u64_of response_fields(1))
qed

lemma chain_shift_in:
  assumes "chain_at i s" "chain_ok cfg devs" "i < length devs" "unat idx = i" "dp_wide i (current_ir (jtag_devs s ! i))"
  shows "\<exists>p. jtag_dev_shift_dr proc idx None (bytes_of_u64 v) 35 s = Some (None, s\<lparr>js_port := p\<rparr>) \<and>
    chain_at i (s\<lparr>js_port := p\<rparr>) \<and> path (dev p) = replicate i True @ bits64 v 35 @ replicate (length devs - 1 - i) True"
proof -
  let ?d = "jtag_devs s ! i" and ?post = "length devs - 1 - i" and ?is = "insns (dev (js_port s))"
  have c: "list_all (ir_ok cfg) devs" "length devs < 32" using assms(2) by (simp_all add: chain_ok_def)
  have s: "scanned devs s" "state (js_port s) Run_Test_Idle (path (dev (js_port s))) ?is" "synced devs s ?is" "others_bypass devs i s"
    using assms(1) by (simp_all add: chain_at_def)
  have d: "get_dev (unat idx) s = Some ?d" "unat (dr_prescan ?d) = i" "unat (dr_postscan ?d) = ?post"
    using s(1) c(2) assms(3,4) by (auto simp: scanned_def get_dev_def Let_def)
  have l: "?post \<le> 64" "i \<le> 64" using c(2) assms(3) by simp_all
  have z: "dr_postscan ?d = 0 \<longleftrightarrow> ?post = 0" using d(3) by (metis unat_eq_zero)
  obtain p where p: "on_port (jtagtap_shift_dr proc) s = Some (s\<lparr>js_port := p\<rparr>)" "state p Shift_DR (concat (map (captured (mid (dev (js_port s)))) [0..<length devs])) ?is"
    "insns (mid (dev (js_port s))) = ?is" using port_shift_dr [OF s(2)] by auto
  have "length (captured (mid (dev (js_port s))) i) = 35" using assms(5) p(3) s(3) assms(3) by (simp add: dp_wide_def synced_def)
  then have len: "length (concat (map (captured (mid (dev (js_port s)))) [0..<length devs])) = i + 35 + ?post"
    using bypass_path [OF assms(3) s(3,4) c(1) p(3)] by simp
  let ?s = "s\<lparr>js_port := p\<rparr>"
  have st: "state (js_port ?s) Shift_DR (concat (map (captured (mid (dev (js_port s)))) [0..<length devs])) ?is" using p(2) by simp
  obtain p1 p2 p3 where p3: "on_port (proc_tdi_seq proc False ones i) ?s = Some (?s\<lparr>js_port := p1\<rparr>)"
    "on_port (proc_tdi_seq proc (?post = 0) (bytes_of_u64 v) 35) (?s\<lparr>js_port := p1\<rparr>) = Some (?s\<lparr>js_port := p2\<rparr>)"
    "on_port (proc_tdi_seq proc True ones ?post) (?s\<lparr>js_port := p2\<rparr>) = Some (?s\<lparr>js_port := p3\<rparr>)"
    "state p3 Exit1_DR (replicate i True @ dbits (bytes_of_u64 v) 35 @ replicate ?post True) ?is"
    using port_slice [OF st _ len _ _ l(2,1), of Exit1_DR "bytes_of_u64 v"] by auto
  obtain p4 where p4: "on_port (jtagtap_return_idle proc 1) (?s\<lparr>js_port := p3\<rparr>) = Some (?s\<lparr>js_port := p3\<rparr>\<lparr>js_port := p4\<rparr>)"
    "state p4 Run_Test_Idle (replicate i True @ dbits (bytes_of_u64 v) 35 @ replicate ?post True) ?is"
    using port_idle_dr [of "?s\<lparr>js_port := p3\<rparr>"] p3(4) by auto
  show ?thesis using d z p(1) p3(1-3) p4(1) chain_moved [OF assms(1) p4(2)] dbits_u64 [of 35 v]
    by (intro exI [of _ p4]) (simp add: jtag_dev_shift_dr_def)
qed

lemma chain_abort:
  assumes "chain_at i (jt_chain s)" "chain_ok cfg devs" "ir_reachable devs i" "unat (jt_dev_index s) = i" "dp_wide i IR_ABORT"
  shows "\<exists>c. adiv5_jtagdp_abort proc v s = Some (s\<lparr>jt_chain := c\<rparr>) \<and> chain_at i c \<and>
    path (dev (js_port c)) = replicate i True @ bits64 (push_bit 3 (ucast v)) 35 @ replicate (length devs - 1 - i) True"
proof -
  obtain c where c: "jtag_dev_write_ir proc (jt_dev_index s) IR_ABORT (jt_chain s) = Some c" "chain_at i c" "current_ir (jtag_devs c ! i) = IR_ABORT"
    using chain_ir [OF assms(1-4)] by blast
  have i: "i < length devs" using assms(3) by (simp add: ir_reachable_def)
  from chain_shift_in [OF c(2) assms(2) i assms(4), unfolded c(3), OF assms(5), of "push_bit 3 (ucast v)"] c(1)
  show ?thesis by (auto simp: adiv5_jtagdp_abort_def)
qed

lemma chain_access:
  fixes r :: u64
  assumes "chain_at i (jt_chain s)" "chain_ok cfg devs" "ir_reachable devs i" "unat (jt_dev_index s) = i"
    and "dp_answers i (if addr AND ADIV5_APnDP \<noteq> 0 then IR_APACC else IR_DPACC) r" "dp_wide i IR_ABORT"
  defines "ack \<equiv> ucast r AND 7 :: u8"
  shows "\<exists>c. fw_adiv5_jtagdp_low_access proc rnw addr v s =
      Some (if ack = JTAGDP_ACK_WAIT then (Inr 0, s\<lparr>jt_chain := c, jt_expired := tl (dropWhile Not (jt_expired s)), jt_fault := 1\<rparr>)
            else if ack = JTAGDP_ACK_OK then (Inr (ucast (drop_bit 3 r)), s\<lparr>jt_chain := c, jt_expired := tl (jt_expired s)\<rparr>)
            else (Inl ''JTAG-DP invalid ACK'', s\<lparr>jt_chain := c, jt_expired := tl (jt_expired s)\<rparr>)) \<and> chain_at i c \<and>
    path (dev (js_port c)) = replicate i True @ bits64 (if ack = JTAGDP_ACK_WAIT then 8 else jtagdp_request rnw addr v) 35 @ replicate (length devs - 1 - i) True"
proof -
  let ?ir = "if addr AND ADIV5_APnDP \<noteq> 0 then IR_APACC else IR_DPACC :: u32"
  obtain c where c: "jtag_dev_write_ir proc (jt_dev_index s) ?ir (jt_chain s) = Some c" "chain_at i c" "current_ir (jtag_devs c ! i) = ?ir"
    using chain_ir [OF assms(1-4)] by blast
  have i: "i < length devs" using assms(3) by (simp add: ir_reachable_def)
  obtain p where p: "jtagdp_loop proc (jt_dev_index s) (jtagdp_request rnw addr v) (jt_expired s) c =
      Some ((take_bit 35 r, if ack = JTAGDP_ACK_WAIT then tl (dropWhile Not (jt_expired s)) else tl (jt_expired s)), c\<lparr>js_port := p\<rparr>)"
    "chain_at i (c\<lparr>js_port := p\<rparr>)" "path (dev p) = replicate i True @ bits64 (jtagdp_request rnw addr v) 35 @ replicate (length devs - 1 - i) True"
    using chain_loop [OF c(2) assms(2) i assms(4), unfolded c(3), OF assms(5)] unfolding ack_def by blast
  show ?thesis
  proof (cases "ack = JTAGDP_ACK_WAIT")
    case True
    let ?s = "s\<lparr>jt_chain := c\<lparr>js_port := p\<rparr>, jt_expired := tl (dropWhile Not (jt_expired s))\<rparr>"
    from chain_abort [of i ?s cfg 1] assms(2-4,6) p(2) obtain c' where c': "adiv5_jtagdp_abort proc 1 ?s = Some (?s\<lparr>jt_chain := c'\<rparr>)" "chain_at i c'"
      "path (dev (js_port c')) = replicate i True @ bits64 8 35 @ replicate (length devs - 1 - i) True" by auto
    then show ?thesis using c(1) p(1) True by (intro exI [of _ c'])
      (simp add: fw_adiv5_jtagdp_low_access_def response_fields ack_def [symmetric])
  next
    case False
    then show ?thesis using c(1) p by (intro exI [of _ "c\<lparr>js_port := p\<rparr>"])
      (simp add: fw_adiv5_jtagdp_low_access_def response_fields ack_def [symmetric])
  qed
qed

end

subsection \<open>Access on the bit-banged port\<close>

definition jtag_ready :: "('d \<Rightarrow> tap_state) \<Rightarrow> ('d \<Rightarrow> bool list option list) \<Rightarrow> tap_dev list \<Rightarrow> nat \<Rightarrow> 'd jtag_pins jtag \<Rightarrow> bool" where
  "jtag_ready tap insns devs i c \<longleftrightarrow> scanned devs c \<and> others_bypass devs i c \<and> idle_pins (js_port c) \<and>
     tap (jp_dev (js_port c)) = Run_Test_Idle \<and> synced devs c (insns (jp_dev (js_port c)))"

text \<open>C20: An access of the debug port over the bit-banged JTAG port shifts the 35 bits of the request into the register of
  its device, with ones in the bypass registers of the others, and takes the answer from what the device captures:
  with OK the access returns the word above the acknowledge bits; with WAIT the request is repeated until the
  time-out has expired, then the access is aborted through the abort register, its result is 0 and the fault of the
  port is set; any other answer raises an exception. The table stays true and every controller ends in Run-Test/Idle.
  The device answers every try alike, and the instruction registers before it and those behind it have at most 64 bits
  each, the length of the row of ones the port shifts.\<close>

theorem jtagdp_access:
  fixes r :: u64
  assumes "tap_chain clock tap path insns captured devs" "chain_ok cfg devs" "ir_reachable devs i"
    and "jtag_ready tap insns devs i (jt_chain s)" "unat (jt_dev_index s) = i"
    and "\<And>d. insns d ! i = Some (bits (if addr AND ADIV5_APnDP \<noteq> 0 then IR_APACC else IR_DPACC) (length (td_capture (devs ! i)))) \<Longrightarrow> captured d i = bits64 r 35"
    and "\<And>d. insns d ! i = Some (bits IR_ABORT (length (td_capture (devs ! i)))) \<Longrightarrow> length (captured d i) = 35"
  shows "\<exists>c. jtag_ready tap insns devs i c \<and>
    fw_adiv5_jtagdp_low_access (gpio_proc clock) rnw addr v s =
      Some (if ucast r AND 7 = JTAGDP_ACK_WAIT then (Inr 0, s\<lparr>jt_chain := c, jt_expired := tl (dropWhile Not (jt_expired s)), jt_fault := 1\<rparr>)
            else if ucast r AND 7 = JTAGDP_ACK_OK then (Inr (ucast (drop_bit 3 r)), s\<lparr>jt_chain := c, jt_expired := tl (jt_expired s)\<rparr>)
            else (Inl ''JTAG-DP invalid ACK'', s\<lparr>jt_chain := c, jt_expired := tl (jt_expired s)\<rparr>)) \<and>
    path (jp_dev (js_port c)) = replicate i True @
      bits64 (if ucast r AND 7 = JTAGDP_ACK_WAIT then 8 else push_bit 3 (ucast v) OR ucast (drop_bit 1 (addr AND 0xff) AND 6) OR (if rnw \<noteq> 0 then 1 else 0)) 35 @
      replicate (length devs - 1 - i) True"
proof -
  note bus = gpio_bus [OF assms(1)]
  have d: "jtag_bus.chain_at idle_pins jp_dev tap path insns devs i c \<longleftrightarrow> jtag_ready tap insns devs i c" for c
    unfolding jtag_bus.chain_at_def [OF bus] jtag_bus.state_def [OF bus] jtag_ready_def by auto
  have "jtag_bus.dp_answers insns captured devs i (if addr AND ADIV5_APnDP \<noteq> 0 then IR_APACC else IR_DPACC) r" "jtag_bus.dp_wide insns captured devs i IR_ABORT"
    unfolding jtag_bus.dp_answers_def [OF bus] jtag_bus.dp_wide_def [OF bus] using assms(6,7) by blast+
  from jtag_bus.chain_access [OF bus _ assms(2,3,5) this, unfolded d, OF assms(4), of rnw v]
  show ?thesis unfolding jtagdp_request_def Let_def by blast
qed

definition dp_reg :: "nat \<Rightarrow> bool list \<Rightarrow> bool list" where
  "dp_reg i ir = bits64 (if ir = bits IR_APACC 4 then 1 else push_bit 3 0xf0000040 OR 2) 35"

definition dp_pins :: "tap_line jtag_pins jtag_dp" where
  "dp_pins = \<lparr>jt_chain = scanned_pins, jt_dev_index = 0, jt_fault = 0, jt_designer_code = 0, jt_partno = 0, jt_expired = [False, True]\<rparr>"

lemma dp_pins_ready: "jtag_ready tl_tap tl_insns stm32_chain 0 (jt_chain dp_pins)"
  using scanned_pins_ok by (simp add: jtag_ready_def dp_pins_def others_bypass_def stm32_chain_simps)
    (simp add: scanned_pins_def idle_pins_def less_2_cases_iff)

lemma dp_captured:
  assumes "ir \<noteq> replicate 4 True" "tl_insns d ! 0 = Some ir"
  shows "line_captured stm32_chain dp_reg d 0 = dp_reg 0 ir"
  using assms by (simp add: line_captured_def stm32_chain_simps)

theorem jtagdp_access_witness:
  "(\<exists>c. jtag_ready tl_tap tl_insns stm32_chain 0 c \<and>
    fw_adiv5_jtagdp_low_access (gpio_proc (line_clock stm32_chain dp_reg)) ADIV5_LOW_READ 4 0 dp_pins = Some (Inr 0xf0000040, dp_pins\<lparr>jt_chain := c, jt_expired := [True]\<rparr>)) \<and>
   (\<exists>c. jtag_ready tl_tap tl_insns stm32_chain 0 c \<and>
    fw_adiv5_jtagdp_low_access (gpio_proc (line_clock stm32_chain dp_reg)) ADIV5_LOW_READ ADIV5_AP_DRW 0 dp_pins = Some (Inr 0, dp_pins\<lparr>jt_chain := c, jt_expired := [], jt_fault := 1\<rparr>))"
proof -
  have b: "bits IR_DPACC 4 \<noteq> replicate 4 True" "bits IR_APACC 4 \<noteq> replicate 4 True" "bits IR_ABORT 4 \<noteq> replicate 4 True" "bits IR_DPACC 4 \<noteq> bits IR_APACC 4"
    by (simp_all add: bits_def upt_rec numeral_eq_Suc)
  have r: "ir_reachable stm32_chain 0" by (simp add: ir_reachable_def stm32_chain_def ir_lens_def)
  have len: "length (td_capture (stm32_chain ! 0)) = 4" by (simp add: stm32_chain_simps)
  have d: "line_captured stm32_chain dp_reg d 0 = bits64 (push_bit 3 0xf0000040 OR 2) 35" if "tl_insns d ! 0 = Some (bits IR_DPACC 4)" for d
    using dp_captured [OF b(1) that] b(4) by (simp add: dp_reg_def)
  have a: "line_captured stm32_chain dp_reg d 0 = bits64 1 35" if "tl_insns d ! 0 = Some (bits IR_APACC 4)" for d
    using dp_captured [OF b(2) that] by (simp add: dp_reg_def)
  have w: "length (line_captured stm32_chain dp_reg d 0) = 35" if "tl_insns d ! 0 = Some (bits IR_ABORT 4)" for d
    using dp_captured [OF b(3) that] by (simp add: dp_reg_def)
  note ax = jtagdp_access [OF line.tap_chain_axioms [where reg = dp_reg] stm32_chain_ok r dp_pins_ready, unfolded len]
  have i: "unat (jt_dev_index dp_pins) = 0" by (simp add: dp_pins_def)
  have "\<exists>c. jtag_ready tl_tap tl_insns stm32_chain 0 c \<and>
    fw_adiv5_jtagdp_low_access (gpio_proc (line_clock stm32_chain dp_reg)) ADIV5_LOW_READ 4 0 dp_pins = Some (Inr 0xf0000040, dp_pins\<lparr>jt_chain := c, jt_expired := [True]\<rparr>)"
    using ax [OF i, of 4 "push_bit 3 0xf0000040 OR 2" ADIV5_LOW_READ 0] d w by (auto simp: dp_pins_def)
  moreover have "\<exists>c. jtag_ready tl_tap tl_insns stm32_chain 0 c \<and>
    fw_adiv5_jtagdp_low_access (gpio_proc (line_clock stm32_chain dp_reg)) ADIV5_LOW_READ ADIV5_AP_DRW 0 dp_pins = Some (Inr 0, dp_pins\<lparr>jt_chain := c, jt_expired := [], jt_fault := 1\<rparr>)"
    using ax [OF i, of ADIV5_AP_DRW 1 ADIV5_LOW_READ 0] a w by (auto simp: dp_pins_def)
  ultimately show ?thesis by blast
qed

end
