(* ===== verification/Spi.thy ===== *)
theory Spi
  imports Prelude
begin

text \<open>
  Transfers with a SPI flash, the first part of src/target/spi.c. The platform's functions for the bus are a record
  over a state; a device is selected with the top bit of its number set and released with it clear.
\<close>

subsection \<open>The bus\<close>

record 'p spi_platform =
  spi_init :: "u8 \<Rightarrow> 'p \<Rightarrow> bool \<times> 'p"
  spi_deinit :: "u8 \<Rightarrow> 'p \<Rightarrow> bool \<times> 'p"
  spi_chip_select :: "u8 \<Rightarrow> 'p \<Rightarrow> bool \<times> 'p"
  spi_xfer :: "u8 \<Rightarrow> u8 \<Rightarrow> 'p \<Rightarrow> u8 \<times> 'p"

abbreviation (input) SPI_FLASH_OPCODE_MASK :: u16 where "SPI_FLASH_OPCODE_MASK \<equiv> 0xff"
abbreviation (input) SPI_FLASH_DUMMY_MASK :: u16 where "SPI_FLASH_DUMMY_MASK \<equiv> 0x700"
abbreviation (input) SPI_FLASH_OPCODE_MODE_MASK :: u16 where "SPI_FLASH_OPCODE_MODE_MASK \<equiv> 0x800"
abbreviation (input) SPI_FLASH_OPCODE_3B_ADDR :: u16 where "SPI_FLASH_OPCODE_3B_ADDR \<equiv> 0x800"
abbreviation (input) SPI_FLASH_CMD_READ_JEDEC_ID :: u16 where "SPI_FLASH_CMD_READ_JEDEC_ID \<equiv> 0x9f"

text \<open>The bytes that come back while the given bytes go out.\<close>

primrec spi_xfers :: "'p spi_platform \<Rightarrow> u8 \<Rightarrow> u8 list \<Rightarrow> 'p \<Rightarrow> u8 list \<times> 'p" where
  "spi_xfers pl bus [] p = ([], p)"
| "spi_xfers pl bus (b # bs) p = (let (x, p) = spi_xfer pl bus b p; (xs, p) = spi_xfers pl bus bs p in (x # xs, p))"

definition bmp_spi_setup_xfer :: "'p spi_platform \<Rightarrow> u8 \<Rightarrow> u8 \<Rightarrow> u16 \<Rightarrow> u32 \<Rightarrow> 'p \<Rightarrow> 'p" where
  "bmp_spi_setup_xfer pl bus device command address p =
     (let p = snd (spi_chip_select pl (device OR 0x80) p);
          opcode = ucast (command AND SPI_FLASH_OPCODE_MASK);
          p = snd (spi_xfer pl bus opcode p);
          p = (if command AND SPI_FLASH_OPCODE_MODE_MASK = SPI_FLASH_OPCODE_3B_ADDR
               then (let p = snd (spi_xfer pl bus (ucast (drop_bit 16 address AND 0xff)) p);
                         p = snd (spi_xfer pl bus (ucast (drop_bit 8 address AND 0xff)) p)
                     in snd (spi_xfer pl bus (ucast (address AND 0xff)) p))
               else p);
          dummy_length = unat (drop_bit 8 (command AND SPI_FLASH_DUMMY_MASK))
      in snd (spi_xfers pl bus (replicate dummy_length 0) p))"

definition bmp_spi_read :: "'p spi_platform \<Rightarrow> u8 \<Rightarrow> u8 \<Rightarrow> u16 \<Rightarrow> u32 \<Rightarrow> nat \<Rightarrow> 'p \<Rightarrow> byte list \<times> 'p" where
  "bmp_spi_read pl bus device command address len p =
     (let p = bmp_spi_setup_xfer pl bus device command address p;
          (dat, p) = spi_xfers pl bus (replicate len 0) p
      in (dat, snd (spi_chip_select pl device p)))"

definition bmp_spi_write :: "'p spi_platform \<Rightarrow> u8 \<Rightarrow> u8 \<Rightarrow> u16 \<Rightarrow> u32 \<Rightarrow> byte list \<Rightarrow> 'p \<Rightarrow> 'p" where
  "bmp_spi_write pl bus device command address dat p =
     (let p = bmp_spi_setup_xfer pl bus device command address p;
          p = snd (spi_xfers pl bus dat p)
      in snd (spi_chip_select pl device p))"

definition bmp_spi_run_command :: "'p spi_platform \<Rightarrow> u8 \<Rightarrow> u8 \<Rightarrow> u16 \<Rightarrow> u32 \<Rightarrow> 'p \<Rightarrow> 'p" where
  "bmp_spi_run_command pl bus device command address p =
     (let p = bmp_spi_setup_xfer pl bus device command address p
      in snd (spi_chip_select pl device p))"

lemma length_spi_xfers [simp]: "length (fst (spi_xfers pl bus bs p)) = length bs"
  by (induction bs arbitrary: p) (simp_all add: split_beta Let_def)

lemma length_bmp_spi_read [simp]: "length (fst (bmp_spi_read pl bus device command address len p)) = len"
  by (simp add: bmp_spi_read_def split_beta Let_def)

end
