(* ===== verification/Remote.thy ===== *)
theory Remote
  imports Adiv5_Jtag Adiv5_Swd Spi Gdb_Packet
begin

text \<open>
  The remote protocol, src/remote.c: the packets with which a host drives the pins and the debug port of the probe, and
  the responses. A packet is the buffer it was received in, with its length; the bytes behind its terminator are
  what earlier packets left there. The state holds the platform, the fields of remote_dp, which functions its pointers
  and those of swd_proc and jtag_proc hold, and the table of JTAG devices. None is what C gives no meaning to: an
  access outside an array, a call through a null pointer, a shift by the width of a word. The functions of the
  platform are parameters, in the record remote_hw.
\<close>

subsection \<open>State\<close>

datatype remote_if = Remote_swd | Remote_jtag

record 'p power_switch =
  pw_get :: "'p \<Rightarrow> bool"
  pw_sense :: "'p \<Rightarrow> u32"
  pw_set :: "bool \<Rightarrow> 'p \<Rightarrow> bool \<times> 'p"

text \<open>The platform: its ports, whether gdb_packet_buffer returns the buffer of the packets, how many bytes of the stack
  may be written behind the array of remote_send_buf, and its functions.\<close>

record 'p remote_hw =
  hw_swd :: "'p swd_proc"
  hw_jtag :: "'p jtag_proc"
  hw_jtagtap_init :: "'p \<Rightarrow> 'p option"
  hw_shared :: bool
  hw_slack :: nat
  hw_voltage :: "'p \<Rightarrow> byte list"
  hw_nrst_set :: "bool \<Rightarrow> 'p \<Rightarrow> 'p"
  hw_nrst_get :: "'p \<Rightarrow> bool"
  hw_frequency_set :: "u32 \<Rightarrow> 'p \<Rightarrow> 'p"
  hw_frequency_get :: "'p \<Rightarrow> u32"
  hw_power :: "'p power_switch option"
  hw_ident :: "byte list"
  hw_clk_output_enable :: "bool \<Rightarrow> 'p \<Rightarrow> 'p"
  hw_spi :: "'p spi_platform"

record 'p remote =
  rm_port :: 'p
  rm_fault :: u8
  rm_dev_index :: u8
  rm_if :: "remote_if option"
  rm_swd_proc :: bool
  rm_jtag_proc :: bool
  rm_devs :: "jtag_dev list"
  rm_dev_count :: u32
  rm_expired :: "bool list"
  rm_debug_bmp :: bool

abbreviation (input) REMOTE_RESP :: byte where "REMOTE_RESP \<equiv> 0x26"
abbreviation (input) REMOTE_RESP_OK :: byte where "REMOTE_RESP_OK \<equiv> 0x4b"
abbreviation (input) REMOTE_RESP_PARERR :: byte where "REMOTE_RESP_PARERR \<equiv> 0x50"
abbreviation (input) REMOTE_RESP_ERR :: byte where "REMOTE_RESP_ERR \<equiv> 0x45"
abbreviation (input) REMOTE_RESP_NOTSUP :: byte where "REMOTE_RESP_NOTSUP \<equiv> 0x4e"
abbreviation (input) REMOTE_ERROR_UNRECOGNISED :: u64 where "REMOTE_ERROR_UNRECOGNISED \<equiv> 1"
abbreviation (input) REMOTE_ERROR_WRONGLEN :: u64 where "REMOTE_ERROR_WRONGLEN \<equiv> 2"
abbreviation (input) REMOTE_ERROR_FAULT :: u64 where "REMOTE_ERROR_FAULT \<equiv> 3"
abbreviation (input) REMOTE_ERROR_EXCEPTION :: u64 where "REMOTE_ERROR_EXCEPTION \<equiv> 4"
abbreviation (input) REMOTE_HL_VERSION :: u64 where "REMOTE_HL_VERSION \<equiv> 3"
abbreviation (input) EXCEPTION_ERROR :: u64 where "EXCEPTION_ERROR \<equiv> 1"
abbreviation (input) POWER_CONFLICT_THRESHOLD :: u32 where "POWER_CONFLICT_THRESHOLD \<equiv> 5"
abbreviation (input) SIZE_MAX :: nat where "SIZE_MAX \<equiv> 4294967295"

abbreviation (input) letter :: "char \<Rightarrow> byte" where "letter c \<equiv> of_char c"

subsection \<open>Responses\<close>

primrec remote_send_buf :: "nat \<Rightarrow> byte list \<Rightarrow> byte list option" where
  "remote_send_buf slack [] = Some []"
| "remote_send_buf slack (b # bs) =
     (let hex = hexify [b]
      in if length hex > 2 + slack then None else do { rest \<leftarrow> remote_send_buf slack bs; Some (hex ! 0 # hex ! 1 # rest) })"

definition remote_respond_buf :: "nat \<Rightarrow> byte \<Rightarrow> byte list \<Rightarrow> byte list option" where
  "remote_respond_buf slack code bs =
     do { hex \<leftarrow> remote_send_buf slack bs; Some ([REMOTE_RESP, code] @ hex @ [REMOTE_EOM]) }"

primrec respond_digits :: "nat \<Rightarrow> u64 \<Rightarrow> byte list" where
  "respond_digits 0 param = []"
| "respond_digits (Suc n) param =
     (if param = 0 then [] else hex_digit (ucast (param AND 0xf)) # respond_digits n (drop_bit 4 param))"

definition remote_respond :: "byte \<Rightarrow> u64 \<Rightarrow> byte list" where
  "remote_respond code param =
     (let response = respond_digits 16 param;
          response = (if response = [] then [0x30] else response)
      in [REMOTE_RESP, code] @ rev response @ [REMOTE_EOM])"

definition remote_respond_string :: "byte \<Rightarrow> byte list \<Rightarrow> byte list" where
  "remote_respond_string code str =
     [REMOTE_RESP, code] @ map (\<lambda>c. if c = GDB_PACKET_START \<or> c = REMOTE_SOM \<or> c = REMOTE_EOM then 0x20 else c) str @ [REMOTE_EOM]"

subsection \<open>Packets\<close>

definition char_at :: "nat \<Rightarrow> byte list \<Rightarrow> byte option" where
  "char_at i packet = (if i < length packet then Some (packet ! i) else None)"

definition num_at :: "nat \<Rightarrow> nat \<Rightarrow> byte list \<Rightarrow> u64 option" where
  "num_at digits offset packet = hex_string_to_num digits (drop offset packet)"

definition swd_call :: "'p remote_hw \<Rightarrow> ('p swd_proc \<Rightarrow> 'p \<Rightarrow> ('a \<times> 'p) option) \<Rightarrow> 'p remote \<Rightarrow> ('a \<times> 'p remote) option" where
  "swd_call hw f s = (if rm_swd_proc s then do { (x, p) \<leftarrow> f (hw_swd hw) (rm_port s); Some (x, s\<lparr>rm_port := p\<rparr>) } else None)"

definition jtag_call :: "'p remote_hw \<Rightarrow> ('p jtag_proc \<Rightarrow> 'p \<Rightarrow> ('a \<times> 'p) option) \<Rightarrow> 'p remote \<Rightarrow> ('a \<times> 'p remote) option" where
  "jtag_call hw f s = (if rm_jtag_proc s then do { (x, p) \<leftarrow> f (hw_jtag hw) (rm_port s); Some (x, s\<lparr>rm_port := p\<rparr>) } else None)"

definition no_value :: "'p option \<Rightarrow> (unit \<times> 'p) option" where
  "no_value r = map_option (Pair ()) r"

definition remote_packet_process_swd :: "'p remote_hw \<Rightarrow> byte list \<Rightarrow> nat \<Rightarrow> 'p remote \<Rightarrow> (byte list \<times> 'p remote) option" where
  "remote_packet_process_swd hw packet packet_len s =
     do { c \<leftarrow> char_at 1 packet;
          if c = letter CHR ''S'' then
            (if packet_len = 2 then Some (remote_respond REMOTE_RESP_OK 0, s\<lparr>rm_if := Some Remote_swd, rm_swd_proc := True\<rparr>)
             else Some (remote_respond REMOTE_RESP_ERR REMOTE_ERROR_WRONGLEN, s))
          else if c = letter CHR ''I'' then
            do { clock_cycles \<leftarrow> num_at 2 2 packet;
                 ((parity_error, result), s) \<leftarrow> swd_call hw (\<lambda>proc. proc_seq_in_parity proc (unat clock_cycles)) s;
                 Some (remote_respond (if parity_error then REMOTE_RESP_PARERR else REMOTE_RESP_OK) (ucast result), s) }
          else if c = letter CHR ''i'' then
            do { clock_cycles \<leftarrow> num_at 2 2 packet;
                 (result, s) \<leftarrow> swd_call hw (\<lambda>proc. proc_seq_in proc (unat clock_cycles)) s;
                 Some (remote_respond REMOTE_RESP_OK (ucast result), s) }
          else if c = letter CHR ''o'' then
            do { clock_cycles \<leftarrow> num_at 2 2 packet;
                 dat \<leftarrow> num_at SIZE_MAX 4 packet;
                 (_, s) \<leftarrow> swd_call hw (\<lambda>proc p. no_value (proc_seq_out proc (ucast dat) (unat clock_cycles) p)) s;
                 Some (remote_respond REMOTE_RESP_OK 0, s) }
          else if c = letter CHR ''O'' then
            do { clock_cycles \<leftarrow> num_at 2 2 packet;
                 dat \<leftarrow> num_at SIZE_MAX 4 packet;
                 (_, s) \<leftarrow> swd_call hw (\<lambda>proc p. no_value (proc_seq_out_parity proc (ucast dat) (unat clock_cycles) p)) s;
                 Some (remote_respond REMOTE_RESP_OK 0, s) }
          else Some (remote_respond REMOTE_RESP_ERR REMOTE_ERROR_UNRECOGNISED, s) }"

definition remote_packet_process_jtag :: "'p remote_hw \<Rightarrow> byte list \<Rightarrow> nat \<Rightarrow> 'p remote \<Rightarrow> (byte list \<times> 'p remote) option" where
  "remote_packet_process_jtag hw packet packet_len s =
     do { c \<leftarrow> char_at 1 packet;
          if c = letter CHR ''S'' then
            do { p \<leftarrow> hw_jtagtap_init hw (rm_port s);
                 Some (remote_respond REMOTE_RESP_OK 0, s\<lparr>rm_if := Some Remote_jtag, rm_jtag_proc := True, rm_port := p\<rparr>) }
          else if c = letter CHR ''R'' then
            do { (_, s) \<leftarrow> jtag_call hw (\<lambda>proc p. no_value (proc_reset proc p)) s;
                 Some (remote_respond REMOTE_RESP_OK 0, s) }
          else if c = letter CHR ''T'' then
            do { clock_cycles \<leftarrow> num_at 2 2 packet;
                 tms_states \<leftarrow> num_at 2 4 packet;
                 if packet_len < 4 then Some (remote_respond REMOTE_RESP_ERR REMOTE_ERROR_WRONGLEN, s)
                 else do { (_, s) \<leftarrow> jtag_call hw (\<lambda>proc p. no_value (proc_tms_seq proc (ucast tms_states) (unat clock_cycles) p)) s;
                           Some (remote_respond REMOTE_RESP_OK 0, s) } }
          else if c = letter CHR ''c'' then
            do { clock_cycles \<leftarrow> num_at 8 4 packet;
                 tms \<leftarrow> char_at 2 packet;
                 tdi \<leftarrow> char_at 3 packet;
                 (_, s) \<leftarrow> jtag_call hw (\<lambda>proc p. no_value (proc_cycle proc (tms \<noteq> 0x30) (tdi \<noteq> 0x30) (ucast clock_cycles) p)) s;
                 Some (remote_respond REMOTE_RESP_OK 0, s) }
          else if c = letter CHR ''D'' \<or> c = letter CHR ''d'' then
            (if packet_len < 5 then Some (remote_respond REMOTE_RESP_ERR REMOTE_ERROR_WRONGLEN, s)
             else do { clock_cycles \<leftarrow> num_at 2 2 packet;
                       data_in \<leftarrow> num_at SIZE_MAX 4 packet;
                       (data_out, s) \<leftarrow> jtag_call hw (\<lambda>proc.
                         proc_tdi_tdo_seq proc (bytes_of_u64 0) (c = letter CHR ''D'') (bytes_of_u64 data_in) (unat clock_cycles)) s;
                       Some (remote_respond REMOTE_RESP_OK (u64_of_bytes data_out), s) })
          else if c = letter CHR ''N'' then
            (if packet_len \<noteq> 4 then Some (remote_respond REMOTE_RESP_ERR REMOTE_ERROR_WRONGLEN, s)
             else do { tms \<leftarrow> char_at 2 packet;
                       tdi \<leftarrow> char_at 3 packet;
                       (tdo, s) \<leftarrow> jtag_call hw (\<lambda>proc. proc_next proc (tms = 0x31) (tdi = 0x31)) s;
                       Some (remote_respond REMOTE_RESP_OK (if tdo then 1 else 0), s) })
          else Some (remote_respond REMOTE_RESP_ERR REMOTE_ERROR_UNRECOGNISED, s) }"

definition remote_packet_process_general :: "'p remote_hw \<Rightarrow> byte list \<Rightarrow> nat \<Rightarrow> 'p remote \<Rightarrow> (byte list \<times> 'p remote) option" where
  "remote_packet_process_general hw packet packet_len s =
     do { c \<leftarrow> char_at 1 packet;
          if c = letter CHR ''V'' then Some (remote_respond_string REMOTE_RESP_OK (hw_voltage hw (rm_port s)), s)
          else if c = letter CHR ''Z'' then
            do { v \<leftarrow> char_at 2 packet;
                 Some (remote_respond REMOTE_RESP_OK 0, s\<lparr>rm_port := hw_nrst_set hw (v = 0x31) (rm_port s)\<rparr>) }
          else if c = letter CHR ''z'' then Some (remote_respond REMOTE_RESP_OK (if hw_nrst_get hw (rm_port s) then 1 else 0), s)
          else if c = letter CHR ''F'' then
            do { freq \<leftarrow> num_at 8 2 packet;
                 Some (remote_respond REMOTE_RESP_OK 0, s\<lparr>rm_port := hw_frequency_set hw (ucast freq) (rm_port s)\<rparr>) }
          else if c = letter CHR ''f'' then
            do { out \<leftarrow> remote_respond_buf (hw_slack hw) REMOTE_RESP_OK (bytes_of_u32 (hw_frequency_get hw (rm_port s))); Some (out, s) }
          else if c = letter CHR ''P'' then
            (case hw_power hw of
               None \<Rightarrow> Some (remote_respond REMOTE_RESP_NOTSUP 0, s)
             | Some pw \<Rightarrow>
                 do { v \<leftarrow> char_at 2 packet;
                      if v = 0x31 \<and> \<not> pw_get pw (rm_port s) \<and> pw_sense pw (rm_port s) > POWER_CONFLICT_THRESHOLD
                      then Some (remote_respond REMOTE_RESP_ERR 0, s)
                      else (let (result, p) = pw_set pw (v = 0x31) (rm_port s)
                            in Some (remote_respond (if result then REMOTE_RESP_OK else REMOTE_RESP_ERR) 0, s\<lparr>rm_port := p\<rparr>)) })
          else if c = letter CHR ''p'' then
            (case hw_power hw of
               None \<Rightarrow> Some (remote_respond REMOTE_RESP_NOTSUP 0, s)
             | Some pw \<Rightarrow> Some (remote_respond REMOTE_RESP_OK (if pw_get pw (rm_port s) then 1 else 0), s))
          else if c = letter CHR ''A'' then Some (remote_respond_string REMOTE_RESP_OK (hw_ident hw), s\<lparr>rm_debug_bmp := True\<rparr>)
          else if c = letter CHR ''E'' then
            do { v \<leftarrow> char_at 2 packet;
                 Some (remote_respond REMOTE_RESP_OK 0, s\<lparr>rm_port := hw_clk_output_enable hw (v \<noteq> 0x30) (rm_port s)\<rparr>) }
          else Some (remote_respond REMOTE_RESP_ERR REMOTE_ERROR_UNRECOGNISED, s) }"

definition chain_of :: "'p remote \<Rightarrow> 'p jtag" where
  "chain_of s = \<lparr>jtag_devs = rm_devs s, jtag_dev_count = rm_dev_count s, js_port = rm_port s\<rparr>"

definition set_chain :: "'p jtag \<Rightarrow> 'p remote \<Rightarrow> 'p remote" where
  "set_chain c s = s\<lparr>rm_devs := jtag_devs c, rm_dev_count := jtag_dev_count c, rm_port := js_port c\<rparr>"

definition remote_packet_process_high_level :: "byte list \<Rightarrow> nat \<Rightarrow> 'p remote \<Rightarrow> (byte list \<times> 'p remote) option" where
  "remote_packet_process_high_level packet packet_len s =
     do { c \<leftarrow> char_at 1 packet;
          if c = letter CHR ''C'' then Some (remote_respond REMOTE_RESP_OK REMOTE_HL_VERSION, s)
          else if c = letter CHR ''J'' then
            (if packet_len < 22 then Some (remote_respond REMOTE_RESP_ERR REMOTE_ERROR_WRONGLEN, s)
             else do { index \<leftarrow> num_at 2 2 packet;
                       dr_pre \<leftarrow> num_at 2 4 packet;
                       dr_post \<leftarrow> num_at 2 6 packet;
                       irlen \<leftarrow> num_at 2 8 packet;
                       ir_pre \<leftarrow> num_at 2 10 packet;
                       ir_post \<leftarrow> num_at 2 12 packet;
                       ir \<leftarrow> num_at 8 14 packet;
                       c \<leftarrow> jtag_add_device (ucast (ucast index :: u8))
                         \<lparr>jd_idcode = 0, current_ir = ucast ir, dr_prescan = ucast dr_pre, dr_postscan = ucast dr_post,
                          ir_len = ucast irlen, ir_prescan = ucast ir_pre, ir_postscan = ucast ir_post\<rparr> (chain_of s);
                       Some (remote_respond REMOTE_RESP_OK 0, set_chain c s) })
          else Some (remote_respond REMOTE_RESP_ERR REMOTE_ERROR_UNRECOGNISED, s) }"


subsection \<open>Exceptions\<close>

text \<open>An exception of the debug port unwinds to remote_packet_process. Until the handler is back there, every operation
  of the port does nothing once an exception has been raised; what lies between the operations has no effect of its
  own, so the state is the one at the exception.\<close>

record 'd raising =
  rs_dp :: 'd
  rs_raised :: "string option"

definition unless_raised :: "'a \<Rightarrow> ('d \<Rightarrow> ((string + 'a) \<times> 'd) option) \<Rightarrow> 'd raising \<Rightarrow> ('a \<times> 'd raising) option" where
  "unless_raised x f s =
     (case rs_raised s of
        Some _ \<Rightarrow> Some (x, s)
      | None \<Rightarrow>
          (case f (rs_dp s) of
             None \<Rightarrow> None
           | Some (Inl e, d) \<Rightarrow> Some (x, s\<lparr>rs_dp := d, rs_raised := Some e\<rparr>)
           | Some (Inr y, d) \<Rightarrow> Some (y, s\<lparr>rs_dp := d\<rparr>)))"

definition no_raise :: "('d \<Rightarrow> ('a \<times> 'd) option) \<Rightarrow> 'd \<Rightarrow> ((string + 'a) \<times> 'd) option" where
  "no_raise f d = map_option (\<lambda>(x, d). (Inr x, d)) (f d)"

text \<open>The pointers that REMOTE_INIT sets for SWD, and for JTAG.\<close>

definition swd_raise_base :: "'p swd_proc \<Rightarrow> nat \<Rightarrow> 'p swd_dp raising dp_ops" where
  "swd_raise_base proc fuel =
     \<lparr>dp_read = (\<lambda>_ _. None),
      dp_low_access = (\<lambda>rnw addr val. unless_raised 0 (firmware_swdp_low_access proc fuel rnw addr val)),
      dp_error = (\<lambda>protocol_recovery. unless_raised 0 (no_raise (adiv5_swd_clear_error proc protocol_recovery))),
      dp_abort = (\<lambda>abort s. map_option snd (unless_raised 0 (firmware_swdp_low_access proc fuel ADIV5_LOW_WRITE ADIV5_DP_ABORT abort) s)),
      dp_fault_of = (\<lambda>s. sw_fault (rs_dp s)),
      dp_fault_set = (\<lambda>v s. if rs_raised s = None then s\<lparr>rs_dp := (rs_dp s)\<lparr>sw_fault := v\<rparr>\<rparr> else s),
      swd_seq_in_parity = (\<lambda>s. map_option snd (unless_raised (False, 0) (no_raise (from_swd (proc_seq_in_parity proc 32))) s))\<rparr>"

definition swd_raise_ops :: "'p swd_proc \<Rightarrow> nat \<Rightarrow> 'p swd_dp raising dp_ops" where
  "swd_raise_ops proc fuel = (swd_raise_base proc fuel)\<lparr>dp_read := firmware_swdp_read (swd_raise_base proc fuel)\<rparr>"

definition jtag_raise_ops :: "'p jtag_proc \<Rightarrow> 'p swd_proc \<Rightarrow> 'p jtag_dp raising dp_ops" where
  "jtag_raise_ops proc swd =
     (let ops = \<lparr>dp_read = (\<lambda>_ _. None),
                 dp_low_access = (\<lambda>rnw addr val. unless_raised 0 (fw_adiv5_jtagdp_low_access proc rnw addr val)),
                 dp_error = (\<lambda>_ _. None),
                 dp_abort = (\<lambda>abort s. map_option snd (unless_raised () (no_raise (\<lambda>d. no_value (adiv5_jtagdp_abort proc abort d))) s)),
                 dp_fault_of = (\<lambda>s. jt_fault (rs_dp s)),
                 dp_fault_set = (\<lambda>v s. if rs_raised s = None then s\<lparr>rs_dp := (rs_dp s)\<lparr>jt_fault := v\<rparr>\<rparr> else s),
                 swd_seq_in_parity = (\<lambda>s. map_option snd (unless_raised (False, 0) (no_raise (\<lambda>d.
                   do { (x, c) \<leftarrow> from_port (proc_seq_in_parity swd 32) (jt_chain d); Some (x, d\<lparr>jt_chain := c\<rparr>) })) s))\<rparr>;
          ops = ops\<lparr>dp_read := fw_adiv5_jtagdp_read ops\<rparr>
      in ops\<lparr>dp_error := adiv5_jtagdp_error ops\<rparr>)"

definition null_ops :: "('s \<Rightarrow> u8) \<Rightarrow> 's dp_ops" where
  "null_ops fault = \<lparr>dp_read = (\<lambda>_ _. None), dp_low_access = (\<lambda>_ _ _ _. None), dp_error = (\<lambda>_ _. None), dp_abort = (\<lambda>_ _. None),
     dp_fault_of = fault, dp_fault_set = (\<lambda>_ s. s), swd_seq_in_parity = (\<lambda>_. None)\<rparr>"

subsection \<open>Access to the debug port\<close>

text \<open>Decoding into the buffer the packet is in: the byte is written at its place before the next digits are read.\<close>

primrec unhexify_in_place :: "nat \<Rightarrow> nat \<Rightarrow> nat \<Rightarrow> byte list \<Rightarrow> byte list option" where
  "unhexify_in_place offset idx 0 packet = Some packet"
| "unhexify_in_place offset idx (Suc n) packet =
     (if offset + 2 * idx + 1 < length packet
      then unhexify_in_place offset (idx + 1) n
             (packet[idx := push_bit 4 (unhex_digit (packet ! (offset + 2 * idx))) OR unhex_digit (packet ! (offset + 2 * idx + 1))])
      else None)"

definition decode_data :: "bool \<Rightarrow> nat \<Rightarrow> nat \<Rightarrow> byte list \<Rightarrow> byte list option" where
  "decode_data shared offset len packet =
     (if shared then map_option (take len) (unhexify_in_place offset 0 len packet) else unhexify len (drop offset packet))"

definition align_of_num :: "nat \<Rightarrow> align_e option" where
  "align_of_num n =
     (if n = 0 then Some ALIGN_8BIT else if n = 1 then Some ALIGN_16BIT else if n = 2 then Some ALIGN_32BIT
      else if n = 3 then Some ALIGN_64BIT else None)"

text \<open>What a command asks for in response: a response as it stands, or remote_adiv5_respond with the data.\<close>

datatype adiv5_reply = Respond "byte list" | Answer "byte list option"

definition remote_adiv5_respond :: "nat \<Rightarrow> u8 \<Rightarrow> byte list option \<Rightarrow> byte list option" where
  "remote_adiv5_respond slack fault dat =
     (if fault \<noteq> 0 then Some (remote_respond REMOTE_RESP_ERR (REMOTE_ERROR_FAULT OR push_bit 8 (ucast fault)))
      else (case dat of
              Some bs \<Rightarrow> remote_respond_buf slack REMOTE_RESP_OK bs
            | None \<Rightarrow> Some (remote_respond REMOTE_RESP_OK 0)))"

text \<open>The switch of remote_packet_process_adiv5. An alignment that is no enumerator of align_e is not followed into the
  write.\<close>

definition adiv5_command :: "bool \<Rightarrow> 's dp_ops \<Rightarrow> u8 \<Rightarrow> byte list \<Rightarrow> 's \<Rightarrow> (adiv5_reply \<times> 's) option" where
  "adiv5_command shared ops sel packet s =
     (let ap = \<lparr>apsel = sel, idr = 0, ap_base = 0, csw = 0, ap_cortexm_demcr = 0\<rparr>
      in do { c \<leftarrow> char_at 1 packet;
              if c = letter CHR ''d'' then
                do { addr \<leftarrow> num_at 4 6 packet;
                     (dat, s) \<leftarrow> dp_read ops (ucast addr) s;
                     Some (Answer (Some (bytes_of_u32 dat)), s) }
              else if c = letter CHR ''R'' then
                do { addr \<leftarrow> num_at 4 6 packet;
                     val \<leftarrow> num_at 8 10 packet;
                     (dat, s) \<leftarrow> dp_low_access ops sel (ucast addr) (ucast val) s;
                     Some (Answer (Some (bytes_of_u32 dat)), s) }
              else if c = letter CHR ''a'' then
                do { addr \<leftarrow> num_at 4 6 packet;
                     (dat, s) \<leftarrow> firmware_ap_read ops ap (ucast addr) s;
                     Some (Answer (Some (bytes_of_u32 dat)), s) }
              else if c = letter CHR ''A'' then
                do { addr \<leftarrow> num_at 4 6 packet;
                     val \<leftarrow> num_at 8 10 packet;
                     s \<leftarrow> firmware_ap_write ops ap (ucast addr) (ucast val) s;
                     Some (Answer None, s) }
              else if c = letter CHR ''m'' then
                do { csw \<leftarrow> num_at 8 6 packet;
                     address \<leftarrow> num_at 8 14 packet;
                     len \<leftarrow> num_at 8 22 packet;
                     if len > 1024 then Some (Respond (remote_respond REMOTE_RESP_PARERR 0), s)
                     else do { (dat, s) \<leftarrow> advi5_mem_read_bytes ops (ap\<lparr>csw := ucast csw\<rparr>) (ucast address) (unat len) s;
                               Some (Answer (Some dat), s) } }
              else if c = letter CHR ''M'' then
                do { csw \<leftarrow> num_at 8 6 packet;
                     align \<leftarrow> num_at 2 14 packet;
                     dest \<leftarrow> num_at 8 16 packet;
                     len \<leftarrow> num_at 8 24 packet;
                     if len > 1024 then Some (Respond (remote_respond REMOTE_RESP_PARERR 0), s)
                     else if align \<ge> 32 then None
                     else if (ucast len :: u32) AND (push_bit (unat align) 1 - 1) \<noteq> 0 then Some (Respond (remote_respond REMOTE_RESP_PARERR 0), s)
                     else do { dat \<leftarrow> decode_data shared 32 (unat len) packet;
                               align \<leftarrow> align_of_num (unat align);
                               s \<leftarrow> adiv5_mem_write_bytes ops (ap\<lparr>csw := ucast csw\<rparr>) (ucast dest) dat (unat len) align s;
                               Some (Answer None, s) } }
              else Some (Respond (remote_respond REMOTE_RESP_ERR REMOTE_ERROR_UNRECOGNISED), s) })"

text \<open>The response to a command, unless an exception has been raised.\<close>

definition adiv5_response :: "nat \<Rightarrow> string option \<Rightarrow> u8 \<Rightarrow> adiv5_reply \<Rightarrow> byte list option" where
  "adiv5_response slack raised fault reply =
     (case raised of
        Some _ \<Rightarrow> Some (remote_respond REMOTE_RESP_ERR (REMOTE_ERROR_EXCEPTION OR push_bit 8 EXCEPTION_ERROR))
      | None \<Rightarrow> (case reply of Respond out \<Rightarrow> Some out | Answer dat \<Rightarrow> remote_adiv5_respond slack fault dat))"

definition swd_of :: "'p remote \<Rightarrow> 'p swd_dp" where
  "swd_of s = \<lparr>sw_port = rm_port s, sw_fault = rm_fault s, sw_version = 0, sw_instance = 0, sw_targetsel = 0, sw_expired = rm_expired s, sw_mallocs = []\<rparr>"

definition set_swd :: "'p swd_dp \<Rightarrow> 'p remote \<Rightarrow> 'p remote" where
  "set_swd d s = s\<lparr>rm_port := sw_port d, rm_fault := sw_fault d, rm_expired := sw_expired d\<rparr>"

definition jtag_of :: "'p remote \<Rightarrow> 'p jtag_dp" where
  "jtag_of s = \<lparr>jt_chain = chain_of s, jt_dev_index = rm_dev_index s, jt_fault = rm_fault s, jt_designer_code = 0, jt_partno = 0, jt_expired = rm_expired s\<rparr>"

definition set_jtag :: "'p jtag_dp \<Rightarrow> 'p remote \<Rightarrow> 'p remote" where
  "set_jtag d s = (set_chain (jt_chain d) s)\<lparr>rm_fault := jt_fault d, rm_expired := jt_expired d\<rparr>"

text \<open>With the TRY_CATCH of remote_packet_process around it.\<close>

definition remote_packet_process_adiv5 :: "'p remote_hw \<Rightarrow> nat \<Rightarrow> byte list \<Rightarrow> nat \<Rightarrow> 'p remote \<Rightarrow> (byte list \<times> 'p remote) option" where
  "remote_packet_process_adiv5 hw fuel packet packet_len s =
     (if packet_len < 8 then Some (remote_respond REMOTE_RESP_PARERR 0, s)
      else do {
        index \<leftarrow> num_at 2 2 packet;
        sel \<leftarrow> num_at 2 4 packet;
        let s = s\<lparr>rm_dev_index := ucast index\<rparr>;
        (case rm_if s of
           None \<Rightarrow>
             do { (reply, s) \<leftarrow> adiv5_command (hw_shared hw) (null_ops rm_fault) (ucast sel) packet s;
                  out \<leftarrow> adiv5_response (hw_slack hw) None (rm_fault s) reply;
                  Some (out, s) }
         | Some Remote_swd \<Rightarrow>
             do { (reply, r) \<leftarrow> adiv5_command (hw_shared hw) (swd_raise_ops (hw_swd hw) fuel) (ucast sel) packet \<lparr>rs_dp = swd_of s, rs_raised = None\<rparr>;
                  out \<leftarrow> adiv5_response (hw_slack hw) (rs_raised r) (sw_fault (rs_dp r)) reply;
                  Some (out, set_swd (rs_dp r) s) }
         | Some Remote_jtag \<Rightarrow>
             do { (reply, r) \<leftarrow> adiv5_command (hw_shared hw) (jtag_raise_ops (hw_jtag hw) (hw_swd hw)) (ucast sel) packet \<lparr>rs_dp = jtag_of s, rs_raised = None\<rparr>;
                  out \<leftarrow> adiv5_response (hw_slack hw) (rs_raised r) (jt_fault (rs_dp r)) reply;
                  Some (out, set_jtag (rs_dp r) s) }) })"

subsection \<open>SPI\<close>

definition remote_spi_respond :: "bool \<Rightarrow> byte list" where
  "remote_spi_respond result = (if result then remote_respond REMOTE_RESP_OK 0 else remote_respond REMOTE_RESP_ERR REMOTE_ERROR_FAULT)"

definition remote_packet_process_spi :: "'p remote_hw \<Rightarrow> byte list \<Rightarrow> nat \<Rightarrow> 'p remote \<Rightarrow> (byte list \<times> 'p remote) option" where
  "remote_packet_process_spi hw packet packet_len s =
     (if packet_len < 4 then Some (remote_respond REMOTE_RESP_PARERR 0, s)
      else do {
        bus \<leftarrow> num_at 2 2 packet;
        c \<leftarrow> char_at 1 packet;
        let spi_bus = ucast bus;
        if c = letter CHR ''B'' then
          (let (result, p) = spi_init (hw_spi hw) spi_bus (rm_port s) in Some (remote_spi_respond result, s\<lparr>rm_port := p\<rparr>))
        else if c = letter CHR ''E'' then
          (let (result, p) = spi_deinit (hw_spi hw) spi_bus (rm_port s) in Some (remote_spi_respond result, s\<lparr>rm_port := p\<rparr>))
        else if c = letter CHR ''C'' then
          (let (result, p) = spi_chip_select (hw_spi hw) spi_bus (rm_port s) in Some (remote_spi_respond result, s\<lparr>rm_port := p\<rparr>))
        else if c = letter CHR ''X'' then
          do { data_in \<leftarrow> num_at 2 4 packet;
               let (data_out, p) = spi_xfer (hw_spi hw) spi_bus (ucast data_in) (rm_port s);
               Some (remote_respond REMOTE_RESP_OK (ucast data_out), s\<lparr>rm_port := p\<rparr>) }
        else if c = letter CHR ''r'' then
          do { device \<leftarrow> num_at 2 4 packet;
               command \<leftarrow> num_at 4 6 packet;
               address \<leftarrow> num_at 6 10 packet;
               len \<leftarrow> num_at 4 16 packet;
               if len > 256 then Some (remote_respond REMOTE_RESP_PARERR 0, s)
               else do { let (dat, p) = bmp_spi_read (hw_spi hw) spi_bus (ucast device) (ucast command) (ucast address) (unat len) (rm_port s);
                         out \<leftarrow> remote_respond_buf (hw_slack hw) REMOTE_RESP_OK dat;
                         Some (out, s\<lparr>rm_port := p\<rparr>) } }
        else if c = letter CHR ''w'' then
          do { device \<leftarrow> num_at 2 4 packet;
               command \<leftarrow> num_at 4 6 packet;
               address \<leftarrow> num_at 6 10 packet;
               len \<leftarrow> num_at 4 16 packet;
               if len > 256 then Some (remote_respond REMOTE_RESP_PARERR 0, s)
               else do { dat \<leftarrow> decode_data (hw_shared hw) 20 (unat len) packet;
                         let p = bmp_spi_write (hw_spi hw) spi_bus (ucast device) (ucast command) (ucast address) dat (rm_port s);
                         Some (remote_respond REMOTE_RESP_OK 0, s\<lparr>rm_port := p\<rparr>) } }
        else if c = letter CHR ''I'' then
          do { device \<leftarrow> num_at 2 4 packet;
               let (dat, p) = bmp_spi_read (hw_spi hw) spi_bus (ucast device) SPI_FLASH_CMD_READ_JEDEC_ID 0 3 (rm_port s);
               out \<leftarrow> remote_respond_buf (hw_slack hw) REMOTE_RESP_OK dat;
               Some (out, s\<lparr>rm_port := p\<rparr>) }
        else if c = letter CHR ''c'' then
          do { device \<leftarrow> num_at 2 4 packet;
               command \<leftarrow> num_at 4 6 packet;
               address \<leftarrow> num_at 6 10 packet;
               let p = bmp_spi_run_command (hw_spi hw) spi_bus (ucast device) (ucast command) (ucast address) (rm_port s);
               Some (remote_respond REMOTE_RESP_OK 0, s\<lparr>rm_port := p\<rparr>) }
        else Some (remote_respond REMOTE_RESP_ERR REMOTE_ERROR_UNRECOGNISED, s) })"

subsection \<open>All packets\<close>

definition remote_packet_process :: "'p remote_hw \<Rightarrow> nat \<Rightarrow> nat \<Rightarrow> byte list \<Rightarrow> 'p remote \<Rightarrow> (byte list \<times> 'p remote) option" where
  "remote_packet_process hw fuel i packet s =
     do { c \<leftarrow> char_at 0 packet;
          if c = letter CHR ''S'' then remote_packet_process_swd hw packet i s
          else if c = letter CHR ''J'' then remote_packet_process_jtag hw packet i s
          else if c = letter CHR ''G'' then remote_packet_process_general hw packet i s
          else if c = letter CHR ''H'' then remote_packet_process_high_level packet i s
          else if c = letter CHR ''A'' then remote_packet_process_adiv5 hw fuel packet i s
          else if c = letter CHR ''s'' then remote_packet_process_spi hw packet i s
          else Some (remote_respond REMOTE_RESP_ERR REMOTE_ERROR_UNRECOGNISED, s) }"

end
