(* ===== verification/Remote_Proto.thy ===== *)
theory Remote_Proto
  imports Remote Scanf
begin

text \<open>
  What holds of every packet of the remote protocol: the text of the responses, the decoding of data in place, the
  bounds of what a packet may ask for.
\<close>

subsection \<open>Numbers in responses\<close>

lemma hex_num_loop_append:
  assumes "list_all is_hex xs" "length xs \<le> m"
  shows "hex_num_loop m (xs @ ys) acc = hex_num_loop (m - length xs) ys (foldl (\<lambda>a c. push_bit 4 a OR ucast (unhex_digit c)) acc xs)"
  using assms
proof (induction xs arbitrary: m acc)
  case (Cons x xs)
  then obtain k where "m = Suc k" by (cases m) auto
  with Cons show ?case by simp
qed simp

lemma hex_num_loop_stop: "\<not> is_hex c \<Longrightarrow> 0 < m \<Longrightarrow> hex_num_loop m (c # cs) acc = Some acc"
  by (cases m) simp_all

lemma nibble: "(ucast ((v :: u64) AND 0xf) :: u8) < 16" "(ucast (ucast (v AND 0xf) :: u8) :: u64) = v AND 0xf"
proof -
  have m: "(0xf :: u64) = mask 4" by (simp add: mask_eq_exp_minus_1)
  have "(ucast (v AND 0xf) :: u8) = ucast v AND 0xf" unfolding m by (rule bit_word_eqI) (auto simp: bit_simps mask_eq_exp_minus_1 [of 4, where 'a = u8, simplified, symmetric])
  then show "(ucast (v AND 0xf) :: u8) < 16" using nibbles_less(2) [of "ucast v"] by simp
  show "(ucast (ucast (v AND 0xf) :: u8) :: u64) = v AND 0xf" unfolding m by (rule bit_word_eqI) (auto simp: bit_simps dest: bit_imp_le_length)
qed

lemma join_nibble: "push_bit 4 (drop_bit 4 v) OR (v AND 0xf) = (v :: u64)"
proof -
  have m: "(0xf :: u64) = mask 4" by (simp add: mask_eq_exp_minus_1)
  show ?thesis unfolding m by (rule bit_word_eqI) (auto simp: bit_simps)
qed

lemma digits_hex: "list_all is_hex (respond_digits n v)"
  by (induction n arbitrary: v) (simp_all add: nibble)

lemma length_digits: "length (respond_digits n v) \<le> n"
  by (induction n arbitrary: v) simp_all

lemma digits_value:
  "take_bit (4 * n) v = v \<Longrightarrow> foldl (\<lambda>a c. push_bit 4 a OR ucast (unhex_digit c)) 0 (rev (respond_digits n v)) = v"
proof (induction n arbitrary: v)
  case (Suc n)
  have v: "bit v i \<Longrightarrow> i < 4 * Suc n" for i using Suc.prems by (metis bit_take_bit_iff)
  have "take_bit (4 * n) (drop_bit 4 v) = drop_bit 4 v"
    by (rule bit_word_eqI) (auto simp: bit_simps dest: v)
  then have IH: "foldl (\<lambda>a c. push_bit 4 a OR ucast (unhex_digit c)) 0 (rev (respond_digits n (drop_bit 4 v))) = drop_bit 4 v" by (rule Suc.IH)
  show ?case using IH join_nibble [of v] by (simp add: nibble)
qed simp

lemma respond_frame:
  "\<exists>ds. remote_respond code v = [REMOTE_RESP, code] @ ds @ [REMOTE_EOM] \<and> 1 \<le> length ds \<and> length ds \<le> 16 \<and> list_all is_hex ds \<and>
    hex_string_to_num SIZE_MAX (ds @ 0 # rest) = Some v"
proof -
  let ?d = "respond_digits 16 v"
  let ?ds = "if ?d = [] then [0x30] else rev ?d"
  have z: "respond_digits 16 v = [] \<longleftrightarrow> v = 0" by (simp add: numeral_eq_Suc)
  have h: "\<not> is_hex 0" "is_hex 0x30" "unhex_digit 0x30 = 0" by (simp_all add: is_hex_def unhex_digit_def)
  have l: "list_all is_hex ?ds" "length ?ds \<le> 16" "1 \<le> length ?ds" using digits_hex [of 16 v] length_digits [of 16 v] h(2)
    by (auto simp: list_all_iff Suc_le_eq)
  have "take_bit (4 * 16) v = v" by (rule bit_word_eqI) (auto simp: bit_simps)
  then have f: "foldl (\<lambda>a c. push_bit 4 a OR ucast (unhex_digit c)) 0 ?ds = v" using digits_value [of 16 v] z h(3) by auto
  have m: "length ?ds \<le> SIZE_MAX" using l(2) by linarith
  have "0 < SIZE_MAX - length ?ds" using l(2) by linarith
  then have "hex_num_loop (SIZE_MAX - length ?ds) (0 # rest) v = Some v" using hex_num_loop_stop [OF h(1)] by blast
  then have "hex_string_to_num SIZE_MAX (?ds @ 0 # rest) = Some v"
    unfolding hex_string_to_num_def hex_num_loop_append [OF l(1) m] f .
  moreover have "remote_respond code v = [REMOTE_RESP, code] @ ?ds @ [REMOTE_EOM]" by (simp add: remote_respond_def Let_def)
  ultimately show ?thesis using l by blast
qed

text \<open>C36: A number in a response survives the trip: what remote_respond sends for a code and a 64-bit number is the start
  marker, the code, one to sixteen hexadecimal digits and the end marker, and reading the digits back with
  hex_string_to_num, up to the terminator the host puts in the place of the end marker, gives the number.\<close>

theorem remote_respond_roundtrip:
  "\<exists>ds. remote_respond code v = [REMOTE_RESP, code] @ ds @ [REMOTE_EOM] \<and> 1 \<le> length ds \<and> length ds \<le> 16 \<and> list_all is_hex ds \<and>
    hex_string_to_num SIZE_MAX (ds @ 0 # rest) = Some v"
  by (rule respond_frame)

subsection \<open>Data in place\<close>

lemma length_unhexify: "unhexify n hex = Some bs \<Longrightarrow> length bs = n"
  by (induction n arbitrary: hex bs) (auto split: list.splits bind_splits)

lemma unhexify_None: "unhexify n hex = None \<longleftrightarrow> length hex < 2 * n"
proof (induction n arbitrary: hex)
  case (Suc n)
  show ?case
  proof (cases hex rule: remdups_adj.cases)
    case (3 a b cs)
    then show ?thesis using Suc [of cs] by (cases "unhexify n cs") auto
  qed auto
qed simp

lemma unhexify_step:
  assumes "k + 1 < length p"
  shows "unhexify (Suc n) (drop k p) = do { bs \<leftarrow> unhexify n (drop (k + 2) p); Some ((push_bit 4 (unhex_digit (p ! k)) OR unhex_digit (p ! (k + 1))) # bs) }"
proof -
  have "drop k p = p ! k # p ! (k + 1) # drop (k + 2) p" using assms by (simp add: Cons_nth_drop_Suc)
  then show ?thesis by simp
qed

lemma unhexify_in_place:
  "idx + n \<le> length p \<Longrightarrow> unhexify_in_place offset idx n p = map_option (\<lambda>bs. take idx p @ bs @ drop (idx + n) p) (unhexify n (drop (offset + 2 * idx) p))"
proof (induction n arbitrary: idx p)
  case (Suc n)
  let ?k = "offset + 2 * idx"
  let ?b = "push_bit 4 (unhex_digit (p ! ?k)) OR unhex_digit (p ! (?k + 1))"
  show ?case
  proof (cases "?k + 1 < length p")
    case True
    have t: "take (idx + 1) (p[idx := ?b]) = take idx p @ [?b]" using Suc.prems by (simp add: take_Suc_conv_app_nth)
    have d: "drop (offset + 2 * (idx + 1)) (p[idx := ?b]) = drop (?k + 2) p" "drop (idx + 1 + n) (p[idx := ?b]) = drop (idx + Suc n) p" by simp_all
    show ?thesis using True Suc.IH [of "idx + 1" "p[idx := ?b]"] Suc.prems unfolding t d unhexify_step [OF True]
      by (auto simp del: unhexify.simps split: bind_splits)
  next
    case False
    then have "unhexify (Suc n) (drop ?k p) = None" unfolding unhexify_None by simp
    then show ?thesis using False by simp
  qed
qed simp

lemma decode_same: "len \<le> length packet \<Longrightarrow> decode_data shared offset len packet = unhexify len (drop offset packet)"
  using unhexify_in_place [of 0 len packet offset]
  by (cases "unhexify len (drop offset packet)") (auto simp: decode_data_def dest: length_unhexify)

lemma length_hexify: "length (hexify bs) = 2 * length bs + 1"
  by (induction bs) (simp_all add: hexify_def)

text \<open>Decoding the data of a packet into the buffer that the packet itself is in gives what decoding into another buffer
  gives: no digit is overwritten before it has been read. Either way it is defined just when the digits are in the
  buffer.\<close>

theorem remote_decode_in_place:
  assumes "len \<le> length packet"
  shows "decode_data True offset len packet = decode_data False offset len packet \<and>
    (decode_data False offset len packet = None \<longleftrightarrow> 0 < len \<and> length packet < offset + 2 * len)"
  unfolding decode_same [OF assms] by (auto simp: unhexify_None)

theorem remote_decode_in_place_witness:
  "decode_data True 2 3 (hexify [1, 2, 3, 4]) = decode_data False 2 3 (hexify [1, 2, 3, 4]) \<and>
    (decode_data False 2 3 (hexify [1, 2, 3, 4]) = None \<longleftrightarrow> 0 < (3 :: nat) \<and> length (hexify [1, 2, 3, 4]) < 2 + 2 * 3)"
  by (rule remote_decode_in_place) (simp add: hexify_def)

lemma respond_buf_frame:
  "remote_respond_buf slack code bs =
    (if slack = 0 \<and> bs \<noteq> [] then None else Some ([REMOTE_RESP, code] @ butlast (hexify bs) @ [REMOTE_EOM]))"
proof -
  have "remote_send_buf slack bs = (if slack = 0 \<and> bs \<noteq> [] then None else Some (butlast (hexify bs)))"
    by (induction bs) (auto simp: hexify_def)
  then show ?thesis by (simp add: remote_respond_buf_def)
qed


text \<open>C38: A response with data has two digits for each byte, but only where the stack has room for one byte more than
  remote_send_buf reserves: hexify writes a terminator behind the two digits, outside of the array of two characters.\<close>

theorem remote_respond_buf_overruns:
  "remote_respond_buf slack code bs =
    (if slack = 0 \<and> bs \<noteq> [] then None else Some ([REMOTE_RESP, code] @ butlast (hexify bs) @ [REMOTE_EOM]))"
  by (rule respond_buf_frame)

subsection \<open>One response per packet\<close>

definition framed :: "byte list \<Rightarrow> bool" where
  "framed out \<longleftrightarrow> 3 \<le> length out \<and> out ! 0 = REMOTE_RESP \<and> out ! 1 \<in> {REMOTE_RESP_OK, REMOTE_RESP_PARERR, REMOTE_RESP_ERR, REMOTE_RESP_NOTSUP} \<and>
     last out = REMOTE_EOM \<and> list_all (\<lambda>c. c \<notin> {REMOTE_SOM, REMOTE_EOM, GDB_PACKET_START}) (butlast (drop 2 out))"

lemma framedI:
  assumes "code \<in> {REMOTE_RESP_OK, REMOTE_RESP_PARERR, REMOTE_RESP_ERR, REMOTE_RESP_NOTSUP}" "list_all (\<lambda>c. c \<notin> {REMOTE_SOM, REMOTE_EOM, GDB_PACKET_START}) body"
  shows "framed ([REMOTE_RESP, code] @ body @ [REMOTE_EOM])"
  using assms unfolding framed_def by simp

lemma hex_not_frame: "is_hex c \<Longrightarrow> c \<notin> {REMOTE_SOM, REMOTE_EOM, GDB_PACKET_START}"
  by (auto simp: is_hex_def)

lemma framed_respond [simp]: "code \<in> {REMOTE_RESP_OK, REMOTE_RESP_PARERR, REMOTE_RESP_ERR, REMOTE_RESP_NOTSUP} \<Longrightarrow> framed (remote_respond code v)"
  unfolding remote_respond_def Let_def using digits_hex [of 16 v]
  by (intro framedI) (auto simp: list_all_iff dest: hex_not_frame)

lemma framed_string [simp]: "code \<in> {REMOTE_RESP_OK, REMOTE_RESP_PARERR, REMOTE_RESP_ERR, REMOTE_RESP_NOTSUP} \<Longrightarrow> framed (remote_respond_string code str)"
  unfolding remote_respond_string_def by (intro framedI) (auto simp: list_all_iff)

lemma send_buf_hex: "remote_send_buf slack bs = Some hex \<Longrightarrow> list_all is_hex hex"
  by (induction bs arbitrary: hex) (auto simp: hexify_def Let_def split: if_splits bind_splits)

lemma framed_buf:
  "code \<in> {REMOTE_RESP_OK, REMOTE_RESP_PARERR, REMOTE_RESP_ERR, REMOTE_RESP_NOTSUP} \<Longrightarrow> remote_respond_buf slack code bs = Some out \<Longrightarrow> framed out"
  unfolding remote_respond_buf_def using send_buf_hex [of slack bs] hex_not_frame framedI
  by (fastforce simp: list_all_iff split: bind_splits)

lemma swd_framed: "remote_packet_process_swd hw packet i s = Some (out, s') \<Longrightarrow> framed out"
  unfolding remote_packet_process_swd_def by (auto split: if_splits bind_splits)

lemma jtag_framed: "remote_packet_process_jtag hw packet i s = Some (out, s') \<Longrightarrow> framed out"
  unfolding remote_packet_process_jtag_def by (auto split: if_splits bind_splits)

lemma general_framed: "remote_packet_process_general hw packet i s = Some (out, s') \<Longrightarrow> framed out"
  unfolding remote_packet_process_general_def by (auto simp: Let_def split: if_splits bind_splits option.splits prod.splits intro: framed_buf [rotated])

lemma high_level_framed: "remote_packet_process_high_level packet i s = Some (out, s') \<Longrightarrow> framed out"
  unfolding remote_packet_process_high_level_def by (auto split: if_splits bind_splits)

lemma command_framed: "adiv5_command shared ops sel packet s = Some (Respond out, s') \<Longrightarrow> framed out"
  unfolding adiv5_command_def by (auto simp: Let_def split: if_splits bind_splits)

lemma response_framed:
  assumes "adiv5_command shared ops sel packet s = Some (reply, s')" "adiv5_response slack raised fault reply = Some out"
  shows "framed out"
  using assms command_framed [of shared ops sel packet s _ s']
  by (auto simp: adiv5_response_def remote_adiv5_respond_def split: option.splits adiv5_reply.splits if_splits intro: framed_buf [rotated])

lemma adiv5_framed: "remote_packet_process_adiv5 hw fuel packet i s = Some (out, s') \<Longrightarrow> framed out"
  unfolding remote_packet_process_adiv5_def
  by (auto simp: Let_def split: if_splits bind_splits option.splits remote_if.splits prod.splits dest: response_framed)

lemma spi_framed: "remote_packet_process_spi hw packet i s = Some (out, s') \<Longrightarrow> framed out"
  unfolding remote_packet_process_spi_def
  by (auto simp: Let_def remote_spi_respond_def split: if_splits bind_splits prod.splits intro: framed_buf [rotated])

lemmas packets_framed = swd_framed jtag_framed general_framed high_level_framed adiv5_framed spi_framed

text \<open>C19: Every packet that is processed gets exactly one response, and its frame is intact: the start marker, one of the
  four codes, and a body without any of the characters that start or end a packet of either protocol, up to the end
  marker, whatever the platform's strings and the target's data are.\<close>

theorem remote_one_response: "remote_packet_process hw fuel i packet s = Some (out, s') \<Longrightarrow> framed out"
  unfolding remote_packet_process_def by (auto split: if_splits bind_splits dest: packets_framed)

definition sample_hw :: "unit remote_hw" where
  "sample_hw =
     \<lparr>hw_swd = \<lparr>proc_seq_in = (\<lambda>_ p. Some (0, p)), proc_seq_in_parity = (\<lambda>_ p. Some ((False, 0), p)), proc_seq_out = (\<lambda>_ _. Some), proc_seq_out_parity = (\<lambda>_ _. Some)\<rparr>,
      hw_jtag = \<lparr>proc_reset = Some, proc_next = (\<lambda>_ _ p. Some (True, p)), proc_tms_seq = (\<lambda>_ _. Some), proc_tdi_tdo_seq = (\<lambda>out _ _ _ p. Some (out, p)),
        proc_tdi_seq = (\<lambda>_ _ _. Some), proc_cycle = (\<lambda>_ _ _. Some), tap_idle_cycles = 1\<rparr>,
      hw_jtagtap_init = Some, hw_shared = False, hw_slack = 1, hw_voltage = (\<lambda>_. ascii ''3.3V #1''), hw_nrst_set = (\<lambda>_ p. p), hw_nrst_get = (\<lambda>_. False),
      hw_frequency_set = (\<lambda>_ p. p), hw_frequency_get = (\<lambda>_. 1000000), hw_power = None, hw_ident = ascii ''ESP32-S3'', hw_clk_output_enable = (\<lambda>_ p. p),
      hw_spi = \<lparr>spi_init = (\<lambda>_ p. (False, p)), spi_deinit = (\<lambda>_ p. (False, p)), spi_chip_select = (\<lambda>_ p. (False, p)), spi_xfer = (\<lambda>_ _ p. (0, p))\<rparr>\<rparr>"

definition sample_remote :: "unit remote" where
  "sample_remote = \<lparr>rm_port = (), rm_fault = 0, rm_dev_index = 0, rm_if = None, rm_swd_proc = False, rm_jtag_proc = False, rm_devs = replicate 32 zero_dev,
     rm_dev_count = 0, rm_expired = [], rm_debug_bmp = False\<rparr>"

theorem remote_one_response_witness:
  "remote_packet_process sample_hw 0 2 (ascii ''GV'' @ [0]) sample_remote = Some (ascii ''&K3.3V  1#'', sample_remote) \<and> framed (ascii ''&K3.3V  1#'')"
proof -
  have "remote_packet_process sample_hw 0 2 (ascii ''GV'' @ [0]) sample_remote = Some (ascii ''&K3.3V  1#'', sample_remote)"
    by (simp add: remote_packet_process_def remote_packet_process_general_def char_at_def ascii_def sample_hw_def remote_respond_string_def)
  then show ?thesis using remote_one_response by blast
qed


subsection \<open>Bounds\<close>

lemma hex_num_numeral:
  "hex_num_loop (numeral k) (c # str) ret =
    (if \<not> is_hex c then Some ret else hex_num_loop (pred_numeral k) str (push_bit 4 ret OR ucast (unhex_digit c)))"
  by (simp add: numeral_eq_Suc)

lemma tdi_tdo_loop_overrun:
  assumes "length data_in = 8" "n > 64"
  shows "n - k \<le> 64 \<Longrightarrow> tdi_tdo_clk_delay_loop clock data_in f n k v out p = None"
proof (induction k arbitrary: v out p)
  case (Suc k)
  show ?case
  proof (cases "n - Suc k = 64")
    case True
    then show ?thesis using assms(1) by simp
  next
    case False
    then have "tdi_tdo_clk_delay_loop clock data_in f n k v out p = None" for v out p using Suc.prems assms(2) by (intro Suc.IH) linarith
    then show ?thesis by (simp add: Let_def)
  qed
qed (use assms(2) in simp)

lemma tdi_tdo_overrun:
  assumes "idle_pins p" "length data_in = 8" "n > 64"
  shows "jtagtap_tdi_tdo_seq clock out f data_in n p = None"
proof -
  let ?p = "p\<lparr>tms_pin := False, tdi_pin := False\<rparr>"
  have "jtagtap_tdi_tdo_seq_clk_delay clock data_in out f n ?p = None"
    using tdi_tdo_loop_overrun [OF assms(2,3), of n clock f 0 out ?p] by (simp add: jtagtap_tdi_tdo_seq_clk_delay_def)
  moreover have "jtagtap_tdi_tdo_seq_no_delay clock data_in out f n ?p = jtagtap_tdi_tdo_seq_clk_delay clock data_in out f n ?p"
    using assms(1) by (intro seq_no_delay(2)) (simp add: idle_pins_def)
  ultimately show ?thesis by (simp add: jtagtap_tdi_tdo_seq_def Let_def)
qed

text \<open>A packet for a JTAG data sequence may ask for up to 255 cycles, and the data of a packet is 64 bits: on the
  bit-banged port a sequence of at most 64 cycles clocks the bits of the data into the device and responds with the bits
  that came out, and a longer one reads and writes outside of the two words.\<close>

theorem remote_tdi_tdo_bound:
  assumes "hw_jtag hw = gpio_proc clock" "rm_jtag_proc s" "idle_pins (rm_port s)"
    and "packet ! 0 = letter CHR ''J''" "packet ! 1 = (if final then letter CHR ''D'' else letter CHR ''d'')" "5 \<le> i" "2 \<le> length packet"
    and "num_at 2 2 packet = Some n" "num_at SIZE_MAX 4 packet = Some v"
  shows "if unat n \<le> 64
    then (let (bs, d) = clocks clock (data_steps (bytes_of_u64 v) final (unat n)) (jp_dev (rm_port s))
          in \<exists>p. remote_packet_process hw fuel i packet s = Some (remote_respond REMOTE_RESP_OK (horner_sum of_bool 2 bs), s\<lparr>rm_port := p\<rparr>) \<and>
               idle_pins p \<and> jp_dev p = d)
    else remote_packet_process hw fuel i packet s = None"
proof -
  let ?bs = "fst (clocks clock (data_steps (bytes_of_u64 v) final (unat n)) (jp_dev (rm_port s)))"
  have run: "remote_packet_process hw fuel i packet s =
      do { (data_out, p) \<leftarrow> jtagtap_tdi_tdo_seq clock (bytes_of_u64 0) final (bytes_of_u64 v) (unat n) (rm_port s);
           Some (remote_respond REMOTE_RESP_OK (u64_of_bytes data_out), s\<lparr>rm_port := p\<rparr>) }"
  proof -
    have c: "char_at 0 packet = Some (packet ! 0)" "char_at 1 packet = Some (packet ! 1)" using assms(7) by (auto simp: char_at_def)
    show ?thesis unfolding remote_packet_process_def remote_packet_process_jtag_def c using assms
      by (cases final) (simp_all add: jtag_call_def gpio_proc_def split: bind_splits)
  qed
  show ?thesis
  proof (cases "unat n \<le> 64")
    case True
    have b0: "bytes_of_u64 0 = replicate 8 0" by (simp add: bytes_of_u64_def bytes_of_u32_def numeral_eq_Suc)
    have l: "length ?bs = unat n" by (simp add: length_clocks data_steps_def)
    have bb: "?bs = bits64 (horner_sum of_bool 2 ?bs) (unat n)"
      by (rule nth_equalityI) (use l True in \<open>auto simp: bits64_def bit_horner_sum_bit_word_iff\<close>)
    have tb: "take_bit (unat n) (horner_sum of_bool 2 ?bs :: u64) = horner_sum of_bool 2 ?bs"
      by (rule bit_word_eqI) (use l in \<open>auto simp: bit_simps bit_horner_sum_bit_word_iff\<close>)
    have "pack_bits ?bs @ drop ((unat n + 7) div 8) (bytes_of_u64 0) = bytes_of_u64 (horner_sum of_bool 2 ?bs)"
      unfolding b0 using pack_bits64 [OF True, of "horner_sum of_bool 2 ?bs"] bb tb by simp
    then obtain p where "jtagtap_tdi_tdo_seq clock (bytes_of_u64 0) final (bytes_of_u64 v) (unat n) (rm_port s) = Some (bytes_of_u64 (horner_sum of_bool 2 ?bs), p)"
      "idle_pins p" "jp_dev p = snd (clocks clock (data_steps (bytes_of_u64 v) final (unat n)) (jp_dev (rm_port s)))"
      using gpio.tdi_tdo_ok [OF assms(3), of "unat n" "bytes_of_u64 v" "bytes_of_u64 0" clock final] True by (auto simp: gpio_proc_def)
    then show ?thesis using True unfolding run by (auto simp: split_beta bytes_of_u64_of)
  next
    case False
    then show ?thesis unfolding run using tdi_tdo_overrun [OF assms(3), of "bytes_of_u64 v"] by simp
  qed
qed

lemma mem_write_command:
  assumes "packet ! 1 = letter CHR ''M''" "length packet = 1025" "num_at 8 24 packet = Some len" "496 < len" "len \<le> 1024" "num_at 2 14 packet = Some 0"
  shows "adiv5_command shared ops sel packet r = None"
proof -
  have u: "unat len \<le> 1025" "496 < unat len" using assms(4,5) by (simp_all add: word_le_nat_alt word_less_nat_alt)
  have d: "decode_data shared 32 (unat len) packet = None"
    using decode_same [of "unat len" packet shared 32] u assms(2) by (simp add: unhexify_None)
  have c: "char_at 1 packet = Some (packet ! 1)" using assms(2) by (simp add: char_at_def)
  show ?thesis unfolding adiv5_command_def Let_def c assms(1) using assms(3-6) d by (auto simp: word_less_nat_alt word_le_nat_alt split: bind_splits)
qed

text \<open>C37: A write of memory may ask for up to 1024 bytes, and its data lies in the packet: with the buffer of the firmware,
  1025 bytes, a packet with byte alignment (0) that asks for more than 496 makes the probe read digits from behind the
  buffer, whatever the interface.\<close>

theorem remote_mem_write_overreads:
  assumes "packet ! 0 = letter CHR ''A''" "packet ! 1 = letter CHR ''M''" "8 \<le> i" "length packet = 1025"
    and "num_at 8 24 packet = Some len" "496 < len" "len \<le> 1024" "num_at 2 14 packet = Some 0"
  shows "remote_packet_process hw fuel i packet s = None"
proof -
  note none = mem_write_command [OF assms(2,4-8)]
  have c: "char_at 0 packet = Some (packet ! 0)" using assms(4) by (auto simp: char_at_def)
  show ?thesis unfolding remote_packet_process_def c using assms(1,3)
    by (auto simp: remote_packet_process_adiv5_def Let_def none split: bind_splits option.splits remote_if.splits)
qed

definition long_write :: "byte list" where
  "long_write = ascii ''AM0000230000520020000000000001F1'' @ replicate 993 0"

lemma long_write_nth: "i < 32 \<Longrightarrow> long_write ! i = ascii ''AM0000230000520020000000000001F1'' ! i"
  unfolding long_write_def by (rule nth_append_left) simp

lemmas hex_eval = hex_string_to_num_def hex_num_numeral is_hex_def unhex_digit_def

theorem remote_mem_write_overreads_witness: "remote_packet_process sample_hw 0 1024 long_write sample_remote = None"
proof (rule remote_mem_write_overreads)
  show "long_write ! 0 = letter CHR ''A''" "long_write ! 1 = letter CHR ''M''" by (simp_all add: long_write_nth)
  show "length long_write = 1025" by (simp add: long_write_def)
  show "num_at 8 24 long_write = Some 0x1f1" "num_at 2 14 long_write = Some 0" by (simp_all add: num_at_def long_write_def hex_eval)
qed simp_all

text \<open>A device that gives back what it got one cycle before.\<close>

definition echo_clock :: "bool tap_clock" where
  "echo_clock tms tdi d = (d, tdi)"

definition echo_hw :: "bool jtag_pins remote_hw" where
  "echo_hw =
     \<lparr>hw_swd = \<lparr>proc_seq_in = (\<lambda>_ _. None), proc_seq_in_parity = (\<lambda>_ _. None), proc_seq_out = (\<lambda>_ _ _. None), proc_seq_out_parity = (\<lambda>_ _ _. None)\<rparr>,
      hw_jtag = gpio_proc echo_clock, hw_jtagtap_init = (\<lambda>p. Some (jtagtap_init echo_clock p)), hw_shared = True, hw_slack = 0, hw_voltage = (\<lambda>_. []),
      hw_nrst_set = (\<lambda>_ p. p), hw_nrst_get = (\<lambda>_. False), hw_frequency_set = (\<lambda>_ p. p), hw_frequency_get = (\<lambda>_. 0), hw_power = None, hw_ident = [],
      hw_clk_output_enable = (\<lambda>_ p. p),
      hw_spi = \<lparr>spi_init = (\<lambda>_ p. (False, p)), spi_deinit = (\<lambda>_ p. (False, p)), spi_chip_select = (\<lambda>_ p. (False, p)), spi_xfer = (\<lambda>_ _ p. (0, p))\<rparr>\<rparr>"

definition echo_remote :: "bool jtag_pins remote" where
  "echo_remote = \<lparr>rm_port = \<lparr>tms_pin = False, tdi_pin = False, tck_pin = False, tdo_pin = False, target_clk_divider = 0, jp_dev = True\<rparr>,
     rm_fault = 0, rm_dev_index = 0, rm_if = Some Remote_jtag, rm_swd_proc = False, rm_jtag_proc = True, rm_devs = replicate 32 zero_dev,
     rm_dev_count = 0, rm_expired = [], rm_debug_bmp = False\<rparr>"

lemma echo_ready: "hw_jtag echo_hw = gpio_proc echo_clock" "rm_jtag_proc echo_remote" "idle_pins (rm_port echo_remote)"
  by (simp_all add: echo_hw_def echo_remote_def idle_pins_def)

theorem remote_tdi_tdo_bound_witness:
  "(\<exists>p. remote_packet_process echo_hw 0 6 (ascii ''JD04C5'' @ [0]) echo_remote = Some (remote_respond REMOTE_RESP_OK 0xb, echo_remote\<lparr>rm_port := p\<rparr>)) \<and>
   remote_packet_process echo_hw 0 6 (ascii ''JD41C5'' @ [0]) echo_remote = None"
proof
  have h: "(ascii ''JD04C5'' @ [0]) ! 0 = letter CHR ''J''" "(ascii ''JD04C5'' @ [0]) ! 1 = (if True then letter CHR ''D'' else letter CHR ''d'')"
    "5 \<le> (6 :: nat)" "2 \<le> length (ascii ''JD04C5'' @ [0])" "num_at 2 2 (ascii ''JD04C5'' @ [0]) = Some 4" "num_at SIZE_MAX 4 (ascii ''JD04C5'' @ [0]) = Some 0xc5"
    by (simp_all add: num_at_def hex_eval)
  have c: "fst (clocks echo_clock (data_steps (bytes_of_u64 0xc5) True 4) (jp_dev (rm_port echo_remote))) = [True, True, False, True]"
    by (simp add: echo_remote_def echo_clock_def data_steps_def bytes_of_u64_def bytes_of_u32_def upt_rec Let_def)
  show "\<exists>p. remote_packet_process echo_hw 0 6 (ascii ''JD04C5'' @ [0]) echo_remote = Some (remote_respond REMOTE_RESP_OK 0xb, echo_remote\<lparr>rm_port := p\<rparr>)"
    using remote_tdi_tdo_bound [OF echo_ready h, of 0] c by (auto simp: split_beta)
  have g: "(ascii ''JD41C5'' @ [0]) ! 0 = letter CHR ''J''" "(ascii ''JD41C5'' @ [0]) ! 1 = (if True then letter CHR ''D'' else letter CHR ''d'')"
    "5 \<le> (6 :: nat)" "2 \<le> length (ascii ''JD41C5'' @ [0])" "num_at 2 2 (ascii ''JD41C5'' @ [0]) = Some 0x41" "num_at SIZE_MAX 4 (ascii ''JD41C5'' @ [0]) = Some 0xc5"
    by (simp_all add: num_at_def hex_eval)
  show "remote_packet_process echo_hw 0 6 (ascii ''JD41C5'' @ [0]) echo_remote = None"
    using remote_tdi_tdo_bound [OF echo_ready g, of 0] by simp
qed

end
