(* ===== verification/Remote_Host.thy ===== *)
theory Remote_Host
  imports Remote_Proto Swd_Line
begin

text \<open>
  The host's end of the remote protocol, src/platforms/hosted/remote: the SWD functions of protocol version 0 and the
  debug port functions of version 3, with the messages of remote.h. A link takes a request and gives what comes back
  for it. None is the end of the program: exit, or waiting for a response that does not come. It also stands for a
  response that does not fit the buffer of 1024 characters, which the code cuts and no request of these functions
  asks for, and for reading on into what the request left in the buffer behind a shorter response. The null
  character that some functions send behind the end of a request is left out: the probe ignores it between packets.
\<close>

subsection \<open>Messages\<close>

type_synonym 's link = "byte list \<Rightarrow> 's \<Rightarrow> (byte list \<times> 's) option"

definition low_digit :: "u8 \<Rightarrow> byte" where
  "low_digit v = (if v > 9 then v + 0x57 else v + 0x30)"

primrec low_digits :: "nat \<Rightarrow> u64 \<Rightarrow> byte list" where
  "low_digits 0 v = []"
| "low_digits (Suc n) v = (if v = 0 then [] else low_digits n (drop_bit 4 v) @ [low_digit (ucast (v AND 0xf))])"

text \<open>The conversion x of printf, with a width filled up with zeros; without one the width is 1.\<close>

definition printf_x :: "nat \<Rightarrow> u64 \<Rightarrow> byte list" where
  "printf_x width v = (let ds = low_digits 16 v in replicate (width - length ds) 0x30 @ ds)"

definition request :: "byte list \<Rightarrow> byte list" where
  "request body = REMOTE_SOM # body @ [REMOTE_EOM]"

text \<open>What lies between the start of a response and its end.\<close>

definition platform_buffer_read :: "byte list \<Rightarrow> byte list option" where
  "platform_buffer_read out =
     (case dropWhile (\<lambda>c. c \<noteq> REMOTE_RESP) out of
        [] \<Rightarrow> None
      | _ # out \<Rightarrow> (let b = takeWhile (\<lambda>c. c \<noteq> REMOTE_EOM) out in if length b < length out \<and> length b < 1024 then Some b else None))"

definition host_call :: "'s link \<Rightarrow> byte list \<Rightarrow> 's \<Rightarrow> (byte list \<times> 's) option" where
  "host_call link req s = do { (out, s) \<leftarrow> link req s; buffer \<leftarrow> platform_buffer_read out; Some (buffer, s) }"

subsection \<open>SWD\<close>

definition remote_v0_swd_init :: "'s link \<Rightarrow> 's \<Rightarrow> (bool \<times> 's) option" where
  "remote_v0_swd_init link s =
     do { (buffer, s) \<leftarrow> host_call link (request (ascii ''SS'')) s;
          Some (\<not> (length buffer = 0 \<or> hd buffer = REMOTE_RESP_ERR), s) }"

definition remote_v0_swd_seq_in :: "'s link \<Rightarrow> nat \<Rightarrow> 's \<Rightarrow> (u32 \<times> 's) option" where
  "remote_v0_swd_seq_in link clock_cycles s =
     do { (buffer, s) \<leftarrow> host_call link (request (ascii ''Si'' @ printf_x 2 (of_nat clock_cycles))) s;
          if length buffer < 2 \<or> hd buffer = REMOTE_RESP_ERR then None
          else do { result \<leftarrow> hex_string_to_num SIZE_MAX (tl buffer @ [0]); Some (ucast result, s) } }"

definition remote_v0_swd_seq_in_parity :: "'s link \<Rightarrow> nat \<Rightarrow> 's \<Rightarrow> ((bool \<times> u32) \<times> 's) option" where
  "remote_v0_swd_seq_in_parity link clock_cycles s =
     do { (buffer, s) \<leftarrow> host_call link (request (ascii ''SI'' @ printf_x 2 (of_nat clock_cycles))) s;
          if length buffer < 2 \<or> hd buffer = REMOTE_RESP_ERR then None
          else do { result \<leftarrow> hex_string_to_num SIZE_MAX (tl buffer @ [0]); Some ((hd buffer \<noteq> REMOTE_RESP_OK, ucast result), s) } }"

definition remote_v0_swd_seq_out :: "'s link \<Rightarrow> u32 \<Rightarrow> nat \<Rightarrow> 's \<Rightarrow> 's option" where
  "remote_v0_swd_seq_out link val clock_cycles s =
     do { (buffer, s) \<leftarrow> host_call link (request (ascii ''So'' @ printf_x 2 (of_nat clock_cycles) @ printf_x 1 (ucast val))) s;
          if length buffer < 1 \<or> hd buffer = REMOTE_RESP_ERR then None else Some s }"

definition remote_v0_swd_seq_out_parity :: "'s link \<Rightarrow> u32 \<Rightarrow> nat \<Rightarrow> 's \<Rightarrow> 's option" where
  "remote_v0_swd_seq_out_parity link val clock_cycles s =
     do { (buffer, s) \<leftarrow> host_call link (request (ascii ''SO'' @ printf_x 2 (of_nat clock_cycles) @ printf_x 1 (ucast val))) s;
          if length buffer < 1 \<or> (buffer @ [0]) ! 1 = REMOTE_RESP_ERR then None else Some s }"

definition host_swd_proc :: "'s link \<Rightarrow> 's swd_proc" where
  "host_swd_proc link = \<lparr>proc_seq_in = remote_v0_swd_seq_in link, proc_seq_in_parity = remote_v0_swd_seq_in_parity link,
     proc_seq_out = remote_v0_swd_seq_out link, proc_seq_out_parity = remote_v0_swd_seq_out_parity link\<rparr>"

subsection \<open>The debug port\<close>

record 's host_dp =
  hd_link :: 's
  hd_fault :: u8
  hd_dev_index :: u8

definition remote_decode_response :: "byte list \<Rightarrow> u64" where
  "remote_decode_response response = foldl (\<lambda>v c. push_bit 4 v OR ucast (unhex_digit c)) 0 response"

definition on_link :: "'s link \<Rightarrow> byte list \<Rightarrow> 's host_dp \<Rightarrow> (byte list \<times> 's host_dp) option" where
  "on_link link req s = do { (buffer, l) \<leftarrow> host_call link req (hd_link s); Some (buffer, s\<lparr>hd_link := l\<rparr>) }"

definition remote_adiv5_check_error :: "byte list \<Rightarrow> 's host_dp \<Rightarrow> (string + bool) \<times> 's host_dp" where
  "remote_adiv5_check_error buffer s =
     (if length buffer < 1 then (Inr False, s)
      else if hd buffer = REMOTE_RESP_ERR then
        (let response_code = remote_decode_response (tl buffer);
             error = response_code AND 0xff
         in if error = REMOTE_ERROR_FAULT then (Inr False, s\<lparr>hd_fault := ucast (drop_bit 8 response_code)\<rparr>)
            else if error = REMOTE_ERROR_EXCEPTION then (Inl ''Remote protocol exception'', s)
            else (Inr False, s))
      else (Inr (hd buffer = REMOTE_RESP_OK), s))"

text \<open>A request whose answer is a word.\<close>

definition host_word :: "'s link \<Rightarrow> byte list \<Rightarrow> 's host_dp \<Rightarrow> ((string + u32) \<times> 's host_dp) option" where
  "host_word link req s =
     do { (buffer, s) \<leftarrow> on_link link req s;
          (case remote_adiv5_check_error buffer s of
             (Inl e, s) \<Rightarrow> Some (Inl e, s)
           | (Inr good, s) \<Rightarrow>
               if \<not> good then Some (Inr 0, s)
               else do { bs \<leftarrow> unhexify 4 (tl buffer @ [0]); Some (Inr (u32_of_bytes bs), s) }) }"

definition remote_v3_adiv5_raw_access :: "'s link \<Rightarrow> u8 \<Rightarrow> u16 \<Rightarrow> u32 \<Rightarrow> 's host_dp \<Rightarrow> ((string + u32) \<times> 's host_dp) option" where
  "remote_v3_adiv5_raw_access link rnw addr request_value s =
     host_word link (request (ascii ''AR'' @ printf_x 2 (ucast (hd_dev_index s)) @ printf_x 2 (ucast rnw) @ printf_x 4 (ucast addr) @ printf_x 8 (ucast request_value))) s"

definition remote_v3_adiv5_dp_read :: "'s link \<Rightarrow> u16 \<Rightarrow> 's host_dp \<Rightarrow> ((string + u32) \<times> 's host_dp) option" where
  "remote_v3_adiv5_dp_read link addr s =
     host_word link (request (ascii ''Ad'' @ printf_x 2 (ucast (hd_dev_index s)) @ ascii ''ff'' @ printf_x 4 (ucast addr))) s"

definition remote_v3_adiv5_ap_read :: "'s link \<Rightarrow> adiv5_access_port \<Rightarrow> u16 \<Rightarrow> 's host_dp \<Rightarrow> ((string + u32) \<times> 's host_dp) option" where
  "remote_v3_adiv5_ap_read link ap addr s =
     host_word link (request (ascii ''Aa'' @ printf_x 2 (ucast (hd_dev_index s)) @ printf_x 2 (ucast (apsel ap)) @ printf_x 4 (ucast addr))) s"

definition remote_v3_adiv5_ap_write :: "'s link \<Rightarrow> adiv5_access_port \<Rightarrow> u16 \<Rightarrow> u32 \<Rightarrow> 's host_dp \<Rightarrow> ((string + unit) \<times> 's host_dp) option" where
  "remote_v3_adiv5_ap_write link ap addr val s =
     do { (buffer, s) \<leftarrow> on_link link (request (ascii ''AA'' @ printf_x 2 (ucast (hd_dev_index s)) @ printf_x 2 (ucast (apsel ap)) @ printf_x 4 (ucast addr) @ printf_x 8 (ucast val))) s;
          (case remote_adiv5_check_error buffer s of
             (Inl e, s) \<Rightarrow> Some (Inl e, s)
           | (Inr _, s) \<Rightarrow> Some (Inr (), s)) }"

definition mem_read_request :: "u8 \<Rightarrow> adiv5_access_port \<Rightarrow> u32 \<Rightarrow> nat \<Rightarrow> byte list" where
  "mem_read_request index ap src amount =
     ascii ''Am'' @ printf_x 2 (ucast index) @ printf_x 2 (ucast (apsel ap)) @ printf_x 8 (ucast (csw ap)) @ printf_x 8 (ucast src) @ printf_x 8 (of_nat amount)"

definition mem_write_request :: "u8 \<Rightarrow> adiv5_access_port \<Rightarrow> align_e \<Rightarrow> u32 \<Rightarrow> nat \<Rightarrow> byte list" where
  "mem_write_request index ap align dest amount =
     ascii ''AM'' @ printf_x 2 (ucast index) @ printf_x 2 (ucast (apsel ap)) @ printf_x 8 (ucast (csw ap)) @ printf_x 2 (of_nat (align_val align)) @
     printf_x 8 (ucast dest) @ printf_x 8 (of_nat amount)"

text \<open>The loops over blocks; the data of the blocks that were read, until one fails.\<close>

function host_read_loop :: "'s link \<Rightarrow> adiv5_access_port \<Rightarrow> u32 \<Rightarrow> nat \<Rightarrow> nat \<Rightarrow> byte list \<Rightarrow> 's host_dp \<Rightarrow> ((string + byte list) \<times> 's host_dp) option" where
  "host_read_loop link ap src read_length offset dat s =
     (if offset < read_length then
        do { let amount = min (read_length - offset) 511;
             (buffer, s) \<leftarrow> on_link link (request (mem_read_request (hd_dev_index s) ap (src + of_nat offset) amount)) s;
             (case remote_adiv5_check_error buffer s of
                (Inl e, s) \<Rightarrow> Some (Inl e, s)
              | (Inr good, s) \<Rightarrow>
                  if \<not> good then Some (Inr dat, s)
                  else do { bs \<leftarrow> unhexify amount (tl buffer @ [0]);
                            host_read_loop link ap src read_length (offset + 511) (dat @ bs) s }) }
      else Some (Inr dat, s))"
  by pat_completeness auto
termination by (relation "measure (\<lambda>(link, ap, src, read_length, offset, dat, s). read_length - offset)") auto

declare host_read_loop.simps [simp del]

definition remote_v3_adiv5_mem_read_bytes :: "'s link \<Rightarrow> adiv5_access_port \<Rightarrow> u32 \<Rightarrow> nat \<Rightarrow> 's host_dp \<Rightarrow> ((string + byte list) \<times> 's host_dp) option" where
  "remote_v3_adiv5_mem_read_bytes link ap src read_length s =
     (if read_length = 0 then Some (Inr [], s) else host_read_loop link ap src read_length 0 [] s)"

definition write_blocksize :: "align_e \<Rightarrow> nat" where
  "write_blocksize align =
     (let alignment_mask = NOT (push_bit (align_val align) 1 - 1)
      in unat ((1024 - 34) div 2 AND alignment_mask :: u32))"

function host_write_loop :: "'s link \<Rightarrow> adiv5_access_port \<Rightarrow> align_e \<Rightarrow> u32 \<Rightarrow> byte list \<Rightarrow> nat \<Rightarrow> nat \<Rightarrow> 's host_dp \<Rightarrow> ((string + unit) \<times> 's host_dp) option" where
  "host_write_loop link ap align dest src write_length offset s =
     (if offset < write_length then
        do { let amount = min (write_length - offset) (write_blocksize align);
             (buffer, s) \<leftarrow> (if length src < offset + amount then None
               else on_link link (request (mem_write_request (hd_dev_index s) ap align (dest + of_nat offset) amount @ butlast (hexify (take amount (drop offset src))))) s);
             (case remote_adiv5_check_error buffer s of
                (Inl e, s) \<Rightarrow> Some (Inl e, s)
              | (Inr good, s) \<Rightarrow>
                  if \<not> good then Some (Inr (), s)
                  else host_write_loop link ap align dest src write_length (offset + write_blocksize align) s) }
      else Some (Inr (), s))"
  by pat_completeness auto
termination
proof (relation "measure (\<lambda>(link, ap, align, dest, src, write_length, offset, s). write_length - offset)")
  have b: "0 < write_blocksize align" for align by (cases align) (simp_all add: write_blocksize_def)
  show "((link, ap, align, dest, src, write_length, offset + write_blocksize align, s'), (link, ap, align, dest, src, write_length, offset, s))
      \<in> measure (\<lambda>(link, ap, align, dest, src, write_length, offset, s). write_length - offset)"
    if "offset < write_length" for link :: "'s link" and ap align dest src write_length offset and s s' :: "'s host_dp"
    using that b [of align] by simp
qed auto

declare host_write_loop.simps [simp del]

definition remote_v3_adiv5_mem_write_bytes :: "'s link \<Rightarrow> adiv5_access_port \<Rightarrow> u32 \<Rightarrow> byte list \<Rightarrow> nat \<Rightarrow> align_e \<Rightarrow> 's host_dp \<Rightarrow> ((string + unit) \<times> 's host_dp) option" where
  "remote_v3_adiv5_mem_write_bytes link ap dest src write_length align s =
     (if write_length = 0 then Some (Inr (), s) else host_write_loop link ap align dest src write_length 0 s)"


subsection \<open>Numbers in requests\<close>

lemma low_digit: "v < 16 \<Longrightarrow> is_hex (low_digit v)" "v < 16 \<Longrightarrow> unhex_digit (low_digit v) = v"
  using nibble_cases [of v] by (auto simp: low_digit_def is_hex_def unhex_digit_def)

lemma low_digits_hex: "list_all is_hex (low_digits n v)"
  by (induction n arbitrary: v) (simp_all add: nibble low_digit)

lemma length_low_digits: "take_bit (4 * m) v = v \<Longrightarrow> length (low_digits n v) \<le> min n m"
proof (induction n arbitrary: m v)
  case (Suc n)
  show ?case
  proof (cases "v = 0")
    case False
    then obtain k where m: "m = Suc k" using Suc.prems by (cases m) auto
    have v: "bit v i \<Longrightarrow> i < 4 * Suc k" for i using Suc.prems unfolding m by (metis bit_take_bit_iff)
    have "take_bit (4 * k) (drop_bit 4 v) = drop_bit 4 v" by (rule bit_word_eqI) (auto simp: bit_simps dest: v)
    then show ?thesis using Suc.IH [of k "drop_bit 4 v"] False m by simp
  qed simp
qed simp

abbreviation hex_fold :: "u64 \<Rightarrow> byte list \<Rightarrow> u64" where
  "hex_fold \<equiv> foldl (\<lambda>a c. push_bit 4 a OR ucast (unhex_digit c))"

lemma low_digits_value: "take_bit (4 * n) v = v \<Longrightarrow> hex_fold 0 (low_digits n v) = v"
proof (induction n arbitrary: v)
  case (Suc n)
  have v: "bit v i \<Longrightarrow> i < 4 * Suc n" for i using Suc.prems by (metis bit_take_bit_iff)
  have "take_bit (4 * n) (drop_bit 4 v) = drop_bit 4 v" by (rule bit_word_eqI) (auto simp: bit_simps dest: v)
  then show ?case using Suc.IH [of "drop_bit 4 v"] join_nibble [of v] by (simp add: nibble low_digit)
qed simp

lemma zeros_fold: "hex_fold 0 (replicate n 0x30) = 0"
  by (induction n) (simp_all add: unhex_digit_def)

lemma printf_x:
  "list_all is_hex (printf_x w v)" "hex_fold 0 (printf_x w v) = v" "length (printf_x w v) \<le> max w 16"
  "w \<le> 16 \<Longrightarrow> take_bit (4 * w) v = v \<Longrightarrow> length (printf_x w v) = w" "printf_x (Suc k) v \<noteq> []"
proof -
  have t: "take_bit (4 * 16) v = v" by (rule bit_word_eqI) (auto simp: bit_simps)
  have h: "is_hex 0x30" by (simp add: is_hex_def)
  show "list_all is_hex (printf_x w v)" using low_digits_hex [of 16 v] h by (auto simp: printf_x_def Let_def list_all_iff)
  show "hex_fold 0 (printf_x w v) = v" using low_digits_value [OF t] by (simp add: printf_x_def Let_def zeros_fold)
  show "length (printf_x w v) \<le> max w 16" using length_low_digits [OF t, of 16] by (simp add: printf_x_def Let_def)
  show "w \<le> 16 \<Longrightarrow> take_bit (4 * w) v = v \<Longrightarrow> length (printf_x w v) = w"
    using length_low_digits [of w v 16] by (simp add: printf_x_def Let_def)
  show "printf_x (Suc k) v \<noteq> []" by (cases "low_digits 16 v") (simp_all add: printf_x_def)
qed

lemma num_at_width:
  assumes "length pre = k" "w \<le> 16" "take_bit (4 * w) v = v"
  shows "num_at w k (pre @ printf_x w v @ rest) = Some v"
  using hex_num_loop_append [OF printf_x(1) [of w v], of w rest 0] printf_x(2) [of w v] printf_x(4) [OF assms(2,3)] assms(1)
  by (simp add: num_at_def hex_string_to_num_def)

lemma num_at_free:
  assumes "length pre = k" "w \<le> 16"
  shows "num_at SIZE_MAX k (pre @ printf_x w v @ 0 # rest) = Some v"
proof -
  have l: "length (printf_x w v) \<le> 16" using printf_x(3) [of w v] assms(2) by linarith
  then have m: "length (printf_x w v) \<le> SIZE_MAX" "0 < SIZE_MAX - length (printf_x w v)" by linarith+
  have "\<not> is_hex 0" by (simp add: is_hex_def)
  then have "hex_num_loop (SIZE_MAX - length (printf_x w v)) (0 # rest) v = Some v" using hex_num_loop_stop m(2) by blast
  then show ?thesis using hex_num_loop_append [OF printf_x(1) m(1), of "0 # rest" 0] printf_x(2) [of w v] assms(1)
    by (simp add: num_at_def hex_string_to_num_def)
qed


subsection \<open>The probe at the other end\<close>

text \<open>The probe takes the request into its buffer, behind whose terminator lie the bytes junk, and processes it.\<close>

definition probe_link :: "'p remote_hw \<Rightarrow> nat \<Rightarrow> (byte list \<Rightarrow> 'p remote \<Rightarrow> byte list) \<Rightarrow> 'p remote link" where
  "probe_link hw fuel junk req s =
     (case dropWhile (\<lambda>c. c \<noteq> REMOTE_SOM) req of
        [] \<Rightarrow> None
      | _ # req \<Rightarrow>
          (let body = takeWhile (\<lambda>c. c \<noteq> REMOTE_EOM) req
           in if length body \<le> 1024 then remote_packet_process hw fuel (length body) (body @ 0 # junk body s) s else None))"

definition plain :: "byte list \<Rightarrow> bool" where
  "plain body \<longleftrightarrow> list_all (\<lambda>c. c \<notin> {EOT, REMOTE_SOM, REMOTE_EOM, GDB_PACKET_START}) body \<and> length body \<le> 1024"

lemma plain_hex: "is_hex c \<Longrightarrow> c \<notin> {EOT, REMOTE_SOM, REMOTE_EOM, GDB_PACKET_START}"
  by (auto simp: is_hex_def)

lemma plain_fields: "list_all is_hex ds \<Longrightarrow> list_all (\<lambda>c. c \<notin> {EOT, REMOTE_SOM, REMOTE_EOM, GDB_PACKET_START}) ds"
  using plain_hex by (auto simp: list_all_iff)

lemma probe_plain:
  assumes "plain body"
  shows "probe_link hw fuel junk (request body) s = remote_packet_process hw fuel (length body) (body @ 0 # junk body s) s"
proof -
  have "takeWhile (\<lambda>c. c \<noteq> REMOTE_EOM) (body @ [REMOTE_EOM]) = body"
    using assms by (subst takeWhile_append2) (auto simp: plain_def list_all_iff)
  then show ?thesis using assms by (simp add: probe_link_def request_def plain_def)
qed

text \<open>That is what the packet layer does with the request: it hands the body to the handler, and goes back to idle.\<close>

lemma put_next: "length pre < length packet \<Longrightarrow> take (length pre) packet = pre \<Longrightarrow>
    \<exists>packet'. put (length pre) c packet = Some packet' \<and> length packet' = length packet \<and> take (Suc (length pre)) packet' = pre @ [c]"
  by (auto simp: put_def take_Suc_conv_app_nth)

lemma consume_body:
  assumes "length packet = 1025" "take (length pre) packet = pre" "length pre + length body \<le> 1024"
    and "list_all (\<lambda>c. c \<notin> {EOT, REMOTE_SOM, REMOTE_EOM, GDB_PACKET_START}) body"
  shows "\<exists>packet'. consume_remote_packet process 1024 (length pre) packet out (body @ REMOTE_EOM # cs) =
    Some (Inr (PACKET_IDLE, packet', out @ process (pre @ body), cs))"
  using assms
proof (induction body arbitrary: pre packet)
  case Nil
  obtain p where p: "put (length pre) 0 packet = Some p" "length p = 1025" "take (Suc (length pre)) p = pre @ [0]"
    using put_next [of pre packet 0] Nil.prems by auto
  have "take (length pre) p = pre" using arg_cong [OF p(3), of "take (length pre)"] by (simp add: min_def)
  moreover have "put 0 0 p = Some (p[0 := 0])" using p(2) by (auto simp: put_def)
  ultimately show ?case using p(1) by simp
next
  case (Cons c body)
  obtain p where p: "put (length pre) c packet = Some p" "length p = length packet" "take (Suc (length pre)) p = pre @ [c]"
    using put_next [of pre packet c] Cons.prems by auto
  show ?case using Cons.IH [of p "pre @ [c]"] p Cons.prems by simp
qed

lemma packet_layer_plain:
  assumes "plain body" "length packet = 1025"
  shows "\<exists>packet'. consume_remote_packet process 1024 0 packet out (tl (request body) @ cs) = Some (Inr (PACKET_IDLE, packet', out @ process body, cs))"
  using consume_body [of packet "[]" body process out cs] assms by (simp add: plain_def request_def)

subsection \<open>The port of the host\<close>

lemma read_response:
  assumes "list_all is_hex ds" "length ds \<le> 1022" "code \<noteq> REMOTE_EOM"
  shows "platform_buffer_read ([REMOTE_RESP, code] @ ds @ [REMOTE_EOM]) = Some (code # ds)"
proof -
  have "takeWhile (\<lambda>c. c \<noteq> REMOTE_EOM) (ds @ [REMOTE_EOM]) = ds"
    using assms(1) plain_hex by (subst takeWhile_append2) (auto simp: list_all_iff)
  then show ?thesis using assms(2,3) by (simp add: platform_buffer_read_def)
qed

lemma host_number:
  assumes "code \<noteq> REMOTE_EOM"
  obtains ds where "platform_buffer_read (remote_respond code v) = Some (code # ds)" "1 \<le> length ds" "hex_string_to_num SIZE_MAX (ds @ [0]) = Some v" "list_all is_hex ds"
proof -
  from respond_frame [of code v "[]"] obtain ds where d: "remote_respond code v = [REMOTE_RESP, code] @ ds @ [REMOTE_EOM]" "1 \<le> length ds" "length ds \<le> 16"
    "list_all is_hex ds" "hex_string_to_num SIZE_MAX (ds @ [0]) = Some v" by blast
  have "length ds \<le> 1022" using d(3) by linarith
  from read_response [OF d(4) this assms] show thesis using that [of ds] d unfolding d(1) by blast
qed

lemma short_body:
  assumes "list_all is_hex ds" "length ds \<le> 1000" "length s \<le> 24" "list_all (\<lambda>c. c \<notin> {EOT, REMOTE_SOM, REMOTE_EOM, GDB_PACKET_START}) (ascii s)"
  shows "plain (ascii s @ ds)"
  using assms plain_fields [OF assms(1)] by (simp add: plain_def)

lemma cycles_field:
  assumes "n < 256"
  shows "take_bit 8 (of_nat n :: u64) = of_nat n" "unat (of_nat n :: u64) = n"
proof -
  show u: "unat (of_nat n :: u64) = n" using assms by (simp add: unat_of_nat)
  show "take_bit 8 (of_nat n :: u64) = of_nat n" using assms u by (intro word_unat_eq_iff [THEN iffD2]) (simp add: take_bit_eq_mod unat_mod)
qed

lemma in_body:
  assumes "n < 256" "of_char c \<notin> {EOT, REMOTE_SOM, REMOTE_EOM, GDB_PACKET_START}"
  shows "plain (ascii [CHR ''S'', c] @ printf_x 2 (of_nat n))"
    and "num_at 2 2 ((ascii [CHR ''S'', c] @ printf_x 2 (of_nat n)) @ rest) = Some (of_nat n)"
proof -
  show "plain (ascii [CHR ''S'', c] @ printf_x 2 (of_nat n))"
    using assms(2) printf_x(1) [of 2 "of_nat n"] printf_x(3) [of 2 "of_nat n"] by (intro short_body) auto
  show "num_at 2 2 ((ascii [CHR ''S'', c] @ printf_x 2 (of_nat n)) @ rest) = Some (of_nat n)"
    using num_at_width [of "ascii [CHR ''S'', c]" 2 2 "of_nat n" rest] cycles_field [OF assms(1)] by simp
qed

lemma out_body:
  assumes "n < 256" "of_char c \<notin> {EOT, REMOTE_SOM, REMOTE_EOM, GDB_PACKET_START}"
  shows "plain (ascii [CHR ''S'', c] @ printf_x 2 (of_nat n) @ printf_x 1 v)"
    and "num_at 2 2 ((ascii [CHR ''S'', c] @ printf_x 2 (of_nat n) @ printf_x 1 v) @ rest) = Some (of_nat n)"
    and "num_at SIZE_MAX 4 ((ascii [CHR ''S'', c] @ printf_x 2 (of_nat n) @ printf_x 1 v) @ 0 # rest) = Some v"
proof -
  show "plain (ascii [CHR ''S'', c] @ printf_x 2 (of_nat n) @ printf_x 1 v)"
    using assms(2) printf_x(1) [of 2 "of_nat n"] printf_x(3) [of 2 "of_nat n"] printf_x(1) [of 1 v] printf_x(3) [of 1 v] by (intro short_body) auto
  show "num_at 2 2 ((ascii [CHR ''S'', c] @ printf_x 2 (of_nat n) @ printf_x 1 v) @ rest) = Some (of_nat n)"
    using num_at_width [of "ascii [CHR ''S'', c]" 2 2 "of_nat n" "printf_x 1 v @ rest"] cycles_field [OF assms(1)] by simp
  have "length (ascii [CHR ''S'', c] @ printf_x 2 (of_nat n)) = 4" using printf_x(4) [of 2 "of_nat n"] cycles_field [OF assms(1)] by simp
  from num_at_free [OF this, of 1 v rest] show "num_at SIZE_MAX 4 ((ascii [CHR ''S'', c] @ printf_x 2 (of_nat n) @ printf_x 1 v) @ 0 # rest) = Some v" by simp
qed


lemma packet_chars:
  "char_at 0 ((ascii (a # b # cs) @ xs) @ ys) = Some (of_char a)" "char_at 1 ((ascii (a # b # cs) @ xs) @ ys) = Some (of_char b)"
  by (simp_all add: char_at_def)

lemma swd_packets:
  assumes "char_at 0 packet = Some (letter CHR ''S'')" "num_at 2 2 packet = Some n"
  shows "char_at 1 packet = Some (letter CHR ''i'') \<Longrightarrow> remote_packet_process hw fuel i packet s =
      do { (result, s) \<leftarrow> swd_call hw (\<lambda>proc. proc_seq_in proc (unat n)) s; Some (remote_respond REMOTE_RESP_OK (ucast result), s) }"
    and "char_at 1 packet = Some (letter CHR ''I'') \<Longrightarrow> remote_packet_process hw fuel i packet s =
      do { ((bad, result), s) \<leftarrow> swd_call hw (\<lambda>proc. proc_seq_in_parity proc (unat n)) s;
           Some (remote_respond (if bad then REMOTE_RESP_PARERR else REMOTE_RESP_OK) (ucast result), s) }"
    and "char_at 1 packet = Some (letter CHR ''o'') \<Longrightarrow> num_at SIZE_MAX 4 packet = Some v \<Longrightarrow> remote_packet_process hw fuel i packet s =
      do { (_, s) \<leftarrow> swd_call hw (\<lambda>proc p. no_value (proc_seq_out proc (ucast v) (unat n) p)) s; Some (remote_respond REMOTE_RESP_OK 0, s) }"
    and "char_at 1 packet = Some (letter CHR ''O'') \<Longrightarrow> num_at SIZE_MAX 4 packet = Some v \<Longrightarrow> remote_packet_process hw fuel i packet s =
      do { (_, s) \<leftarrow> swd_call hw (\<lambda>proc p. no_value (proc_seq_out_parity proc (ucast v) (unat n) p)) s; Some (remote_respond REMOTE_RESP_OK 0, s) }"
  using assms by (simp_all add: remote_packet_process_def remote_packet_process_swd_def)

lemma ucast_word32: "(ucast (ucast (v :: u32) :: u64) :: u32) = v"
  by (rule bit_word_eqI) (auto simp: bit_simps)

lemma frame_letters: "of_char c \<in> {0x69, 0x49, 0x6f, 0x4f :: byte} \<Longrightarrow> of_char c \<notin> {EOT, REMOTE_SOM, REMOTE_EOM, GDB_PACKET_START}"
  by auto

lemma probe_seq_in:
  assumes "n < 256"
  shows "probe_link hw fuel junk (request (ascii ''Si'' @ printf_x 2 (of_nat n))) s =
      do { (result, s) \<leftarrow> swd_call hw (\<lambda>proc. proc_seq_in proc n) s; Some (remote_respond REMOTE_RESP_OK (ucast result), s) }"
    and "probe_link hw fuel junk (request (ascii ''SI'' @ printf_x 2 (of_nat n))) s =
      do { ((bad, result), s) \<leftarrow> swd_call hw (\<lambda>proc. proc_seq_in_parity proc n) s;
           Some (remote_respond (if bad then REMOTE_RESP_PARERR else REMOTE_RESP_OK) (ucast result), s) }"
proof -
  have u: "unat (of_nat n :: u64) = n" using cycles_field(2) [OF assms] .
  have f: "of_char CHR ''i'' \<notin> {EOT, REMOTE_SOM, REMOTE_EOM, GDB_PACKET_START}" "of_char CHR ''I'' \<notin> {EOT, REMOTE_SOM, REMOTE_EOM, GDB_PACKET_START}" by simp_all
  show "probe_link hw fuel junk (request (ascii ''Si'' @ printf_x 2 (of_nat n))) s =
      do { (result, s) \<leftarrow> swd_call hw (\<lambda>proc. proc_seq_in proc n) s; Some (remote_respond REMOTE_RESP_OK (ucast result), s) }"
    unfolding probe_plain [OF in_body(1) [OF assms f(1)]] swd_packets(1) [OF packet_chars(1) in_body(2) [OF assms f(1)] packet_chars(2)] u ..
  show "probe_link hw fuel junk (request (ascii ''SI'' @ printf_x 2 (of_nat n))) s =
      do { ((bad, result), s) \<leftarrow> swd_call hw (\<lambda>proc. proc_seq_in_parity proc n) s;
           Some (remote_respond (if bad then REMOTE_RESP_PARERR else REMOTE_RESP_OK) (ucast result), s) }"
    unfolding probe_plain [OF in_body(1) [OF assms f(2)]] swd_packets(2) [OF packet_chars(1) in_body(2) [OF assms f(2)] packet_chars(2)] u ..
qed

lemma probe_seq_out:
  assumes "n < 256"
  shows "probe_link hw fuel junk (request (ascii ''So'' @ printf_x 2 (of_nat n) @ printf_x 1 (ucast v))) s =
      do { (_, s) \<leftarrow> swd_call hw (\<lambda>proc p. no_value (proc_seq_out proc v n p)) s; Some (remote_respond REMOTE_RESP_OK 0, s) }"
    and "probe_link hw fuel junk (request (ascii ''SO'' @ printf_x 2 (of_nat n) @ printf_x 1 (ucast v))) s =
      do { (_, s) \<leftarrow> swd_call hw (\<lambda>proc p. no_value (proc_seq_out_parity proc v n p)) s; Some (remote_respond REMOTE_RESP_OK 0, s) }"
proof -
  have u: "unat (of_nat n :: u64) = n" using cycles_field(2) [OF assms] .
  have f: "of_char CHR ''o'' \<notin> {EOT, REMOTE_SOM, REMOTE_EOM, GDB_PACKET_START}" "of_char CHR ''O'' \<notin> {EOT, REMOTE_SOM, REMOTE_EOM, GDB_PACKET_START}" by simp_all
  show "probe_link hw fuel junk (request (ascii ''So'' @ printf_x 2 (of_nat n) @ printf_x 1 (ucast v))) s =
      do { (_, s) \<leftarrow> swd_call hw (\<lambda>proc p. no_value (proc_seq_out proc v n p)) s; Some (remote_respond REMOTE_RESP_OK 0, s) }"
    unfolding probe_plain [OF out_body(1) [OF assms f(1)]]
      swd_packets(3) [OF packet_chars(1) out_body(2) [OF assms f(1)] packet_chars(2) out_body(3) [OF assms f(1)]] u ucast_word32 ..
  show "probe_link hw fuel junk (request (ascii ''SO'' @ printf_x 2 (of_nat n) @ printf_x 1 (ucast v))) s =
      do { (_, s) \<leftarrow> swd_call hw (\<lambda>proc p. no_value (proc_seq_out_parity proc v n p)) s; Some (remote_respond REMOTE_RESP_OK 0, s) }"
    unfolding probe_plain [OF out_body(1) [OF assms f(2)]]
      swd_packets(4) [OF packet_chars(1) out_body(2) [OF assms f(2)] packet_chars(2) out_body(3) [OF assms f(2)]] u ucast_word32 ..
qed

lemma host_number_read:
  assumes "code \<noteq> REMOTE_EOM"
  shows "\<exists>ds. platform_buffer_read (remote_respond code v) = Some (code # ds) \<and> 1 \<le> length ds \<and> hex_string_to_num SIZE_MAX (ds @ [0]) = Some v"
  using host_number [OF assms, of v] by blast

lemma host_ok_read: "platform_buffer_read (remote_respond REMOTE_RESP_OK 0) = Some [REMOTE_RESP_OK, 0x30]"
proof -
  have "remote_respond REMOTE_RESP_OK 0 = [REMOTE_RESP, REMOTE_RESP_OK, 0x30, REMOTE_EOM]" by (simp add: remote_respond_def numeral_eq_Suc)
  then show ?thesis by (simp add: platform_buffer_read_def)
qed

lemma host_seq_in:
  assumes "n < 256"
  shows "remote_v0_swd_seq_in (probe_link hw fuel junk) n s = swd_call hw (\<lambda>proc. proc_seq_in proc n) s"
    and "remote_v0_swd_seq_in_parity (probe_link hw fuel junk) n s = swd_call hw (\<lambda>proc. proc_seq_in_parity proc n) s"
proof -
  show "remote_v0_swd_seq_in (probe_link hw fuel junk) n s = swd_call hw (\<lambda>proc. proc_seq_in proc n) s"
    unfolding remote_v0_swd_seq_in_def host_call_def probe_seq_in [OF assms]
  proof (cases "swd_call hw (\<lambda>proc. proc_seq_in proc n) s")
    case (Some r)
    then show "do { (buffer, s) \<leftarrow> do { (out, s) \<leftarrow> do { (result, s) \<leftarrow> swd_call hw (\<lambda>proc. proc_seq_in proc n) s; Some (remote_respond REMOTE_RESP_OK (ucast result), s) };
                                 buffer \<leftarrow> platform_buffer_read out; Some (buffer, s) };
          if length buffer < 2 \<or> hd buffer = REMOTE_RESP_ERR then None
          else do { result \<leftarrow> hex_string_to_num SIZE_MAX (tl buffer @ [0]); Some (ucast result, s) } } = swd_call hw (\<lambda>proc. proc_seq_in proc n) s"
      using host_number_read [of REMOTE_RESP_OK "ucast (fst r)"] by (cases r) (auto simp: ucast_word32 Suc_le_eq)
  qed simp
  show "remote_v0_swd_seq_in_parity (probe_link hw fuel junk) n s = swd_call hw (\<lambda>proc. proc_seq_in_parity proc n) s"
    unfolding remote_v0_swd_seq_in_parity_def host_call_def probe_seq_in [OF assms]
  proof (cases "swd_call hw (\<lambda>proc. proc_seq_in_parity proc n) s")
    case (Some r)
    then show "do { (buffer, s) \<leftarrow> do { (out, s) \<leftarrow> do { ((bad, result), s) \<leftarrow> swd_call hw (\<lambda>proc. proc_seq_in_parity proc n) s;
                                   Some (remote_respond (if bad then REMOTE_RESP_PARERR else REMOTE_RESP_OK) (ucast result), s) };
                                 buffer \<leftarrow> platform_buffer_read out; Some (buffer, s) };
          if length buffer < 2 \<or> hd buffer = REMOTE_RESP_ERR then None
          else do { result \<leftarrow> hex_string_to_num SIZE_MAX (tl buffer @ [0]); Some ((hd buffer \<noteq> REMOTE_RESP_OK, ucast result), s) } } =
        swd_call hw (\<lambda>proc. proc_seq_in_parity proc n) s"
      using host_number_read [of "if fst (fst r) then REMOTE_RESP_PARERR else REMOTE_RESP_OK" "ucast (snd (fst r))"]
      by (cases r; cases "fst r") (auto simp: ucast_word32 Suc_le_eq)
  qed simp
qed

lemma host_seq_out:
  assumes "n < 256"
  shows "remote_v0_swd_seq_out (probe_link hw fuel junk) v n s = map_option snd (swd_call hw (\<lambda>proc p. no_value (proc_seq_out proc v n p)) s)"
    and "remote_v0_swd_seq_out_parity (probe_link hw fuel junk) v n s = map_option snd (swd_call hw (\<lambda>proc p. no_value (proc_seq_out_parity proc v n p)) s)"
proof -
  show "remote_v0_swd_seq_out (probe_link hw fuel junk) v n s = map_option snd (swd_call hw (\<lambda>proc p. no_value (proc_seq_out proc v n p)) s)"
    unfolding remote_v0_swd_seq_out_def host_call_def probe_seq_out [OF assms]
    by (cases "swd_call hw (\<lambda>proc p. no_value (proc_seq_out proc v n p)) s") (auto simp: host_ok_read)
  show "remote_v0_swd_seq_out_parity (probe_link hw fuel junk) v n s = map_option snd (swd_call hw (\<lambda>proc p. no_value (proc_seq_out_parity proc v n p)) s)"
    unfolding remote_v0_swd_seq_out_parity_def host_call_def probe_seq_out [OF assms]
    by (cases "swd_call hw (\<lambda>proc p. no_value (proc_seq_out_parity proc v n p)) s") (auto simp: host_ok_read)
qed


text \<open>C18: Driving the SWD pins from the host is driving them in the probe: each of the four functions of the host's port, which
  print a request, send it and read the response, does to the probe what the function of the probe's own port does, and
  gives its result, for any number of cycles that fits the two digits of the request.\<close>

theorem remote_swd_port:
  assumes "n < 256"
  shows "proc_seq_in (host_swd_proc (probe_link hw fuel junk)) n s = swd_call hw (\<lambda>proc. proc_seq_in proc n) s \<and>
    proc_seq_in_parity (host_swd_proc (probe_link hw fuel junk)) n s = swd_call hw (\<lambda>proc. proc_seq_in_parity proc n) s \<and>
    proc_seq_out (host_swd_proc (probe_link hw fuel junk)) v n s = map_option snd (swd_call hw (\<lambda>proc p. no_value (proc_seq_out proc v n p)) s) \<and>
    proc_seq_out_parity (host_swd_proc (probe_link hw fuel junk)) v n s = map_option snd (swd_call hw (\<lambda>proc p. no_value (proc_seq_out_parity proc v n p)) s)"
  by (simp add: host_swd_proc_def host_seq_in [OF assms] host_seq_out [OF assms])

theorem remote_swd_port_witness:
  "proc_seq_in (host_swd_proc (probe_link sample_hw 0 (\<lambda>_ _. [1, 2, 3]))) 32 (sample_remote\<lparr>rm_swd_proc := True\<rparr>) = Some (0, sample_remote\<lparr>rm_swd_proc := True\<rparr>) \<and>
   proc_seq_out (host_swd_proc (probe_link sample_hw 0 (\<lambda>_ _. [1, 2, 3]))) 0xdeadbeef 32 (sample_remote\<lparr>rm_swd_proc := True\<rparr>) = Some (sample_remote\<lparr>rm_swd_proc := True\<rparr>)"
  using remote_swd_port [of 32 sample_hw 0 "\<lambda>_ _. [1, 2, 3]" "sample_remote\<lparr>rm_swd_proc := True\<rparr>" "0xdeadbeef"]
  by (simp add: swd_call_def no_value_def sample_hw_def sample_remote_def)

text \<open>So the host's port meets the contract of a port, with the pins of the probe behind it.\<close>

definition probe_low :: "'d swd_pins remote \<Rightarrow> bool" where
  "probe_low s \<longleftrightarrow> rm_swd_proc s \<and> clock_low (rm_port s)"

interpretation host_port: swd_port "host_swd_proc (probe_link (hw\<lparr>hw_swd := swdptap_init w\<rparr>) fuel junk)" probe_low w "\<lambda>s. olddir (rm_port s)" "\<lambda>s. swd_dev (rm_port s)"
proof unfold_locales
  fix s :: "'a swd_pins remote" and n :: nat and x :: u32
  assume "probe_low s" and n: "n \<le> 32"
  then have s: "rm_swd_proc s" "clock_low (rm_port s)" by (simp_all add: probe_low_def)
  have m: "n < 256" using n by simp
  note defs = host_swd_proc_def swd_call_def no_value_def probe_low_def
  show "\<exists>s'. proc_seq_in (host_swd_proc (probe_link (hw\<lparr>hw_swd := swdptap_init w\<rparr>) fuel junk)) n s =
      Some (bits_word (drop (length (turn (olddir (rm_port s)) SWDIO_STATUS_FLOAT)) (fst (edges w (turn (olddir (rm_port s)) SWDIO_STATUS_FLOAT @ replicate n None) (swd_dev (rm_port s))))), s') \<and>
      probe_low s' \<and> olddir (rm_port s') = SWDIO_STATUS_FLOAT \<and> swd_dev (rm_port s') = snd (edges w (turn (olddir (rm_port s)) SWDIO_STATUS_FLOAT @ replicate n None) (swd_dev (rm_port s)))"
    using swd_gpio.in_ok [OF s(2) n, of w] s(1) by (auto simp: host_seq_in(1) [OF m] defs)
  show "\<exists>s'. proc_seq_out (host_swd_proc (probe_link (hw\<lparr>hw_swd := swdptap_init w\<rparr>) fuel junk)) x n s = Some s' \<and> probe_low s' \<and> olddir (rm_port s') = SWDIO_STATUS_DRIVE \<and>
      swd_dev (rm_port s') = snd (edges w (turn (olddir (rm_port s)) SWDIO_STATUS_DRIVE @ wbits x n) (swd_dev (rm_port s)))"
    using swd_gpio.out_ok [OF s(2) n, of w x] s(1) by (auto simp: host_seq_out(1) [OF m] defs)
  show "\<exists>s'. proc_seq_out_parity (host_swd_proc (probe_link (hw\<lparr>hw_swd := swdptap_init w\<rparr>) fuel junk)) x n s = Some s' \<and> probe_low s' \<and> olddir (rm_port s') = SWDIO_STATUS_DRIVE \<and>
      swd_dev (rm_port s') = snd (edges w (turn (olddir (rm_port s)) SWDIO_STATUS_DRIVE @ wbits x n @ [Some (calculate_odd_parity x \<noteq> 0)]) (swd_dev (rm_port s)))"
    using swd_gpio.out_parity_ok [OF s(2) n, of w x] s(1) by (auto simp: host_seq_out(2) [OF m] defs)
next
  fix s :: "'a swd_pins remote" and n :: nat
  assume "probe_low s" and d: "olddir (rm_port s) = SWDIO_STATUS_FLOAT" and n: "n \<le> 32"
  then have s: "rm_swd_proc s" "clock_low (rm_port s)" by (simp_all add: probe_low_def)
  have m: "n < 256" using n by simp
  show "\<exists>s'. let r = edges w (replicate (Suc n) None) (swd_dev (rm_port s)); v = bits_word (take n (fst r)) in
        proc_seq_in_parity (host_swd_proc (probe_link (hw\<lparr>hw_swd := swdptap_init w\<rparr>) fuel junk)) n s = Some (((calculate_odd_parity v \<noteq> 0) \<noteq> fst r ! n, v), s') \<and>
        probe_low s' \<and> olddir (rm_port s') = SWDIO_STATUS_DRIVE \<and> swd_dev (rm_port s') = snd (edges w [None] (snd r))"
    using swd_gpio.in_parity_ok [OF s(2) d n, of w] s(1) by (auto simp: host_seq_in(2) [OF m] host_swd_proc_def swd_call_def probe_low_def Let_def)
qed

end
