(* ===== verification/Remote_Session.thy ===== *)
theory Remote_Session
  imports Remote_Host Swd_Emu
begin

text \<open>
  Memory of a target from the host: the block transfers of protocol version 3 over the link, the probe's handlers, the
  debug port over SWD and the pins. The contract dp_embedding lifts what is known of a debug port to the same port with
  exceptions; it is met by the port of the remote protocol.
\<close>

subsection \<open>The port with exceptions\<close>

locale dp_embedding =
  fixes ops :: "'s dp_ops" and ops' :: "'t dp_ops" and emb :: "'s \<Rightarrow> 't"
  assumes read_emb: "dp_read ops addr s = Some (x, s') \<Longrightarrow> dp_read ops' addr (emb s) = Some (x, emb s')"
    and low_emb: "dp_low_access ops rnw addr v s = Some (x, s') \<Longrightarrow> dp_low_access ops' rnw addr v (emb s) = Some (x, emb s')"
    and error_emb: "dp_error ops b s = Some (y, s') \<Longrightarrow> dp_error ops' b (emb s) = Some (y, emb s')"
    and parity_emb: "swd_seq_in_parity ops s = Some s' \<Longrightarrow> swd_seq_in_parity ops' (emb s) = Some (emb s')"
    and fault_emb: "dp_fault_of ops' (emb s) = dp_fault_of ops s"
begin

lemma write_emb: "adiv5_dp_write ops addr v s = Some s' \<Longrightarrow> adiv5_dp_write ops' addr v (emb s) = Some (emb s')"
  by (auto simp: adiv5_dp_write_def bind_eq_Some_conv dest: low_emb)

lemma recoverable_emb:
  "adiv5_dp_recoverable_access ops rnw addr v s = Some (x, s') \<Longrightarrow> adiv5_dp_recoverable_access ops' rnw addr v (emb s) = Some (x, emb s')"
  by (fastforce simp: adiv5_dp_recoverable_access_def bind_eq_Some_conv fault_emb dest: low_emb error_emb parity_emb split: if_splits)

lemma swdp_read_emb: "firmware_swdp_read ops addr s = Some (x, s') \<Longrightarrow> firmware_swdp_read ops' addr (emb s) = Some (x, emb s')"
  by (fastforce simp: firmware_swdp_read_def bind_eq_Some_conv dest: recoverable_emb low_emb split: if_splits)

lemma ap_write_emb: "firmware_ap_write ops ap addr v s = Some s' \<Longrightarrow> firmware_ap_write ops' ap addr v (emb s) = Some (emb s')"
  by (fastforce simp: firmware_ap_write_def bind_eq_Some_conv dest: recoverable_emb write_emb)

lemma setup_emb: "ap_mem_access_setup ops ap addr al s = Some s' \<Longrightarrow> ap_mem_access_setup ops' ap addr al (emb s) = Some (emb s')"
  by (fastforce simp: access_setup_csw bind_eq_Some_conv dest: ap_write_emb write_emb)

lemma read_loop_emb:
  "mem_read_loop ops al n src osrc acc s = Some (bs, src', s') \<Longrightarrow> mem_read_loop ops' al n src osrc acc (emb s) = Some (bs, src', emb s')"
proof (induction n arbitrary: src osrc acc s)
  case (Suc n)
  from Suc.prems obtain v s1 where s1: "dp_low_access ops ADIV5_LOW_READ ADIV5_AP_DRW 0 s = Some (v, s1)" by (auto simp: bind_eq_Some_conv)
  show ?case
  proof (cases "(src + push_bit (align_val al) 1 XOR osrc) AND 0xfffffc00 = 0")
    case True
    then show ?thesis using Suc s1 low_emb [OF s1] by (simp add: Let_def)
  next
    case False
    then obtain x2 s2 x3 s3 where s2: "dp_low_access ops ADIV5_LOW_WRITE ADIV5_AP_TAR (src + push_bit (align_val al) 1) s1 = Some (x2, s2)"
      "dp_low_access ops ADIV5_LOW_READ ADIV5_AP_DRW 0 s2 = Some (x3, s3)" using Suc.prems s1 by (auto simp: Let_def bind_eq_Some_conv)
    then show ?thesis using Suc s1 low_emb [OF s1] low_emb [OF s2(1)] low_emb [OF s2(2)] False by (simp add: Let_def)
  qed
qed simp

lemma mem_read_emb: "advi5_mem_read_bytes ops ap src len s = Some (bs, s') \<Longrightarrow> advi5_mem_read_bytes ops' ap src len (emb s) = Some (bs, emb s')"
  by (fastforce simp: advi5_mem_read_bytes_def Let_def bind_eq_Some_conv dest: setup_emb low_emb read_loop_emb split: if_splits)

lemma write_loop_emb: "mem_write_loop ops al n dest odest src s = Some s' \<Longrightarrow> mem_write_loop ops' al n dest odest src (emb s) = Some (emb s')"
proof (induction n arbitrary: dest odest src s)
  case (Suc n)
  from Suc.prems obtain v x s1 where v: "adiv5_pack_data dest src al = Some v" and s1: "dp_low_access ops ADIV5_LOW_WRITE ADIV5_AP_DRW v s = Some (x, s1)"
    by (auto simp: Let_def bind_eq_Some_conv)
  show ?case
  proof (cases "(dest + push_bit (align_val al) 1 XOR odest) AND 0xfffffc00 = 0")
    case True
    then show ?thesis using Suc v s1 low_emb [OF s1] by (simp add: Let_def)
  next
    case False
    then obtain x2 s2 where s2: "dp_low_access ops ADIV5_LOW_WRITE ADIV5_AP_TAR (dest + push_bit (align_val al) 1) s1 = Some (x2, s2)"
      using Suc.prems v s1 by (auto simp: Let_def bind_eq_Some_conv)
    then show ?thesis using Suc v s1 low_emb [OF s1] low_emb [OF s2] False by (simp add: Let_def)
  qed
qed simp

lemma mem_write_emb: "adiv5_mem_write_bytes ops ap dest src len al s = Some s' \<Longrightarrow> adiv5_mem_write_bytes ops' ap dest src len al (emb s) = Some (emb s')"
  by (fastforce simp: adiv5_mem_write_bytes_def bind_eq_Some_conv dest: setup_emb write_loop_emb read_emb)

end

definition calm :: "'d \<Rightarrow> 'd raising" where
  "calm d = \<lparr>rs_dp = d, rs_raised = None\<rparr>"

lemma calm_low: "no_exception (f d) = Some (x, d') \<Longrightarrow> unless_raised y f (calm d) = Some (x, calm d')"
  by (auto simp: no_exception_def unless_raised_def calm_def split: option.splits sum.splits)

lemma calm_no_raise: "f d = Some (x, d') \<Longrightarrow> unless_raised y (no_raise f) (calm d) = Some (x, calm d')"
  by (simp add: unless_raised_def no_raise_def calm_def)

interpretation raise_base: dp_embedding "swd_dp_ops proc fuel (\<lambda>_ _. None)" "swd_raise_base proc fuel" calm
  by unfold_locales (auto simp: swd_dp_ops_def swd_raise_base_def bind_eq_Some_conv calm_low calm_no_raise intro: calm_low calm_no_raise, auto simp: calm_def)

interpretation raise: dp_embedding "swd_ops proc fuel" "swd_raise_ops proc fuel" calm
proof unfold_locales
  fix addr x s s'
  assume "dp_read (swd_ops proc fuel) addr s = Some (x, s')"
  then show "dp_read (swd_raise_ops proc fuel) addr (calm s) = Some (x, calm s')"
    using raise_base.swdp_read_emb by (simp add: swd_ops_def swd_raise_ops_def swd_dp_ops_def)
qed (use raise_base.low_emb raise_base.error_emb raise_base.parity_emb raise_base.fault_emb in \<open>auto simp: swd_ops_def swd_raise_ops_def swd_dp_ops_def\<close>)


subsection \<open>Requests for memory\<close>

lemma field_width:
  "take_bit 8 (ucast (b :: u8) :: u64) = ucast b" "take_bit 32 (ucast (w :: u32) :: u64) = ucast w"
  by (rule bit_word_eqI; auto simp: bit_simps dest: bit_imp_le_length)+

lemma field_back: "(ucast (ucast (b :: u8) :: u64) :: u8) = b"
  by (rule bit_word_eqI) (auto simp: bit_simps)

lemma count_field:
  assumes "n \<le> 1024"
  shows "take_bit 32 (of_nat n :: u64) = of_nat n" "unat (of_nat n :: u64) = n"
proof -
  show u: "unat (of_nat n :: u64) = n" using assms by (simp add: unat_of_nat)
  show "take_bit 32 (of_nat n :: u64) = of_nat n" using assms u by (intro word_unat_eq_iff [THEN iffD2]) (simp add: take_bit_eq_mod unat_mod)
qed

lemma field_lengths:
  "length (printf_x 2 (ucast (b :: u8))) = 2" "length (printf_x 8 (ucast (w :: u32))) = 8" "n \<le> 1024 \<Longrightarrow> length (printf_x 8 (of_nat n)) = 8"
  using printf_x(4) [of 2] printf_x(4) [of 8] field_width count_field by auto

lemma read_fields:
  fixes index ap src
  assumes "amount \<le> 1024"
  defines "p \<equiv> mem_read_request index ap src amount"
  shows "char_at 0 (p @ rest) = Some (letter CHR ''A'')" "char_at 1 (p @ rest) = Some (letter CHR ''m'')"
    "num_at 2 2 (p @ rest) = Some (ucast index)" "num_at 2 4 (p @ rest) = Some (ucast (apsel ap))" "num_at 8 6 (p @ rest) = Some (ucast (csw ap))"
    "num_at 8 14 (p @ rest) = Some (ucast src)" "num_at 8 22 (p @ rest) = Some (of_nat amount)" "length p = 30"
proof -
  let ?i = "printf_x 2 (ucast index)" and ?a = "printf_x 2 (ucast (apsel ap))" and ?c = "printf_x 8 (ucast (csw ap))"
    and ?s = "printf_x 8 (ucast src)" and ?n = "printf_x 8 (of_nat amount)"
  have l: "length ?i = 2" "length ?a = 2" "length ?c = 8" "length ?s = 8" "length ?n = 8" using field_lengths assms(1) by auto
  have p: "p @ rest = ascii ''Am'' @ ?i @ ?a @ ?c @ ?s @ ?n @ rest" by (simp add: p_def mem_read_request_def)
  show "char_at 0 (p @ rest) = Some (letter CHR ''A'')" "char_at 1 (p @ rest) = Some (letter CHR ''m'')" unfolding p by (simp_all add: char_at_def)
  show "num_at 2 2 (p @ rest) = Some (ucast index)" unfolding p by (rule num_at_width) (simp_all add: field_width)
  show "num_at 2 4 (p @ rest) = Some (ucast (apsel ap))" unfolding p
    using num_at_width [of "ascii ''Am'' @ ?i" 4 2 "ucast (apsel ap)" "?c @ ?s @ ?n @ rest"] l by (simp add: field_width)
  show "num_at 8 6 (p @ rest) = Some (ucast (csw ap))" unfolding p
    using num_at_width [of "ascii ''Am'' @ ?i @ ?a" 6 8 "ucast (csw ap)" "?s @ ?n @ rest"] l by (simp add: field_width)
  show "num_at 8 14 (p @ rest) = Some (ucast src)" unfolding p
    using num_at_width [of "ascii ''Am'' @ ?i @ ?a @ ?c" 14 8 "ucast src" "?n @ rest"] l by (simp add: field_width)
  show "num_at 8 22 (p @ rest) = Some (of_nat amount)" unfolding p
    using num_at_width [of "ascii ''Am'' @ ?i @ ?a @ ?c @ ?s" 22 8 "of_nat amount" rest] l count_field [OF assms(1)] by simp
  show "length p = 30" unfolding p_def mem_read_request_def using l by simp
qed

lemma align_field: "take_bit 8 (of_nat (align_val al) :: u64) = of_nat (align_val al)" "unat (of_nat (align_val al) :: u64) = align_val al"
  by (cases al; simp)+

lemma align_num: "align_of_num (align_val al) = Some al"
  by (cases al) (simp_all add: align_of_num_def)

lemma align_small: "\<not> 32 \<le> (of_nat (align_val al) :: u64)"
  by (cases al) (simp_all add: word_le_nat_alt)

lemma write_fields:
  fixes index ap al dest
  assumes "amount \<le> 1024"
  defines "p \<equiv> mem_write_request index ap al dest amount"
  shows "char_at 0 (p @ rest) = Some (letter CHR ''A'')" "char_at 1 (p @ rest) = Some (letter CHR ''M'')"
    "num_at 2 2 (p @ rest) = Some (ucast index)" "num_at 2 4 (p @ rest) = Some (ucast (apsel ap))" "num_at 8 6 (p @ rest) = Some (ucast (csw ap))"
    "num_at 2 14 (p @ rest) = Some (of_nat (align_val al))" "num_at 8 16 (p @ rest) = Some (ucast dest)" "num_at 8 24 (p @ rest) = Some (of_nat amount)" "length p = 32"
proof -
  let ?i = "printf_x 2 (ucast index)" and ?a = "printf_x 2 (ucast (apsel ap))" and ?c = "printf_x 8 (ucast (csw ap))" and ?l = "printf_x 2 (of_nat (align_val al))"
    and ?d = "printf_x 8 (ucast dest)" and ?n = "printf_x 8 (of_nat amount)"
  have l: "length ?i = 2" "length ?a = 2" "length ?c = 8" "length ?l = 2" "length ?d = 8" "length ?n = 8"
    using field_lengths assms(1) printf_x(4) [of 2 "of_nat (align_val al)"] align_field by auto
  have p: "p @ rest = ascii ''AM'' @ ?i @ ?a @ ?c @ ?l @ ?d @ ?n @ rest" by (simp add: p_def mem_write_request_def)
  show "char_at 0 (p @ rest) = Some (letter CHR ''A'')" "char_at 1 (p @ rest) = Some (letter CHR ''M'')" unfolding p by (simp_all add: char_at_def)
  show "num_at 2 2 (p @ rest) = Some (ucast index)" unfolding p by (rule num_at_width) (simp_all add: field_width)
  show "num_at 2 4 (p @ rest) = Some (ucast (apsel ap))" unfolding p
    using num_at_width [of "ascii ''AM'' @ ?i" 4 2 "ucast (apsel ap)" "?c @ ?l @ ?d @ ?n @ rest"] l by (simp add: field_width)
  show "num_at 8 6 (p @ rest) = Some (ucast (csw ap))" unfolding p
    using num_at_width [of "ascii ''AM'' @ ?i @ ?a" 6 8 "ucast (csw ap)" "?l @ ?d @ ?n @ rest"] l by (simp add: field_width)
  show "num_at 2 14 (p @ rest) = Some (of_nat (align_val al))" unfolding p
    using num_at_width [of "ascii ''AM'' @ ?i @ ?a @ ?c" 14 2 "of_nat (align_val al)" "?d @ ?n @ rest"] l by (simp add: align_field)
  show "num_at 8 16 (p @ rest) = Some (ucast dest)" unfolding p
    using num_at_width [of "ascii ''AM'' @ ?i @ ?a @ ?c @ ?l" 16 8 "ucast dest" "?n @ rest"] l by (simp add: field_width)
  show "num_at 8 24 (p @ rest) = Some (of_nat amount)" unfolding p
    using num_at_width [of "ascii ''AM'' @ ?i @ ?a @ ?c @ ?l @ ?d" 24 8 "of_nat amount" rest] l count_field [OF assms(1)] by simp
  show "length p = 32" unfolding p_def mem_write_request_def using l by simp
qed

lemma requests_plain:
  "amount \<le> 1024 \<Longrightarrow> plain (mem_read_request index ap src amount)"
  "length bs \<le> 495 \<Longrightarrow> plain (mem_write_request index ap al dest (length bs) @ butlast (hexify bs))"
proof -
  have h: "list_all (\<lambda>c. c \<notin> {EOT, REMOTE_SOM, REMOTE_EOM, GDB_PACKET_START}) (printf_x w v)" for w v by (rule plain_fields [OF printf_x(1)])
  have b: "butlast (hexify bs) = concat (map (\<lambda>b. [hex_digit (drop_bit 4 b), hex_digit (b AND 0xf)]) bs)" for bs by (simp add: hexify_def)
  have d: "list_all (\<lambda>c. c \<notin> {EOT, REMOTE_SOM, REMOTE_EOM, GDB_PACKET_START}) (butlast (hexify bs))" for bs
    unfolding b by (rule plain_fields) (auto simp: list_all_iff)
  have len: "length (butlast (hexify bs)) = 2 * length bs" for bs unfolding b by (induction bs) simp_all
  show "amount \<le> 1024 \<Longrightarrow> plain (mem_read_request index ap src amount)"
    using read_fields(8) [of amount index ap src] h by (simp add: plain_def mem_read_request_def)
  show "length bs \<le> 495 \<Longrightarrow> plain (mem_write_request index ap al dest (length bs) @ butlast (hexify bs))"
    using write_fields(9) [of "length bs" index ap al dest] h d len [of bs] by (simp add: plain_def mem_write_request_def)
qed


subsection \<open>The emulated target behind the probe\<close>

type_synonym emu_remote = "emu_shim swd_slave swd_pins remote"

definition emu_remote_ok :: "emu_remote \<Rightarrow> bool" where
  "emu_remote_ok s \<longleftrightarrow> rm_if s = Some Remote_swd \<and> emu_line_ok (swd_of s)"

definition emu_memory :: "emu_remote \<Rightarrow> emu_target" where
  "emu_memory s = tgt (emu_line (swd_of s))"

lemma same_port_access:
  assumes "apsel ap = apsel ap'" "csw ap = csw ap'"
  shows "advi5_mem_read_bytes ops ap = advi5_mem_read_bytes ops ap'" "adiv5_mem_write_bytes ops ap = adiv5_mem_write_bytes ops ap'"
proof -
  have "ap_mem_access_setup ops ap = ap_mem_access_setup ops ap'"
    using assms by (intro ext) (simp add: ap_mem_access_setup_def firmware_ap_write_def ap_select_word_def Let_def)
  then show "advi5_mem_read_bytes ops ap = advi5_mem_read_bytes ops ap'" "adiv5_mem_write_bytes ops ap = adiv5_mem_write_bytes ops ap'"
    by (intro ext; simp add: advi5_mem_read_bytes_def adiv5_mem_write_bytes_def Let_def)+
qed

lemma set_swd_emu:
  assumes "rm_if s = Some Remote_swd" "emu_line_ok d"
  shows "emu_remote_ok (set_swd d (s\<lparr>rm_dev_index := i\<rparr>)) \<and> emu_memory (set_swd d (s\<lparr>rm_dev_index := i\<rparr>)) = tgt (emu_line d)"
  using assms by (simp add: emu_remote_ok_def emu_memory_def set_swd_def swd_of_def emu_line_ok_def emu_line_def)

lemma emu_read_any:
  assumes "emu_line_ok d" "flash_range a len \<or> sram_range a len"
  shows "\<exists>d'. advi5_mem_read_bytes (emu_swd_ops n) emu_ap a len d = Some (map (\<lambda>j. mem_at (tgt (emu_line d)) (a + of_nat j)) [0..<len], d') \<and>
    emu_line_ok d' \<and> tgt (emu_line d') = tgt (emu_line d)"
  using emu_swd_bus.block_read [OF assms(1) read_chunks_all(1) [OF assms(2) refl] refl, of n a] unfolding read_chunks_all(3) [OF assms(2) refl] .

lemma emu_write_any:
  assumes "emu_line_ok d" "sram_range a (length bs)" "al \<noteq> ALIGN_64BIT" "mem_access a (acc_size al)" "length bs mod unat (acc_size al) = 0"
  shows "\<exists>d'. adiv5_mem_write_bytes (emu_swd_ops n) emu_ap a bs (length bs) al d = Some d' \<and> emu_line_ok d' \<and>
    tgt (emu_line d') = sram_updated (unat (a - EMU_SRAM_BASE)) bs (tgt (emu_line d))"
proof -
  have l: "length bs div unat (acc_size al) * unat (acc_size al) = length bs" using assms(5) by (metis add.right_neutral div_mult_mod_eq)
  have "store_chunks emu_target_store (acc_size al) (length bs div unat (acc_size al)) a bs (tgt (emu_line d)) = Some (sram_updated (unat (a - EMU_SRAM_BASE)) bs (tgt (emu_line d)))"
    using store_chunks_sram [OF assms(4), of "length bs div unat (acc_size al)" bs "tgt (emu_line d)"] assms(2) l by simp
  from emu_swd_bus.block_write_sized [OF assms(1) order_refl assms(3) this, of n] show ?thesis .
qed

lemma len_mask:
  assumes "al \<noteq> ALIGN_64BIT" "n mod unat (acc_size al) = 0" "n \<le> 1024"
  shows "(ucast (of_nat n :: u64) :: u32) AND (push_bit (align_val al) 1 - 1) = 0"
proof -
  have u: "unat (ucast (of_nat n :: u64) :: u32) = n" using assms(3) by (simp add: unsigned_ucast_eq unat_of_nat take_bit_eq_mod)
  have m: "push_bit (align_val al) 1 - 1 = (mask (align_val al) :: u32)" by (simp add: mask_eq_exp_minus_1)
  have "unat (take_bit (align_val al) (ucast (of_nat n :: u64) :: u32)) = 0"
    unfolding unsigned_take_bit_eq u using assms(1,2) by (cases al) (simp_all add: take_bit_eq_mod acc_size_def)
  then show ?thesis unfolding m by (simp add: take_bit_eq_mask [symmetric] unat_eq_zero)
qed

lemma probe_mem_read:
  assumes "emu_remote_ok s" "amount \<le> 1024" "flash_range a amount \<or> sram_range a amount" "hw_swd hw = swdptap_init emu_wire" "hw_slack hw \<noteq> 0"
  shows "\<exists>s'. probe_link hw (Suc n) junk (request (mem_read_request index emu_ap a amount)) s =
      Some ([REMOTE_RESP, REMOTE_RESP_OK] @ butlast (hexify (map (\<lambda>j. mem_at (emu_memory s) (a + of_nat j)) [0..<amount])) @ [REMOTE_EOM], s') \<and>
    emu_remote_ok s' \<and> emu_memory s' = emu_memory s"
proof -
  let ?p = "mem_read_request index emu_ap a amount @ 0 # junk (mem_read_request index emu_ap a amount) s"
  let ?bs = "map (\<lambda>j. mem_at (emu_memory s) (a + of_nat j)) [0..<amount]"
  let ?ap = "\<lparr>apsel = apsel emu_ap, idr = 0, ap_base = 0, csw = csw emu_ap, ap_cortexm_demcr = 0\<rparr>"
  note f = read_fields [OF assms(2), of index emu_ap a]
  have s: "rm_if s = Some Remote_swd" "emu_line_ok (swd_of (s\<lparr>rm_dev_index := index\<rparr>))" "tgt (emu_line (swd_of (s\<lparr>rm_dev_index := index\<rparr>))) = emu_memory s"
    using assms(1) by (simp_all add: emu_remote_ok_def swd_of_def emu_memory_def)
  obtain d where d: "advi5_mem_read_bytes (emu_swd_ops n) emu_ap a amount (swd_of (s\<lparr>rm_dev_index := index\<rparr>)) = Some (?bs, d)" "emu_line_ok d" "tgt (emu_line d) = emu_memory s"
    using emu_read_any [OF s(2) assms(3), of n] unfolding s(3) by blast
  have r: "advi5_mem_read_bytes (swd_raise_ops (hw_swd hw) (Suc n)) ?ap a amount (calm (swd_of (s\<lparr>rm_dev_index := index\<rparr>))) = Some (?bs, calm d)"
    using raise.mem_read_emb [OF d(1) [unfolded emu_swd_ops_def]] by (subst same_port_access(1) [of _ emu_ap]) (simp_all add: assms(4))
  have le: "\<not> 1024 < (of_nat amount :: u64)" using count_field(2) [OF assms(2)] assms(2) by (simp add: word_less_nat_alt)
  have c: "adiv5_command (hw_shared hw) (swd_raise_ops (hw_swd hw) (Suc n)) (ucast (ucast (apsel emu_ap) :: u64)) ?p (calm (swd_of (s\<lparr>rm_dev_index := index\<rparr>))) =
      Some (Answer (Some ?bs), calm d)"
    unfolding adiv5_command_def Let_def f field_back using r le by (simp add: f(5-7) count_field(2) [OF assms(2)] ucast_word32)
  have "remote_adiv5_respond (hw_slack hw) (sw_fault d) (Some ?bs) = Some ([REMOTE_RESP, REMOTE_RESP_OK] @ butlast (hexify ?bs) @ [REMOTE_EOM])"
    using d(2) assms(5) by (simp add: remote_adiv5_respond_def respond_buf_frame emu_line_ok_def)
  then have "remote_packet_process hw (Suc n) 30 ?p s = Some ([REMOTE_RESP, REMOTE_RESP_OK] @ butlast (hexify ?bs) @ [REMOTE_EOM], set_swd d (s\<lparr>rm_dev_index := index\<rparr>))"
    unfolding remote_packet_process_def f(1) using s(1) c
    by (simp add: remote_packet_process_adiv5_def f(3,4) adiv5_response_def calm_def field_back)
  then show ?thesis unfolding probe_plain [OF requests_plain(1) [OF assms(2)]] f(8) using set_swd_emu [OF s(1) d(2), of index] d(3) by auto
qed


lemma probe_mem_write:
  assumes "emu_remote_ok s" "length bs \<le> 495" "sram_range a (length bs)" "al \<noteq> ALIGN_64BIT" "mem_access a (acc_size al)" "length bs mod unat (acc_size al) = 0"
    and "hw_swd hw = swdptap_init emu_wire"
  shows "\<exists>s'. probe_link hw (Suc n) junk (request (mem_write_request index emu_ap al a (length bs) @ butlast (hexify bs))) s = Some (remote_respond REMOTE_RESP_OK 0, s') \<and>
    emu_remote_ok s' \<and> emu_memory s' = sram_updated (unat (a - EMU_SRAM_BASE)) bs (emu_memory s)"
proof -
  let ?b = "mem_write_request index emu_ap al a (length bs) @ butlast (hexify bs)"
  let ?p = "?b @ 0 # junk ?b s"
  let ?ap = "\<lparr>apsel = apsel emu_ap, idr = 0, ap_base = 0, csw = csw emu_ap, ap_cortexm_demcr = 0\<rparr>" and ?s = "swd_of (s\<lparr>rm_dev_index := index\<rparr>)"
  have len: "length bs \<le> 1024" using assms(2) by simp
  have p: "?p = mem_write_request index emu_ap al a (length bs) @ butlast (hexify bs) @ 0 # junk ?b s" by simp
  note f = write_fields [OF len, of index emu_ap al a]
  have s: "rm_if s = Some Remote_swd" "emu_line_ok ?s" "tgt (emu_line ?s) = emu_memory s"
    using assms(1) by (simp_all add: emu_remote_ok_def swd_of_def emu_memory_def)
  obtain d where d: "adiv5_mem_write_bytes (emu_swd_ops n) emu_ap a bs (length bs) al ?s = Some d" "emu_line_ok d"
    "tgt (emu_line d) = sram_updated (unat (a - EMU_SRAM_BASE)) bs (emu_memory s)"
    using emu_write_any [OF s(2) assms(3-6), of n] unfolding s(3) by blast
  have r: "adiv5_mem_write_bytes (swd_raise_ops (hw_swd hw) (Suc n)) ?ap a bs (length bs) al (calm ?s) = Some (calm d)"
    using raise.mem_write_emb [OF d(1) [unfolded emu_swd_ops_def]] by (subst same_port_access(2) [of _ emu_ap]) (simp_all add: assms(7))
  have le: "\<not> 1024 < (of_nat (length bs) :: u64)" using count_field(2) [OF len] len by (simp add: word_less_nat_alt)
  have mask: "(ucast (of_nat (length bs) :: u64) :: u32) AND (push_bit (align_val al) 1 - 1) = 0"
    using len_mask [OF assms(4,6) len] .
  have h: "butlast (hexify bs) @ 0 # xs = hexify bs @ xs" for xs by (simp add: hexify_def)
  have "length bs \<le> length ?p" unfolding p h by (simp add: length_hexify)
  moreover have "unhexify (length bs) (drop 32 ?p) = Some bs" unfolding p h using f(9) by (simp add: unhexify_hex)
  ultimately have dec: "decode_data sh 32 (length bs) ?p = Some bs" for sh by (simp only: decode_same)
  have c: "adiv5_command (hw_shared hw) (swd_raise_ops (hw_swd hw) (Suc n)) (ucast (ucast (apsel emu_ap) :: u64)) ?p (calm ?s) = Some (Answer None, calm d)"
    unfolding adiv5_command_def Let_def using dec unfolding p f field_back
    using r le align_small [of al] align_num [of al] mask by (simp add: f(5-8) count_field(2) [OF len] align_field ucast_word32)
  have "remote_adiv5_respond (hw_slack hw) (sw_fault d) None = Some (remote_respond REMOTE_RESP_OK 0)"
    using d(2) by (simp add: remote_adiv5_respond_def emu_line_ok_def)
  then have "remote_packet_process hw (Suc n) (length ?b) ?p s = Some (remote_respond REMOTE_RESP_OK 0, set_swd d (s\<lparr>rm_dev_index := index\<rparr>))"
    using c f(9) unfolding remote_packet_process_def p f(1) using s(1)
    by (simp add: remote_packet_process_adiv5_def f(3,4) adiv5_response_def calm_def field_back)
  then show ?thesis unfolding probe_plain [OF requests_plain(2) [OF assms(2)]] using set_swd_emu [OF s(1) d(2), of index] d(3) by auto
qed


subsection \<open>Memory from the host\<close>

text \<open>The host's view of the probe.\<close>

definition emu_host_ok :: "emu_remote host_dp \<Rightarrow> bool" where
  "emu_host_ok h \<longleftrightarrow> emu_remote_ok (hd_link h)"

lemma host_data:
  assumes "length bs \<le> 511"
  shows "platform_buffer_read ([REMOTE_RESP, REMOTE_RESP_OK] @ butlast (hexify bs) @ [REMOTE_EOM]) = Some (REMOTE_RESP_OK # butlast (hexify bs))"
    and "unhexify (length bs) (butlast (hexify bs) @ [0]) = Some bs"
proof -
  have h: "butlast (hexify bs) @ [0] = hexify bs @ []" by (simp add: hexify_def)
  show "unhexify (length bs) (butlast (hexify bs) @ [0]) = Some bs" unfolding h by (rule unhexify_hex)
  have "list_all is_hex (butlast (hexify bs))" by (auto simp: hexify_def list_all_iff)
  then show "platform_buffer_read ([REMOTE_RESP, REMOTE_RESP_OK] @ butlast (hexify bs) @ [REMOTE_EOM]) = Some (REMOTE_RESP_OK # butlast (hexify bs))"
    using assms by (intro read_response) (simp_all add: length_hexify)
qed

lemma range_part:
  assumes "off + n \<le> len" "0 < n"
  shows "flash_range a len \<Longrightarrow> flash_range (a + of_nat off) n" "sram_range a len \<Longrightarrow> sram_range (a + of_nat off) n"
proof -
  have u: "unat (a + of_nat off) = unat a + off" if "unat a + len \<le> 536891392" using that assms by (simp add: unat_word_ariths unat_of_nat)
  show "flash_range (a + of_nat off) n" if "flash_range a len"
  proof -
    have f: "in_flash a" "unat a + len \<le> 134348800" using that assms by (auto simp: flash_range_def)
    have "unat a + len \<le> 536891392" using f(2) by linarith
    then show ?thesis using u f assms by (auto simp: flash_range_def in_flash_iff word_le_nat_alt word_less_nat_alt)
  qed
  show "sram_range (a + of_nat off) n" if "sram_range a len"
  proof -
    have f: "in_sram a" "unat a + len \<le> 536891392" using that assms by (auto simp: sram_range_def)
    then show ?thesis using u assms by (auto simp: sram_range_def in_sram_iff word_le_nat_alt word_less_nat_alt)
  qed
qed

lemma host_read_loop_emu:
  assumes "hw_swd hw = swdptap_init emu_wire" "hw_slack hw \<noteq> 0" "flash_range a len \<or> sram_range a len"
  shows "emu_host_ok h \<Longrightarrow> offset \<le> len \<Longrightarrow> \<exists>h'. host_read_loop (probe_link hw (Suc n) junk) emu_ap a len offset dat h =
      Some (Inr (dat @ map (\<lambda>j. mem_at (emu_memory (hd_link h)) (a + of_nat j)) [offset..<len]), h') \<and>
    emu_host_ok h' \<and> emu_memory (hd_link h') = emu_memory (hd_link h)"
proof (induction "len - offset" arbitrary: offset dat h rule: less_induct)
  case less
  show ?case
  proof (cases "offset < len")
    case False
    then show ?thesis using less.prems by (subst host_read_loop.simps) simp
  next
    case True
    let ?n = "min (len - offset) 511" and ?m = "emu_memory (hd_link h)"
    let ?bs = "map (\<lambda>j. mem_at ?m (a + of_nat offset + of_nat j)) [0..<?n]"
    have n: "?n \<le> 1024" "offset + ?n \<le> len" "0 < ?n" using True by auto
    have r: "flash_range (a + of_nat offset) ?n \<or> sram_range (a + of_nat offset) ?n" using range_part [OF n(2,3)] assms(3) by blast
    obtain s where s: "probe_link hw (Suc n) junk (request (mem_read_request (hd_dev_index h) emu_ap (a + of_nat offset) ?n)) (hd_link h) =
        Some ([REMOTE_RESP, REMOTE_RESP_OK] @ butlast (hexify ?bs) @ [REMOTE_EOM], s)" "emu_remote_ok s" "emu_memory s = ?m"
      using probe_mem_read [OF less.prems(1) [unfolded emu_host_ok_def] n(1) r assms(1,2)] by blast
    have l: "length ?bs \<le> 511" "length ?bs = ?n" by simp_all
    have "on_link (probe_link hw (Suc n) junk) (request (mem_read_request (hd_dev_index h) emu_ap (a + of_nat offset) ?n)) h =
        Some (REMOTE_RESP_OK # butlast (hexify ?bs), h\<lparr>hd_link := s\<rparr>)"
      unfolding on_link_def host_call_def s(1) using host_data(1) [OF l(1)] by simp
    then have step: "host_read_loop (probe_link hw (Suc n) junk) emu_ap a len offset dat h =
        host_read_loop (probe_link hw (Suc n) junk) emu_ap a len (offset + 511) (dat @ ?bs) (h\<lparr>hd_link := s\<rparr>)"
      using True host_data(2) [OF l(1), unfolded l(2)] by (subst host_read_loop.simps) (simp add: remote_adiv5_check_error_def Let_def)
    have bs: "?bs = map (\<lambda>j. mem_at ?m (a + of_nat j)) [offset..<offset + ?n]"
      by (rule nth_equalityI) (simp_all add: add.assoc)
    show ?thesis
    proof (cases "offset + 511 \<le> len")
      case True
      have "map (\<lambda>j. mem_at ?m (a + of_nat j)) [offset..<offset + ?n] @ map (\<lambda>j. mem_at ?m (a + of_nat j)) [offset + 511..<len] = map (\<lambda>j. mem_at ?m (a + of_nat j)) [offset..<len]"
        using True upt_add_eq_append [of offset "offset + 511" "len - (offset + 511)"] by (simp flip: map_append)
      then show ?thesis using less.hyps [of "offset + 511" "h\<lparr>hd_link := s\<rparr>" "dat @ ?bs"] True s(2,3) \<open>offset < len\<close> unfolding step bs by (auto simp: emu_host_ok_def)
    next
      case False
      then show ?thesis using s(2,3) \<open>offset < len\<close> unfolding step bs by (subst host_read_loop.simps) (auto simp: emu_host_ok_def min_def)
    qed
  qed
qed


lemma write_blocksize_cases: "al \<noteq> ALIGN_64BIT \<Longrightarrow> 0 < write_blocksize al \<and> write_blocksize al \<le> 495 \<and> write_blocksize al mod unat (acc_size al) = 0"
  by (cases al) (simp_all add: write_blocksize_def acc_size_def)

lemma unat_offset_mod: "d dvd 2 ^ 32 \<Longrightarrow> unat (a + of_nat k :: u32) mod d = (unat a + k) mod d"
  by (simp add: unat_word_ariths unat_of_nat mod_mod_cancel mod_add_right_eq)

lemma mem_access_offset:
  assumes "mem_access a (acc_size al)" "k mod unat (acc_size al) = 0"
  shows "mem_access (a + of_nat k) (acc_size al)"
proof -
  have "unat (acc_size al) dvd 2 ^ 32" by (cases al) (simp_all add: acc_size_def)
  moreover have "unat a mod unat (acc_size al) = 0" using assms(1) by (simp add: mem_access_def)
  ultimately show ?thesis using acc_size_in [of al] assms(2) by (simp add: mem_access_def unat_offset_mod mod_eq_0_iff_dvd)
qed

lemma host_write_loop_emu:
  assumes "hw_swd hw = swdptap_init emu_wire" "sram_range a (length bs)" "al \<noteq> ALIGN_64BIT" "mem_access a (acc_size al)" "length bs mod unat (acc_size al) = 0"
  shows "emu_host_ok h \<Longrightarrow> offset \<le> length bs \<Longrightarrow> offset mod unat (acc_size al) = 0 \<Longrightarrow> emu_memory (hd_link h) = sram_updated (unat (a - EMU_SRAM_BASE)) (take offset bs) m \<Longrightarrow>
    \<exists>h'. host_write_loop (probe_link hw (Suc n) junk) emu_ap al a bs (length bs) offset h = Some (Inr (), h') \<and>
    emu_host_ok h' \<and> emu_memory (hd_link h') = sram_updated (unat (a - EMU_SRAM_BASE)) bs m"
proof (induction "length bs - offset" arbitrary: offset h rule: less_induct)
  case less
  show ?case
  proof (cases "offset < length bs")
    case False
    then show ?thesis using less.prems by (subst host_write_loop.simps) simp
  next
    case True
    let ?b = "write_blocksize al" and ?sz = "unat (acc_size al)"
    let ?n = "min (length bs - offset) ?b"
    let ?bs = "take ?n (drop offset bs)"
    note wb = write_blocksize_cases [OF assms(3)]
    have n: "offset + ?n \<le> length bs" "0 < ?n" using True wb by auto
    have l: "length ?bs = ?n" using n(1) by simp
    have l': "length ?bs \<le> 495" unfolding l using wb by (simp add: min_le_iff_disj)
    have "(length bs - offset) mod ?sz = 0" using assms(5) less.prems(2,3) by (metis mod_0_imp_dvd dvd_diff_nat mod_eq_0_iff_dvd)
    then have al: "length ?bs mod ?sz = 0" unfolding l using wb by (simp add: min_def)
    have r: "sram_range (a + of_nat offset) (length ?bs)" unfolding l by (rule range_part(2) [OF n assms(2)])
    obtain s where s: "probe_link hw (Suc n) junk (request (mem_write_request (hd_dev_index h) emu_ap al (a + of_nat offset) (length ?bs) @ butlast (hexify ?bs))) (hd_link h) =
        Some (remote_respond REMOTE_RESP_OK 0, s)" "emu_remote_ok s"
      "emu_memory s = sram_updated (unat (a + of_nat offset - EMU_SRAM_BASE)) ?bs (emu_memory (hd_link h))"
      using probe_mem_write [OF less.prems(1) [unfolded emu_host_ok_def] l' r assms(3) mem_access_offset [OF assms(4) less.prems(3)] al assms(1)] by blast
    have "on_link (probe_link hw (Suc n) junk) (request (mem_write_request (hd_dev_index h) emu_ap al (a + of_nat offset) ?n @ butlast (hexify ?bs))) h =
        Some ([REMOTE_RESP_OK, 0x30], h\<lparr>hd_link := s\<rparr>)"
      unfolding on_link_def host_call_def s(1) [unfolded l] using host_ok_read by simp
    then have step: "host_write_loop (probe_link hw (Suc n) junk) emu_ap al a bs (length bs) offset h =
        host_write_loop (probe_link hw (Suc n) junk) emu_ap al a bs (length bs) (offset + ?b) (h\<lparr>hd_link := s\<rparr>)"
      using True n(1) by (subst host_write_loop.simps) (simp add: remote_adiv5_check_error_def Let_def)
    have b: "EMU_SRAM_BASE \<le> a" "unat (a + of_nat offset) = unat a + offset" "EMU_SRAM_BASE \<le> a + of_nat offset"
      using assms(2) True by (auto simp: sram_range_def in_sram_iff unat_word_ariths unat_of_nat word_le_nat_alt)
    have "unat (a + of_nat offset - EMU_SRAM_BASE) = unat (a - EMU_SRAM_BASE) + offset"
      using b by (simp add: unat_sub word_le_nat_alt)
    moreover have "take offset bs @ ?bs = take (offset + ?b) bs" by (simp add: take_add min_def)
    moreover have "length (take offset bs) = offset" using True by simp
    ultimately have m: "emu_memory s = sram_updated (unat (a - EMU_SRAM_BASE)) (take (offset + ?b) bs) m"
      unfolding s(3) less.prems(4) using sram_updated_append [of "unat (a - EMU_SRAM_BASE)" "take offset bs" ?bs m] by simp
    show ?thesis
    proof (cases "offset + ?b \<le> length bs")
      case True
      have "(offset + ?b) mod ?sz = 0" using less.prems(3) wb by (metis mod_add_eq add_0 mod_0)
      then show ?thesis using less.hyps [of "offset + ?b" "h\<lparr>hd_link := s\<rparr>"] True s(2) m wb \<open>offset < length bs\<close> unfolding step by (auto simp: emu_host_ok_def)
    next
      case False
      then show ?thesis using s(2) m unfolding step by (subst host_write_loop.simps) (auto simp: emu_host_ok_def)
    qed
  qed
qed

text \<open>C17: Memory of the emulated target from the host: a block of any length that the host writes to SRAM with the transfers of
  protocol version 3, cut into packets, sent over the link, decoded by the probe and clocked out over the SWD pins,
  arrives there and nowhere else, and reading the block back, or any block of flash or SRAM, gives the host what the
  memory holds. The byte of the stack behind the two digits of remote_send_buf, which its hexify writes, is taken to be
  free.\<close>

theorem remote_host_memory:
  assumes "hw_swd hw = swdptap_init emu_wire" "hw_slack hw \<noteq> 0" "emu_host_ok h"
    and "sram_range a (length bs)" "flash_range a' len \<or> sram_range a' len"
  shows "\<exists>h1 h2 h3.
    remote_v3_adiv5_mem_write_bytes (probe_link hw (Suc n) junk) emu_ap a bs (length bs) (MIN_ALIGN a (of_nat (length bs))) h = Some (Inr (), h1) \<and>
    emu_memory (hd_link h1) = sram_updated (unat (a - EMU_SRAM_BASE)) bs (emu_memory (hd_link h)) \<and>
    remote_v3_adiv5_mem_read_bytes (probe_link hw (Suc n) junk) emu_ap a (length bs) h1 = Some (Inr bs, h2) \<and>
    remote_v3_adiv5_mem_read_bytes (probe_link hw (Suc n) junk) emu_ap a' len h2 = Some (Inr (map (\<lambda>j. mem_at (emu_memory (hd_link h1)) (a' + of_nat j)) [0..<len]), h3) \<and>
    emu_host_ok h3 \<and> emu_memory (hd_link h3) = emu_memory (hd_link h1)"
proof -
  let ?l = "probe_link hw (Suc n) junk" and ?al = "MIN_ALIGN a (of_nat (length bs))" and ?m = "sram_updated (unat (a - EMU_SRAM_BASE)) bs (emu_memory (hd_link h))"
  have rd: "\<exists>h'. remote_v3_adiv5_mem_read_bytes ?l emu_ap a len h = Some (Inr (map (\<lambda>j. mem_at (emu_memory (hd_link h)) (a + of_nat j)) [0..<len]), h') \<and>
      emu_host_ok h' \<and> emu_memory (hd_link h') = emu_memory (hd_link h)" if "emu_host_ok h" "flash_range a len \<or> sram_range a len" for a len h
    using host_read_loop_emu [OF assms(1,2) that(2,1), of 0 n junk "[]"] that(1) by (auto simp: remote_v3_adiv5_mem_read_bytes_def)
  have "length bs < 2 ^ 32" using assms(4) by (auto simp: sram_range_def)
  note al = MIN_ALIGN_len [OF this, of a]
  have "\<exists>h1. host_write_loop ?l emu_ap ?al a bs (length bs) 0 h = Some (Inr (), h1) \<and> emu_host_ok h1 \<and> emu_memory (hd_link h1) = ?m"
    by (rule host_write_loop_emu [OF assms(1,4) MIN_ALIGN_access(3,1) al assms(3)]) simp_all
  then obtain h1 where h1: "remote_v3_adiv5_mem_write_bytes ?l emu_ap a bs (length bs) ?al h = Some (Inr (), h1)" "emu_host_ok h1" "emu_memory (hd_link h1) = ?m"
    using assms(3) by (cases "length bs = 0") (auto simp: remote_v3_adiv5_mem_write_bytes_def)
  have "map (\<lambda>j. mem_at ?m (a + of_nat j)) [0..<length bs] = bs" by (rule nth_equalityI) (simp_all add: sram_updated_at [OF assms(4)])
  then obtain h2 where h2: "remote_v3_adiv5_mem_read_bytes ?l emu_ap a (length bs) h1 = Some (Inr bs, h2)" "emu_host_ok h2" "emu_memory (hd_link h2) = ?m"
    using rd [OF h1(2) disjI2 [OF assms(4)]] h1(3) by auto
  show ?thesis using rd [OF h2(2) assms(5)] h1 h2 by auto
qed

definition emu_probe_hw :: "emu_shim swd_slave swd_pins remote_hw" where
  "emu_probe_hw =
     \<lparr>hw_swd = swdptap_init emu_wire,
      hw_jtag = \<lparr>proc_reset = Some, proc_next = (\<lambda>_ _ p. Some (True, p)), proc_tms_seq = (\<lambda>_ _. Some), proc_tdi_tdo_seq = (\<lambda>out _ _ _ p. Some (out, p)),
        proc_tdi_seq = (\<lambda>_ _ _. Some), proc_cycle = (\<lambda>_ _ _. Some), tap_idle_cycles = 1\<rparr>,
      hw_jtagtap_init = Some, hw_shared = True, hw_slack = 1, hw_voltage = (\<lambda>_. ascii ''3.3V''), hw_nrst_set = (\<lambda>_ p. p), hw_nrst_get = (\<lambda>_. False),
      hw_frequency_set = (\<lambda>_ p. p), hw_frequency_get = (\<lambda>_. 1000000), hw_power = None, hw_ident = ascii ''ESP32-S3'', hw_clk_output_enable = (\<lambda>_ p. p),
      hw_spi = \<lparr>spi_init = (\<lambda>_ p. (False, p)), spi_deinit = (\<lambda>_ p. (False, p)), spi_chip_select = (\<lambda>_ p. (False, p)), spi_xfer = (\<lambda>_ _ p. (0, p))\<rparr>\<rparr>"

definition emu_host :: "emu_remote host_dp" where
  "emu_host =
     \<lparr>hd_link = \<lparr>rm_port = sw_port emu_pins, rm_fault = 0, rm_dev_index = 0, rm_if = Some Remote_swd, rm_swd_proc = True, rm_jtag_proc = False,
        rm_devs = replicate 32 zero_dev, rm_dev_count = 0, rm_expired = [], rm_debug_bmp = False\<rparr>, hd_fault = 0, hd_dev_index = 0\<rparr>"

theorem remote_host_memory_witness:
  "\<exists>h1 h2 h3.
    remote_v3_adiv5_mem_write_bytes (probe_link emu_probe_hw (Suc 0) (\<lambda>_ _. [])) emu_ap 0x20000100 (replicate 600 7) (length (replicate 600 (7 :: byte)))
      (MIN_ALIGN 0x20000100 (of_nat (length (replicate 600 (7 :: byte))))) emu_host = Some (Inr (), h1) \<and>
    emu_memory (hd_link h1) = sram_updated (unat (0x20000100 - EMU_SRAM_BASE)) (replicate 600 7) (emu_memory (hd_link emu_host)) \<and>
    remote_v3_adiv5_mem_read_bytes (probe_link emu_probe_hw (Suc 0) (\<lambda>_ _. [])) emu_ap 0x20000100 (length (replicate 600 (7 :: byte))) h1 = Some (Inr (replicate 600 7), h2) \<and>
    remote_v3_adiv5_mem_read_bytes (probe_link emu_probe_hw (Suc 0) (\<lambda>_ _. [])) emu_ap 0x8000000 2000 h2 =
      Some (Inr (map (\<lambda>j. mem_at (emu_memory (hd_link h1)) (0x8000000 + of_nat j)) [0..<2000]), h3) \<and>
    emu_host_ok h3 \<and> emu_memory (hd_link h3) = emu_memory (hd_link h1)"
  by (rule remote_host_memory)
    (simp_all add: emu_probe_hw_def emu_host_ok_def emu_remote_ok_def emu_host_def swd_of_def emu_line_ok_def emu_line_def emu_pins_def clock_low_def turn_def
      emu_wire_def slave_rise_def slave_idle_def shim_ok_def shim_statics_def sram_range_def flash_range_def in_sram_iff in_flash_iff)

end
