(* ===== verification/Spec2Isabelle.thy ===== *)
theory Spec2Isabelle
  imports Emu_Scan Gdb_Pointers Semihosting_Session Jtag_Gpio Swd_Emu Remote_Session
begin

text \<open>
  Verification of the Black Magic debug probe firmware for the M5 Cardputer (src/). The firmware is a GDB server
  on an ESP32-S3: packets come in over the link, the target layer carries them out on a microcontroller behind an
  Arm debug port, and a stand-alone mode programs files from the device itself. It also has an emulated target, an
  STM32F1 in software behind the same debug port functions, which this development uses as the device its theorems
  are about: everything from a packet on the link down to a byte of the flash array is code of the repository.

  Paths below are relative to src/components/blackmagic/blackmagic-fw/src/ unless they start with components/.


  \<^bold>\<open>How the code is modelled.\<close> A C function is a HOL function of the same name; state is passed explicitly
  and the result is an option, None for what C gives no meaning to (an access outside an array, a null pointer, a
  variable that was never set) and for a loop that does not end. A theorem that a call is Some therefore says
  that none of these happens. Machine integers are words of their width, byte order is little-endian, structures
  are records, function pointers are fields of records of functions over a state type. Outcomes of the platform
  (allocation, time-outs, the clock) are lists in the state. Prelude has the word types, packing and the generic
  lemmas; Scanf the parts of the C library the parsers use.

  \<^bold>\<open>Theories, from the device up.\<close>
  \<^item> Emu_Target (target/emu_target.c): flash pages, SRAM, ROM table, core registers and flash controller of the
    emulated device behind emu_target_load and emu_target_store. Theorems: a store only clears bits of flash, a
    locked controller keeps the flash, which sequence unlocks it, where a load leaves its array, and that the
    status register stays free of errors in every reachable state.
  \<^item> Emu_Shim (target/emu_shim.c): the transport with posted reads and auto-increment.
  \<^item> Adiv5 (target/adiv5.c): block reads and writes through an access port, over the interface mem_ap, which says
    what the data register does to the bus. Adiv5_Emu interprets mem_ap on the emulated transport.
  \<^item> Target (target/target.c): regions, memory and register access, breakpoint list, memory map. Theorems: when
    the memory map is complete and when it overruns its buffer. Target_Memory is the contract target_memory of a
    range of addresses that behaves as memory, for clients of the target layer, and the weaker target_answers of a
    target of which only is known that it answers accesses that fit their buffer.
  \<^item> Target_Flash (target/target_flash.c): the buffered flash layer, over the interface flash_driver, which says
    what the driver of a region erases and programs. A session of erase, writes and completion leaves the
    content the writes ask for.
  \<^item> Cortexm, Cortexm_Run, Cortexm_Break, Cortexm_Probe (target/cortexm.c, target/cortex.c): the core: memory,
    registers, reset, halt, breakpoints, faults, stubs, and the probe that offers a core to the drivers.
    Cortexm_Break keeps breakpoint list and comparator masks consistent over the interface core_bus, up to one
    unit without an owner for each list entry that could not be allocated.
    Maths_Utils (maths_utils.c) has ulog2.
  \<^item> Stm32f1 (target/stm32f1.c): the flash driver and its probes; Stm32f1_Emu interprets flash_driver on it over
    the emulated device.
  \<^item> Adiv5_Discover (target/adiv5.c) and Emu_Scan: the discovery of a debug port from reset to a list of targets,
    and that it finds the emulated device.
  \<^item> Emu_Session: a programming session, mass erase, registers, breakpoints and checksum on the emulated device,
    each through all the layers. Crc32 (crc32.c) has the checksum and its equivalence with polynomial division.
  \<^item> Standalone_Load (components/ui/bmp_standalone_load.c, components/ui/ui_debug.c) and Emu_Load: the loader of ELF
    and binary files over a sink, its refusals, and that a file that fits arrives in the flash.
  \<^item> Hex_Utils, Gdb_Packet (hex_utils.c, gdb_packet.c): hexadecimal text and the framing of packets, both ways:
    round trips, bad checksums in both acknowledgement modes, bounds of the buffer, resending.
  \<^item> Rtt (rtt.c): the search for a control block in target memory, the ring buffers of its channels, the poll. The
    invariant of its tables is kept. Rtt_Search shows the rolling hash equivalent to hashing each window; Rtt_Fifo
    that a poll refines a transfer between queues, over target_memory; Rtt_Bounds that a poll runs to its end with
    every access inside its buffer, over target_answers. Emu_Rtt interprets both contracts on the emulated device.
  \<^item> Gdb_Main (gdb_main.c, main.c): the server: a handler per packet, the list of targets, the poll of a running
    target and the main loop. bmp_poll_loop is the loop body of the upstream firmware (main.c); the thread of the
    board, src/main/main.c, is gdb_application_thread, which takes a packet without the poll before it: with no target
    running both do the same. Theorems: binary and hexadecimal writes agree, documents are transferred whole, what
    happens without a target. Gdb_Pointers has the life of the pointers cur_target and last_target: a target has the
    controller of the server or that of the user interface (components/ui/ui_debug.c), whose destroy callbacks differ;
    every sequence of attaching, detaching, killing, resetting and scanning by the server keeps the pointers valid,
    and one with the user interface in it leaves one dangling. Gdb_Session lets a debugger talk to it: the
    flash packets refine a session of the flash layer, and on the emulated device the flash reads back over the
    link as written.
  \<^item> Semihosting (target/semihosting.c): the system calls of a target, carried out by the debugger through
    File-I/O packets the server sends and waits for. Semihosting_Session runs calls against a debugger: what is
    on the link, what the target gets, and two cases in which it gets the wrong thing. The run control of
    Cortexm_Run has semihosting as a parameter, because the state of that layer does not hold the link.
  \<^item> Swdptap (platforms/common/swdptap.c): the bit-banged SWD port down to the edges of SWCLK. Adiv5_Swd
    (target/adiv5_swd.c): requests, accesses with their retries and exceptions, error recovery, the scan. Swd_Line
    states which edges the functions of a port send (swd_port, interpreted on the bit-banged port) and the protocol
    of a device (swd_target); over both, an access of the debug port is an access to a register. Swd_Emu has a
    device that keeps the protocol and puts the registers of the emulated target behind it: mem_ap holds there too,
    so block accesses through the pins reach its memory.
  \<^item> Jtagtap (platforms/common/jtagtap.c): the bit-banged JTAG port down to the edges of TCK; both speeds do the same.
    Jtag_Scan (target/jtag_scan.c, target/jtag_devs.c): the scan of a chain and the access to one device of it.
    Jtag_Chain states what the functions of a port do to the devices behind it (jtag_port, interpreted on the
    bit-banged port) and what IEEE 1149.1 asks of a chain of devices (tap_chain); over both, Jtag_Session shows that
    a scan finds every device and that instructions and data reach the device they are meant for. Jtag_Gpio has
    the theorems on the bit-banged port and a chain that keeps the laws of tap_chain.
  \<^item> Adiv5_Jtag (target/adiv5_jtag.c): the debug port over JTAG; over tap_chain, an access is the shift of one request
    through the register of the device and the answer to the request before it.
  \<^item> Remote (remote.c, target/spi.c in Spi): the remote protocol, by which a program on a host uses the probe: every
    packet, over SWD, JTAG and SPI functions that are parameters, with the exceptions that reach its TRY_CATCH.
    Remote_Proto shows the form of responses and the sizes of buffers that are exceeded. Remote_Host
    (platforms/hosted/remote) has the host's end of it: its SWD functions are those of the probe, so swd_port holds
    for them too. Remote_Session joins both ends: with the contract dp_embedding, which carries the facts of a debug
    port over to the port with exceptions, a block the host writes reaches the memory of the emulated target.
  \<^item> This theory joins the scan and the stand-alone loader.

  \<^bold>\<open>Fuel and bounds.\<close> Loops whose end the data decides carry fuel, and the theorems say how much is enough:
  two levels for the ROM tables of the emulated device, one more
  than the number of requests for an access over SWD that is aborted, one step for each block of 128 bytes of a search by
  hash and for each 63 bytes of any search. Loops
  that end for every input are functions with a termination proof. Waiting loops end when the list of time-outs
  says so, expired once it is used up. The emulated device has 128 KiB of flash at 0x8000000 and 20 KiB of SRAM at
  0x20000000; the bounds in the theorems are these.

  \<^bold>\<open>Not modelled.\<close> The pin scanner, RISC-V, Cortex-A and Cortex-R cores and the
  flash drivers of other families: their code is reached through the same function pointers, and probes that
  are not modelled are parameters. Monitor commands and register descriptions are parameters of the server. Of the host's program only the functions
  named above are modelled. Screen, keyboard, USB, SD card and operating system glue. Exceptions raised below
  the target layer (those of the debug ports are modelled up to their operations and in the remote protocol), LEDs and debug output are left out.
\<close>

section \<open>The stand-alone programmer on the emulated target\<close>

text \<open>C4: the two operations of the stand-alone programmer on the emulated target follow each other: the scan
  finds the device, and a binary file that fits the flash is then written to it, so that the flash holds the
  file. The attach of the user interface between the two, which halts the core, is left out.\<close>

theorem scan_then_load:
  assumes "plat_mallocs env = []" "\<not> plat_nrst env" "no_oom (tgt (emu_scan_reset (cm_dp env)))" "2 \<le> fuel"
    and "f \<noteq> []" "134217728 \<le> unat base" "unat base + length f \<le> 134348800"
  shows "\<exists>t s t'. emu_scan sh other ext nrst fuel env = Some (True, s) \<and> d_targets s = [(emu_ops sh, t)] \<and>
    bmp_load_bin f base (target_sink (emu_ops sh)) (put_env (d_env s) t) =
      Some (Inr \<lparr>lr_segments = 1, lr_bytes = of_nat (length f), lr_entry = base\<rparr>, t') \<and>
    flash_bytes t' (unat base) (length f) = f"
proof -
  obtain k where k: "fuel = Suc (Suc k)" using assms(4) by (metis add_2_eq_Suc le_Suc_ex)
  obtain t s where s: "emu_scan sh other ext nrst fuel env = Some (True, s)" "d_targets s = [(emu_ops sh, t)]"
    "found (tgt (emu_scan_reset (cm_dp env))) t" "d_env s = t\<lparr>cm_dp := cm_dp (d_env s)\<rparr>" "shim_ok (cm_dp (d_env s))"
    "quiet (tgt (cm_dp t)) (tgt (cm_dp (d_env s)))"
    using emu_scan_result [OF assms(1-3), of sh other ext nrst k, folded k] by (elim exE conjE) (rule that)
  have r: "emu_ready (put_env (d_env s) t)" "t_flash (put_env (d_env s) t) = [emu_region]" "list_all id (plat_mallocs (put_env (d_env s) t))"
    using found_seen(2) [OF s(3-6)] by (simp_all add: found_def)
  obtain t' where "bmp_load_bin f base (target_sink (emu_ops sh)) (put_env (d_env s) t) =
      Some (Inr \<lparr>lr_segments = 1, lr_bytes = of_nat (length f), lr_entry = base\<rparr>, t')" "flash_bytes t' (unat base) (length f) = f"
    using load_bin_ok [OF r assms(5-7), of sh] by blast
  then show ?thesis using s(1,2) by blast
qed

theorem scan_then_load_witness:
  "\<forall>sh other ext. \<exists>t s t'. emu_scan sh other ext False 2 (emu_env\<lparr>cm_dp := shim_statics\<rparr>) = Some (True, s) \<and> d_targets s = [(emu_ops sh, t)] \<and>
    bmp_load_bin [1, 2, 3] 0x8000100 (target_sink (emu_ops sh)) (put_env (d_env s) t) =
      Some (Inr \<lparr>lr_segments = 1, lr_bytes = 3, lr_entry = 0x8000100\<rparr>, t') \<and> flash_bytes t' 134217984 3 = [1, 2, 3]"
proof (intro allI)
  fix sh other ext
  show "\<exists>t s t'. emu_scan sh other ext False 2 (emu_env\<lparr>cm_dp := shim_statics\<rparr>) = Some (True, s) \<and> d_targets s = [(emu_ops sh, t)] \<and>
    bmp_load_bin [1, 2, 3] 0x8000100 (target_sink (emu_ops sh)) (put_env (d_env s) t) =
      Some (Inr \<lparr>lr_segments = 1, lr_bytes = 3, lr_entry = 0x8000100\<rparr>, t') \<and> flash_bytes t' 134217984 3 = [1, 2, 3]"
    using scan_then_load [of "emu_env\<lparr>cm_dp := shim_statics\<rparr>" 2 "[1, 2, 3]" "0x8000100" sh other ext False] emu_boot_ok(3)
    by (simp add: emu_env_def numeral_3_eq_3)
qed

end
